(* ===== verification/Prelude.thy ===== *)
theory Prelude
  imports Main "HOL-Library.Word"
begin

text \<open>
  Shared vocabulary of the development: the machine types of the C++ sources, the
  byte-buffer operations that stand for \<open>memcpy\<close>, the compile-time logarithms the
  templates use, and the generic lemmas about masks and slices that the component
  theories rest on.
\<close>

unbundle bit_operations_syntax

section \<open>Machine types\<close>

type_synonym u8 = "8 word"
type_synonym u16 = "16 word"
type_synonym u32 = "32 word"
type_synonym u64 = "64 word"

named_theorems slice_simps \<open>lemmas about lengths and elements of written slices\<close>

section \<open>Byte buffers\<close>

text \<open>
  \<open>write_at xs off ys\<close> is the content of an array \<open>xs\<close> after
  \<open>memcpy(xs + off, ys, |ys|)\<close>; \<open>read_at xs off n\<close> is what
  \<open>memcpy(buffer, xs + off, n)\<close> leaves in the buffer. Both are used only with
  \<open>off + n \<le> |xs|\<close>.
\<close>

definition write_at :: "'a list \<Rightarrow> nat \<Rightarrow> 'a list \<Rightarrow> 'a list" where
  "write_at xs off ys = take off xs @ ys @ drop (off + length ys) xs"

definition read_at :: "'a list \<Rightarrow> nat \<Rightarrow> nat \<Rightarrow> 'a list" where
  "read_at xs off n = take n (drop off xs)"

lemma length_write_at [simp, slice_simps]:
  "off + length ys \<le> length xs \<Longrightarrow> length (write_at xs off ys) = length xs"
  by (simp add: write_at_def)

lemma nth_write_at [slice_simps]:
  "off + length ys \<le> length xs \<Longrightarrow> i < length xs \<Longrightarrow>
   write_at xs off ys ! i =
     (if off \<le> i \<and> i < off + length ys then ys ! (i - off) else xs ! i)"
  by (auto simp: write_at_def nth_append min_def)

lemma length_read_at [simp, slice_simps]:
  "off + n \<le> length xs \<Longrightarrow> length (read_at xs off n) = n"
  by (simp add: read_at_def)

lemma nth_read_at [slice_simps]:
  "off + n \<le> length xs \<Longrightarrow> i < n \<Longrightarrow> read_at xs off n ! i = xs ! (off + i)"
  by (simp add: read_at_def)

lemma read_at_map:
  "off + n \<le> length xs \<Longrightarrow> read_at xs off n = map (\<lambda>i. xs ! (off + i)) [0..<n]"
  by (rule nth_equalityI) (simp_all add: nth_read_at)

lemma read_at_write_at:
  "off + length ys \<le> length xs \<Longrightarrow> read_at (write_at xs off ys) off (length ys) = ys"
  by (simp add: write_at_def read_at_def min_def)

lemma nth_update_if:
  "xs[i := x] ! j = (if i = j \<and> i < length xs then x else xs ! j)"
  by (cases "i < length xs") (auto simp: nth_list_update list_update_beyond)

section \<open>Compile-time logarithms\<close>

text \<open>
  The templates \<open>Log2\<close> and \<open>CeilLog2\<close>. Instantiating them at 0 does not compile; the
  models are only used at positive arguments.
\<close>

fun template_log2 :: "nat \<Rightarrow> nat" where
  "template_log2 n = (if n \<le> 1 then 0 else template_log2 (n div 2) + 1)"

declare template_log2.simps [simp del]

definition template_ceil_log2 :: "nat \<Rightarrow> nat" where
  "template_ceil_log2 n =
     (if n > 2 ^ template_log2 n then template_log2 n + 1 else template_log2 n)"

lemma template_log2_bounds:
  "0 < n \<Longrightarrow> 2 ^ template_log2 n \<le> n \<and> n < 2 ^ (template_log2 n + 1)"
proof (induction n rule: template_log2.induct)
  case (1 n)
  show ?case
  proof (cases "n \<le> 1")
    case True
    with 1 show ?thesis by (subst (1 2) template_log2.simps) simp
  next
    case False
    with 1 have ih: "2 ^ template_log2 (n div 2) \<le> n div 2"
      "n div 2 < 2 ^ (template_log2 (n div 2) + 1)" by auto
    have "2 * 2 ^ template_log2 (n div 2) \<le> n" using ih(1) by linarith
    moreover have "n < 2 * 2 ^ (template_log2 (n div 2) + 1)" using ih(2) by linarith
    ultimately show ?thesis using False by (simp add: template_log2.simps [of n])
  qed
qed

lemma template_ceil_log2_ge: "0 < n \<Longrightarrow> n \<le> 2 ^ template_ceil_log2 n"
  using template_log2_bounds [of n] by (auto simp: template_ceil_log2_def)

lemma template_log2_pow2 [simp]: "template_log2 (2 ^ k) = k"
proof -
  have b: "2 ^ template_log2 (2 ^ k) \<le> (2::nat) ^ k"
    "(2::nat) ^ k < 2 ^ (template_log2 (2 ^ k) + 1)"
    using template_log2_bounds [of "2 ^ k"] by simp_all
  from b(1) have "template_log2 (2 ^ k) \<le> k" by simp
  moreover from b(2) have "k < template_log2 (2 ^ k) + 1"
    by (rule power_less_imp_less_exp [rotated]) simp
  ultimately show ?thesis by simp
qed

lemma template_ceil_log2_pow2 [simp]: "template_ceil_log2 (2 ^ k) = k"
  by (simp add: template_ceil_log2_def)

section \<open>Modular arithmetic\<close>

lemma pow2_le_imp_le: "(2::nat) ^ m \<le> 2 ^ n \<Longrightarrow> m \<le> n"
  by simp

lemma mod_add_neq:
  fixes a i j n :: nat
  assumes "i < j" and "j - i < n"
  shows "(a + i) mod n \<noteq> (a + j) mod n"
proof
  assume "(a + i) mod n = (a + j) mod n"
  then have "n dvd (a + j) - (a + i)"
    using assms(1) mod_eq_dvd_iff_nat [of "a + i" "a + j" n] by simp
  then have "n dvd j - i" by simp
  then show False using assms by (auto dest: dvd_imp_le)
qed

section \<open>Masks\<close>

lemma and_low_mask: "w AND (2 ^ k - 1) = take_bit k (w :: 'a::len word)"
  by (simp add: take_bit_eq_mask mask_eq_exp_minus_1)

lemma unat_and_low_mask: "unat (w AND (2 ^ k - 1) :: 'a::len word) = unat w mod 2 ^ k"
  by (simp add: and_low_mask unsigned_take_bit_eq take_bit_eq_mod [where 'a = nat])

lemma unat_drop_bit: "unat (drop_bit k (w :: 'a::len word)) = unat w div 2 ^ k"
  by (simp add: unsigned_drop_bit_eq drop_bit_eq_div [where 'a = nat] take_bit_nat_eq_self)

lemma and_high_mask:
  "w AND NOT (mask k) = push_bit k (drop_bit k (w :: 'a::len word))"
  by (rule bit_eqI) (auto simp: bit_simps)

lemma unat_and_high_mask:
  "unat (w AND NOT (mask k) :: 'a::len word) = unat w - unat w mod 2 ^ k"
proof -
  have "push_bit k (drop_bit k w) + take_bit k w = w" by (rule bits_ident)
  then have "push_bit k (drop_bit k w) = w - take_bit k w" by (metis add_diff_cancel_right')
  moreover have "take_bit k w \<le> w"
    by (simp add: word_le_nat_alt unsigned_take_bit_eq take_bit_eq_mod [where 'a = nat])
  ultimately show ?thesis
    by (simp add: and_high_mask unat_sub unsigned_take_bit_eq take_bit_eq_mod [where 'a = nat])
qed

section \<open>Address segments\<close>

definition in_seg :: "'p::len word \<Rightarrow> nat \<Rightarrow> 'p word \<Rightarrow> bool" where
  "in_seg pa n x \<longleftrightarrow> unat pa \<le> unat x \<and> unat x < unat pa + n"

definition seg_upd :: "('p::len word \<Rightarrow> u8) \<Rightarrow> 'p word \<Rightarrow> u8 list \<Rightarrow> 'p word \<Rightarrow> u8" where
  "seg_upd f pa bs = (\<lambda>x. if in_seg pa (length bs) x then bs ! (unat x - unat pa) else f x)"

definition seg_read :: "('p::len word \<Rightarrow> u8) \<Rightarrow> 'p word \<Rightarrow> nat \<Rightarrow> u8 list" where
  "seg_read f pa n = map (\<lambda>j. f (pa + of_nat j)) [0..<n]"

lemma length_seg_read [simp]: "length (seg_read f pa n) = n"
  by (simp add: seg_read_def)

lemma unat_seg_add:
  assumes "unat (pa :: 'p::len word) + n \<le> 2 ^ LENGTH('p)" and "j < n"
  shows "unat (pa + of_nat j) = unat pa + j"
proof -
  have "unat pa + j < 2 ^ LENGTH('p)" using assms by simp
  then show ?thesis by (simp add: unat_word_ariths unat_of_nat)
qed

lemma in_segE:
  assumes "in_seg pa n (x :: 'p::len word)"
  shows "unat x - unat pa < n" and "pa + of_nat (unat x - unat pa) = x"
  using assms by (auto simp: in_seg_def of_nat_diff)

lemma seg_read_cong:
  assumes "unat (pa :: 'p::len word) + n \<le> 2 ^ LENGTH('p)"
    and "\<And>x. in_seg pa n x \<Longrightarrow> f x = g x"
  shows "seg_read f pa n = seg_read g pa n"
  unfolding seg_read_def using assms(2) by (auto simp: in_seg_def unat_seg_add [OF assms(1)])

lemma nth_seg_read:
  assumes "in_seg pa n x"
  shows "seg_read f pa n ! (unat x - unat pa) = f x"
  using in_segE [OF assms] by (simp add: seg_read_def)

end
