(* ===== verification/Ring_Queue.thy ===== *)
theory Ring_Queue
  imports Prelude
begin

text \<open>
  \<open>util/queue\<close>: the bounded queue on a power-of-two ring buffer that the processor
  models use for their instruction and reservation queues. The indices are the 32-bit
  unsigned members of the class; every index update is masked with \<open>BUFFER_SIZE - 1\<close>.
  With \<open>CONFIG::DEBUG\<close> the operations throw \<open>QueueException\<close>, a value of
  \<open>queue_exception\<close> here; without it the guards are compiled out, as the definitions say.
  The abstraction \<open>q_list\<close> reads the ring as a list from front to back, and the locale
  \<open>fifo\<close> is the contract the clients rely on.
\<close>

section \<open>State and operations\<close>

datatype queue_exception = QOutOfRange | QOverflow | QUnderflow

record queue_config =
  q_debug :: bool
  q_SIZE :: nat

record 'e ring_queue =
  q_size :: u32
  front_idx :: u32
  back_idx :: u32
  q_buffer :: "'e list"

definition BUFFER_SIZE :: "queue_config \<Rightarrow> nat" where
  "BUFFER_SIZE cf = 2 ^ template_ceil_log2 (q_SIZE cf)"

definition ring_mask :: "queue_config \<Rightarrow> u32 \<Rightarrow> u32" where
  "ring_mask cf i = i AND (2 ^ template_ceil_log2 (q_SIZE cf) - 1)"

definition q_init :: "'e list \<Rightarrow> 'e ring_queue" where
  "q_init storage = \<lparr>q_size = 0, front_idx = 0, back_idx = 0, q_buffer = storage\<rparr>"

definition q_clear :: "'e ring_queue \<Rightarrow> 'e ring_queue" where
  "q_clear q = q\<lparr>front_idx := 0, back_idx := 0, q_size := 0\<rparr>"

definition q_at :: "queue_config \<Rightarrow> 'e ring_queue \<Rightarrow> u32 \<Rightarrow> queue_exception + 'e" where
  "q_at cf q idx =
     (if q_debug cf \<and> idx \<ge> q_size q then Inl QOutOfRange
      else Inr (q_buffer q ! unat (ring_mask cf (front_idx q + idx))))"

text \<open>
  \<open>Allocate\<close> returns a pointer into the buffer; the model returns the slot's index. The
  comparison \<open>size >= CONFIG::SIZE\<close> is between unsigned integers.
\<close>

definition q_allocate ::
  "queue_config \<Rightarrow> 'e ring_queue \<Rightarrow> queue_exception + (u32 \<times> 'e ring_queue)" where
  "q_allocate cf q =
     (if q_debug cf \<and> unat (q_size q) \<ge> q_SIZE cf then Inl QOverflow
      else Inr (back_idx q,
                q\<lparr>back_idx := ring_mask cf (back_idx q + 1), q_size := q_size q + 1\<rparr>))"

definition q_push ::
  "queue_config \<Rightarrow> 'e \<Rightarrow> 'e ring_queue \<Rightarrow> queue_exception + 'e ring_queue" where
  "q_push cf elt q =
     (if q_debug cf \<and> unat (q_size q) \<ge> q_SIZE cf then Inl QOverflow
      else Inr (q\<lparr>q_buffer := (q_buffer q)[unat (back_idx q) := elt],
                  back_idx := ring_mask cf (back_idx q + 1), q_size := q_size q + 1\<rparr>))"

fun q_push_n ::
  "queue_config \<Rightarrow> 'e list \<Rightarrow> 'e ring_queue \<Rightarrow> queue_exception + 'e ring_queue" where
  "q_push_n cf [] q = Inr q"
| "q_push_n cf (e # es) q =
     (case q_push cf e q of Inl x \<Rightarrow> Inl x | Inr q' \<Rightarrow> q_push_n cf es q')"

definition q_front :: "'e ring_queue \<Rightarrow> 'e" where
  "q_front q = q_buffer q ! unat (front_idx q)"

definition q_pop :: "queue_config \<Rightarrow> 'e ring_queue \<Rightarrow> queue_exception + 'e ring_queue" where
  "q_pop cf q =
     (if q_debug cf \<and> q_size q = 0 then Inl QUnderflow
      else Inr (q\<lparr>front_idx := ring_mask cf (front_idx q + 1), q_size := q_size q - 1\<rparr>))"

fun q_pop_n ::
  "queue_config \<Rightarrow> nat \<Rightarrow> 'e ring_queue \<Rightarrow> queue_exception + 'e ring_queue" where
  "q_pop_n cf 0 q = Inr q"
| "q_pop_n cf (Suc n) q =
     (case q_pop cf q of Inl x \<Rightarrow> Inl x | Inr q' \<Rightarrow> q_pop_n cf n q')"

definition q_available :: "queue_config \<Rightarrow> 'e ring_queue \<Rightarrow> u32" where
  "q_available cf q = of_nat (q_SIZE cf) - q_size q"

definition q_empty :: "'e ring_queue \<Rightarrow> bool" where
  "q_empty q \<longleftrightarrow> q_size q = 0"

definition q_full :: "queue_config \<Rightarrow> 'e ring_queue \<Rightarrow> bool" where
  "q_full cf q \<longleftrightarrow> unat (q_size q) \<ge> q_SIZE cf"

text \<open>
  The loop of \<open>Remove\<close> stops when its leading index meets \<open>back_idx\<close>. It runs on
  fuel; \<open>q_remove\<close> gives it \<open>BUFFER_SIZE\<close> steps, which always suffice for a
  well-formed queue (lemma \<open>q_remove_defined\<close>).
\<close>

fun q_shift :: "queue_config \<Rightarrow> nat \<Rightarrow> u32 \<Rightarrow> u32 \<Rightarrow> u32 \<Rightarrow> 'e list \<Rightarrow> 'e list option" where
  "q_shift cf 0 i j back buf = (if j = back then Some buf else None)"
| "q_shift cf (Suc n) i j back buf =
     (if j = back then Some buf
      else q_shift cf n (ring_mask cf (i + 1)) (ring_mask cf (j + 1)) back
             (buf[unat i := buf ! unat j]))"

definition q_remove ::
  "queue_config \<Rightarrow> u32 \<Rightarrow> 'e ring_queue \<Rightarrow> (queue_exception + 'e ring_queue) option" where
  "q_remove cf idx q =
     (if q_debug cf \<and> idx \<ge> q_size q then Some (Inl QOutOfRange)
      else if q_debug cf \<and> q_size q = 0 then Some (Inl QUnderflow)
      else let i = ring_mask cf (front_idx q + idx); j = ring_mask cf (i + 1)
           in case q_shift cf (BUFFER_SIZE cf) i j (back_idx q) (q_buffer q) of
                None \<Rightarrow> None
              | Some buf \<Rightarrow>
                  Some (Inr (q\<lparr>q_buffer := buf, back_idx := ring_mask cf (back_idx q - 1),
                               q_size := q_size q - 1\<rparr>)))"

section \<open>Well-formedness and the list abstraction\<close>

definition q_config_ok :: "queue_config \<Rightarrow> bool" where
  "q_config_ok cf \<longleftrightarrow> 0 < q_SIZE cf \<and> q_SIZE cf \<le> 2 ^ 31"

definition q_wf :: "queue_config \<Rightarrow> 'e ring_queue \<Rightarrow> bool" where
  "q_wf cf q \<longleftrightarrow>
     q_config_ok cf \<and> length (q_buffer q) = BUFFER_SIZE cf \<and>
     unat (q_size q) \<le> q_SIZE cf \<and> unat (front_idx q) < BUFFER_SIZE cf \<and>
     unat (back_idx q) = (unat (front_idx q) + unat (q_size q)) mod BUFFER_SIZE cf"

definition q_list :: "queue_config \<Rightarrow> 'e ring_queue \<Rightarrow> 'e list" where
  "q_list cf q =
     map (\<lambda>i. q_buffer q ! ((unat (front_idx q) + i) mod BUFFER_SIZE cf)) [0..<unat (q_size q)]"

lemma BUFFER_SIZE_bounds:
  assumes "q_config_ok cf"
  shows "q_SIZE cf \<le> BUFFER_SIZE cf" and "BUFFER_SIZE cf \<le> 2 ^ 31" and "0 < BUFFER_SIZE cf"
proof -
  from assms have s: "0 < q_SIZE cf" "q_SIZE cf \<le> 2 ^ 31" by (auto simp: q_config_ok_def)
  then show "q_SIZE cf \<le> BUFFER_SIZE cf"
    by (simp add: BUFFER_SIZE_def template_ceil_log2_ge)
  have "(2::nat) ^ template_log2 (q_SIZE cf) \<le> q_SIZE cf"
    using template_log2_bounds [of "q_SIZE cf"] s by blast
  then have "(2::nat) ^ template_log2 (q_SIZE cf) \<le> 2 ^ 31" using s(2) by (rule le_trans)
  then have "template_log2 (q_SIZE cf) \<le> 31" by (rule pow2_le_imp_le)
  moreover have "template_log2 (q_SIZE cf) \<noteq> 31"
    if "q_SIZE cf > 2 ^ template_log2 (q_SIZE cf)"
    using that s(2) by auto
  ultimately have "template_ceil_log2 (q_SIZE cf) \<le> 31"
    by (auto simp: template_ceil_log2_def)
  then show "BUFFER_SIZE cf \<le> 2 ^ 31"
    unfolding BUFFER_SIZE_def by (rule power_increasing) simp
  show "0 < BUFFER_SIZE cf" by (simp add: BUFFER_SIZE_def)
qed

lemma unat_ring_mask: "unat (ring_mask cf i) = unat i mod BUFFER_SIZE cf"
  unfolding ring_mask_def BUFFER_SIZE_def by (rule unat_and_low_mask)

lemma unat_ring_mask_lt [simp]: "unat (ring_mask cf i) < BUFFER_SIZE cf"
  by (simp add: unat_ring_mask BUFFER_SIZE_def)

lemma BUFFER_SIZE_dvd: "q_config_ok cf \<Longrightarrow> BUFFER_SIZE cf dvd 2 ^ 32"
proof -
  assume "q_config_ok cf"
  then have "(2::nat) ^ template_ceil_log2 (q_SIZE cf) \<le> 2 ^ 31"
    using BUFFER_SIZE_bounds(2) by (simp add: BUFFER_SIZE_def)
  then have "template_ceil_log2 (q_SIZE cf) \<le> 31" by (rule pow2_le_imp_le)
  then show ?thesis unfolding BUFFER_SIZE_def by (intro le_imp_power_dvd) simp
qed

lemma unat_ring_mask_add:
  "q_config_ok cf \<Longrightarrow> unat (ring_mask cf (i + j)) = (unat i + unat j) mod BUFFER_SIZE cf"
  using BUFFER_SIZE_dvd [of cf]
  by (simp add: unat_ring_mask unat_word_ariths mod_mod_cancel)

lemma unat_ring_mask_dec:
  assumes ok: "q_config_ok cf" and b: "unat i < BUFFER_SIZE cf"
  shows "unat (ring_mask cf (i - 1)) = (unat i + BUFFER_SIZE cf - 1) mod BUFFER_SIZE cf"
proof (cases "i = 0")
  case True
  have "unat (ring_mask cf (i - 1)) = (2 ^ 32 - 1) mod BUFFER_SIZE cf"
    using True by (simp add: unat_ring_mask unsigned_minus_1_eq_mask mask_eq_exp_minus_1)
  also have "\<dots> = BUFFER_SIZE cf - 1"
  proof -
    from BUFFER_SIZE_dvd [OF ok] obtain m where m: "2 ^ 32 = BUFFER_SIZE cf * m" by (elim dvdE)
    then have "0 < m" by (cases m) auto
    then obtain m' where "m = Suc m'" by (cases m) auto
    with m have e: "(2::nat) ^ 32 = BUFFER_SIZE cf * m' + BUFFER_SIZE cf" by simp
    have "0 < BUFFER_SIZE cf" by (simp add: BUFFER_SIZE_def)
    with e have "(2::nat) ^ 32 - 1 = BUFFER_SIZE cf * m' + (BUFFER_SIZE cf - 1)" by linarith
    then show ?thesis using \<open>0 < BUFFER_SIZE cf\<close> by (metis mod_less mod_mult_self4 diff_less zero_less_one mult.commute)
  qed
  finally show ?thesis using True BUFFER_SIZE_bounds(3) [OF ok] by simp
next
  case False
  then have "unat (i - 1) = unat i - 1" by (simp add: unat_minus_one)
  moreover have "0 < unat i" using False by (simp add: unat_gt_0)
  then have "unat i + BUFFER_SIZE cf - 1 = (unat i - 1) + BUFFER_SIZE cf" by simp
  then have "(unat i + BUFFER_SIZE cf - 1) mod BUFFER_SIZE cf = (unat i - 1) mod BUFFER_SIZE cf"
    by (simp only: mod_add_self2)
  ultimately show ?thesis by (simp only: unat_ring_mask)
qed

lemma length_q_list [simp]: "length (q_list cf q) = unat (q_size q)"
  by (simp add: q_list_def)

lemma q_size_small: "q_wf cf q \<Longrightarrow> unat (q_size q) \<le> 2 ^ 31"
  by (auto simp: q_wf_def q_config_ok_def)

lemma unat_q_size_inc: "q_wf cf q \<Longrightarrow> unat (q_size q + 1) = Suc (unat (q_size q))"
  using q_size_small [of cf q] by (simp add: unat_word_ariths)

lemma unat_q_size_dec: "q_size q \<noteq> 0 \<Longrightarrow> unat (q_size q - 1) = unat (q_size q) - 1"
  by (simp add: unat_minus_one)

lemma q_init_wf:
  "q_config_ok cf \<Longrightarrow> length st = BUFFER_SIZE cf \<Longrightarrow> q_wf cf (q_init st) \<and> q_list cf (q_init st) = []"
  using BUFFER_SIZE_bounds(3) [of cf] by (simp add: q_wf_def q_init_def q_list_def)

lemma q_clear_wf: "q_wf cf q \<Longrightarrow> q_wf cf (q_clear q) \<and> q_list cf (q_clear q) = []"
  by (auto simp: q_wf_def q_clear_def q_list_def)

lemma q_push_wf:
  assumes wf: "q_wf cf q" and room: "unat (q_size q) < q_SIZE cf" and r: "q_push cf e q = Inr q'"
  shows "q_wf cf q'" and "q_list cf q' = q_list cf q @ [e]"
proof -
  let ?B = "BUFFER_SIZE cf"
  have ok: "q_config_ok cf" using wf by (simp add: q_wf_def)
  have q': "q' = q\<lparr>q_buffer := (q_buffer q)[unat (back_idx q) := e],
                    back_idx := ring_mask cf (back_idx q + 1), q_size := q_size q + 1\<rparr>"
    using r by (auto simp: q_push_def split: if_splits)
  have sz: "unat (q_size q + 1) = Suc (unat (q_size q))" using wf by (rule unat_q_size_inc)
  have lt: "unat (q_size q) < ?B" using room BUFFER_SIZE_bounds(1) [OF ok] by linarith
  show "q_wf cf q'"
    using wf room by (simp add: q' q_wf_def sz unat_ring_mask_add [OF ok] mod_Suc_eq)
  have ne: "(unat (front_idx q) + unat (q_size q)) mod ?B \<noteq> (unat (front_idx q) + i) mod ?B"
    if "i < unat (q_size q)" for i
    using mod_add_neq [OF that, of ?B "unat (front_idx q)"] less_imp_diff_less [OF lt, of i] by auto
  have bk: "unat (back_idx q) = (unat (front_idx q) + unat (q_size q)) mod ?B"
    and len: "length (q_buffer q) = ?B" using wf by (simp_all add: q_wf_def)
  show "q_list cf q' = q_list cf q @ [e]"
    using ne BUFFER_SIZE_bounds(3) [OF ok]
    by (auto simp: q_list_def q' sz bk len nth_list_update)
qed

lemma q_pop_wf:
  assumes wf: "q_wf cf q" and ne: "q_size q \<noteq> 0" and r: "q_pop cf q = Inr q'"
  shows "q_wf cf q'" and "q_list cf q' = tl (q_list cf q)"
proof -
  have ok: "q_config_ok cf" using wf by (simp add: q_wf_def)
  have q': "q' = q\<lparr>front_idx := ring_mask cf (front_idx q + 1), q_size := q_size q - 1\<rparr>"
    using r by (auto simp: q_pop_def split: if_splits)
  obtain n where n: "unat (q_size q) = Suc n"
    using ne by (cases "unat (q_size q)") (auto simp: unat_eq_0)
  have sz: "unat (q_size q - 1) = n" using ne n by (simp add: unat_q_size_dec)
  show "q_wf cf q'"
    using wf n by (simp add: q' q_wf_def sz unat_ring_mask_add [OF ok] mod_simps)
  show "q_list cf q' = tl (q_list cf q)"
    by (rule nth_equalityI)
      (auto simp: q_list_def q' sz n unat_ring_mask_add [OF ok] mod_simps nth_tl simp del: upt_Suc)
qed

lemma q_front_hd:
  assumes wf: "q_wf cf q" and ne: "q_size q \<noteq> 0"
  shows "q_front q = hd (q_list cf q)"
proof -
  obtain n where n: "unat (q_size q) = Suc n"
    using ne by (cases "unat (q_size q)") (auto simp: unat_eq_0)
  then have "[0..<unat (q_size q)] = 0 # [1..<Suc n]" by (simp add: upt_conv_Cons)
  then show ?thesis using wf by (simp add: q_front_def q_list_def q_wf_def)
qed

lemma q_at_nth:
  assumes wf: "q_wf cf q" and i: "unat idx < unat (q_size q)"
  shows "q_at cf q idx = Inr (q_list cf q ! unat idx)"
  using assms by (auto simp: q_at_def q_list_def q_wf_def unat_ring_mask_add word_le_nat_alt)

section \<open>Removing from the middle\<close>

lemma q_shift_Some:
  assumes ok: "q_config_ok cf" and len: "length buf = BUFFER_SIZE cf"
    and s: "s \<le> BUFFER_SIZE cf" "k < s" and fuel: "s - 1 - k \<le> n"
    and i: "unat i = (f + k) mod BUFFER_SIZE cf" and j: "unat j = (f + (k + 1)) mod BUFFER_SIZE cf"
    and bk: "unat bck = (f + s) mod BUFFER_SIZE cf"
  shows "\<exists>buf'. q_shift cf n i j bck buf = Some buf' \<and> length buf' = BUFFER_SIZE cf \<and>
     (\<forall>t < s. buf' ! ((f + t) mod BUFFER_SIZE cf) =
        (if k \<le> t \<and> t < s - 1 then buf ! ((f + (t + 1)) mod BUFFER_SIZE cf)
         else buf ! ((f + t) mod BUFFER_SIZE cf)))"
  using len s fuel i j
proof (induction n arbitrary: k i j buf)
  case 0
  then have s: "s = k + 1" by simp
  with 0 bk have "j = bck" by (simp add: word_unat_eq_iff)
  with 0 s show ?case by auto
next
  case (Suc n)
  let ?B = "BUFFER_SIZE cf"
  have B: "0 < ?B" by (rule BUFFER_SIZE_bounds(3) [OF ok])
  show ?case
  proof (cases "k + 1 = s")
    case True
    with Suc.prems bk have "j = bck" by (simp add: word_unat_eq_iff True [symmetric])
    with Suc.prems True show ?thesis by auto
  next
    case False
    with Suc.prems have k: "k + 1 < s" by simp
    have "(f + (k + 1)) mod ?B \<noteq> (f + s) mod ?B"
      using k Suc.prems(2) by (intro mod_add_neq) auto
    then have ne: "j \<noteq> bck" using Suc.prems(6) bk by auto
    let ?buf = "buf[unat i := buf ! unat j]"
    have "\<exists>buf'. q_shift cf n (ring_mask cf (i + 1)) (ring_mask cf (j + 1)) bck ?buf = Some buf' \<and>
        length buf' = ?B \<and> (\<forall>t < s. buf' ! ((f + t) mod ?B) =
          (if k + 1 \<le> t \<and> t < s - 1 then ?buf ! ((f + (t + 1)) mod ?B) else ?buf ! ((f + t) mod ?B)))"
      using Suc.prems k
      by (intro Suc.IH) (auto simp: unat_ring_mask_add [OF ok] mod_simps)
    then obtain buf' where b: "q_shift cf n (ring_mask cf (i + 1)) (ring_mask cf (j + 1)) bck ?buf = Some buf'"
      "length buf' = ?B"
      "\<And>t. t < s \<Longrightarrow> buf' ! ((f + t) mod ?B) =
          (if k + 1 \<le> t \<and> t < s - 1 then ?buf ! ((f + (t + 1)) mod ?B) else ?buf ! ((f + t) mod ?B))"
      by blast
    have other: "?buf ! ((f + t) mod ?B) = buf ! ((f + t) mod ?B)" if "t < s" "t \<noteq> k" for t
    proof -
      have "k - t < ?B" "t - k < ?B" using that Suc.prems(2,3) by linarith+
      then have "(f + t) mod ?B \<noteq> (f + k) mod ?B"
        using that mod_add_neq [of t k ?B f] mod_add_neq [of k t ?B f]
        by (cases "t < k") auto
      then show ?thesis using Suc.prems(5) by simp
    qed
    have here: "?buf ! ((f + k) mod ?B) = buf ! ((f + (k + 1)) mod ?B)"
      using Suc.prems(1,5,6) B by simp
    have "buf' ! ((f + t) mod ?B) =
        (if k \<le> t \<and> t < s - 1 then buf ! ((f + (t + 1)) mod ?B) else buf ! ((f + t) mod ?B))"
      if t: "t < s" for t
    proof (cases "t = k")
      case True
      with b(3) [OF t] here k show ?thesis by simp
    next
      case False
      then show ?thesis using b(3) [OF t] other [OF t False] other [of "t + 1"] t by auto
    qed
    with b(1,2) ne show ?thesis by auto
  qed
qed

lemma q_remove_wf:
  assumes wf: "q_wf cf q" and idx: "unat idx < unat (q_size q)"
  shows "\<exists>q'. q_remove cf idx q = Some (Inr q') \<and> q_wf cf q' \<and>
     q_list cf q' = take (unat idx) (q_list cf q) @ drop (Suc (unat idx)) (q_list cf q)"
proof -
  let ?B = "BUFFER_SIZE cf" and ?s = "unat (q_size q)" and ?f = "unat (front_idx q)"
  have ok: "q_config_ok cf" and len: "length (q_buffer q) = ?B" and s: "?s \<le> ?B"
    and bk: "unat (back_idx q) = (?f + ?s) mod ?B" and sS: "?s \<le> q_SIZE cf"
    using wf BUFFER_SIZE_bounds(1) [of cf] by (auto simp: q_wf_def)
  have g: "\<not> idx \<ge> q_size q" "q_size q \<noteq> 0" using idx by (auto simp: word_le_nat_alt)
  let ?i = "ring_mask cf (front_idx q + idx)" and ?j = "ring_mask cf (ring_mask cf (front_idx q + idx) + 1)"
  have "\<exists>buf'. q_shift cf ?B ?i ?j (back_idx q) (q_buffer q) = Some buf' \<and> length buf' = ?B \<and>
    (\<forall>t < ?s. buf' ! ((?f + t) mod ?B) =
        (if unat idx \<le> t \<and> t < ?s - 1 then q_buffer q ! ((?f + (t + 1)) mod ?B)
         else q_buffer q ! ((?f + t) mod ?B)))"
    using s by (intro q_shift_Some [OF ok len s idx _ _ _ bk])
      (auto simp: unat_ring_mask_add [OF ok] mod_simps)
  then obtain buf' where b: "q_shift cf ?B ?i ?j (back_idx q) (q_buffer q) = Some buf'" "length buf' = ?B"
    "\<And>t. t < ?s \<Longrightarrow> buf' ! ((?f + t) mod ?B) =
        (if unat idx \<le> t \<and> t < ?s - 1 then q_buffer q ! ((?f + (t + 1)) mod ?B)
         else q_buffer q ! ((?f + t) mod ?B))"
    by blast
  define q' where "q' = q\<lparr>q_buffer := buf', back_idx := ring_mask cf (back_idx q - 1), q_size := q_size q - 1\<rparr>"
  obtain n where n: "?s = Suc n" using idx by (cases ?s) auto
  have sz: "unat (q_size q - 1) = n" using g(2) n by (simp add: unat_q_size_dec)
  have rem: "q_remove cf idx q = Some (Inr q')"
    using g b(1) by (simp add: q_remove_def Let_def q'_def)
  have bkd: "unat (ring_mask cf (back_idx q - 1)) = (?f + n) mod ?B"
  proof -
    have "unat (ring_mask cf (back_idx q - 1)) = ((?f + ?s) mod ?B + (?B - 1)) mod ?B"
      using unat_ring_mask_dec [OF ok, of "back_idx q"] bk BUFFER_SIZE_bounds(3) [OF ok] by simp
    also have "\<dots> = (?f + ?s + (?B - 1)) mod ?B" by (rule mod_add_left_eq)
    also have "?f + ?s + (?B - 1) = ?f + n + ?B" using n BUFFER_SIZE_bounds(3) [OF ok] by simp
    finally show ?thesis by simp
  qed
  have wf': "q_wf cf q'"
    using wf b(2) sS n by (simp add: q'_def q_wf_def sz bkd)
  have "q_list cf q' = take (unat idx) (q_list cf q) @ drop (Suc (unat idx)) (q_list cf q)"
    using idx b(3) n
    by (intro nth_equalityI) (auto simp: q_list_def q'_def sz nth_append simp del: upt_Suc)
  with rem wf' show ?thesis by blast
qed

section \<open>The queue contract\<close>

text \<open>
  What a client of a bounded queue relies on: while there is room a push appends, while
  there is an element a pop removes the oldest one, and the front is the oldest.
\<close>

locale fifo =
  fixes wf :: "'q \<Rightarrow> bool"
    and contents :: "'q \<Rightarrow> 'e list"
    and capacity :: nat
    and push :: "'e \<Rightarrow> 'q \<Rightarrow> 'x + 'q"
    and pop :: "'q \<Rightarrow> 'x + 'q"
    and front :: "'q \<Rightarrow> 'e"
  assumes push_room: "wf q \<Longrightarrow> length (contents q) < capacity \<Longrightarrow>
      \<exists>q'. push e q = Inr q' \<and> wf q' \<and> contents q' = contents q @ [e]"
    and pop_some: "wf q \<Longrightarrow> contents q \<noteq> [] \<Longrightarrow>
      \<exists>q'. pop q = Inr q' \<and> wf q' \<and> contents q' = tl (contents q)"
    and front_some: "wf q \<Longrightarrow> contents q \<noteq> [] \<Longrightarrow> front q = hd (contents q)"
begin

lemma push_then_pop_single:
  assumes "wf q" and "contents q = []" and "0 < capacity"
  shows "\<exists>q1 q2. push e q = Inr q1 \<and> front q1 = e \<and> pop q1 = Inr q2 \<and> contents q2 = []"
proof -
  from push_room [of q e] assms obtain q1
    where q1: "push e q = Inr q1" "wf q1" "contents q1 = [e]" by auto
  then show ?thesis using pop_some [of q1] front_some [of q1] by auto
qed

lemma front_stable:
  assumes "wf q" and "contents q \<noteq> []" and "length (contents q) < capacity"
  shows "\<exists>q'. push e q = Inr q' \<and> front q' = front q"
proof -
  from push_room [OF assms(1,3)] obtain q'
    where "push e q = Inr q'" "wf q'" "contents q' = contents q @ [e]" by blast
  then show ?thesis using front_some [of q'] front_some [of q] assms(1,2) by simp
qed

end

interpretation rq: fifo "q_wf cf" "q_list cf" "q_SIZE cf" "q_push cf" "q_pop cf" q_front
  for cf :: queue_config
proof
  show "\<exists>q'. q_push cf e q = Inr q' \<and> q_wf cf q' \<and> q_list cf q' = q_list cf q @ [e]"
    if wf: "q_wf cf q" and room: "length (q_list cf q) < q_SIZE cf" for q and e :: 'a
  proof -
    obtain q' where "q_push cf e q = Inr q'" using room by (auto simp: q_push_def)
    with wf room show ?thesis using q_push_wf [of cf q e q'] by simp
  qed
  show "\<exists>q'. q_pop cf q = Inr q' \<and> q_wf cf q' \<and> q_list cf q' = tl (q_list cf q)"
    if "q_wf cf q" "q_list cf q \<noteq> []" for q :: "'a ring_queue"
  proof -
    have ne: "q_size q \<noteq> 0" using that(2) by (auto simp: q_list_def)
    then obtain q' where "q_pop cf q = Inr q'" by (auto simp: q_pop_def)
    with that(1) ne show ?thesis using q_pop_wf [of cf q q'] by simp
  qed
  show "q_front q = hd (q_list cf q)" if "q_wf cf q" "q_list cf q \<noteq> []" for q :: "'a ring_queue"
    using that by (intro q_front_hd) (auto simp: q_list_def)
qed

lemma q_push_n_list:
  "q_wf cf q \<Longrightarrow> length (q_list cf q) + length ys \<le> q_SIZE cf \<Longrightarrow>
   \<exists>q'. q_push_n cf ys q = Inr q' \<and> q_wf cf q' \<and> q_list cf q' = q_list cf q @ ys"
proof (induction ys arbitrary: q)
  case Nil
  then show ?case by simp
next
  case (Cons y ys)
  then obtain q1 where q1: "q_push cf y q = Inr q1" "q_wf cf q1" "q_list cf q1 = q_list cf q @ [y]"
    using rq.push_room [of cf q y] by auto
  with Cons.prems Cons.IH [of q1] show ?case by (auto simp flip: length_q_list)
qed

lemma q_pop_n_list:
  "q_wf cf q \<Longrightarrow> n \<le> length (q_list cf q) \<Longrightarrow>
   \<exists>q'. q_pop_n cf n q = Inr q' \<and> q_wf cf q' \<and> q_list cf q' = drop n (q_list cf q)"
proof (induction n arbitrary: q)
  case 0
  then show ?case by simp
next
  case (Suc n)
  then have "q_list cf q \<noteq> []" by (metis list.size(3) not_less_eq_eq zero_le)
  with Suc.prems(1) obtain q1
    where q1: "q_pop cf q = Inr q1" "q_wf cf q1" "q_list cf q1 = tl (q_list cf q)"
    using rq.pop_some [of cf q] by blast
  moreover have "n \<le> length (q_list cf q1)" using Suc.prems q1(3) by (simp del: length_q_list)
  ultimately show ?case using Suc.IH [of q1] by (auto simp: drop_Suc)
qed

section \<open>Properties\<close>

text \<open>
  C21: A burst of \<open>Push\<close>es that fits, followed by as many \<open>Pop\<close>s as there were elements
  before, succeeds and leaves exactly the pushed elements in the order they were pushed,
  wherever the ring indices happen to wrap.
\<close>

theorem queue_fifo_order:
  assumes "q_wf cf q" and "length (q_list cf q) + length ys \<le> q_SIZE cf"
  shows "\<exists>q1 q2. q_push_n cf ys q = Inr q1 \<and> q_list cf q1 = q_list cf q @ ys \<and>
     q_pop_n cf (length (q_list cf q)) q1 = Inr q2 \<and> q_wf cf q2 \<and> q_list cf q2 = ys"
proof -
  from q_push_n_list [OF assms] obtain q1 where
    q1: "q_push_n cf ys q = Inr q1" "q_wf cf q1" "q_list cf q1 = q_list cf q @ ys" by blast
  then obtain q2 where "q_pop_n cf (length (q_list cf q)) q1 = Inr q2" "q_wf cf q2"
    "q_list cf q2 = drop (length (q_list cf q)) (q_list cf q1)"
    using q_pop_n_list [of cf q1 "length (q_list cf q)"] by (auto simp del: length_q_list)
  with q1 show ?thesis by (auto simp del: length_q_list)
qed

definition q_example_cf :: queue_config where
  "q_example_cf = \<lparr>q_debug = True, q_SIZE = 3\<rparr>"

definition q_example :: "nat ring_queue" where
  "q_example = \<lparr>q_size = 2, front_idx = 3, back_idx = 1, q_buffer = [20, 0, 0, 10]\<rparr>"

lemma q_example_ceil_log2: "template_ceil_log2 3 = 2"
proof -
  have "template_log2 3 = 1" by (simp add: template_log2.simps)
  then show ?thesis by (simp add: template_ceil_log2_def)
qed

lemma q_example_wf: "q_wf q_example_cf q_example" "q_list q_example_cf q_example = [10, 20]"
  by (simp_all add: q_wf_def q_config_ok_def q_list_def q_example_def q_example_cf_def
      BUFFER_SIZE_def q_example_ceil_log2 upt_rec)

theorem queue_fifo_order_witness:
  "\<exists>q1 q2. q_push_n q_example_cf [30] q_example = Inr q1 \<and>
     q_pop_n q_example_cf 2 q1 = Inr q2 \<and> q_list q_example_cf q2 = [30]"
  using queue_fifo_order [of q_example_cf q_example "[30]"] q_example_wf
  by (auto simp: q_example_cf_def q_example_def)

text \<open>
  \<open>Remove(idx)\<close> always terminates on a well-formed queue, deletes exactly the element
  at position \<open>idx\<close>, keeps the order of the others and the ring invariant, also when the
  buffer is full and its indices wrap.
\<close>

theorem queue_remove_deletes:
  assumes "q_wf cf q" and "unat idx < unat (q_size q)"
  shows "\<exists>q'. q_remove cf idx q = Some (Inr q') \<and> q_wf cf q' \<and>
     q_list cf q' = take (unat idx) (q_list cf q) @ drop (Suc (unat idx)) (q_list cf q)"
  using assms by (rule q_remove_wf)

theorem queue_remove_deletes_witness:
  "\<exists>q'. q_remove q_example_cf 0 q_example = Some (Inr q') \<and> q_list q_example_cf q' = [20]"
  using queue_remove_deletes [of q_example_cf q_example 0] q_example_wf
  by (auto simp: q_example_def)

end
