(* ===== verification/Replacement.thy ===== *)
theory Replacement
  imports Prelude
begin

text \<open>
  The line replacement policies of \<open>util/cache/cache.hh\<close>: \<open>PLRU_ReplacementPolicy\<close>,
  \<open>LRU_ReplacementPolicy\<close>, \<open>RoundRobinReplacementPolicy\<close> and
  \<open>PseudoRandomReplacementPolicy\<close>. A policy's bits are a word whose width \<open>'w\<close> is the
  one \<open>TypeForBitSize\<close> selects; the associativity is an argument where the C++ has a template
  parameter. The PLRU bits refine a binary decision tree and the LRU bits a list of ways.
\<close>

lemma div_pow2_Suc: "(m::nat) div 2 ^ Suc d = m div 2 ^ d div 2"
  by (metis div_mult2_eq power_Suc2)

section \<open>Tree pseudo-LRU\<close>

definition plru_clear :: "'w::len word" where
  "plru_clear = 0"

fun plru_select_loop :: "nat \<Rightarrow> 'w::len word \<Rightarrow> nat \<Rightarrow> nat \<Rightarrow> nat" where
  "plru_select_loop 0 bits way i = way"
| "plru_select_loop (Suc n) bits way i =
     (let bi = unat (drop_bit i bits AND 1)
      in plru_select_loop n bits (2 * way + bi) (2 * i + 1 + bi))"

definition plru_select :: "nat \<Rightarrow> 'w::len word \<Rightarrow> nat" where
  "plru_select assoc bits = plru_select_loop (template_ceil_log2 assoc) bits 0 0"

text \<open>
  \<open>1 << i\<close> is an \<open>int\<close> and \<open>(1 ^ bi) << i\<close> an \<open>unsigned int\<close>, both 32 bits wide: the
  complement is sign extended to the width of \<open>plru_bits\<close>, the new bit zero extended.
\<close>

definition plru_set_bit :: "nat \<Rightarrow> u32 \<Rightarrow> 'w::len word \<Rightarrow> 'w word" where
  "plru_set_bit i bi bits =
     (bits AND scast (NOT (push_bit i (1 :: u32)))) OR ucast (push_bit i (1 XOR bi))"

fun plru_update_loop :: "nat \<Rightarrow> nat \<Rightarrow> nat \<Rightarrow> 'w::len word \<Rightarrow> 'w word" where
  "plru_update_loop 0 way i bits = bits"
| "plru_update_loop (Suc n) way i bits =
     (let bi = drop_bit n way mod 2
      in plru_update_loop n way (2 * i + 1 + bi) (plru_set_bit i (of_nat bi) bits))"

definition plru_update_on_access :: "nat \<Rightarrow> nat \<Rightarrow> 'w::len word \<Rightarrow> 'w word" where
  "plru_update_on_access assoc way bits = plru_update_loop (template_ceil_log2 assoc) way 0 bits"

subsection \<open>The decision tree\<close>

datatype plru_tree = PLeaf | PNode bool plru_tree plru_tree

fun plru_tree_of :: "nat \<Rightarrow> nat \<Rightarrow> 'w::len word \<Rightarrow> plru_tree" where
  "plru_tree_of 0 i bits = PLeaf"
| "plru_tree_of (Suc n) i bits =
     PNode (bit bits i) (plru_tree_of n (2 * i + 1) bits) (plru_tree_of n (2 * i + 2) bits)"

fun tree_victim :: "plru_tree \<Rightarrow> bool list" where
  "tree_victim PLeaf = []"
| "tree_victim (PNode b l r) = b # tree_victim (if b then r else l)"

fun tree_touch :: "bool list \<Rightarrow> plru_tree \<Rightarrow> plru_tree" where
  "tree_touch (True # p) (PNode b l r) = PNode False l (tree_touch p r)"
| "tree_touch (False # p) (PNode b l r) = PNode True (tree_touch p l) r"
| "tree_touch p t = t"

fun tree_depth :: "nat \<Rightarrow> plru_tree \<Rightarrow> bool" where
  "tree_depth 0 t \<longleftrightarrow> t = PLeaf"
| "tree_depth (Suc n) (PNode b l r) \<longleftrightarrow> tree_depth n l \<and> tree_depth n r"
| "tree_depth (Suc n) PLeaf \<longleftrightarrow> False"

text \<open>
  The accesses that reach a subtree, and the core fact: a tree of \<open>n\<close> levels never
  designates one of the last \<open>n\<close> paths touched.
\<close>

lemma tree_depth_touch [simp]: "tree_depth n t \<Longrightarrow> tree_depth n (tree_touch p t)"
proof (induction n t arbitrary: p rule: tree_depth.induct)
  case (1 t)
  then show ?case by (cases p) auto
next
  case (2 n b l r)
  then show ?case by (cases "(p, PNode b l r)" rule: tree_touch.cases) auto
qed simp

lemma tree_depth_fold [simp]: "tree_depth n t \<Longrightarrow> tree_depth n (fold tree_touch ps t)"
  by (induction ps arbitrary: t) auto

lemma fold_touch_children:
  assumes "\<forall>p \<in> set ps. p \<noteq> []"
  shows "\<exists>b'. fold tree_touch ps (PNode b l r) =
     PNode b' (fold tree_touch (map tl (filter (\<lambda>p. \<not> hd p) ps)) l)
              (fold tree_touch (map tl (filter hd ps)) r) \<and>
     (ps \<noteq> [] \<longrightarrow> b' = (\<not> hd (last ps)))"
  using assms
proof (induction ps arbitrary: b l r)
  case Nil
  then show ?case by simp
next
  case (Cons p ps)
  then obtain x q where p: "p = x # q" by (cases p) auto
  show ?case
    using Cons.IH [of "\<not> x" "if x then l else tree_touch q l" "if x then tree_touch q r else r"]
      Cons.prems
    by (cases x) (auto simp: p)
qed

lemma tree_victim_fresh:
  assumes "tree_depth n t" and "\<forall>p \<in> set ps. length p = n" and "length ps \<le> n"
  shows "tree_victim (fold tree_touch ps t) \<notin> set ps"
  using assms
proof (induction n arbitrary: t ps)
  case 0
  then show ?case by simp
next
  case (Suc n)
  then obtain b l r where t: "t = PNode b l r" "tree_depth n l" "tree_depth n r"
    by (cases t) auto
  show ?case
  proof (cases "ps = []")
    case False
    then have ne: "\<forall>p \<in> set ps. p \<noteq> []" using Suc.prems(2) by fastforce
    define h where "h = hd (last ps)"
    let ?l = "map tl (filter (\<lambda>p. \<not> hd p) ps)" and ?r = "map tl (filter hd ps)"
    from fold_touch_children [OF ne, of b l r] False
    have f: "fold tree_touch ps t = PNode (\<not> h) (fold tree_touch ?l l) (fold tree_touch ?r r)"
      by (auto simp: t h_def)
    have lenS: "\<forall>p \<in> set ps. length (tl p) = n" using Suc.prems(2) by auto
    have last: "last ps \<in> set ps" using False by simp
    have short: "length (filter Q ps) < length ps" if "\<not> Q (last ps)" for Q
      using last that by (rule length_filter_less)
    show ?thesis
    proof (cases h)
      case True
      have "length ?l \<le> n" using short [of "\<lambda>p. \<not> hd p"] True Suc.prems(3) by (simp add: h_def)
      then have "tree_victim (fold tree_touch ?l l) \<notin> set ?l"
        using lenS by (intro Suc.IH t) auto
      then show ?thesis unfolding f using True ne by (force simp: image_iff neq_Nil_conv)
    next
      case False
      have "length ?r \<le> n" using short [of hd] False Suc.prems(3) by (simp add: h_def)
      then have "tree_victim (fold tree_touch ?r r) \<notin> set ?r"
        using lenS by (intro Suc.IH t) auto
      then show ?thesis unfolding f using False ne by (force simp: image_iff neq_Nil_conv)
    qed
  qed simp
qed


subsection \<open>The PLRU bits refine the tree\<close>

fun way_path :: "nat \<Rightarrow> nat \<Rightarrow> bool list" where
  "way_path 0 way = []"
| "way_path (Suc n) way = (drop_bit n way mod 2 = 1) # way_path n way"

fun path_way :: "bool list \<Rightarrow> nat" where
  "path_way [] = 0"
| "path_way (b # p) = (if b then 2 ^ length p else 0) + path_way p"

lemma length_way_path [simp]: "length (way_path n way) = n"
  by (induction n) auto

lemma path_way_lt: "path_way p < 2 ^ length p"
  by (induction p) auto

lemma path_way_path: "path_way (way_path n way) = way mod 2 ^ n"
proof (induction n)
  case (Suc n)
  have "way mod 2 ^ Suc n = 2 ^ n * (way div 2 ^ n mod 2) + way mod 2 ^ n"
    unfolding power_Suc2 by (rule mod_mult2_eq)
  then show ?case using Suc by (auto simp: drop_bit_eq_div)
qed simp

lemma tree_depth_of [simp]: "tree_depth n (plru_tree_of n i bits)"
  by (induction n arbitrary: i) auto

lemma length_tree_victim: "tree_depth n t \<Longrightarrow> length (tree_victim t) = n"
  by (induction n t rule: tree_depth.induct) auto

lemma unat_bit: "unat (drop_bit i (w :: 'w::len word) AND 1) = (if bit w i then 1 else 0)"
  by (simp add: and_one_eq bit_iff_odd_drop_bit odd_iff_mod_2_eq_one)

lemma plru_select_loop_tree:
  "plru_select_loop n bits way i = way * 2 ^ n + path_way (tree_victim (plru_tree_of n i bits))"
proof (induction n arbitrary: way i)
  case (Suc n)
  have "length (tree_victim (plru_tree_of n j bits)) = n" for j
    by (simp add: length_tree_victim)
  then show ?case by (simp add: Suc Let_def unat_bit algebra_simps)
qed simp

lemma bit_plru_set_bit:
  fixes bits :: "'w::len word"
  assumes "i < 31" and "bi < 2" and "j < LENGTH('w)"
  shows "bit (plru_set_bit i (of_nat bi) bits) j = (if j = i then bi = 0 else bit bits j)"
proof -
  have "bi = 0 \<or> bi = 1" using assms(2) by linarith
  then show ?thesis
    using assms(1,3) by (elim disjE) (auto simp: plru_set_bit_def bit_simps min_def)
qed

lemma plru_update_loop_other:
  fixes bits :: "'w::len word"
  assumes "(i + 2) * 2 ^ n \<le> 64" and "j < LENGTH('w)" and "\<forall>d < n. (j + 1) div 2 ^ d \<noteq> i + 1"
  shows "bit (plru_update_loop n way i bits) j = bit bits j"
  using assms
proof (induction n arbitrary: i bits)
  case (Suc n)
  let ?bi = "drop_bit n way mod 2"
  have b: "?bi < 2" by simp
  have i31: "i < 31"
  proof -
    have "(i + 2) * 2 \<le> (i + 2) * 2 ^ Suc n" by (intro mult_left_mono) auto
    then have "(i + 2) * 2 \<le> 64" using Suc.prems(1) by (rule le_trans)
    then show ?thesis by simp
  qed
  have ne: "\<forall>d < n. (j + 1) div 2 ^ d \<noteq> 2 * i + 1 + ?bi + 1"
  proof (intro allI impI notI)
    fix d assume d: "d < n" and e: "(j + 1) div 2 ^ d = 2 * i + 1 + ?bi + 1"
    have "(j + 1) div 2 ^ Suc d = (j + 1) div 2 ^ d div 2" by (rule div_pow2_Suc)
    also have "\<dots> = i + 1" using b unfolding e by linarith
    finally show False using Suc.prems(3) d by auto
  qed
  have room: "(2 * i + 1 + ?bi + 2) * 2 ^ n \<le> 64"
  proof -
    have "(2 * i + 1 + ?bi + 2) * 2 ^ n \<le> (2 * i + 4) * 2 ^ n" using b by (intro mult_right_mono) auto
    also have "\<dots> = (i + 2) * 2 ^ Suc n" by (simp add: algebra_simps)
    finally show ?thesis using Suc.prems(1) by linarith
  qed
  have "j \<noteq> i" using Suc.prems(3) [rule_format, of 0] by simp
  then show ?case
    using Suc.IH [OF room Suc.prems(2) ne] bit_plru_set_bit [OF i31 b Suc.prems(2)] by (simp add: Let_def)
qed simp

lemma plru_tree_of_cong:
  "(\<And>d j. d < n \<Longrightarrow> (j + 1) div 2 ^ d = i + 1 \<Longrightarrow> bit b1 j = bit b2 j) \<Longrightarrow>
   plru_tree_of n i b1 = plru_tree_of n i b2"
proof (induction n arbitrary: i)
  case (Suc n)
  have child: "plru_tree_of n c b1 = plru_tree_of n c b2" if c: "(c + 1) div 2 = i + 1" for c
  proof (rule Suc.IH)
    fix d j assume "d < n" and e: "(j + 1) div 2 ^ d = c + 1"
    have "(j + 1) div 2 ^ Suc d = (j + 1) div 2 ^ d div 2" by (rule div_pow2_Suc)
    with e c have "(j + 1) div 2 ^ Suc d = i + 1" by simp
    with \<open>d < n\<close> show "bit b1 j = bit b2 j" by (intro Suc.prems [of "Suc d"]) auto
  qed
  have "bit b1 i = bit b2 i" by (rule Suc.prems [of 0]) auto
  then show ?case using child [of "2 * i + 1"] child [of "2 * i + 2"] by simp
qed simp

lemma same_level:
  assumes l: "2 ^ L \<le> (x::nat)" "x < 2 ^ Suc L" and "2 ^ L \<le> y" "y < 2 ^ Suc L"
    and "m div 2 ^ d = x" and "m div 2 ^ e = y"
  shows "x = y"
proof -
  have lt: False if "m div 2 ^ d = x" "m div 2 ^ e = y" "d < e" "2 ^ L \<le> y" "x < 2 ^ Suc L" for d e x y
  proof -
    from \<open>d < e\<close> obtain k where k: "e = d + Suc k" by (metis add_Suc_right less_imp_Suc_add)
    have "y = x div 2 ^ Suc k" using that(1,2) unfolding k power_add div_mult2_eq by simp
    moreover have "x div 2 ^ Suc k \<le> x div 2" by (simp add: div_mult2_eq)
    moreover have "x div 2 < 2 ^ L" using that(5) by simp
    ultimately show False using that(4) by simp
  qed
  show ?thesis
    using assms lt [of d x e y] lt [of e y d x] by (cases d e rule: linorder_cases) auto
qed

lemma plru_update_loop_tree:
  fixes bits :: "'w::len word"
  assumes "(i + 2) * 2 ^ n \<le> 64" and "(i + 2) * 2 ^ n \<le> 2 * LENGTH('w) + 2"
    and "2 ^ L \<le> i + 1" "i + 1 < 2 ^ Suc L"
  shows "plru_tree_of n i (plru_update_loop n way i bits) =
         tree_touch (way_path n way) (plru_tree_of n i bits)"
  using assms
proof (induction n arbitrary: i bits L)
  case (Suc n)
  let ?bi = "drop_bit n way mod 2"
  let ?b = "plru_set_bit i (of_nat ?bi) bits"
  let ?c = "2 * i + 1 + ?bi" and ?o = "2 * i + 2 - ?bi"
  let ?u = "plru_update_loop n way ?c ?b"
  have b: "?bi < 2" by simp
  have p1: "(1::nat) \<le> 2 ^ n" by simp
  have i31: "i < 31" "i < LENGTH('w)"
  proof -
    have "(i + 2) * 2 \<le> (i + 2) * 2 ^ Suc n" by (intro mult_left_mono) auto
    then have "(i + 2) * 2 \<le> 64" "(i + 2) * 2 \<le> 2 * LENGTH('w) + 2"
      using Suc.prems(1,2) by (metis le_trans)+
    then show "i < 31" "i < LENGTH('w)" by simp_all
  qed
  have le: "(?c + 2) * 2 ^ n \<le> (i + 2) * 2 ^ Suc n"
  proof -
    have "(?c + 2) * 2 ^ n \<le> (2 * i + 4) * 2 ^ n" using b by (intro mult_right_mono) auto
    also have "\<dots> = (i + 2) * 2 ^ Suc n" by (simp add: algebra_simps)
    finally show ?thesis .
  qed
  have lev: "2 ^ Suc L \<le> ?c + 1" "?c + 1 < 2 ^ Suc (Suc L)" "2 ^ Suc L \<le> ?o + 1" "?o + 1 < 2 ^ Suc (Suc L)"
    using Suc.prems(3,4) b by auto
  have co: "?c \<noteq> ?o" using b by presburger
  have touched: "plru_tree_of n ?c ?u = tree_touch (way_path n way) (plru_tree_of n ?c ?b)"
    using Suc.prems(1,2) le lev by (intro Suc.IH [of _ "Suc L"]) (linarith | assumption)+
  have bit_b: "bit ?b j = (if j = i then ?bi = 0 else bit bits j)" if "j < LENGTH('w)" for j
    using bit_plru_set_bit [OF i31(1) b that] .
  have under: "(j + 1) div 2 ^ d \<noteq> i + 1 \<and> j \<noteq> i"
    if "(j + 1) div 2 ^ e = c + 1" "c = ?c \<or> c = ?o" "d = 0" for j d e c
  proof -
    have "i + 1 < (j + 1) div 2 ^ e" using that b by auto
    also have "\<dots> \<le> j + 1" by simp
    finally show ?thesis using that(3) by simp
  qed
  have len: "j < LENGTH('w)" if "d < n" "(j + 1) div 2 ^ d = c + 1" "c = ?c \<or> c = ?o" for j d c
  proof -
    have "j + 1 < (c + 2) * 2 ^ d" using that(2) by (metis add.assoc dividend_less_div_times nat_1_add_1 zero_less_numeral zero_less_power add.commute mult.commute plus_1_eq_Suc mult_Suc)
    also have "\<dots> \<le> (2 * i + 4) * 2 ^ d" using that(3) b by (intro mult_right_mono) auto
    finally have "2 * (j + 1) < (2 * i + 4) * (2 * 2 ^ d)" by simp
    also have "\<dots> \<le> (2 * i + 4) * 2 ^ n"
    proof -
      have "(2::nat) * 2 ^ d \<le> 2 ^ n" using that(1) power_increasing [of "Suc d" n "2::nat"] by simp
      then show ?thesis by (rule mult_left_mono) simp
    qed
    also have "\<dots> = (i + 2) * 2 ^ Suc n" by (simp add: algebra_simps)
    finally have "2 * (j + 1) < 2 * LENGTH('w) + 2" using Suc.prems(2) by (rule less_le_trans)
    then show ?thesis by simp
  qed
  have cb: "plru_tree_of n c ?b = plru_tree_of n c bits" if "c = ?c \<or> c = ?o" for c
  proof (rule plru_tree_of_cong)
    fix d j assume dj: "d < n" "(j + 1) div 2 ^ d = c + 1"
    show "bit ?b j = bit bits j"
      using bit_b [OF len [OF dj that]] under [OF dj(2) that refl] by simp
  qed
  have other: "plru_tree_of n ?o ?u = plru_tree_of n ?o ?b"
  proof (rule plru_tree_of_cong)
    fix d j assume dj: "d < n" "(j + 1) div 2 ^ d = ?o + 1"
    show "bit ?u j = bit ?b j"
    proof (rule plru_update_loop_other)
      show "(?c + 2) * 2 ^ n \<le> 64" using le Suc.prems(1) by linarith
      show "j < LENGTH('w)" using len [OF dj] by simp
      show "\<forall>e < n. (j + 1) div 2 ^ e \<noteq> ?c + 1"
        using same_level [OF lev(3,4,1,2) dj(2)] co by auto
    qed
  qed
  have root: "bit ?u i = (?bi = 0)"
  proof -
    have "bit ?u i = bit ?b i"
    proof (rule plru_update_loop_other)
      show "(?c + 2) * 2 ^ n \<le> 64" using le Suc.prems(1) by linarith
      show "\<forall>e < n. (i + 1) div 2 ^ e \<noteq> ?c + 1"
        using under [of i _ ?c 0] by blast
    qed (rule i31)
    then show ?thesis using bit_b [OF i31(2)] by simp
  qed
  have "?bi = 0 \<or> ?bi = 1" using b by linarith
  then show ?case
    using touched other root cb [of ?c] cb [of ?o] by (elim disjE) (simp_all add: Let_def)
qed simp


lemma plru_update_tree:
  fixes bits :: "'w::len word"
  assumes "template_ceil_log2 assoc = k" and "k \<le> 5" and "2 ^ k \<le> LENGTH('w) + 1"
  shows "plru_tree_of k 0 (plru_update_on_access assoc way bits) =
         tree_touch (way_path k way) (plru_tree_of k 0 bits)"
proof -
  have "(2::nat) ^ k \<le> 2 ^ 5" using assms(2) by (rule power_increasing) simp
  then show ?thesis
    unfolding plru_update_on_access_def using assms
    by (simp add: plru_update_loop_tree [where L = 0])
qed

lemma plru_updates_tree:
  fixes bits :: "'w::len word"
  assumes "template_ceil_log2 assoc = k" and "k \<le> 5" and "2 ^ k \<le> LENGTH('w) + 1"
  shows "plru_tree_of k 0 (fold (plru_update_on_access assoc) ways bits) =
         fold tree_touch (map (way_path k) ways) (plru_tree_of k 0 bits)"
  by (induction ways arbitrary: bits) (simp_all add: plru_update_tree [OF assms])

lemma plru_select_tree:
  "plru_select assoc bits = path_way (tree_victim (plru_tree_of (template_ceil_log2 assoc) 0 bits))"
  by (simp add: plru_select_def plru_select_loop_tree)

lemma plru_select_lt: "plru_select assoc bits < 2 ^ template_ceil_log2 assoc"
  using path_way_lt [of "tree_victim (plru_tree_of (template_ceil_log2 assoc) 0 bits)"]
  by (simp add: plru_select_tree length_tree_victim [OF tree_depth_of])

lemma way_path_path_way: "length p = n \<Longrightarrow> way_path n (path_way p) = p"
proof (induction p arbitrary: n)
  case (Cons b p)
  then obtain m where n: "n = Suc m" "length p = m" by auto
  have ext: "way_path j (c * 2 ^ length p + path_way p) = way_path j (path_way p)"
    if "j \<le> length p" for j c
    using that
  proof (induction j)
    case (Suc j)
    then obtain d where d: "length p = j + Suc d" by (metis add_Suc_right le_Suc_ex add_Suc)
    have e: "c * 2 ^ length p = 2 ^ j * (2 * (c * 2 ^ d))" by (simp add: d power_add)
    have "(c * 2 ^ length p + path_way p) div 2 ^ j = 2 * (c * 2 ^ d) + path_way p div 2 ^ j"
      unfolding e by (subst div_mult_self4) simp_all
    then show ?case using Suc by (simp add: drop_bit_eq_div)
  qed simp
  have lt: "path_way p < 2 ^ length p" by (rule path_way_lt)
  show ?case
    using Cons.IH [OF refl] ext [of m 1] lt n
    by (auto simp: drop_bit_eq_div div_add_self1)
qed simp

text \<open>
  A tree has a leaf for every way up to the next power of two. Accesses to the ways below any smaller bound
  can make it choose one that is not below the bound.
\<close>

lemma path_way_zeros [simp]: "path_way (replicate n False) = 0"
  by (induction n) auto

lemma fold_touch_right:
  "ps \<noteq> [] \<Longrightarrow> fold tree_touch (map ((#) True) ps) (PNode b l r) = PNode False l (fold tree_touch ps r)"
  by (induction ps arbitrary: b r rule: list_nonempty_induct) auto

lemma tree_victim_outside:
  assumes "tree_depth n t" and "0 < A" and "A < 2 ^ n"
  shows "\<exists>ps. (\<forall>p \<in> set ps. length p = n \<and> path_way p < A) \<and> A \<le> path_way (tree_victim (fold tree_touch ps t))"
  using assms
proof (induction n arbitrary: t A)
  case (Suc n)
  then obtain b l r where t: "t = PNode b l r" "tree_depth n l" "tree_depth n r"
    by (cases t) auto
  let ?left = "False # replicate n False"
  have touch: "path_way (tree_victim (tree_touch ?left (PNode c l q))) = 2 ^ n + path_way (tree_victim q)"
    if "tree_depth n q" for c q using length_tree_victim [OF that] by simp
  show ?case
  proof (cases "A \<le> 2 ^ n")
    case True
    then show ?thesis using Suc.prems(2) touch [OF t(3)] by (intro exI [of _ "[?left]"]) (simp add: t(1))
  next
    case False
    then have A: "0 < A - 2 ^ n" "A - 2 ^ n < 2 ^ n" using Suc.prems(3) by auto
    then obtain ps where ps: "\<forall>p \<in> set ps. length p = n \<and> path_way p < A - 2 ^ n"
      and v: "A - 2 ^ n \<le> path_way (tree_victim (fold tree_touch ps r))"
      using Suc.IH [OF t(3)] by blast
    have "tree_depth n (fold tree_touch ps r)" using t(3) by simp
    then have "A \<le> path_way (tree_victim (fold tree_touch (map ((#) True) ps @ [?left]) t))"
      using v touch [of "fold tree_touch ps r"] fold_touch_right [of ps b l r]
      by (cases "ps = []") (simp_all add: t(1))
    moreover have "\<forall>p \<in> set (map ((#) True) ps @ [?left]). length p = Suc n \<and> path_way p < A"
      using ps Suc.prems(2) False by fastforce
    ultimately show ?thesis by blast
  qed
qed simp

lemma plru_outside:
  fixes bits :: "'w::len word"
  assumes "template_ceil_log2 assoc = k" and "k \<le> 5" and "2 ^ k \<le> LENGTH('w) + 1" and "0 < assoc" and "assoc < 2 ^ k"
  shows "\<exists>ways. (\<forall>w \<in> set ways. w < assoc) \<and> assoc \<le> plru_select assoc (fold (plru_update_on_access assoc) ways bits)"
proof -
  obtain ps where ps: "\<forall>p \<in> set ps. length p = k \<and> path_way p < assoc"
    and v: "assoc \<le> path_way (tree_victim (fold tree_touch ps (plru_tree_of k 0 bits)))"
    using tree_victim_outside [OF tree_depth_of assms(4,5)] by blast
  have "map (way_path k) (map path_way ps) = ps"
    using ps by (simp add: map_idI way_path_path_way)
  then have "assoc \<le> plru_select assoc (fold (plru_update_on_access assoc) (map path_way ps) bits)"
    using v by (simp only: plru_select_tree assms(1) plru_updates_tree [OF assms(1-3)])
  then show ?thesis using ps by (intro exI [of _ "map path_way ps"]) auto
qed

section \<open>Least recently used\<close>

definition lru_S :: "nat \<Rightarrow> nat" where
  "lru_S assoc = template_ceil_log2 assoc"

definition lru_L :: "nat \<Rightarrow> nat" where
  "lru_L assoc = (assoc - 1) * template_ceil_log2 assoc"

definition lru_M :: "nat \<Rightarrow> 'w::len word" where
  "lru_M assoc = push_bit (lru_S assoc) 1 - 1"

fun lru_clear_loop :: "nat \<Rightarrow> nat \<Rightarrow> 'w::len word \<Rightarrow> 'w word" where
  "lru_clear_loop S 0 bits = push_bit S bits OR of_nat 0"
| "lru_clear_loop S (Suc i) bits = lru_clear_loop S i (push_bit S bits OR of_nat (Suc i))"

definition lru_clear :: "nat \<Rightarrow> 'w::len word \<Rightarrow> 'w word" where
  "lru_clear assoc bits = lru_clear_loop (lru_S assoc) assoc bits"

definition lru_init :: "nat \<Rightarrow> 'w::len word" where
  "lru_init assoc = lru_clear assoc 0"

definition lru_select :: "nat \<Rightarrow> 'w::len word \<Rightarrow> nat" where
  "lru_select assoc bits = unat (drop_bit (lru_L assoc) bits AND lru_M assoc)"

text \<open>The search loop; the argument \<open>i\<close> counts up and the first counts the steps left.\<close>

fun lru_update_loop :: "nat \<Rightarrow> nat \<Rightarrow> nat \<Rightarrow> nat \<Rightarrow> 'w::len word \<Rightarrow> 'w word \<Rightarrow> 'w word" where
  "lru_update_loop assoc 0 i way t bits = bits"
| "lru_update_loop assoc (Suc n) i way t bits =
     (let S = lru_S assoc in
      if unat (t AND lru_M assoc) = way
      then push_bit S (push_bit (i * S) (drop_bit S t) OR (bits AND (push_bit (i * S) 1 - 1)))
           OR of_nat way
      else lru_update_loop assoc n (Suc i) way (drop_bit S t) bits)"

definition lru_update_on_access :: "nat \<Rightarrow> nat \<Rightarrow> 'w::len word \<Rightarrow> 'w word" where
  "lru_update_on_access assoc way bits =
     (if unat (bits AND lru_M assoc) = way then bits
      else lru_update_loop assoc assoc 0 way bits bits)"

subsection \<open>The LRU bits refine a list of ways\<close>

definition lru_list :: "nat \<Rightarrow> 'w::len word \<Rightarrow> nat list" where
  "lru_list assoc bits =
     map (\<lambda>i. unat (drop_bit (i * lru_S assoc) bits AND lru_M assoc)) [0..<assoc]"

definition move_to_front :: "'b \<Rightarrow> 'b list \<Rightarrow> 'b list" where
  "move_to_front x xs = x # remove1 x xs"


definition lru_field :: "nat \<Rightarrow> 'w::len word \<Rightarrow> nat \<Rightarrow> nat" where
  "lru_field S bits t = unat (take_bit S (drop_bit (t * S) bits))"

lemma lru_M_mask: "w AND lru_M assoc = take_bit (lru_S assoc) (w :: 'w::len word)"
  by (simp add: lru_M_def push_bit_eq_mult flip: and_low_mask)

lemma lru_list_field: "lru_list assoc bits = map (lru_field (lru_S assoc) bits) [0..<assoc]"
  by (simp add: lru_list_def lru_field_def lru_M_mask)

lemma lru_field_eqI:
  fixes a :: "'w::len word" and b :: "'v::len word"
  assumes "\<And>n. n < S \<Longrightarrow> bit a (t * S + n) = bit b (u * S + n)"
  shows "lru_field S a t = lru_field S b u"
proof -
  have "bit (lru_field S a t) n = bit (lru_field S b u) n" for n
    using assms [of n] by (auto simp: lru_field_def bit_simps dest: bit_imp_le_length)
  then show ?thesis by (simp add: bit_eq_iff)
qed

lemma lru_field_of_nat:
  assumes "v < 2 ^ S" and "S \<le> LENGTH('w)"
  shows "lru_field S (of_nat v :: 'w::len word) 0 = v"
proof -
  have "(2::nat) ^ S \<le> 2 ^ LENGTH('w)" using assms(2) by (rule power_increasing) simp
  with assms(1) have "v < 2 ^ LENGTH('w)" by (rule less_le_trans)
  then show ?thesis
    using assms(1)
    by (simp add: lru_field_def unsigned_take_bit_eq unsigned_of_nat take_bit_nat_eq_self)
qed

lemma bit_of_nat_high: "v < 2 ^ S \<Longrightarrow> S \<le> n \<Longrightarrow> \<not> bit (of_nat v :: 'w::len word) n"
  by (metis bit_of_nat_iff bit_take_bit_iff not_le take_bit_nat_eq_self_iff)

definition lru_moved :: "nat \<Rightarrow> nat \<Rightarrow> nat \<Rightarrow> 'w::len word \<Rightarrow> 'w word" where
  "lru_moved S j way bits =
     push_bit S (push_bit (j * S) (drop_bit S (drop_bit (j * S) bits)) OR
       (bits AND (push_bit (j * S) 1 - 1))) OR of_nat way"

lemma field_index_less: "n < S \<Longrightarrow> (t * S + n < j * S) = (t < (j::nat))"
proof
  assume "n < S" "t < j"
  then have "t * S + n < Suc t * S" by simp
  also have "\<dots> \<le> j * S" using \<open>t < j\<close> by (intro mult_right_mono) auto
  finally show "t * S + n < j * S" .
next
  assume "t * S + n < j * S"
  then have "t * S < j * S" by linarith
  then show "t < j" by simp
qed

lemma bit_lru_moved:
  fixes bits :: "'w::len word"
  assumes "way < 2 ^ S" and "x < LENGTH('w)"
  shows "bit (lru_moved S j way bits) x =
    (if x < S then bit (of_nat way :: 'w word) x
     else if x - S < j * S then bit bits (x - S) else bit bits x)"
proof -
  have "bits AND (push_bit (j * S) 1 - 1) = take_bit (j * S) bits"
    by (simp add: push_bit_eq_mult and_low_mask)
  then show ?thesis
    using assms(2) bit_of_nat_high [OF assms(1), of x, where 'w = 'w]
    by (auto simp: lru_moved_def bit_simps)
qed

lemma lru_field_moved:
  fixes bits :: "'w::len word"
  assumes w: "way < 2 ^ S" and S: "(t + 1) * S \<le> LENGTH('w)"
  shows "lru_field S (lru_moved S j way bits) t =
    (if t = 0 then way else if t \<le> j then lru_field S bits (t - 1) else lru_field S bits t)"
proof (cases t)
  case 0
  have "lru_field S (lru_moved S j way bits) 0 = lru_field S (of_nat way :: 'w word) 0"
    using S 0 by (intro lru_field_eqI) (simp add: bit_lru_moved [OF w])
  then show ?thesis using S 0 lru_field_of_nat [OF w] by simp
next
  case (Suc u)
  have b: "t * S + n < LENGTH('w)" if "n < S" for n
    using that S by simp
  show ?thesis
  proof (cases "u < j")
    case True
    have "lru_field S (lru_moved S j way bits) t = lru_field S bits u"
      using b True by (intro lru_field_eqI) (force simp: bit_lru_moved [OF w] Suc field_index_less)
    then show ?thesis using Suc True by simp
  next
    case False
    have "lru_field S (lru_moved S j way bits) t = lru_field S bits t"
      using b False by (intro lru_field_eqI) (auto simp: bit_lru_moved [OF w] Suc field_index_less)
    then show ?thesis using Suc False by simp
  qed
qed


lemma lru_update_loop_find:
  fixes bits :: "'w::len word"
  assumes "i + n = assoc" and "i \<le> j" and "j < assoc"
    and "lru_field (lru_S assoc) bits j = way"
    and "\<forall>k. i \<le> k \<and> k < j \<longrightarrow> lru_field (lru_S assoc) bits k \<noteq> way"
  shows "lru_update_loop assoc n i way (drop_bit (i * lru_S assoc) bits) bits =
         lru_moved (lru_S assoc) j way bits"
  using assms
proof (induction n arbitrary: i)
  case (Suc n)
  let ?S = "lru_S assoc"
  have f: "unat (drop_bit (i * ?S) bits AND lru_M assoc) = lru_field ?S bits i"
    by (simp add: lru_M_mask lru_field_def)
  have d: "drop_bit ?S (drop_bit (i * ?S) bits) = drop_bit (Suc i * ?S) bits"
    by (simp add: add.commute)
  show ?case
  proof (cases "i = j")
    case True
    then show ?thesis using Suc.prems(4) f by (simp add: Let_def lru_moved_def)
  next
    case False
    then have "lru_field ?S bits i \<noteq> way" using Suc.prems(2,5) by simp
    then show ?thesis using Suc.IH [of "Suc i"] Suc.prems False f d by (simp add: Let_def)
  qed
qed simp

lemma template_ceil_log2_bound: "0 < n \<Longrightarrow> w < n \<Longrightarrow> w < 2 ^ template_ceil_log2 n"
  using template_ceil_log2_ge [of n] by linarith

lemma remove1_nth_first:
  assumes "j < length xs" and "xs ! j = x" and "\<forall>k < j. xs ! k \<noteq> x"
  shows "remove1 x xs = take j xs @ drop (Suc j) xs"
proof -
  have "xs = take j xs @ x # drop (Suc j) xs" using assms id_take_nth_drop by metis
  moreover have "x \<notin> set (take j xs)" using assms by (auto simp: in_set_conv_nth)
  ultimately show ?thesis by (metis remove1.simps(2) remove1_append)
qed

lemma lru_update_list:
  fixes bits :: "'w::len word"
  assumes room: "assoc * lru_S assoc \<le> LENGTH('w)" and mem: "way \<in> set (lru_list assoc bits)"
    and w: "way < assoc"
  shows "lru_list assoc (lru_update_on_access assoc way bits) =
         move_to_front way (lru_list assoc bits)"
proof -
  let ?S = "lru_S assoc" and ?xs = "lru_list assoc bits"
  have wS: "way < 2 ^ ?S" unfolding lru_S_def using w by (intro template_ceil_log2_bound) auto
  have fits: "(t + 1) * ?S \<le> LENGTH('w)" if "t < assoc" for t
    using room that mult_right_mono [of "t + 1" assoc ?S] by linarith
  define j where "j = (LEAST j. j < assoc \<and> ?xs ! j = way)"
  have ex: "\<exists>j. j < assoc \<and> ?xs ! j = way"
    using mem by (auto simp: in_set_conv_nth lru_list_field)
  from LeastI_ex [OF ex] have j: "j < assoc" "?xs ! j = way" by (simp_all add: j_def)
  have first: "?xs ! k \<noteq> way" if "k < j" for k
    using not_less_Least [of k "\<lambda>j. j < assoc \<and> ?xs ! j = way"] that j(1) by (auto simp: j_def)
  have upd: "lru_update_on_access assoc way bits = (if j = 0 then bits else lru_moved ?S j way bits)"
  proof -
    have f0: "unat (bits AND lru_M assoc) = ?xs ! 0"
      using w by (simp add: lru_list_def nth_append)
    have "lru_update_loop assoc assoc 0 way (drop_bit (0 * ?S) bits) bits = lru_moved ?S j way bits"
      using j first by (intro lru_update_loop_find) (auto simp: lru_list_field)
    moreover have "?xs ! 0 = way \<longleftrightarrow> j = 0" using j(2) first [of 0] by (cases "j = 0") auto
    ultimately show ?thesis by (simp add: lru_update_on_access_def f0)
  qed
  have rm: "remove1 way ?xs = take j ?xs @ drop (Suc j) ?xs"
    using j first by (intro remove1_nth_first) (auto simp: lru_list_field)
  show ?thesis
  proof (cases "j = 0")
    case True
    have "length ?xs = assoc" by (simp add: lru_list_field)
    then have "?xs = way # drop 1 ?xs"
      using Cons_nth_drop_Suc [of 0 ?xs] j True by simp
    then show ?thesis using True upd rm by (simp add: move_to_front_def)
  next
    case False
    show ?thesis
    proof (rule nth_equalityI)
      show "length (lru_list assoc (lru_update_on_access assoc way bits)) =
            length (move_to_front way ?xs)"
        using mem w by (simp add: move_to_front_def length_remove1) (simp add: lru_list_field)
    next
      fix t assume "t < length (lru_list assoc (lru_update_on_access assoc way bits))"
      then have t: "t < assoc" by (simp add: lru_list_field)
      then show "lru_list assoc (lru_update_on_access assoc way bits) ! t = move_to_front way ?xs ! t"
        using False j(1) by (auto simp: upd move_to_front_def rm nth_Cons' nth_append)
          (auto simp: lru_list_field lru_field_moved [OF wS fits])
    qed
  qed
qed

lemma lru_select_last:
  "0 < assoc \<Longrightarrow> lru_select assoc bits = last (lru_list assoc bits)"
  by (simp add: lru_select_def lru_list_def lru_L_def lru_S_def last_map last_upt)

lemma lru_field_push:
  fixes bits :: "'w::len word"
  assumes "v < 2 ^ S" and "(t + 1) * S \<le> LENGTH('w)"
  shows "lru_field S (push_bit S bits OR of_nat v) t = (if t = 0 then v else lru_field S bits (t - 1))"
proof (cases t)
  case 0
  have "lru_field S (push_bit S bits OR of_nat v) 0 = lru_field S (of_nat v :: 'w word) 0"
    by (rule lru_field_eqI) (auto simp: bit_simps)
  then show ?thesis using assms 0 lru_field_of_nat [of v S, where 'w = 'w] by simp
next
  case (Suc u)
  have "lru_field S (push_bit S bits OR of_nat v) t = lru_field S bits u"
  proof (rule lru_field_eqI)
    fix n assume "n < S"
    moreover have "t * S + n < LENGTH('w)" using \<open>n < S\<close> assms(2) by simp
    ultimately show "bit (push_bit S bits OR of_nat v :: 'w word) (t * S + n) = bit bits (u * S + n)"
      using bit_of_nat_high [OF assms(1), of "t * S + n", where 'w = 'w] Suc
      by (auto simp: bit_simps)
  qed
  then show ?thesis using Suc by simp
qed

lemma lru_field_clear_loop:
  fixes bits :: "'w::len word"
  assumes "i < 2 ^ S" and "(t + 1) * S \<le> LENGTH('w)"
  shows "lru_field S (lru_clear_loop S i bits) t =
    (if t \<le> i then t else lru_field S bits (t - i - 1))"
  using assms
proof (induction i arbitrary: bits t)
  case 0
  then show ?case using lru_field_push [of 0 S t bits] by simp
next
  case (Suc i)
  let ?b = "push_bit S bits OR of_nat (Suc i)"
  have f: "(t - i - 1 + 1) * S \<le> LENGTH('w)"
    using Suc.prems(2) mult_right_mono [of "t - i - 1 + 1" "t + 1" S] by linarith
  have "lru_field S (lru_clear_loop S i ?b) t = (if t \<le> i then t else lru_field S ?b (t - i - 1))"
    using Suc.prems by (intro Suc.IH) auto
  then show ?case using lru_field_push [OF Suc.prems(1) f, of bits] by auto
qed

lemma lru_clear_list:
  fixes bits :: "'w::len word"
  assumes "assoc * lru_S assoc \<le> LENGTH('w)" and "0 < assoc"
  shows "lru_list assoc (lru_clear assoc bits) = [0..<assoc]"
proof (rule nth_equalityI)
  fix t assume "t < length (lru_list assoc (lru_clear assoc bits))"
  then have t: "t < assoc" by (simp add: lru_list_field)
  from assms(2) obtain i where i: "assoc = Suc i" by (cases assoc) auto
  have "(t + 1) * lru_S assoc \<le> LENGTH('w)"
    using assms(1) t mult_right_mono [of "t + 1" assoc "lru_S assoc"] by linarith
  moreover have "i < 2 ^ lru_S assoc"
    unfolding lru_S_def using i by (intro template_ceil_log2_bound) auto
  ultimately show "lru_list assoc (lru_clear assoc bits) ! t = [0..<assoc] ! t"
    using t i lru_field_clear_loop [of i "lru_S assoc" t, where 'w = 'w]
    by (simp add: lru_list_field lru_clear_def del: upt_Suc)
qed (simp add: lru_list_field)


section \<open>Round robin\<close>

definition rr_init :: u32 where
  "rr_init = 0"

definition rr_clear :: u32 where
  "rr_clear = 0"

definition rr_select :: "u32 \<Rightarrow> nat" where
  "rr_select way = unat way"

definition rr_update :: "nat \<Rightarrow> u32 \<Rightarrow> u32" where
  "rr_update assoc way = (way + 1) mod of_nat assoc"

lemma rr_update_unat:
  assumes "assoc < 2 ^ 32" and "unat way < assoc"
  shows "unat (rr_update assoc way) = (unat way + 1) mod assoc"
proof -
  have "unat (way + 1) = unat way + 1"
    using assms by (simp add: unat_word_ariths)
  then show ?thesis
    using assms(1) by (simp add: rr_update_def unat_mod_distrib unat_of_nat)
qed

lemma rr_updates_unat:
  assumes "assoc < 2 ^ 32" and "unat way < assoc"
  shows "unat ((rr_update assoc ^^ n) way) = (unat way + n) mod assoc"
proof (induction n)
  case (Suc n)
  have "unat ((rr_update assoc ^^ n) way) < assoc" using assms by (simp add: Suc)
  then show ?case using assms(1) by (simp add: rr_update_unat Suc mod_simps)
qed (use assms in simp)

section \<open>Pseudo random\<close>

definition pr_init :: "nat \<Rightarrow> u8" where
  "pr_init assoc = of_nat (assoc - 1)"

definition pr_select :: "nat \<Rightarrow> u8 \<Rightarrow> nat" where
  "pr_select assoc y = unat y div (256 div assoc)"

definition pr_update :: "u8 \<Rightarrow> u8" where
  "pr_update y =
     (let y1 = y XOR push_bit 7 y; y2 = y1 XOR drop_bit 5 y1 in y2 XOR push_bit 3 y2)"

lemma pr_select_lt:
  assumes "assoc dvd 256" and "0 < assoc"
  shows "pr_select assoc y < assoc"
proof -
  have "unat y < 256" using unsigned_less [of y, where 'a = nat] by simp
  moreover have "assoc * (256 div assoc) = 256" using assms by simp
  moreover have "0 < 256 div assoc" using assms by (simp add: div_greater_zero_iff dvd_imp_le)
  ultimately show ?thesis by (simp add: pr_select_def less_mult_imp_div_less)
qed

lemma pr_update_nonzero: "y \<noteq> 0 \<Longrightarrow> pr_update y \<noteq> 0"
proof -
  have "list_all (\<lambda>n. pr_update (of_nat (Suc n)) \<noteq> 0) [0..<255]" by code_simp
  then have all: "pr_update (of_nat (Suc n)) \<noteq> 0" if "n < 255" for n
    using that by (simp add: list_all_iff)
  assume "y \<noteq> 0"
  then have "0 < unat y" by (simp add: unat_gt_0)
  then obtain n where n: "unat y = Suc n" by (cases "unat y") auto
  then have "y = of_nat (Suc n)" by (metis of_nat_unat ucast_id)
  moreover have "n < 255" using n unsigned_less [of y, where 'a = nat] by simp
  ultimately show ?thesis using all by simp
qed

section \<open>Properties\<close>

text \<open>
  C23: The tree pseudo-LRU policy never chooses as victim one of the last \<open>CEIL_LOG2<ASSOCIATIVITY>\<close> accessed ways,
  whatever the bits were before, for every associativity up to 32 whose tree fits its word. If the associativity
  is a power of two the victim is an existing way; for no other associativity is that so: from any bits, accesses
  to existing ways lead to a victim outside of the cache. (From 33 ways on, the 32-bit shifts of
  \<open>UpdateOnAccess\<close> no longer reach all bits.)
\<close>

theorem plru_victim_not_recent:
  fixes bits :: "'w::len word"
  assumes "template_ceil_log2 assoc = k" and "k \<le> 5" and "2 ^ k \<le> LENGTH('w) + 1" and "0 < assoc"
  shows "(length ways \<le> k \<and> (\<forall>w \<in> set ways. w < assoc) \<longrightarrow>
      plru_select assoc (fold (plru_update_on_access assoc) ways bits) \<notin> set ways) \<and>
    (if assoc = 2 ^ k then plru_select assoc bits < assoc
     else \<exists>ways. (\<forall>w \<in> set ways. w < assoc) \<and>
       assoc \<le> plru_select assoc (fold (plru_update_on_access assoc) ways bits))"
proof -
  have k: "assoc \<le> 2 ^ k" using template_ceil_log2_ge [OF assms(4)] assms(1) by simp
  let ?b = "fold (plru_update_on_access assoc) ways bits"
  let ?v = "tree_victim (plru_tree_of k 0 ?b)"
  have recent: "plru_select assoc ?b \<notin> set ways" if w: "length ways \<le> k" "\<forall>w \<in> set ways. w < assoc"
  proof
    assume "plru_select assoc ?b \<in> set ways"
    then have "way_path k (path_way ?v) \<in> way_path k ` set ways"
      unfolding plru_select_tree assms(1) by blast
    moreover have "?v \<notin> set (map (way_path k) ways)"
      unfolding plru_updates_tree [OF assms(1-3)] using w by (intro tree_victim_fresh) auto
    ultimately show False by (simp add: way_path_path_way length_tree_victim [OF tree_depth_of])
  qed
  show ?thesis
    using recent plru_select_lt [of assoc bits] assms(1) plru_outside [OF assms] k by auto
qed

theorem plru_victim_not_recent_witness:
  "plru_select 8 (fold (plru_update_on_access 8) [5, 2, 7] (0 :: u8)) \<notin> {5, 2, 7} \<and>
   (\<exists>ways. (\<forall>w \<in> set ways. w < 3) \<and> 3 \<le> plru_select 3 (fold (plru_update_on_access 3) ways (0 :: u8)))"
proof -
  have log: "template_ceil_log2 8 = 3" "template_ceil_log2 3 = 2" by code_simp+
  show ?thesis
    using plru_victim_not_recent [of 8 3 "[5, 2, 7]" "0 :: u8"] plru_victim_not_recent [of 3 2 _ "0 :: u8"] log by simp
qed

text \<open>Three ways, accessed in the order 2 and 0: the victim is way 3.\<close>

lemma plru_three_ways: "plru_select 3 (fold (plru_update_on_access 3) [2, 0] (plru_clear :: u8)) = 3"
  by code_simp

text \<open>
  C22: The packed bits of the LRU policy implement the textbook LRU list: cleared, they list the
  ways in order; every access moves its way to the front and leaves the order of the others;
  the victim is the last of the list. This holds for every associativity whose list fits the
  word, powers of two or not, with no interference from the unused high bits.
\<close>

theorem lru_refines_list:
  fixes bits :: "'w::len word"
  assumes "assoc * lru_S assoc \<le> LENGTH('w)" and "0 < assoc" and "\<forall>w \<in> set ways. w < assoc"
  shows "lru_list assoc (fold (lru_update_on_access assoc) ways (lru_clear assoc bits)) =
           fold move_to_front ways [0..<assoc] \<and>
         lru_select assoc (fold (lru_update_on_access assoc) ways (lru_clear assoc bits)) =
           last (fold move_to_front ways [0..<assoc])"
proof -
  have perm: "set (fold move_to_front ws xs) = set xs" if "set ws \<subseteq> set xs" for ws and xs :: "nat list"
    using that
  proof (induction ws arbitrary: xs)
    case (Cons w ws)
    have "set (move_to_front w xs) = set xs"
      using Cons.prems set_remove1_subset [of w xs] in_set_remove1
      by (fastforce simp: move_to_front_def)
    then show ?case using Cons by simp
  qed simp
  have "lru_list assoc (fold (lru_update_on_access assoc) ws b) = fold move_to_front ws (lru_list assoc b)"
    if "set ws \<subseteq> {0..<assoc}" "set (lru_list assoc b) = {0..<assoc}" for ws and b :: "'w word"
    using that
  proof (induction ws arbitrary: b)
    case (Cons w ws)
    have u: "lru_list assoc (lru_update_on_access assoc w b) = move_to_front w (lru_list assoc b)"
      using Cons.prems by (intro lru_update_list [OF assms(1)]) auto
    have "set (move_to_front w (lru_list assoc b)) = {0..<assoc}"
      using perm [of "[w]" "lru_list assoc b"] Cons.prems by simp
    then show ?case using Cons u by simp
  qed simp
  from this [of ways "lru_clear assoc bits"]
  have "lru_list assoc (fold (lru_update_on_access assoc) ways (lru_clear assoc bits)) =
        fold move_to_front ways [0..<assoc]"
    using assms(3) lru_clear_list [OF assms(1,2), of bits] by (simp add: subset_eq)
  then show ?thesis using assms(2) by (simp add: lru_select_last)
qed

theorem lru_refines_list_witness:
  "lru_select 4 (fold (lru_update_on_access 4) [2, 0, 3] (lru_clear 4 (0 :: u8))) = 1"
proof -
  have "lru_S 4 = 2"
    using template_ceil_log2_pow2 [of 2] by (simp add: lru_S_def)
  then show ?thesis
    using lru_refines_list [of 4 "[2, 0, 3]", where 'w = 8]
    by (simp add: move_to_front_def upt_rec)
qed

text \<open>
  Round robin: \<open>ASSOCIATIVITY\<close> consecutive fills evict every way exactly once, from any
  starting way.
\<close>

theorem rr_evicts_every_way:
  assumes "assoc < 2 ^ 32" and "unat way < assoc"
  shows "distinct (map (\<lambda>n. rr_select ((rr_update assoc ^^ n) way)) [0..<assoc]) \<and>
         set (map (\<lambda>n. rr_select ((rr_update assoc ^^ n) way)) [0..<assoc]) = {0..<assoc}"
proof -
  let ?f = "\<lambda>n. (unat way + n) mod assoc"
  have f: "map (\<lambda>n. rr_select ((rr_update assoc ^^ n) way)) [0..<assoc] = map ?f [0..<assoc]"
    using rr_updates_unat [OF assms] by (simp add: rr_select_def)
  have inj: "inj_on ?f {0..<assoc}"
  proof (rule inj_onI)
    fix i j assume "i \<in> {0..<assoc}" "j \<in> {0..<assoc}" "?f i = ?f j"
    then show "i = j"
      using mod_add_neq [of i j assoc "unat way"] mod_add_neq [of j i assoc "unat way"]
      by (cases i j rule: linorder_cases) (simp_all add: less_imp_diff_less)
  qed
  have "?f ` {0..<assoc} = {0..<assoc}"
    using assms(2) by (intro endo_inj_surj [OF _ _ inj]) auto
  with inj show ?thesis unfolding f by (simp add: distinct_map)
qed

theorem rr_evicts_every_way_witness:
  "set (map (\<lambda>n. rr_select ((rr_update 4 ^^ n) 3)) [0..<4]) = {0..<4}"
  using rr_evicts_every_way [of 4 3] by simp

end
