(* ===== verification/Sparse_Memory.thy ===== *)
theory Sparse_Memory
  imports Prelude
begin

text \<open>
  \<open>component/cxx/memory/sparse/memory.hh\<close>: the paged sparse memory. \<open>2 ^ HiTagSize\<close> buckets
  hold chains of pages of \<open>2 ^ LoTagSize\<close> bytes; a page is created the first time it is
  touched, by a read as well, with the content \<open>fresh\<close> that the \<open>_MemSet\<close> argument leaves in
  a new page. Addresses and sizes are words of the width of the template's \<open>addrT\<close>.
\<close>

record sparse_config =
  LoTagSize :: nat
  HiTagSize :: nat
  fresh :: "u8 list"

record (overloaded) ('p) page =
  m_address :: "'p word"
  m_storage :: "u8 list"

type_synonym 'p sparse = "'p page list list"

definition sparse_init :: "sparse_config \<Rightarrow> 'p::len sparse" where
  "sparse_init cf = replicate (2 ^ HiTagSize cf) []"

definition page_addr :: "sparse_config \<Rightarrow> 'p::len word \<Rightarrow> 'p word" where
  "page_addr cf addr = push_bit (LoTagSize cf) (drop_bit (LoTagSize cf) addr)"

definition page_bucket :: "sparse_config \<Rightarrow> 'p::len word \<Rightarrow> nat" where
  "page_bucket cf addr = unat (drop_bit (LoTagSize cf) addr) mod 2 ^ HiTagSize cf"

definition new_page :: "sparse_config \<Rightarrow> 'p::len word \<Rightarrow> 'p page" where
  "new_page cf addr =
     \<lparr>m_address = addr AND push_bit (LoTagSize cf) (- 1), m_storage = fresh cf\<rparr>"

text \<open>
  \<open>getpage\<close> returns a pointer to the page. The model returns the memory, in which the page now
  exists, and the page; \<open>put_page\<close> stores through the pointer.
\<close>

definition find_page :: "'p::len word \<Rightarrow> 'p page list \<Rightarrow> 'p page option" where
  "find_page pa chain = find (\<lambda>pg. m_address pg = pa) chain"

definition getpage :: "sparse_config \<Rightarrow> 'p::len word \<Rightarrow> 'p sparse \<Rightarrow> 'p page \<times> 'p sparse" where
  "getpage cf addr m =
     (let b = page_bucket cf addr; pa = page_addr cf addr in
      case find_page pa (m ! b) of
        Some pg \<Rightarrow> (pg, m)
      | None \<Rightarrow> let pg = new_page cf pa in (pg, m[b := pg # m ! b]))"

fun replace_page :: "'p::len word \<Rightarrow> u8 list \<Rightarrow> 'p page list \<Rightarrow> 'p page list" where
  "replace_page pa st [] = []"
| "replace_page pa st (pg # chain) =
     (if m_address pg = pa then pg\<lparr>m_storage := st\<rparr> # chain else pg # replace_page pa st chain)"

definition put_page :: "sparse_config \<Rightarrow> 'p::len word \<Rightarrow> u8 list \<Rightarrow> 'p sparse \<Rightarrow> 'p sparse" where
  "put_page cf addr st m =
     (let b = page_bucket cf addr in m[b := replace_page (page_addr cf addr) st (m ! b)])"

text \<open>
  \<open>getpage_cache\<close>: like \<open>getpage\<close> without creation; a page found behind the head of its chain
  is moved to the head.
\<close>

definition getpage_cache ::
  "sparse_config \<Rightarrow> 'p::len word \<Rightarrow> 'p sparse \<Rightarrow> 'p page option \<times> 'p sparse" where
  "getpage_cache cf addr m =
     (let b = page_bucket cf addr; pa = page_addr cf addr in
      case find_page pa (m ! b) of
        None \<Rightarrow> (None, m)
      | Some pg \<Rightarrow> (Some pg, m[b := pg # remove1 pg (m ! b)]))"

text \<open>
  The three access routines share one shape: a first partial page when the address is not
  page aligned, then whole pages while bytes remain. \<open>chunk\<close> is the number of bytes handled in
  the page of \<open>addr\<close>.
\<close>

definition page_offset :: "sparse_config \<Rightarrow> 'p::len word \<Rightarrow> nat" where
  "page_offset cf addr = unat addr mod 2 ^ LoTagSize cf"

definition page_room :: "sparse_config \<Rightarrow> 'p::len word \<Rightarrow> nat" where
  "page_room cf addr = 2 ^ LoTagSize cf - page_offset cf addr"

lemma page_room_pos [simp]: "0 < page_room cf addr"
  by (simp add: page_room_def page_offset_def)

function sparse_read_pages ::
  "sparse_config \<Rightarrow> 'p::len word \<Rightarrow> nat \<Rightarrow> 'p sparse \<Rightarrow> u8 list \<times> 'p sparse" where
  "sparse_read_pages cf addr sz m =
     (if sz = 0 then ([], m)
      else let n = min (2 ^ LoTagSize cf) sz; (pg, m1) = getpage cf addr m;
               (bs, m2) = sparse_read_pages cf (addr + of_nat n) (sz - n) m1
           in (read_at (m_storage pg) 0 n @ bs, m2))"
  by auto
termination by (relation "measure (\<lambda>(cf, addr, sz, m). sz)") auto

definition sparse_read ::
  "sparse_config \<Rightarrow> 'p::len word \<Rightarrow> nat \<Rightarrow> 'p sparse \<Rightarrow> u8 list \<times> 'p sparse" where
  "sparse_read cf addr sz m =
     (let off = page_offset cf addr in
      if off \<noteq> 0
      then let n = min (2 ^ LoTagSize cf - off) sz; (pg, m1) = getpage cf addr m;
               (bs, m2) = sparse_read_pages cf (addr + of_nat n) (sz - n) m1
           in (read_at (m_storage pg) off n @ bs, m2)
      else sparse_read_pages cf addr sz m)"

function sparse_write_pages ::
  "sparse_config \<Rightarrow> 'p::len word \<Rightarrow> u8 list \<Rightarrow> 'p sparse \<Rightarrow> 'p sparse" where
  "sparse_write_pages cf addr bs m =
     (if length bs = 0 then m
      else let n = min (2 ^ LoTagSize cf) (length bs); (pg, m1) = getpage cf addr m
           in sparse_write_pages cf (addr + of_nat n) (drop n bs)
                (put_page cf addr (write_at (m_storage pg) 0 (take n bs)) m1))"
  by auto
termination by (relation "measure (\<lambda>(cf, addr, bs, m). length bs)") auto

definition sparse_write ::
  "sparse_config \<Rightarrow> 'p::len word \<Rightarrow> u8 list \<Rightarrow> 'p sparse \<Rightarrow> 'p sparse" where
  "sparse_write cf addr bs m =
     (let off = page_offset cf addr in
      if off \<noteq> 0
      then let n = min (2 ^ LoTagSize cf - off) (length bs); (pg, m1) = getpage cf addr m
           in sparse_write_pages cf (addr + of_nat n) (drop n bs)
                (put_page cf addr (write_at (m_storage pg) off (take n bs)) m1)
      else sparse_write_pages cf addr bs m)"

function sparse_clear_pages ::
  "sparse_config \<Rightarrow> 'p::len word \<Rightarrow> nat \<Rightarrow> 'p sparse \<Rightarrow> 'p sparse" where
  "sparse_clear_pages cf addr sz m =
     (if sz = 0 then m
      else let n = min (2 ^ LoTagSize cf) sz; (pg, m1) = getpage cf addr m
           in sparse_clear_pages cf (addr + of_nat n) (sz - n)
                (put_page cf addr (write_at (m_storage pg) 0 (replicate n 0)) m1))"
  by auto
termination by (relation "measure (\<lambda>(cf, addr, sz, m). sz)") auto

definition sparse_clear :: "sparse_config \<Rightarrow> 'p::len word \<Rightarrow> nat \<Rightarrow> 'p sparse \<Rightarrow> 'p sparse" where
  "sparse_clear cf addr sz m =
     (let off = page_offset cf addr in
      if off \<noteq> 0
      then let n = min (2 ^ LoTagSize cf - off) sz; (pg, m1) = getpage cf addr m
           in sparse_clear_pages cf (addr + of_nat n) (sz - n)
                (put_page cf addr (write_at (m_storage pg) off (replicate n 0)) m1)
      else sparse_clear_pages cf addr sz m)"

declare sparse_read_pages.simps [simp del] sparse_write_pages.simps [simp del]
  sparse_clear_pages.simps [simp del]

section \<open>The byte view\<close>

text \<open>
  Reading the pages as a function from addresses to bytes; a byte of a page that does not exist
  yet is the one the fresh page will have.
\<close>

definition sparse_wf :: "sparse_config \<Rightarrow> 'p::len sparse \<Rightarrow> bool" where
  "sparse_wf cf m \<longleftrightarrow>
     length m = 2 ^ HiTagSize cf \<and> length (fresh cf) = 2 ^ LoTagSize cf \<and>
     LoTagSize cf < LENGTH('p) \<and>
     (\<forall>chain \<in> set m. \<forall>pg \<in> set chain. length (m_storage pg) = 2 ^ LoTagSize cf)"

definition sparse_byte :: "sparse_config \<Rightarrow> 'p::len sparse \<Rightarrow> 'p word \<Rightarrow> u8" where
  "sparse_byte cf m addr =
     (case find_page (page_addr cf addr) (m ! page_bucket cf addr) of
        Some pg \<Rightarrow> m_storage pg ! page_offset cf addr
      | None \<Rightarrow> fresh cf ! page_offset cf addr)"


lemma unat_page_addr:
  "unat (page_addr cf (a :: 'p::len word)) = unat a - unat a mod 2 ^ LoTagSize cf"
  using unat_and_high_mask [of a "LoTagSize cf"] by (simp add: page_addr_def and_high_mask)

lemma page_addr_eq_iff:
  "page_addr cf a = page_addr cf (b :: 'p::len word) \<longleftrightarrow>
   unat a div 2 ^ LoTagSize cf = unat b div 2 ^ LoTagSize cf"
  by (simp add: word_unat_eq_iff unat_page_addr minus_mod_eq_mult_div)

lemma page_bucket_cong:
  "page_addr cf a = page_addr cf b \<Longrightarrow> page_bucket cf a = page_bucket cf (b :: 'p::len word)"
  by (simp add: page_addr_eq_iff page_bucket_def unat_drop_bit)

lemma page_addr_idem [simp]: "page_addr cf (page_addr cf a) = page_addr cf (a :: 'p::len word)"
  unfolding page_addr_def by (rule bit_eqI) (auto simp: bit_simps)

lemma new_page_address [simp]: "m_address (new_page cf (page_addr cf a)) = page_addr cf (a :: 'p::len word)"
  unfolding new_page_def page_addr_def by (simp, rule bit_eqI) (auto simp: bit_simps)

lemma word_offset_in_page:
  fixes addr :: "'p::len word"
  assumes lo: "LoTagSize cf < LENGTH('p)" and k: "page_offset cf addr + k < 2 ^ LoTagSize cf"
  shows "page_addr cf (addr + of_nat k) = page_addr cf addr"
    and "page_offset cf (addr + of_nat k) = page_offset cf addr + k"
    and "unat (addr + of_nat k) = unat addr + k"
proof -
  let ?B = "2 ^ LoTagSize cf :: nat" and ?q = "unat addr div 2 ^ LoTagSize cf"
  have B: "2 ^ LENGTH('p) = ?B * 2 ^ (LENGTH('p) - LoTagSize cf)"
    using lo by (simp flip: power_add)
  have a: "unat addr = ?q * ?B + page_offset cf addr" unfolding page_offset_def by (rule div_mult_mod_eq [symmetric])
  have "?q < 2 ^ (LENGTH('p) - LoTagSize cf)"
    using unsigned_less [of addr, where 'a = nat] unfolding B by (simp add: less_mult_imp_div_less mult.commute)
  then have "Suc ?q * ?B \<le> 2 ^ LENGTH('p)" unfolding B by (metis Suc_leI mult.commute mult_le_mono2)
  then have "unat addr + k < 2 ^ LENGTH('p)" using k a by simp
  then show u: "unat (addr + of_nat k) = unat addr + k"
    by (simp add: unat_word_ariths unat_of_nat)
  have s: "unat addr + k = ?q * ?B + (page_offset cf addr + k)" using a by simp
  show "page_offset cf (addr + of_nat k) = page_offset cf addr + k"
    unfolding page_offset_def [of cf "addr + of_nat k"] u s using k by simp
  show "page_addr cf (addr + of_nat k) = page_addr cf addr"
    unfolding page_addr_eq_iff u s using k by simp
qed

lemma sparse_wf_find:
  "sparse_wf cf m \<Longrightarrow> b < 2 ^ HiTagSize cf \<Longrightarrow> find_page pa (m ! b) = Some pg \<Longrightarrow>
   length (m_storage pg) = 2 ^ LoTagSize cf"
  unfolding sparse_wf_def find_page_def find_Some_iff by (metis nth_mem)

lemma page_bucket_lt [simp]: "page_bucket cf a < 2 ^ HiTagSize cf"
  by (simp add: page_bucket_def)

lemma getpage_facts:
  fixes m :: "'p::len sparse"
  assumes wf: "sparse_wf cf m" and g: "getpage cf addr m = (pg, m1)"
  shows "sparse_wf cf m1" and "sparse_byte cf m1 = sparse_byte cf m"
    and "find_page (page_addr cf addr) (m1 ! page_bucket cf addr) = Some pg"
    and "length (m_storage pg) = 2 ^ LoTagSize cf"
proof -
  let ?b = "page_bucket cf addr" and ?pa = "page_addr cf addr"
  have len: "length m = 2 ^ HiTagSize cf" "length (fresh cf) = 2 ^ LoTagSize cf"
    using wf by (simp_all add: sparse_wf_def)
  show "find_page ?pa (m1 ! ?b) = Some pg"
    using g len by (auto simp: getpage_def Let_def find_page_def split: option.splits)
  have "m ! ?b \<in> set m" using len by (intro nth_mem) simp
  then have mem: "\<forall>pg \<in> set (m ! ?b). length (m_storage pg) = 2 ^ LoTagSize cf"
    using wf unfolding sparse_wf_def by blast
  show wf1: "sparse_wf cf m1"
    using wf g len mem
    by (auto simp: getpage_def Let_def sparse_wf_def new_page_def split: option.splits
        dest!: set_update_subset_insert [THEN subsetD])
  show "length (m_storage pg) = 2 ^ LoTagSize cf"
    using sparse_wf_find [OF wf1 page_bucket_lt \<open>find_page ?pa (m1 ! ?b) = Some pg\<close>] .
  show "sparse_byte cf m1 = sparse_byte cf m"
  proof
    fix a
    show "sparse_byte cf m1 a = sparse_byte cf m a"
    proof (cases "find_page ?pa (m ! ?b)")
      case (Some x)
      then show ?thesis using g by (simp add: getpage_def Let_def)
    next
      case None
      then have m1: "m1 = m[?b := new_page cf ?pa # m ! ?b]"
        using g by (auto simp: getpage_def Let_def)
      show ?thesis
      proof (cases "page_addr cf a = ?pa")
        case True
        then show ?thesis
          using None len page_bucket_cong [OF True]
          by (simp add: sparse_byte_def m1 find_page_def) (simp add: new_page_def)
      next
        case False
        then show ?thesis
          using len by (cases "page_bucket cf a = ?b") (auto simp: sparse_byte_def m1 find_page_def)
      qed
    qed
  qed
qed

lemma find_replace_page:
  "find_page pa chain = Some pg \<Longrightarrow>
   find_page qa (replace_page pa st chain) =
     (if qa = pa then Some (pg\<lparr>m_storage := st\<rparr>) else find_page qa chain)"
  by (induction chain) (auto simp: find_page_def split: if_splits)

lemma set_replace_page:
  "pg \<in> set (replace_page pa st chain) \<Longrightarrow> pg \<in> set chain \<or> m_storage pg = st"
  by (induction chain) (auto split: if_splits)

lemma put_page_facts:
  fixes m :: "'p::len sparse"
  assumes wf: "sparse_wf cf m" and pg: "find_page (page_addr cf addr) (m ! page_bucket cf addr) = Some pg"
    and st: "length st = 2 ^ LoTagSize cf"
  shows "sparse_wf cf (put_page cf addr st m)"
    and "sparse_byte cf (put_page cf addr st m) a =
      (if page_addr cf a = page_addr cf addr then st ! page_offset cf a else sparse_byte cf m a)"
proof -
  have len: "length m = 2 ^ HiTagSize cf" using wf by (simp add: sparse_wf_def)
  show "sparse_wf cf (put_page cf addr st m)"
    using wf st len
    by (auto simp: sparse_wf_def put_page_def Let_def dest!: set_update_subset_insert [THEN subsetD] set_replace_page)
  show "sparse_byte cf (put_page cf addr st m) a =
      (if page_addr cf a = page_addr cf addr then st ! page_offset cf a else sparse_byte cf m a)"
  proof (cases "page_addr cf a = page_addr cf addr")
    case True
    then show ?thesis
      using len page_bucket_cong [OF True]
      by (simp add: sparse_byte_def put_page_def Let_def find_replace_page [OF pg])
  next
    case False
    then show ?thesis
      using len by (cases "page_bucket cf a = page_bucket cf addr")
        (auto simp: sparse_byte_def put_page_def Let_def find_replace_page [OF pg])
  qed
qed


text \<open>One chunk: the bytes of a single page, read or replaced through its pointer.\<close>

lemma read_chunk:
  fixes m :: "'p::len sparse"
  assumes wf: "sparse_wf cf m" and g: "getpage cf addr m = (pg, m1)"
    and n: "page_offset cf addr + n \<le> 2 ^ LoTagSize cf"
  shows "read_at (m_storage pg) (page_offset cf addr) n =
         map (\<lambda>k. sparse_byte cf m (addr + of_nat k)) [0..<n]"
proof (rule nth_equalityI)
  note gf = getpage_facts [OF wf g]
  have lo: "LoTagSize cf < LENGTH('p)" using wf by (simp add: sparse_wf_def)
  show "length (read_at (m_storage pg) (page_offset cf addr) n) =
      length (map (\<lambda>k. sparse_byte cf m (addr + of_nat k)) [0..<n])"
    using n gf(4) by simp
  fix k assume "k < length (read_at (m_storage pg) (page_offset cf addr) n)"
  then have k: "k < n" "page_offset cf addr + k < 2 ^ LoTagSize cf" using n gf(4) by simp_all
  note off = word_offset_in_page [OF lo k(2)]
  have "sparse_byte cf m1 (addr + of_nat k) = m_storage pg ! (page_offset cf addr + k)"
    using gf(3) page_bucket_cong [OF off(1)] by (simp add: sparse_byte_def off)
  then show "read_at (m_storage pg) (page_offset cf addr) n ! k =
      map (\<lambda>k. sparse_byte cf m (addr + of_nat k)) [0..<n] ! k"
    using k n gf(2,4) by (simp add: nth_read_at)
qed

lemma unat_sub_of_nat:
  fixes a b :: "'p::len word"
  assumes "unat (a - b) = d" shows "a = b + of_nat d"
  using assms by (metis add.commute diff_add_cancel of_nat_unat ucast_id)

lemma write_chunk:
  fixes m :: "'p::len sparse"
  assumes wf: "sparse_wf cf m" and g: "getpage cf addr m = (pg, m1)"
    and n: "page_offset cf addr + length xs \<le> 2 ^ LoTagSize cf"
  defines "m2 \<equiv> put_page cf addr (write_at (m_storage pg) (page_offset cf addr) xs) m1"
  shows "sparse_wf cf m2"
    and "sparse_byte cf m2 a =
      (if unat (a - addr) < length xs then xs ! unat (a - addr) else sparse_byte cf m a)"
proof -
  let ?o = "page_offset cf addr" and ?st = "write_at (m_storage pg) (page_offset cf addr) xs"
  note gf = getpage_facts [OF wf g]
  have lo: "LoTagSize cf < LENGTH('p)" using wf by (simp add: sparse_wf_def)
  have st: "length ?st = 2 ^ LoTagSize cf" using n gf(4) by simp
  note pf = put_page_facts [OF gf(1,3) st]
  show "sparse_wf cf m2" unfolding m2_def by (rule pf(1))
  have at: "sparse_byte cf m2 a = (if page_addr cf a = page_addr cf addr
      then ?st ! page_offset cf a else sparse_byte cf m a)"
    unfolding m2_def pf(2) gf(2) ..
  show "sparse_byte cf m2 a =
      (if unat (a - addr) < length xs then xs ! unat (a - addr) else sparse_byte cf m a)"
  proof (cases "unat (a - addr) < length xs")
    case True
    define d where "d = unat (a - addr)"
    have a: "a = addr + of_nat d" by (rule unat_sub_of_nat) (simp add: d_def)
    have "?o + d < 2 ^ LoTagSize cf" using True n by (simp add: d_def)
    note off = word_offset_in_page [OF lo this]
    have "sparse_byte cf m2 a = ?st ! (?o + d)" unfolding at unfolding a off(1,2) by simp
    also have "\<dots> = xs ! d" using True n gf(4) by (simp add: nth_write_at d_def)
    finally show ?thesis using True by (simp add: d_def)
  next
    case False
    show ?thesis
    proof (cases "page_addr cf a = page_addr cf addr")
      case same: True
      have po: "page_offset cf a < 2 ^ LoTagSize cf" by (simp add: page_offset_def)
      have out: "\<not> (?o \<le> page_offset cf a \<and> page_offset cf a < ?o + length xs)"
      proof
        assume b: "?o \<le> page_offset cf a \<and> page_offset cf a < ?o + length xs"
        define d where "d = page_offset cf a - ?o"
        have d: "?o + d < 2 ^ LoTagSize cf" "?o + d = page_offset cf a" using b po by (auto simp: d_def)
        note off = word_offset_in_page [OF lo d(1)]
        have "unat a = unat (addr + of_nat d)"
          using off(1,2) same d(2) unfolding page_addr_eq_iff page_offset_def
          by (metis div_mult_mod_eq)
        then have "a - addr = of_nat d" by (simp add: word_unat_eq_iff [symmetric])
        moreover have "unat (of_nat d :: 'p word) \<le> d" by (simp add: unat_of_nat)
        moreover have "d < length xs" using b unfolding d_def by linarith
        ultimately have "unat (a - addr) < length xs" by (metis le_less_trans)
        with False show False by simp
      qed
      have "sparse_byte cf m1 a = m_storage pg ! page_offset cf a"
        using gf(3) same page_bucket_cong [OF same] by (simp add: sparse_byte_def)
      then show ?thesis
        using False same out n po gf(2,4) by (auto simp: at nth_write_at)
    next
      case diff: False
      then show ?thesis using False by (simp add: at)
    qed
  qed
qed

lemma page_offset_next:
  fixes addr :: "'p::len word"
  assumes lo: "LoTagSize cf < LENGTH('p)"
  shows "page_offset cf (addr + of_nat (page_room cf addr)) = 0"
proof -
  let ?B = "2 ^ LoTagSize cf :: nat"
  have "?B dvd 2 ^ LENGTH('p)" using lo by (intro le_imp_power_dvd) simp
  then have "page_offset cf (addr + of_nat (page_room cf addr)) = (unat addr + page_room cf addr) mod ?B"
    by (simp add: page_offset_def unat_word_ariths unat_of_nat mod_mod_cancel mod_simps)
  also have "\<dots> = (page_offset cf addr + page_room cf addr) mod ?B"
    by (simp add: page_offset_def mod_simps)
  also have "page_offset cf addr + page_room cf addr = ?B"
    by (simp add: page_room_def page_offset_def)
  finally show ?thesis by simp
qed


section \<open>Reads and writes over page boundaries\<close>

lemma of_nat_diff_sub:
  fixes a addr :: "'p::len word"
  assumes "n \<le> 2 ^ LENGTH('p)"
  shows "unat (a - (addr + of_nat n)) =
    (if n \<le> unat (a - addr) then unat (a - addr) - n else unat (a - addr) + 2 ^ LENGTH('p) - n)"
proof -
  define x where "x = a - addr"
  have x: "unat x < 2 ^ LENGTH('p)" by simp
  have e: "a - (addr + of_nat n) = x - of_nat n" by (simp add: x_def)
  show ?thesis
  proof (cases "n \<le> unat x")
    case True
    then have "n < 2 ^ LENGTH('p)" using x by (rule le_less_trans)
    then have "unat (of_nat n :: 'p word) = n" by (simp add: unat_of_nat)
    then show ?thesis using True unfolding e x_def [symmetric] by (simp add: unat_sub word_le_nat_alt)
  next
    case False
    show ?thesis
    proof (cases "n = 2 ^ LENGTH('p)")
      case True
      then show ?thesis using False unfolding e x_def [symmetric] by simp
    next
      case ne: False
      then have u: "unat (of_nat n :: 'p word) = n" using assms by (simp add: unat_of_nat)
      then have "unat (x - of_nat n) = 2 ^ LENGTH('p) + unat x - n"
        using False x by (simp add: unat_sub_if')
      then show ?thesis using False unfolding e x_def [symmetric] by simp
    qed
  qed
qed

lemma written_split:
  fixes a addr :: "'p::len word"
  assumes "n \<le> length bs" and "length bs \<le> 2 ^ LENGTH('p)"
  shows "(if unat (a - (addr + of_nat n)) < length (drop n bs)
          then drop n bs ! unat (a - (addr + of_nat n))
          else if unat (a - addr) < n then bs ! unat (a - addr) else old) =
         (if unat (a - addr) < length bs then bs ! unat (a - addr) else old)"
proof -
  have d: "unat (a - addr) < 2 ^ LENGTH('p)" by simp
  have n: "n \<le> 2 ^ LENGTH('p)" using assms by simp
  show ?thesis
  proof (cases "n \<le> unat (a - addr)")
    case True
    then have u: "unat (a - (addr + of_nat n)) = unat (a - addr) - n"
      using of_nat_diff_sub [OF n, of a addr] by simp
    show ?thesis unfolding u using True by (simp add: less_diff_conv)
  next
    case False
    then have u: "unat (a - (addr + of_nat n)) = unat (a - addr) + 2 ^ LENGTH('p) - n"
      using of_nat_diff_sub [OF n, of a addr] by simp
    have "\<not> unat (a - (addr + of_nat n)) < length (drop n bs)"
      unfolding u length_drop using assms by linarith
    then show ?thesis using False assms(1) by simp
  qed
qed

lemma sparse_write_pages_byte:
  fixes m :: "'p::len sparse"
  assumes "sparse_wf cf m" and "page_offset cf addr = 0 \<or> bs = []" and "length bs \<le> 2 ^ LENGTH('p)"
  shows "sparse_wf cf (sparse_write_pages cf addr bs m) \<and>
    sparse_byte cf (sparse_write_pages cf addr bs m) a =
      (if unat (a - addr) < length bs then bs ! unat (a - addr) else sparse_byte cf m a)"
  using assms
proof (induction cf addr bs m rule: sparse_write_pages.induct)
  case (1 cf addr bs m)
  show ?case
  proof (cases "bs = []")
    case True
    with 1 show ?thesis by (simp add: sparse_write_pages.simps)
  next
    case False
    let ?n = "min (2 ^ LoTagSize cf) (length bs)"
    obtain pg m1 where g: "getpage cf addr m = (pg, m1)" by (cases "getpage cf addr m")
    have o: "page_offset cf addr = 0" using False 1 by simp
    have lo: "LoTagSize cf < LENGTH('p)" using 1 by (simp add: sparse_wf_def)
    define m2 where "m2 = put_page cf addr (write_at (m_storage pg) 0 (take ?n bs)) m1"
    have w: "sparse_wf cf m2" "\<And>a. sparse_byte cf m2 a =
        (if unat (a - addr) < ?n then bs ! unat (a - addr) else sparse_byte cf m a)"
      using write_chunk [OF "1.prems"(1) g, of "take ?n bs"] by (simp_all add: o m2_def)
    have next0: "page_offset cf (addr + of_nat ?n) = 0 \<or> drop ?n bs = []"
      using page_offset_next [OF lo, of addr] by (auto simp: o page_room_def min_def)
    have e: "sparse_write_pages cf addr bs m = sparse_write_pages cf (addr + of_nat ?n) (drop ?n bs) m2"
      by (subst sparse_write_pages.simps) (simp add: False g m2_def Let_def)
    have ih: "sparse_wf cf (sparse_write_pages cf (addr + of_nat ?n) (drop ?n bs) m2) \<and>
      sparse_byte cf (sparse_write_pages cf (addr + of_nat ?n) (drop ?n bs) m2) a =
      (if unat (a - (addr + of_nat ?n)) < length (drop ?n bs) then drop ?n bs ! unat (a - (addr + of_nat ?n))
       else sparse_byte cf m2 a)"
      using 1 False w(1) next0 unfolding m2_def by (intro "1.IH" [OF _ refl g [symmetric] refl]) auto
    have "?n \<le> length bs" by simp
    from written_split [OF this "1.prems"(3), of a addr "sparse_byte cf m a"] show ?thesis
      unfolding e using ih w(2) [of a] by argo
  qed
qed

lemma sparse_write_byte:
  fixes m :: "'p::len sparse"
  assumes "sparse_wf cf m" and "length bs \<le> 2 ^ LENGTH('p)"
  shows "sparse_wf cf (sparse_write cf addr bs m) \<and>
    sparse_byte cf (sparse_write cf addr bs m) a =
      (if unat (a - addr) < length bs then bs ! unat (a - addr) else sparse_byte cf m a)"
proof (cases "page_offset cf addr = 0")
  case True
  with sparse_write_pages_byte [of cf m addr bs a] assms show ?thesis by (simp add: sparse_write_def)
next
  case False
  let ?o = "page_offset cf addr"
  let ?n = "min (2 ^ LoTagSize cf - ?o) (length bs)"
  obtain pg m1 where g: "getpage cf addr m = (pg, m1)" by (cases "getpage cf addr m")
  have lo: "LoTagSize cf < LENGTH('p)" using assms by (simp add: sparse_wf_def)
  have o: "?o < 2 ^ LoTagSize cf" by (simp add: page_offset_def)
  define m2 where "m2 = put_page cf addr (write_at (m_storage pg) ?o (take ?n bs)) m1"
  have w: "sparse_wf cf m2" "\<And>a. sparse_byte cf m2 a =
      (if unat (a - addr) < ?n then bs ! unat (a - addr) else sparse_byte cf m a)"
    using write_chunk [OF assms(1) g, of "take ?n bs"] o by (simp_all add: m2_def)
  have next0: "page_offset cf (addr + of_nat ?n) = 0 \<or> drop ?n bs = []"
    using page_offset_next [OF lo, of addr] by (auto simp: page_room_def min_def)
  have e: "sparse_write cf addr bs m = sparse_write_pages cf (addr + of_nat ?n) (drop ?n bs) m2"
    by (simp add: sparse_write_def False g m2_def Let_def)
  have l: "length (drop ?n bs) \<le> 2 ^ LENGTH('p)" using assms(2) by simp
  have "?n \<le> length bs" by simp
  from written_split [OF this assms(2), of a addr "sparse_byte cf m a"] show ?thesis
    unfolding e using sparse_write_pages_byte [OF w(1) next0 l, of a] w(2) [of a] by argo
qed

lemma map_upt_split:
  "n \<le> k \<Longrightarrow> map f [0..<n] @ map (\<lambda>i. f (n + i)) [0..<k - n] = map f [0..<k]"
  by (rule nth_equalityI) (auto simp: nth_append)

lemma sparse_read_pages_byte:
  fixes m :: "'p::len sparse"
  assumes "sparse_wf cf m" and "page_offset cf addr = 0 \<or> sz = 0"
  shows "\<exists>m'. sparse_read_pages cf addr sz m = (map (\<lambda>k. sparse_byte cf m (addr + of_nat k)) [0..<sz], m') \<and>
     sparse_wf cf m' \<and> sparse_byte cf m' = sparse_byte cf m"
  using assms
proof (induction cf addr sz m rule: sparse_read_pages.induct)
  case (1 cf addr sz m)
  show ?case
  proof (cases "sz = 0")
    case True
    with 1 show ?thesis by (simp add: sparse_read_pages.simps)
  next
    case False
    let ?n = "min (2 ^ LoTagSize cf) sz"
    obtain pg m1 where g: "getpage cf addr m = (pg, m1)" by (cases "getpage cf addr m")
    have o: "page_offset cf addr = 0" using False 1 by simp
    have lo: "LoTagSize cf < LENGTH('p)" using 1 by (simp add: sparse_wf_def)
    note gf = getpage_facts [OF "1.prems"(1) g]
    have next0: "page_offset cf (addr + of_nat ?n) = 0 \<or> sz - ?n = 0"
      using page_offset_next [OF lo, of addr] by (auto simp: o page_room_def min_def)
    from "1.IH" [OF False refl g [symmetric] refl gf(1) next0] gf(2) obtain m' where
      r: "sparse_read_pages cf (addr + of_nat ?n) (sz - ?n) m1 =
          (map (\<lambda>k. sparse_byte cf m (addr + of_nat ?n + of_nat k)) [0..<sz - ?n], m')"
        "sparse_wf cf m'" "sparse_byte cf m' = sparse_byte cf m" by auto
    have "read_at (m_storage pg) 0 ?n = map (\<lambda>k. sparse_byte cf m (addr + of_nat k)) [0..<?n]"
      using read_chunk [OF "1.prems"(1) g, of ?n] by (simp add: o)
    then have "read_at (m_storage pg) 0 ?n @ map (\<lambda>k. sparse_byte cf m (addr + of_nat ?n + of_nat k)) [0..<sz - ?n] =
        map (\<lambda>k. sparse_byte cf m (addr + of_nat k)) [0..<sz]"
      using map_upt_split [of ?n sz "\<lambda>k. sparse_byte cf m (addr + of_nat k)"] by (simp add: add.assoc)
    then show ?thesis
      using r by (subst sparse_read_pages.simps) (simp add: False g Let_def)
  qed
qed

lemma sparse_read_byte:
  fixes m :: "'p::len sparse"
  assumes "sparse_wf cf m"
  shows "\<exists>m'. sparse_read cf addr sz m = (map (\<lambda>k. sparse_byte cf m (addr + of_nat k)) [0..<sz], m') \<and>
     sparse_wf cf m' \<and> sparse_byte cf m' = sparse_byte cf m"
proof (cases "page_offset cf addr = 0")
  case True
  with sparse_read_pages_byte [of cf m addr sz] assms show ?thesis by (simp add: sparse_read_def)
next
  case False
  let ?o = "page_offset cf addr"
  let ?n = "min (2 ^ LoTagSize cf - ?o) sz"
  obtain pg m1 where g: "getpage cf addr m = (pg, m1)" by (cases "getpage cf addr m")
  have lo: "LoTagSize cf < LENGTH('p)" using assms by (simp add: sparse_wf_def)
  have o: "?o < 2 ^ LoTagSize cf" by (simp add: page_offset_def)
  note gf = getpage_facts [OF assms g]
  have next0: "page_offset cf (addr + of_nat ?n) = 0 \<or> sz - ?n = 0"
    using page_offset_next [OF lo, of addr] by (auto simp: page_room_def min_def)
  from sparse_read_pages_byte [OF gf(1) next0] gf(2) obtain m' where
    r: "sparse_read_pages cf (addr + of_nat ?n) (sz - ?n) m1 =
        (map (\<lambda>k. sparse_byte cf m (addr + of_nat ?n + of_nat k)) [0..<sz - ?n], m')"
      "sparse_wf cf m'" "sparse_byte cf m' = sparse_byte cf m" by auto
  have "read_at (m_storage pg) ?o ?n = map (\<lambda>k. sparse_byte cf m (addr + of_nat k)) [0..<?n]"
    using o by (intro read_chunk [OF assms g]) auto
  then have "read_at (m_storage pg) ?o ?n @ map (\<lambda>k. sparse_byte cf m (addr + of_nat ?n + of_nat k)) [0..<sz - ?n] =
      map (\<lambda>k. sparse_byte cf m (addr + of_nat k)) [0..<sz]"
    using map_upt_split [of ?n sz "\<lambda>k. sparse_byte cf m (addr + of_nat k)"] by (simp add: add.assoc)
  then show ?thesis using r by (simp add: sparse_read_def False g Let_def)
qed


lemma sparse_clear_pages_write:
  "sparse_clear_pages cf addr sz m = sparse_write_pages cf addr (replicate sz 0) m"
proof (induction cf addr sz m rule: sparse_clear_pages.induct)
  case (1 cf addr sz m)
  obtain pg m1 where g: "getpage cf addr m = (pg, m1)" by (cases "getpage cf addr m")
  show ?case
  proof (cases "sz = 0")
    case True
    then show ?thesis by (simp add: sparse_clear_pages.simps sparse_write_pages.simps)
  next
    case False
    let ?n = "min (2 ^ LoTagSize cf) sz"
    have "take ?n (replicate sz (0::u8)) = replicate ?n 0" by (simp add: min_def)
    then show ?thesis
      using "1.IH" [OF False refl g [symmetric] refl]
      by (subst sparse_clear_pages.simps, subst sparse_write_pages.simps) (simp add: False Let_def g)
  qed
qed

lemma sparse_clear_write: "sparse_clear cf addr sz m = sparse_write cf addr (replicate sz 0) m"
  by (simp add: sparse_clear_def sparse_write_def Let_def sparse_clear_pages_write min_def
      split: prod.splits)

section \<open>Properties\<close>

text \<open>
  C24: The sparse memory is a byte-addressable memory: a \<open>read\<close> after a \<open>write\<close> of any
  non-wrapping length returns the bytes written where the ranges overlap and the old bytes
  elsewhere, however the two ranges straddle pages, buckets or the end of the address space.
  The write keeps the page structure well formed.
\<close>

theorem sparse_read_write:
  fixes m :: "'p::len sparse"
  assumes "sparse_wf cf m" and "length bs \<le> 2 ^ LENGTH('p)"
  shows "sparse_wf cf (sparse_write cf addr bs m) \<and>
    fst (sparse_read cf addr' sz (sparse_write cf addr bs m)) =
      map (\<lambda>k. let d = unat (addr' + of_nat k - addr)
                in if d < length bs then bs ! d else sparse_byte cf m (addr' + of_nat k)) [0..<sz]"
proof -
  have wf: "sparse_wf cf (sparse_write cf addr bs m)" using sparse_write_byte [OF assms] by blast
  from sparse_read_byte [OF wf, of addr' sz] show ?thesis
    using wf sparse_write_byte [OF assms] by (auto simp: Let_def)
qed

definition sparse_example_cf :: sparse_config where
  "sparse_example_cf = \<lparr>LoTagSize = 1, HiTagSize = 1, fresh = [0, 0]\<rparr>"

lemma sparse_example_wf: "sparse_wf sparse_example_cf (sparse_init sparse_example_cf :: 8 sparse)"
  by (simp add: sparse_wf_def sparse_init_def sparse_example_cf_def)

theorem sparse_read_write_witness:
  "fst (sparse_read sparse_example_cf 254 4
     (sparse_write sparse_example_cf 255 [1, 2] (sparse_init sparse_example_cf :: 8 sparse))) =
   [0, 1, 2, 0]"
  using sparse_read_write [OF sparse_example_wf, of "[1, 2]" 255 254 4]
  by (simp add: Let_def unsigned_minus_1_eq_mask mask_eq_exp_minus_1 upt_rec sparse_byte_def sparse_init_def sparse_example_cf_def find_page_def
      page_offset_def page_bucket_def)

end
