(* ===== verification/Cache_Structure.thy ===== *)
theory Cache_Structure
  imports Prelude
begin

text \<open>
  The structures of \<open>util/cache/cache.hh\<close>: blocks, lines, sets and caches, address decoding,
  the associative search with its most-recently-searched list, lookup and invalidation.
  Logical addresses are \<open>'a word\<close> (\<open>TYPES::ADDRESS\<close>), physical addresses \<open>'p word\<close>
  (\<open>TYPES::PHYSICAL_ADDRESS\<close>), storage attributes \<open>'at\<close>; \<open>'r\<close> is the state the overridable
  replacement hooks keep (the set and line status structures of a configuration). Pointers to
  lines and blocks are the way and sector numbers they stand for; a null pointer is \<open>None\<close>.
\<close>

section \<open>Configuration\<close>

datatype cache_type = NULL_CACHE | DATA_CACHE | INSTRUCTION_CACHE | UNIFIED_CACHE

datatype writing_policy =
    CACHE_WRITE_THROUGH_AND_NO_WRITE_ALLOCATE_POLICY
  | CACHE_WRITE_BACK_AND_NO_WRITE_ALLOCATE_POLICY
  | CACHE_WRITE_THROUGH_AND_WRITE_ALLOCATE_POLICY
  | CACHE_WRITE_BACK_AND_WRITE_ALLOCATE_POLICY

datatype index_scheme = CACHE_VIRTUALLY_INDEXED | CACHE_PHYSICALLY_INDEXED

datatype tag_scheme = CACHE_VIRTUALLY_TAGGED | CACHE_PHYSICALLY_TAGGED

text \<open>
  \<open>CacheAccess\<close>. The line and block base fields have the type \<open>PHYSICAL_ADDRESS\<close> for logical
  addresses too, as in the source.
\<close>

record (overloaded) ('a, 'p, 'at) cache_access =
  acc_addr :: "'a word"
  acc_phys_addr :: "'p word"
  acc_storage_attr :: 'at
  acc_rwitm :: bool
  acc_line_base_addr :: "'p word"
  acc_block_base_addr :: "'p word"
  acc_line_base_phys_addr :: "'p word"
  acc_block_base_phys_addr :: "'p word"
  acc_index :: nat
  acc_way :: nat
  acc_sector :: nat
  acc_offset :: nat
  acc_size_to_block_boundary :: nat
  acc_line :: "nat option"
  acc_line_to_write_back_evict :: "nat option"
  acc_block :: "nat option"

record (overloaded) ('a, 'p, 'at, 'r) cache_config =
  WRITING_POLICY :: writing_policy
  INDEX_SCHEME :: index_scheme
  TAG_SCHEME :: tag_scheme
  CACHE_TYPE :: cache_type
  ASSOCIATIVITY :: nat
  BLOCKS_PER_LINE :: nat
  BLOCK_SIZE :: nat
  SIZE :: nat
  IsWriteAllocate :: "'at \<Rightarrow> bool"
  ChooseLineToEvict :: "('a, 'p, 'at) cache_access \<Rightarrow> 'r \<Rightarrow> nat option \<times> 'r"
  UpdateReplacementPolicyOnAccess :: "('a, 'p, 'at) cache_access \<Rightarrow> 'r \<Rightarrow> 'r"
  UpdateReplacementPolicyOnFill :: "('a, 'p, 'at) cache_access \<Rightarrow> 'r \<Rightarrow> 'r"

definition IsDataCache :: "('a::len, 'p::len, 'at, 'r) cache_config \<Rightarrow> bool" where
  "IsDataCache cf \<longleftrightarrow> CACHE_TYPE cf = DATA_CACHE \<or> CACHE_TYPE cf = UNIFIED_CACHE"

definition IsInstructionCache :: "('a::len, 'p::len, 'at, 'r) cache_config \<Rightarrow> bool" where
  "IsInstructionCache cf \<longleftrightarrow> CACHE_TYPE cf = INSTRUCTION_CACHE \<or> CACHE_TYPE cf = UNIFIED_CACHE"

definition IsStaticWriteBackCache :: "('a::len, 'p::len, 'at, 'r) cache_config \<Rightarrow> bool" where
  "IsStaticWriteBackCache cf \<longleftrightarrow>
     WRITING_POLICY cf \<in> {CACHE_WRITE_BACK_AND_NO_WRITE_ALLOCATE_POLICY,
                           CACHE_WRITE_BACK_AND_WRITE_ALLOCATE_POLICY}"

definition IsStaticWriteThroughCache :: "('a::len, 'p::len, 'at, 'r) cache_config \<Rightarrow> bool" where
  "IsStaticWriteThroughCache cf \<longleftrightarrow> \<not> IsStaticWriteBackCache cf"

definition IsStaticWriteAllocate :: "('a::len, 'p::len, 'at, 'r) cache_config \<Rightarrow> bool" where
  "IsStaticWriteAllocate cf \<longleftrightarrow>
     WRITING_POLICY cf \<in> {CACHE_WRITE_THROUGH_AND_WRITE_ALLOCATE_POLICY,
                           CACHE_WRITE_BACK_AND_WRITE_ALLOCATE_POLICY}"

definition mss_IsWriteAllocate :: "('a::len, 'p::len, 'at, 'r) cache_config \<Rightarrow> 'at \<Rightarrow> bool" where
  "mss_IsWriteAllocate cf attr \<longleftrightarrow> IsStaticWriteAllocate cf \<or> IsWriteAllocate cf attr"

definition NUM_SETS :: "('a::len, 'p::len, 'at, 'r) cache_config \<Rightarrow> nat" where
  "NUM_SETS cf = SIZE cf div BLOCK_SIZE cf div BLOCKS_PER_LINE cf div ASSOCIATIVITY cf"

section \<open>Blocks, lines and sets\<close>

record (overloaded) ('a, 'p) cache_block =
  blk_base_addr :: "'a word"
  blk_base_phys_addr :: "'p word"
  blk_valid :: bool
  blk_dirty :: bool
  blk_sector :: nat
  blk_storage :: "u8 list"

record (overloaded) ('a, 'p) cache_line =
  ln_valid :: bool
  ln_next :: "nat option"
  ln_prev :: "nat option"
  ln_base_addr :: "'a word"
  ln_base_phys_addr :: "'p word"
  ln_way :: nat
  ln_blocks :: "('a, 'p) cache_block list"

record (overloaded) ('a, 'p) cache_set =
  mrs_line :: "nat option"
  lrs_line :: "nat option"
  set_lines :: "('a, 'p) cache_line list"
  set_index :: nat

definition block_init :: "nat \<Rightarrow> nat \<Rightarrow> ('a::len, 'p::len) cache_block" where
  "block_init bsize sector =
     \<lparr>blk_base_addr = 0, blk_base_phys_addr = 0, blk_valid = False, blk_dirty = False,
      blk_sector = sector, blk_storage = replicate bsize 0\<rparr>"

definition block_invalidate :: "('a::len, 'p::len) cache_block \<Rightarrow> ('a, 'p) cache_block" where
  "block_invalidate b = b\<lparr>blk_valid := False, blk_dirty := False\<rparr>"

definition block_zero :: "('a::len, 'p::len) cache_block \<Rightarrow> ('a, 'p) cache_block" where
  "block_zero b = b\<lparr>blk_storage := replicate (length (blk_storage b)) 0\<rparr>"

text \<open>The links a set's constructor and \<open>Invalidate\<close> give to the line of a way.\<close>

definition init_prev :: "nat \<Rightarrow> nat option" where
  "init_prev way = (if way > 0 then Some (way - 1) else None)"

definition init_next :: "nat \<Rightarrow> nat \<Rightarrow> nat option" where
  "init_next assoc way = (if way < assoc - 1 then Some (way + 1) else None)"

definition line_init ::
  "('a::len, 'p::len, 'at, 'r) cache_config \<Rightarrow> nat \<Rightarrow> ('a, 'p) cache_line" where
  "line_init cf way =
     \<lparr>ln_valid = False, ln_next = init_next (ASSOCIATIVITY cf) way, ln_prev = init_prev way,
      ln_base_addr = 0, ln_base_phys_addr = 0, ln_way = way,
      ln_blocks = map (block_init (BLOCK_SIZE cf)) [0..<BLOCKS_PER_LINE cf]\<rparr>"

definition line_set_base_addr ::
  "('a::len, 'p::len, 'at, 'r) cache_config \<Rightarrow> 'a word \<Rightarrow> ('a, 'p) cache_line \<Rightarrow> ('a, 'p) cache_line" where
  "line_set_base_addr cf addr l =
     l\<lparr>ln_base_addr := addr,
       ln_blocks := map (\<lambda>s. (ln_blocks l ! s)
           \<lparr>blk_base_addr := addr + ucast (of_nat s * of_nat (BLOCK_SIZE cf) :: u32)\<rparr>)
         [0..<BLOCKS_PER_LINE cf]\<rparr>"

definition line_set_base_phys_addr ::
  "('a::len, 'p::len, 'at, 'r) cache_config \<Rightarrow> 'p word \<Rightarrow> ('a, 'p) cache_line \<Rightarrow> ('a, 'p) cache_line" where
  "line_set_base_phys_addr cf addr l =
     l\<lparr>ln_base_phys_addr := addr,
       ln_blocks := map (\<lambda>s. (ln_blocks l ! s)
           \<lparr>blk_base_phys_addr := addr + ucast (of_nat s * of_nat (BLOCK_SIZE cf) :: u32)\<rparr>)
         [0..<BLOCKS_PER_LINE cf]\<rparr>"

definition line_invalidate :: "('a::len, 'p::len) cache_line \<Rightarrow> ('a, 'p) cache_line" where
  "line_invalidate l =
     l\<lparr>ln_blocks := map block_invalidate (ln_blocks l), ln_valid := False, ln_base_phys_addr := 0\<rparr>"

definition set_init ::
  "('a::len, 'p::len, 'at, 'r) cache_config \<Rightarrow> nat \<Rightarrow> ('a, 'p) cache_set" where
  "set_init cf index =
     \<lparr>mrs_line = Some 0, lrs_line = Some (ASSOCIATIVITY cf - 1),
      set_lines = map (line_init cf) [0..<ASSOCIATIVITY cf], set_index = index\<rparr>"

definition set_invalidate_line_by_way :: "nat \<Rightarrow> ('a::len, 'p::len) cache_set \<Rightarrow> ('a, 'p) cache_set" where
  "set_invalidate_line_by_way way s =
     (let w = way mod length (set_lines s)
      in s\<lparr>set_lines := (set_lines s)[w := line_invalidate (set_lines s ! w)]\<rparr>)"

definition set_invalidate :: "('a::len, 'p::len) cache_set \<Rightarrow> ('a, 'p) cache_set" where
  "set_invalidate s =
     (let n = length (set_lines s)
      in s\<lparr>set_lines := map (\<lambda>w. (line_invalidate (set_lines s ! w))
                 \<lparr>ln_prev := init_prev w, ln_next := init_next n w\<rparr>) [0..<n],
           mrs_line := Some 0, lrs_line := Some (n - 1)\<rparr>)"

section \<open>The associative search\<close>

text \<open>
  The search follows the \<open>next\<close> links from the most recently searched line. It runs on fuel:
  the number of lines, which suffices for the links the code maintains (lemma
  \<open>search_line_chain\<close>).
\<close>

fun search_line ::
  "nat \<Rightarrow> (('a::len, 'p::len) cache_line \<Rightarrow> bool) \<Rightarrow> ('a, 'p) cache_line list \<Rightarrow> nat option \<Rightarrow> nat option" where
  "search_line 0 P lines cur = None"
| "search_line (Suc n) P lines None = None"
| "search_line (Suc n) P lines (Some w) =
     (if P (lines ! w) then Some w else search_line n P lines (ln_next (lines ! w)))"

definition set_prev :: "nat \<Rightarrow> nat option \<Rightarrow> ('a::len, 'p::len) cache_set \<Rightarrow> ('a, 'p) cache_set" where
  "set_prev w p s = s\<lparr>set_lines := (set_lines s)[w := (set_lines s ! w)\<lparr>ln_prev := p\<rparr>]\<rparr>"

definition set_next :: "nat \<Rightarrow> nat option \<Rightarrow> ('a::len, 'p::len) cache_set \<Rightarrow> ('a, 'p) cache_set" where
  "set_next w n s = s\<lparr>set_lines := (set_lines s)[w := (set_lines s ! w)\<lparr>ln_next := n\<rparr>]\<rparr>"

text \<open>
  The hit branch of the search: when the line is not the first one it is unlinked and moved to
  the front, with the assignments in the order of the source.
\<close>

definition mrs_promote :: "nat \<Rightarrow> ('a::len, 'p::len) cache_set \<Rightarrow> ('a, 'p) cache_set" where
  "mrs_promote w s =
     (case ln_prev (set_lines s ! w) of
        None \<Rightarrow> s
      | Some p \<Rightarrow>
          let s1 = (case ln_next (set_lines s ! w) of
                      Some n \<Rightarrow> set_prev n (ln_prev (set_lines s ! w)) s
                    | None \<Rightarrow> s\<lparr>lrs_line := ln_prev (set_lines s ! w)\<rparr>);
              s2 = set_next p (ln_next (set_lines s1 ! w)) s1;
              s3 = set_prev w None s2;
              s4 = set_next w (mrs_line s3) s3;
              s5 = (case mrs_line s4 of Some m \<Rightarrow> set_prev m (Some w) s4 | None \<Rightarrow> s4)
          in s5\<lparr>mrs_line := Some w\<rparr>)"

definition associative_search ::
  "(('a::len, 'p::len) cache_line \<Rightarrow> bool) \<Rightarrow> ('a, 'p) cache_set \<Rightarrow> nat option \<times> ('a, 'p) cache_set" where
  "associative_search P s =
     (case search_line (length (set_lines s)) P (set_lines s) (mrs_line s) of
        None \<Rightarrow> (None, s)
      | Some w \<Rightarrow> (Some w, mrs_promote w s))"

definition AssociativeSearchByLineBasePhysicalAddress ::
  "'p::len word \<Rightarrow> ('a::len, 'p) cache_set \<Rightarrow> nat option \<times> ('a, 'p) cache_set" where
  "AssociativeSearchByLineBasePhysicalAddress a =
     associative_search (\<lambda>l. ln_valid l \<and> ln_base_phys_addr l = a)"

definition AssociativeSearchByLineBaseAddress ::
  "'a::len word \<Rightarrow> ('a, 'p::len) cache_set \<Rightarrow> nat option \<times> ('a, 'p) cache_set" where
  "AssociativeSearchByLineBaseAddress a =
     associative_search (\<lambda>l. ln_valid l \<and> ln_base_addr l = a)"


section \<open>Caches and address decoding\<close>

record (overloaded) ('a, 'p, 'at, 'r) cache =
  cache_cfg :: "('a, 'p, 'at, 'r) cache_config"
  cache_enabled :: bool
  num_accesses :: u64
  num_misses :: u64
  cache_policy :: 'r
  cache_sets :: "('a, 'p) cache_set list"

definition cache_init ::
  "('a::len, 'p::len, 'at, 'r) cache_config \<Rightarrow> bool \<Rightarrow> 'r \<Rightarrow> ('a, 'p, 'at, 'r) cache" where
  "cache_init cf en r =
     \<lparr>cache_cfg = cf, cache_enabled = en, num_accesses = 0, num_misses = 0, cache_policy = r,
      cache_sets = map (set_init cf) [0..<NUM_SETS cf]\<rparr>"

text \<open>
  The masks are computed in 32-bit \<open>unsigned int\<close> arithmetic and then converted to the width
  of the address: \<open>ucast\<close> zero extends them for a 64-bit address type.
\<close>

definition line_mask :: "('a::len, 'p::len, 'at, 'r) cache_config \<Rightarrow> u32" where
  "line_mask cf = NOT (of_nat (BLOCK_SIZE cf) * of_nat (BLOCKS_PER_LINE cf) - 1)"

definition block_mask :: "('a::len, 'p::len, 'at, 'r) cache_config \<Rightarrow> u32" where
  "block_mask cf = NOT (of_nat (BLOCK_SIZE cf) - 1)"

definition LineBaseAddress :: "('a::len, 'p::len, 'at, 'r) cache_config \<Rightarrow> 'a word \<Rightarrow> 'a word" where
  "LineBaseAddress cf addr = addr AND ucast (line_mask cf)"

definition LineBasePhysicalAddress ::
  "('a::len, 'p::len, 'at, 'r) cache_config \<Rightarrow> 'p word \<Rightarrow> 'p word" where
  "LineBasePhysicalAddress cf addr = addr AND ucast (line_mask cf)"

definition BlockBaseAddress :: "('a::len, 'p::len, 'at, 'r) cache_config \<Rightarrow> 'a word \<Rightarrow> 'a word" where
  "BlockBaseAddress cf addr = addr AND ucast (block_mask cf)"

definition BlockBasePhysicalAddress ::
  "('a::len, 'p::len, 'at, 'r) cache_config \<Rightarrow> 'p word \<Rightarrow> 'p word" where
  "BlockBasePhysicalAddress cf addr = addr AND ucast (block_mask cf)"

definition SectorByAddress :: "('a::len, 'p::len, 'at, 'r) cache_config \<Rightarrow> 'a word \<Rightarrow> nat" where
  "SectorByAddress cf addr = unat addr div BLOCK_SIZE cf mod BLOCKS_PER_LINE cf"

definition SectorByPhysicalAddress ::
  "('a::len, 'p::len, 'at, 'r) cache_config \<Rightarrow> 'p word \<Rightarrow> nat" where
  "SectorByPhysicalAddress cf addr = unat addr div BLOCK_SIZE cf mod BLOCKS_PER_LINE cf"

definition IndexByAddress :: "('a::len, 'p::len, 'at, 'r) cache_config \<Rightarrow> 'a word \<Rightarrow> nat" where
  "IndexByAddress cf addr = unat addr div BLOCK_SIZE cf div BLOCKS_PER_LINE cf mod NUM_SETS cf"

definition IndexByPhysicalAddress ::
  "('a::len, 'p::len, 'at, 'r) cache_config \<Rightarrow> 'p word \<Rightarrow> nat" where
  "IndexByPhysicalAddress cf addr =
     unat addr div BLOCK_SIZE cf div BLOCKS_PER_LINE cf mod NUM_SETS cf"

text \<open>
  A \<open>CacheAccess\<close> before its lookup: the caller fills the input fields, the others are
  uninitialised in the source and 0 here until \<open>Lookup\<close> writes them.
\<close>

definition access_init ::
  "'a::len word \<Rightarrow> 'p::len word \<Rightarrow> 'at \<Rightarrow> bool \<Rightarrow> ('a, 'p, 'at) cache_access" where
  "access_init addr phys attr rwitm =
     \<lparr>acc_addr = addr, acc_phys_addr = phys, acc_storage_attr = attr, acc_rwitm = rwitm,
      acc_line_base_addr = 0, acc_block_base_addr = 0, acc_line_base_phys_addr = 0,
      acc_block_base_phys_addr = 0, acc_index = 0, acc_way = 0, acc_sector = 0, acc_offset = 0,
      acc_size_to_block_boundary = 0, acc_line = None, acc_line_to_write_back_evict = None,
      acc_block = None\<rparr>"

definition DecodeAddress ::
  "('a::len, 'p::len, 'at, 'r) cache_config \<Rightarrow> ('a, 'p, 'at) cache_access \<Rightarrow> ('a, 'p, 'at) cache_access" where
  "DecodeAddress cf a =
     (let off = unat (acc_addr a) mod BLOCK_SIZE cf in
      a\<lparr>acc_offset := off,
        acc_block_base_addr := ucast (BlockBaseAddress cf (acc_addr a)),
        acc_block_base_phys_addr := BlockBasePhysicalAddress cf (acc_phys_addr a),
        acc_size_to_block_boundary := BLOCK_SIZE cf - off,
        acc_line_base_addr := ucast (LineBaseAddress cf (acc_addr a)),
        acc_line_base_phys_addr := LineBasePhysicalAddress cf (acc_phys_addr a),
        acc_sector := SectorByAddress cf (acc_addr a),
        acc_index := (case INDEX_SCHEME cf of
            CACHE_VIRTUALLY_INDEXED \<Rightarrow> IndexByAddress cf (acc_addr a)
          | CACHE_PHYSICALLY_INDEXED \<Rightarrow> IndexByPhysicalAddress cf (acc_phys_addr a))\<rparr>)"

text \<open>Access paths to the parts of a cache, and updates through the pointers.\<close>

definition get_set :: "nat \<Rightarrow> ('a::len, 'p::len, 'at, 'r) cache \<Rightarrow> ('a, 'p) cache_set" where
  "get_set i c = cache_sets c ! i"

definition put_set ::
  "nat \<Rightarrow> ('a::len, 'p::len) cache_set \<Rightarrow> ('a, 'p, 'at, 'r) cache \<Rightarrow> ('a, 'p, 'at, 'r) cache" where
  "put_set i s c = c\<lparr>cache_sets := (cache_sets c)[i := s]\<rparr>"

definition get_line :: "nat \<Rightarrow> nat \<Rightarrow> ('a::len, 'p::len, 'at, 'r) cache \<Rightarrow> ('a, 'p) cache_line" where
  "get_line i w c = set_lines (get_set i c) ! w"

definition put_line ::
  "nat \<Rightarrow> nat \<Rightarrow> ('a::len, 'p::len) cache_line \<Rightarrow> ('a, 'p, 'at, 'r) cache \<Rightarrow> ('a, 'p, 'at, 'r) cache" where
  "put_line i w l c =
     put_set i ((get_set i c)\<lparr>set_lines := (set_lines (get_set i c))[w := l]\<rparr>) c"

definition get_block ::
  "nat \<Rightarrow> nat \<Rightarrow> nat \<Rightarrow> ('a::len, 'p::len, 'at, 'r) cache \<Rightarrow> ('a, 'p) cache_block" where
  "get_block i w s c = ln_blocks (get_line i w c) ! s"

definition put_block ::
  "nat \<Rightarrow> nat \<Rightarrow> nat \<Rightarrow> ('a::len, 'p::len) cache_block \<Rightarrow> ('a, 'p, 'at, 'r) cache \<Rightarrow> ('a, 'p, 'at, 'r) cache" where
  "put_block i w s b c =
     put_line i w ((get_line i w c)\<lparr>ln_blocks := (ln_blocks (get_line i w c))[s := b]\<rparr>) c"

section \<open>Lookup\<close>

definition lookup_search ::
  "('a::len, 'p::len, 'at, 'r) cache_config \<Rightarrow> ('a, 'p, 'at) cache_access \<Rightarrow> ('a, 'p) cache_set \<Rightarrow>
   nat option \<times> ('a, 'p) cache_set" where
  "lookup_search cf a s =
     (case TAG_SCHEME cf of
        CACHE_VIRTUALLY_TAGGED \<Rightarrow> AssociativeSearchByLineBaseAddress (ucast (acc_line_base_addr a)) s
      | CACHE_PHYSICALLY_TAGGED \<Rightarrow>
          AssociativeSearchByLineBasePhysicalAddress (acc_line_base_phys_addr a) s)"

text \<open>
  \<open>GetBlockBySector\<close> and \<open>GetLineByWay\<close> reduce their argument modulo the number of sectors
  and ways. \<open>OnAccess\<close>, which no cache of the repository overrides, does nothing.
\<close>

definition Lookup ::
  "('a::len, 'p::len, 'at) cache_access \<Rightarrow> ('a, 'p, 'at, 'r) cache \<Rightarrow>
   ('a, 'p, 'at) cache_access \<times> ('a, 'p, 'at, 'r) cache" where
  "Lookup a c =
     (let cf = cache_cfg c;
          c1 = c\<lparr>num_accesses := num_accesses c + 1\<rparr>;
          a1 = DecodeAddress cf a;
          (line, s) = lookup_search cf a1 (get_set (acc_index a1) c1);
          c2 = put_set (acc_index a1) s c1
      in case line of
           Some w \<Rightarrow>
             let sec = acc_sector a1 mod BLOCKS_PER_LINE cf;
                 b = get_block (acc_index a1) w sec c2
             in (a1\<lparr>acc_line := Some w, acc_line_to_write_back_evict := None,
                    acc_way := ln_way (get_line (acc_index a1) w c2),
                    acc_block := (if blk_valid b then Some sec else None)\<rparr>, c2)
         | None \<Rightarrow>
             (a1\<lparr>acc_line := None, acc_block := None\<rparr>, c2\<lparr>num_misses := num_misses c2 + 1\<rparr>))"

definition LookupSetByAddress ::
  "'a::len word \<Rightarrow> 'p::len word \<Rightarrow> ('a, 'p, 'at, 'r) cache \<Rightarrow> nat" where
  "LookupSetByAddress addr phys c =
     (case TAG_SCHEME (cache_cfg c) of
        CACHE_VIRTUALLY_TAGGED \<Rightarrow> IndexByAddress (cache_cfg c) addr
      | CACHE_PHYSICALLY_TAGGED \<Rightarrow> IndexByPhysicalAddress (cache_cfg c) phys)"

text \<open>The line found is the pair of its set index and way.\<close>

definition LookupLineByAddress ::
  "'a::len word \<Rightarrow> 'p::len word \<Rightarrow> ('a, 'p, 'at, 'r) cache \<Rightarrow>
   (nat \<times> nat) option \<times> ('a, 'p, 'at, 'r) cache" where
  "LookupLineByAddress addr phys c =
     (let cf = cache_cfg c; i = LookupSetByAddress addr phys c;
          (line, s) = (case TAG_SCHEME cf of
             CACHE_VIRTUALLY_TAGGED \<Rightarrow>
               AssociativeSearchByLineBaseAddress (LineBaseAddress cf addr) (get_set i c)
           | CACHE_PHYSICALLY_TAGGED \<Rightarrow>
               AssociativeSearchByLineBasePhysicalAddress (LineBasePhysicalAddress cf phys) (get_set i c))
      in (map_option (\<lambda>w. (i, w)) line, put_set i s c))"

definition LookupBlockByAddress ::
  "'a::len word \<Rightarrow> 'p::len word \<Rightarrow> ('a, 'p, 'at, 'r) cache \<Rightarrow>
   (nat \<times> nat \<times> nat) option \<times> ('a, 'p, 'at, 'r) cache" where
  "LookupBlockByAddress addr phys c =
     (let sec = SectorByPhysicalAddress (cache_cfg c) phys;
          (line, c1) = LookupLineByAddress addr phys c
      in case line of
           Some (i, w) \<Rightarrow> (if blk_valid (get_block i w sec c1) then Some (i, w, sec) else None, c1)
         | None \<Rightarrow> (None, c1))"

section \<open>Invalidation\<close>

definition InvalidateSet :: "nat \<Rightarrow> ('a::len, 'p::len, 'at, 'r) cache \<Rightarrow> ('a, 'p, 'at, 'r) cache" where
  "InvalidateSet i c = put_set i (set_invalidate (get_set i c)) c"

definition InvalidateLineBySetAndWay ::
  "nat \<Rightarrow> nat \<Rightarrow> ('a::len, 'p::len, 'at, 'r) cache \<Rightarrow> ('a, 'p, 'at, 'r) cache" where
  "InvalidateLineBySetAndWay i w c =
     (let j = i mod NUM_SETS (cache_cfg c)
      in put_set j (set_invalidate_line_by_way w (get_set j c)) c)"

definition cache_invalidate :: "('a::len, 'p::len, 'at, 'r) cache \<Rightarrow> ('a, 'p, 'at, 'r) cache" where
  "cache_invalidate c = c\<lparr>cache_sets := map set_invalidate (cache_sets c)\<rparr>"

definition InvalidateBlockByAddress ::
  "'a::len word \<Rightarrow> 'p::len word \<Rightarrow> ('a, 'p, 'at, 'r) cache \<Rightarrow> ('a, 'p, 'at, 'r) cache" where
  "InvalidateBlockByAddress addr phys c =
     (case LookupBlockByAddress addr phys c of
        (Some (i, w, s), c1) \<Rightarrow> put_block i w s (block_invalidate (get_block i w s c1)) c1
      | (None, c1) \<Rightarrow> c1)"

definition InvalidateLineByAddress ::
  "'a::len word \<Rightarrow> 'p::len word \<Rightarrow> ('a, 'p, 'at, 'r) cache \<Rightarrow> ('a, 'p, 'at, 'r) cache" where
  "InvalidateLineByAddress addr phys c =
     (case LookupLineByAddress addr phys c of
        (Some (i, w), c1) \<Rightarrow> put_line i w (line_invalidate (get_line i w c1)) c1
      | (None, c1) \<Rightarrow> c1)"

end
