(* ===== verification/Cache_Lookup.thy ===== *)
theory Cache_Lookup
  imports Cache_Structure
begin

text \<open>
  The doubly linked most-recently-searched list of a cache set refines a list of ways: the
  search visits the ways in the order of the list, terminates, and a hit moves its way to the
  front. Lines are otherwise untouched, so the search is a function of the line contents alone.
\<close>

section \<open>The list of ways behind the links\<close>

definition mrs_order :: "('a::len, 'p::len) cache_set \<Rightarrow> nat list \<Rightarrow> bool" where
  "mrs_order s ord \<longleftrightarrow>
     ord \<noteq> [] \<and> distinct ord \<and> set ord = {..<length (set_lines s)} \<and>
     mrs_line s = Some (hd ord) \<and> lrs_line s = Some (last ord) \<and>
     (\<forall>k < length ord.
        ln_next (set_lines s ! (ord ! k)) = (if Suc k < length ord then Some (ord ! Suc k) else None) \<and>
        ln_prev (set_lines s ! (ord ! k)) = (if k = 0 then None else Some (ord ! (k - 1))))"

definition ln_content :: "('a::len, 'p::len) cache_line \<Rightarrow>
    bool \<times> 'a word \<times> 'p word \<times> nat \<times> ('a, 'p) cache_block list" where
  "ln_content l = (ln_valid l, ln_base_addr l, ln_base_phys_addr l, ln_way l, ln_blocks l)"

lemma mrs_order_length: "mrs_order s ord \<Longrightarrow> length ord = length (set_lines s)"
  unfolding mrs_order_def by (metis card_lessThan distinct_card)

lemma mrs_order_lt: "mrs_order s ord \<Longrightarrow> k < length ord \<Longrightarrow> ord ! k < length (set_lines s)"
  unfolding mrs_order_def by (metis lessThan_iff nth_mem)

lemma search_line_chain:
  assumes ord: "mrs_order s ord" and k: "k < length ord" and fuel: "length ord - k \<le> n"
  shows "search_line n P (set_lines s) (Some (ord ! k)) =
         find (\<lambda>w. P (set_lines s ! w)) (drop k ord)"
  using k fuel
proof (induction n arbitrary: k)
  case (Suc n)
  have d: "drop k ord = ord ! k # drop (Suc k) ord" using Suc.prems(1) by (simp add: Cons_nth_drop_Suc)
  have nx: "ln_next (set_lines s ! (ord ! k)) = (if Suc k < length ord then Some (ord ! Suc k) else None)"
    using ord Suc.prems(1) by (simp add: mrs_order_def)
  show ?case
  proof (cases "Suc k < length ord")
    case True
    then show ?thesis using Suc.IH [of "Suc k"] Suc.prems nx d by auto
  next
    case False
    then show ?thesis using nx d by (cases n) auto
  qed
qed simp

lemma search_line_find:
  assumes ord: "mrs_order s ord"
  shows "search_line (length (set_lines s)) P (set_lines s) (mrs_line s) =
         find (\<lambda>w. P (set_lines s ! w)) ord"
proof -
  have "0 < length ord" "mrs_line s = Some (ord ! 0)" using ord by (auto simp: mrs_order_def hd_conv_nth)
  with search_line_chain [OF ord, of 0 "length (set_lines s)" P] mrs_order_length [OF ord]
  show ?thesis by simp
qed

section \<open>Moving a line to the front\<close>

lemma set_prev_simps [simp]:
  "length (set_lines (set_prev w p s)) = length (set_lines s)"
  "mrs_line (set_prev w p s) = mrs_line s" "lrs_line (set_prev w p s) = lrs_line s"
  "set_index (set_prev w p s) = set_index s"
  "x < length (set_lines s) \<Longrightarrow> ln_next (set_lines (set_prev w p s) ! x) = ln_next (set_lines s ! x)"
  "x < length (set_lines s) \<Longrightarrow>
   ln_prev (set_lines (set_prev w p s) ! x) = (if x = w then p else ln_prev (set_lines s ! x))"
  "x < length (set_lines s) \<Longrightarrow> ln_content (set_lines (set_prev w p s) ! x) = ln_content (set_lines s ! x)"
  by (auto simp: set_prev_def ln_content_def nth_update_if)

lemma set_next_simps [simp]:
  "length (set_lines (set_next w p s)) = length (set_lines s)"
  "mrs_line (set_next w p s) = mrs_line s" "lrs_line (set_next w p s) = lrs_line s"
  "set_index (set_next w p s) = set_index s"
  "x < length (set_lines s) \<Longrightarrow> ln_prev (set_lines (set_next w p s) ! x) = ln_prev (set_lines s ! x)"
  "x < length (set_lines s) \<Longrightarrow>
   ln_next (set_lines (set_next w p s) ! x) = (if x = w then p else ln_next (set_lines s ! x))"
  "x < length (set_lines s) \<Longrightarrow> ln_content (set_lines (set_next w p s) ! x) = ln_content (set_lines s ! x)"
  by (auto simp: set_next_def ln_content_def nth_update_if)

lemma mrs_promote_content:
  "x < length (set_lines s) \<Longrightarrow>
   ln_content (set_lines (mrs_promote w s) ! x) = ln_content (set_lines s ! x)"
  "length (set_lines (mrs_promote w s)) = length (set_lines s)"
  by (auto simp: mrs_promote_def Let_def split: option.splits)

lemma mrs_promote_order:
  assumes ord: "mrs_order s ord" and j: "j < length ord"
  shows "mrs_order (mrs_promote (ord ! j) s) (ord ! j # take j ord @ drop (Suc j) ord)"
proof (cases "j = 0")
  case True
  have "ord \<noteq> []" using ord by (simp add: mrs_order_def)
  then have "ord ! 0 # drop (Suc 0) ord = ord" by (simp add: Cons_nth_drop_Suc)
  moreover have "ln_prev (set_lines s ! (ord ! 0)) = None"
    using ord j True by (auto simp: mrs_order_def)
  ultimately show ?thesis using ord True by (simp add: mrs_promote_def)
next
  case False
  define w where "w = ord ! j"
  define p where "p = ord ! (j - 1)"
  define m where "m = ord ! 0"
  define nx where "nx = (if Suc j < length ord then Some (ord ! Suc j) else None)"
  have d: "distinct ord" and ne: "ord \<noteq> []" using ord by (auto simp: mrs_order_def)
  have lt: "ord ! k < length (set_lines s)" if "k < length ord" for k
    using mrs_order_lt [OF ord that] .
  have inj: "ord ! k = ord ! l \<longleftrightarrow> k = l" if "k < length ord" "l < length ord" for k l
    using d that by (rule nth_eq_iff_index_eq)
  have links: "ln_next (set_lines s ! (ord ! k)) = (if Suc k < length ord then Some (ord ! Suc k) else None)"
    "ln_prev (set_lines s ! (ord ! k)) = (if k = 0 then None else Some (ord ! (k - 1)))"
    if "k < length ord" for k
    using ord that by (simp_all add: mrs_order_def)
  have mw: "mrs_line s = Some m" using ord ne by (simp add: mrs_order_def m_def hd_conv_nth)
  have wl: "w < length (set_lines s)" using lt [OF j] by (simp add: w_def)
  have wp: "ln_prev (set_lines s ! w) = Some p" "ln_next (set_lines s ! w) = nx"
    using links [OF j] False by (simp_all add: w_def p_def nx_def)
  let ?s = "mrs_promote w s"
  have len: "length (set_lines ?s) = length (set_lines s)" using mrs_promote_content(2) wl by blast
  have nxw: "nx \<noteq> Some w" "nx \<noteq> Some m"
    using inj [of "Suc j" j] inj [of "Suc j" 0] j ne by (simp_all add: nx_def w_def m_def)
  have pw: "p \<noteq> w" "m \<noteq> w" using inj [of "j - 1" j] inj [of 0 j] j ne False by (auto simp: p_def w_def m_def)
  have next': "ln_next (set_lines ?s ! x) = (if x = w then Some m else if x = p then nx else ln_next (set_lines s ! x))"
    if "x < length (set_lines s)" for x
    using that wp mw wl pw by (cases nx) (auto simp: mrs_promote_def Let_def)
  have prev': "ln_prev (set_lines ?s ! x) =
      (if x = m then Some w else if x = w then None else if nx = Some x then Some p else ln_prev (set_lines s ! x))"
    if "x < length (set_lines s)" for x
    using that wp mw wl pw nxw by (cases nx) (auto simp: mrs_promote_def Let_def)
  have mrs': "mrs_line ?s = Some w"
    using wp by (simp add: mrs_promote_def Let_def)
  have lrs': "lrs_line ?s = (if nx = None then Some p else lrs_line s)"
    using wp mw by (cases nx) (auto simp: mrs_promote_def Let_def)
  define ord' where "ord' = w # take j ord @ drop (Suc j) ord"
  have len': "length ord' = length ord" using j by (simp add: ord'_def)
  have nth': "ord' ! k = (if k = 0 then w else if k \<le> j then ord ! (k - 1) else ord ! k)"
    if "k < length ord" for k
    using that j by (auto simp: ord'_def nth_Cons' nth_append)
  have perm: "ord = take j ord @ w # drop (Suc j) ord" using j by (simp add: w_def id_take_nth_drop)
  have set': "set ord' = set ord" by (subst perm) (auto simp: ord'_def)
  have dist': "distinct ord'"
  proof -
    have "distinct (take j ord @ w # drop (Suc j) ord)" using d perm by simp
    then show ?thesis by (auto simp: ord'_def)
  qed
  have last': "Some (last ord') = (if nx = None then Some p else lrs_line s)"
  proof (cases "Suc j < length ord")
    case True
    have "last ord' = last ord" using True by (simp add: ord'_def last_append)
    then show ?thesis using True ord by (simp add: nx_def mrs_order_def)
  next
    case False
    then have jl: "length ord = Suc j" using j by simp
    have "ord' \<noteq> []" by (simp add: ord'_def)
    then have "last ord' = ord' ! j" using len' jl by (simp add: last_conv_nth)
    then show ?thesis using nth' [of j] j jl \<open>j \<noteq> 0\<close> by (simp add: nx_def p_def)
  qed
  have step: "ln_next (set_lines ?s ! (ord' ! k)) = (if Suc k < length ord' then Some (ord' ! Suc k) else None) \<and>
     ln_prev (set_lines ?s ! (ord' ! k)) = (if k = 0 then None else Some (ord' ! (k - 1)))"
    if k: "k < length ord'" for k
  proof -
    have k': "k < length ord" using k len' by simp
    consider "k = 0" | "0 < k" "k \<le> j" | "j < k" by linarith
    then show ?thesis
    proof cases
      case 1
      then show ?thesis
        using wl next' prev' pw nth' [of 0] nth' [of 1] j False len' nxw ne by (auto simp: m_def)
    next
      case 2
      let ?x = "ord ! (k - 1)"
      have kk: "k - 1 < length ord" using k' by simp
      have x: "ord' ! k = ?x" using nth' [OF k'] 2 by simp
      have xw: "?x \<noteq> w" using inj [OF kk j] 2 by (simp add: w_def)
      have xm: "?x = m \<longleftrightarrow> k = 1" using inj [OF kk, of 0] k' 2 ne by (auto simp: m_def)
      have xp: "?x = p \<longleftrightarrow> k = j" using inj [OF kk, of "j - 1"] j 2 by (auto simp: p_def)
      have xn: "nx \<noteq> Some ?x" using inj [OF kk, of "Suc j"] 2 by (auto simp: nx_def)
      have "ln_next (set_lines ?s ! ?x) = (if Suc k < length ord' then Some (ord' ! Suc k) else None)"
        using next' [OF lt [OF kk]] xw xp links(1) [OF kk] 2 nth' [of "Suc k"] len' j by (auto simp: nx_def)
      moreover have "ln_prev (set_lines ?s ! ?x) = Some (ord' ! (k - 1))"
        using prev' [OF lt [OF kk]] xw xm xn links(2) [OF kk] 2 nth' [of "k - 1"] kk
        by (auto simp: numeral_2_eq_2)
      ultimately show ?thesis using x 2 by simp
    next
      case 3
      let ?x = "ord ! k"
      have x: "ord' ! k = ?x" using nth' [OF k'] 3 by simp
      have xs: "?x \<noteq> w" "?x \<noteq> m" "?x \<noteq> p"
        using inj [OF k' j] inj [OF k', of 0] inj [OF k', of "j - 1"] 3 j ne by (auto simp: w_def m_def p_def)
      have xn: "nx = Some ?x \<longleftrightarrow> k = Suc j"
        using inj [OF k', of "Suc j"] 3 k' by (auto simp: nx_def)
      have "ln_next (set_lines ?s ! ?x) = (if Suc k < length ord' then Some (ord' ! Suc k) else None)"
        using next' [OF lt [OF k']] xs links(1) [OF k'] 3 nth' [of "Suc k"] len' by auto
      moreover have "ln_prev (set_lines ?s ! ?x) = Some (ord' ! (k - 1))"
      proof (cases "k = Suc j")
        case True
        then show ?thesis using prev' [OF lt [OF k']] xs xn nth' [of j] j False by (simp add: p_def)
      next
        case F: False
        then show ?thesis
          using prev' [OF lt [OF k']] xs xn links(2) [OF k'] nth' [of "k - 1"] 3 k' by auto
      qed
      ultimately show ?thesis using x 3 by simp
    qed
  qed
  have "mrs_order ?s ord'"
    unfolding mrs_order_def len mrs' lrs' last' [symmetric] set'
    using ord dist' step by (auto simp: mrs_order_def ord'_def)
  then show ?thesis by (simp add: ord'_def w_def)
qed


lemma mrs_promote_order':
  assumes "mrs_order s ord" and "w \<in> set ord"
  shows "mrs_order (mrs_promote w s) (w # remove1 w ord)"
proof -
  from assms(2) obtain j where j: "j < length ord" "ord ! j = w" by (auto simp: in_set_conv_nth)
  have d: "distinct ord" using assms(1) by (simp add: mrs_order_def)
  have "ord = take j ord @ w # drop (Suc j) ord" using j id_take_nth_drop by metis
  moreover from this d have "w \<notin> set (take j ord)" by (metis distinct_append distinct.simps(2) disjoint_iff list.set_intros(1))
  ultimately have "remove1 w ord = take j ord @ drop (Suc j) ord"
    by (metis remove1.simps(2) remove1_append)
  with mrs_promote_order [OF assms(1) j(1)] j(2) show ?thesis by simp
qed

definition same_set :: "('a::len, 'p::len) cache_set \<Rightarrow> ('a, 'p) cache_set \<Rightarrow> bool" where
  "same_set s s' \<longleftrightarrow>
     length (set_lines s') = length (set_lines s) \<and>
     (\<forall>x < length (set_lines s). ln_content (set_lines s' ! x) = ln_content (set_lines s ! x))"

lemma associative_search_spec:
  fixes P :: "('a::len, 'p::len) cache_line \<Rightarrow> bool"
  assumes ord: "mrs_order s ord"
  defines "r \<equiv> find (\<lambda>w. P (set_lines s ! w)) ord"
  shows "fst (associative_search P s) = r"
    and "same_set s (snd (associative_search P s))"
    and "mrs_order (snd (associative_search P s)) (case r of None \<Rightarrow> ord | Some w \<Rightarrow> w # remove1 w ord)"
proof -
  have f: "search_line (length (set_lines s)) P (set_lines s) (mrs_line s) = r"
    unfolding r_def by (rule search_line_find [OF ord])
  show "fst (associative_search P s) = r"
    by (simp add: associative_search_def f split: option.split)
  show "same_set s (snd (associative_search P s))"
    by (simp add: associative_search_def f same_set_def mrs_promote_content split: option.split)
  show "mrs_order (snd (associative_search P s)) (case r of None \<Rightarrow> ord | Some w \<Rightarrow> w # remove1 w ord)"
  proof (cases r)
    case None
    then show ?thesis using ord by (simp add: associative_search_def f)
  next
    case (Some w)
    then have "w \<in> set ord" by (auto simp: r_def find_Some_iff)
    then show ?thesis using Some mrs_promote_order' [OF ord] by (simp add: associative_search_def f)
  qed
qed

end
