(* ===== verification/Cache_Hierarchy.thy ===== *)
theory Cache_Hierarchy
  imports Cache_Structure Sparse_Memory
begin

text \<open>
  The cache hierarchy operations of \<open>MemorySubSystem\<close> in \<open>util/cache/cache.hh\<close>: bus accesses
  with their statistics and shadow memory, block fill, write back, eviction, load, store, debug
  load and store, and block allocation. A hierarchy is the list of its caches from the first
  level on; the empty list is the \<open>NullCache\<close> below the last level, that is the memory behind
  the bus. \<open>NextLevel\<close> is the tail of the list, so the operations recurse structurally. An
  outer \<open>None\<close> is a failed \<open>assert\<close> or a null pointer dereference.
\<close>

section \<open>Bus and overridable methods\<close>

record (overloaded) ('m, 'p, 'at) mss_ops =
  DataBusRead :: "'p word \<Rightarrow> nat \<Rightarrow> 'at \<Rightarrow> bool \<Rightarrow> 'm \<Rightarrow> u8 list option \<times> 'm"
  DataBusWrite :: "'p word \<Rightarrow> u8 list \<Rightarrow> 'at \<Rightarrow> 'm \<Rightarrow> bool \<times> 'm"
  InstructionBusRead :: "'p word \<Rightarrow> nat \<Rightarrow> 'at \<Rightarrow> 'm \<Rightarrow> u8 list option \<times> 'm"
  DebugDataBusRead :: "'p word \<Rightarrow> nat \<Rightarrow> 'at \<Rightarrow> 'm \<Rightarrow> u8 list option \<times> 'm"
  DebugDataBusWrite :: "'p word \<Rightarrow> u8 list \<Rightarrow> 'at \<Rightarrow> 'm \<Rightarrow> bool \<times> 'm"
  DebugInstructionBusRead :: "'p word \<Rightarrow> nat \<Rightarrow> 'at \<Rightarrow> 'm \<Rightarrow> u8 list option \<times> 'm"
  IsStorageCacheable :: "'at \<Rightarrow> bool"
  IsDataStoreAccessWriteThrough :: "'at \<Rightarrow> bool"
  default_attr :: 'at

record (overloaded) ('m, 'p) mss =
  mss_bus :: 'm
  num_data_load_accesses :: u64
  num_data_store_accesses :: u64
  num_instruction_fetch_accesses :: u64
  num_incoming_load_accesses :: u64
  num_incoming_store_accesses :: u64
  num_data_bus_read_accesses :: u64
  num_data_bus_write_accesses :: u64
  num_instruction_bus_read_accesses :: u64
  num_data_load_xfered_bytes :: u64
  num_data_store_xfered_bytes :: u64
  num_instruction_fetch_xfered_bytes :: u64
  num_incoming_load_xfered_bytes :: u64
  num_incoming_store_xfered_bytes :: u64
  num_data_bus_read_xfered_bytes :: u64
  num_data_bus_write_xfered_bytes :: u64
  num_instruction_bus_read_xfered_bytes :: u64
  enable_shadow_memory :: bool
  shadow_fresh :: "u8 list"
  shadow_memory :: "'p sparse"
  trap_calls :: nat

definition shadow_cf :: "('m, 'p::len) mss \<Rightarrow> sparse_config" where
  "shadow_cf ms = \<lparr>LoTagSize = 12, HiTagSize = 12, fresh = shadow_fresh ms\<rparr>"

definition mss_init :: "'m \<Rightarrow> u8 list \<Rightarrow> ('m, 'p::len) mss" where
  "mss_init m fr =
     \<lparr>mss_bus = m, num_data_load_accesses = 0, num_data_store_accesses = 0,
      num_instruction_fetch_accesses = 0, num_incoming_load_accesses = 0,
      num_incoming_store_accesses = 0, num_data_bus_read_accesses = 0,
      num_data_bus_write_accesses = 0, num_instruction_bus_read_accesses = 0,
      num_data_load_xfered_bytes = 0, num_data_store_xfered_bytes = 0,
      num_instruction_fetch_xfered_bytes = 0, num_incoming_load_xfered_bytes = 0,
      num_incoming_store_xfered_bytes = 0, num_data_bus_read_xfered_bytes = 0,
      num_data_bus_write_xfered_bytes = 0, num_instruction_bus_read_xfered_bytes = 0,
      enable_shadow_memory = False, shadow_fresh = fr, shadow_memory = replicate (2 ^ 12) [],
      trap_calls = 0\<rparr>"

definition shadow_write :: "'p::len word \<Rightarrow> u8 list \<Rightarrow> ('m, 'p) mss \<Rightarrow> ('m, 'p) mss" where
  "shadow_write addr bs ms =
     (if enable_shadow_memory ms
      then ms\<lparr>shadow_memory := sparse_write (shadow_cf ms) addr bs (shadow_memory ms)\<rparr> else ms)"

definition mss_DataBusRead ::
  "('m, 'p::len, 'at) mss_ops \<Rightarrow> 'p word \<Rightarrow> nat \<Rightarrow> 'at \<Rightarrow> bool \<Rightarrow> ('m, 'p) mss \<Rightarrow>
   u8 list option \<times> ('m, 'p) mss" where
  "mss_DataBusRead ops addr n attr rwitm ms =
     (case DataBusRead ops addr n attr rwitm (mss_bus ms) of
        (None, m) \<Rightarrow> (None, ms\<lparr>mss_bus := m\<rparr>)
      | (Some bs, m) \<Rightarrow>
          (Some bs, shadow_write addr bs
             (ms\<lparr>mss_bus := m, num_data_bus_read_accesses := num_data_bus_read_accesses ms + 1,
                 num_data_bus_read_xfered_bytes := num_data_bus_read_xfered_bytes ms + of_nat n\<rparr>)))"

definition mss_DataBusWrite ::
  "('m, 'p::len, 'at) mss_ops \<Rightarrow> 'p word \<Rightarrow> u8 list \<Rightarrow> 'at \<Rightarrow> ('m, 'p) mss \<Rightarrow>
   bool \<times> ('m, 'p) mss" where
  "mss_DataBusWrite ops addr bs attr ms =
     (case DataBusWrite ops addr bs attr (mss_bus ms) of
        (False, m) \<Rightarrow> (False, ms\<lparr>mss_bus := m\<rparr>)
      | (True, m) \<Rightarrow>
          (True, ms\<lparr>mss_bus := m, num_data_bus_write_accesses := num_data_bus_write_accesses ms + 1,
                    num_data_bus_write_xfered_bytes :=
                      num_data_bus_write_xfered_bytes ms + of_nat (length bs)\<rparr>))"

definition mss_InstructionBusRead ::
  "('m, 'p::len, 'at) mss_ops \<Rightarrow> 'p word \<Rightarrow> nat \<Rightarrow> 'at \<Rightarrow> ('m, 'p) mss \<Rightarrow>
   u8 list option \<times> ('m, 'p) mss" where
  "mss_InstructionBusRead ops addr n attr ms =
     (case InstructionBusRead ops addr n attr (mss_bus ms) of
        (None, m) \<Rightarrow> (None, ms\<lparr>mss_bus := m\<rparr>)
      | (Some bs, m) \<Rightarrow>
          (Some bs, shadow_write addr bs
             (ms\<lparr>mss_bus := m,
                 num_instruction_bus_read_accesses := num_instruction_bus_read_accesses ms + 1,
                 num_instruction_bus_read_xfered_bytes :=
                   num_instruction_bus_read_xfered_bytes ms + of_nat n\<rparr>)))"

definition mss_DebugDataBusRead ::
  "('m, 'p::len, 'at) mss_ops \<Rightarrow> 'p word \<Rightarrow> nat \<Rightarrow> 'at \<Rightarrow> ('m, 'p) mss \<Rightarrow>
   u8 list option \<times> ('m, 'p) mss" where
  "mss_DebugDataBusRead ops addr n attr ms =
     (case DebugDataBusRead ops addr n attr (mss_bus ms) of
        (None, m) \<Rightarrow> (None, ms\<lparr>mss_bus := m\<rparr>)
      | (Some bs, m) \<Rightarrow> (Some bs, shadow_write addr bs (ms\<lparr>mss_bus := m\<rparr>)))"

definition mss_DebugDataBusWrite ::
  "('m, 'p::len, 'at) mss_ops \<Rightarrow> 'p word \<Rightarrow> u8 list \<Rightarrow> 'at \<Rightarrow> ('m, 'p) mss \<Rightarrow>
   bool \<times> ('m, 'p) mss" where
  "mss_DebugDataBusWrite ops addr bs attr ms =
     (case DebugDataBusWrite ops addr bs attr (mss_bus ms) of (ok, m) \<Rightarrow> (ok, ms\<lparr>mss_bus := m\<rparr>))"

definition mss_DebugInstructionBusRead ::
  "('m, 'p::len, 'at) mss_ops \<Rightarrow> 'p word \<Rightarrow> nat \<Rightarrow> 'at \<Rightarrow> ('m, 'p) mss \<Rightarrow>
   u8 list option \<times> ('m, 'p) mss" where
  "mss_DebugInstructionBusRead ops addr n attr ms =
     (case DebugInstructionBusRead ops addr n attr (mss_bus ms) of
        (None, m) \<Rightarrow> (None, ms\<lparr>mss_bus := m\<rparr>)
      | (Some bs, m) \<Rightarrow> (Some bs, shadow_write addr bs (ms\<lparr>mss_bus := m\<rparr>)))"

section \<open>The replacement hooks\<close>

text \<open>The trampolines \<open>__MSS_ChooseLineToEvict__\<close> and \<open>__MSS_UpdateReplacementPolicyOn...\<close>.\<close>

definition choose_line ::
  "('a::len, 'p::len, 'at) cache_access \<Rightarrow> ('a, 'p, 'at, 'r) cache \<Rightarrow>
   (('a, 'p, 'at) cache_access) option \<times> ('a, 'p, 'at, 'r) cache" where
  "choose_line a c =
     (case ChooseLineToEvict (cache_cfg c) a (cache_policy c) of
        (Some way, r) \<Rightarrow>
          (Some (a\<lparr>acc_way := way,
                   acc_line_to_write_back_evict := Some (way mod ASSOCIATIVITY (cache_cfg c))\<rparr>),
           c\<lparr>cache_policy := r\<rparr>)
      | (None, r) \<Rightarrow> (None, c\<lparr>cache_policy := r\<rparr>))"

definition update_on_access ::
  "('a::len, 'p::len, 'at) cache_access \<Rightarrow> ('a, 'p, 'at, 'r) cache \<Rightarrow> ('a, 'p, 'at, 'r) cache" where
  "update_on_access a c =
     c\<lparr>cache_policy := UpdateReplacementPolicyOnAccess (cache_cfg c) a (cache_policy c)\<rparr>"

definition update_on_fill ::
  "('a::len, 'p::len, 'at) cache_access \<Rightarrow> ('a, 'p, 'at, 'r) cache \<Rightarrow> ('a, 'p, 'at, 'r) cache" where
  "update_on_fill a c =
     c\<lparr>cache_policy := UpdateReplacementPolicyOnFill (cache_cfg c) a (cache_policy c)\<rparr>"

section \<open>Write back and eviction\<close>

text \<open>
  The end of \<open>WriteBackDirtyBlock\<close>: the source block is invalidated or cleaned. In the
  recursive cases it runs at every level of the recursion.
\<close>

definition finish_write_back ::
  "bool \<Rightarrow> nat \<Rightarrow> nat \<Rightarrow> nat \<Rightarrow> ('a::len, 'p::len, 'at, 'r) cache \<Rightarrow> ('a, 'p, 'at, 'r) cache" where
  "finish_write_back invl i w s c =
     (let b = get_block i w s c
      in put_block i w s (if invl then block_invalidate b else b\<lparr>blk_dirty := False\<rparr>) c)"

text \<open>
  \<open>WriteBackDirtyBlock\<close> of the block in set \<open>i\<close>, way \<open>w\<close>, sector \<open>s\<close> of the cache \<open>f\<close> to the
  levels below. The storage attribute of the access to the next level is never initialised in
  the source and never read.
\<close>

fun WriteBackDirtyBlock ::
  "('m, 'p::len, 'at) mss_ops \<Rightarrow> bool \<Rightarrow> nat \<Rightarrow> nat \<Rightarrow> nat \<Rightarrow> ('a::len, 'p, 'at, 'r) cache \<Rightarrow>
   ('a, 'p, 'at, 'r) cache list \<Rightarrow> ('m, 'p) mss \<Rightarrow>
   (bool \<times> ('a, 'p, 'at, 'r) cache \<times> ('a, 'p, 'at, 'r) cache list \<times> ('m, 'p) mss) option" where
  "WriteBackDirtyBlock ops invl i w s f [] ms =
     (let b = get_block i w s f in
      case mss_DataBusWrite ops (blk_base_phys_addr b) (blk_storage b) (default_attr ops) ms of
        (False, ms') \<Rightarrow> Some (False, f, [], ms')
      | (True, ms') \<Rightarrow> Some (True, finish_write_back invl i w s f, [], ms'))"
| "WriteBackDirtyBlock ops invl i w s f (t # ts) ms =
     (if \<not> cache_enabled t
      then case WriteBackDirtyBlock ops invl i w s f ts ms of
             None \<Rightarrow> None
           | Some (False, f', ts', ms') \<Rightarrow> Some (False, f', t # ts', ms')
           | Some (True, f', ts', ms') \<Rightarrow> Some (True, finish_write_back invl i w s f', t # ts', ms')
      else let b = get_block i w s f;
               (ta, t1) = Lookup (access_init (blk_base_addr b) (blk_base_phys_addr b)
                                    (default_attr ops) False) t
           in case (acc_line ta, acc_block ta) of
                (Some tw, Some tsec) \<Rightarrow>
                  if BLOCK_SIZE (cache_cfg f) \<le> acc_size_to_block_boundary ta
                  then let tb = get_block (acc_index ta) tw tsec t1;
                           t2 = put_block (acc_index ta) tw tsec
                                  (tb\<lparr>blk_storage := write_at (blk_storage tb) (acc_offset ta) (blk_storage b),
                                      blk_dirty := True\<rparr>) t1
                       in Some (True, finish_write_back invl i w s f, t2 # ts, ms)
                  else None
              | _ \<Rightarrow>
                  (case WriteBackDirtyBlock ops invl i w s f ts ms of
                     None \<Rightarrow> None
                   | Some (False, f', ts', ms') \<Rightarrow> Some (False, f', t1 # ts', ms')
                   | Some (True, f', ts', ms') \<Rightarrow>
                       Some (True, finish_write_back invl i w s f', t1 # ts', ms')))"

fun write_back_sectors ::
  "('m, 'p::len, 'at) mss_ops \<Rightarrow> bool \<Rightarrow> nat \<Rightarrow> nat \<Rightarrow> nat list \<Rightarrow> ('a::len, 'p, 'at, 'r) cache \<Rightarrow>
   ('a, 'p, 'at, 'r) cache list \<Rightarrow> ('m, 'p) mss \<Rightarrow>
   (bool \<times> ('a, 'p, 'at, 'r) cache \<times> ('a, 'p, 'at, 'r) cache list \<times> ('m, 'p) mss) option" where
  "write_back_sectors ops invl i w [] f cs ms = Some (True, f, cs, ms)"
| "write_back_sectors ops invl i w (s # ss) f cs ms =
     (let b = get_block i w s f in
      if blk_valid b \<and> blk_dirty b
      then case WriteBackDirtyBlock ops invl i w s f cs ms of
             None \<Rightarrow> None
           | Some (False, f', cs', ms') \<Rightarrow> Some (False, f', cs', ms')
           | Some (True, f', cs', ms') \<Rightarrow> write_back_sectors ops invl i w ss f' cs' ms'
      else write_back_sectors ops invl i w ss f cs ms)"

definition invalidate_line_at ::
  "nat \<Rightarrow> nat \<Rightarrow> ('a::len, 'p::len, 'at, 'r) cache \<Rightarrow> ('a, 'p, 'at, 'r) cache" where
  "invalidate_line_at i w c = put_line i w (line_invalidate (get_line i w c)) c"

definition WriteBackLine ::
  "('m, 'p::len, 'at) mss_ops \<Rightarrow> bool \<Rightarrow> nat \<Rightarrow> nat \<Rightarrow> ('a::len, 'p, 'at, 'r) cache \<Rightarrow>
   ('a, 'p, 'at, 'r) cache list \<Rightarrow> ('m, 'p) mss \<Rightarrow>
   (bool \<times> ('a, 'p, 'at, 'r) cache \<times> ('a, 'p, 'at, 'r) cache list \<times> ('m, 'p) mss) option" where
  "WriteBackLine ops invl i w f cs ms =
     (if ln_valid (get_line i w f)
      then case write_back_sectors ops invl i w [0..<BLOCKS_PER_LINE (cache_cfg f)] f cs ms of
             None \<Rightarrow> None
           | Some (False, f', cs', ms') \<Rightarrow> Some (False, f', cs', ms')
           | Some (True, f', cs', ms') \<Rightarrow>
               Some (True,
                     (if invl \<and> ln_valid (get_line i w f') then invalidate_line_at i w f' else f'),
                     cs', ms')
      else Some (True, f, cs, ms))"

text \<open>
  \<open>EvictLine\<close> of the line the replacement policy chose. The status of \<open>WriteBackLine\<close> is
  discarded, as in the source; the result is always true.
\<close>

definition EvictLine ::
  "('m, 'p::len, 'at) mss_ops \<Rightarrow> ('a::len, 'p, 'at) cache_access \<Rightarrow> ('a, 'p, 'at, 'r) cache \<Rightarrow>
   ('a, 'p, 'at, 'r) cache list \<Rightarrow> ('m, 'p) mss \<Rightarrow>
   (bool \<times> ('a, 'p, 'at) cache_access \<times> ('a, 'p, 'at, 'r) cache \<times> ('a, 'p, 'at, 'r) cache list \<times>
    ('m, 'p) mss) option" where
  "EvictLine ops a f cs ms =
     (case acc_line_to_write_back_evict a of
        None \<Rightarrow> None
      | Some w \<Rightarrow>
          let i = acc_index a;
              a' = a\<lparr>acc_line := Some w, acc_line_to_write_back_evict := None\<rparr>
          in if IsDataCache (cache_cfg f)
             then case WriteBackLine ops True i w f cs ms of
                    None \<Rightarrow> None
                  | Some (_, f', cs', ms') \<Rightarrow> Some (True, a', f', cs', ms')
             else if ln_valid (get_line i w f)
                  then Some (True, a', invalidate_line_at i w f, cs, ms)
                  else Some (True, a', f, cs, ms))"

text \<open>The common miss sequence: choose a victim and evict it, or do nothing if all are locked.\<close>

definition choose_and_evict ::
  "('m, 'p::len, 'at) mss_ops \<Rightarrow> ('a::len, 'p, 'at) cache_access \<Rightarrow> ('a, 'p, 'at, 'r) cache \<Rightarrow>
   ('a, 'p, 'at, 'r) cache list \<Rightarrow> ('m, 'p) mss \<Rightarrow>
   (bool \<times> ('a, 'p, 'at) cache_access \<times> ('a, 'p, 'at, 'r) cache \<times> ('a, 'p, 'at, 'r) cache list \<times>
    ('m, 'p) mss) option" where
  "choose_and_evict ops a f cs ms =
     (case choose_line a f of
        (Some a', f') \<Rightarrow> EvictLine ops a' f' cs ms
      | (None, f') \<Rightarrow> Some (True, a, f', cs, ms))"


definition prepare_line ::
  "('m, 'p::len, 'at) mss_ops \<Rightarrow> ('a::len, 'p, 'at) cache_access \<Rightarrow> ('a, 'p, 'at, 'r) cache \<Rightarrow>
   ('a, 'p, 'at, 'r) cache list \<Rightarrow> ('m, 'p) mss \<Rightarrow>
   (bool \<times> ('a, 'p, 'at) cache_access \<times> ('a, 'p, 'at, 'r) cache \<times> ('a, 'p, 'at, 'r) cache list \<times>
    ('m, 'p) mss) option" where
  "prepare_line ops a f cs ms =
     (if acc_line a = None then choose_and_evict ops a f cs ms else Some (True, a, f, cs, ms))"

text \<open>The number of levels never changes, which the recursions below rest on.\<close>

lemma WriteBackDirtyBlock_length:
  "WriteBackDirtyBlock ops invl i w s f cs ms = Some (ok, f', cs', ms') \<Longrightarrow> length cs' = length cs"
proof (induction cs arbitrary: ok f' cs' ms')
  case Nil
  then show ?case by (auto simp: Let_def split: prod.splits bool.splits)
next
  case (Cons t ts)
  from Cons.prems show ?case
    by (auto simp: Let_def split: prod.splits bool.splits if_splits option.splits dest: Cons.IH)
qed

lemma write_back_sectors_length:
  "write_back_sectors ops invl i w ss f cs ms = Some (ok, f', cs', ms') \<Longrightarrow> length cs' = length cs"
proof (induction ss arbitrary: f cs ms)
  case (Cons s ss)
  then show ?case
    by (auto simp: Let_def split: if_splits option.splits prod.splits bool.splits
        dest: WriteBackDirtyBlock_length)
qed simp

lemma WriteBackLine_length:
  "WriteBackLine ops invl i w f cs ms = Some (ok, f', cs', ms') \<Longrightarrow> length cs' = length cs"
  by (auto simp: WriteBackLine_def split: if_splits option.splits prod.splits bool.splits
      dest: write_back_sectors_length)

lemma EvictLine_length:
  "EvictLine ops a f cs ms = Some (ok, a', f', cs', ms') \<Longrightarrow> length cs' = length cs"
  by (auto simp: EvictLine_def Let_def split: if_splits option.splits dest: WriteBackLine_length)

lemma choose_and_evict_length:
  "choose_and_evict ops a f cs ms = Some (ok, a', f', cs', ms') \<Longrightarrow> length cs' = length cs"
  by (auto simp: choose_and_evict_def split: option.splits prod.splits dest: EvictLine_length)

lemma prepare_line_length:
  "prepare_line ops a f cs ms = Some (ok, a', f', cs', ms') \<Longrightarrow> length cs' = length cs"
  by (auto simp: prepare_line_def split: if_splits dest: choose_and_evict_length)

section \<open>Block fill\<close>

text \<open>The assignments at the end of \<open>FillBlock\<close>.\<close>

definition finish_fill ::
  "('a::len, 'p::len, 'at) cache_access \<Rightarrow> nat \<Rightarrow> nat \<Rightarrow> ('a, 'p, 'at, 'r) cache \<Rightarrow> ('a, 'p, 'at, 'r) cache" where
  "finish_fill a w s c =
     (let i = acc_index a; cf = cache_cfg c;
          l = line_set_base_phys_addr cf (acc_line_base_phys_addr a)
                (line_set_base_addr cf (ucast (acc_line_base_addr a))
                   ((get_line i w c)\<lparr>ln_valid := True\<rparr>));
          c1 = put_line i w l c
      in put_block i w s ((get_block i w s c1)\<lparr>blk_valid := True, blk_dirty := False\<rparr>) c1)"

definition store_block ::
  "nat \<Rightarrow> nat \<Rightarrow> nat \<Rightarrow> u8 list \<Rightarrow> ('a::len, 'p::len, 'at, 'r) cache \<Rightarrow> ('a, 'p, 'at, 'r) cache" where
  "store_block i w s bs c =
     put_block i w s ((get_block i w s c)\<lparr>blk_storage := write_at (blk_storage (get_block i w s c)) 0 bs\<rparr>) c"

text \<open>
  \<open>FillBlock\<close> of the block that the access \<open>a\<close> to the cache \<open>t\<close> misses, from the levels below.
  The access's line is the one just evicted or the one hit.
\<close>

function FillBlock ::
  "('m, 'p::len, 'at) mss_ops \<Rightarrow> ('a::len, 'p, 'at) cache_access \<Rightarrow> ('a, 'p, 'at, 'r) cache \<Rightarrow>
   ('a, 'p, 'at, 'r) cache list \<Rightarrow> ('m, 'p) mss \<Rightarrow>
   (bool \<times> ('a, 'p, 'at) cache_access \<times> ('a, 'p, 'at, 'r) cache \<times> ('a, 'p, 'at, 'r) cache list \<times>
    ('m, 'p) mss) option" where
  "FillBlock ops a t [] ms =
     (case acc_line a of
        None \<Rightarrow> None
      | Some w \<Rightarrow>
          let i = acc_index a; s = acc_sector a mod BLOCKS_PER_LINE (cache_cfg t);
              a' = a\<lparr>acc_block := Some s\<rparr>
          in case (if IsDataCache (cache_cfg t)
                   then mss_DataBusRead ops (acc_block_base_phys_addr a) (BLOCK_SIZE (cache_cfg t))
                          (acc_storage_attr a) (acc_rwitm a) ms
                   else mss_InstructionBusRead ops (acc_block_base_phys_addr a)
                          (BLOCK_SIZE (cache_cfg t)) (acc_storage_attr a) ms) of
               (None, ms') \<Rightarrow> Some (False, a', t, [], ms')
             | (Some bs, ms') \<Rightarrow>
                 Some (True, a', finish_fill a' w s (store_block i w s bs t), [], ms'))"
| "FillBlock ops a t (f # fs) ms =
     (case acc_line a of
        None \<Rightarrow> None
      | Some w \<Rightarrow>
          let i = acc_index a; s = acc_sector a mod BLOCKS_PER_LINE (cache_cfg t);
              a' = a\<lparr>acc_block := Some s\<rparr>
          in if \<not> cache_enabled f
             then case FillBlock ops a' t fs ms of
                    None \<Rightarrow> None
                  | Some (False, a2, t', fs', ms') \<Rightarrow> Some (False, a2, t', f # fs', ms')
                  | Some (True, a2, t', fs', ms') \<Rightarrow>
                      Some (True, a2, finish_fill a2 w s (update_on_fill a2 t'), f # fs', ms')
             else
               let (fa, f1) = Lookup (access_init (ucast (acc_block_base_addr a))
                                (acc_block_base_phys_addr a) (acc_storage_attr a) (acc_rwitm a)) f
               in case prepare_line ops fa f1 fs ms of
                    None \<Rightarrow> None
                  | Some (False, fa2, f2, fs2, ms2) \<Rightarrow> Some (False, a', t, f2 # fs2, ms2)
                  | Some (True, fa2, f2, fs2, ms2) \<Rightarrow>
                     (case acc_line fa2 of
                        None \<Rightarrow>
                          (case FillBlock ops a' t fs2 ms2 of
                             None \<Rightarrow> None
                           | Some (False, a2, t', fs', ms') \<Rightarrow> Some (False, a2, t', f2 # fs', ms')
                           | Some (True, a2, t', fs', ms') \<Rightarrow>
                               Some (True, a2, finish_fill a2 w s (update_on_fill a2 t'),
                                     f2 # fs', ms'))
                      | Some fw \<Rightarrow>
                          (case (case acc_block fa2 of
                                   Some b \<Rightarrow> Some (True, fa2, f2, fs2, ms2)
                                 | None \<Rightarrow>
                                     (case FillBlock ops fa2 f2 fs2 ms2 of
                                        None \<Rightarrow> None
                                      | Some (False, r) \<Rightarrow> Some (False, r)
                                      | Some (True, fa3, f3, fs3, ms3) \<Rightarrow>
                                          Some (True, fa3, update_on_fill fa3 f3, fs3, ms3))) of
                             None \<Rightarrow> None
                           | Some (False, fa3, f3, fs3, ms3) \<Rightarrow> Some (False, a', t, f3 # fs3, ms3)
                           | Some (True, fa3, f3, fs3, ms3) \<Rightarrow>
                               (case acc_block fa3 of
                                  None \<Rightarrow> None
                                | Some fsec \<Rightarrow>
                                    if BLOCK_SIZE (cache_cfg t) \<le> acc_size_to_block_boundary fa3
                                    then let fb = get_block (acc_index fa3) fw fsec f3;
                                             bs = read_at (blk_storage fb) (acc_offset fa3)
                                                    (BLOCK_SIZE (cache_cfg t))
                                         in Some (True, a', finish_fill a' w s (store_block i w s bs t),
                                                  update_on_access fa3 f3 # fs3, ms3)
                                    else None))))"
  by pat_completeness auto
termination
  by (relation "measure (\<lambda>(ops, a, t, cs, ms). length cs)")
    (auto dest: prepare_line_length)

text \<open>
  The ways a fill from the level \<open>f\<close> can go, as an elimination rule for the proofs.
\<close>

lemma FillBlock_Cons_cases:
  assumes fill: "FillBlock ops a t (f # fs) ms = Some (ok, a2, t2, cs2, ms2)"
  obtains (skip) w a' s t' fs' where "acc_line a = Some w"
      and "s = acc_sector a mod BLOCKS_PER_LINE (cache_cfg t)" and "a' = a\<lparr>acc_block := Some s\<rparr>"
      and "\<not> cache_enabled f" and "FillBlock ops a' t fs ms = Some (ok, a2, t', fs', ms2)"
      and "t2 = (if ok then finish_fill a2 w s (update_on_fill a2 t') else t')" and "cs2 = f # fs'"
  | (evict_failed) w a' s fa f1 fa2 f2 fs2 where "acc_line a = Some w"
      and "s = acc_sector a mod BLOCKS_PER_LINE (cache_cfg t)" and "a' = a\<lparr>acc_block := Some s\<rparr>"
      and "cache_enabled f"
      and "Lookup (access_init (ucast (acc_block_base_addr a)) (acc_block_base_phys_addr a)
              (acc_storage_attr a) (acc_rwitm a)) f = (fa, f1)"
      and "prepare_line ops fa f1 fs ms = Some (False, fa2, f2, fs2, ms2)"
      and "\<not> ok" "a2 = a'" "t2 = t" "cs2 = f2 # fs2"
  | (locked) w a' s fa f1 fa2 f2 fs2 msp t' fs' where "acc_line a = Some w"
      and "s = acc_sector a mod BLOCKS_PER_LINE (cache_cfg t)" and "a' = a\<lparr>acc_block := Some s\<rparr>"
      and "cache_enabled f"
      and "Lookup (access_init (ucast (acc_block_base_addr a)) (acc_block_base_phys_addr a)
              (acc_storage_attr a) (acc_rwitm a)) f = (fa, f1)"
      and "prepare_line ops fa f1 fs ms = Some (True, fa2, f2, fs2, msp)" and "acc_line fa2 = None"
      and "FillBlock ops a' t fs2 msp = Some (ok, a2, t', fs', ms2)"
      and "t2 = (if ok then finish_fill a2 w s (update_on_fill a2 t') else t')" and "cs2 = f2 # fs'"
  | (fill_failed) w a' s fa f1 fa2 f2 fs2 msp fw fa3 f3 fs3 where "acc_line a = Some w"
      and "s = acc_sector a mod BLOCKS_PER_LINE (cache_cfg t)" and "a' = a\<lparr>acc_block := Some s\<rparr>"
      and "cache_enabled f"
      and "Lookup (access_init (ucast (acc_block_base_addr a)) (acc_block_base_phys_addr a)
              (acc_storage_attr a) (acc_rwitm a)) f = (fa, f1)"
      and "prepare_line ops fa f1 fs ms = Some (True, fa2, f2, fs2, msp)" and "acc_line fa2 = Some fw"
      and "acc_block fa2 = None" and "FillBlock ops fa2 f2 fs2 msp = Some (False, fa3, f3, fs3, ms2)"
      and "\<not> ok" "a2 = a'" "t2 = t" "cs2 = f3 # fs3"
  | (filled) w a' s fa f1 fa2 f2 fs2 msp fw fa3 f3 fs3 fsec where "acc_line a = Some w"
      and "s = acc_sector a mod BLOCKS_PER_LINE (cache_cfg t)" and "a' = a\<lparr>acc_block := Some s\<rparr>"
      and "cache_enabled f"
      and "Lookup (access_init (ucast (acc_block_base_addr a)) (acc_block_base_phys_addr a)
              (acc_storage_attr a) (acc_rwitm a)) f = (fa, f1)"
      and "prepare_line ops fa f1 fs ms = Some (True, fa2, f2, fs2, msp)" and "acc_line fa2 = Some fw"
      and "(\<exists>b. acc_block fa2 = Some b) \<and> (fa3, f3, fs3, ms2) = (fa2, f2, fs2, msp) \<or>
           acc_block fa2 = None \<and> (\<exists>f3'. FillBlock ops fa2 f2 fs2 msp = Some (True, fa3, f3', fs3, ms2) \<and>
             f3 = update_on_fill fa3 f3')"
      and "acc_block fa3 = Some fsec"
      and "BLOCK_SIZE (cache_cfg t) \<le> acc_size_to_block_boundary fa3"
      and "ok" "a2 = a'"
      and "t2 = finish_fill a' w s (store_block (acc_index a) w s
             (read_at (blk_storage (get_block (acc_index fa3) fw fsec f3)) (acc_offset fa3)
                (BLOCK_SIZE (cache_cfg t))) t)"
      and "cs2 = update_on_access fa3 f3 # fs3"
proof -
  from fill obtain w where w: "acc_line a = Some w" by (cases "acc_line a") simp_all
  define s where "s = acc_sector a mod BLOCKS_PER_LINE (cache_cfg t)"
  define a' where "a' = a\<lparr>acc_block := Some s\<rparr>"
  note c = w s_def a'_def
  show thesis
  proof (cases "cache_enabled f")
    case False
    from fill w False show thesis
      by (cases "FillBlock ops a' t fs ms")
        (auto simp: Let_def s_def [symmetric] a'_def [symmetric] split: bool.splits intro!: skip [OF c False])
  next
    case True
    obtain fa f1 where l: "Lookup (access_init (ucast (acc_block_base_addr a)) (acc_block_base_phys_addr a)
              (acc_storage_attr a) (acc_rwitm a)) f = (fa, f1)" by fastforce
    note fill1 = fill [simplified, simplified w True l Let_def option.case, folded s_def, folded a'_def, simplified]
    from fill1 obtain okp fa2 f2 fs2 msp
      where p: "prepare_line ops fa f1 fs ms = Some (okp, fa2, f2, fs2, msp)"
      by (cases "prepare_line ops fa f1 fs ms") auto
    note fill2 = fill1 [simplified p option.case prod.case]
    show thesis
    proof (cases okp)
      case False
      with p fill2 show thesis by (intro evict_failed [OF c True l]) auto
    next
      case okp: True
      with p have p': "prepare_line ops fa f1 fs ms = Some (True, fa2, f2, fs2, msp)" by simp
      note fill3 = fill2 [simplified okp bool.case]
      show thesis
      proof (cases "acc_line fa2")
        case None
        from fill3 [simplified None option.case] show thesis
          by (cases "FillBlock ops a' t fs2 msp")
            (auto split: bool.splits intro!: locked [OF c True l p' None])
      next
        case (Some fw)
        note fill4 = fill3 [simplified Some option.case]
        show thesis
        proof (cases "acc_block fa2")
          case (Some b)
          with fill4 show thesis
            by (intro filled [OF c True l p' \<open>acc_line fa2 = Some fw\<close>]) (auto simp: Let_def split: if_splits)
        next
          case None
          note fill5 = fill4 [simplified None option.case]
          then obtain okf fa3 f3 fs3 ms3
            where r: "FillBlock ops fa2 f2 fs2 msp = Some (okf, fa3, f3, fs3, ms3)"
            by (cases "FillBlock ops fa2 f2 fs2 msp") auto
          show thesis
          proof (cases okf)
            case False
            with r fill5 show thesis
              by (intro fill_failed [OF c True l p' \<open>acc_line fa2 = Some fw\<close> None]) auto
          next
            case okf: True
            with r fill5 obtain fsec where sec: "acc_block fa3 = Some fsec"
              by (cases "acc_block fa3") auto
            with r fill5 okf show thesis
              by (intro filled [OF c True l p' \<open>acc_line fa2 = Some fw\<close> _ sec])
                (auto simp: Let_def None split: if_splits)
          qed
        qed
      qed
    qed
  qed
qed

declare FillBlock.simps [simp del]

lemma FillBlock_length:
  fixes cs :: "('a::len, 'p::len, 'at, 'r) cache list"
  shows "FillBlock ops a t cs ms = Some (ok, a', t', cs', ms') \<Longrightarrow> length cs' = length cs"
proof (induction "length cs" arbitrary: a t cs ms ok a' t' cs' ms' rule: less_induct)
  case less
  show ?case
  proof (cases cs)
    case Nil
    with less.prems show ?thesis by (auto simp: FillBlock.simps Let_def split: option.splits prod.splits if_splits)
  next
    case (Cons f fs)
    have IH: "length ds' = length fs"
      if r: "FillBlock ops b u ds ns = Some (okx, b', u', ds', ns')" and l: "length ds = length fs"
      for b u ns okx b' u' ds' ns' and ds :: "('a, 'p, 'at, 'r) cache list"
    proof -
      have "length ds < length cs" using l Cons by simp
      from less.hyps [OF this r] l show ?thesis by simp
    qed
    from less.prems show ?thesis unfolding Cons
    proof (cases rule: FillBlock_Cons_cases)
      case (skip w a1 s t1 fs1)
      from IH [OF skip(5) refl] skip(7) show "length cs' = length (f # fs)" by simp
    next
      case (evict_failed w a1 s fa f1 fa2 f2 fs2)
      from prepare_line_length [OF evict_failed(6)] evict_failed(10) show "length cs' = length (f # fs)" by simp
    next
      case (locked w a1 s fa f1 fa2 f2 fs2 msp t1 fs1)
      from IH [OF locked(8)] prepare_line_length [OF locked(6)] locked(10) show "length cs' = length (f # fs)" by simp
    next
      case (fill_failed w a1 s fa f1 fa2 f2 fs2 msp fw fa3 f3 fs3)
      from IH [OF fill_failed(9)] prepare_line_length [OF fill_failed(6)] fill_failed(13)
      show "length cs' = length (f # fs)" by simp
    next
      case (filled w a1 s fa f1 fa2 f2 fs2 msp fw fa3 f3 fs3 fsec)
      from filled(8) have "length fs3 = length fs2"
        using IH prepare_line_length [OF filled(6)] by (elim disjE conjE exE) simp_all
      with prepare_line_length [OF filled(6)] filled(14) show "length cs' = length (f # fs)" by simp
    qed
  qed
qed

section \<open>Load and store\<close>

text \<open>
  \<open>instr\<close> tells whether the hierarchy is the instruction cache hierarchy, which decides the bus
  an uncached load goes to. The bytes are \<open>None\<close> when the source returns false.
\<close>

function LoadFromCacheHierarchy ::
  "('m, 'p::len, 'at) mss_ops \<Rightarrow> bool \<Rightarrow> 'a::len word \<Rightarrow> 'p word \<Rightarrow> nat \<Rightarrow> 'at \<Rightarrow>
   ('a, 'p, 'at, 'r) cache list \<Rightarrow> ('m, 'p) mss \<Rightarrow>
   (u8 list option \<times> ('a, 'p, 'at, 'r) cache list \<times> ('m, 'p) mss) option" where
  "LoadFromCacheHierarchy ops instr addr phys n attr [] ms =
     (let (r, ms') = (if instr then mss_InstructionBusRead ops phys n attr ms
                      else mss_DataBusRead ops phys n attr False ms)
      in Some (r, [], ms'))"
| "LoadFromCacheHierarchy ops instr addr phys n attr (c # cs) ms =
     (if \<not> IsStorageCacheable ops attr
      then let (r, ms') = (if instr then mss_InstructionBusRead ops phys n attr ms
                           else mss_DataBusRead ops phys n attr False ms)
           in Some (r, c # cs, ms')
      else if \<not> cache_enabled c
      then case LoadFromCacheHierarchy ops instr addr phys n attr cs ms of
             None \<Rightarrow> None
           | Some (r, cs', ms') \<Rightarrow> Some (r, c # cs', ms')
      else
        let (a, c1) = Lookup (access_init addr phys attr False) c
        in case prepare_line ops a c1 cs ms of
             None \<Rightarrow> None
           | Some (False, a2, c2, cs2, ms2) \<Rightarrow> Some (None, c2 # cs2, ms2)
           | Some (True, a2, c2, cs2, ms2) \<Rightarrow>
              (case acc_line a2 of
                 None \<Rightarrow>
                   (case LoadFromCacheHierarchy ops instr addr phys n attr cs2 ms2 of
                      None \<Rightarrow> None
                    | Some (r, cs', ms') \<Rightarrow> Some (r, c2 # cs', ms'))
               | Some w \<Rightarrow>
                   (case (case acc_block a2 of
                            Some b \<Rightarrow> Some (True, a2, c2, cs2, ms2)
                          | None \<Rightarrow>
                              (case FillBlock ops a2 c2 cs2 ms2 of
                                 None \<Rightarrow> None
                               | Some (False, r) \<Rightarrow> Some (False, r)
                               | Some (True, a3, c3, cs3, ms3) \<Rightarrow>
                                   Some (True, a3, update_on_fill a3 c3, cs3, ms3))) of
                      None \<Rightarrow> None
                    | Some (False, a3, c3, cs3, ms3) \<Rightarrow> Some (None, c3 # cs3, ms3)
                    | Some (True, a3, c3, cs3, ms3) \<Rightarrow>
                        (case acc_block a3 of
                           None \<Rightarrow> None
                         | Some s \<Rightarrow>
                             if n \<le> acc_size_to_block_boundary a3
                             then let b = get_block (acc_index a3) w s c3
                                  in Some (Some (read_at (blk_storage b) (acc_offset a3) n),
                                           update_on_access a3 c3 # cs3, ms3)
                             else None))))"
  by pat_completeness auto
termination
  by (relation "measure (\<lambda>(ops, instr, addr, phys, n, attr, cs, ms). length cs)")
    (auto dest: prepare_line_length)

function StoreInCacheHierarchy ::
  "('m, 'p::len, 'at) mss_ops \<Rightarrow> 'a::len word \<Rightarrow> 'p word \<Rightarrow> u8 list \<Rightarrow> 'at \<Rightarrow>
   ('a, 'p, 'at, 'r) cache list \<Rightarrow> ('m, 'p) mss \<Rightarrow>
   (bool \<times> ('a, 'p, 'at, 'r) cache list \<times> ('m, 'p) mss) option" where
  "StoreInCacheHierarchy ops addr phys bs attr [] ms =
     (let (ok, ms') = mss_DataBusWrite ops phys bs attr ms in Some (ok, [], ms'))"
| "StoreInCacheHierarchy ops addr phys bs attr (c # cs) ms =
     (if \<not> IsStorageCacheable ops attr
      then let (ok, ms') = mss_DataBusWrite ops phys bs attr ms in Some (ok, c # cs, ms')
      else if \<not> cache_enabled c
      then case StoreInCacheHierarchy ops addr phys bs attr cs ms of
             None \<Rightarrow> None
           | Some (ok, cs', ms') \<Rightarrow> Some (ok, c # cs', ms')
      else
        let (a, c1) = Lookup (access_init addr phys attr True) c
        in case (if mss_IsWriteAllocate (cache_cfg c) attr then prepare_line ops a c1 cs ms
                 else Some (True, a, c1, cs, ms)) of
             None \<Rightarrow> None
           | Some (False, a2, c2, cs2, ms2) \<Rightarrow> Some (False, c2 # cs2, ms2)
           | Some (True, a2, c2, cs2, ms2) \<Rightarrow>
              (case acc_line a2 of
                 None \<Rightarrow>
                   (case StoreInCacheHierarchy ops addr phys bs attr cs2 ms2 of
                      None \<Rightarrow> None
                    | Some (ok, cs', ms') \<Rightarrow> Some (ok, c2 # cs', ms'))
               | Some w \<Rightarrow>
                   (case (if acc_block a2 = None \<and> mss_IsWriteAllocate (cache_cfg c) attr
                          then (case FillBlock ops a2 c2 cs2 ms2 of
                                  None \<Rightarrow> None
                                | Some (False, r) \<Rightarrow> Some (False, r)
                                | Some (True, a3, c3, cs3, ms3) \<Rightarrow>
                                    Some (True, a3, update_on_fill a3 c3, cs3, ms3))
                          else Some (True, a2, c2, cs2, ms2)) of
                      None \<Rightarrow> None
                    | Some (False, a3, c3, cs3, ms3) \<Rightarrow> Some (False, c3 # cs3, ms3)
                    | Some (True, a3, c3, cs3, ms3) \<Rightarrow>
                        (let wt = IsStaticWriteThroughCache (cache_cfg c) \<or>
                                  IsDataStoreAccessWriteThrough ops attr
                         in case acc_block a3 of
                              None \<Rightarrow>
                                (case StoreInCacheHierarchy ops addr phys bs attr cs3 ms3 of
                                   None \<Rightarrow> None
                                 | Some (ok, cs', ms') \<Rightarrow> Some (ok, c3 # cs', ms'))
                            | Some s \<Rightarrow>
                                if length bs \<le> acc_size_to_block_boundary a3
                                then
                                  let i = acc_index a3; b = get_block i w s c3;
                                      b' = b\<lparr>blk_storage := write_at (blk_storage b) (acc_offset a3) bs,
                                             blk_dirty := (blk_dirty b \<or> \<not> wt)\<rparr>;
                                      c4 = update_on_access a3 (put_block i w s b' c3)
                                  in if wt
                                     then (case StoreInCacheHierarchy ops addr phys bs attr cs3 ms3 of
                                             None \<Rightarrow> None
                                           | Some (ok, cs', ms') \<Rightarrow> Some (ok, c4 # cs', ms'))
                                     else Some (True, c4 # cs3, ms3)
                                else None))))"
  by pat_completeness auto
termination
  by (relation "measure (\<lambda>(ops, addr, phys, bs, attr, cs, ms). length cs)")
    (auto split: if_splits option.splits prod.splits bool.splits
      dest!: prepare_line_length FillBlock_length)

section \<open>Debug accesses\<close>

fun DebugLoadFromCacheHierarchy ::
  "('m, 'p::len, 'at) mss_ops \<Rightarrow> bool \<Rightarrow> 'a::len word \<Rightarrow> 'p word \<Rightarrow> nat \<Rightarrow> 'at \<Rightarrow>
   ('a, 'p, 'at, 'r) cache list \<Rightarrow> ('m, 'p) mss \<Rightarrow>
   (u8 list option \<times> ('a, 'p, 'at, 'r) cache list \<times> ('m, 'p) mss) option" where
  "DebugLoadFromCacheHierarchy ops instr addr phys n attr [] ms =
     (let (r, ms') = (if instr then mss_DebugInstructionBusRead ops phys n attr ms
                      else mss_DebugDataBusRead ops phys n attr ms)
      in Some (r, [], ms'))"
| "DebugLoadFromCacheHierarchy ops instr addr phys n attr (c # cs) ms =
     (if \<not> IsStorageCacheable ops attr
      then let (r, ms') = (if instr then mss_DebugInstructionBusRead ops phys n attr ms
                           else mss_DebugDataBusRead ops phys n attr ms)
           in Some (r, c # cs, ms')
      else if \<not> cache_enabled c
      then case DebugLoadFromCacheHierarchy ops instr addr phys n attr cs ms of
             None \<Rightarrow> None
           | Some (r, cs', ms') \<Rightarrow> Some (r, c # cs', ms')
      else
        let (a, c1) = Lookup (access_init addr phys attr False) c
        in case (acc_line a, acc_block a) of
             (Some w, Some s) \<Rightarrow>
               if n \<le> acc_size_to_block_boundary a
               then Some (Some (read_at (blk_storage (get_block (acc_index a) w s c1)) (acc_offset a) n),
                          c1 # cs, ms)
               else None
           | _ \<Rightarrow>
               (case DebugLoadFromCacheHierarchy ops instr addr phys n attr cs ms of
                  None \<Rightarrow> None
                | Some (r, cs', ms') \<Rightarrow> Some (r, c1 # cs', ms')))"

fun DebugStoreInCacheHierarchy ::
  "('m, 'p::len, 'at) mss_ops \<Rightarrow> 'a::len word \<Rightarrow> 'p word \<Rightarrow> u8 list \<Rightarrow> 'at \<Rightarrow>
   ('a, 'p, 'at, 'r) cache list \<Rightarrow> ('m, 'p) mss \<Rightarrow>
   (bool \<times> ('a, 'p, 'at, 'r) cache list \<times> ('m, 'p) mss) option" where
  "DebugStoreInCacheHierarchy ops addr phys bs attr [] ms =
     (let (ok, ms') = mss_DebugDataBusWrite ops phys bs attr ms in Some (ok, [], ms'))"
| "DebugStoreInCacheHierarchy ops addr phys bs attr (c # cs) ms =
     (if \<not> IsStorageCacheable ops attr
      then let (ok, ms') = mss_DebugDataBusWrite ops phys bs attr ms in Some (ok, c # cs, ms')
      else if \<not> cache_enabled c
      then case DebugStoreInCacheHierarchy ops addr phys bs attr cs ms of
             None \<Rightarrow> None
           | Some (ok, cs', ms') \<Rightarrow> Some (ok, c # cs', ms')
      else
        let (a, c1) = Lookup (access_init addr phys attr False) c
        in case (acc_line a, acc_block a) of
             (Some w, Some s) \<Rightarrow>
               if length bs \<le> acc_size_to_block_boundary a
               then let b = get_block (acc_index a) w s c1
                    in Some (True, put_block (acc_index a) w s
                               (b\<lparr>blk_storage := write_at (blk_storage b) (acc_offset a) bs\<rparr>) c1 # cs, ms)
               else None
           | _ \<Rightarrow>
               (case DebugStoreInCacheHierarchy ops addr phys bs attr cs ms of
                  None \<Rightarrow> None
                | Some (ok, cs', ms') \<Rightarrow> Some (ok, c1 # cs', ms')))"


section \<open>Block allocation\<close>

text \<open>
  \<open>AllocateBlockInCacheHierarchy\<close>. The line is dereferenced even when every way is locked.
  \<open>l1_block_size\<close> is the block size of the first level; the memory case clears \<open>BLOCK_SIZE\<close>
  bytes of the level reached, which is 1 for a \<open>NullCache\<close>. The alignment mask
  \<open>-BLOCK_SIZE\<close> is a 32-bit unsigned value.
\<close>

fun AllocateBlockInCacheHierarchy ::
  "('m, 'p::len, 'at) mss_ops \<Rightarrow> bool \<Rightarrow> nat \<Rightarrow> 'a::len word \<Rightarrow> 'p word \<Rightarrow> 'at \<Rightarrow>
   ('a, 'p, 'at, 'r) cache list \<Rightarrow> ('m, 'p) mss \<Rightarrow>
   (bool \<times> ('a, 'p, 'at, 'r) cache list \<times> ('m, 'p) mss) option" where
  "AllocateBlockInCacheHierarchy ops zeroing l1_block_size addr phys attr [] ms =
     (if \<not> zeroing then Some (True, [], ms)
      else let (ok, ms') = mss_DataBusWrite ops (phys AND ucast (- of_nat l1_block_size :: u32)) [0] attr ms
           in Some (ok, [], ms'))"
| "AllocateBlockInCacheHierarchy ops zeroing l1_block_size addr phys attr (c # cs) ms =
     (if \<not> IsStorageCacheable ops attr
      then (if \<not> zeroing then Some (True, c # cs, ms)
            else let (ok, ms') = mss_DataBusWrite ops (phys AND ucast (- of_nat l1_block_size :: u32))
                                   (replicate (BLOCK_SIZE (cache_cfg c)) 0) attr ms
                 in Some (ok, c # cs, ms'))
      else if \<not> cache_enabled c
      then case AllocateBlockInCacheHierarchy ops zeroing l1_block_size addr phys attr cs ms of
             None \<Rightarrow> None
           | Some (ok, cs', ms') \<Rightarrow> Some (ok, c # cs', ms')
      else
        let (a, c1) = Lookup (access_init addr phys attr False) c
        in case prepare_line ops a c1 cs ms of
             None \<Rightarrow> None
           | Some (False, a2, c2, cs2, ms2) \<Rightarrow> Some (False, c2 # cs2, ms2)
           | Some (True, a2, c2, cs2, ms2) \<Rightarrow>
              (case acc_line a2 of
                 None \<Rightarrow> None
               | Some w \<Rightarrow>
                   let cf = cache_cfg c2; i = acc_index a2;
                       s = (case acc_block a2 of Some b \<Rightarrow> b | None \<Rightarrow> acc_sector a2 mod BLOCKS_PER_LINE cf);
                       l = line_set_base_phys_addr cf (acc_line_base_phys_addr a2)
                             (line_set_base_addr cf (ucast (acc_line_base_addr a2))
                                ((get_line i w c2)\<lparr>ln_valid := True\<rparr>));
                       c3 = put_line i w l c2;
                       b = get_block i w s c3;
                       b' = (if zeroing then (block_zero b)\<lparr>blk_dirty := True\<rparr> else b\<lparr>blk_dirty := False\<rparr>);
                       ms3 = (if zeroing \<and> enable_shadow_memory ms2
                              then ms2\<lparr>shadow_memory := sparse_clear (shadow_cf ms2) (blk_base_phys_addr b)
                                         (BLOCK_SIZE cf) (shadow_memory ms2)\<rparr>
                              else ms2)
                   in Some (True, put_block i w s (b'\<lparr>blk_valid := True\<rparr>) c3 # cs2, ms3)))"

section \<open>Maintenance over a range of levels\<close>

text \<open>
  The template parameter \<open>UNTIL\<close> is the number of levels that follow the current one up to and
  including the last level to treat.
\<close>

fun GlobalInvalidateBlockByAddress ::
  "nat \<Rightarrow> 'a::len word \<Rightarrow> 'p::len word \<Rightarrow> ('a, 'p, 'at, 'r) cache list \<Rightarrow> ('a, 'p, 'at, 'r) cache list" where
  "GlobalInvalidateBlockByAddress n addr phys [] = []"
| "GlobalInvalidateBlockByAddress n addr phys (c # cs) =
     InvalidateBlockByAddress addr phys c #
       (case n of 0 \<Rightarrow> cs | Suc m \<Rightarrow> GlobalInvalidateBlockByAddress m addr phys cs)"

fun GlobalInvalidateLineByAddress ::
  "nat \<Rightarrow> 'a::len word \<Rightarrow> 'p::len word \<Rightarrow> ('a, 'p, 'at, 'r) cache list \<Rightarrow> ('a, 'p, 'at, 'r) cache list" where
  "GlobalInvalidateLineByAddress n addr phys [] = []"
| "GlobalInvalidateLineByAddress n addr phys (c # cs) =
     InvalidateLineByAddress addr phys c #
       (case n of 0 \<Rightarrow> cs | Suc m \<Rightarrow> GlobalInvalidateLineByAddress m addr phys cs)"

definition write_back_block_of ::
  "('m, 'p::len, 'at) mss_ops \<Rightarrow> bool \<Rightarrow> 'a::len word \<Rightarrow> 'p word \<Rightarrow> ('a, 'p, 'at, 'r) cache \<Rightarrow>
   ('a, 'p, 'at, 'r) cache list \<Rightarrow> ('m, 'p) mss \<Rightarrow>
   (bool \<times> ('a, 'p, 'at, 'r) cache \<times> ('a, 'p, 'at, 'r) cache list \<times> ('m, 'p) mss) option" where
  "write_back_block_of ops invl addr phys c cs ms =
     (let s = SectorByPhysicalAddress (cache_cfg c) phys in
      case LookupLineByAddress addr phys c of
        (None, c1) \<Rightarrow> Some (True, c1, cs, ms)
      | (Some (i, w), c1) \<Rightarrow>
          let b = get_block i w s c1 in
          (case (if blk_valid b \<and> blk_dirty b
                 then WriteBackDirtyBlock ops invl i w (blk_sector b) c1 cs ms
                 else Some (True, c1, cs, ms)) of
             None \<Rightarrow> None
           | Some (False, r) \<Rightarrow> Some (False, r)
           | Some (True, c2, cs2, ms2) \<Rightarrow>
               Some (True,
                 (if invl then put_block i w s (block_invalidate (get_block i w s c2)) c2 else c2),
                 cs2, ms2)))"

definition write_back_line_of ::
  "('m, 'p::len, 'at) mss_ops \<Rightarrow> bool \<Rightarrow> 'a::len word \<Rightarrow> 'p word \<Rightarrow> ('a, 'p, 'at, 'r) cache \<Rightarrow>
   ('a, 'p, 'at, 'r) cache list \<Rightarrow> ('m, 'p) mss \<Rightarrow>
   (bool \<times> ('a, 'p, 'at, 'r) cache \<times> ('a, 'p, 'at, 'r) cache list \<times> ('m, 'p) mss) option" where
  "write_back_line_of ops invl addr phys c cs ms =
     (case LookupLineByAddress addr phys c of
        (None, c1) \<Rightarrow> Some (True, c1, cs, ms)
      | (Some (i, w), c1) \<Rightarrow>
          (case WriteBackLine ops invl i w c1 cs ms of
             None \<Rightarrow> None
           | Some (False, r) \<Rightarrow> Some (False, r)
           | Some (True, c2, cs2, ms2) \<Rightarrow>
               Some (True, (if invl then invalidate_line_at i w c2 else c2), cs2, ms2)))"

lemma write_back_line_of_length:
  "write_back_line_of ops invl addr phys c cs ms = Some (ok, c', cs', ms') \<Longrightarrow> length cs' = length cs"
  by (auto simp: write_back_line_of_def split: prod.splits option.splits bool.splits
      dest: WriteBackLine_length)

lemma write_back_block_of_length:
  "write_back_block_of ops invl addr phys c cs ms = Some (ok, c', cs', ms') \<Longrightarrow> length cs' = length cs"
  by (auto simp: write_back_block_of_def Let_def split: prod.splits option.splits bool.splits if_splits
      dest: WriteBackDirtyBlock_length)

function GlobalWriteBackBlockByAddress ::
  "('m, 'p::len, 'at) mss_ops \<Rightarrow> bool \<Rightarrow> nat \<Rightarrow> 'a::len word \<Rightarrow> 'p word \<Rightarrow>
   ('a, 'p, 'at, 'r) cache list \<Rightarrow> ('m, 'p) mss \<Rightarrow>
   (bool \<times> ('a, 'p, 'at, 'r) cache list \<times> ('m, 'p) mss) option" where
  "GlobalWriteBackBlockByAddress ops invl n addr phys [] ms = Some (True, [], ms)"
| "GlobalWriteBackBlockByAddress ops invl n addr phys (c # cs) ms =
     (case write_back_block_of ops invl addr phys c cs ms of
        None \<Rightarrow> None
      | Some (False, c', cs', ms') \<Rightarrow> Some (False, c' # cs', ms')
      | Some (True, c', cs', ms') \<Rightarrow>
          (case n of
             0 \<Rightarrow> Some (True, c' # cs', ms')
           | Suc m \<Rightarrow>
               (case GlobalWriteBackBlockByAddress ops invl m addr phys cs' ms' of
                  None \<Rightarrow> None
                | Some (ok, cs2, ms2) \<Rightarrow> Some (ok, c' # cs2, ms2))))"
  by pat_completeness auto
termination
  by (relation "measure (\<lambda>(ops, invl, n, addr, phys, cs, ms). length cs)")
    (auto dest: write_back_block_of_length)

function GlobalWriteBackLineByAddress ::
  "('m, 'p::len, 'at) mss_ops \<Rightarrow> bool \<Rightarrow> nat \<Rightarrow> 'a::len word \<Rightarrow> 'p word \<Rightarrow>
   ('a, 'p, 'at, 'r) cache list \<Rightarrow> ('m, 'p) mss \<Rightarrow>
   (bool \<times> ('a, 'p, 'at, 'r) cache list \<times> ('m, 'p) mss) option" where
  "GlobalWriteBackLineByAddress ops invl n addr phys [] ms = Some (True, [], ms)"
| "GlobalWriteBackLineByAddress ops invl n addr phys (c # cs) ms =
     (case write_back_line_of ops invl addr phys c cs ms of
        None \<Rightarrow> None
      | Some (False, c', cs', ms') \<Rightarrow> Some (False, c' # cs', ms')
      | Some (True, c', cs', ms') \<Rightarrow>
          (case n of
             0 \<Rightarrow> Some (True, c' # cs', ms')
           | Suc m \<Rightarrow>
               (case GlobalWriteBackLineByAddress ops invl m addr phys cs' ms' of
                  None \<Rightarrow> None
                | Some (ok, cs2, ms2) \<Rightarrow> Some (ok, c' # cs2, ms2))))"
  by pat_completeness auto
termination
  by (relation "measure (\<lambda>(ops, invl, n, addr, phys, cs, ms). length cs)")
    (auto dest: write_back_line_of_length)

end
