(* ===== verification/Cache_Blocks.thy ===== *)
theory Cache_Blocks
  imports Cache_Lookup Cache_Hierarchy
begin

text \<open>
  A well-formed cache refines a partial map from block numbers to blocks: \<open>block_at c pa\<close> is the
  data and the dirty flag of the valid block that holds the physical address \<open>pa\<close>, if any. The
  lemmas give the effect of every state change of \<open>Cache_Structure\<close> and \<open>Cache_Hierarchy\<close> on
  that map. Well-formedness asks for a physically tagged cache of power-of-two block and line
  sizes with addresses of at most 32 bits; logical and physical addresses agree modulo \<open>2 ^ k\<close>
  (the page size), which a virtually indexed cache does not exceed.
\<close>

section \<open>Well-formedness\<close>

definition is_pow2 :: "nat \<Rightarrow> bool" where
  "is_pow2 n \<longleftrightarrow> n = 2 ^ template_log2 n"

definition line_size :: "('a::len, 'p::len, 'at, 'r) cache_config \<Rightarrow> nat" where
  "line_size cf = BLOCK_SIZE cf * BLOCKS_PER_LINE cf"

definition cfg_ok :: "nat \<Rightarrow> ('a::len, 'p::len, 'at, 'r) cache_config \<Rightarrow> bool" where
  "cfg_ok k cf \<longleftrightarrow>
     0 < ASSOCIATIVITY cf \<and> 0 < NUM_SETS cf \<and> is_pow2 (BLOCK_SIZE cf) \<and>
     is_pow2 (BLOCKS_PER_LINE cf) \<and> line_size cf dvd 2 ^ k \<and>
     (INDEX_SCHEME cf = CACHE_VIRTUALLY_INDEXED \<longrightarrow> line_size cf * NUM_SETS cf dvd 2 ^ k) \<and>
     TAG_SCHEME cf = CACHE_PHYSICALLY_TAGGED \<and>
     LENGTH('p) \<le> 32 \<and> LENGTH('a) \<le> 32 \<and> k \<le> LENGTH('p) \<and> k \<le> LENGTH('a)"

definition congr :: "nat \<Rightarrow> 'a::len word \<Rightarrow> 'p::len word \<Rightarrow> bool" where
  "congr k a p \<longleftrightarrow> unat a mod 2 ^ k = unat p mod 2 ^ k"

definition tagged ::
  "('a::len, 'p::len, 'at, 'r) cache_config \<Rightarrow> ('a, 'p) cache_line \<Rightarrow> 'p word \<Rightarrow> bool" where
  "tagged cf l pa \<longleftrightarrow> ln_valid l \<and> ln_base_phys_addr l = LineBasePhysicalAddress cf pa"

definition line_ok ::
  "nat \<Rightarrow> ('a::len, 'p::len, 'at, 'r) cache_config \<Rightarrow> nat \<Rightarrow> nat \<Rightarrow> ('a, 'p) cache_line \<Rightarrow> bool" where
  "line_ok k cf i w l \<longleftrightarrow>
     ln_way l = w \<and> length (ln_blocks l) = BLOCKS_PER_LINE cf \<and>
     (\<forall>s < BLOCKS_PER_LINE cf. length (blk_storage (ln_blocks l ! s)) = BLOCK_SIZE cf \<and>
        blk_sector (ln_blocks l ! s) = s \<and>
        (blk_valid (ln_blocks l ! s) \<and> blk_dirty (ln_blocks l ! s) \<longrightarrow> IsDataCache cf)) \<and>
     (if ln_valid l
      then unat (ln_base_phys_addr l) mod line_size cf = 0 \<and>
           unat (ln_base_phys_addr l) div line_size cf mod NUM_SETS cf = i \<and>
           (\<forall>s < BLOCKS_PER_LINE cf.
              unat (blk_base_phys_addr (ln_blocks l ! s)) = unat (ln_base_phys_addr l) + s * BLOCK_SIZE cf \<and>
              congr k (blk_base_addr (ln_blocks l ! s)) (blk_base_phys_addr (ln_blocks l ! s)))
      else \<forall>s < BLOCKS_PER_LINE cf. \<not> blk_valid (ln_blocks l ! s))"

definition set_ok ::
  "nat \<Rightarrow> ('a::len, 'p::len, 'at, 'r) cache_config \<Rightarrow> nat \<Rightarrow> ('a, 'p) cache_set \<Rightarrow> bool" where
  "set_ok k cf i s \<longleftrightarrow>
     (\<exists>ord. mrs_order s ord) \<and> length (set_lines s) = ASSOCIATIVITY cf \<and>
     (\<forall>w < ASSOCIATIVITY cf. line_ok k cf i w (set_lines s ! w)) \<and>
     (\<forall>w < ASSOCIATIVITY cf. \<forall>v < ASSOCIATIVITY cf.
        ln_valid (set_lines s ! w) \<and> ln_valid (set_lines s ! v) \<and>
        ln_base_phys_addr (set_lines s ! w) = ln_base_phys_addr (set_lines s ! v) \<longrightarrow> w = v)"

definition cache_wf :: "nat \<Rightarrow> ('a::len, 'p::len, 'at, 'r) cache \<Rightarrow> bool" where
  "cache_wf k c \<longleftrightarrow>
     cfg_ok k (cache_cfg c) \<and> length (cache_sets c) = NUM_SETS (cache_cfg c) \<and>
     (\<forall>i < NUM_SETS (cache_cfg c). set_ok k (cache_cfg c) i (cache_sets c ! i))"

section \<open>The block map\<close>

definition block_no :: "('a::len, 'p::len, 'at, 'r) cache_config \<Rightarrow> 'p word \<Rightarrow> nat" where
  "block_no cf pa = unat pa div BLOCK_SIZE cf"

definition block_off :: "('a::len, 'p::len, 'at, 'r) cache_config \<Rightarrow> 'p word \<Rightarrow> nat" where
  "block_off cf pa = unat pa mod BLOCK_SIZE cf"

definition find_way :: "('a::len, 'p::len, 'at, 'r) cache \<Rightarrow> 'p word \<Rightarrow> nat option" where
  "find_way c pa =
     (let cf = cache_cfg c
      in find (\<lambda>w. tagged cf (get_line (IndexByPhysicalAddress cf pa) w c) pa) [0..<ASSOCIATIVITY cf])"

definition block_in ::
  "('a::len, 'p::len, 'at, 'r) cache_config \<Rightarrow> ('a, 'p) cache_line \<Rightarrow> 'p word \<Rightarrow> (u8 list \<times> bool) option" where
  "block_in cf l pa =
     (let b = ln_blocks l ! SectorByPhysicalAddress cf pa
      in if blk_valid b then Some (blk_storage b, blk_dirty b) else None)"

definition block_at :: "('a::len, 'p::len, 'at, 'r) cache \<Rightarrow> 'p word \<Rightarrow> (u8 list \<times> bool) option" where
  "block_at c pa =
     (case find_way c pa of
        None \<Rightarrow> None
      | Some w \<Rightarrow> block_in (cache_cfg c) (get_line (IndexByPhysicalAddress (cache_cfg c) pa) w c) pa)"

section \<open>Address arithmetic\<close>

lemma is_pow2D: "is_pow2 n \<Longrightarrow> \<exists>k. n = 2 ^ k"
  by (auto simp: is_pow2_def)

lemma is_pow2_power [simp]: "is_pow2 (2 ^ k)"
  by (simp add: is_pow2_def)

lemma cfg_ok_pos:
  assumes "cfg_ok k cf"
  shows "0 < BLOCK_SIZE cf" "0 < BLOCKS_PER_LINE cf" "0 < line_size cf" "0 < NUM_SETS cf" "0 < ASSOCIATIVITY cf"
  using assms by (auto simp: cfg_ok_def line_size_def dest!: is_pow2D)

lemma ucast_NOT_mask:
  "LENGTH('p::len) \<le> 32 \<Longrightarrow> (ucast (NOT (mask n) :: u32) :: 'p word) = NOT (mask n)"
  by (rule bit_eqI) (auto simp: bit_simps)

lemma mask_of_nat_pow2: "(of_nat (2 ^ n) :: u32) - 1 = mask n"
  by (simp add: mask_eq_exp_minus_1)

lemma unat_LineBasePhysicalAddress:
  assumes "cfg_ok k (cf :: ('a::len, 'p::len, 'at, 'r) cache_config)"
  shows "unat (LineBasePhysicalAddress cf pa) = unat pa - unat pa mod line_size cf"
proof -
  from assms obtain b l where bl: "BLOCK_SIZE cf = 2 ^ b" "BLOCKS_PER_LINE cf = 2 ^ l" and L: "LENGTH('p) \<le> 32"
    by (auto simp: cfg_ok_def dest!: is_pow2D)
  have "line_mask cf = NOT (mask (b + l))"
    unfolding line_mask_def bl mask_of_nat_pow2 [symmetric] by (simp add: power_add)
  then show ?thesis
    using unat_and_high_mask [of pa "b + l"]
    by (simp add: LineBasePhysicalAddress_def ucast_NOT_mask [OF L] line_size_def bl power_add)
qed

lemma unat_LineBaseAddress:
  assumes "cfg_ok k (cf :: ('a::len, 'p::len, 'at, 'r) cache_config)"
  shows "unat (LineBaseAddress cf a) = unat a - unat a mod line_size cf"
proof -
  from assms obtain b l where bl: "BLOCK_SIZE cf = 2 ^ b" "BLOCKS_PER_LINE cf = 2 ^ l" and L: "LENGTH('a) \<le> 32"
    by (auto simp: cfg_ok_def dest!: is_pow2D)
  have "line_mask cf = NOT (mask (b + l))"
    unfolding line_mask_def bl mask_of_nat_pow2 [symmetric] by (simp add: power_add)
  then show ?thesis
    using unat_and_high_mask [of a "b + l"]
    by (simp add: LineBaseAddress_def ucast_NOT_mask [OF L] line_size_def bl power_add)
qed

lemma unat_BlockBasePhysicalAddress:
  assumes "cfg_ok k (cf :: ('a::len, 'p::len, 'at, 'r) cache_config)"
  shows "unat (BlockBasePhysicalAddress cf pa) = unat pa - unat pa mod BLOCK_SIZE cf"
proof -
  from assms obtain b where b: "BLOCK_SIZE cf = 2 ^ b" and L: "LENGTH('p) \<le> 32"
    by (auto simp: cfg_ok_def dest!: is_pow2D)
  show ?thesis
    using unat_and_high_mask [of pa b]
    unfolding BlockBasePhysicalAddress_def block_mask_def b mask_of_nat_pow2 ucast_NOT_mask [OF L] .
qed

lemma unat_BlockBaseAddress:
  assumes "cfg_ok k (cf :: ('a::len, 'p::len, 'at, 'r) cache_config)"
  shows "unat (BlockBaseAddress cf a) = unat a - unat a mod BLOCK_SIZE cf"
proof -
  from assms obtain b where b: "BLOCK_SIZE cf = 2 ^ b" and L: "LENGTH('a) \<le> 32"
    by (auto simp: cfg_ok_def dest!: is_pow2D)
  show ?thesis
    using unat_and_high_mask [of a b]
    unfolding BlockBaseAddress_def block_mask_def b mask_of_nat_pow2 ucast_NOT_mask [OF L] .
qed

lemma mod_eq_dvd: "m dvd n \<Longrightarrow> (x :: nat) mod n = y mod n \<Longrightarrow> x mod m = y mod m"
  by (metis mod_mod_cancel)

lemma mod_sub_mod:
  "m dvd n \<Longrightarrow> (x :: nat) mod n = y mod n \<Longrightarrow> (x - x mod m) mod n = (y - y mod m) mod n"
proof -
  assume m: "m dvd n" and e: "x mod n = y mod n"
  have "x mod m = y mod m" using e m by (metis mod_mod_cancel)
  moreover have "(z - z mod m) mod n = (z mod n - z mod m)" for z
  proof -
    from m obtain q where n: "n = m * q" by (elim dvdE)
    have "(z - z mod m) mod n = m * (z div m mod q)"
      by (simp add: n minus_mod_eq_mult_div mod_mult_mult1)
    also have "\<dots> = z mod n - z mod m" by (simp add: n mod_mult2_eq)
    finally show ?thesis .
  qed
  ultimately show ?thesis using e by metis
qed

lemma same_line_iff:
  assumes "cfg_ok k cf"
  shows "LineBasePhysicalAddress cf x = LineBasePhysicalAddress cf y \<longleftrightarrow>
         block_no cf x div BLOCKS_PER_LINE cf = block_no cf y div BLOCKS_PER_LINE cf"
  using cfg_ok_pos [OF assms]
  by (simp add: word_unat_eq_iff unat_LineBasePhysicalAddress [OF assms] minus_mod_eq_mult_div
      block_no_def line_size_def div_mult2_eq)

lemma IndexByPhysicalAddress_block_no:
  "IndexByPhysicalAddress cf pa = block_no cf pa div BLOCKS_PER_LINE cf mod NUM_SETS cf"
  by (simp add: IndexByPhysicalAddress_def block_no_def)

lemma SectorByPhysicalAddress_block_no:
  "SectorByPhysicalAddress cf pa = block_no cf pa mod BLOCKS_PER_LINE cf"
  by (simp add: SectorByPhysicalAddress_def block_no_def)

lemma block_no_eq_iff:
  assumes "cfg_ok k cf"
  shows "block_no cf x = block_no cf y \<longleftrightarrow>
     LineBasePhysicalAddress cf x = LineBasePhysicalAddress cf y \<and>
     SectorByPhysicalAddress cf x = SectorByPhysicalAddress cf y"
  unfolding same_line_iff [OF assms] SectorByPhysicalAddress_block_no by (metis div_mult_mod_eq)

lemma Index_lt [simp]: "cfg_ok k cf \<Longrightarrow> IndexByPhysicalAddress cf pa < NUM_SETS cf"
  by (simp add: IndexByPhysicalAddress_def cfg_ok_def)

lemma Sector_lt [simp]: "cfg_ok k cf \<Longrightarrow> SectorByPhysicalAddress cf pa < BLOCKS_PER_LINE cf"
  using cfg_ok_pos(2) [of k cf] by (simp add: SectorByPhysicalAddress_def)

section \<open>Decoded accesses\<close>

definition decoded ::
  "nat \<Rightarrow> ('a::len, 'p::len, 'at, 'r) cache_config \<Rightarrow> 'p word \<Rightarrow> ('a, 'p, 'at) cache_access \<Rightarrow> bool" where
  "decoded k cf pa a \<longleftrightarrow>
     acc_index a = IndexByPhysicalAddress cf pa \<and> acc_sector a = SectorByPhysicalAddress cf pa \<and>
     acc_offset a = block_off cf pa \<and> acc_size_to_block_boundary a = BLOCK_SIZE cf - block_off cf pa \<and>
     acc_line_base_phys_addr a = LineBasePhysicalAddress cf pa \<and>
     acc_block_base_phys_addr a = BlockBasePhysicalAddress cf pa \<and>
     congr k (ucast (acc_line_base_addr a) :: 'a word) (LineBasePhysicalAddress cf pa) \<and>
     congr k (ucast (acc_block_base_addr a) :: 'a word) (BlockBasePhysicalAddress cf pa)"

lemma congr_ucast:
  assumes "k \<le> LENGTH('b::len)" and "congr k (a :: 'a::len word) (p :: 'p::len word)"
  shows "congr k (ucast a :: 'b word) p"
proof -
  have "(2::nat) ^ k dvd 2 ^ LENGTH('b)" using assms(1) by (rule le_imp_power_dvd)
  then have "unat (ucast a :: 'b word) mod 2 ^ k = unat a mod 2 ^ k"
    by (simp add: unsigned_ucast_eq take_bit_eq_mod mod_mod_cancel)
  with assms(2) show ?thesis by (simp add: congr_def)
qed

lemma mod_div_of_mod:
  "0 < b \<Longrightarrow> b * c dvd n \<Longrightarrow> (x :: nat) mod n = y mod n \<Longrightarrow> x div b mod c = y div b mod c"
proof -
  assume b: "0 < b" and d: "b * c dvd n" and e: "x mod n = y mod n"
  have "x mod (b * c) = y mod (b * c)" using d e by (metis mod_mod_cancel)
  moreover have "z div b mod c = z mod (b * c) div b" for z
    using b by (simp add: mod_mult2_eq)
  ultimately show ?thesis by simp
qed

lemma decoded_DecodeAddress:
  fixes cf :: "('a::len, 'p::len, 'at, 'r) cache_config"
  assumes ok: "cfg_ok k cf" and c: "congr k (acc_addr a) (acc_phys_addr a)"
  shows "decoded k cf (acc_phys_addr a) (DecodeAddress cf a)"
proof -
  let ?x = "unat (acc_addr a)" and ?y = "unat (acc_phys_addr a)"
  have k: "k \<le> LENGTH('p)" "k \<le> LENGTH('a)" using ok by (simp_all add: cfg_ok_def)
  have e: "?x mod 2 ^ k = ?y mod 2 ^ k" using c by (simp add: congr_def)
  have ld: "line_size cf dvd 2 ^ k" and bd: "BLOCK_SIZE cf dvd 2 ^ k"
    using ok by (auto simp: cfg_ok_def line_size_def intro: dvd_mult_left)
  have off: "?x mod BLOCK_SIZE cf = ?y mod BLOCK_SIZE cf" using bd e by (rule mod_eq_dvd)
  have sec: "?x div BLOCK_SIZE cf mod BLOCKS_PER_LINE cf = ?y div BLOCK_SIZE cf mod BLOCKS_PER_LINE cf"
    using cfg_ok_pos(1) [OF ok] ld e unfolding line_size_def by (rule mod_div_of_mod)
  have idx: "INDEX_SCHEME cf = CACHE_VIRTUALLY_INDEXED \<Longrightarrow> IndexByAddress cf (acc_addr a) = IndexByPhysicalAddress cf (acc_phys_addr a)"
  proof -
    assume "INDEX_SCHEME cf = CACHE_VIRTUALLY_INDEXED"
    then have "line_size cf * NUM_SETS cf dvd 2 ^ k" using ok by (simp add: cfg_ok_def)
    from mod_div_of_mod [OF cfg_ok_pos(3) [OF ok] this e] show ?thesis
      by (simp add: IndexByAddress_def IndexByPhysicalAddress_def line_size_def div_mult2_eq)
  qed
  have cl: "congr k (LineBaseAddress cf (acc_addr a)) (LineBasePhysicalAddress cf (acc_phys_addr a))"
    using mod_sub_mod [OF ld e]
    by (simp add: congr_def unat_LineBaseAddress [OF ok] unat_LineBasePhysicalAddress [OF ok])
  have cb: "congr k (BlockBaseAddress cf (acc_addr a)) (BlockBasePhysicalAddress cf (acc_phys_addr a))"
    using mod_sub_mod [OF bd e]
    by (simp add: congr_def unat_BlockBaseAddress [OF ok] unat_BlockBasePhysicalAddress [OF ok])
  show ?thesis
    unfolding decoded_def
  proof (intro conjI)
    show "acc_index (DecodeAddress cf a) = IndexByPhysicalAddress cf (acc_phys_addr a)"
      using idx by (cases "INDEX_SCHEME cf") (simp_all add: DecodeAddress_def Let_def)
    show "congr k (ucast (acc_line_base_addr (DecodeAddress cf a)) :: 'a word)
        (LineBasePhysicalAddress cf (acc_phys_addr a))"
      using congr_ucast [OF k(2) congr_ucast [OF k(1) cl]] by (simp only: DecodeAddress_def Let_def) simp
    show "congr k (ucast (acc_block_base_addr (DecodeAddress cf a)) :: 'a word)
        (BlockBasePhysicalAddress cf (acc_phys_addr a))"
      using congr_ucast [OF k(2) congr_ucast [OF k(1) cb]] by (simp only: DecodeAddress_def Let_def) simp
  qed (simp_all add: DecodeAddress_def Let_def block_off_def off sec SectorByAddress_def
      SectorByPhysicalAddress_def)
qed


section \<open>Caches with the same contents\<close>

definition same_cache :: "('a::len, 'p::len, 'at, 'r) cache \<Rightarrow> ('a, 'p, 'at, 'r) cache \<Rightarrow> bool" where
  "same_cache c c' \<longleftrightarrow>
     cache_cfg c' = cache_cfg c \<and> cache_enabled c' = cache_enabled c \<and>
     length (cache_sets c') = length (cache_sets c) \<and>
     (\<forall>i < length (cache_sets c). same_set (cache_sets c ! i) (cache_sets c' ! i))"

lemma same_set_refl [simp]: "same_set s s"
  by (simp add: same_set_def)

lemma same_cache_refl [simp]: "same_cache c c"
  by (simp add: same_cache_def)

lemma ln_content_eqD:
  assumes "ln_content l = ln_content l'"
  shows "ln_valid l = ln_valid l'" "ln_base_addr l = ln_base_addr l'"
    "ln_base_phys_addr l = ln_base_phys_addr l'" "ln_way l = ln_way l'" "ln_blocks l = ln_blocks l'"
  using assms by (simp_all add: ln_content_def)

lemma cache_wfD:
  assumes "cache_wf k c"
  shows "cfg_ok k (cache_cfg c)" and "length (cache_sets c) = NUM_SETS (cache_cfg c)"
    and "i < NUM_SETS (cache_cfg c) \<Longrightarrow> set_ok k (cache_cfg c) i (cache_sets c ! i)"
    and "i < NUM_SETS (cache_cfg c) \<Longrightarrow> length (set_lines (cache_sets c ! i)) = ASSOCIATIVITY (cache_cfg c)"
    and "i < NUM_SETS (cache_cfg c) \<Longrightarrow> w < ASSOCIATIVITY (cache_cfg c) \<Longrightarrow>
         line_ok k (cache_cfg c) i w (get_line i w c)"
    and "i < NUM_SETS (cache_cfg c) \<Longrightarrow> w < ASSOCIATIVITY (cache_cfg c) \<Longrightarrow> v < ASSOCIATIVITY (cache_cfg c) \<Longrightarrow>
         ln_valid (get_line i w c) \<Longrightarrow> ln_valid (get_line i v c) \<Longrightarrow>
         ln_base_phys_addr (get_line i w c) = ln_base_phys_addr (get_line i v c) \<Longrightarrow> w = v"
  using assms by (auto simp: cache_wf_def set_ok_def get_line_def get_set_def)

lemma same_cache_line:
  assumes "same_cache c c'" and "cache_wf k c" and "i < NUM_SETS (cache_cfg c)" and "w < ASSOCIATIVITY (cache_cfg c)"
  shows "ln_content (get_line i w c') = ln_content (get_line i w c)"
  using assms cache_wfD(2,4) [OF assms(2)] by (simp add: same_cache_def same_set_def get_line_def get_set_def)

lemma line_ok_cong: "ln_content l = ln_content l' \<Longrightarrow> line_ok k cf i w l = line_ok k cf i w l'"
  by (auto simp: line_ok_def ln_content_def)

lemma find_cong_set: "(\<And>x. x \<in> set xs \<Longrightarrow> P x = Q x) \<Longrightarrow> find P xs = find Q xs"
  by (induction xs) auto

lemma same_cache_find_way:
  assumes "same_cache c c'" and "cache_wf k c"
  shows "find_way c' pa = find_way c pa"
proof -
  have cf: "cache_cfg c' = cache_cfg c" using assms(1) by (simp add: same_cache_def)
  let ?i = "IndexByPhysicalAddress (cache_cfg c) pa"
  have "tagged (cache_cfg c) (get_line ?i w c') pa = tagged (cache_cfg c) (get_line ?i w c) pa"
    if "w < ASSOCIATIVITY (cache_cfg c)" for w
    using ln_content_eqD [OF same_cache_line [OF assms _ that, of ?i]] cache_wfD(1) [OF assms(2)]
    by (simp add: tagged_def)
  then show ?thesis unfolding find_way_def Let_def cf by (intro find_cong_set) simp
qed

lemma find_wayD:
  assumes "find_way c pa = Some w"
  shows "w < ASSOCIATIVITY (cache_cfg c)"
    and "tagged (cache_cfg c) (get_line (IndexByPhysicalAddress (cache_cfg c) pa) w c) pa"
proof -
  from assms show "w < ASSOCIATIVITY (cache_cfg c)"
    unfolding find_way_def Let_def find_Some_iff by (metis diff_zero length_upt nth_upt add_0)
  from assms show "tagged (cache_cfg c) (get_line (IndexByPhysicalAddress (cache_cfg c) pa) w c) pa"
    unfolding find_way_def Let_def find_Some_iff by blast
qed

lemma find_way_None:
  "find_way c pa = None \<longleftrightarrow>
   (\<forall>w < ASSOCIATIVITY (cache_cfg c).
      \<not> tagged (cache_cfg c) (get_line (IndexByPhysicalAddress (cache_cfg c) pa) w c) pa)"
  by (auto simp: find_way_def Let_def find_None_iff)

lemma find_way_iff:
  assumes wf: "cache_wf k c" and w: "w < ASSOCIATIVITY (cache_cfg c)"
  shows "find_way c pa = Some w \<longleftrightarrow>
         tagged (cache_cfg c) (get_line (IndexByPhysicalAddress (cache_cfg c) pa) w c) pa"
proof
  assume t: "tagged (cache_cfg c) (get_line (IndexByPhysicalAddress (cache_cfg c) pa) w c) pa"
  then obtain v where v: "find_way c pa = Some v" using w find_way_None by (metis not_None_eq)
  have i: "IndexByPhysicalAddress (cache_cfg c) pa < NUM_SETS (cache_cfg c)"
    using cache_wfD(1) [OF wf] by simp
  have "v = w"
    using find_wayD(2) [OF v] t unfolding tagged_def
    by (intro cache_wfD(6) [OF wf i find_wayD(1) [OF v] w]) auto
  with v show "find_way c pa = Some w" by simp
qed (rule find_wayD)

lemma same_cache_block_at:
  assumes "same_cache c c'" and "cache_wf k c"
  shows "block_at c' pa = block_at c pa"
proof -
  have cf: "cache_cfg c' = cache_cfg c" using assms(1) by (simp add: same_cache_def)
  let ?i = "IndexByPhysicalAddress (cache_cfg c) pa"
  show ?thesis
  proof (cases "find_way c pa")
    case (Some w)
    have "ln_blocks (get_line ?i w c') = ln_blocks (get_line ?i w c)"
      using ln_content_eqD(5) [OF same_cache_line [OF assms _ find_wayD(1) [OF Some]]] cache_wfD(1) [OF assms(2)]
      by simp
    then show ?thesis using Some by (simp add: block_at_def same_cache_find_way [OF assms] cf block_in_def)
  qed (simp add: block_at_def same_cache_find_way [OF assms])
qed

lemma same_cache_wf:
  assumes sc: "same_cache c c'" and wf: "cache_wf k c"
    and links: "\<And>i. i < NUM_SETS (cache_cfg c) \<Longrightarrow> \<exists>ord. mrs_order (cache_sets c' ! i) ord"
  shows "cache_wf k c'"
proof -
  have cf: "cache_cfg c' = cache_cfg c" "length (cache_sets c') = NUM_SETS (cache_cfg c)"
    using sc cache_wfD(2) [OF wf] by (simp_all add: same_cache_def)
  have "set_ok k (cache_cfg c) i (cache_sets c' ! i)" if i: "i < NUM_SETS (cache_cfg c)" for i
  proof -
    have line: "ln_content (set_lines (cache_sets c' ! i) ! w) = ln_content (set_lines (cache_sets c ! i) ! w)"
      if "w < ASSOCIATIVITY (cache_cfg c)" for w
      using same_cache_line [OF sc wf i that] by (simp add: get_line_def get_set_def)
    have len: "length (set_lines (cache_sets c' ! i)) = ASSOCIATIVITY (cache_cfg c)"
      using sc i cache_wfD(2,4) [OF wf] by (simp add: same_cache_def same_set_def)
    have so: "set_ok k (cache_cfg c) i (cache_sets c ! i)" using cache_wfD(3) [OF wf i] .
    show ?thesis
      unfolding set_ok_def
    proof (intro conjI allI impI)
      fix w assume w: "w < ASSOCIATIVITY (cache_cfg c)"
      then show "line_ok k (cache_cfg c) i w (set_lines (cache_sets c' ! i) ! w)"
        unfolding line_ok_cong [OF line [OF w]] using so by (simp add: set_ok_def)
      fix v assume v: "v < ASSOCIATIVITY (cache_cfg c)"
        and e: "ln_valid (set_lines (cache_sets c' ! i) ! w) \<and> ln_valid (set_lines (cache_sets c' ! i) ! v) \<and>
          ln_base_phys_addr (set_lines (cache_sets c' ! i) ! w) = ln_base_phys_addr (set_lines (cache_sets c' ! i) ! v)"
      have "ln_valid (set_lines (cache_sets c ! i) ! w) \<and> ln_valid (set_lines (cache_sets c ! i) ! v) \<and>
          ln_base_phys_addr (set_lines (cache_sets c ! i) ! w) = ln_base_phys_addr (set_lines (cache_sets c ! i) ! v)"
        using e ln_content_eqD(1,3) [OF line [OF w]] ln_content_eqD(1,3) [OF line [OF v]] by simp
      then show "w = v" using so w v by (simp add: set_ok_def)
    qed (use links [OF i] len in auto)
  qed
  then show ?thesis using cache_wfD(1) [OF wf] cf by (simp add: cache_wf_def)
qed

section \<open>Lookup\<close>

lemma find_unique:
  assumes "set xs = set ys" and "\<And>x y. x \<in> set xs \<Longrightarrow> y \<in> set xs \<Longrightarrow> P x \<Longrightarrow> P y \<Longrightarrow> x = y"
  shows "find P xs = find P ys"
proof (cases "find P xs")
  case None
  then have "find P ys = None" using assms(1) by (simp add: find_None_iff)
  with None show ?thesis by simp
next
  case (Some x)
  then have x: "x \<in> set xs" "P x" by (auto simp: find_Some_iff)
  then obtain y where y: "find P ys = Some y" using assms(1) by (metis find_None_iff not_None_eq)
  then have "y \<in> set ys" "P y" by (auto simp: find_Some_iff)
  with x assms have "x = y" by auto
  with Some y show ?thesis by simp
qed

lemma access_fields_DecodeAddress [simp]:
  "acc_addr (DecodeAddress cf a) = acc_addr a" "acc_phys_addr (DecodeAddress cf a) = acc_phys_addr a"
  "acc_storage_attr (DecodeAddress cf a) = acc_storage_attr a" "acc_rwitm (DecodeAddress cf a) = acc_rwitm a"
  by (simp_all add: DecodeAddress_def Let_def)

lemma line_search_spec:
  fixes c :: "('a::len, 'p::len, 'at, 'r) cache" and pa :: "'p word"
  assumes wf: "cache_wf k c"
  defines "i \<equiv> IndexByPhysicalAddress (cache_cfg c) pa"
    and "search \<equiv> AssociativeSearchByLineBasePhysicalAddress (LineBasePhysicalAddress (cache_cfg c) pa)
      (get_set (IndexByPhysicalAddress (cache_cfg c) pa) c)"
  shows "fst search = find_way c pa" and "same_set (get_set i c) (snd search)"
    and "\<exists>ord. mrs_order (snd search) ord"
proof -
  let ?s = "get_set i c" and ?P = "\<lambda>l. ln_valid l \<and> ln_base_phys_addr l = LineBasePhysicalAddress (cache_cfg c) pa"
  have i: "i < NUM_SETS (cache_cfg c)" using cache_wfD(1) [OF wf] by (simp add: i_def)
  have l: "search = associative_search ?P ?s"
    by (simp add: search_def i_def AssociativeSearchByLineBasePhysicalAddress_def)
  from cache_wfD(3) [OF wf i] obtain ord where ord: "mrs_order ?s ord" by (auto simp: set_ok_def get_set_def)
  have so: "set ord = set [0..<ASSOCIATIVITY (cache_cfg c)]"
    using ord cache_wfD(4) [OF wf i] by (auto simp: mrs_order_def get_set_def)
  have "find (\<lambda>w. ?P (set_lines ?s ! w)) ord = find (\<lambda>w. ?P (set_lines ?s ! w)) [0..<ASSOCIATIVITY (cache_cfg c)]"
    using cache_wfD(6) [OF wf i] so by (intro find_unique) (auto simp: get_line_def)
  also have "\<dots> = find_way c pa" by (simp add: find_way_def Let_def tagged_def i_def get_line_def)
  finally show "fst search = find_way c pa" unfolding l associative_search_spec(1) [OF ord] .
  show "same_set ?s (snd search)" unfolding l by (rule associative_search_spec(2) [OF ord])
  show "\<exists>ord. mrs_order (snd search) ord" unfolding l using associative_search_spec(3) [OF ord] by blast
qed

lemma lookup_search_spec:
  assumes wf: "cache_wf k c" and d: "decoded k (cache_cfg c) pa a"
  defines "i \<equiv> IndexByPhysicalAddress (cache_cfg c) pa"
  shows "fst (lookup_search (cache_cfg c) a (get_set i c)) = find_way c pa"
    and "same_set (get_set i c) (snd (lookup_search (cache_cfg c) a (get_set i c)))"
    and "\<exists>ord. mrs_order (snd (lookup_search (cache_cfg c) a (get_set i c))) ord"
proof -
  have l: "lookup_search (cache_cfg c) a s = AssociativeSearchByLineBasePhysicalAddress (LineBasePhysicalAddress (cache_cfg c) pa) s" for s
    using cache_wfD(1) [OF wf] d by (simp add: lookup_search_def cfg_ok_def decoded_def)
  show "fst (lookup_search (cache_cfg c) a (get_set i c)) = find_way c pa"
    "same_set (get_set i c) (snd (lookup_search (cache_cfg c) a (get_set i c)))"
    "\<exists>ord. mrs_order (snd (lookup_search (cache_cfg c) a (get_set i c))) ord"
    unfolding l i_def by (rule line_search_spec [OF wf])+
qed

lemma same_cache_put_set:
  assumes wf: "cache_wf k c" and i: "i < NUM_SETS (cache_cfg c)" and s: "same_set (get_set i c) s"
    and ord: "\<exists>ord. mrs_order s ord"
    and c': "cache_cfg c' = cache_cfg c" "cache_enabled c' = cache_enabled c"
      "cache_sets c' = (cache_sets c)[i := s]"
  shows "same_cache c c'" and "cache_wf k c'"
proof -
  show sc: "same_cache c c'"
    using s c' by (auto simp: same_cache_def get_set_def nth_update_if)
  show "cache_wf k c'"
  proof (rule same_cache_wf [OF sc wf])
    fix j assume "j < NUM_SETS (cache_cfg c)"
    then show "\<exists>ord. mrs_order (cache_sets c' ! j) ord"
      using c' ord cache_wfD(2,3) [OF wf] by (cases "j = i") (auto simp: set_ok_def)
  qed
qed

text \<open>The effect of a lookup: statistics and search order only; the access is fully decoded.\<close>

lemma Lookup_spec:
  fixes c :: "('a::len, 'p::len, 'at, 'r) cache"
  assumes wf: "cache_wf k c" and cg: "congr k (acc_addr a0) (acc_phys_addr a0)"
    and l: "Lookup a0 c = (a, c')"
  defines "cf \<equiv> cache_cfg c" and "pa \<equiv> acc_phys_addr a0"
  shows "same_cache c c'" and "cache_wf k c'" and "decoded k cf pa a"
    and "acc_line a = find_way c pa"
    and "acc_block a = (if block_at c pa = None then None else Some (SectorByPhysicalAddress cf pa))"
    and "acc_addr a = acc_addr a0" "acc_phys_addr a = pa"
    and "acc_storage_attr a = acc_storage_attr a0" "acc_rwitm a = acc_rwitm a0"
proof -
  let ?a1 = "DecodeAddress cf a0"
  have ok: "cfg_ok k cf" using cache_wfD(1) [OF wf] by (simp add: cf_def)
  have d: "decoded k cf pa ?a1" unfolding pa_def by (rule decoded_DecodeAddress [OF ok cg])
  then have i: "acc_index ?a1 = IndexByPhysicalAddress cf pa"
    and sec: "acc_sector ?a1 = SectorByPhysicalAddress cf pa" by (simp_all add: decoded_def)
  let ?i = "IndexByPhysicalAddress cf pa"
  obtain ln s where ls: "lookup_search cf ?a1 (get_set ?i c) = (ln, s)" by fastforce
  have gs: "get_set j (c\<lparr>num_accesses := num_accesses c + 1\<rparr>) = get_set j c" for j
    by (simp add: get_set_def)
  note sp = lookup_search_spec [OF wf d [unfolded cf_def], folded cf_def, unfolded ls fst_conv snd_conv]
  have ilt: "?i < NUM_SETS (cache_cfg c)" using ok by (simp add: cf_def)
  define c2 where "c2 = put_set ?i s (c\<lparr>num_accesses := num_accesses c + 1\<rparr>)"
  have c2: "cache_cfg c2 = cache_cfg c" "cache_enabled c2 = cache_enabled c" "cache_sets c2 = (cache_sets c)[?i := s]"
    by (simp_all add: c2_def put_set_def)
  have a: "(a, c') = (case ln of
       Some w \<Rightarrow> (?a1\<lparr>acc_line := Some w, acc_line_to_write_back_evict := None,
                    acc_way := ln_way (get_line ?i w c2),
                    acc_block := (if blk_valid (get_block ?i w (SectorByPhysicalAddress cf pa mod BLOCKS_PER_LINE cf) c2)
                       then Some (SectorByPhysicalAddress cf pa mod BLOCKS_PER_LINE cf) else None)\<rparr>, c2)
     | None \<Rightarrow> (?a1\<lparr>acc_line := None, acc_block := None\<rparr>, c2\<lparr>num_misses := num_misses c2 + 1\<rparr>))"
    using l unfolding Lookup_def Let_def cf_def [symmetric] i gs ls sec
    by (cases ln) (auto simp: c2_def cf_def)
  have c': "cache_cfg c' = cache_cfg c" "cache_enabled c' = cache_enabled c" "cache_sets c' = (cache_sets c)[?i := s]"
    using a c2 by (auto split: option.splits)
  show sc: "same_cache c c'" and wf': "cache_wf k c'"
    using same_cache_put_set [OF wf ilt sp(2,3) c'] .
  have sc2: "same_cache c c2" using same_cache_put_set [OF wf ilt sp(2,3) c2] by blast
  show "decoded k cf pa a" using a d by (auto simp: decoded_def split: option.splits)
  show "acc_line a = find_way c pa" using a sp(1) by (auto split: option.splits)
  show "acc_addr a = acc_addr a0" "acc_phys_addr a = pa"
    "acc_storage_attr a = acc_storage_attr a0" "acc_rwitm a = acc_rwitm a0"
    using a by (auto simp: pa_def split: option.splits)
  show "acc_block a = (if block_at c pa = None then None else Some (SectorByPhysicalAddress cf pa))"
  proof (cases ln)
    case None
    then show ?thesis using a sp(1) by (simp add: block_at_def)
  next
    case (Some w)
    then have fw: "find_way c pa = Some w" using sp(1) by simp
    have "ln_blocks (get_line ?i w c2) = ln_blocks (get_line ?i w c)"
      using ln_content_eqD(5) [OF same_cache_line [OF sc2 wf ilt find_wayD(1) [OF fw]]] .
    then show ?thesis
      using a Some fw ok by (simp add: block_at_def block_in_def Let_def cf_def [symmetric] get_block_def)
  qed
qed


section \<open>Replacing a line\<close>

lemma get_line_put_line:
  assumes "cache_wf k c" and "i < NUM_SETS (cache_cfg c)" and "w < ASSOCIATIVITY (cache_cfg c)"
    and "j < NUM_SETS (cache_cfg c)"
  shows "get_line j v (put_line i w l c) = (if j = i \<and> v = w then l else get_line j v c)"
  using assms cache_wfD(2,4) [OF assms(1)]
  by (auto simp: get_line_def put_line_def put_set_def get_set_def nth_update_if)

lemma put_line_simps [simp]:
  "cache_cfg (put_line i w l c) = cache_cfg c" "cache_enabled (put_line i w l c) = cache_enabled c"
  "length (cache_sets (put_line i w l c)) = length (cache_sets c)"
  "cache_policy (put_line i w l c) = cache_policy c"
  by (simp_all add: put_line_def put_set_def)

lemma mrs_order_cong:
  assumes "mrs_order s ord" and "mrs_line s' = mrs_line s" and "lrs_line s' = lrs_line s"
    and "length (set_lines s') = length (set_lines s)"
    and "\<And>x. x < length (set_lines s) \<Longrightarrow> ln_next (set_lines s' ! x) = ln_next (set_lines s ! x) \<and>
           ln_prev (set_lines s' ! x) = ln_prev (set_lines s ! x)"
  shows "mrs_order s' ord"
proof -
  have "ord ! k < length (set_lines s)" if "k < length ord" for k
    using mrs_order_lt [OF assms(1) that] .
  then show ?thesis using assms by (simp add: mrs_order_def)
qed

lemma put_line_wf:
  assumes wf: "cache_wf k c" and i: "i < NUM_SETS (cache_cfg c)" and w: "w < ASSOCIATIVITY (cache_cfg c)"
    and ok: "line_ok k (cache_cfg c) i w l"
    and uniq: "\<And>v. v < ASSOCIATIVITY (cache_cfg c) \<Longrightarrow> v \<noteq> w \<Longrightarrow> ln_valid l \<Longrightarrow> ln_valid (get_line i v c) \<Longrightarrow>
        ln_base_phys_addr (get_line i v c) \<noteq> ln_base_phys_addr l"
    and links: "ln_next l = ln_next (get_line i w c)" "ln_prev l = ln_prev (get_line i w c)"
  shows "cache_wf k (put_line i w l c)"
proof -
  let ?c = "put_line i w l c"
  have "set_ok k (cache_cfg c) j (cache_sets ?c ! j)" if j: "j < NUM_SETS (cache_cfg c)" for j
  proof -
    have so: "set_ok k (cache_cfg c) j (cache_sets c ! j)" using cache_wfD(3) [OF wf j] .
    have sl: "set_lines (cache_sets ?c ! j) ! v = (if j = i \<and> v = w then l else set_lines (cache_sets c ! j) ! v)" for v
      using get_line_put_line [OF wf i w j, of v l] by (simp add: get_line_def get_set_def)
    have len: "length (set_lines (cache_sets ?c ! j)) = ASSOCIATIVITY (cache_cfg c)"
      using cache_wfD(2,4) [OF wf] j i by (auto simp: put_line_def put_set_def get_set_def nth_update_if)
    have ml: "mrs_line (cache_sets ?c ! j) = mrs_line (cache_sets c ! j)"
      "lrs_line (cache_sets ?c ! j) = lrs_line (cache_sets c ! j)"
      by (auto simp: put_line_def put_set_def get_set_def nth_update_if)
    from so obtain ord where "mrs_order (cache_sets c ! j) ord" by (auto simp: set_ok_def)
    then have "mrs_order (cache_sets ?c ! j) ord"
      by (rule mrs_order_cong [OF _ ml])
        (use len cache_wfD(4) [OF wf j] links sl in \<open>auto simp: get_line_def get_set_def\<close>)
    then have links: "\<exists>ord. mrs_order (cache_sets ?c ! j) ord" by blast
    have uq: "\<forall>u < ASSOCIATIVITY (cache_cfg c). \<forall>v < ASSOCIATIVITY (cache_cfg c).
        ln_valid (set_lines (cache_sets c ! j) ! u) \<and> ln_valid (set_lines (cache_sets c ! j) ! v) \<and>
        ln_base_phys_addr (set_lines (cache_sets c ! j) ! u) = ln_base_phys_addr (set_lines (cache_sets c ! j) ! v) \<longrightarrow> u = v"
      using so by (simp add: set_ok_def)
    have uql: "ln_valid l \<Longrightarrow> ln_valid (set_lines (cache_sets c ! i) ! v) \<Longrightarrow>
        ln_base_phys_addr (set_lines (cache_sets c ! i) ! v) = ln_base_phys_addr l \<Longrightarrow> v = w"
      if "v < ASSOCIATIVITY (cache_cfg c)" for v
      using uniq [OF that] by (auto simp: get_line_def get_set_def)
    show ?thesis
      unfolding set_ok_def sl
    proof (intro conjI allI impI)
      fix u assume u: "u < ASSOCIATIVITY (cache_cfg c)"
      show "line_ok k (cache_cfg c) j u (if j = i \<and> u = w then l else set_lines (cache_sets c ! j) ! u)"
        using ok so u by (simp add: set_ok_def)
      fix v assume v: "v < ASSOCIATIVITY (cache_cfg c)"
        and e: "ln_valid (if j = i \<and> u = w then l else set_lines (cache_sets c ! j) ! u) \<and>
         ln_valid (if j = i \<and> v = w then l else set_lines (cache_sets c ! j) ! v) \<and>
         ln_base_phys_addr (if j = i \<and> u = w then l else set_lines (cache_sets c ! j) ! u) =
         ln_base_phys_addr (if j = i \<and> v = w then l else set_lines (cache_sets c ! j) ! v)"
      show "u = v"
      proof (cases "j = i \<and> u = w")
        case U: True
        show ?thesis
        proof (cases "v = w")
          case False
          then show ?thesis using e U uql [OF v] by simp
        qed (use U in simp)
      next
        case U: False
        show ?thesis
        proof (cases "j = i \<and> v = w")
          case True
          then show ?thesis using e U uql [OF u] by simp
        next
          case False
          have "ln_valid (set_lines (cache_sets c ! j) ! u) \<and> ln_valid (set_lines (cache_sets c ! j) ! v) \<and>
            ln_base_phys_addr (set_lines (cache_sets c ! j) ! u) = ln_base_phys_addr (set_lines (cache_sets c ! j) ! v)"
            using e unfolding if_not_P [OF U] if_not_P [OF False] .
          then show ?thesis using uq u v by blast
        qed
      qed
    qed (use links len in auto)
  qed
  then show ?thesis using cache_wfD(1,2) [OF wf] by (simp add: cache_wf_def)
qed

text \<open>The block map after a line has been replaced.\<close>

lemma put_line_find_way:
  assumes wf: "cache_wf k c" and wf': "cache_wf k (put_line i w l c)"
    and i: "i < NUM_SETS (cache_cfg c)" and w: "w < ASSOCIATIVITY (cache_cfg c)"
  shows "find_way (put_line i w l c) pa =
    (if IndexByPhysicalAddress (cache_cfg c) pa = i
     then if tagged (cache_cfg c) l pa then Some w
          else if find_way c pa = Some w then None else find_way c pa
     else find_way c pa)"
proof -
  let ?cf = "cache_cfg c" and ?c = "put_line i w l c"
  let ?j = "IndexByPhysicalAddress ?cf pa"
  have j: "?j < NUM_SETS ?cf" using cache_wfD(1) [OF wf] by simp
  note gl = get_line_put_line [OF wf i w j]
  have fwc: "find_way ?c pa = Some v \<longleftrightarrow> tagged ?cf (get_line ?j v ?c) pa" if "v < ASSOCIATIVITY ?cf" for v
    using find_way_iff [OF wf', of v pa] that by simp
  have fw: "find_way c pa = Some v \<longleftrightarrow> tagged ?cf (get_line ?j v c) pa" if "v < ASSOCIATIVITY ?cf" for v
    using find_way_iff [OF wf that] .
  have lt: "v < ASSOCIATIVITY ?cf" if "find_way ?c pa = Some v \<or> find_way c pa = Some v" for v
    using that find_wayD(1) by fastforce
  have eq: "find_way ?c pa = r" if r: "\<And>v. v < ASSOCIATIVITY ?cf \<Longrightarrow> (find_way ?c pa = Some v) = (r = Some v)"
    "\<And>v. r = Some v \<Longrightarrow> v < ASSOCIATIVITY ?cf" for r
  proof (cases r)
    case None
    then show ?thesis using r(1) lt by (cases "find_way ?c pa") auto
  next
    case (Some v)
    then show ?thesis using r [of v] by simp
  qed
  show ?thesis
  proof (cases "?j = i")
    case False
    have "find_way ?c pa = find_way c pa"
    proof (rule eq)
      fix v assume v: "v < ASSOCIATIVITY ?cf"
      show "(find_way ?c pa = Some v) = (find_way c pa = Some v)"
        using fwc [OF v] fw [OF v] gl [of v] False by simp
    qed (use lt in blast)
    then show ?thesis using False by simp
  next
    case True
    show ?thesis
    proof (cases "tagged ?cf l pa")
      case tg: True
      then show ?thesis using True fwc [OF w] gl by simp
    next
      case nt: False
      have "find_way ?c pa = (if find_way c pa = Some w then None else find_way c pa)"
      proof (rule eq)
        fix v assume v: "v < ASSOCIATIVITY ?cf"
        show "(find_way ?c pa = Some v) = ((if find_way c pa = Some w then None else find_way c pa) = Some v)"
          using fwc [OF v] fw [OF v] gl [of v] nt True by (cases "v = w") auto
      qed (use lt in \<open>auto split: if_splits\<close>)
      then show ?thesis using True nt by simp
    qed
  qed
qed

lemma put_line_block_at:
  assumes wf: "cache_wf k c" and wf': "cache_wf k (put_line i w l c)"
    and i: "i < NUM_SETS (cache_cfg c)" and w: "w < ASSOCIATIVITY (cache_cfg c)"
  shows "block_at (put_line i w l c) pa =
    (if IndexByPhysicalAddress (cache_cfg c) pa = i
     then if tagged (cache_cfg c) l pa then block_in (cache_cfg c) l pa
          else if find_way c pa = Some w then None else block_at c pa
     else block_at c pa)"
proof -
  have j: "IndexByPhysicalAddress (cache_cfg c) pa < NUM_SETS (cache_cfg c)"
    using cache_wfD(1) [OF wf] by simp
  show ?thesis
    unfolding block_at_def put_line_find_way [OF assms] put_line_simps get_line_put_line [OF wf i w j]
    by (auto split: option.splits)
qed

section \<open>The state changes on the block map\<close>

text \<open>The coordinates of a present line.\<close>

definition way_at :: "('a::len, 'p::len, 'at, 'r) cache \<Rightarrow> 'p word \<Rightarrow> nat \<Rightarrow> nat \<Rightarrow> bool" where
  "way_at c pa i w \<longleftrightarrow> i = IndexByPhysicalAddress (cache_cfg c) pa \<and> find_way c pa = Some w"

lemma way_atD:
  assumes "way_at c pa i w" and "cache_wf k c"
  shows "i < NUM_SETS (cache_cfg c)" "w < ASSOCIATIVITY (cache_cfg c)"
    "tagged (cache_cfg c) (get_line i w c) pa" "line_ok k (cache_cfg c) i w (get_line i w c)"
    "ln_valid (get_line i w c)"
proof -
  show i: "i < NUM_SETS (cache_cfg c)" and w: "w < ASSOCIATIVITY (cache_cfg c)"
    and t: "tagged (cache_cfg c) (get_line i w c) pa"
    using assms cache_wfD(1) [OF assms(2)] find_wayD by (auto simp: way_at_def)
  show "line_ok k (cache_cfg c) i w (get_line i w c)" by (rule cache_wfD(5) [OF assms(2) i w])
  show "ln_valid (get_line i w c)" using t by (simp add: tagged_def)
qed

lemma block_at_way:
  "way_at c pa i w \<Longrightarrow> block_at c pa = block_in (cache_cfg c) (get_line i w c) pa"
  by (simp add: way_at_def block_at_def)

lemma tagged_same_line:
  assumes "tagged cf l pa"
  shows "tagged cf l x \<longleftrightarrow> LineBasePhysicalAddress cf x = LineBasePhysicalAddress cf pa"
  using assms by (auto simp: tagged_def)

lemma same_line_index:
  assumes "cfg_ok k cf" and "LineBasePhysicalAddress cf x = LineBasePhysicalAddress cf pa"
  shows "IndexByPhysicalAddress cf x = IndexByPhysicalAddress cf pa"
  using assms(2) unfolding same_line_iff [OF assms(1)] IndexByPhysicalAddress_block_no by simp

text \<open>Replacing one block of a present line, by anything that keeps the line well formed.\<close>

lemma put_block_spec:
  fixes c :: "('a::len, 'p::len, 'at, 'r) cache"
  assumes wf: "cache_wf k c" and at: "way_at c pa i w"
  defines "cf \<equiv> cache_cfg c" and "s \<equiv> SectorByPhysicalAddress (cache_cfg c) pa"
  assumes old: "b' = (get_block i w s c)\<lparr>blk_valid := v, blk_dirty := d, blk_storage := st\<rparr>"
    and len: "length st = BLOCK_SIZE cf" and dd: "v \<and> d \<Longrightarrow> IsDataCache cf"
  shows "cache_wf k (put_block i w s b' c)"
    and "block_at (put_block i w s b' c) x =
      (if block_no cf x = block_no cf pa then if v then Some (st, d) else None else block_at c x)"
    and "find_way (put_block i w s b' c) x = find_way c x"
    and "cache_cfg (put_block i w s b' c) = cf"
    and "cache_enabled (put_block i w s b' c) = cache_enabled c"
    and "get_block i w s (put_block i w s b' c) = b'"
proof -
  note w = way_atD [OF at wf, folded cf_def]
  have ok: "cfg_ok k cf" using cache_wfD(1) [OF wf] by (simp add: cf_def)
  let ?l = "get_line i w c"
  let ?l' = "?l\<lparr>ln_blocks := (ln_blocks ?l)[s := b']\<rparr>"
  let ?c = "put_line i w ?l' c"
  have sl: "s < BLOCKS_PER_LINE cf" using ok by (simp add: s_def cf_def)
  have nb: "length (ln_blocks ?l) = BLOCKS_PER_LINE cf" using w(4) by (simp add: line_ok_def)
  have b's: "b' = (ln_blocks ?l ! s)\<lparr>blk_valid := v, blk_dirty := d, blk_storage := st\<rparr>"
    using old by (simp add: get_block_def)
  have lok: "line_ok k cf i w ?l'"
    using w(4,5) sl nb len dd unfolding line_ok_def
    by (auto simp: b's nth_list_update)
  have pb: "put_block i w s b' c = ?c" by (simp add: put_block_def)
  show wf': "cache_wf k (put_block i w s b' c)"
    unfolding pb
  proof (rule put_line_wf [OF wf w(1,2) [unfolded cf_def]])
    show "line_ok k (cache_cfg c) i w ?l'" using lok by (simp add: cf_def)
    fix u assume "u < ASSOCIATIVITY (cache_cfg c)" "u \<noteq> w" "ln_valid ?l'" "ln_valid (get_line i u c)"
    then show "ln_base_phys_addr (get_line i u c) \<noteq> ln_base_phys_addr ?l'"
      using cache_wfD(6) [OF wf w(1) [unfolded cf_def], of u w] w(2,5) by (auto simp: cf_def)
  qed simp_all
  note wf2 = wf' [unfolded pb]
  have tg: "tagged cf ?l' y \<longleftrightarrow> tagged cf ?l y" for y by (simp add: tagged_def)
  have fw: "IndexByPhysicalAddress cf y = i \<Longrightarrow> find_way c y = Some w \<longleftrightarrow> tagged cf ?l y" for y
    using find_way_iff [OF wf w(2) [unfolded cf_def], of y] by (simp add: cf_def)
  show "find_way (put_block i w s b' c) x = find_way c x"
    unfolding pb put_line_find_way [OF wf wf2 w(1,2) [unfolded cf_def]]
    using fw [of x] by (auto simp: cf_def [symmetric] tg)
  have idx: "IndexByPhysicalAddress cf x = i" if "block_no cf x = block_no cf pa"
    using that at by (simp add: IndexByPhysicalAddress_block_no way_at_def cf_def)
  have bi: "block_in cf ?l' x = (if SectorByPhysicalAddress cf x = s then if v then Some (st, d) else None
      else block_in cf ?l x)"
    using sl nb by (auto simp: block_in_def b's Let_def)
  show "block_at (put_block i w s b' c) x =
      (if block_no cf x = block_no cf pa then if v then Some (st, d) else None else block_at c x)"
  proof (cases "IndexByPhysicalAddress cf x = i \<and> tagged cf ?l x")
    case True
    have way: "way_at c x i w" using True fw [of x] by (simp add: way_at_def cf_def)
    have lb: "LineBasePhysicalAddress cf x = LineBasePhysicalAddress cf pa"
      using tagged_same_line [OF w(3)] True by simp
    have "block_no cf x = block_no cf pa \<longleftrightarrow> SectorByPhysicalAddress cf x = s"
      unfolding block_no_eq_iff [OF ok] using lb by (simp add: s_def cf_def)
    then show ?thesis
      unfolding pb put_line_block_at [OF wf wf2 w(1,2) [unfolded cf_def]] block_at_way [OF way]
      using True bi tg by (simp add: cf_def [symmetric])
  next
    case False
    have "block_no cf x \<noteq> block_no cf pa"
      using False idx tagged_same_line [OF w(3), of x] block_no_eq_iff [OF ok, of x pa] by blast
    then show ?thesis
      unfolding pb put_line_block_at [OF wf wf2 w(1,2) [unfolded cf_def]]
      using False fw [of x] tg by (auto simp: cf_def [symmetric])
  qed
  show "cache_cfg (put_block i w s b' c) = cf" "cache_enabled (put_block i w s b' c) = cache_enabled c"
    by (simp_all add: pb cf_def)
  show "get_block i w s (put_block i w s b' c) = b'"
    using sl nb get_line_put_line [OF wf w(1,2,1) [unfolded cf_def], of w ?l'] by (simp add: pb get_block_def)
qed


lemma finish_write_back_spec:
  fixes c :: "('a::len, 'p::len, 'at, 'r) cache"
  assumes wf: "cache_wf k c" and at: "way_at c pa i w" and b: "block_at c pa = Some (st, d)"
  defines "s \<equiv> SectorByPhysicalAddress (cache_cfg c) pa"
  shows "cache_wf k (finish_write_back invl i w s c)"
    and "block_at (finish_write_back invl i w s c) x =
      (if block_no (cache_cfg c) x = block_no (cache_cfg c) pa
       then if invl then None else Some (st, False) else block_at c x)"
    and "find_way (finish_write_back invl i w s c) x = find_way c x"
    and "cache_cfg (finish_write_back invl i w s c) = cache_cfg c"
    and "cache_enabled (finish_write_back invl i w s c) = cache_enabled c"
proof -
  let ?b = "get_block i w s c"
  let ?b' = "if invl then block_invalidate ?b else ?b\<lparr>blk_dirty := False\<rparr>"
  have ok: "cfg_ok k (cache_cfg c)" by (rule cache_wfD(1) [OF wf])
  have v: "blk_valid ?b" "blk_storage ?b = st"
    using b unfolding block_at_way [OF at]
    by (auto simp: block_in_def Let_def get_block_def s_def split: if_splits)
  have st: "length st = BLOCK_SIZE (cache_cfg c)"
  proof -
    have "length (blk_storage (ln_blocks (get_line i w c) ! s)) = BLOCK_SIZE (cache_cfg c)"
      using way_atD(4) [OF at wf] Sector_lt [OF ok, of pa] by (simp add: line_ok_def s_def)
    then show ?thesis using v(2) by (simp add: get_block_def)
  qed
  have b': "?b' = ?b\<lparr>blk_valid := \<not> invl, blk_dirty := False, blk_storage := st\<rparr>"
    using v by (simp add: block_invalidate_def)
  have f: "finish_write_back invl i w s c = put_block i w s ?b' c"
    by (simp add: finish_write_back_def Let_def)
  note sp = put_block_spec [OF wf at, folded s_def, OF b' st]
  show "cache_wf k (finish_write_back invl i w s c)"
    "block_at (finish_write_back invl i w s c) x =
      (if block_no (cache_cfg c) x = block_no (cache_cfg c) pa
       then if invl then None else Some (st, False) else block_at c x)"
    "find_way (finish_write_back invl i w s c) x = find_way c x"
    "cache_cfg (finish_write_back invl i w s c) = cache_cfg c"
    "cache_enabled (finish_write_back invl i w s c) = cache_enabled c"
    unfolding f using sp by auto
qed

lemma line_ok_invalidate:
  "line_ok k cf i w l \<Longrightarrow> line_ok k cf i w (line_invalidate l)"
  by (auto simp: line_ok_def line_invalidate_def block_invalidate_def)

lemma invalidate_line_spec:
  fixes c :: "('a::len, 'p::len, 'at, 'r) cache"
  assumes wf: "cache_wf k c" and i: "i < NUM_SETS (cache_cfg c)" and w: "w < ASSOCIATIVITY (cache_cfg c)"
  shows "cache_wf k (invalidate_line_at i w c)"
    and "block_at (invalidate_line_at i w c) x = (if way_at c x i w then None else block_at c x)"
    and "find_way (invalidate_line_at i w c) x = (if way_at c x i w then None else find_way c x)"
    and "cache_cfg (invalidate_line_at i w c) = cache_cfg c"
    and "cache_enabled (invalidate_line_at i w c) = cache_enabled c"
    and "\<not> ln_valid (get_line i w (invalidate_line_at i w c))"
proof -
  let ?l' = "line_invalidate (get_line i w c)"
  have nt: "\<not> tagged cf ?l' y" for cf :: "('a, 'p, 'at, 'r) cache_config" and y
    by (simp add: tagged_def line_invalidate_def)
  show wf': "cache_wf k (invalidate_line_at i w c)"
    unfolding invalidate_line_at_def
    by (rule put_line_wf [OF wf i w line_ok_invalidate [OF cache_wfD(5) [OF wf i w]]])
      (simp_all add: line_invalidate_def)
  note wf2 = wf' [unfolded invalidate_line_at_def]
  show "block_at (invalidate_line_at i w c) x = (if way_at c x i w then None else block_at c x)"
    unfolding invalidate_line_at_def put_line_block_at [OF wf wf2 i w] by (auto simp: nt way_at_def)
  show "find_way (invalidate_line_at i w c) x = (if way_at c x i w then None else find_way c x)"
    unfolding invalidate_line_at_def put_line_find_way [OF wf wf2 i w] by (auto simp: nt way_at_def)
  show "cache_cfg (invalidate_line_at i w c) = cache_cfg c"
    "cache_enabled (invalidate_line_at i w c) = cache_enabled c"
    by (simp_all add: invalidate_line_at_def)
  show "\<not> ln_valid (get_line i w (invalidate_line_at i w c))"
    unfolding invalidate_line_at_def get_line_put_line [OF wf i w i] by (simp add: line_invalidate_def)
qed

section \<open>Filling a block\<close>

text \<open>The line a fill may use: the present one, or an invalid one when the tag is absent.\<close>

definition fillable :: "('a::len, 'p::len, 'at, 'r) cache \<Rightarrow> 'p word \<Rightarrow> nat \<Rightarrow> nat \<Rightarrow> bool" where
  "fillable c pa i w \<longleftrightarrow>
     i = IndexByPhysicalAddress (cache_cfg c) pa \<and> w < ASSOCIATIVITY (cache_cfg c) \<and>
     (find_way c pa = Some w \<or> find_way c pa = None \<and> \<not> ln_valid (get_line i w c))"

lemma line_set_simps [simp]:
  "ln_valid (line_set_base_phys_addr cf p l) = ln_valid l" "ln_next (line_set_base_phys_addr cf p l) = ln_next l"
  "ln_prev (line_set_base_phys_addr cf p l) = ln_prev l" "ln_way (line_set_base_phys_addr cf p l) = ln_way l"
  "ln_base_phys_addr (line_set_base_phys_addr cf p l) = p"
  "ln_valid (line_set_base_addr cf a l) = ln_valid l" "ln_next (line_set_base_addr cf a l) = ln_next l"
  "ln_prev (line_set_base_addr cf a l) = ln_prev l" "ln_way (line_set_base_addr cf a l) = ln_way l"
  "ln_base_phys_addr (line_set_base_addr cf a l) = ln_base_phys_addr l"
  by (simp_all add: line_set_base_phys_addr_def line_set_base_addr_def)

lemma line_set_blocks:
  assumes "s < BLOCKS_PER_LINE cf"
  shows "ln_blocks (line_set_base_phys_addr cf p (line_set_base_addr cf a l)) ! s =
    (ln_blocks l ! s)\<lparr>blk_base_addr := a + ucast (of_nat s * of_nat (BLOCK_SIZE cf) :: u32),
                      blk_base_phys_addr := p + ucast (of_nat s * of_nat (BLOCK_SIZE cf) :: u32)\<rparr>"
    and "length (ln_blocks (line_set_base_phys_addr cf p (line_set_base_addr cf a l))) = BLOCKS_PER_LINE cf"
  using assms by (simp_all add: line_set_base_phys_addr_def line_set_base_addr_def)

lemma line_size_le:
  assumes "cfg_ok k (cf :: ('a::len, 'p::len, 'at, 'r) cache_config)"
  shows "line_size cf \<le> 2 ^ LENGTH('p)" "line_size cf dvd 2 ^ LENGTH('p)" "line_size cf \<le> 2 ^ 32"
proof -
  have d: "line_size cf dvd 2 ^ k" and k: "k \<le> LENGTH('p)" "LENGTH('p) \<le> 32"
    using assms by (simp_all add: cfg_ok_def)
  have "(2::nat) ^ k dvd 2 ^ LENGTH('p)" using k by (intro le_imp_power_dvd)
  with d show d2: "line_size cf dvd 2 ^ LENGTH('p)" by (rule dvd_trans)
  then show le: "line_size cf \<le> 2 ^ LENGTH('p)" by (rule dvd_imp_le) simp
  have "(2::nat) ^ LENGTH('p) \<le> 2 ^ 32" using k by (intro power_increasing) auto
  with le show "line_size cf \<le> 2 ^ 32" by (rule le_trans)
qed

lemma sector_offset_lt:
  assumes "cfg_ok k cf" and "s < BLOCKS_PER_LINE cf"
  shows "s * BLOCK_SIZE cf + BLOCK_SIZE cf \<le> line_size cf"
proof -
  have "(s + 1) * BLOCK_SIZE cf \<le> BLOCKS_PER_LINE cf * BLOCK_SIZE cf"
    using assms(2) by (intro mult_right_mono) auto
  then show ?thesis by (simp add: line_size_def mult.commute add.commute)
qed

lemma unat_sector_offset:
  assumes "cfg_ok k cf" and "s < BLOCKS_PER_LINE cf"
  shows "unat (of_nat s * of_nat (BLOCK_SIZE cf) :: u32) = s * BLOCK_SIZE cf"
proof -
  have "s * BLOCK_SIZE cf < 2 ^ 32"
    using sector_offset_lt [OF assms] line_size_le(3) [OF assms(1)] cfg_ok_pos(1) [OF assms(1)] by linarith
  then show ?thesis by (simp add: unat_of_nat flip: of_nat_mult)
qed

lemma unat_add_sector:
  fixes cf :: "('a::len, 'p::len, 'at, 'r) cache_config" and p :: "'p word"
  assumes ok: "cfg_ok k cf" and s: "s < BLOCKS_PER_LINE cf" and al: "unat p mod line_size cf = 0"
  shows "unat (p + ucast (of_nat s * of_nat (BLOCK_SIZE cf) :: u32)) = unat p + s * BLOCK_SIZE cf"
proof -
  let ?o = "s * BLOCK_SIZE cf" and ?l = "line_size cf"
  have o: "?o < ?l" using sector_offset_lt [OF ok s] cfg_ok_pos(1) [OF ok] by linarith
  obtain m where m: "2 ^ LENGTH('p) = ?l * m" using line_size_le(2) [OF ok] by (elim dvdE)
  obtain q where q: "unat p = ?l * q" using al by (auto simp: mod_eq_0_iff_dvd elim: dvdE)
  have "?l * q < ?l * m" using unsigned_less [of p, where 'a = nat] q m by simp
  then have "Suc q \<le> m" by simp
  then have "?l * Suc q \<le> 2 ^ LENGTH('p)" unfolding m by (rule mult_le_mono2)
  then have lt: "unat p + ?o < 2 ^ LENGTH('p)" using o q by simp
  have "unat (ucast (of_nat s * of_nat (BLOCK_SIZE cf) :: u32) :: 'p word) = ?o"
    using lt by (simp add: unsigned_ucast_eq unat_sector_offset [OF ok s] take_bit_nat_eq_self)
  then show ?thesis using lt by (simp add: unat_word_ariths)
qed

lemma unat_mod_add_sector:
  fixes cf :: "('a::len, 'p::len, 'at, 'r) cache_config" and a :: "'a word"
  assumes ok: "cfg_ok k cf" and s: "s < BLOCKS_PER_LINE cf"
  shows "unat (a + ucast (of_nat s * of_nat (BLOCK_SIZE cf) :: u32)) mod 2 ^ k = (unat a + s * BLOCK_SIZE cf) mod 2 ^ k"
proof -
  have "k \<le> LENGTH('a)" using ok by (simp add: cfg_ok_def)
  then have d: "(2::nat) ^ k dvd 2 ^ LENGTH('a)" by (rule le_imp_power_dvd)
  let ?o = "of_nat s * of_nat (BLOCK_SIZE cf) :: u32"
  have u: "unat (ucast ?o :: 'a word) = (s * BLOCK_SIZE cf) mod 2 ^ LENGTH('a)"
    by (simp only: unsigned_ucast_eq unat_sector_offset [OF ok s] take_bit_eq_mod)
  have "unat (a + ucast ?o) mod 2 ^ k = (unat a + (s * BLOCK_SIZE cf) mod 2 ^ LENGTH('a)) mod 2 ^ LENGTH('a) mod 2 ^ k"
    by (simp only: unat_word_ariths u)
  also have "\<dots> = (unat a + (s * BLOCK_SIZE cf) mod 2 ^ LENGTH('a)) mod 2 ^ k"
    by (rule mod_mod_cancel [OF d])
  also have "\<dots> = (unat a + (s * BLOCK_SIZE cf) mod 2 ^ LENGTH('a) mod 2 ^ k) mod 2 ^ k"
    by (simp only: mod_add_right_eq)
  also have "\<dots> = (unat a + s * BLOCK_SIZE cf) mod 2 ^ k"
    by (simp only: mod_mod_cancel [OF d] mod_add_right_eq)
  finally show ?thesis .
qed

end
