(* ===== verification/Cache_Fill.thy ===== *)
theory Cache_Fill
  imports Cache_Blocks
begin

text \<open>
  The effect of a block fill on the block map of a cache: storing the bytes into a line that is
  free or has the tag already, and the assignments at the end of \<open>FillBlock\<close>.
\<close>

lemma put_line_put_line [simp]: "put_line i w l' (put_line i w l c) = put_line i w l' c"
  by (cases "i < length (cache_sets c)") (simp_all add: put_line_def put_set_def get_set_def list_update_beyond)

lemma find_way_same_line:
  assumes wf: "cache_wf k c" and e: "LineBasePhysicalAddress (cache_cfg c) x = LineBasePhysicalAddress (cache_cfg c) y"
  shows "find_way c x = find_way c y"
  using same_line_index [OF cache_wfD(1) [OF wf] e] e by (simp add: find_way_def tagged_def Let_def)

lemma block_at_same_block:
  assumes wf: "cache_wf k c" and e: "block_no (cache_cfg c) x = block_no (cache_cfg c) y"
  shows "block_at c x = block_at c y"
proof -
  have l: "LineBasePhysicalAddress (cache_cfg c) x = LineBasePhysicalAddress (cache_cfg c) y"
    "SectorByPhysicalAddress (cache_cfg c) x = SectorByPhysicalAddress (cache_cfg c) y"
    using e block_no_eq_iff [OF cache_wfD(1) [OF wf]] by blast+
  show ?thesis
    using find_way_same_line [OF wf l(1)] same_line_index [OF cache_wfD(1) [OF wf] l(1)] l(2)
    by (simp add: block_at_def block_in_def split: option.split)
qed

lemma fillableD:
  assumes "fillable c pa i w" and "cache_wf k c"
  shows "i < NUM_SETS (cache_cfg c)" "w < ASSOCIATIVITY (cache_cfg c)" "i = IndexByPhysicalAddress (cache_cfg c) pa"
    "line_ok k (cache_cfg c) i w (get_line i w c)"
    "\<lbrakk>v < ASSOCIATIVITY (cache_cfg c); v \<noteq> w\<rbrakk> \<Longrightarrow> \<not> tagged (cache_cfg c) (get_line i v c) pa"
    "find_way c pa = Some w \<longleftrightarrow> ln_valid (get_line i w c)"
    "ln_valid (get_line i w c) \<Longrightarrow> tagged (cache_cfg c) (get_line i w c) pa"
proof -
  show i: "i < NUM_SETS (cache_cfg c)" and w: "w < ASSOCIATIVITY (cache_cfg c)"
    and ii: "i = IndexByPhysicalAddress (cache_cfg c) pa"
    using assms(1) cache_wfD(1) [OF assms(2)] by (auto simp: fillable_def)
  show "line_ok k (cache_cfg c) i w (get_line i w c)" by (rule cache_wfD(5) [OF assms(2) i w])
  show "find_way c pa = Some w \<longleftrightarrow> ln_valid (get_line i w c)"
    using assms(1) find_wayD(2) [of c pa w] by (auto simp: fillable_def tagged_def)
  show "ln_valid (get_line i w c) \<Longrightarrow> tagged (cache_cfg c) (get_line i w c) pa"
    using assms(1) find_wayD(2) [of c pa w] by (auto simp: fillable_def)
  assume v: "v < ASSOCIATIVITY (cache_cfg c)" "v \<noteq> w"
  show "\<not> tagged (cache_cfg c) (get_line i v c) pa"
    using assms(1) v find_way_iff [OF assms(2) v(1), of pa] by (auto simp: fillable_def)
qed

lemma unat_mod_line_base:
  assumes ok: "cfg_ok k cf"
  shows "unat (LineBasePhysicalAddress cf pa) mod line_size cf = 0"
    and "unat (LineBasePhysicalAddress cf pa) div line_size cf mod NUM_SETS cf = IndexByPhysicalAddress cf pa"
  using cfg_ok_pos [OF ok]
  by (simp_all add: unat_LineBasePhysicalAddress [OF ok] minus_mod_eq_mult_div IndexByPhysicalAddress_def
      line_size_def div_mult2_eq)

lemma store_block_spec:
  fixes c :: "('a::len, 'p::len, 'at, 'r) cache"
  assumes wf: "cache_wf k c" and fl: "fillable c pa i w" and len: "length bs = BLOCK_SIZE (cache_cfg c)"
  defines "s \<equiv> SectorByPhysicalAddress (cache_cfg c) pa"
  shows "cache_wf k (store_block i w s bs c)"
    and "block_no (cache_cfg c) x \<noteq> block_no (cache_cfg c) pa \<Longrightarrow> block_at (store_block i w s bs c) x = block_at c x"
    and "find_way (store_block i w s bs c) x = find_way c x"
    and "fillable (store_block i w s bs c) pa i w"
    and "cache_cfg (store_block i w s bs c) = cache_cfg c"
    and "cache_enabled (store_block i w s bs c) = cache_enabled c"
    and "blk_storage (get_block i w s (store_block i w s bs c)) = bs"
proof -
  note d = fillableD [OF fl wf]
  have ok: "cfg_ok k (cache_cfg c)" by (rule cache_wfD(1) [OF wf])
  let ?l = "get_line i w c"
  have s: "s < BLOCKS_PER_LINE (cache_cfg c)" using ok by (simp add: s_def)
  have nb: "length (ln_blocks ?l) = BLOCKS_PER_LINE (cache_cfg c)" "length (blk_storage (ln_blocks ?l ! s)) = BLOCK_SIZE (cache_cfg c)"
    using d(4) s by (simp_all add: line_ok_def)
  let ?l' = "?l\<lparr>ln_blocks := (ln_blocks ?l)[s := (ln_blocks ?l ! s)\<lparr>blk_storage := bs\<rparr>]\<rparr>"
  have sb: "store_block i w s bs c = put_line i w ?l' c"
    using nb len by (simp add: store_block_def put_block_def get_block_def write_at_def)
  have lok: "line_ok k (cache_cfg c) i w ?l'"
    using d(4) s len nb(1) unfolding line_ok_def by (auto simp: nth_update_if)
  show wf': "cache_wf k (store_block i w s bs c)"
    unfolding sb
    by (rule put_line_wf [OF wf d(1,2) lok]) (use cache_wfD(6) [OF wf d(1) _ d(2)] in \<open>fastforce+\<close>)
  note wf2 = wf' [unfolded sb]
  have tg: "tagged cf ?l' y = tagged cf ?l y" for cf :: "('a, 'p, 'at, 'r) cache_config" and y
    by (simp add: tagged_def)
  have fw: "find_way c y = Some w \<longleftrightarrow> tagged (cache_cfg c) ?l y"
    if "IndexByPhysicalAddress (cache_cfg c) y = i" for y
    using find_way_iff [OF wf d(2), of y] that by simp
  show fws: "find_way (store_block i w s bs c) x = find_way c x" for x
    unfolding sb put_line_find_way [OF wf wf2 d(1,2)] tg using fw [of x] by auto
  show "cache_cfg (store_block i w s bs c) = cache_cfg c" "cache_enabled (store_block i w s bs c) = cache_enabled c"
    by (simp_all add: sb)
  show "blk_storage (get_block i w s (store_block i w s bs c)) = bs"
    using s nb get_line_put_line [OF wf d(1,2,1), of w ?l'] by (simp add: sb get_block_def)
  show "fillable (store_block i w s bs c) pa i w"
    using fl fws [of pa] get_line_put_line [OF wf d(1,2,1), of w ?l']
    unfolding fillable_def sb by (simp del: put_line_put_line) auto
  show "block_at (store_block i w s bs c) x = block_at c x"
    if nx: "block_no (cache_cfg c) x \<noteq> block_no (cache_cfg c) pa"
  proof (cases "IndexByPhysicalAddress (cache_cfg c) x = i \<and> tagged (cache_cfg c) ?l x")
    case True
    then have tx: "tagged (cache_cfg c) ?l pa" using d(7) by (simp add: tagged_def)
    have "SectorByPhysicalAddress (cache_cfg c) x \<noteq> s"
      using nx block_no_eq_iff [OF ok, of x pa] True tx by (auto simp: tagged_def s_def)
    then have "block_in (cache_cfg c) ?l' x = block_in (cache_cfg c) ?l x"
      by (simp add: block_in_def)
    then show ?thesis
      unfolding sb put_line_block_at [OF wf wf2 d(1,2)] tg using True fw [of x] by (auto simp: block_at_def)
  next
    case False
    then show ?thesis
      unfolding sb put_line_block_at [OF wf wf2 d(1,2)] tg using fw [of x] by auto
  qed
qed


lemma finish_fill_spec:
  fixes c :: "('a::len, 'p::len, 'at, 'r) cache"
  assumes wf: "cache_wf k c" and fl: "fillable c pa i w" and dec: "decoded k (cache_cfg c) pa a"
  defines "s \<equiv> SectorByPhysicalAddress (cache_cfg c) pa" and "c' \<equiv> finish_fill a w (SectorByPhysicalAddress (cache_cfg c) pa) c"
  shows "cache_wf k c'"
    and "block_at c' x = (if block_no (cache_cfg c) x = block_no (cache_cfg c) pa
           then Some (blk_storage (get_block i w s c), False) else block_at c x)"
    and "find_way c' pa = Some w"
    and "fillable c' pa i w"
    and "cache_cfg c' = cache_cfg c" and "cache_enabled c' = cache_enabled c"
    and "blk_storage (get_block i w s c') = blk_storage (get_block i w s c)"
proof -
  note d = fillableD [OF fl wf]
  have ok: "cfg_ok k (cache_cfg c)" by (rule cache_wfD(1) [OF wf])
  define cf where "cf = cache_cfg c"
  note ok = ok [folded cf_def] and d = d [folded cf_def]
  let ?l = "get_line i w c"
  define p where "p = LineBasePhysicalAddress cf pa"
  define l1 where "l1 = line_set_base_phys_addr cf p (line_set_base_addr cf (ucast (acc_line_base_addr a)) (?l\<lparr>ln_valid := True\<rparr>))"
  let ?l' = "l1\<lparr>ln_blocks := (ln_blocks l1)[s := (ln_blocks l1 ! s)\<lparr>blk_valid := True, blk_dirty := False\<rparr>]\<rparr>"
  have s: "s < BLOCKS_PER_LINE cf" using ok by (simp add: s_def cf_def)
  have ai: "acc_index a = i" "acc_line_base_phys_addr a = p"
    and ca: "congr k (ucast (acc_line_base_addr a) :: 'a word) p"
    using dec d(3) by (simp_all add: decoded_def cf_def p_def)
  have c': "c' = put_line i w ?l' c"
    using get_line_put_line [OF wf d(1,2) [unfolded cf_def] d(1) [unfolded cf_def], of w l1]
    by (simp add: c'_def finish_fill_def Let_def ai put_block_def get_block_def l1_def s_def cf_def)
  have l1: "ln_valid l1" "ln_next l1 = ln_next ?l" "ln_prev l1 = ln_prev ?l" "ln_way l1 = ln_way ?l" "ln_base_phys_addr l1 = p"
    by (simp_all add: l1_def)
  have bl: "length (ln_blocks l1) = BLOCKS_PER_LINE cf"
    using line_set_blocks(2) [OF s] by (simp add: l1_def)
  have blk: "ln_blocks l1 ! t = (ln_blocks ?l ! t)\<lparr>blk_base_addr := ucast (acc_line_base_addr a) + ucast (of_nat t * of_nat (BLOCK_SIZE cf) :: u32),
                      blk_base_phys_addr := p + ucast (of_nat t * of_nat (BLOCK_SIZE cf) :: u32)\<rparr>"
    if "t < BLOCKS_PER_LINE cf" for t
    using line_set_blocks(1) [OF that] by (simp add: l1_def)
  have p0: "unat p mod line_size cf = 0" "unat p div line_size cf mod NUM_SETS cf = i"
    using unat_mod_line_base [OF ok] d(3) by (simp_all add: p_def)
  have base: "unat (p + ucast (of_nat t * of_nat (BLOCK_SIZE cf) :: u32)) = unat p + t * BLOCK_SIZE cf"
    if "t < BLOCKS_PER_LINE cf" for t
    by (rule unat_add_sector [OF ok that p0(1)])
  have cg: "congr k (ucast (acc_line_base_addr a) + ucast (of_nat t * of_nat (BLOCK_SIZE cf) :: u32) :: 'a word)
      (p + ucast (of_nat t * of_nat (BLOCK_SIZE cf) :: u32))" if "t < BLOCKS_PER_LINE cf" for t
    unfolding congr_def base [OF that] unat_mod_add_sector [OF ok that]
    using ca unfolding congr_def by (metis mod_add_left_eq)
  have lok: "line_ok k cf i w ?l'"
    using d(4) l1 bl s p0 base cg unfolding line_ok_def by (auto simp: nth_update_if blk split: if_splits)
  show wf': "cache_wf k c'"
    unfolding c'
  proof (rule put_line_wf [OF wf d(1,2) [unfolded cf_def] lok [unfolded cf_def]])
    fix v assume v: "v < ASSOCIATIVITY (cache_cfg c)" "v \<noteq> w" "ln_valid (get_line i v c)"
    then show "ln_base_phys_addr (get_line i v c) \<noteq> ln_base_phys_addr ?l'"
      using d(5) [of v] l1(5) by (simp add: tagged_def cf_def p_def)
  qed (simp_all add: l1)
  note wf2 = wf' [unfolded c']
  have tg: "tagged cf ?l' y \<longleftrightarrow> LineBasePhysicalAddress cf y = p" for y
    using l1 by (auto simp: tagged_def)
  have fw: "find_way c y = Some w \<longleftrightarrow> tagged cf ?l y" if "IndexByPhysicalAddress cf y = i" for y
    using find_way_iff [OF wf d(2) [unfolded cf_def], of y] that by (simp add: cf_def)
  show fpa: "find_way c' pa = Some w"
    using d(3) tg [of pa] unfolding c' put_line_find_way [OF wf wf2 d(1,2) [unfolded cf_def]]
    by (simp add: cf_def p_def)
  show cfg: "cache_cfg c' = cache_cfg c" "cache_enabled c' = cache_enabled c" by (simp_all add: c')
  show "fillable c' pa i w" using fpa d(2,3) by (simp add: fillable_def cfg cf_def)
  show "blk_storage (get_block i w s c') = blk_storage (get_block i w s c)"
    using s bl blk [OF s] get_line_put_line [OF wf d(1,2,1) [unfolded cf_def], of w ?l']
    by (simp add: c' get_block_def)
  have bi: "block_in cf ?l' x = (if SectorByPhysicalAddress cf x = s then Some (blk_storage (get_block i w s c), False)
      else block_in cf ?l x)"
    using s bl blk [OF s] blk [of "SectorByPhysicalAddress cf x"] Sector_lt [OF ok, of x] by (simp add: block_in_def get_block_def Let_def)
  have blkno: "block_no cf x = block_no cf pa \<longleftrightarrow> LineBasePhysicalAddress cf x = p \<and> SectorByPhysicalAddress cf x = s"
    unfolding block_no_eq_iff [OF ok] by (simp add: s_def p_def cf_def)
  have old: "block_in cf ?l x = block_at c x" if e: "LineBasePhysicalAddress cf x = p"
  proof -
    have ix: "IndexByPhysicalAddress cf x = i"
      using same_line_index [OF ok, of x pa] e d(3) by (simp add: p_def)
    show ?thesis
    proof (cases "ln_valid ?l")
      case True
      then have "find_way c x = Some w" using fw [OF ix] d(7) e by (simp add: tagged_def p_def)
      then show ?thesis using ix by (simp add: block_at_def cf_def)
    next
      case False
      then have "find_way c pa = None" using fl d(6) by (auto simp: fillable_def)
      then have "find_way c x = None"
        using find_way_same_line [OF wf, of x pa] e by (simp add: cf_def p_def)
      moreover have "block_in cf ?l x = None"
        using d(4) False Sector_lt [OF ok, of x] by (simp add: line_ok_def block_in_def Let_def)
      ultimately show ?thesis by (simp add: block_at_def)
    qed
  qed
  show "block_at c' x = (if block_no (cache_cfg c) x = block_no (cache_cfg c) pa
           then Some (blk_storage (get_block i w s c), False) else block_at c x)"
  proof (cases "LineBasePhysicalAddress cf x = p")
    case True
    have "IndexByPhysicalAddress cf x = i"
      using same_line_index [OF ok, of x pa] True d(3) by (simp add: p_def)
    then show ?thesis
      using True blkno bi old tg [of x]
      unfolding c' put_line_block_at [OF wf wf2 d(1,2) [unfolded cf_def]] by (simp add: cf_def)
  next
    case False
    have "find_way c x \<noteq> Some w" if "IndexByPhysicalAddress cf x = i"
      using fw [OF that] False d(7) by (auto simp: tagged_def p_def)
    then show ?thesis
      using False blkno tg [of x]
      unfolding c' put_line_block_at [OF wf wf2 d(1,2) [unfolded cf_def]] by (auto simp: cf_def)
  qed
qed

end
