(* ===== verification/Cache_View.thy ===== *)
theory Cache_View
  imports Cache_Fill
begin

text \<open>
  Address segments: the bytes an access covers, how they lie inside a block, and the base
  address that a well-formed line stores in its blocks.
\<close>

section \<open>Address segments\<close>

definition seg_fits :: "('a::len, 'p::len, 'at, 'r) cache_config \<Rightarrow> 'p word \<Rightarrow> nat \<Rightarrow> bool" where
  "seg_fits cf pa n \<longleftrightarrow> block_off cf pa + n \<le> BLOCK_SIZE cf"

lemma block_size_dvd:
  assumes "cfg_ok k (cf :: ('a::len, 'p::len, 'at, 'r) cache_config)"
  shows "BLOCK_SIZE cf dvd 2 ^ LENGTH('p)"
  using line_size_le(2) [OF assms] by (auto simp: line_size_def intro: dvd_mult_left)

lemma seg_fits_bound:
  fixes cf :: "('a::len, 'p::len, 'at, 'r) cache_config"
  assumes ok: "cfg_ok k cf" and f: "seg_fits cf pa n"
  shows "unat pa + n \<le> 2 ^ LENGTH('p)"
proof -
  obtain m where m: "2 ^ LENGTH('p) = BLOCK_SIZE cf * m" using block_size_dvd [OF ok] by (elim dvdE)
  have "unat pa < BLOCK_SIZE cf * m" using unsigned_less [of pa, where 'a = nat] m by simp
  then have "unat pa div BLOCK_SIZE cf < m" by (simp add: less_mult_imp_div_less mult.commute)
  then have "BLOCK_SIZE cf * Suc (unat pa div BLOCK_SIZE cf) \<le> BLOCK_SIZE cf * m" by (intro mult_le_mono2) simp
  then have "BLOCK_SIZE cf * (unat pa div BLOCK_SIZE cf) + BLOCK_SIZE cf \<le> 2 ^ LENGTH('p)" by (simp add: m)
  moreover have "unat pa = BLOCK_SIZE cf * (unat pa div BLOCK_SIZE cf) + block_off cf pa"
    by (simp add: block_off_def)
  ultimately show ?thesis using f by (simp add: seg_fits_def)
qed

lemma in_seg_block:
  assumes ok: "cfg_ok k cf" and f: "seg_fits cf pa n" and x: "in_seg pa n x"
  shows "block_no cf x = block_no cf pa" and "block_off cf x = block_off cf pa + (unat x - unat pa)"
proof -
  let ?b = "BLOCK_SIZE cf"
  have e: "unat x = ?b * (unat pa div ?b) + (block_off cf pa + (unat x - unat pa))"
    using x mult_div_mod_eq [of ?b "unat pa"] unfolding in_seg_def block_off_def by linarith
  have l: "block_off cf pa + (unat x - unat pa) < ?b" using f x unfolding seg_fits_def in_seg_def by linarith
  show "block_no cf x = block_no cf pa" unfolding block_no_def using e l by (metis div_mult_self4 div_less add_0 
        cfg_ok_pos(1) [OF ok] gr_implies_not0 add.right_neutral)
  show "block_off cf x = block_off cf pa + (unat x - unat pa)" 
    using e l unfolding block_off_def [of cf x] by (metis mod_mult_self4 mod_less)
qed

text \<open>A block is the segment from its base address.\<close>

lemma in_seg_whole_block:
  assumes "cfg_ok k cf"
  shows "in_seg (BlockBasePhysicalAddress cf pa) (BLOCK_SIZE cf) x \<longleftrightarrow> block_no cf x = block_no cf pa"
proof -
  let ?b = "BLOCK_SIZE cf"
  have b: "0 < ?b" by (rule cfg_ok_pos(1) [OF assms])
  have u: "unat (BlockBasePhysicalAddress cf pa) = ?b * (unat pa div ?b)"
    by (simp add: unat_BlockBasePhysicalAddress [OF assms] minus_mod_eq_mult_div)
  have "unat x div ?b = unat pa div ?b \<longleftrightarrow> ?b * (unat pa div ?b) \<le> unat x \<and> unat x < ?b * (unat pa div ?b) + ?b"
    using b by (metis div_nat_eqI le_refl mult.commute mult_Suc_right div_times_less_eq_dividend dividend_less_div_times add.commute)
  then show ?thesis by (simp add: in_seg_def u block_no_def)
qed

lemma block_base_fits:
  assumes ok: "cfg_ok k cf" and ok': "cfg_ok k cf'" and d: "BLOCK_SIZE cf dvd BLOCK_SIZE cf'"
  shows "seg_fits cf' (BlockBasePhysicalAddress cf pa) (BLOCK_SIZE cf)"
proof -
  from d obtain m where m: "BLOCK_SIZE cf' = BLOCK_SIZE cf * m" by (elim dvdE)
  then have m0: "0 < m" using cfg_ok_pos(1) [OF ok'] by simp
  have "block_off cf' (BlockBasePhysicalAddress cf pa) = BLOCK_SIZE cf * (unat pa div BLOCK_SIZE cf mod m)"
    by (simp add: block_off_def unat_BlockBasePhysicalAddress [OF ok] minus_mod_eq_mult_div m mod_mult_mult1)
  moreover have "BLOCK_SIZE cf * Suc (unat pa div BLOCK_SIZE cf mod m) \<le> BLOCK_SIZE cf * m"
    using m0 by (intro mult_le_mono2) (simp add: Suc_leI)
  ultimately show ?thesis by (simp add: seg_fits_def m)
qed

lemma block_off_base [simp]:
  assumes "cfg_ok k cf"
  shows "block_off cf (BlockBasePhysicalAddress cf pa) = 0"
  using assms by (simp add: block_off_def unat_BlockBasePhysicalAddress minus_mod_eq_mult_div)

lemma block_no_base:
  assumes "cfg_ok k cf"
  shows "block_no cf (BlockBasePhysicalAddress cf pa) = block_no cf pa"
  using cfg_ok_pos(1) [OF assms] assms
  by (simp add: block_no_def unat_BlockBasePhysicalAddress minus_mod_eq_mult_div)

text \<open>The base address a well-formed line stores in its blocks.\<close>

lemma blk_base_of_line:
  fixes c :: "('a::len, 'p::len, 'at, 'r) cache"
  assumes wf: "cache_wf k c" and at: "way_at c pa i w"
  defines "b \<equiv> get_block i w (SectorByPhysicalAddress (cache_cfg c) pa) c"
  shows "blk_base_phys_addr b = BlockBasePhysicalAddress (cache_cfg c) pa"
    and "congr k (blk_base_addr b) (blk_base_phys_addr b)"
proof -
  define cf where "cf = cache_cfg c"
  have ok: "cfg_ok k cf" using cache_wfD(1) [OF wf] by (simp add: cf_def)
  note w = way_atD [OF at wf]
  have s: "SectorByPhysicalAddress cf pa < BLOCKS_PER_LINE cf" using ok by simp
  have l: "unat (blk_base_phys_addr b) = unat (LineBasePhysicalAddress cf pa) + SectorByPhysicalAddress cf pa * BLOCK_SIZE cf"
    and "congr k (blk_base_addr b) (blk_base_phys_addr b)"
    using w(3-5) s by (simp_all add: line_ok_def b_def get_block_def cf_def tagged_def)
  then show "congr k (blk_base_addr b) (blk_base_phys_addr b)" by simp
  let ?q = "unat pa div BLOCK_SIZE cf"
  have "unat (blk_base_phys_addr b) = BLOCK_SIZE cf * BLOCKS_PER_LINE cf * (?q div BLOCKS_PER_LINE cf) + ?q mod BLOCKS_PER_LINE cf * BLOCK_SIZE cf"
    unfolding l unat_LineBasePhysicalAddress [OF ok]
    by (simp only: minus_mod_eq_mult_div SectorByPhysicalAddress_def line_size_def div_mult2_eq)
  also have "\<dots> = BLOCK_SIZE cf * (BLOCKS_PER_LINE cf * (?q div BLOCKS_PER_LINE cf) + ?q mod BLOCKS_PER_LINE cf)"
    by (simp only: add_mult_distrib2 mult.assoc mult.commute [of "_ mod _" "BLOCK_SIZE cf"])
  also have "\<dots> = unat (BlockBasePhysicalAddress cf pa)"
    unfolding unat_BlockBasePhysicalAddress [OF ok] by (simp add: minus_mod_eq_mult_div)
  finally have "unat (blk_base_phys_addr b) = unat (BlockBasePhysicalAddress cf pa)" .
  then show "blk_base_phys_addr b = BlockBasePhysicalAddress (cache_cfg c) pa"
    by (simp add: word_unat_eq_iff cf_def)
qed

end
