(* ===== verification/Cache_Coherence.thy ===== *)
theory Cache_Coherence
  imports Cache_View
begin

text \<open>
  The coherence invariant of a hierarchy and the byte it holds at each address, the contract of
  the memory behind the bus, and the write back of one dirty block.
\<close>

section \<open>The memory behind the bus\<close>

text \<open>
  The overridable bus methods of \<open>MemorySubSystem\<close> are a parameter. This is the contract of a
  memory without failing accesses: \<open>view\<close> is the byte it holds at each address.
\<close>

locale memory_bus =
  fixes ops :: "('m, 'p::len, 'at) mss_ops" and view :: "'m \<Rightarrow> 'p word \<Rightarrow> u8"
  assumes bus_read: "unat pa + n \<le> 2 ^ LENGTH('p) \<Longrightarrow>
      \<exists>m'. DataBusRead ops pa n attr rw m = (Some (seg_read (view m) pa n), m') \<and> view m' = view m"
    and bus_fetch: "unat pa + n \<le> 2 ^ LENGTH('p) \<Longrightarrow>
      \<exists>m'. InstructionBusRead ops pa n attr m = (Some (seg_read (view m) pa n), m') \<and> view m' = view m"
    and bus_write: "unat pa + length bs \<le> 2 ^ LENGTH('p) \<Longrightarrow>
      \<exists>m'. DataBusWrite ops pa bs attr m = (True, m') \<and> view m' = seg_upd (view m) pa bs"

definition mem :: "('m \<Rightarrow> 'p::len word \<Rightarrow> u8) \<Rightarrow> ('m, 'p) mss \<Rightarrow> 'p word \<Rightarrow> u8" where
  "mem view ms = view (mss_bus ms)"

lemma mss_bus_shadow_write [simp]: "mss_bus (shadow_write a bs ms) = mss_bus ms"
  by (simp add: shadow_write_def)

context memory_bus
begin

lemma mss_read:
  assumes "unat pa + n \<le> 2 ^ LENGTH('p)"
  obtains ms' where "mss_DataBusRead ops pa n attr rw ms = (Some (seg_read (mem view ms) pa n), ms')"
    and "mem view ms' = mem view ms"
proof -
  from bus_read [OF assms, of attr rw "mss_bus ms"] obtain m'
    where "DataBusRead ops pa n attr rw (mss_bus ms) = (Some (seg_read (view (mss_bus ms)) pa n), m')"
      "view m' = view (mss_bus ms)" by blast
  then show thesis
    by (intro that [of "snd (mss_DataBusRead ops pa n attr rw ms)"]) (auto simp: mss_DataBusRead_def mem_def)
qed

lemma mss_fetch:
  assumes "unat pa + n \<le> 2 ^ LENGTH('p)"
  obtains ms' where "mss_InstructionBusRead ops pa n attr ms = (Some (seg_read (mem view ms) pa n), ms')"
    and "mem view ms' = mem view ms"
proof -
  from bus_fetch [OF assms, of attr "mss_bus ms"] obtain m'
    where "InstructionBusRead ops pa n attr (mss_bus ms) = (Some (seg_read (view (mss_bus ms)) pa n), m')"
      "view m' = view (mss_bus ms)" by blast
  then show thesis
    by (intro that [of "snd (mss_InstructionBusRead ops pa n attr ms)"]) (auto simp: mss_InstructionBusRead_def mem_def)
qed

lemma mss_write:
  assumes "unat pa + length bs \<le> 2 ^ LENGTH('p)"
  obtains ms' where "mss_DataBusWrite ops pa bs attr ms = (True, ms')"
    and "mem view ms' = seg_upd (mem view ms) pa bs"
proof -
  from bus_write [OF assms, of attr "mss_bus ms"] obtain m'
    where "DataBusWrite ops pa bs attr (mss_bus ms) = (True, m')"
      "view m' = seg_upd (view (mss_bus ms)) pa bs" by blast
  then show thesis
    by (intro that [of "snd (mss_DataBusWrite ops pa bs attr ms)"]) (auto simp: mss_DataBusWrite_def mem_def)
qed

end

section \<open>What a hierarchy holds\<close>

text \<open>
  The byte a hierarchy holds at an address: that of the first enabled level with the block, or
  of the memory.
\<close>

definition lview :: "('p::len word \<Rightarrow> u8) \<Rightarrow> ('a::len, 'p, 'at, 'r) cache \<Rightarrow> 'p word \<Rightarrow> u8" where
  "lview v c pa =
     (if cache_enabled c
      then case block_at c pa of Some (bs, d) \<Rightarrow> bs ! block_off (cache_cfg c) pa | None \<Rightarrow> v pa
      else v pa)"

fun hview ::
  "('m \<Rightarrow> 'p word \<Rightarrow> u8) \<Rightarrow> ('a::len, 'p::len, 'at, 'r) cache list \<Rightarrow> ('m, 'p) mss \<Rightarrow> 'p word \<Rightarrow> u8" where
  "hview view [] ms = mem view ms"
| "hview view (c # cs) ms = lview (hview view cs ms) c"

text \<open>
  The coherence invariant: every level is well formed; a clean block of an enabled level agrees
  with the levels below it; the block size of a level divides those below; only instruction
  caches are followed by levels that are not data caches.
\<close>

definition level_ok :: "('a::len, 'p::len, 'at, 'r) cache \<Rightarrow> ('a, 'p, 'at, 'r) cache \<Rightarrow> bool" where
  "level_ok c t \<longleftrightarrow> BLOCK_SIZE (cache_cfg c) dvd BLOCK_SIZE (cache_cfg t) \<and>
     (IsDataCache (cache_cfg c) \<longrightarrow> IsDataCache (cache_cfg t))"

definition clean_ok :: "('p::len word \<Rightarrow> u8) \<Rightarrow> ('a::len, 'p, 'at, 'r) cache \<Rightarrow> bool" where
  "clean_ok v c \<longleftrightarrow> (\<forall>pa bs. block_at c pa = Some (bs, False) \<longrightarrow> bs ! block_off (cache_cfg c) pa = v pa)"

fun hier_inv ::
  "nat \<Rightarrow> ('m \<Rightarrow> 'p word \<Rightarrow> u8) \<Rightarrow> ('a::len, 'p::len, 'at, 'r) cache list \<Rightarrow> ('m, 'p) mss \<Rightarrow> bool" where
  "hier_inv k view [] ms \<longleftrightarrow> True"
| "hier_inv k view (c # cs) ms \<longleftrightarrow>
     cache_wf k c \<and> (\<forall>t \<in> set cs. level_ok c t) \<and>
     (cache_enabled c \<longrightarrow> clean_ok (hview view cs ms) c) \<and> hier_inv k view cs ms"

definition same_shape :: "('a::len, 'p::len, 'at, 'r) cache list \<Rightarrow> ('a, 'p, 'at, 'r) cache list \<Rightarrow> bool" where
  "same_shape cs cs' \<longleftrightarrow>
     list_all2 (\<lambda>c c'. cache_cfg c' = cache_cfg c \<and> cache_enabled c' = cache_enabled c) cs cs'"

lemma same_shape_refl [simp]: "same_shape cs cs"
  by (simp add: same_shape_def list_all2_refl)

lemma same_shape_Cons [simp]:
  "same_shape (c # cs) (c' # cs') \<longleftrightarrow>
   cache_cfg c' = cache_cfg c \<and> cache_enabled c' = cache_enabled c \<and> same_shape cs cs'"
  by (simp add: same_shape_def)

lemma same_shape_Nil [simp]: "same_shape [] cs' \<longleftrightarrow> cs' = []" "same_shape cs [] \<longleftrightarrow> cs = []"
  by (auto simp: same_shape_def)

lemma same_shape_length: "same_shape cs cs' \<Longrightarrow> length cs' = length cs"
  by (simp add: same_shape_def list_all2_lengthD)

lemma same_shape_trans: "same_shape cs ds \<Longrightarrow> same_shape ds es \<Longrightarrow> same_shape cs es"
  by (auto simp: same_shape_def list_all2_conv_all_nth)

lemma same_shape_cfg: 
  assumes "same_shape cs cs'"
  shows "cache_cfg ` set cs' = cache_cfg ` set cs"
  using assms unfolding same_shape_def by (induction rule: list_all2_induct) auto

lemma same_shape_levels:
  assumes "same_shape cs cs'" and "\<forall>t \<in> set cs. level_ok c t" and "cache_cfg c' = cache_cfg c"
  shows "\<forall>t \<in> set cs'. level_ok c' t"
proof
  fix t assume "t \<in> set cs'"
  then have "cache_cfg t \<in> cache_cfg ` set cs" using same_shape_cfg [OF assms(1)] by auto
  then obtain u where "u \<in> set cs" "cache_cfg u = cache_cfg t" by auto
  then show "level_ok c' t" using assms(2,3) by (auto simp: level_ok_def)
qed

lemma level_ok_cfg: "cache_cfg c' = cache_cfg c \<Longrightarrow> level_ok c' = level_ok c"
  by (simp add: level_ok_def fun_eq_iff)

lemma lview_same_cache:
  assumes "same_cache c c'" and "cache_wf k c"
  shows "lview v c' = lview v c"
  using assms same_cache_block_at [OF assms]
  by (auto simp: same_cache_def lview_def fun_eq_iff split: option.split)

lemma clean_ok_same_cache:
  assumes "same_cache c c'" and "cache_wf k c"
  shows "clean_ok v c' = clean_ok v c"
  using assms same_cache_block_at [OF assms] by (auto simp: same_cache_def clean_ok_def)

lemma hier_inv_same_cache:
  assumes "same_cache c c'" and "cache_wf k c'" and "hier_inv k view (c # cs) ms"
  shows "hier_inv k view (c' # cs) ms"
proof -
  have wf: "cache_wf k c" and cf: "cache_cfg c' = cache_cfg c" "cache_enabled c' = cache_enabled c"
    using assms(1,3) by (auto simp: same_cache_def)
  show ?thesis
    using assms(2,3) same_shape_levels [of cs cs c c'] cf by (simp add: clean_ok_same_cache [OF assms(1) wf])
qed

section \<open>Writing back a block\<close>

lemma put_block_twice:
  fixes c :: "('a::len, 'p::len, 'at, 'r) cache"
  assumes "cache_wf k c" and "way_at c pa i w" and "s < BLOCKS_PER_LINE (cache_cfg c)"
  shows "put_block i w s b' (put_block i w s b c) = put_block i w s b' c"
    and "get_block i w s (put_block i w s b c) = b"
proof -
  note w = way_atD [OF assms(2,1)]
  have "length (ln_blocks (get_line i w c)) = BLOCKS_PER_LINE (cache_cfg c)" using w(4) by (simp add: line_ok_def)
  then show "put_block i w s b' (put_block i w s b c) = put_block i w s b' c"
    "get_block i w s (put_block i w s b c) = b"
    using assms(3) get_line_put_line [OF assms(1) w(1,2,1), of w]
    by (simp_all add: put_block_def get_block_def)
qed

lemma finish_write_back_idem:
  assumes "cache_wf k c" and "way_at c pa i w" and "s < BLOCKS_PER_LINE (cache_cfg c)"
  shows "finish_write_back invl i w s (finish_write_back invl i w s c) = finish_write_back invl i w s c"
  by (simp add: finish_write_back_def Let_def put_block_twice [OF assms] block_invalidate_def)

text \<open>The view after the bytes of a segment of a present block have been replaced.\<close>

lemma nth_write_at_seg:
  fixes cf :: "('a::len, 'b::len, 'at, 'r) cache_config"
  assumes ok: "cfg_ok k cf" and f: "seg_fits cf pa (length bs)" and l: "length st = BLOCK_SIZE cf"
    and x: "block_no cf x = block_no cf pa"
  shows "write_at st (block_off cf pa) bs ! block_off cf x =
    (if in_seg pa (length bs) x then bs ! (unat x - unat pa) else st ! block_off cf x)"
proof -
  have o: "block_off cf x < BLOCK_SIZE cf" using cfg_ok_pos(1) [OF ok] by (simp add: block_off_def)
  have "unat y = BLOCK_SIZE cf * block_no cf y + block_off cf y" for y :: "'b word"
    by (simp add: block_no_def block_off_def)
  note e = this [of x, unfolded x] this [of pa]
  have "block_off cf pa \<le> block_off cf x \<and> block_off cf x < block_off cf pa + length bs \<longleftrightarrow> in_seg pa (length bs) x"
    unfolding in_seg_def e(1) e(2) by simp
  moreover have "block_off cf x - block_off cf pa = unat x - unat pa" using e by linarith
  ultimately show ?thesis
    using f l o by (subst nth_write_at) (auto simp: seg_fits_def)
qed


lemma lview_store:
  fixes c :: "('a::len, 'p::len, 'at, 'r) cache"
  assumes wf: "cache_wf k c" and en: "cache_enabled c" "cache_enabled c'"
    and b: "block_at c pa = Some (st, d)" and f: "seg_fits (cache_cfg c) pa (length bs)"
    and st: "length st = BLOCK_SIZE (cache_cfg c)"
    and cf: "cache_cfg c' = cache_cfg c"
    and c': "\<And>x. block_at c' x = (if block_no (cache_cfg c) x = block_no (cache_cfg c) pa
          then Some (write_at st (block_off (cache_cfg c) pa) bs, d') else block_at c x)"
  shows "lview v c' = seg_upd (lview v c) pa bs"
    and "lview (seg_upd v pa bs) c' = seg_upd (lview v c) pa bs"
    and "clean_ok v c \<Longrightarrow> d' \<Longrightarrow> clean_ok v c'"
    and "clean_ok v c \<Longrightarrow> d' = d \<Longrightarrow> clean_ok (seg_upd v pa bs) c'"
proof -
  have ok: "cfg_ok k (cache_cfg c)" by (rule cache_wfD(1) [OF wf])
  have same: "block_at c x = Some (st, d)" if "block_no (cache_cfg c) x = block_no (cache_cfg c) pa" for x
    using block_at_same_block [OF wf that] b by simp
  have out: "\<not> in_seg pa (length bs) x" if "block_no (cache_cfg c) x \<noteq> block_no (cache_cfg c) pa" for x
    using in_seg_block(1) [OF ok f] that by blast
  note w = nth_write_at_seg [OF ok f st]
  show "lview v c' = seg_upd (lview v c) pa bs"
  proof
    fix x show "lview v c' x = seg_upd (lview v c) pa bs x"
      by (cases "block_no (cache_cfg c) x = block_no (cache_cfg c) pa")
        (simp_all add: lview_def en cf c' seg_upd_def out same w split: option.split)
  qed
  show "lview (seg_upd v pa bs) c' = seg_upd (lview v c) pa bs"
  proof
    fix x show "lview (seg_upd v pa bs) c' x = seg_upd (lview v c) pa bs x"
      by (cases "block_no (cache_cfg c) x = block_no (cache_cfg c) pa")
        (simp_all add: lview_def en cf c' seg_upd_def out same w split: option.split)
  qed
  show "clean_ok v c'" if "clean_ok v c" d'
    using that by (auto simp: clean_ok_def c' cf split: if_splits)
  show "clean_ok (seg_upd v pa bs) c'" if cl: "clean_ok v c" and d: "d' = d"
    unfolding clean_ok_def cf
  proof (intro allI impI)
    fix x ds assume x: "block_at c' x = Some (ds, False)"
    show "ds ! block_off (cache_cfg c) x = seg_upd v pa bs x"
    proof (cases "block_no (cache_cfg c) x = block_no (cache_cfg c) pa")
      case True
      then have "ds = write_at st (block_off (cache_cfg c) pa) bs" "\<not> d" using x d by (simp_all add: c')
      moreover have "st ! block_off (cache_cfg c) x = v x"
        using cl same [OF True] \<open>\<not> d\<close> by (simp add: clean_ok_def)
      ultimately show ?thesis using w [OF True] by (simp add: seg_upd_def)
    next
      case False
      then show ?thesis using x cl out [OF False] by (simp add: c' clean_ok_def seg_upd_def)
    qed
  qed
qed

text \<open>A level without the block is transparent to an update below it.\<close>

lemma lview_absent:
  fixes c :: "('a::len, 'p::len, 'at, 'r) cache"
  assumes wf: "cache_wf k c" and ab: "cache_enabled c \<Longrightarrow> block_at c pa = None"
    and f: "seg_fits (cache_cfg c) pa n"
  shows "in_seg pa n x \<Longrightarrow> lview v c x = v x"
    and "n = length bs \<Longrightarrow> lview (seg_upd v pa bs) c = seg_upd (lview v c) pa bs"
    and "n = length bs \<Longrightarrow> cache_enabled c \<Longrightarrow> clean_ok v c \<Longrightarrow> clean_ok (seg_upd v pa bs) c"
proof -
  have ok: "cfg_ok k (cache_cfg c)" by (rule cache_wfD(1) [OF wf])
  have none: "block_at c x = None" if "in_seg pa n x" "cache_enabled c" for x
    using block_at_same_block [OF wf in_seg_block(1) [OF ok f that(1)]] ab that(2) by simp
  show lv: "lview v c x = v x" if "in_seg pa n x" for x
    using none [OF that] by (simp add: lview_def)
  show "lview (seg_upd v pa bs) c = seg_upd (lview v c) pa bs" if "n = length bs"
    using none that by (auto simp: lview_def seg_upd_def fun_eq_iff split: option.split)
  show "clean_ok (seg_upd v pa bs) c" if "n = length bs" "cache_enabled c" "clean_ok v c"
    using none that by (fastforce simp: clean_ok_def seg_upd_def)
qed


lemma hier_inv_wf: "hier_inv k view cs ms \<Longrightarrow> c \<in> set cs \<Longrightarrow> cache_wf k c"
  by (induction cs) auto

lemma block_atD:
  fixes c :: "('a::len, 'p::len, 'at, 'r) cache"
  assumes wf: "cache_wf k c" and b: "block_at c pa = Some (st, d)"
  obtains w where "way_at c pa (IndexByPhysicalAddress (cache_cfg c) pa) w"
    and "blk_valid (get_block (IndexByPhysicalAddress (cache_cfg c) pa) w (SectorByPhysicalAddress (cache_cfg c) pa) c)"
    and "blk_storage (get_block (IndexByPhysicalAddress (cache_cfg c) pa) w (SectorByPhysicalAddress (cache_cfg c) pa) c) = st"
    and "blk_dirty (get_block (IndexByPhysicalAddress (cache_cfg c) pa) w (SectorByPhysicalAddress (cache_cfg c) pa) c) = d"
    and "length st = BLOCK_SIZE (cache_cfg c)" and "d \<Longrightarrow> IsDataCache (cache_cfg c)"
proof -
  let ?i = "IndexByPhysicalAddress (cache_cfg c) pa" and ?s = "SectorByPhysicalAddress (cache_cfg c) pa"
  from b obtain w where at: "way_at c pa ?i w" by (auto simp: block_at_def way_at_def split: option.splits)
  have s: "?s < BLOCKS_PER_LINE (cache_cfg c)" using cache_wfD(1) [OF wf] by simp
  have g: "blk_valid (get_block ?i w ?s c)" "blk_storage (get_block ?i w ?s c) = st" "blk_dirty (get_block ?i w ?s c) = d"
    using b block_at_way [OF at] by (auto simp: block_in_def Let_def get_block_def split: if_splits)
  have l: "length (blk_storage (get_block ?i w ?s c)) = BLOCK_SIZE (cache_cfg c)"
    "blk_valid (get_block ?i w ?s c) \<and> blk_dirty (get_block ?i w ?s c) \<Longrightarrow> IsDataCache (cache_cfg c)"
    using way_atD(4) [OF at wf] s by (auto simp: line_ok_def get_block_def)
  show thesis
    by (rule that [OF at g]) (use l g in auto)
qed

lemma hit_access:
  fixes c :: "('a::len, 'p::len, 'at, 'r) cache"
  assumes wf: "cache_wf k c" and l: "Lookup a0 c = (a, c1)" and cg: "congr k (acc_addr a0) (acc_phys_addr a0)"
    and b: "block_at c (acc_phys_addr a0) = Some (st, d)"
  defines "pa \<equiv> acc_phys_addr a0" and "i \<equiv> IndexByPhysicalAddress (cache_cfg c) (acc_phys_addr a0)"
    and "s \<equiv> SectorByPhysicalAddress (cache_cfg c) (acc_phys_addr a0)"
  obtains w where "acc_line a = Some w" "acc_block a = Some s" "acc_index a = i"
    "acc_offset a = block_off (cache_cfg c) pa"
    "acc_size_to_block_boundary a = BLOCK_SIZE (cache_cfg c) - block_off (cache_cfg c) pa"
    "way_at c1 pa i w" "blk_valid (get_block i w s c1)" "blk_storage (get_block i w s c1) = st"
    "blk_dirty (get_block i w s c1) = d"
proof -
  note L = Lookup_spec [OF wf cg l, folded pa_def]
  have cf1: "cache_cfg c1 = cache_cfg c" using L(1) by (simp add: same_cache_def)
  have b1: "block_at c1 pa = Some (st, d)"
    using b same_cache_block_at [OF L(1) wf] by (simp add: pa_def)
  obtain w where w: "way_at c1 pa i w" "blk_valid (get_block i w s c1)" "blk_storage (get_block i w s c1) = st"
    "blk_dirty (get_block i w s c1) = d"
    using block_atD [OF L(2) b1] unfolding cf1 pa_def [symmetric] i_def s_def by metis
  show thesis
    using L(3-5) w same_cache_find_way [OF L(1) wf] b unfolding decoded_def
    by (intro that [OF _ _ _ _ _ w]) (simp_all add: way_at_def i_def s_def pa_def)
qed

text \<open>Writing into a present block, as the store and the write back do.\<close>

lemma write_hit:
  fixes c :: "('a::len, 'p::len, 'at, 'r) cache"
  assumes wf: "cache_wf k c" and en: "cache_enabled c" and at: "way_at c pa i w" and b: "block_at c pa = Some (st, d)"
    and f: "seg_fits (cache_cfg c) pa (length bs)" and dd: "d' \<Longrightarrow> IsDataCache (cache_cfg c)"
  defines "s \<equiv> SectorByPhysicalAddress (cache_cfg c) pa"
  defines "c' \<equiv> put_block i w s ((get_block i w s c)\<lparr>blk_storage := write_at st (block_off (cache_cfg c) pa) bs, blk_dirty := d'\<rparr>) c"
  shows "cache_wf k c'" "cache_cfg c' = cache_cfg c" "cache_enabled c' = cache_enabled c"
    and "lview v c' = seg_upd (lview v c) pa bs"
    and "lview (seg_upd v pa bs) c' = seg_upd (lview v c) pa bs"
    and "clean_ok v c \<Longrightarrow> d' \<Longrightarrow> clean_ok v c'"
    and "clean_ok v c \<Longrightarrow> d' = d \<Longrightarrow> clean_ok (seg_upd v pa bs) c'"
proof -
  have st: "length st = BLOCK_SIZE (cache_cfg c)" and v: "blk_valid (get_block i w s c)"
    using block_atD [OF wf b] b block_at_way [OF at]
    by (metis, auto simp: block_in_def Let_def get_block_def s_def split: if_splits)
  let ?b = "(get_block i w s c)\<lparr>blk_storage := write_at st (block_off (cache_cfg c) pa) bs, blk_dirty := d'\<rparr>"
  have wl: "length (write_at st (block_off (cache_cfg c) pa) bs) = BLOCK_SIZE (cache_cfg c)"
    using f st by (simp add: seg_fits_def)
  have bb: "?b = (get_block i w (SectorByPhysicalAddress (cache_cfg c) pa) c)\<lparr>blk_valid := True, blk_dirty := d',
      blk_storage := write_at st (block_off (cache_cfg c) pa) bs\<rparr>"
    using v by (simp add: s_def)
  note P = put_block_spec [OF wf at bb wl, folded s_def, folded c'_def]
  show P': "cache_wf k c'" "cache_cfg c' = cache_cfg c" "cache_enabled c' = cache_enabled c" using P dd by auto
  have P2: "block_at c' x = (if block_no (cache_cfg c) x = block_no (cache_cfg c) pa
      then Some (write_at st (block_off (cache_cfg c) pa) bs, d') else block_at c x)" for x
    using P(2) dd by simp
  have en': "cache_enabled c'" using en P'(3) by simp
  note S = lview_store [OF wf en en' b f st P'(2) P2]
  show "lview v c' = seg_upd (lview v c) pa bs" "lview (seg_upd v pa bs) c' = seg_upd (lview v c) pa bs"
    "clean_ok v c \<Longrightarrow> d' \<Longrightarrow> clean_ok v c'" "clean_ok v c \<Longrightarrow> d' = d \<Longrightarrow> clean_ok (seg_upd v pa bs) c'"
    using S by blast+
qed

text \<open>A cache that misses the block, before and after the levels below it are updated.\<close>

lemma absent_level:
  fixes c :: "('a::len, 'p::len, 'at, 'r) cache"
  assumes inv: "hier_inv k view (c # cs) ms" and sc: "same_cache c c1" and wf1: "cache_wf k c1"
    and ab: "cache_enabled c \<Longrightarrow> block_at c pa = None" and f: "seg_fits (cache_cfg c) pa (length bs)"
    and post: "hier_inv k view cs' ms'" "same_shape cs cs'" "hview view cs' ms' = seg_upd (hview view cs ms) pa bs"
  shows "hier_inv k view (c1 # cs') ms'" and "hview view (c1 # cs') ms' = seg_upd (hview view (c # cs) ms) pa bs"
    and "same_shape (c # cs) (c1 # cs')"
proof -
  have wf: "cache_wf k c" using inv by simp
  have cf1: "cache_cfg c1 = cache_cfg c" "cache_enabled c1 = cache_enabled c" using sc by (simp_all add: same_cache_def)
  have en: "cache_enabled c \<Longrightarrow> cache_enabled c1" using cf1 by simp
  have ab1: "cache_enabled c1 \<Longrightarrow> block_at c1 pa = None"
    using ab cf1 same_cache_block_at [OF sc wf] by simp
  note A = lview_absent(2,3) [OF wf1 ab1 f [folded cf1(1)] refl]
  show "hview view (c1 # cs') ms' = seg_upd (hview view (c # cs) ms) pa bs"
    using A(1) post(3) lview_same_cache [OF sc wf] by simp
  show "hier_inv k view (c1 # cs') ms'"
    using A(2) post inv wf1 cf1 same_shape_levels [OF post(2) _ cf1(1)] clean_ok_same_cache [OF sc wf] by simp
  show "same_shape (c # cs) (c1 # cs')" using cf1 post(2) by simp
qed

lemma WriteBackDirtyBlock_spec:
  fixes f :: "('a::len, 'p::len, 'at, 'r) cache" and ops :: "('m, 'p, 'at) mss_ops"
  assumes bus: "memory_bus ops view" and wf: "cache_wf k f" and at: "way_at f pa i w"
    and b: "block_at f pa = Some (st, d)"
  defines "s \<equiv> SectorByPhysicalAddress (cache_cfg f) pa"
    and "bp \<equiv> BlockBasePhysicalAddress (cache_cfg f) pa"
  assumes inv: "hier_inv k view ts ms"
    and lev: "\<forall>t \<in> set ts. BLOCK_SIZE (cache_cfg f) dvd BLOCK_SIZE (cache_cfg t) \<and> IsDataCache (cache_cfg t)"
  shows "\<exists>ts' ms'. WriteBackDirtyBlock ops invl i w s f ts ms = Some (True, finish_write_back invl i w s f, ts', ms') \<and>
    hier_inv k view ts' ms' \<and> same_shape ts ts' \<and> hview view ts' ms' = seg_upd (hview view ts ms) bp st"
  using inv lev
proof (induction ts arbitrary: ms)
  have ok: "cfg_ok k (cache_cfg f)" by (rule cache_wfD(1) [OF wf])
  from block_atD [OF wf b] have st: "length st = BLOCK_SIZE (cache_cfg f)" by metis
  have gb: "blk_storage (get_block i w s f) = st"
    using b block_at_way [OF at] by (auto simp: block_in_def Let_def get_block_def s_def split: if_splits)
  have gp: "blk_base_phys_addr (get_block i w s f) = bp" "congr k (blk_base_addr (get_block i w s f)) bp"
    using blk_base_of_line [OF wf at] by (simp_all add: s_def bp_def)
  {
    case Nil
    have "unat bp + length st \<le> 2 ^ LENGTH('p)"
      unfolding bp_def st by (rule seg_fits_bound [OF ok]) (rule block_base_fits [OF ok ok dvd_refl])
    from memory_bus.mss_write [OF bus this, of "default_attr ops" ms] obtain ms'
      where "mss_DataBusWrite ops bp st (default_attr ops) ms = (True, ms')" "mem view ms' = seg_upd (mem view ms) bp st" .
    then show ?case by (simp add: gb gp Let_def)
  next
    case (Cons t ts)
    from Cons.prems have wft: "cache_wf k t" and dt: "IsDataCache (cache_cfg t)"
      and dv: "BLOCK_SIZE (cache_cfg f) dvd BLOCK_SIZE (cache_cfg t)" by simp_all
    from Cons.IH [of ms] Cons.prems obtain ts' ms'
      where ih: "WriteBackDirtyBlock ops invl i w s f ts ms = Some (True, finish_write_back invl i w s f, ts', ms')"
        "hier_inv k view ts' ms'" "same_shape ts ts'" "hview view ts' ms' = seg_upd (hview view ts ms) bp st" by auto
    have sl: "s < BLOCKS_PER_LINE (cache_cfg f)" using ok by (simp add: s_def)
    note idem = finish_write_back_idem [OF wf at sl]
    have fits: "seg_fits (cache_cfg t) bp (length st)"
      unfolding bp_def st by (rule block_base_fits [OF ok cache_wfD(1) [OF wft] dv])
    define a0 where "a0 = access_init (blk_base_addr (get_block i w s f)) (blk_base_phys_addr (get_block i w s f)) (default_attr ops) False"
    have a0: "acc_phys_addr a0 = bp" "congr k (acc_addr a0) (acc_phys_addr a0)"
      using gp by (simp_all add: a0_def access_init_def)
    obtain ta t1 where lk: "Lookup a0 t = (ta, t1)" by fastforce
    note L = Lookup_spec [OF wft a0(2) lk, unfolded a0(1)]
    show ?case
    proof (cases "cache_enabled t \<and> block_at t bp \<noteq> None")
      case False
      define t2 where "t2 = (if cache_enabled t then t1 else t)"
      have "WriteBackDirtyBlock ops invl i w s f (t # ts) ms = Some (True, finish_write_back invl i w s f, t2 # ts', ms')"
        using lk ih(1) False L(5) by (auto simp: Let_def a0_def [symmetric] idem t2_def split: option.split)
      moreover have "same_cache t t2" "cache_wf k t2" using L(1,2) wft by (simp_all add: t2_def)
      note absent_level [OF Cons.prems(1) this _ fits ih(2-4)]
      ultimately show ?thesis using False by blast
    next
      case True
      then obtain tst td where tb: "block_at t (acc_phys_addr a0) = Some (tst, td)" using a0(1) by auto
      obtain tw where H: "acc_line ta = Some tw" "acc_block ta = Some (SectorByPhysicalAddress (cache_cfg t) bp)"
        "acc_index ta = IndexByPhysicalAddress (cache_cfg t) bp" "acc_offset ta = block_off (cache_cfg t) bp"
        "acc_size_to_block_boundary ta = BLOCK_SIZE (cache_cfg t) - block_off (cache_cfg t) bp"
        "way_at t1 bp (IndexByPhysicalAddress (cache_cfg t) bp) tw"
        "blk_storage (get_block (IndexByPhysicalAddress (cache_cfg t) bp) tw (SectorByPhysicalAddress (cache_cfg t) bp) t1) = tst"
        using hit_access [OF wft lk a0(2) tb, unfolded a0(1)] by metis
      have cf1: "cache_cfg t1 = cache_cfg t" "cache_enabled t1" using L(1) True by (simp_all add: same_cache_def)
      have tb1: "block_at t1 bp = Some (tst, td)" using tb a0(1) same_cache_block_at [OF L(1) wft] by simp
      have room: "BLOCK_SIZE (cache_cfg f) \<le> BLOCK_SIZE (cache_cfg t) - block_off (cache_cfg t) bp"
        using fits st by (simp add: seg_fits_def)
      note W = write_hit [OF L(2) cf1(2) H(6) tb1 fits [folded cf1(1)] dt [folded cf1(1)], unfolded cf1(1)]
      show ?thesis
        using lk room Cons.prems True W(1-4,6) cf1 lview_same_cache [OF L(1) wft] clean_ok_same_cache [OF L(1) wft]
        by (simp add: Let_def a0_def [symmetric] H gb level_ok_cfg [OF W(2)])
    qed
  }
qed

end
