(* ===== verification/Cache_Eviction.thy ===== *)
theory Cache_Eviction
  imports Cache_Coherence
begin

text \<open>
  Writing back and evicting a line: whatever line the replacement policy chooses, the hierarchy
  holds the same bytes afterwards and the line is free.
\<close>

section \<open>Writing back a line\<close>

definition no_dirty :: "('a::len, 'p::len, 'at, 'r) cache \<Rightarrow> nat \<Rightarrow> nat \<Rightarrow> nat set \<Rightarrow> bool" where
  "no_dirty c i w S \<longleftrightarrow>
     (\<forall>x st. way_at c x i w \<longrightarrow> SectorByPhysicalAddress (cache_cfg c) x \<in> S \<longrightarrow> block_at c x \<noteq> Some (st, True))"

lemma sector_address:
  fixes c :: "('a::len, 'p::len, 'at, 'r) cache"
  assumes wf: "cache_wf k c" and i: "i < NUM_SETS (cache_cfg c)" and w: "w < ASSOCIATIVITY (cache_cfg c)"
    and v: "ln_valid (get_line i w c)" and s: "s < BLOCKS_PER_LINE (cache_cfg c)"
  obtains pa where "way_at c pa i w" and "SectorByPhysicalAddress (cache_cfg c) pa = s"
proof -
  define cf where "cf = cache_cfg c"
  have ok: "cfg_ok k cf" using cache_wfD(1) [OF wf] by (simp add: cf_def)
  let ?l = "get_line i w c"
  define pa where "pa = blk_base_phys_addr (ln_blocks ?l ! s)"
  have l: "unat (ln_base_phys_addr ?l) mod line_size cf = 0"
    "unat (ln_base_phys_addr ?l) div line_size cf mod NUM_SETS cf = i"
    and pa: "unat pa = unat (ln_base_phys_addr ?l) + s * BLOCK_SIZE cf"
    using cache_wfD(5) [OF wf i w] v s by (simp_all add: line_ok_def cf_def pa_def)
  define q where "q = unat (ln_base_phys_addr ?l) div line_size cf"
  have q: "unat (ln_base_phys_addr ?l) = q * line_size cf" using l(1) by (auto simp: q_def)
  have u: "unat pa = BLOCK_SIZE cf * (BLOCKS_PER_LINE cf * q + s)"
    by (simp add: pa q line_size_def algebra_simps)
  have d: "unat pa div BLOCK_SIZE cf = BLOCKS_PER_LINE cf * q + s" using cfg_ok_pos(1) [OF ok] by (simp add: u)
  have s': "s < BLOCKS_PER_LINE cf" using s by (simp add: cf_def)
  have sec: "SectorByPhysicalAddress cf pa = s" using s' by (simp add: SectorByPhysicalAddress_def d)
  have ind: "IndexByPhysicalAddress cf pa = i"
    using s' l(2) cfg_ok_pos(2) [OF ok] by (simp add: IndexByPhysicalAddress_def d q_def)
  have lt: "s * BLOCK_SIZE cf < line_size cf"
    using sector_offset_lt [OF ok s'] cfg_ok_pos(1) [OF ok] by linarith
  have "unat pa mod line_size cf = s * BLOCK_SIZE cf" using lt by (simp add: pa q)
  then have "LineBasePhysicalAddress cf pa = ln_base_phys_addr ?l"
    by (simp add: word_unat_eq_iff unat_LineBasePhysicalAddress [OF ok] pa)
  then have "tagged cf (get_line (IndexByPhysicalAddress cf pa) w c) pa" using v ind by (simp add: tagged_def)
  then have "find_way c pa = Some w" using find_way_iff [OF wf w, of pa] by (simp add: cf_def)
  then show thesis using that [of pa] sec ind by (simp add: way_at_def cf_def)
qed

lemma same_way_block:
  assumes wf: "cache_wf k c" and "way_at c x i w" "way_at c y i w"
    and "SectorByPhysicalAddress (cache_cfg c) x = SectorByPhysicalAddress (cache_cfg c) y"
  shows "block_no (cache_cfg c) x = block_no (cache_cfg c) y"
  using way_atD(3) [OF assms(2) wf] way_atD(3) [OF assms(3) wf] assms(4)
  by (simp add: block_no_eq_iff [OF cache_wfD(1) [OF wf]] tagged_def)

text \<open>One block of the line written back: nothing the hierarchy holds changes.\<close>

lemma clean_block_level:
  fixes c :: "('a::len, 'p::len, 'at, 'r) cache"
  assumes inv: "hier_inv k view (c # cs) ms" and en: "cache_enabled c"
    and b: "block_at c pa = Some (st, d)" and wf': "cache_wf k c'"
    and c': "cache_cfg c' = cache_cfg c" "cache_enabled c' = cache_enabled c"
    and at': "\<And>x. block_at c' x = (if block_no (cache_cfg c) x = block_no (cache_cfg c) pa
          then if invl then None else Some (st, False) else block_at c x)"
    and post: "hier_inv k view cs' ms'" "same_shape cs cs'"
      "hview view cs' ms' = seg_upd (hview view cs ms) (BlockBasePhysicalAddress (cache_cfg c) pa) st"
  shows "hier_inv k view (c' # cs') ms'" and "hview view (c' # cs') ms' = hview view (c # cs) ms"
    and "same_shape (c # cs) (c' # cs')"
proof -
  let ?cf = "cache_cfg c" and ?v = "hview view cs ms" and ?bp = "BlockBasePhysicalAddress (cache_cfg c) pa"
  have wf: "cache_wf k c" and lv: "\<forall>t \<in> set cs. level_ok c t" and cl: "clean_ok ?v c" using inv en by simp_all
  have ok: "cfg_ok k ?cf" by (rule cache_wfD(1) [OF wf])
  have st: "length st = BLOCK_SIZE ?cf" using block_atD [OF wf b] by metis
  have seg: "in_seg ?bp (length st) x \<longleftrightarrow> block_no ?cf x = block_no ?cf pa" for x
    using in_seg_whole_block [OF ok] st by simp
  have same: "block_at c x = Some (st, d)" if "block_no ?cf x = block_no ?cf pa" for x
    using block_at_same_block [OF wf that] b by simp
  have off: "unat x - unat ?bp = block_off ?cf x" if "block_no ?cf x = block_no ?cf pa" for x
    using in_seg_block(2) [OF ok block_base_fits [OF ok ok dvd_refl], of pa x] seg [of x] that ok st by simp
  have upd: "seg_upd ?v ?bp st x = (if block_no ?cf x = block_no ?cf pa then st ! block_off ?cf x else ?v x)" for x
    using off [of x] by (simp add: seg_upd_def seg)
  have lv': "lview (seg_upd ?v ?bp st) c' x = lview ?v c x" for x
    using en c' by (cases "block_no ?cf x = block_no ?cf pa") (simp_all add: lview_def at' upd same split: option.split)
  then have "lview (seg_upd ?v ?bp st) c' = lview ?v c" by (rule ext)
  then show "hview view (c' # cs') ms' = hview view (c # cs) ms" using post(3) by simp
  have "clean_ok (seg_upd ?v ?bp st) c'"
    using cl unfolding clean_ok_def c' at' upd by (auto split: if_splits)
  then show "hier_inv k view (c' # cs') ms'"
    using wf' same_shape_levels [OF post(2) lv c'(1)] post(1,3) by simp
  show "same_shape (c # cs) (c' # cs')" using c' post(2) by simp
qed

lemma write_back_step:
  fixes f :: "('a::len, 'p::len, 'at, 'r) cache" and ops :: "('m, 'p, 'at) mss_ops"
  assumes bus: "memory_bus ops view" and inv: "hier_inv k view (f # cs) ms" and en: "cache_enabled f"
    and at: "way_at f pa i w" and s: "s = SectorByPhysicalAddress (cache_cfg f) pa"
    and vd: "blk_valid (get_block i w s f)" "blk_dirty (get_block i w s f)" and nd: "no_dirty f i w S"
  shows "\<exists>f' cs' ms'. WriteBackDirtyBlock ops invl i w s f cs ms = Some (True, f', cs', ms') \<and>
    hier_inv k view (f' # cs') ms' \<and> hview view (f' # cs') ms' = hview view (f # cs) ms \<and>
    same_shape (f # cs) (f' # cs') \<and> find_way f' = find_way f \<and> no_dirty f' i w (insert s S)"
proof -
  have wf: "cache_wf k f" and lv: "\<forall>t \<in> set cs. level_ok f t" and invs: "hier_inv k view cs ms" using inv by simp_all
  let ?st = "blk_storage (get_block i w s f)"
  have b: "block_at f pa = Some (?st, True)"
    using vd block_at_way [OF at] by (simp add: block_in_def Let_def get_block_def s)
  then have "IsDataCache (cache_cfg f)" using block_atD [OF wf b] by metis
  then have lev: "\<forall>t \<in> set cs. BLOCK_SIZE (cache_cfg f) dvd BLOCK_SIZE (cache_cfg t) \<and> IsDataCache (cache_cfg t)"
    using lv by (auto simp: level_ok_def)
  let ?f = "finish_write_back invl i w s f"
  from WriteBackDirtyBlock_spec [OF bus wf at b invs lev, folded s] obtain cs' ms'
    where e: "WriteBackDirtyBlock ops invl i w s f cs ms = Some (True, ?f, cs', ms')"
      and post: "hier_inv k view cs' ms'" "same_shape cs cs'"
        "hview view cs' ms' = seg_upd (hview view cs ms) (BlockBasePhysicalAddress (cache_cfg f) pa) ?st" by blast
  note F = finish_write_back_spec [OF wf at b, folded s]
  note C = clean_block_level [OF inv en b F(1,4,5,2) post]
  have "find_way ?f = find_way f" using F(3) by (simp add: fun_eq_iff)
  moreover have "no_dirty ?f i w (insert s S)"
    unfolding no_dirty_def
  proof (intro allI impI)
    fix x st assume x: "way_at ?f x i w" "SectorByPhysicalAddress (cache_cfg ?f) x \<in> insert s S"
    have wx: "way_at f x i w" using x(1) F(3,4) by (simp add: way_at_def)
    show "block_at ?f x \<noteq> Some (st, True)"
      using nd wx x(2) same_way_block [OF wf wx at] F(2,4) s by (auto simp: no_dirty_def split: if_splits)
  qed
  ultimately show ?thesis using e C by blast
qed

lemma write_back_sectors_spec:
  fixes f :: "('a::len, 'p::len, 'at, 'r) cache" and ops :: "('m, 'p, 'at) mss_ops"
  assumes bus: "memory_bus ops view"
  shows "\<lbrakk>hier_inv k view (f # cs) ms; cache_enabled f; i < NUM_SETS (cache_cfg f); w < ASSOCIATIVITY (cache_cfg f);
      ln_valid (get_line i w f); set ss \<subseteq> {..<BLOCKS_PER_LINE (cache_cfg f)}; no_dirty f i w S\<rbrakk> \<Longrightarrow>
    \<exists>f' cs' ms'. write_back_sectors ops invl i w ss f cs ms = Some (True, f', cs', ms') \<and>
    hier_inv k view (f' # cs') ms' \<and> hview view (f' # cs') ms' = hview view (f # cs) ms \<and>
    same_shape (f # cs) (f' # cs') \<and> find_way f' = find_way f \<and> ln_valid (get_line i w f') \<and>
    no_dirty f' i w (set ss \<union> S)"
proof (induction ss arbitrary: f cs ms S)
  case Nil
  then show ?case by simp
next
  case (Cons s ss)
  have wf: "cache_wf k f" using Cons.prems(1) by simp
  from Cons.prems(6) have s: "s < BLOCKS_PER_LINE (cache_cfg f)" and ss: "set ss \<subseteq> {..<BLOCKS_PER_LINE (cache_cfg f)}" by auto
  obtain pa where pa: "way_at f pa i w" "SectorByPhysicalAddress (cache_cfg f) pa = s"
    by (rule sector_address [OF wf Cons.prems(3-5) s])
  show ?case
  proof (cases "blk_valid (get_block i w s f) \<and> blk_dirty (get_block i w s f)")
    case True
    from write_back_step [OF bus Cons.prems(1,2) pa(1) pa(2) [symmetric] _ _ Cons.prems(7), of invl] True
    obtain f1 cs1 ms1 where e: "WriteBackDirtyBlock ops invl i w s f cs ms = Some (True, f1, cs1, ms1)"
      and h: "hier_inv k view (f1 # cs1) ms1" "hview view (f1 # cs1) ms1 = hview view (f # cs) ms"
        "same_shape (f # cs) (f1 # cs1)" "find_way f1 = find_way f" "no_dirty f1 i w (insert s S)" by blast
    have cf: "cache_cfg f1 = cache_cfg f" "cache_enabled f1" using h(3) Cons.prems(2) by simp_all
    have wf1: "cache_wf k f1" using h(1) by simp
    have "way_at f1 pa i w" using pa(1) h(4) cf by (simp add: way_at_def)
    from way_atD(5) [OF this wf1] have v: "ln_valid (get_line i w f1)" .
    from Cons.IH [OF h(1) cf(2) _ _ v _ h(5), unfolded cf, OF Cons.prems(3,4) ss]
    show ?thesis using e h same_shape_trans True cf by (fastforce simp: Let_def)
  next
    case False
    have "no_dirty f i w (insert s S)"
      unfolding no_dirty_def
    proof (intro allI impI)
      fix x st assume x: "way_at f x i w" "SectorByPhysicalAddress (cache_cfg f) x \<in> insert s S"
      show "block_at f x \<noteq> Some (st, True)"
        using x Cons.prems(7) False block_at_way [OF x(1)]
        by (auto simp: no_dirty_def block_in_def Let_def get_block_def)
    qed
    from Cons.IH [OF Cons.prems(1-5) ss this] show ?thesis using False by (auto simp: Let_def)
  qed
qed


lemma invalidate_clean_line:
  fixes c :: "('a::len, 'p::len, 'at, 'r) cache"
  assumes inv: "hier_inv k view (c # cs) ms" and en: "cache_enabled c"
    and i: "i < NUM_SETS (cache_cfg c)" and w: "w < ASSOCIATIVITY (cache_cfg c)"
    and nd: "\<And>x st. way_at c x i w \<Longrightarrow> block_at c x \<noteq> Some (st, True)"
  defines "c' \<equiv> invalidate_line_at i w c"
  shows "hier_inv k view (c' # cs) ms" and "hview view (c' # cs) ms = hview view (c # cs) ms"
    and "same_shape (c # cs) (c' # cs)" and "\<not> ln_valid (get_line i w c')"
    and "find_way c' x = (if way_at c x i w then None else find_way c x)"
proof -
  have wf: "cache_wf k c" and cl: "clean_ok (hview view cs ms) c" using inv en by simp_all
  note I = invalidate_line_spec [OF wf i w, folded c'_def]
  have "lview (hview view cs ms) c' = lview (hview view cs ms) c"
  proof
    fix x show "lview (hview view cs ms) c' x = lview (hview view cs ms) c x"
    proof (cases "way_at c x i w")
      case True
      then show ?thesis
        using nd [OF True] cl en I(2) [of x] I(5)
        by (cases "block_at c x") (auto simp: lview_def clean_ok_def)
    qed (use en I(2,4,5) in \<open>simp add: lview_def split: option.split\<close>)
  qed
  then show "hview view (c' # cs) ms = hview view (c # cs) ms" by simp
  have "clean_ok (hview view cs ms) c'"
    using cl I(4) unfolding clean_ok_def I(2) by (auto split: if_splits)
  then show "hier_inv k view (c' # cs) ms"
    using inv I(1) level_ok_cfg [OF I(4)] by simp
  show "same_shape (c # cs) (c' # cs)" using I(4,5) by simp
  show "\<not> ln_valid (get_line i w c')" "find_way c' x = (if way_at c x i w then None else find_way c x)"
    using I(3,6) by simp_all
qed

lemma WriteBackLine_spec:
  fixes f :: "('a::len, 'p::len, 'at, 'r) cache" and ops :: "('m, 'p, 'at) mss_ops"
  assumes bus: "memory_bus ops view" and inv: "hier_inv k view (f # cs) ms" and en: "cache_enabled f"
    and i: "i < NUM_SETS (cache_cfg f)" and w: "w < ASSOCIATIVITY (cache_cfg f)"
  shows "\<exists>f' cs' ms'. WriteBackLine ops invl i w f cs ms = Some (True, f', cs', ms') \<and>
    hier_inv k view (f' # cs') ms' \<and> hview view (f' # cs') ms' = hview view (f # cs) ms \<and>
    same_shape (f # cs) (f' # cs') \<and>
    (invl \<longrightarrow> \<not> ln_valid (get_line i w f')) \<and>
    (\<forall>x st. way_at f' x i w \<longrightarrow> block_at f' x \<noteq> Some (st, True)) \<and>
    (\<forall>x. find_way f' x = find_way f x \<or> find_way f' x = None)"
proof (cases "ln_valid (get_line i w f)")
  case False
  have "\<not> way_at f x i w" for x using False way_atD(5) [of f x i w k] inv by auto
  then show ?thesis using False inv by (simp add: WriteBackLine_def)
next
  case True
  have "no_dirty f i w {}" by (simp add: no_dirty_def)
  have sub: "set [0..<BLOCKS_PER_LINE (cache_cfg f)] \<subseteq> {..<BLOCKS_PER_LINE (cache_cfg f)}" by auto
  from write_back_sectors_spec [OF bus inv en i w True sub \<open>no_dirty f i w {}\<close>, of invl]
  obtain f1 cs1 ms1
    where e: "write_back_sectors ops invl i w [0..<BLOCKS_PER_LINE (cache_cfg f)] f cs ms = Some (True, f1, cs1, ms1)"
      and h: "hier_inv k view (f1 # cs1) ms1" "hview view (f1 # cs1) ms1 = hview view (f # cs) ms"
        "same_shape (f # cs) (f1 # cs1)" "find_way f1 = find_way f" "ln_valid (get_line i w f1)"
      and nd: "no_dirty f1 i w (set [0..<BLOCKS_PER_LINE (cache_cfg f)] \<union> {})" by blast
  have cf: "cache_cfg f1 = cache_cfg f" "cache_enabled f1" using h(3) en by simp_all
  have ok: "cfg_ok k (cache_cfg f)" using inv cache_wfD(1) [of k f] by simp
  have nd': "block_at f1 x \<noteq> Some (st, True)" if "way_at f1 x i w" for x st
    using nd that Sector_lt [OF ok, of x] by (simp add: no_dirty_def cf)
  show ?thesis
  proof (cases invl)
    case False
    then show ?thesis using True e h nd' by (simp add: WriteBackLine_def)
  next
    case invl: True
    note I = invalidate_clean_line [OF h(1) cf(2) i [folded cf(1)] w [folded cf(1)] nd']
    have "WriteBackLine ops invl i w f cs ms = Some (True, invalidate_line_at i w f1, cs1, ms1)"
      using True e h(5) invl by (simp add: WriteBackLine_def)
    moreover have "\<not> way_at (invalidate_line_at i w f1) x i w" for x
      using I(5) [of x] way_atD(5) [of _ x i w k] I(1,4) by auto
    moreover have "find_way (invalidate_line_at i w f1) x = find_way f x \<or> find_way (invalidate_line_at i w f1) x = None" for x
      using I(5) [of x] h(4) by simp
    ultimately show ?thesis using I(1-4) h(2,3) same_shape_trans by fastforce
  qed
qed

lemma EvictLine_spec:
  fixes f :: "('a::len, 'p::len, 'at, 'r) cache" and ops :: "('m, 'p, 'at) mss_ops"
  assumes bus: "memory_bus ops view" and inv: "hier_inv k view (f # cs) ms" and en: "cache_enabled f"
    and a: "acc_line_to_write_back_evict a = Some w" "acc_index a < NUM_SETS (cache_cfg f)"
    and w: "w < ASSOCIATIVITY (cache_cfg f)"
  shows "\<exists>f' cs' ms'. EvictLine ops a f cs ms =
      Some (True, a\<lparr>acc_line := Some w, acc_line_to_write_back_evict := None\<rparr>, f', cs', ms') \<and>
    hier_inv k view (f' # cs') ms' \<and> hview view (f' # cs') ms' = hview view (f # cs) ms \<and>
    same_shape (f # cs) (f' # cs') \<and> \<not> ln_valid (get_line (acc_index a) w f') \<and>
    (\<forall>x. find_way f x = None \<longrightarrow> find_way f' x = None)"
proof (cases "IsDataCache (cache_cfg f)")
  case True
  from WriteBackLine_spec [OF bus inv en a(2) w, of True] obtain f' cs' ms'
    where "WriteBackLine ops True (acc_index a) w f cs ms = Some (True, f', cs', ms')"
      "hier_inv k view (f' # cs') ms'" "hview view (f' # cs') ms' = hview view (f # cs) ms"
      "same_shape (f # cs) (f' # cs')" "\<not> ln_valid (get_line (acc_index a) w f')"
      and fw: "\<And>x. find_way f' x = find_way f x \<or> find_way f' x = None" by blast
  moreover have "find_way f' x = None" if "find_way f x = None" for x using fw [of x] that by simp
  ultimately show ?thesis using True by (simp add: EvictLine_def a(1) Let_def)
next
  case False
  have wf: "cache_wf k f" using inv by simp
  have nd: "block_at f x \<noteq> Some (st, True)" for x st
    using block_atD [OF wf, of x st True] False by metis
  show ?thesis
  proof (cases "ln_valid (get_line (acc_index a) w f)")
    case True
    then show ?thesis
      using False invalidate_clean_line [OF inv en a(2) w nd] by (auto simp: EvictLine_def a(1) Let_def)
  next
    case nv: False
    then show ?thesis using False inv by (auto simp: EvictLine_def a(1) Let_def)
  qed
qed

text \<open>The common start of the miss paths, whatever line the replacement policy chooses.\<close>

definition ready ::
  "nat \<Rightarrow> ('a::len, 'p::len, 'at, 'r) cache \<Rightarrow> 'p word \<Rightarrow> ('a, 'p, 'at) cache_access \<Rightarrow> bool" where
  "ready k c pa a \<longleftrightarrow>
     decoded k (cache_cfg c) pa a \<and>
     acc_block a = (if block_at c pa = None then None else Some (SectorByPhysicalAddress (cache_cfg c) pa)) \<and>
     (case acc_line a of
        None \<Rightarrow> block_at c pa = None
      | Some w \<Rightarrow> fillable c pa (IndexByPhysicalAddress (cache_cfg c) pa) w)"

lemma prepare_line_spec:
  fixes f :: "('a::len, 'p::len, 'at, 'r) cache" and ops :: "('m, 'p, 'at) mss_ops"
  assumes bus: "memory_bus ops view" and inv: "hier_inv k view (f # cs) ms" and en: "cache_enabled f"
    and a: "decoded k (cache_cfg f) pa a" "acc_line a = find_way f pa"
      "acc_block a = (if block_at f pa = None then None else Some (SectorByPhysicalAddress (cache_cfg f) pa))"
  shows "\<exists>a' f' cs' ms'. prepare_line ops a f cs ms = Some (True, a', f', cs', ms') \<and>
    hier_inv k view (f' # cs') ms' \<and> hview view (f' # cs') ms' = hview view (f # cs) ms \<and>
    same_shape (f # cs) (f' # cs') \<and> ready k f' pa a'"
proof (cases "find_way f pa")
  case (Some w)
  then have "fillable f pa (IndexByPhysicalAddress (cache_cfg f) pa) w"
    using find_wayD(1) by (auto simp: fillable_def)
  then show ?thesis using Some a inv by (simp add: prepare_line_def ready_def)
next
  case None
  have bn: "block_at f pa = None" by (simp add: block_at_def None)
  have wf: "cache_wf k f" using inv by simp
  have ok: "cfg_ok k (cache_cfg f)" by (rule cache_wfD(1) [OF wf])
  obtain o' r where ch: "ChooseLineToEvict (cache_cfg f) a (cache_policy f) = (o', r)" by fastforce
  let ?f = "f\<lparr>cache_policy := r\<rparr>"
  have sc: "same_cache f ?f" by (simp add: same_cache_def)
  have wf': "cache_wf k ?f" using wf by (simp add: cache_wf_def)
  have inv': "hier_inv k view (?f # cs) ms" by (rule hier_inv_same_cache [OF sc wf' inv])
  have hv: "hview view (?f # cs) ms = hview view (f # cs) ms" using lview_same_cache [OF sc wf] by simp
  have fw: "find_way ?f pa = None" "block_at ?f pa = None"
    using None bn same_cache_find_way [OF sc wf] same_cache_block_at [OF sc wf] by simp_all
  show ?thesis
  proof (cases o')
    case o: None
    then show ?thesis
      using a None bn fw inv' hv by (simp add: prepare_line_def choose_and_evict_def choose_line_def ch ready_def)
  next
    case (Some way)
    define w where "w = way mod ASSOCIATIVITY (cache_cfg f)"
    define a1 where "a1 = a\<lparr>acc_way := way, acc_line_to_write_back_evict := Some w\<rparr>"
    have w: "w < ASSOCIATIVITY (cache_cfg f)" using cfg_ok_pos(5) [OF ok] by (simp add: w_def)
    have i: "acc_index a1 = IndexByPhysicalAddress (cache_cfg f) pa" using a(1) by (simp add: a1_def decoded_def)
    from EvictLine_spec [OF bus inv', of a1 w] en i ok w obtain f' cs' ms' where e: "EvictLine ops a1 ?f cs ms =
        Some (True, a1\<lparr>acc_line := Some w, acc_line_to_write_back_evict := None\<rparr>, f', cs', ms')"
      and h: "hier_inv k view (f' # cs') ms'" "hview view (f' # cs') ms' = hview view (?f # cs) ms"
        "same_shape (?f # cs) (f' # cs')" "\<not> ln_valid (get_line (acc_index a1) w f')"
        "\<forall>x. find_way ?f x = None \<longrightarrow> find_way f' x = None"
      by (auto simp: a1_def)
    have cf: "cache_cfg f' = cache_cfg f" using h(3) by simp
    have n': "find_way f' pa = None" using h(5) fw by blast
    have "ready k f' pa (a1\<lparr>acc_line := Some w, acc_line_to_write_back_evict := None\<rparr>)"
      using a n' h(4) w i bn by (simp add: ready_def cf fillable_def block_at_def a1_def decoded_def)
    moreover have "prepare_line ops a f cs ms = EvictLine ops a1 ?f cs ms"
      using None a(2) Some by (simp add: prepare_line_def choose_and_evict_def choose_line_def ch w_def a1_def)
    ultimately show ?thesis using e h hv by (auto simp: same_shape_def)
  qed
qed

end
