(* ===== verification/Cache_Access.thy ===== *)
theory Cache_Access
  imports Cache_Eviction
begin

text \<open>
  Filling a block from the levels below: the block arrives with the bytes the levels below hold,
  through disabled levels and locked sets as well.
\<close>

section \<open>Filling a block from the levels below\<close>

definition filled ::
  "nat \<Rightarrow> ('a::len, 'p::len, 'at, 'r) cache \<Rightarrow> ('a, 'p, 'at, 'r) cache \<Rightarrow> 'p word \<Rightarrow> nat \<Rightarrow> u8 list \<Rightarrow> bool" where
  "filled k c c' pa w bs \<longleftrightarrow>
     cache_wf k c' \<and> cache_cfg c' = cache_cfg c \<and> cache_enabled c' = cache_enabled c \<and> find_way c' pa = Some w \<and>
     (\<forall>x. block_at c' x = (if block_no (cache_cfg c) x = block_no (cache_cfg c) pa then Some (bs, False) else block_at c x))"

lemma filled_same_cache:
  assumes "filled k c c' pa w bs" and "same_cache c' c2" and "cache_wf k c2"
  shows "filled k c c2 pa w bs"
  using assms same_cache_find_way [OF assms(2), of k] same_cache_block_at [OF assms(2), of k]
  by (simp add: filled_def same_cache_def)

lemma same_cache_policy [simp]: "same_cache c (c\<lparr>cache_policy := r\<rparr>)"
  by (simp add: same_cache_def)

lemma cache_wf_policy [simp]: "cache_wf k (c\<lparr>cache_policy := r\<rparr>) = cache_wf k c"
  by (simp add: cache_wf_def)

lemma same_cache_updates [simp]:
  "same_cache c (update_on_fill a c)" "same_cache c (update_on_access a c)"
  "cache_wf k (update_on_fill a c) = cache_wf k c" "cache_wf k (update_on_access a c) = cache_wf k c"
  by (simp_all add: update_on_fill_def update_on_access_def)

lemma filled_finish:
  assumes wf: "cache_wf k c" and fl: "fillable c pa i w" and dec: "decoded k (cache_cfg c) pa a"
    and len: "length bs = BLOCK_SIZE (cache_cfg c)"
  defines "s \<equiv> SectorByPhysicalAddress (cache_cfg c) pa"
  shows "filled k c (finish_fill a w s (store_block i w s bs c)) pa w bs"
proof -
  note S = store_block_spec [OF wf fl len, folded s_def]
  note F = finish_fill_spec [OF S(1) S(4), unfolded S(5), OF dec, folded s_def]
  show ?thesis unfolding filled_def using S F by auto
qed

lemma filled_again:
  assumes wf: "cache_wf k c" and dec: "decoded k (cache_cfg c) pa a" and f: "filled k c c' pa w bs"
  defines "s \<equiv> SectorByPhysicalAddress (cache_cfg c) pa"
  shows "filled k c (finish_fill a w s (update_on_fill a' c')) pa w bs"
proof -
  let ?u = "update_on_fill a' c'" and ?i = "IndexByPhysicalAddress (cache_cfg c) pa"
  have u: "filled k c ?u pa w bs" using filled_same_cache [OF f same_cache_updates(1)] f by (simp add: filled_def)
  then have cf: "cache_cfg ?u = cache_cfg c" and wfu: "cache_wf k ?u" and fw: "find_way ?u pa = Some w"
    and bu: "block_at ?u pa = Some (bs, False)" by (simp_all add: filled_def)
  have at: "way_at ?u pa ?i w" using fw cf by (simp add: way_at_def)
  then have fl: "fillable ?u pa ?i w" using way_atD(2) [OF at wfu] by (simp add: fillable_def way_at_def)
  have st: "blk_storage (get_block ?i w s ?u) = bs"
    using bu block_at_way [OF at] by (auto simp: block_in_def Let_def get_block_def s_def cf split: if_splits)
  note F = finish_fill_spec [OF wfu fl, unfolded cf, OF dec, folded s_def, unfolded st]
  show ?thesis unfolding filled_def using F u by (simp add: filled_def)
qed

text \<open>The level that got the block, over levels that hold what they held.\<close>

lemma fill_level:
  fixes c :: "('a::len, 'p::len, 'at, 'r) cache"
  assumes inv: "hier_inv k view (c # cs) ms" and en: "cache_enabled c" and ab: "block_at c pa = None"
    and f: "filled k c c' pa w (seg_read (hview view cs ms) (BlockBasePhysicalAddress (cache_cfg c) pa) (BLOCK_SIZE (cache_cfg c)))"
    and post: "hier_inv k view cs' ms'" "same_shape cs cs'" "hview view cs' ms' = hview view cs ms"
  shows "hier_inv k view (c' # cs') ms'" and "hview view (c' # cs') ms' = hview view (c # cs) ms"
    and "same_shape (c # cs) (c' # cs')"
proof -
  let ?cf = "cache_cfg c" and ?v = "hview view cs ms" and ?bp = "BlockBasePhysicalAddress (cache_cfg c) pa"
  have wf: "cache_wf k c" and lv: "\<forall>t \<in> set cs. level_ok c t" and cl: "clean_ok ?v c" using inv en by simp_all
  have ok: "cfg_ok k ?cf" by (rule cache_wfD(1) [OF wf])
  have cf: "cache_cfg c' = ?cf" "cache_enabled c'" "cache_wf k c'" using f en by (simp_all add: filled_def)
  have at': "block_at c' x = (if block_no ?cf x = block_no ?cf pa then Some (seg_read ?v ?bp (BLOCK_SIZE ?cf), False) else block_at c x)" for x
    using f by (simp add: filled_def)
  have rd: "seg_read ?v ?bp (BLOCK_SIZE ?cf) ! block_off ?cf x = ?v x" if "block_no ?cf x = block_no ?cf pa" for x
  proof -
    have s: "in_seg ?bp (BLOCK_SIZE ?cf) x" using that in_seg_whole_block [OF ok] by simp
    have "block_off ?cf x = unat x - unat ?bp"
      using in_seg_block(2) [OF ok block_base_fits [OF ok ok dvd_refl] s] ok by simp
    then show ?thesis using nth_seg_read [OF s] by simp
  qed
  have ab': "block_at c x = None" if "block_no ?cf x = block_no ?cf pa" for x
    using block_at_same_block [OF wf that] ab by simp
  have "lview ?v c' = lview ?v c"
    using cf en by (auto simp: lview_def fun_eq_iff at' rd ab' split: option.split)
  then show "hview view (c' # cs') ms' = hview view (c # cs) ms" using post(3) by simp
  have "clean_ok ?v c'" using cl rd unfolding clean_ok_def cf at' by (auto split: if_splits)
  then show "hier_inv k view (c' # cs') ms'"
    using cf same_shape_levels [OF post(2) lv cf(1)] post(1,3) by simp
  show "same_shape (c # cs) (c' # cs')" using cf en post(2) by simp
qed

definition fill_post where
  "fill_post k view ops a t cs ms pa w r \<longleftrightarrow>
     (\<exists>t' cs' ms'. r = Some (True, a\<lparr>acc_block := Some (SectorByPhysicalAddress (cache_cfg t) pa)\<rparr>, t', cs', ms') \<and>
        hier_inv k view cs' ms' \<and> same_shape cs cs' \<and> hview view cs' ms' = hview view cs ms \<and>
        filled k t t' pa w (seg_read (hview view cs ms) (BlockBasePhysicalAddress (cache_cfg t) pa) (BLOCK_SIZE (cache_cfg t))))"

text \<open>
  Getting hold of the block once its line is ready: nothing if it is present, else a fill. The
  load, the store and the fill of the level above share this step.
\<close>

definition acquire where
  "acquire ops a c cs ms =
     (case acc_block a of
        Some b \<Rightarrow> Some (True, a, c, cs, ms)
      | None \<Rightarrow>
          (case FillBlock ops a c cs ms of
             None \<Rightarrow> None
           | Some (False, r) \<Rightarrow> Some (False, r)
           | Some (True, a', c', cs', ms') \<Rightarrow> Some (True, a', update_on_fill a' c', cs', ms')))"

lemma acquire_spec:
  fixes c :: "('a::len, 'p::len, 'at, 'r) cache"
  assumes inv: "hier_inv k view (c # cs) ms" and en: "cache_enabled c" and rd: "ready k c pa a"
    and w: "acc_line a = Some w"
    and fill: "block_at c pa = None \<Longrightarrow> fill_post k view ops a c cs ms pa w (FillBlock ops a c cs ms)"
  shows "\<exists>a' c' cs' ms'. acquire ops a c cs ms = Some (True, a', c', cs', ms') \<and>
    hier_inv k view (c' # cs') ms' \<and> hview view (c' # cs') ms' = hview view (c # cs) ms \<and>
    same_shape (c # cs) (c' # cs') \<and> decoded k (cache_cfg c) pa a' \<and>
    acc_line a' = Some w \<and> acc_block a' = Some (SectorByPhysicalAddress (cache_cfg c) pa) \<and>
    way_at c' pa (IndexByPhysicalAddress (cache_cfg c) pa) w \<and> block_at c' pa \<noteq> None"
proof (cases "block_at c pa")
  case (Some p)
  have wf: "cache_wf k c" using inv by simp
  have "find_way c pa = Some w"
    using rd w Some by (auto simp: ready_def fillable_def block_at_def split: option.splits)
  then show ?thesis using rd w Some inv by (simp add: acquire_def ready_def way_at_def)
next
  case None
  from fill [OF None] obtain c' cs' ms'
    where e: "FillBlock ops a c cs ms = Some (True, a\<lparr>acc_block := Some (SectorByPhysicalAddress (cache_cfg c) pa)\<rparr>, c', cs', ms')"
      and h: "hier_inv k view cs' ms'" "same_shape cs cs'" "hview view cs' ms' = hview view cs ms"
        "filled k c c' pa w (seg_read (hview view cs ms) (BlockBasePhysicalAddress (cache_cfg c) pa) (BLOCK_SIZE (cache_cfg c)))"
    unfolding fill_post_def by blast
  let ?a = "a\<lparr>acc_block := Some (SectorByPhysicalAddress (cache_cfg c) pa)\<rparr>"
  let ?u = "update_on_fill ?a c'"
  have fu: "filled k c ?u pa w (seg_read (hview view cs ms) (BlockBasePhysicalAddress (cache_cfg c) pa) (BLOCK_SIZE (cache_cfg c)))"
    using filled_same_cache [OF h(4) same_cache_updates(1)] h(4) by (simp add: filled_def)
  note L = fill_level [OF inv en None fu h(1-3)]
  have "acquire ops a c cs ms = Some (True, ?a, ?u, cs', ms')"
    using rd None e by (simp add: acquire_def ready_def)
  moreover have "block_at ?u pa \<noteq> None" using fu by (simp add: filled_def del: not_None_eq)
  ultimately show ?thesis
    using L rd w fu by (simp add: ready_def decoded_def filled_def way_at_def del: not_None_eq)
qed

text \<open>The bytes read from a present block.\<close>

lemma read_hit:
  fixes c :: "('a::len, 'p::len, 'at, 'r) cache"
  assumes wf: "cache_wf k c" and en: "cache_enabled c" and at: "way_at c pa i w" and b: "block_at c pa \<noteq> None"
    and f: "seg_fits (cache_cfg c) pa n"
  shows "read_at (blk_storage (get_block i w (SectorByPhysicalAddress (cache_cfg c) pa) c)) (block_off (cache_cfg c) pa) n =
    seg_read (lview v c) pa n"
proof -
  let ?cf = "cache_cfg c"
  from b obtain st d where bs: "block_at c pa = Some (st, d)" by fastforce
  have ok: "cfg_ok k ?cf" by (rule cache_wfD(1) [OF wf])
  have st: "blk_storage (get_block i w (SectorByPhysicalAddress ?cf pa) c) = st"
    using bs block_at_way [OF at] by (auto simp: block_in_def Let_def get_block_def split: if_splits)
  have l: "length st = BLOCK_SIZE ?cf" using block_atD [OF wf bs] by metis
  show ?thesis
    unfolding st
  proof (rule nth_equalityI)
    show "length (read_at st (block_off ?cf pa) n) = length (seg_read (lview v c) pa n)"
      using f l by (simp add: seg_fits_def)
    fix j assume "j < length (read_at st (block_off ?cf pa) n)"
    then have j: "j < n" using f l by (simp add: seg_fits_def)
    have u: "unat (pa + of_nat j) = unat pa + j" by (rule unat_seg_add [OF seg_fits_bound [OF ok f] j])
    then have s: "in_seg pa n (pa + of_nat j)" using j by (simp add: in_seg_def)
    have "block_at c (pa + of_nat j) = Some (st, d)"
      using block_at_same_block [OF wf in_seg_block(1) [OF ok f s]] bs by simp
    then have "lview v c (pa + of_nat j) = st ! (block_off ?cf pa + j)"
      using en in_seg_block(2) [OF ok f s] u by (simp add: lview_def)
    then show "read_at st (block_off ?cf pa) n ! j = seg_read (lview v c) pa n ! j"
      using j f l by (simp add: seg_read_def nth_read_at seg_fits_def)
  qed
qed


text \<open>A level's lookup and line preparation, as the load, the store and the fill start.\<close>

lemma lookup_prepare:
  fixes f :: "('a::len, 'p::len, 'at, 'r) cache" and ops :: "('m, 'p, 'at) mss_ops"
  assumes bus: "memory_bus ops view" and inv: "hier_inv k view (f # cs) ms" and en: "cache_enabled f"
    and cg: "congr k (acc_addr a0) (acc_phys_addr a0)" and l: "Lookup a0 f = (a1, f1)"
  shows "\<exists>a' f' cs' ms'. prepare_line ops a1 f1 cs ms = Some (True, a', f', cs', ms') \<and>
    hier_inv k view (f' # cs') ms' \<and> hview view (f' # cs') ms' = hview view (f # cs) ms \<and>
    same_shape (f # cs) (f' # cs') \<and> ready k f' (acc_phys_addr a0) a'"
proof -
  have wf: "cache_wf k f" using inv by simp
  note L = Lookup_spec [OF wf cg l]
  have cf: "cache_cfg f1 = cache_cfg f" "cache_enabled f1" using L(1) en by (simp_all add: same_cache_def)
  have inv1: "hier_inv k view (f1 # cs) ms" by (rule hier_inv_same_cache [OF L(1,2) inv])
  note P = prepare_line_spec [OF bus inv1 cf(2), of "acc_phys_addr a0" a1]
  have hv: "hview view (f1 # cs) ms = hview view (f # cs) ms" using lview_same_cache [OF L(1) wf] by simp
  show ?thesis
    using P L(3-5) same_cache_find_way [OF L(1) wf] same_cache_block_at [OF L(1) wf] cf en hv by simp
qed

lemma fill_post_bus:
  fixes t :: "('a::len, 'p::len, 'at, 'r) cache" and ops :: "('m, 'p, 'at) mss_ops"
  assumes bus: "memory_bus ops view" and wf: "cache_wf k t" and dec: "decoded k (cache_cfg t) pa a"
    and l: "acc_line a = Some w" and fl: "fillable t pa (IndexByPhysicalAddress (cache_cfg t) pa) w"
  shows "fill_post k view ops a t [] ms pa w (FillBlock ops a t [] ms)"
proof -
  let ?cf = "cache_cfg t" and ?s = "SectorByPhysicalAddress (cache_cfg t) pa"
  have ok: "cfg_ok k ?cf" by (rule cache_wfD(1) [OF wf])
  let ?bp = "BlockBasePhysicalAddress ?cf pa" and ?a = "a\<lparr>acc_block := Some ?s\<rparr>"
  let ?bs = "seg_read (mem view ms) ?bp (BLOCK_SIZE ?cf)"
  have b: "unat ?bp + BLOCK_SIZE ?cf \<le> 2 ^ LENGTH('p)"
    by (rule seg_fits_bound [OF ok block_base_fits [OF ok ok dvd_refl]])
  obtain ms1 where r: "mss_DataBusRead ops ?bp (BLOCK_SIZE ?cf) (acc_storage_attr a) (acc_rwitm a) ms = (Some ?bs, ms1)"
    and m1: "mem view ms1 = mem view ms" by (rule memory_bus.mss_read [OF bus b])
  obtain ms2 where r2: "mss_InstructionBusRead ops ?bp (BLOCK_SIZE ?cf) (acc_storage_attr a) ms = (Some ?bs, ms2)"
    and m2: "mem view ms2 = mem view ms" by (rule memory_bus.mss_fetch [OF bus b])
  have d: "acc_index a = IndexByPhysicalAddress ?cf pa" "acc_sector a = ?s" "acc_block_base_phys_addr a = ?bp"
    "decoded k ?cf pa ?a" using dec by (simp_all add: decoded_def)
  have F: "filled k t (finish_fill ?a w ?s (store_block (IndexByPhysicalAddress ?cf pa) w ?s ?bs t)) pa w ?bs"
    by (rule filled_finish [OF wf fl d(4)]) simp
  show ?thesis
    unfolding fill_post_def
    using F m1 m2 r r2 ok by (auto simp: FillBlock.simps l Let_def d)
qed

lemma FillBlock_Cons:
  "FillBlock ops a t (f # fs) ms =
     (case acc_line a of
        None \<Rightarrow> None
      | Some w \<Rightarrow>
          let i = acc_index a; s = acc_sector a mod BLOCKS_PER_LINE (cache_cfg t);
              a' = a\<lparr>acc_block := Some s\<rparr>
          in if \<not> cache_enabled f
             then case FillBlock ops a' t fs ms of
                    None \<Rightarrow> None
                  | Some (False, a2, t', fs', ms') \<Rightarrow> Some (False, a2, t', f # fs', ms')
                  | Some (True, a2, t', fs', ms') \<Rightarrow>
                      Some (True, a2, finish_fill a2 w s (update_on_fill a2 t'), f # fs', ms')
             else
               let (fa, f1) = Lookup (access_init (ucast (acc_block_base_addr a))
                                (acc_block_base_phys_addr a) (acc_storage_attr a) (acc_rwitm a)) f
               in case prepare_line ops fa f1 fs ms of
                    None \<Rightarrow> None
                  | Some (False, fa2, f2, fs2, ms2) \<Rightarrow> Some (False, a', t, f2 # fs2, ms2)
                  | Some (True, fa2, f2, fs2, ms2) \<Rightarrow>
                     (case acc_line fa2 of
                        None \<Rightarrow>
                          (case FillBlock ops a' t fs2 ms2 of
                             None \<Rightarrow> None
                           | Some (False, a2, t', fs', ms') \<Rightarrow> Some (False, a2, t', f2 # fs', ms')
                           | Some (True, a2, t', fs', ms') \<Rightarrow>
                               Some (True, a2, finish_fill a2 w s (update_on_fill a2 t'), f2 # fs', ms'))
                      | Some fw \<Rightarrow>
                          (case acquire ops fa2 f2 fs2 ms2 of
                             None \<Rightarrow> None
                           | Some (False, fa3, f3, fs3, ms3) \<Rightarrow> Some (False, a', t, f3 # fs3, ms3)
                           | Some (True, fa3, f3, fs3, ms3) \<Rightarrow>
                               (case acc_block fa3 of
                                  None \<Rightarrow> None
                                | Some fsec \<Rightarrow>
                                    if BLOCK_SIZE (cache_cfg t) \<le> acc_size_to_block_boundary fa3
                                    then let fb = get_block (acc_index fa3) fw fsec f3;
                                             bs = read_at (blk_storage fb) (acc_offset fa3)
                                                    (BLOCK_SIZE (cache_cfg t))
                                         in Some (True, a', finish_fill a' w s (store_block i w s bs t),
                                                  update_on_access fa3 f3 # fs3, ms3)
                                    else None))))"
  unfolding FillBlock.simps(2) acquire_def ..

text \<open>The block passes through a level that does not hold it.\<close>

lemma fill_post_through:
  fixes t :: "('a::len, 'p::len, 'at, 'r) cache" and ops :: "('m, 'p, 'at) mss_ops"
  assumes wf: "cache_wf k t" and dec: "decoded k (cache_cfg t) pa a"
    and dv: "BLOCK_SIZE (cache_cfg t) dvd BLOCK_SIZE (cache_cfg f)"
    and inv: "hier_inv k view (f # fs) ms" and sh: "same_shape (f0 # fs0) (f # fs)"
    and hv: "hview view (f # fs) ms = hview view (f0 # fs0) ms0"
    and ab: "cache_enabled f \<Longrightarrow> block_at f (BlockBasePhysicalAddress (cache_cfg t) pa) = None"
    and s: "s = SectorByPhysicalAddress (cache_cfg t) pa"
    and post: "fill_post k view ops (a\<lparr>acc_block := Some s\<rparr>) t fs ms pa w r"
  shows "fill_post k view ops a t (f0 # fs0) ms0 pa w
     (case r of
        None \<Rightarrow> None
      | Some (False, a2, t', fs', ms') \<Rightarrow> Some (False, a2, t', f # fs', ms')
      | Some (True, a2, t', fs', ms') \<Rightarrow> Some (True, a2, finish_fill a2 w s (update_on_fill a2 t'), f # fs', ms'))"
proof -
  let ?cf = "cache_cfg t" and ?bp = "BlockBasePhysicalAddress (cache_cfg t) pa"
  let ?a = "a\<lparr>acc_block := Some s\<rparr>" and ?n = "BLOCK_SIZE (cache_cfg t)"
  have wff: "cache_wf k f" using inv by simp
  have ok: "cfg_ok k ?cf" by (rule cache_wfD(1) [OF wf])
  from post obtain t' fs' ms' where r: "r = Some (True, ?a, t', fs', ms')"
    and h: "hier_inv k view fs' ms'" "same_shape fs fs'" "hview view fs' ms' = hview view fs ms"
      "filled k t t' pa w (seg_read (hview view fs ms) ?bp ?n)"
    unfolding fill_post_def s by auto
  have b: "unat ?bp + ?n \<le> 2 ^ LENGTH('p)" by (rule seg_fits_bound [OF ok block_base_fits [OF ok ok dvd_refl]])
  have fits: "seg_fits (cache_cfg f) ?bp ?n" by (rule block_base_fits [OF ok cache_wfD(1) [OF wff] dv])
  have "seg_read (hview view fs ms) ?bp ?n = seg_read (hview view (f # fs) ms) ?bp ?n"
    using lview_absent(1) [OF wff ab fits] by (intro seg_read_cong [OF b]) simp
  then have "filled k t (finish_fill ?a w s (update_on_fill ?a t')) pa w (seg_read (hview view (f0 # fs0) ms0) ?bp ?n)"
    using filled_again [OF wf _ h(4), of ?a ?a] dec s hv by (simp add: decoded_def)
  moreover have "hier_inv k view (f # fs') ms'"
    using inv h(1,3) same_shape_levels [OF h(2) _ refl] by simp
  moreover have "same_shape (f0 # fs0) (f # fs')" using sh h(2) same_shape_trans by auto
  ultimately show ?thesis using r h(3) hv s by (simp add: fill_post_def)
qed


text \<open>The block comes from a level that has it, or has just acquired it.\<close>

lemma fill_post_from:
  fixes t :: "('a::len, 'p::len, 'at, 'r) cache" and ops :: "('m, 'p, 'at) mss_ops"
  assumes wf: "cache_wf k t" and dec: "decoded k (cache_cfg t) pa a"
    and fl: "fillable t pa (IndexByPhysicalAddress (cache_cfg t) pa) w"
    and dv: "BLOCK_SIZE (cache_cfg t) dvd BLOCK_SIZE (cache_cfg f)"
    and inv: "hier_inv k view (f # fs) ms" and en: "cache_enabled f" and sh: "same_shape cs0 (f # fs)"
    and hv: "hview view (f # fs) ms = hview view cs0 ms0"
    and fa: "decoded k (cache_cfg f) (BlockBasePhysicalAddress (cache_cfg t) pa) fa"
    and at: "way_at f (BlockBasePhysicalAddress (cache_cfg t) pa) (IndexByPhysicalAddress (cache_cfg f) (BlockBasePhysicalAddress (cache_cfg t) pa)) fw"
    and b: "block_at f (BlockBasePhysicalAddress (cache_cfg t) pa) \<noteq> None"
    and s: "s = SectorByPhysicalAddress (cache_cfg t) pa"
    and fs: "fsec = SectorByPhysicalAddress (cache_cfg f) (BlockBasePhysicalAddress (cache_cfg t) pa)"
  shows "fill_post k view ops a t cs0 ms0 pa w
     (Some (True, a\<lparr>acc_block := Some s\<rparr>, finish_fill (a\<lparr>acc_block := Some s\<rparr>) w s (store_block (acc_index a) w s
          (read_at (blk_storage (get_block (acc_index fa) fw fsec f)) (acc_offset fa) (BLOCK_SIZE (cache_cfg t))) t),
        update_on_access fa f # fs, ms))"
    and "BLOCK_SIZE (cache_cfg t) \<le> acc_size_to_block_boundary fa"
proof -
  let ?bp = "BlockBasePhysicalAddress (cache_cfg t) pa" and ?n = "BLOCK_SIZE (cache_cfg t)"
  have wff: "cache_wf k f" using inv by simp
  have fits: "seg_fits (cache_cfg f) ?bp ?n"
    by (rule block_base_fits [OF cache_wfD(1) [OF wf] cache_wfD(1) [OF wff] dv])
  then show "BLOCK_SIZE (cache_cfg t) \<le> acc_size_to_block_boundary fa"
    using fa by (simp add: decoded_def seg_fits_def)
  have rd: "read_at (blk_storage (get_block (acc_index fa) fw fsec f)) (acc_offset fa) ?n = seg_read (hview view cs0 ms0) ?bp ?n"
    using read_hit [OF wff en at b fits, of "hview view fs ms"] fa fs hv by (simp add: decoded_def)
  have F: "filled k t (finish_fill (a\<lparr>acc_block := Some s\<rparr>) w s (store_block (acc_index a) w s
      (seg_read (hview view cs0 ms0) ?bp ?n) t)) pa w (seg_read (hview view cs0 ms0) ?bp ?n)"
    using filled_finish [OF wf fl, of "a\<lparr>acc_block := Some s\<rparr>" "seg_read (hview view cs0 ms0) ?bp ?n"] dec s
    by (simp add: decoded_def)
  have "hier_inv k view (update_on_access fa f # fs) ms"
    by (rule hier_inv_same_cache [OF same_cache_updates(2) _ inv]) (simp add: wff)
  moreover have "hview view (update_on_access fa f # fs) ms = hview view (f # fs) ms"
    using lview_same_cache [OF same_cache_updates(2) wff] by simp
  moreover have "same_shape cs0 (update_on_access fa f # fs)"
    using sh by (cases cs0) (auto simp: update_on_access_def)
  ultimately show "fill_post k view ops a t cs0 ms0 pa w
     (Some (True, a\<lparr>acc_block := Some s\<rparr>, finish_fill (a\<lparr>acc_block := Some s\<rparr>) w s (store_block (acc_index a) w s
          (read_at (blk_storage (get_block (acc_index fa) fw fsec f)) (acc_offset fa) (BLOCK_SIZE (cache_cfg t))) t),
        update_on_access fa f # fs, ms))"
    unfolding rd fill_post_def using F hv s by simp
qed

lemma FillBlock_spec:
  fixes t :: "('a::len, 'p::len, 'at, 'r) cache" and ops :: "('m, 'p, 'at) mss_ops"
  assumes bus: "memory_bus ops view"
  shows "\<lbrakk>cache_wf k t; decoded k (cache_cfg t) pa a; acc_line a = Some w;
      fillable t pa (IndexByPhysicalAddress (cache_cfg t) pa) w; hier_inv k view cs ms;
      \<forall>f \<in> set cs. BLOCK_SIZE (cache_cfg t) dvd BLOCK_SIZE (cache_cfg f)\<rbrakk> \<Longrightarrow>
    fill_post k view ops a t cs ms pa w (FillBlock ops a t cs ms)"
proof (induction "length cs" arbitrary: a t pa w cs ms rule: less_induct)
  case less
  note wf = less.prems(1) and dec = less.prems(2) and al = less.prems(3) and fl = less.prems(4)
  show ?case
  proof (cases cs)
    case Nil
    then show ?thesis using fill_post_bus [OF bus wf dec al fl] by simp
  next
    case (Cons f fs)
    let ?cf = "cache_cfg t" and ?bp = "BlockBasePhysicalAddress (cache_cfg t) pa"
    let ?s = "SectorByPhysicalAddress (cache_cfg t) pa"
    have ok: "cfg_ok k ?cf" by (rule cache_wfD(1) [OF wf])
    have inv: "hier_inv k view (f # fs) ms" and dv: "BLOCK_SIZE ?cf dvd BLOCK_SIZE (cache_cfg f)"
      using less.prems(5,6) Cons by simp_all
    have d: "acc_index a = IndexByPhysicalAddress ?cf pa" "acc_sector a mod BLOCKS_PER_LINE ?cf = ?s" "acc_block_base_phys_addr a = ?bp"
      "congr k (ucast (acc_block_base_addr a) :: 'a word) ?bp" using dec ok by (simp_all add: decoded_def)
    have dec': "decoded k ?cf pa (a\<lparr>acc_block := Some ?s\<rparr>)" using dec by (simp add: decoded_def)
    have IH: "fill_post k view ops (a\<lparr>acc_block := Some ?s\<rparr>) t ds ns pa w (FillBlock ops (a\<lparr>acc_block := Some ?s\<rparr>) t ds ns)"
      if "hier_inv k view ds ns" "same_shape fs ds" for ds ns
    proof (rule less.hyps [OF _ wf dec' _ fl that(1)])
      show "length ds < length cs" using that(2) Cons by (simp add: same_shape_length)
      show "\<forall>u \<in> set ds. BLOCK_SIZE ?cf dvd BLOCK_SIZE (cache_cfg u)"
        using less.prems(6) Cons same_shape_cfg [OF that(2)] by (auto simp: image_def set_eq_iff) metis
    qed (simp add: al)
    show ?thesis
    proof (cases "cache_enabled f")
      case False
      from inv have "hier_inv k view fs ms" by simp
      from fill_post_through [OF wf dec dv inv same_shape_refl refl _ refl IH [OF this same_shape_refl]] False
      show ?thesis unfolding Cons FillBlock_Cons by (simp add: al d Let_def)
    next
      case en: True
      define a0 :: "('a, 'p, 'at) cache_access" where
        "a0 = access_init (ucast (acc_block_base_addr a)) (acc_block_base_phys_addr a) (acc_storage_attr a) (acc_rwitm a)"
      have a0: "acc_phys_addr a0 = ?bp" "congr k (acc_addr a0) (acc_phys_addr a0)" using d by (simp_all add: a0_def access_init_def)
      obtain fa f1 where lk: "Lookup a0 f = (fa, f1)" by fastforce
      have lk': "Lookup (access_init (ucast (acc_block_base_addr a)) ?bp (acc_storage_attr a) (acc_rwitm a)) f = (fa, f1)"
        using lk d(3) by (simp add: a0_def)
      from lookup_prepare [OF bus inv en a0(2) lk, unfolded a0(1)] obtain fa2 f2 fs2 ms2
        where p: "prepare_line ops fa f1 fs ms = Some (True, fa2, f2, fs2, ms2)"
          and h: "hier_inv k view (f2 # fs2) ms2" "hview view (f2 # fs2) ms2 = hview view (f # fs) ms"
            "same_shape (f # fs) (f2 # fs2)" "ready k f2 ?bp fa2" by blast
      have cf2: "cache_cfg f2 = cache_cfg f" "cache_enabled f2" "same_shape fs fs2" using h(3) en by simp_all
      have inv2: "hier_inv k view fs2 ms2" and wf2: "cache_wf k f2" using h(1) by simp_all
      note dv2 = dv [folded cf2(1)]
      show ?thesis
      proof (cases "acc_line fa2")
        case None
        then have "block_at f2 ?bp = None" using h(4) by (simp add: ready_def)
        from fill_post_through [OF wf dec dv2 h(1,3,2) this refl IH [OF inv2 cf2(3)]]
        show ?thesis
          unfolding Cons FillBlock_Cons using en lk' p None by (simp add: al d Let_def)
      next
        case (Some fw)
        have len: "length fs2 < length cs" using same_shape_length [OF cf2(3)] Cons by simp
        have lev2: "\<forall>u \<in> set fs2. BLOCK_SIZE (cache_cfg f2) dvd BLOCK_SIZE (cache_cfg u)"
          using h(1) by (simp add: level_ok_def)
        have "fill_post k view ops fa2 f2 fs2 ms2 ?bp fw (FillBlock ops fa2 f2 fs2 ms2)"
          using less.hyps [OF len wf2 _ Some _ inv2 lev2, of ?bp] h(4) Some by (simp add: ready_def)
        from acquire_spec [OF h(1) cf2(2) h(4) Some this] obtain fa3 f3 fs3 ms3
          where q: "acquire ops fa2 f2 fs2 ms2 = Some (True, fa3, f3, fs3, ms3)"
            and g: "hier_inv k view (f3 # fs3) ms3" "hview view (f3 # fs3) ms3 = hview view (f2 # fs2) ms2"
              "same_shape (f2 # fs2) (f3 # fs3)" "decoded k (cache_cfg f2) ?bp fa3"
              "acc_block fa3 = Some (SectorByPhysicalAddress (cache_cfg f2) ?bp)"
              "way_at f3 ?bp (IndexByPhysicalAddress (cache_cfg f2) ?bp) fw" "block_at f3 ?bp \<noteq> None" by blast
        have cf3: "cache_cfg f3 = cache_cfg f2" "cache_enabled f3" using g(3) cf2 by simp_all
        note R = fill_post_from [OF wf dec fl dv2 [folded cf3(1)] g(1) cf3(2) same_shape_trans [OF h(3) g(3)] _
            g(4) [folded cf3(1)] g(6) [folded cf3(1)] g(7) refl refl, of ms, unfolded g(2) h(2), OF refl]
        show ?thesis
          unfolding Cons FillBlock_Cons
          using en lk' p Some q R g(5) by (simp add: al d Let_def cf3)
      qed
    qed
  qed
qed

end
