(* ===== verification/Cache_Correct.thy ===== *)
theory Cache_Correct
  imports Cache_Access
begin

text \<open>
  Loads and stores of a hierarchy, by induction on its levels.
\<close>

section \<open>Loads\<close>

lemma Load_Cons:
  "LoadFromCacheHierarchy ops instr addr phys n attr (c # cs) ms =
     (if \<not> IsStorageCacheable ops attr
      then let (r, ms') = (if instr then mss_InstructionBusRead ops phys n attr ms
                           else mss_DataBusRead ops phys n attr False ms)
           in Some (r, c # cs, ms')
      else if \<not> cache_enabled c
      then case LoadFromCacheHierarchy ops instr addr phys n attr cs ms of
             None \<Rightarrow> None
           | Some (r, cs', ms') \<Rightarrow> Some (r, c # cs', ms')
      else
        let (a, c1) = Lookup (access_init addr phys attr False) c
        in case prepare_line ops a c1 cs ms of
             None \<Rightarrow> None
           | Some (False, a2, c2, cs2, ms2) \<Rightarrow> Some (None, c2 # cs2, ms2)
           | Some (True, a2, c2, cs2, ms2) \<Rightarrow>
              (case acc_line a2 of
                 None \<Rightarrow>
                   (case LoadFromCacheHierarchy ops instr addr phys n attr cs2 ms2 of
                      None \<Rightarrow> None
                    | Some (r, cs', ms') \<Rightarrow> Some (r, c2 # cs', ms'))
               | Some w \<Rightarrow>
                   (case acquire ops a2 c2 cs2 ms2 of
                      None \<Rightarrow> None
                    | Some (False, a3, c3, cs3, ms3) \<Rightarrow> Some (None, c3 # cs3, ms3)
                    | Some (True, a3, c3, cs3, ms3) \<Rightarrow>
                        (case acc_block a3 of
                           None \<Rightarrow> None
                         | Some s \<Rightarrow>
                             if n \<le> acc_size_to_block_boundary a3
                             then let b = get_block (acc_index a3) w s c3
                                  in Some (Some (read_at (blk_storage b) (acc_offset a3) n),
                                           update_on_access a3 c3 # cs3, ms3)
                             else None))))"
  unfolding LoadFromCacheHierarchy.simps(2) acquire_def ..

text \<open>
  What a load leaves: the state still satisfies the invariant and holds the same bytes.
\<close>

definition same_view where
  "same_view k view cs ms cs' ms' \<longleftrightarrow>
     hier_inv k view cs' ms' \<and> hview view cs' ms' = hview view cs ms \<and> same_shape cs cs'"

lemma same_view_Cons:
  assumes "hier_inv k view (c # cs) ms" and "same_view k view cs ms cs' ms'"
  shows "same_view k view (c # cs) ms (c # cs') ms'"
  using assms same_shape_levels [of cs cs' c c] by (simp add: same_view_def)

lemma same_view_trans:
  "same_view k view cs ms cs' ms' \<Longrightarrow> same_view k view cs' ms' ds ns \<Longrightarrow> same_view k view cs ms ds ns"
  using same_shape_trans by (auto simp: same_view_def)

lemma lookup_acquire:
  fixes c :: "('a::len, 'p::len, 'at, 'r) cache" and ops :: "('m, 'p, 'at) mss_ops"
  assumes bus: "memory_bus ops view" and inv: "hier_inv k view (c # cs) ms" and en: "cache_enabled c"
    and rd: "ready k c pa a" and w: "acc_line a = Some w"
  shows "\<exists>a' c' cs' ms'. acquire ops a c cs ms = Some (True, a', c', cs', ms') \<and>
    same_view k view (c # cs) ms (c' # cs') ms' \<and> decoded k (cache_cfg c) pa a' \<and>
    acc_line a' = Some w \<and> acc_block a' = Some (SectorByPhysicalAddress (cache_cfg c) pa) \<and>
    way_at c' pa (IndexByPhysicalAddress (cache_cfg c) pa) w \<and> block_at c' pa \<noteq> None"
proof -
  have "fill_post k view ops a c cs ms pa w (FillBlock ops a c cs ms)"
    using inv rd w by (intro FillBlock_spec [OF bus]) (auto simp: ready_def level_ok_def)
  from acquire_spec [OF inv en rd w this] show ?thesis unfolding same_view_def by blast
qed

lemma Load_spec:
  fixes cs :: "('a::len, 'p::len, 'at, 'r) cache list" and ops :: "('m, 'p, 'at) mss_ops"
  assumes bus: "memory_bus ops view" and ca: "IsStorageCacheable ops attr" and cg: "congr k addr phys"
    and lim: "unat phys + n \<le> 2 ^ LENGTH('p)"
  shows "\<lbrakk>hier_inv k view cs ms; \<forall>c \<in> set cs. seg_fits (cache_cfg c) phys n\<rbrakk> \<Longrightarrow>
    \<exists>cs' ms'. LoadFromCacheHierarchy ops instr addr phys n attr cs ms =
        Some (Some (seg_read (hview view cs ms) phys n), cs', ms') \<and> same_view k view cs ms cs' ms'"
proof (induction "length cs" arbitrary: cs ms rule: less_induct)
  case less
  show ?case
  proof (cases cs)
    case Nil
    obtain ms1 where "mss_DataBusRead ops phys n attr False ms = (Some (seg_read (mem view ms) phys n), ms1)"
      "mem view ms1 = mem view ms" by (rule memory_bus.mss_read [OF bus lim])
    moreover obtain ms2 where "mss_InstructionBusRead ops phys n attr ms = (Some (seg_read (mem view ms) phys n), ms2)"
      "mem view ms2 = mem view ms" by (rule memory_bus.mss_fetch [OF bus lim])
    ultimately show ?thesis using Nil by (simp add: same_view_def)
  next
    case (Cons c cs0)
    have inv: "hier_inv k view (c # cs0) ms" and f: "seg_fits (cache_cfg c) phys n" using less.prems Cons by simp_all
    have wf: "cache_wf k c" using inv by simp
    have IH: "\<exists>cs' ms'. LoadFromCacheHierarchy ops instr addr phys n attr ds ns =
        Some (Some (seg_read (hview view ds ns) phys n), cs', ms') \<and> same_view k view ds ns cs' ms'"
      if "hier_inv k view ds ns" "same_shape cs0 ds" for ds ns
    proof (rule less.hyps [OF _ that(1)])
      show "length ds < length cs" using same_shape_length [OF that(2)] Cons by simp
      show "\<forall>c \<in> set ds. seg_fits (cache_cfg c) phys n"
        using less.prems(2) Cons same_shape_cfg [OF that(2)] by (auto simp: image_def set_eq_iff) metis
    qed
    have through: "seg_read (hview view ds ns) phys n = seg_read (hview view (d # ds) ns) phys n"
      if "cache_wf k d" "cache_cfg d = cache_cfg c" "cache_enabled d \<Longrightarrow> block_at d phys = None" for d ds ns
      using lview_absent(1) [OF that(1,3), of n] f that(2) by (intro seg_read_cong [OF lim]) simp
    show ?thesis
    proof (cases "cache_enabled c")
      case False
      from inv have i0: "hier_inv k view cs0 ms" by simp
      from IH [OF this same_shape_refl] obtain cs' ms'
        where "LoadFromCacheHierarchy ops instr addr phys n attr cs0 ms =
            Some (Some (seg_read (hview view cs0 ms) phys n), cs', ms')" "same_view k view cs0 ms cs' ms'" by blast
      then show ?thesis
        using False ca same_view_Cons [OF inv] through [OF wf refl] by (simp add: Cons)
    next
      case en: True
      define a0 where "a0 = access_init addr phys attr False"
      have a0: "acc_phys_addr a0 = phys" "congr k (acc_addr a0) (acc_phys_addr a0)" using cg by (simp_all add: a0_def access_init_def)
      obtain a c1 where lk: "Lookup a0 c = (a, c1)" by fastforce
      from lookup_prepare [OF bus inv en a0(2) lk, unfolded a0(1)] obtain a2 c2 cs2 ms2
        where p: "prepare_line ops a c1 cs0 ms = Some (True, a2, c2, cs2, ms2)" and rd: "ready k c2 phys a2"
          and sv: "same_view k view (c # cs0) ms (c2 # cs2) ms2" unfolding same_view_def by blast
      have i2: "hier_inv k view (c2 # cs2) ms2" and cf2: "cache_cfg c2 = cache_cfg c" "cache_enabled c2" "same_shape cs0 cs2"
        and hv2: "hview view (c2 # cs2) ms2 = hview view (c # cs0) ms" using sv en by (simp_all add: same_view_def)
      show ?thesis
      proof (cases "acc_line a2")
        case None
        have i2': "hier_inv k view cs2 ms2" and wf2: "cache_wf k c2" using i2 by simp_all
        from IH [OF i2' cf2(3)] obtain cs' ms'
          where q: "LoadFromCacheHierarchy ops instr addr phys n attr cs2 ms2 =
              Some (Some (seg_read (hview view cs2 ms2) phys n), cs', ms')" "same_view k view cs2 ms2 cs' ms'" by blast
        have "block_at c2 phys = None" using rd None by (simp add: ready_def)
        note t = through [OF wf2 cf2(1) this]
        show ?thesis
          using en ca lk p None q(1) t hv2 same_view_trans [OF sv same_view_Cons [OF i2 q(2)]]
          by (simp add: Cons a0_def [symmetric])
      next
        case (Some w)
        from lookup_acquire [OF bus i2 cf2(2) rd Some] obtain a3 c3 cs3 ms3
          where q: "acquire ops a2 c2 cs2 ms2 = Some (True, a3, c3, cs3, ms3)"
            and sv3: "same_view k view (c2 # cs2) ms2 (c3 # cs3) ms3"
            and d3: "decoded k (cache_cfg c) phys a3" "acc_block a3 = Some (SectorByPhysicalAddress (cache_cfg c) phys)"
              "way_at c3 phys (IndexByPhysicalAddress (cache_cfg c) phys) w" "block_at c3 phys \<noteq> None"
          unfolding cf2(1) by blast
        have cf3: "cache_cfg c3 = cache_cfg c" "cache_enabled c3" "cache_wf k c3" "hier_inv k view (c3 # cs3) ms3"
          using sv3 cf2 by (simp_all add: same_view_def)
        note R = read_hit [OF cf3(3,2) d3(3,4) f [folded cf3(1)], of "hview view cs3 ms3", unfolded cf3(1)]
        have "same_view k view (c3 # cs3) ms3 (update_on_access a3 c3 # cs3) ms3"
          using hier_inv_same_cache [OF same_cache_updates(2) _ cf3(4)] cf3(3) lview_same_cache [OF same_cache_updates(2) cf3(3)]
          by (simp add: same_view_def update_on_access_def)
        note sv4 = same_view_trans [OF same_view_trans [OF sv sv3] this]
        have "lview (hview view cs3 ms3) c3 = hview view (c # cs0) ms"
          using sv sv3 by (simp add: same_view_def)
        then show ?thesis
          using en ca lk p Some q d3(1,2) R f sv4 unfolding Cons Load_Cons
          by (simp add: a0_def [symmetric] decoded_def Let_def seg_fits_def)
      qed
    qed
  qed
qed


section \<open>Stores\<close>

lemma if_acquire:
  "(if acc_block a = None \<and> wa then X else Some (True, a, r)) =
   (if wa then (case acc_block a of Some b \<Rightarrow> Some (True, a, r) | None \<Rightarrow> X) else Some (True, a, r))"
  by (simp split: option.split)

lemma Store_Cons:
  "StoreInCacheHierarchy ops addr phys bs attr (c # cs) ms =
     (if \<not> IsStorageCacheable ops attr
      then let (ok, ms') = mss_DataBusWrite ops phys bs attr ms in Some (ok, c # cs, ms')
      else if \<not> cache_enabled c
      then case StoreInCacheHierarchy ops addr phys bs attr cs ms of
             None \<Rightarrow> None
           | Some (ok, cs', ms') \<Rightarrow> Some (ok, c # cs', ms')
      else
        let (a, c1) = Lookup (access_init addr phys attr True) c
        in case (if mss_IsWriteAllocate (cache_cfg c) attr then prepare_line ops a c1 cs ms
                 else Some (True, a, c1, cs, ms)) of
             None \<Rightarrow> None
           | Some (False, a2, c2, cs2, ms2) \<Rightarrow> Some (False, c2 # cs2, ms2)
           | Some (True, a2, c2, cs2, ms2) \<Rightarrow>
              (case acc_line a2 of
                 None \<Rightarrow>
                   (case StoreInCacheHierarchy ops addr phys bs attr cs2 ms2 of
                      None \<Rightarrow> None
                    | Some (ok, cs', ms') \<Rightarrow> Some (ok, c2 # cs', ms'))
               | Some w \<Rightarrow>
                   (case (if mss_IsWriteAllocate (cache_cfg c) attr then acquire ops a2 c2 cs2 ms2
                          else Some (True, a2, c2, cs2, ms2)) of
                      None \<Rightarrow> None
                    | Some (False, a3, c3, cs3, ms3) \<Rightarrow> Some (False, c3 # cs3, ms3)
                    | Some (True, a3, c3, cs3, ms3) \<Rightarrow>
                        (let wt = IsStaticWriteThroughCache (cache_cfg c) \<or>
                                  IsDataStoreAccessWriteThrough ops attr
                         in case acc_block a3 of
                              None \<Rightarrow>
                                (case StoreInCacheHierarchy ops addr phys bs attr cs3 ms3 of
                                   None \<Rightarrow> None
                                 | Some (ok, cs', ms') \<Rightarrow> Some (ok, c3 # cs', ms'))
                            | Some s \<Rightarrow>
                                if length bs \<le> acc_size_to_block_boundary a3
                                then
                                  let i = acc_index a3; b = get_block i w s c3;
                                      b' = b\<lparr>blk_storage := write_at (blk_storage b) (acc_offset a3) bs,
                                             blk_dirty := (blk_dirty b \<or> \<not> wt)\<rparr>;
                                      c4 = update_on_access a3 (put_block i w s b' c3)
                                  in if wt
                                     then (case StoreInCacheHierarchy ops addr phys bs attr cs3 ms3 of
                                             None \<Rightarrow> None
                                           | Some (ok, cs', ms') \<Rightarrow> Some (ok, c4 # cs', ms'))
                                     else Some (True, c4 # cs3, ms3)
                                else None))))"
  unfolding StoreInCacheHierarchy.simps(2) if_acquire acquire_def ..

definition stored where
  "stored k view cs ms cs' ms' phys bs \<longleftrightarrow>
     hier_inv k view cs' ms' \<and> hview view cs' ms' = seg_upd (hview view cs ms) phys bs \<and> same_shape cs cs'"

text \<open>The level that takes the bytes, write back or write through.\<close>

lemma store_level:
  fixes c :: "('a::len, 'p::len, 'at, 'r) cache"
  assumes inv: "hier_inv k view (c # cs) ms" and en: "cache_enabled c" and at: "way_at c phys i w"
    and b: "block_at c phys \<noteq> None" and f: "seg_fits (cache_cfg c) phys (length bs)" and dc: "IsDataCache (cache_cfg c)"
    and wt: "wt \<Longrightarrow> stored k view cs ms cs' ms' phys bs" and wb: "\<not> wt \<Longrightarrow> cs' = cs \<and> ms' = ms"
  defines "s \<equiv> SectorByPhysicalAddress (cache_cfg c) phys"
  shows "stored k view (c # cs) ms (update_on_access a (put_block i w s ((get_block i w s c)\<lparr>
      blk_storage := write_at (blk_storage (get_block i w s c)) (block_off (cache_cfg c) phys) bs,
      blk_dirty := (blk_dirty (get_block i w s c) \<or> \<not> wt)\<rparr>) c) # cs') ms' phys bs"
proof -
  let ?v = "hview view cs ms" and ?v' = "hview view cs' ms'"
  from b obtain st d where bs: "block_at c phys = Some (st, d)" by fastforce
  have wf: "cache_wf k c" and cl: "clean_ok ?v c" using inv en by simp_all
  have g: "blk_storage (get_block i w s c) = st" "blk_dirty (get_block i w s c) = d"
    using bs block_at_way [OF at] by (auto simp: block_in_def Let_def get_block_def s_def split: if_splits)
  define c' where "c' = put_block i w s ((get_block i w s c)\<lparr>
      blk_storage := write_at st (block_off (cache_cfg c) phys) bs, blk_dirty := (d \<or> \<not> wt)\<rparr>) c"
  note W = write_hit [OF wf en at bs f dc, where d' = "d \<or> \<not> wt", folded s_def, folded c'_def]
  have v: "lview ?v' c' = seg_upd (lview ?v c) phys bs" and c: "clean_ok ?v' c'"
    and i: "hier_inv k view cs' ms'" and sh: "same_shape cs cs'"
    using W(4-7) wt wb cl inv by (cases wt; cases d; simp add: stored_def)+
  have u: "cache_wf k (update_on_access a c')" "cache_cfg (update_on_access a c') = cache_cfg c"
    "cache_enabled (update_on_access a c') = cache_enabled c" "clean_ok ?v' (update_on_access a c')"
    "lview ?v' (update_on_access a c') = seg_upd (lview ?v c) phys bs"
    using W(1-3) v c clean_ok_same_cache [OF same_cache_updates(2) W(1)] lview_same_cache [OF same_cache_updates(2) W(1)]
    by (simp_all add: update_on_access_def)
  then show ?thesis
    using i sh inv same_shape_levels [OF sh _ u(2)] unfolding stored_def g c'_def [symmetric] by simp
qed


lemma stored_same_view:
  "same_view k view cs ms ds ns \<Longrightarrow> stored k view ds ns cs' ms' phys bs \<Longrightarrow> stored k view cs ms cs' ms' phys bs"
  using same_shape_trans by (auto simp: same_view_def stored_def)

lemma store_prepare:
  fixes f :: "('a::len, 'p::len, 'at, 'r) cache" and ops :: "('m, 'p, 'at) mss_ops"
  assumes bus: "memory_bus ops view" and inv: "hier_inv k view (f # cs) ms" and en: "cache_enabled f"
    and cg: "congr k (acc_addr a0) (acc_phys_addr a0)" and l: "Lookup a0 f = (a1, f1)"
  shows "\<exists>a' f' cs' ms'. (if wa then prepare_line ops a1 f1 cs ms else Some (True, a1, f1, cs, ms)) =
      Some (True, a', f', cs', ms') \<and>
    same_view k view (f # cs) ms (f' # cs') ms' \<and> ready k f' (acc_phys_addr a0) a'"
proof (cases wa)
  case True
  then show ?thesis using lookup_prepare [OF bus inv en cg l] by (auto simp: same_view_def)
next
  case False
  have wf: "cache_wf k f" using inv by simp
  note L = Lookup_spec [OF wf cg l]
  have cf: "cache_cfg f1 = cache_cfg f" "cache_enabled f1 = cache_enabled f" using L(1) by (simp_all add: same_cache_def)
  have "same_view k view (f # cs) ms (f1 # cs) ms"
    using hier_inv_same_cache [OF L(1,2) inv] lview_same_cache [OF L(1) wf] cf by (simp add: same_view_def)
  moreover have "ready k f1 (acc_phys_addr a0) a1"
    using L(3-5) same_cache_find_way [OF L(1) wf] same_cache_block_at [OF L(1) wf] cf find_wayD(1)
    by (auto simp: ready_def block_at_def fillable_def split: option.split)
  ultimately show ?thesis using False by simp
qed

lemma store_acquire:
  fixes c :: "('a::len, 'p::len, 'at, 'r) cache" and ops :: "('m, 'p, 'at) mss_ops"
  assumes bus: "memory_bus ops view" and inv: "hier_inv k view (c # cs) ms" and en: "cache_enabled c"
    and rd: "ready k c pa a" and w: "acc_line a = Some w"
  shows "\<exists>a' c' cs' ms'. (if wa then acquire ops a c cs ms else Some (True, a, c, cs, ms)) = Some (True, a', c', cs', ms') \<and>
    same_view k view (c # cs) ms (c' # cs') ms' \<and> decoded k (cache_cfg c) pa a' \<and>
    acc_block a' = (if block_at c' pa = None then None else Some (SectorByPhysicalAddress (cache_cfg c) pa)) \<and>
    (block_at c' pa \<noteq> None \<longrightarrow> way_at c' pa (IndexByPhysicalAddress (cache_cfg c) pa) w)"
proof (cases wa)
  case True
  then show ?thesis using lookup_acquire [OF bus inv en rd w] by fastforce
next
  case False
  have "block_at c pa \<noteq> None \<Longrightarrow> way_at c pa (IndexByPhysicalAddress (cache_cfg c) pa) w"
    using rd w by (auto simp: ready_def fillable_def way_at_def block_at_def split: option.splits)
  then show ?thesis using False rd inv by (simp add: same_view_def ready_def)
qed

lemma Store_spec:
  fixes cs :: "('a::len, 'p::len, 'at, 'r) cache list" and ops :: "('m, 'p, 'at) mss_ops"
  assumes bus: "memory_bus ops view" and ca: "IsStorageCacheable ops attr" and cg: "congr k addr phys"
    and lim: "unat phys + length bs \<le> 2 ^ LENGTH('p)"
  shows "\<lbrakk>hier_inv k view cs ms; \<forall>c \<in> set cs. seg_fits (cache_cfg c) phys (length bs) \<and> IsDataCache (cache_cfg c)\<rbrakk> \<Longrightarrow>
    \<exists>cs' ms'. StoreInCacheHierarchy ops addr phys bs attr cs ms = Some (True, cs', ms') \<and>
      stored k view cs ms cs' ms' phys bs"
proof (induction "length cs" arbitrary: cs ms rule: less_induct)
  case less
  show ?case
  proof (cases cs)
    case Nil
    obtain ms1 where "mss_DataBusWrite ops phys bs attr ms = (True, ms1)"
      "mem view ms1 = seg_upd (mem view ms) phys bs" by (rule memory_bus.mss_write [OF bus lim])
    then show ?thesis using Nil by (simp add: stored_def)
  next
    case (Cons c cs0)
    have inv: "hier_inv k view (c # cs0) ms" and f: "seg_fits (cache_cfg c) phys (length bs)"
      and dc: "IsDataCache (cache_cfg c)" using less.prems Cons by simp_all
    have wf: "cache_wf k c" using inv by simp
    have IH: "\<exists>cs' ms'. StoreInCacheHierarchy ops addr phys bs attr ds ns = Some (True, cs', ms') \<and>
        stored k view ds ns cs' ms' phys bs"
      if "hier_inv k view ds ns" "same_shape cs0 ds" for ds ns
    proof (rule less.hyps [OF _ that(1)])
      show "length ds < length cs" using same_shape_length [OF that(2)] Cons by simp
      show "\<forall>c \<in> set ds. seg_fits (cache_cfg c) phys (length bs) \<and> IsDataCache (cache_cfg c)"
        using less.prems(2) Cons same_shape_cfg [OF that(2)] by (auto simp: image_def set_eq_iff) metis+
    qed
    \<comment> \<open>the level does not hold the block: the store goes on below it\<close>
    have through: "\<exists>cs' ms'. StoreInCacheHierarchy ops addr phys bs attr ds ns = Some (True, cs', ms') \<and>
        stored k view (c # cs0) ms (d # cs') ms' phys bs"
      if sv: "same_view k view (c # cs0) ms (d # ds) ns" and ab: "cache_enabled d \<Longrightarrow> block_at d phys = None" for d ds ns
    proof -
      have i: "hier_inv k view (d # ds) ns" "hier_inv k view ds ns" "cache_wf k d" "same_shape cs0 ds" "cache_cfg d = cache_cfg c"
        using sv by (simp_all add: same_view_def)
      from IH [OF i(2,4)] obtain cs' ms' where q: "StoreInCacheHierarchy ops addr phys bs attr ds ns = Some (True, cs', ms')"
        "stored k view ds ns cs' ms' phys bs" by blast
      from q(2) have post: "hier_inv k view cs' ms'" "same_shape ds cs'"
        "hview view cs' ms' = seg_upd (hview view ds ns) phys bs" by (simp_all add: stored_def)
      have "stored k view (d # ds) ns (d # cs') ms' phys bs"
        unfolding stored_def using absent_level [OF i(1) same_cache_refl i(3) ab f [folded i(5)] post] by blast
      with q(1) stored_same_view [OF sv] show ?thesis by blast
    qed
    show ?thesis
    proof (cases "cache_enabled c")
      case False
      have "same_view k view (c # cs0) ms (c # cs0) ms" using inv by (simp add: same_view_def)
      from through [OF this] False obtain cs' ms'
        where "StoreInCacheHierarchy ops addr phys bs attr cs0 ms = Some (True, cs', ms')"
          "stored k view (c # cs0) ms (c # cs') ms' phys bs" by auto
      then show ?thesis using False ca by (simp add: Cons)
    next
      case en: True
      define a0 where "a0 = access_init addr phys attr True"
      have a0: "acc_phys_addr a0 = phys" "congr k (acc_addr a0) (acc_phys_addr a0)" using cg by (simp_all add: a0_def access_init_def)
      obtain a c1 where lk: "Lookup a0 c = (a, c1)" by fastforce
      from store_prepare [OF bus inv en a0(2) lk, unfolded a0(1), of "mss_IsWriteAllocate (cache_cfg c) attr"] obtain a2 c2 cs2 ms2
        where p: "(if mss_IsWriteAllocate (cache_cfg c) attr then prepare_line ops a c1 cs0 ms
            else Some (True, a, c1, cs0, ms)) = Some (True, a2, c2, cs2, ms2)"
          and rd: "ready k c2 phys a2" and sv: "same_view k view (c # cs0) ms (c2 # cs2) ms2" by blast
      have i2: "hier_inv k view (c2 # cs2) ms2" and cf2: "cache_cfg c2 = cache_cfg c" "cache_enabled c2" "same_shape cs0 cs2"
        using sv en by (simp_all add: same_view_def)
      show ?thesis
      proof (cases "acc_line a2")
        case None
        have "block_at c2 phys = None" using rd None by (simp add: ready_def)
        with through [OF sv] obtain cs' ms' where "StoreInCacheHierarchy ops addr phys bs attr cs2 ms2 = Some (True, cs', ms')"
          "stored k view (c # cs0) ms (c2 # cs') ms' phys bs" by blast
        then show ?thesis using en ca lk p None by (simp add: Cons a0_def [symmetric])
      next
        case (Some w)
        from store_acquire [OF bus i2 cf2(2) rd Some, of "mss_IsWriteAllocate (cache_cfg c) attr", unfolded cf2(1)]
        obtain a3 c3 cs3 ms3
          where q: "(if mss_IsWriteAllocate (cache_cfg c) attr then acquire ops a2 c2 cs2 ms2
              else Some (True, a2, c2, cs2, ms2)) = Some (True, a3, c3, cs3, ms3)"
            and sv3: "same_view k view (c2 # cs2) ms2 (c3 # cs3) ms3" and d3: "decoded k (cache_cfg c) phys a3"
            and bl: "acc_block a3 = (if block_at c3 phys = None then None else Some (SectorByPhysicalAddress (cache_cfg c) phys))"
            and wa: "block_at c3 phys \<noteq> None \<Longrightarrow> way_at c3 phys (IndexByPhysicalAddress (cache_cfg c) phys) w" by blast
        note sv' = same_view_trans [OF sv sv3]
        have cf3: "cache_cfg c3 = cache_cfg c" "cache_enabled c3" "hier_inv k view (c3 # cs3) ms3"
          using sv3 cf2 by (simp_all add: same_view_def)
        show ?thesis
        proof (cases "block_at c3 phys")
          case nb: None
          with through [OF sv'] obtain cs' ms' where "StoreInCacheHierarchy ops addr phys bs attr cs3 ms3 = Some (True, cs', ms')"
            "stored k view (c # cs0) ms (c3 # cs') ms' phys bs" by blast
          then show ?thesis
            using en ca lk p Some q bl nb unfolding Cons Store_Cons by (simp add: a0_def [symmetric] Let_def)
        next
          case sb: (Some b)
          define wt where "wt \<longleftrightarrow> IsStaticWriteThroughCache (cache_cfg c) \<or> IsDataStoreAccessWriteThrough ops attr"
          have i3: "hier_inv k view cs3 ms3" "same_shape cs0 cs3" using sv' by (simp_all add: same_view_def)
          from IH [OF this] obtain cs4 ms4 where r: "StoreInCacheHierarchy ops addr phys bs attr cs3 ms3 = Some (True, cs4, ms4)"
            "stored k view cs3 ms3 cs4 ms4 phys bs" by blast
          define cs' where "cs' = (if wt then cs4 else cs3)"
          define ms' where "ms' = (if wt then ms4 else ms3)"
          have nb: "block_at c3 phys \<noteq> None" using sb by simp
          note S = store_level [OF cf3(3,2) wa [OF nb] nb, of bs wt cs' ms' a3, unfolded cf3(1), OF f dc]
          have "stored k view (c # cs0) ms (update_on_access a3 (put_block (IndexByPhysicalAddress (cache_cfg c) phys) w
              (SectorByPhysicalAddress (cache_cfg c) phys) ((get_block (IndexByPhysicalAddress (cache_cfg c) phys) w
                (SectorByPhysicalAddress (cache_cfg c) phys) c3)\<lparr>
              blk_storage := write_at (blk_storage (get_block (IndexByPhysicalAddress (cache_cfg c) phys) w
                (SectorByPhysicalAddress (cache_cfg c) phys) c3)) (block_off (cache_cfg c) phys) bs,
              blk_dirty := (blk_dirty (get_block (IndexByPhysicalAddress (cache_cfg c) phys) w
                (SectorByPhysicalAddress (cache_cfg c) phys) c3) \<or> \<not> wt)\<rparr>) c3) # cs') ms' phys bs"
            by (rule stored_same_view [OF sv' S]) (use r in \<open>auto simp: cs'_def ms'_def\<close>)
          then show ?thesis
            using en ca lk p Some q bl sb d3 f r(1) unfolding Cons Store_Cons
            by (cases wt) (simp_all add: a0_def [symmetric] Let_def wt_def [symmetric] decoded_def seg_fits_def cs'_def ms'_def)
        qed
      qed
    qed
  qed
qed

end
