(* ===== verification/Cache_System.thy ===== *)
theory Cache_System
  imports Cache_Correct
begin

text \<open>
  Whole hierarchies: their initial state, the memory of the test bench of \<open>cache.hh\<close> behind the
  bus, and the properties of the accesses stated on them.
\<close>

section \<open>The memory of the test bench\<close>

text \<open>
  The bus methods of \<open>MyMemorySubSystem\<close> in \<open>testbench.cc\<close>. Its \<open>std::map\<close> from addresses to
  bytes reads 0 at an absent key, so it is a function of the address.
\<close>

fun tb_read :: "'p::len word \<Rightarrow> nat \<Rightarrow> nat \<Rightarrow> ('p word \<Rightarrow> u8) \<Rightarrow> u8 list" where
  "tb_read addr i 0 m = []"
| "tb_read addr i (Suc n) m = m (addr + of_nat i) # tb_read addr (Suc i) n m"

fun tb_write :: "'p::len word \<Rightarrow> nat \<Rightarrow> u8 list \<Rightarrow> ('p word \<Rightarrow> u8) \<Rightarrow> 'p word \<Rightarrow> u8" where
  "tb_write addr i [] m = m"
| "tb_write addr i (b # bs) m = tb_write addr (Suc i) bs (m(addr + of_nat i := b))"

definition tb_DataBusRead ::
  "'p::len word \<Rightarrow> nat \<Rightarrow> 'at \<Rightarrow> bool \<Rightarrow> ('p word \<Rightarrow> u8) \<Rightarrow> u8 list option \<times> ('p word \<Rightarrow> u8)" where
  "tb_DataBusRead addr n attr rwitm m = (Some (tb_read addr 0 n m), m)"

definition tb_DataBusWrite ::
  "'p::len word \<Rightarrow> u8 list \<Rightarrow> 'at \<Rightarrow> ('p word \<Rightarrow> u8) \<Rightarrow> bool \<times> ('p word \<Rightarrow> u8)" where
  "tb_DataBusWrite addr bs attr m = (True, tb_write addr 0 bs m)"

definition tb_InstructionBusRead ::
  "'p::len word \<Rightarrow> nat \<Rightarrow> 'at \<Rightarrow> ('p word \<Rightarrow> u8) \<Rightarrow> u8 list option \<times> ('p word \<Rightarrow> u8)" where
  "tb_InstructionBusRead addr n attr m = (Some (tb_read addr 0 n m), m)"

definition tb_ops :: "('at \<Rightarrow> bool) \<Rightarrow> ('at \<Rightarrow> bool) \<Rightarrow> 'at \<Rightarrow> ('p::len word \<Rightarrow> u8, 'p, 'at) mss_ops" where
  "tb_ops cacheable wt attr0 =
     \<lparr>DataBusRead = tb_DataBusRead, DataBusWrite = tb_DataBusWrite,
      InstructionBusRead = tb_InstructionBusRead,
      DebugDataBusRead = (\<lambda>addr n attr m. (Some (tb_read addr 0 n m), m)),
      DebugDataBusWrite = (\<lambda>addr bs attr m. (True, tb_write addr 0 bs m)),
      DebugInstructionBusRead = (\<lambda>addr n attr m. (Some (tb_read addr 0 n m), m)),
      IsStorageCacheable = cacheable, IsDataStoreAccessWriteThrough = wt, default_attr = attr0\<rparr>"

lemma tb_read_seg: "tb_read addr i n m = map (\<lambda>j. m (addr + of_nat (i + j))) [0..<n]"
proof (induction n arbitrary: i)
  case (Suc n)
  have "[0..<Suc n] = 0 # map Suc [0..<n]" by (simp add: map_Suc_upt upt_conv_Cons)
  then show ?case using Suc by (simp add: o_def ac_simps del: upt_Suc)
qed simp

lemma tb_read_seg_read: "tb_read addr 0 n m = seg_read m addr n"
  by (simp add: tb_read_seg seg_read_def)

lemma tb_write_other:
  "(\<And>j. i \<le> j \<Longrightarrow> j < i + length bs \<Longrightarrow> addr + of_nat j \<noteq> x) \<Longrightarrow> tb_write addr i bs m x = m x"
proof (induction bs arbitrary: i m)
  case (Cons b bs)
  have "addr + of_nat i \<noteq> x" by (rule Cons.prems) simp_all
  moreover have "tb_write addr (Suc i) bs (m(addr + of_nat i := b)) x = (m(addr + of_nat i := b)) x"
    by (rule Cons.IH) (rule Cons.prems, simp_all)
  ultimately show ?case by simp
qed simp

lemma tb_write_byte:
  assumes "unat addr + i + length bs \<le> 2 ^ LENGTH('p)" and "j < length bs"
  shows "tb_write (addr :: 'p::len word) i bs m (addr + of_nat (i + j)) = bs ! j"
  using assms
proof (induction bs arbitrary: i j m)
  case (Cons b bs)
  have u: "unat (addr + of_nat q) = unat addr + q" if "q < i + length (b # bs)" for q
    using Cons.prems(1) that by (intro unat_seg_add [of addr "i + length (b # bs)"]) (simp_all add: add.assoc)
  show ?case
  proof (cases j)
    case 0
    have "addr + of_nat q \<noteq> addr + of_nat i" if "Suc i \<le> q" "q < Suc i + length bs" for q
      using u [of q] u [of i] that by auto
    then show ?thesis using 0 tb_write_other [of "Suc i" bs addr "addr + of_nat i"] by simp
  next
    case (Suc l)
    then show ?thesis using Cons.IH [of "Suc i" l] Cons.prems by simp
  qed
qed simp

lemma tb_write_seg_upd:
  assumes "unat (addr :: 'p::len word) + length bs \<le> 2 ^ LENGTH('p)"
  shows "tb_write addr 0 bs m = seg_upd m addr bs"
proof
  fix x show "tb_write addr 0 bs m x = seg_upd m addr bs x"
  proof (cases "in_seg addr (length bs) x")
    case True
    note s = in_segE [OF True]
    show ?thesis
      using tb_write_byte [of addr 0 bs "unat x - unat addr" m] assms s True by (simp add: seg_upd_def)
  next
    case False
    have "addr + of_nat j \<noteq> x" if "j < length bs" for j
      using unat_seg_add [OF assms that] that False by (auto simp: in_seg_def)
    then show ?thesis using tb_write_other [of 0 bs addr x m] False by (simp add: seg_upd_def)
  qed
qed

interpretation tb: memory_bus "tb_ops ca wt at0" "\<lambda>m. m"
  by unfold_locales (simp_all add: tb_ops_def tb_DataBusRead_def tb_DataBusWrite_def
      tb_InstructionBusRead_def tb_read_seg_read tb_write_seg_upd)

section \<open>Initial hierarchies\<close>

fun levels_ok :: "('a::len, 'p::len, 'at, 'r) cache list \<Rightarrow> bool" where
  "levels_ok [] \<longleftrightarrow> True"
| "levels_ok (c # cs) \<longleftrightarrow> (\<forall>t \<in> set cs. level_ok c t) \<and> levels_ok cs"

definition fresh_cache :: "nat \<Rightarrow> ('a::len, 'p::len, 'at, 'r) cache \<Rightarrow> bool" where
  "fresh_cache k c \<longleftrightarrow> cfg_ok k (cache_cfg c) \<and> c = cache_init (cache_cfg c) (cache_enabled c) (cache_policy c)"

lemma cache_cfg_init: "cache_cfg (cache_init cf en r) = cf"
  by (simp add: cache_init_def)

lemma get_line_init:
  "i < NUM_SETS cf \<Longrightarrow> w < ASSOCIATIVITY cf \<Longrightarrow> get_line i w (cache_init cf en r) = line_init cf w"
  by (simp add: get_line_def get_set_def cache_init_def set_init_def)

lemma set_init_order:
  assumes "0 < ASSOCIATIVITY cf"
  shows "mrs_order (set_init cf i) [0..<ASSOCIATIVITY cf]"
  using assms
  by (auto simp: mrs_order_def set_init_def line_init_def init_next_def init_prev_def)

lemma cache_init_wf:
  assumes ok: "cfg_ok k cf"
  shows "cache_wf k (cache_init cf en r)" and "block_at (cache_init cf en r) x = None"
proof -
  have a: "0 < ASSOCIATIVITY cf" by (rule cfg_ok_pos(5) [OF ok])
  have l: "line_ok k cf i w (line_init cf w)" for i w
    by (simp add: line_ok_def line_init_def block_init_def)
  show "cache_wf k (cache_init cf en r)"
    using ok l set_init_order [OF a]
    by (auto simp: cache_wf_def set_ok_def cache_init_def) (auto simp: set_init_def line_init_def)
  have "find_way (cache_init cf en r) x = None"
    using ok by (simp add: find_way_None cache_cfg_init get_line_init tagged_def line_init_def)
  then show "block_at (cache_init cf en r) x = None" by (simp add: block_at_def)
qed

lemma fresh_hierarchy:
  assumes "levels_ok cs" and "\<forall>c \<in> set cs. fresh_cache k c"
  shows "hier_inv k view cs ms" and "hview view cs ms = mem view ms"
proof -
  have "hier_inv k view cs ms \<and> hview view cs ms = mem view ms"
    using assms
  proof (induction cs)
    case (Cons c cs)
    have f: "cfg_ok k (cache_cfg c)" "c = cache_init (cache_cfg c) (cache_enabled c) (cache_policy c)"
      using Cons.prems(2) by (simp_all add: fresh_cache_def)
    have wf: "cache_wf k c" "\<And>x. block_at c x = None"
      using cache_init_wf [OF f(1), of "cache_enabled c" "cache_policy c"] f(2) by simp_all
    show ?case using Cons wf by (simp add: clean_ok_def lview_def fun_eq_iff)
  qed simp
  then show "hier_inv k view cs ms" "hview view cs ms = mem view ms" by simp_all
qed


section \<open>Loads and stores against a flat memory\<close>

datatype ('aw, 'pw) mem_op =
    Ld 'aw 'pw nat
  | St 'aw 'pw "u8 list"

fun op_phys :: "('a::len word, 'p::len word) mem_op \<Rightarrow> 'p word" where
  "op_phys (Ld a p n) = p"
| "op_phys (St a p bs) = p"

fun op_size :: "('a::len word, 'p::len word) mem_op \<Rightarrow> nat" where
  "op_size (Ld a p n) = n"
| "op_size (St a p bs) = length bs"

fun op_addr :: "('a::len word, 'p::len word) mem_op \<Rightarrow> 'a word" where
  "op_addr (Ld a p n) = a"
| "op_addr (St a p bs) = a"

text \<open>The translation agrees on the page offset, and no access crosses a block of any level.\<close>

definition op_ok :: "nat \<Rightarrow> ('a::len, 'p::len, 'at, 'r) cache list \<Rightarrow> ('a word, 'p word) mem_op \<Rightarrow> bool" where
  "op_ok k cs x \<longleftrightarrow> congr k (op_addr x) (op_phys x) \<and> unat (op_phys x) + op_size x \<le> 2 ^ LENGTH('p) \<and>
     (\<forall>c \<in> set cs. seg_fits (cache_cfg c) (op_phys x) (op_size x))"

fun run_hier ::
  "('m, 'p::len, 'at) mss_ops \<Rightarrow> 'at \<Rightarrow> ('a::len word, 'p word) mem_op list \<Rightarrow>
   ('a, 'p, 'at, 'r) cache list \<Rightarrow> ('m, 'p) mss \<Rightarrow> (u8 list option list \<times> bool list \<times> ('a, 'p, 'at, 'r) cache list \<times> ('m, 'p) mss) option" where
  "run_hier ops attr [] cs ms = Some ([], [], cs, ms)"
| "run_hier ops attr (Ld a p n # xs) cs ms =
     (case LoadFromCacheHierarchy ops False a p n attr cs ms of
        None \<Rightarrow> None
      | Some (r, cs', ms') \<Rightarrow>
          (case run_hier ops attr xs cs' ms' of
             None \<Rightarrow> None
           | Some (rs, oks, res) \<Rightarrow> Some (r # rs, oks, res)))"
| "run_hier ops attr (St a p bs # xs) cs ms =
     (case StoreInCacheHierarchy ops a p bs attr cs ms of
        None \<Rightarrow> None
      | Some (ok, cs', ms') \<Rightarrow>
          (case run_hier ops attr xs cs' ms' of
             None \<Rightarrow> None
           | Some (rs, oks, res) \<Rightarrow> Some (rs, ok # oks, res)))"

fun run_flat :: "('a::len word, 'p::len word) mem_op list \<Rightarrow> ('p word \<Rightarrow> u8) \<Rightarrow> u8 list option list \<times> ('p word \<Rightarrow> u8)" where
  "run_flat [] m = ([], m)"
| "run_flat (Ld a p n # xs) m = (let (rs, m') = run_flat xs m in (Some (seg_read m p n) # rs, m'))"
| "run_flat (St a p bs # xs) m = run_flat xs (seg_upd m p bs)"

fun num_stores :: "('a::len word, 'p::len word) mem_op list \<Rightarrow> nat" where
  "num_stores [] = 0"
| "num_stores (Ld a p n # xs) = num_stores xs"
| "num_stores (St a p bs # xs) = Suc (num_stores xs)"

lemma same_shape_member:
  assumes "same_shape cs cs'" and "c \<in> set cs'"
  shows "\<exists>d \<in> set cs. cache_cfg d = cache_cfg c"
  using same_shape_cfg [OF assms(1)] assms(2) by (metis imageE imageI)

lemma op_ok_shape:
  assumes "same_shape cs cs'" and "op_ok k cs x"
  shows "op_ok k cs' x"
proof -
  have "seg_fits (cache_cfg c) (op_phys x) (op_size x)" if c: "c \<in> set cs'" for c
  proof -
    obtain d where "d \<in> set cs" "cache_cfg d = cache_cfg c" using same_shape_member [OF assms(1) c] by blast
    then show ?thesis using assms(2) by (auto simp: op_ok_def)
  qed
  then show ?thesis using assms(2) by (simp add: op_ok_def)
qed

lemma data_shape:
  assumes "same_shape cs cs'" and "\<forall>c \<in> set cs. IsDataCache (cache_cfg c)"
  shows "\<forall>c \<in> set cs'. IsDataCache (cache_cfg c)"
  using same_shape_member [OF assms(1)] assms(2) by metis

lemma run_hier_flat:
  fixes ops :: "('m, 'p::len, 'at) mss_ops" and cs :: "('a::len, 'p, 'at, 'r) cache list"
  assumes bus: "memory_bus ops view" and ca: "IsStorageCacheable ops attr"
  shows "\<lbrakk>hier_inv k view cs ms; \<forall>c \<in> set cs. IsDataCache (cache_cfg c); \<forall>x \<in> set xs. op_ok k cs x\<rbrakk> \<Longrightarrow>
    \<exists>cs' ms'. run_hier ops attr xs cs ms =
        Some (fst (run_flat xs (hview view cs ms)), replicate (num_stores xs) True, cs', ms') \<and>
      hier_inv k view cs' ms' \<and> hview view cs' ms' = snd (run_flat xs (hview view cs ms))"
proof (induction xs arbitrary: cs ms)
  case Nil
  then show ?case by simp
next
  case (Cons x xs)
  have ok: "op_ok k cs x" and rest: "\<forall>y \<in> set xs. op_ok k cs y" using Cons.prems(3) by simp_all
  show ?case
  proof (cases x)
    case (Ld a p n)
    have o: "congr k a p" "unat p + n \<le> 2 ^ LENGTH('p)" "\<forall>c \<in> set cs. seg_fits (cache_cfg c) p n"
      using ok Ld by (simp_all add: op_ok_def)
    from Load_spec [OF bus ca o(1,2) Cons.prems(1) o(3), of False] obtain cs1 ms1
      where l: "LoadFromCacheHierarchy ops False a p n attr cs ms = Some (Some (seg_read (hview view cs ms) p n), cs1, ms1)"
        and sv: "hier_inv k view cs1 ms1" "hview view cs1 ms1 = hview view cs ms" "same_shape cs cs1"
      unfolding same_view_def by blast
    have "\<forall>y \<in> set xs. op_ok k cs1 y" using rest op_ok_shape [OF sv(3)] by blast
    from Cons.IH [OF sv(1) data_shape [OF sv(3) Cons.prems(2)] this] show ?thesis
      using l sv(2) Ld by (auto simp: Let_def split: prod.split)
  next
    case (St a p bs)
    have o: "congr k a p" "unat p + length bs \<le> 2 ^ LENGTH('p)"
      "\<forall>c \<in> set cs. seg_fits (cache_cfg c) p (length bs) \<and> IsDataCache (cache_cfg c)"
      using ok St Cons.prems(2) by (simp_all add: op_ok_def)
    from Store_spec [OF bus ca o(1,2) Cons.prems(1) o(3)] obtain cs1 ms1
      where l: "StoreInCacheHierarchy ops a p bs attr cs ms = Some (True, cs1, ms1)"
        and sv: "hier_inv k view cs1 ms1" "hview view cs1 ms1 = seg_upd (hview view cs ms) p bs" "same_shape cs cs1"
      unfolding stored_def by blast
    have "\<forall>y \<in> set xs. op_ok k cs1 y" using rest op_ok_shape [OF sv(3)] by blast
    from Cons.IH [OF sv(1) data_shape [OF sv(3) Cons.prems(2)] this] show ?thesis
      using l sv(2) St by auto
  qed
qed


section \<open>The properties\<close>

text \<open>
  A load from any state that satisfies the coherence invariant neither aborts nor fails; it
  returns, byte for byte, what the hierarchy holds (the first enabled level with the block, or
  the memory), whatever lines are evicted, written back and filled on the way and whatever the
  replacement policies choose; the state it leaves satisfies the invariant and holds the same
  bytes.
\<close>

theorem load_coherent:
  fixes cs :: "('a::len, 'p::len, 'at, 'r) cache list" and ops :: "('m, 'p, 'at) mss_ops"
  assumes "memory_bus ops view" and "IsStorageCacheable ops attr" and "hier_inv k view cs ms"
    and "op_ok k cs (Ld addr phys n)"
  shows "\<exists>cs' ms'. LoadFromCacheHierarchy ops instr addr phys n attr cs ms =
        Some (Some (map (\<lambda>j. hview view cs ms (phys + of_nat j)) [0..<n]), cs', ms') \<and>
      hier_inv k view cs' ms' \<and> hview view cs' ms' = hview view cs ms"
  using Load_spec [OF assms(1,2) _ _ assms(3), of addr phys n instr] assms(4)
  by (auto simp: op_ok_def same_view_def seg_read_def)

definition example_cfg :: "nat \<Rightarrow> nat \<Rightarrow> nat \<Rightarrow> nat \<Rightarrow> (16, 16, unit, nat) cache_config" where
  "example_cfg assoc blocks bsize n =
     \<lparr>WRITING_POLICY = CACHE_WRITE_BACK_AND_WRITE_ALLOCATE_POLICY, INDEX_SCHEME = CACHE_VIRTUALLY_INDEXED,
      TAG_SCHEME = CACHE_PHYSICALLY_TAGGED, CACHE_TYPE = DATA_CACHE, ASSOCIATIVITY = assoc,
      BLOCKS_PER_LINE = blocks, BLOCK_SIZE = bsize, SIZE = n, IsWriteAllocate = (\<lambda>a. False),
      ChooseLineToEvict = (\<lambda>a r. (Some (r mod assoc), r)),
      UpdateReplacementPolicyOnAccess = (\<lambda>a r. r), UpdateReplacementPolicyOnFill = (\<lambda>a r. r + 1)\<rparr>"

definition example_hierarchy :: "(16, 16, unit, nat) cache list" where
  "example_hierarchy = [cache_init (example_cfg 2 2 4 32) True 0, cache_init (example_cfg 2 1 8 64) True 0]"

definition example_bus :: "(16 word \<Rightarrow> u8, 16, unit) mss_ops" where
  "example_bus = tb_ops (\<lambda>a. True) (\<lambda>a. False) ()"

definition example_mss :: "(16 word \<Rightarrow> u8, 16) mss" where
  "example_mss = mss_init (\<lambda>x. ucast x) []"

lemma example_cfg_ok: "cfg_ok 8 (example_cfg 2 2 4 32)" "cfg_ok 8 (example_cfg 2 1 8 64)"
  using is_pow2_power [of 0] is_pow2_power [of 1] is_pow2_power [of 2] is_pow2_power [of 3]
  by (simp_all add: cfg_ok_def example_cfg_def line_size_def NUM_SETS_def)

lemma example_inv:
  "hier_inv 8 (\<lambda>m. m) example_hierarchy example_mss"
  "hview (\<lambda>m. m) example_hierarchy example_mss = mem (\<lambda>m. m) example_mss"
proof -
  have l: "levels_ok example_hierarchy"
    by (simp add: example_hierarchy_def level_ok_def cache_cfg_init example_cfg_def IsDataCache_def)
  have f: "\<forall>c \<in> set example_hierarchy. fresh_cache 8 c"
    using example_cfg_ok by (simp add: example_hierarchy_def fresh_cache_def cache_init_def)
  show "hier_inv 8 (\<lambda>m. m) example_hierarchy example_mss"
    "hview (\<lambda>m. m) example_hierarchy example_mss = mem (\<lambda>m. m) example_mss"
    using fresh_hierarchy [OF l f] by auto
qed

lemma example_bus_ok: "memory_bus example_bus (\<lambda>m. m)" "IsStorageCacheable example_bus ()"
  unfolding example_bus_def by (rule tb.memory_bus_axioms) (simp add: tb_ops_def)

lemma example_op_ok: "op_ok 8 example_hierarchy (Ld 0x1106 0x2106 2)" "op_ok 8 example_hierarchy (St 0x1106 0x2106 [1, 2])"
  by (simp_all add: op_ok_def congr_def example_hierarchy_def cache_cfg_init example_cfg_def seg_fits_def block_off_def)

theorem load_coherent_witness:
  "\<exists>cs' ms'. LoadFromCacheHierarchy example_bus False (0x1106 :: 16 word) 0x2106 2 () example_hierarchy example_mss =
     Some (Some [0x06, 0x07], cs', ms')"
proof -
  have "map (\<lambda>j. hview (\<lambda>m. m) example_hierarchy example_mss (0x2106 + of_nat j)) [0..<2] = [0x06, 0x07]"
    unfolding example_inv(2) by (simp add: mem_def example_mss_def mss_init_def upt_rec)
  with load_coherent [OF example_bus_ok example_inv(1) example_op_ok(1), of False] show ?thesis by auto
qed

text \<open>
  C6: A store from any state that satisfies the coherence invariant succeeds; afterwards the
  hierarchy holds the stored bytes at their addresses and what it held everywhere else, and the
  invariant still holds: write back and write through, with and without write allocation, hit
  or miss at any level.
\<close>

theorem store_coherent:
  fixes cs :: "('a::len, 'p::len, 'at, 'r) cache list" and ops :: "('m, 'p, 'at) mss_ops"
  assumes "memory_bus ops view" and "IsStorageCacheable ops attr" and "hier_inv k view cs ms"
    and "\<forall>c \<in> set cs. IsDataCache (cache_cfg c)" and "op_ok k cs (St addr phys bs)"
  shows "\<exists>cs' ms'. StoreInCacheHierarchy ops addr phys bs attr cs ms = Some (True, cs', ms') \<and>
      hier_inv k view cs' ms' \<and>
      (\<forall>x. hview view cs' ms' x =
        (if unat phys \<le> unat x \<and> unat x < unat phys + length bs then bs ! (unat x - unat phys)
         else hview view cs ms x))"
proof -
  have "\<forall>c \<in> set cs. seg_fits (cache_cfg c) phys (length bs) \<and> IsDataCache (cache_cfg c)"
    using assms(4,5) by (simp add: op_ok_def)
  from Store_spec [OF assms(1,2) _ _ assms(3) this, of addr] assms(5) show ?thesis
    by (auto simp: op_ok_def stored_def seg_upd_def in_seg_def)
qed

theorem store_coherent_witness:
  "\<exists>cs' ms'. StoreInCacheHierarchy example_bus (0x1106 :: 16 word) 0x2106 [1, 2] () example_hierarchy example_mss =
     Some (True, cs', ms') \<and> hview (\<lambda>m. m) cs' ms' 0x2107 = 2 \<and> hview (\<lambda>m. m) cs' ms' 0x2108 = 8"
proof -
  have d: "\<forall>c \<in> set example_hierarchy. IsDataCache (cache_cfg c)"
    by (simp add: example_hierarchy_def cache_cfg_init example_cfg_def IsDataCache_def)
  from store_coherent [OF example_bus_ok example_inv(1) d example_op_ok(2)] obtain cs' ms'
    where s: "StoreInCacheHierarchy example_bus 0x1106 0x2106 [1, 2] () example_hierarchy example_mss = Some (True, cs', ms')"
      and v: "\<And>x. hview (\<lambda>m. m) cs' ms' x = (if unat (0x2106 :: 16 word) \<le> unat x \<and> unat x < unat (0x2106 :: 16 word) + length [1, 2 :: u8]
        then [1, 2] ! (unat x - unat (0x2106 :: 16 word)) else hview (\<lambda>m. m) example_hierarchy example_mss x)" by blast
  have "hview (\<lambda>m. m) cs' ms' 0x2107 = 2" "hview (\<lambda>m. m) cs' ms' 0x2108 = 8"
    unfolding v example_inv(2) by (simp_all add: mem_def example_mss_def mss_init_def)
  with s show ?thesis by blast
qed

text \<open>
  C1: A cache hierarchy started empty refines a flat memory: any sequence of loads and stores
  returns for every load what the flat memory returns, and every store succeeds. The hypotheses
  are on the configuration (block sizes that divide those below, data caches, distinct
  power-of-two geometry) and on the accesses (no access crosses a block).
\<close>

theorem hierarchy_refines_flat_memory:
  fixes ops :: "('m, 'p::len, 'at) mss_ops" and cs :: "('a::len, 'p, 'at, 'r) cache list"
  assumes "memory_bus ops view" and "IsStorageCacheable ops attr"
    and "levels_ok cs" and "\<forall>c \<in> set cs. fresh_cache k c" and "\<forall>c \<in> set cs. IsDataCache (cache_cfg c)"
    and "\<forall>x \<in> set xs. op_ok k cs x"
  shows "\<exists>cs' ms'. run_hier ops attr xs cs ms =
      Some (fst (run_flat xs (mem view ms)), replicate (num_stores xs) True, cs', ms')"
  using run_hier_flat [OF assms(1,2) fresh_hierarchy(1) [OF assms(3,4)] assms(5,6)] fresh_hierarchy(2) [OF assms(3,4)]
  by metis

theorem hierarchy_refines_flat_memory_witness:
  "\<exists>cs' ms'. run_hier example_bus () [Ld (0x1106 :: 16 word) 0x2106 2, St 0x1106 0x2106 [1, 2], Ld 0x1106 0x2106 2]
      example_hierarchy example_mss = Some ([Some [6, 7], Some [1, 2]], [True], cs', ms')"
proof -
  have d: "\<forall>c \<in> set example_hierarchy. IsDataCache (cache_cfg c)" "levels_ok example_hierarchy"
    by (simp_all add: example_hierarchy_def cache_cfg_init example_cfg_def IsDataCache_def level_ok_def)
  have f: "\<forall>c \<in> set example_hierarchy. fresh_cache 8 c"
    using example_cfg_ok by (simp add: example_hierarchy_def fresh_cache_def cache_init_def)
  let ?xs = "[Ld (0x1106 :: 16 word) (0x2106 :: 16 word) 2, St 0x1106 0x2106 [1, 2], Ld 0x1106 0x2106 2]"
  have x: "\<forall>x \<in> set ?xs. op_ok 8 example_hierarchy x" using example_op_ok by simp
  have "fst (run_flat ?xs (mem (\<lambda>m. m) example_mss)) = [Some [6, 7], Some [1, 2]]"
    by (simp add: mem_def example_mss_def mss_init_def seg_read_def seg_upd_def in_seg_def upt_rec)
  with hierarchy_refines_flat_memory [OF example_bus_ok d(2) f d(1) x, of example_mss] show ?thesis by simp
qed

end
