(* ===== verification/Cache_Maintenance.thy ===== *)
theory Cache_Maintenance
  imports Cache_System
begin

text \<open>
  The cache maintenance operations: looking a line up by address, invalidating a block or a line
  of one level, and writing a line back from every level.
\<close>

section \<open>Lookup by address\<close>

lemma LookupLineByAddress_spec:
  fixes c :: "('a::len, 'p::len, 'at, 'r) cache"
  assumes wf: "cache_wf k c" and l: "LookupLineByAddress addr phys c = (r, c')"
  shows "r = map_option (\<lambda>w. (IndexByPhysicalAddress (cache_cfg c) phys, w)) (find_way c phys)"
    and "same_cache c c'" and "cache_wf k c'"
proof -
  let ?i = "IndexByPhysicalAddress (cache_cfg c) phys"
  have ok: "cfg_ok k (cache_cfg c)" by (rule cache_wfD(1) [OF wf])
  then have tag: "TAG_SCHEME (cache_cfg c) = CACHE_PHYSICALLY_TAGGED" by (simp add: cfg_ok_def)
  have idx: "?i < NUM_SETS (cache_cfg c)" using ok by simp
  obtain ln s where as: "AssociativeSearchByLineBasePhysicalAddress (LineBasePhysicalAddress (cache_cfg c) phys) (get_set ?i c) = (ln, s)"
    by fastforce
  note S = line_search_spec [OF wf, of phys, unfolded as fst_conv snd_conv]
  have e: "r = map_option (\<lambda>w. (?i, w)) ln" "c' = put_set ?i s c"
    using l as tag by (auto simp: LookupLineByAddress_def LookupSetByAddress_def Let_def)
  show "r = map_option (\<lambda>w. (?i, w)) (find_way c phys)" using e(1) S(1) by simp
  have c': "cache_cfg c' = cache_cfg c" "cache_enabled c' = cache_enabled c" "cache_sets c' = (cache_sets c)[?i := s]"
    by (simp_all add: e(2) put_set_def)
  show "same_cache c c'" "cache_wf k c'" using same_cache_put_set [OF wf idx S(2,3) c'] .
qed

section \<open>Invalidation\<close>

text \<open>
  InvalidateBlockByAddress removes the block that holds the address from the cache, valid or
  not, dirty or not, and no other block.
\<close>

theorem InvalidateBlockByAddress_removes:
  fixes c :: "('a::len, 'p::len, 'at, 'r) cache"
  assumes "cache_wf k c"
  shows "cache_wf k (InvalidateBlockByAddress addr phys c) \<and>
    block_at (InvalidateBlockByAddress addr phys c) x =
      (if unat x div BLOCK_SIZE (cache_cfg c) = unat phys div BLOCK_SIZE (cache_cfg c) then None else block_at c x)"
proof -
  let ?i = "IndexByPhysicalAddress (cache_cfg c) phys" and ?s = "SectorByPhysicalAddress (cache_cfg c) phys"
  obtain r c1 where l: "LookupLineByAddress addr phys c = (r, c1)" by fastforce
  note L = LookupLineByAddress_spec [OF assms l]
  have cf: "cache_cfg c1 = cache_cfg c" using L(2) by (simp add: same_cache_def)
  have b1: "block_at c1 y = block_at c y" for y by (rule same_cache_block_at [OF L(2) assms])
  have no: "block_at c phys = None \<Longrightarrow> block_no (cache_cfg c) x = block_no (cache_cfg c) phys \<Longrightarrow> block_at c x = None"
    using block_at_same_block [OF assms, of x phys] by simp
  show ?thesis
  proof (cases "block_at c phys")
    case None
    have "InvalidateBlockByAddress addr phys c = c1"
    proof (cases "find_way c phys")
      case (Some w)
      then have at: "way_at c1 phys ?i w" using same_cache_find_way [OF L(2) assms] by (simp add: way_at_def cf)
      have "\<not> blk_valid (get_block ?i w ?s c1)"
        using b1 [of phys] None block_at_way [OF at] by (simp add: block_in_def Let_def get_block_def cf split: if_splits)
      then show ?thesis using Some L(1) l by (simp add: InvalidateBlockByAddress_def LookupBlockByAddress_def Let_def)
    qed (use L(1) l in \<open>simp add: InvalidateBlockByAddress_def LookupBlockByAddress_def Let_def\<close>)
    then show ?thesis using L(3) b1 no None by (simp add: block_no_def)
  next
    case (Some p)
    then obtain st d where b: "block_at c1 phys = Some (st, d)" using b1 by (cases p) simp
    obtain w where w: "way_at c1 phys ?i w" "blk_valid (get_block ?i w ?s c1)" "blk_storage (get_block ?i w ?s c1) = st"
      "length st = BLOCK_SIZE (cache_cfg c)"
      using block_atD [OF L(3) b] unfolding cf by metis
    have fw: "find_way c phys = Some w" using w(1) same_cache_find_way [OF L(2) assms] by (simp add: way_at_def)
    have bb: "block_invalidate (get_block ?i w ?s c1) = (get_block ?i w ?s c1)\<lparr>blk_valid := False, blk_dirty := False, blk_storage := st\<rparr>"
      using w(3) by (simp add: block_invalidate_def)
    have "InvalidateBlockByAddress addr phys c = put_block ?i w ?s (block_invalidate (get_block ?i w ?s c1)) c1"
      using fw L(1) l w(2) by (simp add: InvalidateBlockByAddress_def LookupBlockByAddress_def Let_def)
    then show ?thesis
      using put_block_spec [OF L(3) w(1), unfolded cf, OF bb w(4)] b1 by (simp add: block_no_def)
  qed
qed

lemma example_cache_wf: "cache_wf 8 (cache_init (example_cfg 2 2 4 32) True 0)"
  by (rule cache_init_wf(1) [OF example_cfg_ok(1)])

theorem InvalidateBlockByAddress_removes_witness:
  "cache_wf 8 (InvalidateBlockByAddress 0x1106 0x2106 (cache_init (example_cfg 2 2 4 32) True 0))"
  using InvalidateBlockByAddress_removes [OF example_cache_wf] by blast

section \<open>Writing back at every level\<close>

lemma write_back_line_of_spec:
  fixes c :: "('a::len, 'p::len, 'at, 'r) cache" and ops :: "('m, 'p, 'at) mss_ops"
  assumes bus: "memory_bus ops view" and inv: "hier_inv k view (c # cs) ms" and en: "cache_enabled c"
  shows "\<exists>c' cs' ms'. write_back_line_of ops invl addr phys c cs ms = Some (True, c', cs', ms') \<and>
    hier_inv k view (c' # cs') ms' \<and> hview view (c' # cs') ms' = hview view (c # cs) ms \<and>
    same_shape (c # cs) (c' # cs') \<and>
    (\<forall>st. block_at c' phys \<noteq> Some (st, True)) \<and> (invl \<longrightarrow> block_at c' phys = None)"
proof -
  have wf: "cache_wf k c" using inv by simp
  obtain r c1 where l: "LookupLineByAddress addr phys c = (r, c1)" by fastforce
  note L = LookupLineByAddress_spec [OF wf l]
  let ?i = "IndexByPhysicalAddress (cache_cfg c) phys"
  have cf: "cache_cfg c1 = cache_cfg c" "cache_enabled c1" using L(2) en by (simp_all add: same_cache_def)
  have inv1: "hier_inv k view (c1 # cs) ms" by (rule hier_inv_same_cache [OF L(2,3) inv])
  have hv1: "hview view (c1 # cs) ms = hview view (c # cs) ms" using lview_same_cache [OF L(2) wf] by simp
  have fw1: "find_way c1 phys = find_way c phys" by (rule same_cache_find_way [OF L(2) wf])
  have ok: "cfg_ok k (cache_cfg c)" by (rule cache_wfD(1) [OF wf])
  have idx: "?i < NUM_SETS (cache_cfg c1)" using ok cf by simp
  show ?thesis
  proof (cases "find_way c phys")
    case None
    then have "block_at c1 phys = None" using fw1 by (simp add: block_at_def)
    then show ?thesis using None L(1) l inv1 hv1 cf en by (simp add: write_back_line_of_def)
  next
    case (Some w)
    have w: "w < ASSOCIATIVITY (cache_cfg c1)" using find_wayD(1) [OF Some] cf by simp
    from WriteBackLine_spec [OF bus inv1 cf(2) idx w, of invl] obtain c2 cs2 ms2
      where e: "WriteBackLine ops invl ?i w c1 cs ms = Some (True, c2, cs2, ms2)"
        and h: "hier_inv k view (c2 # cs2) ms2" "hview view (c2 # cs2) ms2 = hview view (c1 # cs) ms"
          "same_shape (c1 # cs) (c2 # cs2)" "\<And>x st. way_at c2 x ?i w \<Longrightarrow> block_at c2 x \<noteq> Some (st, True)"
          "invl \<Longrightarrow> \<not> ln_valid (get_line ?i w c2)"
        and fw2: "find_way c2 phys = find_way c1 phys \<or> find_way c2 phys = None" by blast
    have cf2: "cache_cfg c2 = cache_cfg c1" "cache_enabled c2" using h(3) cf by simp_all
    have at2: "way_at c2 phys ?i w \<or> find_way c2 phys = None"
      using fw2 fw1 Some cf2(1) cf(1) by (auto simp: way_at_def)
    have nd: "block_at c2 phys \<noteq> Some (st, True)" for st using at2 h(4) [of phys] by (auto simp: block_at_def)
    have e': "write_back_line_of ops invl addr phys c cs ms =
        Some (True, (if invl then invalidate_line_at ?i w c2 else c2), cs2, ms2)"
      using l L(1) Some e by (simp add: write_back_line_of_def)
    note sh = same_shape_trans [of "c # cs" "c1 # cs" "c2 # cs2"]
    show ?thesis
    proof (cases invl)
      case False
      then show ?thesis using e' h(1-3) hv1 nd cf en by simp
    next
      case True
      have nw: "\<not> way_at c2 x ?i w" for x using h(5) [OF True] way_atD(5) [of c2 x ?i w k] h(1) by auto
      note I = invalidate_clean_line [OF h(1) cf2(2) idx [folded cf2(1)] w [folded cf2(1)] h(4)]
      have n: "find_way c2 phys = None" using at2 nw by blast
      then have "block_at (invalidate_line_at ?i w c2) phys = None" using I(5) [of phys] nw by (simp add: block_at_def)
      then show ?thesis using e' True I(1-3) h(2,3) hv1 cf en by simp
    qed
  qed
qed

text \<open>
  C15: GlobalWriteBackLineByAddress over all levels, from a state that satisfies the coherence
  invariant, succeeds and makes the memory current: the memory behind the bus holds at the
  address the byte the hierarchy held there before, what the hierarchy holds has not changed,
  and with invalidation no level has the block any more.
\<close>

theorem GlobalWriteBackLine_flushes:
  fixes cs :: "('a::len, 'p::len, 'at, 'r) cache list" and ops :: "('m, 'p, 'at) mss_ops"
  assumes "memory_bus ops view" and "hier_inv k view cs ms" and "\<forall>c \<in> set cs. cache_enabled c" and "length cs \<le> Suc n"
  shows "\<exists>cs' ms'. GlobalWriteBackLineByAddress ops invl n addr phys cs ms = Some (True, cs', ms') \<and>
    hier_inv k view cs' ms' \<and> hview view cs' ms' = hview view cs ms \<and>
    mem view ms' phys = hview view cs ms phys \<and> (invl \<longrightarrow> (\<forall>c \<in> set cs'. block_at c phys = None))"
proof -
  have "\<exists>cs' ms'. GlobalWriteBackLineByAddress ops invl n addr phys cs ms = Some (True, cs', ms') \<and>
      hier_inv k view cs' ms' \<and> hview view cs' ms' = hview view cs ms \<and> same_shape cs cs' \<and>
      mem view ms' phys = hview view cs ms phys \<and> (invl \<longrightarrow> (\<forall>c \<in> set cs'. block_at c phys = None))"
    using assms(2-)
  proof (induction "length cs" arbitrary: cs ms n rule: less_induct)
    case less
    show ?case
    proof (cases cs)
      case Nil
      then show ?thesis by simp
    next
      case (Cons c cs0)
      have inv: "hier_inv k view (c # cs0) ms" and en: "cache_enabled c" using less.prems Cons by simp_all
      from write_back_line_of_spec [OF assms(1) inv en, of invl addr phys] obtain c1 cs1 ms1
        where e: "write_back_line_of ops invl addr phys c cs0 ms = Some (True, c1, cs1, ms1)"
          and h: "hier_inv k view (c1 # cs1) ms1" "hview view (c1 # cs1) ms1 = hview view (c # cs0) ms"
            "same_shape (c # cs0) (c1 # cs1)" "\<And>st. block_at c1 phys \<noteq> Some (st, True)" "invl \<Longrightarrow> block_at c1 phys = None" by blast
      have i1: "hier_inv k view cs1 ms1" and cf: "cache_enabled c1" "same_shape cs0 cs1"
        using h(1,3) en by simp_all
      have len1: "length cs1 < length cs" using same_shape_length [OF cf(2)] Cons by simp
      have cl: "lview v c1 phys = v phys" if "clean_ok v c1" for v
      proof (cases "block_at c1 phys")
        case (Some p)
        then show ?thesis using that h(4) by (cases p; cases "snd p") (auto simp: lview_def clean_ok_def)
      qed (simp add: lview_def)
      have g1: "hview view cs1 ms1 phys = hview view cs ms phys"
        using cl [of "hview view cs1 ms1"] h(1,2) cf(1) Cons by (simp add: fun_eq_iff)
      show ?thesis
      proof (cases n)
        case 0
        then have "cs0 = []" using less.prems(3) Cons by simp
        then have "cs1 = []" using cf(2) by simp
        then show ?thesis
          using e h g1 0 Cons by auto
      next
        case (Suc m)
        have en1: "\<forall>c \<in> set cs1. cache_enabled c"
        proof
          fix d assume "d \<in> set cs1"
          then obtain j where "j < length cs1" "d = cs1 ! j" by (auto simp: in_set_conv_nth)
          then show "cache_enabled d"
            using cf(2) less.prems(2) Cons unfolding same_shape_def by (auto simp: list_all2_conv_all_nth)
        qed
        have len: "length cs1 \<le> Suc m" using same_shape_length [OF cf(2)] less.prems(3) Cons Suc by simp
        from less.hyps [OF len1 i1 en1 len] obtain cs2 ms2
          where r: "GlobalWriteBackLineByAddress ops invl m addr phys cs1 ms1 = Some (True, cs2, ms2)"
            and g: "hier_inv k view cs2 ms2" "hview view cs2 ms2 = hview view cs1 ms1" "same_shape cs1 cs2"
              "mem view ms2 phys = hview view cs1 ms1 phys" "invl \<longrightarrow> (\<forall>c \<in> set cs2. block_at c phys = None)" by blast
        have "same_view k view (c1 # cs1) ms1 (c1 # cs2) ms2"
          using same_view_Cons [OF h(1)] g by (simp add: same_view_def)
        moreover have "same_shape (c # cs0) (c1 # cs2)"
          using h(3) same_shape_trans [OF cf(2) g(3)] by simp
        ultimately show ?thesis using e r g(4,5) g1 h(2,5) Cons Suc by (auto simp: same_view_def)
      qed
    qed
  qed
  then show ?thesis by blast
qed

theorem GlobalWriteBackLine_flushes_witness:
  "\<exists>cs' ms'. GlobalWriteBackLineByAddress example_bus True 1 (0x1106 :: 16 word) 0x2106 example_hierarchy example_mss =
      Some (True, cs', ms') \<and> mem (\<lambda>m. m) ms' 0x2106 = 6"
proof -
  have en: "\<forall>c \<in> set example_hierarchy. cache_enabled c" "length example_hierarchy \<le> Suc 1"
    by (simp_all add: example_hierarchy_def cache_init_def)
  from GlobalWriteBackLine_flushes [OF example_bus_ok(1) example_inv(1) en, of True "0x1106" "0x2106"]
  show ?thesis unfolding example_inv(2) by (auto simp: mem_def example_mss_def mss_init_def)
qed

end
