(* ===== verification/Memory_Sub_System.thy ===== *)
theory Memory_Sub_System
  imports Cache_Maintenance
begin

text \<open>
  The entry points of \<open>MemorySubSystem\<close> in \<open>util/cache/cache.hh\<close>: local memories in front of the
  data and instruction cache hierarchies, loads, stores and fetches with their statistics and
  shadow memory check, debug accesses of any size, and accesses coming in from the bus. The
  caches and the local memories of the object are two lists; a hierarchy or a local memory set
  is the list of the positions it names, so that the data and the instruction side share the
  levels they have in common.
\<close>

section \<open>Local memories\<close>

record (overloaded) ('p) local_memory =
  lm_BASE :: "'p word"
  lm_CONFIG_SIZE :: nat
  lm_GetSize :: nat
  lm_load_accesses :: u64
  lm_store_accesses :: u64
  lm_bytes :: "u8 list"

definition lm_init :: "'p::len word \<Rightarrow> nat \<Rightarrow> nat \<Rightarrow> 'p local_memory" where
  "lm_init base sz getsz =
     \<lparr>lm_BASE = base, lm_CONFIG_SIZE = sz, lm_GetSize = getsz, lm_load_accesses = 0,
      lm_store_accesses = 0, lm_bytes = replicate sz 0\<rparr>"

text \<open>\<open>GetSize\<close> can be overridden; the trampoline bounds it by the configured size.\<close>

definition lm_SIZE :: "'p::len local_memory \<Rightarrow> nat" where
  "lm_SIZE lm = (if lm_GetSize lm < lm_CONFIG_SIZE lm then lm_GetSize lm else lm_CONFIG_SIZE lm)"

definition lm_high :: "'p::len local_memory \<Rightarrow> 'p word" where
  "lm_high lm = lm_BASE lm + of_nat (lm_SIZE lm)"

definition lm_hit :: "'p::len local_memory \<Rightarrow> 'p word \<Rightarrow> bool" where
  "lm_hit lm phys \<longleftrightarrow> lm_BASE lm \<le> phys \<and> phys < lm_high lm"

definition lm_offset :: "'p::len local_memory \<Rightarrow> 'p word \<Rightarrow> nat" where
  "lm_offset lm phys = unat (phys - lm_BASE lm)"

section \<open>The state\<close>

record (overloaded) ('m, 'a, 'p, 'at, 'r) mss_sys =
  loc_mems :: "'p local_memory list"
  sys_caches :: "('a, 'p, 'at, 'r) cache list"
  DATA_LOCAL_MEMORIES :: "nat list"
  INSTRUCTION_LOCAL_MEMORIES :: "nat list"
  DATA_CACHE_HIERARCHY :: "nat list"
  INSTRUCTION_CACHE_HIERARCHY :: "nat list"
  sys_mss :: "('m, 'p) mss"

definition hierarchy_idx :: "bool \<Rightarrow> ('m, 'a::len, 'p::len, 'at, 'r) mss_sys \<Rightarrow> nat list" where
  "hierarchy_idx instr sys = (if instr then INSTRUCTION_CACHE_HIERARCHY sys else DATA_CACHE_HIERARCHY sys)"

definition local_idx :: "bool \<Rightarrow> ('m, 'a::len, 'p::len, 'at, 'r) mss_sys \<Rightarrow> nat list" where
  "local_idx instr sys = (if instr then INSTRUCTION_LOCAL_MEMORIES sys else DATA_LOCAL_MEMORIES sys)"

definition hierarchy :: "bool \<Rightarrow> ('m, 'a::len, 'p::len, 'at, 'r) mss_sys \<Rightarrow> ('a, 'p, 'at, 'r) cache list" where
  "hierarchy instr sys = map (\<lambda>i. sys_caches sys ! i) (hierarchy_idx instr sys)"

fun put_at :: "nat list \<Rightarrow> 'c list \<Rightarrow> 'c list \<Rightarrow> 'c list" where
  "put_at (i # is) (c # cs) xs = put_at is cs (xs[i := c])"
| "put_at _ _ xs = xs"

definition put_hierarchy ::
  "bool \<Rightarrow> ('a::len, 'p::len, 'at, 'r) cache list \<Rightarrow> ('m, 'p) mss \<Rightarrow> ('m, 'a, 'p, 'at, 'r) mss_sys \<Rightarrow>
   ('m, 'a, 'p, 'at, 'r) mss_sys" where
  "put_hierarchy instr cs ms sys =
     sys\<lparr>sys_caches := put_at (hierarchy_idx instr sys) cs (sys_caches sys), sys_mss := ms\<rparr>"

definition put_local ::
  "nat \<Rightarrow> 'p::len local_memory \<Rightarrow> ('m, 'a::len, 'p, 'at, 'r) mss_sys \<Rightarrow> ('m, 'a, 'p, 'at, 'r) mss_sys" where
  "put_local l lm sys = sys\<lparr>loc_mems := (loc_mems sys)[l := lm]\<rparr>"

section \<open>Loads and stores\<close>

text \<open>
  An access that starts in a local memory must end in it (an \<open>assert\<close>). The test against the
  size of the array is the one the \<open>memcpy\<close> relies on when the end address wraps.
\<close>

definition lm_fits :: "'p::len local_memory \<Rightarrow> 'p word \<Rightarrow> nat \<Rightarrow> bool" where
  "lm_fits lm phys n \<longleftrightarrow> phys + of_nat n \<le> lm_high lm \<and> lm_offset lm phys + n \<le> length (lm_bytes lm)"

fun LoadFromMSS ::
  "('m, 'p::len, 'at) mss_ops \<Rightarrow> bool \<Rightarrow> nat list \<Rightarrow> 'a::len word \<Rightarrow> 'p word \<Rightarrow> nat \<Rightarrow> 'at \<Rightarrow>
   ('m, 'a, 'p, 'at, 'r) mss_sys \<Rightarrow> (u8 list option \<times> ('m, 'a, 'p, 'at, 'r) mss_sys) option" where
  "LoadFromMSS ops instr [] addr phys n attr sys =
     (case LoadFromCacheHierarchy ops instr addr phys n attr (hierarchy instr sys) (sys_mss sys) of
        None \<Rightarrow> None
      | Some (r, cs, ms) \<Rightarrow> Some (r, put_hierarchy instr cs ms sys))"
| "LoadFromMSS ops instr (l # ls) addr phys n attr sys =
     (let lm = loc_mems sys ! l in
      if lm_hit lm phys
      then if lm_fits lm phys n
           then Some (Some (read_at (lm_bytes lm) (lm_offset lm phys) n),
                      put_local l (lm\<lparr>lm_load_accesses := lm_load_accesses lm + 1\<rparr>) sys)
           else None
      else LoadFromMSS ops instr ls addr phys n attr sys)"

fun StoreInMSS ::
  "('m, 'p::len, 'at) mss_ops \<Rightarrow> nat list \<Rightarrow> 'a::len word \<Rightarrow> 'p word \<Rightarrow> u8 list \<Rightarrow> 'at \<Rightarrow>
   ('m, 'a, 'p, 'at, 'r) mss_sys \<Rightarrow> (bool \<times> ('m, 'a, 'p, 'at, 'r) mss_sys) option" where
  "StoreInMSS ops [] addr phys bs attr sys =
     (case StoreInCacheHierarchy ops addr phys bs attr (hierarchy False sys) (sys_mss sys) of
        None \<Rightarrow> None
      | Some (ok, cs, ms) \<Rightarrow> Some (ok, put_hierarchy False cs ms sys))"
| "StoreInMSS ops (l # ls) addr phys bs attr sys =
     (let lm = loc_mems sys ! l in
      if lm_hit lm phys
      then if lm_fits lm phys (length bs)
           then Some (True, put_local l
                  (lm\<lparr>lm_bytes := write_at (lm_bytes lm) (lm_offset lm phys) bs,
                      lm_store_accesses := lm_store_accesses lm + 1\<rparr>) sys)
           else None
      else StoreInMSS ops ls addr phys bs attr sys)"

text \<open>\<open>Check\<close> compares with the shadow memory; on a difference it calls \<open>Trap\<close>.\<close>

definition mss_Check :: "u8 list \<Rightarrow> 'p::len word \<Rightarrow> ('m, 'p) mss \<Rightarrow> ('m, 'p) mss" where
  "mss_Check bs phys ms =
     (let (sh, m) = sparse_read (shadow_cf ms) phys (length bs) (shadow_memory ms);
          ms' = ms\<lparr>shadow_memory := m\<rparr>
      in if bs \<noteq> sh then ms'\<lparr>trap_calls := Suc (trap_calls ms')\<rparr> else ms')"

definition check_if_enabled ::
  "u8 list \<Rightarrow> 'p::len word \<Rightarrow> ('m, 'a::len, 'p, 'at, 'r) mss_sys \<Rightarrow> ('m, 'a, 'p, 'at, 'r) mss_sys" where
  "check_if_enabled bs phys sys =
     (if enable_shadow_memory (sys_mss sys) then sys\<lparr>sys_mss := mss_Check bs phys (sys_mss sys)\<rparr> else sys)"

definition DataLoad ::
  "('m, 'p::len, 'at) mss_ops \<Rightarrow> 'a::len word \<Rightarrow> 'p word \<Rightarrow> nat \<Rightarrow> 'at \<Rightarrow>
   ('m, 'a, 'p, 'at, 'r) mss_sys \<Rightarrow> (u8 list option \<times> ('m, 'a, 'p, 'at, 'r) mss_sys) option" where
  "DataLoad ops addr phys n attr sys =
     (case LoadFromMSS ops False (DATA_LOCAL_MEMORIES sys) addr phys n attr sys of
        None \<Rightarrow> None
      | Some (None, sys') \<Rightarrow> Some (None, sys')
      | Some (Some bs, sys') \<Rightarrow>
          let ms = sys_mss sys' in
          Some (Some bs, check_if_enabled bs phys (sys'\<lparr>sys_mss :=
             ms\<lparr>num_data_load_accesses := num_data_load_accesses ms + 1,
                num_data_load_xfered_bytes := num_data_load_xfered_bytes ms + of_nat n\<rparr>\<rparr>)))"

definition DataStore ::
  "('m, 'p::len, 'at) mss_ops \<Rightarrow> 'a::len word \<Rightarrow> 'p word \<Rightarrow> u8 list \<Rightarrow> 'at \<Rightarrow>
   ('m, 'a, 'p, 'at, 'r) mss_sys \<Rightarrow> (bool \<times> ('m, 'a, 'p, 'at, 'r) mss_sys) option" where
  "DataStore ops addr phys bs attr sys =
     (case StoreInMSS ops (DATA_LOCAL_MEMORIES sys) addr phys bs attr sys of
        None \<Rightarrow> None
      | Some (False, sys') \<Rightarrow> Some (False, sys')
      | Some (True, sys') \<Rightarrow>
          let ms = sys_mss sys' in
          Some (True, sys'\<lparr>sys_mss := shadow_write phys bs
             (ms\<lparr>num_data_store_accesses := num_data_store_accesses ms + 1,
                 num_data_store_xfered_bytes := num_data_store_xfered_bytes ms + of_nat (length bs)\<rparr>)\<rparr>))"

definition InstructionFetch ::
  "('m, 'p::len, 'at) mss_ops \<Rightarrow> 'a::len word \<Rightarrow> 'p word \<Rightarrow> nat \<Rightarrow> 'at \<Rightarrow>
   ('m, 'a, 'p, 'at, 'r) mss_sys \<Rightarrow> (u8 list option \<times> ('m, 'a, 'p, 'at, 'r) mss_sys) option" where
  "InstructionFetch ops addr phys n attr sys =
     (case LoadFromMSS ops True (INSTRUCTION_LOCAL_MEMORIES sys) addr phys n attr sys of
        None \<Rightarrow> None
      | Some (None, sys') \<Rightarrow> Some (None, sys')
      | Some (Some bs, sys') \<Rightarrow>
          let ms = sys_mss sys' in
          Some (Some bs, check_if_enabled bs phys (sys'\<lparr>sys_mss :=
             ms\<lparr>num_instruction_fetch_accesses := num_instruction_fetch_accesses ms + 1,
                num_instruction_fetch_xfered_bytes :=
                  num_instruction_fetch_xfered_bytes ms + of_nat n\<rparr>\<rparr>)))"

section \<open>Debug accesses\<close>

text \<open>The bytes of the first local memory of the list that is hit; empty stands for the 0 of the source.\<close>

definition lm_room :: "'p::len local_memory \<Rightarrow> 'p word \<Rightarrow> nat \<Rightarrow> nat" where
  "lm_room lm phys n = min (unat (ucast (lm_high lm - phys) :: u32)) n"

fun DebugLoadFromLocalMemory ::
  "nat list \<Rightarrow> 'p::len word \<Rightarrow> nat \<Rightarrow> ('m, 'a::len, 'p, 'at, 'r) mss_sys \<Rightarrow> u8 list" where
  "DebugLoadFromLocalMemory [] phys n sys = []"
| "DebugLoadFromLocalMemory (l # ls) phys n sys =
     (let lm = loc_mems sys ! l in
      if lm_hit lm phys then read_at (lm_bytes lm) (lm_offset lm phys) (lm_room lm phys n)
      else DebugLoadFromLocalMemory ls phys n sys)"

fun DebugStoreInLocalMemory ::
  "nat list \<Rightarrow> 'p::len word \<Rightarrow> u8 list \<Rightarrow> ('m, 'a::len, 'p, 'at, 'r) mss_sys \<Rightarrow>
   nat \<times> ('m, 'a, 'p, 'at, 'r) mss_sys" where
  "DebugStoreInLocalMemory [] phys bs sys = (0, sys)"
| "DebugStoreInLocalMemory (l # ls) phys bs sys =
     (let lm = loc_mems sys ! l in
      if lm_hit lm phys
      then let sz = lm_room lm phys (length bs)
           in (sz, put_local l (lm\<lparr>lm_bytes := write_at (lm_bytes lm) (lm_offset lm phys) (take sz bs)\<rparr>) sys)
      else DebugStoreInLocalMemory ls phys bs sys)"

text \<open>\<open>CACHE_HIERARCHY::L1CACHE::BLOCK_SIZE\<close>; a \<open>NullCache\<close> has blocks of one byte.\<close>

definition l1_block_size :: "('a::len, 'p::len, 'at, 'r) cache list \<Rightarrow> nat" where
  "l1_block_size cs = (case cs of [] \<Rightarrow> 1 | c # _ \<Rightarrow> BLOCK_SIZE (cache_cfg c))"

definition external_size :: "bool \<Rightarrow> 'a::len word \<Rightarrow> nat \<Rightarrow> ('m, 'a, 'p::len, 'at, 'r) mss_sys \<Rightarrow> nat" where
  "external_size instr addr n sys =
     (let b = l1_block_size (hierarchy instr sys) in min n (b - unat addr mod b))"

text \<open>
  The loops of \<open>DebugLoadFromMSS\<close> and \<open>DebugStoreInMSS\<close>. A chunk of 0 bytes (a block size of 0,
  a division by zero in the source) ends in \<open>None\<close>. A chunk that cannot be read is filled with
  zeros and makes the status false.
\<close>

function DebugLoadFromMSS ::
  "('m, 'p::len, 'at) mss_ops \<Rightarrow> bool \<Rightarrow> nat list \<Rightarrow> 'a::len word \<Rightarrow> 'p word \<Rightarrow> nat \<Rightarrow> 'at \<Rightarrow>
   ('m, 'a, 'p, 'at, 'r) mss_sys \<Rightarrow> (bool \<times> u8 list \<times> ('m, 'a, 'p, 'at, 'r) mss_sys) option" where
  "DebugLoadFromMSS ops instr locs addr phys n attr sys =
     (if n = 0 then Some (True, [], sys)
      else
        let loc = DebugLoadFromLocalMemory locs phys n sys;
            sz = (if loc \<noteq> [] then length loc else external_size instr addr n sys)
        in if sz = 0 then None
           else
             (case (if loc \<noteq> [] then Some (True, loc, sys)
                    else case DebugLoadFromCacheHierarchy ops instr addr phys sz attr
                                (hierarchy instr sys) (sys_mss sys) of
                           None \<Rightarrow> None
                         | Some (None, cs, ms) \<Rightarrow> Some (False, replicate sz 0, put_hierarchy instr cs ms sys)
                         | Some (Some bs, cs, ms) \<Rightarrow> Some (True, bs, put_hierarchy instr cs ms sys)) of
                None \<Rightarrow> None
              | Some (ok, bs, sys1) \<Rightarrow>
                  (case DebugLoadFromMSS ops instr locs (addr + of_nat sz) (phys + of_nat sz) (n - sz) attr sys1 of
                     None \<Rightarrow> None
                   | Some (ok', bs', sys2) \<Rightarrow> Some (ok \<and> ok', bs @ bs', sys2))))"
  by pat_completeness auto
termination
  by (relation "measure (\<lambda>(ops, instr, locs, addr, phys, n, attr, sys). n)") auto

function DebugStoreInMSS ::
  "('m, 'p::len, 'at) mss_ops \<Rightarrow> nat list \<Rightarrow> 'a::len word \<Rightarrow> 'p word \<Rightarrow> u8 list \<Rightarrow> 'at \<Rightarrow>
   ('m, 'a, 'p, 'at, 'r) mss_sys \<Rightarrow> (bool \<times> ('m, 'a, 'p, 'at, 'r) mss_sys) option" where
  "DebugStoreInMSS ops locs addr phys bs attr sys =
     (if bs = [] then Some (True, sys)
      else
        let (lsz, lsys) = DebugStoreInLocalMemory locs phys bs sys;
            sz = (if lsz \<noteq> 0 then lsz else external_size False addr (length bs) sys)
        in if sz = 0 then None
           else
             (case (if lsz \<noteq> 0 then Some (True, lsys)
                    else case DebugStoreInCacheHierarchy ops addr phys (take sz bs) attr
                                (hierarchy False sys) (sys_mss sys) of
                           None \<Rightarrow> None
                         | Some (ok, cs, ms) \<Rightarrow> Some (ok, put_hierarchy False cs ms sys)) of
                None \<Rightarrow> None
              | Some (ok, sys1) \<Rightarrow>
                  (case DebugStoreInMSS ops locs (addr + of_nat sz) (phys + of_nat sz) (drop sz bs) attr sys1 of
                     None \<Rightarrow> None
                   | Some (ok', sys2) \<Rightarrow> Some (ok \<and> ok', sys2))))"
  by pat_completeness auto
termination
  by (relation "measure (\<lambda>(ops, locs, addr, phys, bs, attr, sys). length bs)") auto

declare DebugLoadFromMSS.simps [simp del] DebugStoreInMSS.simps [simp del]

definition DebugDataLoad ::
  "('m, 'p::len, 'at) mss_ops \<Rightarrow> 'a::len word \<Rightarrow> 'p word \<Rightarrow> nat \<Rightarrow> 'at \<Rightarrow>
   ('m, 'a, 'p, 'at, 'r) mss_sys \<Rightarrow> (bool \<times> u8 list \<times> ('m, 'a, 'p, 'at, 'r) mss_sys) option" where
  "DebugDataLoad ops addr phys n attr sys =
     (case DebugLoadFromMSS ops False (DATA_LOCAL_MEMORIES sys) addr phys n attr sys of
        None \<Rightarrow> None
      | Some (False, bs, sys') \<Rightarrow> Some (False, bs, sys')
      | Some (True, bs, sys') \<Rightarrow> Some (True, bs, check_if_enabled bs phys sys'))"

definition DebugInstructionFetch ::
  "('m, 'p::len, 'at) mss_ops \<Rightarrow> 'a::len word \<Rightarrow> 'p word \<Rightarrow> nat \<Rightarrow> 'at \<Rightarrow>
   ('m, 'a, 'p, 'at, 'r) mss_sys \<Rightarrow> (bool \<times> u8 list \<times> ('m, 'a, 'p, 'at, 'r) mss_sys) option" where
  "DebugInstructionFetch ops addr phys n attr sys =
     (case DebugLoadFromMSS ops True (INSTRUCTION_LOCAL_MEMORIES sys) addr phys n attr sys of
        None \<Rightarrow> None
      | Some (False, bs, sys') \<Rightarrow> Some (False, bs, sys')
      | Some (True, bs, sys') \<Rightarrow> Some (True, bs, check_if_enabled bs phys sys'))"

definition DebugDataStore ::
  "('m, 'p::len, 'at) mss_ops \<Rightarrow> 'a::len word \<Rightarrow> 'p word \<Rightarrow> u8 list \<Rightarrow> 'at \<Rightarrow>
   ('m, 'a, 'p, 'at, 'r) mss_sys \<Rightarrow> (bool \<times> ('m, 'a, 'p, 'at, 'r) mss_sys) option" where
  "DebugDataStore ops addr phys bs attr sys =
     (case DebugStoreInMSS ops (DATA_LOCAL_MEMORIES sys) addr phys bs attr sys of
        None \<Rightarrow> None
      | Some (False, sys') \<Rightarrow> Some (False, sys')
      | Some (True, sys') \<Rightarrow> Some (True, sys'\<lparr>sys_mss := shadow_write phys bs (sys_mss sys')\<rparr>))"

section \<open>Accesses coming in from the bus\<close>

fun IncomingLoadFromLocalMemory ::
  "nat list \<Rightarrow> 'p::len word \<Rightarrow> nat \<Rightarrow> ('m, 'a::len, 'p, 'at, 'r) mss_sys \<Rightarrow>
   u8 list \<times> ('m, 'a, 'p, 'at, 'r) mss_sys" where
  "IncomingLoadFromLocalMemory [] phys n sys = ([], sys)"
| "IncomingLoadFromLocalMemory (l # ls) phys n sys =
     (let lm = loc_mems sys ! l in
      if lm_hit lm phys
      then (read_at (lm_bytes lm) (lm_offset lm phys) (lm_room lm phys n),
            put_local l (lm\<lparr>lm_load_accesses := lm_load_accesses lm + 1\<rparr>) sys)
      else IncomingLoadFromLocalMemory ls phys n sys)"

fun IncomingStoreInLocalMemory ::
  "nat list \<Rightarrow> 'p::len word \<Rightarrow> u8 list \<Rightarrow> ('m, 'a::len, 'p, 'at, 'r) mss_sys \<Rightarrow>
   nat \<times> ('m, 'a, 'p, 'at, 'r) mss_sys" where
  "IncomingStoreInLocalMemory [] phys bs sys = (0, sys)"
| "IncomingStoreInLocalMemory (l # ls) phys bs sys =
     (let lm = loc_mems sys ! l in
      if lm_hit lm phys
      then let sz = lm_room lm phys (length bs)
           in (sz, put_local l (lm\<lparr>lm_bytes := write_at (lm_bytes lm) (lm_offset lm phys) (take sz bs),
                                   lm_store_accesses := lm_store_accesses lm + 1\<rparr>) sys)
      else IncomingStoreInLocalMemory ls phys bs sys)"

text \<open>The loops; the flag tells whether the whole range was accessed, else the source returns early.\<close>

function incoming_load_loop ::
  "'p::len word \<Rightarrow> nat \<Rightarrow> ('m, 'a::len, 'p, 'at, 'r) mss_sys \<Rightarrow> bool \<times> u8 list \<times> ('m, 'a, 'p, 'at, 'r) mss_sys" where
  "incoming_load_loop phys n sys =
     (if n = 0 then (True, [], sys)
      else
        let (bs1, sys1) = IncomingLoadFromLocalMemory (INSTRUCTION_LOCAL_MEMORIES sys) phys n sys;
            (bs, sys2) = (if bs1 = [] then IncomingLoadFromLocalMemory (DATA_LOCAL_MEMORIES sys1) phys n sys1
                          else (bs1, sys1))
        in if bs = [] then (False, [], sys2)
           else let (ok, bs', sys3) = incoming_load_loop (phys + of_nat (length bs)) (n - length bs) sys2
                in (ok, bs @ bs', sys3))"
  by pat_completeness auto
termination
  by (relation "measure (\<lambda>(phys, n, sys). n)") auto

function incoming_store_loop ::
  "'p::len word \<Rightarrow> u8 list \<Rightarrow> ('m, 'a::len, 'p, 'at, 'r) mss_sys \<Rightarrow> bool \<times> nat \<times> ('m, 'a, 'p, 'at, 'r) mss_sys" where
  "incoming_store_loop phys bs sys =
     (if bs = [] then (True, 0, sys)
      else
        let (n1, sys1) = IncomingStoreInLocalMemory (INSTRUCTION_LOCAL_MEMORIES sys) phys bs sys;
            (sz, sys2) = (if n1 = 0 then IncomingStoreInLocalMemory (DATA_LOCAL_MEMORIES sys1) phys bs sys1
                          else (n1, sys1))
        in if sz = 0 then (False, 0, sys2)
           else let (ok, m, sys3) = incoming_store_loop (phys + of_nat sz) (drop sz bs) sys2
                in (ok, sz + m, sys3))"
  by pat_completeness auto
termination
  by (relation "measure (\<lambda>(phys, bs, sys). length bs)") auto

declare incoming_load_loop.simps [simp del] incoming_store_loop.simps [simp del]

text \<open>The bytes read; their number is the result of the source.\<close>

definition IncomingLoad ::
  "'p::len word \<Rightarrow> nat \<Rightarrow> ('m, 'a::len, 'p, 'at, 'r) mss_sys \<Rightarrow> u8 list \<times> ('m, 'a, 'p, 'at, 'r) mss_sys" where
  "IncomingLoad phys n sys =
     (case incoming_load_loop phys n sys of
        (False, bs, sys') \<Rightarrow> (bs, sys')
      | (True, bs, sys') \<Rightarrow>
          let ms = sys_mss sys' in
          (bs, sys'\<lparr>sys_mss := ms\<lparr>num_incoming_load_accesses := num_incoming_load_accesses ms + 1,
             num_incoming_load_xfered_bytes := num_incoming_load_xfered_bytes ms + of_nat (length bs)\<rparr>\<rparr>))"

definition IncomingStore ::
  "'p::len word \<Rightarrow> u8 list \<Rightarrow> ('m, 'a::len, 'p, 'at, 'r) mss_sys \<Rightarrow> nat \<times> ('m, 'a, 'p, 'at, 'r) mss_sys" where
  "IncomingStore phys bs sys =
     (case incoming_store_loop phys bs sys of
        (False, m, sys') \<Rightarrow> (m, sys')
      | (True, m, sys') \<Rightarrow>
          let ms = sys_mss sys' in
          (m, sys'\<lparr>sys_mss := ms\<lparr>num_incoming_store_accesses := num_incoming_store_accesses ms + 1,
             num_incoming_store_xfered_bytes := num_incoming_store_xfered_bytes ms + of_nat m\<rparr>\<rparr>))"

text \<open>The local memory granted, with the first and last address it covers.\<close>

fun GetDirectAccessToLocalMemory ::
  "nat list \<Rightarrow> 'p::len word \<Rightarrow> ('m, 'a::len, 'p, 'at, 'r) mss_sys \<Rightarrow> (nat \<times> 'p word \<times> 'p word) option" where
  "GetDirectAccessToLocalMemory [] phys sys = None"
| "GetDirectAccessToLocalMemory (l # ls) phys sys =
     (let lm = loc_mems sys ! l in
      if lm_hit lm phys then Some (l, lm_BASE lm, lm_high lm - 1)
      else GetDirectAccessToLocalMemory ls phys sys)"

definition GetDirectAccess ::
  "'p::len word \<Rightarrow> ('m, 'a::len, 'p, 'at, 'r) mss_sys \<Rightarrow> (nat \<times> 'p word \<times> 'p word) option" where
  "GetDirectAccess phys sys =
     (case GetDirectAccessToLocalMemory (INSTRUCTION_LOCAL_MEMORIES sys) phys sys of
        Some r \<Rightarrow> Some r
      | None \<Rightarrow> GetDirectAccessToLocalMemory (DATA_LOCAL_MEMORIES sys) phys sys)"

end
