(* ===== verification/System_Access.thy ===== *)
theory System_Access
  imports Memory_Sub_System
begin

text \<open>
  What a memory sub-system holds at an address, seen from its data or its instruction side, and
  the accesses of \<open>Memory_Sub_System\<close> against that view.
\<close>

section \<open>Local memories\<close>

definition loc_ok :: "'p::len local_memory \<Rightarrow> bool" where
  "loc_ok lm \<longleftrightarrow> length (lm_bytes lm) = lm_CONFIG_SIZE lm \<and> unat (lm_BASE lm) + lm_SIZE lm < 2 ^ LENGTH('p) \<and>
     lm_SIZE lm < 2 ^ 32"

lemma lm_SIZE_le: "lm_SIZE lm \<le> lm_CONFIG_SIZE lm"
  by (simp add: lm_SIZE_def)

lemma unat_lm_high:
  assumes "loc_ok lm" shows "unat (lm_high lm) = unat (lm_BASE lm) + lm_SIZE lm"
  using assms unfolding lm_high_def loc_ok_def by (simp add: unat_word_ariths unat_of_nat)

lemma lm_hit_iff:
  assumes "loc_ok lm"
  shows "lm_hit lm x \<longleftrightarrow> unat (lm_BASE lm) \<le> unat x \<and> unat x < unat (lm_BASE lm) + lm_SIZE lm"
  using unat_lm_high [OF assms] by (simp add: lm_hit_def word_le_nat_alt word_less_nat_alt)

lemma lm_offset_hit:
  assumes "loc_ok lm" "lm_hit lm x"
  shows "lm_offset lm x = unat x - unat (lm_BASE lm)" "lm_offset lm x < length (lm_bytes lm)"
proof -
  show e: "lm_offset lm x = unat x - unat (lm_BASE lm)"
    using assms(2) by (simp add: lm_offset_def lm_hit_def unat_sub)
  show "lm_offset lm x < length (lm_bytes lm)"
    using assms lm_SIZE_le [of lm] unfolding e lm_hit_iff [OF assms(1)] loc_ok_def by linarith
qed

lemma lm_room_hit:
  assumes "loc_ok lm" "lm_hit lm x"
  shows "lm_room lm x n = min (unat (lm_BASE lm) + lm_SIZE lm - unat x) n"
    and "lm_offset lm x + lm_room lm x n \<le> length (lm_bytes lm)"
    and "0 < n \<Longrightarrow> 0 < lm_room lm x n"
proof -
  have h: "unat (lm_BASE lm) \<le> unat x" "unat x < unat (lm_BASE lm) + lm_SIZE lm" using assms lm_hit_iff by blast+
  have le: "x \<le> lm_high lm" using assms(2) by (auto simp: lm_hit_def)
  have u: "unat (lm_high lm - x) = unat (lm_BASE lm) + lm_SIZE lm - unat x"
    using unat_sub [OF le] unat_lm_high [OF assms(1)] by simp
  have "unat (lm_high lm - x) < 2 ^ 32" using u h assms(1) unfolding loc_ok_def by linarith
  then have "unat (ucast (lm_high lm - x) :: u32) = unat (lm_high lm - x)"
    by (simp add: unsigned_ucast_eq take_bit_nat_eq_self)
  then show r: "lm_room lm x n = min (unat (lm_BASE lm) + lm_SIZE lm - unat x) n" by (simp add: lm_room_def u)
  show "lm_offset lm x + lm_room lm x n \<le> length (lm_bytes lm)"
    using h lm_SIZE_le [of lm] assms(1) unfolding r lm_offset_hit(1) [OF assms] loc_ok_def by linarith
  show "0 < n \<Longrightarrow> 0 < lm_room lm x n" using h unfolding r by simp
qed

definition lm_byte :: "'p::len local_memory \<Rightarrow> 'p word \<Rightarrow> u8" where
  "lm_byte lm x = lm_bytes lm ! (unat x - unat (lm_BASE lm))"

lemma read_local:
  assumes ok: "loc_ok lm" and h: "lm_hit lm x" and f: "lm_offset lm x + n \<le> length (lm_bytes lm)"
    and b: "unat x + n \<le> 2 ^ LENGTH('p)"
  shows "read_at (lm_bytes lm) (lm_offset lm x) n = seg_read (lm_byte lm) (x :: 'p::len word) n"
proof (rule nth_equalityI)
  show "length (read_at (lm_bytes lm) (lm_offset lm x) n) = length (seg_read (lm_byte lm) x n)" using f by simp
  fix j assume "j < length (read_at (lm_bytes lm) (lm_offset lm x) n)"
  then have j: "j < n" using f by simp
  have "unat (lm_BASE lm) \<le> unat x" using lm_hit_iff [OF ok] h by blast
  then show "read_at (lm_bytes lm) (lm_offset lm x) n ! j = seg_read (lm_byte lm) x n ! j"
    using j f unat_seg_add [OF b j] lm_offset_hit(1) [OF ok h]
    by (simp add: nth_read_at seg_read_def lm_byte_def)
qed

lemma write_local:
  assumes ok: "loc_ok lm" and h: "lm_hit lm x" and f: "lm_offset lm x + length bs \<le> length (lm_bytes lm)"
    and y: "lm_hit lm y"
  shows "write_at (lm_bytes lm) (lm_offset lm x) bs ! (unat y - unat (lm_BASE lm)) = seg_upd (lm_byte lm) x bs y"
proof -
  have o: "lm_offset lm x = unat x - unat (lm_BASE lm)" "unat y - unat (lm_BASE lm) < length (lm_bytes lm)"
    using lm_offset_hit [OF ok h] lm_offset_hit [OF ok y] by simp_all
  have le: "unat (lm_BASE lm) \<le> unat x" "unat (lm_BASE lm) \<le> unat y" using lm_hit_iff [OF ok] h y by blast+
  have "(lm_offset lm x \<le> unat y - unat (lm_BASE lm) \<and> unat y - unat (lm_BASE lm) < lm_offset lm x + length bs) = in_seg x (length bs) y"
    using o(1) le unfolding in_seg_def by linarith
  moreover have "unat y - unat (lm_BASE lm) - lm_offset lm x = unat y - unat x" using o(1) le by linarith
  ultimately show ?thesis using f o(2) by (simp add: nth_write_at seg_upd_def lm_byte_def)
qed

section \<open>The first local memory hit\<close>

definition first_hit :: "nat list \<Rightarrow> ('m, 'a::len, 'p::len, 'at, 'r) mss_sys \<Rightarrow> 'p word \<Rightarrow> nat option" where
  "first_hit locs sys x = find (\<lambda>l. lm_hit (loc_mems sys ! l) x) locs"

lemma first_hitD: "first_hit locs sys x = Some l \<Longrightarrow> l \<in> set locs \<and> lm_hit (loc_mems sys ! l) x"
  unfolding first_hit_def find_Some_iff by auto

lemma LoadFromMSS_first:
  "LoadFromMSS ops instr locs addr phys n attr sys =
     (case first_hit locs sys phys of
        None \<Rightarrow> LoadFromMSS ops instr [] addr phys n attr sys
      | Some l \<Rightarrow>
          let lm = loc_mems sys ! l in
          if lm_fits lm phys n
          then Some (Some (read_at (lm_bytes lm) (lm_offset lm phys) n),
                     put_local l (lm\<lparr>lm_load_accesses := lm_load_accesses lm + 1\<rparr>) sys)
          else None)"
  by (induction locs) (simp_all add: first_hit_def Let_def)

lemma StoreInMSS_first:
  "StoreInMSS ops locs addr phys bs attr sys =
     (case first_hit locs sys phys of
        None \<Rightarrow> StoreInMSS ops [] addr phys bs attr sys
      | Some l \<Rightarrow>
          let lm = loc_mems sys ! l in
          if lm_fits lm phys (length bs)
          then Some (True, put_local l
                  (lm\<lparr>lm_bytes := write_at (lm_bytes lm) (lm_offset lm phys) bs,
                      lm_store_accesses := lm_store_accesses lm + 1\<rparr>) sys)
          else None)"
  by (induction locs) (simp_all add: first_hit_def Let_def)

lemma DebugLoad_first:
  "DebugLoadFromLocalMemory locs phys n sys =
     (case first_hit locs sys phys of
        None \<Rightarrow> []
      | Some l \<Rightarrow> let lm = loc_mems sys ! l in read_at (lm_bytes lm) (lm_offset lm phys) (lm_room lm phys n))"
  by (induction locs) (simp_all add: first_hit_def Let_def)

lemma IncomingLoad_first:
  "IncomingLoadFromLocalMemory locs phys n sys =
     (case first_hit locs sys phys of
        None \<Rightarrow> ([], sys)
      | Some l \<Rightarrow> let lm = loc_mems sys ! l in
          (read_at (lm_bytes lm) (lm_offset lm phys) (lm_room lm phys n),
           put_local l (lm\<lparr>lm_load_accesses := lm_load_accesses lm + 1\<rparr>) sys))"
  by (induction locs) (simp_all add: first_hit_def Let_def)

section \<open>The view of one side\<close>

definition sys_byte ::
  "('m \<Rightarrow> 'p word \<Rightarrow> u8) \<Rightarrow> bool \<Rightarrow> ('m, 'a::len, 'p::len, 'at, 'r) mss_sys \<Rightarrow> 'p word \<Rightarrow> u8" where
  "sys_byte view instr sys x =
     (case first_hit (local_idx instr sys) sys x of
        Some l \<Rightarrow> lm_byte (loc_mems sys ! l) x
      | None \<Rightarrow> hview view (hierarchy instr sys) (sys_mss sys) x)"

definition sys_ok ::
  "nat \<Rightarrow> ('m \<Rightarrow> 'p word \<Rightarrow> u8) \<Rightarrow> bool \<Rightarrow> ('m, 'a::len, 'p::len, 'at, 'r) mss_sys \<Rightarrow> bool" where
  "sys_ok k view instr sys \<longleftrightarrow>
     distinct (hierarchy_idx instr sys) \<and> (\<forall>i \<in> set (hierarchy_idx instr sys). i < length (sys_caches sys)) \<and>
     (\<forall>l \<in> set (local_idx instr sys). l < length (loc_mems sys) \<and> loc_ok (loc_mems sys ! l)) \<and>
     hier_inv k view (hierarchy instr sys) (sys_mss sys)"

lemma put_at_length [simp]: "length (put_at is cs xs) = length xs"
  by (induction "is" cs xs rule: put_at.induct) simp_all

lemma put_at_other: "j \<notin> set is \<Longrightarrow> put_at is cs xs ! j = xs ! j"
  by (induction "is" cs xs rule: put_at.induct) auto

lemma map_put_at:
  "distinct is \<Longrightarrow> \<forall>i \<in> set is. i < length xs \<Longrightarrow> length cs = length is \<Longrightarrow> map (\<lambda>i. put_at is cs xs ! i) is = cs"
proof (induction "is" cs xs rule: put_at.induct)
  case (1 i "is" c cs xs)
  have "put_at is cs (xs[i := c]) ! i = c" using 1 by (subst put_at_other) auto
  then show ?case using 1 by simp
qed simp_all

lemma put_hierarchy_simps [simp]:
  "hierarchy_idx i (put_hierarchy instr cs ms sys) = hierarchy_idx i sys"
  "local_idx i (put_hierarchy instr cs ms sys) = local_idx i sys"
  "loc_mems (put_hierarchy instr cs ms sys) = loc_mems sys"
  "sys_mss (put_hierarchy instr cs ms sys) = ms"
  "length (sys_caches (put_hierarchy instr cs ms sys)) = length (sys_caches sys)"
  "first_hit locs (put_hierarchy instr cs ms sys) = first_hit locs sys"
  by (simp_all add: put_hierarchy_def hierarchy_idx_def local_idx_def first_hit_def fun_eq_iff)

lemma hierarchy_put:
  assumes "sys_ok k view instr sys" and "length cs = length (hierarchy instr sys)"
  shows "hierarchy instr (put_hierarchy instr cs ms sys) = cs"
  using assms map_put_at [of "hierarchy_idx instr sys" "sys_caches sys" cs]
  unfolding hierarchy_def put_hierarchy_simps by (simp add: sys_ok_def put_hierarchy_def hierarchy_def)

lemma sys_put_hierarchy:
  assumes ok: "sys_ok k view instr sys" and inv: "hier_inv k view cs ms" and sh: "same_shape (hierarchy instr sys) cs"
  shows "sys_ok k view instr (put_hierarchy instr cs ms sys)"
    and "sys_byte view instr (put_hierarchy instr cs ms sys) x =
      (case first_hit (local_idx instr sys) sys x of Some l \<Rightarrow> lm_byte (loc_mems sys ! l) x | None \<Rightarrow> hview view cs ms x)"
  using ok inv hierarchy_put [OF ok same_shape_length [OF sh]]
  by (auto simp: sys_ok_def sys_byte_def split: option.split)

lemma hview_mem: "mem view ms = mem view ms' \<Longrightarrow> hview view cs ms = hview view cs ms'"
  by (induction cs) simp_all

lemma hier_inv_mem: "mem view ms = mem view ms' \<Longrightarrow> hier_inv k view cs ms = hier_inv k view cs ms'"
  by (induction cs) (simp_all add: hview_mem [of view ms ms'])

lemma set_mss_simps [simp]:
  "hierarchy_idx i (sys\<lparr>sys_mss := ms\<rparr>) = hierarchy_idx i sys" "local_idx i (sys\<lparr>sys_mss := ms\<rparr>) = local_idx i sys"
  "hierarchy i (sys\<lparr>sys_mss := ms\<rparr>) = hierarchy i sys" "first_hit locs (sys\<lparr>sys_mss := ms\<rparr>) = first_hit locs sys"
  by (simp_all add: hierarchy_def hierarchy_idx_def local_idx_def first_hit_def fun_eq_iff)

lemma sys_set_mss:
  assumes "mem view ms = mem view (sys_mss sys)"
  shows "sys_ok k view instr (sys\<lparr>sys_mss := ms\<rparr>) = sys_ok k view instr sys"
    and "sys_byte view instr (sys\<lparr>sys_mss := ms\<rparr>) = sys_byte view instr sys"
  by (simp_all add: sys_ok_def sys_byte_def fun_eq_iff hview_mem [OF assms] hier_inv_mem [OF assms] cong: option.case_cong)

text \<open>Replacing the contents and counters of a local memory.\<close>

definition lm_same :: "'p::len local_memory \<Rightarrow> 'p local_memory \<Rightarrow> bool" where
  "lm_same lm lm' \<longleftrightarrow> lm_BASE lm' = lm_BASE lm \<and> lm_CONFIG_SIZE lm' = lm_CONFIG_SIZE lm \<and>
     lm_GetSize lm' = lm_GetSize lm \<and> length (lm_bytes lm') = length (lm_bytes lm)"

lemma lm_same_hit: "lm_same lm lm' \<Longrightarrow> lm_hit lm' x = lm_hit lm x" "lm_same lm lm' \<Longrightarrow> loc_ok lm' = loc_ok lm"
  by (simp_all add: lm_same_def lm_hit_def lm_high_def lm_SIZE_def loc_ok_def)

lemma put_local_simps [simp]:
  "hierarchy_idx i (put_local l lm sys) = hierarchy_idx i sys" "local_idx i (put_local l lm sys) = local_idx i sys"
  "hierarchy i (put_local l lm sys) = hierarchy i sys" "sys_mss (put_local l lm sys) = sys_mss sys"
  "sys_caches (put_local l lm sys) = sys_caches sys"
  by (simp_all add: put_local_def hierarchy_def hierarchy_idx_def local_idx_def)

lemma sys_put_local:
  assumes ok: "sys_ok k view instr sys" and s: "lm_same (loc_mems sys ! l) lm"
  shows "sys_ok k view instr (put_local l lm sys)"
    and "first_hit locs (put_local l lm sys) = first_hit locs sys"
    and "l < length (loc_mems sys) \<Longrightarrow> sys_byte view instr (put_local l lm sys) x =
      (if first_hit (local_idx instr sys) sys x = Some l then lm_byte lm x else sys_byte view instr sys x)"
proof -
  have g: "loc_mems (put_local l lm sys) ! j = (if j = l \<and> l < length (loc_mems sys) then lm else loc_mems sys ! j)" for j
    by (auto simp: put_local_def nth_update_if)
  have h: "lm_hit (loc_mems (put_local l lm sys) ! j) y = lm_hit (loc_mems sys ! j) y"
    "loc_ok (loc_mems (put_local l lm sys) ! j) = loc_ok (loc_mems sys ! j)" for j y
    using lm_same_hit [OF s] g [of j] by auto
  have len: "length (loc_mems (put_local l lm sys)) = length (loc_mems sys)" by (simp add: put_local_def)
  show fh: "first_hit locs (put_local l lm sys) = first_hit locs sys" for locs by (simp add: first_hit_def h(1) fun_eq_iff)
  show "sys_ok k view instr (put_local l lm sys)" using ok by (simp add: sys_ok_def h(2) len)
  show "sys_byte view instr (put_local l lm sys) x =
      (if first_hit (local_idx instr sys) sys x = Some l then lm_byte lm x else sys_byte view instr sys x)"
    if "l < length (loc_mems sys)"
    using that by (auto simp: sys_byte_def fh g split: option.split)
qed


section \<open>Loads and stores\<close>

text \<open>All bytes of the access lie in one local memory, or none does and no block is crossed.\<close>

definition range_ok ::
  "nat \<Rightarrow> bool \<Rightarrow> ('m, 'a::len, 'p::len, 'at, 'r) mss_sys \<Rightarrow> 'a word \<Rightarrow> 'p word \<Rightarrow> nat \<Rightarrow> bool" where
  "range_ok k instr sys addr phys n \<longleftrightarrow>
     (\<forall>x. in_seg phys n x \<longrightarrow> first_hit (local_idx instr sys) sys x = first_hit (local_idx instr sys) sys phys) \<and>
     unat phys + n \<le> 2 ^ LENGTH('p) \<and>
     (first_hit (local_idx instr sys) sys phys = None \<longrightarrow> op_ok k (hierarchy instr sys) (Ld addr phys n))"

lemma local_range:
  fixes sys :: "('m, 'a::len, 'p::len, 'at, 'r) mss_sys"
  assumes ok: "sys_ok k view instr sys" and r: "range_ok k instr sys addr phys n"
    and h: "first_hit (local_idx instr sys) sys phys = Some l"
  shows "loc_ok (loc_mems sys ! l)" and "lm_hit (loc_mems sys ! l) phys" and "l < length (loc_mems sys)"
    and "lm_fits (loc_mems sys ! l) phys n"
    and "in_seg phys n x \<Longrightarrow> lm_hit (loc_mems sys ! l) x"
proof -
  let ?lm = "loc_mems sys ! l"
  show lo: "loc_ok ?lm" and ph: "lm_hit ?lm phys" and "l < length (loc_mems sys)"
    using ok first_hitD [OF h] by (auto simp: sys_ok_def)
  show hx: "lm_hit ?lm x" if "in_seg phys n x" for x
    using r that h first_hitD [of "local_idx instr sys" sys x l] by (simp add: range_ok_def)
  have e: "unat phys + n \<le> unat (lm_BASE ?lm) + lm_SIZE ?lm"
  proof (cases n)
    case 0
    then show ?thesis using ph lm_hit_iff [OF lo, of phys] by simp
  next
    case (Suc m)
    have u: "unat (phys + of_nat m) = unat phys + m"
      using r Suc by (intro unat_seg_add [of phys n]) (simp_all add: range_ok_def)
    have "lm_hit ?lm (phys + of_nat m)" by (rule hx) (simp add: in_seg_def u Suc)
    then show ?thesis using lm_hit_iff [OF lo, of "phys + of_nat m"] u Suc by simp
  qed
  have u: "unat (phys + of_nat n) = unat phys + n"
  proof -
    have "unat phys + n < 2 ^ LENGTH('p)" using e lo unfolding loc_ok_def by linarith
    then show ?thesis by (simp add: unat_word_ariths unat_of_nat)
  qed
  have "lm_offset ?lm phys + n \<le> length (lm_bytes ?lm)"
    using e lm_SIZE_le [of ?lm] lo lm_hit_iff [OF lo, of phys] ph unfolding lm_offset_hit(1) [OF lo ph] loc_ok_def by linarith
  then show "lm_fits ?lm phys n" using e u unat_lm_high [OF lo] by (simp add: lm_fits_def word_le_nat_alt)
qed

lemma LoadFromMSS_spec:
  fixes sys :: "('m, 'a::len, 'p::len, 'at, 'r) mss_sys"
  assumes bus: "memory_bus ops view" and ca: "IsStorageCacheable ops attr" and ok: "sys_ok k view instr sys"
    and r: "range_ok k instr sys addr phys n"
  shows "\<exists>sys'. LoadFromMSS ops instr (local_idx instr sys) addr phys n attr sys =
      Some (Some (seg_read (sys_byte view instr sys) phys n), sys') \<and>
    sys_ok k view instr sys' \<and> sys_byte view instr sys' = sys_byte view instr sys"
proof (cases "first_hit (local_idx instr sys) sys phys")
  case None
  have lim: "unat phys + n \<le> 2 ^ LENGTH('p)" and o: "op_ok k (hierarchy instr sys) (Ld addr phys n)"
    using r None by (simp_all add: range_ok_def)
  have inv: "hier_inv k view (hierarchy instr sys) (sys_mss sys)" using ok by (simp add: sys_ok_def)
  from Load_spec [OF bus ca _ lim inv, of addr instr] o obtain cs ms
    where e: "LoadFromCacheHierarchy ops instr addr phys n attr (hierarchy instr sys) (sys_mss sys) =
        Some (Some (seg_read (hview view (hierarchy instr sys) (sys_mss sys)) phys n), cs, ms)"
      and sv: "hier_inv k view cs ms" "hview view cs ms = hview view (hierarchy instr sys) (sys_mss sys)"
        "same_shape (hierarchy instr sys) cs" by (auto simp: op_ok_def same_view_def)
  have "seg_read (hview view (hierarchy instr sys) (sys_mss sys)) phys n = seg_read (sys_byte view instr sys) phys n"
    using r None by (intro seg_read_cong [OF lim]) (simp add: sys_byte_def range_ok_def)
  then show ?thesis
    using e sys_put_hierarchy [OF ok sv(1,3)] sv(2) LoadFromMSS_first [of ops instr "local_idx instr sys" addr phys n attr sys] None
    by (simp add: sys_byte_def fun_eq_iff cong: option.case_cong)
next
  case (Some l)
  note L = local_range [OF ok r Some]
  let ?lm = "loc_mems sys ! l" and ?lm' = "(loc_mems sys ! l)\<lparr>lm_load_accesses := lm_load_accesses (loc_mems sys ! l) + 1\<rparr>"
  have s: "lm_same ?lm ?lm'" by (simp add: lm_same_def)
  note P = sys_put_local [OF ok s]
  have lim: "unat phys + n \<le> 2 ^ LENGTH('p)" using r by (simp add: range_ok_def)
  have "read_at (lm_bytes ?lm) (lm_offset ?lm phys) n = seg_read (lm_byte ?lm) phys n"
    using L(4) by (intro read_local [OF L(1,2) _ lim]) (simp add: lm_fits_def)
  also have "\<dots> = seg_read (sys_byte view instr sys) phys n"
    using r Some by (intro seg_read_cong [OF lim]) (simp add: sys_byte_def range_ok_def)
  finally have e: "LoadFromMSS ops instr (local_idx instr sys) addr phys n attr sys =
      Some (Some (seg_read (sys_byte view instr sys) phys n), put_local l ?lm' sys)"
    using LoadFromMSS_first [of ops instr "local_idx instr sys" addr phys n attr sys] Some L(4) by (simp add: Let_def)
  have "sys_byte view instr (put_local l ?lm' sys) x = sys_byte view instr sys x" for x
    unfolding P(3) [OF L(3)] fun_eq_iff by (simp add: lm_byte_def sys_byte_def)
  then have "sys_byte view instr (put_local l ?lm' sys) = sys_byte view instr sys" by (rule ext)
  with e P(1) show ?thesis by blast
qed

lemma StoreInMSS_spec:
  fixes sys :: "('m, 'a::len, 'p::len, 'at, 'r) mss_sys"
  assumes bus: "memory_bus ops view" and ca: "IsStorageCacheable ops attr" and ok: "sys_ok k view False sys"
    and r: "range_ok k False sys addr phys (length bs)" and dc: "\<forall>c \<in> set (hierarchy False sys). IsDataCache (cache_cfg c)"
  shows "\<exists>sys'. StoreInMSS ops (local_idx False sys) addr phys bs attr sys = Some (True, sys') \<and>
    sys_ok k view False sys' \<and> sys_byte view False sys' = seg_upd (sys_byte view False sys) phys bs \<and>
    (\<forall>x. first_hit (local_idx False sys') sys' x = first_hit (local_idx False sys) sys x) \<and>
    same_shape (hierarchy False sys) (hierarchy False sys')"
proof (cases "first_hit (local_idx False sys) sys phys")
  case None
  have lim: "unat phys + length bs \<le> 2 ^ LENGTH('p)" and o: "op_ok k (hierarchy False sys) (Ld addr phys (length bs))"
    using r None by (simp_all add: range_ok_def)
  have inv: "hier_inv k view (hierarchy False sys) (sys_mss sys)" using ok by (simp add: sys_ok_def)
  from Store_spec [OF bus ca _ lim inv, of addr] o dc obtain cs ms
    where e: "StoreInCacheHierarchy ops addr phys bs attr (hierarchy False sys) (sys_mss sys) = Some (True, cs, ms)"
      and sv: "hier_inv k view cs ms" "hview view cs ms = seg_upd (hview view (hierarchy False sys) (sys_mss sys)) phys bs"
        "same_shape (hierarchy False sys) cs" by (auto simp: op_ok_def stored_def)
  note P = sys_put_hierarchy [OF ok sv(1,3)]
  have "sys_byte view False (put_hierarchy False cs ms sys) = seg_upd (sys_byte view False sys) phys bs"
  proof
    fix x show "sys_byte view False (put_hierarchy False cs ms sys) x = seg_upd (sys_byte view False sys) phys bs x"
      using r None unfolding P(2) sv(2)
      by (cases "in_seg phys (length bs) x") (simp_all add: range_ok_def seg_upd_def sys_byte_def split: option.split)
  qed
  then show ?thesis
    using e P(1) StoreInMSS_first [of ops "local_idx False sys" addr phys bs attr sys] None
      hierarchy_put [OF ok same_shape_length [OF sv(3)]] sv(3) by simp
next
  case (Some l)
  note L = local_range [OF ok r Some]
  let ?lm = "loc_mems sys ! l"
  define lm' where "lm' = ?lm\<lparr>lm_bytes := write_at (lm_bytes ?lm) (lm_offset ?lm phys) bs, lm_store_accesses := lm_store_accesses ?lm + 1\<rparr>"
  have f: "lm_offset ?lm phys + length bs \<le> length (lm_bytes ?lm)" using L(4) by (simp add: lm_fits_def)
  then have s: "lm_same ?lm lm'" by (simp add: lm_same_def lm'_def)
  note P = sys_put_local [OF ok s]
  have "sys_byte view False (put_local l lm' sys) = seg_upd (sys_byte view False sys) phys bs"
  proof
    fix x
    have w: "lm_byte lm' x = seg_upd (lm_byte ?lm) phys bs x" if "first_hit (local_idx False sys) sys x = Some l"
      using write_local [OF L(1,2) f] first_hitD [OF that] by (simp add: lm_byte_def lm'_def)
    show "sys_byte view False (put_local l lm' sys) x = seg_upd (sys_byte view False sys) phys bs x"
      using r Some w unfolding P(3) [OF L(3)]
      by (cases "in_seg phys (length bs) x") (auto simp: range_ok_def seg_upd_def sys_byte_def split: option.split)
  qed
  then show ?thesis
    using P(1,2) L(4) Some StoreInMSS_first [of ops "local_idx False sys" addr phys bs attr sys]
    by (simp add: Let_def lm'_def)
qed


lemma mss_bus_Check [simp]: "mss_bus (mss_Check bs phys ms) = mss_bus ms"
  by (simp add: mss_Check_def Let_def split: prod.split)

lemma check_if_enabled_same:
  "sys_ok k view instr (check_if_enabled bs phys sys) = sys_ok k view instr sys"
  "sys_byte view instr (check_if_enabled bs phys sys) = sys_byte view instr sys"
  using sys_set_mss [of view "mss_Check bs phys (sys_mss sys)" sys] by (simp_all add: check_if_enabled_def mem_def)

lemma DataLoad_spec:
  fixes sys :: "('m, 'a::len, 'p::len, 'at, 'r) mss_sys"
  assumes "memory_bus ops view" and "IsStorageCacheable ops attr" and "sys_ok k view False sys"
    and "range_ok k False sys addr phys n"
  shows "\<exists>sys'. DataLoad ops addr phys n attr sys = Some (Some (seg_read (sys_byte view False sys) phys n), sys') \<and>
    sys_ok k view False sys' \<and> sys_byte view False sys' = sys_byte view False sys"
proof -
  from LoadFromMSS_spec [OF assms] obtain s1
    where e: "LoadFromMSS ops False (local_idx False sys) addr phys n attr sys =
        Some (Some (seg_read (sys_byte view False sys) phys n), s1)"
      and h: "sys_ok k view False s1" "sys_byte view False s1 = sys_byte view False sys" by blast
  have m: "mem view (sys_mss s1\<lparr>num_data_load_accesses := a, num_data_load_xfered_bytes := b\<rparr>) = mem view (sys_mss s1)" for a b
    by (simp add: mem_def)
  show ?thesis using e h by (simp add: DataLoad_def local_idx_def Let_def check_if_enabled_same sys_set_mss [OF m])
qed

lemma DataStore_spec:
  fixes sys :: "('m, 'a::len, 'p::len, 'at, 'r) mss_sys"
  assumes "memory_bus ops view" and "IsStorageCacheable ops attr" and "sys_ok k view False sys"
    and "range_ok k False sys addr phys (length bs)" and "\<forall>c \<in> set (hierarchy False sys). IsDataCache (cache_cfg c)"
  shows "\<exists>sys'. DataStore ops addr phys bs attr sys = Some (True, sys') \<and> sys_ok k view False sys' \<and>
    sys_byte view False sys' = seg_upd (sys_byte view False sys) phys bs \<and>
    (\<forall>x. first_hit (local_idx False sys') sys' x = first_hit (local_idx False sys) sys x) \<and>
    same_shape (hierarchy False sys) (hierarchy False sys')"
proof -
  from StoreInMSS_spec [OF assms] obtain s1
    where e: "StoreInMSS ops (local_idx False sys) addr phys bs attr sys = Some (True, s1)"
      and h: "sys_ok k view False s1" "sys_byte view False s1 = seg_upd (sys_byte view False sys) phys bs"
        "\<forall>x. first_hit (local_idx False s1) s1 x = first_hit (local_idx False sys) sys x"
        "same_shape (hierarchy False sys) (hierarchy False s1)" by blast
  have m: "mem view (shadow_write phys bs (sys_mss s1\<lparr>num_data_store_accesses := a, num_data_store_xfered_bytes := b\<rparr>)) = mem view (sys_mss s1)" for a b
    by (simp add: mem_def)
  show ?thesis using e h by (simp add: DataStore_def local_idx_def Let_def sys_set_mss [OF m])
qed

lemma seg_read_upd:
  assumes "unat (phys :: 'p::len word) + length bs \<le> 2 ^ LENGTH('p)"
  shows "seg_read (seg_upd f phys bs) phys (length bs) = bs"
  using unat_seg_add [OF assms] by (intro nth_equalityI) (simp_all add: seg_read_def seg_upd_def in_seg_def)

text \<open>
  C16: What DataStore writes, DataLoad reads back: after a store of any bytes, to a local memory or
  through the data cache hierarchy, with the shadow memory on or off, a load of the same range
  returns exactly those bytes. Neither call aborts.
\<close>

theorem data_load_after_store:
  fixes sys :: "('m, 'a::len, 'p::len, 'at, 'r) mss_sys"
  assumes "memory_bus ops view" and "IsStorageCacheable ops attr" and "sys_ok k view False sys"
    and "range_ok k False sys addr phys (length bs)" and "\<forall>c \<in> set (hierarchy False sys). IsDataCache (cache_cfg c)"
  shows "\<exists>sys1 sys2. DataStore ops addr phys bs attr sys = Some (True, sys1) \<and>
    DataLoad ops addr phys (length bs) attr sys1 = Some (Some bs, sys2)"
proof -
  from DataStore_spec [OF assms] obtain s1
    where e: "DataStore ops addr phys bs attr sys = Some (True, s1)" and h: "sys_ok k view False s1"
      and b: "sys_byte view False s1 = seg_upd (sys_byte view False sys) phys bs"
      and f: "\<And>x. first_hit (local_idx False s1) s1 x = first_hit (local_idx False sys) sys x"
      and sh: "same_shape (hierarchy False sys) (hierarchy False s1)" by blast
  have "range_ok k False s1 addr phys (length bs)"
    using assms(4) op_ok_shape [OF sh] by (simp add: range_ok_def f)
  from DataLoad_spec [OF assms(1,2) h this] obtain s2
    where "DataLoad ops addr phys (length bs) attr s1 = Some (Some (seg_read (sys_byte view False s1) phys (length bs)), s2)" by blast
  moreover have "seg_read (sys_byte view False s1) phys (length bs) = bs"
    unfolding b using assms(4) by (intro seg_read_upd) (simp add: range_ok_def)
  ultimately show ?thesis using e by auto
qed

definition example_sys :: "bool \<Rightarrow> (16 word \<Rightarrow> u8, 16, 16, unit, nat) mss_sys" where
  "example_sys shadow =
     \<lparr>loc_mems = [lm_init 0x8000 64 64, lm_init 0x8040 32 16], sys_caches = example_hierarchy,
      DATA_LOCAL_MEMORIES = [0, 1], INSTRUCTION_LOCAL_MEMORIES = [], DATA_CACHE_HIERARCHY = [0, 1],
      INSTRUCTION_CACHE_HIERARCHY = [1], sys_mss = example_mss\<lparr>enable_shadow_memory := shadow\<rparr>\<rparr>"

lemma example_sys_hierarchy: "hierarchy False (example_sys b) = example_hierarchy"
  by (simp add: hierarchy_def hierarchy_idx_def example_sys_def example_hierarchy_def)

lemma example_sys_view: "hview (\<lambda>m. m) cs (sys_mss (example_sys b)) = hview (\<lambda>m. m) cs example_mss"
  by (rule hview_mem) (simp add: example_sys_def mem_def)

lemma example_sys_ok: "sys_ok 8 (\<lambda>m. m) False (example_sys b)"
proof -
  have "hier_inv 8 (\<lambda>m. m) example_hierarchy (sys_mss (example_sys b))"
    using example_inv(1) hier_inv_mem [of "\<lambda>m. m" "sys_mss (example_sys b)" example_mss 8 example_hierarchy]
    by (simp add: example_sys_def mem_def)
  moreover have "\<forall>l \<in> set (local_idx False (example_sys b)). l < length (loc_mems (example_sys b)) \<and> loc_ok (loc_mems (example_sys b) ! l)"
    by (simp add: local_idx_def example_sys_def loc_ok_def lm_init_def lm_SIZE_def)
  ultimately show ?thesis
    unfolding sys_ok_def example_sys_hierarchy by (simp add: hierarchy_idx_def example_sys_def example_hierarchy_def)
qed

lemma example_first_hit:
  "unat x < 0x8000 \<Longrightarrow> first_hit (local_idx False (example_sys b)) (example_sys b) x = None"
  "0x8000 \<le> unat x \<Longrightarrow> unat x < 0x8040 \<Longrightarrow> first_hit (local_idx False (example_sys b)) (example_sys b) x = Some 0"
  by (simp_all add: first_hit_def local_idx_def example_sys_def lm_hit_def lm_high_def lm_init_def lm_SIZE_def
      word_le_nat_alt word_less_nat_alt)

lemma example_range_ok: "range_ok 8 False (example_sys b) 0x1106 0x2106 2"
  unfolding range_ok_def example_sys_hierarchy
  using example_op_ok(1) by (auto simp: in_seg_def example_first_hit)

lemma example_data: "\<forall>c \<in> set (hierarchy False (example_sys b)). IsDataCache (cache_cfg c)"
  unfolding example_sys_hierarchy by (simp add: example_hierarchy_def cache_cfg_init example_cfg_def IsDataCache_def)

theorem data_load_after_store_witness:
  "\<exists>sys1 sys2. DataStore example_bus (0x1106 :: 16 word) 0x2106 [1, 2] () (example_sys False) = Some (True, sys1) \<and>
    DataLoad example_bus 0x1106 0x2106 2 () sys1 = Some (Some [1, 2], sys2)"
proof -
  have two: "length [1 :: 8 word, 2] = 2" by simp
  show ?thesis
    using data_load_after_store [OF example_bus_ok example_sys_ok, of False "0x1106" "0x2106" "[1, 2]", unfolded two]
      example_range_ok [of False] example_data [of False] by blast
qed

end
