(* ===== verification/Full_Adders.thy ===== *)
theory Full_Adders
  imports Prelude
begin

text \<open>
  The full adders and subtractors of \<open>util/arithmetic/arithmetic.hh\<close>, in the portable C++ of
  the branches for compilers without the x86 assembly. The 8-, 16- and 32-bit versions compute
  the carry into and out of the top bit from the operands and the sum, so each is an instance
  of one definition over the width; flags are bytes, 0 or 1.
\<close>

section \<open>Adders and subtractors\<close>

record 'w adder_out =
  result :: 'w
  carry_out :: u8
  overflow :: u8
  sign :: u8

definition top_bit :: "'a::len word \<Rightarrow> 'a word" where
  "top_bit x = drop_bit (LENGTH('a) - 1) x AND 1"

definition carry_in_top :: "'a::len word \<Rightarrow> 'a word \<Rightarrow> 'a word \<Rightarrow> 'a word" where
  "carry_in_top x y res = top_bit res XOR top_bit x XOR top_bit y"

definition sign_flag :: "'a::len word \<Rightarrow> u8" where
  "sign_flag res = of_bool (sint res < 0)"

definition SignedAdd :: "'a::len word \<Rightarrow> 'a word \<Rightarrow> u8 \<Rightarrow> 'a word adder_out" where
  "SignedAdd x y carry_in =
     (let res = x + y + ucast carry_in;
          c6 = carry_in_top x y res;
          c7 = (top_bit x AND top_bit y) OR (c6 AND (top_bit x OR top_bit y))
      in \<lparr>result = res, carry_out = ucast c7, overflow = ucast (c7 XOR c6), sign = sign_flag res\<rparr>)"

definition UnsignedAdd :: "'a::len word \<Rightarrow> 'a word \<Rightarrow> u8 \<Rightarrow> 'a word adder_out" where
  "UnsignedAdd x y carry_in =
     (let res = x + y + ucast carry_in;
          c6 = carry_in_top x y res;
          c7 = (top_bit x AND top_bit y) OR (c6 AND (top_bit x OR top_bit y))
      in \<lparr>result = res, carry_out = ucast c7, overflow = ucast c7, sign = sign_flag res\<rparr>)"

definition SignedSub :: "'a::len word \<Rightarrow> 'a word \<Rightarrow> u8 \<Rightarrow> 'a word adder_out" where
  "SignedSub x y borrow_in =
     (let res = x - y - ucast borrow_in;
          b6 = carry_in_top x y res;
          b7 = ((NOT (top_bit x) AND top_bit y) OR (b6 AND (NOT (top_bit x) OR top_bit y))) AND 1
      in \<lparr>result = res, carry_out = ucast b7, overflow = ucast (b7 XOR b6), sign = sign_flag res\<rparr>)"

definition UnsignedSub :: "'a::len word \<Rightarrow> 'a word \<Rightarrow> u8 \<Rightarrow> 'a word adder_out" where
  "UnsignedSub x y borrow_in =
     (let res = x - y - ucast borrow_in;
          b6 = carry_in_top x y res;
          b7 = ((NOT (top_bit x) AND top_bit y) OR (b6 AND (NOT (top_bit x) OR top_bit y))) AND 1
      in \<lparr>result = res, carry_out = ucast b7, overflow = ucast b7, sign = sign_flag res\<rparr>)"

definition SignedAdd8 :: "u8 \<Rightarrow> u8 \<Rightarrow> u8 \<Rightarrow> u8 adder_out" where "SignedAdd8 = SignedAdd"
definition SignedAdd16 :: "u16 \<Rightarrow> u16 \<Rightarrow> u8 \<Rightarrow> u16 adder_out" where "SignedAdd16 = SignedAdd"
definition SignedAdd32 :: "u32 \<Rightarrow> u32 \<Rightarrow> u8 \<Rightarrow> u32 adder_out" where "SignedAdd32 = SignedAdd"
definition UnsignedAdd8 :: "u8 \<Rightarrow> u8 \<Rightarrow> u8 \<Rightarrow> u8 adder_out" where "UnsignedAdd8 = UnsignedAdd"
definition UnsignedAdd16 :: "u16 \<Rightarrow> u16 \<Rightarrow> u8 \<Rightarrow> u16 adder_out" where "UnsignedAdd16 = UnsignedAdd"
definition UnsignedAdd32 :: "u32 \<Rightarrow> u32 \<Rightarrow> u8 \<Rightarrow> u32 adder_out" where "UnsignedAdd32 = UnsignedAdd"
definition SignedSub8 :: "u8 \<Rightarrow> u8 \<Rightarrow> u8 \<Rightarrow> u8 adder_out" where "SignedSub8 = SignedSub"
definition SignedSub16 :: "u16 \<Rightarrow> u16 \<Rightarrow> u8 \<Rightarrow> u16 adder_out" where "SignedSub16 = SignedSub"
definition SignedSub32 :: "u32 \<Rightarrow> u32 \<Rightarrow> u8 \<Rightarrow> u32 adder_out" where "SignedSub32 = SignedSub"
definition UnsignedSub8 :: "u8 \<Rightarrow> u8 \<Rightarrow> u8 \<Rightarrow> u8 adder_out" where "UnsignedSub8 = UnsignedSub"
definition UnsignedSub16 :: "u16 \<Rightarrow> u16 \<Rightarrow> u8 \<Rightarrow> u16 adder_out" where "UnsignedSub16 = UnsignedSub"
definition UnsignedSub32 :: "u32 \<Rightarrow> u32 \<Rightarrow> u8 \<Rightarrow> u32 adder_out" where "UnsignedSub32 = UnsignedSub"

section \<open>Saturation\<close>

definition SignedSatAdd8 :: "u8 \<Rightarrow> u8 \<Rightarrow> u8 \<Rightarrow> u8 adder_out" where
  "SignedSatAdd8 x y carry_in =
     (let r = SignedAdd8 x y carry_in in
      if overflow r \<noteq> 0
      then let sgn = of_bool (sign r = 0) in r\<lparr>sign := sgn, result := if sgn \<noteq> 0 then 0x7f else 0x80\<rparr>
      else r)"

definition SignedSatAdd16 :: "u16 \<Rightarrow> u16 \<Rightarrow> u8 \<Rightarrow> u16 adder_out" where
  "SignedSatAdd16 x y carry_in =
     (let r = SignedAdd16 x y carry_in in
      if overflow r \<noteq> 0
      then r\<lparr>result := if sign r \<noteq> 0 then 0x7fff else 0x8000, sign := of_bool (sign r = 0)\<rparr>
      else r)"

definition SignedSatAdd32 :: "u32 \<Rightarrow> u32 \<Rightarrow> u8 \<Rightarrow> u32 adder_out" where
  "SignedSatAdd32 x y carry_in =
     (let r = SignedAdd32 x y carry_in in
      if overflow r \<noteq> 0
      then r\<lparr>result := if sign r \<noteq> 0 then 0x7fffffff else 0x80000000, sign := of_bool (sign r = 0)\<rparr>
      else r)"

definition SignedSatAdd16_no_carry :: "u16 \<Rightarrow> u16 \<Rightarrow> u16 \<times> u8" where
  "SignedSatAdd16_no_carry x y = (let r = SignedSatAdd16 x y 0 in (result r, overflow r))"

definition SignedSatAdd32_no_carry :: "u32 \<Rightarrow> u32 \<Rightarrow> u32 \<times> u8" where
  "SignedSatAdd32_no_carry x y = (let r = SignedSatAdd32 x y 0 in (result r, overflow r))"

definition UnsignedSatAdd8 :: "u8 \<Rightarrow> u8 \<Rightarrow> u8 \<Rightarrow> u8 adder_out" where
  "UnsignedSatAdd8 x y carry_in =
     (let r = UnsignedAdd8 x y carry_in in
      if overflow r \<noteq> 0 then r\<lparr>result := 0xff, sign := 1\<rparr> else r)"

definition UnsignedSatAdd16 :: "u16 \<Rightarrow> u16 \<Rightarrow> u8 \<Rightarrow> u16 adder_out" where
  "UnsignedSatAdd16 x y carry_in =
     (let r = UnsignedAdd16 x y carry_in in
      if overflow r \<noteq> 0 then r\<lparr>result := 0xffff, sign := 1\<rparr> else r)"

definition UnsignedSatAdd32 :: "u32 \<Rightarrow> u32 \<Rightarrow> u8 \<Rightarrow> u32 adder_out" where
  "UnsignedSatAdd32 x y carry_in =
     (let r = UnsignedAdd32 x y carry_in in
      if overflow r \<noteq> 0 then r\<lparr>result := 0xffffffff, sign := 1\<rparr> else r)"

definition SignedSatSub8 :: "u8 \<Rightarrow> u8 \<Rightarrow> u8 \<Rightarrow> u8 adder_out" where
  "SignedSatSub8 x y borrow_in =
     (let r = SignedSub8 x y borrow_in in
      if overflow r \<noteq> 0
      then r\<lparr>result := if sign r \<noteq> 0 then 0x7f else 0x80, sign := of_bool (sign r = 0)\<rparr>
      else r)"

definition SignedSatSub16 :: "u16 \<Rightarrow> u16 \<Rightarrow> u8 \<Rightarrow> u16 adder_out" where
  "SignedSatSub16 x y borrow_in =
     (let r = SignedSub16 x y borrow_in in
      if overflow r \<noteq> 0
      then r\<lparr>result := if sign r \<noteq> 0 then 0x7fff else 0x8000, sign := of_bool (sign r = 0)\<rparr>
      else r)"

definition SignedSatSub32 :: "u32 \<Rightarrow> u32 \<Rightarrow> u8 \<Rightarrow> u32 adder_out" where
  "SignedSatSub32 x y borrow_in =
     (let r = SignedSub32 x y borrow_in in
      if overflow r \<noteq> 0
      then r\<lparr>result := if sign r \<noteq> 0 then 0x7fffffff else 0x80000000, sign := of_bool (sign r = 0)\<rparr>
      else r)"

definition SignedSatSub16_no_borrow :: "u16 \<Rightarrow> u16 \<Rightarrow> u16 \<times> u8" where
  "SignedSatSub16_no_borrow x y = (let r = SignedSatSub16 x y 0 in (result r, overflow r))"

definition SignedSatSub32_no_borrow :: "u32 \<Rightarrow> u32 \<Rightarrow> u32 \<times> u8" where
  "SignedSatSub32_no_borrow x y = (let r = SignedSatSub32 x y 0 in (result r, overflow r))"

definition UnsignedSatSub8 :: "u8 \<Rightarrow> u8 \<Rightarrow> u8 \<Rightarrow> u8 adder_out" where
  "UnsignedSatSub8 x y borrow_in =
     (let r = UnsignedSub8 x y borrow_in in
      if overflow r \<noteq> 0 then r\<lparr>result := 0, sign := 0\<rparr> else r)"

definition UnsignedSatSub16 :: "u16 \<Rightarrow> u16 \<Rightarrow> u8 \<Rightarrow> u16 adder_out" where
  "UnsignedSatSub16 x y borrow_in =
     (let r = UnsignedSub16 x y borrow_in in
      if overflow r \<noteq> 0 then r\<lparr>result := 0, sign := 0\<rparr> else r)"

definition UnsignedSatSub32 :: "u32 \<Rightarrow> u32 \<Rightarrow> u8 \<Rightarrow> u32 adder_out" where
  "UnsignedSatSub32 x y borrow_in =
     (let r = UnsignedSub32 x y borrow_in in
      if overflow r \<noteq> 0 then r\<lparr>result := 0, sign := 0\<rparr> else r)"

definition UnsignedSatSub8_no_borrow :: "u8 \<Rightarrow> u8 \<Rightarrow> u8 \<times> u8" where
  "UnsignedSatSub8_no_borrow x y = (let r = UnsignedSatSub8 x y 0 in (result r, overflow r))"

definition UnsignedSatSub16_no_borrow :: "u16 \<Rightarrow> u16 \<Rightarrow> u16 \<times> u8" where
  "UnsignedSatSub16_no_borrow x y = (let r = UnsignedSatSub16 x y 0 in (result r, overflow r))"

definition UnsignedSatSub32_no_borrow :: "u32 \<Rightarrow> u32 \<Rightarrow> u32 \<times> u8" where
  "UnsignedSatSub32_no_borrow x y = (let r = UnsignedSatSub32 x y 0 in (result r, overflow r))"

section \<open>The carry equations\<close>

text \<open>Half the range of a width, as a number the arithmetic below treats as an atom.\<close>

definition half :: "'a::len itself \<Rightarrow> nat" where
  "half TYPE('a) = 2 ^ (LENGTH('a) - 1)"

lemma pow_length: "2 ^ LENGTH('a::len) = 2 * half TYPE('a)"
  by (simp add: half_def flip: power_Suc)

lemma int_half: "int (half TYPE('a::len)) = 2 ^ (LENGTH('a) - 1)"
  by (simp add: half_def)

lemma unat_less_twice: "unat (x :: 'a::len word) < 2 * half TYPE('a)"
proof -
  have "unat x < 2 ^ LENGTH('a)" by (rule unsigned_less)
  then show ?thesis by (simp add: pow_length)
qed

lemma half_pos [simp]: "0 < half TYPE('a::len)"
  by (simp add: half_def)

lemma div_half: "unat (x :: 'a::len word) div half TYPE('a) = of_bool (half TYPE('a) \<le> unat x)"
  using unat_less_twice [of x] by (auto intro: div_nat_eqI)

lemma top_bit_eq: "top_bit (x :: 'a::len word) = of_bool (half TYPE('a) \<le> unat x)"
proof -
  have "unat (top_bit x) = of_bool (half TYPE('a) \<le> unat x)"
    using div_half [of x]
    by (simp add: top_bit_def unat_drop_bit and_one_eq unsigned_take_bit_eq unat_mod half_def)
  then show ?thesis by (simp add: word_unat_eq_iff)
qed

lemma sint_by_half:
  "sint (x :: 'a::len word) = int (unat x) - (if half TYPE('a) \<le> unat x then 2 * int (half TYPE('a)) else 0)"
proof -
  have "uint x div 2 ^ (LENGTH('a) - 1) = int (unat x div half TYPE('a))" by (simp add: zdiv_int half_def)
  then have "bit (uint x) (LENGTH('a) - 1) \<longleftrightarrow> half TYPE('a) \<le> unat x"
    by (simp add: bit_iff_odd div_half)
  moreover have "sint x = uint x - 2 * 2 ^ (LENGTH('a) - 1) * of_bool (bit (uint x) (LENGTH('a) - 1))"
    by (simp add: sint_uint signed_take_bit_eq_take_bit_minus take_bit_int_eq_self unsigned_less flip: power_Suc)
  ultimately show ?thesis by (simp add: half_def)
qed

text \<open>The sum or difference of two words and a carry, as a natural number.\<close>

lemma unat_carry: "unat c \<le> 1 \<Longrightarrow> unat (ucast (c :: u8) :: 'a::len word) = unat c"
  by (simp add: unsigned_ucast_eq take_bit_nat_eq_self le_less_trans [OF _ one_less_power])

lemma add_carry_cases:
  assumes "unat c \<le> 1"
  shows "unat (x + y + ucast (c :: u8) :: 'a::len word) =
    (if unat x + unat y + unat c < 2 * half TYPE('a) then unat x + unat y + unat c
     else unat x + unat y + unat c - 2 * half TYPE('a))"
proof -
  let ?s = "unat x + unat y + unat c" and ?M = "2 * half TYPE('a)"
  have "unat (x + y + ucast c :: 'a word) = ?s mod ?M"
    using assms by (simp add: unat_word_ariths unat_carry mod_add_left_eq pow_length)
  moreover have "?s < 2 * ?M" using unat_less_twice [of x] unat_less_twice [of y] assms by linarith
  ultimately show ?thesis by (simp add: mod_if)
qed

lemma sub_borrow_cases:
  assumes "unat c \<le> 1"
  shows "unat (x - y - ucast (c :: u8) :: 'a::len word) =
    (if unat y + unat c \<le> unat x then unat x - (unat y + unat c)
     else unat x + 2 * half TYPE('a) - (unat y + unat c))"
proof -
  have "(x - y - ucast c) + y + ucast c = (x :: 'a word)" by simp
  then have "unat x = unat ((x - y - ucast c) + y + ucast c :: 'a word)" by simp
  then show ?thesis
    using add_carry_cases [OF assms, of "x - y - ucast c" y] unat_less_twice [of "x - y - ucast c"]
      unat_less_twice [of x] unat_less_twice [of y] assms by (auto split: if_splits)
qed

text \<open>
  The carry out of the top bit and the carry into it, for the sum \<open>s\<close> of two words and a
  carry: the first says that the sum leaves the unsigned range, and they differ when it leaves
  the signed range.
\<close>

definition in_signed :: "'a::len itself \<Rightarrow> int \<Rightarrow> bool" where
  "in_signed T s \<longleftrightarrow> - int (half T) \<le> s \<and> s < int (half T)"

definition carry7 :: "'a::len word \<Rightarrow> 'a word \<Rightarrow> 'a word \<Rightarrow> 'a word" where
  "carry7 x y res = (top_bit x AND top_bit y) OR (carry_in_top x y res AND (top_bit x OR top_bit y))"

definition borrow7 :: "'a::len word \<Rightarrow> 'a word \<Rightarrow> 'a word \<Rightarrow> 'a word" where
  "borrow7 x y res =
     ((NOT (top_bit x) AND top_bit y) OR (carry_in_top x y res AND (NOT (top_bit x) OR top_bit y))) AND 1"

lemma carry7_eq:
  fixes x y :: "'a::len word" and c :: u8
  assumes "unat c \<le> 1"
  shows "carry7 x y (x + y + ucast c) = of_bool (2 * half TYPE('a) \<le> unat x + unat y + unat c)"
  using unat_less_twice [of x] unat_less_twice [of y] add_carry_cases [OF assms, of x y] assms
  by (cases "half TYPE('a) \<le> unat x"; cases "half TYPE('a) \<le> unat y")
    (auto simp: carry7_def carry_in_top_def top_bit_eq)

lemma carry76_eq:
  fixes x y :: "'a::len word" and c :: u8
  assumes "unat c \<le> 1"
  shows "carry7 x y (x + y + ucast c) XOR carry_in_top x y (x + y + ucast c) =
    of_bool (\<not> in_signed TYPE('a) (sint x + sint y + int (unat c)))"
  using unat_less_twice [of x] unat_less_twice [of y] add_carry_cases [OF assms, of x y] assms
  by (cases "half TYPE('a) \<le> unat x"; cases "half TYPE('a) \<le> unat y")
    (auto simp: carry7_def carry_in_top_def top_bit_eq in_signed_def sint_by_half simp del: of_nat_unat split: if_splits)

lemma borrow7_eq:
  fixes x y :: "'a::len word" and c :: u8
  assumes "unat c \<le> 1"
  shows "borrow7 x y (x - y - ucast c) = of_bool (unat x < unat y + unat c)"
  using unat_less_twice [of x] unat_less_twice [of y] sub_borrow_cases [OF assms, of x y] assms
  by (cases "half TYPE('a) \<le> unat x"; cases "half TYPE('a) \<le> unat y")
    (auto simp: borrow7_def carry_in_top_def top_bit_eq)

lemma borrow76_eq:
  fixes x y :: "'a::len word" and c :: u8
  assumes "unat c \<le> 1"
  shows "borrow7 x y (x - y - ucast c) XOR carry_in_top x y (x - y - ucast c) =
    of_bool (\<not> in_signed TYPE('a) (sint x - sint y - int (unat c)))"
  using unat_less_twice [of x] unat_less_twice [of y] sub_borrow_cases [OF assms, of x y] assms
  by (cases "half TYPE('a) \<le> unat x"; cases "half TYPE('a) \<le> unat y")
    (auto simp: borrow7_def carry_in_top_def top_bit_eq in_signed_def sint_by_half simp del: of_nat_unat split: if_splits)


definition wrap_signed :: "'a::len itself \<Rightarrow> int \<Rightarrow> int" where
  "wrap_signed T s = (if in_signed T s then s else if s < 0 then s + 2 * int (half T) else s - 2 * int (half T))"

lemma sint_add_wrap:
  fixes x y :: "'a::len word" and c :: u8
  assumes "unat c \<le> 1"
  shows "sint (x + y + ucast c) = wrap_signed TYPE('a) (sint x + sint y + int (unat c))"
  using unat_less_twice [of x] unat_less_twice [of y] add_carry_cases [OF assms, of x y] assms
  by (cases "half TYPE('a) \<le> unat x"; cases "half TYPE('a) \<le> unat y")
    (auto simp: wrap_signed_def in_signed_def sint_by_half simp del: of_nat_unat split: if_splits)

lemma sint_sub_wrap:
  fixes x y :: "'a::len word" and c :: u8
  assumes "unat c \<le> 1"
  shows "sint (x - y - ucast c) = wrap_signed TYPE('a) (sint x - sint y - int (unat c))"
  using unat_less_twice [of x] unat_less_twice [of y] sub_borrow_cases [OF assms, of x y] assms
  by (cases "half TYPE('a) \<le> unat x"; cases "half TYPE('a) \<le> unat y")
    (auto simp: wrap_signed_def in_signed_def sint_by_half simp del: of_nat_unat split: if_splits)

lemma in_signed_sint: "in_signed TYPE('a) (sint (x :: 'a::len word))"
  using unat_less_twice [of x] by (auto simp: in_signed_def sint_by_half simp del: of_nat_unat split: if_splits)

text \<open>The fields of the four operations, by these facts.\<close>

definition adder_of :: "'a word \<Rightarrow> bool \<Rightarrow> bool \<Rightarrow> 'a::len word adder_out" where
  "adder_of r cy ov = \<lparr>result = r, carry_out = of_bool cy, overflow = of_bool ov, sign = of_bool (sint r < 0)\<rparr>"

lemma adder_eqs:
  fixes x y :: "'a::len word" and c :: u8
  assumes "unat c \<le> 1"
  shows SignedAdd_eq: "SignedAdd x y c = adder_of (x + y + ucast c) (2 * half TYPE('a) \<le> unat x + unat y + unat c)
      (\<not> in_signed TYPE('a) (sint x + sint y + int (unat c)))"
    and UnsignedAdd_eq: "UnsignedAdd x y c = adder_of (x + y + ucast c) (2 * half TYPE('a) \<le> unat x + unat y + unat c)
      (2 * half TYPE('a) \<le> unat x + unat y + unat c)"
    and SignedSub_eq: "SignedSub x y c = adder_of (x - y - ucast c) (unat x < unat y + unat c)
      (\<not> in_signed TYPE('a) (sint x - sint y - int (unat c)))"
    and UnsignedSub_eq: "UnsignedSub x y c = adder_of (x - y - ucast c) (unat x < unat y + unat c)
      (unat x < unat y + unat c)"
  unfolding SignedAdd_def UnsignedAdd_def SignedSub_def UnsignedSub_def Let_def adder_of_def sign_flag_def
    carry7_def [symmetric] borrow7_def [symmetric] carry76_eq [OF assms] borrow76_eq [OF assms]
  by (simp_all add: carry7_eq [OF assms] borrow7_eq [OF assms])

text \<open>
  the full adder returns the sum of its operands and carry-in: result and carry-out together
  are the unsigned sum, the overflow flag says that the signed sum leaves the range of the
  width, the sign flag that the result is negative, and without overflow the result is the
  signed sum.
\<close>

theorem SignedAdd_correct:
  fixes x y :: "'a::len word"
  assumes "unat c \<le> 1"
  defines "r \<equiv> SignedAdd x y c"
  shows "unat (result r) + 2 ^ LENGTH('a) * unat (carry_out r) = unat x + unat y + unat c \<and>
    overflow r = of_bool (\<not> in_signed TYPE('a) (sint x + sint y + int (unat c))) \<and>
    sign r = of_bool (sint (result r) < 0) \<and>
    sint (result r) = wrap_signed TYPE('a) (sint x + sint y + int (unat c))"
  using assms(1) add_carry_cases [OF assms(1), of x y] sint_add_wrap [OF assms(1), of x y]
    unat_less_twice [of x] unat_less_twice [of y]
  by (simp add: r_def SignedAdd_eq adder_of_def pow_length)

theorem SignedAdd_correct_witness:
  "sint (result (SignedAdd 0x7f (1 :: u8) 0)) = - 0x80 \<and> overflow (SignedAdd 0x7f (1 :: u8) 0) = 1"
  using SignedAdd_correct [of 0 "0x7f :: u8" 1] by (simp add: in_signed_def half_def wrap_signed_def)

text \<open>
  the full subtractor returns the difference of its operands and borrow-in: the borrow-out
  says that the unsigned difference is negative, the result is the difference modulo the range,
  the overflow flag says that the signed difference leaves the range, and without overflow the
  result is the signed difference.
\<close>

theorem SignedSub_correct:
  fixes x y :: "'a::len word"
  assumes "unat c \<le> 1"
  defines "r \<equiv> SignedSub x y c"
  shows "unat (result r) + unat y + unat c = unat x + 2 ^ LENGTH('a) * unat (carry_out r) \<and>
    carry_out r = of_bool (unat x < unat y + unat c) \<and>
    overflow r = of_bool (\<not> in_signed TYPE('a) (sint x - sint y - int (unat c))) \<and>
    sign r = of_bool (sint (result r) < 0) \<and>
    sint (result r) = wrap_signed TYPE('a) (sint x - sint y - int (unat c))"
  using assms(1) sub_borrow_cases [OF assms(1), of x y] sint_sub_wrap [OF assms(1), of x y]
    unat_less_twice [of x] unat_less_twice [of y]
  by (simp add: r_def SignedSub_eq adder_of_def pow_length)

theorem SignedSub_correct_witness:
  "sint (result (SignedSub 0x80 (1 :: u8) 0)) = 0x7f \<and> carry_out (SignedSub 0x80 (1 :: u8) 0) = 0"
  using SignedSub_correct [of 0 "0x80 :: u8" 1] by (simp add: in_signed_def half_def wrap_signed_def)

section \<open>Saturation\<close>

definition clamp_signed :: "'a::len itself \<Rightarrow> int \<Rightarrow> int" where
  "clamp_signed T s = max (- int (half T)) (min (int (half T) - 1) s)"

lemma clamp_in_signed: "in_signed T s \<Longrightarrow> clamp_signed T s = s"
  by (simp add: clamp_signed_def in_signed_def)

text \<open>On overflow the sign of the wrapped sum is the opposite of the sign of the sum.\<close>

lemma wrap_overflow:
  assumes "\<not> in_signed TYPE('a::len) s" and "- 2 * int (half TYPE('a)) \<le> s" and "s < 2 * int (half TYPE('a))"
  shows "wrap_signed TYPE('a) s < 0 \<longleftrightarrow> \<not> s < 0"
    and "clamp_signed TYPE('a) s = (if s < 0 then - int (half TYPE('a)) else int (half TYPE('a)) - 1)"
  using assms by (auto simp: wrap_signed_def in_signed_def clamp_signed_def)

lemma sum_bounds:
  fixes x y :: "'a::len word" and c :: u8
  assumes "unat c \<le> 1"
  shows "- 2 * int (half TYPE('a)) \<le> sint x + sint y + int (unat c)"
    and "sint x + sint y + int (unat c) < 2 * int (half TYPE('a))"
    and "- 2 * int (half TYPE('a)) \<le> sint x - sint y - int (unat c)"
    and "sint x - sint y - int (unat c) < 2 * int (half TYPE('a))"
  using in_signed_sint [of x] in_signed_sint [of y] assms by (auto simp: in_signed_def simp del: of_nat_unat)

text \<open>The saturation step after a signed operation, for any width and saturation values.\<close>

lemma saturate_signed:
  fixes r :: "'a::len word adder_out"
  assumes "overflow r = of_bool (\<not> in_signed TYPE('a) s)" and "sign r = of_bool (sint (result r) < 0)"
    and "sint (result r) = wrap_signed TYPE('a) s"
    and "- 2 * int (half TYPE('a)) \<le> s" and "s < 2 * int (half TYPE('a))"
    and "sint hi = int (half TYPE('a)) - 1" and "sint lo = - int (half TYPE('a))"
  shows "sint (result (if overflow r \<noteq> 0 then r\<lparr>result := if sign r \<noteq> 0 then hi else lo, sign := f\<rparr> else r)) =
    clamp_signed TYPE('a) s"
proof (cases "in_signed TYPE('a) s")
  case True
  with assms show ?thesis by (simp add: clamp_in_signed wrap_signed_def)
next
  case False
  with assms(1-3) assms(6,7) show ?thesis by (simp add: wrap_overflow [OF False assms(4,5)])
qed

lemma saturate_fields:
  fixes x y :: "'a::len word" and c :: u8
  assumes "unat c \<le> 1"
  shows "overflow (SignedAdd x y c) = of_bool (\<not> in_signed TYPE('a) (sint x + sint y + int (unat c)))"
    and "sign (SignedAdd x y c) = of_bool (sint (result (SignedAdd x y c)) < 0)"
    and "sint (result (SignedAdd x y c)) = wrap_signed TYPE('a) (sint x + sint y + int (unat c))"
    and "overflow (SignedSub x y c) = of_bool (\<not> in_signed TYPE('a) (sint x - sint y - int (unat c)))"
    and "sign (SignedSub x y c) = of_bool (sint (result (SignedSub x y c)) < 0)"
    and "sint (result (SignedSub x y c)) = wrap_signed TYPE('a) (sint x - sint y - int (unat c))"
  using sint_add_wrap [OF assms, of x y] sint_sub_wrap [OF assms, of x y]
  by (simp_all add: SignedAdd_eq [OF assms] SignedSub_eq [OF assms] adder_of_def)

lemma half_values [simp]: "half TYPE(8) = 0x80" "half TYPE(16) = 0x8000" "half TYPE(32) = 0x80000000"
  by (simp_all add: half_def)

text \<open>
  the signed saturating additions and subtractions of 16 and 32 bits and the subtraction of
  8 bits return the exact sum or difference clamped to the signed range.
\<close>

theorem SignedSat_clamps:
  assumes "unat c \<le> 1"
  shows "sint (result (SignedSatAdd16 x16 y16 c)) = clamp_signed TYPE(16) (sint x16 + sint y16 + int (unat c)) \<and>
    sint (result (SignedSatAdd32 x32 y32 c)) = clamp_signed TYPE(32) (sint x32 + sint y32 + int (unat c)) \<and>
    sint (result (SignedSatSub8 x8 y8 c)) = clamp_signed TYPE(8) (sint x8 - sint y8 - int (unat c)) \<and>
    sint (result (SignedSatSub16 x16 y16 c)) = clamp_signed TYPE(16) (sint x16 - sint y16 - int (unat c)) \<and>
    sint (result (SignedSatSub32 x32 y32 c)) = clamp_signed TYPE(32) (sint x32 - sint y32 - int (unat c))"
  unfolding SignedSatAdd16_def SignedSatAdd32_def SignedSatSub8_def SignedSatSub16_def SignedSatSub32_def Let_def
    SignedAdd16_def SignedAdd32_def SignedSub8_def SignedSub16_def SignedSub32_def
  by (intro conjI saturate_signed saturate_fields sum_bounds assms) simp_all

theorem SignedSat_clamps_witness:
  "sint (result (SignedSatAdd16 0x7fff 1 0)) = 0x7fff \<and> sint (result (SignedSatSub8 0x80 1 0)) = - 0x80"
  using SignedSat_clamps [of 0 "0x7fff" 1 0 0 "0x80" 1] by (simp add: clamp_signed_def)

text \<open>
  the 8-bit signed saturating addition is exact without overflow, and on overflow saturates
  to the bound of the wrong sign: the largest value when the sum is too small, the smallest when
  it is too large, because the sign is inverted before it selects the bound.
\<close>

theorem SignedSatAdd8_wrong_bound:
  fixes x y c :: u8
  assumes "unat c \<le> 1"
  defines "s \<equiv> sint x + sint y + int (unat c)"
  shows "sint (result (SignedSatAdd8 x y c)) = (if in_signed TYPE(8) s then s else if s < 0 then 0x7f else - 0x80)"
proof (cases "in_signed TYPE(8) s")
  case True
  then show ?thesis
    using saturate_fields [OF assms(1), of x y]
    by (simp add: SignedSatAdd8_def Let_def SignedAdd8_def s_def wrap_signed_def)
next
  case False
  have "sign (SignedAdd x y c) = of_bool (\<not> s < 0)"
    using saturate_fields [OF assms(1), of x y] wrap_overflow(1) [OF False] sum_bounds [OF assms(1), of x y]
    by (simp add: s_def)
  moreover have "overflow (SignedAdd x y c) = 1"
    using False saturate_fields(1) [OF assms(1), of x y] by (simp add: s_def)
  ultimately show ?thesis using False by (simp add: SignedSatAdd8_def Let_def SignedAdd8_def)
qed

theorem SignedSatAdd8_wrong_bound_witness: "sint (result (SignedSatAdd8 0x7f 1 0)) = - 0x80"
  using SignedSatAdd8_wrong_bound [of 0 "0x7f" 1] by (simp add: in_signed_def)

text \<open>
  the unsigned saturating additions return the sum or the largest value of the width, the
  subtractions the difference or 0, whichever is nearer.
\<close>

theorem UnsignedSat_clamps:
  assumes "unat c \<le> 1"
  shows "unat (result (UnsignedSatAdd8 x8 y8 c)) = min 0xff (unat x8 + unat y8 + unat c) \<and>
    unat (result (UnsignedSatAdd16 x16 y16 c)) = min 0xffff (unat x16 + unat y16 + unat c) \<and>
    unat (result (UnsignedSatAdd32 x32 y32 c)) = min 0xffffffff (unat x32 + unat y32 + unat c) \<and>
    unat (result (UnsignedSatSub8 x8 y8 c)) = unat x8 - (unat y8 + unat c) \<and>
    unat (result (UnsignedSatSub16 x16 y16 c)) = unat x16 - (unat y16 + unat c) \<and>
    unat (result (UnsignedSatSub32 x32 y32 c)) = unat x32 - (unat y32 + unat c)"
  using assms add_carry_cases [OF assms, of x8 y8] sub_borrow_cases [OF assms, of x8 y8]
  by (auto simp: UnsignedSatAdd8_def UnsignedSatAdd16_def UnsignedSatAdd32_def UnsignedSatSub8_def UnsignedSatSub16_def
      UnsignedSatSub32_def UnsignedAdd8_def UnsignedAdd16_def UnsignedAdd32_def UnsignedSub8_def UnsignedSub16_def
      UnsignedSub32_def UnsignedAdd_eq [OF assms] UnsignedSub_eq [OF assms] adder_of_def Let_def
      add_carry_cases [OF assms] sub_borrow_cases [OF assms])

theorem UnsignedSat_clamps_witness:
  "unat (result (UnsignedSatAdd8 0xff 1 0)) = 0xff \<and> unat (result (UnsignedSatSub8 1 2 0)) = 0"
  using UnsignedSat_clamps [of 0 "0xff" 1] UnsignedSat_clamps [of 0 1 2] by simp

end
