(* ===== verification/Bit_Arithmetic.thy ===== *)
theory Bit_Arithmetic
  imports Prelude
begin

text \<open>
  Rotates, shifts, bit scans, logarithms, sign extension, parity and the reverse-carry adder of
  \<open>util/arithmetic/arithmetic.hh\<close>, in the portable C++ of the branches without x86 assembly.
  A loop that would not end on some argument is a \<open>partial_function\<close> whose value is then
  \<open>None\<close>; the functions that guard it are proved to return.
\<close>

section \<open>Rotates\<close>

text \<open>The rotates of 8, 16, 32 and 64 bits mask the amount with the width less one.\<close>

definition rotate_amount :: "'a::len itself \<Rightarrow> u32 \<Rightarrow> nat" where
  "rotate_amount T n = unat (n AND of_nat (LENGTH('a) - 1))"

definition rotate_left :: "'a::len word \<Rightarrow> u32 \<Rightarrow> 'a word" where
  "rotate_left v n = (let k = rotate_amount TYPE('a) n in
     if k \<noteq> 0 then push_bit k v OR drop_bit (LENGTH('a) - k) v else v)"

definition rotate_right :: "'a::len word \<Rightarrow> u32 \<Rightarrow> 'a word" where
  "rotate_right v n = (let k = rotate_amount TYPE('a) n in
     if k \<noteq> 0 then drop_bit k v OR push_bit (LENGTH('a) - k) v else v)"

definition RotateLeft8 :: "u8 \<Rightarrow> u32 \<Rightarrow> u8" where "RotateLeft8 = rotate_left"
definition RotateLeft16 :: "u16 \<Rightarrow> u32 \<Rightarrow> u16" where "RotateLeft16 = rotate_left"
definition RotateLeft32 :: "u32 \<Rightarrow> u32 \<Rightarrow> u32" where "RotateLeft32 = rotate_left"
definition RotateLeft64 :: "u64 \<Rightarrow> u32 \<Rightarrow> u64" where "RotateLeft64 = rotate_left"
definition RotateRight8 :: "u8 \<Rightarrow> u32 \<Rightarrow> u8" where "RotateRight8 = rotate_right"
definition RotateRight16 :: "u16 \<Rightarrow> u32 \<Rightarrow> u16" where "RotateRight16 = rotate_right"
definition RotateRight32 :: "u32 \<Rightarrow> u32 \<Rightarrow> u32" where "RotateRight32 = rotate_right"
definition RotateRight64 :: "u64 \<Rightarrow> u32 \<Rightarrow> u64" where "RotateRight64 = rotate_right"

text \<open>The 32-bit rotates that also return the last bit rotated out, and those through a carry bit.\<close>

definition RotateLeft_out :: "u32 \<Rightarrow> u32 \<Rightarrow> u32 \<times> u8" where
  "RotateLeft_out v n = (let k = unat (n AND 31) in
     (if k \<noteq> 0 then push_bit k v OR drop_bit (32 - k) v else v,
      if k \<noteq> 0 then ucast (drop_bit (32 - k) v AND 1) else 0))"

definition RotateRight_out :: "u32 \<Rightarrow> u32 \<Rightarrow> u32 \<times> u8" where
  "RotateRight_out v n = (let k = unat (n AND 31) in
     (if k \<noteq> 0 then drop_bit k v OR push_bit (32 - k) v else v,
      if k \<noteq> 0 then ucast (drop_bit (k - 1) v AND 1) else 0))"

definition RotateLeft_carry :: "u32 \<Rightarrow> u32 \<Rightarrow> u8 \<Rightarrow> u32 \<times> u8" where
  "RotateLeft_carry v n bit_in = (let k = unat (n AND 31) in
     (if k \<noteq> 0
      then ucast (push_bit k (ucast v :: u64) OR push_bit (k - 1) (ucast bit_in) OR drop_bit (33 - k) (ucast v))
      else v,
      if k \<noteq> 0 then ucast (drop_bit (32 - k) v AND 1) else 0))"

definition RotateRight_carry :: "u32 \<Rightarrow> u32 \<Rightarrow> u8 \<Rightarrow> u32 \<times> u8" where
  "RotateRight_carry v n bit_in = (let k = unat (n AND 31) in
     (if k \<noteq> 0
      then ucast (drop_bit k (ucast v :: u64) OR push_bit (32 - k) (ucast bit_in) OR push_bit (33 - k) (ucast v))
      else 0,
      if k \<noteq> 0 then ucast (drop_bit (k - 1) v AND 1) else 0))"

section \<open>Shifts\<close>

definition ShiftLeft :: "u32 \<Rightarrow> u32 \<Rightarrow> u32" where
  "ShiftLeft v n = push_bit (unat (n AND 31)) v"

definition ShiftLeft_out :: "u32 \<Rightarrow> u32 \<Rightarrow> u32 \<times> u8" where
  "ShiftLeft_out v n = (let k = unat (n AND 31) in
     (push_bit k v, if k \<noteq> 0 then ucast (drop_bit (32 - k) v AND 1) else 0))"

definition ShiftRight :: "u32 \<Rightarrow> u32 \<Rightarrow> u32" where
  "ShiftRight v n = drop_bit (unat (n AND 31)) v"

definition ShiftRight_out :: "u32 \<Rightarrow> u32 \<Rightarrow> u32 \<times> u8" where
  "ShiftRight_out v n = (let k = unat (n AND 31) in
     (drop_bit k v, if k \<noteq> 0 then ucast (drop_bit (k - 1) v AND 1) else 0))"

definition ShiftArithmeticRight :: "u32 \<Rightarrow> u32 \<Rightarrow> u32" where
  "ShiftArithmeticRight v n = signed_drop_bit (unat (n AND 31)) v"

definition ShiftArithmeticRight_out :: "u32 \<Rightarrow> u32 \<Rightarrow> u32 \<times> u8" where
  "ShiftArithmeticRight_out v n = (let k = unat (n AND 31) in
     (signed_drop_bit k v, if k \<noteq> 0 then ucast (drop_bit (k - 1) v AND 1) else 0))"

section \<open>Bit scans and logarithms\<close>

partial_function (option) bsf_loop :: "u32 \<Rightarrow> u32 \<Rightarrow> u32 option" where
  "bsf_loop i v = (let i = i + 1; v = drop_bit 1 v in if v AND 1 = 0 then bsf_loop i v else Some i)"

partial_function (option) bsr_loop :: "u32 \<Rightarrow> u32 \<Rightarrow> u32 option" where
  "bsr_loop i v = (let i = i - 1; v = push_bit 1 v in if v AND 0x80000000 = 0 then bsr_loop i v else Some i)"

text \<open>
  The value is what the call returns, if it returns: \<open>None\<close> for false, \<open>Some n\<close> for true with the
  index it stores.
\<close>

definition BitScanForward32 :: "u32 \<Rightarrow> u32 option option" where
  "BitScanForward32 v =
     (if v = 0 then Some None
      else map_option Some (if v AND 1 = 0 then bsf_loop 0 v else Some 0))"

definition BitScanForward64 :: "u64 \<Rightarrow> u32 option option" where
  "BitScanForward64 v =
     Option.bind (BitScanForward32 (ucast v)) (\<lambda>lo. case lo of
       Some n \<Rightarrow> Some (Some n)
     | None \<Rightarrow> Option.bind (BitScanForward32 (ucast (drop_bit 32 v)))
         (\<lambda>hi. Some (map_option (\<lambda>n. n + 32) hi)))"

definition BitScanReverse32 :: "u32 \<Rightarrow> u32 option option" where
  "BitScanReverse32 v =
     (if v = 0 then Some None
      else map_option Some (if v AND 0x80000000 = 0 then bsr_loop 31 v else Some 31))"

definition BitScanReverse64 :: "u64 \<Rightarrow> u32 option option" where
  "BitScanReverse64 v =
     Option.bind (BitScanReverse32 (ucast (drop_bit 32 v))) (\<lambda>hi. case hi of
       Some n \<Rightarrow> Some (Some (n + 32))
     | None \<Rightarrow> BitScanReverse32 (ucast v))"

definition CountLeadingZeros32 :: "u32 \<Rightarrow> u32 option" where
  "CountLeadingZeros32 v = map_option (\<lambda>r. case r of Some n \<Rightarrow> 31 - n | None \<Rightarrow> 32) (BitScanReverse32 v)"

definition CountLeadingZeros64 :: "u64 \<Rightarrow> u32 option" where
  "CountLeadingZeros64 v = map_option (\<lambda>r. case r of Some n \<Rightarrow> 63 - n | None \<Rightarrow> 64) (BitScanReverse64 v)"

definition Log2_32 :: "u32 \<Rightarrow> u32 option" where
  "Log2_32 v = map_option (\<lambda>r. case r of Some n \<Rightarrow> n | None \<Rightarrow> 0) (BitScanReverse32 v)"

definition Log2_64 :: "u64 \<Rightarrow> u32 option" where
  "Log2_64 v = map_option (\<lambda>r. case r of Some n \<Rightarrow> n | None \<Rightarrow> 0) (BitScanReverse64 v)"

definition CeilLog2_32 :: "u32 \<Rightarrow> u32 option" where
  "CeilLog2_32 v = map_option (\<lambda>l. if push_bit (unat l) (1 :: u64) < ucast v then l + 1 else l) (Log2_32 v)"

definition CeilLog2_64 :: "u64 \<Rightarrow> u32 option" where
  "CeilLog2_64 v = map_option (\<lambda>l. if push_bit (unat l) (1 :: u64) < v then l + 1 else l) (Log2_64 v)"

section \<open>Sign extension and parity\<close>

definition sign_extend :: "'a::len word \<Rightarrow> nat \<Rightarrow> 'a word" where
  "sign_extend v n = (let m = LENGTH('a) - n in signed_drop_bit m (push_bit m v))"

definition SignExtend8 :: "u8 \<Rightarrow> nat \<Rightarrow> u8" where "SignExtend8 = sign_extend"
definition SignExtend16 :: "u16 \<Rightarrow> nat \<Rightarrow> u16" where "SignExtend16 = sign_extend"
definition SignExtend32 :: "u32 \<Rightarrow> nat \<Rightarrow> u32" where "SignExtend32 = sign_extend"
definition SignExtend64 :: "u64 \<Rightarrow> nat \<Rightarrow> u64" where "SignExtend64 = sign_extend"

text \<open>The do-while loop of the parity functions, run \<open>n\<close> more times.\<close>

fun parity_loop :: "nat \<Rightarrow> u8 \<Rightarrow> 'a::len word \<Rightarrow> u8" where
  "parity_loop 0 par v = par"
| "parity_loop (Suc n) par v = parity_loop n (par XOR ucast v) (drop_bit 1 v)"

definition EvenParity8 :: "u8 \<Rightarrow> u8" where "EvenParity8 v = parity_loop 8 0 v AND 1"
definition EvenParity16 :: "u16 \<Rightarrow> u8" where "EvenParity16 v = parity_loop 16 0 v AND 1"
definition EvenParity32 :: "u32 \<Rightarrow> u8" where "EvenParity32 v = parity_loop 32 0 v AND 1"
definition OddParity8 :: "u8 \<Rightarrow> u8" where "OddParity8 v = parity_loop 8 0 v AND 1"
definition OddParity16 :: "u16 \<Rightarrow> u8" where "OddParity16 v = parity_loop 16 0 v AND 1"
definition OddParity32 :: "u32 \<Rightarrow> u8" where "OddParity32 v = parity_loop 32 0 v AND 1"

section \<open>Addition with reverse carry propagation\<close>

function reverse_carry_loop :: "u32 \<Rightarrow> u32 \<Rightarrow> u32 \<Rightarrow> u32 \<Rightarrow> u32 \<Rightarrow> u32" where
  "reverse_carry_loop x_and_y x_or_y r c m =
     (let r = r XOR (m AND c);
          c = drop_bit 1 ((x_and_y OR (c AND x_or_y)) AND m);
          m = drop_bit 1 m
      in if m \<noteq> 0 then reverse_carry_loop x_and_y x_or_y r c m else r)"
  by pat_completeness auto
termination
proof (relation "measure (\<lambda>(x_and_y, x_or_y, r, c, m). unat m)", goal_cases)
  case (2 x_and_y x_or_y r c m ra ca ma)
  have "unat (drop_bit 1 m) = unat m div 2" by (simp add: unat_drop_bit)
  moreover have "0 < unat m" using 2 by (cases "m = 0") (auto simp: unat_gt_0)
  ultimately show ?case using 2 by simp
qed simp

declare reverse_carry_loop.simps [simp del]

definition ReverseCarryPropagationAdd :: "u32 \<Rightarrow> u32 \<Rightarrow> u32 option" where
  "ReverseCarryPropagationAdd x y = map_option (\<lambda>n. case n of
     None \<Rightarrow> x XOR y
   | Some n \<Rightarrow> reverse_carry_loop (x AND y) (x OR y) (x XOR y) 0 (push_bit (unat n) 1)) (BitScanReverse32 (x AND y))"

section \<open>Rotates: round trips and the rotation they compute\<close>

lemma rotate_amounts:
  "rotate_amount TYPE(8) n = unat n mod 8" "rotate_amount TYPE(16) n = unat n mod 16"
  "rotate_amount TYPE(32) n = unat n mod 32" "rotate_amount TYPE(64) n = unat n mod 64"
  using unat_and_low_mask [of n 3] unat_and_low_mask [of n 4] unat_and_low_mask [of n 5] unat_and_low_mask [of n 6]
  by (simp_all add: rotate_amount_def)

lemma and_31: "unat (n AND 31 :: u32) = unat n mod 32"
  using unat_and_low_mask [of n 5] by simp

text \<open>Bits of the rotated words, with the rotate amount \<open>k\<close> taken modulo the width.\<close>

lemma bit_rotate_left:
  fixes v :: "'a::len word"
  assumes "rotate_amount TYPE('a) n < LENGTH('a)" and "i < LENGTH('a)"
  shows "bit (rotate_left v n) i =
    bit v (if rotate_amount TYPE('a) n \<le> i then i - rotate_amount TYPE('a) n else i + LENGTH('a) - rotate_amount TYPE('a) n)"
  using assms by (auto simp: rotate_left_def Let_def bit_simps add.commute dest: bit_imp_le_length)

lemma bit_rotate_right:
  fixes v :: "'a::len word"
  assumes "rotate_amount TYPE('a) n < LENGTH('a)" and "i < LENGTH('a)"
  shows "bit (rotate_right v n) i =
    bit v (if i + rotate_amount TYPE('a) n < LENGTH('a) then i + rotate_amount TYPE('a) n else i + rotate_amount TYPE('a) n - LENGTH('a))"
  using assms by (auto simp: rotate_right_def Let_def bit_simps add.commute dest: bit_imp_le_length)

lemma rotate_left_rotl:
  fixes v :: "'a::len word"
  assumes "rotate_amount TYPE('a) n = unat n mod LENGTH('a)"
  shows "rotate_left v n = word_rotl (unat n) v"
proof (rule bit_word_eqI)
  fix i assume i: "i < LENGTH('a)"
  define k where "k = unat n mod LENGTH('a)"
  have k: "k < LENGTH('a)" by (simp add: k_def)
  have "(i + (LENGTH('a) - k)) mod LENGTH('a) = (if k \<le> i then i - k else i + LENGTH('a) - k)"
    using i k by (auto simp: mod_if)
  then show "bit (rotate_left v n) i = bit (word_rotl (unat n) v) i"
    using i k by (simp add: bit_rotate_left assms bit_word_rotl_iff flip: k_def)
qed

lemma rotate_right_rotr:
  fixes v :: "'a::len word"
  assumes "rotate_amount TYPE('a) n = unat n mod LENGTH('a)"
  shows "rotate_right v n = word_rotr (unat n) v"
proof (rule bit_word_eqI)
  fix i assume i: "i < LENGTH('a)"
  define k where "k = unat n mod LENGTH('a)"
  have k: "k < LENGTH('a)" by (simp add: k_def)
  have "(i + unat n) mod LENGTH('a) = (i + k) mod LENGTH('a)" by (simp add: k_def mod_simps)
  also have "\<dots> = (if i + k < LENGTH('a) then i + k else i + k - LENGTH('a))"
    using i k by (auto simp: mod_if)
  finally show "bit (rotate_right v n) i = bit (word_rotr (unat n) v) i"
    using i k by (simp add: bit_rotate_right assms bit_word_rotr_iff flip: k_def)
qed


text \<open>
  the 8-, 16-, 32- and 64-bit rotates are the rotations of the library by the full amount, for
  any amount, so a right rotate undoes a left rotate by the same amount.
\<close>

theorem rotates_are_rotations:
  "RotateLeft8 v8 n = word_rotl (unat n) v8 \<and> RotateLeft16 v16 n = word_rotl (unat n) v16 \<and>
   RotateLeft32 v32 n = word_rotl (unat n) v32 \<and> RotateLeft64 v64 n = word_rotl (unat n) v64 \<and>
   RotateRight8 v8 n = word_rotr (unat n) v8 \<and> RotateRight16 v16 n = word_rotr (unat n) v16 \<and>
   RotateRight32 v32 n = word_rotr (unat n) v32 \<and> RotateRight64 v64 n = word_rotr (unat n) v64 \<and>
   RotateRight8 (RotateLeft8 v8 n) n = v8 \<and> RotateRight16 (RotateLeft16 v16 n) n = v16 \<and>
   RotateRight32 (RotateLeft32 v32 n) n = v32 \<and> RotateRight64 (RotateLeft64 v64 n) n = v64"
  by (simp add: RotateLeft8_def RotateLeft16_def RotateLeft32_def RotateLeft64_def RotateRight8_def
      RotateRight16_def RotateRight32_def RotateRight64_def rotate_left_rotl rotate_right_rotr rotate_amounts)

lemma carry_cases: "unat (b :: u8) \<le> 1 \<Longrightarrow> b = of_bool (bit b 0)"
proof -
  assume "unat b \<le> 1"
  then have "unat b = 0 \<or> unat b = 1" by auto
  then have "b = 0 \<or> b = 1" by (auto simp: word_unat_eq_iff)
  then show ?thesis by auto
qed

lemma fst_RotateLeft_carry:
  assumes "unat n mod 32 = k" and "0 < k" and "i < 32"
  shows "bit (fst (RotateLeft_carry v n (of_bool b))) i =
    (if i < k - 1 then bit v (33 + i - k) else if i = k - 1 then b else bit v (i - k))"
  using assms by (auto simp: RotateLeft_carry_def Let_def and_31 bit_simps dest: bit_imp_le_length)

lemma snd_RotateLeft_carry:
  assumes "unat n mod 32 = k" and "0 < k"
  shows "snd (RotateLeft_carry v n (of_bool b)) = of_bool (bit v (32 - k))"
  using assms by (intro bit_word_eqI) (auto simp: RotateLeft_carry_def Let_def and_31 bit_simps)

lemma fst_RotateRight_carry:
  assumes "unat n mod 32 = k" and "0 < k" and "k < 32" and "i < 32"
  shows "bit (fst (RotateRight_carry w n (of_bool c))) i =
    (if i + k < 32 then bit w (i + k) else if i + k = 32 then c else bit w (i + k - 33))"
proof -
  consider "i + k < 32" | "i + k = 32" | "32 < i + k" by linarith
  then show ?thesis
    using assms by cases (auto simp: RotateRight_carry_def Let_def and_31 bit_simps add.commute dest: bit_imp_le_length)
qed

text \<open>
  rotating left and then right through the carry by the same amount returns the value and the
  carry, for a non-zero amount; for amount 0 the right rotate returns 0 and loses the value.
\<close>

theorem rotate_carry_round_trip:
  assumes "unat bit_in \<le> 1" and "unat n mod 32 \<noteq> 0"
  shows "(case RotateLeft_carry v n bit_in of (w, c) \<Rightarrow> RotateRight_carry w n c) = (v, bit_in)"
proof -
  define k where "k = unat n mod 32"
  have k: "0 < k" "k < 32" using assms(2) by (simp_all add: k_def)
  define b where "b = bit bit_in 0"
  have b: "bit_in = of_bool b" unfolding b_def by (rule carry_cases [OF assms(1)])
  obtain w c where e: "RotateLeft_carry v n bit_in = (w, c)" by (cases "RotateLeft_carry v n bit_in")
  note w = fst_RotateLeft_carry [OF k_def [symmetric] k(1), of _ v b, folded b, unfolded e fst_conv]
  note c = snd_RotateLeft_carry [OF k_def [symmetric] k(1), of v b, folded b, unfolded e snd_conv]
  have "fst (RotateRight_carry w n c) = v"
  proof (rule bit_word_eqI)
    fix i assume "i < LENGTH(32)"
    then have i: "i < 32" by simp
    consider "i + k < 32" | "i = 32 - k" "i + k = 32" | "32 < i + k" by linarith
    then show "bit (fst (RotateRight_carry w n c)) i = bit v i"
      using k i by cases (auto simp: c w fst_RotateRight_carry [OF k_def [symmetric] k])
  qed
  moreover have "snd (RotateRight_carry w n c) = bit_in"
    using k by (intro bit_word_eqI) (auto simp: RotateRight_carry_def Let_def and_31 bit_simps b w simp flip: k_def)
  ultimately show ?thesis by (simp add: e prod_eq_iff)
qed

theorem rotate_carry_round_trip_witness:
  "(case RotateLeft_carry 0x80000001 5 1 of (w, c) \<Rightarrow> RotateRight_carry w 5 c) = (0x80000001, 1)"
  using rotate_carry_round_trip [of 1 5 "0x80000001"] by simp

text \<open>By an amount of 0 the right rotate through the carry loses the value; the left one keeps it.\<close>

lemma rotate_carry_zero: "RotateLeft_carry v 0 b = (v, 0)" "RotateRight_carry v 0 b = (0, 0)"
  by (simp_all add: RotateLeft_carry_def RotateRight_carry_def)

section \<open>Shifts as arithmetic\<close>

text \<open>
  the 32-bit shifts multiply and divide by a power of two, the arithmetic shift right
  rounding down, with the amount taken modulo 32.
\<close>

theorem shifts_are_arithmetic:
  "unat (ShiftLeft v n) = unat v * 2 ^ (unat n mod 32) mod 2 ^ 32 \<and>
   unat (ShiftRight v n) = unat v div 2 ^ (unat n mod 32) \<and>
   sint (ShiftArithmeticRight v n) = sint v div 2 ^ (unat n mod 32) \<and>
   fst (ShiftLeft_out v n) = ShiftLeft v n \<and> fst (ShiftRight_out v n) = ShiftRight v n \<and>
   fst (ShiftArithmeticRight_out v n) = ShiftArithmeticRight v n"
  by (simp add: ShiftLeft_def ShiftRight_def ShiftArithmeticRight_def ShiftLeft_out_def ShiftRight_out_def
      ShiftArithmeticRight_out_def Let_def and_31 unat_drop_bit unsigned_push_bit_eq push_bit_eq_mult [where 'a = nat]
      take_bit_eq_mod sint_signed_drop_bit_eq drop_bit_eq_div [where 'a = int])

section \<open>Bit scans\<close>

text \<open>The forward scan from bit \<open>i\<close> on: it ends at the lowest bit that is set.\<close>

lemma and_1_eq_0: "(v :: 'a::len word) AND 1 = 0 \<longleftrightarrow> \<not> bit v 0"
  by (simp add: and_one_eq bit_0 even_iff_mod_2_eq_zero)

lemma bsf_loop_finds:
  assumes "bit v m" and "0 < m" and "\<forall>j < m. \<not> bit v j"
  shows "bsf_loop i v = Some (i + of_nat m)"
  using assms
proof (induction m arbitrary: i v)
  case (Suc m)
  show ?case
  proof (cases m)
    case 0
    with Suc.prems show ?thesis by (simp add: bsf_loop.simps and_1_eq_0 bit_drop_bit_eq)
  next
    case (Suc k)
    have "bsf_loop (i + 1) (drop_bit 1 v) = Some (i + 1 + of_nat m)"
      using Suc.prems Suc by (intro Suc.IH) (auto simp: bit_simps)
    with Suc.prems Suc show ?thesis
      by (simp add: bsf_loop.simps [of i v] and_1_eq_0 bit_drop_bit_eq ac_simps)
  qed
qed simp

lemma and_top_eq_0: "(v :: u32) AND 0x80000000 = 0 \<longleftrightarrow> \<not> bit v 31"
proof -
  have "v AND 0x80000000 = push_bit 31 (of_bool (bit v 31))"
  proof (rule bit_word_eqI)
    fix i assume "i < LENGTH(32)"
    moreover have "(0x80000000 :: u32) = push_bit 31 1" by simp
    ultimately show "bit (v AND 0x80000000) i = bit (push_bit 31 (of_bool (bit v 31)) :: u32) i"
      by (cases "i = 31") (simp_all only: bit_and_iff bit_push_bit_iff bit_1_iff bit_of_bool_iff, auto)
  qed
  then show ?thesis by simp
qed

lemma bit_shl1: "bit (push_bit 1 v :: u32) j = (0 < j \<and> j < 32 \<and> bit v (j - 1))"
  by (subst bit_push_bit_iff) auto

lemma bsr_loop_finds:
  assumes "bit v m" and "m < 31" and "\<forall>j. m < j \<longrightarrow> \<not> bit v j"
  shows "bsr_loop i v = Some (i - of_nat (31 - m))"
  using assms
proof (induction "31 - m" arbitrary: m i v)
  case (Suc d)
  have step: "bsr_loop i v = (if bit v 30 then Some (i - 1) else bsr_loop (i - 1) (push_bit 1 v))"
  proof -
    have "bit (push_bit 1 v) 31 = bit v 30" by (subst bit_push_bit_iff) simp
    then show ?thesis unfolding bsr_loop.simps [of i v] Let_def and_top_eq_0 by simp
  qed
  show ?case
  proof (cases "m = 30")
    case True
    with Suc.prems step show ?thesis by simp
  next
    case False
    with Suc.prems have "\<not> bit v 30" by auto
    moreover have "bit (push_bit 1 v) (Suc m)" "\<forall>j > Suc m. \<not> bit (push_bit 1 v) j"
      unfolding bit_shl1 using Suc.prems by auto
    then have "bsr_loop (i - 1) (push_bit 1 v) = Some (i - 1 - of_nat (31 - Suc m))"
      using Suc.prems Suc.hyps(2) False by (intro Suc.hyps(1)) auto
    moreover have "31 - m = Suc (31 - Suc m)" using Suc.prems by simp
    ultimately show ?thesis by (simp add: step algebra_simps)
  qed
qed simp


lemma lowest_bit: "v \<noteq> (0 :: 'a::len word) \<Longrightarrow> \<exists>m. bit v m \<and> (\<forall>j < m. \<not> bit v j)"
proof -
  assume "v \<noteq> 0"
  then obtain i where "bit v i" by (auto simp: bit_eq_iff)
  then have "bit v (LEAST i. bit v i)" "\<forall>j < (LEAST i. bit v i). \<not> bit v j"
    by (auto intro: LeastI dest: not_less_Least)
  then show ?thesis by blast
qed

lemma highest_bit:
  assumes "v \<noteq> (0 :: 'a::len word)"
  shows "\<exists>m. bit v m \<and> (\<forall>j > m. \<not> bit v j)"
proof -
  have "finite {i. bit v i}" by (rule finite_subset [of _ "{..<LENGTH('a)}"]) (auto dest: bit_imp_le_length)
  moreover have "{i. bit v i} \<noteq> {}" using assms by (auto simp: bit_eq_iff)
  ultimately show ?thesis
    using Max_in [of "{i. bit v i}"] Max_ge [of "{i. bit v i}"] by (intro exI [of _ "Max {i. bit v i}"]) (auto simp: not_le [symmetric])
qed

lemma BitScanForward32_eq:
  assumes "bit v m" and "\<forall>j < m. \<not> bit v j"
  shows "BitScanForward32 v = Some (Some (of_nat m))"
  using assms bsf_loop_finds [OF assms(1) _ assms(2), of 0]
  by (cases "m = 0") (auto simp: BitScanForward32_def and_1_eq_0)

lemma BitScanReverse32_eq:
  assumes "bit v m" and "\<forall>j > m. \<not> bit v j"
  shows "BitScanReverse32 v = Some (Some (of_nat m))"
proof -
  have "m < 32" "v \<noteq> 0" using bit_imp_le_length [OF assms(1)] assms(1) by auto
  then consider "m = 31" | "m < 31" by linarith
  then show ?thesis
  proof cases
    case 2
    then have "(31 :: u32) - of_nat (31 - m) = of_nat m" by (simp add: of_nat_diff)
    with 2 assms(2) \<open>v \<noteq> 0\<close> bsr_loop_finds [OF assms(1) 2 assms(2), of 31] show ?thesis
      by (auto simp: BitScanReverse32_def and_top_eq_0)
  qed (use assms \<open>v \<noteq> 0\<close> in \<open>auto simp: BitScanReverse32_def and_top_eq_0\<close>)
qed


definition lowest_of :: "'a::len word \<Rightarrow> u32 option \<Rightarrow> bool" where
  "lowest_of v r = (case r of None \<Rightarrow> v = 0 | Some n \<Rightarrow> bit v (unat n) \<and> (\<forall>j < unat n. \<not> bit v j))"

definition highest_of :: "'a::len word \<Rightarrow> u32 option \<Rightarrow> bool" where
  "highest_of v r = (case r of None \<Rightarrow> v = 0 | Some n \<Rightarrow> bit v (unat n) \<and> (\<forall>j > unat n. \<not> bit v j))"

lemma unat_index: "bit (v :: 'a::len word) m \<Longrightarrow> LENGTH('a) \<le> 64 \<Longrightarrow> unat (of_nat m :: u32) = m"
  by (drule bit_imp_le_length) (simp add: unat_of_nat)

lemma BitScanForward32_spec: "\<exists>r. BitScanForward32 v = Some r \<and> lowest_of v r"
proof (cases "v = 0")
  case False
  then obtain m where "bit v m" "\<forall>j < m. \<not> bit v j" using lowest_bit by blast
  then show ?thesis using BitScanForward32_eq [of v m] unat_index [of v m] by (simp add: lowest_of_def)
qed (simp add: BitScanForward32_def lowest_of_def)

lemma BitScanReverse32_spec: "\<exists>r. BitScanReverse32 v = Some r \<and> highest_of v r"
proof (cases "v = 0")
  case False
  then obtain m where "bit v m" "\<forall>j > m. \<not> bit v j" using highest_bit by blast
  then show ?thesis using BitScanReverse32_eq [of v m] unat_index [of v m] by (simp add: highest_of_def)
qed (simp add: BitScanReverse32_def highest_of_def)

lemma bit_halves:
  "bit (ucast v :: u32) j = (j < 32 \<and> bit (v :: u64) j)"
  "bit (ucast (drop_bit 32 v) :: u32) j = (j < 32 \<and> bit (v :: u64) (32 + j))"
  by (auto simp: bit_simps)

lemma bit_by_half: "i < 64 \<Longrightarrow> bit (v :: u64) i =
    (if i < 32 then bit (ucast v :: u32) i else bit (ucast (drop_bit 32 v) :: u32) (i - 32))"
  by (auto simp: bit_halves bit_drop_bit_eq)

lemma halves_zero: "(ucast v :: u32) = 0 \<Longrightarrow> (ucast (drop_bit 32 v) :: u32) = 0 \<Longrightarrow> (v :: u64) = 0"
  by (rule bit_word_eqI) (simp add: bit_by_half)

lemma unat_plus_32: "unat n < 32 \<Longrightarrow> unat (n + 32 :: u32) = unat n + 32"
  by (simp add: unat_word_ariths)

lemma BitScanForward64_spec: "\<exists>r. BitScanForward64 v = Some r \<and> lowest_of v r"
proof -
  let ?lo = "ucast v :: u32" and ?hi = "ucast (drop_bit 32 v) :: u32"
  obtain l where l: "BitScanForward32 ?lo = Some l" "lowest_of ?lo l" using BitScanForward32_spec by blast
  obtain h where h: "BitScanForward32 ?hi = Some h" "lowest_of ?hi h" using BitScanForward32_spec by blast
  show ?thesis
  proof (cases l)
    case (Some n)
    then have "bit ?lo (unat n)" "\<forall>j < unat n. \<not> bit ?lo j" using l(2) by (auto simp: lowest_of_def)
    then have "bit v (unat n)" "\<forall>j < unat n. \<not> bit v j" unfolding bit_halves by auto
    with Some l show ?thesis by (simp add: BitScanForward64_def lowest_of_def)
  next
    case None
    then have lo: "?lo = 0" using l(2) by (simp add: lowest_of_def)
    show ?thesis
    proof (cases h)
      case None
      with lo h(2) have "v = 0" by (intro halves_zero) (auto simp: lowest_of_def)
      with None \<open>l = None\<close> l h show ?thesis by (simp add: BitScanForward64_def lowest_of_def)
    next
      case (Some n)
      then have n: "bit ?hi (unat n)" "\<forall>j < unat n. \<not> bit ?hi j" using h(2) by (auto simp: lowest_of_def)
      then have lt: "unat n < 32" unfolding bit_halves by blast
      have "bit v (unat n + 32)" using n(1) unfolding bit_halves by (simp add: bit_drop_bit_eq add.commute)
      moreover have "\<not> bit v j" if "j < unat n + 32" for j
      proof -
        have "j < 64" using that lt by simp
        then show ?thesis using n(2) lo that by (simp add: bit_by_half)
      qed
      ultimately show ?thesis
        using Some \<open>l = None\<close> l h lt by (simp add: BitScanForward64_def lowest_of_def unat_plus_32)
    qed
  qed
qed

lemma BitScanReverse64_spec: "\<exists>r. BitScanReverse64 v = Some r \<and> highest_of v r"
proof -
  let ?lo = "ucast v :: u32" and ?hi = "ucast (drop_bit 32 v) :: u32"
  obtain l where l: "BitScanReverse32 ?lo = Some l" "highest_of ?lo l" using BitScanReverse32_spec by blast
  obtain h where h: "BitScanReverse32 ?hi = Some h" "highest_of ?hi h" using BitScanReverse32_spec by blast
  show ?thesis
  proof (cases h)
    case (Some n)
    then have n: "bit ?hi (unat n)" "\<forall>j > unat n. \<not> bit ?hi j" using h(2) by (auto simp: highest_of_def)
    then have lt: "unat n < 32" unfolding bit_halves by blast
    have "bit v (unat n + 32)" using n(1) unfolding bit_halves by (simp add: bit_drop_bit_eq add.commute)
    moreover have "\<not> bit v j" if "unat n + 32 < j" for j
      using n(2) that by (cases "j < 64") (auto simp: bit_by_half dest: bit_imp_le_length)
    ultimately show ?thesis
      using Some h lt by (simp add: BitScanReverse64_def highest_of_def unat_plus_32)
  next
    case None
    then have hi: "?hi = 0" using h(2) by (simp add: highest_of_def)
    show ?thesis
    proof (cases l)
      case None
      with hi l(2) have "v = 0" by (intro halves_zero) (auto simp: highest_of_def)
      with None \<open>h = None\<close> l h show ?thesis by (simp add: BitScanReverse64_def highest_of_def)
    next
      case (Some n)
      then have n: "bit ?lo (unat n)" "\<forall>j > unat n. \<not> bit ?lo j" using l(2) by (auto simp: highest_of_def)
      then have "bit v (unat n)" unfolding bit_halves by blast
      moreover have "\<not> bit v j" if "unat n < j" for j
        using n(2) that hi by (cases "j < 64") (auto simp: bit_by_half dest: bit_imp_le_length)
      ultimately show ?thesis using Some \<open>h = None\<close> l h by (simp add: BitScanReverse64_def highest_of_def)
    qed
  qed
qed

text \<open>
  the bit scans of 32 and 64 bits return on every argument: false on 0, otherwise true with the
  index of the lowest, for the reverse scans of the highest, bit that is set.
\<close>

theorem bit_scans_find:
  "(\<exists>r. BitScanForward32 v = Some r \<and> lowest_of v r) \<and> (\<exists>r. BitScanReverse32 v = Some r \<and> highest_of v r) \<and>
   (\<exists>r. BitScanForward64 w = Some r \<and> lowest_of w r) \<and> (\<exists>r. BitScanReverse64 w = Some r \<and> highest_of w r)"
  by (intro conjI BitScanForward32_spec BitScanReverse32_spec BitScanForward64_spec BitScanReverse64_spec)

section \<open>Logarithms\<close>

lemma highest_bounds:
  assumes "highest_of (v :: 'a::len word) (Some n)"
  shows "2 ^ unat n \<le> unat v" and "unat v < 2 ^ Suc (unat n)"
proof -
  have b: "bit (unat v) (unat n)" "\<And>j. unat n < j \<Longrightarrow> \<not> bit (unat v) j"
    using assms by (auto simp: highest_of_def bit_simps)
  have "odd (unat v div 2 ^ unat n)" using b(1) by (simp add: bit_iff_odd)
  then have "unat v div 2 ^ unat n \<noteq> 0" by (metis even_zero)
  then show "2 ^ unat n \<le> unat v" by (auto simp: div_eq_0_iff)
  have "take_bit (Suc (unat n)) (unat v) = unat v"
  proof (rule bit_eqI)
    fix i
    show "bit (take_bit (Suc (unat n)) (unat v)) i = bit (unat v) i"
      using b(2) [of i] by (cases "unat n < i") (auto simp: bit_take_bit_iff)
  qed
  then show "unat v < 2 ^ Suc (unat n)" by (metis take_bit_nat_less_exp)
qed

lemma unat_one_shifted: "n < 64 \<Longrightarrow> unat (push_bit n (1 :: u64)) = 2 ^ n"
  unfolding unsigned_push_bit_eq by (simp add: push_bit_eq_mult [where 'a = nat] take_bit_nat_eq_self)

lemma unat_pow_64: "n < 64 \<Longrightarrow> unat ((2 :: u64) ^ n) = 2 ^ n"
  using unat_one_shifted [of n] by simp

lemma logarithms_of:
  fixes n :: u32
  assumes "highest_of (v :: 'a::len word) (Some n)" and "LENGTH('a) \<le> 64" and "unat w = unat v"
  defines "c \<equiv> (if push_bit (unat n) (1 :: u64) < w then n + 1 else n)"
  shows "unat v \<le> 2 ^ unat c" and "unat c = 0 \<or> 2 ^ (unat c - 1) < unat v"
proof -
  have n: "unat n < 64" using assms(1,2) by (auto simp: highest_of_def dest: bit_imp_le_length)
  moreover have "unat (n + 1) = unat n + 1" using n by (simp add: unat_word_ariths)
  ultimately show "unat v \<le> 2 ^ unat c"
    using highest_bounds [OF assms(1)] assms(3) by (auto simp: c_def word_less_nat_alt unat_pow_64)
  show "unat c = 0 \<or> 2 ^ (unat c - 1) < unat v"
  proof (cases "2 ^ unat n < unat v")
    case True
    with n \<open>unat (n + 1) = unat n + 1\<close> assms(3) show ?thesis by (simp add: c_def word_less_nat_alt unat_pow_64)
  next
    case False
    then have "c = n" using n assms(3) by (simp add: c_def word_less_nat_alt unat_pow_64)
    moreover have "unat n = 0 \<or> (2 :: nat) ^ (unat n - 1) < 2 ^ unat n" by (cases "unat n") simp_all
    ultimately show ?thesis using highest_bounds(1) [OF assms(1)] by (metis order.strict_trans2)
  qed
qed

text \<open>
  the base-2 logarithms and the leading-zero counts return on every argument; \<open>Log2\<close> rounds
  down, \<open>CeilLog2\<close> rounds up, and the leading zeros are the bits above the logarithm.
\<close>

theorem logarithms_bound:
  assumes "v \<noteq> 0" and "w \<noteq> 0"
  shows "(\<exists>l c. Log2_32 v = Some l \<and> 2 ^ unat l \<le> unat v \<and> unat v < 2 ^ Suc (unat l) \<and>
      CountLeadingZeros32 v = Some (31 - l) \<and>
      CeilLog2_32 v = Some c \<and> unat v \<le> 2 ^ unat c \<and> (unat c = 0 \<or> 2 ^ (unat c - 1) < unat v)) \<and>
    (\<exists>l c. Log2_64 w = Some l \<and> 2 ^ unat l \<le> unat w \<and> unat w < 2 ^ Suc (unat l) \<and>
      CountLeadingZeros64 w = Some (63 - l) \<and>
      CeilLog2_64 w = Some c \<and> unat w \<le> 2 ^ unat c \<and> (unat c = 0 \<or> 2 ^ (unat c - 1) < unat w))"
proof -
  obtain l where l: "BitScanReverse32 v = Some (Some l)" "highest_of v (Some l)"
    using BitScanReverse32_spec [of v] assms(1) by (auto simp: highest_of_def split: option.splits)
  obtain h where h: "BitScanReverse64 w = Some (Some h)" "highest_of w (Some h)"
    using BitScanReverse64_spec [of w] assms(2) by (auto simp: highest_of_def split: option.splits)
  have "unat v < 2 ^ LENGTH(32)" by (rule unsigned_less)
  then have v: "unat (ucast v :: u64) = unat v" by (simp add: unsigned_ucast_eq take_bit_nat_eq_self)
  show ?thesis
    using highest_bounds [OF l(2)] highest_bounds [OF h(2)] logarithms_of [OF l(2) _ v] logarithms_of [OF h(2) _ refl]
    by (simp add: Log2_32_def CountLeadingZeros32_def CeilLog2_32_def l(1) Log2_64_def CountLeadingZeros64_def
        CeilLog2_64_def h(1))
qed

theorem logarithms_bound_witness:
  "\<exists>l c. Log2_32 5 = Some l \<and> 2 ^ unat l \<le> (5 :: nat) \<and> (5 :: nat) < 2 ^ Suc (unat l) \<and> CeilLog2_32 5 = Some c \<and> (5 :: nat) \<le> 2 ^ unat c"
  using logarithms_bound [of 5 5] by auto

section \<open>Sign extension\<close>

lemma sint_sign_extend:
  fixes v :: "'a::len word"
  assumes "1 \<le> n" and "n \<le> LENGTH('a)"
  shows "sint (sign_extend v n) = signed_take_bit (n - 1) (uint v)"
proof (rule bit_eqI)
  fix i
  show "bit (sint (sign_extend v n)) i = bit (signed_take_bit (n - 1) (uint v)) i"
    using assms by (cases "i = n - 1") (auto simp: sign_extend_def Let_def bit_simps min_def)
qed

text \<open>
  \<open>SignExtend\<close> reads the low \<open>n\<close> bits of its argument as a two's complement number, for
  every \<open>n\<close> from 1 to the width.
\<close>

theorem SignExtend_reads_field:
  assumes "1 \<le> n"
  shows "(n \<le> 8 \<longrightarrow> sint (SignExtend8 v8 n) = signed_take_bit (n - 1) (uint v8)) \<and>
    (n \<le> 16 \<longrightarrow> sint (SignExtend16 v16 n) = signed_take_bit (n - 1) (uint v16)) \<and>
    (n \<le> 32 \<longrightarrow> sint (SignExtend32 v32 n) = signed_take_bit (n - 1) (uint v32)) \<and>
    (n \<le> 64 \<longrightarrow> sint (SignExtend64 v64 n) = signed_take_bit (n - 1) (uint v64))"
  using assms by (simp add: SignExtend8_def SignExtend16_def SignExtend32_def SignExtend64_def sint_sign_extend)

theorem SignExtend_reads_field_witness: "sint (SignExtend8 0x0f 4) = - 1"
  using SignExtend_reads_field [of 4 "0x0f"] by simp

section \<open>Parity\<close>

lemma bit_parity_loop:
  fixes v :: "'a::len word"
  shows "bit (parity_loop n par v) 0 = (bit par 0 \<noteq> odd (card {i. i < n \<and> bit v i}))"
proof (induction n arbitrary: par v)
  case (Suc n)
  have "{i. i < Suc n \<and> bit v i} = (if bit v 0 then {0} else {}) \<union> Suc ` {i. i < n \<and> bit (drop_bit 1 v) i}"
    by (auto simp: bit_drop_bit_eq image_iff less_Suc_eq_0_disj)
  then have "card {i. i < Suc n \<and> bit v i} = of_bool (bit v 0) + card {i. i < n \<and> bit (drop_bit 1 v) i}"
    by (simp add: card_image)
  then show ?case by (cases "bit v 0") (auto simp: Suc.IH bit_simps)
qed simp

text \<open>
  the parity functions return 1 exactly when the number of bits set is odd; the even and the
  odd version of the portable code are the same function.
\<close>

theorem parity_counts_bits:
  "EvenParity8 v8 = of_bool (odd (card {i. bit v8 i})) \<and> EvenParity16 v16 = of_bool (odd (card {i. bit v16 i})) \<and>
   EvenParity32 v32 = of_bool (odd (card {i. bit v32 i})) \<and>
   OddParity8 v8 = EvenParity8 v8 \<and> OddParity16 v16 = EvenParity16 v16 \<and> OddParity32 v32 = EvenParity32 v32"
proof -
  have s: "{i. i < LENGTH('a) \<and> bit v i} = {i. bit v i}" for v :: "'a::len word" by (auto dest: bit_imp_le_length)
  have "w AND 1 = of_bool (bit w 0)" for w :: u8 by (rule bit_word_eqI) (auto simp: bit_simps)
  then show ?thesis
    using s [of v8] s [of v16] s [of v32]
    by (simp add: EvenParity8_def EvenParity16_def EvenParity32_def OddParity8_def OddParity16_def OddParity32_def
        bit_parity_loop)
qed

section \<open>Addition with reverse carry propagation\<close>

text \<open>The carry into position \<open>i\<close> of a ripple-carry addition of two bit sequences.\<close>

fun ripple :: "(nat \<Rightarrow> bool) \<Rightarrow> (nat \<Rightarrow> bool) \<Rightarrow> nat \<Rightarrow> bool" where
  "ripple a b 0 = False"
| "ripple a b (Suc i) = ((a i \<and> b i) \<or> (ripple a b i \<and> (a i \<or> b i)))"

lemma ripple_bit:
  fixes a b :: int
  assumes "take_bit i a + take_bit i b = take_bit i (a + b) + 2 ^ i * of_bool (ripple (bit a) (bit b) i)"
  shows "bit (a + b) i = ((bit a i \<noteq> bit b i) \<noteq> ripple (bit a) (bit b) i)"
proof -
  let ?C = "of_bool (ripple (bit a) (bit b) i) :: int"
  have "a = a div 2 ^ i * 2 ^ i + take_bit i a" "b = b div 2 ^ i * 2 ^ i + take_bit i b"
    by (simp_all only: take_bit_eq_mod div_mult_mod_eq)
  then have "a + b = (a div 2 ^ i + b div 2 ^ i + ?C) * 2 ^ i + take_bit i (a + b)"
    using assms by (simp add: algebra_simps)
  then have "(a + b) div 2 ^ i = a div 2 ^ i + b div 2 ^ i + ?C"
    by (metis div_pos_pos_trivial div_mult_self3 take_bit_int_less_exp take_bit_nonnegative add.right_neutral
        power_eq_0_iff zero_neq_numeral add.commute)
  then show ?thesis by (auto simp: bit_iff_odd)
qed

lemma ripple_sum:
  fixes a b :: int
  shows "take_bit i a + take_bit i b = take_bit i (a + b) + 2 ^ i * of_bool (ripple (bit a) (bit b) i)"
proof (induction i)
  case (Suc i)
  then show ?case
    by (cases "bit a i"; cases "bit b i"; cases "ripple (bit a) (bit b) i")
      (simp_all add: take_bit_Suc_from_most ripple_bit [OF Suc.IH])
qed simp

lemma bit_word_add:
  fixes a b :: "'a::len word"
  assumes "i < LENGTH('a)"
  shows "bit (a + b) i = ((bit a i \<noteq> bit b i) \<noteq> ripple (bit a) (bit b) i)"
proof -
  have "bit (uint a) = bit a" "bit (uint b) = bit b" by (auto simp: fun_eq_iff bit_simps dest: bit_imp_le_length)
  moreover have "bit (a + b) i = bit (uint a + uint b) i"
    using assms by (metis bit_uint_iff uint_word_ariths(1) bit_take_bit_iff take_bit_eq_mod)
  ultimately show ?thesis by (simp add: ripple_bit [OF ripple_sum])
qed

lemma ripple_cong: "(\<And>j. j < i \<Longrightarrow> a j = a' j \<and> b j = b' j) \<Longrightarrow> ripple a b i = ripple a' b' i"
  by (induction i) auto

lemma ripple_quiet: "(\<And>j. j < i \<Longrightarrow> \<not> (a j \<and> b j)) \<Longrightarrow> \<not> ripple a b i"
  by (induction i) auto

text \<open>The carry into bit \<open>i\<close> of the reversed addition comes from the bits above.\<close>

definition carry_above :: "u32 \<Rightarrow> u32 \<Rightarrow> nat \<Rightarrow> bool" where
  "carry_above x y i = ripple (\<lambda>j. bit x (31 - j)) (\<lambda>j. bit y (31 - j)) (31 - i)"

lemma carry_above_step:
  "i < 31 \<Longrightarrow> carry_above x y i =
    ((bit x (Suc i) \<and> bit y (Suc i)) \<or> (carry_above x y (Suc i) \<and> (bit x (Suc i) \<or> bit y (Suc i))))"
  by (simp add: carry_above_def Suc_diff_Suc [symmetric, of i 31] del: Suc_diff_Suc)

lemma bit_reverse_sum:
  assumes "i < 32"
  shows "bit (word_reverse (word_reverse x + word_reverse y)) i = ((bit x i \<noteq> bit y i) \<noteq> carry_above x y i)"
proof -
  have "ripple (bit (word_reverse x)) (bit (word_reverse y)) (31 - i) = carry_above x y i"
    unfolding carry_above_def by (rule ripple_cong) (auto simp: bit_word_reverse_iff)
  moreover have "31 - i < 32" by simp
  ultimately show ?thesis using assms by (simp add: bit_word_reverse_iff bit_word_add)
qed

lemma reverse_carry_loop_bits:
  assumes "p < 32" and "c = of_bool (carry_above x y p) * 2 ^ p" and "i < 32"
  shows "bit (reverse_carry_loop (x AND y) (x OR y) r c (2 ^ p)) i = (bit r i \<noteq> (i \<le> p \<and> carry_above x y i))"
  using assms
proof (induction p arbitrary: r c)
  case 0
  then show ?case by (subst reverse_carry_loop.simps) (auto simp: Let_def bit_simps)
next
  case (Suc p)
  let ?m = "2 ^ Suc p :: u32" and ?r = "r XOR (2 ^ Suc p AND c)"
  have c': "drop_bit 1 ((x AND y OR (c AND (x OR y))) AND ?m) = of_bool (carry_above x y p) * 2 ^ p"
    using Suc.prems by (intro bit_word_eqI) (auto simp: bit_simps carry_above_step [of p])
  have m': "drop_bit 1 ?m = 2 ^ p" using Suc.prems(1) by (intro bit_word_eqI) (auto simp: bit_simps)
  have "(2 :: u32) ^ p \<noteq> 0" using Suc.prems(1) by simp
  then have "reverse_carry_loop (x AND y) (x OR y) r c ?m =
      reverse_carry_loop (x AND y) (x OR y) ?r (of_bool (carry_above x y p) * 2 ^ p) (2 ^ p)"
    by (subst reverse_carry_loop.simps) (simp only: Let_def c' m' if_True not_False_eq_True)
  moreover have "bit ?r i = (bit r i \<noteq> (i = Suc p \<and> carry_above x y i))"
    using Suc.prems by (auto simp: bit_simps)
  ultimately show ?case
    using Suc.prems Suc.IH [of "of_bool (carry_above x y p) * 2 ^ p" ?r] by (auto simp: le_Suc_eq)
qed

lemma ReverseCarryPropagationAdd_eq:
  "ReverseCarryPropagationAdd x y = Some (word_reverse (word_reverse x + word_reverse y))"
proof (cases "x AND y = 0")
  case True
  then have q: "\<not> (bit x j \<and> bit y j)" for j using bit_and_iff [of x y j] by simp
  have "\<not> carry_above x y i" for i unfolding carry_above_def by (rule ripple_quiet) (use q in blast)
  then have "x XOR y = word_reverse (word_reverse x + word_reverse y)"
    by (intro bit_word_eqI) (simp add: bit_reverse_sum bit_xor_iff)
  with True show ?thesis by (simp add: ReverseCarryPropagationAdd_def BitScanReverse32_def)
next
  case False
  then obtain m where m: "bit (x AND y) m" "\<forall>j > m. \<not> bit (x AND y) j" using highest_bit by blast
  then have m32: "m < 32" using bit_imp_le_length [OF m(1)] by simp
  have quiet: "\<not> carry_above x y i" if "m \<le> i" for i
    unfolding carry_above_def by (rule ripple_quiet) (use m(2) that m32 in \<open>auto simp: bit_and_iff\<close>)
  have "reverse_carry_loop (x AND y) (x OR y) (x XOR y) 0 (2 ^ m) = word_reverse (word_reverse x + word_reverse y)"
  proof (rule bit_word_eqI)
    fix i assume "i < LENGTH(32)"
    then show "bit (reverse_carry_loop (x AND y) (x OR y) (x XOR y) 0 (2 ^ m)) i =
        bit (word_reverse (word_reverse x + word_reverse y)) i"
      using reverse_carry_loop_bits [OF m32, of 0 x y i "x XOR y"] quiet [of m] quiet [of i]
      by (auto simp: bit_reverse_sum bit_xor_iff)
  qed
  then show ?thesis
    using BitScanReverse32_eq [OF m] m32 by (simp add: ReverseCarryPropagationAdd_def unat_of_nat)
qed

text \<open>
  C25: the reverse-carry addition returns on every argument the sum of the operands read from the
  most significant bit down, as the addition of their bit reversals.
\<close>

theorem reverse_carry_add_correct:
  "ReverseCarryPropagationAdd x y = Some (word_reverse (word_reverse x + word_reverse y))"
  by (rule ReverseCarryPropagationAdd_eq)

end
