(* ===== verification/Word_Bus.thy ===== *)
theory Word_Bus
  imports Prelude
begin

text \<open>
  What the memory-mapped peripherals share: the big-endian bytes of a 32-bit register, the loops of
  their debug accesses \<open>ReadMemory\<close> and \<open>WriteMemory\<close>, which the sources repeat word for word, and
  the response of a transaction.
\<close>

datatype tlm_response = TLM_OK_RESPONSE | TLM_ADDRESS_ERROR_RESPONSE | TLM_BURST_ERROR_RESPONSE

text \<open>The four bytes of a register in memory, most significant first on any host.\<close>

definition be_bytes :: "u32 \<Rightarrow> u8 list" where
  "be_bytes v = [ucast (drop_bit 24 v), ucast (drop_bit 16 v), ucast (drop_bit 8 v), ucast v]"

definition of_be_bytes :: "u8 list \<Rightarrow> u32" where
  "of_be_bytes bs = push_bit 24 (ucast (bs ! 0)) OR push_bit 16 (ucast (bs ! 1)) OR push_bit 8 (ucast (bs ! 2)) OR ucast (bs ! 3)"

lemma of_be_bytes_be_bytes: "of_be_bytes (be_bytes v) = v"
proof (rule bit_word_eqI)
  fix i assume i: "i < LENGTH(32)"
  consider "i < 8" | "8 \<le> i" "i < 16" | "16 \<le> i" "i < 24" | "24 \<le> i" by linarith
  then show "bit (of_be_bytes (be_bytes v)) i = bit v i"
    using i by cases (auto simp: of_be_bytes_def be_bytes_def bit_or_iff bit_push_bit_iff bit_unsigned_iff bit_drop_bit_eq)
qed

lemma length_be_bytes [simp]: "length (be_bytes v) = 4"
  by (simp add: be_bytes_def)

lemma be_bytes_not_Nil [simp]: "be_bytes v \<noteq> []"
  by (simp add: be_bytes_def)

text \<open>\<open>Host2BigEndian\<close> of a 32-bit value on a little-endian host.\<close>

definition byte_swap32 :: "u32 \<Rightarrow> u32" where
  "byte_swap32 v = of_be_bytes (rev (be_bytes v))"

lemma byte_swap32_involution [simp]: "byte_swap32 (byte_swap32 v) = v"
proof -
  have be: "be_bytes (of_be_bytes [a, b, c, d]) = [a, b, c, d]" for a b c d
    by (auto simp: be_bytes_def of_be_bytes_def intro!: bit_word_eqI)
      (auto simp: bit_simps dest: bit_imp_le_length)
  have "be_bytes (of_be_bytes (rev (be_bytes v))) = rev (be_bytes v)" by (simp add: be_bytes_def be [unfolded be_bytes_def])
  then show ?thesis by (simp add: byte_swap32_def of_be_bytes_be_bytes)
qed

section \<open>Debug accesses\<close>

text \<open>The read of one register after the other, the last one possibly in part.\<close>

function bus_read_loop :: "(u64 \<Rightarrow> u32) \<Rightarrow> u64 \<Rightarrow> nat \<Rightarrow> u8 list" where
  "bus_read_loop rd addr n =
     (let value = be_bytes (rd addr) in
      if 4 \<le> n then value @ (if n - 4 \<noteq> 0 then bus_read_loop rd (addr + 4) (n - 4) else [])
      else take n value)"
  by pat_completeness auto
termination by (relation "measure (\<lambda>(rd, addr, n). n)") auto

text \<open>The loop adds 4 to the address before it writes a full word.\<close>

function bus_write_loop :: "(u64 \<Rightarrow> 's \<Rightarrow> u32) \<Rightarrow> (u64 \<Rightarrow> u32 \<Rightarrow> 's \<Rightarrow> 's) \<Rightarrow> u64 \<Rightarrow> u8 list \<Rightarrow> 's \<Rightarrow> 's" where
  "bus_write_loop rd wr addr bs s =
     (if 4 \<le> length bs
      then let s = wr (addr + 4) (of_be_bytes (take 4 bs)) s; rest = drop 4 bs in
           if rest \<noteq> [] then bus_write_loop rd wr (addr + 4) rest s else s
      else wr addr (of_be_bytes (bs @ drop (length bs) (be_bytes (rd addr s)))) s)"
  by pat_completeness auto
termination by (relation "measure (\<lambda>(rd, wr, addr, bs, s). length bs)") auto

declare bus_read_loop.simps [simp del] bus_write_loop.simps [simp del]

lemma bus_read_word: "bus_read_loop rd addr 4 = be_bytes (rd addr)"
  by (subst bus_read_loop.simps) (simp add: Let_def)

lemma bus_write_word: "bus_write_loop rd wr addr (be_bytes v) s = wr (addr + 4) v s"
  by (subst bus_write_loop.simps) (simp add: of_be_bytes_be_bytes)

section \<open>Registers behind the bus\<close>

text \<open>What a peripheral promises of its register writes, and what follows for its debug writes.\<close>

locale word_registers =
  fixes rd :: "u64 \<Rightarrow> 's \<Rightarrow> u32" and wr :: "u64 \<Rightarrow> u32 \<Rightarrow> 's \<Rightarrow> 's" and inv :: "'s \<Rightarrow> bool"
  assumes write_inv: "inv s \<Longrightarrow> inv (wr addr v s)"
begin

lemma debug_write_inv: "inv s \<Longrightarrow> inv (bus_write_loop rd wr addr bs s)"
proof (induction "length bs" arbitrary: addr bs s rule: less_induct)
  case less
  then show ?case by (subst bus_write_loop.simps) (auto simp: Let_def write_inv)
qed

end

end
