(* ===== verification/XPS_IntC.thy ===== *)
theory XPS_IntC
  imports Bit_Arithmetic Word_Bus
begin

text \<open>
  The Xilinx XPS interrupt controller: the registers and capture logic of
  \<open>component/cxx/interrupt/xilinx/xps_intc\<close> and the output line, interrupt inputs and wake-up
  of its TLM wrapper \<open>component/tlm2/interrupt/xilinx/xps_intc\<close>. Transactions and time are left
  out: a wake-up gets the events that are due, in the order of the schedule, and returns the
  levels sent on the output with their delay in cycles.
\<close>

section \<open>Configuration and state\<close>

record intc_config =
  C_NUM_INTR_INPUTS :: nat
  C_HAS_IPR :: bool
  C_HAS_SIE :: bool
  C_HAS_CIE :: bool
  C_HAS_IVR :: bool
  C_KIND_OF_INTR :: u32
  C_KIND_OF_EDGE :: u32
  C_KIND_OF_LVL :: u32
  C_IRQ_IS_LEVEL :: bool
  C_IRQ_ACTIVE :: bool
  C_BASEADDR :: u64
  C_HIGHADDR :: u64

definition intc_default :: intc_config where
  "intc_default = \<lparr>C_NUM_INTR_INPUTS = 32, C_HAS_IPR = True, C_HAS_SIE = True, C_HAS_CIE = True, C_HAS_IVR = True,
     C_KIND_OF_INTR = 0xffffffff, C_KIND_OF_EDGE = 0xffffffff, C_KIND_OF_LVL = 0xffffffff,
     C_IRQ_IS_LEVEL = True, C_IRQ_ACTIVE = True, C_BASEADDR = 0x81800000, C_HIGHADDR = 0x8180ffff\<rparr>"

definition ISR :: u64 where "ISR = 0x0"
definition IPR :: u64 where "IPR = 0x4"
definition IER :: u64 where "IER = 0x8"
definition IAR :: u64 where "IAR = 0xc"
definition SIE :: u64 where "SIE = 0x10"
definition CIE :: u64 where "CIE = 0x14"
definition IVR :: u64 where "IVR = 0x18"
definition MER :: u64 where "MER = 0x1c"

lemmas intc_offsets = ISR_def IPR_def IER_def IAR_def SIE_def CIE_def IVR_def MER_def

definition MER_ME_MASK :: u32 where "MER_ME_MASK = 1"
definition MER_HIE_MASK :: u32 where "MER_HIE_MASK = 2"
definition MER_MASK :: u32 where "MER_MASK = MER_ME_MASK OR MER_HIE_MASK"

definition intc_MASK :: "intc_config \<Rightarrow> u32" where
  "intc_MASK cfg = ucast (push_bit (C_NUM_INTR_INPUTS cfg) (1 :: u64) - 1)"

record intc =
  isr :: u32
  ier :: u32
  ivr :: u32
  mer :: u32
  intr0 :: u32
  intr1 :: u32
  output_level :: bool
  interrupt_input :: "bool list"

definition intc_Reset :: "intc \<Rightarrow> intc" where
  "intc_Reset s = s\<lparr>isr := 0, ier := 0, ivr := 0xffffffff, mer := 0, intr0 := 0, intr1 := 0\<rparr>"

definition intc_init :: "intc_config \<Rightarrow> intc" where
  "intc_init cfg = \<lparr>isr = 0, ier = 0, ivr = 0xffffffff, mer = 0, intr0 = 0, intr1 = 0, output_level = False,
     interrupt_input = replicate (C_NUM_INTR_INPUTS cfg) False\<rparr>"

section \<open>Registers\<close>

definition GetISR :: "intc_config \<Rightarrow> intc \<Rightarrow> u32" where "GetISR cfg s = isr s AND intc_MASK cfg"
definition GetIER :: "intc_config \<Rightarrow> intc \<Rightarrow> u32" where "GetIER cfg s = ier s AND intc_MASK cfg"
definition GetIPR :: "intc_config \<Rightarrow> intc \<Rightarrow> u32" where
  "GetIPR cfg s = (if C_HAS_IPR cfg then GetISR cfg s AND GetIER cfg s else 0)"
definition GetIVR :: "intc_config \<Rightarrow> intc \<Rightarrow> u32" where
  "GetIVR cfg s = (if C_HAS_IVR cfg then ivr s else 0)"
definition GetMER :: "intc \<Rightarrow> u32" where "GetMER s = mer s AND MER_MASK"
definition GetMER_ME :: "intc \<Rightarrow> u32" where "GetMER_ME s = drop_bit 0 (GetMER s AND MER_ME_MASK)"
definition GetMER_HIE :: "intc \<Rightarrow> u32" where "GetMER_HIE s = drop_bit 1 (GetMER s AND MER_HIE_MASK)"

definition SetISR :: "intc_config \<Rightarrow> u32 \<Rightarrow> intc \<Rightarrow> intc" where
  "SetISR cfg v s = s\<lparr>isr := v AND intc_MASK cfg\<rparr>"
definition SetIER :: "intc_config \<Rightarrow> u32 \<Rightarrow> intc \<Rightarrow> intc" where
  "SetIER cfg v s = s\<lparr>ier := v AND intc_MASK cfg\<rparr>"
definition SetIAR :: "intc_config \<Rightarrow> u32 \<Rightarrow> intc \<Rightarrow> intc" where
  "SetIAR cfg v s = s\<lparr>isr := (isr s AND NOT v) AND intc_MASK cfg\<rparr>"
definition SetSIE :: "intc_config \<Rightarrow> u32 \<Rightarrow> intc \<Rightarrow> intc" where
  "SetSIE cfg v s = (if C_HAS_SIE cfg then SetIER cfg (GetIER cfg s OR v) s else s)"
definition SetCIE :: "intc_config \<Rightarrow> u32 \<Rightarrow> intc \<Rightarrow> intc" where
  "SetCIE cfg v s = (if C_HAS_CIE cfg then SetIER cfg (GetIER cfg s AND NOT v) s else s)"
definition SetMER :: "u32 \<Rightarrow> intc \<Rightarrow> intc" where
  "SetMER v s = s\<lparr>mer := (v AND NOT MER_ME_MASK) OR (v AND MER_MASK)\<rparr>"

text \<open>Register accesses, by the value on the register's side of the big-endian bus.\<close>

definition intc_Read :: "intc_config \<Rightarrow> u64 \<Rightarrow> intc \<Rightarrow> u32" where
  "intc_Read cfg addr s = (let off = addr - C_BASEADDR cfg in
     if off = ISR then GetISR cfg s
     else if off = IPR then GetIPR cfg s
     else if off = IER then GetIER cfg s
     else if off = IVR then GetIVR cfg s
     else if off = MER then GetMER s
     else 0)"

definition intc_Write :: "intc_config \<Rightarrow> u64 \<Rightarrow> u32 \<Rightarrow> intc \<Rightarrow> intc" where
  "intc_Write cfg addr v s = (let off = addr - C_BASEADDR cfg in
     if off = ISR then (if GetMER_HIE s = 0 then SetISR cfg v s else s)
     else if off = IER then SetIER cfg v s
     else if off = IAR then SetIAR cfg v s
     else if off = SIE then SetSIE cfg v s
     else if off = CIE then SetCIE cfg v s
     else if off = MER then SetMER v s
     else s)"

definition intc_IsMapped :: "intc_config \<Rightarrow> u64 \<Rightarrow> u32 \<Rightarrow> bool" where
  "intc_IsMapped cfg addr sz \<longleftrightarrow> C_BASEADDR cfg \<le> addr \<and> addr + ucast sz - 1 \<le> C_HIGHADDR cfg"

section \<open>Debug accesses to the memory interface\<close>

definition intc_read_loop :: "intc_config \<Rightarrow> u64 \<Rightarrow> nat \<Rightarrow> intc \<Rightarrow> u8 list" where
  "intc_read_loop cfg addr n s = bus_read_loop (\<lambda>a. intc_Read cfg a s) addr n"

definition intc_ReadMemory :: "intc_config \<Rightarrow> u64 \<Rightarrow> u32 \<Rightarrow> intc \<Rightarrow> u8 list option" where
  "intc_ReadMemory cfg addr sz s =
     (if 0 < sz then if \<not> intc_IsMapped cfg addr sz then None else Some (intc_read_loop cfg addr (unat sz) s)
      else Some [])"

definition intc_write_loop :: "intc_config \<Rightarrow> u64 \<Rightarrow> u8 list \<Rightarrow> intc \<Rightarrow> intc" where
  "intc_write_loop cfg addr bs s = bus_write_loop (intc_Read cfg) (intc_Write cfg) addr bs s"

definition intc_WriteMemory :: "intc_config \<Rightarrow> u64 \<Rightarrow> u8 list \<Rightarrow> intc \<Rightarrow> intc option" where
  "intc_WriteMemory cfg addr bs s =
     (if bs \<noteq> [] then if \<not> intc_IsMapped cfg addr (of_nat (length bs)) then None else Some (intc_write_loop cfg addr bs s)
      else Some s)"

section \<open>Interrupt inputs\<close>

definition irq_mask :: "nat \<Rightarrow> u32" where "irq_mask irq = push_bit irq 1"

definition SetInterruptInput :: "nat \<Rightarrow> bool \<Rightarrow> intc \<Rightarrow> intc" where
  "SetInterruptInput irq level s =
     s\<lparr>intr1 := if level then intr0 s OR irq_mask irq else intr0 s AND NOT (irq_mask irq)\<rparr>"

definition detects :: "intc_config \<Rightarrow> nat \<Rightarrow> intc \<Rightarrow> bool" where
  "detects cfg irq s = (let msk = irq_mask irq in
     if C_KIND_OF_INTR cfg AND msk \<noteq> 0
     then if C_KIND_OF_EDGE cfg AND msk \<noteq> 0
          then intr0 s AND msk = 0 \<and> intr1 s AND msk \<noteq> 0
          else intr0 s AND msk \<noteq> 0 \<and> intr1 s AND msk = 0
     else if C_KIND_OF_LVL cfg AND msk \<noteq> 0
          then intr1 s AND msk \<noteq> 0
          else intr1 s AND msk = 0)"

fun detect_loop :: "intc_config \<Rightarrow> nat \<Rightarrow> intc \<Rightarrow> intc" where
  "detect_loop cfg 0 s = s"
| "detect_loop cfg (Suc n) s = (let s = detect_loop cfg n s in
     if detects cfg n s then SetISR cfg (GetISR cfg s OR irq_mask n) s else s)"

definition DetectInterruptInput :: "intc_config \<Rightarrow> intc \<Rightarrow> intc" where
  "DetectInterruptInput cfg s =
     (let s = (if GetMER_HIE s \<noteq> 0 then detect_loop cfg (C_NUM_INTR_INPUTS cfg) s else s)
      in s\<lparr>intr1 := intr0 s\<rparr>)"

section \<open>The output\<close>

text \<open>A level sent on the output and its delay in cycles.\<close>

type_synonym sent = "(bool \<times> nat) list"

definition SetOutputLevel :: "bool \<Rightarrow> intc \<Rightarrow> intc \<times> sent" where
  "SetOutputLevel level s = (if output_level s = level then (s, []) else (s\<lparr>output_level := level\<rparr>, [(level, 0)]))"

definition SetOutputEdge :: "bool \<Rightarrow> intc \<Rightarrow> intc \<times> sent" where
  "SetOutputEdge final_level s =
     (s\<lparr>output_level := final_level\<rparr>,
      (if output_level s = final_level then [(\<not> final_level, 0)] else []) @ [(final_level, 1)])"

definition drive_output :: "intc_config \<Rightarrow> bool \<Rightarrow> intc \<Rightarrow> intc \<times> sent" where
  "drive_output cfg active s =
     (if C_IRQ_IS_LEVEL cfg then SetOutputLevel (C_IRQ_ACTIVE cfg = active) s
      else SetOutputEdge (C_IRQ_ACTIVE cfg = active) s)"

definition set_ivr :: "intc_config \<Rightarrow> u32 \<Rightarrow> intc \<Rightarrow> intc" where
  "set_ivr cfg v s = (if C_HAS_IVR cfg then s\<lparr>ivr := v\<rparr> else s)"

definition GenerateRequest :: "intc_config \<Rightarrow> intc \<Rightarrow> (intc \<times> sent) option" where
  "GenerateRequest cfg s =
     (if GetMER_ME s \<noteq> 0
      then Option.bind (BitScanForward32 (isr s AND ier s)) (\<lambda>found. case found of
             Some irq \<Rightarrow> Some (drive_output cfg True (set_ivr cfg irq s))
           | None \<Rightarrow> Some (drive_output cfg False (set_ivr cfg 0 s)))
      else Some (drive_output cfg False (set_ivr cfg 0 s)))"

section \<open>The TLM wrapper\<close>

datatype intc_event = EV_IRQ nat bool | EV_CPU_READ u64 u32 | EV_CPU_WRITE u64 u32 u32

text \<open>
  An input line that changes level queues an event; a level sent again does not. \<open>None\<close> is the
  stop of the simulation on an input number out of range.
\<close>

definition interrupt_b_transport :: "intc_config \<Rightarrow> nat \<Rightarrow> bool \<Rightarrow> intc \<Rightarrow> (intc \<times> intc_event list) option" where
  "interrupt_b_transport cfg irq level s =
     (if irq < C_NUM_INTR_INPUTS cfg
      then if interrupt_input s ! irq \<noteq> level
           then Some (s\<lparr>interrupt_input := (interrupt_input s)[irq := level]\<rparr>, [EV_IRQ irq level])
           else Some (s, [])
      else None)"

text \<open>A word access, without byte enables or streaming; the other sizes are answered with an error.\<close>

fun process_event :: "intc_config \<Rightarrow> intc_event \<Rightarrow> intc \<Rightarrow> intc \<times> (tlm_response \<times> u32) list" where
  "process_event cfg (EV_IRQ irq level) s = (SetInterruptInput irq level s, [])"
| "process_event cfg (EV_CPU_READ addr sz) s =
     (if \<not> intc_IsMapped cfg addr sz then (s, [(TLM_ADDRESS_ERROR_RESPONSE, 0)])
      else if sz \<noteq> 4 then (s, [(TLM_BURST_ERROR_RESPONSE, 0)])
      else (s, [(TLM_OK_RESPONSE, intc_Read cfg addr s)]))"
| "process_event cfg (EV_CPU_WRITE addr sz v) s =
     (if \<not> intc_IsMapped cfg addr sz then (s, [(TLM_ADDRESS_ERROR_RESPONSE, 0)])
      else if sz \<noteq> 4 then (s, [(TLM_BURST_ERROR_RESPONSE, 0)])
      else (intc_Write cfg addr v s, [(TLM_OK_RESPONSE, 0)]))"

fun process_events :: "intc_config \<Rightarrow> intc_event list \<Rightarrow> intc \<Rightarrow> intc \<times> (tlm_response \<times> u32) list" where
  "process_events cfg [] s = (s, [])"
| "process_events cfg (e # es) s =
     (case process_event cfg e s of (s1, r1) \<Rightarrow> case process_events cfg es s1 of (s2, r2) \<Rightarrow> (s2, r1 @ r2))"

definition ProcessEvents :: "intc_config \<Rightarrow> intc_event list \<Rightarrow> intc \<Rightarrow> (intc \<times> (tlm_response \<times> u32) list \<times> sent) option" where
  "ProcessEvents cfg es s =
     (case process_events cfg es s of (s1, rs) \<Rightarrow>
        map_option (\<lambda>(s2, out). (s2, rs, out)) (GenerateRequest cfg (DetectInterruptInput cfg s1)))"

section \<open>Bits of the masks\<close>

lemma bit_irq_mask [simp]: "bit (irq_mask k) i \<longleftrightarrow> i = k \<and> i < 32"
  by (auto simp: irq_mask_def bit_simps)

lemma and_irq_mask [simp]: "w AND irq_mask k = 0 \<longleftrightarrow> \<not> bit w k"
proof -
  have "w AND irq_mask k = (if bit w k then irq_mask k else 0)" by (rule bit_word_eqI) (auto simp: bit_and_iff)
  moreover have "irq_mask k \<noteq> 0" if "k < 32"
    using bit_irq_mask [of k k] that by (auto simp del: bit_irq_mask)
  ultimately show ?thesis using bit_imp_le_length [of w k] by auto
qed

lemma bit_intc_MASK:
  assumes "C_NUM_INTR_INPUTS cfg \<le> 32"
  shows "bit (intc_MASK cfg) i \<longleftrightarrow> i < C_NUM_INTR_INPUTS cfg"
proof -
  have "push_bit n (1 :: u64) - 1 = mask n" for n by (simp add: mask_eq_exp_minus_1)
  then show ?thesis using assms by (auto simp: intc_MASK_def bit_simps)
qed

section \<open>Invariant\<close>

definition intc_wf :: "intc_config \<Rightarrow> intc \<Rightarrow> bool" where
  "intc_wf cfg s \<longleftrightarrow> isr s AND intc_MASK cfg = isr s \<and> ier s AND intc_MASK cfg = ier s \<and> intr0 s = 0 \<and>
     length (interrupt_input s) = C_NUM_INTR_INPUTS cfg"

lemmas setters = SetISR_def SetIER_def SetIAR_def SetSIE_def SetCIE_def SetMER_def GetISR_def GetIER_def

lemma and_mask_idem: "(w AND m) AND m = w AND (m :: u32)"
  by (simp add: and.assoc)

lemma setters_wf:
  assumes "intc_wf cfg s"
  shows "intc_wf cfg (SetISR cfg v s)" "intc_wf cfg (SetIER cfg v s)" "intc_wf cfg (SetIAR cfg v s)"
    "intc_wf cfg (SetSIE cfg v s)" "intc_wf cfg (SetCIE cfg v s)" "intc_wf cfg (SetMER v s)"
  using assms by (simp_all add: intc_wf_def setters and_mask_idem)

lemma intc_Write_wf: "intc_wf cfg s \<Longrightarrow> intc_wf cfg (intc_Write cfg addr v s)"
  by (simp add: intc_Write_def Let_def setters_wf)

lemma process_event_wf: "intc_wf cfg s \<Longrightarrow> intc_wf cfg (fst (process_event cfg e s))"
  by (cases e) (simp_all add: intc_Write_wf, simp add: SetInterruptInput_def intc_wf_def)

lemma process_events_wf: "intc_wf cfg s \<Longrightarrow> intc_wf cfg (fst (process_events cfg es s))"
proof (induction es arbitrary: s)
  case (Cons e es)
  show ?case using Cons.IH [OF process_event_wf [OF Cons.prems, of e]] by (simp add: case_prod_beta)
qed simp

lemma detect_loop_frame:
  "intr0 (detect_loop cfg n s) = intr0 s" "intr1 (detect_loop cfg n s) = intr1 s" "ier (detect_loop cfg n s) = ier s"
  "ivr (detect_loop cfg n s) = ivr s" "mer (detect_loop cfg n s) = mer s"
  "output_level (detect_loop cfg n s) = output_level s" "interrupt_input (detect_loop cfg n s) = interrupt_input s"
  by (induction n) (auto simp: Let_def SetISR_def)

lemma detect_loop_wf: "intc_wf cfg s \<Longrightarrow> intc_wf cfg (detect_loop cfg n s)"
  by (induction n) (auto simp: Let_def setters_wf)

lemma DetectInterruptInput_wf: "intc_wf cfg s \<Longrightarrow> intc_wf cfg (DetectInterruptInput cfg s)"
  using detect_loop_wf [of cfg s] by (auto simp: DetectInterruptInput_def Let_def intc_wf_def)

lemma drive_output_frame:
  "isr (fst (drive_output cfg b s)) = isr s" "ier (fst (drive_output cfg b s)) = ier s"
  "mer (fst (drive_output cfg b s)) = mer s" "ivr (fst (drive_output cfg b s)) = ivr s"
  "intr0 (fst (drive_output cfg b s)) = intr0 s" "intr1 (fst (drive_output cfg b s)) = intr1 s"
  "interrupt_input (fst (drive_output cfg b s)) = interrupt_input s"
  "output_level (fst (drive_output cfg b s)) = (C_IRQ_ACTIVE cfg = b)"
  by (auto simp: drive_output_def SetOutputLevel_def SetOutputEdge_def)

lemma set_ivr_frame [simp]:
  "isr (set_ivr cfg v s) = isr s" "ier (set_ivr cfg v s) = ier s" "mer (set_ivr cfg v s) = mer s"
  "intr0 (set_ivr cfg v s) = intr0 s" "intr1 (set_ivr cfg v s) = intr1 s" "output_level (set_ivr cfg v s) = output_level s"
  "interrupt_input (set_ivr cfg v s) = interrupt_input s"
  "GetIVR cfg (set_ivr cfg v s) = (if C_HAS_IVR cfg then v else 0)"
  by (auto simp: set_ivr_def GetIVR_def)

section \<open>Requests\<close>

definition pending :: "intc \<Rightarrow> bool" where
  "pending s \<longleftrightarrow> bit (mer s) 0 \<and> isr s AND ier s \<noteq> 0"

lemma GetMER_ME_bit: "GetMER_ME s \<noteq> 0 \<longleftrightarrow> bit (mer s) 0"
  by (simp add: GetMER_ME_def GetMER_def MER_MASK_def MER_ME_MASK_def and_1_eq_0 bit_simps)

lemma GetMER_HIE_bit: "GetMER_HIE s \<noteq> 0 \<longleftrightarrow> bit (mer s) 1"
proof -
  have "MER_MASK AND MER_HIE_MASK = irq_mask 1"
    by (simp add: MER_MASK_def MER_ME_MASK_def MER_HIE_MASK_def irq_mask_def)
  then have "GetMER_HIE s = drop_bit 1 (mer s AND irq_mask 1)"
    by (simp add: GetMER_HIE_def GetMER_def and.assoc)
  also have "\<dots> = of_bool (bit (mer s) 1)" by (rule bit_word_eqI) (auto simp: bit_simps)
  finally show ?thesis by simp
qed

lemma GenerateRequest_eq:
  "\<exists>v. GenerateRequest cfg s = Some (drive_output cfg (pending s) (set_ivr cfg v s)) \<and>
    (if pending s then bit (isr s AND ier s) (unat v) \<and> (\<forall>j < unat v. \<not> bit (isr s AND ier s) j) else v = 0)"
proof -
  obtain r where r: "BitScanForward32 (isr s AND ier s) = Some r" "lowest_of (isr s AND ier s) r"
    using BitScanForward32_spec by blast
  show ?thesis
  proof (cases "pending s")
    case True
    then obtain v where "r = Some v" "bit (isr s AND ier s) (unat v)" "\<forall>j < unat v. \<not> bit (isr s AND ier s) j"
      using r(2) by (auto simp: pending_def lowest_of_def split: option.splits)
    with True r(1) show ?thesis by (auto simp: GenerateRequest_def GetMER_ME_bit pending_def)
  next
    case False
    with r show ?thesis
      by (cases r) (auto simp: GenerateRequest_def GetMER_ME_bit pending_def lowest_of_def)
  qed
qed


lemma GenerateRequest_wf:
  assumes "intc_wf cfg s" and "GenerateRequest cfg s = Some (s', out)"
  shows "intc_wf cfg s'"
proof -
  obtain v where "s' = fst (drive_output cfg (pending s) (set_ivr cfg v s))"
    using GenerateRequest_eq [of cfg s] assms(2) by (metis fst_conv option.inject)
  with assms(1) show ?thesis by (simp add: intc_wf_def drive_output_frame)
qed

section \<open>Runs of the controller\<close>

text \<open>
  A step of the controller: a level on an input line, a wake-up that processes any events, a debug
  write, or a reset.
\<close>

inductive intc_step :: "intc_config \<Rightarrow> intc \<Rightarrow> intc \<Rightarrow> bool" for cfg where
  input: "interrupt_b_transport cfg irq level s = Some (s', es) \<Longrightarrow> intc_step cfg s s'"
| wake_up: "ProcessEvents cfg es s = Some (s', rs, out) \<Longrightarrow> intc_step cfg s s'"
| debug_write: "intc_WriteMemory cfg addr bs s = Some s' \<Longrightarrow> intc_step cfg s s'"
| reset: "intc_step cfg s (intc_Reset s)"

inductive intc_reachable :: "intc_config \<Rightarrow> intc \<Rightarrow> bool" for cfg where
  start: "intc_reachable cfg (intc_init cfg)"
| step: "intc_reachable cfg s \<Longrightarrow> intc_step cfg s s' \<Longrightarrow> intc_reachable cfg s'"

definition awake :: "intc \<Rightarrow> bool" where
  "awake s \<longleftrightarrow> intr0 s = 0 \<and> intr1 s = 0"

lemma ProcessEvents_eq:
  "\<exists>s1 v. s1 = DetectInterruptInput cfg (fst (process_events cfg es s)) \<and>
    ProcessEvents cfg es s = Some (fst (drive_output cfg (pending s1) (set_ivr cfg v s1)), snd (process_events cfg es s),
      snd (drive_output cfg (pending s1) (set_ivr cfg v s1))) \<and>
    (if pending s1 then bit (isr s1 AND ier s1) (unat v) \<and> (\<forall>j < unat v. \<not> bit (isr s1 AND ier s1) j) else v = 0)"
proof -
  let ?s1 = "DetectInterruptInput cfg (fst (process_events cfg es s))"
  from GenerateRequest_eq [of cfg ?s1] obtain v
    where "GenerateRequest cfg ?s1 = Some (drive_output cfg (pending ?s1) (set_ivr cfg v ?s1))"
      and "if pending ?s1 then bit (isr ?s1 AND ier ?s1) (unat v) \<and> (\<forall>j < unat v. \<not> bit (isr ?s1 AND ier ?s1) j) else v = 0"
    by blast
  then show ?thesis
    by (intro exI [of _ ?s1] exI [of _ v]) (simp add: ProcessEvents_def case_prod_beta)
qed

lemma intc_Write_intr [simp]:
  "intr0 (intc_Write cfg addr v s) = intr0 s" "intr1 (intc_Write cfg addr v s) = intr1 s"
  by (simp_all add: intc_Write_def Let_def setters)

interpretation intc_bus: word_registers "intc_Read cfg" "intc_Write cfg" "\<lambda>s. intc_wf cfg s \<and> intr0 s = x \<and> intr1 s = y"
  for cfg x y
  by unfold_locales (simp add: intc_Write_wf)

lemma intc_write_loop_inv:
  assumes "intc_wf cfg s"
  shows "intc_wf cfg (intc_write_loop cfg addr bs s) \<and> intr0 (intc_write_loop cfg addr bs s) = intr0 s \<and>
    intr1 (intc_write_loop cfg addr bs s) = intr1 s"
  unfolding intc_write_loop_def by (rule intc_bus.debug_write_inv) (simp add: assms)

lemma intc_reachable_inv:
  assumes "intc_reachable cfg s"
  shows "intc_wf cfg s \<and> intr0 s = 0 \<and> intr1 s = 0"
  using assms
proof induction
  case start
  then show ?case by (simp add: intc_wf_def intc_init_def)
next
  case (step s s')
  from step.hyps(2) show ?case
  proof cases
    case (input irq level es)
    with step.IH show ?thesis
      by (auto simp: interrupt_b_transport_def intc_wf_def split: if_splits)
  next
    case (wake_up es rs out)
    obtain s1 v where s1: "s1 = DetectInterruptInput cfg (fst (process_events cfg es s))"
      and "s' = fst (drive_output cfg (pending s1) (set_ivr cfg v s1))"
      using ProcessEvents_eq [of cfg es s] wake_up by auto
    moreover have w: "intc_wf cfg s1"
      using step.IH DetectInterruptInput_wf [OF process_events_wf] by (simp add: s1)
    moreover have "intr1 s1 = intr0 s1" by (auto simp: s1 DetectInterruptInput_def Let_def detect_loop_frame)
    ultimately show ?thesis by (simp add: intc_wf_def drive_output_frame)
  next
    case (debug_write addr bs)
    with step.IH intc_write_loop_inv [of cfg s addr bs] show ?thesis
      by (auto simp: intc_WriteMemory_def split: if_splits)
  next
    case reset
    with step.IH show ?thesis by (simp add: intc_Reset_def intc_wf_def)
  qed
qed


lemmas intc_reachable_wf = intc_reachable_inv [THEN conjunct1]
  intc_reachable_inv [THEN conjunct2, THEN conjunct1]

text \<open>
  C27: in every reachable state the status and enable registers only hold bits of existing inputs
  and both samples of the interrupt inputs are 0: the previous level of an input is never
  recorded.
\<close>

theorem intc_invariant:
  assumes "intc_reachable cfg s"
  shows "intc_wf cfg s \<and> intr0 s = 0 \<and> intr1 s = 0"
  by (rule intc_reachable_inv [OF assms])

theorem intc_invariant_witness: "intc_wf intc_default (intc_Reset (intc_init intc_default))"
  using intc_invariant [OF intc_reachable.step [OF intc_reachable.start intc_step.reset]] by blast

section \<open>Capture\<close>

lemma detects_frame: "intr0 t = intr0 s \<Longrightarrow> intr1 t = intr1 s \<Longrightarrow> detects cfg i t = detects cfg i s"
  by (simp add: detects_def)

lemma bit_detect_loop:
  assumes "intc_wf cfg s" and "C_NUM_INTR_INPUTS cfg \<le> 32" and "n \<le> C_NUM_INTR_INPUTS cfg"
  shows "bit (isr (detect_loop cfg n s)) i \<longleftrightarrow> bit (isr s) i \<or> (i < n \<and> detects cfg i s)"
  using assms(3)
proof (induction n)
  case (Suc n)
  let ?t = "detect_loop cfg n s"
  have "isr ?t AND intc_MASK cfg = isr ?t" using detect_loop_wf [OF assms(1), of n] by (simp add: intc_wf_def)
  then have "bit (isr ?t) i \<Longrightarrow> i < C_NUM_INTR_INPUTS cfg"
    using bit_and_iff [of "isr ?t" "intc_MASK cfg" i] bit_intc_MASK [OF assms(2)] by simp
  moreover have "detects cfg n ?t = detects cfg n s" by (rule detects_frame) (simp_all add: detect_loop_frame)
  ultimately show ?case
    using Suc assms(2) by (auto simp: Let_def setters bit_and_iff bit_or_iff bit_intc_MASK less_Suc_eq)
qed simp

definition only_inputs :: "intc_event list \<Rightarrow> bool" where
  "only_inputs es \<longleftrightarrow> (\<forall>e \<in> set es. case e of EV_IRQ k l \<Rightarrow> True | _ \<Rightarrow> False)"

lemma process_inputs:
  "only_inputs es \<Longrightarrow> \<exists>w. fst (process_events cfg es s) = s\<lparr>intr1 := w\<rparr>"
proof (induction es arbitrary: s)
  case Nil
  show ?case by (auto intro: exI [of _ "intr1 s"])
next
  case (Cons e es)
  then obtain k l where "e = EV_IRQ k l" by (cases e) (auto simp: only_inputs_def)
  moreover have "only_inputs es" using Cons.prems by (simp add: only_inputs_def)
  ultimately show ?case
    using Cons.IH [of "SetInterruptInput k l s"] by (auto simp: case_prod_beta SetInterruptInput_def)
qed

lemma process_events_append:
  "fst (process_events cfg (es @ [e]) s) = fst (process_event cfg e (fst (process_events cfg es s)))"
  by (induction es arbitrary: s) (simp_all add: case_prod_beta)

lemma ProcessEvents_isr:
  assumes "ProcessEvents cfg es s = Some (s', rs, out)"
  shows "isr s' = isr (DetectInterruptInput cfg (fst (process_events cfg es s)))"
  using ProcessEvents_eq [of cfg es s] assms by (auto simp: drive_output_frame)

text \<open>
  a wake-up with input events captures exactly what the last event shows: with hardware
  interrupts enabled it adds the bit of a rising-edge or high-level input whose last event is
  high, and the bits of all low-level inputs that did not just go high; falling-edge inputs are
  never captured, and the earlier events of the same wake-up are lost.
\<close>

theorem intc_captures_last_event:
  assumes "intc_reachable cfg s" and "C_NUM_INTR_INPUTS cfg \<le> 32" and "only_inputs es"
    and "irq < C_NUM_INTR_INPUTS cfg" and "ProcessEvents cfg (es @ [EV_IRQ irq level]) s = Some (s', rs, out)"
  shows "bit (isr s') i \<longleftrightarrow> bit (isr s) i \<or>
    (bit (mer s) 1 \<and> i < C_NUM_INTR_INPUTS cfg \<and>
     (if bit (C_KIND_OF_INTR cfg) i then bit (C_KIND_OF_EDGE cfg) i \<and> i = irq \<and> level
      else if bit (C_KIND_OF_LVL cfg) i then i = irq \<and> level
      else \<not> (i = irq \<and> level)))"
proof -
  obtain w where w: "fst (process_events cfg es s) = s\<lparr>intr1 := w\<rparr>" using process_inputs [OF assms(3)] by blast
  have inv: "intc_wf cfg s" "intr0 s = 0"
    by (rule intc_reachable_wf [OF assms(1)])+
  define t where "t = s\<lparr>intr1 := if level then irq_mask irq else 0\<rparr>"
  have t: "fst (process_events cfg (es @ [EV_IRQ irq level]) s) = t"
    by (simp add: process_events_append w SetInterruptInput_def t_def inv)
  have wf: "intc_wf cfg t" using inv by (simp add: t_def intc_wf_def)
  have "GetMER_HIE t \<noteq> 0 \<longleftrightarrow> bit (mer s) 1" by (simp add: GetMER_HIE_bit t_def)
  then have "bit (isr s') i \<longleftrightarrow> bit (isr s) i \<or> (bit (mer s) 1 \<and> i < C_NUM_INTR_INPUTS cfg \<and> detects cfg i t)"
    using bit_detect_loop [OF wf assms(2) order.refl, of i] ProcessEvents_isr [OF assms(5)]
    by (auto simp: t DetectInterruptInput_def Let_def) (auto simp: t_def)
  moreover have "i < C_NUM_INTR_INPUTS cfg \<Longrightarrow> detects cfg i t \<longleftrightarrow>
     (if bit (C_KIND_OF_INTR cfg) i then bit (C_KIND_OF_EDGE cfg) i \<and> i = irq \<and> level
      else if bit (C_KIND_OF_LVL cfg) i then i = irq \<and> level else \<not> (i = irq \<and> level))"
    using assms(2) inv(2) by (auto simp: detects_def Let_def t_def)
  ultimately show ?thesis by blast
qed


theorem intc_captures_last_event_witness:
  "\<exists>s' rs out. ProcessEvents intc_default ([EV_IRQ 3 True] @ [EV_IRQ 5 True]) (intc_init intc_default) = Some (s', rs, out) \<and>
    \<not> bit (isr s') 3"
proof -
  obtain s' rs out where e: "ProcessEvents intc_default ([EV_IRQ 3 True] @ [EV_IRQ 5 True]) (intc_init intc_default) = Some (s', rs, out)"
    using ProcessEvents_eq by blast
  have "\<not> bit (isr s') 3"
    using intc_captures_last_event [OF intc_reachable.start _ _ _ e, of 3]
    by (simp add: intc_default_def only_inputs_def intc_init_def)
  with e show ?thesis by blast
qed

section \<open>Requests\<close>

lemma process_event_output [simp]: "output_level (fst (process_event cfg e s)) = output_level s"
  by (cases e) (simp_all add: SetInterruptInput_def intc_Write_def Let_def setters)

lemma process_events_output [simp]: "output_level (fst (process_events cfg es s)) = output_level s"
  by (induction es arbitrary: s) (simp_all add: case_prod_beta)

lemma DetectInterruptInput_output [simp]: "output_level (DetectInterruptInput cfg s) = output_level s"
  by (simp add: DetectInterruptInput_def Let_def detect_loop_frame)

lemma pending_frame:
  "pending (fst (drive_output cfg b (set_ivr cfg v s))) = pending s"
  "GetIVR cfg (fst (drive_output cfg b (set_ivr cfg v s))) = (if C_HAS_IVR cfg then v else 0)"
  by (simp_all add: pending_def drive_output_frame GetIVR_def set_ivr_def)

text \<open>
  C26: every wake-up returns; it leaves the output active exactly when interrupts are enabled and
  an enabled interrupt is captured, the vector register then names the lowest such interrupt and
  is 0 otherwise, and on a level output a message is sent exactly when the level changes.
\<close>

theorem intc_requests:
  "\<exists>s' rs out. ProcessEvents cfg es s = Some (s', rs, out) \<and>
    output_level s' = (C_IRQ_ACTIVE cfg = pending s') \<and>
    (C_HAS_IVR cfg \<longrightarrow> (if pending s'
       then bit (isr s' AND ier s') (unat (GetIVR cfg s')) \<and> (\<forall>j < unat (GetIVR cfg s'). \<not> bit (isr s' AND ier s') j)
       else GetIVR cfg s' = 0)) \<and>
    (C_IRQ_IS_LEVEL cfg \<longrightarrow> out = (if output_level s = output_level s' then [] else [(output_level s', 0)]))"
proof -
  obtain s1 v where s1: "s1 = DetectInterruptInput cfg (fst (process_events cfg es s))"
    and e: "ProcessEvents cfg es s = Some (fst (drive_output cfg (pending s1) (set_ivr cfg v s1)), snd (process_events cfg es s),
      snd (drive_output cfg (pending s1) (set_ivr cfg v s1)))"
    and v: "if pending s1 then bit (isr s1 AND ier s1) (unat v) \<and> (\<forall>j < unat v. \<not> bit (isr s1 AND ier s1) j) else v = 0"
    using ProcessEvents_eq by blast
  have o: "output_level s1 = output_level s" by (simp add: s1)
  show ?thesis
    using v by (simp add: e pending_frame drive_output_frame)
      (auto simp: drive_output_def SetOutputLevel_def o split: if_splits)
qed

theorem intc_requests_witness:
  "\<exists>s' rs out. ProcessEvents intc_default [] (intc_init intc_default) = Some (s', rs, out) \<and>
    output_level s' = pending s' \<and> (output_level s' \<or> GetIVR intc_default s' = 0 \<and> out = [])"
  using intc_requests [of intc_default "[]" "intc_init intc_default"]
  by (fastforce simp: intc_default_def intc_init_def)

text \<open>
  on an edge output every wake-up without a pending request while the output rests at its
  inactive level sends the active level and then the inactive one: an edge without an interrupt.
\<close>

theorem intc_edge_without_request:
  assumes "ProcessEvents cfg es s = Some (s', rs, out)" and "\<not> C_IRQ_IS_LEVEL cfg" and "\<not> pending s'"
    and "output_level s = (\<not> C_IRQ_ACTIVE cfg)"
  shows "out = [(C_IRQ_ACTIVE cfg, 0), (\<not> C_IRQ_ACTIVE cfg, 1)]"
proof -
  obtain s1 v where s1: "s1 = DetectInterruptInput cfg (fst (process_events cfg es s))"
    and "s' = fst (drive_output cfg (pending s1) (set_ivr cfg v s1))"
    and "out = snd (drive_output cfg (pending s1) (set_ivr cfg v s1))"
    using ProcessEvents_eq [of cfg es s] assms(1) by auto
  moreover have "output_level s1 = output_level s" by (simp add: s1)
  moreover from calculation have "\<not> pending s1" using assms(3) by (simp add: pending_frame)
  ultimately show ?thesis using assms(2,4) by (simp add: drive_output_def SetOutputEdge_def)
qed

theorem intc_edge_without_request_witness:
  "\<exists>s' rs. ProcessEvents (intc_default\<lparr>C_IRQ_IS_LEVEL := False\<rparr>) [] (intc_init intc_default) = Some (s', rs, [(True, 0), (False, 1)])"
proof -
  let ?cfg = "intc_default\<lparr>C_IRQ_IS_LEVEL := False\<rparr>" and ?s = "intc_init intc_default"
  obtain s' rs out where e: "ProcessEvents ?cfg [] ?s = Some (s', rs, out)" using ProcessEvents_eq by blast
  then have "mer s' = 0"
    using ProcessEvents_eq [of ?cfg "[]" ?s]
    by (auto simp: drive_output_frame DetectInterruptInput_def Let_def detect_loop_frame intc_init_def)
  then have "\<not> pending s'" by (simp add: pending_def)
  with intc_edge_without_request [OF e] e show ?thesis by (simp add: intc_default_def intc_init_def)
qed

section \<open>Register map\<close>

text \<open>
  writes to the set and clear enable registers and to the acknowledge register set and clear
  exactly the written bits, the status register can be written only while hardware interrupts
  are disabled, and the master enable register returns the two written bits, so that hardware
  interrupts can be disabled again.
\<close>

theorem intc_registers:
  assumes "intc_wf cfg s" and "C_HAS_SIE cfg" and "C_HAS_CIE cfg"
  defines "at r \<equiv> C_BASEADDR cfg + r"
  shows "intc_Read cfg (at IER) (intc_Write cfg (at SIE) v s) = (ier s OR v) AND intc_MASK cfg \<and>
    intc_Read cfg (at IER) (intc_Write cfg (at CIE) v s) = ier s AND NOT v \<and>
    intc_Read cfg (at ISR) (intc_Write cfg (at IAR) v s) = isr s AND NOT v \<and>
    intc_Read cfg (at ISR) (intc_Write cfg (at ISR) v s) = (if bit (mer s) 1 then isr s else v AND intc_MASK cfg) \<and>
    intc_Read cfg (at MER) (intc_Write cfg (at MER) v s) = v AND 3"
proof -
  have m: "isr s AND intc_MASK cfg = isr s" "ier s AND intc_MASK cfg = ier s" using assms(1) by (simp_all add: intc_wf_def)
  have c: "(x AND NOT v) AND intc_MASK cfg = x AND NOT v" if "x AND intc_MASK cfg = x" for x
    using that by (metis and.assoc and.commute)
  have h: "GetMER_HIE s = 0 \<longleftrightarrow> \<not> bit (mer s) 1" using GetMER_HIE_bit [of s] by blast
  have mer: "(v AND NOT MER_ME_MASK OR v AND MER_MASK) AND MER_MASK = v AND 3"
    by (rule bit_word_eqI) (auto simp: bit_simps MER_MASK_def MER_ME_MASK_def MER_HIE_MASK_def)
  show ?thesis
    using assms(2,3) m by (simp add: at_def intc_Read_def intc_Write_def Let_def intc_offsets setters GetMER_def and_mask_idem
        c [OF m(1)] c [OF m(2)] h mer)
qed

theorem intc_registers_witness:
  "intc_Read intc_default 0x81800008 (intc_Write intc_default 0x81800010 5 (intc_init intc_default)) = 5"
proof -
  have "intc_wf intc_default (intc_init intc_default)" by (simp add: intc_wf_def intc_init_def)
  from intc_registers [OF this, of 5] show ?thesis
    by (simp add: intc_default_def intc_offsets intc_init_def intc_MASK_def)
qed

section \<open>Debug accesses\<close>

text \<open>
  a debug read of one register returns its bytes, most significant first; a debug write of one
  word updates the register after the one addressed.
\<close>

theorem intc_debug_accesses:
  "intc_ReadMemory cfg addr 4 s = (if intc_IsMapped cfg addr 4 then Some (be_bytes (intc_Read cfg addr s)) else None) \<and>
   intc_WriteMemory cfg addr (be_bytes v) s = (if intc_IsMapped cfg addr 4 then Some (intc_Write cfg (addr + 4) v s) else None)"
  by (simp add: intc_ReadMemory_def intc_WriteMemory_def intc_read_loop_def intc_write_loop_def bus_read_word bus_write_word)

end
