(* ===== verification/XPS_Timer.thy ===== *)
theory XPS_Timer
  imports XPS_IntC
begin

text \<open>
  The Xilinx XPS timer \<open>component/cxx/timer/xilinx/xps_timer\<close>: two timer/counters with a control and
  status, a load and a counter register each. Every register is a pair of words: \<open>read_idx\<close> and
  \<open>write_idx\<close> say which one is read and which one is written, and \<open>Update\<close> exchanges the ones
  written. The log is not modelled. The TLM wrapper is in \<open>XPS_Timer_TLM\<close>.
\<close>

section \<open>Configuration and state\<close>

record timer_config =
  C_COUNT_WIDTH :: nat
  T_BASEADDR :: u64
  T_HIGHADDR :: u64
  C_ONE_TIMER_ONLY :: bool
  C_TRIG0_ASSERT :: bool
  C_TRIG1_ASSERT :: bool
  C_GEN0_ASSERT :: bool
  C_GEN1_ASSERT :: bool

definition timer_default :: timer_config where
  "timer_default = \<lparr>C_COUNT_WIDTH = 32, T_BASEADDR = 0x83c00000, T_HIGHADDR = 0x83c0ffff, C_ONE_TIMER_ONLY = False,
     C_TRIG0_ASSERT = True, C_TRIG1_ASSERT = True, C_GEN0_ASSERT = True, C_GEN1_ASSERT = True\<rparr>"

definition COUNTER_MASK :: "timer_config \<Rightarrow> u32" where
  "COUNTER_MASK cfg = ucast (push_bit (C_COUNT_WIDTH cfg) (1 :: u64) - 1)"

definition MAX_COUNT :: "timer_config \<Rightarrow> u32" where "MAX_COUNT cfg = COUNTER_MASK cfg"
definition TCSR0 :: u64 where "TCSR0 = 0x0"
definition TLR0 :: u64 where "TLR0 = 0x4"
definition TCR0 :: u64 where "TCR0 = 0x8"
definition TCSR1 :: u64 where "TCSR1 = 0x10"
definition TLR1 :: u64 where "TLR1 = 0x14"
definition TCR1 :: u64 where "TCR1 = 0x18"

lemmas timer_offsets = TCSR0_def TLR0_def TCR0_def TCSR1_def TLR1_def TCR1_def

text \<open>The fields of the control and status registers: one bit each.\<close>

definition TCSR0_ENALL_MASK :: u32 where "TCSR0_ENALL_MASK = push_bit 10 1"
definition TCSR0_PWMA0_MASK :: u32 where "TCSR0_PWMA0_MASK = push_bit 9 1"
definition TCSR0_T0INT_MASK :: u32 where "TCSR0_T0INT_MASK = push_bit 8 1"
definition TCSR0_ENT0_MASK :: u32 where "TCSR0_ENT0_MASK = push_bit 7 1"
definition TCSR0_ENIT0_MASK :: u32 where "TCSR0_ENIT0_MASK = push_bit 6 1"
definition TCSR0_LOAD0_MASK :: u32 where "TCSR0_LOAD0_MASK = push_bit 5 1"
definition TCSR0_ARHT0_MASK :: u32 where "TCSR0_ARHT0_MASK = push_bit 4 1"
definition TCSR0_CAPT0_MASK :: u32 where "TCSR0_CAPT0_MASK = push_bit 3 1"
definition TCSR0_GENT0_MASK :: u32 where "TCSR0_GENT0_MASK = push_bit 2 1"
definition TCSR0_UDT0_MASK :: u32 where "TCSR0_UDT0_MASK = push_bit 1 1"
definition TCSR0_MDT0_MASK :: u32 where "TCSR0_MDT0_MASK = push_bit 0 1"
definition TCSR0_MASK :: u32 where
  "TCSR0_MASK = TCSR0_ENALL_MASK OR TCSR0_PWMA0_MASK OR TCSR0_T0INT_MASK OR TCSR0_ENT0_MASK OR TCSR0_ENIT0_MASK OR TCSR0_LOAD0_MASK OR TCSR0_ARHT0_MASK OR TCSR0_CAPT0_MASK OR TCSR0_GENT0_MASK OR TCSR0_UDT0_MASK OR TCSR0_MDT0_MASK"

lemmas tcsr0_masks = TCSR0_ENALL_MASK_def TCSR0_PWMA0_MASK_def TCSR0_T0INT_MASK_def TCSR0_ENT0_MASK_def TCSR0_ENIT0_MASK_def TCSR0_LOAD0_MASK_def TCSR0_ARHT0_MASK_def TCSR0_CAPT0_MASK_def TCSR0_GENT0_MASK_def TCSR0_UDT0_MASK_def TCSR0_MDT0_MASK_def

definition TCSR1_ENALL_MASK :: u32 where "TCSR1_ENALL_MASK = push_bit 10 1"
definition TCSR1_PWMB0_MASK :: u32 where "TCSR1_PWMB0_MASK = push_bit 9 1"
definition TCSR1_T1INT_MASK :: u32 where "TCSR1_T1INT_MASK = push_bit 8 1"
definition TCSR1_ENT1_MASK :: u32 where "TCSR1_ENT1_MASK = push_bit 7 1"
definition TCSR1_ENIT1_MASK :: u32 where "TCSR1_ENIT1_MASK = push_bit 6 1"
definition TCSR1_LOAD1_MASK :: u32 where "TCSR1_LOAD1_MASK = push_bit 5 1"
definition TCSR1_ARHT1_MASK :: u32 where "TCSR1_ARHT1_MASK = push_bit 4 1"
definition TCSR1_CAPT1_MASK :: u32 where "TCSR1_CAPT1_MASK = push_bit 3 1"
definition TCSR1_GENT1_MASK :: u32 where "TCSR1_GENT1_MASK = push_bit 2 1"
definition TCSR1_UDT1_MASK :: u32 where "TCSR1_UDT1_MASK = push_bit 1 1"
definition TCSR1_MDT1_MASK :: u32 where "TCSR1_MDT1_MASK = push_bit 0 1"
definition TCSR1_MASK :: u32 where
  "TCSR1_MASK = TCSR1_ENALL_MASK OR TCSR1_PWMB0_MASK OR TCSR1_T1INT_MASK OR TCSR1_ENT1_MASK OR TCSR1_ENIT1_MASK OR TCSR1_LOAD1_MASK OR TCSR1_ARHT1_MASK OR TCSR1_CAPT1_MASK OR TCSR1_GENT1_MASK OR TCSR1_UDT1_MASK OR TCSR1_MDT1_MASK"

lemmas tcsr1_masks = TCSR1_ENALL_MASK_def TCSR1_PWMB0_MASK_def TCSR1_T1INT_MASK_def TCSR1_ENT1_MASK_def TCSR1_ENIT1_MASK_def TCSR1_LOAD1_MASK_def TCSR1_ARHT1_MASK_def TCSR1_CAPT1_MASK_def TCSR1_GENT1_MASK_def TCSR1_UDT1_MASK_def TCSR1_MDT1_MASK_def

definition TCSR0_IDX_SHIFT :: nat where "TCSR0_IDX_SHIFT = 0"
definition TLR0_IDX_SHIFT :: nat where "TLR0_IDX_SHIFT = 1"
definition TCR0_IDX_SHIFT :: nat where "TCR0_IDX_SHIFT = 2"
definition TCSR1_IDX_SHIFT :: nat where "TCSR1_IDX_SHIFT = 3"
definition TLR1_IDX_SHIFT :: nat where "TLR1_IDX_SHIFT = 4"
definition TCR1_IDX_SHIFT :: nat where "TCR1_IDX_SHIFT = 5"

lemmas idx_shifts = TCSR0_IDX_SHIFT_def TLR0_IDX_SHIFT_def TCR0_IDX_SHIFT_def TCSR1_IDX_SHIFT_def TLR1_IDX_SHIFT_def TCR1_IDX_SHIFT_def

record timer =
  toggle :: u32
  read_idx :: u32
  write_idx :: u32
  tcsr0 :: "u32 list"
  tlr0 :: "u32 list"
  tcr0 :: "u32 list"
  tcsr1 :: "u32 list"
  tlr1 :: "u32 list"
  tcr1 :: "u32 list"
  roll_over0 :: bool
  roll_over1 :: bool
  num_tcr0_roll_over :: u64
  num_tcr1_roll_over :: u64
  num_timer0_generate_interrupts :: u64
  num_timer1_generate_interrupts :: u64
  num_timer0_generate_interrupt_losses :: u64
  num_timer1_generate_interrupt_losses :: u64
  num_timer0_captures :: u64
  num_timer1_captures :: u64
  num_timer0_old_capture_losses :: u64
  num_timer1_old_capture_losses :: u64
  num_timer0_new_capture_losses :: u64
  num_timer1_new_capture_losses :: u64

definition timer_Reset :: "timer \<Rightarrow> timer" where
  "timer_Reset t = t\<lparr>read_idx := 0, write_idx := NOT 0, toggle := 0, tcsr0 := [0, 0], tlr0 := [0, 0], tcr0 := [0, 0],
     tcsr1 := [0, 0], tlr1 := [0, 0], tcr1 := [0, 0], roll_over0 := False, roll_over1 := False,
     num_tcr0_roll_over := 0, num_tcr1_roll_over := 0\<rparr>"

definition timer_ResetMemory :: "timer \<Rightarrow> timer" where "timer_ResetMemory = timer_Reset"

definition timer_init :: timer where
  "timer_init = \<lparr>toggle = 0, read_idx = 0, write_idx = NOT 0, tcsr0 = [0, 0], tlr0 = [0, 0], tcr0 = [0, 0],
     tcsr1 = [0, 0], tlr1 = [0, 0], tcr1 = [0, 0], roll_over0 = False, roll_over1 = False,
     num_tcr0_roll_over = 0, num_tcr1_roll_over = 0,
     num_timer0_generate_interrupts = 0, num_timer1_generate_interrupts = 0, num_timer0_generate_interrupt_losses = 0, num_timer1_generate_interrupt_losses = 0,
     num_timer0_captures = 0, num_timer1_captures = 0, num_timer0_old_capture_losses = 0, num_timer1_old_capture_losses = 0, num_timer0_new_capture_losses = 0, num_timer1_new_capture_losses = 0\<rparr>"

section \<open>Double-buffered registers\<close>

definition reg_idx :: "nat \<Rightarrow> u32 \<Rightarrow> nat" where "reg_idx shift w = unat (drop_bit shift w AND 1)"

definition reg_read :: "nat \<Rightarrow> u32 list \<Rightarrow> timer \<Rightarrow> u32" where
  "reg_read shift reg t = reg ! reg_idx shift (read_idx t)"

definition reg_write :: "nat \<Rightarrow> u32 \<Rightarrow> u32 list \<Rightarrow> timer \<Rightarrow> u32 list" where
  "reg_write shift v reg t = reg[reg_idx shift (write_idx t) := v]"

definition touch :: "nat \<Rightarrow> timer \<Rightarrow> timer" where
  "touch shift t = t\<lparr>toggle := toggle t OR push_bit shift 1\<rparr>"

definition timer_Update :: "timer \<Rightarrow> timer" where
  "timer_Update t = t\<lparr>read_idx := read_idx t XOR toggle t, write_idx := write_idx t XOR toggle t, toggle := 0\<rparr>"

definition GetTCSR0 :: "timer \<Rightarrow> u32" where "GetTCSR0 t = reg_read TCSR0_IDX_SHIFT (tcsr0 t) t AND TCSR0_MASK"
definition GetTLR0 :: "timer_config \<Rightarrow> timer \<Rightarrow> u32" where "GetTLR0 cfg t = reg_read TLR0_IDX_SHIFT (tlr0 t) t AND COUNTER_MASK cfg"
definition GetTCR0 :: "timer_config \<Rightarrow> timer \<Rightarrow> u32" where "GetTCR0 cfg t = reg_read TCR0_IDX_SHIFT (tcr0 t) t AND COUNTER_MASK cfg"
definition GetTCSR1 :: "timer_config \<Rightarrow> timer \<Rightarrow> u32" where
  "GetTCSR1 cfg t = (if C_ONE_TIMER_ONLY cfg then 0 else reg_read TCSR1_IDX_SHIFT (tcsr1 t) t AND TCSR1_MASK)"
definition GetTLR1 :: "timer_config \<Rightarrow> timer \<Rightarrow> u32" where "GetTLR1 cfg t = reg_read TLR1_IDX_SHIFT (tlr1 t) t AND COUNTER_MASK cfg"
definition GetTCR1 :: "timer_config \<Rightarrow> timer \<Rightarrow> u32" where
  "GetTCR1 cfg t = (if C_ONE_TIMER_ONLY cfg then 0 else reg_read TCR1_IDX_SHIFT (tcr1 t) t AND COUNTER_MASK cfg)"

definition GetTCSR0_ENALL :: "timer \<Rightarrow> u32" where "GetTCSR0_ENALL t = drop_bit 10 (GetTCSR0 t AND TCSR0_ENALL_MASK)"
definition GetTCSR0_PWMA0 :: "timer \<Rightarrow> u32" where "GetTCSR0_PWMA0 t = drop_bit 9 (GetTCSR0 t AND TCSR0_PWMA0_MASK)"
definition GetTCSR0_T0INT :: "timer \<Rightarrow> u32" where "GetTCSR0_T0INT t = drop_bit 8 (GetTCSR0 t AND TCSR0_T0INT_MASK)"
definition GetTCSR0_ENT0 :: "timer \<Rightarrow> u32" where "GetTCSR0_ENT0 t = drop_bit 7 (GetTCSR0 t AND TCSR0_ENT0_MASK)"
definition GetTCSR0_ENIT0 :: "timer \<Rightarrow> u32" where "GetTCSR0_ENIT0 t = drop_bit 6 (GetTCSR0 t AND TCSR0_ENIT0_MASK)"
definition GetTCSR0_LOAD0 :: "timer \<Rightarrow> u32" where "GetTCSR0_LOAD0 t = drop_bit 5 (GetTCSR0 t AND TCSR0_LOAD0_MASK)"
definition GetTCSR0_ARHT0 :: "timer \<Rightarrow> u32" where "GetTCSR0_ARHT0 t = drop_bit 4 (GetTCSR0 t AND TCSR0_ARHT0_MASK)"
definition GetTCSR0_CAPT0 :: "timer \<Rightarrow> u32" where "GetTCSR0_CAPT0 t = drop_bit 3 (GetTCSR0 t AND TCSR0_CAPT0_MASK)"
definition GetTCSR0_GENT0 :: "timer \<Rightarrow> u32" where "GetTCSR0_GENT0 t = drop_bit 2 (GetTCSR0 t AND TCSR0_GENT0_MASK)"
definition GetTCSR0_UDT0 :: "timer \<Rightarrow> u32" where "GetTCSR0_UDT0 t = drop_bit 1 (GetTCSR0 t AND TCSR0_UDT0_MASK)"
definition GetTCSR0_MDT0 :: "timer \<Rightarrow> u32" where "GetTCSR0_MDT0 t = drop_bit 0 (GetTCSR0 t AND TCSR0_MDT0_MASK)"
definition GetTCSR1_ENALL :: "timer_config \<Rightarrow> timer \<Rightarrow> u32" where "GetTCSR1_ENALL cfg t = drop_bit 10 (GetTCSR1 cfg t AND TCSR1_ENALL_MASK)"
definition GetTCSR1_PWMB0 :: "timer_config \<Rightarrow> timer \<Rightarrow> u32" where "GetTCSR1_PWMB0 cfg t = drop_bit 9 (GetTCSR1 cfg t AND TCSR1_PWMB0_MASK)"
definition GetTCSR1_T1INT :: "timer_config \<Rightarrow> timer \<Rightarrow> u32" where "GetTCSR1_T1INT cfg t = drop_bit 8 (GetTCSR1 cfg t AND TCSR1_T1INT_MASK)"
definition GetTCSR1_ENT1 :: "timer_config \<Rightarrow> timer \<Rightarrow> u32" where "GetTCSR1_ENT1 cfg t = drop_bit 7 (GetTCSR1 cfg t AND TCSR1_ENT1_MASK)"
definition GetTCSR1_ENIT1 :: "timer_config \<Rightarrow> timer \<Rightarrow> u32" where "GetTCSR1_ENIT1 cfg t = drop_bit 6 (GetTCSR1 cfg t AND TCSR1_ENIT1_MASK)"
definition GetTCSR1_LOAD1 :: "timer_config \<Rightarrow> timer \<Rightarrow> u32" where "GetTCSR1_LOAD1 cfg t = drop_bit 5 (GetTCSR1 cfg t AND TCSR1_LOAD1_MASK)"
definition GetTCSR1_ARHT1 :: "timer_config \<Rightarrow> timer \<Rightarrow> u32" where "GetTCSR1_ARHT1 cfg t = drop_bit 4 (GetTCSR1 cfg t AND TCSR1_ARHT1_MASK)"
definition GetTCSR1_CAPT1 :: "timer_config \<Rightarrow> timer \<Rightarrow> u32" where "GetTCSR1_CAPT1 cfg t = drop_bit 3 (GetTCSR1 cfg t AND TCSR1_CAPT1_MASK)"
definition GetTCSR1_UDT1 :: "timer_config \<Rightarrow> timer \<Rightarrow> u32" where "GetTCSR1_UDT1 cfg t = drop_bit 1 (GetTCSR1 cfg t AND TCSR1_UDT1_MASK)"
definition GetTCSR1_MDT1 :: "timer_config \<Rightarrow> timer \<Rightarrow> u32" where "GetTCSR1_MDT1 cfg t = drop_bit 0 (GetTCSR1 cfg t AND TCSR1_MDT1_MASK)"

definition put_tcsr0 :: "u32 \<Rightarrow> timer \<Rightarrow> timer" where
  "put_tcsr0 v t = (touch TCSR0_IDX_SHIFT t)\<lparr>tcsr0 := reg_write TCSR0_IDX_SHIFT v (tcsr0 t) t\<rparr>"

definition put_tcsr1 :: "u32 \<Rightarrow> timer \<Rightarrow> timer" where
  "put_tcsr1 v t = (touch TCSR1_IDX_SHIFT t)\<lparr>tcsr1 := reg_write TCSR1_IDX_SHIFT v (tcsr1 t) t\<rparr>"

text \<open>Both control registers are written from the values read, not from those of an earlier write.\<close>

definition SetTCSR0 :: "timer_config \<Rightarrow> u32 \<Rightarrow> timer \<Rightarrow> timer" where
  "SetTCSR0 cfg value t =
     (let keep = TCSR0_ENALL_MASK OR TCSR0_T0INT_MASK;
          old_tcsr0 = reg_read TCSR0_IDX_SHIFT (tcsr0 t) t;
          new_tcsr0 = (old_tcsr0 AND keep) OR (value AND NOT keep);
          new_tcsr1 = reg_read TCSR1_IDX_SHIFT (tcsr1 t) t;
          (new_tcsr0, new_tcsr1) =
            (if value AND TCSR0_ENALL_MASK \<noteq> 0
             then (new_tcsr0 OR TCSR0_ENALL_MASK OR TCSR0_ENT0_MASK, new_tcsr1 OR TCSR1_ENALL_MASK OR TCSR1_ENT1_MASK)
             else (new_tcsr0 AND NOT TCSR0_ENALL_MASK, new_tcsr1 AND NOT TCSR1_ENALL_MASK));
          new_tcsr0 = (if value AND TCSR0_T0INT_MASK \<noteq> 0 then new_tcsr0 AND NOT TCSR0_T0INT_MASK else new_tcsr0);
          t = put_tcsr0 new_tcsr0 t
      in if C_ONE_TIMER_ONLY cfg then t else put_tcsr1 new_tcsr1 t)"

definition SetTCSR0_T0INT :: "timer \<Rightarrow> timer" where
  "SetTCSR0_T0INT t = put_tcsr0 (reg_read TCSR0_IDX_SHIFT (tcsr0 t) t OR TCSR0_T0INT_MASK) t"

definition SetTLR0 :: "timer_config \<Rightarrow> u32 \<Rightarrow> timer \<Rightarrow> timer" where
  "SetTLR0 cfg value t = (touch TLR0_IDX_SHIFT t)\<lparr>tlr0 := reg_write TLR0_IDX_SHIFT (value AND COUNTER_MASK cfg) (tlr0 t) t\<rparr>"

definition SetTCR0 :: "timer_config \<Rightarrow> u32 \<Rightarrow> timer \<Rightarrow> timer" where
  "SetTCR0 cfg value t = (touch TCR0_IDX_SHIFT t)\<lparr>tcr0 := reg_write TCR0_IDX_SHIFT (value AND COUNTER_MASK cfg) (tcr0 t) t\<rparr>"

definition SetTCSR1 :: "timer_config \<Rightarrow> u32 \<Rightarrow> timer \<Rightarrow> timer" where
  "SetTCSR1 cfg value t =
     (if C_ONE_TIMER_ONLY cfg then t else
      let keep = TCSR1_ENALL_MASK OR TCSR1_T1INT_MASK;
          new_tcsr0 = reg_read TCSR0_IDX_SHIFT (tcsr0 t) t;
          old_tcsr1 = reg_read TCSR1_IDX_SHIFT (tcsr1 t) t;
          new_tcsr1 = (old_tcsr1 AND keep) OR (value AND NOT keep);
          (new_tcsr0, new_tcsr1) =
            (if value AND TCSR1_ENALL_MASK \<noteq> 0
             then (new_tcsr0 OR TCSR0_ENALL_MASK OR TCSR0_ENT0_MASK, new_tcsr1 OR TCSR1_ENALL_MASK OR TCSR1_ENT1_MASK)
             else (new_tcsr0 AND NOT TCSR0_ENALL_MASK, new_tcsr1 AND NOT TCSR1_ENALL_MASK));
          new_tcsr1 = (if value AND TCSR1_T1INT_MASK \<noteq> 0 then new_tcsr1 AND NOT TCSR1_T1INT_MASK else new_tcsr1)
      in put_tcsr1 new_tcsr1 (put_tcsr0 new_tcsr0 t))"

definition SetTCSR1_T1INT :: "timer_config \<Rightarrow> timer \<Rightarrow> timer" where
  "SetTCSR1_T1INT cfg t =
     (if C_ONE_TIMER_ONLY cfg then t else put_tcsr1 (reg_read TCSR1_IDX_SHIFT (tcsr1 t) t OR TCSR1_T1INT_MASK) t)"

definition SetTLR1 :: "timer_config \<Rightarrow> u32 \<Rightarrow> timer \<Rightarrow> timer" where
  "SetTLR1 cfg value t =
     (if C_ONE_TIMER_ONLY cfg then t
      else (touch TLR1_IDX_SHIFT t)\<lparr>tlr1 := reg_write TLR1_IDX_SHIFT (value AND COUNTER_MASK cfg) (tlr1 t) t\<rparr>)"

definition SetTCR1 :: "timer_config \<Rightarrow> u32 \<Rightarrow> timer \<Rightarrow> timer" where
  "SetTCR1 cfg value t =
     (if C_ONE_TIMER_ONLY cfg then t
      else (touch TCR1_IDX_SHIFT t)\<lparr>tcr1 := reg_write TCR1_IDX_SHIFT (value AND COUNTER_MASK cfg) (tcr1 t) t\<rparr>)"

section \<open>Bus accesses\<close>

text \<open>Accesses of one, two and four bytes are meant to reach the most significant bytes of a register.\<close>

definition timer_reg :: "timer_config \<Rightarrow> u64 \<Rightarrow> timer \<Rightarrow> u32" where
  "timer_reg cfg off t =
     (if off = TCSR0 then GetTCSR0 t else if off = TLR0 then GetTLR0 cfg t else if off = TCR0 then GetTCR0 cfg t
      else if off = TCSR1 then GetTCSR1 cfg t else if off = TLR1 then GetTLR1 cfg t else if off = TCR1 then GetTCR1 cfg t
      else 0)"

text \<open>
  The value is converted to big-endian as a word of 32 bits before it is cut to the size of the access: on a
  little-endian host that leaves 0 of an access of one or two bytes. The result is the value on the register's
  side of the bus, the bytes of the access read back most significant first.
\<close>

definition timer_reg_part :: "nat \<Rightarrow> u32 \<Rightarrow> u32" where
  "timer_reg_part sz v = (if sz = 1 then drop_bit 24 v else if sz = 2 then drop_bit 16 v else if sz = 4 then v else 0)"

definition from_big_endian :: "nat \<Rightarrow> u32 \<Rightarrow> u32" where
  "from_big_endian sz w = (if sz = 1 then drop_bit 24 (byte_swap32 w) else if sz = 2 then drop_bit 16 (byte_swap32 w) else byte_swap32 w)"

definition timer_Read :: "timer_config \<Rightarrow> nat \<Rightarrow> u64 \<Rightarrow> timer \<Rightarrow> u32" where
  "timer_Read cfg sz addr t =
     (let value = byte_swap32 (timer_reg_part sz (timer_reg cfg (addr - T_BASEADDR cfg) t)) AND mask (8 * sz)
      in from_big_endian sz value)"

lemma timer_Read_word: "timer_Read cfg 4 addr t = timer_reg cfg (addr - T_BASEADDR cfg) t"
proof -
  have "w AND mask 32 = w" for w :: u32 by (rule bit_word_eqI) (simp add: bit_simps)
  then show ?thesis by (simp add: timer_Read_def timer_reg_part_def from_big_endian_def)
qed

lemma timer_Read_narrow: "timer_Read cfg 1 addr t = 0" "timer_Read cfg 2 addr t = 0"
proof -
  have "byte_swap32 (drop_bit 24 v) AND mask 8 = 0" "byte_swap32 (drop_bit 16 v) AND mask 16 = 0" for v :: u32
    by (rule bit_word_eqI; auto simp: byte_swap32_def be_bytes_def of_be_bytes_def bit_simps dest: bit_imp_le_length)+
  then show "timer_Read cfg 1 addr t = 0" "timer_Read cfg 2 addr t = 0"
    by (simp_all add: timer_Read_def timer_reg_part_def from_big_endian_def byte_swap32_def be_bytes_def of_be_bytes_def)
qed

definition timer_set_reg :: "timer_config \<Rightarrow> u64 \<Rightarrow> (u32 \<Rightarrow> u32) \<Rightarrow> timer \<Rightarrow> timer" where
  "timer_set_reg cfg off f t =
     (if off = TCSR0 then SetTCSR0 cfg (f (GetTCSR0 t)) t else if off = TLR0 then SetTLR0 cfg (f (GetTLR0 cfg t)) t
      else if off = TCSR1 then SetTCSR1 cfg (f (GetTCSR1 cfg t)) t else if off = TLR1 then SetTLR1 cfg (f (GetTLR1 cfg t)) t
      else t)"

definition timer_Write :: "timer_config \<Rightarrow> nat \<Rightarrow> u64 \<Rightarrow> u32 \<Rightarrow> timer \<Rightarrow> timer" where
  "timer_Write cfg sz addr v t =
     (let off = addr - T_BASEADDR cfg in
      if sz = 1 then timer_set_reg cfg off (\<lambda>old. (old AND 0x00ffffff) OR push_bit 24 v) t
      else if sz = 2 then timer_set_reg cfg off (\<lambda>old. (old AND 0x0000ffff) OR push_bit 16 v) t
      else if sz = 4 then timer_set_reg cfg off (\<lambda>_. v) t
      else t)"

definition timer_IsMapped :: "timer_config \<Rightarrow> u64 \<Rightarrow> u32 \<Rightarrow> bool" where
  "timer_IsMapped cfg addr sz \<longleftrightarrow> T_BASEADDR cfg \<le> addr \<and> addr + ucast sz - 1 \<le> T_HIGHADDR cfg"

section \<open>Counters\<close>

text \<open>A counter holds at its terminal count: 0 when it counts up, the maximum when it counts down.\<close>

definition count_down :: "timer_config \<Rightarrow> u32 \<Rightarrow> u32 \<Rightarrow> u32 \<times> bool" where
  "count_down cfg old delta =
     (let new = (if old \<noteq> MAX_COUNT cfg then (old - delta) AND MAX_COUNT cfg else MAX_COUNT cfg) in (new, old < new))"

definition count_up :: "timer_config \<Rightarrow> u32 \<Rightarrow> u32 \<Rightarrow> u32 \<times> bool" where
  "count_up cfg old delta =
     (let new = (if old \<noteq> 0 then (old + delta) AND MAX_COUNT cfg else 0) in (new, new < old))"

definition RunCounter0 :: "timer_config \<Rightarrow> u32 \<Rightarrow> timer \<Rightarrow> bool \<times> timer" where
  "RunCounter0 cfg delta t =
     (if GetTCSR0_ENT0 t = 0 then (False, t) else
      let old = GetTCR0 cfg t;
          (new, roll) = (if GetTCSR0_UDT0 t \<noteq> 0 then count_down cfg old delta else count_up cfg old delta);
          t1 = t\<lparr>roll_over0 := roll\<rparr>;
          t2 = (if roll \<and> GetTCSR0_MDT0 t1 = 0 \<and> GetTCSR0_ENIT0 t1 \<noteq> 0
                then SetTCSR0_T0INT (t1\<lparr>num_timer0_generate_interrupts := num_timer0_generate_interrupts t1 + 1,
                       num_timer0_generate_interrupt_losses := num_timer0_generate_interrupt_losses t1 +
                         (if GetTCSR0_T0INT t1 \<noteq> 0 then 1 else 0)\<rparr>)
                else t1);
          t3 = t2\<lparr>tcr0 := (tcr0 t2)[reg_idx TCR0_IDX_SHIFT (read_idx t2) := new]\<rparr>;
          t4 = (if roll then t3\<lparr>num_tcr0_roll_over := num_tcr0_roll_over t3 + 1\<rparr> else t3)
      in (roll, t4))"

definition RunCounter1 :: "timer_config \<Rightarrow> u32 \<Rightarrow> timer \<Rightarrow> bool \<times> timer" where
  "RunCounter1 cfg delta t =
     (if C_ONE_TIMER_ONLY cfg \<or> GetTCSR1_ENT1 cfg t = 0 then (False, t) else
      let old = GetTCR1 cfg t;
          (new, roll) = (if GetTCSR1_UDT1 cfg t \<noteq> 0 then count_down cfg old delta else count_up cfg old delta);
          t1 = t\<lparr>roll_over1 := roll\<rparr>;
          t2 = (if roll \<and> GetTCSR1_MDT1 cfg t1 = 0 \<and> GetTCSR1_ENIT1 cfg t1 \<noteq> 0
                then SetTCSR1_T1INT cfg (t1\<lparr>num_timer1_generate_interrupts := num_timer1_generate_interrupts t1 + 1,
                       num_timer1_generate_interrupt_losses := num_timer1_generate_interrupt_losses t1 +
                         (if GetTCSR1_T1INT cfg t1 \<noteq> 0 then 1 else 0)\<rparr>)
                else t1);
          t3 = t2\<lparr>tcr1 := (tcr1 t2)[reg_idx TCR1_IDX_SHIFT (read_idx t2) := new]\<rparr>;
          t4 = (if roll then t3\<lparr>num_tcr1_roll_over := num_tcr1_roll_over t3 + 1\<rparr> else t3)
      in (roll, t4))"

section \<open>Capture and load\<close>

definition CaptureTrigger0 :: "timer_config \<Rightarrow> timer \<Rightarrow> timer" where
  "CaptureTrigger0 cfg t =
     (if GetTCSR0_CAPT0 t \<noteq> 0 \<and> GetTCSR0_MDT0 t \<noteq> 0
      then let t1 = t\<lparr>num_timer0_captures := num_timer0_captures t + 1\<rparr>;
               t2 = (if GetTCSR0_T0INT t1 \<noteq> 0 \<and> GetTCSR0_ENIT0 t1 \<noteq> 0
                     then if GetTCSR0_ARHT0 t1 \<noteq> 0
                          then t1\<lparr>num_timer0_old_capture_losses := num_timer0_old_capture_losses t1 + 1\<rparr>
                          else t1\<lparr>num_timer0_new_capture_losses := num_timer0_new_capture_losses t1 + 1\<rparr>
                     else t1)
           in if GetTCSR0_T0INT t2 = 0 \<or> GetTCSR0_ARHT0 t2 \<noteq> 0
              then SetTCSR0_T0INT (SetTLR0 cfg (GetTCR0 cfg t2) t2) else t2
      else t)"

definition CaptureTrigger1 :: "timer_config \<Rightarrow> timer \<Rightarrow> timer" where
  "CaptureTrigger1 cfg t =
     (if C_ONE_TIMER_ONLY cfg then t else if GetTCSR1_CAPT1 cfg t \<noteq> 0 \<and> GetTCSR1_MDT1 cfg t \<noteq> 0
      then let t1 = t\<lparr>num_timer1_captures := num_timer1_captures t + 1\<rparr>;
               t2 = (if GetTCSR1_T1INT cfg t1 \<noteq> 0 \<and> GetTCSR1_ENIT1 cfg t1 \<noteq> 0
                     then if GetTCSR1_ARHT1 cfg t1 \<noteq> 0
                          then t1\<lparr>num_timer1_old_capture_losses := num_timer1_old_capture_losses t1 + 1\<rparr>
                          else t1\<lparr>num_timer1_new_capture_losses := num_timer1_new_capture_losses t1 + 1\<rparr>
                     else t1)
           in if GetTCSR1_T1INT cfg t2 = 0 \<or> GetTCSR1_ARHT1 cfg t2 \<noteq> 0
              then SetTCSR1_T1INT cfg (SetTLR1 cfg (GetTCR1 cfg t2) t2) else t2
      else t)"

definition NeedsLoadingTCR0 :: "timer \<Rightarrow> bool" where
  "NeedsLoadingTCR0 t \<longleftrightarrow> GetTCSR0_LOAD0 t \<noteq> 0 \<or>
     (GetTCSR0_PWMA0 t = 0 \<and> roll_over0 t \<and> GetTCSR0_ENT0 t \<noteq> 0 \<and> GetTCSR0_MDT0 t = 0 \<and> GetTCSR0_ARHT0 t \<noteq> 0) \<or>
     (GetTCSR0_PWMA0 t \<noteq> 0 \<and> roll_over0 t)"

definition NeedsLoadingTCR1 :: "timer_config \<Rightarrow> timer \<Rightarrow> bool" where
  "NeedsLoadingTCR1 cfg t \<longleftrightarrow> GetTCSR1_LOAD1 cfg t \<noteq> 0 \<or>
     (GetTCSR1_PWMB0 cfg t = 0 \<and> roll_over1 t \<and> GetTCSR1_ENT1 cfg t \<noteq> 0 \<and> GetTCSR1_MDT1 cfg t = 0 \<and> GetTCSR1_ARHT1 cfg t \<noteq> 0) \<or>
     (GetTCSR1_PWMB0 cfg t \<noteq> 0 \<and> roll_over0 t)"

definition IsTCSR0_ENT0_Rising :: "timer \<Rightarrow> bool" where
  "IsTCSR0_ENT0_Rising t \<longleftrightarrow> toggle t AND push_bit TCSR0_IDX_SHIFT 1 \<noteq> 0 \<and>
     reg_read TCSR0_IDX_SHIFT (tcsr0 t) t AND TCSR0_ENT0_MASK = 0 \<and>
     tcsr0 t ! reg_idx TCSR0_IDX_SHIFT (write_idx t) AND TCSR0_ENT0_MASK \<noteq> 0"

definition IsTCSR1_ENT1_Rising :: "timer \<Rightarrow> bool" where
  "IsTCSR1_ENT1_Rising t \<longleftrightarrow> toggle t AND push_bit TCSR1_IDX_SHIFT 1 \<noteq> 0 \<and>
     reg_read TCSR1_IDX_SHIFT (tcsr1 t) t AND TCSR1_ENT1_MASK = 0 \<and>
     tcsr1 t ! reg_idx TCSR1_IDX_SHIFT (write_idx t) AND TCSR1_ENT1_MASK \<noteq> 0"

definition IsTCSR0_UDT0_Toggling :: "timer \<Rightarrow> bool" where
  "IsTCSR0_UDT0_Toggling t \<longleftrightarrow> toggle t AND push_bit TCSR0_IDX_SHIFT 1 \<noteq> 0 \<and>
     reg_read TCSR0_IDX_SHIFT (tcsr0 t) t AND TCSR0_UDT0_MASK \<noteq> tcsr0 t ! reg_idx TCSR0_IDX_SHIFT (write_idx t) AND TCSR0_UDT0_MASK"

definition IsTCSR1_UDT1_Toggling :: "timer \<Rightarrow> bool" where
  "IsTCSR1_UDT1_Toggling t \<longleftrightarrow> toggle t AND push_bit TCSR1_IDX_SHIFT 1 \<noteq> 0 \<and>
     reg_read TCSR1_IDX_SHIFT (tcsr1 t) t AND TCSR1_UDT1_MASK \<noteq> tcsr1 t ! reg_idx TCSR1_IDX_SHIFT (write_idx t) AND TCSR1_UDT1_MASK"

section \<open>Registers as current and pending values\<close>

datatype timer_register = R_TCSR0 | R_TLR0 | R_TCR0 | R_TCSR1 | R_TLR1 | R_TCR1

fun reg_shift :: "timer_register \<Rightarrow> nat" where
  "reg_shift R_TCSR0 = TCSR0_IDX_SHIFT" | "reg_shift R_TLR0 = TLR0_IDX_SHIFT" | "reg_shift R_TCR0 = TCR0_IDX_SHIFT"
| "reg_shift R_TCSR1 = TCSR1_IDX_SHIFT" | "reg_shift R_TLR1 = TLR1_IDX_SHIFT" | "reg_shift R_TCR1 = TCR1_IDX_SHIFT"

fun reg_words :: "timer_register \<Rightarrow> timer \<Rightarrow> u32 list" where
  "reg_words R_TCSR0 = tcsr0" | "reg_words R_TLR0 = tlr0" | "reg_words R_TCR0 = tcr0"
| "reg_words R_TCSR1 = tcsr1" | "reg_words R_TLR1 = tlr1" | "reg_words R_TCR1 = tcr1"

definition timer_wf :: "timer \<Rightarrow> bool" where
  "timer_wf t \<longleftrightarrow> write_idx t = NOT (read_idx t) \<and> (\<forall>r. length (reg_words r t) = 2)"

definition current :: "timer \<Rightarrow> timer_register \<Rightarrow> u32" where
  "current t r = reg_read (reg_shift r) (reg_words r t) t"

definition pending_writes :: "timer \<Rightarrow> timer_register \<rightharpoonup> u32" where
  "pending_writes t r = (if bit (toggle t) (reg_shift r) then Some (reg_words r t ! reg_idx (reg_shift r) (write_idx t)) else None)"

lemma reg_idx_bit: "reg_idx shift w = of_bool (bit w shift)"
  by (simp add: reg_idx_def and_one_eq odd_iff_mod_2_eq_one bit_iff_odd_drop_bit)

lemma reg_shift_less: "reg_shift r < 32"
  by (cases r) (simp_all add: idx_shifts)

lemma reg_shift_inject [simp]: "reg_shift r = reg_shift q \<longleftrightarrow> r = q"
  by (cases r; cases q) (simp_all add: idx_shifts)

text \<open>The two words of a register are never the same one.\<close>

lemma wf_idx:
  assumes "timer_wf t"
  shows "reg_idx (reg_shift r) (write_idx t) = 1 - reg_idx (reg_shift r) (read_idx t)"
    and "reg_idx (reg_shift r) w < length (reg_words r t)"
  using assms reg_shift_less [of r] by (auto simp: timer_wf_def reg_idx_bit bit_not_iff)

text \<open>A write of a register, and what it does to the current and pending values.\<close>

definition stage :: "timer_register \<Rightarrow> u32 \<Rightarrow> timer \<Rightarrow> timer" where
  "stage r v t = (let ws = reg_write (reg_shift r) v (reg_words r t) t; t1 = touch (reg_shift r) t in
     case r of R_TCSR0 \<Rightarrow> t1\<lparr>tcsr0 := ws\<rparr> | R_TLR0 \<Rightarrow> t1\<lparr>tlr0 := ws\<rparr> | R_TCR0 \<Rightarrow> t1\<lparr>tcr0 := ws\<rparr>
            | R_TCSR1 \<Rightarrow> t1\<lparr>tcsr1 := ws\<rparr> | R_TLR1 \<Rightarrow> t1\<lparr>tlr1 := ws\<rparr> | R_TCR1 \<Rightarrow> t1\<lparr>tcr1 := ws\<rparr>)"

lemma stage_fields:
  "reg_words q (stage r v t) = (if q = r then reg_write (reg_shift r) v (reg_words r t) t else reg_words q t)"
  "toggle (stage r v t) = toggle t OR push_bit (reg_shift r) 1"
  "read_idx (stage r v t) = read_idx t" "write_idx (stage r v t) = write_idx t"
  "roll_over0 (stage r v t) = roll_over0 t" "roll_over1 (stage r v t) = roll_over1 t"
  by (cases r; cases q; simp add: stage_def Let_def touch_def)+

lemma stage_spec:
  assumes "timer_wf t"
  shows "timer_wf (stage r v t)" and "current (stage r v t) = current t"
    and "pending_writes (stage r v t) = (pending_writes t)(r \<mapsto> v)"
proof -
  show "timer_wf (stage r v t)" using assms by (simp add: timer_wf_def stage_fields reg_write_def)
  show "current (stage r v t) = current t"
    using wf_idx [OF assms, of r] by (auto simp: fun_eq_iff current_def reg_read_def stage_fields reg_write_def reg_idx_bit split: if_splits)
  show "pending_writes (stage r v t) = (pending_writes t)(r \<mapsto> v)"
    using wf_idx(2) [OF assms] reg_shift_less
    by (auto simp: fun_eq_iff pending_writes_def stage_fields reg_write_def bit_or_iff bit_exp_iff)
qed

lemma setters_stage:
  "put_tcsr0 v t = stage R_TCSR0 v t" "put_tcsr1 v t = stage R_TCSR1 v t"
  "SetTLR0 cfg v t = stage R_TLR0 (v AND COUNTER_MASK cfg) t" "SetTCR0 cfg v t = stage R_TCR0 (v AND COUNTER_MASK cfg) t"
  "SetTLR1 cfg v t = (if C_ONE_TIMER_ONLY cfg then t else stage R_TLR1 (v AND COUNTER_MASK cfg) t)"
  "SetTCR1 cfg v t = (if C_ONE_TIMER_ONLY cfg then t else stage R_TCR1 (v AND COUNTER_MASK cfg) t)"
  by (simp_all add: put_tcsr0_def put_tcsr1_def SetTLR0_def SetTCR0_def SetTLR1_def SetTCR1_def stage_def)

lemma getters_current:
  "GetTCSR0 t = current t R_TCSR0 AND TCSR0_MASK" "GetTLR0 cfg t = current t R_TLR0 AND COUNTER_MASK cfg"
  "GetTCR0 cfg t = current t R_TCR0 AND COUNTER_MASK cfg"
  "GetTCSR1 cfg t = (if C_ONE_TIMER_ONLY cfg then 0 else current t R_TCSR1 AND TCSR1_MASK)"
  "GetTLR1 cfg t = current t R_TLR1 AND COUNTER_MASK cfg"
  "GetTCR1 cfg t = (if C_ONE_TIMER_ONLY cfg then 0 else current t R_TCR1 AND COUNTER_MASK cfg)"
  by (simp_all add: current_def GetTCSR0_def GetTLR0_def GetTCR0_def GetTCSR1_def GetTLR1_def GetTCR1_def)

lemma timer_Update_spec:
  assumes "timer_wf t"
  shows "timer_wf (timer_Update t)" and "pending_writes (timer_Update t) = Map.empty"
    and "current (timer_Update t) = (\<lambda>r. case pending_writes t r of None \<Rightarrow> current t r | Some v \<Rightarrow> v)"
proof -
  have u: "reg_words r (t\<lparr>read_idx := a, write_idx := b, toggle := c\<rparr>) = reg_words r t" for r a b c by (cases r) simp_all
  then have w: "reg_words r (timer_Update t) = reg_words r t" for r by (simp add: timer_Update_def)
  have n: "NOT (read_idx t XOR toggle t) = NOT (read_idx t) XOR toggle t"
    by (rule bit_word_eqI) (auto simp: bit_not_iff bit_xor_iff)
  show "timer_wf (timer_Update t)"
    unfolding timer_wf_def w using assms by (simp add: timer_wf_def timer_Update_def flip: n)
  show "pending_writes (timer_Update t) = Map.empty" by (simp add: fun_eq_iff pending_writes_def timer_Update_def)
  show "current (timer_Update t) = (\<lambda>r. case pending_writes t r of None \<Rightarrow> current t r | Some v \<Rightarrow> v)"
  proof
    fix r
    have "write_idx t = NOT (read_idx t)" using assms by (simp add: timer_wf_def)
    then show "current (timer_Update t) r = (case pending_writes t r of None \<Rightarrow> current t r | Some v \<Rightarrow> v)"
      using reg_shift_less [of r]
      by (simp add: current_def w u reg_read_def pending_writes_def reg_idx_bit timer_Update_def bit_xor_iff bit_not_iff)
  qed
qed

lemma timer_init_wf: "timer_wf timer_init" "current timer_init r = 0" "pending_writes timer_init = Map.empty"
proof -
  have "reg_words r timer_init = [0, 0]" for r by (cases r) (simp_all add: timer_init_def)
  then show "timer_wf timer_init" "current timer_init r = 0" "pending_writes timer_init = Map.empty"
    by (auto simp: timer_wf_def current_def reg_read_def reg_idx_bit pending_writes_def fun_eq_iff) (simp_all add: timer_init_def)
qed

lemma timer_Reset_wf: "timer_wf (timer_Reset t)" "current (timer_Reset t) r = 0" "pending_writes (timer_Reset t) = Map.empty"
proof -
  have "reg_words r (timer_Reset t) = [0, 0]" for r by (cases r) (simp_all add: timer_Reset_def)
  then show "timer_wf (timer_Reset t)" "current (timer_Reset t) r = 0" "pending_writes (timer_Reset t) = Map.empty"
    by (auto simp: timer_wf_def current_def reg_read_def reg_idx_bit pending_writes_def fun_eq_iff) (simp_all add: timer_Reset_def)
qed

section \<open>Control register writes\<close>

text \<open>The values a write of a control register gives to both control registers.\<close>

definition tcsr0_after :: "u32 \<Rightarrow> timer \<Rightarrow> u32 \<times> u32" where
  "tcsr0_after value t =
     (let keep = TCSR0_ENALL_MASK OR TCSR0_T0INT_MASK; new0 = (current t R_TCSR0 AND keep) OR (value AND NOT keep);
          (new0, new1) = (if value AND TCSR0_ENALL_MASK \<noteq> 0
             then (new0 OR TCSR0_ENALL_MASK OR TCSR0_ENT0_MASK, current t R_TCSR1 OR TCSR1_ENALL_MASK OR TCSR1_ENT1_MASK)
             else (new0 AND NOT TCSR0_ENALL_MASK, current t R_TCSR1 AND NOT TCSR1_ENALL_MASK))
      in (if value AND TCSR0_T0INT_MASK \<noteq> 0 then new0 AND NOT TCSR0_T0INT_MASK else new0, new1))"

lemma SetTCSR0_stage:
  "SetTCSR0 cfg v t = (let t1 = stage R_TCSR0 (fst (tcsr0_after v t)) t in
     if C_ONE_TIMER_ONLY cfg then t1 else stage R_TCSR1 (snd (tcsr0_after v t)) t1)"
  by (simp add: SetTCSR0_def tcsr0_after_def Let_def setters_stage current_def)

lemma bit_shifted_one: "bit (push_bit n (1 :: u32)) i \<longleftrightarrow> i = n \<and> n < 32"
  by (auto simp: bit_exp_iff)

lemma bit_masks:
  "bit TCSR0_ENALL_MASK i \<longleftrightarrow> i = 10" "bit TCSR0_PWMA0_MASK i \<longleftrightarrow> i = 9" "bit TCSR0_T0INT_MASK i \<longleftrightarrow> i = 8"
  "bit TCSR0_ENT0_MASK i \<longleftrightarrow> i = 7" "bit TCSR0_ENIT0_MASK i \<longleftrightarrow> i = 6" "bit TCSR0_LOAD0_MASK i \<longleftrightarrow> i = 5"
  "bit TCSR0_ARHT0_MASK i \<longleftrightarrow> i = 4" "bit TCSR0_CAPT0_MASK i \<longleftrightarrow> i = 3" "bit TCSR0_GENT0_MASK i \<longleftrightarrow> i = 2"
  "bit TCSR0_UDT0_MASK i \<longleftrightarrow> i = 1" "bit TCSR0_MDT0_MASK i \<longleftrightarrow> i = 0"
  "bit TCSR1_ENALL_MASK i \<longleftrightarrow> i = 10" "bit TCSR1_PWMB0_MASK i \<longleftrightarrow> i = 9" "bit TCSR1_T1INT_MASK i \<longleftrightarrow> i = 8"
  "bit TCSR1_ENT1_MASK i \<longleftrightarrow> i = 7" "bit TCSR1_ENIT1_MASK i \<longleftrightarrow> i = 6" "bit TCSR1_LOAD1_MASK i \<longleftrightarrow> i = 5"
  "bit TCSR1_ARHT1_MASK i \<longleftrightarrow> i = 4" "bit TCSR1_CAPT1_MASK i \<longleftrightarrow> i = 3" "bit TCSR1_GENT1_MASK i \<longleftrightarrow> i = 2"
  "bit TCSR1_UDT1_MASK i \<longleftrightarrow> i = 1" "bit TCSR1_MDT1_MASK i \<longleftrightarrow> i = 0"
  by (simp_all only: tcsr0_masks tcsr1_masks bit_shifted_one) simp_all

lemma bit_TCSR_MASK: "bit TCSR0_MASK i \<longleftrightarrow> i < 11" "bit TCSR1_MASK i \<longleftrightarrow> i < 11"
  unfolding TCSR0_MASK_def TCSR1_MASK_def by (auto simp: bit_or_iff bit_masks) arith+

lemma and_mask_bit:
  assumes "\<And>i. bit (m :: u32) i \<longleftrightarrow> i = n"
  shows "w AND m = 0 \<longleftrightarrow> \<not> bit w n"
proof
  assume "w AND m = 0"
  then show "\<not> bit w n" using bit_and_iff [of w m n] assms by auto
next
  assume "\<not> bit w n"
  then show "w AND m = 0" by (intro bit_word_eqI) (auto simp: bit_and_iff assms)
qed

lemmas mask_zero = and_mask_bit [OF bit_masks(1)] and_mask_bit [OF bit_masks(2)] and_mask_bit [OF bit_masks(3)]
  and_mask_bit [OF bit_masks(4)] and_mask_bit [OF bit_masks(5)] and_mask_bit [OF bit_masks(6)]
  and_mask_bit [OF bit_masks(7)] and_mask_bit [OF bit_masks(8)] and_mask_bit [OF bit_masks(9)]
  and_mask_bit [OF bit_masks(10)] and_mask_bit [OF bit_masks(11)] and_mask_bit [OF bit_masks(12)]
  and_mask_bit [OF bit_masks(13)] and_mask_bit [OF bit_masks(14)] and_mask_bit [OF bit_masks(15)]
  and_mask_bit [OF bit_masks(16)] and_mask_bit [OF bit_masks(17)] and_mask_bit [OF bit_masks(18)]
  and_mask_bit [OF bit_masks(19)] and_mask_bit [OF bit_masks(20)] and_mask_bit [OF bit_masks(21)]
  and_mask_bit [OF bit_masks(22)]

lemma bit_tcsr0_after:
  "bit (fst (tcsr0_after v t)) i \<longleftrightarrow> i < 32 \<and> (if i = 10 then bit v 10 else if i = 8 then bit (current t R_TCSR0) 8 \<and> \<not> bit v 8
     else if i = 7 then bit v 7 \<or> bit v 10 else bit v i)"
  "bit (snd (tcsr0_after v t)) i \<longleftrightarrow> i < 32 \<and> (if i = 10 then bit v 10 else if i = 7 then bit (current t R_TCSR1) 7 \<or> bit v 10
     else bit (current t R_TCSR1) i)"
  using bit_imp_le_length [of v i] bit_imp_le_length [of "current t R_TCSR1" i]
  by (auto simp: tcsr0_after_def Let_def mask_zero bit_or_iff bit_and_iff bit_not_iff bit_masks split: if_splits)


section \<open>Debug accesses\<close>

definition timer_ReadMemory :: "timer_config \<Rightarrow> u64 \<Rightarrow> u32 \<Rightarrow> timer \<Rightarrow> u8 list option" where
  "timer_ReadMemory cfg addr sz t =
     (if 0 < sz then if \<not> timer_IsMapped cfg addr sz then None else Some (bus_read_loop (\<lambda>a. timer_Read cfg 4 a t) addr (unat sz))
      else Some [])"

definition timer_WriteMemory :: "timer_config \<Rightarrow> u64 \<Rightarrow> u8 list \<Rightarrow> timer \<Rightarrow> timer option" where
  "timer_WriteMemory cfg addr bs t =
     (if bs \<noteq> [] then if \<not> timer_IsMapped cfg addr (of_nat (length bs)) then None
                     else Some (bus_write_loop (timer_Read cfg 4) (timer_Write cfg 4) addr bs t)
      else Some t)"

section \<open>Reads, writes and updates\<close>

lemma SetTCSR0_spec:
  assumes "timer_wf t"
  shows "timer_wf (SetTCSR0 cfg v t)" and "current (SetTCSR0 cfg v t) = current t"
    and "pending_writes (SetTCSR0 cfg v t) = (if C_ONE_TIMER_ONLY cfg then (pending_writes t)(R_TCSR0 \<mapsto> fst (tcsr0_after v t))
      else (pending_writes t)(R_TCSR0 \<mapsto> fst (tcsr0_after v t), R_TCSR1 \<mapsto> snd (tcsr0_after v t)))"
  using stage_spec [OF assms] stage_spec [OF stage_spec(1) [OF assms]] by (simp_all add: SetTCSR0_stage Let_def)

definition tcsr1_after :: "u32 \<Rightarrow> timer \<Rightarrow> u32 \<times> u32" where
  "tcsr1_after value t =
     (let keep = TCSR1_ENALL_MASK OR TCSR1_T1INT_MASK; new1 = (current t R_TCSR1 AND keep) OR (value AND NOT keep);
          (new0, new1) = (if value AND TCSR1_ENALL_MASK \<noteq> 0
             then (current t R_TCSR0 OR TCSR0_ENALL_MASK OR TCSR0_ENT0_MASK, new1 OR TCSR1_ENALL_MASK OR TCSR1_ENT1_MASK)
             else (current t R_TCSR0 AND NOT TCSR0_ENALL_MASK, new1 AND NOT TCSR1_ENALL_MASK))
      in (new0, if value AND TCSR1_T1INT_MASK \<noteq> 0 then new1 AND NOT TCSR1_T1INT_MASK else new1))"

lemma bit_tcsr1_after:
  "bit (snd (tcsr1_after v t)) i \<longleftrightarrow> i < 32 \<and> (if i = 10 then bit v 10 else if i = 8 then bit (current t R_TCSR1) 8 \<and> \<not> bit v 8
     else if i = 7 then bit v 7 \<or> bit v 10 else bit v i)"
  "bit (fst (tcsr1_after v t)) i \<longleftrightarrow> i < 32 \<and> (if i = 10 then bit v 10 else if i = 7 then bit (current t R_TCSR0) 7 \<or> bit v 10
     else bit (current t R_TCSR0) i)"
  using bit_imp_le_length [of v i] bit_imp_le_length [of "current t R_TCSR0" i]
  by (auto simp: tcsr1_after_def Let_def mask_zero bit_or_iff bit_and_iff bit_not_iff bit_masks split: if_splits)

lemma SetTCSR1_stage:
  "SetTCSR1 cfg v t = (if C_ONE_TIMER_ONLY cfg then t else stage R_TCSR1 (snd (tcsr1_after v t)) (stage R_TCSR0 (fst (tcsr1_after v t)) t))"
  by (simp add: SetTCSR1_def tcsr1_after_def Let_def setters_stage current_def)

lemma SetTCSR1_spec:
  assumes "timer_wf t"
  shows "timer_wf (SetTCSR1 cfg v t)" and "current (SetTCSR1 cfg v t) = current t"
    and "pending_writes (SetTCSR1 cfg v t) = (if C_ONE_TIMER_ONLY cfg then pending_writes t
      else (pending_writes t)(R_TCSR0 \<mapsto> fst (tcsr1_after v t), R_TCSR1 \<mapsto> snd (tcsr1_after v t)))"
  using assms stage_spec [OF assms] stage_spec [OF stage_spec(1) [OF assms]] by (simp_all add: SetTCSR1_stage)

lemma setters_spec:
  assumes "timer_wf t"
  shows "timer_wf (SetTLR0 cfg v t)" "current (SetTLR0 cfg v t) = current t"
    "timer_wf (SetTCR0 cfg v t)" "current (SetTCR0 cfg v t) = current t"
    "timer_wf (SetTLR1 cfg v t)" "current (SetTLR1 cfg v t) = current t"
    "timer_wf (SetTCR1 cfg v t)" "current (SetTCR1 cfg v t) = current t"
  using assms stage_spec [OF assms] by (simp_all add: setters_stage)

lemma timer_Write_spec:
  assumes "timer_wf t"
  shows "timer_wf (timer_Write cfg sz a v t)" and "current (timer_Write cfg sz a v t) = current t"
  using assms by (auto simp: timer_Write_def timer_set_reg_def Let_def setters_spec SetTCSR0_spec SetTCSR1_spec)

lemma timer_Read_cong: "current t = current s \<Longrightarrow> timer_Read cfg sz a t = timer_Read cfg sz a s"
  by (simp add: timer_Read_def timer_reg_def getters_current)

interpretation timer_bus: word_registers "timer_Read cfg 4" "timer_Write cfg 4" "\<lambda>t. timer_wf t \<and> current t = c" for cfg c
  by unfold_locales (simp add: timer_Write_spec)

text \<open>
  C30: the double-buffered registers are a memory of current values and pending writes. A write of a
  register replaces its pending write and changes no value read, on the bus or by the timer;
  \<open>Update\<close> makes every pending value current and leaves the others; the two indices always
  select different words.
\<close>

theorem timer_double_buffer:
  assumes "timer_wf t"
  shows "timer_wf (timer_Write cfg sz a v t) \<and> timer_Read cfg sz' a' (timer_Write cfg sz a v t) = timer_Read cfg sz' a' t \<and>
    pending_writes (SetTLR0 cfg v t) = (pending_writes t)(R_TLR0 \<mapsto> v AND COUNTER_MASK cfg) \<and>
    pending_writes (SetTCR0 cfg v t) = (pending_writes t)(R_TCR0 \<mapsto> v AND COUNTER_MASK cfg) \<and>
    (\<not> C_ONE_TIMER_ONLY cfg \<longrightarrow> pending_writes (SetTLR1 cfg v t) = (pending_writes t)(R_TLR1 \<mapsto> v AND COUNTER_MASK cfg) \<and>
       pending_writes (SetTCR1 cfg v t) = (pending_writes t)(R_TCR1 \<mapsto> v AND COUNTER_MASK cfg)) \<and>
    timer_wf (timer_Update t) \<and> pending_writes (timer_Update t) = Map.empty \<and>
    current (timer_Update t) = (\<lambda>r. case pending_writes t r of None \<Rightarrow> current t r | Some v \<Rightarrow> v)"
  using timer_Write_spec [OF assms] timer_Update_spec [OF assms] stage_spec [OF assms]
  by (simp add: setters_stage timer_Read_cong [of "timer_Write cfg sz a v t" t])

theorem timer_double_buffer_witness:
  "timer_Read timer_default 4 0x83c00004 (timer_Write timer_default 4 0x83c00004 7 timer_init) = 0 \<and>
   current (timer_Update (SetTLR0 timer_default 7 timer_init)) R_TLR0 = 7"
proof -
  have "timer_Read timer_default 4 0x83c00004 timer_init = 0"
    by (simp add: timer_Read_word timer_reg_def getters_current timer_init_wf)
  moreover have "current (timer_Update (SetTLR0 timer_default 7 timer_init)) R_TLR0 = 7"
    using timer_double_buffer [OF timer_init_wf(1), of timer_default 4 0 7]
      timer_double_buffer [of "SetTLR0 timer_default 7 timer_init" timer_default 4 0 0] setters_spec(1) [OF timer_init_wf(1)]
    by (simp add: timer_default_def COUNTER_MASK_def)
  ultimately show ?thesis using timer_double_buffer [OF timer_init_wf(1), of timer_default 4 "0x83c00004" 7 4 "0x83c00004"] by simp
qed

text \<open>
  what a word written to \<open>TCSR0\<close> leaves in the control registers after the update: \<open>ENALL\<close> is
  written to both and starts both timers when set, \<open>T0INT\<close> is cleared by a 1 and kept by a 0, the
  other fields of \<open>TCSR0\<close> are the bits written and those of \<open>TCSR1\<close> stay.
\<close>

theorem timer_control_write:
  assumes "timer_wf t" and "\<not> C_ONE_TIMER_ONLY cfg"
  shows "(bit (GetTCSR0 (timer_Update (timer_Write cfg 4 (T_BASEADDR cfg + TCSR0) v t))) i \<longleftrightarrow> i < 11 \<and>
      (if i = 8 then bit (GetTCSR0 t) 8 \<and> \<not> bit v 8 else if i = 7 then bit v 7 \<or> bit v 10 else bit v i)) \<and>
    (bit (GetTCSR1 cfg (timer_Update (timer_Write cfg 4 (T_BASEADDR cfg + TCSR0) v t))) j \<longleftrightarrow> j < 11 \<and>
      (if j = 10 then bit v 10 else if j = 7 then bit (GetTCSR1 cfg t) 7 \<or> bit v 10 else bit (GetTCSR1 cfg t) j))"
proof -
  have w: "timer_Write cfg 4 (T_BASEADDR cfg + TCSR0) v t = SetTCSR0 cfg v t"
    by (simp add: timer_Write_def timer_set_reg_def)
  show ?thesis
    using assms(2) unfolding w getters_current timer_Update_spec(3) [OF SetTCSR0_spec(1) [OF assms(1)]] SetTCSR0_spec(3) [OF assms(1)]
    by (auto simp: bit_and_iff bit_TCSR_MASK bit_tcsr0_after)
qed

theorem timer_control_write_witness:
  "bit (GetTCSR1 timer_default (timer_Update (timer_Write timer_default 4 (T_BASEADDR timer_default + TCSR0) 0x400 timer_init))) 7"
  using timer_control_write [OF timer_init_wf(1), of timer_default "0x400" 7 7] by (simp add: timer_default_def)

text \<open>
  a write of \<open>TCSR0\<close> loses an interrupt of timer 1 that was set since the last update, for
  instance by a roll-over in the same cycle: \<open>TCSR1\<close> is written back from its value before the
  roll-over. The same holds for a write of \<open>TCSR1\<close> and the interrupt of timer 0.
\<close>

theorem timer_write_loses_interrupt:
  assumes "timer_wf t" and "\<not> C_ONE_TIMER_ONLY cfg"
  shows "bit (GetTCSR1 cfg (timer_Update (SetTCSR0 cfg v (SetTCSR1_T1INT cfg t)))) 8 = bit (GetTCSR1 cfg t) 8 \<and>
    bit (GetTCSR0 (timer_Update (SetTCSR1 cfg v (SetTCSR0_T0INT t)))) 8 = bit (GetTCSR0 t) 8 \<and>
    bit (GetTCSR1 cfg (timer_Update (SetTCSR1_T1INT cfg t))) 8 \<and> bit (GetTCSR0 (timer_Update (SetTCSR0_T0INT t))) 8"
proof -
  have s: "SetTCSR1_T1INT cfg t = stage R_TCSR1 (current t R_TCSR1 OR TCSR1_T1INT_MASK) t"
    "SetTCSR0_T0INT t = stage R_TCSR0 (current t R_TCSR0 OR TCSR0_T0INT_MASK) t"
    using assms(2) by (simp_all add: SetTCSR1_T1INT_def SetTCSR0_T0INT_def setters_stage current_def)
  note S = stage_spec [OF assms(1)]
  show ?thesis
    using assms(2) unfolding getters_current timer_Update_spec(3) [OF SetTCSR0_spec(1) [OF S(1)]] timer_Update_spec(3) [OF S(1)]
      timer_Update_spec(3) [OF SetTCSR1_spec(1) [OF S(1)]] s SetTCSR0_spec(3) [OF S(1)] SetTCSR1_spec(3) [OF S(1)] S
    by (simp add: bit_and_iff bit_or_iff bit_masks bit_TCSR_MASK bit_tcsr0_after bit_tcsr1_after S)
qed

theorem timer_write_loses_interrupt_witness:
  "\<not> bit (GetTCSR1 timer_default (timer_Update (SetTCSR0 timer_default 0x80 (SetTCSR1_T1INT timer_default timer_init)))) 8"
  using timer_write_loses_interrupt [OF timer_init_wf(1), of timer_default "0x80"]
  by (simp add: getters_current timer_init_wf timer_default_def)

section \<open>Counting\<close>

lemma COUNTER_MASK_mask: "C_COUNT_WIDTH cfg \<le> 32 \<Longrightarrow> COUNTER_MASK cfg = mask (C_COUNT_WIDTH cfg)"
  unfolding COUNTER_MASK_def mask_eq_exp_minus_1 [symmetric] push_bit_eq_mult
  by (rule bit_word_eqI) (auto simp: mask_eq_exp_minus_1 [symmetric] bit_unsigned_iff bit_mask_iff)

lemma unat_and_COUNTER:
  assumes "C_COUNT_WIDTH cfg \<le> 32"
  shows "unat (x AND COUNTER_MASK cfg) = unat x mod 2 ^ C_COUNT_WIDTH cfg" and "unat (MAX_COUNT cfg) = 2 ^ C_COUNT_WIDTH cfg - 1"
proof -
  show a: "unat (x AND COUNTER_MASK cfg) = unat x mod 2 ^ C_COUNT_WIDTH cfg" for x :: u32
    unfolding COUNTER_MASK_mask [OF assms] take_bit_eq_mask [symmetric] unsigned_take_bit_eq
    using assms by (simp add: take_bit_eq_mod min_def)
  have "unat (-1 :: u32) mod 2 ^ C_COUNT_WIDTH cfg = 2 ^ C_COUNT_WIDTH cfg - 1"
    unfolding take_bit_eq_mod [symmetric] unsigned_minus_1_eq_mask take_bit_of_mask
    using assms by (simp add: mask_eq_exp_minus_1 min_def)
  then show "unat (MAX_COUNT cfg) = 2 ^ C_COUNT_WIDTH cfg - 1" using a [of "-1"] by (simp add: MAX_COUNT_def)
qed

text \<open>A counter of \<open>w\<close> bits run for \<open>delta\<close> cycles.\<close>

lemma count_up_spec:
  assumes w: "C_COUNT_WIDTH cfg \<le> 32" and "unat old < 2 ^ C_COUNT_WIDTH cfg" and "unat delta < 2 ^ C_COUNT_WIDTH cfg" and "old \<noteq> 0"
  shows "unat (fst (count_up cfg old delta)) = (if unat old + unat delta < 2 ^ C_COUNT_WIDTH cfg then unat old + unat delta
      else unat old + unat delta - 2 ^ C_COUNT_WIDTH cfg)"
    and "snd (count_up cfg old delta) \<longleftrightarrow> 2 ^ C_COUNT_WIDTH cfg - unat old \<le> unat delta"
proof -
  let ?M = "2 ^ C_COUNT_WIDTH cfg :: nat"
  have "?M dvd 2 ^ 32" using w by (rule le_imp_power_dvd)
  then have "unat (old + delta) mod ?M = (unat old + unat delta) mod ?M" by (simp add: unat_word_ariths mod_mod_cancel)
  also have "\<dots> = (if unat old + unat delta < ?M then unat old + unat delta else unat old + unat delta - ?M)"
    using assms(2,3) by (simp add: mod_if)
  finally show f: "unat (fst (count_up cfg old delta)) = (if unat old + unat delta < ?M then unat old + unat delta else unat old + unat delta - ?M)"
    using assms(4) unat_and_COUNTER(1) [OF w] by (simp add: count_up_def Let_def MAX_COUNT_def)
  show "snd (count_up cfg old delta) \<longleftrightarrow> ?M - unat old \<le> unat delta"
    using f assms(2-4) by (auto simp: count_up_def Let_def word_less_nat_alt split: if_splits)
qed

lemma count_down_spec:
  assumes w: "C_COUNT_WIDTH cfg \<le> 32" and "unat old < 2 ^ C_COUNT_WIDTH cfg" and "unat delta < 2 ^ C_COUNT_WIDTH cfg" and "old \<noteq> MAX_COUNT cfg"
  shows "unat (fst (count_down cfg old delta)) = (if unat delta \<le> unat old then unat old - unat delta
      else unat old + 2 ^ C_COUNT_WIDTH cfg - unat delta)"
    and "snd (count_down cfg old delta) \<longleftrightarrow> unat old < unat delta"
proof -
  let ?M = "2 ^ C_COUNT_WIDTH cfg :: nat"
  have d: "?M dvd 2 ^ 32" using w by (rule le_imp_power_dvd)
  have "unat (old - delta) mod ?M = (unat old + ?M - unat delta) mod ?M"
  proof (cases "unat delta \<le> unat old")
    case True
    then have e: "unat old + ?M - unat delta = (unat old - unat delta) + ?M" by simp
    have "unat (old - delta) = unat old - unat delta" using True by (simp add: unat_sub word_le_nat_alt)
    then show ?thesis unfolding e by simp
  next
    case False
    have "unat (old - delta) = unat old + 2 ^ 32 - unat delta" using False by (subst unat_sub_if') simp
    also have "\<dots> = (unat old + ?M - unat delta) + (2 ^ 32 - ?M)"
      using assms(3) w power_increasing [of "C_COUNT_WIDTH cfg" 32 "2 :: nat"] by simp
    also have "\<dots> mod ?M = (unat old + ?M - unat delta) mod ?M"
      using d by (metis dvd_diff_nat dvd_refl mod_add_right_eq dvd_imp_mod_0 add.right_neutral)
    finally show ?thesis .
  qed
  also have "\<dots> = (if unat delta \<le> unat old then unat old - unat delta else unat old + ?M - unat delta)"
    using assms(2,3) by (simp add: mod_if)
  finally show f: "unat (fst (count_down cfg old delta)) = (if unat delta \<le> unat old then unat old - unat delta else unat old + ?M - unat delta)"
    using assms(4) unat_and_COUNTER(1) [OF w] by (simp add: count_down_def Let_def MAX_COUNT_def)
  show "snd (count_down cfg old delta) \<longleftrightarrow> unat old < unat delta"
    using f assms(2-4) by (auto simp: count_down_def Let_def word_less_nat_alt split: if_splits)
qed

end
