(* ===== verification/XPS_Timer_TLM.thy ===== *)
theory XPS_Timer_TLM
  imports XPS_Timer "HOL-Library.Product_Lexorder"
begin

text \<open>
  The TLM wrapper of the timer, \<open>component/tlm2/timer/xilinx/xps_timer\<close>, and the schedule of
  \<open>kernel/tlm2/tlm.hh\<close> it keeps its events in. Times are in the unit of \<open>sc_time\<close>, unbounded, where the
  code has a 64-bit count that it divides and multiplies as \<open>double\<close>: the model is exact as long as
  the times stay below \<open>2 ^ 53\<close> units. \<open>None\<close> as the result of a step means that the code stops the
  simulation. The transport phases, the debug transport and the kernel event are not modelled:
  \<open>ProcessEvents\<close> is given the time of the wake-up and returns the responses and the levels sent on
  the outputs.
\<close>

section \<open>Events and their schedule\<close>

datatype event_type = EV_WAKE_UP | EV_LOAD | EV_CAPTURE_TRIGGER | EV_CPU

fun priority :: "event_type \<Rightarrow> nat" where
  "priority EV_WAKE_UP = 0" | "priority EV_LOAD = 1" | "priority EV_CAPTURE_TRIGGER = 2" | "priority EV_CPU = 3"

lemma priority_inject [simp]: "priority a = priority b \<longleftrightarrow> a = b"
  by (cases a; cases b) simp_all

text \<open>The order of the enumeration is the order of priority.\<close>

instantiation event_type :: linorder
begin

definition less_eq_event_type :: "event_type \<Rightarrow> event_type \<Rightarrow> bool" where "a \<le> b \<longleftrightarrow> priority a \<le> priority b"

definition less_event_type :: "event_type \<Rightarrow> event_type \<Rightarrow> bool" where "a < b \<longleftrightarrow> priority a < priority b"

instance
  by standard (auto simp: less_eq_event_type_def less_event_type_def)

end

datatype command = TLM_READ_COMMAND | TLM_WRITE_COMMAND | TLM_IGNORE_COMMAND

record payload =
  pl_command :: command
  pl_address :: u64
  pl_data :: u32
  pl_data_length :: u32
  pl_byte_enable_length :: u32
  pl_streaming_width :: u32

record event =
  ev_time :: nat
  ev_type :: event_type
  ev_channel :: nat
  ev_payload :: "payload option"

text \<open>Keys are ordered by time, then type, then channel: the lexicographic order of triples.\<close>

definition ev_key :: "event \<Rightarrow> nat \<times> event_type \<times> nat" where
  "ev_key e = (ev_time e, ev_type e, ev_channel e)"

definition InitializeCPUEvent :: "payload \<Rightarrow> nat \<Rightarrow> event" where
  "InitializeCPUEvent p time = \<lparr>ev_time = time, ev_type = EV_CPU, ev_channel = 0, ev_payload = Some p\<rparr>"
definition InitializeCaptureTriggerEvent :: "nat \<Rightarrow> nat \<Rightarrow> event" where
  "InitializeCaptureTriggerEvent channel time = \<lparr>ev_time = time, ev_type = EV_CAPTURE_TRIGGER, ev_channel = channel, ev_payload = None\<rparr>"
definition InitializeLoadEvent :: "nat \<Rightarrow> nat \<Rightarrow> event" where
  "InitializeLoadEvent channel time = \<lparr>ev_time = time, ev_type = EV_LOAD, ev_channel = channel, ev_payload = None\<rparr>"
definition InitializeWakeUpEvent :: "nat \<Rightarrow> event" where
  "InitializeWakeUpEvent time = \<lparr>ev_time = time, ev_type = EV_WAKE_UP, ev_channel = 0, ev_payload = None\<rparr>"

lemmas event_inits = InitializeCPUEvent_def InitializeCaptureTriggerEvent_def InitializeLoadEvent_def InitializeWakeUpEvent_def

text \<open>Insertion into the multimap: after the events with the same key.\<close>

fun Notify :: "event \<Rightarrow> event list \<Rightarrow> event list" where
  "Notify e [] = [e]"
| "Notify e (x # xs) = (if ev_key e < ev_key x then e # x # xs else x # Notify e xs)"

fun GetNextEvent :: "nat \<Rightarrow> event list \<Rightarrow> (event \<times> event list) option" where
  "GetNextEvent now [] = None"
| "GetNextEvent now (e # es) = (if ev_time e \<le> now then Some (e, es) else None)"

section \<open>State\<close>

record timer_tlm =
  core :: timer
  cycle_time :: nat
  ready_time_stamp :: nat
  capture_trigger_input :: "bool list"
  interrupt_output :: bool
  generate_output :: "bool list"
  pwm_output :: bool
  last_timer_counter_update_time_stamp :: "nat list"
  last_generate_output_time_stamp :: "nat list"
  tcr0_roll_over :: bool
  tcr1_roll_over :: bool
  schedule :: "event list"

definition timer_tlm_init :: "nat \<Rightarrow> timer_tlm" where
  "timer_tlm_init cycle = \<lparr>core = timer_init, cycle_time = cycle, ready_time_stamp = 0, capture_trigger_input = [False, False],
     interrupt_output = False, generate_output = [False, False], pwm_output = False,
     last_timer_counter_update_time_stamp = [0, 0], last_generate_output_time_stamp = [0, 0],
     tcr0_roll_over = False, tcr1_roll_over = False, schedule = []\<rparr>"

text \<open>The setup resets the timer, and fails without a cycle time.\<close>

definition timer_BeginSetup :: "timer_tlm \<Rightarrow> timer_tlm option" where
  "timer_BeginSetup t = (if cycle_time t = 0 then None else Some (t\<lparr>core := timer_Reset (core t)\<rparr>))"

definition schedule_event :: "event \<Rightarrow> timer_tlm \<Rightarrow> timer_tlm" where
  "schedule_event e t = t\<lparr>schedule := Notify e (schedule t)\<rparr>"

definition AlignToClock :: "nat \<Rightarrow> nat \<Rightarrow> nat" where
  "AlignToClock cycle time = (if time mod cycle = 0 then time else time + (cycle - time mod cycle))"

section \<open>Inputs\<close>

text \<open>An access of the processor and a level on a capture trigger input, at a time and with a delay.\<close>

definition timer_b_transport :: "nat \<Rightarrow> nat \<Rightarrow> payload \<Rightarrow> timer_tlm \<Rightarrow> timer_tlm option" where
  "timer_b_transport now delay p t =
     (if pl_command p = TLM_IGNORE_COMMAND then None
      else Some (schedule_event (InitializeCPUEvent p (AlignToClock (cycle_time t) (now + delay))) t))"

definition capture_trigger_b_transport :: "timer_config \<Rightarrow> nat \<Rightarrow> nat \<Rightarrow> nat \<Rightarrow> bool \<Rightarrow> timer_tlm \<Rightarrow> timer_tlm option" where
  "capture_trigger_b_transport cfg now delay channel level t =
     (if (\<not> C_ONE_TIMER_ONLY cfg \<and> channel < 2) \<or> channel = 0
      then let active = (if channel = 0 then C_TRIG0_ASSERT cfg else C_TRIG1_ASSERT cfg);
               input = capture_trigger_input t ! channel;
               t1 = (if (active \<and> \<not> input \<and> level) \<or> (\<not> active \<and> input \<and> \<not> level)
                     then schedule_event (InitializeCaptureTriggerEvent channel (AlignToClock (cycle_time t) (now + delay))) t
                     else t)
           in Some (t1\<lparr>capture_trigger_input := (capture_trigger_input t1)[channel := level]\<rparr>)
      else None)"

section \<open>Processing the events\<close>

text \<open>The cycles since the last update of a counter.\<close>

definition elapsed_cycles :: "nat \<Rightarrow> nat \<Rightarrow> timer_tlm \<Rightarrow> nat" where
  "elapsed_cycles now channel t = (now - last_timer_counter_update_time_stamp t ! channel) div cycle_time t"

definition RunCounters0 :: "timer_config \<Rightarrow> nat \<Rightarrow> timer_tlm \<Rightarrow> timer_tlm option" where
  "RunCounters0 cfg now t =
     (if GetTCSR0_ENT0 (core t) \<noteq> 0
      then let delta = elapsed_cycles now 0 t in
           if unat (MAX_COUNT cfg) < delta then None
           else let (roll, c) = RunCounter0 cfg (of_nat delta) (core t) in
             Some (t\<lparr>core := c, tcr0_roll_over := roll,
                     last_timer_counter_update_time_stamp := (last_timer_counter_update_time_stamp t)[0 := now]\<rparr>)
      else Some t)"

definition RunCounters1 :: "timer_config \<Rightarrow> nat \<Rightarrow> timer_tlm \<Rightarrow> timer_tlm option" where
  "RunCounters1 cfg now t =
     (if \<not> C_ONE_TIMER_ONLY cfg \<and> GetTCSR1_ENT1 cfg (core t) \<noteq> 0
      then let delta = elapsed_cycles now 1 t in
           if unat (MAX_COUNT cfg) < delta then None
           else let (roll, c) = RunCounter1 cfg (of_nat delta) (core t) in
             Some (t\<lparr>core := c, tcr1_roll_over := roll,
                     last_timer_counter_update_time_stamp := (last_timer_counter_update_time_stamp t)[1 := now]\<rparr>)
      else Some t)"

definition RunCounters :: "timer_config \<Rightarrow> nat \<Rightarrow> timer_tlm \<Rightarrow> timer_tlm option" where
  "RunCounters cfg now t = Option.bind (RunCounters0 cfg now t) (RunCounters1 cfg now)"

definition ProcessLoadEvent :: "timer_config \<Rightarrow> nat \<Rightarrow> timer \<Rightarrow> timer" where
  "ProcessLoadEvent cfg channel c =
     (if channel = 0 then SetTCR0 cfg (GetTLR0 cfg c) c else if channel = 1 then SetTCR1 cfg (GetTLR1 cfg c) c else c)"

definition ProcessCaptureTriggerEvent :: "timer_config \<Rightarrow> nat \<Rightarrow> timer \<Rightarrow> timer" where
  "ProcessCaptureTriggerEvent cfg channel c =
     (if channel = 0 then CaptureTrigger0 cfg c else if channel = 1 then CaptureTrigger1 cfg c else c)"

text \<open>An access of the processor: the response and the word read.\<close>

type_synonym responses = "(tlm_response \<times> u32) list"

definition ProcessCPUEvent :: "timer_config \<Rightarrow> nat \<Rightarrow> payload \<Rightarrow> timer_tlm \<Rightarrow> (timer_tlm \<times> responses) option" where
  "ProcessCPUEvent cfg now p t =
     (let addr = pl_address p; len = pl_data_length p; sw = pl_streaming_width p;
          finish = (\<lambda>c r. Some (t\<lparr>core := c, ready_time_stamp := now + cycle_time t\<rparr>, [r]))
      in if pl_command p \<noteq> TLM_IGNORE_COMMAND \<and> \<not> timer_IsMapped cfg addr len
         then finish (core t) (TLM_ADDRESS_ERROR_RESPONSE, 0)
         else if pl_command p \<noteq> TLM_IGNORE_COMMAND \<and> sw \<noteq> 0 \<and> sw \<noteq> len then None
         else if pl_command p \<noteq> TLM_IGNORE_COMMAND \<and> pl_byte_enable_length p \<noteq> 0 then None
         else if pl_command p \<noteq> TLM_IGNORE_COMMAND \<and> len \<noteq> 4 then finish (core t) (TLM_BURST_ERROR_RESPONSE, 0)
         else case pl_command p of
             TLM_READ_COMMAND \<Rightarrow> finish (core t) (TLM_OK_RESPONSE, timer_Read cfg 4 addr (core t))
           | TLM_WRITE_COMMAND \<Rightarrow> finish (timer_Write cfg 4 addr (pl_data p) (core t)) (TLM_OK_RESPONSE, 0)
           | TLM_IGNORE_COMMAND \<Rightarrow> finish (core t) (TLM_OK_RESPONSE, 0))"

text \<open>One event: an access before the timer is ready for it goes back to the schedule.\<close>

definition process_timer_event :: "timer_config \<Rightarrow> nat \<Rightarrow> event \<Rightarrow> timer_tlm \<Rightarrow> (timer_tlm \<times> responses) option" where
  "process_timer_event cfg now e t =
     (if ev_time e \<noteq> now then None
      else if now mod cycle_time t \<noteq> 0 then None
      else case ev_type e of
          EV_WAKE_UP \<Rightarrow> Some (t, [])
        | EV_LOAD \<Rightarrow> Some (t\<lparr>core := ProcessLoadEvent cfg (ev_channel e) (core t)\<rparr>, [])
        | EV_CAPTURE_TRIGGER \<Rightarrow> Some (t\<lparr>core := ProcessCaptureTriggerEvent cfg (ev_channel e) (core t)\<rparr>, [])
        | EV_CPU \<Rightarrow>
            if ready_time_stamp t \<le> now
            then (case ev_payload e of None \<Rightarrow> None | Some p \<Rightarrow> ProcessCPUEvent cfg now p t)
            else Some (schedule_event (e\<lparr>ev_time := ready_time_stamp t\<rparr>) t, []))"

lemma filter_Notify: "P e \<or> filter P (Notify e es) = filter P es"
  by (induction es) auto

lemma process_timer_event_schedule:
  assumes "process_timer_event cfg now e t = Some (t', rs)"
  shows "filter (\<lambda>e. ev_time e \<le> now) (schedule t') = filter (\<lambda>e. ev_time e \<le> now) (schedule t)"
proof -
  have "filter (\<lambda>e. ev_time e \<le> now) (Notify (e\<lparr>ev_time := ready_time_stamp t\<rparr>) (schedule t)) =
      filter (\<lambda>e. ev_time e \<le> now) (schedule t)" if "now < ready_time_stamp t"
    using filter_Notify [of "\<lambda>e. ev_time e \<le> now" "e\<lparr>ev_time := ready_time_stamp t\<rparr>" "schedule t"] that by auto
  then show ?thesis
    using assms
    by (auto simp: process_timer_event_def ProcessCPUEvent_def Let_def schedule_event_def
        split: if_splits event_type.splits option.splits command.splits)
qed

text \<open>The loop over the due events; each iteration leaves one due event less.\<close>

function process_due :: "timer_config \<Rightarrow> nat \<Rightarrow> timer_tlm \<Rightarrow> (timer_tlm \<times> responses) option" where
  "process_due cfg now t =
     (case GetNextEvent now (schedule t) of
        None \<Rightarrow> Some (t, [])
      | Some (e, es) \<Rightarrow>
          (case process_timer_event cfg now e (t\<lparr>schedule := es\<rparr>) of
             None \<Rightarrow> None
           | Some (t1, r1) \<Rightarrow> map_option (\<lambda>(t2, r2). (t2, r1 @ r2)) (process_due cfg now t1)))"
  by pat_completeness auto
termination
proof (relation "measure (\<lambda>(cfg, now, t). length (filter (\<lambda>e. ev_time e \<le> now) (schedule t)))")
  fix cfg now t p e es q t1 r1
  assume "GetNextEvent now (schedule t) = Some p" "(e, es) = p"
    and q: "process_timer_event cfg now e (t\<lparr>schedule := es\<rparr>) = Some q" "(t1, r1) = q"
  then have "schedule t = e # es" "ev_time e \<le> now" by (cases "schedule t"; force split: if_splits)+
  moreover have "filter (\<lambda>e. ev_time e \<le> now) (schedule t1) = filter (\<lambda>e. ev_time e \<le> now) es"
    using process_timer_event_schedule [of cfg now e "t\<lparr>schedule := es\<rparr>" t1 r1] q by auto
  ultimately show "((cfg, now, t1), (cfg, now, t)) \<in> measure (\<lambda>(cfg, now, t). length (filter (\<lambda>e. ev_time e \<le> now) (schedule t)))"
    by simp
qed simp

declare process_due.simps [simp del]

section \<open>The end of a wake-up\<close>

text \<open>The cycles to the next roll-over, 0 for a counter that holds.\<close>

definition roll_over_cycles0 :: "timer_config \<Rightarrow> timer \<Rightarrow> nat" where
  "roll_over_cycles0 cfg c = unat
     (if GetTCSR0_UDT0 c \<noteq> 0 then if GetTCR0 cfg c \<noteq> MAX_COUNT cfg then GetTCR0 cfg c + 1 else 0
      else if GetTCR0 cfg c \<noteq> 0 then MAX_COUNT cfg - GetTCR0 cfg c + 1 else 0)"

definition roll_over_cycles1 :: "timer_config \<Rightarrow> timer \<Rightarrow> nat" where
  "roll_over_cycles1 cfg c = unat
     (if GetTCSR1_UDT1 cfg c \<noteq> 0 then if GetTCR1 cfg c \<noteq> MAX_COUNT cfg then GetTCR1 cfg c + 1 else 0
      else if GetTCR1 cfg c \<noteq> 0 then MAX_COUNT cfg - GetTCR1 cfg c + 1 else 0)"

text \<open>A running counter: its time stamp, and a wake-up when it rolls over.\<close>

definition notify_roll_over :: "nat \<Rightarrow> nat \<Rightarrow> nat \<Rightarrow> timer_tlm \<Rightarrow> timer_tlm" where
  "notify_roll_over now channel cycles t =
     (let t1 = t\<lparr>last_timer_counter_update_time_stamp := (last_timer_counter_update_time_stamp t)[channel := now]\<rparr>;
          notify_time_stamp = cycle_time t1 * cycles + now
      in if notify_time_stamp \<noteq> now then schedule_event (InitializeWakeUpEvent notify_time_stamp) t1 else t1)"

definition timer_tlm_Update :: "timer_config \<Rightarrow> nat \<Rightarrow> timer_tlm \<Rightarrow> timer_tlm" where
  "timer_tlm_Update cfg now t =
     (let c = timer_Update (core t);
          t = t\<lparr>core := c\<rparr>;
          t = (if GetTCSR0_ENT0 c \<noteq> 0 then notify_roll_over now 0 (roll_over_cycles0 cfg c) t else t);
          t = (if GetTCSR1_ENT1 cfg c \<noteq> 0 then notify_roll_over now 1 (roll_over_cycles1 cfg c) t else t);
          t = (if NeedsLoadingTCR0 c then schedule_event (InitializeLoadEvent 0 (cycle_time t + now)) t else t)
      in if NeedsLoadingTCR1 cfg c then schedule_event (InitializeLoadEvent 1 (cycle_time t + now)) t else t)"

datatype signal = PWM_OUT bool | GENERATE_OUT nat bool | INTERRUPT_OUT bool

definition generate_pwm :: "timer_tlm \<Rightarrow> timer_tlm \<times> signal list" where
  "generate_pwm t =
     (if tcr0_roll_over t \<and> \<not> pwm_output t then (t\<lparr>pwm_output := True\<rparr>, [PWM_OUT True])
      else if tcr1_roll_over t \<and> pwm_output t then (t\<lparr>pwm_output := False\<rparr>, [PWM_OUT False])
      else (t, []))"

text \<open>The end of a pulse is recorded for channel 0 only.\<close>

definition generate_pulse :: "nat \<Rightarrow> nat \<Rightarrow> bool \<Rightarrow> bool \<Rightarrow> timer_tlm \<Rightarrow> timer_tlm \<times> signal list" where
  "generate_pulse now channel active roll t =
     (if roll \<and> generate_output t ! channel \<noteq> active
      then (schedule_event (InitializeWakeUpEvent (now + cycle_time t))
             (t\<lparr>last_generate_output_time_stamp := (last_generate_output_time_stamp t)[channel := now],
                generate_output := (generate_output t)[channel := active]\<rparr>), [GENERATE_OUT channel active])
      else if generate_output t ! channel = active \<and> cycle_time t \<le> now - last_generate_output_time_stamp t ! channel
      then (t\<lparr>last_generate_output_time_stamp :=
                (if channel = 0 then (last_generate_output_time_stamp t)[0 := now] else last_generate_output_time_stamp t),
              generate_output := (generate_output t)[channel := \<not> active]\<rparr>, [GENERATE_OUT channel (\<not> active)])
      else (t, []))"

definition interrupt_level :: "timer_config \<Rightarrow> timer \<Rightarrow> bool" where
  "interrupt_level cfg c \<longleftrightarrow> (GetTCSR0_ENIT0 c \<noteq> 0 \<and> GetTCSR0_T0INT c \<noteq> 0) \<or> (GetTCSR1_ENIT1 cfg c \<noteq> 0 \<and> GetTCSR1_T1INT cfg c \<noteq> 0)"

definition GenerateOutput :: "timer_config \<Rightarrow> nat \<Rightarrow> timer_tlm \<Rightarrow> timer_tlm \<times> signal list" where
  "GenerateOutput cfg now t =
     (let c = core t;
          (t1, out1) =
            (if \<not> C_ONE_TIMER_ONLY cfg \<and> GetTCSR0_MDT0 c = 0 \<and> GetTCSR1_MDT1 cfg c = 0 \<and>
                GetTCSR0_PWMA0 c \<noteq> 0 \<and> GetTCSR1_PWMB0 cfg c \<noteq> 0
             then generate_pwm t
             else let (t0, o0) = (if GetTCSR0_MDT0 c = 0 then generate_pulse now 0 (C_GEN0_ASSERT cfg) (tcr0_roll_over t) t else (t, []));
                      (t1, o1) = (if GetTCSR1_MDT1 cfg c = 0 then generate_pulse now 1 (C_GEN1_ASSERT cfg) (tcr1_roll_over t0) t0 else (t0, []))
                  in (t1, o0 @ o1));
          level = interrupt_level cfg c
      in if interrupt_output t1 \<noteq> level then (t1\<lparr>interrupt_output := level\<rparr>, out1 @ [INTERRUPT_OUT level]) else (t1, out1))"

definition timer_ProcessEvents :: "timer_config \<Rightarrow> nat \<Rightarrow> timer_tlm \<Rightarrow> (timer_tlm \<times> responses \<times> signal list) option" where
  "timer_ProcessEvents cfg now t =
     Option.bind (RunCounters cfg now t) (\<lambda>t1.
     Option.bind (process_due cfg now t1) (\<lambda>(t2, rs).
     let (t3, out) = GenerateOutput cfg now (timer_tlm_Update cfg now t2) in Some (t3, rs, out)))"

section \<open>Counters and roll-overs\<close>

definition timer_width_ok :: "timer_config \<Rightarrow> bool" where
  "timer_width_ok cfg \<longleftrightarrow> 0 < C_COUNT_WIDTH cfg \<and> C_COUNT_WIDTH cfg \<le> 32"

lemma TCR_less:
  assumes "timer_width_ok cfg"
  shows "unat (GetTCR0 cfg c) < 2 ^ C_COUNT_WIDTH cfg" and "unat (GetTCR1 cfg c) < 2 ^ C_COUNT_WIDTH cfg"
  using unat_and_COUNTER(1) [of cfg] assms by (simp_all add: timer_width_ok_def GetTCR0_def GetTCR1_def)

text \<open>The cycles to the roll-over of a counter with a value and a direction.\<close>

definition cycles_left :: "timer_config \<Rightarrow> bool \<Rightarrow> u32 \<Rightarrow> nat" where
  "cycles_left cfg down v = unat
     (if down then if v \<noteq> MAX_COUNT cfg then v + 1 else 0 else if v \<noteq> 0 then MAX_COUNT cfg - v + 1 else 0)"

lemma roll_over_cycles_left:
  "roll_over_cycles0 cfg c = cycles_left cfg (GetTCSR0_UDT0 c \<noteq> 0) (GetTCR0 cfg c)"
  "roll_over_cycles1 cfg c = cycles_left cfg (GetTCSR1_UDT1 cfg c \<noteq> 0) (GetTCR1 cfg c)"
  by (simp_all add: roll_over_cycles0_def roll_over_cycles1_def cycles_left_def)

lemma cycles_left_value:
  assumes w: "timer_width_ok cfg" and v: "unat v < 2 ^ C_COUNT_WIDTH cfg"
  shows "cycles_left cfg down v = (if down then if v \<noteq> MAX_COUNT cfg then unat v + 1 else 0
      else if v \<noteq> 0 then 2 ^ C_COUNT_WIDTH cfg - unat v else 0)"
    and "cycles_left cfg down v < 2 ^ C_COUNT_WIDTH cfg"
proof -
  let ?M = "2 ^ C_COUNT_WIDTH cfg :: nat"
  have m: "unat (MAX_COUNT cfg) = ?M - 1" using unat_and_COUNTER(2) [of cfg] w by (simp add: timer_width_ok_def)
  have M: "?M \<le> 2 ^ 32" "0 < ?M" using w power_increasing [of "C_COUNT_WIDTH cfg" 32 "2 :: nat"] by (simp_all add: timer_width_ok_def)
  have up: "unat (MAX_COUNT cfg - v + 1) = ?M - unat v" if "v \<noteq> 0"
  proof -
    have "0 < unat v" using that by (simp add: unat_gt_0)
    moreover have "unat (MAX_COUNT cfg - v) = ?M - 1 - unat v" using v m by (simp add: unat_sub word_le_nat_alt)
    ultimately show ?thesis using M v by (simp add: unat_word_ariths)
  qed
  have down: "unat (v + 1) = unat v + 1" "unat v + 1 < ?M" if "v \<noteq> MAX_COUNT cfg"
  proof -
    have "unat v \<noteq> ?M - 1" using that m by (metis word_unat_eq_iff)
    then show "unat v + 1 < ?M" using v by simp
    then show "unat (v + 1) = unat v + 1" using M by (simp add: unat_word_ariths)
  qed
  show c: "cycles_left cfg down v = (if down then if v \<noteq> MAX_COUNT cfg then unat v + 1 else 0
      else if v \<noteq> 0 then ?M - unat v else 0)"
    using up down(1) by (simp add: cycles_left_def)
  show "cycles_left cfg down v < ?M" unfolding c using down(2) M by (auto simp: unat_gt_0)
qed

lemma count_rolls_over:
  assumes w: "timer_width_ok cfg" and v: "unat v < 2 ^ C_COUNT_WIDTH cfg" and d: "unat delta < 2 ^ C_COUNT_WIDTH cfg"
  shows "snd (if down then count_down cfg v delta else count_up cfg v delta) \<longleftrightarrow>
    0 < cycles_left cfg down v \<and> cycles_left cfg down v \<le> unat delta"
proof -
  have "C_COUNT_WIDTH cfg \<le> 32" using w by (simp add: timer_width_ok_def)
  note S = count_up_spec(2) [OF this v d] count_down_spec(2) [OF this v d]
  show ?thesis
    using S v unfolding cycles_left_value(1) [OF w v]
    by (cases down; cases "v = 0"; cases "v = MAX_COUNT cfg") (auto simp: count_down_def count_up_def)
qed

lemma RunCounter_roll:
  "fst (RunCounter0 cfg delta c) = (GetTCSR0_ENT0 c \<noteq> 0 \<and>
     snd (if GetTCSR0_UDT0 c \<noteq> 0 then count_down cfg (GetTCR0 cfg c) delta else count_up cfg (GetTCR0 cfg c) delta))"
  "fst (RunCounter1 cfg delta c) = (\<not> C_ONE_TIMER_ONLY cfg \<and> GetTCSR1_ENT1 cfg c \<noteq> 0 \<and>
     snd (if GetTCSR1_UDT1 cfg c \<noteq> 0 then count_down cfg (GetTCR1 cfg c) delta else count_up cfg (GetTCR1 cfg c) delta))"
  by (simp_all add: RunCounter0_def RunCounter1_def Let_def case_prod_beta)

lemma RunCounter_rolls_over:
  assumes "timer_width_ok cfg" and "unat delta < 2 ^ C_COUNT_WIDTH cfg"
  shows "GetTCSR0_ENT0 c \<noteq> 0 \<Longrightarrow> fst (RunCounter0 cfg delta c) \<longleftrightarrow> 0 < roll_over_cycles0 cfg c \<and> roll_over_cycles0 cfg c \<le> unat delta"
    and "\<not> C_ONE_TIMER_ONLY cfg \<Longrightarrow> GetTCSR1_ENT1 cfg c \<noteq> 0 \<Longrightarrow>
      fst (RunCounter1 cfg delta c) \<longleftrightarrow> 0 < roll_over_cycles1 cfg c \<and> roll_over_cycles1 cfg c \<le> unat delta"
  using count_rolls_over [OF assms(1) TCR_less(1) [OF assms(1)] assms(2)] count_rolls_over [OF assms(1) TCR_less(2) [OF assms(1)] assms(2)]
  by (simp_all add: RunCounter_roll roll_over_cycles_left)

section \<open>The invariant of the core\<close>

lemma SetT_INT_spec:
  assumes "timer_wf c"
  shows "timer_wf (SetTCSR0_T0INT c)" "timer_wf (SetTCSR1_T1INT cfg c)"
    "current (SetTCSR0_T0INT c) = current c" "current (SetTCSR1_T1INT cfg c) = current c"
  using assms stage_spec [OF assms] by (simp_all add: SetTCSR0_T0INT_def SetTCSR1_T1INT_def setters_stage)

text \<open>Updates of the statistics and of the roll-over flags change no register.\<close>

lemma reg_words_frame:
  "reg_words r (c\<lparr>roll_over0 := x0\<rparr>) = reg_words r c"
  "reg_words r (c\<lparr>roll_over1 := x1\<rparr>) = reg_words r c"
  "reg_words r (c\<lparr>num_tcr0_roll_over := x2\<rparr>) = reg_words r c"
  "reg_words r (c\<lparr>num_tcr1_roll_over := x3\<rparr>) = reg_words r c"
  "reg_words r (c\<lparr>num_timer0_generate_interrupts := x4\<rparr>) = reg_words r c"
  "reg_words r (c\<lparr>num_timer1_generate_interrupts := x5\<rparr>) = reg_words r c"
  "reg_words r (c\<lparr>num_timer0_generate_interrupt_losses := x6\<rparr>) = reg_words r c"
  "reg_words r (c\<lparr>num_timer1_generate_interrupt_losses := x7\<rparr>) = reg_words r c"
  "reg_words r (c\<lparr>num_timer0_captures := x8\<rparr>) = reg_words r c"
  "reg_words r (c\<lparr>num_timer1_captures := x9\<rparr>) = reg_words r c"
  "reg_words r (c\<lparr>num_timer0_old_capture_losses := x10\<rparr>) = reg_words r c"
  "reg_words r (c\<lparr>num_timer1_old_capture_losses := x11\<rparr>) = reg_words r c"
  "reg_words r (c\<lparr>num_timer0_new_capture_losses := x12\<rparr>) = reg_words r c"
  "reg_words r (c\<lparr>num_timer1_new_capture_losses := x13\<rparr>) = reg_words r c"
  by (cases r; simp)+

lemma statistics_frame:
  "timer_wf (c\<lparr>roll_over0 := x0\<rparr>) = timer_wf c" "current (c\<lparr>roll_over0 := x0\<rparr>) = current c"
  "timer_wf (c\<lparr>roll_over1 := x1\<rparr>) = timer_wf c" "current (c\<lparr>roll_over1 := x1\<rparr>) = current c"
  "timer_wf (c\<lparr>num_tcr0_roll_over := x2\<rparr>) = timer_wf c" "current (c\<lparr>num_tcr0_roll_over := x2\<rparr>) = current c"
  "timer_wf (c\<lparr>num_tcr1_roll_over := x3\<rparr>) = timer_wf c" "current (c\<lparr>num_tcr1_roll_over := x3\<rparr>) = current c"
  "timer_wf (c\<lparr>num_timer0_generate_interrupts := x4\<rparr>) = timer_wf c" "current (c\<lparr>num_timer0_generate_interrupts := x4\<rparr>) = current c"
  "timer_wf (c\<lparr>num_timer1_generate_interrupts := x5\<rparr>) = timer_wf c" "current (c\<lparr>num_timer1_generate_interrupts := x5\<rparr>) = current c"
  "timer_wf (c\<lparr>num_timer0_generate_interrupt_losses := x6\<rparr>) = timer_wf c" "current (c\<lparr>num_timer0_generate_interrupt_losses := x6\<rparr>) = current c"
  "timer_wf (c\<lparr>num_timer1_generate_interrupt_losses := x7\<rparr>) = timer_wf c" "current (c\<lparr>num_timer1_generate_interrupt_losses := x7\<rparr>) = current c"
  "timer_wf (c\<lparr>num_timer0_captures := x8\<rparr>) = timer_wf c" "current (c\<lparr>num_timer0_captures := x8\<rparr>) = current c"
  "timer_wf (c\<lparr>num_timer1_captures := x9\<rparr>) = timer_wf c" "current (c\<lparr>num_timer1_captures := x9\<rparr>) = current c"
  "timer_wf (c\<lparr>num_timer0_old_capture_losses := x10\<rparr>) = timer_wf c" "current (c\<lparr>num_timer0_old_capture_losses := x10\<rparr>) = current c"
  "timer_wf (c\<lparr>num_timer1_old_capture_losses := x11\<rparr>) = timer_wf c" "current (c\<lparr>num_timer1_old_capture_losses := x11\<rparr>) = current c"
  "timer_wf (c\<lparr>num_timer0_new_capture_losses := x12\<rparr>) = timer_wf c" "current (c\<lparr>num_timer0_new_capture_losses := x12\<rparr>) = current c"
  "timer_wf (c\<lparr>num_timer1_new_capture_losses := x13\<rparr>) = timer_wf c" "current (c\<lparr>num_timer1_new_capture_losses := x13\<rparr>) = current c"
  by (simp_all add: timer_wf_def current_def fun_eq_iff reg_read_def reg_words_frame)

lemma tcr_length: "timer_wf c \<Longrightarrow> length (tcr0 c) = 2" "timer_wf c \<Longrightarrow> length (tcr1 c) = 2"
  unfolding timer_wf_def by (metis reg_words.simps(3), metis reg_words.simps(6))

lemma tcr_update:
  "length ws = 2 \<Longrightarrow> timer_wf c \<Longrightarrow> timer_wf (c\<lparr>tcr0 := ws\<rparr>)" "length ws = 2 \<Longrightarrow> timer_wf c \<Longrightarrow> timer_wf (c\<lparr>tcr1 := ws\<rparr>)"
  "r \<noteq> R_TCR0 \<Longrightarrow> current (c\<lparr>tcr0 := ws\<rparr>) r = current c r" "r \<noteq> R_TCR1 \<Longrightarrow> current (c\<lparr>tcr1 := ws\<rparr>) r = current c r"
proof -
  have w: "reg_words q (c\<lparr>tcr0 := ws\<rparr>) = (if q = R_TCR0 then ws else reg_words q c)"
    "reg_words q (c\<lparr>tcr1 := ws\<rparr>) = (if q = R_TCR1 then ws else reg_words q c)" for q
    by (cases q; simp)+
  show "length ws = 2 \<Longrightarrow> timer_wf c \<Longrightarrow> timer_wf (c\<lparr>tcr0 := ws\<rparr>)" "length ws = 2 \<Longrightarrow> timer_wf c \<Longrightarrow> timer_wf (c\<lparr>tcr1 := ws\<rparr>)"
    by (auto simp: timer_wf_def w)
  show "r \<noteq> R_TCR0 \<Longrightarrow> current (c\<lparr>tcr0 := ws\<rparr>) r = current c r" "r \<noteq> R_TCR1 \<Longrightarrow> current (c\<lparr>tcr1 := ws\<rparr>) r = current c r"
    by (simp_all add: current_def w reg_read_def)
qed

lemma RunCounter_spec:
  assumes "timer_wf c"
  shows "timer_wf (snd (RunCounter0 cfg d c))" "timer_wf (snd (RunCounter1 cfg d c))"
    "r \<noteq> R_TCR0 \<Longrightarrow> current (snd (RunCounter0 cfg d c)) r = current c r"
    "r \<noteq> R_TCR1 \<Longrightarrow> current (snd (RunCounter1 cfg d c)) r = current c r"
  using assms
  by (simp_all add: RunCounter0_def RunCounter1_def Let_def case_prod_beta statistics_frame tcr_update tcr_length SetT_INT_spec)

lemma CaptureTrigger_spec:
  assumes "timer_wf c"
  shows "timer_wf (CaptureTrigger0 cfg c)" "timer_wf (CaptureTrigger1 cfg c)"
    "current (CaptureTrigger0 cfg c) = current c" "current (CaptureTrigger1 cfg c) = current c"
  using assms
  by (simp_all add: CaptureTrigger0_def CaptureTrigger1_def Let_def statistics_frame setters_spec SetT_INT_spec)

lemma Process_core_spec:
  assumes "timer_wf c"
  shows "timer_wf (ProcessLoadEvent cfg ch c)" "timer_wf (ProcessCaptureTriggerEvent cfg ch c)"
    "current (ProcessLoadEvent cfg ch c) = current c" "current (ProcessCaptureTriggerEvent cfg ch c) = current c"
  using assms by (simp_all add: ProcessLoadEvent_def ProcessCaptureTriggerEvent_def setters_spec CaptureTrigger_spec)

section \<open>The schedule\<close>

lemma set_Notify [simp]: "set (Notify e es) = insert e (set es)"
  by (induction es) auto

lemma sorted_Notify:
  "sorted (map ev_key es) \<Longrightarrow> sorted (map ev_key (Notify e es))"
  by (induction es) (auto simp: not_less intro: less_imp_le order.trans)

text \<open>A payload the timer answers: it is mapped and asks for no streaming or byte enables, or it is not mapped.\<close>

definition supported :: "timer_config \<Rightarrow> payload \<Rightarrow> bool" where
  "supported cfg p \<longleftrightarrow> \<not> timer_IsMapped cfg (pl_address p) (pl_data_length p) \<or>
     ((pl_streaming_width p = 0 \<or> pl_streaming_width p = pl_data_length p) \<and> pl_byte_enable_length p = 0)"

definition event_ok :: "nat \<Rightarrow> nat \<Rightarrow> event \<Rightarrow> bool" where
  "event_ok cycle now e \<longleftrightarrow> now \<le> ev_time e \<and> ev_time e mod cycle = 0 \<and> (ev_type e = EV_CPU \<longrightarrow> ev_payload e \<noteq> None)"

definition event_supported :: "timer_config \<Rightarrow> event \<Rightarrow> bool" where
  "event_supported cfg e \<longleftrightarrow> (\<forall>p. ev_type e = EV_CPU \<longrightarrow> ev_payload e = Some p \<longrightarrow> supported cfg p)"

definition schedule_ok :: "nat \<Rightarrow> timer_tlm \<Rightarrow> bool" where
  "schedule_ok now t \<longleftrightarrow> 0 < cycle_time t \<and> timer_wf (core t) \<and> ready_time_stamp t mod cycle_time t = 0 \<and>
     sorted (map ev_key (schedule t)) \<and> (\<forall>e \<in> set (schedule t). event_ok (cycle_time t) now e)"

lemma ProcessCPUEvent_spec:
  assumes "ProcessCPUEvent cfg now p t = Some (t', rs)" and "timer_wf (core t)"
  shows "t' = t\<lparr>core := core t', ready_time_stamp := now + cycle_time t\<rparr>" and "timer_wf (core t')" and "current (core t') = current (core t)"
  using assms by (auto simp: ProcessCPUEvent_def Let_def timer_Write_spec split: if_splits command.splits)

lemma ProcessCPUEvent_supported:
  "supported cfg p \<Longrightarrow> ProcessCPUEvent cfg now p t \<noteq> None"
  by (auto simp: ProcessCPUEvent_def supported_def Let_def split: command.splits)

lemma tlm_update_same [simp]:
  "t\<lparr>core := core t\<rparr> = t" "t\<lparr>core := c, ready_time_stamp := ready_time_stamp t\<rparr> = t\<lparr>core := c\<rparr>" for t :: timer_tlm
  by (cases t; simp)+

lemma process_timer_event_spec:
  assumes "process_timer_event cfg now e t = Some (t', rs)" and "schedule_ok now t" and "event_ok (cycle_time t) now e"
  shows "schedule_ok now t'" and "current (core t') = current (core t)" and "cycle_time t' = cycle_time t"
    and "t' = t\<lparr>core := core t', ready_time_stamp := ready_time_stamp t', schedule := schedule t'\<rparr>"
    and "\<forall>x \<in> set (schedule t'). x \<in> set (schedule t) \<or> now < ev_time x" and "\<forall>x \<in> set (schedule t). x \<in> set (schedule t')"
proof -
  have e: "ev_time e = now" "now mod cycle_time t = 0" using assms(1) by (auto simp: process_timer_event_def split: if_splits)
  have wf: "timer_wf (core t)" using assms(2) by (simp add: schedule_ok_def)
  consider (now) r where "t' = t\<lparr>core := core t', ready_time_stamp := r\<rparr>" "timer_wf (core t')"
      "current (core t') = current (core t)" "r mod cycle_time t = 0"
    | (later) "now < ready_time_stamp t" "t' = schedule_event (e\<lparr>ev_time := ready_time_stamp t\<rparr>) t"
  proof (cases "ev_type e")
    case EV_CPU
    show ?thesis
    proof (cases "ready_time_stamp t \<le> now")
      case True
      with EV_CPU assms(1) e obtain p where p: "ProcessCPUEvent cfg now p t = Some (t', rs)"
        by (auto simp: process_timer_event_def split: option.splits)
      have "(now + cycle_time t) mod cycle_time t = 0" using e by simp
      then show ?thesis using ProcessCPUEvent_spec [OF p wf] by (intro now)
    next
      case False
      with EV_CPU assms(1) e have "t' = schedule_event (e\<lparr>ev_time := ready_time_stamp t\<rparr>) t"
        by (simp add: process_timer_event_def)
      with False show ?thesis by (intro later) simp_all
    qed
  next
    case EV_WAKE_UP
    with assms(1) e have "t' = t" by (simp add: process_timer_event_def)
    then show ?thesis using wf assms(2) by (intro now [of "ready_time_stamp t"]) (simp_all add: schedule_ok_def)
  next
    case EV_LOAD
    with assms(1) e have "t' = t\<lparr>core := ProcessLoadEvent cfg (ev_channel e) (core t)\<rparr>" by (simp add: process_timer_event_def)
    then show ?thesis
      using wf assms(2) by (intro now [of "ready_time_stamp t"]) (simp_all add: schedule_ok_def Process_core_spec)
  next
    case EV_CAPTURE_TRIGGER
    with assms(1) e have "t' = t\<lparr>core := ProcessCaptureTriggerEvent cfg (ev_channel e) (core t)\<rparr>" by (simp add: process_timer_event_def)
    then show ?thesis
      using wf assms(2) by (intro now [of "ready_time_stamp t"]) (simp_all add: schedule_ok_def Process_core_spec)
  qed
  then have "schedule_ok now t' \<and> current (core t') = current (core t) \<and> cycle_time t' = cycle_time t \<and>
    t' = t\<lparr>core := core t', ready_time_stamp := ready_time_stamp t', schedule := schedule t'\<rparr> \<and>
    (\<forall>x \<in> set (schedule t'). x \<in> set (schedule t) \<or> now < ev_time x) \<and> (\<forall>x \<in> set (schedule t). x \<in> set (schedule t'))"
  proof cases
    case now
    obtain c r where t': "t' = t\<lparr>core := c, ready_time_stamp := r\<rparr>" "timer_wf c" "current c = current (core t)" "r mod cycle_time t = 0"
      by (rule that [OF now])
    with assms(2) show ?thesis unfolding t'(1) by (simp add: schedule_ok_def)
  next
    case later
    with assms(2,3) show ?thesis by (auto simp: schedule_event_def schedule_ok_def sorted_Notify event_ok_def)
  qed
  then show "schedule_ok now t'" "current (core t') = current (core t)" "cycle_time t' = cycle_time t"
    "t' = t\<lparr>core := core t', ready_time_stamp := ready_time_stamp t', schedule := schedule t'\<rparr>"
    "\<forall>x \<in> set (schedule t'). x \<in> set (schedule t) \<or> now < ev_time x" "\<forall>x \<in> set (schedule t). x \<in> set (schedule t')"
    by blast+
qed

lemma GetNextEvent_Some: "GetNextEvent now es = Some (e, r) \<longleftrightarrow> es = e # r \<and> ev_time e \<le> now"
  by (cases es) auto

lemma key_time: "ev_key a \<le> ev_key b \<Longrightarrow> ev_time a \<le> ev_time b"
  by (auto simp: ev_key_def less_eq_prod_def)

lemma GetNextEvent_None:
  assumes "sorted (map ev_key es)" and "GetNextEvent now es = None" and "e \<in> set es"
  shows "now < ev_time e"
proof (cases es)
  case (Cons x xs)
  with assms have "now < ev_time x" "ev_key x \<le> ev_key e" by (auto split: if_splits)
  with key_time [of x e] show ?thesis by simp
qed (use assms in simp)

text \<open>The first due event, taken from the schedule.\<close>

lemma process_due_step:
  assumes "schedule_ok now t" and "GetNextEvent now (schedule t) = Some (e, es)"
  shows "schedule_ok now (t\<lparr>schedule := es\<rparr>)" and "event_ok (cycle_time t) now e" and "ev_time e = now"
    and "e \<in> set (schedule t)" and "\<forall>x \<in> set es. x \<in> set (schedule t)"
  using assms by (auto simp: GetNextEvent_Some schedule_ok_def event_ok_def)

lemma process_due_spec:
  assumes "process_due cfg now t = Some (t', rs)" and "schedule_ok now t"
  shows "schedule_ok now t' \<and> (\<forall>e \<in> set (schedule t'). now < ev_time e) \<and> current (core t') = current (core t) \<and>
    t' = t\<lparr>core := core t', ready_time_stamp := ready_time_stamp t', schedule := schedule t'\<rparr>"
  using assms
proof (induction cfg now t arbitrary: t' rs rule: process_due.induct)
  case (1 cfg now t)
  show ?case
  proof (cases "GetNextEvent now (schedule t)")
    case None
    then have "t' = t" using 1(2) by (subst (asm) process_due.simps) simp
    with None 1(3) GetNextEvent_None [OF _ None] show ?thesis by (cases t) (auto simp: schedule_ok_def)
  next
    case (Some q)
    then obtain e es where q: "GetNextEvent now (schedule t) = Some (e, es)" by (cases q) auto
    note S = process_due_step [OF 1(3) q]
    from 1(2) q obtain t1 r1 r2 where p: "process_timer_event cfg now e (t\<lparr>schedule := es\<rparr>) = Some (t1, r1)"
      and d: "process_due cfg now t1 = Some (t', r2)"
      by (subst (asm) process_due.simps) (auto split: option.splits)
    have "event_ok (cycle_time (t\<lparr>schedule := es\<rparr>)) now e" using S(2) by simp
    note P = process_timer_event_spec [OF p S(1) this]
    have IH: "schedule_ok now t' \<and> (\<forall>e \<in> set (schedule t'). now < ev_time e) \<and> current (core t') = current (core t1) \<and>
        t' = t1\<lparr>core := core t', ready_time_stamp := ready_time_stamp t', schedule := schedule t'\<rparr>"
      by (rule 1(1) [OF q refl p refl d P(1)])
    have "t1 = t\<lparr>core := core t1, ready_time_stamp := ready_time_stamp t1, schedule := schedule t1\<rparr>"
      by (rule trans [OF P(4)]) simp
    then obtain c1 ra s1 where t1: "t1 = t\<lparr>core := c1, ready_time_stamp := ra, schedule := s1\<rparr>" by (rule that)
    from IH P(2) show ?thesis unfolding t1 by simp
  qed
qed

lemma process_due_returns:
  assumes "schedule_ok now t" and "now mod cycle_time t = 0"
    and "\<forall>e \<in> set (schedule t). ev_time e = now \<longrightarrow> event_supported cfg e"
  shows "process_due cfg now t \<noteq> None"
  using assms
proof (induction cfg now t rule: process_due.induct)
  case (1 cfg now t)
  show ?case
  proof (cases "GetNextEvent now (schedule t)")
    case None
    then show ?thesis by (subst process_due.simps) simp
  next
    case (Some q)
    then obtain e es where q: "GetNextEvent now (schedule t) = Some (e, es)" by (cases q) auto
    note S = process_due_step [OF 1(2) q]
    have "event_supported cfg e" using 1(4) S by blast
    then have "process_timer_event cfg now e (t\<lparr>schedule := es\<rparr>) \<noteq> None"
      using S(2,3) 1(3) ProcessCPUEvent_supported
      by (auto simp: process_timer_event_def event_ok_def event_supported_def split: event_type.splits)
    then obtain t1 r1 where p: "process_timer_event cfg now e (t\<lparr>schedule := es\<rparr>) = Some (t1, r1)" by auto
    have "event_ok (cycle_time (t\<lparr>schedule := es\<rparr>)) now e" using S(2) by simp
    note P = process_timer_event_spec [OF p S(1) this]
    have c: "cycle_time t1 = cycle_time t" using P(3) by simp
    have "process_due cfg now t1 \<noteq> None"
    proof (rule 1(1) [OF q refl p refl P(1)])
      show "now mod cycle_time t1 = 0" using 1(3) c by simp
      show "\<forall>e \<in> set (schedule t1). ev_time e = now \<longrightarrow> event_supported cfg e" using P(5) S(5) 1(4) by fastforce
    qed
    then show ?thesis by (subst process_due.simps) (auto simp: q p)
  qed
qed

section \<open>The end of a wake-up\<close>

definition arrays_ok :: "timer_tlm \<Rightarrow> bool" where
  "arrays_ok t \<longleftrightarrow> length (last_timer_counter_update_time_stamp t) = 2 \<and> length (last_generate_output_time_stamp t) = 2 \<and>
     length (generate_output t) = 2 \<and> length (capture_trigger_input t) = 2"

lemma schedule_event_ok:
  "schedule_ok now t \<Longrightarrow> event_ok (cycle_time t) now e \<Longrightarrow> schedule_ok now (schedule_event e t)"
  by (simp add: schedule_ok_def schedule_event_def sorted_Notify)

lemma schedule_event_frame [simp]:
  "core (schedule_event e t) = core t" "cycle_time (schedule_event e t) = cycle_time t"
  "last_timer_counter_update_time_stamp (schedule_event e t) = last_timer_counter_update_time_stamp t"
  "set (schedule (schedule_event e t)) = insert e (set (schedule t))" "arrays_ok (schedule_event e t) = arrays_ok t"
  "tcr0_roll_over (schedule_event e t) = tcr0_roll_over t" "tcr1_roll_over (schedule_event e t) = tcr1_roll_over t"
  "generate_output (schedule_event e t) = generate_output t" "interrupt_output (schedule_event e t) = interrupt_output t"
  "pwm_output (schedule_event e t) = pwm_output t"
  "last_generate_output_time_stamp (schedule_event e t) = last_generate_output_time_stamp t"
  by (simp_all add: schedule_event_def arrays_ok_def)

lemma inits_ok:
  "event_ok cycle now (InitializeWakeUpEvent time) = (now \<le> time \<and> time mod cycle = 0)"
  "event_ok cycle now (InitializeLoadEvent ch time) = (now \<le> time \<and> time mod cycle = 0)"
  "event_ok cycle now (InitializeCaptureTriggerEvent ch time) = (now \<le> time \<and> time mod cycle = 0)"
  "event_ok cycle now (InitializeCPUEvent p time) = (now \<le> time \<and> time mod cycle = 0)"
  "ev_time (InitializeWakeUpEvent time) = time" "ev_time (InitializeLoadEvent ch time) = time"
  "ev_time (InitializeCaptureTriggerEvent ch time) = time" "ev_time (InitializeCPUEvent p time) = time"
  by (simp_all add: event_ok_def event_inits)

definition later :: "nat \<Rightarrow> timer_tlm \<Rightarrow> bool" where
  "later now t \<longleftrightarrow> (\<forall>e \<in> set (schedule t). now < ev_time e)"

text \<open>What every step at the end of a wake-up keeps.\<close>

definition ending :: "nat \<Rightarrow> timer_tlm \<Rightarrow> timer_tlm \<Rightarrow> bool" where
  "ending now t t' \<longleftrightarrow> schedule_ok now t' \<and> arrays_ok t' \<and> later now t' \<and> cycle_time t' = cycle_time t \<and> core t' = core t \<and>
     set (schedule t) \<subseteq> set (schedule t') \<and> tcr0_roll_over t' = tcr0_roll_over t \<and> tcr1_roll_over t' = tcr1_roll_over t"

lemma ending_refl: "schedule_ok now t \<Longrightarrow> arrays_ok t \<Longrightarrow> later now t \<Longrightarrow> ending now t t"
  by (simp add: ending_def)

lemma ending_trans: "ending now t u \<Longrightarrow> ending now u v \<Longrightarrow> ending now t v"
  by (auto simp: ending_def)

lemma ending_schedule:
  assumes "ending now t u" and "now < ev_time e" and "event_ok (cycle_time u) now e"
  shows "ending now t (schedule_event e u)"
  using assms schedule_event_ok [of now u e] by (auto simp: ending_def later_def)

lemma notify_roll_over_spec:
  assumes "ending now t u" and "now mod cycle_time u = 0" and "ch < 2"
  shows "ending now t (notify_roll_over now ch n u)"
    and "last_timer_counter_update_time_stamp (notify_roll_over now ch n u) = (last_timer_counter_update_time_stamp u)[ch := now]"
    and "n \<noteq> 0 \<Longrightarrow> InitializeWakeUpEvent (cycle_time u * n + now) \<in> set (schedule (notify_roll_over now ch n u))"
proof -
  let ?u = "u\<lparr>last_timer_counter_update_time_stamp := (last_timer_counter_update_time_stamp u)[ch := now]\<rparr>"
  have c: "0 < cycle_time u" using assms(1) by (simp add: ending_def schedule_ok_def)
  have e: "ending now t ?u" using assms(1) by (auto simp: ending_def schedule_ok_def arrays_ok_def later_def)
  have n: "notify_roll_over now ch n u = (if n = 0 then ?u else schedule_event (InitializeWakeUpEvent (cycle_time u * n + now)) ?u)"
    using c by (auto simp: notify_roll_over_def Let_def)
  show "ending now t (notify_roll_over now ch n u)"
    unfolding n using e c assms(2) by (auto intro!: ending_schedule simp: inits_ok mod_add_eq)
  show "last_timer_counter_update_time_stamp (notify_roll_over now ch n u) = (last_timer_counter_update_time_stamp u)[ch := now]"
    and "n \<noteq> 0 \<Longrightarrow> InitializeWakeUpEvent (cycle_time u * n + now) \<in> set (schedule (notify_roll_over now ch n u))"
    unfolding n by simp_all
qed

lemma timer_tlm_Update_spec:
  fixes cfg :: timer_config
  assumes "schedule_ok now t" and "arrays_ok t" and "later now t" and "now mod cycle_time t = 0"
  defines "t' \<equiv> timer_tlm_Update cfg now t"
  shows "ending now (t\<lparr>core := timer_Update (core t)\<rparr>) t'"
    and "GetTCSR0_ENT0 (core t') \<noteq> 0 \<Longrightarrow> last_timer_counter_update_time_stamp t' ! 0 = now \<and>
      (roll_over_cycles0 cfg (core t') \<noteq> 0 \<longrightarrow> InitializeWakeUpEvent (cycle_time t * roll_over_cycles0 cfg (core t') + now) \<in> set (schedule t'))"
    and "GetTCSR1_ENT1 cfg (core t') \<noteq> 0 \<Longrightarrow> last_timer_counter_update_time_stamp t' ! 1 = now \<and>
      (roll_over_cycles1 cfg (core t') \<noteq> 0 \<longrightarrow> InitializeWakeUpEvent (cycle_time t * roll_over_cycles1 cfg (core t') + now) \<in> set (schedule t'))"
    and "i < 2 \<Longrightarrow> last_timer_counter_update_time_stamp t' ! i \<in> {last_timer_counter_update_time_stamp t ! i, now}"
proof -
  define c where "c = timer_Update (core t)"
  define t0 where "t0 = t\<lparr>core := c\<rparr>"
  define t1 where "t1 = (if GetTCSR0_ENT0 c \<noteq> 0 then notify_roll_over now 0 (roll_over_cycles0 cfg c) t0 else t0)"
  define t2 where "t2 = (if GetTCSR1_ENT1 cfg c \<noteq> 0 then notify_roll_over now 1 (roll_over_cycles1 cfg c) t1 else t1)"
  define t3 where "t3 = (if NeedsLoadingTCR0 c then schedule_event (InitializeLoadEvent 0 (cycle_time t2 + now)) t2 else t2)"
  have t': "t' = (if NeedsLoadingTCR1 cfg c then schedule_event (InitializeLoadEvent 1 (cycle_time t3 + now)) t3 else t3)"
    by (simp add: t'_def timer_tlm_Update_def t3_def t2_def t1_def t0_def c_def Let_def)
  have "timer_wf c" using assms(1) timer_Update_spec(1) by (simp add: c_def schedule_ok_def)
  then have e0: "ending now t0 t0" using assms(1-3) by (intro ending_refl) (simp_all add: t0_def schedule_ok_def arrays_ok_def later_def)
  note N0 = notify_roll_over_spec [OF e0, of 0]
  have e1: "ending now t0 t1" using e0 N0(1) assms(4) by (simp add: t1_def t0_def)
  have c1: "cycle_time t1 = cycle_time t" "core t1 = c" using e1 by (simp_all add: ending_def t0_def)
  note N1 = notify_roll_over_spec [OF e1, of 1]
  have e2: "ending now t0 t2" using e1 N1(1) assms(4) c1 by (simp add: t2_def)
  have c2: "cycle_time t2 = cycle_time t" "0 < cycle_time t" using e2 assms(1) by (simp_all add: ending_def t0_def schedule_ok_def)
  have e3: "ending now t0 t3"
    using e2 assms(4) c2 by (auto simp: t3_def inits_ok intro!: ending_schedule)
  have c3: "cycle_time t3 = cycle_time t" using e3 by (simp add: ending_def t0_def)
  show e4: "ending now (t\<lparr>core := timer_Update (core t)\<rparr>) t'"
    using e3 assms(4) c2(2) c3 by (auto simp: t' inits_ok t0_def c_def intro!: ending_schedule)
  have core: "core t' = c" using e4 by (simp add: ending_def c_def)
  have l: "last_timer_counter_update_time_stamp t' = last_timer_counter_update_time_stamp t2" by (simp add: t' t3_def)
  have s: "set (schedule t2) \<subseteq> set (schedule t')" by (auto simp: t' t3_def)
  have len: "length (last_timer_counter_update_time_stamp t) = 2" using assms(2) by (simp add: arrays_ok_def)
  have l1: "last_timer_counter_update_time_stamp t1 =
      (if GetTCSR0_ENT0 c \<noteq> 0 then (last_timer_counter_update_time_stamp t)[0 := now] else last_timer_counter_update_time_stamp t)"
    using N0(2) assms(4) by (simp add: t1_def t0_def)
  have l2: "last_timer_counter_update_time_stamp t2 =
      (if GetTCSR1_ENT1 cfg c \<noteq> 0 then (last_timer_counter_update_time_stamp t1)[1 := now] else last_timer_counter_update_time_stamp t1)"
    using N1(2) assms(4) c1 by (simp add: t2_def)
  show "last_timer_counter_update_time_stamp t' ! i \<in> {last_timer_counter_update_time_stamp t ! i, now}" if "i < 2"
    using that len by (auto simp: l l2 l1 nth_list_update)
  have s1: "set (schedule t1) \<subseteq> set (schedule t2)" using N1(1) e1 assms(4) c1
    by (auto simp: t2_def notify_roll_over_def Let_def schedule_event_def)
  show "last_timer_counter_update_time_stamp t' ! 0 = now \<and> (roll_over_cycles0 cfg (core t') \<noteq> 0 \<longrightarrow>
      InitializeWakeUpEvent (cycle_time t * roll_over_cycles0 cfg (core t') + now) \<in> set (schedule t'))"
    if "GetTCSR0_ENT0 (core t') \<noteq> 0"
  proof -
    have "roll_over_cycles0 cfg c \<noteq> 0 \<longrightarrow> InitializeWakeUpEvent (cycle_time t * roll_over_cycles0 cfg c + now) \<in> set (schedule t1)"
      using N0(3) assms(4) that by (simp add: t1_def t0_def core)
    then show ?thesis using that len s s1 by (auto simp: l l2 l1 core)
  qed
  show "last_timer_counter_update_time_stamp t' ! 1 = now \<and> (roll_over_cycles1 cfg (core t') \<noteq> 0 \<longrightarrow>
      InitializeWakeUpEvent (cycle_time t * roll_over_cycles1 cfg (core t') + now) \<in> set (schedule t'))"
    if "GetTCSR1_ENT1 cfg (core t') \<noteq> 0"
  proof -
    have "roll_over_cycles1 cfg c \<noteq> 0 \<longrightarrow> InitializeWakeUpEvent (cycle_time t * roll_over_cycles1 cfg c + now) \<in> set (schedule t2)"
      using N1(3) [of "roll_over_cycles1 cfg c"] assms(4) that c1 by (simp add: t2_def core)
    then show ?thesis using that len s by (auto simp: l l2 l1 core)
  qed
qed

lemma generate_pulse_spec:
  assumes "ending now t u" and "now mod cycle_time u = 0" and "ch < 2"
  shows "ending now t (fst (generate_pulse now ch active roll u))"
    and "last_timer_counter_update_time_stamp (fst (generate_pulse now ch active roll u)) = last_timer_counter_update_time_stamp u"
    and "interrupt_output (fst (generate_pulse now ch active roll u)) = interrupt_output u"
proof -
  have c: "0 < cycle_time u" using assms(1) by (simp add: ending_def schedule_ok_def)
  show "ending now t (fst (generate_pulse now ch active roll u))"
    unfolding generate_pulse_def using assms c
    by (auto simp: inits_ok intro!: ending_schedule) (auto simp: ending_def schedule_ok_def arrays_ok_def later_def)
  show "last_timer_counter_update_time_stamp (fst (generate_pulse now ch active roll u)) = last_timer_counter_update_time_stamp u"
    "interrupt_output (fst (generate_pulse now ch active roll u)) = interrupt_output u"
    by (simp_all add: generate_pulse_def)
qed

lemma generate_pwm_spec:
  assumes "ending now t u"
  shows "ending now t (fst (generate_pwm u))"
    and "last_timer_counter_update_time_stamp (fst (generate_pwm u)) = last_timer_counter_update_time_stamp u"
    and "interrupt_output (fst (generate_pwm u)) = interrupt_output u"
  using assms by (auto simp: generate_pwm_def ending_def schedule_ok_def arrays_ok_def later_def)

lemma GenerateOutput_spec:
  assumes "ending now t u" and "now mod cycle_time u = 0" and "GenerateOutput cfg now u = (u', out)"
  shows "ending now t u'" and "last_timer_counter_update_time_stamp u' = last_timer_counter_update_time_stamp u"
    and "interrupt_output u' = interrupt_level cfg (core u)"
    and "INTERRUPT_OUT l \<in> set out \<longleftrightarrow> interrupt_output u \<noteq> l \<and> interrupt_level cfg (core u) = l"
proof -
  define p0 where "p0 = (if GetTCSR0_MDT0 (core u) = 0 then generate_pulse now 0 (C_GEN0_ASSERT cfg) (tcr0_roll_over u) u else (u, []))"
  define p1 where "p1 = (if GetTCSR1_MDT1 cfg (core u) = 0
      then generate_pulse now 1 (C_GEN1_ASSERT cfg) (tcr1_roll_over (fst p0)) (fst p0) else (fst p0, []))"
  define p where "p = (if \<not> C_ONE_TIMER_ONLY cfg \<and> GetTCSR0_MDT0 (core u) = 0 \<and> GetTCSR1_MDT1 cfg (core u) = 0 \<and>
      GetTCSR0_PWMA0 (core u) \<noteq> 0 \<and> GetTCSR1_PWMB0 cfg (core u) \<noteq> 0 then generate_pwm u else (fst p1, snd p0 @ snd p1))"
  have g: "(u', out) = (if interrupt_output (fst p) \<noteq> interrupt_level cfg (core u)
      then ((fst p)\<lparr>interrupt_output := interrupt_level cfg (core u)\<rparr>, snd p @ [INTERRUPT_OUT (interrupt_level cfg (core u))])
      else p)"
    unfolding assms(3) [symmetric] GenerateOutput_def p_def p1_def p0_def Let_def case_prod_beta by simp
  note P0 = generate_pulse_spec [OF assms(1,2), of 0] and W = generate_pwm_spec [OF assms(1)]
  have p0: "ending now t (fst p0) \<and> last_timer_counter_update_time_stamp (fst p0) = last_timer_counter_update_time_stamp u \<and>
      interrupt_output (fst p0) = interrupt_output u"
    using P0 assms(1) by (simp add: p0_def)
  have "now mod cycle_time (fst p0) = 0" using p0 assms(1,2) by (simp add: ending_def)
  note P1 = generate_pulse_spec [OF conjunct1 [OF p0] this, of 1]
  have p: "ending now t (fst p) \<and> last_timer_counter_update_time_stamp (fst p) = last_timer_counter_update_time_stamp u \<and>
      interrupt_output (fst p) = interrupt_output u"
    using P1 p0 W by (simp add: p_def p1_def)
  have out: "INTERRUPT_OUT l \<notin> set (snd p)"
    by (auto simp: p_def p1_def p0_def generate_pwm_def generate_pulse_def)
  have e: "ending now t (v\<lparr>interrupt_output := b\<rparr>)" if "ending now t v" for v b
    using that by (auto simp: ending_def schedule_ok_def arrays_ok_def later_def)
  show "ending now t u'" "last_timer_counter_update_time_stamp u' = last_timer_counter_update_time_stamp u"
    "interrupt_output u' = interrupt_level cfg (core u)"
    "INTERRUPT_OUT l \<in> set out \<longleftrightarrow> interrupt_output u \<noteq> l \<and> interrupt_level cfg (core u) = l"
    using g p out e [of "fst p"] by (auto simp: prod_eq_iff split: if_splits)
qed

section \<open>A wake-up\<close>

lemma RunCounters_spec:
  assumes "RunCounters cfg now t = Some t'" and "schedule_ok now t" and "arrays_ok t"
  shows "schedule_ok now t'" and "arrays_ok t'" and "cycle_time t' = cycle_time t" and "interrupt_output t' = interrupt_output t"
    and "schedule t' = schedule t" and "i < 2 \<Longrightarrow> last_timer_counter_update_time_stamp t' ! i \<in> {last_timer_counter_update_time_stamp t ! i, now}"
proof -
  obtain u where u: "RunCounters0 cfg now t = Some u" "RunCounters1 cfg now u = Some t'"
    using assms(1) by (auto simp: RunCounters_def bind_eq_Some_conv)
  have wf: "timer_wf (core t)" using assms(2) by (simp add: schedule_ok_def)
  obtain r x y where u': "u = t\<lparr>core := core u, tcr0_roll_over := r, last_timer_counter_update_time_stamp := x\<rparr>"
    "timer_wf (core u)" "x = last_timer_counter_update_time_stamp t \<or> x = (last_timer_counter_update_time_stamp t)[0 := now]"
  proof (cases "GetTCSR0_ENT0 (core t) \<noteq> 0")
    case True
    with u(1) show ?thesis using wf
      by (intro that [of "(last_timer_counter_update_time_stamp t)[0 := now]" "fst (RunCounter0 cfg (of_nat (elapsed_cycles now 0 t)) (core t))"])
        (auto simp: RunCounters0_def Let_def case_prod_beta RunCounter_spec split: if_splits)
  next
    case False
    with u(1) have "u = t" by (simp add: RunCounters0_def)
    then show ?thesis using wf by (intro that [of "last_timer_counter_update_time_stamp t" "tcr0_roll_over t"]) (cases t; simp)+
  qed
  obtain r' x' where t': "t' = u\<lparr>core := core t', tcr1_roll_over := r', last_timer_counter_update_time_stamp := x'\<rparr>"
    "timer_wf (core t')" "x' = last_timer_counter_update_time_stamp u \<or> x' = (last_timer_counter_update_time_stamp u)[1 := now]"
  proof (cases "\<not> C_ONE_TIMER_ONLY cfg \<and> GetTCSR1_ENT1 cfg (core u) \<noteq> 0")
    case True
    with u(2) show ?thesis using u'(2)
      by (intro that [of "(last_timer_counter_update_time_stamp u)[1 := now]" "fst (RunCounter1 cfg (of_nat (elapsed_cycles now 1 u)) (core u))"])
        (auto simp: RunCounters1_def Let_def case_prod_beta RunCounter_spec split: if_splits)
  next
    case False
    with u(2) have "t' = u" by (auto simp: RunCounters1_def)
    then show ?thesis using u'(2) by (intro that [of "last_timer_counter_update_time_stamp u" "tcr1_roll_over u"]) (cases u; simp)+
  qed
  define cu where "cu = core u"
  define ct where "ct = core t'"
  have u2: "u = t\<lparr>core := cu, tcr0_roll_over := r, last_timer_counter_update_time_stamp := x\<rparr>" using u'(1) by (simp add: cu_def)
  have t2: "t' = u\<lparr>core := ct, tcr1_roll_over := r', last_timer_counter_update_time_stamp := x'\<rparr>" using t'(1) by (simp add: ct_def)
  have "length (last_timer_counter_update_time_stamp t) = 2" using assms(3) by (simp add: arrays_ok_def)
  then have x: "length x = 2" "length x' = 2" "i < 2 \<Longrightarrow> x' ! i \<in> {last_timer_counter_update_time_stamp t ! i, now}"
    using u'(3) t'(3) by (auto simp: u2 nth_update_if split: if_splits)
  show "schedule_ok now t'" using assms(2) t'(2) unfolding t2 u2 by (simp add: schedule_ok_def)
  show "arrays_ok t'" using assms(3) x unfolding t2 u2 by (simp add: arrays_ok_def)
  show "cycle_time t' = cycle_time t" "interrupt_output t' = interrupt_output t" "schedule t' = schedule t" unfolding t2 u2 by simp_all
  show "i < 2 \<Longrightarrow> last_timer_counter_update_time_stamp t' ! i \<in> {last_timer_counter_update_time_stamp t ! i, now}"
    using x(3) unfolding t2 by simp
qed

text \<open>What a wake-up leaves behind.\<close>

lemma timer_ProcessEvents_spec:
  assumes "timer_ProcessEvents cfg now t = Some (t', rs, out)" and "schedule_ok now t" and "arrays_ok t" and "now mod cycle_time t = 0"
  shows "schedule_ok now t'" and "arrays_ok t'" and "later now t'" and "cycle_time t' = cycle_time t"
    and "interrupt_output t' = interrupt_level cfg (core t')"
    and "INTERRUPT_OUT l \<in> set out \<longleftrightarrow> interrupt_output t \<noteq> l \<and> interrupt_output t' = l"
    and "GetTCSR0_ENT0 (core t') \<noteq> 0 \<Longrightarrow> last_timer_counter_update_time_stamp t' ! 0 = now \<and>
      (roll_over_cycles0 cfg (core t') \<noteq> 0 \<longrightarrow> InitializeWakeUpEvent (cycle_time t * roll_over_cycles0 cfg (core t') + now) \<in> set (schedule t'))"
    and "GetTCSR1_ENT1 cfg (core t') \<noteq> 0 \<Longrightarrow> last_timer_counter_update_time_stamp t' ! 1 = now \<and>
      (roll_over_cycles1 cfg (core t') \<noteq> 0 \<longrightarrow> InitializeWakeUpEvent (cycle_time t * roll_over_cycles1 cfg (core t') + now) \<in> set (schedule t'))"
    and "i < 2 \<Longrightarrow> last_timer_counter_update_time_stamp t' ! i \<in> {last_timer_counter_update_time_stamp t ! i, now}"
proof -
  obtain t1 t2 where R: "RunCounters cfg now t = Some t1" and D: "process_due cfg now t1 = Some (t2, rs)"
    and G: "GenerateOutput cfg now (timer_tlm_Update cfg now t2) = (t', out)"
  proof -
    from assms(1) obtain t1 q where "RunCounters cfg now t = Some t1" "process_due cfg now t1 = Some q"
      "(case q of (t2, rs) \<Rightarrow> let (t3, out) = GenerateOutput cfg now (timer_tlm_Update cfg now t2) in Some (t3, rs, out)) = Some (t', rs, out)"
      unfolding timer_ProcessEvents_def bind_eq_Some_conv by blast
    then show ?thesis by (intro that) (cases q; auto simp: Let_def case_prod_beta prod_eq_iff)+
  qed
  note R' = RunCounters_spec [OF R assms(2,3)]
  note D' = process_due_spec [OF D R'(1)]
  then obtain c r s where t2: "t2 = t1\<lparr>core := c, ready_time_stamp := r, schedule := s\<rparr>" by blast
  have "arrays_ok t2" "cycle_time t2 = cycle_time t" using R' by (simp_all add: t2 arrays_ok_def)
  then have U: "schedule_ok now t2" "arrays_ok t2" "later now t2" "now mod cycle_time t2 = 0"
    using D' assms(4) by (simp_all add: later_def)
  note U' = timer_tlm_Update_spec [OF U, where cfg = cfg]
  have m: "now mod cycle_time (timer_tlm_Update cfg now t2) = 0" using U'(1) U(4) by (simp add: ending_def)
  note G' = GenerateOutput_spec [OF U'(1) m G]
  have c: "core t' = core (timer_tlm_Update cfg now t2)" "cycle_time t' = cycle_time t"
    using G'(1) U'(1) by (simp_all add: ending_def t2 R'(3))
  have sub: "set (schedule (timer_tlm_Update cfg now t2)) \<subseteq> set (schedule t')"
    using GenerateOutput_spec(1) [OF ending_refl m G] U'(1) by (simp add: ending_def)
  have io: "interrupt_output (timer_tlm_Update cfg now t2) = interrupt_output t"
    using R'(4) by (simp add: t2 timer_tlm_Update_def Let_def notify_roll_over_def)
  show "schedule_ok now t'" "arrays_ok t'" "later now t'" "cycle_time t' = cycle_time t"
    using G'(1) c(2) by (simp_all add: ending_def)
  show "interrupt_output t' = interrupt_level cfg (core t')" using G'(3) c by simp
  show "INTERRUPT_OUT l \<in> set out \<longleftrightarrow> interrupt_output t \<noteq> l \<and> interrupt_output t' = l"
    using G'(3,4) io by simp
  have ct: "cycle_time t2 = cycle_time t" by (simp add: t2 R'(3))
  show "GetTCSR0_ENT0 (core t') \<noteq> 0 \<Longrightarrow> last_timer_counter_update_time_stamp t' ! 0 = now \<and>
      (roll_over_cycles0 cfg (core t') \<noteq> 0 \<longrightarrow> InitializeWakeUpEvent (cycle_time t * roll_over_cycles0 cfg (core t') + now) \<in> set (schedule t'))"
    using U'(2) G'(2) sub unfolding c(1) ct by auto
  show "GetTCSR1_ENT1 cfg (core t') \<noteq> 0 \<Longrightarrow> last_timer_counter_update_time_stamp t' ! 1 = now \<and>
      (roll_over_cycles1 cfg (core t') \<noteq> 0 \<longrightarrow> InitializeWakeUpEvent (cycle_time t * roll_over_cycles1 cfg (core t') + now) \<in> set (schedule t'))"
    using U'(3) G'(2) sub unfolding c(1) ct by auto
  show "i < 2 \<Longrightarrow> last_timer_counter_update_time_stamp t' ! i \<in> {last_timer_counter_update_time_stamp t ! i, now}"
    using U'(4) [of i] R'(6) [of i] G'(2) by (auto simp: t2)
qed

section \<open>Runs of the timer\<close>

text \<open>
  The wrapper and the time: an access or a capture trigger arrives, a debug write or a reset of the
  memory interface changes the core, time passes up to the first event, the process wakes up at the time of the first event (or at the
  start of the simulation).
\<close>

inductive timer_run :: "timer_config \<Rightarrow> nat \<Rightarrow> timer_tlm \<Rightarrow> bool" for cfg where
  start: "timer_BeginSetup (timer_tlm_init cycle) = Some t \<Longrightarrow> timer_run cfg 0 t"
| access: "timer_run cfg now t \<Longrightarrow> timer_b_transport now delay p t = Some t' \<Longrightarrow> timer_run cfg now t'"
| trigger: "timer_run cfg now t \<Longrightarrow> capture_trigger_b_transport cfg now delay ch level t = Some t' \<Longrightarrow> timer_run cfg now t'"
| debug_write: "timer_run cfg now t \<Longrightarrow> timer_WriteMemory cfg addr bs (core t) = Some c \<Longrightarrow> timer_run cfg now (t\<lparr>core := c\<rparr>)"
| reset: "timer_run cfg now t \<Longrightarrow> timer_run cfg now (t\<lparr>core := timer_ResetMemory (core t)\<rparr>)"
| pass: "timer_run cfg now t \<Longrightarrow> now \<le> now' \<Longrightarrow> \<forall>e \<in> set (schedule t). now' \<le> ev_time e \<Longrightarrow> timer_run cfg now' t"
| wake_up: "timer_run cfg now t \<Longrightarrow> now = 0 \<or> now \<in> ev_time ` set (schedule t) \<Longrightarrow>
    timer_ProcessEvents cfg now t = Some (t', rs, out) \<Longrightarrow> timer_run cfg now t'"

definition tlm_inv :: "timer_config \<Rightarrow> nat \<Rightarrow> timer_tlm \<Rightarrow> bool" where
  "tlm_inv cfg now t \<longleftrightarrow> schedule_ok now t \<and> arrays_ok t \<and> (\<forall>i < 2. last_timer_counter_update_time_stamp t ! i \<le> now) \<and>
     (GetTCSR0_ENT0 (core t) \<noteq> 0 \<longrightarrow> roll_over_cycles0 cfg (core t) \<noteq> 0 \<longrightarrow>
        cycle_time t * roll_over_cycles0 cfg (core t) + last_timer_counter_update_time_stamp t ! 0 \<in> ev_time ` set (schedule t)) \<and>
     (GetTCSR1_ENT1 cfg (core t) \<noteq> 0 \<longrightarrow> roll_over_cycles1 cfg (core t) \<noteq> 0 \<longrightarrow>
        cycle_time t * roll_over_cycles1 cfg (core t) + last_timer_counter_update_time_stamp t ! 1 \<in> ev_time ` set (schedule t))"

lemma AlignToClock_spec:
  assumes "0 < cycle"
  shows "time \<le> AlignToClock cycle time" and "AlignToClock cycle time mod cycle = 0"
proof -
  have "time mod cycle < cycle" using assms by simp
  then have "time + (cycle - time mod cycle) = time div cycle * cycle + cycle"
    using div_mult_mod_eq [of time cycle] by linarith
  then show "AlignToClock cycle time mod cycle = 0" by (simp add: AlignToClock_def)
  show "time \<le> AlignToClock cycle time" by (simp add: AlignToClock_def)
qed

lemma tlm_inv_schedule:
  assumes "tlm_inv cfg now t" and "event_ok (cycle_time t) now e"
  shows "tlm_inv cfg now (schedule_event e t)"
  using assms schedule_event_ok [of now t e] by (auto simp: tlm_inv_def)

lemma due_time:
  assumes "schedule_ok now t" and "now = 0 \<or> now \<in> ev_time ` set (schedule t)"
  shows "now mod cycle_time t = 0"
  using assms by (auto simp: schedule_ok_def event_ok_def)

lemma getters_cong:
  assumes "current c = current c'"
  shows "GetTCSR0_ENT0 c = GetTCSR0_ENT0 c'" "GetTCSR1_ENT1 cfg c = GetTCSR1_ENT1 cfg c'"
    "roll_over_cycles0 cfg c = roll_over_cycles0 cfg c'" "roll_over_cycles1 cfg c = roll_over_cycles1 cfg c'"
  using assms by (simp_all add: GetTCSR0_ENT0_def GetTCSR1_ENT1_def roll_over_cycles0_def roll_over_cycles1_def
      GetTCSR0_UDT0_def GetTCSR1_UDT1_def getters_current)

lemma timer_run_inv: "timer_run cfg now t \<Longrightarrow> tlm_inv cfg now t"
proof (induction rule: timer_run.induct)
  case (start cycle t)
  then have t: "0 < cycle" "t = (timer_tlm_init cycle)\<lparr>core := timer_Reset timer_init\<rparr>"
    by (auto simp: timer_BeginSetup_def timer_tlm_init_def split: if_splits)
  have "GetTCSR0_ENT0 (timer_Reset timer_init) = 0" "GetTCSR1_ENT1 cfg (timer_Reset timer_init) = 0"
    by (simp_all add: GetTCSR0_ENT0_def GetTCSR1_ENT1_def getters_current timer_Reset_wf)
  with t show ?case
    by (auto simp: tlm_inv_def schedule_ok_def arrays_ok_def timer_tlm_init_def timer_Reset_wf less_2_cases_iff)
next
  case (access now t delay p t')
  then have "t' = schedule_event (InitializeCPUEvent p (AlignToClock (cycle_time t) (now + delay))) t"
    by (auto simp: timer_b_transport_def split: if_splits)
  moreover have "0 < cycle_time t" using access.IH by (simp add: tlm_inv_def schedule_ok_def)
  ultimately show ?case
    using access.IH AlignToClock_spec [of "cycle_time t" "now + delay"] by (auto intro!: tlm_inv_schedule simp: inits_ok)
next
  case (trigger now t delay ch level t')
  have "0 < cycle_time t" using trigger.IH by (simp add: tlm_inv_def schedule_ok_def)
  then have "tlm_inv cfg now (schedule_event (InitializeCaptureTriggerEvent ch (AlignToClock (cycle_time t) (now + delay))) t)"
    using trigger.IH AlignToClock_spec [of "cycle_time t" "now + delay"] by (auto intro!: tlm_inv_schedule simp: inits_ok)
  moreover have "tlm_inv cfg now (u\<lparr>capture_trigger_input := (capture_trigger_input u)[ch := level]\<rparr>)" if "tlm_inv cfg now u" for u
    using that by (simp add: tlm_inv_def schedule_ok_def arrays_ok_def)
  ultimately show ?case
    using trigger.hyps(2) trigger.IH by (auto simp: capture_trigger_b_transport_def Let_def split: if_splits)
next
  case (debug_write now t addr bs c)
  have "timer_wf (core t)" using debug_write.IH by (simp add: tlm_inv_def schedule_ok_def)
  then have "timer_wf c \<and> current c = current (core t)"
    using debug_write.hyps(2) timer_bus.debug_write_inv [of "core t" "current (core t)" cfg addr bs]
    by (auto simp: timer_WriteMemory_def split: if_splits)
  then show ?case
    using debug_write.IH getters_cong [of c "core t"] by (auto simp: tlm_inv_def schedule_ok_def arrays_ok_def)
next
  case (reset now t)
  have "timer_wf (timer_Reset (core t))" by (simp add: timer_Reset_wf)
  moreover have "GetTCSR0_ENT0 (timer_Reset (core t)) = 0" "GetTCSR1_ENT1 cfg (timer_Reset (core t)) = 0"
    by (simp_all add: GetTCSR0_ENT0_def GetTCSR1_ENT1_def getters_current timer_Reset_wf)
  ultimately show ?case
    using reset.IH by (simp add: tlm_inv_def schedule_ok_def arrays_ok_def timer_ResetMemory_def)
next
  case (pass now t now')
  then show ?case by (auto simp: tlm_inv_def schedule_ok_def event_ok_def)
next
  case (wake_up now t t' rs out)
  have inv: "schedule_ok now t" "arrays_ok t" using wake_up.IH by (simp_all add: tlm_inv_def)
  note P = timer_ProcessEvents_spec [OF wake_up.hyps(3) inv due_time [OF inv(1) wake_up.hyps(2)]]
  have "\<forall>i < 2. last_timer_counter_update_time_stamp t' ! i \<le> now" using P(9) wake_up.IH by (fastforce simp: tlm_inv_def)
  then show ?case using P(1,2,4,7,8) by (auto simp: tlm_inv_def inits_ok(5) image_iff intro!: bexI)
qed

section \<open>Example runs\<close>

text \<open>A list of accesses, each with the wake-up at its time: the final state and the signals of the last wake-up.\<close>

definition access_and_wake :: "timer_config \<Rightarrow> nat \<Rightarrow> payload \<Rightarrow> timer_tlm \<Rightarrow> (timer_tlm \<times> responses \<times> signal list) option" where
  "access_and_wake cfg now p t = Option.bind (timer_b_transport now 0 p t) (timer_ProcessEvents cfg now)"

fun script :: "timer_config \<Rightarrow> nat \<Rightarrow> (nat \<times> payload) list \<Rightarrow> timer_tlm \<Rightarrow> (nat \<times> timer_tlm) option" where
  "script cfg now [] t = Some (now, t)"
| "script cfg now ((now', p) # xs) t =
     (if now \<le> now' \<and> now' mod cycle_time t = 0 \<and> (\<forall>e \<in> set (schedule t). now' \<le> ev_time e)
      then (case access_and_wake cfg now' p t of None \<Rightarrow> None | Some (t', rs, out) \<Rightarrow> script cfg now' xs t') else None)"

lemma b_transport_due:
  assumes "timer_b_transport now 0 p t = Some u" and "now mod cycle_time t = 0"
  shows "now \<in> ev_time ` set (schedule u)"
proof -
  have "u = schedule_event (InitializeCPUEvent p now) t" using assms by (auto simp: timer_b_transport_def AlignToClock_def split: if_splits)
  then show ?thesis by (simp add: inits_ok)
qed

lemma script_run: "script cfg now xs t = Some (now', t') \<Longrightarrow> timer_run cfg now t \<Longrightarrow> timer_run cfg now' t'"
proof (induction cfg now xs t rule: script.induct)
  case (2 cfg now m p xs t)
  then obtain u rs out where u: "now \<le> m" "m mod cycle_time t = 0" "\<forall>e \<in> set (schedule t). m \<le> ev_time e"
    "access_and_wake cfg m p t = Some (u, rs, out)" "script cfg m xs u = Some (now', t')"
    by (auto split: if_splits option.splits)
  then obtain v where v: "timer_b_transport m 0 p t = Some v" "timer_ProcessEvents cfg m v = Some (u, rs, out)"
    by (auto simp: access_and_wake_def bind_eq_Some_conv)
  have "timer_run cfg m v" using timer_run.access [OF timer_run.pass [OF 2(3) u(1,3)] v(1)] .
  then have "timer_run cfg m u" using b_transport_due [OF v(1) u(2)] v(2) timer_run.wake_up by blast
  with 2(1) u show ?case by simp
qed simp

definition word_access :: "command \<Rightarrow> u64 \<Rightarrow> u32 \<Rightarrow> payload" where
  "word_access cmd off v = \<lparr>pl_command = cmd, pl_address = T_BASEADDR timer_default + off, pl_data = v, pl_data_length = 4,
     pl_byte_enable_length = 0, pl_streaming_width = 0\<rparr>"

definition timer_4bit :: timer_config where "timer_4bit = timer_default\<lparr>C_COUNT_WIDTH := 4\<rparr>"

definition timer_start :: timer_tlm where "timer_start = (timer_tlm_init 10)\<lparr>core := timer_Reset timer_init\<rparr>"

lemma timer_start_run: "timer_run cfg 0 timer_start"
  by (rule timer_run.start [of 10]) (simp add: timer_BeginSetup_def timer_start_def timer_tlm_init_def)

text \<open>A counter enabled without a load holds at 0.\<close>

definition held_script :: "(nat \<times> payload) list" where
  "held_script = [(0, word_access TLM_WRITE_COMMAND TCSR0 0x80)]"

text \<open>Counter 0 loaded with 14 of 15 and enabled.\<close>

definition running_script :: "(nat \<times> payload) list" where
  "running_script = [(0, word_access TLM_WRITE_COMMAND TLR0 14), (10, word_access TLM_WRITE_COMMAND TCSR0 0x20),
     (20, word_access TLM_WRITE_COMMAND TCSR0 0x80)]"

section \<open>When a wake-up stops the simulation\<close>

text \<open>A counter that is enabled but holds at its terminal value.\<close>

definition held0 :: "timer_config \<Rightarrow> timer_tlm \<Rightarrow> bool" where
  "held0 cfg t \<longleftrightarrow> GetTCSR0_ENT0 (core t) \<noteq> 0 \<and> roll_over_cycles0 cfg (core t) = 0"

definition held1 :: "timer_config \<Rightarrow> timer_tlm \<Rightarrow> bool" where
  "held1 cfg t \<longleftrightarrow> \<not> C_ONE_TIMER_ONLY cfg \<and> GetTCSR1_ENT1 cfg (core t) \<noteq> 0 \<and> roll_over_cycles1 cfg (core t) = 0"

lemma roll_over_cycles_le:
  assumes "timer_width_ok cfg"
  shows "roll_over_cycles0 cfg c \<le> unat (MAX_COUNT cfg)" and "roll_over_cycles1 cfg c \<le> unat (MAX_COUNT cfg)"
  using cycles_left_value(2) [OF assms TCR_less(1) [OF assms]] cycles_left_value(2) [OF assms TCR_less(2) [OF assms]]
    unat_and_COUNTER(2) [of cfg] assms
  by (simp_all add: roll_over_cycles_left timer_width_ok_def less_eq_Suc_le le_diff_conv2)

lemma elapsed_le:
  assumes "\<forall>e \<in> set (schedule t). now \<le> ev_time e" and "0 < cycle_time t"
    and "cycle_time t * n + last_timer_counter_update_time_stamp t ! ch \<in> ev_time ` set (schedule t)"
  shows "elapsed_cycles now ch t \<le> n"
proof -
  have "now \<le> cycle_time t * n + last_timer_counter_update_time_stamp t ! ch" using assms(1,3) by auto
  then have "elapsed_cycles now ch t \<le> (cycle_time t * n) div cycle_time t"
    unfolding elapsed_cycles_def by (intro div_le_mono) simp
  with assms(2) show ?thesis by simp
qed

lemma RunCounters_None:
  assumes "timer_wf (core t)" and "arrays_ok t"
  shows "RunCounters cfg now t = None \<longleftrightarrow>
    (GetTCSR0_ENT0 (core t) \<noteq> 0 \<and> unat (MAX_COUNT cfg) < elapsed_cycles now 0 t) \<or>
    (\<not> C_ONE_TIMER_ONLY cfg \<and> GetTCSR1_ENT1 cfg (core t) \<noteq> 0 \<and> unat (MAX_COUNT cfg) < elapsed_cycles now 1 t)"
proof -
  have n1: "RunCounters1 cfg now u = None \<longleftrightarrow> \<not> C_ONE_TIMER_ONLY cfg \<and> GetTCSR1_ENT1 cfg (core u) \<noteq> 0 \<and>
      unat (MAX_COUNT cfg) < elapsed_cycles now 1 u" for u
    by (simp add: RunCounters1_def Let_def case_prod_beta)
  show ?thesis
  proof (cases "RunCounters0 cfg now t")
    case None
    then show ?thesis by (simp add: RunCounters_def) (auto simp: RunCounters0_def Let_def case_prod_beta split: if_splits)
  next
    case (Some u)
    have "current (core u) R_TCSR1 = current (core t) R_TCSR1 \<and> elapsed_cycles now 1 u = elapsed_cycles now 1 t"
      using Some assms
      by (auto simp: RunCounters0_def Let_def case_prod_beta RunCounter_spec elapsed_cycles_def arrays_ok_def split: if_splits)
    then have "GetTCSR1_ENT1 cfg (core u) = GetTCSR1_ENT1 cfg (core t)" "elapsed_cycles now 1 u = elapsed_cycles now 1 t"
      by (simp_all add: GetTCSR1_ENT1_def getters_current)
    moreover have "\<not> (GetTCSR0_ENT0 (core t) \<noteq> 0 \<and> unat (MAX_COUNT cfg) < elapsed_cycles now 0 t)"
      using Some by (auto simp: RunCounters0_def Let_def)
    moreover have "RunCounters cfg now t = RunCounters1 cfg now u" by (simp add: RunCounters_def Some)
    ultimately show ?thesis using n1 [of u] by metis
  qed
qed

text \<open>
  C28: In every run, a wake-up at the time of an event finds no late and no misaligned event and its
  loop ends; it stops the simulation only for an access the timer does not support, or when an
  enabled counter has been holding at its terminal value for more cycles than it can count.
\<close>

theorem timer_wake_up_returns:
  assumes "timer_run cfg now t" and "timer_width_ok cfg" and "now = 0 \<or> now \<in> ev_time ` set (schedule t)"
    and "\<forall>e \<in> set (schedule t). ev_time e = now \<longrightarrow> event_supported cfg e"
  shows "timer_ProcessEvents cfg now t \<noteq> None \<longleftrightarrow>
    (held0 cfg t \<longrightarrow> elapsed_cycles now 0 t \<le> unat (MAX_COUNT cfg)) \<and> (held1 cfg t \<longrightarrow> elapsed_cycles now 1 t \<le> unat (MAX_COUNT cfg))"
proof -
  have inv: "tlm_inv cfg now t" by (rule timer_run_inv [OF assms(1)])
  then have ok: "schedule_ok now t" "arrays_ok t" "timer_wf (core t)" "0 < cycle_time t" by (simp_all add: tlm_inv_def schedule_ok_def)
  have times: "\<forall>e \<in> set (schedule t). now \<le> ev_time e" using ok(1) by (simp add: schedule_ok_def event_ok_def)
  have "elapsed_cycles now 0 t \<le> unat (MAX_COUNT cfg)" if "GetTCSR0_ENT0 (core t) \<noteq> 0" "roll_over_cycles0 cfg (core t) \<noteq> 0"
  proof -
    have "cycle_time t * roll_over_cycles0 cfg (core t) + last_timer_counter_update_time_stamp t ! 0 \<in> ev_time ` set (schedule t)"
      using inv that unfolding tlm_inv_def by blast
    from elapsed_le [OF times ok(4) this] show ?thesis by (rule order.trans) (rule roll_over_cycles_le(1) [OF assms(2)])
  qed
  moreover have "elapsed_cycles now 1 t \<le> unat (MAX_COUNT cfg)" if "GetTCSR1_ENT1 cfg (core t) \<noteq> 0" "roll_over_cycles1 cfg (core t) \<noteq> 0"
  proof -
    have "cycle_time t * roll_over_cycles1 cfg (core t) + last_timer_counter_update_time_stamp t ! 1 \<in> ev_time ` set (schedule t)"
      using inv that unfolding tlm_inv_def by blast
    from elapsed_le [OF times ok(4) this] show ?thesis by (rule order.trans) (rule roll_over_cycles_le(2) [OF assms(2)])
  qed
  ultimately have R: "RunCounters cfg now t \<noteq> None \<longleftrightarrow>
      (held0 cfg t \<longrightarrow> elapsed_cycles now 0 t \<le> unat (MAX_COUNT cfg)) \<and> (held1 cfg t \<longrightarrow> elapsed_cycles now 1 t \<le> unat (MAX_COUNT cfg))"
    unfolding RunCounters_None [OF ok(3,2)] held0_def held1_def by (auto simp: not_less)
  have "timer_ProcessEvents cfg now t \<noteq> None" if "RunCounters cfg now t = Some t1" for t1
  proof -
    note S = RunCounters_spec [OF that ok(1,2)]
    have "process_due cfg now t1 \<noteq> None"
      using due_time [OF ok(1) assms(3)] assms(4) S by (intro process_due_returns) simp_all
    then show ?thesis by (auto simp: timer_ProcessEvents_def that Let_def split: prod.split)
  qed
  then have "timer_ProcessEvents cfg now t \<noteq> None \<longleftrightarrow> RunCounters cfg now t \<noteq> None"
    by (cases "RunCounters cfg now t") (auto simp: timer_ProcessEvents_def)
  with R show ?thesis by simp
qed

theorem timer_wake_up_returns_witness:
  "\<exists>t. timer_run timer_4bit 160 t \<and> timer_ProcessEvents timer_4bit 160 t = None"
proof -
  define r where "r = script timer_4bit 0 held_script timer_start"
  have ex: "case r of None \<Rightarrow> False | Some (now, t) \<Rightarrow> (now \<le> 160 \<and> held0 timer_4bit t \<and> schedule t = [] \<and> cycle_time t = 10 \<and>
      last_timer_counter_update_time_stamp t ! 0 = 0)"
    unfolding r_def by code_simp
  then obtain now t where t: "r = Some (now, t)" "now \<le> 160" "held0 timer_4bit t" "schedule t = []" "cycle_time t = 10"
    "last_timer_counter_update_time_stamp t ! 0 = 0" by (auto split: option.splits)
  have "timer_run timer_4bit 160 t"
    using timer_run.pass [OF script_run [OF t(1) [unfolded r_def] timer_start_run] t(2)] t(4) by simp
  moreover define u where "u = schedule_event (InitializeCPUEvent (word_access TLM_READ_COMMAND TCSR0 0) 160) t"
  moreover have b: "timer_b_transport 160 0 (word_access TLM_READ_COMMAND TCSR0 0) t = Some u"
    using t(5) by (simp add: timer_b_transport_def AlignToClock_def word_access_def u_def)
  ultimately have run: "timer_run timer_4bit 160 u" using timer_run.access by blast
  have w: "timer_width_ok timer_4bit" "unat (MAX_COUNT timer_4bit) = 15" by code_simp+
  have due: "160 = (0 :: nat) \<or> 160 \<in> ev_time ` set (schedule u)" using b_transport_due [OF b] t(5) by simp
  have sup: "\<forall>e \<in> set (schedule u). ev_time e = 160 \<longrightarrow> event_supported timer_4bit e"
    using t(4) by (simp add: u_def event_supported_def supported_def InitializeCPUEvent_def word_access_def)
  have "held0 timer_4bit u" "elapsed_cycles 160 0 u = 16"
    using t(3,5,6) by (simp_all add: u_def held0_def elapsed_cycles_def)
  then have "\<not> timer_ProcessEvents timer_4bit 160 u \<noteq> None"
    unfolding timer_wake_up_returns [OF run w(1) due sup] using w(2) by simp
  then have "timer_ProcessEvents timer_4bit 160 u = None" by blast
  with run show ?thesis by blast
qed

text \<open>
  C29: A wake-up that leaves a counter running schedules the next wake-up for the cycle the counter
  rolls over in: updated after any number of cycles it can count, it has rolled over exactly when
  that cycle has been reached.
\<close>

theorem timer_rolls_over_on_time:
  assumes "timer_run cfg now t" and "timer_width_ok cfg" and "now = 0 \<or> now \<in> ev_time ` set (schedule t)"
    and "timer_ProcessEvents cfg now t = Some (t', rs, out)"
    and "GetTCSR0_ENT0 (core t') \<noteq> 0" and "roll_over_cycles0 cfg (core t') \<noteq> 0" and "k \<le> unat (MAX_COUNT cfg)"
  shows "InitializeWakeUpEvent (cycle_time t' * roll_over_cycles0 cfg (core t') + now) \<in> set (schedule t') \<and>
    (\<exists>t''. RunCounters0 cfg (cycle_time t' * k + now) t' = Some t'' \<and>
      tcr0_roll_over t'' = (roll_over_cycles0 cfg (core t') \<le> k))"
proof -
  have ok: "schedule_ok now t" "arrays_ok t" using timer_run_inv [OF assms(1)] by (simp_all add: tlm_inv_def)
  note P = timer_ProcessEvents_spec [OF assms(4) ok due_time [OF ok(1) assms(3)]]
  have c: "0 < cycle_time t'" using P(1) by (simp add: schedule_ok_def)
  have l: "last_timer_counter_update_time_stamp t' ! 0 = now"
    and e: "InitializeWakeUpEvent (cycle_time t' * roll_over_cycles0 cfg (core t') + now) \<in> set (schedule t')"
    using P(4,7) assms(5,6) by simp_all
  have k: "elapsed_cycles (cycle_time t' * k + now) 0 t' = k" using c l by (simp add: elapsed_cycles_def)
  have m: "unat (MAX_COUNT cfg) = 2 ^ C_COUNT_WIDTH cfg - 1" "C_COUNT_WIDTH cfg \<le> 32"
    using unat_and_COUNTER(2) [of cfg] assms(2) by (simp_all add: timer_width_ok_def)
  have "unat (MAX_COUNT cfg) < 2 ^ LENGTH(32)" by (rule unsigned_less)
  then have u: "unat (of_nat k :: u32) = k" using assms(7) by (simp add: unat_of_nat)
  then have "unat (of_nat k :: u32) < 2 ^ C_COUNT_WIDTH cfg" using m assms(7) by (simp add: less_eq_Suc_le le_diff_conv2)
  from RunCounter_rolls_over(1) [OF assms(2) this assms(5)]
  have "fst (RunCounter0 cfg (of_nat k) (core t')) = (roll_over_cycles0 cfg (core t') \<le> k)" using u assms(6) by simp
  then show ?thesis using e assms(5,7) by (simp add: RunCounters0_def k Let_def case_prod_beta)
qed

theorem timer_rolls_over_on_time_witness:
  "\<exists>t t' t'' rs out. timer_ProcessEvents timer_4bit 20 t = Some (t', rs, out) \<and> InitializeWakeUpEvent 40 \<in> set (schedule t') \<and>
    RunCounters0 timer_4bit 40 t' = Some t'' \<and> tcr0_roll_over t''"
proof -
  define r where "r = script timer_4bit 0 (butlast running_script) timer_start"
  define p where "p = word_access TLM_WRITE_COMMAND TCSR0 0x80"
  have "case r of None \<Rightarrow> False | Some (now, t) \<Rightarrow> now \<le> 20 \<and> cycle_time t = 10 \<and> (\<forall>e \<in> set (schedule t). 20 \<le> ev_time e) \<and>
      (case timer_b_transport 20 0 p t of None \<Rightarrow> False | Some u \<Rightarrow>
         case timer_ProcessEvents timer_4bit 20 u of None \<Rightarrow> False | Some (t', rs, out) \<Rightarrow>
           cycle_time t' = 10 \<and> GetTCSR0_ENT0 (core t') \<noteq> 0 \<and> roll_over_cycles0 timer_4bit (core t') = 2)"
    unfolding r_def p_def by code_simp
  then obtain now t u t' rs out where t: "r = Some (now, t)" "now \<le> 20" "cycle_time t = 10" "\<forall>e \<in> set (schedule t). 20 \<le> ev_time e"
    and u: "timer_b_transport 20 0 p t = Some u" and t': "timer_ProcessEvents timer_4bit 20 u = Some (t', rs, out)"
      "cycle_time t' = 10" "GetTCSR0_ENT0 (core t') \<noteq> 0" "roll_over_cycles0 timer_4bit (core t') = 2"
    by (auto split: option.splits)
  have run: "timer_run timer_4bit 20 u"
    using timer_run.access [OF timer_run.pass [OF script_run [OF t(1) [unfolded r_def] timer_start_run] t(2,4)] u] .
  have w: "timer_width_ok timer_4bit" "2 \<le> unat (MAX_COUNT timer_4bit)" by code_simp+
  have due: "20 = (0 :: nat) \<or> 20 \<in> ev_time ` set (schedule u)" using b_transport_due [OF u] t(3) by simp
  have nz: "roll_over_cycles0 timer_4bit (core t') \<noteq> 0" using t'(4) by simp
  show ?thesis
    using timer_rolls_over_on_time [OF run w(1) due t'(1) t'(3) nz w(2)] t' by auto
qed

text \<open>
  After every wake-up the interrupt line is the disjunction of the enabled interrupts of the two
  timers, and a message was sent on it exactly when it changed.
\<close>

theorem timer_interrupt_line:
  assumes "timer_run cfg now t" and "now = 0 \<or> now \<in> ev_time ` set (schedule t)"
    and "timer_ProcessEvents cfg now t = Some (t', rs, out)"
  shows "interrupt_output t' = interrupt_level cfg (core t') \<and>
    {l. INTERRUPT_OUT l \<in> set out} = (if interrupt_output t' = interrupt_output t then {} else {interrupt_output t'})"
proof -
  have ok: "schedule_ok now t" "arrays_ok t" using timer_run_inv [OF assms(1)] by (simp_all add: tlm_inv_def)
  note P = timer_ProcessEvents_spec [OF assms(3) ok due_time [OF ok(1) assms(2)]]
  show ?thesis using P(5,6) by auto
qed

theorem timer_interrupt_line_witness:
  "\<exists>t' rs out. timer_ProcessEvents timer_default 0 timer_start = Some (t', rs, out) \<and> interrupt_output t' = interrupt_level timer_default (core t')"
proof -
  have "timer_ProcessEvents timer_default 0 timer_start \<noteq> None" by code_simp
  then obtain t' rs out where "timer_ProcessEvents timer_default 0 timer_start = Some (t', rs, out)" by auto
  with timer_interrupt_line [OF timer_start_run _ this] show ?thesis by simp
qed

section \<open>A stale roll-over\<close>

lemma Update_outputs:
  "generate_output (timer_tlm_Update cfg now t) = generate_output t" "tcr0_roll_over (timer_tlm_Update cfg now t) = tcr0_roll_over t"
  "core (timer_tlm_Update cfg now t) = timer_Update (core t)"
  by (simp_all add: timer_tlm_Update_def Let_def notify_roll_over_def)

lemma outputs_core:
  "core (fst (generate_pulse now ch active roll u)) = core u" "core (fst (generate_pwm u)) = core u"
  by (simp_all add: generate_pulse_def generate_pwm_def)

lemma GenerateOutput_core: "core (fst (GenerateOutput cfg now u)) = core u"
  by (simp add: GenerateOutput_def Let_def case_prod_beta outputs_core)

lemma generate_pulse_0:
  assumes "GetTCSR0_MDT0 (core u) = 0" and "\<not> (GetTCSR0_PWMA0 (core u) \<noteq> 0 \<and> GetTCSR1_PWMB0 cfg (core u) \<noteq> 0)"
    and "tcr0_roll_over u" and "generate_output u ! 0 \<noteq> C_GEN0_ASSERT cfg" and "GenerateOutput cfg now u = (u', out)"
  shows "GENERATE_OUT 0 (C_GEN0_ASSERT cfg) \<in> set out"
proof -
  have "GENERATE_OUT 0 (C_GEN0_ASSERT cfg) \<in> set (snd (GenerateOutput cfg now u))"
    using assms(1-4) by (auto simp: GenerateOutput_def Let_def case_prod_beta generate_pulse_def [of now 0])
  with assms(5) show ?thesis by simp
qed

text \<open>
  The wrapper forgets a roll-over only when the counter runs again: a timer in generate mode that
  was halted after a roll-over sends the active level of a pulse at every wake-up that finds its
  output at rest.
\<close>

theorem timer_pulse_while_halted:
  assumes "timer_run cfg now t" and "timer_ProcessEvents cfg now t = Some (t', rs, out)"
    and "GetTCSR0_ENT0 (core t) = 0" and "tcr0_roll_over t" and "generate_output t ! 0 \<noteq> C_GEN0_ASSERT cfg"
    and "GetTCSR0_MDT0 (core t') = 0" and "\<not> (GetTCSR0_PWMA0 (core t') \<noteq> 0 \<and> GetTCSR1_PWMB0 cfg (core t') \<noteq> 0)"
  shows "GENERATE_OUT 0 (C_GEN0_ASSERT cfg) \<in> set out"
proof -
  have ok: "schedule_ok now t" "arrays_ok t" using timer_run_inv [OF assms(1)] by (simp_all add: tlm_inv_def)
  from assms(2) obtain t1 q where R: "RunCounters cfg now t = Some t1" and Q: "process_due cfg now t1 = Some q"
    "(case q of (t2, rs) \<Rightarrow> let (t3, out) = GenerateOutput cfg now (timer_tlm_Update cfg now t2) in Some (t3, rs, out)) = Some (t', rs, out)"
    unfolding timer_ProcessEvents_def bind_eq_Some_conv by blast
  obtain t2 where D: "process_due cfg now t1 = Some (t2, rs)" and G: "GenerateOutput cfg now (timer_tlm_Update cfg now t2) = (t', out)"
    using Q by (cases q) (auto simp: Let_def case_prod_beta prod_eq_iff)
  have r1: "tcr0_roll_over t1 = tcr0_roll_over t" "generate_output t1 = generate_output t"
    using R assms(3) by (auto simp: RunCounters_def RunCounters0_def RunCounters1_def Let_def case_prod_beta split: if_splits)
  obtain c r s where "t2 = t1\<lparr>core := c, ready_time_stamp := r, schedule := s\<rparr>"
    using process_due_spec [OF D RunCounters_spec(1) [OF R ok]] by blast
  then have r2: "tcr0_roll_over t2 = tcr0_roll_over t" "generate_output t2 = generate_output t" using r1 by simp_all
  show ?thesis
    using generate_pulse_0 [OF _ _ _ _ G] GenerateOutput_core [of cfg now "timer_tlm_Update cfg now t2"] G assms(4-7) r2
    by (simp add: Update_outputs)
qed

text \<open>The counter of \<open>running_script\<close>, halted in the cycle of its roll-over.\<close>

theorem timer_pulse_while_halted_witness:
  "\<exists>t t' rs out. timer_run timer_4bit 60 t \<and> GetTCSR0_ENT0 (core t) = 0 \<and>
    timer_ProcessEvents timer_4bit 60 t = Some (t', rs, out) \<and> GENERATE_OUT 0 True \<in> set out"
proof -
  define r where "r = script timer_4bit 0 (running_script @ [(40, word_access TLM_WRITE_COMMAND TCSR0 0), (50, word_access TLM_READ_COMMAND TCSR0 0)])
    timer_start"
  define p where "p = word_access TLM_READ_COMMAND TCSR0 0"
  have "case r of None \<Rightarrow> False | Some (now, t) \<Rightarrow> now \<le> 60 \<and> (\<forall>e \<in> set (schedule t). 60 \<le> ev_time e) \<and>
      (case timer_b_transport 60 0 p t of None \<Rightarrow> False | Some u \<Rightarrow>
         GetTCSR0_ENT0 (core u) = 0 \<and> tcr0_roll_over u \<and> \<not> generate_output u ! 0 \<and>
         (case timer_ProcessEvents timer_4bit 60 u of None \<Rightarrow> False | Some (t', rs, out) \<Rightarrow>
           GetTCSR0_MDT0 (core t') = 0 \<and> GetTCSR0_PWMA0 (core t') = 0))"
    unfolding r_def p_def by code_simp
  then obtain now t u t' rs out where t: "r = Some (now, t)" "now \<le> 60" "\<forall>e \<in> set (schedule t). 60 \<le> ev_time e"
    and u: "timer_b_transport 60 0 p t = Some u" "GetTCSR0_ENT0 (core u) = 0" "tcr0_roll_over u" "\<not> generate_output u ! 0"
    and t': "timer_ProcessEvents timer_4bit 60 u = Some (t', rs, out)" "GetTCSR0_MDT0 (core t') = 0" "GetTCSR0_PWMA0 (core t') = 0"
    by (auto split: option.splits)
  have run: "timer_run timer_4bit 60 u"
    using timer_run.access [OF timer_run.pass [OF script_run [OF t(1) [unfolded r_def] timer_start_run] t(2,3)] u(1)] .
  have g: "C_GEN0_ASSERT timer_4bit" by (simp add: timer_4bit_def timer_default_def)
  have "GENERATE_OUT 0 True \<in> set out"
    using timer_pulse_while_halted [OF run t'(1) u(2,3) _ t'(2)] u(4) t'(3) g by simp
  with run u(2) t'(1) show ?thesis by blast
qed

end
