(* ===== verification/Hash_Table.thy ===== *)
theory Hash_Table
  imports Prelude
begin

text \<open>
  \<open>util/hash_table/hash_table.hh\<close>: a table of 4096 chains of elements linked by their \<open>next\<close>
  pointers, with the most recently found element on the side. An element is a reference, a
  chain the list of the references its links visit; the key of an element does not change while
  it is in a table and is given by \<open>key_of\<close>.
\<close>

section \<open>The table\<close>

abbreviation NUM_HASH_TABLE_ENTRIES :: nat where "NUM_HASH_TABLE_ENTRIES \<equiv> 4096"

record 'e hash_table =
  mru_element :: "'e option"
  buckets :: "'e list list"

definition ht_init :: "'e hash_table" where
  "ht_init = \<lparr>mru_element = None, buckets = replicate NUM_HASH_TABLE_ENTRIES []\<rparr>"

definition Hash :: "'k::len word \<Rightarrow> nat" where
  "Hash key = unat key mod NUM_HASH_TABLE_ENTRIES"

definition ht_Reset :: "'e hash_table \<Rightarrow> 'e hash_table" where
  "ht_Reset h = \<lparr>mru_element = None, buckets = map (\<lambda>_. []) (buckets h)\<rparr>"

definition ht_Insert :: "('e \<Rightarrow> 'k::len word) \<Rightarrow> 'e \<Rightarrow> 'e hash_table \<Rightarrow> 'e hash_table" where
  "ht_Insert key_of e h = (let i = Hash (key_of e) in
     \<lparr>mru_element = Some e, buckets = (buckets h)[i := e # buckets h ! i]\<rparr>)"

text \<open>The walk along a chain: the element that has the key, and the chain without it.\<close>

fun chain_walk :: "('e \<Rightarrow> bool) \<Rightarrow> 'e list \<Rightarrow> ('e \<times> 'e list) option" where
  "chain_walk hit [] = None"
| "chain_walk hit (cur # rest) =
     (if hit cur then Some (cur, rest)
      else case chain_walk hit rest of
             None \<Rightarrow> None
           | Some (e, others) \<Rightarrow> Some (e, cur # others))"

text \<open>A found element moves to the head of its chain.\<close>

definition ht_Find :: "('e \<Rightarrow> 'k::len word) \<Rightarrow> 'k word \<Rightarrow> 'e hash_table \<Rightarrow> 'e option \<times> 'e hash_table" where
  "ht_Find key_of key h =
     (if (case mru_element h of Some e \<Rightarrow> key_of e = key | None \<Rightarrow> False) then (mru_element h, h)
      else let i = Hash key in
        case chain_walk (\<lambda>cur. key_of cur = key) (buckets h ! i) of
          None \<Rightarrow> (None, h)
        | Some (e, others) \<Rightarrow> (Some e, \<lparr>mru_element = Some e, buckets = (buckets h)[i := e # others]\<rparr>))"

text \<open>\<open>Remove\<close> looks along the chain for the key that equals the index of the chain.\<close>

definition ht_Remove :: "('e \<Rightarrow> 'k::len word) \<Rightarrow> 'e \<Rightarrow> 'e hash_table \<Rightarrow> 'e hash_table" where
  "ht_Remove key_of e h =
     (let m = (if mru_element h = Some e then None else mru_element h); i = Hash (key_of e) in
      case chain_walk (\<lambda>cur. unat (key_of cur) = i) (buckets h ! i) of
        None \<Rightarrow> \<lparr>mru_element = m, buckets = buckets h\<rparr>
      | Some (_, others) \<Rightarrow> \<lparr>mru_element = m, buckets = (buckets h)[i := others]\<rparr>)"

text \<open>The conversion to \<open>std::map\<close>, whose insertion keeps the first element of a key.\<close>

definition ht_to_map :: "('e \<Rightarrow> 'k::len word) \<Rightarrow> 'e hash_table \<Rightarrow> 'k word \<rightharpoonup> 'e" where
  "ht_to_map key_of h = map_of (map (\<lambda>e. (key_of e, e)) (concat (buckets h)))"

section \<open>The map a table represents\<close>

definition ht_lookup :: "('e \<Rightarrow> 'k::len word) \<Rightarrow> 'e hash_table \<Rightarrow> 'k word \<rightharpoonup> 'e" where
  "ht_lookup key_of h key = List.find (\<lambda>e. key_of e = key) (buckets h ! Hash key)"

definition bucket_ok :: "('e \<Rightarrow> 'k::len word) \<Rightarrow> nat \<Rightarrow> 'e list \<Rightarrow> bool" where
  "bucket_ok key_of i xs \<longleftrightarrow> (\<forall>e \<in> set xs. Hash (key_of e) = i) \<and> distinct (map key_of xs)"

definition ht_inv :: "('e \<Rightarrow> 'k::len word) \<Rightarrow> 'e hash_table \<Rightarrow> bool" where
  "ht_inv key_of h \<longleftrightarrow> length (buckets h) = NUM_HASH_TABLE_ENTRIES \<and>
     (\<forall>i < NUM_HASH_TABLE_ENTRIES. bucket_ok key_of i (buckets h ! i)) \<and>
     (\<forall>e. mru_element h = Some e \<longrightarrow> e \<in> set (buckets h ! Hash (key_of e)))"

lemma Hash_less [simp]: "Hash key < NUM_HASH_TABLE_ENTRIES"
  by (simp add: Hash_def)

lemma find_member:
  "distinct (map f xs) \<Longrightarrow> (List.find (\<lambda>e. f e = k) xs = Some e) = (e \<in> set xs \<and> f e = k)"
  by (induction xs) auto

lemma ht_find_cong_set:
  assumes "distinct (map f xs)" and "distinct (map f ys)" and "set xs = set ys"
  shows "List.find (\<lambda>e. f e = k) xs = List.find (\<lambda>e. f e = k) ys"
  using find_member [OF assms(1), of k] find_member [OF assms(2), of k] assms(3) by (metis not_Some_eq)

lemma lookup_member:
  assumes "ht_inv key_of h"
  shows "ht_lookup key_of h key = Some e \<longleftrightarrow> e \<in> set (buckets h ! Hash key) \<and> key_of e = key"
  using assms by (simp add: ht_lookup_def ht_inv_def bucket_ok_def find_member)

lemma chain_walk_Some:
  "chain_walk hit xs = Some (e, ys) \<Longrightarrow>
     hit e \<and> e \<in> set xs \<and> set xs = insert e (set ys) \<and> (distinct (map f xs) \<longrightarrow> distinct (map f (e # ys)))"
proof (induction xs arbitrary: ys)
  case (Cons x xs)
  show ?case
  proof (cases "hit x")
    case False
    with Cons.prems obtain zs where "chain_walk hit xs = Some (e, zs)" "ys = x # zs"
      by (auto split: option.splits)
    with Cons.IH [of zs] show ?thesis by auto
  qed (use Cons.prems in auto)
qed simp

lemma chain_walk_None: "chain_walk hit xs = None \<longleftrightarrow> (\<forall>x \<in> set xs. \<not> hit x)"
  by (induction xs) (auto split: option.splits)

text \<open>A chain replaced by one with the same elements changes nothing but the order.\<close>

lemma reorder_bucket:
  assumes "ht_inv key_of h" and "i < NUM_HASH_TABLE_ENTRIES" and "set ys = set (buckets h ! i)"
    and "distinct (map key_of ys)" and "\<And>e. m = Some e \<Longrightarrow> e \<in> set (buckets h ! Hash (key_of e))"
  shows "ht_inv key_of \<lparr>mru_element = m, buckets = (buckets h)[i := ys]\<rparr>"
    and "ht_lookup key_of \<lparr>mru_element = m, buckets = (buckets h)[i := ys]\<rparr> = ht_lookup key_of h"
proof -
  have len: "length (buckets h) = NUM_HASH_TABLE_ENTRIES" and ok: "\<And>j. j < NUM_HASH_TABLE_ENTRIES \<Longrightarrow> bucket_ok key_of j (buckets h ! j)"
    using assms(1) by (simp_all add: ht_inv_def)
  have nth: "(buckets h)[i := ys] ! j = (if j = i then ys else buckets h ! j)" for j
    using len assms(2) by (simp add: nth_update_if eq_commute)
  have sets: "set ((buckets h)[i := ys] ! j) = set (buckets h ! j)" for j
    using assms(3) by (simp add: nth)
  have "bucket_ok key_of i ys" using ok [OF assms(2)] assms(3,4) by (simp add: bucket_ok_def)
  then have "bucket_ok key_of j ((buckets h)[i := ys] ! j)" if "j < NUM_HASH_TABLE_ENTRIES" for j
    using ok [OF that] by (simp add: nth)
  then show "ht_inv key_of \<lparr>mru_element = m, buckets = (buckets h)[i := ys]\<rparr>"
    using len assms(5) unfolding ht_inv_def by (simp add: sets)
  have "distinct (map key_of (buckets h ! i))" using ok [OF assms(2)] by (simp add: bucket_ok_def)
  then have "List.find (\<lambda>e. key_of e = k) ys = List.find (\<lambda>e. key_of e = k) (buckets h ! i)" for k
    using assms(3,4) by (intro ht_find_cong_set)
  then show "ht_lookup key_of \<lparr>mru_element = m, buckets = (buckets h)[i := ys]\<rparr> = ht_lookup key_of h"
    by (simp add: fun_eq_iff ht_lookup_def nth)
qed

lemma ht_Find_spec:
  assumes "ht_inv key_of h" and "ht_Find key_of key h = (r, h')"
  shows "r = ht_lookup key_of h key" and "ht_inv key_of h'" and "ht_lookup key_of h' = ht_lookup key_of h"
proof -
  have "r = ht_lookup key_of h key \<and> ht_inv key_of h' \<and> ht_lookup key_of h' = ht_lookup key_of h"
  proof (cases "case mru_element h of Some e \<Rightarrow> key_of e = key | None \<Rightarrow> False")
    case True
    then obtain e where "mru_element h = Some e" "key_of e = key" by (auto split: option.splits)
    moreover from this have "ht_lookup key_of h key = Some e"
      using assms(1) lookup_member [OF assms(1)] by (simp add: ht_inv_def)
    ultimately show ?thesis using assms by (auto simp: ht_Find_def)
  next
    case False
    let ?xs = "buckets h ! Hash key"
    show ?thesis
    proof (cases "chain_walk (\<lambda>cur. key_of cur = key) ?xs")
      case None
      then have "ht_lookup key_of h key = None" by (simp add: chain_walk_None ht_lookup_def find_None_iff)
      with None False assms show ?thesis by (simp add: ht_Find_def Let_def)
    next
      case (Some p)
      obtain e ys where p: "p = (e, ys)" by (cases p)
      from chain_walk_Some [OF Some [unfolded p], of key_of]
      have e: "key_of e = key" "e \<in> set ?xs" "set (e # ys) = set ?xs" "distinct (map key_of (e # ys))"
        using assms(1) by (auto simp: ht_inv_def bucket_ok_def)
      have eq: "r = Some e" "h' = \<lparr>mru_element = Some e, buckets = (buckets h)[Hash key := e # ys]\<rparr>"
        using Some p False assms(2) by (auto simp: ht_Find_def Let_def)
      have "ht_lookup key_of h key = Some e" using e lookup_member [OF assms(1)] by simp
      then show ?thesis
        using reorder_bucket [OF assms(1) Hash_less e(3,4), of "Some e"] e(1,2) by (simp add: eq)
    qed
  qed
  then show "r = ht_lookup key_of h key" "ht_inv key_of h'" "ht_lookup key_of h' = ht_lookup key_of h" by auto
qed

lemma ht_Insert_spec:
  assumes "ht_inv key_of h" and "ht_lookup key_of h (key_of e) = None"
  shows "ht_inv key_of (ht_Insert key_of e h)"
    and "ht_lookup key_of (ht_Insert key_of e h) = (ht_lookup key_of h)(key_of e \<mapsto> e)"
proof -
  have "\<forall>f \<in> set (buckets h ! Hash (key_of e)). key_of f \<noteq> key_of e"
    using assms(2) by (auto simp: ht_lookup_def find_None_iff)
  then show "ht_inv key_of (ht_Insert key_of e h)"
    using assms(1) by (auto simp: ht_Insert_def Let_def ht_inv_def bucket_ok_def nth_update_if)
  show "ht_lookup key_of (ht_Insert key_of e h) = (ht_lookup key_of h)(key_of e \<mapsto> e)"
    using assms(1) by (auto simp: fun_eq_iff ht_Insert_def Let_def ht_lookup_def ht_inv_def nth_update_if)
qed

lemma ht_Reset_spec:
  assumes "ht_inv key_of h"
  shows "ht_inv key_of (ht_Reset h)" and "ht_lookup key_of (ht_Reset h) = Map.empty"
  using assms by (auto simp: fun_eq_iff ht_Reset_def ht_inv_def bucket_ok_def ht_lookup_def)

lemma ht_init_spec: "ht_inv key_of ht_init" "ht_lookup key_of ht_init = Map.empty"
  by (auto simp: fun_eq_iff ht_init_def ht_inv_def bucket_ok_def ht_lookup_def)


section \<open>The interface of a keyed table\<close>

text \<open>What the clients of the table rely on: the map it represents, read by find and extended by insert.\<close>

locale keyed_table =
  fixes key_of :: "'e \<Rightarrow> 'k" and find :: "'k \<Rightarrow> 'h \<Rightarrow> 'e option \<times> 'h" and insert :: "'e \<Rightarrow> 'h \<Rightarrow> 'h"
    and lookup :: "'h \<Rightarrow> 'k \<Rightarrow> 'e option" and inv :: "'h \<Rightarrow> bool"
  assumes find_result: "inv h \<Longrightarrow> find k h = (r, h') \<Longrightarrow> r = lookup h k \<and> inv h' \<and> lookup h' = lookup h"
    and insert_fresh: "inv h \<Longrightarrow> lookup h (key_of e) = None \<Longrightarrow>
      inv (insert e h) \<and> lookup (insert e h) = (lookup h)(key_of e \<mapsto> e)"
    and lookup_key: "inv h \<Longrightarrow> lookup h k = Some e \<Longrightarrow> key_of e = k"
begin

lemma find_or_insert:
  assumes "inv h" and "find k h = (r, h1)" and "key_of e = k"
    and "(x, h2) = (case r of Some x \<Rightarrow> (x, h1) | None \<Rightarrow> (e, insert e h1))"
  shows "inv h2" and "key_of x = k" and "lookup h2 = (lookup h)(k \<mapsto> x)" and "x = (case lookup h k of Some y \<Rightarrow> y | None \<Rightarrow> e)"
proof -
  note f = find_result [OF assms(1,2)]
  have "inv h2 \<and> key_of x = k \<and> lookup h2 = (lookup h)(k \<mapsto> x) \<and> x = (case lookup h k of Some y \<Rightarrow> y | None \<Rightarrow> e)"
  proof (cases r)
    case None
    with assms(3,4) f insert_fresh [of h1 e] show ?thesis by auto
  next
    case (Some y)
    with f have "lookup h k = Some y" by simp
    with Some assms(1,4) f lookup_key [of h k y] show ?thesis by (auto simp: fun_upd_idem)
  qed
  then show "inv h2" "key_of x = k" "lookup h2 = (lookup h)(k \<mapsto> x)" "x = (case lookup h k of Some y \<Rightarrow> y | None \<Rightarrow> e)"
    by auto
qed

end

interpretation ht: keyed_table key_of "ht_Find key_of" "ht_Insert key_of" "ht_lookup key_of" "ht_inv key_of"
  for key_of :: "'e \<Rightarrow> 'k::len word"
proof unfold_locales
  show "r = ht_lookup key_of h k \<and> ht_inv key_of h' \<and> ht_lookup key_of h' = ht_lookup key_of h"
    if "ht_inv key_of h" "ht_Find key_of k h = (r, h')" for h k r h'
    using ht_Find_spec [OF that] by blast
  show "ht_inv key_of (ht_Insert key_of e h) \<and> ht_lookup key_of (ht_Insert key_of e h) = (ht_lookup key_of h)(key_of e \<mapsto> e)"
    if "ht_inv key_of h" "ht_lookup key_of h (key_of e) = None" for h e
    using ht_Insert_spec [OF that] by blast
  show "key_of e = k" if "ht_inv key_of h" "ht_lookup key_of h k = Some e" for h k e
    using lookup_member [OF that(1)] that(2) by blast
qed

section \<open>Removal and conversion\<close>

lemma Hash_small: "unat k < NUM_HASH_TABLE_ENTRIES \<Longrightarrow> Hash k = unat k"
  by (simp add: Hash_def)

lemma find_remove:
  assumes "distinct (map f (x # ys))" and "distinct (map f xs)" and "set xs = set (x # ys)"
  shows "List.find (\<lambda>e. f e = k) ys = (if k = f x then None else List.find (\<lambda>e. f e = k) xs)"
proof -
  have "List.find (\<lambda>e. f e = k) xs = List.find (\<lambda>e. f e = k) (x # ys)"
    by (rule ht_find_cong_set [OF assms(2,1,3)])
  moreover have "List.find (\<lambda>e. f e = f x) ys = None" using assms(1) by (auto simp: find_None_iff image_iff)
  ultimately show ?thesis by auto
qed

lemma ht_Remove_lookup:
  assumes "ht_inv key_of h"
  shows "ht_lookup key_of (ht_Remove key_of e h) k = (if unat k = Hash (key_of e) then None else ht_lookup key_of h k)"
proof -
  define i where "i = Hash (key_of e)"
  have i: "i < NUM_HASH_TABLE_ENTRIES" by (simp add: i_def)
  let ?xs = "buckets h ! i"
  have xs: "distinct (map key_of ?xs)" "length (buckets h) = NUM_HASH_TABLE_ENTRIES"
    using assms i by (simp_all add: ht_inv_def bucket_ok_def)
  have idx: "Hash k = i" if "unat k = i" using that i Hash_small [of k] by simp
  show ?thesis
  proof (cases "chain_walk (\<lambda>cur. unat (key_of cur) = i) ?xs")
    case None
    then have "\<forall>x \<in> set ?xs. unat (key_of x) \<noteq> i" by (simp add: chain_walk_None)
    then have "ht_lookup key_of h k = None" if "unat k = i"
      using that idx [OF that] by (auto simp: ht_lookup_def find_None_iff)
    with None show ?thesis by (simp add: ht_Remove_def Let_def ht_lookup_def flip: i_def)
  next
    case (Some p)
    obtain x ys where p: "p = (x, ys)" by (cases p)
    from chain_walk_Some [OF Some [unfolded p], of key_of] xs(1)
    have x: "unat (key_of x) = i" "set ?xs = set (x # ys)" "distinct (map key_of (x # ys))" by auto
    have "k = key_of x \<longleftrightarrow> unat k = i" using x(1) by (metis word_unat_eq_iff)
    then show ?thesis
      using find_remove [OF x(3) xs(1) x(2), of k] idx Some p i xs(2)
      by (auto simp: ht_Remove_def Let_def ht_lookup_def nth_update_if simp flip: i_def)
  qed
qed

lemma ht_Remove_inv:
  assumes "ht_inv key_of h" and "ht_lookup key_of h (key_of e) = Some e" and "unat (key_of e) < NUM_HASH_TABLE_ENTRIES"
  shows "ht_inv key_of (ht_Remove key_of e h)"
proof -
  define i where "i = Hash (key_of e)"
  have i: "i < NUM_HASH_TABLE_ENTRIES" "unat (key_of e) = i" using assms(3) by (simp_all add: i_def Hash_small)
  let ?xs = "buckets h ! i"
  have e: "e \<in> set ?xs" using assms(2) lookup_member [OF assms(1)] by (simp add: i_def)
  then obtain x ys where w: "chain_walk (\<lambda>cur. unat (key_of cur) = i) ?xs = Some (x, ys)"
    using i(2) by (cases "chain_walk (\<lambda>cur. unat (key_of cur) = i) ?xs") (auto simp: chain_walk_None)
  have ok: "bucket_ok key_of i ?xs" using assms(1) i(1) by (simp add: ht_inv_def)
  from chain_walk_Some [OF w, of key_of] ok
  have x: "unat (key_of x) = i" "set ?xs = insert x (set ys)" "distinct (map key_of (x # ys))" by (auto simp: bucket_ok_def)
  have "key_of x = key_of e" using x(1) i(2) by (simp add: word_unat_eq_iff)
  then have "x = e" using e x(2,3) by (auto simp: image_iff)
  with x ok have "bucket_ok key_of i ys" "set ys = set ?xs - {e}" by (auto simp: bucket_ok_def)
  with w i(1) assms(1) show ?thesis
    by (auto simp: ht_Remove_def Let_def ht_inv_def nth_update_if simp flip: i_def)
qed

text \<open>
  C31: \<open>Remove\<close> deletes the element whose key is the index of the chain, not the element given: a key
  below 4096 is removed, an element with a larger key stays in the table.
\<close>

theorem ht_Remove_by_index:
  assumes "ht_inv key_of h" and "ht_lookup key_of h (key_of e) = Some e"
  shows "ht_lookup key_of (ht_Remove key_of e h) = (\<lambda>k. if unat k = Hash (key_of e) then None else ht_lookup key_of h k) \<and>
    (unat (key_of e) < NUM_HASH_TABLE_ENTRIES \<longrightarrow> ht_inv key_of (ht_Remove key_of e h)) \<and>
    (NUM_HASH_TABLE_ENTRIES \<le> unat (key_of e) \<longrightarrow> ht_lookup key_of (ht_Remove key_of e h) (key_of e) = Some e)"
  using assms ht_Remove_lookup [OF assms(1), of e] ht_Remove_inv [OF assms]
  by (auto simp: fun_eq_iff Hash_def)

theorem ht_Remove_by_index_witness:
  "ht_lookup fst (ht_Remove fst (0x1005 :: 32 word, 0 :: nat) (ht_Insert fst (0x1005, 0) ht_init)) 0x1005 = Some (0x1005, 0)"
proof -
  let ?h = "ht_Insert fst (0x1005 :: 32 word, 0 :: nat) ht_init"
  have "ht_inv fst ?h" "ht_lookup fst ?h (fst (0x1005, 0)) = Some (0x1005, 0)"
    using ht_Insert_spec [OF ht_init_spec(1), of fst "(0x1005 :: 32 word, 0 :: nat)"] by (simp_all add: ht_init_spec)
  from ht_Remove_by_index [OF this, THEN conjunct2, THEN conjunct2] show ?thesis by simp
qed

lemma map_of_keys: "map_of (map (\<lambda>e. (f e, e)) xs) k = List.find (\<lambda>e. f e = k) xs"
  by (induction xs) auto

lemma ht_find_unique: "e \<in> set xs \<Longrightarrow> P e \<Longrightarrow> (\<And>x. x \<in> set xs \<Longrightarrow> P x \<Longrightarrow> x = e) \<Longrightarrow> List.find P xs = Some e"
proof (cases "List.find P xs")
  case None
  assume "e \<in> set xs" and "P e"
  with None show ?thesis by (simp add: find_None_iff)
next
  case (Some y)
  assume u: "\<And>x. x \<in> set xs \<Longrightarrow> P x \<Longrightarrow> x = e"
  from Some have "y \<in> set xs" "P y" by (auto simp: find_Some_iff)
  with u Some show ?thesis by blast
qed

text \<open>
  the conversion to a map contains exactly the elements of the table under their keys.
\<close>

theorem ht_to_map_contents:
  assumes "ht_inv key_of h"
  shows "ht_to_map key_of h = ht_lookup key_of h"
proof
  fix k
  have len: "length (buckets h) = NUM_HASH_TABLE_ENTRIES" using assms by (simp add: ht_inv_def)
  have m: "e \<in> set (concat (buckets h)) \<longleftrightarrow> ht_lookup key_of h (key_of e) = Some e" for e
  proof
    assume "e \<in> set (concat (buckets h))"
    then obtain xs where "xs \<in> set (buckets h)" and e: "e \<in> set xs" by auto
    then obtain j where j: "j < NUM_HASH_TABLE_ENTRIES" "xs = buckets h ! j" by (metis in_set_conv_nth len)
    then have "bucket_ok key_of j xs" using assms by (simp add: ht_inv_def)
    then have "Hash (key_of e) = j" using e by (simp add: bucket_ok_def)
    then show "ht_lookup key_of h (key_of e) = Some e" using e j by (simp add: lookup_member [OF assms])
  next
    assume "ht_lookup key_of h (key_of e) = Some e"
    then have "e \<in> set (buckets h ! Hash (key_of e))" by (simp add: lookup_member [OF assms])
    moreover have "buckets h ! Hash (key_of e) \<in> set (buckets h)" by (simp add: len)
    ultimately show "e \<in> set (concat (buckets h))" by auto
  qed
  show "ht_to_map key_of h k = ht_lookup key_of h k"
  proof (cases "ht_lookup key_of h k")
    case None
    then have "\<not> (\<exists>e. e \<in> set (concat (buckets h)) \<and> key_of e = k)" using m by (metis option.distinct(1))
    then have "List.find (\<lambda>e. key_of e = k) (concat (buckets h)) = None" by (simp only: find_None_iff not_False_eq_True)
    with None show ?thesis by (simp only: ht_to_map_def map_of_keys)
  next
    case (Some e)
    then have "key_of e = k" using lookup_member [OF assms] by blast
    then have "List.find (\<lambda>e. key_of e = k) (concat (buckets h)) = Some e"
      using m Some by (intro ht_find_unique) (metis option.inject)+
    with Some show ?thesis by (simp only: ht_to_map_def map_of_keys)
  qed
qed

theorem ht_to_map_contents_witness: "ht_to_map fst (ht_Insert fst (7 :: 32 word, 0 :: nat) ht_init) 7 = Some (7, 0)"
proof -
  have "ht_inv fst (ht_Insert fst (7 :: 32 word, 0 :: nat) ht_init)"
    "ht_lookup fst (ht_Insert fst (7 :: 32 word, 0 :: nat) ht_init) 7 = Some (7, 0)"
    using ht_Insert_spec [OF ht_init_spec(1), of fst "(7 :: 32 word, 0 :: nat)"] by (simp_all add: ht_init_spec)
  then show ?thesis by (simp add: ht_to_map_contents)
qed

end
