(* ===== verification/RAM_Memory.thy ===== *)
theory RAM_Memory
  imports Hash_Table
begin

text \<open>
  \<open>component/cxx/memory/ram\<close>: a memory whose pages are created on first access and kept in a
  \<open>HashTable\<close>. A page is a key and the index of its storage; pages are allocated one after the
  other. \<open>ps\<close> is the template parameter \<open>PAGE_SIZE\<close>. The input and output files are not
  modelled: the model is the memory without an output file. \<open>None\<close> as the result of an access
  means that the loop of the code does not end.
\<close>

section \<open>State\<close>

record (overloaded) ('p) ram =
  ram_org :: "'p word"
  ram_bytesize :: "'p word"
  lo_addr :: "'p word"
  hi_addr :: "'p word"
  memory_usage :: "'p word"
  initial_byte_value :: u8
  ram_table :: "('p word \<times> nat) hash_table"
  storages :: "u8 list list"

definition ram_init :: "'p::len word \<Rightarrow> 'p word \<Rightarrow> u8 \<Rightarrow> 'p ram" where
  "ram_init base bsize v = \<lparr>ram_org = base, ram_bytesize = bsize, lo_addr = 0, hi_addr = 0, memory_usage = 0,
     initial_byte_value = v, ram_table = ht_init, storages = []\<rparr>"

definition ram_ResetMemory :: "'p::len ram \<Rightarrow> 'p ram" where
  "ram_ResetMemory m = m\<lparr>ram_table := ht_Reset (ram_table m), memory_usage := 0\<rparr>"

definition ram_BeginSetup :: "'p::len ram \<Rightarrow> 'p ram" where
  "ram_BeginSetup m = ram_ResetMemory (m\<lparr>lo_addr := ram_org m, hi_addr := ram_org m + (ram_bytesize m - 1)\<rparr>)"

text \<open>The page of a key, created when there is none.\<close>

definition ram_page :: "nat \<Rightarrow> 'p::len word \<Rightarrow> 'p ram \<Rightarrow> nat \<times> 'p ram" where
  "ram_page ps key m =
     (case ht_Find fst key (ram_table m) of
        (Some e, h) \<Rightarrow> (snd e, m\<lparr>ram_table := h\<rparr>)
      | (None, h) \<Rightarrow>
          let e = (key, length (storages m)) in
          (snd e, m\<lparr>ram_table := ht_Insert fst e h,
                  storages := storages m @ [replicate ps (initial_byte_value m)],
                  memory_usage := memory_usage m + of_nat ps\<rparr>))"

definition page_off :: "nat \<Rightarrow> 'p::len word \<Rightarrow> 'p word" where
  "page_off ps a = a AND (of_nat ps - 1)"

definition in_ram :: "'p::len word \<Rightarrow> u32 \<Rightarrow> 'p ram \<Rightarrow> bool" where
  "in_ram phys sz m \<longleftrightarrow> \<not> (phys < lo_addr m \<or> hi_addr m < phys + ucast (sz - 1) \<or> phys + ucast sz < phys)"

text \<open>The size of the next copy: up to the end of the page or of the buffer.\<close>

definition copy_size :: "nat \<Rightarrow> 'p::len word \<Rightarrow> u32 \<Rightarrow> u32 \<Rightarrow> u32" where
  "copy_size ps a sz copied =
     (let max_copy_size = ucast (of_nat ps - page_off ps a) in
      if max_copy_size < sz - copied then max_copy_size else sz - copied)"

section \<open>Plain accesses\<close>

partial_function (option) ram_write_loop ::
  "nat \<Rightarrow> 'p::len word \<Rightarrow> u8 list \<Rightarrow> u32 \<Rightarrow> u32 \<Rightarrow> 'p ram \<Rightarrow> 'p ram option" where
  "ram_write_loop ps addr bs sz copied m =
     (let a = addr + ucast copied; (pg, m1) = ram_page ps (a div of_nat ps) m;
          n = copy_size ps a sz copied;
          m2 = m1\<lparr>storages := (storages m1)[pg :=
                 write_at (storages m1 ! pg) (unat (page_off ps a)) (read_at bs (unat copied) (unat n))]\<rparr>
      in if copied + n \<noteq> sz then ram_write_loop ps addr bs sz (copied + n) m2 else Some m2)"

definition ram_WriteMemory :: "nat \<Rightarrow> 'p::len word \<Rightarrow> u8 list \<Rightarrow> 'p ram \<Rightarrow> (bool \<times> 'p ram) option" where
  "ram_WriteMemory ps phys bs m =
     (let sz = of_nat (length bs) in
      if sz = 0 then Some (True, m)
      else if \<not> in_ram phys sz m then Some (False, m)
      else map_option (Pair True) (ram_write_loop ps (phys - lo_addr m) bs sz 0 m))"

partial_function (option) ram_read_loop ::
  "nat \<Rightarrow> 'p::len word \<Rightarrow> u8 list \<Rightarrow> u32 \<Rightarrow> u32 \<Rightarrow> 'p ram \<Rightarrow> (u8 list \<times> 'p ram) option" where
  "ram_read_loop ps addr bs sz copied m =
     (let a = addr + ucast copied; (pg, m1) = ram_page ps (a div of_nat ps) m;
          n = copy_size ps a sz copied;
          bs1 = bs @ read_at (storages m1 ! pg) (unat (page_off ps a)) (unat n)
      in if copied + n \<noteq> sz then ram_read_loop ps addr bs1 sz (copied + n) m1 else Some (bs1, m1))"

definition ram_ReadMemory :: "nat \<Rightarrow> 'p::len word \<Rightarrow> u32 \<Rightarrow> 'p ram \<Rightarrow> (u8 list option \<times> 'p ram) option" where
  "ram_ReadMemory ps phys sz m =
     (if sz = 0 then Some (Some [], m)
      else if \<not> in_ram phys sz m then Some (None, m)
      else map_option (\<lambda>(bs, m1). (Some bs, m1)) (ram_read_loop ps (phys - lo_addr m) [] sz 0 m))"

definition ram_GetDirectAccess :: "nat \<Rightarrow> 'p::len word \<Rightarrow> 'p ram \<Rightarrow> (nat \<times> 'p word \<times> 'p word) option \<times> 'p ram" where
  "ram_GetDirectAccess ps phys m =
     (if phys < lo_addr m \<or> hi_addr m < phys then (None, m)
      else let key = (phys - lo_addr m) div of_nat ps; (pg, m1) = ram_page ps key m;
               page_start = key * of_nat ps; page_end = page_start + of_nat ps - 1;
               s = page_start + lo_addr m; e = page_end + lo_addr m
           in (Some (pg, if hi_addr m < s then hi_addr m else s, if hi_addr m < e then hi_addr m else e), m1))"

section \<open>Writes with byte enables and streaming\<close>

text \<open>The bytes of one copy combined with those of the page, and the next byte enable offset.\<close>

fun be_combine :: "u8 list \<Rightarrow> u32 \<Rightarrow> u8 list \<Rightarrow> u8 list \<Rightarrow> u8 list \<times> u32" where
  "be_combine be off (s # src) (d # dst) =
     (let msk = be ! unat off; off1 = (if of_nat (length be) \<le> off + 1 then 0 else off + 1);
          (out, off2) = be_combine be off1 src dst
      in (((d AND NOT msk) OR (s AND msk)) # out, off2))"
| "be_combine be off _ _ = ([], off)"

text \<open>
  The loop over one page. The byte enable loop counts \<open>copy_size\<close> down to 0 before the offsets
  advance by it.
\<close>

partial_function (option) ram_write_be_page ::
  "nat \<Rightarrow> 'p::len word \<Rightarrow> u8 list \<Rightarrow> u32 \<Rightarrow> u8 list \<Rightarrow> u32 \<Rightarrow> 'p word \<Rightarrow> nat \<Rightarrow>
   u32 \<Rightarrow> u32 \<Rightarrow> u32 \<Rightarrow> u32 \<Rightarrow> 'p ram \<Rightarrow> (u32 \<times> u32 \<times> u32 \<times> 'p ram) option" where
  "ram_write_be_page ps addr bs sz be sw key pg offset copied be_off max_page m =
     (let c0 = sz - offset;
          c1 = (if max_page < c0 then max_page else c0);
          c2 = (if sw - offset < c1 then sw - offset else c1);
          poff = unat (page_off ps (addr + ucast offset));
          src = read_at bs (unat copied) (unat c2);
          (out, be_off1, n) =
            (if be \<noteq> [] then (case be_combine be be_off src (read_at (storages m ! pg) poff (unat c2)) of (out, o1) \<Rightarrow> (out, o1, 0))
             else (src, be_off, c2));
          m1 = m\<lparr>storages := (storages m)[pg := write_at (storages m ! pg) poff out]\<rparr>;
          offset1 = offset + n; copied1 = copied + n; max_page1 = max_page - n
      in if offset1 = sw \<and> addr div of_nat ps \<noteq> key then Some (0, copied1, be_off1, m1)
         else let offset2 = (if offset1 = sw then 0 else offset1) in
           if copied1 \<noteq> sz \<and> max_page1 \<noteq> 0
           then ram_write_be_page ps addr bs sz be sw key pg offset2 copied1 be_off1 max_page1 m1
           else Some (offset2, copied1, be_off1, m1))"

partial_function (option) ram_write_be_loop ::
  "nat \<Rightarrow> 'p::len word \<Rightarrow> u8 list \<Rightarrow> u32 \<Rightarrow> u8 list \<Rightarrow> u32 \<Rightarrow> u32 \<Rightarrow> u32 \<Rightarrow> u32 \<Rightarrow> 'p ram \<Rightarrow> 'p ram option" where
  "ram_write_be_loop ps addr bs sz be sw offset copied be_off m =
     (let key = (addr + ucast offset) div of_nat ps; (pg, m1) = ram_page ps key m;
          max_page = ucast (of_nat ps - page_off ps (addr + ucast offset))
      in case ram_write_be_page ps addr bs sz be sw key pg offset copied be_off max_page m1 of
           None \<Rightarrow> None
         | Some r \<Rightarrow> (case r of (offset1, copied1, be_off1, m2) \<Rightarrow>
             if copied1 \<noteq> sz then ram_write_be_loop ps addr bs sz be sw offset1 copied1 be_off1 m2 else Some m2))"

definition ram_WriteMemory_be ::
  "nat \<Rightarrow> 'p::len word \<Rightarrow> u8 list \<Rightarrow> u8 list \<Rightarrow> u32 \<Rightarrow> 'p ram \<Rightarrow> (bool \<times> 'p ram) option" where
  "ram_WriteMemory_be ps phys bs be sw m =
     (let sz = of_nat (length bs) in
      if sz = 0 then Some (True, m)
      else if \<not> in_ram phys sz m then Some (False, m)
      else map_option (Pair True)
             (ram_write_be_loop ps (phys - lo_addr m) bs sz be (if sw = 0 then sz else sw) 0 0 0 m))"

text \<open>The read with byte enables: the bytes of the page are combined into the buffer.\<close>

partial_function (option) ram_read_be_page ::
  "nat \<Rightarrow> 'p::len word \<Rightarrow> u32 \<Rightarrow> u8 list \<Rightarrow> u32 \<Rightarrow> 'p word \<Rightarrow> nat \<Rightarrow>
   u32 \<Rightarrow> u32 \<Rightarrow> u32 \<Rightarrow> u32 \<Rightarrow> 'p ram \<Rightarrow> u8 list \<Rightarrow> (u32 \<times> u32 \<times> u32 \<times> u8 list) option" where
  "ram_read_be_page ps addr sz be sw key pg offset copied be_off max_page m buf =
     (let c0 = sz - offset;
          c1 = (if max_page < c0 then max_page else c0);
          c2 = (if sw - offset < c1 then sw - offset else c1);
          src = read_at (storages m ! pg) (unat (page_off ps (addr + ucast offset))) (unat c2);
          (out, be_off1) =
            (if be \<noteq> [] then be_combine be be_off src (read_at buf (unat copied) (unat c2)) else (src, be_off));
          buf1 = write_at buf (unat copied) out;
          offset1 = offset + c2; copied1 = copied + c2; max_page1 = max_page - c2
      in if offset1 = sw \<and> addr div of_nat ps \<noteq> key then Some (0, copied1, be_off1, buf1)
         else let offset2 = (if offset1 = sw then 0 else offset1) in
           if copied1 \<noteq> sz \<and> max_page1 \<noteq> 0
           then ram_read_be_page ps addr sz be sw key pg offset2 copied1 be_off1 max_page1 m buf1
           else Some (offset2, copied1, be_off1, buf1))"

partial_function (option) ram_read_be_loop ::
  "nat \<Rightarrow> 'p::len word \<Rightarrow> u32 \<Rightarrow> u8 list \<Rightarrow> u32 \<Rightarrow> u32 \<Rightarrow> u32 \<Rightarrow> u32 \<Rightarrow> 'p ram \<Rightarrow> u8 list \<Rightarrow>
   (u8 list \<times> 'p ram) option" where
  "ram_read_be_loop ps addr sz be sw offset copied be_off m buf =
     (let key = (addr + ucast offset) div of_nat ps; (pg, m1) = ram_page ps key m;
          max_page = ucast (of_nat ps - page_off ps (addr + ucast offset))
      in case ram_read_be_page ps addr sz be sw key pg offset copied be_off max_page m1 buf of
           None \<Rightarrow> None
         | Some r \<Rightarrow> (case r of (offset1, copied1, be_off1, buf1) \<Rightarrow>
             if copied1 \<noteq> sz then ram_read_be_loop ps addr sz be sw offset1 copied1 be_off1 m1 buf1 else Some (buf1, m1)))"

definition ram_ReadMemory_be ::
  "nat \<Rightarrow> 'p::len word \<Rightarrow> u8 list \<Rightarrow> u8 list \<Rightarrow> u32 \<Rightarrow> 'p ram \<Rightarrow> (bool \<times> u8 list \<times> 'p ram) option" where
  "ram_ReadMemory_be ps phys buf be sw m =
     (let sz = of_nat (length buf) in
      if sz = 0 then Some (True, buf, m)
      else if \<not> in_ram phys sz m then Some (False, buf, m)
      else map_option (Pair True)
             (ram_read_be_loop ps (phys - lo_addr m) sz be (if sw = 0 then sz else sw) 0 0 0 m buf))"

section \<open>The bytes a memory holds\<close>

definition ram_byte :: "nat \<Rightarrow> 'p::len ram \<Rightarrow> 'p word \<Rightarrow> u8" where
  "ram_byte ps m a = (case ht_lookup fst (ram_table m) (a div of_nat ps) of
     None \<Rightarrow> initial_byte_value m | Some e \<Rightarrow> storages m ! snd e ! unat (page_off ps a))"

definition ram_mem :: "nat \<Rightarrow> 'p::len ram \<Rightarrow> 'p word \<Rightarrow> u8" where
  "ram_mem ps m x = ram_byte ps m (x - lo_addr m)"

definition ram_inv :: "nat \<Rightarrow> 'p::len ram \<Rightarrow> bool" where
  "ram_inv ps m \<longleftrightarrow> ht_inv fst (ram_table m) \<and> (\<forall>st \<in> set (storages m). length st = ps) \<and>
     (\<forall>k e. ht_lookup fst (ram_table m) k = Some e \<longrightarrow> snd e < length (storages m)) \<and>
     (\<forall>k l e f. ht_lookup fst (ram_table m) k = Some e \<longrightarrow> ht_lookup fst (ram_table m) l = Some f \<longrightarrow> snd e = snd f \<longrightarrow> k = l)"

text \<open>Page sizes are powers of two that the address and the 32-bit counters can hold.\<close>

definition page_size_ok :: "'p::len itself \<Rightarrow> nat \<Rightarrow> bool" where
  "page_size_ok T ps \<longleftrightarrow> (\<exists>n. ps = 2 ^ n \<and> n < 32 \<and> n < LENGTH('p))"

lemma page_size_pos: "page_size_ok T ps \<Longrightarrow> 0 < ps"
  by (auto simp: page_size_ok_def)

lemma unat_page_off:
  assumes "page_size_ok TYPE('p::len) ps"
  shows "unat (page_off ps (a :: 'p word)) = unat a mod ps" and "unat (a div of_nat ps) = unat a div ps"
proof -
  from assms obtain n where n: "ps = 2 ^ n" "n < LENGTH('p)" by (auto simp: page_size_ok_def)
  show "unat (page_off ps a) = unat a mod ps" by (simp add: page_off_def n unat_and_low_mask)
  have "unat (of_nat ps :: 'p word) = ps" using n by (subst unat_of_nat) simp
  then show "unat (a div of_nat ps) = unat a div ps" by (simp add: unat_div)
qed

lemma page_div_eq:
  assumes "page_size_ok TYPE('p::len) ps"
  shows "(a :: 'p word) div of_nat ps = b div of_nat ps \<longleftrightarrow> unat a div ps = unat b div ps"
  using unat_page_off(2) [OF assms] by (metis word_unat_eq_iff)

section \<open>Setup\<close>

lemma ram_BeginSetup_inv:
  "ram_inv ps (ram_BeginSetup (ram_init org sz v))" "ram_byte ps (ram_BeginSetup (ram_init org sz v)) a = v"
  by (simp_all add: ht_Reset_spec [OF ht_init_spec(1)] ram_inv_def ram_byte_def ram_BeginSetup_def ram_ResetMemory_def ram_init_def)

text \<open>The memory the examples below use: four pages of 16 bytes at \<open>0x100\<close>.\<close>

definition ram_example :: "32 ram" where
  "ram_example = ram_BeginSetup (ram_init 0x100 0x40 0xA5)"

lemma ram_example_mem: "ram_mem 16 ram_example a = 0xA5"
  by (simp add: ram_mem_def ram_example_def ram_BeginSetup_inv(2))

lemma ram_example [simp]:
  "page_size_ok TYPE(32) 16" "ram_inv 16 ram_example" "lo_addr ram_example = 0x100" "hi_addr ram_example = 0x13F"
proof -
  show "page_size_ok TYPE(32) 16" unfolding page_size_ok_def by (rule exI [of _ 4]) simp
qed (simp_all add: ram_example_def ram_BeginSetup_inv, simp_all add: ram_BeginSetup_def ram_ResetMemory_def ram_init_def)

section \<open>Page lookup\<close>

lemma ram_page_spec:
  assumes ps: "page_size_ok TYPE('p::len) ps" and inv: "ram_inv ps (m :: 'p ram)" and "ram_page ps key m = (pg, m1)"
  shows "ram_inv ps m1" and "\<And>a. ram_byte ps m1 a = ram_byte ps m a"
    and "ht_lookup fst (ram_table m1) key = Some (key, pg)"
    and "lo_addr m1 = lo_addr m" and "hi_addr m1 = hi_addr m"
proof -
  obtain r h1 where f: "ht_Find fst key (ram_table m) = (r, h1)" by fastforce
  let ?new = "(key, length (storages m))"
  define e where "e = (case r of Some y \<Rightarrow> y | None \<Rightarrow> ?new)"
  define h where "h = (case r of Some y \<Rightarrow> h1 | None \<Rightarrow> ht_Insert fst ?new h1)"
  have ht: "ht_inv fst (ram_table m)" using inv by (simp add: ram_inv_def)
  have eh: "(e, h) = (case r of Some x \<Rightarrow> (x, h1) | None \<Rightarrow> (?new, ht_Insert fst ?new h1))"
    by (simp add: e_def h_def split: option.split)
  note L = ht.find_or_insert [OF ht f _ eh, simplified]
  have r: "r = ht_lookup fst (ram_table m) key" using ht_Find_spec [OF ht f] by simp
  have m1: "pg = snd e" "ram_table m1 = h" "lo_addr m1 = lo_addr m" "hi_addr m1 = hi_addr m"
    "initial_byte_value m1 = initial_byte_value m"
    "storages m1 = (case r of Some y \<Rightarrow> storages m | None \<Rightarrow> storages m @ [replicate ps (initial_byte_value m)])"
    using assms(3) f by (auto simp: ram_page_def e_def h_def Let_def split: option.splits)
  show "lo_addr m1 = lo_addr m" "hi_addr m1 = hi_addr m" using m1 by auto
  show "ht_lookup fst (ram_table m1) key = Some (key, pg)" using L m1 by (simp add: prod_eq_iff)
  show "ram_inv ps m1"
  proof (cases r)
    case None
    then have e: "e = ?new" and st: "storages m1 = storages m @ [replicate ps (initial_byte_value m)]" by (simp_all add: e_def m1)
    have "snd f < length (storages m)" if "ht_lookup fst (ram_table m) k = Some f" for k f
      using inv that unfolding ram_inv_def by blast
    then show ?thesis
      using inv L unfolding ram_inv_def m1(2) st e by (auto simp: less_Suc_eq)
  next
    case (Some y)
    then have "ht_lookup fst h = ht_lookup fst (ram_table m)" using L r by (simp add: e_def fun_upd_idem)
    then show ?thesis using inv L Some by (simp add: ram_inv_def m1)
  qed
  show "ram_byte ps m1 a = ram_byte ps m a" for a
  proof (cases r)
    case None
    have "unat (page_off ps a) < ps" using page_size_pos [OF ps] by (simp add: unat_page_off [OF ps])
    moreover have "snd f < length (storages m)" if "ht_lookup fst (ram_table m) k = Some f" for k f
      using inv that unfolding ram_inv_def by blast
    ultimately show ?thesis
      using None r L by (auto simp: ram_byte_def m1 e_def nth_append split: option.split)
  next
    case (Some y)
    then have "ht_lookup fst h = ht_lookup fst (ram_table m)" using L r by (simp add: e_def fun_upd_idem)
    then have h: "ht_lookup fst h = ht_lookup fst (ram_table m)" .
    have st: "storages m1 = storages m" using Some m1(6) by simp
    show ?thesis unfolding ram_byte_def m1(2,5) st h ..
  qed
qed


section \<open>Writing and reading one chunk\<close>

lemma same_page:
  fixes a x ps n :: nat
  assumes "n \<le> ps - a mod ps" and "a \<le> x" and "x < a + n"
  shows "x div ps = a div ps" and "x mod ps = a mod ps + (x - a)"
proof -
  have "x = a div ps * ps + (a mod ps + (x - a))" using assms(2) by simp
  moreover have "a mod ps + (x - a) < ps" using assms by linarith
  ultimately show "x div ps = a div ps" "x mod ps = a mod ps + (x - a)"
    by (metis div_mult_self3 div_less add.right_neutral less_nat_zero_code gr_zeroI mult.commute, metis mod_mult_self3 mod_less)
qed

lemma ram_put_chunk:
  assumes ps: "page_size_ok TYPE('p::len) ps" and inv: "ram_inv ps (m :: 'p ram)"
    and lk: "ht_lookup fst (ram_table m) (a div of_nat ps) = Some (a div of_nat ps, pg)"
    and len: "length xs \<le> ps - unat a mod ps"
  defines "m2 \<equiv> m\<lparr>storages := (storages m)[pg := write_at (storages m ! pg) (unat (page_off ps a)) xs]\<rparr>"
  shows "ram_inv ps m2" and "ram_byte ps m2 = seg_upd (ram_byte ps m) a xs"
proof -
  have pg: "pg < length (storages m)" using inv lk unfolding ram_inv_def by fastforce
  then have lpg: "length (storages m ! pg) = ps" using inv by (simp add: ram_inv_def)
  have off: "unat (page_off ps a) = unat a mod ps" by (rule unat_page_off(1) [OF ps])
  have fits: "unat a mod ps + length xs \<le> length (storages m ! pg)"
    using len lpg mod_less_divisor [OF page_size_pos [OF ps], of "unat a"] by linarith
  show "ram_inv ps m2"
    using inv fits lpg unfolding ram_inv_def m2_def
    by (auto simp: off set_update_subset_insert [THEN subsetD] dest!: set_update_subset_insert [THEN subsetD])
  show "ram_byte ps m2 = seg_upd (ram_byte ps m) a xs"
  proof
    fix x
    show "ram_byte ps m2 x = seg_upd (ram_byte ps m) a xs x"
    proof (cases "x div of_nat ps = a div of_nat ps")
      case True
      have q: "unat x div ps = unat a div ps" using True by (simp add: page_div_eq [OF ps])
      have "unat x = unat a div ps * ps + unat x mod ps" "unat a = unat a div ps * ps + unat a mod ps"
        using q div_mult_mod_eq [of "unat x" ps] div_mult_mod_eq [of "unat a" ps] by simp_all
      then have "in_seg a (length xs) x \<longleftrightarrow> unat a mod ps \<le> unat x mod ps \<and> unat x mod ps < unat a mod ps + length xs"
        and "unat x - unat a = unat x mod ps - unat a mod ps"
        unfolding in_seg_def by linarith+
      moreover have "unat x mod ps < length (storages m ! pg)" using lpg page_size_pos [OF ps] by simp
      ultimately show ?thesis
        using True lk fits pg by (simp add: ram_byte_def m2_def seg_upd_def off unat_page_off(1) [OF ps] nth_write_at)
    next
      case False
      have "\<not> in_seg a (length xs) x"
        using False same_page(1) [OF len, of "unat x"] by (auto simp: in_seg_def page_div_eq [OF ps])
      moreover have "snd e \<noteq> pg" if "ht_lookup fst (ram_table m) (x div of_nat ps) = Some e" for e
        using False that lk inv unfolding ram_inv_def by (metis snd_conv)
      ultimately show ?thesis by (auto simp: ram_byte_def m2_def seg_upd_def split: option.split)
    qed
  qed
qed

lemma unat_copy_size:
  assumes "page_size_ok TYPE('p::len) ps" and "unat copied \<le> unat sz"
  shows "unat (copy_size ps (a :: 'p word) sz copied) = min (ps - unat a mod ps) (unat sz - unat copied)"
proof -
  from assms(1) obtain n where n: "ps = 2 ^ n" "n < 32" "n < LENGTH('p)" by (auto simp: page_size_ok_def)
  have psu: "unat (of_nat ps :: 'p word) = ps" using n by (subst unat_of_nat) simp
  have off: "unat (page_off ps a) = unat a mod ps" by (rule unat_page_off(1) [OF assms(1)])
  have "unat a mod ps \<le> ps" using page_size_pos [OF assms(1)] by (simp add: less_imp_le)
  then have "unat (of_nat ps - page_off ps a) = ps - unat a mod ps"
    by (simp add: unat_sub word_le_nat_alt psu off)
  moreover have "ps < 2 ^ 32" using n power_strict_increasing [of n 32 "2 :: nat"] by simp
  ultimately have "unat (ucast (of_nat ps - page_off ps a) :: u32) = ps - unat a mod ps"
    by (simp add: unsigned_ucast_eq take_bit_nat_eq_self)
  moreover have "unat (sz - copied) = unat sz - unat copied" using assms(2) by (simp add: unat_sub word_le_nat_alt)
  ultimately show ?thesis by (auto simp: copy_size_def Let_def word_less_nat_alt)
qed

lemma seg_upd_append:
  assumes "unat (a :: 'p::len word) + length xs < 2 ^ LENGTH('p)"
  shows "seg_upd (seg_upd f a xs) (a + of_nat (length xs)) ys = seg_upd f a (xs @ ys)"
proof
  fix x
  have "unat (a + of_nat (length xs)) = unat a + length xs" using assms by (simp add: unat_word_ariths unat_of_nat)
  then show "seg_upd (seg_upd f a xs) (a + of_nat (length xs)) ys x = seg_upd f a (xs @ ys) x"
    by (auto simp: seg_upd_def in_seg_def nth_append)
qed

lemma write_loop_spec:
  fixes addr :: "'p::len word"
  assumes ps: "page_size_ok TYPE('p) ps" and inv: "ram_inv ps m" and sz: "unat sz = length bs"
    and c: "unat copied < unat sz" and fit: "unat addr + length bs \<le> 2 ^ LENGTH('p)"
  shows "\<exists>m'. ram_write_loop ps addr bs sz copied m = Some m' \<and> ram_inv ps m' \<and>
    ram_byte ps m' = seg_upd (ram_byte ps m) (addr + of_nat (unat copied)) (drop (unat copied) bs) \<and>
    lo_addr m' = lo_addr m \<and> hi_addr m' = hi_addr m"
  using inv c
proof (induction "unat sz - unat copied" arbitrary: copied m rule: less_induct)
  case less
  let ?a = "addr + ucast copied" and ?n = "copy_size ps (addr + ucast copied) sz copied"
  have uc: "ucast copied = (of_nat (unat copied) :: 'p word)" by simp
  have ua: "unat ?a = unat addr + unat copied"
    using fit sz less.prems(2) unfolding uc by (intro unat_seg_add [of addr "length bs"]) auto
  have n: "unat ?n = min (ps - unat ?a mod ps) (unat sz - unat copied)"
    using less.prems(2) by (intro unat_copy_size [OF ps]) simp
  have npos: "0 < unat ?n" using n less.prems(2) page_size_pos [OF ps] by simp
  have "unat sz < 2 ^ LENGTH(32)" by (rule unsigned_less)
  then have cn: "unat (copied + ?n) = unat copied + unat ?n"
    using n less.prems(2) by (subst unat_word_ariths) simp
  obtain pg m1 where pg: "ram_page ps (?a div of_nat ps) m = (pg, m1)" by fastforce
  note P = ram_page_spec [OF ps less.prems(1) pg]
  define xs where "xs = read_at bs (unat copied) (unat ?n)"
  have lxs: "length xs = unat ?n" "unat ?n \<le> ps - unat ?a mod ps"
    using n sz less.prems(2) by (simp_all add: xs_def read_at_def)
  define m2 where "m2 = m1\<lparr>storages := (storages m1)[pg := write_at (storages m1 ! pg) (unat (page_off ps ?a)) xs]\<rparr>"
  have M: "ram_inv ps m2" "ram_byte ps m2 = seg_upd (ram_byte ps m1) ?a xs"
    using ram_put_chunk [OF ps P(1) P(3)] lxs by (auto simp: m2_def)
  have step: "ram_write_loop ps addr bs sz copied m =
      (if copied + ?n \<noteq> sz then ram_write_loop ps addr bs sz (copied + ?n) m2 else Some m2)"
    by (subst ram_write_loop.simps) (simp add: Let_def pg m2_def xs_def)
  have rb: "ram_byte ps m1 = ram_byte ps m" using P(2) by (simp add: fun_eq_iff)
  show ?case
  proof (cases "copied + ?n = sz")
    case True
    then have "unat copied + unat ?n = unat sz" using cn by metis
    then have xs_all: "xs = drop (unat copied) bs" using sz unfolding xs_def read_at_def by simp
    show ?thesis using True step M P(4,5) unfolding xs_all uc rb by (simp add: m2_def)
  next
    case False
    then have ne: "unat copied + unat ?n \<noteq> unat sz" using cn by (metis word_unat_eq_iff)
    then have lt: "unat (copied + ?n) < unat sz" using n cn less.prems(2) by simp
    have "unat sz - unat (copied + ?n) < unat sz - unat copied" using cn npos less.prems(2) by simp
    from less.hyps [OF this M(1) lt] obtain m'
      where m': "ram_write_loop ps addr bs sz (copied + ?n) m2 = Some m'" "ram_inv ps m'"
        "ram_byte ps m' = seg_upd (ram_byte ps m2) (addr + of_nat (unat (copied + ?n))) (drop (unat (copied + ?n)) bs)"
        "lo_addr m' = lo_addr m2" "hi_addr m' = hi_addr m2"
      by blast
    have "seg_upd (seg_upd (ram_byte ps m) ?a xs) (?a + of_nat (length xs)) (drop (unat (copied + ?n)) bs) =
        seg_upd (ram_byte ps m) ?a (xs @ drop (unat (copied + ?n)) bs)"
      using ua lxs lt cn fit sz by (intro seg_upd_append) simp
    moreover have "xs @ drop (unat (copied + ?n)) bs = drop (unat copied) bs"
      unfolding cn xs_def read_at_def by (metis append_take_drop_id drop_drop add.commute)
    moreover have "?a + of_nat (length xs) = addr + of_nat (unat (copied + ?n))" unfolding lxs(1) cn of_nat_add add.assoc by simp
    ultimately have "ram_byte ps m' = seg_upd (ram_byte ps m) ?a (drop (unat copied) bs)"
      using m'(3) M(2) rb by metis
    then show ?thesis using False step m'(1,2,4,5) P(4,5) unfolding uc by (simp add: m2_def)
  qed
qed

lemma seg_read_append:
  "seg_read f a (n + k) = seg_read f a n @ seg_read f (a + of_nat n) k"
  by (rule nth_equalityI) (auto simp: seg_read_def nth_append algebra_simps)

lemma ram_get_chunk:
  fixes a :: "'p::len word"
  assumes ps: "page_size_ok TYPE('p) ps" and inv: "ram_inv ps m"
    and lk: "ht_lookup fst (ram_table m) (a div of_nat ps) = Some (a div of_nat ps, pg)"
    and len: "n \<le> ps - unat a mod ps" and fit: "unat a + n \<le> 2 ^ LENGTH('p)"
  shows "read_at (storages m ! pg) (unat (page_off ps a)) n = seg_read (ram_byte ps m) a n"
proof (rule nth_equalityI)
  have pg: "pg < length (storages m)" using inv lk unfolding ram_inv_def by fastforce
  then have lpg: "length (storages m ! pg) = ps" using inv by (simp add: ram_inv_def)
  have fits: "unat a mod ps + n \<le> length (storages m ! pg)"
    using len lpg mod_less_divisor [OF page_size_pos [OF ps], of "unat a"] by linarith
  have off: "unat (page_off ps a) = unat a mod ps" by (rule unat_page_off(1) [OF ps])
  show l: "length (read_at (storages m ! pg) (unat (page_off ps a)) n) = length (seg_read (ram_byte ps m) a n)"
    using fits by (simp add: off)
  fix j assume "j < length (read_at (storages m ! pg) (unat (page_off ps a)) n)"
  then have j: "j < n" by (simp add: read_at_def)
  have u: "unat (a + of_nat j) = unat a + j" by (rule unat_seg_add [OF fit j])
  note sp = same_page [OF len, of "unat a + j"]
  have "(a + of_nat j) div of_nat ps = a div of_nat ps" using sp j by (simp add: page_div_eq [OF ps] u)
  moreover have "unat (page_off ps (a + of_nat j)) = unat a mod ps + j" using sp j by (simp add: unat_page_off(1) [OF ps] u)
  ultimately show "read_at (storages m ! pg) (unat (page_off ps a)) n ! j = seg_read (ram_byte ps m) a n ! j"
    using j fits lk by (simp add: nth_read_at off seg_read_def ram_byte_def)
qed

text \<open>The first step of a loop: the sizes and the addresses it uses.\<close>

lemma copy_step:
  fixes addr :: "'p::len word"
  assumes ps: "page_size_ok TYPE('p) ps" and c: "unat copied < unat sz" and fit: "unat addr + unat sz \<le> 2 ^ LENGTH('p)"
  defines "n \<equiv> copy_size ps (addr + ucast copied) sz copied"
  shows "unat (addr + ucast copied) = unat addr + unat copied"
    and "unat n = min (ps - unat (addr + ucast copied) mod ps) (unat sz - unat copied)"
    and "0 < unat n" and "unat (copied + n) = unat copied + unat n"
proof -
  have uc: "ucast copied = (of_nat (unat copied) :: 'p word)" by simp
  show "unat (addr + ucast copied) = unat addr + unat copied"
    using fit c unfolding uc by (intro unat_seg_add [of addr "unat sz"]) auto
  show n: "unat n = min (ps - unat (addr + ucast copied) mod ps) (unat sz - unat copied)"
    unfolding n_def using c by (intro unat_copy_size [OF ps]) simp
  then show "0 < unat n" using c page_size_pos [OF ps] by simp
  have "unat sz < 2 ^ LENGTH(32)" by (rule unsigned_less)
  then show "unat (copied + n) = unat copied + unat n" using n c by (subst unat_word_ariths) simp
qed

lemma read_loop_spec:
  fixes addr :: "'p::len word"
  assumes ps: "page_size_ok TYPE('p) ps" and inv: "ram_inv ps m" and c: "unat copied < unat sz"
    and fit: "unat addr + unat sz \<le> 2 ^ LENGTH('p)"
  shows "\<exists>m'. ram_read_loop ps addr acc sz copied m =
      Some (acc @ seg_read (ram_byte ps m) (addr + of_nat (unat copied)) (unat sz - unat copied), m') \<and>
    ram_inv ps m' \<and> ram_byte ps m' = ram_byte ps m \<and> lo_addr m' = lo_addr m \<and> hi_addr m' = hi_addr m"
  using inv c
proof (induction "unat sz - unat copied" arbitrary: copied m acc rule: less_induct)
  case less
  define a where "a = addr + (ucast copied :: 'p word)"
  define n where "n = copy_size ps a sz copied"
  note C = copy_step [OF ps less.prems(2) fit, folded a_def, folded n_def]
  obtain pg m1 where pg: "ram_page ps (a div of_nat ps) m = (pg, m1)" by fastforce
  note P = ram_page_spec [OF ps less.prems(1) pg]
  have rb: "ram_byte ps m1 = ram_byte ps m" using P(2) by (simp add: fun_eq_iff)
  define xs where "xs = read_at (storages m1 ! pg) (unat (page_off ps a)) (unat n)"
  have xs: "xs = seg_read (ram_byte ps m) a (unat n)"
    unfolding xs_def rb [symmetric] using C fit less.prems(2) by (intro ram_get_chunk [OF ps P(1) P(3)]) auto
  have step: "ram_read_loop ps addr acc sz copied m =
      (if copied + n \<noteq> sz then ram_read_loop ps addr (acc @ xs) sz (copied + n) m1 else Some (acc @ xs, m1))"
    by (subst ram_read_loop.simps) (simp add: Let_def pg xs_def n_def flip: a_def)
  have a: "addr + of_nat (unat copied) = a" by (simp add: a_def)
  show ?case
  proof (cases "copied + n = sz")
    case True
    then have "unat sz - unat copied = unat n" using C(4) by (metis add_diff_cancel_left')
    with True step P rb show ?thesis unfolding a by (simp add: xs)
  next
    case False
    then have ne: "unat copied + unat n \<noteq> unat sz" using C(4) by (metis word_unat_eq_iff)
    then have lt: "unat (copied + n) < unat sz" using C less.prems(2) by simp
    have "unat sz - unat (copied + n) < unat sz - unat copied" using C(3,4) less.prems(2) by linarith
    from less.hyps [OF this P(1) lt] obtain m'
      where m': "ram_read_loop ps addr (acc @ xs) sz (copied + n) m1 =
          Some ((acc @ xs) @ seg_read (ram_byte ps m1) (addr + of_nat (unat (copied + n))) (unat sz - unat (copied + n)), m')"
        "ram_inv ps m'" "ram_byte ps m' = ram_byte ps m1" "lo_addr m' = lo_addr m1" "hi_addr m' = hi_addr m1"
      by blast
    have "addr + of_nat (unat (copied + n)) = a + of_nat (unat n)" unfolding C(4) a [symmetric] of_nat_add add.assoc ..
    moreover have "unat sz - unat copied = unat n + (unat sz - unat (copied + n))" using C(4) lt by simp
    ultimately have "seg_read (ram_byte ps m) a (unat sz - unat copied) =
        xs @ seg_read (ram_byte ps m) (addr + of_nat (unat (copied + n))) (unat sz - unat (copied + n))"
      by (simp only: seg_read_append xs)
    with False step m' P(4,5) rb show ?thesis unfolding a by simp
  qed
qed

section \<open>Accesses\<close>

text \<open>What the guard of the accesses lets through.\<close>

lemma in_ram_iff:
  assumes "32 \<le> LENGTH('p::len)" and "sz \<noteq> 0"
  shows "in_ram (phys :: 'p word) sz m \<longleftrightarrow> lo_addr m \<le> phys \<and> unat phys + unat sz < 2 ^ LENGTH('p) \<and>
    unat phys + (unat sz - 1) \<le> unat (hi_addr m)"
proof -
  have "unat sz < 2 ^ LENGTH(32)" by (rule unsigned_less)
  also have "(2 :: nat) ^ LENGTH(32) \<le> 2 ^ LENGTH('p)" using assms(1) by (intro power_increasing) simp_all
  finally have s: "unat sz < 2 ^ LENGTH('p)" .
  have "sz - 1 < sz" using assms(2) by (simp add: word_less_nat_alt unat_sub word_le_nat_alt unat_gt_0 Suc_le_eq)
  then have s1: "unat (sz - 1) = unat sz - 1"
    using assms(2) by (simp add: unat_sub word_le_nat_alt unat_gt_0 Suc_le_eq)
  have u: "unat (ucast sz :: 'p word) = unat sz" "unat (ucast (sz - 1) :: 'p word) = unat sz - 1"
    using s s1 by (simp_all add: unsigned_ucast_eq take_bit_nat_eq_self)
  have pos: "0 < unat sz" using assms(2) by (simp add: unat_gt_0)
  have p: "unat phys < 2 ^ LENGTH('p)" by (rule unsigned_less)
  have w: "phys + ucast sz < phys \<longleftrightarrow> 2 ^ LENGTH('p) \<le> unat phys + unat sz"
    using s p by (auto simp: word_less_nat_alt unat_word_ariths u not_le[symmetric] mod_if)
  show ?thesis
  proof (cases "unat phys + unat sz < 2 ^ LENGTH('p)")
    case True
    then have "unat (phys + ucast (sz - 1)) = unat phys + (unat sz - 1)" by (simp add: unat_word_ariths u)
    with True w show ?thesis by (auto simp: in_ram_def word_less_nat_alt word_le_nat_alt)
  next
    case False
    with w show ?thesis by (simp add: in_ram_def)
  qed
qed

lemma seg_shift:
  fixes lo phys x :: "'p::len word"
  assumes "lo \<le> phys" and "unat phys + n \<le> 2 ^ LENGTH('p)"
  shows "in_seg (phys - lo) n (x - lo) = in_seg phys n x"
    and "in_seg phys n x \<Longrightarrow> unat (x - lo) - unat (phys - lo) = unat x - unat phys"
    and "unat (phys - lo) = unat phys - unat lo"
proof -
  show p: "unat (phys - lo) = unat phys - unat lo" using assms(1) by (rule unat_sub)
  have le: "unat lo \<le> unat phys" using assms(1) by (simp add: word_le_nat_alt)
  have x: "unat (x - lo) = (if unat lo \<le> unat x then unat x - unat lo else unat x + 2 ^ LENGTH('p) - unat lo)"
    by (rule unat_sub_if')
  have lt: "unat lo < 2 ^ LENGTH('p)" by (rule unsigned_less)
  show i: "in_seg (phys - lo) n (x - lo) = in_seg phys n x"
    using le lt assms(2) unfolding in_seg_def p x by (cases "unat lo \<le> unat x") auto
  show "unat (x - lo) - unat (phys - lo) = unat x - unat phys" if "in_seg phys n x"
    using that le unfolding in_seg_def p x by auto
qed

lemma ram_WriteMemory_spec:
  assumes "page_size_ok TYPE('p::len) ps" and "32 \<le> LENGTH('p)" and "ram_inv ps m"
    and "bs \<noteq> []" and "length bs < 2 ^ 32"
    and "lo_addr m \<le> (phys :: 'p word)" and "unat phys + length bs < 2 ^ LENGTH('p)"
    and "unat phys + length bs \<le> unat (hi_addr m) + 1"
  shows "\<exists>m'. ram_WriteMemory ps phys bs m = Some (True, m') \<and> ram_inv ps m' \<and>
    ram_mem ps m' = seg_upd (ram_mem ps m) phys bs \<and> lo_addr m' = lo_addr m \<and> hi_addr m' = hi_addr m"
proof -
  define sz :: u32 where "sz = of_nat (length bs)"
  have u: "unat sz = length bs" using assms(5) by (simp add: sz_def unat_of_nat)
  have nz: "sz \<noteq> 0" using u assms(4) by auto
  have "in_ram phys sz m" using assms(4,6-8) u by (simp add: in_ram_iff [OF assms(2) nz] Suc_le_eq)
  moreover have sh: "unat (phys - lo_addr m) = unat phys - unat (lo_addr m)" using assms(6) by (rule unat_sub)
  moreover have fit: "unat (phys - lo_addr m) + length bs \<le> 2 ^ LENGTH('p)" using sh assms(7) by linarith
  moreover obtain m' where m': "ram_write_loop ps (phys - lo_addr m) bs sz 0 m = Some m'" "ram_inv ps m'"
    "ram_byte ps m' = seg_upd (ram_byte ps m) (phys - lo_addr m) bs" "lo_addr m' = lo_addr m" "hi_addr m' = hi_addr m"
    using write_loop_spec [OF assms(1,3) u _ fit, of 0] assms(4) u by auto
  moreover have "ram_mem ps m' = seg_upd (ram_mem ps m) phys bs"
  proof
    fix x
    show "ram_mem ps m' x = seg_upd (ram_mem ps m) phys bs x"
      using seg_shift(1,2) [of "lo_addr m" phys "length bs" x] assms(6,7) by (simp add: ram_mem_def m' seg_upd_def)
  qed
  ultimately show ?thesis using nz by (simp add: ram_WriteMemory_def Let_def flip: sz_def)
qed

text \<open>
  C32: \<open>WriteMemory\<close> of a range inside the memory always returns true; it changes the bytes of the
  range and no other, whatever pages it creates and crosses, and leaves the table a table.
\<close>

theorem ram_write_updates:
  assumes "page_size_ok TYPE('p::len) ps" and "32 \<le> LENGTH('p)" and "ram_inv ps m"
    and "bs \<noteq> []" and "length bs < 2 ^ 32"
    and "lo_addr m \<le> (phys :: 'p word)" and "unat phys + length bs < 2 ^ LENGTH('p)"
    and "unat phys + length bs \<le> unat (hi_addr m) + 1"
  shows "\<exists>m'. ram_WriteMemory ps phys bs m = Some (True, m') \<and> ram_inv ps m' \<and>
    ram_mem ps m' = seg_upd (ram_mem ps m) phys bs \<and> lo_addr m' = lo_addr m \<and> hi_addr m' = hi_addr m"
  using assms by (rule ram_WriteMemory_spec)

theorem ram_write_updates_witness:
  "\<exists>m'. ram_WriteMemory 16 0x10E [1, 2, 3] ram_example = Some (True, m') \<and> ram_mem 16 m' 0x110 = 3 \<and>
    ram_mem 16 m' 0x111 = 0xA5"
proof -
  obtain m' where "ram_WriteMemory 16 0x10E [1, 2, 3] ram_example = Some (True, m')"
    "ram_mem 16 m' = seg_upd (ram_mem 16 ram_example) 0x10E [1, 2, 3]"
    using ram_write_updates [of 16 ram_example "[1, 2, 3]" "0x10E"] by (auto simp: word_le_nat_alt)
  then show ?thesis
    by (simp add: seg_upd_def in_seg_def ram_example_mem)
qed

text \<open>
  \<open>ReadMemory\<close> of a range inside the memory always returns the bytes of the range. It may
  create pages but changes the value of no byte.
\<close>

theorem ram_read_returns:
  assumes "page_size_ok TYPE('p::len) ps" and "32 \<le> LENGTH('p)" and "ram_inv ps m" and "sz \<noteq> 0"
    and "lo_addr m \<le> (phys :: 'p word)" and "unat phys + unat sz < 2 ^ LENGTH('p)"
    and "unat phys + unat sz \<le> unat (hi_addr m) + 1"
  shows "\<exists>m'. ram_ReadMemory ps phys sz m = Some (Some (seg_read (ram_mem ps m) phys (unat sz)), m') \<and>
    ram_inv ps m' \<and> ram_mem ps m' = ram_mem ps m \<and> lo_addr m' = lo_addr m \<and> hi_addr m' = hi_addr m"
proof -
  have pos: "0 < unat sz" using assms(4) by (simp add: unat_gt_0)
  have "in_ram phys sz m" using assms(5-7) pos by (simp add: in_ram_iff [OF assms(2,4)])
  moreover have sh: "unat (phys - lo_addr m) = unat phys - unat (lo_addr m)" using assms(5) by (rule unat_sub)
  moreover have fit: "unat (phys - lo_addr m) + unat sz \<le> 2 ^ LENGTH('p)" using sh assms(6) by linarith
  moreover obtain m' where m': "ram_read_loop ps (phys - lo_addr m) [] sz 0 m =
      Some (seg_read (ram_byte ps m) (phys - lo_addr m) (unat sz), m')" "ram_inv ps m'"
    "ram_byte ps m' = ram_byte ps m" "lo_addr m' = lo_addr m" "hi_addr m' = hi_addr m"
    using read_loop_spec [OF assms(1,3) _ fit, of 0 "[]"] pos by auto
  moreover have "seg_read (ram_byte ps m) (phys - lo_addr m) (unat sz) = seg_read (ram_mem ps m) phys (unat sz)"
    by (simp add: seg_read_def ram_mem_def algebra_simps)
  moreover have "ram_mem ps m' = ram_mem ps m" using m' by (simp add: ram_mem_def fun_eq_iff)
  ultimately show ?thesis using assms(4) by (simp add: ram_ReadMemory_def)
qed

theorem ram_read_returns_witness:
  "\<exists>m'. ram_ReadMemory 16 0x10E 3 ram_example = Some (Some [0xA5, 0xA5, 0xA5], m')"
proof -
  have "seg_read (ram_mem 16 ram_example) 0x10E 3 = [0xA5, 0xA5, 0xA5]"
    by (simp add: seg_read_def ram_example_mem numeral_3_eq_3)
  then show ?thesis using ram_read_returns [of 16 ram_example 3 "0x10E"] by (auto simp: word_le_nat_alt)
qed

text \<open>
  An access is refused, and the memory left as it is, exactly when it does not lie inside the
  memory or ends with the last byte of the address space: \<open>physical_addr + size\<close> is then 0,
  which the code takes for an overlap.
\<close>

theorem ram_access_refused:
  assumes "page_size_ok TYPE('p::len) ps" and "32 \<le> LENGTH('p)" and "ram_inv ps m"
    and "bs \<noteq> []" and "length bs < 2 ^ 32"
  shows "(ram_WriteMemory ps phys bs m = Some (False, m) \<longleftrightarrow>
      \<not> (lo_addr m \<le> (phys :: 'p word) \<and> unat phys + length bs \<le> unat (hi_addr m) + 1 \<and> unat phys + length bs < 2 ^ LENGTH('p))) \<and>
    (ram_ReadMemory ps phys (of_nat (length bs)) m = Some (None, m) \<longleftrightarrow>
      \<not> (lo_addr m \<le> phys \<and> unat phys + length bs \<le> unat (hi_addr m) + 1 \<and> unat phys + length bs < 2 ^ LENGTH('p)))"
proof -
  define sz :: u32 where "sz = of_nat (length bs)"
  have u: "unat sz = length bs" using assms(5) by (simp add: sz_def unat_of_nat)
  have nz: "sz \<noteq> 0" using u assms(4) by auto
  have pos: "0 < length bs" using assms(4) by simp
  have i: "in_ram phys sz m \<longleftrightarrow>
      lo_addr m \<le> phys \<and> unat phys + length bs \<le> unat (hi_addr m) + 1 \<and> unat phys + length bs < 2 ^ LENGTH('p)"
    using pos unfolding in_ram_iff [OF assms(2) nz] u by (auto; linarith)
  have "ram_WriteMemory ps phys bs m = Some (False, m) \<longleftrightarrow> \<not> in_ram phys sz m"
    using nz by (auto simp: ram_WriteMemory_def Let_def simp flip: sz_def)
  moreover have "ram_ReadMemory ps phys sz m = Some (None, m) \<longleftrightarrow> \<not> in_ram phys sz m"
    using nz by (auto simp: ram_ReadMemory_def)
  ultimately show ?thesis unfolding i sz_def [symmetric] by blast
qed

theorem ram_access_refused_witness:
  "ram_WriteMemory 16 0xFFFFFFFF [1] (ram_BeginSetup (ram_init 0xFFFFF000 0x1000 0) :: 32 ram) =
     Some (False, ram_BeginSetup (ram_init 0xFFFFF000 0x1000 0))"
  using ram_access_refused [of 16 "ram_BeginSetup (ram_init 0xFFFFF000 0x1000 0) :: 32 ram" "[1]" "0xFFFFFFFF"]
  by (simp add: ram_BeginSetup_inv)

section \<open>Byte enables\<close>

text \<open>The loop over a page makes no progress when there are byte enables.\<close>


lemma be_page_no_progress:
  assumes "ram_write_be_page ps addr bs sz be sw key pg offset copied be_off max_page m = Some r"
    and "be \<noteq> []" and "offset \<noteq> sw" and "copied \<noteq> sz" and "max_page \<noteq> 0"
  shows False
proof -
  have "be \<noteq> [] \<longrightarrow> offset \<noteq> sw \<longrightarrow> copied \<noteq> sz \<longrightarrow> max_page \<noteq> 0 \<longrightarrow> False"
  proof (rule ram_write_be_page.raw_induct [where
      P = "\<lambda>ps addr bs sz be sw key pg offset copied be_off max_page m y.
        be \<noteq> [] \<longrightarrow> offset \<noteq> sw \<longrightarrow> copied \<noteq> sz \<longrightarrow> max_page \<noteq> 0 \<longrightarrow> False", OF _ assms(1)])
  qed (auto simp: Let_def split: prod.splits if_splits)
  with assms(2-5) show False by blast
qed

lemma max_page_size:
  assumes "page_size_ok TYPE('p::len) ps"
  shows "(ucast (of_nat ps - page_off ps (a :: 'p word)) :: u32) \<noteq> 0"
proof -
  have "unat a mod ps < ps" using page_size_pos [OF assms] by simp
  moreover have "unat (copy_size ps a 4294967295 0) = min (ps - unat a mod ps) 4294967295"
    using unat_copy_size [OF assms, of 0 4294967295 a] by simp
  ultimately have "0 < unat (copy_size ps a 4294967295 0)" by simp
  then show ?thesis by (auto simp: copy_size_def Let_def split: if_splits)
qed

text \<open>
  \<open>WriteMemory\<close> with byte enables never returns for a range inside the memory: the byte enable
  loop counts \<open>copy_size\<close> down to 0 before the offsets advance by it.
\<close>

theorem ram_write_be_diverges:
  assumes "page_size_ok TYPE('p::len) ps" and "be \<noteq> []"
    and "length bs < 2 ^ 32" and "bs \<noteq> []" and "in_ram (phys :: 'p word) (of_nat (length bs)) m"
  shows "ram_WriteMemory_be ps phys bs be sw m = None"
proof -
  define sz :: u32 where "sz = of_nat (length bs)"
  have "unat sz = length bs" using assms(3) by (simp add: sz_def unat_of_nat)
  then have nz: "sz \<noteq> 0" using assms(4) by auto
  have page: "ram_write_be_page ps addr bs sz be w key pg 0 0 0 (ucast (of_nat ps - page_off ps addr)) m1 = None"
    if "w \<noteq> 0" for addr :: "'p word" and w key pg m1
    using be_page_no_progress [of ps addr bs sz be w key pg 0 0 0 _ m1, OF _ assms(2) that [symmetric] nz [symmetric]
      max_page_size [OF assms(1)]] by (meson not_Some_eq)
  have "ram_write_be_loop ps addr bs sz be w 0 0 0 m = None" if "w \<noteq> 0" for addr :: "'p word" and w
    by (subst ram_write_be_loop.simps) (simp add: Let_def page [OF that] split: prod.split)
  then show ?thesis using nz assms(5) by (simp add: ram_WriteMemory_be_def Let_def flip: sz_def)
qed

theorem ram_write_be_diverges_witness:
  "ram_WriteMemory_be 16 0x10E [1, 2, 3] [0xFF] 0 ram_example = None"
  by (rule ram_write_be_diverges) (simp_all add: in_ram_def)

end
