(* ===== verification/C3X_Register.thy ===== *)
theory C3X_Register
  imports Bit_Arithmetic Complex_Main
begin

text \<open>
  The registers of the TMS320C3X and their floating-point operations
  (\<open>component/cxx/processor/tms320c3x/register.hh\<close>, \<open>register.cc\<close>). A register has 40 bits: \<open>hi\<close> is
  a two's complement exponent, \<open>lo\<close> the sign and 31 fraction bits of a mantissa whose most significant
  bit is implied; the exponent \<open>0x80\<close> stands for zero. The \<open>int64_t\<close> and \<open>int32_t\<close> locals are
  \<open>int\<close>: the mantissas stay below \<open>2 ^ 34\<close> and their products below \<open>2 ^ 50\<close> in absolute value, and
  the bitwise operators of \<open>int\<close> are those of an unbounded two's complement number. A conversion to an
  unsigned type is written out.
\<close>

declare bsr_loop.simps [code]

section \<open>Registers\<close>

record c3x_register =
  r_lo_write_mask :: u32
  r_lo :: u32
  r_hi_write_mask :: u8
  r_hi :: u8

definition init_Register :: c3x_register where
  "init_Register = \<lparr>r_lo_write_mask = 0xffffffff, r_lo = 0, r_hi_write_mask = 0xff, r_hi = 0\<rparr>"

definition SetLoWriteMask :: "u32 \<Rightarrow> c3x_register \<Rightarrow> c3x_register" where
  "SetLoWriteMask m r = r\<lparr>r_lo_write_mask := m\<rparr>"

definition SetHiWriteMask :: "u8 \<Rightarrow> u8 \<Rightarrow> c3x_register \<Rightarrow> c3x_register" where
  "SetHiWriteMask m init_value r = r\<lparr>r_hi := init_value, r_hi_write_mask := m\<rparr>"

definition SetLo :: "u32 \<Rightarrow> c3x_register \<Rightarrow> c3x_register" where
  "SetLo v r = r\<lparr>r_lo := v AND r_lo_write_mask r\<rparr>"

definition GetLo :: "c3x_register \<Rightarrow> u32" where
  "GetLo r = r_lo r"

definition SetHi :: "u8 \<Rightarrow> c3x_register \<Rightarrow> c3x_register" where
  "SetHi v r = r\<lparr>r_hi := (r_hi r AND NOT (r_hi_write_mask r)) OR (v AND r_hi_write_mask r)\<rparr>"

definition GetHi :: "c3x_register \<Rightarrow> u8" where
  "GetHi r = r_hi r"

definition IsNeg :: "c3x_register \<Rightarrow> u32" where
  "IsNeg r = (if 0x80000000 \<le> r_lo r then 1 else 0)"

text \<open>The assignment of one register object to another one; assigning an object to itself does nothing.\<close>

definition assign_Register :: "c3x_register \<Rightarrow> c3x_register \<Rightarrow> c3x_register" where
  "assign_Register src dst = (let dst = SetHi (GetHi src) dst in
     if GetHi src = 0x80 then SetLo 0 dst else SetLo (GetLo src) dst)"

section \<open>Conversions between the formats\<close>

definition GetLo16 :: "u16 \<Rightarrow> u32" where
  "GetLo16 v = (if v AND 0xf000 = 0x8000 then 0 else push_bit 20 (ucast v AND 0x00000fff))"

definition GetHi16 :: "u16 \<Rightarrow> u8" where
  "GetHi16 v = (if v AND 0xf000 = 0x8000 then 0x80 else ucast (signed_drop_bit 12 v AND 0x00ff))"

definition GetLo32 :: "u32 \<Rightarrow> u32" where
  "GetLo32 v = (if v AND 0xff000000 = 0x80000000 then 0 else push_bit 8 (v AND 0x00ffffff))"

definition GetHi32 :: "u32 \<Rightarrow> u8" where
  "GetHi32 v = ucast (drop_bit 24 v AND 0x00ff)"

definition SetFromShortFPFormat :: "u16 \<Rightarrow> c3x_register \<Rightarrow> c3x_register" where
  "SetFromShortFPFormat v r = SetLo (GetLo16 v) (SetHi (GetHi16 v) r)"

definition SetFromSinglePrecisionFPFormat :: "u32 \<Rightarrow> c3x_register \<Rightarrow> c3x_register" where
  "SetFromSinglePrecisionFPFormat v r = SetHi (GetHi32 v) (SetLo (GetLo32 v) r)"

definition GetSinglePrecisionFPFormat :: "c3x_register \<Rightarrow> u32" where
  "GetSinglePrecisionFPFormat r =
     push_bit 24 (ucast (GetHi r)) + drop_bit 8 (GetLo r AND NOT 0x00ff)"

text \<open>
  The number of leading zeros of the argument as an unsigned 32-bit or 64-bit integer; the loops of
  the count return (\<open>clz32_some\<close>, \<open>clz64_some\<close> below).
\<close>

definition clz32 :: "u32 \<Rightarrow> nat" where
  "clz32 v = unat (the (CountLeadingZeros32 v))"

definition clz64 :: "int \<Rightarrow> nat" where
  "clz64 c = unat (the (CountLeadingZeros64 (word_of_int c)))"

text \<open>\<open>Float\<close>: the register and the negative flag.\<close>

definition c3x_Float :: "u32 \<Rightarrow> c3x_register \<Rightarrow> c3x_register \<times> u32" where
  "c3x_Float v r =
     (if v \<noteq> 0 then
        let neg = 0x80000000 \<le> v;
            count_nsb = (if neg then clz32 (NOT v) - 1 else clz32 v - 1);
            l = (if count_nsb = 31 then 0 else push_bit (count_nsb + 1) v);
            h = (30 - of_nat count_nsb :: u32);
            l = (if neg then l OR 0x80000000 else l AND NOT 0x80000000)
        in (SetHi (ucast h) (SetLo l r), if neg then 1 else 0)
      else (SetHi 0x80 (SetLo 0 r), 0))"

text \<open>The 33-bit mantissa with its implied bit; zero when the exponent says so.\<close>

definition ext_mantissa :: "u8 \<Rightarrow> u32 \<Rightarrow> int" where
  "ext_mantissa h l =
     (if h = 0x80 then 0
      else if l AND 0x80000000 \<noteq> 0 then sint l AND NOT 0x80000000
      else uint (l OR 0x80000000))"

text \<open>\<open>Fix\<close>: the integer, the overflow and the negative flag.\<close>

definition c3x_Fix :: "c3x_register \<Rightarrow> u32 \<times> u32 \<times> u32" where
  "c3x_Fix r =
     (if GetHi r = 0x80 then (0, 0, 0)
      else if sint (GetHi r) > 30 then
        (if GetLo r AND 0x80000000 \<noteq> 0 then (0x80000000, 1, 1) else (NOT 0x80000000, 1, 0))
      else
        let shift = 31 - sint (GetHi r);
            shift = (if shift > 32 then 32 else shift)
        in (if r_lo r AND 0x80000000 \<noteq> 0
            then (word_of_int (drop_bit (nat shift) (sint (GetLo r) AND NOT 0x80000000)), 0, 1)
            else (word_of_int (drop_bit (nat shift) (uint (GetLo r OR 0x80000000))), 0, 0)))"

section \<open>Floating-point operations on an exponent and a mantissa\<close>

text \<open>Each operation returns the register it writes and its overflow, underflow and negative flags.\<close>

type_synonym c3x_result = "c3x_register \<times> u32 \<times> u32 \<times> u32"

definition Absf :: "u8 \<Rightarrow> u32 \<Rightarrow> c3x_register \<Rightarrow> c3x_register \<times> u32" where
  "Absf h l r =
     (if h = 0x80 then (SetLo 0 (SetHi 0x80 r), 0)
      else if h = 0x7f \<and> l = 0x80000000 then (SetLo 0x7fffffff (SetHi 0x7f r), 1)
      else if sint l < 0 then
        (if l = 0x80000000 then (SetHi (h + 1) (SetLo 0 r), 0)
         else (SetHi h (SetLo (NOT l + 1) r), 0))
      else (SetLo l (SetHi h r), 0))"

text \<open>The exponent of the result and the two mantissas, the one of the smaller exponent shifted.\<close>

definition align_mantissas :: "u8 \<Rightarrow> int \<Rightarrow> u8 \<Rightarrow> int \<Rightarrow> u8 \<times> int \<times> int" where
  "align_mantissas ha ma hb mb =
     (if sint ha \<le> sint hb then
        let diff_exp = sint hb - sint ha
        in (hb, if diff_exp \<ge> 64 then (if ma < 0 then - 1 else 0) else drop_bit (nat diff_exp) ma, mb)
      else
        let diff_exp = sint ha - sint hb
        in (ha, ma, if diff_exp \<ge> 64 then (if mb < 0 then - 1 else 0) else drop_bit (nat diff_exp) mb))"

text \<open>
  Bringing a sum back to 33 bits: exponent, mantissa, overflow and underflow. A sum of 34 bits is
  shifted right, a short one left.
\<close>

definition normalize_sum :: "u8 \<Rightarrow> int \<Rightarrow> u8 \<times> int \<times> u32 \<times> u32" where
  "normalize_sum h c =
     (if c = 0 then (0x80, c, 0, 0)
      else if c > 0 \<and> drop_bit 32 c \<noteq> 0 then
        (if sint h + 1 > 127 then (0x7f, drop_bit 1 c, 1, 0) else (h + 1, drop_bit 1 c, 0, 0))
      else if c < 0 \<and> NOT (drop_bit 32 c) \<noteq> 0 then
        (if sint h + 1 > 127 then (0x7f, drop_bit 1 c, 1, 0) else (h + 1, drop_bit 1 c, 0, 0))
      else if c > 0 \<and> c AND 0x80000000 = 0 then
        let count = clz64 c - 32
        in if sint h - int count \<le> - 128 then (0x80, push_bit count c, 0, 1)
           else (h - of_nat count, push_bit count c, 0, 0)
      else if c < 0 \<and> c AND 0x80000000 \<noteq> 0 then
        let count = clz64 (NOT c) - 32
        in if sint h - int count \<le> - 128 then (0x80, push_bit count c, 0, 1)
           else (h - of_nat count, push_bit count c, 0, 0)
      else (h, c, 0, 0))"

text \<open>The mantissa on overflow and underflow, and its 32 bits without the implied bit.\<close>

definition saturate_mantissa :: "u32 \<Rightarrow> u32 \<Rightarrow> int \<Rightarrow> int" where
  "saturate_mantissa overflow underflow c =
     (if overflow \<noteq> 0 then (if c > 0 then 0xffffffff else NOT 0xffffffff)
      else if underflow \<noteq> 0 then 0 else c)"

definition pack_mantissa :: "int \<Rightarrow> u32" where
  "pack_mantissa c = word_of_int ((c AND NOT 0x80000000) OR (drop_bit 1 c AND 0x80000000))"

definition AddfSubf :: "bool \<Rightarrow> u8 \<Rightarrow> u32 \<Rightarrow> u8 \<Rightarrow> u32 \<Rightarrow> c3x_register \<Rightarrow> c3x_result" where
  "AddfSubf is_add ha la hb lb r =
     (let (h, ma, mb) = align_mantissas ha (ext_mantissa ha la) hb (ext_mantissa hb lb);
          c = (if is_add then ma + mb else ma - mb);
          neg = (if c < 0 then 1 else 0);
          (h, c, overflow, underflow) = normalize_sum h c;
          c = saturate_mantissa overflow underflow c
      in (SetHi h (SetLo (pack_mantissa c) r), overflow, underflow, neg))"

definition Addf :: "u8 \<Rightarrow> u32 \<Rightarrow> u8 \<Rightarrow> u32 \<Rightarrow> c3x_register \<Rightarrow> c3x_result" where
  "Addf = AddfSubf True"

definition Subf :: "u8 \<Rightarrow> u32 \<Rightarrow> u8 \<Rightarrow> u32 \<Rightarrow> c3x_register \<Rightarrow> c3x_result" where
  "Subf = AddfSubf False"

text \<open>The bits by which a product of two 25-bit mantissas is shifted to have 46 fraction bits.\<close>

definition product_shift :: "int \<Rightarrow> nat" where
  "product_shift c = (let tmp = drop_bit 46 c; tmp = (if c < 0 then NOT tmp else tmp)
     in if tmp AND 4 \<noteq> 0 then 2 else if tmp AND 2 \<noteq> 0 then 1 else 0)"

definition Mpyf :: "u8 \<Rightarrow> u32 \<Rightarrow> u8 \<Rightarrow> u32 \<Rightarrow> c3x_register \<Rightarrow> c3x_result" where
  "Mpyf ha la hb lb r =
     (let ma = drop_bit 8 (ext_mantissa ha la);
          mb = drop_bit 8 (ext_mantissa hb lb);
          exp_c = sint ha + sint hb;
          c = ma * mb;
          shift = product_shift c;
          c = drop_bit shift c;
          exp_c = exp_c + int shift;
          c = drop_bit 15 c;
          exp_c = (if c = 0 then - 128 else exp_c);
          neg = (if c < 0 then 1 else 0);
          (exp_c, c, overflow, underflow) =
            (if exp_c > 127 then (127, if c > 0 then 0xffffffff else NOT 0xffffffff, 1, 0)
             else if exp_c \<le> - 128 \<and> c \<noteq> 0 then (- 128, 0, 0, 1)
             else (exp_c, c, 0, 0))
      in (SetHi (word_of_int exp_c) (SetLo (pack_mantissa c) r), overflow, underflow, neg))"

text \<open>\<open>Normf\<close>: the register and the underflow and negative flags.\<close>

definition Normf :: "u8 \<Rightarrow> u32 \<Rightarrow> c3x_register \<Rightarrow> c3x_register \<times> u32 \<times> u32" where
  "Normf h l r =
     (if l = 0 then (SetHi 0x80 (SetLo 0 r), 0, 0)
      else
        let neg = (if sint l < 0 then 1 else 0);
            count = (if sint l < 0 then clz32 (NOT l) else clz32 l);
            man = (if count = 32 then 0 else push_bit count l);
            exp = sint h - int count
        in if exp \<le> - 128 then (SetLo 0 (SetHi 0x80 r), 1, neg)
           else (SetLo (man XOR 0x80000000) (SetHi (word_of_int exp) r), 0, neg))"

text \<open>
  Rounding to the 24 bits of the single precision mantissa. Its own copy of the normalization differs
  in the negative overflow, where the mantissa is shifted as an unsigned number.
\<close>

definition normalize_round :: "u8 \<Rightarrow> int \<Rightarrow> u8 \<times> int \<times> u32 \<times> u32" where
  "normalize_round h c =
     (if c = 0 then (0x80, 0, 0, 0)
      else if c > 0 \<and> drop_bit 32 c \<noteq> 0 then
        (if sint h + 1 > 127 then (0x7f, drop_bit 1 c, 1, 0) else (h + 1, drop_bit 1 c, 0, 0))
      else if c < 0 \<and> NOT (drop_bit 32 c) \<noteq> 0 then
        (let c = drop_bit 1 (take_bit 64 c)
         in if sint h + 1 > 127 then (0x7f, c, 1, 0) else (h + 1, c, 0, 0))
      else if c > 0 \<and> c AND 0x80000000 = 0 then
        let count = clz64 c - 32
        in if sint h - int count \<le> - 128 then (0x80, push_bit count c, 0, 1)
           else (h - of_nat count, push_bit count c, 0, 0)
      else if c < 0 \<and> c AND 0x80000000 \<noteq> 0 then
        let count = clz64 (NOT c) - 32
        in if sint h - int count \<le> - 128 then (0x80, push_bit count c, 0, 1)
           else (h - of_nat count, push_bit count c, 0, 0)
      else (h, c, 0, 0))"

definition Rndf :: "u8 \<Rightarrow> u32 \<Rightarrow> c3x_register \<Rightarrow> c3x_result" where
  "Rndf h l r =
     (if h = 0x80 then (SetLo 0 (SetHi 0x80 r), 0, 1, 0)
      else
        let c = ext_mantissa h l + 0x80;
            neg = (if c < 0 then 1 else 0);
            (h, c, overflow, underflow) = normalize_round h c;
            c = saturate_mantissa overflow underflow c;
            r = SetLo (pack_mantissa c) r;
            r = SetLo (GetLo r AND 0xffffff00) r
        in (SetHi h r, overflow, underflow, neg))"

section \<open>The operations on registers and immediate operands\<close>

text \<open>
  The overloads of the operations: the operands are registers, 16-bit immediates in the short format or
  32-bit ones in the single precision format; the last argument is the register written.
\<close>

definition Absf_reg :: "c3x_register \<Rightarrow> c3x_register \<Rightarrow> c3x_register \<times> u32" where
  "Absf_reg reg r = Absf (GetHi reg) (GetLo reg) r"

definition Absf16 :: "u16 \<Rightarrow> c3x_register \<Rightarrow> c3x_register \<times> u32" where
  "Absf16 imm r = Absf (GetHi16 imm) (GetLo16 imm) r"

definition Absf32 :: "u32 \<Rightarrow> c3x_register \<Rightarrow> c3x_register \<times> u32" where
  "Absf32 imm r = Absf (GetHi32 imm) (GetLo32 imm) r"

definition Normf_reg :: "c3x_register \<Rightarrow> c3x_register \<Rightarrow> c3x_register \<times> u32 \<times> u32" where
  "Normf_reg reg r = Normf (GetHi reg) (GetLo reg) r"

definition Normf16 :: "u16 \<Rightarrow> c3x_register \<Rightarrow> c3x_register \<times> u32 \<times> u32" where
  "Normf16 imm r = Normf (GetHi16 imm) (GetLo16 imm) r"

definition Normf32 :: "u32 \<Rightarrow> c3x_register \<Rightarrow> c3x_register \<times> u32 \<times> u32" where
  "Normf32 imm r = Normf (ucast (drop_bit 24 imm AND 0x00ff)) (push_bit 8 (imm AND 0x00ffffff)) r"

definition Rndf_reg :: "c3x_register \<Rightarrow> c3x_register \<Rightarrow> c3x_result" where
  "Rndf_reg reg r = Rndf (GetHi reg) (GetLo reg) r"

definition Rndf16 :: "u16 \<Rightarrow> c3x_register \<Rightarrow> c3x_result" where
  "Rndf16 imm r = Rndf (GetHi16 imm) (GetLo16 imm) r"

definition Rndf32 :: "u32 \<Rightarrow> c3x_register \<Rightarrow> c3x_result" where
  "Rndf32 imm r = Rndf (GetHi32 imm) (GetLo32 imm) r"

definition Addf_reg :: "c3x_register \<Rightarrow> c3x_register \<Rightarrow> c3x_result" where
  "Addf_reg reg r = Addf (GetHi r) (GetLo r) (GetHi reg) (GetLo reg) r"

definition Addf16 :: "u16 \<Rightarrow> c3x_register \<Rightarrow> c3x_result" where
  "Addf16 imm r = Addf (GetHi r) (GetLo r) (GetHi16 imm) (GetLo16 imm) r"

definition Addf32 :: "u32 \<Rightarrow> c3x_register \<Rightarrow> c3x_result" where
  "Addf32 imm r = Addf (GetHi r) (GetLo r) (GetHi32 imm) (GetLo32 imm) r"

definition Addf_regs :: "c3x_register \<Rightarrow> c3x_register \<Rightarrow> c3x_register \<Rightarrow> c3x_result" where
  "Addf_regs reg_a reg_b r = Addf (GetHi reg_a) (GetLo reg_a) (GetHi reg_b) (GetLo reg_b) r"

definition Addf_reg_imm :: "c3x_register \<Rightarrow> u32 \<Rightarrow> c3x_register \<Rightarrow> c3x_result" where
  "Addf_reg_imm reg imm r = Addf (GetHi reg) (GetLo reg) (GetHi32 imm) (GetLo32 imm) r"

definition Addf_imm_reg :: "u32 \<Rightarrow> c3x_register \<Rightarrow> c3x_register \<Rightarrow> c3x_result" where
  "Addf_imm_reg imm reg r = Addf_reg_imm reg imm r"

definition Addf_imms :: "u32 \<Rightarrow> u32 \<Rightarrow> c3x_register \<Rightarrow> c3x_result" where
  "Addf_imms imm_a imm_b r = Addf (GetHi32 imm_a) (GetLo32 imm_a) (GetHi32 imm_b) (GetLo32 imm_b) r"

definition Subf_reg :: "c3x_register \<Rightarrow> c3x_register \<Rightarrow> c3x_result" where
  "Subf_reg reg r = Subf (GetHi r) (GetLo r) (GetHi reg) (GetLo reg) r"

definition Subf16 :: "u16 \<Rightarrow> c3x_register \<Rightarrow> c3x_result" where
  "Subf16 imm r = Subf (GetHi r) (GetLo r) (GetHi16 imm) (GetLo16 imm) r"

definition Subf32 :: "u32 \<Rightarrow> c3x_register \<Rightarrow> c3x_result" where
  "Subf32 imm r = Subf (GetHi r) (GetLo r) (GetHi32 imm) (GetLo32 imm) r"

definition Subf_regs :: "c3x_register \<Rightarrow> c3x_register \<Rightarrow> c3x_register \<Rightarrow> c3x_result" where
  "Subf_regs reg_a reg_b r = Subf (GetHi reg_a) (GetLo reg_a) (GetHi reg_b) (GetLo reg_b) r"

definition Subf16_reg_imm :: "c3x_register \<Rightarrow> u16 \<Rightarrow> c3x_register \<Rightarrow> c3x_result" where
  "Subf16_reg_imm reg imm r = Subf (GetHi reg) (GetLo reg) (GetHi16 imm) (GetLo16 imm) r"

definition Subf32_reg_imm :: "c3x_register \<Rightarrow> u32 \<Rightarrow> c3x_register \<Rightarrow> c3x_result" where
  "Subf32_reg_imm reg imm r = Subf (GetHi reg) (GetLo reg) (GetHi32 imm) (GetLo32 imm) r"

definition Subf16_imm_reg :: "u16 \<Rightarrow> c3x_register \<Rightarrow> c3x_register \<Rightarrow> c3x_result" where
  "Subf16_imm_reg imm reg r = Subf (GetHi16 imm) (GetLo16 imm) (GetHi reg) (GetLo reg) r"

definition Subf32_imm_reg :: "u32 \<Rightarrow> c3x_register \<Rightarrow> c3x_register \<Rightarrow> c3x_result" where
  "Subf32_imm_reg imm reg r = Subf (GetHi32 imm) (GetLo32 imm) (GetHi reg) (GetLo reg) r"

definition Subf_imms :: "u32 \<Rightarrow> u32 \<Rightarrow> c3x_register \<Rightarrow> c3x_result" where
  "Subf_imms imm_a imm_b r = Subf (GetHi32 imm_a) (GetLo32 imm_a) (GetHi32 imm_b) (GetLo32 imm_b) r"

definition Mpyf_reg :: "c3x_register \<Rightarrow> c3x_register \<Rightarrow> c3x_result" where
  "Mpyf_reg reg r = Mpyf (GetHi r) (GetLo r) (GetHi reg) (GetLo reg) r"

definition Mpyf16 :: "u16 \<Rightarrow> c3x_register \<Rightarrow> c3x_result" where
  "Mpyf16 imm r = Mpyf (GetHi r) (GetLo r) (GetHi16 imm) (GetLo16 imm) r"

definition Mpyf32 :: "u32 \<Rightarrow> c3x_register \<Rightarrow> c3x_result" where
  "Mpyf32 imm r = Mpyf (GetHi r) (GetLo r) (GetHi32 imm) (GetLo32 imm) r"

definition Mpyf_regs :: "c3x_register \<Rightarrow> c3x_register \<Rightarrow> c3x_register \<Rightarrow> c3x_result" where
  "Mpyf_regs reg_a reg_b r = Mpyf (GetHi reg_a) (GetLo reg_a) (GetHi reg_b) (GetLo reg_b) r"

definition Mpyf_reg_imm :: "c3x_register \<Rightarrow> u32 \<Rightarrow> c3x_register \<Rightarrow> c3x_result" where
  "Mpyf_reg_imm reg imm r = Mpyf (GetHi reg) (GetLo reg) (GetHi32 imm) (GetLo32 imm) r"

definition Mpyf_imm_reg :: "u32 \<Rightarrow> c3x_register \<Rightarrow> c3x_register \<Rightarrow> c3x_result" where
  "Mpyf_imm_reg imm reg r = Mpyf_reg_imm reg imm r"

definition Mpyf_imms :: "u32 \<Rightarrow> u32 \<Rightarrow> c3x_register \<Rightarrow> c3x_result" where
  "Mpyf_imms imm_a imm_b r = Mpyf (GetHi32 imm_a) (GetLo32 imm_a) (GetHi32 imm_b) (GetLo32 imm_b) r"

definition Negf :: "c3x_register \<Rightarrow> c3x_register \<Rightarrow> c3x_result" where
  "Negf reg r = Subf 0x80 0 (GetHi reg) (GetLo reg) r"

definition Negf16 :: "u16 \<Rightarrow> c3x_register \<Rightarrow> c3x_result" where
  "Negf16 imm r = Subf 0x80 0 (GetHi16 imm) (GetLo16 imm) r"

definition Negf32 :: "u32 \<Rightarrow> c3x_register \<Rightarrow> c3x_result" where
  "Negf32 imm r = Subf 0x80 0 (GetHi32 imm) (GetLo32 imm) r"

definition LoadExp :: "c3x_register \<Rightarrow> c3x_register \<Rightarrow> c3x_register" where
  "LoadExp reg r = SetHi (GetHi reg) (if GetHi reg = 0x80 then SetLo 0 r else r)"

definition LoadExp32 :: "u32 \<Rightarrow> c3x_register \<Rightarrow> c3x_register" where
  "LoadExp32 v r = SetHi (GetHi32 v) (if GetHi32 v = 0x80 then SetLo 0 r else r)"

definition LoadExp16 :: "u16 \<Rightarrow> c3x_register \<Rightarrow> c3x_register" where
  "LoadExp16 v r = SetHi (GetHi16 v) (if GetHi16 v = 0x80 then SetLo 0 r else r)"

definition LoadMan :: "c3x_register \<Rightarrow> c3x_register \<Rightarrow> c3x_register" where
  "LoadMan reg r = SetLo (GetLo reg) r"

definition LoadMan32 :: "u32 \<Rightarrow> c3x_register \<Rightarrow> c3x_register" where
  "LoadMan32 v r = SetLo v r"

definition LoadMan16 :: "u16 \<Rightarrow> c3x_register \<Rightarrow> c3x_register" where
  "LoadMan16 v r = SetLo (GetLo16 v) r"

section \<open>Access by a debugger\<close>

text \<open>
  The bytes of a register on a little-endian or a big-endian host, and a bit field of it. Shifting a one
  out of a 32-bit number is undefined in C++, so an access through such a mask is \<open>None\<close>.
\<close>

definition le_bytes32 :: "u32 \<Rightarrow> u8 list" where
  "le_bytes32 v = map (\<lambda>i. ucast (drop_bit (8 * i) v)) [0..<4]"

definition of_le_bytes32 :: "u8 list \<Rightarrow> u32" where
  "of_le_bytes32 bs = fold (\<lambda>i v. v OR push_bit (8 * i) (ucast (bs ! i))) [0..<4] 0"

lemma of_le_bytes32 [simp]: "of_le_bytes32 (le_bytes32 v) = v"
proof -
  have l: "[0..<4] = [0, 1, 2, 3 :: nat]" by (simp add: upt_rec)
  show ?thesis unfolding of_le_bytes32_def le_bytes32_def l
  proof (rule bit_word_eqI)
    fix i assume "i < LENGTH(32)"
    then consider "i < 8" | "8 \<le> i" "i < 16" | "16 \<le> i" "i < 24" | "24 \<le> i" "i < 32" by force
    then show "bit (fold (\<lambda>i w. w OR push_bit (8 * i) (ucast (map (\<lambda>i. ucast (drop_bit (8 * i) v) :: u8) [0, 1, 2, 3] ! i))) [0, 1, 2, 3] (0 :: u32)) i = bit v i"
      by cases (auto simp: bit_simps)
  qed
qed

lemma length_le_bytes32 [simp]: "length (le_bytes32 v) = 4"
  by (simp add: le_bytes32_def)

definition RegisterDebugInterface_GetValue :: "bool \<Rightarrow> bool \<Rightarrow> c3x_register \<Rightarrow> u8 list" where
  "RegisterDebugInterface_GetValue little extended_precision r =
     (let host = (\<lambda>v. if little then le_bytes32 v else rev (le_bytes32 v))
      in if extended_precision
         then (if little then host (GetLo r) @ [GetHi r] else GetHi r # host (GetLo r))
         else host (GetLo r))"

definition RegisterDebugInterface_SetValue :: "bool \<Rightarrow> bool \<Rightarrow> u8 list \<Rightarrow> c3x_register \<Rightarrow> c3x_register" where
  "RegisterDebugInterface_SetValue little extended_precision buffer r =
     (let host = (\<lambda>bs. of_le_bytes32 (if little then bs else rev bs))
      in if extended_precision
         then (if little then SetLo (host (take 4 buffer)) (SetHi (buffer ! 4) r)
               else SetLo (host (take 4 (drop 1 buffer))) (SetHi (buffer ! 0) r))
         else SetLo (host (take 4 buffer)) r)"

definition RegisterDebugInterface_GetSize :: "bool \<Rightarrow> nat" where
  "RegisterDebugInterface_GetSize extended_precision = (if extended_precision then 4 + 1 else 4)"

text \<open>
  The size of a bit field is at most 32; its \<open>int\<close> mask is sign extended to 64 bits. The value is the one
  in the low bytes of the buffer, as many as the size needs.
\<close>

definition bit_field_size :: "nat \<Rightarrow> nat" where
  "bit_field_size n = (if n > 32 then 32 else n)"

definition value40 :: "c3x_register \<Rightarrow> u64" where
  "value40 r = push_bit 32 (ucast (GetHi r)) OR ucast (GetLo r)"

definition RegisterBitField_GetValue :: "nat \<Rightarrow> nat \<Rightarrow> c3x_register \<Rightarrow> u32 option" where
  "RegisterBitField_GetValue off n r =
     (let n = bit_field_size n
      in if n \<ge> 31 \<or> off \<ge> 64 then None
         else Some (ucast (drop_bit off (value40 r)) AND (push_bit n 1 - 1)))"

definition RegisterBitField_SetValue :: "nat \<Rightarrow> nat \<Rightarrow> u32 \<Rightarrow> c3x_register \<Rightarrow> c3x_register option" where
  "RegisterBitField_SetValue off n v r =
     (let n = bit_field_size n
      in if n \<ge> 31 \<or> off + n > 32 then None
         else
           let v40 = value40 r;
               m = (scast (push_bit off (push_bit n 1 - 1 :: u32)) :: u64);
               v40 = (v40 AND NOT m) OR (ucast (push_bit off v) AND m)
           in Some (SetHi (ucast (drop_bit 32 v40)) (SetLo (ucast v40) r)))"

definition RegisterBitField_GetSize :: "nat \<Rightarrow> nat" where
  "RegisterBitField_GetSize n = (bit_field_size n + 7) div 8"

end
