(* ===== verification/C3X_Mantissa.thy ===== *)
theory C3X_Mantissa
  imports C3X_Register
begin

lemma bit_word_of_int_iff': "bit (word_of_int c :: 'a::len word) i \<longleftrightarrow> i < LENGTH('a) \<and> bit c i"
  by (simp add: bit_simps)

lemma bit_80000000_int: "bit (0x80000000 :: int) i \<longleftrightarrow> i = 31"
proof -
  have "(0x80000000 :: int) = 2 ^ 31" by simp
  then show ?thesis by (simp only: bit_exp_iff) auto
qed

lemma bit_80000000_u32: "bit (0x80000000 :: u32) i \<longleftrightarrow> i = 31"
proof -
  have "(0x80000000 :: u32) = 2 ^ 31" by simp
  then show ?thesis by (simp only: bit_exp_iff) auto
qed

lemma and_80000000: "(l :: u32) AND 0x80000000 = 0 \<longleftrightarrow> \<not> bit l 31"
proof -
  have "l AND 0x80000000 = 0 \<longleftrightarrow> (\<forall>i. \<not> bit (l AND 0x80000000) i)"
    by (metis bit_0_eq bot_apply bot_bool_def bit_eqI)
  also have "\<dots> \<longleftrightarrow> \<not> bit l 31" by (metis bit_and_iff bit_80000000_u32)
  finally show ?thesis .
qed

lemma and_80000000_int: "(c :: int) AND 0x80000000 = 0 \<longleftrightarrow> \<not> bit c 31"
proof -
  have "c AND 0x80000000 = 0 \<longleftrightarrow> (\<forall>i. \<not> bit (c AND 0x80000000) i)"
    by (metis bit_0_eq bot_apply bot_bool_def bit_eqI)
  also have "\<dots> \<longleftrightarrow> \<not> bit c 31" by (auto simp: bit_and_iff bit_80000000_int)
  finally show ?thesis .
qed

lemma bit_ext_mantissa:
  assumes "h \<noteq> 0x80"
  shows "bit (ext_mantissa h l) i \<longleftrightarrow> (if i < 31 then bit l i else if i = 31 then \<not> bit l 31 else bit l 31)"
  using assms
  by (auto simp: ext_mantissa_def and_80000000 bit_simps bit_80000000_int bit_80000000_u32 min_def dest: bit_imp_le_length)

lemma bit_pack_mantissa:
  "bit (pack_mantissa c) i \<longleftrightarrow> (if i = 31 then bit c 32 else i < 31 \<and> bit c i)"
  by (auto simp: pack_mantissa_def bit_word_of_int_iff' bit_simps bit_80000000_int)

definition normal :: "int \<Rightarrow> bool" where
  "normal m \<longleftrightarrow> 2 ^ 31 \<le> m \<and> m < 2 ^ 32 \<or> - (2 ^ 32) \<le> m \<and> m < - (2 ^ 31)"

lemma bit_int_high:
  assumes "- (2 ^ n) \<le> (c :: int)" and "c < 2 ^ n" and "n \<le> i"
  shows "bit c i \<longleftrightarrow> c < 0"
proof -
  have "c div 2 ^ i = (if c < 0 then - 1 else 0)"
  proof (cases "c < 0")
    case True
    have "(2::int) ^ n \<le> 2 ^ i" using assms(3) by simp
    with assms True have "c = 2 ^ i * (- 1) + (c + 2 ^ i)" "0 \<le> c + 2 ^ i" "c + 2 ^ i < 2 ^ i" by linarith+
    with True int_div_pos_eq [of c "2 ^ i" "- 1" "c + 2 ^ i"] show ?thesis by simp
  next
    case False
    have "(2::int) ^ n \<le> 2 ^ i" using assms(3) by simp
    with assms(2) have "c < 2 ^ i" by linarith
    with False show ?thesis by simp
  qed
  then show ?thesis by (simp add: bit_iff_odd)
qed

lemma normal_bits:
  assumes "normal m"
  shows "bit m 31 \<longleftrightarrow> 0 < m" and "32 \<le> i \<Longrightarrow> bit m i \<longleftrightarrow> m < 0"
proof -
  have r: "- (2 ^ 32) \<le> m" "m < 2 ^ 32" using assms by (auto simp: normal_def)
  then show "32 \<le> i \<Longrightarrow> bit m i \<longleftrightarrow> m < 0" by (intro bit_int_high)
  have "m div 2 ^ 31 = (if 0 < m then 1 else - 2)"
    using assms unfolding normal_def by (auto simp: div_eq_minus1)
  then show "bit m 31 \<longleftrightarrow> 0 < m" by (simp add: bit_iff_odd)
qed

lemma ext_mantissa_pack:
  assumes "normal m" and "h \<noteq> 0x80"
  shows "ext_mantissa h (pack_mantissa m) = m"
proof (rule bit_eqI)
  fix i
  have z: "m \<noteq> 0" using assms(1) by (auto simp: normal_def)
  show "bit (ext_mantissa h (pack_mantissa m)) i = bit m i"
    using z normal_bits [OF assms(1)] by (auto simp: bit_ext_mantissa [OF assms(2)] bit_pack_mantissa)
qed

lemma pack_ext_mantissa: "h \<noteq> 0x80 \<Longrightarrow> pack_mantissa (ext_mantissa h l) = l"
  by (rule bit_word_eqI) (auto simp: bit_pack_mantissa bit_ext_mantissa)

section \<open>Leading zeros\<close>

lemma CountLeadingZeros64_bounds:
  assumes "v \<noteq> 0"
  obtains n where "CountLeadingZeros64 v = Some (63 - n)" and "unat n < 64"
    and "2 ^ unat n \<le> unat v" and "unat v < 2 ^ Suc (unat n)"
proof -
  obtain n where n: "BitScanReverse64 v = Some (Some n)" "highest_of v (Some n)"
    using BitScanReverse64_spec [of v] assms by (auto simp: highest_of_def split: option.splits)
  moreover have "unat n < 64" using n(2) by (auto simp: highest_of_def dest: bit_imp_le_length)
  ultimately show ?thesis using that highest_bounds [OF n(2)] by (simp add: CountLeadingZeros64_def)
qed

lemma CountLeadingZeros32_bounds:
  assumes "v \<noteq> 0"
  obtains n where "CountLeadingZeros32 v = Some (31 - n)" and "unat n < 32"
    and "2 ^ unat n \<le> unat v" and "unat v < 2 ^ Suc (unat n)"
proof -
  obtain n where n: "BitScanReverse32 v = Some (Some n)" "highest_of v (Some n)"
    using BitScanReverse32_spec [of v] assms by (auto simp: highest_of_def split: option.splits)
  moreover have "unat n < 32" using n(2) by (auto simp: highest_of_def dest: bit_imp_le_length)
  ultimately show ?thesis using that highest_bounds [OF n(2)] by (simp add: CountLeadingZeros32_def)
qed

lemma unat_63_minus: "unat n < 64 \<Longrightarrow> unat (63 - n :: u32) = 63 - unat n"
  by (simp add: unat_sub word_le_nat_alt)

lemma unat_31_minus: "unat n < 32 \<Longrightarrow> unat (31 - n :: u32) = 31 - unat n"
  by (simp add: unat_sub word_le_nat_alt)

lemma clz64_bounds:
  assumes "0 < c" and "c < 2 ^ 64"
  shows "clz64 c < 64" and "2 ^ (63 - clz64 c) \<le> c" and "c < 2 ^ (64 - clz64 c)"
proof -
  let ?v = "word_of_int c :: u64"
  have u: "uint ?v = c" using assms by (simp add: uint_word_of_int)
  then have "?v \<noteq> 0" using assms(1) by (metis less_irrefl unsigned_0)
  then obtain n where n: "CountLeadingZeros64 ?v = Some (63 - n)" "unat n < 64"
    "2 ^ unat n \<le> unat ?v" "unat ?v < 2 ^ Suc (unat n)" by (rule CountLeadingZeros64_bounds)
  have k: "clz64 c = 63 - unat n" using n by (simp add: clz64_def unat_63_minus)
  then show "clz64 c < 64" by simp
  have i: "int (unat ?v) = c" using u by simp
  have "63 - clz64 c = unat n" "64 - clz64 c = Suc (unat n)" using k n(2) by simp_all
  then show "2 ^ (63 - clz64 c) \<le> c" "c < 2 ^ (64 - clz64 c)"
    using n(3,4) i by (metis of_nat_le_iff of_nat_numeral of_nat_power, metis of_nat_less_iff of_nat_numeral of_nat_power)
qed

lemma clz64_0 [simp]: "clz64 0 = 64"
  by (simp add: clz64_def CountLeadingZeros64_def BitScanReverse64_def BitScanReverse32_def)

lemma clz32_0 [simp]: "clz32 0 = 32"
  by (simp add: clz32_def CountLeadingZeros32_def BitScanReverse32_def)

lemma clz32_bounds:
  assumes "v \<noteq> 0"
  shows "clz32 v < 32" and "2 ^ (31 - clz32 v) \<le> unat v" and "unat v < 2 ^ (32 - clz32 v)"
proof -
  obtain n where n: "CountLeadingZeros32 v = Some (31 - n)" "unat n < 32"
    "2 ^ unat n \<le> unat v" "unat v < 2 ^ Suc (unat n)" using assms by (rule CountLeadingZeros32_bounds)
  have k: "clz32 v = 31 - unat n" using n by (simp add: clz32_def unat_31_minus)
  then show "clz32 v < 32" by simp
  have "31 - clz32 v = unat n" "32 - clz32 v = Suc (unat n)" using k n(2) by simp_all
  then show "2 ^ (31 - clz32 v) \<le> unat v" "unat v < 2 ^ (32 - clz32 v)" using n(3,4) by simp_all
qed

text \<open>Shifting a short mantissa left by the leading zeros above bit 31 makes it normal.\<close>

lemma normal_scaled_pos:
  assumes "k < 32" and "2 ^ (31 - k) \<le> m" and "m < 2 ^ (32 - k)"
  shows "normal (m * 2 ^ k)"
proof -
  have "(2::int) ^ (31 - k) * 2 ^ k \<le> m * 2 ^ k" "m * 2 ^ k < 2 ^ (32 - k) * 2 ^ k" using assms(2,3) by simp_all
  then have "2 ^ 31 \<le> m * 2 ^ k" "m * 2 ^ k < 2 ^ 32" using assms(1) by (simp_all flip: power_add)
  then show ?thesis by (simp add: normal_def)
qed

lemma normal_scaled_neg:
  assumes "k < 32" and "2 ^ (31 - k) \<le> - m - 1" and "- m - 1 < 2 ^ (32 - k)"
  shows "normal (m * 2 ^ k)"
proof -
  have "2 ^ (31 - k) * 2 ^ k < - m * 2 ^ k" "- m * 2 ^ k \<le> 2 ^ (32 - k) * 2 ^ k"
    using assms(2,3) by (intro mult_strict_right_mono mult_right_mono; simp)+
  then have "2 ^ 31 < - m * 2 ^ k" "- m * 2 ^ k \<le> 2 ^ 32" using assms(1) by (simp_all flip: power_add)
  then show ?thesis by (simp add: normal_def)
qed

lemma shift_normal_pos:
  assumes "0 < c" and "c < 2 ^ 32"
  shows "normal (push_bit (clz64 c - 32) c)" and "32 \<le> clz64 c"
proof -
  note b = clz64_bounds [OF assms(1)]
  show 32: "32 \<le> clz64 c"
  proof (rule ccontr)
    assume "\<not> 32 \<le> clz64 c"
    then have "(2::int) ^ 32 \<le> 2 ^ (63 - clz64 c)" by (intro power_increasing) simp_all
    with b(2) assms show False by simp
  qed
  show "normal (push_bit (clz64 c - 32) c)"
    unfolding push_bit_eq_mult using b assms(2) 32 by (intro normal_scaled_pos) simp_all
qed

lemma shift_normal_neg:
  assumes "c < 0" and "- (2 ^ 32) \<le> c"
  shows "normal (push_bit (clz64 (NOT c) - 32) c)" and "32 \<le> clz64 (NOT c)"
proof -
  have n: "NOT c = - c - 1" by (simp add: not_int_def)
  show "normal (push_bit (clz64 (NOT c) - 32) c)" and "32 \<le> clz64 (NOT c)"
  proof (atomize (full), cases "c = - 1")
    case True
    then show "normal (push_bit (clz64 (NOT c) - 32) c) \<and> 32 \<le> clz64 (NOT c)"
      by (simp add: normal_def push_bit_eq_mult)
  next
    case False
    then have p: "0 < NOT c" "NOT c < 2 ^ 32" using assms by (simp_all add: n)
    note 32 = shift_normal_pos(2) [OF p]
    have "normal (c * 2 ^ (clz64 (NOT c) - 32))"
      using clz64_bounds [OF p(1)] p(2) 32 by (intro normal_scaled_neg) (simp_all add: n)
    with 32 show "normal (push_bit (clz64 (NOT c) - 32) c) \<and> 32 \<le> clz64 (NOT c)" by (simp add: push_bit_eq_mult)
  qed
qed

section \<open>The normalization of a sum\<close>

lemma drop_32_pos: "0 < c \<Longrightarrow> drop_bit 32 (c :: int) \<noteq> 0 \<longleftrightarrow> 2 ^ 32 \<le> c"
  by (simp add: drop_bit_eq_div) (auto simp: div_eq_0_iff zdiv_eq_0_iff)

lemma drop_32_neg:
  assumes "c < 0" and "- (2 ^ 33) \<le> (c :: int)"
  shows "NOT (drop_bit 32 c) \<noteq> 0 \<longleftrightarrow> c < - (2 ^ 32)"
proof -
  have "c div 2 ^ 32 = (if c < - (2 ^ 32) then - 2 else - 1)"
    using assms int_div_pos_eq [of c "2 ^ 32" "- 2" "c + 2 ^ 33"] int_div_pos_eq [of c "2 ^ 32" "- 1" "c + 2 ^ 32"]
    by auto
  then show ?thesis by (simp add: drop_bit_eq_div not_int_def)
qed

lemma bit_31_pos: "0 < c \<Longrightarrow> c < 2 ^ 32 \<Longrightarrow> bit (c :: int) 31 \<longleftrightarrow> 2 ^ 31 \<le> c"
  using int_div_pos_eq [of c "2 ^ 31" 1 "c - 2 ^ 31"] by (cases "2 ^ 31 \<le> c") (auto simp: bit_iff_odd)

lemma bit_31_neg: "c < 0 \<Longrightarrow> - (2 ^ 32) \<le> c \<Longrightarrow> bit (c :: int) 31 \<longleftrightarrow> - (2 ^ 31) \<le> c"
  using int_div_pos_eq [of c "2 ^ 31" "- 2" "c + 2 ^ 32"] int_div_pos_eq [of c "2 ^ 31" "- 1" "c + 2 ^ 31"]
  by (cases "- (2 ^ 31) \<le> c") (auto simp: bit_iff_odd)

lemma normalize_sum_cases:
  assumes "- (2 ^ 33) \<le> c" and "c < 2 ^ 33" and "c \<noteq> 0 \<Longrightarrow> - 128 < sint h"
  obtains (zero) "c = 0" and "normalize_sum h c = (0x80, 0, 0, 0)"
  | (carry) "c < - (2 ^ 32) \<or> 2 ^ 32 \<le> c" and "sint h < 127" and "normalize_sum h c = (h + 1, c div 2, 0, 0)"
  | (overflow) "c < - (2 ^ 32) \<or> 2 ^ 32 \<le> c" and "sint h = 127" and "normalize_sum h c = (0x7f, c div 2, 1, 0)"
  | (shift) k where "normal (c * 2 ^ k)" and "k \<le> 32" and "- 128 < sint h - int k"
      and "normalize_sum h c = (h - of_nat k, c * 2 ^ k, 0, 0)"
  | (underflow) k where "normal (c * 2 ^ k)" and "k \<le> 32" and "sint h - int k \<le> - 128"
      and "normalize_sum h c = (0x80, c * 2 ^ k, 0, 1)"
proof -
  have h: "sint h \<le> 127" using sint_lt [of h] by simp
  have half: "drop_bit (Suc 0) c = c div 2" by (simp add: drop_bit_eq_div)
  have k32: "clz64 d - 32 \<le> 32" if "0 \<le> d" "d < 2 ^ 64" for d
    using clz64_bounds(1) [of d] that by (cases "d = 0") simp_all
  consider "c = 0" | "0 < c" "2 ^ 32 \<le> c" | "c < 0" "c < - (2 ^ 32)"
    | "0 < c" "c < 2 ^ 32" "2 ^ 31 \<le> c" | "0 < c" "c < 2 ^ 32" "\<not> 2 ^ 31 \<le> c"
    | "c < 0" "- (2 ^ 32) \<le> c" "- (2 ^ 31) \<le> c" | "c < 0" "- (2 ^ 32) \<le> c" "\<not> - (2 ^ 31) \<le> c"
    by linarith
  then show ?thesis
  proof cases
    case 1
    then show ?thesis using zero by (simp add: normalize_sum_def)
  next
    case 2
    then show ?thesis using carry overflow h
      by (cases "sint h = 127") (simp_all add: normalize_sum_def drop_32_pos half)
  next
    case 3
    then show ?thesis using carry overflow h assms(1)
      by (cases "sint h = 127") (simp_all add: normalize_sum_def drop_32_neg half)
  next
    case 4
    then have "normalize_sum h c = (h, c, 0, 0)"
      by (simp add: normalize_sum_def drop_32_pos and_80000000_int bit_31_pos)
    moreover have "normal c" using 4 by (simp add: normal_def)
    ultimately show ?thesis using assms(3) 4 shift [of 0] by simp
  next
    case 5
    define k where "k = clz64 c - 32"
    have n: "normal (c * 2 ^ k)" using shift_normal_pos(1) [of c] 5 by (simp add: k_def push_bit_eq_mult)
    have "normalize_sum h c = (if sint h - int k \<le> - 128 then (0x80, c * 2 ^ k, 0, 1) else (h - of_nat k, c * 2 ^ k, 0, 0))"
      using 5 by (simp add: normalize_sum_def drop_32_pos and_80000000_int bit_31_pos Let_def push_bit_eq_mult flip: k_def)
    then show ?thesis using n shift [of k] underflow [of k] k32 [of c] 5
      by (cases "sint h - int k \<le> - 128") (simp_all flip: k_def)
  next
    case 6
    define k where "k = clz64 (NOT c) - 32"
    have n: "normal (c * 2 ^ k)" using shift_normal_neg(1) [of c] 6 by (simp add: k_def push_bit_eq_mult)
    have "normalize_sum h c = (if sint h - int k \<le> - 128 then (0x80, c * 2 ^ k, 0, 1) else (h - of_nat k, c * 2 ^ k, 0, 0))"
      using 6 assms(1)
      by (simp add: normalize_sum_def drop_32_neg and_80000000_int bit_31_neg Let_def push_bit_eq_mult flip: k_def)
    moreover have "k \<le> 32" unfolding k_def using 6 by (intro k32) (simp_all add: not_int_def)
    ultimately show ?thesis using n shift [of k] underflow [of k]
      by (cases "sint h - int k \<le> - 128") simp_all
  next
    case 7
    then have "normalize_sum h c = (h, c, 0, 0)" using assms(1)
      by (simp add: normalize_sum_def drop_32_neg and_80000000_int bit_31_neg)
    moreover have "normal c" using 7 by (simp add: normal_def)
    ultimately show ?thesis using assms(3) 7 shift [of 0] by simp
  qed
qed

end
