(* ===== verification/C3X_Float.thy ===== *)
theory C3X_Float
  imports C3X_Mantissa
begin

section \<open>The value of a floating-point number\<close>

definition c3x_value :: "u8 \<Rightarrow> u32 \<Rightarrow> real" where
  "c3x_value h l = of_int (ext_mantissa h l) * 2 powr (of_int (sint h) - 31)"

text \<open>A register that keeps all 40 bits, as \<open>R0\<close> to \<open>R7\<close> do.\<close>

definition extended :: "c3x_register \<Rightarrow> bool" where
  "extended r \<longleftrightarrow> r_lo_write_mask r = 0xffffffff \<and> r_hi_write_mask r = 0xff"

lemma and_ones_u32: "(l :: u32) AND 0xffffffff = l"
proof -
  have "(0xffffffff :: u32) = - 1" by simp
  then show ?thesis by (simp only: and.right_neutral)
qed

lemma and_ones_u8: "(h :: u8) AND 0xff = h"
proof -
  have "(0xff :: u8) = - 1" by simp
  then show ?thesis by (simp only: and.right_neutral)
qed

lemma and_not_ones_u8: "(h :: u8) AND NOT 0xff = 0"
proof -
  have "(0xff :: u8) = - 1" by simp
  then show ?thesis by (simp only: bit.compl_one bit.conj_zero_right)
qed

lemma SetLo_sel [simp]:
  "r_hi (SetLo l r) = r_hi r" "r_hi_write_mask (SetLo l r) = r_hi_write_mask r"
  "r_lo_write_mask (SetLo l r) = r_lo_write_mask r" "GetHi (SetLo l r) = GetHi r"
  "extended (SetLo l r) = extended r" "extended r \<Longrightarrow> GetLo (SetLo l r) = l"
  by (simp_all add: SetLo_def GetHi_def GetLo_def extended_def and_ones_u32)

lemma SetHi_sel [simp]:
  "r_lo (SetHi h r) = r_lo r" "r_hi_write_mask (SetHi h r) = r_hi_write_mask r"
  "r_lo_write_mask (SetHi h r) = r_lo_write_mask r" "GetLo (SetHi h r) = GetLo r"
  "extended (SetHi h r) = extended r" "extended r \<Longrightarrow> GetHi (SetHi h r) = h"
  by (simp_all add: SetHi_def GetHi_def GetLo_def extended_def and_ones_u8 and_not_ones_u8 and_not_ones_u8 [simplified])

lemma normal_ext_mantissa:
  assumes "h \<noteq> 0x80"
  shows "normal (ext_mantissa h l)"
proof -
  define m where "m = ext_mantissa h l"
  have b: "bit m i = (if i < 31 then bit l i else if i = 31 then \<not> bit l 31 else bit l 31)" for i
    unfolding m_def by (rule bit_ext_mantissa [OF assms])
  have t: "take_bit 31 m = take_bit 31 (uint l)"
    by (rule bit_eqI) (auto simp: bit_take_bit_iff b bit_simps dest: bit_imp_le_length)
  have d: "drop_bit 31 m = (if bit l 31 then - 2 else 1)"
  proof (rule bit_eqI)
    fix i
    show "bit (drop_bit 31 m) i = bit (if bit l 31 then - 2 else 1 :: int) i"
      by (cases i) (auto simp: bit_drop_bit_eq b bit_1_iff bit_minus_2_iff)
  qed
  obtain t where t: "take_bit 31 m = t" by simp
  have "m = drop_bit 31 m * 2 ^ 31 + t" unfolding t [symmetric] by (metis bits_ident push_bit_eq_mult)
  moreover have "0 \<le> t" "t < 2 ^ 31" unfolding t [symmetric] by (rule take_bit_nonnegative take_bit_int_less_exp)+
  ultimately show ?thesis unfolding m_def [symmetric] normal_def using d by (auto split: if_splits)
qed

lemma ext_mantissa_0x80 [simp]: "ext_mantissa 0x80 l = 0"
  by (simp add: ext_mantissa_def)

lemma ext_mantissa_range: "- (2 ^ 32) \<le> ext_mantissa h l" "ext_mantissa h l < 2 ^ 32"
  using normal_ext_mantissa [of h l] by (cases "h = 0x80"; auto simp: normal_def)+

lemma ext_mantissa_0: "ext_mantissa h l = 0 \<longleftrightarrow> h = 0x80"
  using normal_ext_mantissa [of h l] by (cases "h = 0x80") (auto simp: normal_def)

lemma sint_0x80: "sint h = - 128 \<longleftrightarrow> h = (0x80 :: u8)"
proof -
  have "sint (0x80 :: u8) = - 128" by simp
  then show ?thesis by (metis signed_word_eqI)
qed

lemma sint_u8: "- 128 \<le> sint (h :: u8)" "sint h \<le> 127"
  using sint_ge [of h] sint_lt [of h] by simp_all

lemma sint_u8_of_int: "- 128 \<le> x \<Longrightarrow> x \<le> 127 \<Longrightarrow> sint (word_of_int x :: u8) = x"
  by (simp add: sint_sbintrunc' signed_take_bit_int_eq_self)

lemma sint_u8_add1: "sint (h :: u8) < 127 \<Longrightarrow> sint (h + 1) = sint h + 1"
  using sint_u8_of_int [of "sint h + 1"] sint_u8 [of h] by simp

lemma sint_u8_minus: "- 128 < sint (h :: u8) - int k \<Longrightarrow> sint (h - of_nat k) = sint h - int k"
  using sint_u8_of_int [of "sint h - int k"] sint_u8 [of h] by simp

section \<open>Alignment\<close>

lemma div_saturated:
  assumes "- (2 ^ 64) \<le> (m :: int)" and "m < 2 ^ 64" and "64 \<le> d"
  shows "m div 2 ^ d = (if m < 0 then - 1 else 0)"
proof -
  have p: "(2::int) ^ 64 \<le> 2 ^ d" using assms(3) by (intro power_increasing) simp_all
  show ?thesis
  proof (cases "m < 0")
    case True
    have "0 \<le> m + 2 ^ d" using p assms(1) by linarith
    with True int_div_pos_eq [of m "2 ^ d" "- 1" "m + 2 ^ d"] show ?thesis by simp
  next
    case False
    have "m < 2 ^ d" using p assms(2) by linarith
    with False show ?thesis by simp
  qed
qed

lemma align_mantissas_div:
  fixes ha hb :: u8
  defines "h \<equiv> (if sint ha \<le> sint hb then hb else ha)"
  assumes "- (2 ^ 64) \<le> ma" and "ma < 2 ^ 64" and "- (2 ^ 64) \<le> mb" and "mb < 2 ^ 64"
  shows "align_mantissas ha ma hb mb =
    (h, ma div 2 ^ nat (sint h - sint ha), mb div 2 ^ nat (sint h - sint hb))"
proof (cases "sint ha \<le> sint hb")
  case True
  then show ?thesis
    using div_saturated [OF assms(2,3), of "nat (sint hb - sint ha)"]
    by (auto simp: align_mantissas_def h_def Let_def drop_bit_eq_div nat_le_iff)
next
  case False
  then show ?thesis
    using div_saturated [OF assms(4,5), of "nat (sint ha - sint hb)"]
    by (auto simp: align_mantissas_def h_def Let_def drop_bit_eq_div nat_le_iff)
qed

section \<open>Addition and subtraction\<close>

definition sum_exponent :: "u8 \<Rightarrow> u8 \<Rightarrow> u8" where
  "sum_exponent ha hb = (if sint ha \<le> sint hb then hb else ha)"

definition aligned :: "u8 \<Rightarrow> u8 \<Rightarrow> u32 \<Rightarrow> int" where
  "aligned h ha la = ext_mantissa ha la div 2 ^ nat (sint h - sint ha)"

definition sum_mantissa :: "bool \<Rightarrow> u8 \<Rightarrow> u32 \<Rightarrow> u8 \<Rightarrow> u32 \<Rightarrow> int" where
  "sum_mantissa is_add ha la hb lb = (let h = sum_exponent ha hb in
     if is_add then aligned h ha la + aligned h hb lb else aligned h ha la - aligned h hb lb)"

lemma aligned_range: "- (2 ^ 32) \<le> aligned h ha la" "aligned h ha la < 2 ^ 32"
proof -
  define k where "k = nat (sint h - sint ha)"
  define m where "m = ext_mantissa ha la"
  have m: "- (2 ^ 32) \<le> m" "m < 2 ^ 32" unfolding m_def by (rule ext_mantissa_range)+
  have p: "(1::int) \<le> 2 ^ k" by simp
  have "- (2 ^ 32) * 2 ^ k \<le> - (2 ^ 32) * (1 :: int)" by (intro mult_left_mono_neg p) simp
  then have "- (2 ^ 32) * 2 ^ k \<le> m" using m(1) by linarith
  then have "- (2 ^ 32) * 2 ^ k div 2 ^ k \<le> m div 2 ^ k" by (intro zdiv_mono1) simp_all
  moreover have "- (2 ^ 32) * 2 ^ k div 2 ^ k = - (2 ^ 32 :: int)" by (rule nonzero_mult_div_cancel_right) simp
  ultimately show "- (2 ^ 32) \<le> aligned h ha la" by (simp only: aligned_def flip: m_def k_def)
  have "m div 2 ^ k < 2 ^ 32"
  proof (cases "m < 0")
    case True
    then have "m div 2 ^ k < 0" by (simp add: div_neg_pos_less0)
    then show ?thesis by simp
  next
    case False
    have "m div 2 ^ k \<le> m div 1" using False p by (intro zdiv_mono2) simp_all
    then show ?thesis using m by simp
  qed
  then show "aligned h ha la < 2 ^ 32" by (simp add: aligned_def flip: m_def k_def)
qed

lemma sum_mantissa_range: "- (2 ^ 33) \<le> sum_mantissa b ha la hb lb" "sum_mantissa b ha la hb lb < 2 ^ 33"
proof -
  define h where "h = sum_exponent ha hb"
  have a: "- (2 ^ 32) \<le> aligned h ha la" "aligned h ha la < 2 ^ 32" by (rule aligned_range)+
  have c: "- (2 ^ 32) \<le> aligned h hb lb" "aligned h hb lb < 2 ^ 32" by (rule aligned_range)+
  show "- (2 ^ 33) \<le> sum_mantissa b ha la hb lb" "sum_mantissa b ha la hb lb < 2 ^ 33"
    using a c by (auto simp: sum_mantissa_def Let_def simp flip: h_def)
qed

lemma sum_mantissa_0:
  assumes "sum_mantissa b ha la hb lb \<noteq> 0"
  shows "- 128 < sint (sum_exponent ha hb)"
proof (rule ccontr)
  assume "\<not> - 128 < sint (sum_exponent ha hb)"
  then have "sint ha = - 128 \<and> sint hb = - 128"
    using sint_u8(1) [of ha] sint_u8(1) [of hb] by (auto simp: sum_exponent_def split: if_splits)
  then have "ha = 0x80" "hb = 0x80" by (simp_all add: sint_0x80)
  then show False using assms by (cases b) (simp_all add: sum_mantissa_def aligned_def Let_def)
qed

lemma AddfSubf_eq:
  "AddfSubf b ha la hb lb r =
     (let s = sum_mantissa b ha la hb lb; (h, c, ov, un) = normalize_sum (sum_exponent ha hb) s
      in (SetHi h (SetLo (pack_mantissa (saturate_mantissa ov un c)) r), ov, un, if s < 0 then 1 else 0))"
proof -
  have e: "align_mantissas ha (ext_mantissa ha la) hb (ext_mantissa hb lb) =
    (sum_exponent ha hb, aligned (sum_exponent ha hb) ha la, aligned (sum_exponent ha hb) hb lb)"
    unfolding aligned_def sum_exponent_def
    using ext_mantissa_range [of ha la] ext_mantissa_range [of hb lb] by (intro align_mantissas_div) simp_all
  show ?thesis by (simp add: AddfSubf_def e sum_mantissa_def Let_def)
qed

lemma pack_saturated:
  "pack_mantissa 0xffffffff = 0x7fffffff" "pack_mantissa (NOT 0xffffffff) = 0x80000000" "pack_mantissa 0 = 0"
  "pack_mantissa (- 0x100000000) = 0x80000000"
  by (simp_all add: pack_mantissa_def)

lemma AddfSubf_cases:
  fixes b ha la hb lb
  defines "s \<equiv> sum_mantissa b ha la hb lb" and "e \<equiv> sint (sum_exponent ha hb)"
  assumes "extended r" and "AddfSubf b ha la hb lb r = (r', ov, un, neg)"
  obtains (zero) "s = 0" and "ov = 0" and "un = 0" and "GetHi r' = 0x80" and "GetLo r' = 0"
  | (carry) "ov = 0" and "un = 0" and "GetHi r' \<noteq> 0x80" and "sint (GetHi r') = e + 1"
      and "ext_mantissa (GetHi r') (GetLo r') = s div 2" and "s < - (2 ^ 32) \<or> 2 ^ 32 \<le> s"
  | (shift) k where "ov = 0" and "un = 0" and "GetHi r' \<noteq> 0x80" and "sint (GetHi r') = e - int k"
      and "ext_mantissa (GetHi r') (GetLo r') = s * 2 ^ k" and "normal (s * 2 ^ k)"
  | (overflow) "ov = 1" and "un = 0" and "e = 127" and "s < - (2 ^ 32) \<or> 2 ^ 32 \<le> s"
      and "GetHi r' = 0x7f" and "GetLo r' = (if 0 < s then 0x7fffffff else 0x80000000)"
  | (underflow) k where "ov = 0" and "un = 1" and "e - int k \<le> - 128" and "normal (s * 2 ^ k)"
      and "GetHi r' = 0x80" and "GetLo r' = 0"
proof -
  let ?h = "sum_exponent ha hb"
  have r: "- (2 ^ 33) \<le> s" "s < 2 ^ 33" unfolding s_def by (rule sum_mantissa_range)+
  obtain h c o' u' where n: "normalize_sum ?h s = (h, c, o', u')" by (metis prod_cases4)
  have eq: "r' = SetHi h (SetLo (pack_mantissa (saturate_mantissa o' u' c)) r)" "ov = o'" "un = u'"
    using assms(4) by (auto simp: AddfSubf_eq n simp flip: s_def)
  have hl: "GetHi r' = h" "GetLo r' = pack_mantissa (saturate_mantissa o' u' c)" using assms(3) by (simp_all add: eq(1))
  have z: "s \<noteq> 0 \<Longrightarrow> - 128 < sint ?h" unfolding s_def by (rule sum_mantissa_0)
  have nz: "x \<noteq> (0x80 :: u8)" if "- 128 < sint x" for x using that sint_0x80 [of x] by force
  show ?thesis
  proof (rule normalize_sum_cases [OF r z], goal_cases)
    case 1
    then show ?case .
  next
    case 2
    note zero = this
    then show ?thesis using n eq hl that(1) by (simp add: saturate_mantissa_def pack_saturated)
  next
    case 3
    note carry = this
    have "normal (s div 2)" using carry(1) r by (auto simp: normal_def)
    moreover have se: "sint (?h + 1) = e + 1" unfolding e_def using carry(2) by (rule sint_u8_add1)
    moreover have "?h + 1 \<noteq> 0x80"
    proof (rule nz)
      show "- 128 < sint (?h + 1)" unfolding se e_def using sint_u8(1) [of ?h] by linarith
    qed
    ultimately show ?thesis
      using carry n eq hl by (intro that(2)) (auto simp: saturate_mantissa_def ext_mantissa_pack)
  next
    case 4
    note overflow = this
    then have "h = 0x7f" "o' = 1" "u' = 0" "c = s div 2" using n by simp_all
    moreover have "0 < s div 2 \<longleftrightarrow> 0 < s" using overflow(1) by auto
    ultimately show ?thesis
      using overflow eq hl by (intro that(4)) (auto simp: saturate_mantissa_def pack_saturated e_def)
  next
    case (5 k)
    note shift = this
    have se: "sint (?h - of_nat k) = e - int k" unfolding e_def using shift(3) by (rule sint_u8_minus)
    moreover have "?h - of_nat k \<noteq> 0x80" using se shift(3) by (intro nz) (simp add: e_def)
    ultimately show ?thesis
      using shift n eq hl by (intro that(3) [of k]) (auto simp: saturate_mantissa_def ext_mantissa_pack)
  next
    case (6 k)
    note underflow = this
    then show ?thesis
      using n eq hl by (intro that(5) [of k]) (auto simp: saturate_mantissa_def pack_saturated e_def)
  qed
qed


section \<open>Accuracy of a sum\<close>

lemma floor_error:
  fixes m :: int
  shows "of_int (m div 2 ^ d) \<le> of_int m / (2 :: real) ^ d" and "of_int m / (2 :: real) ^ d < of_int (m div 2 ^ d) + 1"
proof -
  have "(of_int (m div 2 ^ d) :: real) = of_int \<lfloor>of_int m / (2 :: real) ^ d\<rfloor>"
    using floor_divide_of_int_eq [of m "2 ^ d", where ?'a = real] by simp
  then show "of_int (m div 2 ^ d) \<le> of_int m / (2 :: real) ^ d" "of_int m / (2 :: real) ^ d < of_int (m div 2 ^ d) + 1"
    by linarith+
qed

lemma sum_exponent_ge: "sint ha \<le> sint (sum_exponent ha hb)" "sint hb \<le> sint (sum_exponent ha hb)"
  by (simp_all add: sum_exponent_def)

lemma value_scaled:
  assumes "sint ha \<le> sint h"
  shows "c3x_value ha la = of_int (ext_mantissa ha la) / 2 ^ nat (sint h - sint ha) * 2 powr (of_int (sint h) - 31)"
proof -
  let ?d = "nat (sint h - sint ha)"
  have "(2 :: real) ^ ?d = 2 powr (of_int (sint h) - of_int (sint ha))" using assms by (simp flip: powr_realpow)
  then have "(2 :: real) powr (of_int (sint h) - 31) / 2 ^ ?d = 2 powr (of_int (sint ha) - 31)"
    by (simp flip: powr_diff)
  then show ?thesis unfolding c3x_value_def by (metis times_divide_eq_left times_divide_eq_right)
qed

text \<open>The sum of the aligned mantissas, as a multiple of the unit at the larger exponent.\<close>

definition exact_sum :: "bool \<Rightarrow> u8 \<Rightarrow> u32 \<Rightarrow> u8 \<Rightarrow> u32 \<Rightarrow> real" where
  "exact_sum b ha la hb lb = (if b then c3x_value ha la + c3x_value hb lb else c3x_value ha la - c3x_value hb lb)"

lemma half_bounds:
  assumes "- (2 ^ 32) \<le> (m :: int)" and "m < 2 ^ 32" and "2 \<le> p"
  shows "m div p < 2 ^ 31" and "- (2 ^ 31) \<le> m div p"
proof -
  have "m div p \<le> m div 2 \<or> m < 0" using zdiv_mono2 [of m 2 p] assms(3) by auto
  moreover have "m < 0 \<Longrightarrow> m div p < 0" using assms(3) by (simp add: div_neg_pos_less0)
  ultimately show "m div p < 2 ^ 31" using assms(2) by auto
  have "m div 2 \<le> m div p \<or> 0 \<le> m" using zdiv_mono2_neg [of m 2 p] assms(3) by auto
  moreover have "0 \<le> m \<Longrightarrow> 0 \<le> m div p" using assms(3) by (simp add: pos_imp_zdiv_nonneg_iff)
  ultimately show "- (2 ^ 31) \<le> m div p" using assms(1) by auto
qed

lemma exact_sum_scaled:
  fixes ha hb la lb b
  defines "h \<equiv> sum_exponent ha hb"
  obtains x where "exact_sum b ha la hb lb = x * 2 powr (of_int (sint h) - 31)"
    and "\<bar>x - of_int (sum_mantissa b ha la hb lb)\<bar> < 1"
    and "x < 0 \<longleftrightarrow> sum_mantissa b ha la hb lb < 0"
proof -
  define da db where "da = nat (sint h - sint ha)" and "db = nat (sint h - sint hb)"
  define ma mb where "ma = ext_mantissa ha la" and "mb = ext_mantissa hb lb"
  define xa xb :: real where "xa = of_int ma / 2 ^ da" and "xb = of_int mb / 2 ^ db"
  define S where "S = sum_mantissa b ha la hb lb"
  define x where "x = (if b then xa + xb else xa - xb)"
  have v: "c3x_value ha la = xa * 2 powr (of_int (sint h) - 31)" "c3x_value hb lb = xb * 2 powr (of_int (sint h) - 31)"
    unfolding xa_def xb_def da_def db_def ma_def mb_def h_def by (rule value_scaled, rule sum_exponent_ge)+
  have e: "exact_sum b ha la hb lb = x * 2 powr (of_int (sint h) - 31)"
    by (simp add: exact_sum_def v x_def algebra_simps)
  have s: "S = (if b then ma div 2 ^ da + mb div 2 ^ db else ma div 2 ^ da - mb div 2 ^ db)"
    by (simp add: S_def sum_mantissa_def aligned_def da_def db_def ma_def mb_def h_def Let_def)
  have z: "da = 0 \<or> db = 0" by (auto simp: da_def db_def h_def sum_exponent_def)
  note fa = floor_error [of ma da, folded xa_def] and fb = floor_error [of mb db, folded xb_def]
  have za: "da = 0 \<Longrightarrow> xa = of_int (ma div 2 ^ da)" and zb: "db = 0 \<Longrightarrow> xb = of_int (mb div 2 ^ db)"
    by (simp_all add: xa_def xb_def)
  have err: "\<bar>x - of_int (S)\<bar> < 1"
    using z za zb fa fb by (cases b) (auto simp: x_def s)
  have sign: "x < 0 \<longleftrightarrow> S < 0"
  proof (cases "b \<or> db = 0")
    case True
    then have "of_int (S) \<le> x" "x < of_int (S) + 1"
      using z za zb fa fb by (cases b; auto simp: x_def s)+
    then show ?thesis by linarith
  next
    case False
    then have d: "da = 0" "0 < db" and nb: "\<not> b" using z by simp_all
    then have "ha = h" "hb \<noteq> h" by (auto simp: h_def sum_exponent_def db_def split: if_splits)
    have "ma = 0 \<or> normal ma" using normal_ext_mantissa [of ha la] by (cases "ha = 0x80") (simp_all add: ma_def)
    moreover have "ma \<noteq> 0"
    proof
      assume "ma = 0"
      then have "ha = 0x80" by (simp add: ma_def ext_mantissa_0)
      then have "sint h = - 128" using \<open>ha = h\<close> by simp
      then show False using d(2) sint_u8(1) [of hb] by (simp add: db_def)
    qed
    ultimately have na: "normal ma" by simp
    have "mb = 0 \<or> normal mb" using normal_ext_mantissa [of hb lb] by (cases "hb = 0x80") (simp_all add: mb_def)
    then have "- (2 ^ 32) \<le> mb" "mb < 2 ^ 32" by (auto simp: normal_def)
    moreover have "(2 :: int) ^ 1 \<le> 2 ^ db" using d(2) by (intro power_increasing) simp_all
    ultimately have "mb div 2 ^ db < 2 ^ 31" "- (2 ^ 31) \<le> mb div 2 ^ db"
      by (intro half_bounds; simp)+
    then have "S \<noteq> 0" using na d nb by (auto simp: s normal_def)
    moreover have "x \<le> of_int (S)" "of_int (S) - 1 < x"
      using d nb za fb by (auto simp: x_def s)
    ultimately show ?thesis by linarith
  qed
  show ?thesis using that [OF e err [unfolded S_def] sign [unfolded S_def]] .
qed

end
