(* ===== verification/C3X_Sum.thy ===== *)
theory C3X_Sum
  imports C3X_Float
begin

lemma scaled_bound:
  "\<bar>y\<bar> < c \<Longrightarrow> \<bar>y * 2 powr p\<bar> < c * 2 powr (p :: real)"
  by (simp add: abs_mult)

lemma powr_unit: "2 powr (real_of_int (e + 1) - 31) = 2 * 2 powr (real_of_int e - 31)"
proof -
  have "real_of_int (e + 1) - 31 = (real_of_int e - 31) + 1" by simp
  then show ?thesis by (simp only: powr_add) simp
qed

lemma powr_shifted: "2 ^ k * 2 powr (real_of_int (e - int k) - 31) = 2 powr (real_of_int e - 31)"
proof -
  have "real_of_int (e - int k) - 31 = (real_of_int e - 31) - real k" by simp
  then show ?thesis by (simp only: powr_diff powr_realpow) simp
qed

text \<open>
  C2: additions and subtractions of registers that keep all 40 bits. The negative flag is the sign of
  the exact result. Without overflow and underflow the result is within one unit of the last place at
  the larger of the exponents of operands and result; on overflow it is the largest number of that
  sign, and the exact result is beyond it; on underflow it is zero, and the exact result is within one
  unit of the smallest normal number.
\<close>

theorem AddfSubf_accurate:
  fixes ha hb la lb b
  defines "x \<equiv> exact_sum b ha la hb lb" and "e \<equiv> sint (sum_exponent ha hb)"
  assumes "extended r" and "AddfSubf b ha la hb lb r = (r', ov, un, neg)"
  shows "neg = (if x < 0 then 1 else 0) \<and>
    (if ov \<noteq> 0 then GetHi r' = 0x7f \<and> GetLo r' = (if 0 < x then 0x7fffffff else 0x80000000) \<and>
       2 powr 128 - 2 powr 96 < \<bar>x\<bar>
     else if un \<noteq> 0 then GetHi r' = 0x80 \<and> GetLo r' = 0 \<and> \<bar>x\<bar> < 2 powr (- 127) + 2 powr (of_int e - 31)
     else \<bar>c3x_value (GetHi r') (GetLo r') - x\<bar> < 2 powr (of_int (max e (sint (GetHi r'))) - 31))"
proof -
  define s where "s = sum_mantissa b ha la hb lb"
  define u :: real where "u = 2 powr (of_int e - 31)"
  have u: "0 < u" by (simp add: u_def)
  obtain y where y: "x = y * u" "\<bar>y - of_int s\<bar> < 1" "y < 0 \<longleftrightarrow> s < 0"
    unfolding x_def u_def e_def s_def by (rule exact_sum_scaled)
  have neg: "neg = (if x < 0 then 1 else 0)"
    using assms(4) y(3) u by (auto simp: AddfSubf_eq Let_def y(1) mult_less_0_iff split: prod.splits simp flip: s_def)
  have near: "\<bar>of_int s * u - x\<bar> < u"
    using scaled_bound [of "of_int s - y" 1 "of_int e - 31"] y(1,2)
    by (simp add: u_def left_diff_distrib abs_minus_commute)
  have m: "2 powr (of_int (max e e') - 31) = u" if "e' \<le> e" for e' using that by (simp add: u_def max_def)
  note cases = AddfSubf_cases [OF assms(3,4), folded s_def e_def]
  show ?thesis
  proof (rule cases, goal_cases)
    case 1
    have "sint (GetHi r') \<le> e" using 1(4) sint_u8(1) [of "sum_exponent ha hb"] by (simp add: e_def)
    then show ?thesis using 1 neg near m by (simp add: c3x_value_def)
  next
    case 2
    have "\<bar>of_int (s div 2) * 2 - y\<bar> < 2" using y(2) by linarith
    then have "\<bar>(of_int (s div 2) * 2 - y) * 2 powr (of_int e - 31)\<bar> < 2 * 2 powr (of_int e - 31)" by (rule scaled_bound)
    then have "\<bar>of_int (s div 2) * (2 * u) - x\<bar> < 2 * u" by (simp add: y(1) u_def algebra_simps)
    moreover have "max e (sint (GetHi r')) = e + 1" using 2(4) by simp
    moreover have "c3x_value (GetHi r') (GetLo r') = of_int (s div 2) * (2 * u)"
      unfolding c3x_value_def 2(4) 2(5) powr_unit u_def by simp
    ultimately show ?thesis using 2(1,2) neg powr_unit [of e] by (simp add: u_def)
  next
    case (3 k)
    have "c3x_value (GetHi r') (GetLo r') = of_int s * u"
      unfolding c3x_value_def 3(4) 3(5) u_def using powr_shifted [of k e] by (simp add: mult.assoc)
    then show ?thesis using 3 neg near m [of "sint (GetHi r')"] by simp
  next
    case 4
    have "2 ^ 32 \<le> \<bar>s\<bar>" using 4(4) by auto
    then have "real_of_int (2 ^ 32) \<le> real_of_int \<bar>s\<bar>" by (simp only: of_int_le_iff)
    then have "(2 ^ 32 :: real) \<le> \<bar>of_int s\<bar>" by (simp only: of_int_abs of_int_power of_int_numeral)
    then have "2 ^ 32 - 1 < \<bar>y\<bar>" using y(2) by linarith
    then have "(2 ^ 32 - 1) * u < \<bar>x\<bar>" using u by (simp add: y(1) abs_mult)
    moreover have "u = 2 powr 96" using 4(3) by (simp add: u_def)
    moreover have "(2 ^ 32 :: real) * 2 powr 96 = 2 powr 128" by (simp flip: powr_realpow powr_add)
    ultimately have "2 powr 128 - 2 powr 96 < \<bar>x\<bar>" by (simp only: left_diff_distrib)
    moreover have "0 < x \<longleftrightarrow> 0 < s" using y(2) u 4(4) by (auto simp: y(1) zero_less_mult_iff)
    ultimately show ?thesis using 4 neg by simp
  next
    case (5 k)
    have "\<bar>s * 2 ^ k\<bar> \<le> 2 ^ 32" using 5(4) by (auto simp: normal_def)
    then have "real_of_int \<bar>s * 2 ^ k\<bar> \<le> real_of_int (2 ^ 32)" by (simp only: of_int_le_iff)
    then have "\<bar>of_int s * 2 ^ k\<bar> \<le> (2 ^ 32 :: real)" by (simp only: of_int_abs of_int_mult of_int_power of_int_numeral)
    then have "\<bar>real_of_int s * 2 ^ k\<bar> * 2 powr (of_int (e - int k) - 31) \<le> 2 ^ 32 * 2 powr (of_int (e - int k) - 31)"
      by (intro mult_right_mono) simp_all
    moreover have "\<bar>of_int s\<bar> * u = \<bar>real_of_int s * 2 ^ k\<bar> * 2 powr (of_int (e - int k) - 31)"
      unfolding u_def powr_shifted [of k e, symmetric] by (simp only: abs_mult power_abs abs_numeral mult.assoc)
    ultimately have "\<bar>of_int s\<bar> * u \<le> 2 ^ 32 * 2 powr (of_int (e - int k) - 31)" by (simp only:)
    also have "(2 ^ 32 :: real) = 2 powr 32" by (simp add: powr_numeral)
    also have "(2 :: real) powr 32 * 2 powr (of_int (e - int k) - 31) = 2 powr (of_int (e - int k) + 1)"
      by (simp only: flip: powr_add) (simp add: add.commute)
    also have "\<dots> \<le> 2 powr (- 127)" using 5(3) by simp
    finally have "\<bar>of_int s * u\<bar> \<le> 2 powr (- 127)" using u by (simp add: abs_mult)
    then have "\<bar>x\<bar> < 2 powr (- 127) + u" using near by linarith
    then show ?thesis using 5 neg by (simp add: u_def)
  qed
qed

theorem AddfSubf_accurate_witness:
  "AddfSubf True 0x01 0x40000000 0x01 0x20000000 init_Register = (SetLo 0x30000000 (SetHi 0x02 init_Register), 0, 0, 0) \<and>
   \<bar>c3x_value 0x02 0x30000000 - exact_sum True 0x01 0x40000000 0x01 0x20000000\<bar> < 2 powr (- 29)"
proof -
  have s: "AddfSubf True 0x01 0x40000000 0x01 0x20000000 init_Register =
      (SetLo 0x30000000 (SetHi 0x02 init_Register), 0, 0, 0)" by code_simp
  moreover have "sint (sum_exponent 0x01 0x01) = 1" by code_simp
  ultimately show ?thesis
    using AddfSubf_accurate [OF _ s] by (simp add: init_Register_def extended_def)
qed

end
