(* ===== verification/C3X_Convert.thy ===== *)
theory C3X_Convert
  imports C3X_Sum
begin

section \<open>Conversions to and from integers\<close>

lemma div_capped:
  assumes "- (2 ^ 32) \<le> (m :: int)" and "m < 2 ^ 32" and "32 \<le> d"
  shows "m div 2 ^ d = m div 2 ^ 32"
proof -
  have p: "(2::int) ^ 32 \<le> 2 ^ d" using assms(3) by (intro power_increasing) simp_all
  have "m div q = (if m < 0 then - 1 else 0)" if "2 ^ 32 \<le> q" for q
  proof (cases "m < 0")
    case True
    have "0 \<le> m + q" using that assms(1) by linarith
    with True int_div_pos_eq [of m q "- 1" "m + q"] show ?thesis by simp
  next
    case False
    have "m < q" using that assms(2) by linarith
    with False show ?thesis by simp
  qed
  from this [OF p] this [of "2 ^ 32"] show ?thesis by simp
qed

lemma floor_value:
  assumes "sint h \<le> 31"
  shows "\<lfloor>c3x_value h l\<rfloor> = ext_mantissa h l div 2 ^ nat (31 - sint h)"
proof -
  have "(2 :: real) ^ nat (31 - sint h) = 2 powr (31 - of_int (sint h))" using assms by (simp flip: powr_realpow)
  then have "c3x_value h l = of_int (ext_mantissa h l) / of_int (2 ^ nat (31 - sint h))"
    by (simp add: c3x_value_def powr_minus powr_diff field_simps)
  then show ?thesis by (simp only: floor_divide_of_int_eq)
qed

lemma value_0x80 [simp]: "c3x_value 0x80 l = 0"
  by (simp add: c3x_value_def)

lemma value_sign: "c3x_value h l < 0 \<longleftrightarrow> ext_mantissa h l < 0"
  by (simp add: c3x_value_def mult_less_0_iff)

lemma ext_mantissa_neg: "h \<noteq> 0x80 \<Longrightarrow> ext_mantissa h l < 0 \<longleftrightarrow> bit l 31"
  using normal_bits(2) [OF normal_ext_mantissa, of h 32 l] by (simp add: bit_ext_mantissa)

text \<open>The signed 32-bit integer nearest to \<open>x\<close>.\<close>

definition clamp32 :: "int \<Rightarrow> int" where
  "clamp32 x = max (- (2 ^ 31)) (min (2 ^ 31 - 1) x)"

lemma large_value:
  assumes "h \<noteq> 0x80" and "30 < sint h"
  shows "if bit l 31 then \<lfloor>c3x_value h l\<rfloor> < - (2 ^ 31) else 2 ^ 31 \<le> \<lfloor>c3x_value h l\<rfloor>"
proof -
  define m where "m = ext_mantissa h l"
  have n: "normal m" unfolding m_def by (rule normal_ext_mantissa [OF assms(1)])
  have "real_of_int 31 \<le> real_of_int (sint h)" using assms(2) by (simp only: of_int_le_iff)
  then have p: "1 \<le> (2 :: real) powr (of_int (sint h) - 31)" by (intro ge_one_powr_ge_zero) simp_all
  have v: "c3x_value h l = of_int m * 2 powr (of_int (sint h) - 31)" by (simp add: c3x_value_def m_def)
  show ?thesis
  proof (cases "bit l 31")
    case True
    then have "m < - (2 ^ 31)" using n ext_mantissa_neg [OF assms(1), of l] by (auto simp: normal_def m_def)
    then have "real_of_int m \<le> - (2 ^ 31) - 1" by simp
    moreover have "of_int m * 2 powr (of_int (sint h) - 31) \<le> real_of_int m * 1"
      using p \<open>m < - (2 ^ 31)\<close> by (intro mult_left_mono_neg) simp_all
    ultimately have "c3x_value h l < - (2 ^ 31)" unfolding v by linarith
    then show ?thesis using True by (simp add: floor_less_iff)
  next
    case False
    then have "2 ^ 31 \<le> m" using n ext_mantissa_neg [OF assms(1), of l] by (auto simp: normal_def m_def)
    then have "(2 ^ 31 :: real) \<le> of_int m" by simp
    moreover have "real_of_int m * 1 \<le> of_int m * 2 powr (of_int (sint h) - 31)"
      using p \<open>2 ^ 31 \<le> m\<close> by (intro mult_left_mono) simp_all
    ultimately have "2 ^ 31 \<le> c3x_value h l" unfolding v by linarith
    then show ?thesis using False by (simp add: le_floor_iff)
  qed
qed

lemma sint_u32_of_int: "- (2 ^ 31) \<le> x \<Longrightarrow> x < 2 ^ 31 \<Longrightarrow> sint (word_of_int x :: u32) = x"
  by (simp add: sint_sbintrunc' signed_take_bit_int_eq_self)

lemma Fix_result:
  assumes "c3x_Fix r = (v, ov, neg)"
  defines "x \<equiv> c3x_value (GetHi r) (GetLo r)"
  shows "sint v = clamp32 \<lfloor>x\<rfloor> \<and> ov = (if sint v = \<lfloor>x\<rfloor> then 0 else 1) \<and> neg = (if x < 0 then 1 else 0)"
proof -
  define h l where "h = GetHi r" and "l = GetLo r"
  have lo: "r_lo r = l" by (simp add: l_def GetLo_def)
  have x: "x = c3x_value h l" by (simp add: x_def h_def l_def)
  note result = assms(1) [unfolded c3x_Fix_def lo, folded h_def l_def]
  consider "h = 0x80" | "h \<noteq> 0x80" "30 < sint h" | "h \<noteq> 0x80" "sint h \<le> 30" by linarith
  then show ?thesis
  proof cases
    case 1
    with result x show ?thesis by (simp add: clamp32_def)
  next
    case 2
    then have "x < 0 \<longleftrightarrow> bit l 31" by (simp add: x value_sign ext_mantissa_neg)
    moreover obtain f where f: "\<lfloor>x\<rfloor> = f" by simp
    moreover have "if bit l 31 then f < - (2 ^ 31) else 2 ^ 31 \<le> f" unfolding f [symmetric] x using 2 by (rule large_value)
    ultimately show ?thesis unfolding f using result 2 by (auto simp: and_80000000 clamp32_def split: if_splits)
  next
    case 3
    define m where "m = ext_mantissa h l"
    have r: "- (2 ^ 32) \<le> m" "m < 2 ^ 32" unfolding m_def by (rule ext_mantissa_range)+
    have s: "1 \<le> 31 - sint h" using 3 by simp
    have d: "m div 2 ^ nat (if 31 - sint h > 32 then 32 else 31 - sint h) = \<lfloor>x\<rfloor>"
      using 3 div_capped [OF r, of "nat (31 - sint h)"] by (simp add: x floor_value m_def)
    have b: "- (2 ^ 31) \<le> \<lfloor>x\<rfloor>" "\<lfloor>x\<rfloor> < 2 ^ 31"
    proof -
      have "(2 :: int) ^ 1 \<le> 2 ^ nat (31 - sint h)" using s by (intro power_increasing) simp_all
      then show "- (2 ^ 31) \<le> \<lfloor>x\<rfloor>" "\<lfloor>x\<rfloor> < 2 ^ 31"
        using half_bounds [OF r] 3 by (simp_all add: x floor_value m_def)
    qed
    have "v = word_of_int \<lfloor>x\<rfloor> \<and> ov = 0 \<and> neg = (if bit l 31 then 1 else 0)"
      using result 3 d by (auto simp: Let_def and_80000000 ext_mantissa_def m_def drop_bit_eq_div split: if_splits)
    then show ?thesis
      using b 3 by (auto simp: sint_u32_of_int clamp32_def x value_sign ext_mantissa_neg)
  qed
qed

text \<open>
  C36: \<open>Fix\<close> returns the largest integer below the value, clamped to the 32-bit range; the overflow
  flag says that it had to be clamped, the negative flag is the sign of the value.
\<close>

theorem Fix_rounds_down:
  assumes "c3x_Fix r = (v, ov, neg)"
  defines "x \<equiv> c3x_value (GetHi r) (GetLo r)"
  shows "sint v = clamp32 \<lfloor>x\<rfloor> \<and> ov = (if sint v = \<lfloor>x\<rfloor> then 0 else 1) \<and> neg = (if x < 0 then 1 else 0)"
  unfolding x_def by (rule Fix_result [OF assms(1)])

theorem Fix_rounds_down_witness:
  "clamp32 \<lfloor>c3x_value 0x01 0xc0000000\<rfloor> = - 3"
  using Fix_rounds_down [of "\<lparr>r_lo_write_mask = 0xffffffff, r_lo = 0xc0000000, r_hi_write_mask = 0xff, r_hi = 0x01\<rparr>"
      "0xfffffffd" 0 1]
  by (simp add: GetHi_def GetLo_def c3x_Fix_def)

section \<open>Integers as floating-point numbers\<close>

lemma sint_NOT: "sint (NOT v :: u32) = - sint v - 1"
proof -
  have r: "- (2 ^ 31) \<le> sint v" "sint v < 2 ^ 31" using sint_ge [of v] sint_lt [of v] by simp_all
  have "sint (NOT v) = NOT (sint v)"
    using r by (simp only: signed_not_eq) (simp add: signed_take_bit_int_eq_self not_int_def)
  then show ?thesis by (simp add: not_int_def)
qed

lemma unat_sint: "0 \<le> sint (v :: u32) \<Longrightarrow> int (unat v) = sint v"
proof -
  assume p: "0 \<le> sint v"
  have "uint (word_of_int (sint v) :: u32) = sint v"
    using p sint_lt [of v] by (simp only: uint_word_of_int) (simp add: take_bit_int_eq_self)
  then show ?thesis by simp
qed

lemma Float_normal:
  fixes v :: u32
  assumes "v \<noteq> 0"
  defines "c \<equiv> (if sint v < 0 then clz32 (NOT v) else clz32 v)"
  shows "0 < c \<and> c \<le> 32 \<and> normal (sint v * 2 ^ c) \<and> (c = 32 \<longleftrightarrow> v = - 1)"
proof -
  have r: "- (2 ^ 31) \<le> sint v" "sint v < 2 ^ 31" using sint_ge [of v] sint_lt [of v] by simp_all
  have pos: "0 < clz32 w \<and> clz32 w < 32 \<and> 2 ^ (31 - clz32 w) \<le> sint w \<and> sint w < 2 ^ (32 - clz32 w)"
    if "0 \<le> sint w" "w \<noteq> 0" for w
  proof -
    note b = clz32_bounds [OF that(2)] and u = unat_sint [OF that(1)]
    have "sint w < 2 ^ 31" using sint_lt [of w] by simp
    then have "int (unat w) < int (2 ^ 31)" using u by simp
    then have "unat w < 2 ^ 31" by (simp only: of_nat_less_iff)
    have "clz32 w \<noteq> 0"
    proof
      assume "clz32 w = 0"
      with b(2) \<open>unat w < 2 ^ 31\<close> show False by simp
    qed
    moreover have "int (2 ^ (31 - clz32 w)) \<le> int (unat w)" "int (unat w) < int (2 ^ (32 - clz32 w))"
      using b(2,3) by (simp_all only: of_nat_le_iff of_nat_less_iff)
    ultimately show ?thesis using b(1) u by simp
  qed
  show ?thesis
  proof (cases "sint v < 0")
    case False
    then have p: "0 < c" "c < 32" "2 ^ (31 - c) \<le> sint v" "sint v < 2 ^ (32 - c)"
      using pos [of v] assms(1) by (simp_all add: c_def)
    moreover have "v \<noteq> - 1" using False by auto
    ultimately show ?thesis using normal_scaled_pos [of c "sint v"] by simp
  next
    case neg: True
    show ?thesis
    proof (cases "v = - 1")
      case True
      then show ?thesis by (simp add: c_def normal_def)
    next
      case False
      then have "NOT v \<noteq> 0" by (metis bit.double_compl bit.compl_zero)
      then have p: "0 < c" "c < 32" "2 ^ (31 - c) \<le> - sint v - 1" "- sint v - 1 < 2 ^ (32 - c)"
        using pos [of "NOT v"] neg by (simp_all add: c_def sint_NOT)
      then show ?thesis using normal_scaled_neg [of c "sint v"] False by simp
    qed
  qed
qed

lemma word_less_sign: "0x80000000 \<le> (v :: u32) \<longleftrightarrow> sint v < 0"
proof -
  have "int (unat v) = uint v" by simp
  moreover have "uint v = (if sint v < 0 then sint v + 2 ^ 32 else sint v)"
  proof (cases "sint v < 0")
    case True
    have "uint v = uint (word_of_int (sint v) :: u32)" by simp
    also have "\<dots> = sint v mod 2 ^ 32" by (simp only: uint_word_of_int) simp
    finally have "uint v = sint v mod 2 ^ 32" .
    moreover have "sint v mod 2 ^ 32 = sint v + 2 ^ 32"
      using True sint_ge [of v] by (intro int_mod_pos_eq [of _ _ "- 1"]) simp_all
    ultimately show ?thesis using True by simp
  qed (use unat_sint [of v] in simp)
  moreover have "uint v < 2 ^ LENGTH(32)" by (rule unsigned_less)
  ultimately show ?thesis
    using sint_ge [of v] sint_lt [of v] by (auto simp: word_le_def)
qed

lemma ucast_of_int: "ucast (word_of_int k :: u32) = (word_of_int k :: u8)"
  by (rule bit_word_eqI) (auto simp: bit_simps)

lemma Float_mantissa:
  fixes v :: u32
  assumes "v \<noteq> 0"
  obtains c where "normal (sint v * 2 ^ c)" and "1 \<le> c" and "c \<le> 32"
    and "c3x_Float v r =
      (SetHi (word_of_int (31 - int c)) (SetLo (pack_mantissa (sint v * 2 ^ c)) r), if sint v < 0 then 1 else 0)"
proof -
  define c where "c = (if sint v < 0 then clz32 (NOT v) else clz32 v)"
  have c: "0 < c" "c \<le> 32" "normal (sint v * 2 ^ c)" "c = 32 \<longleftrightarrow> v = - 1"
    using Float_normal [OF assms] by (simp_all add: c_def)
  define l where "l = (if c = 32 then 0 else push_bit c v)"
  have b31: "i < 31 \<Longrightarrow> bit l i \<longleftrightarrow> bit (sint v * 2 ^ c) i" for i
    using c(1) by (auto simp: l_def bit_push_bit_iff bit_simps simp flip: push_bit_eq_mult)
  have b32: "bit (sint v * 2 ^ c) 32 \<longleftrightarrow> sint v < 0"
    using normal_bits(2) [OF c(3), of 32] by (simp add: mult_less_0_iff)
  have l: "(if sint v < 0 then l OR 0x80000000 else l AND NOT 0x80000000) = pack_mantissa (sint v * 2 ^ c)"
  proof (rule bit_word_eqI)
    fix i assume "i < LENGTH(32)"
    then show "bit (if sint v < 0 then l OR 0x80000000 else l AND NOT 0x80000000) i = bit (pack_mantissa (sint v * 2 ^ c)) i"
      using b31 [of i] b32
      by (cases "sint v < 0"; simp only: if_True if_False bit_pack_mantissa bit_or_iff bit_and_iff bit_not_iff bit_80000000_u32)
        auto
  qed
  have h: "ucast (30 - of_nat (c - 1) :: u32) = (word_of_int (31 - int c) :: u8)"
  proof -
    have "(30 - of_nat (c - 1) :: u32) = word_of_int (31 - int c)" using c(1) by (simp add: of_nat_diff)
    then show ?thesis by (simp only: ucast_of_int)
  qed
  have nsb: "(if sint v < 0 then clz32 (NOT v) - 1 else clz32 v - 1) = c - 1"
    by (simp add: c_def)
  have l': "(if c - 1 = 31 then 0 else push_bit (c - 1 + 1) v) = l" using c(1) by (auto simp: l_def)
  have "c3x_Float v r =
      (SetHi (word_of_int (31 - int c)) (SetLo (pack_mantissa (sint v * 2 ^ c)) r), if sint v < 0 then 1 else 0)"
    unfolding c3x_Float_def Let_def word_less_sign unfolding nsb unfolding l' unfolding l h using assms by (simp only: if_True not_False_eq_True)
  then show ?thesis using that c by auto
qed

text \<open>\<open>Float\<close> is exact for every 32-bit integer, and its negative flag is the sign.\<close>

lemma Float_exact:
  assumes "extended r" and "c3x_Float v r = (r', neg)"
  shows "c3x_value (GetHi r') (GetLo r') = of_int (sint v) \<and> neg = (if sint v < 0 then 1 else 0)"
proof (cases "v = 0")
  case True
  then show ?thesis using assms by (auto simp: c3x_Float_def)
next
  case False
  then obtain c where c: "normal (sint v * 2 ^ c)" "1 \<le> c" "c \<le> 32"
    "c3x_Float v r = (SetHi (word_of_int (31 - int c)) (SetLo (pack_mantissa (sint v * 2 ^ c)) r), if sint v < 0 then 1 else 0)"
    by (rule Float_mantissa)
  let ?h = "word_of_int (31 - int c) :: u8"
  have h: "sint ?h = 31 - int c" using c(2,3) by (intro sint_u8_of_int) simp_all
  then have "?h \<noteq> 0x80" using c(3) sint_0x80 [of ?h] by auto
  then have "ext_mantissa ?h (pack_mantissa (sint v * 2 ^ c)) = sint v * 2 ^ c" by (rule ext_mantissa_pack [OF c(1)])
  moreover have "(2 :: real) ^ c * 2 powr (of_int (31 - int c) - 31) = 1" by (simp flip: powr_realpow powr_add)
  ultimately have "c3x_value ?h (pack_mantissa (sint v * 2 ^ c)) = of_int (sint v)"
    unfolding c3x_value_def h by (simp add: mult.assoc)
  then show ?thesis using assms c(4) by auto
qed

text \<open>
  C35: \<open>Float\<close> is exact for every 32-bit integer; converting it back returns it, without overflow.
\<close>

theorem Fix_Float:
  assumes "extended r" and "c3x_Float v r = (r', neg)"
  shows "c3x_value (GetHi r') (GetLo r') = of_int (sint v) \<and> c3x_Fix r' = (v, 0, neg)"
proof -
  have f: "c3x_value (GetHi r') (GetLo r') = of_int (sint v)" "neg = (if sint v < 0 then 1 else 0)"
    using Float_exact [OF assms] by simp_all
  obtain w ov n where x: "c3x_Fix r' = (w, ov, n)" by (cases "c3x_Fix r'")
  obtain z where z: "sint v = z" by simp
  have "clamp32 z = z" using sint_ge [of v] sint_lt [of v] by (simp add: clamp32_def z)
  then have "sint w = z" "ov = 0" "n = neg" using Fix_result [OF x] f unfolding z by simp_all
  moreover from this(1) z have "w = v" by (metis signed_word_eqI)
  ultimately show ?thesis using x f(1) by (simp add: z)
qed

theorem Fix_Float_witness:
  "c3x_Fix (SetHi 0x02 (SetLo 0xe0000000 init_Register)) = (- 5, 0, 1)"
proof -
  have "c3x_Float (- 5) init_Register = (SetHi 0x02 (SetLo 0xe0000000 init_Register), 1)" by code_simp
  then show ?thesis using Fix_Float [of init_Register "- 5"] by (simp add: init_Register_def extended_def)
qed

end
