(* ===== verification/C3X_Arith.thy ===== *)
theory C3X_Arith
  imports C3X_Convert
begin

section \<open>Absolute value\<close>

lemma ext_mantissa_arith:
  assumes "h \<noteq> 0x80"
  shows "ext_mantissa h l = (if sint l < 0 then sint l - 2 ^ 31 else sint l + 2 ^ 31)"
proof -
  define m where "m = (if sint l < 0 then sint l - 2 ^ 31 else sint l + 2 ^ 31)"
  have r: "- (2 ^ 31) \<le> sint l" "sint l < 2 ^ 31" using sint_ge [of l] sint_lt [of l] by simp_all
  have n: "normal m" using r by (auto simp: m_def normal_def)
  have s: "bit l 31 \<longleftrightarrow> sint l < 0"
    using bit_int_high [OF r, of 31] by (simp add: bit_simps)
  have t: "take_bit 31 m = take_bit 31 (sint l)"
    by (auto simp: m_def take_bit_eq_mod mod_eq_dvd_iff)
  have "pack_mantissa m = l"
  proof (rule bit_word_eqI)
    fix i assume i: "i < LENGTH(32)"
    show "bit (pack_mantissa m) i = bit l i"
    proof (cases "i = 31")
      case True
      then show ?thesis using normal_bits(2) [OF n, of 32] s r by (auto simp: bit_pack_mantissa m_def)
    next
      case False
      then have "i < 31" using i by simp
      then have "bit m i = bit (sint l) i" using t by (metis bit_take_bit_iff)
      with \<open>i < 31\<close> show ?thesis by (simp add: bit_pack_mantissa bit_simps)
    qed
  qed
  then have "ext_mantissa h l = m" using ext_mantissa_pack [OF n assms] by simp
  then show ?thesis by (simp add: m_def)
qed

lemma sint_minus_u32: "sint (l :: u32) \<noteq> - (2 ^ 31) \<Longrightarrow> sint (- l) = - sint l"
proof -
  assume "sint l \<noteq> - (2 ^ 31)"
  then have "- (2 ^ 31) \<le> - sint l" "- sint l < 2 ^ 31" using sint_ge [of l] sint_lt [of l] by simp_all
  then show ?thesis using sint_u32_of_int [of "- sint l"] by simp
qed

lemma sint_80000000: "sint l = - (2 ^ 31) \<longleftrightarrow> l = (0x80000000 :: u32)"
proof -
  have "sint (0x80000000 :: u32) = - (2 ^ 31)" by simp
  then show ?thesis by (metis signed_word_eqI)
qed

lemma value_def_arith: "h \<noteq> 0x80 \<Longrightarrow> c3x_value h l =
    of_int (if sint l < 0 then sint l - 2 ^ 31 else sint l + 2 ^ 31) * 2 powr (of_int (sint h) - 31)"
  by (simp only: c3x_value_def ext_mantissa_arith not_False_eq_True)

text \<open>
  \<open>Absf\<close> is the absolute value; the most negative number overflows to the largest one.
\<close>

lemma Absf_absolute:
  assumes "extended r" and "Absf h l r = (r', ov)"
  shows "if ov \<noteq> 0 then h = 0x7f \<and> l = 0x80000000 \<and> GetHi r' = 0x7f \<and> GetLo r' = 0x7fffffff
    else c3x_value (GetHi r') (GetLo r') = \<bar>c3x_value h l\<bar>"
proof -
  consider "h = 0x80" | "h = 0x7f" "l = 0x80000000" | "h \<noteq> 0x80" "h \<noteq> 0x7f" "l = 0x80000000"
    | "h \<noteq> 0x80" "l \<noteq> 0x80000000" "sint l < 0" | "h \<noteq> 0x80" "0 \<le> sint l" by linarith
  then show ?thesis
  proof cases
    case 1
    then show ?thesis using assms by (auto simp: Absf_def)
  next
    case 2
    then show ?thesis using assms by (auto simp: Absf_def)
  next
    case 3
    have "sint h \<noteq> sint (0x7f :: u8)" using 3(2) signed_word_eqI by blast
    then have s: "sint h < 127" using sint_u8(2) [of h] by simp
    then have s1: "sint (h + 1) = sint h + 1" by (rule sint_u8_add1)
    then have "h + 1 \<noteq> 0x80" using sint_0x80 [of "h + 1"] sint_u8(1) [of h] by auto
    moreover have "c3x_value h l = - (2 ^ 32) * 2 powr (of_int (sint h) - 31)"
      unfolding 3(3) value_def_arith [OF 3(1)] by simp
    moreover have "r' = SetHi (h + 1) (SetLo 0 r)" "ov = 0" using assms 3 by (simp_all add: Absf_def)
    ultimately show ?thesis using assms(1) powr_unit [of "sint h"] by (simp add: value_def_arith s1 abs_mult)
  next
    case 4
    have r': "r' = SetHi h (SetLo (- l) r)" "ov = 0"
      using assms 4 by (simp_all add: Absf_def not_eq_complement split: if_splits)
    have s: "sint (- l) = - sint l" using 4(2) sint_80000000 [of l] by (intro sint_minus_u32) simp
    have "c3x_value h (- l) = of_int (- sint l + 2 ^ 31) * 2 powr (of_int (sint h) - 31)"
      using 4(3) unfolding value_def_arith [OF 4(1)] s by simp
    moreover have "c3x_value h l = of_int (sint l - 2 ^ 31) * 2 powr (of_int (sint h) - 31)"
      using 4(3) by (simp only: value_def_arith [OF 4(1)] if_True)
    ultimately have "c3x_value h (- l) = - c3x_value h l" by (simp only: flip: mult_minus_left of_int_minus) simp
    moreover have "c3x_value h l < 0" using 4 by (simp add: value_sign ext_mantissa_arith)
    ultimately show ?thesis using r' assms(1) by simp
  next
    case 5
    then have "\<not> c3x_value h l < 0" using value_sign [of h l] by (simp add: ext_mantissa_arith)
    moreover have "r' = SetLo l (SetHi h r)" "ov = 0" using assms(2) 5 by (auto simp: Absf_def split: if_splits)
    ultimately show ?thesis using assms(1) by simp
  qed
qed


section \<open>Multiplication\<close>

text \<open>The operand as the multiplier sees it: the mantissa cut to 25 bits.\<close>

definition truncated_value :: "u8 \<Rightarrow> u32 \<Rightarrow> real" where
  "truncated_value h l = of_int (ext_mantissa h l div 2 ^ 8) * 2 powr (of_int (sint h) - 23)"

lemma truncated_value_close:
  "0 \<le> c3x_value h l - truncated_value h l \<and> c3x_value h l - truncated_value h l < 2 powr (of_int (sint h) - 23)"
proof -
  define u :: real where "u = 2 powr (of_int (sint h) - 23)"
  have u: "0 < u" by (simp add: u_def)
  have "(2 :: real) powr (of_int (sint h) - 31) = u / 2 ^ 8" by (simp add: u_def powr_diff)
  then have v: "c3x_value h l = of_int (ext_mantissa h l) / 2 ^ 8 * u" by (simp add: c3x_value_def)
  have t: "truncated_value h l = of_int (ext_mantissa h l div 2 ^ 8) * u" by (simp add: truncated_value_def u_def)
  define d where "d = of_int (ext_mantissa h l) / 2 ^ 8 - real_of_int (ext_mantissa h l div 2 ^ 8)"
  have "0 \<le> d" "d < 1" using floor_error [of "ext_mantissa h l" 8] by (simp_all add: d_def)
  moreover have "c3x_value h l - truncated_value h l = d * u" by (simp add: v t d_def left_diff_distrib)
  ultimately show ?thesis unfolding u_def [symmetric] using u by simp
qed

lemma factor_range:
  fixes l :: u32
  assumes "h \<noteq> 0x80"
  defines "a \<equiv> ext_mantissa h l div 2 ^ 8"
  shows "2 ^ 23 \<le> a \<and> a < 2 ^ 24 \<or> - (2 ^ 24) \<le> a \<and> a < - (2 ^ 23)"
  using normal_ext_mantissa [OF assms(1), of l] unfolding a_def normal_def by auto

lemma product_range:
  fixes a b :: int
  assumes "2 ^ 23 \<le> a \<and> a < 2 ^ 24 \<or> - (2 ^ 24) \<le> a \<and> a < - (2 ^ 23)"
    and "2 ^ 23 \<le> b \<and> b < 2 ^ 24 \<or> - (2 ^ 24) \<le> b \<and> b < - (2 ^ 23)"
  shows "2 ^ 46 \<le> a * b \<and> a * b \<le> 2 ^ 48 \<or> - (2 ^ 48) < a * b \<and> a * b < - (2 ^ 46)"
proof -
  have m: "x * y \<le> X * Y" if "0 \<le> x" "0 \<le> y" "x \<le> X" "y \<le> Y" for x y X Y :: int
    using that by (intro mult_mono) simp_all
  consider "2 ^ 23 \<le> a" "a < 2 ^ 24" "2 ^ 23 \<le> b" "b < 2 ^ 24"
    | "2 ^ 23 \<le> a" "a < 2 ^ 24" "2 ^ 23 < - b" "- b \<le> 2 ^ 24"
    | "2 ^ 23 < - a" "- a \<le> 2 ^ 24" "2 ^ 23 \<le> b" "b < 2 ^ 24"
    | "2 ^ 23 < - a" "- a \<le> 2 ^ 24" "2 ^ 23 < - b" "- b \<le> 2 ^ 24"
    using assms by linarith
  then show ?thesis
  proof cases
    case 1
    then show ?thesis using m [of "2 ^ 23" "2 ^ 23" a b] m [of a b "2 ^ 24" "2 ^ 24"] by simp
  next
    case 2
    then show ?thesis using m [of "2 ^ 23" "2 ^ 23 + 1" a "- b"] m [of a "- b" "2 ^ 24 - 1" "2 ^ 24"] by simp
  next
    case 3
    then show ?thesis using m [of "2 ^ 23 + 1" "2 ^ 23" "- a" b] m [of "- a" b "2 ^ 24" "2 ^ 24 - 1"] by simp
  next
    case 4
    then show ?thesis using m [of "2 ^ 23" "2 ^ 23" "- a" "- b"] m [of "- a" "- b" "2 ^ 24" "2 ^ 24"] by simp
  qed
qed

lemma product_normal:
  assumes "2 ^ 46 \<le> c \<and> c \<le> 2 ^ 48 \<or> - (2 ^ 48) < c \<and> c < - (2 ^ 46)"
  shows "normal (c div 2 ^ (15 + product_shift c))"
proof -
  define q where "q = c div 70368744177664"
  have "c = q * 70368744177664 + c mod 70368744177664" by (simp add: q_def)
  moreover have "0 \<le> c mod 70368744177664" "c mod 70368744177664 < 70368744177664" by simp_all
  ultimately have q: "q * 70368744177664 \<le> c" "c < q * 70368744177664 + 70368744177664" by linarith+
  consider "70368744177664 \<le> c" "c < 140737488355328" | "140737488355328 \<le> c" "c < 281474976710656" | "c = 281474976710656"
    | "- 140737488355328 \<le> c" "c < - 70368744177664" | "- 281474976710656 < c" "c < - 140737488355328"
    using assms by simp linarith
  then show ?thesis
  proof cases
    case 1
    then have "q = 1" using q by arith
    then have "product_shift c = 0" using 1 by (auto simp: product_shift_def Let_def drop_bit_eq_div simp flip: q_def)
    with 1 show ?thesis by (simp add: normal_def) linarith
  next
    case 2
    then have "q = 2 \<or> q = 3" using q by arith
    then have "product_shift c = 1" using 2 by (auto simp: product_shift_def Let_def drop_bit_eq_div simp flip: q_def)
    with 2 show ?thesis by (simp add: normal_def) linarith
  next
    case 3
    then show ?thesis by (simp add: product_shift_def drop_bit_eq_div normal_def)
  next
    case 4
    then have "q = - 2" using q by arith
    then have "product_shift c = 0" using 4 by (auto simp: product_shift_def Let_def drop_bit_eq_div simp flip: q_def)
    with 4 show ?thesis by (simp add: normal_def) linarith
  next
    case 5
    then have "q = - 3 \<or> q = - 4" using q by arith
    then have "product_shift c = 1" using 5 by (auto simp: product_shift_def Let_def drop_bit_eq_div simp flip: q_def)
    with 5 show ?thesis by (simp add: normal_def) linarith
  qed
qed

lemma normal_real:
  assumes "normal m"
  shows "2 ^ 31 \<le> real_of_int m \<and> real_of_int m \<le> 2 ^ 32 - 1 \<or>
    - (2 ^ 32) \<le> real_of_int m \<and> real_of_int m \<le> - (2 ^ 31) - 1"
proof -
  have "real_of_int (2 ^ 31) \<le> of_int m \<and> of_int m \<le> real_of_int (2 ^ 32 - 1) \<or>
    real_of_int (- (2 ^ 32)) \<le> of_int m \<and> of_int m \<le> real_of_int (- (2 ^ 31) - 1)"
    using assms unfolding of_int_le_iff normal_def by auto
  then show ?thesis by simp
qed

lemma minus_128: "(- 128 :: u8) = 0x80"
  by simp

text \<open>The result from the exponent sum and the shifted product.\<close>

definition scale_product :: "int \<Rightarrow> int \<Rightarrow> c3x_register \<Rightarrow> c3x_result" where
  "scale_product e m r = (let e = (if m = 0 then - 128 else e);
      (e, m', ov, un) = (if e > 127 then (127, if m > 0 then 0xffffffff else NOT 0xffffffff, 1, 0)
        else if e \<le> - 128 \<and> m \<noteq> 0 then (- 128, 0, 0, 1) else (e, m, 0, 0))
    in (SetHi (word_of_int e) (SetLo (pack_mantissa m') r), ov, un, if m < 0 then 1 else 0))"

lemma Mpyf_eq:
  "Mpyf ha la hb lb r = (let c = ext_mantissa ha la div 2 ^ 8 * (ext_mantissa hb lb div 2 ^ 8); k = product_shift c
    in scale_product (sint ha + sint hb + int k) (c div 2 ^ (15 + k)) r)"
proof -
  have d: "drop_bit 15 (drop_bit k c) = c div 2 ^ (15 + k)" for k and c :: int
    by (simp add: drop_bit_eq_div zdiv_zmult2_eq power_add mult.commute)
  show ?thesis unfolding Mpyf_def scale_product_def Let_def d drop_bit_eq_div [of 8] by (rule refl)
qed

text \<open>
  C7: multiplication. The exact product of the two operands cut to 25-bit mantissas is rounded down to
  the unit of the last place of the result; an overflow returns the largest number of the sign of the
  product, which is at least \<open>2 ^ 128\<close>, an underflow returns zero for a product of at most \<open>2 ^ -127\<close>.
\<close>

theorem Mpyf_accurate:
  fixes ha hb la lb
  defines "x \<equiv> truncated_value ha la * truncated_value hb lb"
  assumes "extended r" and "Mpyf ha la hb lb r = (r', ov, un, neg)"
  shows "neg = (if x < 0 then 1 else 0) \<and>
    (if ov \<noteq> 0 then GetHi r' = 0x7f \<and> GetLo r' = (if 0 < x then 0x7fffffff else 0x80000000) \<and> 2 powr 128 \<le> \<bar>x\<bar>
     else if un \<noteq> 0 then GetHi r' = 0x80 \<and> GetLo r' = 0 \<and> \<bar>x\<bar> \<le> 2 powr (- 127)
     else 0 \<le> x - c3x_value (GetHi r') (GetLo r') \<and>
       x - c3x_value (GetHi r') (GetLo r') < 2 powr (of_int (sint (GetHi r')) - 31))"
proof -
  define a b where "a = ext_mantissa ha la div 2 ^ 8" and "b = ext_mantissa hb lb div 2 ^ 8"
  define c where "c = a * b"
  define k where "k = product_shift c"
  define m where "m = c div 2 ^ (15 + k)"
  define e where "e = sint ha + sint hb + int k"
  define u :: real where "u = 2 powr (of_int e - 31)"
  have u: "0 < u" by (simp add: u_def)
  note mpy = Mpyf_eq [of ha la hb lb r, folded a_def b_def, unfolded Let_def, folded c_def, folded k_def, folded m_def e_def]
  define y where "y = of_int c / (2 :: real) ^ (15 + k)"
  have x: "x = y * u"
  proof -
    have "(2 :: real) powr (of_int (sint ha) - 23) * 2 powr (of_int (sint hb) - 23) = u / 2 ^ (15 + k)"
    proof -
      have "(2 :: real) ^ (15 + k) = 2 powr real (15 + k)" by (simp only: powr_realpow zero_less_numeral)
      then show ?thesis unfolding u_def e_def by (simp only: flip: powr_add powr_diff) (simp add: algebra_simps)
    qed
    then have "of_int a * of_int b * (2 powr (of_int (sint ha) - 23) * 2 powr (of_int (sint hb) - 23)) = y * u"
      by (simp only: y_def c_def of_int_mult times_divide_eq_right times_divide_eq_left)
    then show ?thesis unfolding x_def truncated_value_def a_def [symmetric] b_def [symmetric] by (simp only: mult.assoc mult.left_commute)
  qed
  note fe = floor_error [of c "15 + k", folded y_def m_def]
  show ?thesis
  proof (cases "c = 0")
    case True
    then have z: "m = 0" "x = 0" by (simp_all add: m_def x y_def)
    have "r' = SetHi 0x80 (SetLo 0 r)" "ov = 0" "un = 0" "neg = 0"
      using assms(3) unfolding mpy scale_product_def z by (auto simp: pack_saturated minus_128)
    then show ?thesis using z(2) assms(2) by simp
  next
    case False
    then have h: "ha \<noteq> 0x80" "hb \<noteq> 0x80" by (auto simp: c_def a_def b_def)
    have n: "normal m" unfolding m_def k_def c_def a_def b_def
      by (intro product_normal product_range factor_range h)
    then have nz: "m \<noteq> 0" by (auto simp: normal_def)
    have sgn: "y < 0 \<longleftrightarrow> m < 0" using fe by linarith
    have sgn': "0 < y \<longleftrightarrow> 0 < m" using fe n by (auto simp: normal_def)
    have neg: "neg = (if x < 0 then 1 else 0)"
      using assms(3) u sgn unfolding mpy scale_product_def by (auto simp: Let_def x mult_less_0_iff split: prod.splits)
    consider "127 < e" | "e \<le> - 128" | "- 128 < e" "e \<le> 127" by linarith
    then show ?thesis
    proof cases
      case 1
      have "real_of_int 97 \<le> of_int (e - 31)" using 1 by (simp only: of_int_le_iff)
      then have "(2 :: real) powr 97 \<le> u" unfolding u_def by (intro powr_mono) simp_all
      moreover have "2 ^ 31 \<le> \<bar>y\<bar>" using normal_real [OF n] fe by auto
      ultimately have "2 ^ 31 * 2 powr 97 \<le> \<bar>y\<bar> * u" by (intro mult_mono) simp_all
      moreover have "(2 ^ 31 :: real) * 2 powr 97 = 2 powr 128" by (simp add: powr_numeral)
      ultimately have "2 powr 128 \<le> \<bar>x\<bar>" using u by (simp add: x abs_mult)
      moreover have "ov = 1 \<and> r' = SetHi 0x7f (SetLo (if 0 < x then 0x7fffffff else 0x80000000) r)"
        using assms(3) 1 nz sgn' u unfolding mpy scale_product_def by (auto simp: x zero_less_mult_iff pack_saturated)
      ultimately show ?thesis using neg assms(2) by simp
    next
      case 2
      have "of_int (e - 31) \<le> real_of_int (- 159)" using 2 by (simp only: of_int_le_iff)
      then have "u \<le> (2 :: real) powr (- 159)" unfolding u_def by (intro powr_mono) simp_all
      moreover have "\<bar>y\<bar> \<le> 2 ^ 32" using normal_real [OF n] fe by auto
      ultimately have "\<bar>y\<bar> * u \<le> 2 ^ 32 * 2 powr (- 159)" using u by (intro mult_mono) simp_all
      moreover have "(2 ^ 32 :: real) = 2 powr 32" by (simp add: powr_numeral)
      then have "(2 ^ 32 :: real) * 2 powr (- 159) = 2 powr (- 127)" by (simp only: flip: powr_add) simp
      ultimately have "\<bar>x\<bar> \<le> 2 powr (- 127)" using u by (simp add: x abs_mult)
      moreover have "ov = 0 \<and> un = 1 \<and> r' = SetHi 0x80 (SetLo 0 r)"
        using assms(3) 2 nz unfolding mpy scale_product_def by (auto simp: pack_saturated minus_128)
      ultimately show ?thesis using neg assms(2) by simp
    next
      case 3
      have h: "sint (word_of_int e :: u8) = e" using 3 by (intro sint_u8_of_int) simp_all
      then have "(word_of_int e :: u8) \<noteq> 0x80" using 3 sint_0x80 [of "word_of_int e"] by auto
      then have "ext_mantissa (word_of_int e) (pack_mantissa m) = m" by (rule ext_mantissa_pack [OF n])
      then have v: "c3x_value (word_of_int e) (pack_mantissa m) = of_int m * u" unfolding c3x_value_def h u_def by simp
      have r': "ov = 0 \<and> un = 0 \<and> r' = SetHi (word_of_int e) (SetLo (pack_mantissa m) r)"
        using assms(3) 3 nz unfolding mpy scale_product_def by auto
      have "x - of_int m * u = (y - of_int m) * u" by (simp add: x left_diff_distrib)
      moreover have "0 \<le> (y - of_int m) * u" "(y - of_int m) * u < 1 * u"
        using fe u by (simp, intro mult_strict_right_mono) simp_all
      ultimately have "0 \<le> x - of_int m * u" "x - of_int m * u < u" by simp_all
      then show ?thesis using r' neg assms(2) v h unfolding u_def by simp
    qed
  qed
qed

theorem Mpyf_accurate_witness:
  "Mpyf 0x01 0x40000000 0x01 0x20000000 init_Register = (SetLo 0x70000000 (SetHi 0x02 init_Register), 0, 0, 0) \<and>
   c3x_value 0x02 0x70000000 \<le> truncated_value 0x01 0x40000000 * truncated_value 0x01 0x20000000"
proof -
  have m: "Mpyf 0x01 0x40000000 0x01 0x20000000 init_Register =
      (SetLo 0x70000000 (SetHi 0x02 init_Register), 0, 0, 0)" by code_simp
  then show ?thesis using Mpyf_accurate [OF _ m] by (simp add: init_Register_def extended_def)
qed

end
