(* ===== verification/C3X_Round.thy ===== *)
theory C3X_Round
  imports C3X_Arith
begin

section \<open>Normalization\<close>

text \<open>The value of an unnormalized mantissa, which has no implied bit.\<close>

definition unnormalized_value :: "u8 \<Rightarrow> u32 \<Rightarrow> real" where
  "unnormalized_value h l = of_int (sint l) * 2 powr (of_int (sint h) - 31)"

lemma Normf_mantissa:
  fixes l :: u32
  assumes "l \<noteq> 0"
  obtains k where "k \<le> 32" and "normal (sint l * 2 ^ k)"
    and "Normf h l r = (if sint h - int k \<le> - 128 then (SetLo 0 (SetHi 0x80 r), 1, if sint l < 0 then 1 else 0)
      else (SetLo (pack_mantissa (sint l * 2 ^ k)) (SetHi (word_of_int (sint h - int k)) r), 0, if sint l < 0 then 1 else 0))"
proof -
  define k where "k = (if sint l < 0 then clz32 (NOT l) else clz32 l)"
  have k: "0 < k" "k \<le> 32" "normal (sint l * 2 ^ k)" "k = 32 \<longleftrightarrow> l = - 1"
    using Float_normal [OF assms] by (simp_all add: k_def)
  define m where "m = (if k = 32 then 0 else push_bit k l)"
  have b: "bit m i \<longleftrightarrow> i < 32 \<and> bit (sint l * 2 ^ k) i" for i
    using k(1,2) by (auto simp: m_def bit_push_bit_iff bit_simps simp flip: push_bit_eq_mult)
  have sgn: "bit (sint l * 2 ^ k) 32 \<longleftrightarrow> sint l < 0" "bit (sint l * 2 ^ k) 31 \<longleftrightarrow> 0 < sint l"
    using normal_bits(1) [OF k(3)] normal_bits(2) [OF k(3), of 32] by (simp_all add: mult_less_0_iff zero_less_mult_iff)
  have nz: "sint l \<noteq> 0" using assms by (metis signed_0 signed_word_eqI)
  have "m XOR 0x80000000 = pack_mantissa (sint l * 2 ^ k)"
  proof (rule bit_word_eqI)
    fix i assume "i < LENGTH(32)"
    then show "bit (m XOR 0x80000000) i = bit (pack_mantissa (sint l * 2 ^ k)) i"
      using b [of i] sgn nz by (simp only: bit_xor_iff bit_80000000_u32 bit_pack_mantissa) auto
  qed
  moreover have "(if sint l < 0 then clz32 (NOT l) else clz32 l) = k" by (simp add: k_def)
  ultimately have "Normf h l r = (if sint h - int k \<le> - 128 then (SetLo 0 (SetHi 0x80 r), 1, if sint l < 0 then 1 else 0)
      else (SetLo (pack_mantissa (sint l * 2 ^ k)) (SetHi (word_of_int (sint h - int k)) r), 0, if sint l < 0 then 1 else 0))"
    using assms unfolding Normf_def Let_def m_def by (simp only: if_False)
  then show ?thesis using that k by blast
qed

text \<open>
  normalizing keeps the value of the unnormalized number exactly, unless the exponent underflows,
  which returns zero.
\<close>

theorem Normf_exact:
  assumes "extended r" and "Normf h l r = (r', un, neg)"
  shows "neg = (if sint l < 0 then 1 else 0) \<and>
    (if un \<noteq> 0 then GetHi r' = 0x80 \<and> GetLo r' = 0 \<and> \<bar>unnormalized_value h l\<bar> \<le> 2 powr (- 127)
     else c3x_value (GetHi r') (GetLo r') = unnormalized_value h l)"
proof (cases "l = 0")
  case True
  then show ?thesis using assms by (auto simp: Normf_def unnormalized_value_def)
next
  case False
  then obtain k where k: "k \<le> 32" "normal (sint l * 2 ^ k)"
    "Normf h l r = (if sint h - int k \<le> - 128 then (SetLo 0 (SetHi 0x80 r), 1, if sint l < 0 then 1 else 0)
      else (SetLo (pack_mantissa (sint l * 2 ^ k)) (SetHi (word_of_int (sint h - int k)) r), 0, if sint l < 0 then 1 else 0))"
    by (rule Normf_mantissa)
  define e where "e = sint h - int k"
  have "(2 :: real) ^ k * 2 powr (of_int e - 31) = 2 powr (of_int (sint h) - 31)"
    unfolding e_def by (rule powr_shifted)
  then have v: "unnormalized_value h l = of_int (sint l * 2 ^ k) * 2 powr (of_int e - 31)"
    unfolding unnormalized_value_def by (simp only: of_int_mult of_int_power of_int_numeral mult.assoc)
  show ?thesis
  proof (cases "e \<le> - 128")
    case True
    have "real_of_int (e - 31) \<le> of_int (- 159)" using True by (simp only: of_int_le_iff)
    then have "2 powr (of_int e - 31) \<le> (2 :: real) powr (- 159)" by (intro powr_mono) simp_all
    moreover have "\<bar>real_of_int (sint l * 2 ^ k)\<bar> \<le> 2 ^ 32" using normal_real [OF k(2)] by auto
    ultimately have "\<bar>real_of_int (sint l * 2 ^ k)\<bar> * 2 powr (of_int e - 31) \<le> 2 ^ 32 * 2 powr (- 159)"
      by (intro mult_mono) simp_all
    moreover have "(2 ^ 32 :: real) = 2 powr 32" by (simp add: powr_numeral)
    then have "(2 ^ 32 :: real) * 2 powr (- 159) = 2 powr (- 127)" by (simp only: flip: powr_add) simp
    ultimately have "\<bar>unnormalized_value h l\<bar> \<le> 2 powr (- 127)" unfolding v by (simp add: abs_mult)
    then show ?thesis using assms k(3) True by (auto simp: e_def split: if_splits)
  next
    case False
    have "e \<le> 127" using sint_u8(2) [of h] by (simp add: e_def)
    then have s: "sint (word_of_int e :: u8) = e" using False by (intro sint_u8_of_int) simp_all
    then have "(word_of_int e :: u8) \<noteq> 0x80" using False sint_0x80 [of "word_of_int e"] by auto
    then have "ext_mantissa (word_of_int e) (pack_mantissa (sint l * 2 ^ k)) = sint l * 2 ^ k"
      by (rule ext_mantissa_pack [OF k(2)])
    then have "c3x_value (word_of_int e) (pack_mantissa (sint l * 2 ^ k)) = unnormalized_value h l"
      unfolding c3x_value_def s v by (simp only:)
    moreover have "r' = SetLo (pack_mantissa (sint l * 2 ^ k)) (SetHi (word_of_int e) r)" "un = 0"
      "neg = (if sint l < 0 then 1 else 0)"
      using assms(2) k(3) False by (simp_all add: e_def)
    ultimately show ?thesis using assms(1) by simp
  qed
qed

section \<open>Rounding\<close>

lemma normalize_round_sum: "- (2 ^ 32) \<le> c \<Longrightarrow> normalize_round h c = normalize_sum h c"
  using drop_32_neg [of c] by (cases "c < 0") (auto simp: normalize_round_def normalize_sum_def)

lemma bit_ffffff00: "bit (0xffffff00 :: u32) i \<longleftrightarrow> 8 \<le> i \<and> i < 32"
proof -
  have e: "(0xffffff00 :: u32) = NOT (mask 8)" by (simp add: mask_eq_exp_minus_1)
  show ?thesis unfolding e by (auto simp: bit_simps)
qed

lemma ext_mantissa_masked:
  assumes "h \<noteq> 0x80"
  shows "ext_mantissa h (l AND 0xffffff00) = ext_mantissa h l div 256 * 256"
proof -
  have "ext_mantissa h (l AND 0xffffff00) = push_bit 8 (drop_bit 8 (ext_mantissa h l))"
  proof (rule bit_eqI)
    fix i
    show "bit (ext_mantissa h (l AND 0xffffff00)) i = bit (push_bit 8 (drop_bit 8 (ext_mantissa h l))) i"
      unfolding bit_push_bit_iff bit_drop_bit_eq bit_ext_mantissa [OF assms] bit_and_iff bit_ffffff00
      by (auto simp: bit_ext_mantissa [OF assms])
  qed
  then show ?thesis by (simp add: push_bit_eq_mult drop_bit_eq_div)
qed

lemma Rndf_unfold:
  assumes "h \<noteq> 0x80"
  shows "Rndf h l r = (let c = ext_mantissa h l + 128; (h', c', ov, un) = normalize_sum h c;
      l' = pack_mantissa (saturate_mantissa ov un c')
    in (SetHi h' (SetLo (GetLo (SetLo l' r) AND 0xffffff00) (SetLo l' r)), ov, un, if c < 0 then 1 else 0))"
  using assms ext_mantissa_range(1) [of h l] by (simp add: Rndf_def Let_def normalize_round_sum split: prod.splits)

text \<open>Rounding to a mantissa of 24 bits, in units of \<open>2 ^ -31\<close>.\<close>

definition rounded :: "int \<Rightarrow> int" where
  "rounded m = (m + 128) div 256 * 256"

lemma rounded_close: "\<bar>rounded m - m\<bar> \<le> 128"
proof -
  have "(m + 128) div 256 * 256 + (m + 128) mod 256 = m + 128" by (rule div_mult_mod_eq)
  moreover have "0 \<le> (m + 128) mod 256" "(m + 128) mod 256 < 256" by simp_all
  ultimately show ?thesis unfolding rounded_def by linarith
qed

lemma div_256_eq: "q * 256 \<le> c \<Longrightarrow> c < q * 256 + 256 \<Longrightarrow> c div 256 = (q :: int)"
  using int_div_pos_eq [of c 256 q "c - 256 * q"] by simp

lemma Rndf_cases:
  assumes "extended r" and "h \<noteq> 0x80" and "Rndf h l r = (r', ov, un, neg)"
  obtains (normal) "ov = 0" and "un = 0" and "GetHi r' \<noteq> 0x80"
      and "c3x_value (GetHi r') (GetLo r') = of_int (rounded (ext_mantissa h l)) * 2 powr (of_int (sint h) - 31)"
  | (overflow) "ov = 1" and "un = 0" and "sint h = 127" and "2 ^ 32 \<le> rounded (ext_mantissa h l)"
      and "GetHi r' = 0x7f" and "GetLo r' = 0x7fffff00"
  | (underflow) "ov = 0" and "un = 1" and "sint h = - 127" and "rounded (ext_mantissa h l) = - (2 ^ 31)"
      and "GetHi r' = 0x80" and "GetLo r' = 0"
proof -
  define m c where "m = ext_mantissa h l" and "c = m + 128"
  have n: "normal m" unfolding m_def by (rule normal_ext_mantissa [OF assms(2)])
  have rc: "rounded m = c div 256 * 256" by (simp add: rounded_def c_def)
  have c: "- (2 ^ 33) \<le> c" "c < 2 ^ 33" "c \<noteq> 0" using n by (auto simp: normal_def c_def)
  have "sint h \<noteq> - 128" using assms(2) sint_0x80 by simp
  then have h: "- 128 < sint h" using sint_u8(1) [of h] by simp
  obtain h' c' o' u' where e: "normalize_sum h c = (h', c', o', u')" by (metis prod_cases4)
  have r': "GetHi r' = h'" "GetLo r' = pack_mantissa (saturate_mantissa o' u' c') AND 0xffffff00" "ov = o'" "un = u'"
    using assms(1,3) e by (auto simp: Rndf_unfold [OF assms(2)] Let_def simp flip: m_def c_def)
  have val: thesis
    if "o' = 0" "u' = 0" "normal c'" "h' \<noteq> 0x80"
      "of_int (c' div 256 * 256) * 2 powr (of_int (sint h') - 31) = of_int (rounded m) * (2 :: real) powr (of_int (sint h) - 31)"
  proof (rule normal)
    have x: "ext_mantissa (GetHi r') (GetLo r') = c' div 256 * 256"
      using that(1-4) r' by (simp add: saturate_mantissa_def ext_mantissa_masked ext_mantissa_pack)
    show "c3x_value (GetHi r') (GetLo r') = of_int (rounded (ext_mantissa h l)) * 2 powr (of_int (sint h) - 31)"
      unfolding c3x_value_def x using that(5) r'(1) by (simp add: m_def)
  qed (use that r' in simp_all)
  have small: "k = 0 \<or> k = 1 \<and> - (2 ^ 31) \<le> c \<and> c < - (2 ^ 31) + 128" if "normal (c * 2 ^ k)" for k
  proof (cases "k \<le> 1")
    case False
    have "(2 :: int) ^ 2 \<le> 2 ^ k" using False by (intro power_increasing) simp_all
    moreover have "2 ^ 31 - 128 \<le> \<bar>c\<bar>" using n by (auto simp: normal_def c_def)
    ultimately have "(2 ^ 31 - 128) * 2 ^ 2 \<le> \<bar>c\<bar> * 2 ^ k" by (intro mult_mono) simp_all
    moreover have "\<bar>c * 2 ^ k\<bar> \<le> 2 ^ 32" using that by (auto simp: normal_def)
    ultimately show ?thesis by (simp add: abs_mult)
  next
    case True
    then have "k = 0 \<or> k = 1" by auto
    then show ?thesis using that n by (auto simp: normal_def c_def)
  qed
  show thesis
  proof (rule normalize_sum_cases [of c h], goal_cases)
    case 4
    then show ?case using c(3) by simp
  next
    case 5
    then have b: "2 ^ 32 \<le> c" "c < 2 ^ 32 + 128" using n by (auto simp: normal_def c_def)
    have "2 ^ 31 \<le> c div 2" "c div 2 < 2 ^ 31 + 64" using b by simp_all
    then have d: "c div 2 div 256 * 256 = 2 ^ 31" "rounded m = 2 ^ 31 * 2"
      unfolding rc using b div_256_eq [of "2 ^ 23" "c div 2"] div_256_eq [of "2 ^ 24" c] by simp_all
    have se: "sint (h + 1) = sint h + 1" using 5(2) by (rule sint_u8_add1)
    have e': "h' = h + 1" "c' = c div 2" "o' = 0" "u' = 0" using 5(3) e by simp_all
    show ?case
    proof (rule val)
      show "normal c'" unfolding e' normal_def using \<open>2 ^ 31 \<le> c div 2\<close> \<open>c div 2 < 2 ^ 31 + 64\<close> by simp
      show "h' \<noteq> 0x80" unfolding e' using se sint_0x80 [of "h + 1"] sint_u8(1) [of h] by auto
      show "of_int (c' div 256 * 256) * 2 powr (of_int (sint h') - 31) = of_int (rounded m) * (2 :: real) powr (of_int (sint h) - 31)"
        unfolding e' se d powr_unit by simp
    qed (use e' in simp_all)
  next
    case 6
    then have b: "2 ^ 32 \<le> c" "c < 2 ^ 32 + 128" using n by (auto simp: normal_def c_def)
    then have "rounded m = 2 ^ 32" unfolding rc using div_256_eq [of "2 ^ 24" c] by simp
    moreover have "0 < c div 2" using b by simp
    then have "GetLo r' = 0x7fffff00" using 6(3) e r' by (auto simp: saturate_mantissa_def pack_saturated)
    ultimately show ?case using 6 e r' by (intro overflow) (simp_all add: m_def)
  next
    case (7 k)
    have e': "h' = h - of_nat k" "c' = c * 2 ^ k" "o' = 0" "u' = 0" using 7(4) e by simp_all
    have se: "sint h' = sint h - int k" unfolding e' using 7(3) by (rule sint_u8_minus)
    show ?case
    proof (rule val)
      show "normal c'" unfolding e' by (rule 7(1))
      show "h' \<noteq> 0x80" using se 7(3) sint_0x80 [of h'] by auto
      show "of_int (c' div 256 * 256) * 2 powr (of_int (sint h') - 31) = of_int (rounded m) * (2 :: real) powr (of_int (sint h) - 31)"
      proof (cases "k = 0")
        case True
        then show ?thesis unfolding se unfolding e' rc by simp
      next
        case False
        then have k: "k = 1" "- (2 ^ 31) \<le> c" "c < - (2 ^ 31) + 128" using small [OF 7(1)] by simp_all
        have d: "c * 2 ^ 1 div 256 * 256 = - (2 ^ 31 * 2)" "rounded m = - (2 ^ 31)" 
          unfolding rc using k(2,3) div_256_eq [of "- (2 ^ 24)" "c * 2"] div_256_eq [of "- (2 ^ 23)" c] by simp_all
        have "2 powr (of_int (sint h) - 31) = 2 * (2 :: real) powr (of_int (sint h - int 1) - 31)"
          using powr_unit [of "sint h - int 1"] by simp
        then show ?thesis unfolding se unfolding e' k(1) d by simp
      qed
    qed (use e' in simp_all)
  next
    case (8 k)
    have e': "h' = 0x80" "o' = 0" "u' = 1" using 8(4) e by simp_all
    have "k \<noteq> 0" using 8(3) h by auto
    then have k: "k = 1" "- (2 ^ 31) \<le> c" "c < - (2 ^ 31) + 128" using small [OF 8(1)] by simp_all
    have "rounded m = - (2 ^ 31)" 
      unfolding rc using k(2,3) div_256_eq [of "- (2 ^ 23)" c] by simp
    moreover have "sint h = - 127" using 8(3) k(1) h by simp
    ultimately show ?case using e' r' by (intro underflow) (simp_all add: m_def saturate_mantissa_def pack_saturated)
  qed (use c h in simp_all)
qed

lemma value_mono:
  assumes "\<bar>x - real_of_int m\<bar> \<le> 128"
  shows "\<bar>x * 2 powr (of_int e - 31) - of_int m * 2 powr (of_int e - 31)\<bar> \<le> 2 powr (of_int e - 24)"
proof -
  have "(128 :: real) = 2 powr 7" by (simp add: powr_numeral)
  then have "128 * 2 powr (of_int e - 31) = (2 :: real) powr (of_int e - 24)" by (simp only: flip: powr_add) simp
  moreover have "\<bar>(x - of_int m) * 2 powr (of_int e - 31)\<bar> \<le> 128 * 2 powr (of_int e - 31)"
    using assms by (simp add: abs_mult)
  ultimately show ?thesis by (simp add: left_diff_distrib)
qed

lemma mask_facts:
  "(0xff :: u32) = mask 8" "(0x00ffffff :: u32) = mask 24" "(0xff000000 :: u32) = NOT (mask 24)"
  by (simp_all add: mask_eq_exp_minus_1)

lemma push_24_inj: "push_bit 24 (ucast h) = (push_bit 24 (ucast k) :: u32) \<Longrightarrow> h = (k :: u8)"
proof (rule bit_word_eqI)
  fix i
  assume e: "push_bit 24 (ucast h) = (push_bit 24 (ucast k) :: u32)" and i: "i < LENGTH(8)"
  have "bit (push_bit 24 (ucast h) :: u32) (i + 24) = bit (push_bit 24 (ucast k) :: u32) (i + 24)" by (simp only: e)
  then show "bit h i = bit k i" using i by (simp add: bit_simps)
qed

lemma single_precision_fields:
  fixes l :: u32
  assumes "l AND 0xffffff00 = l" and "h = 0x80 \<Longrightarrow> l = 0"
  defines "v \<equiv> push_bit 24 (ucast h) + drop_bit 8 (l AND NOT 0x00ff)"
  shows "GetHi32 v = h" and "GetLo32 v = l"
proof -
  have l: "bit l i \<Longrightarrow> 8 \<le> i" for i using assms(1) by (metis bit_and_iff bit_ffffff00)
  have "v = push_bit 24 (ucast h) OR drop_bit 8 (l AND NOT (mask 8))" unfolding v_def mask_facts
    by (rule disjunctive_add_eq_or) (auto intro!: bit_word_eqI simp: bit_simps dest: bit_imp_le_length)
  then have v: "bit v i \<longleftrightarrow> i < 32 \<and> (if 24 \<le> i then bit h (i - 24) else bit l (i + 8))" for i
    using l [of "i + 8"] by (auto simp: bit_simps add.commute dest: bit_imp_le_length)
  show h: "GetHi32 v = h"
    unfolding GetHi32_def mask_facts by (rule bit_word_eqI) (auto simp: bit_simps v)
  have "v AND 0xff000000 = push_bit 24 (ucast h)"
    unfolding mask_facts by (rule bit_word_eqI) (auto simp: bit_simps v)
  moreover have "(0x80000000 :: u32) = push_bit 24 (ucast (0x80 :: u8))" by simp
  ultimately have z: "v AND 0xff000000 = 0x80000000 \<longleftrightarrow> h = 0x80" using push_24_inj [of h "0x80"] by auto
  have "push_bit 8 (v AND 0x00ffffff) = l"
    unfolding mask_facts by (rule bit_word_eqI) (use l in \<open>auto simp: bit_simps v\<close>)
  then show "GetLo32 v = l" using assms(2) by (simp only: GetLo32_def z split: if_split) simp
qed

lemma Rndf_masked:
  assumes "extended r" and "h \<noteq> 0x80" and "Rndf h l r = (r', ov, un, neg)"
  shows "GetLo r' AND 0xffffff00 = GetLo r'"
  using assms(1,3) by (auto simp: Rndf_unfold [OF assms(2)] Let_def and.assoc split: prod.splits)

text \<open>
  C33: rounding to single precision moves the value by at most half a unit of the 24-bit mantissa, and
  the rounded register survives a store and a load in the single precision format. Only the largest
  numbers overflow, and only numbers next to \<open>- 2 ^ -127\<close> underflow to zero.
\<close>

theorem Rndf_nearest:
  assumes "extended r" and "h \<noteq> 0x80" and "Rndf h l r = (r', ov, un, neg)"
  shows "(if ov \<noteq> 0 then GetHi r' = 0x7f \<and> GetLo r' = 0x7fffff00 \<and> 2 powr 128 - 2 powr 103 \<le> c3x_value h l
     else if un \<noteq> 0 then GetHi r' = 0x80 \<and> GetLo r' = 0 \<and> \<bar>c3x_value h l + 2 powr (- 127)\<bar> \<le> 2 powr (- 151)
     else \<bar>c3x_value (GetHi r') (GetLo r') - c3x_value h l\<bar> \<le> 2 powr (of_int (sint h) - 24)) \<and>
   (let s = SetFromSinglePrecisionFPFormat (GetSinglePrecisionFPFormat r') r
    in GetHi s = GetHi r' \<and> GetLo s = GetLo r')"
proof -
  define m where "m = ext_mantissa h l"
  have v: "c3x_value h l = of_int m * 2 powr (of_int (sint h) - 31)" by (simp add: c3x_value_def m_def)
  have "real_of_int \<bar>rounded m - m\<bar> \<le> real_of_int 128" using rounded_close by (simp only: of_int_le_iff)
  then have close: "\<bar>real_of_int (rounded m) - real_of_int m\<bar> \<le> 128" by simp
  note near = value_mono [OF close, of "sint h"]
  have accuracy: "if ov \<noteq> 0 then GetHi r' = 0x7f \<and> GetLo r' = 0x7fffff00 \<and> 2 powr 128 - 2 powr 103 \<le> c3x_value h l
     else if un \<noteq> 0 then GetHi r' = 0x80 \<and> GetLo r' = 0 \<and> \<bar>c3x_value h l + 2 powr (- 127)\<bar> \<le> 2 powr (- 151)
     else \<bar>c3x_value (GetHi r') (GetLo r') - c3x_value h l\<bar> \<le> 2 powr (of_int (sint h) - 24)"
    and zero: "GetHi r' = 0x80 \<longrightarrow> GetLo r' = 0"
  proof (atomize (full), rule Rndf_cases [OF assms, folded m_def], goal_cases)
    case 1
    then show ?case using near v by simp
  next
    case 2
    have "real_of_int (2 ^ 32) \<le> of_int (rounded m)" using 2(4) by (simp only: of_int_le_iff)
    then have "2 ^ 32 - 128 \<le> real_of_int m" using close by (simp only: of_int_power of_int_numeral)
    then have "(2 ^ 32 - 128) * 2 powr 96 \<le> of_int m * 2 powr (96 :: real)" by (intro mult_right_mono) simp_all
    moreover have "(2 ^ 32 :: real) = 2 powr 32" "(128 :: real) = 2 powr 7" by (simp_all add: powr_numeral)
    then have "(2 ^ 32 - 128) * 2 powr 96 = (2 powr 128 - 2 powr 103 :: real)"
      by (simp only: left_diff_distrib flip: powr_add) simp
    ultimately show ?case using 2 v by simp
  next
    case 3
    have "\<bar>- (2 ^ 31) * 2 powr (- 127 - 31) - of_int m * 2 powr (- 127 - 31)\<bar> \<le> 2 powr (- 127 - 24 :: real)"
      using value_mono [OF close, of "- 127"] 3(4) by simp
    moreover have "(2 ^ 31 :: real) = 2 powr 31" by (simp add: powr_numeral)
    then have "(2 ^ 31 :: real) * 2 powr (- 127 - 31) = 2 powr (- 127)" by (simp only: flip: powr_add) simp
    ultimately have "\<bar>c3x_value h l + 2 powr (- 127)\<bar> \<le> 2 powr (- 151)"
      using 3(3) v by (simp add: abs_minus_commute)
    then show ?case using 3 by simp
  qed
  have "GetHi (SetFromSinglePrecisionFPFormat (GetSinglePrecisionFPFormat r') r) = GetHi r'"
    "GetLo (SetFromSinglePrecisionFPFormat (GetSinglePrecisionFPFormat r') r) = GetLo r'"
    using assms(1) zero single_precision_fields [OF Rndf_masked [OF assms], of "GetHi r'"]
    by (simp_all add: SetFromSinglePrecisionFPFormat_def GetSinglePrecisionFPFormat_def)
  with accuracy show ?thesis by (simp only: Let_def)
qed

theorem Rndf_nearest_witness:
  "\<bar>c3x_value 0x03 0x12345700 - c3x_value 0x03 0x123456ab\<bar> \<le> 2 powr (- 21)"
proof -
  have "Rndf 0x03 0x123456ab init_Register = (SetHi 0x03 (SetLo 0x12345700 init_Register), 0, 0, 0)" by code_simp
  then show ?thesis
    using Rndf_nearest [of init_Register "0x03" "0x123456ab" "SetHi 0x03 (SetLo 0x12345700 init_Register)" 0 0 0]
    by (simp add: init_Register_def extended_def)
qed

theorem Normf_exact_witness:
  "c3x_value 0xf9 0x48000000 = unnormalized_value 0x05 0x000c8000"
proof -
  have "Normf 0x05 0x000c8000 init_Register = (SetLo 0x48000000 (SetHi 0xf9 init_Register), 0, 0)" by code_simp
  then show ?thesis
    using Normf_exact [of init_Register "0x05" "0x000c8000" "SetLo 0x48000000 (SetHi 0xf9 init_Register)" 0 0]
    by (simp add: init_Register_def extended_def)
qed

section \<open>Canonical zeros\<close>

text \<open>The zero exponent goes with a zero mantissa, so a zero has one representation.\<close>

definition canonical :: "c3x_register \<Rightarrow> bool" where
  "canonical r \<longleftrightarrow> (GetHi r = 0x80 \<longrightarrow> GetLo r = 0)"

lemma AddfSubf_canonical: "extended r \<Longrightarrow> canonical (fst (AddfSubf b ha la hb lb r))"
proof -
  assume r: "extended r"
  obtain r' ov un neg where e: "AddfSubf b ha la hb lb r = (r', ov, un, neg)" by (metis prod_cases4)
  show ?thesis unfolding canonical_def e by (rule AddfSubf_cases [OF r e]) simp_all
qed

lemma Rndf_canonical: "extended r \<Longrightarrow> canonical (fst (Rndf h l r))"
proof (cases "h = 0x80")
  case False
  assume r: "extended r"
  obtain r' ov un neg where e: "Rndf h l r = (r', ov, un, neg)" by (metis prod_cases4)
  show ?thesis unfolding canonical_def e by (rule Rndf_cases [OF r False e]) simp_all
qed (simp add: canonical_def Rndf_def)

lemma Float_canonical: "extended r \<Longrightarrow> canonical (fst (c3x_Float v r))"
proof (cases "v = 0")
  case False
  assume r: "extended r"
  obtain c where c: "normal (sint v * 2 ^ c)" "1 \<le> c" "c \<le> 32"
    "c3x_Float v r = (SetHi (word_of_int (31 - int c)) (SetLo (pack_mantissa (sint v * 2 ^ c)) r), if sint v < 0 then 1 else 0)"
    using False by (rule Float_mantissa)
  have "sint (word_of_int (31 - int c) :: u8) = 31 - int c" using c(2,3) by (intro sint_u8_of_int) simp_all
  then have "word_of_int (31 - int c) \<noteq> (0x80 :: u8)" using c(3) sint_0x80 [of "word_of_int (31 - int c)"] by auto
  then show ?thesis using r unfolding canonical_def c(4) by simp
qed (simp add: canonical_def c3x_Float_def)

lemma word_of_int_neq_0x80: "- 128 < e \<Longrightarrow> e \<le> 127 \<Longrightarrow> word_of_int e \<noteq> (0x80 :: u8)"
  using sint_u8_of_int [of e] sint_0x80 [of "word_of_int e"] by auto

lemma Mpyf_canonical: "extended r \<Longrightarrow> canonical (fst (Mpyf ha la hb lb r))"
proof -
  have "canonical (fst (scale_product e m r))" if "extended r" for e m
    using that by (auto simp: canonical_def scale_product_def Let_def pack_saturated minus_128 word_of_int_neq_0x80)
  then show "extended r \<Longrightarrow> canonical (fst (Mpyf ha la hb lb r))" by (simp add: Mpyf_eq Let_def)
qed

lemma Normf_canonical: "extended r \<Longrightarrow> canonical (fst (Normf h l r))"
proof (cases "l = 0")
  case False
  assume r: "extended r"
  obtain k where k: "Normf h l r = (if sint h - int k \<le> - 128 then (SetLo 0 (SetHi 0x80 r), 1, if sint l < 0 then 1 else 0)
      else (SetLo (pack_mantissa (sint l * 2 ^ k)) (SetHi (word_of_int (sint h - int k)) r), 0, if sint l < 0 then 1 else 0))"
    using False by (rule Normf_mantissa)
  obtain e where e: "sint h - int k = e" by simp
  have "e \<le> 127" using sint_u8(2) [of h] e by linarith
  then show ?thesis using r unfolding k e by (auto simp: canonical_def word_of_int_neq_0x80)
qed (simp add: canonical_def Normf_def)

lemma Absf_canonical:
  assumes "extended r"
  shows "canonical (fst (Absf h l r))"
proof -
  have "h = 0x7f" if "h + 1 = 0x80"
  proof -
    have "h = (h + 1) - 1" by simp
    then show ?thesis unfolding that by simp
  qed
  then show ?thesis using assms by (auto simp: canonical_def Absf_def)
qed

lemma GetLo16_canonical: "GetHi16 v = 0x80 \<Longrightarrow> GetLo16 v = 0"
proof (cases "v AND 0xf000 = 0x8000")
  case False
  assume h: "GetHi16 v = 0x80"
  have m: "(0x00ff :: u16) = mask 8" by (simp add: mask_eq_exp_minus_1)
  have "bit (GetHi16 v) 7 = bit v 15" "bit (GetHi16 v) 6 = bit v 15"
    using False unfolding GetHi16_def m by (simp_all only: if_False) (auto simp: bit_simps)
  then show ?thesis unfolding h by simp
qed (simp add: GetLo16_def)

lemma GetLo32_canonical: "GetHi32 v = 0x80 \<Longrightarrow> GetLo32 v = 0"
proof -
  assume h: "GetHi32 v = 0x80"
  have "v AND 0xff000000 = push_bit 24 (ucast (GetHi32 v))"
    unfolding mask_facts GetHi32_def by (rule bit_word_eqI) (auto simp: bit_simps)
  then have "v AND 0xff000000 = 0x80000000" unfolding h by simp
  then show ?thesis by (simp add: GetLo32_def)
qed

section \<open>Addition commutes\<close>

lemma AddfSubf_commute: "AddfSubf True ha la hb lb r = AddfSubf True hb lb ha la r"
proof -
  have e: "sum_exponent ha hb = sum_exponent hb ha"
    by (auto simp: sum_exponent_def) (metis signed_word_eqI)
  show ?thesis unfolding AddfSubf_eq sum_mantissa_def e by (simp add: add.commute)
qed

section \<open>Every operation leaves a canonical register\<close>

lemmas operations_canonical =
  AddfSubf_canonical Mpyf_canonical Rndf_canonical Normf_canonical Absf_canonical Float_canonical

lemmas add_operations =
  Addf_def Addf_reg_def Addf16_def Addf32_def Addf_regs_def Addf_reg_imm_def Addf_imm_reg_def Addf_imms_def

lemmas sub_operations =
  Subf_def Subf_reg_def Subf16_def Subf32_def Subf_regs_def Subf16_reg_imm_def Subf32_reg_imm_def
  Subf16_imm_reg_def Subf32_imm_reg_def Subf_imms_def Negf_def Negf16_def Negf32_def

lemmas mul_operations =
  Mpyf_reg_def Mpyf16_def Mpyf32_def Mpyf_regs_def Mpyf_reg_imm_def Mpyf_imm_reg_def Mpyf_imms_def

lemmas load_operations =
  SetFromShortFPFormat_def SetFromSinglePrecisionFPFormat_def LoadExp_def LoadExp16_def LoadExp32_def

lemma loads_canonical:
  assumes "extended r"
  shows "canonical (SetFromShortFPFormat v16 r)" and "canonical (SetFromSinglePrecisionFPFormat v32 r)"
    and "canonical (LoadExp a r)" and "canonical (LoadExp16 v16 r)" and "canonical (LoadExp32 v32 r)"
    and "canonical (assign_Register a r)"
  using assms GetLo16_canonical [of v16] GetLo32_canonical [of v32]
  by (auto simp: canonical_def load_operations assign_Register_def Let_def)

lemma LoadMan_canonical:
  assumes "extended r"
  shows "canonical (SetLo v r) \<longleftrightarrow> (GetHi r = 0x80 \<longrightarrow> v = 0)"
  using assms by (simp add: canonical_def)

text \<open>
  C34: every floating-point operation but one, on registers and on immediates of both formats, leaves a
  canonical register whatever its operands are: the exponent \<open>0x80\<close> comes with a zero mantissa. The one
  exception is the load of a mantissa alone, whose result is canonical exactly when the register does not have
  the exponent \<open>0x80\<close> or the mantissa is zero.
\<close>

theorem float_results_canonical:
  assumes "extended r"
  shows "canonical (fst (Addf_reg a r)) \<and> canonical (fst (Addf16 i16 r)) \<and> canonical (fst (Addf32 i32 r)) \<and>
    canonical (fst (Addf_regs a b r)) \<and> canonical (fst (Addf_reg_imm a i32 r)) \<and> canonical (fst (Addf_imm_reg i32 a r)) \<and>
    canonical (fst (Addf_imms i32 j32 r)) \<and>
    canonical (fst (Subf_reg a r)) \<and> canonical (fst (Subf16 i16 r)) \<and> canonical (fst (Subf32 i32 r)) \<and>
    canonical (fst (Subf_regs a b r)) \<and> canonical (fst (Subf16_reg_imm a i16 r)) \<and> canonical (fst (Subf32_reg_imm a i32 r)) \<and>
    canonical (fst (Subf16_imm_reg i16 a r)) \<and> canonical (fst (Subf32_imm_reg i32 a r)) \<and> canonical (fst (Subf_imms i32 j32 r)) \<and>
    canonical (fst (Negf a r)) \<and> canonical (fst (Negf16 i16 r)) \<and> canonical (fst (Negf32 i32 r)) \<and>
    canonical (fst (Mpyf_reg a r)) \<and> canonical (fst (Mpyf16 i16 r)) \<and> canonical (fst (Mpyf32 i32 r)) \<and>
    canonical (fst (Mpyf_regs a b r)) \<and> canonical (fst (Mpyf_reg_imm a i32 r)) \<and> canonical (fst (Mpyf_imm_reg i32 a r)) \<and>
    canonical (fst (Mpyf_imms i32 j32 r)) \<and>
    canonical (fst (Rndf_reg a r)) \<and> canonical (fst (Rndf16 i16 r)) \<and> canonical (fst (Rndf32 i32 r)) \<and>
    canonical (fst (Normf_reg a r)) \<and> canonical (fst (Normf16 i16 r)) \<and> canonical (fst (Normf32 i32 r)) \<and>
    canonical (fst (Absf_reg a r)) \<and> canonical (fst (Absf16 i16 r)) \<and> canonical (fst (Absf32 i32 r)) \<and>
    canonical (fst (c3x_Float i32 r)) \<and> canonical (SetFromShortFPFormat i16 r) \<and>
    canonical (SetFromSinglePrecisionFPFormat i32 r) \<and> canonical (assign_Register b r) \<and>
    canonical (LoadExp b r) \<and> canonical (LoadExp16 i16 r) \<and> canonical (LoadExp32 i32 r) \<and>
    (canonical (LoadMan b r) \<longleftrightarrow> (GetHi r = 0x80 \<longrightarrow> GetLo b = 0)) \<and>
    (canonical (LoadMan16 i16 r) \<longleftrightarrow> (GetHi r = 0x80 \<longrightarrow> GetLo16 i16 = 0)) \<and>
    (canonical (LoadMan32 i32 r) \<longleftrightarrow> (GetHi r = 0x80 \<longrightarrow> i32 = 0))"
  unfolding add_operations sub_operations mul_operations Rndf_reg_def Rndf16_def Rndf32_def
    Normf_reg_def Normf16_def Normf32_def Absf_reg_def Absf16_def Absf32_def LoadMan_def LoadMan16_def LoadMan32_def
  by (simp add: operations_canonical loads_canonical LoadMan_canonical assms)

theorem float_results_canonical_witness:
  "canonical (fst (Subf_reg (SetHi 0x02 init_Register) (SetHi 0x02 init_Register))) \<and>
   \<not> canonical (LoadMan32 1 (SetHi 0x80 init_Register))"
  using float_results_canonical [of "SetHi 0x02 init_Register" "SetHi 0x02 init_Register"]
    float_results_canonical [of "SetHi 0x80 init_Register" _ _ _ _ 1]
  by (simp add: init_Register_def extended_def GetHi_def SetHi_def)

text \<open>Addition commutes, flags included.\<close>

lemma Addf_commute: "Addf_regs a b r = Addf_regs b a r"
  unfolding Addf_regs_def Addf_def by (rule AddfSubf_commute)

section \<open>Access by a debugger\<close>

lemma register_debug_round_trip:
  assumes "extended r" and "extended r'"
  shows "GetLo (RegisterDebugInterface_SetValue little ext (RegisterDebugInterface_GetValue little ext r) r') = GetLo r"
    and "ext \<Longrightarrow> GetHi (RegisterDebugInterface_SetValue little ext (RegisterDebugInterface_GetValue little ext r) r') = GetHi r"
    and "length (RegisterDebugInterface_GetValue little ext r) = RegisterDebugInterface_GetSize ext"
  using assms
  by (auto simp: RegisterDebugInterface_SetValue_def RegisterDebugInterface_GetValue_def
      RegisterDebugInterface_GetSize_def Let_def nth_append)

text \<open>
  The byte that the debugger registers \<open>R0H\<close> to \<open>R7H\<close> stand for starts at bit 32: it can be read, but
  writing it shifts an \<open>int\<close> out of its width.
\<close>

lemma high_byte_access:
  "RegisterBitField_GetValue 32 8 r = Some (ucast (GetHi r))" "RegisterBitField_SetValue 32 8 v r = None"
proof -
  have "ucast (drop_bit 32 (value40 r)) AND mask 8 = (ucast (GetHi r) :: u32)"
    by (rule bit_word_eqI) (auto simp: value40_def bit_simps dest: bit_imp_le_length)
  then show "RegisterBitField_GetValue 32 8 r = Some (ucast (GetHi r))"
    by (simp add: RegisterBitField_GetValue_def bit_field_size_def mask_eq_exp_minus_1)
  show "RegisterBitField_SetValue 32 8 v r = None"
    by (simp add: RegisterBitField_SetValue_def bit_field_size_def)
qed

end
