(* ===== verification/C3X_State.thy ===== *)
theory C3X_State
  imports C3X_Register
begin

text \<open>
  The state of the TMS320C3X processor (\<open>component/cxx/processor/tms320c3x/cpu.hh\<close>, \<open>cpu.tcc\<close>) and the
  accessors of its registers, the branch, repeat and idle controls, the interrupt flags, the conditions
  and the generation of the status flags. What is connected to the memory port is the field \<open>memory\<close>.
  Reports to debuggers and profilers and messages to the log do not touch the state and are left out.
\<close>

section \<open>Constants\<close>

text \<open>Bit numbers of the status register and of the interrupt flags.\<close>

definition ST_C :: nat where "ST_C = 0"
definition ST_V :: nat where "ST_V = 1"
definition ST_Z :: nat where "ST_Z = 2"
definition ST_N :: nat where "ST_N = 3"
definition ST_UF :: nat where "ST_UF = 4"
definition ST_LV :: nat where "ST_LV = 5"
definition ST_LUF :: nat where "ST_LUF = 6"
definition ST_OVM :: nat where "ST_OVM = 7"
definition ST_RM :: nat where "ST_RM = 8"
definition ST_CF :: nat where "ST_CF = 10"
definition ST_CE :: nat where "ST_CE = 11"
definition ST_CC :: nat where "ST_CC = 12"
definition ST_GIE :: nat where "ST_GIE = 13"

lemmas st_bits = ST_C_def ST_V_def ST_Z_def ST_N_def ST_UF_def ST_LV_def ST_LUF_def ST_OVM_def ST_RM_def ST_CF_def ST_CE_def ST_CC_def ST_GIE_def

definition M_ST_C :: u32 where "M_ST_C = push_bit ST_C 1"
definition M_ST_V :: u32 where "M_ST_V = push_bit ST_V 1"
definition M_ST_Z :: u32 where "M_ST_Z = push_bit ST_Z 1"
definition M_ST_N :: u32 where "M_ST_N = push_bit ST_N 1"
definition M_ST_UF :: u32 where "M_ST_UF = push_bit ST_UF 1"
definition M_ST_LV :: u32 where "M_ST_LV = push_bit ST_LV 1"
definition M_ST_LUF :: u32 where "M_ST_LUF = push_bit ST_LUF 1"
definition M_ST_OVM :: u32 where "M_ST_OVM = push_bit ST_OVM 1"
definition M_ST_RM :: u32 where "M_ST_RM = push_bit ST_RM 1"
definition M_ST_CF :: u32 where "M_ST_CF = push_bit ST_CF 1"
definition M_ST_CE :: u32 where "M_ST_CE = push_bit ST_CE 1"
definition M_ST_CC :: u32 where "M_ST_CC = push_bit ST_CC 1"
definition M_ST_GIE :: u32 where "M_ST_GIE = push_bit ST_GIE 1"

lemmas st_masks = M_ST_C_def M_ST_V_def M_ST_Z_def M_ST_N_def M_ST_UF_def M_ST_LV_def M_ST_LUF_def M_ST_OVM_def M_ST_RM_def M_ST_CF_def M_ST_CE_def M_ST_CC_def M_ST_GIE_def

definition ADDRESS_MASK :: u32 where "ADDRESS_MASK = 0xffffff"

definition IF_WRITE_MASK :: u32 where
  "IF_WRITE_MASK = foldr (\<lambda>b m. push_bit b 1 OR m) [0, 1, 2, 3, 4, 5, 8, 9, 10] 0"

definition M_IF_INT0_3 :: u32 where
  "M_IF_INT0_3 = foldr (\<lambda>b m. push_bit b 1 OR m) [0, 1, 2, 3] 0"

definition IE_WRITE_MASK :: u32 where
  "IE_WRITE_MASK = foldr (\<lambda>b m. push_bit b 1 OR m) ([0..<11] @ [16..<27]) 0"

definition IOF_WRITE_MASK :: u32 where
  "IOF_WRITE_MASK = foldr (\<lambda>b m. push_bit b 1 OR m) [1, 2, 5, 6] 0"

definition ST_WRITE_MASK :: u32 where
  "ST_WRITE_MASK = M_ST_C OR M_ST_V OR M_ST_Z OR M_ST_N OR M_ST_UF OR M_ST_LV OR M_ST_LUF OR
     M_ST_OVM OR M_ST_RM OR M_ST_CF OR M_ST_CE OR M_ST_CC OR M_ST_GIE"

text \<open>Register numbers.\<close>

definition REG_R0 :: nat where "REG_R0 = 0"
definition REG_AR0 :: nat where "REG_AR0 = 8"
definition REG_DP :: nat where "REG_DP = 16"
definition REG_IR0 :: nat where "REG_IR0 = 17"
definition REG_IR1 :: nat where "REG_IR1 = 18"
definition REG_BK :: nat where "REG_BK = 19"
definition REG_SP :: nat where "REG_SP = 20"
definition REG_ST :: nat where "REG_ST = 21"
definition REG_IE :: nat where "REG_IE = 22"
definition REG_IF :: nat where "REG_IF = 23"
definition REG_IOF :: nat where "REG_IOF = 24"
definition REG_RS :: nat where "REG_RS = 25"
definition REG_RE :: nat where "REG_RE = 26"
definition REG_RC :: nat where "REG_RC = 27"

lemmas reg_numbers = REG_R0_def REG_AR0_def REG_DP_def REG_IR0_def REG_IR1_def REG_BK_def REG_SP_def REG_ST_def REG_IE_def REG_IF_def REG_IOF_def REG_RS_def REG_RE_def REG_RC_def

section \<open>The processor\<close>

text \<open>The instruction cache keeps each word as it is returned, converted from the byte order of the memory.\<close>

record insn_cache_block =
  b_valid :: bool
  b_insn :: u32

record insn_cache_line =
  l_valid :: bool
  l_base_addr :: u32
  l_blocks :: "insn_cache_block list"

record insn_cache_set =
  mru_way :: nat
  s_lines :: "insn_cache_line list"

record c3x_config =
  ENABLE_INSN_CACHE :: bool
  INSN_CACHE_SIZE :: nat
  CONFIG_ASSOCIATIVITY :: nat
  INSN_CACHE_BLOCKS_PER_LINE :: nat

definition TMS320VC33_Config :: c3x_config where
  "TMS320VC33_Config = \<lparr>ENABLE_INSN_CACHE = True, INSN_CACHE_SIZE = 64, CONFIG_ASSOCIATIVITY = 2,
     INSN_CACHE_BLOCKS_PER_LINE = 32\<rparr>"

definition INSN_CACHE_ASSOCIATIVITY :: "c3x_config \<Rightarrow> nat" where
  "INSN_CACHE_ASSOCIATIVITY cfg = (if CONFIG_ASSOCIATIVITY cfg > 2 then 2 else CONFIG_ASSOCIATIVITY cfg)"

definition NUM_INSN_CACHE_SETS :: "c3x_config \<Rightarrow> nat" where
  "NUM_INSN_CACHE_SETS cfg =
     INSN_CACHE_SIZE cfg div (INSN_CACHE_ASSOCIATIVITY cfg * INSN_CACHE_BLOCKS_PER_LINE cfg)"

text \<open>\<open>stopped\<close> is the argument of the last call of \<open>Stop\<close>.\<close>

record 'm c3x_cpu =
  instruction_counter :: u64
  max_inst :: u64
  mimic_dev_board :: bool
  delay_before_branching :: u32
  branch_addr :: u32
  repeat_single :: bool
  first_time_through_repeat_single :: bool
  reset :: bool
  idle :: u32
  reg_ir :: u32
  reg_pc :: u32
  reg_npc :: u32
  regs :: "c3x_register list"
  insn_cache_accesses :: u64
  insn_cache_misses :: u64
  insn_cache :: "insn_cache_set list"
  stopped :: "int option"
  memory :: 'm

text \<open>
  The registers after the constructor: the write masks of the control registers, and no writable
  exponent from \<open>AR0\<close> on. The content of the instruction cache is not initialized by the constructor and
  is an argument.
\<close>

definition init_regs :: "c3x_register list" where
  "init_regs = map (\<lambda>i.
     let r = init_Register;
         r = (if i = REG_ST then SetLoWriteMask ST_WRITE_MASK r
              else if i = REG_IE then SetLoWriteMask IE_WRITE_MASK r
              else if i = REG_IF then SetLoWriteMask IF_WRITE_MASK r
              else if i = REG_IOF then SetLoWriteMask IOF_WRITE_MASK r else r)
     in if 8 \<le> i then SetHiWriteMask 0 0x08 r else r) [0..<32]"

definition init_CPU :: "insn_cache_set list \<Rightarrow> 'm \<Rightarrow> 'm c3x_cpu" where
  "init_CPU cache mem = \<lparr>instruction_counter = 0, max_inst = 0xffffffffffffffff, mimic_dev_board = False,
     delay_before_branching = 0, branch_addr = 0, repeat_single = False,
     first_time_through_repeat_single = False, reset = False, idle = 0, reg_ir = 0, reg_pc = 0, reg_npc = 0,
     regs = init_regs, insn_cache_accesses = 0, insn_cache_misses = 0, insn_cache = cache,
     stopped = None, memory = mem\<rparr>"

definition c3x_Reset :: "'m c3x_cpu \<Rightarrow> 'm c3x_cpu" where
  "c3x_Reset s = s\<lparr>reg_pc := 0, reg_npc := 0, regs := map (\<lambda>r. SetHi 0 (SetLo 0 r)) (regs s), reset := True\<rparr>"

text \<open>\<open>BeginSetup\<close> refuses a configuration of more than two ways.\<close>

definition BeginSetup :: "c3x_config \<Rightarrow> 'm c3x_cpu \<Rightarrow> bool \<times> 'm c3x_cpu" where
  "BeginSetup cfg s = (if CONFIG_ASSOCIATIVITY cfg > 2 then (False, s) else (True, c3x_Reset s))"

section \<open>Registers\<close>

definition GetReg :: "nat \<Rightarrow> 'm c3x_cpu \<Rightarrow> u32" where
  "GetReg n s = GetLo (regs s ! n)"

definition SetReg :: "nat \<Rightarrow> u32 \<Rightarrow> 'm c3x_cpu \<Rightarrow> 'm c3x_cpu" where
  "SetReg n v s = s\<lparr>regs := (regs s)[n := SetLo v (regs s ! n)]\<rparr>"

definition GetExtReg :: "nat \<Rightarrow> 'm c3x_cpu \<Rightarrow> c3x_register" where
  "GetExtReg n s = regs s ! (REG_R0 + n)"

definition GetAR :: "nat \<Rightarrow> 'm c3x_cpu \<Rightarrow> u32" where
  "GetAR n s = GetReg (REG_AR0 + n) s"

definition GetAR23_0 :: "nat \<Rightarrow> 'm c3x_cpu \<Rightarrow> u32" where
  "GetAR23_0 n s = GetReg (REG_AR0 + n) s AND ADDRESS_MASK"

definition GetIR :: "'m c3x_cpu \<Rightarrow> u32" where
  "GetIR s = reg_ir s"

definition SetIR :: "u32 \<Rightarrow> 'm c3x_cpu \<Rightarrow> 'm c3x_cpu" where
  "SetIR v s = s\<lparr>reg_ir := v\<rparr>"

definition GetSP :: "'m c3x_cpu \<Rightarrow> u32" where
  "GetSP s = GetReg REG_SP s"

definition GetSP23_0 :: "'m c3x_cpu \<Rightarrow> u32" where
  "GetSP23_0 s = GetReg REG_SP s AND ADDRESS_MASK"

definition GetST :: "'m c3x_cpu \<Rightarrow> u32" where
  "GetST s = GetReg REG_ST s"

definition GetIF :: "'m c3x_cpu \<Rightarrow> u32" where
  "GetIF s = GetReg REG_IF s"

definition GetIE :: "'m c3x_cpu \<Rightarrow> u32" where
  "GetIE s = GetReg REG_IE s"

definition GetDP :: "'m c3x_cpu \<Rightarrow> u32" where
  "GetDP s = GetReg REG_DP s"

definition GetDP8_0 :: "'m c3x_cpu \<Rightarrow> u32" where
  "GetDP8_0 s = GetReg REG_DP s AND 0xff"

definition SetDP :: "u32 \<Rightarrow> 'm c3x_cpu \<Rightarrow> 'm c3x_cpu" where
  "SetDP v s = SetReg REG_DP v s"

definition SetDP7_0 :: "u32 \<Rightarrow> 'm c3x_cpu \<Rightarrow> 'm c3x_cpu" where
  "SetDP7_0 v s = SetReg REG_DP ((GetReg REG_DP s AND NOT 0xff) OR (v AND 0xff)) s"

definition SetST :: "u32 \<Rightarrow> 'm c3x_cpu \<Rightarrow> 'm c3x_cpu" where
  "SetST v s = SetReg REG_ST v s"

definition HasReg :: "nat \<Rightarrow> bool" where "HasReg n = (n \<le> 27)"

definition IsExtReg :: "nat \<Rightarrow> bool" where "IsExtReg n = (n \<le> 7)"

definition IsStatusReg :: "nat \<Rightarrow> bool" where "IsStatusReg n = (n = REG_ST)"

definition SetAR23_0 :: "nat \<Rightarrow> u32 \<Rightarrow> 'm c3x_cpu \<Rightarrow> 'm c3x_cpu" where
  "SetAR23_0 n v s = SetReg (REG_AR0 + n) ((GetReg (REG_AR0 + n) s AND NOT ADDRESS_MASK) OR v) s"

definition SetAR :: "nat \<Rightarrow> u32 \<Rightarrow> 'm c3x_cpu \<Rightarrow> 'm c3x_cpu" where
  "SetAR n v s = SetReg (REG_AR0 + n) v s"

definition SetSP :: "u32 \<Rightarrow> 'm c3x_cpu \<Rightarrow> 'm c3x_cpu" where
  "SetSP v s = SetReg REG_SP v s"

definition SetSP23_0 :: "u32 \<Rightarrow> 'm c3x_cpu \<Rightarrow> 'm c3x_cpu" where
  "SetSP23_0 v s = SetReg REG_SP ((GetReg REG_SP s AND NOT ADDRESS_MASK) OR v) s"

definition GetPC :: "'m c3x_cpu \<Rightarrow> u32" where
  "GetPC s = reg_pc s"

definition GetPC23_0 :: "'m c3x_cpu \<Rightarrow> u32" where
  "GetPC23_0 s = reg_pc s AND ADDRESS_MASK"

definition SetPC :: "u32 \<Rightarrow> 'm c3x_cpu \<Rightarrow> 'm c3x_cpu" where
  "SetPC v s = s\<lparr>reg_pc := v\<rparr>"

definition GetNPC :: "'m c3x_cpu \<Rightarrow> u32" where
  "GetNPC s = reg_npc s"

definition GetNPC23_0 :: "'m c3x_cpu \<Rightarrow> u32" where
  "GetNPC23_0 s = reg_npc s AND ADDRESS_MASK"

definition SetNPC :: "u32 \<Rightarrow> 'm c3x_cpu \<Rightarrow> 'm c3x_cpu" where
  "SetNPC v s = s\<lparr>reg_npc := v\<rparr>"

definition Branch :: "u32 \<Rightarrow> u32 \<Rightarrow> 'm c3x_cpu \<Rightarrow> 'm c3x_cpu" where
  "Branch target_addr num_delay_slots s =
     s\<lparr>branch_addr := target_addr, delay_before_branching := num_delay_slots + 1\<rparr>"

definition GetBK :: "'m c3x_cpu \<Rightarrow> u32" where
  "GetBK s = GetReg REG_BK s"

definition GetIR0 :: "'m c3x_cpu \<Rightarrow> u32" where
  "GetIR0 s = GetReg REG_IR0 s"

definition GetIR0_23_0 :: "'m c3x_cpu \<Rightarrow> u32" where
  "GetIR0_23_0 s = GetReg REG_IR0 s AND ADDRESS_MASK"

definition GetIR1 :: "'m c3x_cpu \<Rightarrow> u32" where
  "GetIR1 s = GetReg REG_IR0 s"

definition GetIR1_23_0 :: "'m c3x_cpu \<Rightarrow> u32" where
  "GetIR1_23_0 s = GetReg REG_IR1 s AND ADDRESS_MASK"

definition Idle :: "u32 \<Rightarrow> 'm c3x_cpu \<Rightarrow> 'm c3x_cpu" where
  "Idle v s = s\<lparr>idle := v\<rparr>"

definition GetST_C :: "'m c3x_cpu \<Rightarrow> bool" where
  "GetST_C s = bit (GetST s) ST_C"

definition GetST_V :: "'m c3x_cpu \<Rightarrow> bool" where
  "GetST_V s = bit (GetST s) ST_V"

definition GetST_N :: "'m c3x_cpu \<Rightarrow> bool" where
  "GetST_N s = bit (GetST s) ST_N"

definition GetST_UF :: "'m c3x_cpu \<Rightarrow> bool" where
  "GetST_UF s = bit (GetST s) ST_UF"

definition GetST_LV :: "'m c3x_cpu \<Rightarrow> bool" where
  "GetST_LV s = bit (GetST s) ST_LV"

definition GetST_LUF :: "'m c3x_cpu \<Rightarrow> bool" where
  "GetST_LUF s = bit (GetST s) ST_LUF"

definition GetST_OVM :: "'m c3x_cpu \<Rightarrow> bool" where
  "GetST_OVM s = bit (GetST s) ST_OVM"

definition GetST_RM :: "'m c3x_cpu \<Rightarrow> bool" where
  "GetST_RM s = bit (GetST s) ST_RM"

definition GetST_CF :: "'m c3x_cpu \<Rightarrow> bool" where
  "GetST_CF s = bit (GetST s) ST_CF"

definition GetST_CE :: "'m c3x_cpu \<Rightarrow> bool" where
  "GetST_CE s = bit (GetST s) ST_CE"

definition GetST_CC :: "'m c3x_cpu \<Rightarrow> bool" where
  "GetST_CC s = bit (GetST s) ST_CC"

definition GetST_GIE :: "'m c3x_cpu \<Rightarrow> bool" where
  "GetST_GIE s = bit (GetST s) ST_GIE"

definition SetST_RM :: "'m c3x_cpu \<Rightarrow> 'm c3x_cpu" where
  "SetST_RM s = SetST (GetST s OR push_bit ST_RM 1) s"

definition ResetST_RM :: "'m c3x_cpu \<Rightarrow> 'm c3x_cpu" where
  "ResetST_RM s = SetST (GetST s AND NOT (push_bit ST_RM 1)) s"

definition SetST_GIE :: "'m c3x_cpu \<Rightarrow> 'm c3x_cpu" where
  "SetST_GIE s = SetST (GetST s OR push_bit ST_GIE 1) s"

definition ResetST_GIE :: "'m c3x_cpu \<Rightarrow> 'm c3x_cpu" where
  "ResetST_GIE s = SetST (GetST s AND NOT (push_bit ST_GIE 1)) s"

definition ResetST_CC :: "'m c3x_cpu \<Rightarrow> 'm c3x_cpu" where
  "ResetST_CC s = SetST (GetST s AND NOT (push_bit ST_CC 1)) s"

definition SetST_CE :: "'m c3x_cpu \<Rightarrow> 'm c3x_cpu" where
  "SetST_CE s = SetST (GetST s OR push_bit ST_CE 1) s"

definition GetS :: "'m c3x_cpu \<Rightarrow> bool" where
  "GetS s = repeat_single s"

definition SetS :: "'m c3x_cpu \<Rightarrow> 'm c3x_cpu" where
  "SetS s = s\<lparr>repeat_single := True, first_time_through_repeat_single := True\<rparr>"

definition ResetS :: "'m c3x_cpu \<Rightarrow> 'm c3x_cpu" where
  "ResetS s = s\<lparr>repeat_single := False\<rparr>"

definition SetRE :: "u32 \<Rightarrow> 'm c3x_cpu \<Rightarrow> 'm c3x_cpu" where
  "SetRE v s = SetReg REG_RE v s"

definition GetRE :: "'m c3x_cpu \<Rightarrow> u32" where
  "GetRE s = GetReg REG_RE s"

definition SetRS :: "u32 \<Rightarrow> 'm c3x_cpu \<Rightarrow> 'm c3x_cpu" where
  "SetRS v s = SetReg REG_RS v s"

definition GetRS :: "'m c3x_cpu \<Rightarrow> u32" where
  "GetRS s = GetReg REG_RS s"

definition SetRC :: "u32 \<Rightarrow> 'm c3x_cpu \<Rightarrow> 'm c3x_cpu" where
  "SetRC v s = SetReg REG_RC v s"

definition GetRC :: "'m c3x_cpu \<Rightarrow> u32" where
  "GetRC s = GetReg REG_RC s"

definition HasPendingBranch :: "'m c3x_cpu \<Rightarrow> bool" where
  "HasPendingBranch s = (delay_before_branching s \<noteq> 0)"

text \<open>The level is not used.\<close>

definition SetIRQLevel :: "nat \<Rightarrow> bool \<Rightarrow> 'm c3x_cpu \<Rightarrow> 'm c3x_cpu" where
  "SetIRQLevel n level s =
     (let m = push_bit n 1 AND IF_WRITE_MASK
      in SetReg REG_IF ((GetReg REG_IF s AND NOT m) OR m) s)"

section \<open>Conditions\<close>

definition COND_VALID_MASK :: u32 where
  "COND_VALID_MASK = foldr (\<lambda>b m. push_bit b 1 OR m) ([0..<11] @ [12..<21]) 0"

definition HasCondition :: "nat \<Rightarrow> bool" where
  "HasCondition cond = bit COND_VALID_MASK cond"

definition CheckCondition :: "nat \<Rightarrow> 'm c3x_cpu \<Rightarrow> bool" where
  "CheckCondition cond s =
     (let st = GetST s; flag = (\<lambda>m. st AND m \<noteq> 0)
      in if cond = 0x00 then True
         else if cond = 0x01 then flag M_ST_C
         else if cond = 0x02 then (drop_bit ST_C st OR drop_bit ST_Z st) AND 1 \<noteq> 0
         else if cond = 0x03 then (NOT (drop_bit ST_C st OR drop_bit ST_Z st)) AND 1 \<noteq> 0
         else if cond = 0x04 then \<not> flag M_ST_C
         else if cond = 0x05 then flag M_ST_Z
         else if cond = 0x06 then \<not> flag M_ST_Z
         else if cond = 0x07 then flag M_ST_N
         else if cond = 0x08 then (drop_bit ST_N st OR drop_bit ST_Z st) AND 1 \<noteq> 0
         else if cond = 0x09 then (NOT (drop_bit ST_N st OR drop_bit ST_Z st)) AND 1 \<noteq> 0
         else if cond = 0x0a then \<not> flag M_ST_N
         else if cond = 0x0c then \<not> flag M_ST_V
         else if cond = 0x0d then flag M_ST_V
         else if cond = 0x0e then \<not> flag M_ST_UF
         else if cond = 0x0f then flag M_ST_UF
         else if cond = 0x10 then \<not> flag M_ST_LV
         else if cond = 0x11 then flag M_ST_LV
         else if cond = 0x12 then \<not> flag M_ST_LUF
         else if cond = 0x13 then flag M_ST_LUF
         else if cond = 0x14 then (drop_bit ST_Z st OR drop_bit ST_UF st) AND 1 \<noteq> 0
         else False)"

section \<open>Status flags\<close>

text \<open>The flags of an integer result.\<close>

definition GenFlags :: "u32 \<Rightarrow> u32 \<Rightarrow> u32 \<Rightarrow> u32 \<Rightarrow> u32 \<Rightarrow> u32 \<Rightarrow> 'm c3x_cpu \<Rightarrow> 'm c3x_cpu" where
  "GenFlags result reset_mask or_mask sign carry_out overflow s =
     (let st = GetST s AND NOT reset_mask;
          st = (if or_mask AND M_ST_LV \<noteq> 0 then st OR push_bit ST_LV overflow else st);
          st = (if or_mask AND M_ST_N \<noteq> 0 then st OR push_bit ST_N sign else st);
          st = (if or_mask AND M_ST_Z \<noteq> 0 then st OR push_bit ST_Z (if sint result = 0 then 1 else 0) else st);
          st = (if or_mask AND M_ST_C \<noteq> 0 then st OR push_bit ST_C carry_out else st);
          st = (if or_mask AND M_ST_V \<noteq> 0 then st OR push_bit ST_V overflow else st)
      in SetST st s)"

text \<open>The flags of a floating-point result.\<close>

definition GenFlags_float :: "c3x_register \<Rightarrow> u32 \<Rightarrow> u32 \<Rightarrow> u32 \<Rightarrow> u32 \<Rightarrow> u32 \<Rightarrow> 'm c3x_cpu \<Rightarrow> 'm c3x_cpu" where
  "GenFlags_float result reset_mask or_mask overflow underflow neg s =
     (let st = GetST s AND NOT reset_mask;
          st = (if or_mask AND M_ST_LUF \<noteq> 0 then st OR push_bit ST_LUF underflow else st);
          st = (if or_mask AND M_ST_LV \<noteq> 0 then st OR push_bit ST_LV overflow else st);
          st = (if or_mask AND M_ST_UF \<noteq> 0 then st OR push_bit ST_UF underflow else st);
          st = (if or_mask AND M_ST_N \<noteq> 0 then st OR push_bit ST_N neg else st);
          st = (if or_mask AND M_ST_Z \<noteq> 0 \<and> underflow = 0
                then st OR push_bit ST_Z (if GetLo result = 0 \<and> GetHi result = 0x80 then 1 else 0) else st);
          st = (if or_mask AND M_ST_V \<noteq> 0 then st OR push_bit ST_V overflow else st)
      in SetST st s)"

end
