(* ===== verification/C3X_Address.thy ===== *)
theory C3X_Address
  imports C3X_State
begin

text \<open>
  The effective addresses of the TMS320C3X: circular buffers, indirect addressing and direct addressing
  (\<open>cpu.tcc\<close>). The warnings about long buffers and steps are messages only.
\<close>

section \<open>Circular buffers\<close>

text \<open>
  The low bits that index a buffer of length \<open>bk\<close>. The shift is defined for lengths below \<open>2 ^ 31\<close>; the
  code warns above \<open>MAX_BLOCK_SIZE\<close>.
\<close>

definition MAX_BLOCK_SIZE :: nat where "MAX_BLOCK_SIZE = 64 * 1024"

definition k_lsb_mask :: "u32 \<Rightarrow> u32" where
  "k_lsb_mask bk = push_bit (1 + unat (the (Log2_32 bk))) 1 - 1"

definition CircularAdd :: "u32 \<Rightarrow> u32 \<Rightarrow> u32 \<Rightarrow> u32" where
  "CircularAdd ar bk step =
     (let m = k_lsb_mask bk;
          base_addr = ar AND NOT m;
          index = (ar AND m) + step;
          index = (if sint bk \<le> sint index then index - bk else index)
      in (base_addr + index) AND ADDRESS_MASK)"

definition CircularSubstract :: "u32 \<Rightarrow> u32 \<Rightarrow> u32 \<Rightarrow> u32" where
  "CircularSubstract ar bk step =
     (let m = k_lsb_mask bk;
          base_addr = ar AND NOT m;
          index = (ar AND m) - step;
          index = (if sint index < 0 then index + bk else index)
      in (base_addr + index) AND ADDRESS_MASK)"

section \<open>Indirect addressing\<close>

text \<open>
  The effective address and, when \<open>update_ar\<close> is set, the new value of the auxiliary register; \<open>None\<close> for
  an encoding that is not valid. The modes come in groups of eight: the displacement, \<open>IR0\<close> and \<open>IR1\<close>.
\<close>

definition ComputeIndirEA :: "nat \<Rightarrow> nat \<Rightarrow> u32 \<Rightarrow> 'm c3x_cpu \<Rightarrow> (u32 \<times> u32 option) option" where
  "ComputeIndirEA md ar_num disp s =
     (let ar = GetAR23_0 ar_num s; bk = GetBK s; ir0 = GetIR0_23_0 s; ir1 = GetIR1_23_0 s
      in if md = 0x00 then Some ((ar + disp) AND ADDRESS_MASK, None)
         else if md = 0x01 then Some ((ar - disp) AND ADDRESS_MASK, None)
         else if md = 0x02 then (let ea = (ar + disp) AND ADDRESS_MASK in Some (ea, Some ea))
         else if md = 0x03 then (let ea = (ar - disp) AND ADDRESS_MASK in Some (ea, Some ea))
         else if md = 0x04 then Some (ar, Some ((ar + disp) AND ADDRESS_MASK))
         else if md = 0x05 then Some (ar, Some ((ar - disp) AND ADDRESS_MASK))
         else if md = 0x06 then Some (ar, Some (CircularAdd ar bk disp))
         else if md = 0x07 then Some (ar, Some (CircularSubstract ar bk disp))
         else if md = 0x08 then Some ((ar + ir0) AND ADDRESS_MASK, None)
         else if md = 0x09 then Some ((ar - ir0) AND ADDRESS_MASK, None)
         else if md = 0x0a then (let ea = (ar + ir0) AND ADDRESS_MASK in Some (ea, Some ea))
         else if md = 0x0b then (let ea = (ar - ir0) AND ADDRESS_MASK in Some (ea, Some ea))
         else if md = 0x0c then Some (ar, Some ((ar + ir0) AND ADDRESS_MASK))
         else if md = 0x0d then Some (ar, Some ((ar - ir0) AND ADDRESS_MASK))
         else if md = 0x0e then Some (ar, Some (CircularAdd ar bk ir0))
         else if md = 0x0f then Some (ar, Some (CircularSubstract ar bk ir0))
         else if md = 0x10 then Some ((ar + ir1) AND ADDRESS_MASK, None)
         else if md = 0x11 then Some ((ar - ir1) AND ADDRESS_MASK, None)
         else if md = 0x12 then (let ea = (ar + ir1) AND ADDRESS_MASK in Some (ea, Some ea))
         else if md = 0x13 then (let ea = (ar - ir1) AND ADDRESS_MASK in Some (ea, Some ea))
         else if md = 0x14 then Some (ar, Some ((ar + ir1) AND ADDRESS_MASK))
         else if md = 0x15 then Some (ar, Some ((ar - ir1) AND ADDRESS_MASK))
         else if md = 0x16 then Some (ar, Some (CircularAdd ar bk ir1))
         else if md = 0x17 then Some (ar, Some (CircularSubstract ar bk ir1))
         else if md = 0x18 then Some (ar, None)
         else if md = 0x19 then Some (ar, Some (the (ReverseCarryPropagationAdd ar ir0)))
         else None)"

definition ComputeDirEA :: "u32 \<Rightarrow> 'm c3x_cpu \<Rightarrow> u32" where
  "ComputeDirEA direct s = push_bit 16 (GetDP s) OR direct"

section \<open>Circular addressing stays in the buffer\<close>

lemma Log2_32_bounds:
  assumes "v \<noteq> 0"
  defines "l \<equiv> unat (the (Log2_32 v))"
  shows "2 ^ l \<le> unat v" and "unat v < 2 ^ Suc l"
proof -
  obtain n where n: "BitScanReverse32 v = Some (Some n)" "highest_of v (Some n)"
    using BitScanReverse32_spec [of v] assms(1) by (auto simp: highest_of_def split: option.splits)
  then have "l = unat n" by (simp add: l_def Log2_32_def)
  with highest_bounds [OF n(2)] show "2 ^ l \<le> unat v" "unat v < 2 ^ Suc l" by simp_all
qed

text \<open>The alignment of a buffer of length \<open>bk\<close>.\<close>

definition buffer_size :: "u32 \<Rightarrow> nat" where
  "buffer_size bk = 2 ^ (1 + unat (the (Log2_32 bk)))"

lemma buffer_size_bounds:
  assumes "bk \<noteq> 0" and "unat bk \<le> MAX_BLOCK_SIZE"
  obtains k where "k_lsb_mask bk = mask k" and "buffer_size bk = 2 ^ k" and "k \<le> 17" and "unat bk < 2 ^ k"
proof -
  define k where "k = 1 + unat (the (Log2_32 bk))"
  have b: "2 ^ (k - 1) \<le> unat bk" "unat bk < 2 ^ k" using Log2_32_bounds [OF assms(1)] by (simp_all add: k_def)
  have "k \<le> 17"
  proof (rule ccontr)
    assume "\<not> k \<le> 17"
    then have "(2 :: nat) ^ 17 \<le> 2 ^ (k - 1)" by (intro power_increasing) simp_all
    with b(1) assms(2) show False by (simp add: MAX_BLOCK_SIZE_def)
  qed
  moreover have "k_lsb_mask bk = mask k" by (simp add: k_lsb_mask_def k_def mask_eq_exp_minus_1)
  ultimately show ?thesis using that b(2) by (simp add: buffer_size_def k_def)
qed

lemma ADDRESS_MASK_mask: "ADDRESS_MASK = mask 24"
  by (simp add: ADDRESS_MASK_def mask_eq_exp_minus_1)

lemma unat_and_mask: "unat ((v :: u32) AND mask k) = unat v mod 2 ^ k"
  by (simp add: unsigned_take_bit_eq take_bit_eq_mod [where 'a = nat] flip: take_bit_eq_mask)

lemma sint_of_int_small: "- (2 ^ 31) \<le> z \<Longrightarrow> z < 2 ^ 31 \<Longrightarrow> sint (word_of_int z :: u32) = z"
  unfolding sint_sbintrunc' by (rule signed_take_bit_int_eq_self) simp_all

lemma sint_of_nat_small: "n < 2 ^ 31 \<Longrightarrow> sint (word_of_nat n :: u32) = int n"
  using sint_of_int_small [of "int n"] by simp

lemma sint_small: "unat (v :: u32) < 2 ^ 31 \<Longrightarrow> sint v = int (unat v)"
  using sint_of_nat_small [of "unat v"] by simp

lemma sint_of_diff_small:
  assumes "i < 2 ^ 31" and "j < 2 ^ 31"
  shows "sint (word_of_nat i - word_of_nat j :: u32) = int i - int j"
  using sint_of_int_small [of "int i - int j"] assms by simp

lemma aligned_sum_bound:
  fixes a n :: nat
  assumes "a < 2 ^ 24" and "k \<le> 24" and "x < 2 ^ k"
  shows "a - a mod 2 ^ k + x < 2 ^ 24"
proof -
  have "a div 2 ^ k < 2 ^ (24 - k)" using assms(1,2) by (simp add: div_less_iff_less_mult flip: power_add)
  then have "(a div 2 ^ k + 1) * 2 ^ k \<le> 2 ^ (24 - k) * 2 ^ k" by (intro mult_right_mono) simp_all
  then have "a div 2 ^ k * 2 ^ k + 2 ^ k \<le> 2 ^ 24" using assms(2) by (simp add: distrib_right flip: power_add)
  then show ?thesis using assms(3) by (simp add: minus_mod_eq_div_mult)
qed

lemma circular_index:
  assumes "k \<le> 24" and "unat ar < 2 ^ 24" and "unat x < 2 ^ k"
  shows "unat (((ar AND NOT (mask k)) + x) AND ADDRESS_MASK) = unat ar - unat ar mod 2 ^ k + unat x"
proof -
  have b: "unat ar - unat ar mod 2 ^ k + unat x < 2 ^ 24" by (rule aligned_sum_bound [OF assms(2,1,3)])
  then have "unat ((ar AND NOT (mask k)) + x) = unat ar - unat ar mod 2 ^ k + unat x"
    by (simp add: unat_word_ariths unat_and_high_mask)
  then show ?thesis using b by (simp add: ADDRESS_MASK_mask unat_and_mask)
qed

text \<open>The index after a step, as the code computes it.\<close>

lemma circular_steps:
  assumes "bk \<noteq> 0" and "unat bk \<le> MAX_BLOCK_SIZE" and "unat step \<le> unat bk" and "unat ar < 2 ^ 24"
    and "unat ar mod buffer_size bk < unat bk"
  shows "unat (CircularAdd ar bk step) =
      unat ar - unat ar mod buffer_size bk + (unat ar mod buffer_size bk + unat step) mod unat bk"
    and "unat (CircularSubstract ar bk step) =
      unat ar - unat ar mod buffer_size bk + (unat ar mod buffer_size bk + unat bk - unat step) mod unat bk"
proof -
  obtain k where k: "k_lsb_mask bk = mask k" "buffer_size bk = 2 ^ k" "k \<le> 17" "unat bk < 2 ^ k"
    using assms(1,2) by (rule buffer_size_bounds)
  have k17: "(2 :: nat) ^ k \<le> 2 ^ 17" using k(3) by (intro power_increasing) simp_all
  define i where "i = unat ar mod 2 ^ k"
  have i: "unat (ar AND mask k) = i" "i < unat bk" using assms(5) k(2) by (simp_all add: i_def unat_and_mask)
  have s: "unat bk < 2 ^ 17" "unat step < 2 ^ 17" "i < 2 ^ 17" using k(4) k17 assms(3) i(2) by simp_all
  have add: "unat ((ar AND mask k) + step) = i + unat step" using s i(1) by (simp add: unat_word_ariths)
  have cmp: "sint bk \<le> sint ((ar AND mask k) + step) \<longleftrightarrow> unat bk \<le> i + unat step"
    using s by (simp add: sint_small add del: of_nat_unat uint_nat flip: of_nat_add)
  show "unat (CircularAdd ar bk step) =
      unat ar - unat ar mod buffer_size bk + (unat ar mod buffer_size bk + unat step) mod unat bk"
  proof (cases "unat bk \<le> i + unat step")
    case True
    have "(i + unat step) mod unat bk = i + unat step - unat bk" using True i(2) assms(3) by (simp add: mod_if)
    moreover have "unat ((ar AND mask k) + step - bk) = i + unat step - unat bk"
      using True add by (simp add: unat_sub word_le_nat_alt)
    ultimately show ?thesis
      using circular_index [of k ar "(ar AND mask k) + step - bk"] True cmp i(2) assms(3,4) k s
      by (simp add: CircularAdd_def Let_def flip: i_def)
  next
    case False
    then show ?thesis
      using circular_index [of k ar "(ar AND mask k) + step"] cmp assms(4) k add
      by (simp add: CircularAdd_def Let_def flip: i_def)
  qed
  define x where "x = (ar AND mask k) - step"
  have x: "x = word_of_nat i - word_of_nat (unat step)" by (simp add: x_def flip: i(1))
  have "sint x = int i - int (unat step)" unfolding x by (rule sint_of_diff_small) (use s in simp_all)
  then have neg: "sint x < 0 \<longleftrightarrow> i < unat step" by linarith
  show "unat (CircularSubstract ar bk step) =
      unat ar - unat ar mod buffer_size bk + (unat ar mod buffer_size bk + unat bk - unat step) mod unat bk"
  proof (cases "i < unat step")
    case True
    have "x + bk = word_of_nat (i + unat bk - unat step)"
      using True assms(3) by (simp add: x_def of_nat_diff flip: i(1))
    then have "unat (x + bk) = i + unat bk - unat step"
      using s True by (simp add: unat_of_nat)
    moreover have "(i + unat bk - unat step) mod unat bk = i + unat bk - unat step"
      using True assms(3) by simp
    ultimately show ?thesis
      using circular_index [of k ar "x + bk"] True neg assms(3,4) k s
      by (simp add: CircularSubstract_def Let_def flip: i_def x_def)
  next
    case False
    have "unat x = i - unat step" using False i(1) by (simp add: x_def unat_sub word_le_nat_alt)
    moreover have "(i + unat bk - unat step) mod unat bk = i - unat step"
      using False i(2) by (simp add: mod_if)
    ultimately show ?thesis
      using circular_index [of k ar x] False neg i(2) assms(4) k
      by (simp add: CircularSubstract_def Let_def flip: i_def x_def)
  qed
qed

text \<open>
  C37: with a buffer of at most 64K words and a step no longer than the buffer, the circular addition and
  subtraction move the index by the step modulo the length, keep the register in the same buffer, and undo
  one another.
\<close>

theorem circular_addressing:
  assumes "bk \<noteq> 0" and "unat bk \<le> MAX_BLOCK_SIZE" and "unat step \<le> unat bk" and "unat ar < 2 ^ 24"
    and "unat ar mod buffer_size bk < unat bk"
  shows "unat (CircularAdd ar bk step) =
      unat ar - unat ar mod buffer_size bk + (unat ar mod buffer_size bk + unat step) mod unat bk \<and>
    unat (CircularSubstract ar bk step) =
      unat ar - unat ar mod buffer_size bk + (unat ar mod buffer_size bk + unat bk - unat step) mod unat bk \<and>
    CircularSubstract (CircularAdd ar bk step) bk step = ar \<and>
    CircularAdd (CircularSubstract ar bk step) bk step = ar"
proof -
  obtain k where k: "buffer_size bk = 2 ^ k" "k \<le> 17" "unat bk < 2 ^ k"
    using buffer_size_bounds [OF assms(1,2)] by metis
  define b n t i where "b = buffer_size bk" and "n = unat bk" and "t = unat step" and "i = unat ar mod b"
  have n: "0 < n" "n < b" "t \<le> n" "i < n"
    using assms(1,3,5) k by (simp_all add: n_def t_def i_def b_def unat_gt_0)
  define base where "base = unat ar - i"
  have dvd: "b dvd base" by (simp add: base_def i_def dvd_minus_mod)
  have ar: "unat ar = base + i" by (simp add: base_def i_def)
  note steps = circular_steps [OF assms(1-3)]
  have add: "unat (CircularAdd ar bk step) = base + (i + t) mod n"
    and sub: "unat (CircularSubstract ar bk step) = base + (i + n - t) mod n"
    using steps [OF assms(4,5)] by (simp_all add: base_def i_def b_def n_def t_def)
  have in_buffer: "unat v mod b = x" "unat v < 2 ^ 24" if "unat v = base + x" "x < n" for v :: u32 and x
  proof -
    obtain q where "base = b * q" using dvd by (rule dvdE)
    then show "unat v mod b = x" using that n(2) by simp
    have "k \<le> 24" "x < 2 ^ k" using k(2) that(2) n(2) k(1) by (simp_all add: b_def)
    from aligned_sum_bound [OF assms(4) this] show "unat v < 2 ^ 24"
      using that(1) by (simp add: base_def i_def b_def k(1))
  qed
  have undo: "unat (CircularSubstract v bk step) = base + (x + n - t) mod n"
    "unat (CircularAdd v bk step) = base + (x + t) mod n" if "unat v = base + x" "x < n" for v x
    using steps [of v] in_buffer [OF that] that by (simp_all add: b_def n_def t_def)
  have "((i + t) mod n + n - t) mod n = i" "((i + n - t) mod n + t) mod n = i"
    using n by (auto simp: mod_if)
  then have "unat (CircularSubstract (CircularAdd ar bk step) bk step) = unat ar"
    "unat (CircularAdd (CircularSubstract ar bk step) bk step) = unat ar"
    using undo(1) [OF add] undo(2) [OF sub] n(1) ar by simp_all
  then show ?thesis
    using steps [OF assms(4,5)] by (simp add: word_unat_eq_iff)
qed

theorem circular_addressing_witness:
  "CircularAdd 0x108 10 4 = 0x102 \<and> CircularSubstract (CircularAdd 0x108 10 4) 10 4 = 0x108"
proof -
  have "buffer_size 10 = 16" "CircularAdd 0x108 10 4 = 0x102" by code_simp+
  then show ?thesis using circular_addressing [of 10 4 "0x108"] by (simp add: MAX_BLOCK_SIZE_def)
qed

section \<open>Bounds of the effective addresses\<close>

lemma not_bit_above:
  assumes "unat (v :: u32) < 2 ^ k" and "k \<le> m"
  shows "\<not> bit v m"
proof -
  have "take_bit k v = v"
    using assms(1) by (simp add: word_eq_iff_unsigned unsigned_take_bit_eq take_bit_nat_eq_self word_unat_eq_iff)
  then show ?thesis using assms(2) by (metis bit_take_bit_iff leD)
qed

lemma reverse_carry_bound:
  assumes "unat a < 2 ^ 24" and "unat b < 2 ^ 24"
  shows "unat (the (ReverseCarryPropagationAdd a b)) < 2 ^ 24"
proof -
  have low: "take_bit 8 (word_reverse v) = 0" if "unat v < 2 ^ 24" for v :: u32
  proof (rule bit_word_eqI)
    fix n assume "n < LENGTH(32)"
    have "\<not> bit v m" if "24 \<le> m" for m
      using not_bit_above [OF \<open>unat v < 2 ^ 24\<close> that] .
    then show "bit (take_bit 8 (word_reverse v)) n = bit (0 :: u32) n"
      by (auto simp: bit_take_bit_iff bit_word_reverse_iff)
  qed
  define r where "r = word_reverse a + word_reverse b"
  have "unat (word_reverse a) mod 2 ^ 8 = 0" "unat (word_reverse b) mod 2 ^ 8 = 0"
    using low [OF assms(1)] low [OF assms(2)] by (simp_all only: flip: take_bit_eq_mod unsigned_take_bit_eq) simp_all
  then have "2 ^ 8 dvd unat (word_reverse a) + unat (word_reverse b)" by (simp only: mod_eq_0_iff_dvd dvd_add)
  moreover have "(2 :: nat) ^ 8 dvd 2 ^ LENGTH(32)" by (rule le_imp_power_dvd) simp
  ultimately have "2 ^ 8 dvd unat r" by (simp only: r_def unat_word_ariths dvd_mod)
  then have "take_bit 8 (unat r) = 0" by (simp only: take_bit_eq_mod mod_eq_0_iff_dvd)
  then have "take_bit 8 r = 0" by (simp only: word_unat_eq_iff unsigned_take_bit_eq unsigned_0)
  then have "8 \<le> m" if "bit r m" for m using that bit_take_bit_iff [of 8 r m] by fastforce
  then have "n < 24" if "n < 32" "bit r (31 - n)" for n using that by fastforce
  then have "take_bit 24 (word_reverse r) = word_reverse r"
    by (intro bit_word_eqI) (auto simp: bit_take_bit_iff bit_word_reverse_iff)
  then have "unat (word_reverse r) = unat (word_reverse r AND mask 24)" by (simp add: take_bit_eq_mask)
  then have "unat (word_reverse r) < 2 ^ 24" by (simp add: unat_and_mask)
  then show ?thesis by (simp add: ReverseCarryPropagationAdd_eq r_def)
qed

lemma masked_address: "unat (v AND ADDRESS_MASK) < 2 ^ 24"
  by (simp add: ADDRESS_MASK_mask unat_and_mask)

text \<open>
  an indirect addressing mode is refused exactly above 25; otherwise the effective address and the new
  auxiliary register are 24-bit addresses, whatever the registers hold.
\<close>

theorem indirect_addresses_bound:
  "case ComputeIndirEA md n disp s of None \<Rightarrow> 25 < md
   | Some (ea, upd) \<Rightarrow> md \<le> 25 \<and> unat ea < 2 ^ 24 \<and> (case upd of None \<Rightarrow> True | Some ar \<Rightarrow> unat ar < 2 ^ 24)"
proof -
  have g: "unat (GetAR23_0 n s) < 2 ^ 24" "unat (GetIR0_23_0 s) < 2 ^ 24"
    by (simp_all only: GetAR23_0_def GetIR0_23_0_def masked_address)
  have c: "unat (CircularAdd a b d) < 2 ^ 24" "unat (CircularSubstract a b d) < 2 ^ 24" for a b d
    by (simp_all only: CircularAdd_def CircularSubstract_def Let_def masked_address)
  show ?thesis
    using g c reverse_carry_bound [OF g] masked_address
    unfolding ComputeIndirEA_def Let_def by (auto simp del: One_nat_def; arith)
qed

end
