(* ===== verification/C3X_Memory.thy ===== *)
theory C3X_Memory
  imports C3X_Address RAM_Memory
begin

text \<open>
  The memory port of the TMS320C3X, its loads and stores, and the instruction cache (\<open>cpu.tcc\<close>). The two
  virtual functions \<open>PrRead\<close> and \<open>PrWrite\<close> are the port; \<open>ram_port\<close> is the one of the base class,
  connected to the memory of pages. An action returns a value or the exception it throws, and the state
  it leaves behind in either case.
\<close>

section \<open>Actions\<close>

datatype c3x_exception =
    InternalError | UnknownOpcode | UnimplementedOpcode | BogusOpcode | MisplacedOpcode
  | BadMemoryAccess u32

type_synonym ('a, 'm) action = "'m c3x_cpu \<Rightarrow> (c3x_exception + 'a) \<times> 'm c3x_cpu"

definition act_bind :: "(c3x_exception + 'a) \<times> 'm c3x_cpu \<Rightarrow> ('a \<Rightarrow> ('b, 'm) action) \<Rightarrow> (c3x_exception + 'b) \<times> 'm c3x_cpu" where
  "act_bind r f = (case r of (Inl e, s) \<Rightarrow> (Inl e, s) | (Inr v, s) \<Rightarrow> f v s)"

lemma act_bind_simps [simp]: "act_bind (Inl e, s) f = (Inl e, s)" "act_bind (Inr v, s) f = f v s"
  by (simp_all add: act_bind_def)

record 'm mem_port =
  PrRead :: "u32 \<Rightarrow> u32 \<Rightarrow> 'm \<Rightarrow> u8 list option \<times> 'm"
  PrWrite :: "u32 \<Rightarrow> u8 list \<Rightarrow> 'm \<Rightarrow> bool \<times> 'm"

section \<open>Loads and stores\<close>

definition IntStore :: "'m mem_port \<Rightarrow> u32 \<Rightarrow> u32 \<Rightarrow> (unit, 'm) action" where
  "IntStore port ea v s =
     (case PrWrite port (4 * ea) (le_bytes32 v) (memory s) of
        (True, m) \<Rightarrow> (Inr (), s\<lparr>memory := m\<rparr>) | (False, m) \<Rightarrow> (Inl (BadMemoryAccess ea), s\<lparr>memory := m\<rparr>))"

definition IntLoad :: "'m mem_port \<Rightarrow> u32 \<Rightarrow> (u32, 'm) action" where
  "IntLoad port ea s =
     (case PrRead port (4 * ea) 4 (memory s) of
        (Some bs, m) \<Rightarrow> (Inr (of_le_bytes32 bs), s\<lparr>memory := m\<rparr>)
      | (None, m) \<Rightarrow> (Inl (BadMemoryAccess ea), s\<lparr>memory := m\<rparr>))"

text \<open>
  Injected accesses go to the port in pieces that do not cross a word. The argument \<open>n\<close> counts the bytes
  left, as \<open>size\<close> does.
\<close>

definition piece_size :: "u32 \<Rightarrow> nat \<Rightarrow> nat" where
  "piece_size addr n = (let b = unat (4 - (addr AND 3)) in if b < n then b else n)"

lemma piece_size_bounds: "0 < n \<Longrightarrow> 0 < piece_size addr n \<and> piece_size addr n \<le> n"
proof -
  have "unat (addr AND 3) = unat addr mod 4" using unat_and_mask [of addr 2] by (simp add: mask_eq_exp_minus_1)
  then have "unat (addr AND 3) < 4" by simp
  then have "unat (4 - (addr AND 3)) = 4 - unat (addr AND 3)" "unat (addr AND 3) < 4"
    by (simp_all add: unat_sub word_le_nat_alt)
  then show "0 < n \<Longrightarrow> ?thesis" by (simp add: piece_size_def Let_def)
qed

function inject_read_loop :: "'m mem_port \<Rightarrow> u32 \<Rightarrow> nat \<Rightarrow> u8 list \<Rightarrow> (u8 list, 'm) action" where
  "inject_read_loop port addr n acc s =
     (if n = 0 then (Inr acc, s)
      else let sz = piece_size addr n
           in case PrRead port addr (of_nat sz) (memory s) of
                (None, m) \<Rightarrow> (Inl (BadMemoryAccess (addr div 4)), s\<lparr>memory := m\<rparr>)
              | (Some bs, m) \<Rightarrow> inject_read_loop port (addr + of_nat sz) (n - sz) (acc @ bs) (s\<lparr>memory := m\<rparr>))"
  by pat_completeness auto

termination
  by (relation "measure (\<lambda>(port, addr, n, acc, s). n)") (use piece_size_bounds in \<open>auto simp: diff_less\<close>)

definition InjectReadMemory :: "'m mem_port \<Rightarrow> u32 \<Rightarrow> nat \<Rightarrow> (u8 list, 'm) action" where
  "InjectReadMemory port addr n s = inject_read_loop port addr n [] s"

function inject_write_loop :: "'m mem_port \<Rightarrow> u32 \<Rightarrow> u8 list \<Rightarrow> (unit, 'm) action" where
  "inject_write_loop port addr src s =
     (if src = [] then (Inr (), s)
      else let sz = piece_size addr (length src)
           in case PrWrite port addr (take sz src) (memory s) of
                (False, m) \<Rightarrow> (Inl (BadMemoryAccess (addr div 4)), s\<lparr>memory := m\<rparr>)
              | (True, m) \<Rightarrow> inject_write_loop port (addr + of_nat sz) (drop sz src) (s\<lparr>memory := m\<rparr>))"
  by pat_completeness auto

termination
  by (relation "measure (\<lambda>(port, addr, src, s). length src)")
    (use piece_size_bounds in \<open>auto simp: diff_less length_greater_0_conv\<close>)

declare inject_read_loop.simps [simp del] inject_write_loop.simps [simp del]

definition InjectWriteMemory :: "'m mem_port \<Rightarrow> u32 \<Rightarrow> u8 list \<Rightarrow> (unit, 'm) action" where
  "InjectWriteMemory port addr src s = inject_write_loop port addr src s"

section \<open>The instruction cache\<close>

definition InvalidateInsnCache :: "'m c3x_cpu \<Rightarrow> 'm c3x_cpu" where
  "InvalidateInsnCache s = s\<lparr>insn_cache := map (\<lambda>cs. cs\<lparr>mru_way := 0, s_lines := map (\<lambda>l. l\<lparr>l_valid := False,
     l_blocks := map (b_valid_update (\<lambda>_. False)) (l_blocks l)\<rparr>) (s_lines cs)\<rparr>) (insn_cache s)\<rparr>"

definition line_base :: "c3x_config \<Rightarrow> u32 \<Rightarrow> u32" where
  "line_base cfg addr = addr AND NOT (of_nat (INSN_CACHE_BLOCKS_PER_LINE cfg) - 1)"

definition insn_sector :: "c3x_config \<Rightarrow> u32 \<Rightarrow> nat" where
  "insn_sector cfg addr = unat (addr AND (of_nat (INSN_CACHE_BLOCKS_PER_LINE cfg) - 1))"

definition insn_index :: "c3x_config \<Rightarrow> u32 \<Rightarrow> nat" where
  "insn_index cfg addr = unat addr div INSN_CACHE_BLOCKS_PER_LINE cfg mod NUM_INSN_CACHE_SETS cfg"

text \<open>The search starts with way \<open>w\<close> and tries \<open>n\<close> ways, changing sides at each step.\<close>

fun search_ways :: "nat \<Rightarrow> nat \<Rightarrow> u32 \<Rightarrow> insn_cache_line list \<Rightarrow> nat option" where
  "search_ways 0 w base ls = None"
| "search_ways (Suc n) w base ls =
     (if l_valid (ls ! w) \<and> l_base_addr (ls ! w) = base then Some w else search_ways n (w XOR 1) base ls)"

text \<open>A word read from memory is put into the line that was hit, or into one allocated for it.\<close>

definition fill_block :: "c3x_config \<Rightarrow> u32 \<Rightarrow> u32 \<Rightarrow> nat option \<Rightarrow> insn_cache_set \<Rightarrow> insn_cache_set" where
  "fill_block cfg addr insn hit cs =
     (let (w, line) = (case hit of
            Some w \<Rightarrow> (w, s_lines cs ! w)
          | None \<Rightarrow>
              (let w = (if INSN_CACHE_ASSOCIATIVITY cfg > 1 then mru_way cs XOR 1 else 0); l = s_lines cs ! w
               in (w, l\<lparr>l_valid := True, l_base_addr := line_base cfg addr,
                        l_blocks := map (b_valid_update (\<lambda>_. False)) (l_blocks l)\<rparr>)));
          line = line\<lparr>l_blocks := (l_blocks line)[insn_sector cfg addr := \<lparr>b_valid = True, b_insn = insn\<rparr>]\<rparr>;
          cs = cs\<lparr>s_lines := (s_lines cs)[w := line]\<rparr>
      in if INSN_CACHE_ASSOCIATIVITY cfg > 1 then cs\<lparr>mru_way := w\<rparr> else cs)"

definition Fetch :: "c3x_config \<Rightarrow> 'm mem_port \<Rightarrow> u32 \<Rightarrow> (u32, 'm) action" where
  "Fetch cfg port addr s =
     (let s = (if ENABLE_INSN_CACHE cfg \<and> GetST_CC s then ResetST_CC (InvalidateInsnCache s) else s);
          enabled = (ENABLE_INSN_CACHE cfg \<and> GetST_CE s);
          s = (if enabled then s\<lparr>insn_cache_accesses := insn_cache_accesses s + 1\<rparr> else s);
          idx = insn_index cfg addr; cs = insn_cache s ! idx;
          hit = (if enabled then search_ways (INSN_CACHE_ASSOCIATIVITY cfg) (mru_way cs) (line_base cfg addr) (s_lines cs)
                 else None);
          cached = (case hit of None \<Rightarrow> None
                    | Some w \<Rightarrow> (let b = l_blocks (s_lines cs ! w) ! insn_sector cfg addr
                                in if b_valid b then Some (w, b_insn b) else None))
      in case cached of
           Some (w, insn) \<Rightarrow>
             (Inr insn, if INSN_CACHE_ASSOCIATIVITY cfg > 1 \<and> \<not> GetST_CF s
                        then s\<lparr>insn_cache := (insn_cache s)[idx := cs\<lparr>mru_way := w\<rparr>]\<rparr> else s)
         | None \<Rightarrow>
             (case PrRead port (4 * addr) 4 (memory s) of
                (None, m) \<Rightarrow> (Inl (BadMemoryAccess addr), s\<lparr>memory := m\<rparr>)
              | (Some bs, m) \<Rightarrow>
                  (let s = s\<lparr>memory := m\<rparr>; insn = of_le_bytes32 bs
                   in (Inr insn,
                       if enabled \<and> \<not> GetST_CF s
                       then s\<lparr>insn_cache_misses := insn_cache_misses s + 1,
                              insn_cache := (insn_cache s)[idx := fill_block cfg addr insn hit cs]\<rparr>
                       else s))))"

section \<open>What the processor expects of a memory\<close>

text \<open>
  The contract of a port: a memory of words, one for each 24-bit address, that reads leave as it is and
  writes change at one address. \<open>word_at\<close> is what a load of the address returns.
\<close>

locale word_memory =
  fixes port :: "'m mem_port" and mem_ok :: "'m \<Rightarrow> bool" and word_at :: "'m \<Rightarrow> u32 \<Rightarrow> u32"
  assumes read_word: "mem_ok m \<Longrightarrow> unat ea < 2 ^ 24 \<Longrightarrow>
      \<exists>bs m'. PrRead port (4 * ea) 4 m = (Some bs, m') \<and> of_le_bytes32 bs = word_at m ea \<and> mem_ok m' \<and> word_at m' = word_at m"
    and write_word: "mem_ok m \<Longrightarrow> unat ea < 2 ^ 24 \<Longrightarrow>
      \<exists>m'. PrWrite port (4 * ea) (le_bytes32 v) m = (True, m') \<and> mem_ok m' \<and>
        (\<forall>a. unat a < 2 ^ 24 \<longrightarrow> word_at m' a = (if a = ea then v else word_at m a))"

text \<open>
  A cache whose valid blocks hold the words of the memory at addresses of the code region \<open>A\<close>, and the shape
  of the cache arrays. Stores do not look at the cache, so they must stay outside the region.
\<close>

definition coherent_line :: "u32 set \<Rightarrow> (u32 \<Rightarrow> u32) \<Rightarrow> insn_cache_line \<Rightarrow> bool" where
  "coherent_line A w l \<longleftrightarrow> (l_valid l \<longrightarrow> (\<forall>i < length (l_blocks l). b_valid (l_blocks l ! i) \<longrightarrow>
     l_base_addr l + of_nat i \<in> A \<and> b_insn (l_blocks l ! i) = w (l_base_addr l + of_nat i)))"

definition coherent_cache :: "u32 set \<Rightarrow> (u32 \<Rightarrow> u32) \<Rightarrow> insn_cache_set list \<Rightarrow> bool" where
  "coherent_cache A w cache \<longleftrightarrow> (\<forall>cs \<in> set cache. \<forall>l \<in> set (s_lines cs). coherent_line A w l)"

definition set_ok :: "c3x_config \<Rightarrow> insn_cache_set \<Rightarrow> bool" where
  "set_ok cfg cs \<longleftrightarrow> mru_way cs < INSN_CACHE_ASSOCIATIVITY cfg \<and> length (s_lines cs) = INSN_CACHE_ASSOCIATIVITY cfg \<and>
     (\<forall>l \<in> set (s_lines cs). length (l_blocks l) = INSN_CACHE_BLOCKS_PER_LINE cfg)"

definition cache_ok :: "c3x_config \<Rightarrow> insn_cache_set list \<Rightarrow> bool" where
  "cache_ok cfg cache \<longleftrightarrow> length cache = NUM_INSN_CACHE_SETS cfg \<and> (\<forall>cs \<in> set cache. set_ok cfg cs)"

definition config_ok :: "c3x_config \<Rightarrow> bool" where
  "config_ok cfg \<longleftrightarrow> (\<exists>k < 32. INSN_CACHE_BLOCKS_PER_LINE cfg = 2 ^ k) \<and> 0 < CONFIG_ASSOCIATIVITY cfg \<and>
     0 < NUM_INSN_CACHE_SETS cfg"

lemma line_sector:
  assumes "config_ok cfg"
  shows "line_base cfg addr + of_nat (insn_sector cfg addr) = addr"
    and "insn_sector cfg addr < INSN_CACHE_BLOCKS_PER_LINE cfg"
proof -
  obtain k where k: "k < 32" "INSN_CACHE_BLOCKS_PER_LINE cfg = 2 ^ k" using assms by (auto simp: config_ok_def)
  have m: "of_nat (INSN_CACHE_BLOCKS_PER_LINE cfg) - 1 = (mask k :: u32)" by (simp add: k(2) mask_eq_exp_minus_1)
  define x y where "x = addr AND NOT (mask k)" and "y = addr AND mask k"
  have "x AND y = 0" "x OR y = addr" by (auto intro!: bit_word_eqI simp: x_def y_def bit_simps)
  then have "x + y = addr" using disjunctive_add_eq_or [of x y] by simp
  then show "line_base cfg addr + of_nat (insn_sector cfg addr) = addr"
    by (simp add: line_base_def insn_sector_def m x_def y_def)
  show "insn_sector cfg addr < INSN_CACHE_BLOCKS_PER_LINE cfg"
    unfolding insn_sector_def m unat_and_mask by (simp add: k(2))
qed

lemma other_way: "w < 2 \<Longrightarrow> w XOR 1 < (2 :: nat)" "(w XOR 1) XOR 1 = (w :: nat)"
proof -
  show "(w XOR 1) XOR 1 = (w :: nat)" by (simp add: xor.assoc del: One_nat_def)
  show "w < 2 \<Longrightarrow> w XOR 1 < (2 :: nat)" by (auto simp: less_Suc_eq numeral_2_eq_2)
qed

lemmas other_way_Suc = other_way [unfolded One_nat_def]

lemma search_ways_hit:
  assumes "search_ways n w base ls = Some v"
  shows "l_valid (ls ! v) \<and> l_base_addr (ls ! v) = base \<and> (v = w \<or> (1 < n \<and> v = w XOR 1))"
  using assms
proof (induction n arbitrary: w)
  case (Suc n)
  show ?case
  proof (cases "l_valid (ls ! w) \<and> l_base_addr (ls ! w) = base")
    case False
    then have rest: "search_ways n (w XOR 1) base ls = Some v" using Suc.prems by (simp only: search_ways.simps if_False)
    then have "0 < n" by (cases n) simp_all
    with Suc.IH [OF rest] show ?thesis by (auto simp only: other_way)
  qed (use Suc.prems in simp)
qed simp

lemma associativity_cases:
  assumes "config_ok cfg"
  obtains "INSN_CACHE_ASSOCIATIVITY cfg = 1" | "INSN_CACHE_ASSOCIATIVITY cfg = 2"
proof -
  have "0 < INSN_CACHE_ASSOCIATIVITY cfg" "INSN_CACHE_ASSOCIATIVITY cfg \<le> 2"
    using assms by (auto simp: config_ok_def INSN_CACHE_ASSOCIATIVITY_def)
  then consider "INSN_CACHE_ASSOCIATIVITY cfg = 1" | "INSN_CACHE_ASSOCIATIVITY cfg = 2" by linarith
  then show thesis by cases (use that in auto)
qed

lemma search_ways_in_set:
  assumes "config_ok cfg" and "set_ok cfg cs"
    and "search_ways (INSN_CACHE_ASSOCIATIVITY cfg) (mru_way cs) base (s_lines cs) = Some v"
  shows "v < INSN_CACHE_ASSOCIATIVITY cfg"
  using search_ways_hit [OF assms(3)] assms(2)
  by (cases rule: associativity_cases [OF assms(1)]) (auto simp: set_ok_def other_way_Suc)

lemma invalidated_cache:
  "coherent_cache A w (insn_cache (InvalidateInsnCache s))"
  "0 < INSN_CACHE_ASSOCIATIVITY cfg \<Longrightarrow> cache_ok cfg (insn_cache s) \<Longrightarrow> cache_ok cfg (insn_cache (InvalidateInsnCache s))"
  by (auto simp: InvalidateInsnCache_def coherent_cache_def coherent_line_def cache_ok_def set_ok_def)

lemma coherent_line_fill:
  assumes "config_ok cfg" and "addr \<in> A" and "coherent_line A w l" and "l_base_addr l = line_base cfg addr"
  shows "coherent_line A w (l\<lparr>l_blocks := (l_blocks l)[insn_sector cfg addr := \<lparr>b_valid = True, b_insn = w addr\<rparr>]\<rparr>)"
proof -
  have "l_base_addr l + of_nat i \<in> A \<and> b_insn ((l_blocks l)[insn_sector cfg addr := \<lparr>b_valid = True, b_insn = w addr\<rparr>] ! i) = w (l_base_addr l + of_nat i)"
    if "l_valid l" "i < length (l_blocks l)"
      "b_valid ((l_blocks l)[insn_sector cfg addr := \<lparr>b_valid = True, b_insn = w addr\<rparr>] ! i)" for i
    using that assms(2-4) line_sector(1) [OF assms(1), of addr]
    by (cases "i = insn_sector cfg addr") (auto simp: coherent_line_def)
  then show ?thesis by (simp add: coherent_line_def)
qed

lemma set_ok_update:
  assumes "set_ok cfg cs" and "length (l_blocks l) = INSN_CACHE_BLOCKS_PER_LINE cfg" and "v < INSN_CACHE_ASSOCIATIVITY cfg"
  shows "set_ok cfg (cs\<lparr>s_lines := (s_lines cs)[v := l]\<rparr>)" and "set_ok cfg (cs\<lparr>s_lines := (s_lines cs)[v := l], mru_way := v\<rparr>)"
  using assms set_update_subset_insert [of "s_lines cs" v l] by (auto simp: set_ok_def)

lemma coherent_update:
  assumes "\<forall>l \<in> set ls. coherent_line A w l" and "coherent_line A w x"
  shows "\<forall>l \<in> set (ls[v := x]). coherent_line A w l"
  using assms set_update_subset_insert [of ls v x] by auto

lemma fill_block_ok:
  assumes "config_ok cfg" and "addr \<in> A" and "set_ok cfg cs" and "\<forall>l \<in> set (s_lines cs). coherent_line A w l"
    and "hit = None \<or> hit = search_ways (INSN_CACHE_ASSOCIATIVITY cfg) (mru_way cs) (line_base cfg addr) (s_lines cs)"
  shows "set_ok cfg (fill_block cfg addr (w addr) hit cs) \<and>
    (\<forall>l \<in> set (s_lines (fill_block cfg addr (w addr) hit cs)). coherent_line A w l)"
proof -
  define filled where "filled = (\<lambda>l :: insn_cache_line. l\<lparr>l_blocks := (l_blocks l)[insn_sector cfg addr := \<lparr>b_valid = True, b_insn = w addr\<rparr>]\<rparr>)"
  obtain v line where fb: "fill_block cfg addr (w addr) hit cs =
      (if INSN_CACHE_ASSOCIATIVITY cfg > 1 then cs\<lparr>s_lines := (s_lines cs)[v := filled line], mru_way := v\<rparr>
       else cs\<lparr>s_lines := (s_lines cs)[v := filled line]\<rparr>)"
    and v: "v < INSN_CACHE_ASSOCIATIVITY cfg"
    and line: "coherent_line A w line" "l_base_addr line = line_base cfg addr"
      "length (l_blocks line) = INSN_CACHE_BLOCKS_PER_LINE cfg"
  proof (cases hit)
    case None
    define v where "v = (if INSN_CACHE_ASSOCIATIVITY cfg > 1 then mru_way cs XOR 1 else 0)"
    have v: "v < INSN_CACHE_ASSOCIATIVITY cfg"
      by (cases rule: associativity_cases [OF assms(1)]) (use assms(3) in \<open>auto simp: v_def set_ok_def other_way_Suc\<close>)
    define line where "line = (s_lines cs ! v)\<lparr>l_valid := True, l_base_addr := line_base cfg addr,
                        l_blocks := map (b_valid_update (\<lambda>_. False)) (l_blocks (s_lines cs ! v))\<rparr>"
    show ?thesis
    proof (rule that [of v line])
      show "coherent_line A w line" by (simp add: line_def coherent_line_def)
      show "length (l_blocks line) = INSN_CACHE_BLOCKS_PER_LINE cfg" using assms(3) v by (simp add: line_def set_ok_def)
      show "v < INSN_CACHE_ASSOCIATIVITY cfg" by (rule v)
    qed (simp_all add: None fill_block_def Let_def filled_def line_def v_def)
  next
    case (Some v)
    then have s: "search_ways (INSN_CACHE_ASSOCIATIVITY cfg) (mru_way cs) (line_base cfg addr) (s_lines cs) = Some v"
      using assms(5) by simp
    have v: "v < INSN_CACHE_ASSOCIATIVITY cfg" by (rule search_ways_in_set [OF assms(1,3) s])
    show ?thesis
    proof (rule that [of v "s_lines cs ! v"])
      show "l_base_addr (s_lines cs ! v) = line_base cfg addr" using search_ways_hit [OF s] by simp
      show "coherent_line A w (s_lines cs ! v)" "length (l_blocks (s_lines cs ! v)) = INSN_CACHE_BLOCKS_PER_LINE cfg"
        using assms(3,4) v by (simp_all add: set_ok_def)
    qed (simp_all add: v Some fill_block_def Let_def filled_def)
  qed
  have "coherent_line A w (filled line)" unfolding filled_def by (rule coherent_line_fill [OF assms(1,2) line(1,2)])
  moreover have "length (l_blocks (filled line)) = INSN_CACHE_BLOCKS_PER_LINE cfg" by (simp add: filled_def line(3))
  ultimately show ?thesis
    using set_ok_update [OF assms(3) _ v] coherent_update [OF assms(4)] unfolding fb by simp
qed

lemma cache_update:
  assumes "cache_ok cfg cache" and "coherent_cache A w cache" and "set_ok cfg cs" and "\<forall>l \<in> set (s_lines cs). coherent_line A w l"
  shows "cache_ok cfg (cache[i := cs])" and "coherent_cache A w (cache[i := cs])"
  using assms set_update_subset_insert [of cache i cs] by (auto simp: cache_ok_def coherent_cache_def)

lemma cache_set:
  assumes "config_ok cfg" and "cache_ok cfg cache" and "coherent_cache A w cache"
  shows "set_ok cfg (cache ! insn_index cfg addr)" and "\<forall>l \<in> set (s_lines (cache ! insn_index cfg addr)). coherent_line A w l"
proof -
  have "insn_index cfg addr < length cache"
    using assms(1,2) by (simp add: insn_index_def cache_ok_def config_ok_def)
  then have "cache ! insn_index cfg addr \<in> set cache" by simp
  then show "set_ok cfg (cache ! insn_index cfg addr)"
    and "\<forall>l \<in> set (s_lines (cache ! insn_index cfg addr)). coherent_line A w l"
    using assms(2,3) by (auto simp: cache_ok_def coherent_cache_def)
qed

lemma cached_word:
  assumes "config_ok cfg" and "set_ok cfg cs" and "\<forall>l \<in> set (s_lines cs). coherent_line A w l"
    and "search_ways (INSN_CACHE_ASSOCIATIVITY cfg) (mru_way cs) (line_base cfg addr) (s_lines cs) = Some v"
    and "b_valid (l_blocks (s_lines cs ! v) ! insn_sector cfg addr)"
  shows "b_insn (l_blocks (s_lines cs ! v) ! insn_sector cfg addr) = w addr" and "set_ok cfg (cs\<lparr>mru_way := v\<rparr>)"
proof -
  have v: "v < INSN_CACHE_ASSOCIATIVITY cfg" by (rule search_ways_in_set [OF assms(1,2,4)])
  then have "coherent_line A w (s_lines cs ! v)" "length (l_blocks (s_lines cs ! v)) = INSN_CACHE_BLOCKS_PER_LINE cfg"
    using assms(2,3) by (simp_all add: set_ok_def)
  then show "b_insn (l_blocks (s_lines cs ! v) ! insn_sector cfg addr) = w addr"
    using search_ways_hit [OF assms(4)] line_sector [OF assms(1), of addr] assms(5) by (auto simp: coherent_line_def)
  show "set_ok cfg (cs\<lparr>mru_way := v\<rparr>)" using assms(2) v by (simp add: set_ok_def)
qed

lemma ResetST_CC_fields [simp]:
  "memory (ResetST_CC s) = memory s" "insn_cache (ResetST_CC s) = insn_cache s"
  by (simp_all add: ResetST_CC_def SetST_def SetReg_def)

lemma InvalidateInsnCache_memory [simp]: "memory (InvalidateInsnCache s) = memory s"
  by (simp add: InvalidateInsnCache_def)

context word_memory
begin

lemma IntLoad_word:
  assumes "mem_ok (memory s)" and "unat ea < 2 ^ 24"
  shows "\<exists>m'. IntLoad port ea s = (Inr (word_at (memory s) ea), s\<lparr>memory := m'\<rparr>) \<and> mem_ok m' \<and> word_at m' = word_at (memory s)"
  using read_word [OF assms] by (auto simp: IntLoad_def)

lemma IntStore_word:
  assumes "mem_ok (memory s)" and "unat ea < 2 ^ 24"
  shows "\<exists>m'. IntStore port ea v s = (Inr (), s\<lparr>memory := m'\<rparr>) \<and> mem_ok m' \<and>
    (\<forall>a. unat a < 2 ^ 24 \<longrightarrow> word_at m' a = (if a = ea then v else word_at (memory s) a))"
  using write_word [OF assms, of v] by (auto simp: IntStore_def)

text \<open>A store outside the code region keeps the cache coherent.\<close>

lemma IntStore_coherent:
  assumes "coherent_cache A (word_at m) cache" and "\<forall>a \<in> A. unat a < 2 ^ 24" and "ea \<notin> A"
    and "\<forall>a. unat a < 2 ^ 24 \<longrightarrow> word_at m' a = (if a = ea then v else word_at m a)"
  shows "coherent_cache A (word_at m') cache"
  using assms unfolding coherent_cache_def coherent_line_def by auto

text \<open>A fetch returns the word of the memory and keeps the cache coherent.\<close>

lemma Fetch_word:
  assumes "config_ok cfg" and "mem_ok (memory s)" and "unat addr < 2 ^ 24" and "addr \<in> A" and "cache_ok cfg (insn_cache s)"
    and "coherent_cache A (word_at (memory s)) (insn_cache s) \<or> ENABLE_INSN_CACHE cfg \<and> GetST_CC s"
  shows "\<exists>s'. Fetch cfg port addr s = (Inr (word_at (memory s) addr), s') \<and> mem_ok (memory s') \<and>
    word_at (memory s') = word_at (memory s) \<and> cache_ok cfg (insn_cache s') \<and>
    coherent_cache A (word_at (memory s)) (insn_cache s')"
proof -
  define w where "w = word_at (memory s)"
  define s1 where "s1 = (if ENABLE_INSN_CACHE cfg \<and> GetST_CC s then ResetST_CC (InvalidateInsnCache s) else s)"
  define en where "en = (ENABLE_INSN_CACHE cfg \<and> GetST_CE s1)"
  define s2 where "s2 = (if en then s1\<lparr>insn_cache_accesses := insn_cache_accesses s1 + 1\<rparr> else s1)"
  have "0 < INSN_CACHE_ASSOCIATIVITY cfg" using assms(1) by (simp add: config_ok_def INSN_CACHE_ASSOCIATIVITY_def)
  then have ok: "cache_ok cfg (insn_cache s2)" "coherent_cache A w (insn_cache s2)" "memory s2 = memory s"
    using assms(5,6) invalidated_cache by (auto simp: s2_def s1_def w_def)
  define cs where "cs = insn_cache s2 ! insn_index cfg addr"
  have cs: "set_ok cfg cs" "\<forall>l \<in> set (s_lines cs). coherent_line A w l"
    unfolding cs_def by (rule cache_set [OF assms(1) ok(1,2)])+
  define found where "found = search_ways (INSN_CACHE_ASSOCIATIVITY cfg) (mru_way cs) (line_base cfg addr) (s_lines cs)"
  define hit where "hit = (if en then found else None)"
  define cached where "cached = (case hit of None \<Rightarrow> None
                    | Some v \<Rightarrow> (let b = l_blocks (s_lines cs ! v) ! insn_sector cfg addr
                                in if b_valid b then Some (v, b_insn b) else None))"
  note fetch = Fetch_def [of cfg port addr s, folded s1_def, unfolded Let_def, folded en_def, folded s2_def,
      folded cs_def, folded found_def, folded hit_def, folded cached_def [unfolded Let_def]]
  show ?thesis
  proof (cases cached)
    case (Some p)
    then obtain v insn where p: "cached = Some (v, insn)" by (cases p) simp
    then have v: "found = Some v" "b_valid (l_blocks (s_lines cs ! v) ! insn_sector cfg addr)"
      "insn = b_insn (l_blocks (s_lines cs ! v) ! insn_sector cfg addr)"
      by (auto simp: cached_def hit_def Let_def split: option.splits if_splits)
    note word = cached_word [OF assms(1) cs v(1) [unfolded found_def] v(2)]
    have "insn = w addr" using word(1) v(3) by simp
    moreover have "cache_ok cfg ((insn_cache s2)[insn_index cfg addr := cs\<lparr>mru_way := v\<rparr>])"
      "coherent_cache A w ((insn_cache s2)[insn_index cfg addr := cs\<lparr>mru_way := v\<rparr>])"
      using cache_update [OF ok(1,2) word(2)] cs(2) by simp_all
    ultimately show ?thesis using ok assms(2) unfolding fetch p by (simp add: w_def)
  next
    case None
    obtain bs m' where read: "PrRead port (4 * addr) 4 (memory s) = (Some bs, m')" "of_le_bytes32 bs = w addr"
      "mem_ok m'" "word_at m' = w"
      using read_word [OF assms(2,3)] unfolding w_def by blast
    have "hit = None \<or> hit = found" by (simp add: hit_def)
    from fill_block_ok [OF assms(1,4) cs this [unfolded found_def]]
    have "cache_ok cfg ((insn_cache s2)[insn_index cfg addr := fill_block cfg addr (w addr) hit cs])"
      "coherent_cache A w ((insn_cache s2)[insn_index cfg addr := fill_block cfg addr (w addr) hit cs])"
      using cache_update [OF ok(1,2)] by simp_all
    then show ?thesis using ok read unfolding fetch None by (simp add: w_def)
  qed
qed

end

section \<open>The memory of pages at the port\<close>

text \<open>
  \<open>PrRead\<close> and \<open>PrWrite\<close> of the base class hand the access to the memory. The memory starts at 0 and has
  at least the \<open>2 ^ 26\<close> bytes of the 24-bit word addresses; no access to it fails to return then.
\<close>

definition ram_port :: "nat \<Rightarrow> 32 ram mem_port" where
  "ram_port ps = \<lparr>
     PrRead = (\<lambda>a sz m. case ram_ReadMemory ps a sz m of Some r \<Rightarrow> r | None \<Rightarrow> (None, m)),
     PrWrite = (\<lambda>a bs m. case ram_WriteMemory ps a bs m of Some r \<Rightarrow> r | None \<Rightarrow> (False, m))\<rparr>"

definition c3x_ram_ok :: "nat \<Rightarrow> 32 ram \<Rightarrow> bool" where
  "c3x_ram_ok ps m \<longleftrightarrow> page_size_ok TYPE(32) ps \<and> ram_inv ps m \<and> lo_addr m = 0 \<and> 2 ^ 26 \<le> unat (hi_addr m) + 1"

definition ram_word :: "nat \<Rightarrow> 32 ram \<Rightarrow> u32 \<Rightarrow> u32" where
  "ram_word ps m ea = of_le_bytes32 (seg_read (ram_mem ps m) (4 * ea) 4)"

lemma byte_address: "unat (ea :: u32) < 2 ^ 24 \<Longrightarrow> unat (4 * ea) = 4 * unat ea"
  by (simp add: unat_word_ariths)

lemma ram_word_update:
  assumes "unat ea < 2 ^ 24" and "unat a < 2 ^ 24"
    and "ram_mem ps m' = seg_upd (ram_mem ps m) (4 * ea) (le_bytes32 v)"
  shows "ram_word ps m' a = (if a = ea then v else ram_word ps m a)"
proof -
  have l: "length (le_bytes32 v) = 4" by simp
  have fit: "unat (4 * a) + 4 \<le> 2 ^ LENGTH(32)" using assms(2) by (simp add: byte_address)
  show ?thesis
  proof (cases "a = ea")
    case True
    have "unat (4 * ea + of_nat i) = unat (4 * ea) + i" if "i < 4" for i
      using unat_seg_add [OF fit [unfolded True] that] .
    then have "seg_read (ram_mem ps m') (4 * ea) 4 = le_bytes32 v"
      unfolding assms(3) seg_read_def seg_upd_def in_seg_def by (intro nth_equalityI) simp_all
    then show ?thesis by (simp add: ram_word_def True)
  next
    case False
    then have "unat a \<noteq> unat ea" by (simp only: word_unat_eq_iff not_False_eq_True)
    then have "seg_read (ram_mem ps m') (4 * a) 4 = seg_read (ram_mem ps m) (4 * a) 4"
      unfolding assms(3) using assms(1,2)
      by (intro seg_read_cong [OF fit]) (auto simp: seg_upd_def in_seg_def byte_address)
    then show ?thesis using False by (simp add: ram_word_def)
  qed
qed

interpretation c3x_ram: word_memory "ram_port ps" "c3x_ram_ok ps" "ram_word ps" for ps
proof
  fix m and ea v :: u32
  assume m: "c3x_ram_ok ps m" and ea: "unat ea < 2 ^ 24"
  have b: "0 < unat (4 :: u32)" "lo_addr m \<le> 4 * ea" "unat (4 * ea) + 4 \<le> unat (hi_addr m) + 1" "unat (4 * ea) + 4 < 2 ^ LENGTH(32)"
    using m ea by (simp_all add: c3x_ram_ok_def byte_address)
  note r = m [unfolded c3x_ram_ok_def]
  obtain m' where "ram_ReadMemory ps (4 * ea) 4 m = Some (Some (seg_read (ram_mem ps m) (4 * ea) 4), m')"
    "ram_inv ps m'" "ram_mem ps m' = ram_mem ps m" "lo_addr m' = lo_addr m" "hi_addr m' = hi_addr m"
    using ram_read_returns [of ps m 4 "4 * ea"] r b by auto
  then show "\<exists>bs m'. PrRead (ram_port ps) (4 * ea) 4 m = (Some bs, m') \<and> of_le_bytes32 bs = ram_word ps m ea \<and>
      c3x_ram_ok ps m' \<and> ram_word ps m' = ram_word ps m"
    using r by (auto simp: ram_port_def c3x_ram_ok_def ram_word_def)
  have l: "length (le_bytes32 v) = 4" by simp
  then have "le_bytes32 v \<noteq> []" by (metis list.size(3) zero_neq_numeral)
  then obtain n' where "ram_WriteMemory ps (4 * ea) (le_bytes32 v) m = Some (True, n')"
    "ram_inv ps n'" "ram_mem ps n' = seg_upd (ram_mem ps m) (4 * ea) (le_bytes32 v)" "lo_addr n' = lo_addr m" "hi_addr n' = hi_addr m"
    using ram_WriteMemory_spec [of ps m "le_bytes32 v" "4 * ea"] r b by auto
  then show "\<exists>m'. PrWrite (ram_port ps) (4 * ea) (le_bytes32 v) m = (True, m') \<and> c3x_ram_ok ps m' \<and>
      (\<forall>a. unat a < 2 ^ 24 \<longrightarrow> ram_word ps m' a = (if a = ea then v else ram_word ps m a))"
    using r ram_word_update [OF ea] by (simp add: ram_port_def c3x_ram_ok_def)
qed

text \<open>
  C4: with an instruction cache coherent on a code region, or with the cache clear bit set, a fetch never fails: it returns the
  instruction word of the memory, changes no word of it, and leaves a coherent cache behind.
\<close>

theorem fetch_returns_memory:
  assumes "config_ok cfg" and "c3x_ram_ok ps (memory s)" and "unat addr < 2 ^ 24" and "addr \<in> A" and "cache_ok cfg (insn_cache s)"
    and "coherent_cache A (ram_word ps (memory s)) (insn_cache s) \<or> ENABLE_INSN_CACHE cfg \<and> GetST_CC s"
  shows "\<exists>s'. Fetch cfg (ram_port ps) addr s = (Inr (ram_word ps (memory s) addr), s') \<and> c3x_ram_ok ps (memory s') \<and>
    ram_word ps (memory s') = ram_word ps (memory s) \<and> cache_ok cfg (insn_cache s') \<and>
    coherent_cache A (ram_word ps (memory s)) (insn_cache s')"
  using assms by (rule c3x_ram.Fetch_word)

text \<open>A processor with the cache of the TMS320VC33 and a memory of 32-bit addresses filled with one byte.\<close>

definition c3x_example :: "u8 \<Rightarrow> 32 ram c3x_cpu" where
  "c3x_example b = c3x_Reset (init_CPU [\<lparr>mru_way = 0, s_lines = replicate 2 \<lparr>l_valid = False, l_base_addr = 0,
     l_blocks = replicate 32 \<lparr>b_valid = False, b_insn = 0\<rparr>\<rparr>\<rparr>] (ram_BeginSetup (ram_init 0 0xffffffff b)))"

lemma vc33_config: "config_ok TMS320VC33_Config"
  unfolding config_ok_def
  by (intro conjI exI [of _ 5]) (simp_all add: TMS320VC33_Config_def NUM_INSN_CACHE_SETS_def INSN_CACHE_ASSOCIATIVITY_def)

lemma c3x_example_ok:
  "c3x_ram_ok 4096 (memory (c3x_example b))" "cache_ok TMS320VC33_Config (insn_cache (c3x_example b))"
  "coherent_cache A w (insn_cache (c3x_example b))" "ram_mem 4096 (memory (c3x_example b)) a = b"
proof -
  have "page_size_ok TYPE(32) 4096" unfolding page_size_ok_def by (rule exI [of _ 12]) simp
  moreover have "memory (c3x_example b) = ram_BeginSetup (ram_init 0 0xffffffff b)"
    by (simp add: c3x_example_def c3x_Reset_def init_CPU_def)
  moreover have "lo_addr (ram_BeginSetup (ram_init 0 0xffffffff b :: 32 ram)) = 0"
    "hi_addr (ram_BeginSetup (ram_init 0 0xffffffff b :: 32 ram)) = 0xfffffffe"
    by (simp_all add: ram_BeginSetup_def ram_ResetMemory_def ram_init_def)
  ultimately show "c3x_ram_ok 4096 (memory (c3x_example b))" "ram_mem 4096 (memory (c3x_example b)) a = b"
    by (simp_all add: c3x_ram_ok_def ram_mem_def ram_BeginSetup_inv)
qed (simp_all add: c3x_example_def c3x_Reset_def init_CPU_def cache_ok_def set_ok_def coherent_cache_def coherent_line_def
    TMS320VC33_Config_def NUM_INSN_CACHE_SETS_def INSN_CACHE_ASSOCIATIVITY_def)

lemma c3x_example_word: "ram_word 4096 (memory (c3x_example b)) ea = of_le_bytes32 [b, b, b, b]"
proof -
  have "[0..<4] = [0, 1, 2, 3 :: nat]" by (simp add: upt_rec)
  then have "seg_read (ram_mem 4096 (memory (c3x_example b))) (4 * ea) 4 = [b, b, b, b]"
    by (simp add: seg_read_def c3x_example_ok(4))
  then show ?thesis by (simp add: ram_word_def)
qed

theorem fetch_returns_memory_witness:
  "\<exists>s'. Fetch TMS320VC33_Config (ram_port 4096) 0x1000 (c3x_example 0x21) = (Inr 0x21212121, s')"
proof -
  have "ram_word 4096 (memory (c3x_example 0x21)) 0x1000 = 0x21212121"
    unfolding c3x_example_word by code_simp
  then show ?thesis
    using fetch_returns_memory [of TMS320VC33_Config 4096 "c3x_example 0x21" "0x1000" UNIV] vc33_config c3x_example_ok
    by auto
qed

end
