(* ===== verification/C3X_Control.thy ===== *)
theory C3X_Control
  imports C3X_Memory
begin

text \<open>
  The program control and power instructions of the TMS320C3X (\<open>isa/control.isa\<close>, \<open>isa/power.isa\<close>) and the
  execution of one step (\<open>StepInstruction\<close> of \<open>cpu.tcc\<close>). The instructions of the other files are the
  parameter \<open>other_insn\<close>, which also stands for encodings that are not decoded.
\<close>

section \<open>What the processor is connected to\<close>

datatype ti_c_io_status = TI_ERROR | TI_OK | TI_EXIT

record 'm c3x_env =
  env_config :: c3x_config
  env_port :: "'m mem_port"
  ti_c_io :: "(('m c3x_cpu \<Rightarrow> 'm c3x_cpu) \<times> ('m c3x_cpu \<Rightarrow> ti_c_io_status \<times> 'm c3x_cpu)) option"
  debugger_trap :: "u32 \<Rightarrow> bool"
  other_insn :: "u32 \<Rightarrow> (unit, 'm) action"

text \<open>After \<open>EXIT\<close> the switch falls through to \<open>OK\<close>.\<close>

definition c3x_SWI :: "'m c3x_env \<Rightarrow> 'm c3x_cpu \<Rightarrow> bool \<times> 'm c3x_cpu" where
  "c3x_SWI env s = (case ti_c_io env of
     None \<Rightarrow> (False, s)
   | Some (_, handle) \<Rightarrow>
       if \<not> mimic_dev_board s then (False, s)
       else case handle s of
         (TI_ERROR, s) \<Rightarrow> (False, s)
       | (TI_EXIT, s) \<Rightarrow> (True, s\<lparr>stopped := Some 0\<rparr>)
       | (TI_OK, s) \<Rightarrow> (True, s))"

section \<open>Instructions\<close>

datatype c3x_control =
    Bcond_reg nat nat | Bcond_disp nat u32 | BcondD_reg nat nat | BcondD_disp nat u32
  | BR u32 | BRD u32 | CALL u32 | CALLcond_reg nat nat | CALLcond_disp nat u32
  | DBcond_reg nat nat nat | DBcond_disp nat nat u32 | DBcondD_reg nat nat nat | DBcondD_disp nat nat u32
  | IACK_dir u32 | IACK_indir nat nat u32 | IDLE | NOP_reg nat | NOP_indir nat nat u32
  | RETIcond nat | RETScond nat | RPTB u32 | RPTS_reg nat | RPTS_dir u32 | RPTS_indir nat nat u32 | RPTS_imm u32
  | SWI | TRAPcond nat u32 | IDLE2 | LOPOWER | MAXSPEED

definition field :: "nat \<Rightarrow> nat \<Rightarrow> u32 \<Rightarrow> nat" where
  "field lo n w = unat (drop_bit lo w AND mask n)"

definition wfield :: "nat \<Rightarrow> nat \<Rightarrow> u32 \<Rightarrow> u32" where
  "wfield lo n w = drop_bit lo w AND mask n"

definition sext16 :: "u32 \<Rightarrow> u32" where
  "sext16 w = scast (ucast w :: 16 word)"

definition decode_control :: "u32 \<Rightarrow> c3x_control option" where
  "decode_control w =
     (let cond = field 16 5 w; rg = field 0 5 w; ar = field 22 3 w; reg_form = (wfield 5 11 w = 0);
          disp = sext16 w; src = wfield 0 24 w; md = field 11 5 w; ar_num = field 8 3 w; d8 = wfield 0 8 w
      in if wfield 26 6 w = 0b011010 \<and> wfield 22 3 w = 0 then
           (if wfield 25 1 w = 0 then
              (if \<not> reg_form then None
               else if wfield 21 1 w = 0 then Some (Bcond_reg cond rg) else Some (BcondD_reg cond rg))
            else if wfield 21 1 w = 0 then Some (Bcond_disp cond disp) else Some (BcondD_disp cond disp))
         else if wfield 25 7 w = 0b0110000 then Some (if wfield 24 1 w = 0 then BR src else BRD src)
         else if wfield 24 8 w = 0b01100010 then Some (CALL src)
         else if wfield 26 6 w = 0b011100 \<and> wfield 21 4 w = 0 then
           (if wfield 25 1 w = 1 then Some (CALLcond_disp cond disp)
            else if reg_form then Some (CALLcond_reg cond rg) else None)
         else if wfield 26 6 w = 0b011011 then
           (if wfield 25 1 w = 0 then
              (if \<not> reg_form then None
               else if wfield 21 1 w = 0 then Some (DBcond_reg ar cond rg) else Some (DBcondD_reg ar cond rg))
            else if wfield 21 1 w = 0 then Some (DBcond_disp ar cond disp) else Some (DBcondD_disp ar cond disp))
         else if wfield 16 16 w = 0b0001101100100000 then Some (IACK_dir (wfield 0 16 w))
         else if wfield 16 16 w = 0b0001101101000000 then Some (IACK_indir md ar_num d8)
         else if wfield 23 9 w = 0b000001100 \<and> wfield 0 23 w = 0 then Some IDLE
         else if wfield 23 9 w = 0b000001100 \<and> wfield 0 23 w = 1 then Some IDLE2
         else if wfield 16 16 w = 0b0000110010000000 \<and> reg_form then Some (NOP_reg rg)
         else if wfield 16 16 w = 0b0000110011000000 then Some (NOP_indir md ar_num d8)
         else if wfield 21 11 w = 0b01111000000 \<and> wfield 0 16 w = 0 then Some (RETIcond cond)
         else if wfield 21 11 w = 0b01111000100 \<and> wfield 0 16 w = 0 then Some (RETScond cond)
         else if wfield 24 8 w = 0b01100100 then Some (RPTB src)
         else if wfield 16 16 w = 0b0001001110011011 \<and> reg_form then Some (RPTS_reg rg)
         else if wfield 16 16 w = 0b0001001110111011 then Some (RPTS_dir (wfield 0 16 w))
         else if wfield 16 16 w = 0b0001001111011011 then Some (RPTS_indir md ar_num d8)
         else if wfield 16 16 w = 0b0001001111111011 then Some (RPTS_imm (wfield 0 16 w))
         else if wfield 21 11 w = 0b01100110000 \<and> wfield 0 21 w = 0 then Some SWI
         else if wfield 21 11 w = 0b01110100000 \<and> wfield 5 11 w = 1 then Some (TRAPcond cond (wfield 0 5 w))
         else if wfield 23 9 w = 0b000100001 \<and> wfield 0 23 w = 1 then Some LOPOWER
         else if wfield 23 9 w = 0b000100001 \<and> wfield 0 23 w = 0 then Some MAXSPEED
         else None)"

section \<open>Execution\<close>

text \<open>
  Where an instruction may not stand: while a branch is pending, at the end of a block to repeat, and for
  delayed branches in the last four instructions of the block.
\<close>

definition misplaced :: "'m c3x_cpu \<Rightarrow> bool" where
  "misplaced s = (HasPendingBranch s \<or> (GetST_RM s \<and> GetRE s = GetPC s))"

definition misplaced_delayed :: "'m c3x_cpu \<Rightarrow> bool" where
  "misplaced_delayed s = (HasPendingBranch s \<or> (GetST_RM s \<and> GetRE s - 3 \<le> GetPC s \<and> GetPC s \<le> GetRE s))"

definition Bcond_reg_execute :: "nat \<Rightarrow> nat \<Rightarrow> (unit, 'm) action" where
  "Bcond_reg_execute cond rg s =
     (if \<not> HasReg rg \<or> \<not> HasCondition cond then (Inl BogusOpcode, s)
      else if misplaced s then (Inl MisplacedOpcode, s)
      else if \<not> CheckCondition cond s then (Inr (), s)
      else (Inr (), Branch (GetReg rg s) 0 s))"

definition Bcond_disp_execute :: "nat \<Rightarrow> u32 \<Rightarrow> (unit, 'm) action" where
  "Bcond_disp_execute cond disp s =
     (if \<not> HasCondition cond then (Inl BogusOpcode, s)
      else if misplaced s then (Inl MisplacedOpcode, s)
      else if \<not> CheckCondition cond s then (Inr (), s)
      else (Inr (), Branch (GetNPC s + disp) 0 s))"

definition BcondD_reg_execute :: "nat \<Rightarrow> nat \<Rightarrow> (unit, 'm) action" where
  "BcondD_reg_execute cond rg s =
     (if \<not> HasReg rg \<or> \<not> HasCondition cond then (Inl BogusOpcode, s)
      else if misplaced_delayed s then (Inl MisplacedOpcode, s)
      else if \<not> CheckCondition cond s then (Inr (), s)
      else (Inr (), Branch (GetReg rg s) 3 s))"

definition BcondD_disp_execute :: "nat \<Rightarrow> u32 \<Rightarrow> (unit, 'm) action" where
  "BcondD_disp_execute cond disp s =
     (if \<not> HasCondition cond then (Inl BogusOpcode, s)
      else if misplaced_delayed s then (Inl MisplacedOpcode, s)
      else if \<not> CheckCondition cond s then (Inr (), s)
      else (Inr (), Branch (GetNPC s + disp + 2) 3 s))"

definition BR_execute :: "u32 \<Rightarrow> (unit, 'm) action" where
  "BR_execute src s = (if misplaced s then (Inl MisplacedOpcode, s) else (Inr (), Branch src 0 s))"

definition BRD_execute :: "u32 \<Rightarrow> (unit, 'm) action" where
  "BRD_execute src s = (if misplaced_delayed s then (Inl MisplacedOpcode, s) else (Inr (), Branch src 3 s))"

text \<open>A call stores the address of the next instruction at the word above the stack pointer.\<close>

definition CALL_execute :: "'m mem_port \<Rightarrow> u32 \<Rightarrow> (unit, 'm) action" where
  "CALL_execute port src s =
     (if misplaced s then (Inl MisplacedOpcode, s)
      else let sp = GetSP s + 1; next_pc = GetNPC s
           in act_bind (IntStore port (sp AND ADDRESS_MASK) next_pc s) (\<lambda>_ s. (Inr (), Branch src 0 (SetSP sp s))))"

definition CALLcond_reg_execute :: "'m mem_port \<Rightarrow> nat \<Rightarrow> nat \<Rightarrow> (unit, 'm) action" where
  "CALLcond_reg_execute port cond rg s =
     (if \<not> HasReg rg \<or> \<not> HasCondition cond then (Inl BogusOpcode, s)
      else if misplaced s then (Inl MisplacedOpcode, s)
      else if \<not> CheckCondition cond s then (Inr (), s)
      else let target = GetReg rg s; sp = GetSP s + 1; next_pc = GetNPC s
           in act_bind (IntStore port (sp AND ADDRESS_MASK) next_pc s) (\<lambda>_ s. (Inr (), Branch target 0 (SetSP sp s))))"

definition CALLcond_disp_execute :: "'m mem_port \<Rightarrow> nat \<Rightarrow> u32 \<Rightarrow> (unit, 'm) action" where
  "CALLcond_disp_execute port cond disp s =
     (if \<not> HasCondition cond then (Inl BogusOpcode, s)
      else if misplaced s then (Inl MisplacedOpcode, s)
      else if \<not> CheckCondition cond s then (Inr (), s)
      else let sp = GetSP s + 1; next_pc = GetNPC s; target = next_pc + disp
           in act_bind (IntStore port (sp AND ADDRESS_MASK) next_pc s) (\<lambda>_ s. (Inr (), Branch target 0 (SetSP sp s))))"

text \<open>The decremented auxiliary register as a number of 24 bits, extended to 32.\<close>

definition decremented_ar :: "nat \<Rightarrow> 'm c3x_cpu \<Rightarrow> u32" where
  "decremented_ar ar s = SignExtend32 (GetAR23_0 ar s) 24 - 1"

definition DBcond_reg_execute :: "nat \<Rightarrow> nat \<Rightarrow> nat \<Rightarrow> (unit, 'm) action" where
  "DBcond_reg_execute ar cond rg s =
     (if \<not> HasReg rg \<or> \<not> HasCondition cond then (Inl BogusOpcode, s)
      else if misplaced s then (Inl MisplacedOpcode, s)
      else if \<not> CheckCondition cond s then (Inr (), s)
      else let v = decremented_ar ar s; s = SetAR23_0 ar v s
           in if sint v < 0 then (Inr (), s) else (Inr (), Branch (GetReg rg s) 0 s))"

definition DBcond_disp_execute :: "nat \<Rightarrow> nat \<Rightarrow> u32 \<Rightarrow> (unit, 'm) action" where
  "DBcond_disp_execute ar cond disp s =
     (if \<not> HasCondition cond then (Inl BogusOpcode, s)
      else if misplaced s then (Inl MisplacedOpcode, s)
      else if \<not> CheckCondition cond s then (Inr (), s)
      else let v = decremented_ar ar s; s = SetAR23_0 ar v s
           in if sint v < 0 then (Inr (), s) else (Inr (), Branch (GetNPC s + disp) 0 s))"

definition DBcondD_reg_execute :: "nat \<Rightarrow> nat \<Rightarrow> nat \<Rightarrow> (unit, 'm) action" where
  "DBcondD_reg_execute ar cond rg s =
     (if \<not> HasReg rg \<or> \<not> HasCondition cond then (Inl BogusOpcode, s)
      else if misplaced_delayed s then (Inl MisplacedOpcode, s)
      else if \<not> CheckCondition cond s then (Inr (), s)
      else let v = decremented_ar ar s; s = SetAR23_0 ar v s
           in if sint v < 0 then (Inr (), s) else (Inr (), Branch (GetReg rg s) 3 s))"

definition DBcondD_disp_execute :: "nat \<Rightarrow> nat \<Rightarrow> u32 \<Rightarrow> (unit, 'm) action" where
  "DBcondD_disp_execute ar cond disp s =
     (if \<not> HasCondition cond then (Inl BogusOpcode, s)
      else if misplaced_delayed s then (Inl MisplacedOpcode, s)
      else if \<not> CheckCondition cond s then (Inr (), s)
      else let v = decremented_ar ar s; s = SetAR23_0 ar v s
           in if sint v < 0 then (Inr (), s) else (Inr (), Branch (GetNPC s + disp + 2) 3 s))"

definition IDLE_execute :: "(unit, 'm) action" where
  "IDLE_execute s = (if misplaced s then (Inl MisplacedOpcode, s) else (Inr (), Idle 1 (SetST_GIE s)))"

definition IDLE2_execute :: "(unit, 'm) action" where
  "IDLE2_execute s = (if HasPendingBranch s then (Inl MisplacedOpcode, s) else (Inr (), Idle 2 (SetST_GIE s)))"

text \<open>The effective address is loaded and the update of the auxiliary register dropped.\<close>

definition NOP_indir_execute :: "'m mem_port \<Rightarrow> nat \<Rightarrow> nat \<Rightarrow> u32 \<Rightarrow> (unit, 'm) action" where
  "NOP_indir_execute port md ar disp s =
     (case ComputeIndirEA md ar disp s of
        None \<Rightarrow> (Inl BogusOpcode, s)
      | Some (ea, _) \<Rightarrow> act_bind (IntLoad port ea s) (\<lambda>_ s. (Inr (), s)))"

definition RETIcond_execute :: "'m mem_port \<Rightarrow> nat \<Rightarrow> (unit, 'm) action" where
  "RETIcond_execute port cond s =
     (if \<not> HasCondition cond then (Inl BogusOpcode, s)
      else if misplaced s then (Inl MisplacedOpcode, s)
      else if \<not> CheckCondition cond s then (Inr (), s)
      else let sp = GetSP s
           in act_bind (IntLoad port (sp AND ADDRESS_MASK) s)
                (\<lambda>target s. (Inr (), Branch target 0 (SetST_GIE (SetSP (sp - 1) s)))))"

definition RETScond_execute :: "'m mem_port \<Rightarrow> nat \<Rightarrow> (unit, 'm) action" where
  "RETScond_execute port cond s =
     (if \<not> HasCondition cond then (Inl BogusOpcode, s)
      else if misplaced s then (Inl MisplacedOpcode, s)
      else if \<not> CheckCondition cond s then (Inr (), s)
      else let sp = GetSP s
           in act_bind (IntLoad port (sp AND ADDRESS_MASK) s)
                (\<lambda>target s. (Inr (), Branch target 0 (SetSP (sp - 1) s))))"

definition RPTB_execute :: "u32 \<Rightarrow> (unit, 'm) action" where
  "RPTB_execute src s =
     (if misplaced s then (Inl MisplacedOpcode, s)
      else (Inr (), SetRE src (ResetS (SetST_RM (SetRS (GetNPC s) s)))))"

definition repeat_setup :: "u32 \<Rightarrow> 'm c3x_cpu \<Rightarrow> 'm c3x_cpu" where
  "repeat_setup v s = SetRC v (SetS (SetST_RM (SetRE (GetNPC s) (SetRS (GetNPC s) s))))"

definition RPTS_reg_execute :: "nat \<Rightarrow> (unit, 'm) action" where
  "RPTS_reg_execute src s =
     (if \<not> HasReg src then (Inl BogusOpcode, s)
      else if misplaced s then (Inl MisplacedOpcode, s)
      else (Inr (), repeat_setup (GetReg src s) s))"

definition RPTS_dir_execute :: "'m mem_port \<Rightarrow> u32 \<Rightarrow> (unit, 'm) action" where
  "RPTS_dir_execute port direct s =
     (if misplaced s then (Inl MisplacedOpcode, s)
      else act_bind (IntLoad port (ComputeDirEA direct s) s) (\<lambda>v s. (Inr (), repeat_setup v s)))"

definition RPTS_indir_execute :: "'m mem_port \<Rightarrow> nat \<Rightarrow> nat \<Rightarrow> u32 \<Rightarrow> (unit, 'm) action" where
  "RPTS_indir_execute port md ar disp s =
     (case ComputeIndirEA md ar disp s of
        None \<Rightarrow> (Inl BogusOpcode, s)
      | Some (ea, _) \<Rightarrow>
          if misplaced s then (Inl MisplacedOpcode, s)
          else act_bind (IntLoad port ea s) (\<lambda>v s. (Inr (), repeat_setup v s)))"

definition RPTS_imm_execute :: "u32 \<Rightarrow> (unit, 'm) action" where
  "RPTS_imm_execute imm s =
     (if misplaced s then (Inl MisplacedOpcode, s) else (Inr (), repeat_setup imm s))"

definition SWI_execute :: "'m c3x_env \<Rightarrow> (unit, 'm) action" where
  "SWI_execute env s = (case c3x_SWI env s of (True, s) \<Rightarrow> (Inr (), s) | (False, s) \<Rightarrow> (Inl UnimplementedOpcode, s))"

definition TRAPcond_execute :: "'m c3x_env \<Rightarrow> u32 \<Rightarrow> nat \<Rightarrow> u32 \<Rightarrow> (unit, 'm) action" where
  "TRAPcond_execute env encoding cond n s =
     (if \<not> HasCondition cond then (Inl BogusOpcode, s)
      else if misplaced s then (Inl MisplacedOpcode, s)
      else if debugger_trap env encoding then (Inr (), SetNPC (GetPC s) s)
      else if \<not> CheckCondition cond s then (Inr (), s)
      else let sp = GetSP s + 1; next_pc = GetNPC s
           in act_bind (IntStore (env_port env) (sp AND ADDRESS_MASK) next_pc s) (\<lambda>_ s.
              act_bind (IntLoad (env_port env) (0x20 + n) (SetSP sp s)) (\<lambda>handler s.
              (Inr (), Branch handler 0 (ResetST_GIE s)))))"

fun execute_control :: "'m c3x_env \<Rightarrow> u32 \<Rightarrow> c3x_control \<Rightarrow> (unit, 'm) action" where
  "execute_control env w (Bcond_reg c r) s = Bcond_reg_execute c r s"
| "execute_control env w (Bcond_disp c d) s = Bcond_disp_execute c d s"
| "execute_control env w (BcondD_reg c r) s = BcondD_reg_execute c r s"
| "execute_control env w (BcondD_disp c d) s = BcondD_disp_execute c d s"
| "execute_control env w (BR src) s = BR_execute src s"
| "execute_control env w (BRD src) s = BRD_execute src s"
| "execute_control env w (CALL src) s = CALL_execute (env_port env) src s"
| "execute_control env w (CALLcond_reg c r) s = CALLcond_reg_execute (env_port env) c r s"
| "execute_control env w (CALLcond_disp c d) s = CALLcond_disp_execute (env_port env) c d s"
| "execute_control env w (DBcond_reg a c r) s = DBcond_reg_execute a c r s"
| "execute_control env w (DBcond_disp a c d) s = DBcond_disp_execute a c d s"
| "execute_control env w (DBcondD_reg a c r) s = DBcondD_reg_execute a c r s"
| "execute_control env w (DBcondD_disp a c d) s = DBcondD_disp_execute a c d s"
| "execute_control env w (IACK_dir d) s = (Inl UnimplementedOpcode, s)"
| "execute_control env w (IACK_indir m a d) s = (Inl UnimplementedOpcode, s)"
| "execute_control env w IDLE s = IDLE_execute s"
| "execute_control env w (NOP_reg r) s = (Inr (), s)"
| "execute_control env w (NOP_indir m a d) s = NOP_indir_execute (env_port env) m a d s"
| "execute_control env w (RETIcond c) s = RETIcond_execute (env_port env) c s"
| "execute_control env w (RETScond c) s = RETScond_execute (env_port env) c s"
| "execute_control env w (RPTB src) s = RPTB_execute src s"
| "execute_control env w (RPTS_reg r) s = RPTS_reg_execute r s"
| "execute_control env w (RPTS_dir d) s = RPTS_dir_execute (env_port env) d s"
| "execute_control env w (RPTS_indir m a d) s = RPTS_indir_execute (env_port env) m a d s"
| "execute_control env w (RPTS_imm i) s = RPTS_imm_execute i s"
| "execute_control env w SWI s = SWI_execute env s"
| "execute_control env w (TRAPcond c n) s = TRAPcond_execute env w c n s"
| "execute_control env w IDLE2 s = IDLE2_execute s"
| "execute_control env w LOPOWER s = (Inr (), s)"
| "execute_control env w MAXSPEED s = (Inr (), s)"

definition execute_insn :: "'m c3x_env \<Rightarrow> u32 \<Rightarrow> (unit, 'm) action" where
  "execute_insn env w s =
     (case decode_control w of Some i \<Rightarrow> execute_control env w i s | None \<Rightarrow> other_insn env w s)"

section \<open>One step\<close>

text \<open>Every path of a step fetches at the program counter; the value is whether to go on and execute.\<close>

definition fetch_IR :: "'m c3x_env \<Rightarrow> (unit, 'm) action" where
  "fetch_IR env s = act_bind (Fetch (env_config env) (env_port env) (GetPC23_0 s) s) (\<lambda>w s. (Inr (), SetIR w s))"

definition step_reset :: "'m c3x_env \<Rightarrow> (bool, 'm) action" where
  "step_reset env s =
     (let s = InvalidateInsnCache s
      in case ti_c_io env of
           Some (io_reset, _) \<Rightarrow>
             if mimic_dev_board s
             then act_bind (fetch_IR env (io_reset s)) (\<lambda>_ s. (Inr True, (SetNPC (GetPC s + 1) s)\<lparr>reset := False\<rparr>))
             else act_bind (IntLoad (env_port env) 0 s) (\<lambda>handler s.
                  act_bind (fetch_IR env (SetPC handler s)) (\<lambda>_ s. (Inr True, (SetNPC (GetPC s + 1) s)\<lparr>reset := False\<rparr>)))
         | None \<Rightarrow>
             act_bind (IntLoad (env_port env) 0 s) (\<lambda>handler s.
             act_bind (fetch_IR env (SetPC handler s)) (\<lambda>_ s. (Inr True, (SetNPC (GetPC s + 1) s)\<lparr>reset := False\<rparr>))))"

definition wake_up :: "'m c3x_cpu \<Rightarrow> 'm c3x_cpu" where
  "wake_up s = (if idle s \<noteq> 0
     then (if 2 \<le> idle s then (if GetIF s AND M_IF_INT0_3 \<noteq> 0 then s\<lparr>idle := 0\<rparr> else s) else s\<lparr>idle := 0\<rparr>) else s)"

definition step_interrupt :: "'m c3x_env \<Rightarrow> (bool, 'm) action" where
  "step_interrupt env s =
     (let s = wake_up s
      in case BitScanForward32 (GetIF s) of
           Some (Some irq) \<Rightarrow>
             (let sp = GetSP s + 1
              in act_bind (IntStore (env_port env) (GetSP23_0 s) (GetPC s) s) (\<lambda>_ s.
                 act_bind (IntLoad (env_port env) (irq + 1) (SetSP sp s)) (\<lambda>handler s.
                 act_bind (fetch_IR env (SetIRQLevel (unat irq) False (ResetST_GIE (SetPC handler s)))) (\<lambda>_ s.
                 (Inr True, SetNPC (GetPC s + 1) s)))))
         | _ \<Rightarrow> (Inl InternalError, s))"

definition step_repeat_single :: "'m c3x_env \<Rightarrow> (bool, 'm) action" where
  "step_repeat_single env s =
     act_bind (if first_time_through_repeat_single s
               then act_bind (fetch_IR env s) (\<lambda>_ s. (Inr (), s\<lparr>first_time_through_repeat_single := False\<rparr>))
               else (Inr (), s)) (\<lambda>_ s.
       let s = SetRC (GetRC s - 1) s
       in (Inr True, if sint (GetRC s) < 0 then (let s = ResetS (ResetST_RM s) in SetNPC (GetPC s + 1) s)
                     else SetNPC (GetPC s) s))"

definition step_repeat_block :: "'m c3x_env \<Rightarrow> (bool, 'm) action" where
  "step_repeat_block env s =
     act_bind (fetch_IR env s) (\<lambda>_ s.
       (Inr True,
        if GetPC s = GetRE s
        then (let s = SetRC (GetRC s - 1) s
              in if 0 \<le> sint (GetRC s) then SetNPC (GetRS s) s
                 else (let s = ResetS (ResetST_RM s) in SetNPC (GetPC s + 1) s))
        else SetNPC (GetPC s + 1) s))"

definition interrupt_taken :: "'m c3x_cpu \<Rightarrow> bool" where
  "interrupt_taken s = (GetIF s AND GetIE s \<noteq> 0 \<and> \<not> GetST_GIE s \<and> delay_before_branching s = 0 \<and>
     (\<not> GetST_RM s \<or> \<not> GetS s))"

definition step_prepare :: "'m c3x_env \<Rightarrow> (bool, 'm) action" where
  "step_prepare env s =
     (if reset s then step_reset env s
      else if interrupt_taken s then step_interrupt env s
      else if idle s \<noteq> 0 then (Inr False, s)
      else if GetST_RM s then (if GetS s then step_repeat_single env s else step_repeat_block env s)
      else act_bind (fetch_IR env s) (\<lambda>_ s. (Inr True, SetNPC (GetPC s + 1) s)))"

text \<open>After the instruction: a pending branch, the next program counter, the instruction counter.\<close>

definition step_finish :: "'m c3x_cpu \<Rightarrow> 'm c3x_cpu" where
  "step_finish s =
     (let s = (if delay_before_branching s \<noteq> 0
               then (let s = s\<lparr>delay_before_branching := delay_before_branching s - 1\<rparr>
                     in if delay_before_branching s = 0 then SetNPC (branch_addr s) s else s)
               else s);
          s = SetPC (GetNPC s) s;
          s = s\<lparr>instruction_counter := instruction_counter s + 1\<rparr>
      in if max_inst s \<le> instruction_counter s then s\<lparr>stopped := Some 0\<rparr> else s)"

definition StepInstruction :: "'m c3x_env \<Rightarrow> 'm c3x_cpu \<Rightarrow> 'm c3x_cpu" where
  "StepInstruction env s =
     (case act_bind (step_prepare env s) (\<lambda>go s.
             if go then act_bind (execute_insn env (GetIR s) s) (\<lambda>_ s. (Inr (), step_finish s)) else (Inr (), s)) of
        (Inr _, s) \<Rightarrow> s
      | (Inl _, s) \<Rightarrow> s\<lparr>stopped := Some (- 1)\<rparr>)"

end
