(* ===== verification/C3X_Step.thy ===== *)
theory C3X_Step
  imports C3X_Control
begin

text \<open>
  Executions of the TMS320C3X step by step: registers and their write masks, the effect of a step outside
  repeat mode, delayed branches.
\<close>

section \<open>Registers and their write masks\<close>

definition write_mask :: "nat \<Rightarrow> u32" where
  "write_mask n = r_lo_write_mask (init_regs ! n)"

definition regs_ok :: "c3x_register list \<Rightarrow> bool" where
  "regs_ok rs \<longleftrightarrow> length rs = 32 \<and> (\<forall>n < 32. r_lo_write_mask (rs ! n) = write_mask n)"

lemma regs_ok_SetReg [simp]: "regs_ok (regs s) \<Longrightarrow> regs_ok (regs (SetReg n v s))"
proof -
  assume ok: "regs_ok (regs s)"
  have "r_lo_write_mask ((regs s)[n := SetLo v (regs s ! n)] ! k) = write_mask k" if "k < 32" for k
    using ok that by (cases "k = n") (simp_all add: regs_ok_def SetLo_def)
  then show ?thesis using ok by (simp add: regs_ok_def SetReg_def)
qed

lemma GetReg_SetReg:
  assumes "regs_ok (regs s)" and "n < 32" and "m < 32"
  shows "GetReg n (SetReg m v s) = (if n = m then v AND write_mask m else GetReg n s)"
  using assms by (auto simp: regs_ok_def GetReg_def SetReg_def GetLo_def SetLo_def nth_list_update)

lemma write_mask_full:
  "write_mask 8 = - 1" "write_mask 20 = - 1" "write_mask 25 = - 1" "write_mask 26 = - 1" "write_mask 27 = - 1"
  by code_simp+

lemma write_mask_ST: "write_mask 21 = ST_WRITE_MASK"
  by code_simp

lemma init_regs_ok: "regs_ok init_regs"
  by (simp add: regs_ok_def write_mask_def) (simp add: init_regs_def)

lemma init_regs_zero: "GetLo (init_regs ! 21) = 0" "GetLo (init_regs ! 22) = 0" "GetLo (init_regs ! 23) = 0"
  "GetLo (init_regs ! 8) = 0"
  by code_simp+

lemma SetReg_fields [simp]:
  "memory (SetReg n v s) = memory s" "insn_cache (SetReg n v s) = insn_cache s" "reset (SetReg n v s) = reset s"
  "idle (SetReg n v s) = idle s" "reg_pc (SetReg n v s) = reg_pc s" "reg_npc (SetReg n v s) = reg_npc s"
  "reg_ir (SetReg n v s) = reg_ir s" "branch_addr (SetReg n v s) = branch_addr s"
  "delay_before_branching (SetReg n v s) = delay_before_branching s" "repeat_single (SetReg n v s) = repeat_single s"
  "first_time_through_repeat_single (SetReg n v s) = first_time_through_repeat_single s"
  "instruction_counter (SetReg n v s) = instruction_counter s" "max_inst (SetReg n v s) = max_inst s"
  "stopped (SetReg n v s) = stopped s" "mimic_dev_board (SetReg n v s) = mimic_dev_board s"
  by (simp_all add: SetReg_def)

lemma GetReg_regs: "regs s = regs t \<Longrightarrow> GetReg n s = GetReg n t"
  by (simp add: GetReg_def)

lemma GetReg_update [simp]:
  "GetReg n (s\<lparr>memory := m\<rparr>) = GetReg n s" "GetReg n (s\<lparr>reg_pc := v\<rparr>) = GetReg n s" "GetReg n (s\<lparr>reg_npc := v\<rparr>) = GetReg n s"
  "GetReg n (s\<lparr>reg_ir := v\<rparr>) = GetReg n s" "GetReg n (s\<lparr>delay_before_branching := v\<rparr>) = GetReg n s"
  "GetReg n (s\<lparr>branch_addr := v\<rparr>) = GetReg n s" "GetReg n (s\<lparr>repeat_single := b\<rparr>) = GetReg n s"
  "GetReg n (s\<lparr>first_time_through_repeat_single := b\<rparr>) = GetReg n s" "GetReg n (s\<lparr>idle := v\<rparr>) = GetReg n s"
  "GetReg n (s\<lparr>instruction_counter := c\<rparr>) = GetReg n s" "GetReg n (s\<lparr>stopped := st\<rparr>) = GetReg n s"
  "GetReg n (s\<lparr>insn_cache_accesses := c\<rparr>) = GetReg n s" "GetReg n (s\<lparr>insn_cache_misses := c\<rparr>) = GetReg n s"
  "GetReg n (s\<lparr>insn_cache := ic\<rparr>) = GetReg n s" "GetReg n (s\<lparr>reset := b\<rparr>) = GetReg n s"
  by (simp_all add: GetReg_def)

lemmas c3x_registers = GetST_def GetIF_def GetIE_def GetRE_def GetRS_def GetRC_def GetSP_def GetSP23_0_def
  SetST_def SetRE_def SetRS_def SetRC_def SetSP_def GetAR_def SetAR_def reg_numbers
lemmas c3x_control = GetPC_def GetPC23_0_def SetPC_def GetNPC_def SetNPC_def SetIR_def GetIR_def GetS_def SetS_def ResetS_def
  Branch_def HasPendingBranch_def Idle_def

text \<open>The bits of the status register that the control of execution looks at.\<close>

lemma ST_bit_mask: "bit ST_WRITE_MASK 8" "bit ST_WRITE_MASK 12" "bit ST_WRITE_MASK 13"
  by code_simp+

lemma SetST_bits:
  assumes "regs_ok (regs s)"
  shows "GetST_RM (SetST v s) = bit v 8" "GetST_CC (SetST v s) = bit v 12" "GetST_GIE (SetST v s) = bit v 13"
  using assms by (simp_all add: GetST_RM_def GetST_CC_def GetST_GIE_def c3x_registers GetReg_SetReg write_mask_ST
      bit_and_iff ST_bit_mask st_bits)

lemma ST_flags:
  assumes "regs_ok (regs s)"
  shows "GetST_RM (SetST_RM s)" "GetST_CC (SetST_RM s) = GetST_CC s" "GetST_GIE (SetST_RM s) = GetST_GIE s"
    "\<not> GetST_RM (ResetST_RM s)" "GetST_CC (ResetST_RM s) = GetST_CC s" "GetST_GIE (ResetST_RM s) = GetST_GIE s"
    "GetST_GIE (SetST_GIE s)" "GetST_CC (SetST_GIE s) = GetST_CC s" "GetST_RM (SetST_GIE s) = GetST_RM s"
    "\<not> GetST_GIE (ResetST_GIE s)" "GetST_CC (ResetST_GIE s) = GetST_CC s" "GetST_RM (ResetST_GIE s) = GetST_RM s"
  unfolding SetST_RM_def ResetST_RM_def SetST_GIE_def ResetST_GIE_def SetST_bits [OF assms]
  by (simp_all add: GetST_RM_def GetST_CC_def GetST_GIE_def st_bits bit_or_iff bit_and_iff bit_not_iff bit_push_bit_iff)

section \<open>Steps outside repeat mode\<close>

text \<open>The state in which an instruction is executed: what fetching it and the default next address changed.\<close>

definition ready :: "u32 \<Rightarrow> u32 \<Rightarrow> u64 \<Rightarrow> u64 \<Rightarrow> insn_cache_set list \<Rightarrow> 'm \<Rightarrow> 'm c3x_cpu \<Rightarrow> 'm c3x_cpu" where
  "ready w npc ca cm c m s = s\<lparr>reg_ir := w, reg_npc := npc, insn_cache_accesses := ca, insn_cache_misses := cm,
     insn_cache := c, memory := m\<rparr>"

lemma Fetch_frame:
  assumes "Fetch cfg port addr s = (r, s')" and "\<not> GetST_CC s"
  shows "s' = s\<lparr>insn_cache_accesses := insn_cache_accesses s', insn_cache_misses := insn_cache_misses s',
    insn_cache := insn_cache s', memory := memory s'\<rparr>"
  using assms
  by (cases s) (auto simp: Fetch_def Let_def split: if_splits option.splits prod.splits)

text \<open>What is assumed of the state of a machine that runs the code at the addresses \<open>A\<close>.\<close>

definition machine_ok :: "'m c3x_env \<Rightarrow> ('m \<Rightarrow> bool) \<Rightarrow> ('m \<Rightarrow> u32 \<Rightarrow> u32) \<Rightarrow> u32 set \<Rightarrow> 'm c3x_cpu \<Rightarrow> bool" where
  "machine_ok env mem_ok w A s \<longleftrightarrow> config_ok (env_config env) \<and> mem_ok (memory s) \<and> cache_ok (env_config env) (insn_cache s) \<and>
     coherent_cache A (w (memory s)) (insn_cache s) \<and> (\<forall>a \<in> A. unat a < 2 ^ 24) \<and> regs_ok (regs s) \<and>
     \<not> GetST_CC s \<and> \<not> reset s \<and> idle s = 0"

definition after_step :: "(c3x_exception + unit) \<times> 'm c3x_cpu \<Rightarrow> 'm c3x_cpu" where
  "after_step r = (case r of (Inr _, s) \<Rightarrow> step_finish s | (Inl _, s) \<Rightarrow> s\<lparr>stopped := Some (- 1)\<rparr>)"

lemma StepInstruction_go:
  "step_prepare env s = (Inr True, t) \<Longrightarrow> StepInstruction env s = after_step (execute_insn env (GetIR t) t)"
  by (auto simp: StepInstruction_def after_step_def split: prod.splits sum.splits)

lemma step_finish_fields [simp]:
  "memory (step_finish s) = memory s" "insn_cache (step_finish s) = insn_cache s" "reset (step_finish s) = reset s"
  "idle (step_finish s) = idle s" "regs (step_finish s) = regs s" "reg_ir (step_finish s) = reg_ir s"
  "branch_addr (step_finish s) = branch_addr s" "repeat_single (step_finish s) = repeat_single s"
  "first_time_through_repeat_single (step_finish s) = first_time_through_repeat_single s"
  "GetReg n (step_finish s) = GetReg n s" "instruction_counter (step_finish s) = instruction_counter s + 1"
  "delay_before_branching (step_finish s) = (if delay_before_branching s = 0 then 0 else delay_before_branching s - 1)"
  "reg_pc (step_finish s) = (if delay_before_branching s = 1 then branch_addr s else reg_npc s)"
  by (simp_all add: step_finish_def Let_def c3x_control GetReg_def)

lemma after_step_simps [simp]:
  "after_step (Inr u, s) = step_finish s" "after_step (Inl e, s) = s\<lparr>stopped := Some (- 1)\<rparr>"
  by (simp_all add: after_step_def)

lemma flags_of_regs:
  "regs s = regs t \<Longrightarrow> GetST_RM s = GetST_RM t" "regs s = regs t \<Longrightarrow> GetST_CC s = GetST_CC t"
  "regs s = regs t \<Longrightarrow> GetST_GIE s = GetST_GIE t" "regs s = regs t \<Longrightarrow> GetIF s = GetIF t"
  "regs s = regs t \<Longrightarrow> GetIE s = GetIE t"
  by (simp_all add: GetST_RM_def GetST_CC_def GetST_GIE_def c3x_registers GetReg_def)

text \<open>
  An instruction that touches nothing but registers, and leaves the repeat mode and cache clear bits of the
  status register as they are: arithmetic on registers, for example.
\<close>

definition plain_insn :: "'m c3x_env \<Rightarrow> u32 \<Rightarrow> bool" where
  "plain_insn env w \<longleftrightarrow> (\<forall>s. regs_ok (regs s) \<longrightarrow> (\<exists>r. execute_insn env w s = (Inr (), s\<lparr>regs := r\<rparr>) \<and> regs_ok r \<and>
     GetST_RM (s\<lparr>regs := r\<rparr>) = GetST_RM s \<and> GetST_CC (s\<lparr>regs := r\<rparr>) = GetST_CC s))"

lemma NOP_plain:
  fixes env :: "'m c3x_env"
  shows "decode_control w = Some (NOP_reg r) \<Longrightarrow> plain_insn env w"
  unfolding plain_insn_def
proof (intro allI impI)
  fix s :: "'m c3x_cpu"
  assume "decode_control w = Some (NOP_reg r)" and "regs_ok (regs s)"
  then show "\<exists>r. execute_insn env w s = (Inr (), s\<lparr>regs := r\<rparr>) \<and> regs_ok r \<and>
      GetST_RM (s\<lparr>regs := r\<rparr>) = GetST_RM s \<and> GetST_CC (s\<lparr>regs := r\<rparr>) = GetST_CC s"
    by (intro exI [of _ "regs s"]) (simp add: execute_insn_def)
qed

lemma short_address: "unat (reg_pc s) < 2 ^ 24 \<Longrightarrow> GetPC23_0 s = reg_pc s"
  by (simp add: GetPC23_0_def word_unat_eq_iff ADDRESS_MASK_mask unat_and_mask del: unsigned_take_bit_eq)

context word_memory
begin

lemma fetch_IR_ok:
  assumes "machine_ok env mem_ok word_at A s" and "env_port env = port" and "GetPC23_0 s \<in> A"
  obtains ca cm c m where
    "fetch_IR env s = (Inr (), ready (word_at (memory s) (GetPC23_0 s)) (reg_npc s) ca cm c m s)"
    "mem_ok m" "word_at m = word_at (memory s)" "cache_ok (env_config env) c" "coherent_cache A (word_at m) c"
proof -
  note ok = assms(1) [unfolded machine_ok_def]
  obtain s' where f: "Fetch (env_config env) port (GetPC23_0 s) s = (Inr (word_at (memory s) (GetPC23_0 s)), s')"
    "mem_ok (memory s')" "word_at (memory s') = word_at (memory s)" "cache_ok (env_config env) (insn_cache s')"
    "coherent_cache A (word_at (memory s)) (insn_cache s')"
    using Fetch_word [of "env_config env" s "GetPC23_0 s" A] ok assms(3) by blast
  obtain ca cm c m where s': "s' = s\<lparr>insn_cache_accesses := ca, insn_cache_misses := cm, insn_cache := c, memory := m\<rparr>"
    using Fetch_frame [OF f(1)] ok by blast
  have "fetch_IR env s = (Inr (), ready (word_at (memory s) (GetPC23_0 s)) (reg_npc s) ca cm c m s)"
    using f(1) by (simp add: fetch_IR_def assms(2) SetIR_def ready_def s')
  then show ?thesis using that f(2-5) by (simp add: s')
qed

text \<open>A step outside repeat mode: fetch, increment, execute.\<close>

lemma step_plain_path:
  assumes "machine_ok env mem_ok word_at A s" and "env_port env = port" and "GetPC23_0 s \<in> A"
    and "\<not> interrupt_taken s" and "\<not> GetST_RM s"
  obtains ca cm c m where
    "StepInstruction env s = after_step (execute_insn env (word_at (memory s) (GetPC23_0 s))
       (ready (word_at (memory s) (GetPC23_0 s)) (reg_pc s + 1) ca cm c m s))"
    "machine_ok env mem_ok word_at A (ready (word_at (memory s) (GetPC23_0 s)) (reg_pc s + 1) ca cm c m s)"
    "mem_ok m" "word_at m = word_at (memory s)"
proof -
  define w where "w = word_at (memory s) (GetPC23_0 s)"
  obtain ca cm c m where f: "fetch_IR env s = (Inr (), ready w (reg_npc s) ca cm c m s)"
    "mem_ok m" "word_at m = word_at (memory s)" "cache_ok (env_config env) c" "coherent_cache A (word_at m) c"
    unfolding w_def by (rule fetch_IR_ok [OF assms(1-3)])
  have "\<not> reset s" "idle s = 0" using assms(1) by (simp_all add: machine_ok_def)
  then have "step_prepare env s = (Inr True, ready w (reg_pc s + 1) ca cm c m s)"
    using assms(4,5) f(1) by (simp add: step_prepare_def c3x_control ready_def)
  then have "StepInstruction env s = after_step (execute_insn env w (ready w (reg_pc s + 1) ca cm c m s))"
    by (simp add: StepInstruction_go c3x_control ready_def)
  moreover have "machine_ok env mem_ok word_at A (ready w (reg_pc s + 1) ca cm c m s)"
    using assms(1) f by (simp add: machine_ok_def ready_def GetST_CC_def c3x_registers)
  ultimately show ?thesis using that f(2,3) unfolding w_def by blast
qed

lemma step_plain:
  assumes "machine_ok env mem_ok word_at A s" and "env_port env = port" and "reg_pc s \<in> A"
    and "\<not> interrupt_taken s" and "\<not> GetST_RM s" and "plain_insn env (word_at (memory s) (reg_pc s))"
  shows "machine_ok env mem_ok word_at A (StepInstruction env s)"
    and "word_at (memory (StepInstruction env s)) = word_at (memory s)"
    and "reg_ir (StepInstruction env s) = word_at (memory s) (reg_pc s)"
    and "\<not> GetST_RM (StepInstruction env s)"
    and "branch_addr (StepInstruction env s) = branch_addr s"
    and "delay_before_branching (StepInstruction env s) =
      (if delay_before_branching s = 0 then 0 else delay_before_branching s - 1)"
    and "reg_pc (StepInstruction env s) = (if delay_before_branching s = 1 then branch_addr s else reg_pc s + 1)"
proof -
  define w where "w = word_at (memory s) (reg_pc s)"
  have pc: "GetPC23_0 s = reg_pc s" using assms(1,3) by (intro short_address) (auto simp: machine_ok_def)
  obtain ca cm c m where step: "StepInstruction env s = after_step (execute_insn env w (ready w (reg_pc s + 1) ca cm c m s))"
    "machine_ok env mem_ok word_at A (ready w (reg_pc s + 1) ca cm c m s)" "mem_ok m" "word_at m = word_at (memory s)"
    using step_plain_path [OF assms(1,2) _ assms(4,5)] assms(3) unfolding pc w_def by blast
  define t where "t = ready w (reg_pc s + 1) ca cm c m s"
  have "regs_ok (regs t)" using step(2) by (simp add: machine_ok_def t_def)
  then obtain r where r: "execute_insn env w t = (Inr (), t\<lparr>regs := r\<rparr>)" "regs_ok r"
    "GetST_RM (t\<lparr>regs := r\<rparr>) = GetST_RM t" "GetST_CC (t\<lparr>regs := r\<rparr>) = GetST_CC t"
    using assms(6) unfolding plain_insn_def w_def by blast
  then have s': "StepInstruction env s = step_finish (t\<lparr>regs := r\<rparr>)" using step(1) by (simp add: t_def)
  have fl: "GetST_RM (step_finish (t\<lparr>regs := r\<rparr>)) = GetST_RM t" "GetST_CC (step_finish (t\<lparr>regs := r\<rparr>)) = GetST_CC t"
    using r(3,4) flags_of_regs(1,2) [of "step_finish (t\<lparr>regs := r\<rparr>)" "t\<lparr>regs := r\<rparr>"] by simp_all
  have tf: "GetST_RM t = GetST_RM s" by (rule flags_of_regs) (simp add: t_def ready_def)
  show "machine_ok env mem_ok word_at A (StepInstruction env s)"
    using step(2) r(2) fl unfolding s' by (simp add: machine_ok_def flip: t_def)
  show "\<not> GetST_RM (StepInstruction env s)" using assms(5) fl tf unfolding s' by simp
  show "word_at (memory (StepInstruction env s)) = word_at (memory s)"
    and "reg_ir (StepInstruction env s) = word_at (memory s) (reg_pc s)"
    and "branch_addr (StepInstruction env s) = branch_addr s"
    and "delay_before_branching (StepInstruction env s) =
      (if delay_before_branching s = 0 then 0 else delay_before_branching s - 1)"
    and "reg_pc (StepInstruction env s) = (if delay_before_branching s = 1 then branch_addr s else reg_pc s + 1)"
    using step(4) by (simp_all add: s' t_def ready_def w_def)
qed

text \<open>A delayed branch and the three instructions after it, none of which can be interrupted.\<close>

lemma delayed_branch_run:
  assumes ok: "machine_ok env mem_ok word_at A s" and port: "env_port env = port"
    and A: "reg_pc s \<in> A" "reg_pc s + 1 \<in> A" "reg_pc s + 2 \<in> A" "reg_pc s + 3 \<in> A"
    and idle: "\<not> interrupt_taken s" "\<not> GetST_RM s" "delay_before_branching s = 0"
    and brd: "decode_control (word_at (memory s) (reg_pc s)) = Some (BRD target)"
    and slots: "plain_insn env (word_at (memory s) (reg_pc s + 1))" "plain_insn env (word_at (memory s) (reg_pc s + 2))"
      "plain_insn env (word_at (memory s) (reg_pc s + 3))"
  defines "run \<equiv> \<lambda>n. (StepInstruction env ^^ n) s"
  shows "reg_pc (run 1) = reg_pc s + 1 \<and> reg_pc (run 2) = reg_pc s + 2 \<and> reg_pc (run 3) = reg_pc s + 3 \<and>
    reg_pc (run 4) = target \<and>
    reg_ir (run 2) = word_at (memory s) (reg_pc s + 1) \<and> reg_ir (run 3) = word_at (memory s) (reg_pc s + 2) \<and>
    reg_ir (run 4) = word_at (memory s) (reg_pc s + 3) \<and> delay_before_branching (run 4) = 0"
proof -
  have pc: "GetPC23_0 s = reg_pc s" using ok A(1) by (intro short_address) (auto simp: machine_ok_def)
  obtain ca cm c m where step: "StepInstruction env s =
      after_step (execute_insn env (word_at (memory s) (reg_pc s)) (ready (word_at (memory s) (reg_pc s)) (reg_pc s + 1) ca cm c m s))"
    "machine_ok env mem_ok word_at A (ready (word_at (memory s) (reg_pc s)) (reg_pc s + 1) ca cm c m s)"
    "mem_ok m" "word_at m = word_at (memory s)"
    using step_plain_path [OF ok port _ idle(1,2)] A(1) unfolding pc by blast
  define t where "t = ready (word_at (memory s) (reg_pc s)) (reg_pc s + 1) ca cm c m s"
  have t: "GetST_RM t = GetST_RM s" "delay_before_branching t = 0"
    using idle(3) flags_of_regs(1) [of t s] by (simp_all add: t_def ready_def)
  define s1 where "s1 = StepInstruction env s"
  have s1: "s1 = step_finish (Branch target 3 t)"
    unfolding s1_def step(1) t_def [symmetric] using brd t idle(2)
    by (simp add: execute_insn_def BRD_execute_def misplaced_delayed_def HasPendingBranch_def)
  have f1: "reg_pc s1 = reg_pc s + 1" "delay_before_branching s1 = 3" "branch_addr s1 = target"
    "memory s1 = m" "regs s1 = regs s"
    by (simp_all add: s1 Branch_def t_def ready_def)
  have rm1: "\<not> GetST_RM s1" using f1(5) flags_of_regs(1) [of s1 s] idle(2) by simp
  have ok1: "machine_ok env mem_ok word_at A s1"
    using step(2) f1 flags_of_regs(2) [of s1 t] unfolding t_def [symmetric]
    by (simp add: machine_ok_def s1 Branch_def t_def ready_def)
  have no_int: "\<not> interrupt_taken x" if "delay_before_branching x \<noteq> 0" for x :: "'m c3x_cpu"
    using that by (simp add: interrupt_taken_def)
  define s2 where "s2 = StepInstruction env s1"
  have w1: "word_at (memory s1) = word_at (memory s)" using f1(4) step(4) by simp
  have plain1: "plain_insn env (word_at (memory s1) (reg_pc s1))" using slots(1) unfolding w1 by (simp add: f1)
  note p1 = step_plain [OF ok1 port _ no_int rm1 plain1, folded s2_def]
  have f2: "reg_pc s2 = reg_pc s + 2" "delay_before_branching s2 = 2" "branch_addr s2 = target"
    "word_at (memory s2) = word_at (memory s)" "reg_ir s2 = word_at (memory s) (reg_pc s + 1)" "\<not> GetST_RM s2"
    "machine_ok env mem_ok word_at A s2"
    using p1 A(2) step(4) by (simp_all add: f1)
  define s3 where "s3 = StepInstruction env s2"
  have plain2: "plain_insn env (word_at (memory s2) (reg_pc s2))" using slots(2) by (simp add: f2)
  note p2 = step_plain [OF f2(7) port _ no_int f2(6) plain2, folded s3_def]
  have f3: "reg_pc s3 = reg_pc s + 3" "delay_before_branching s3 = 1" "branch_addr s3 = target"
    "word_at (memory s3) = word_at (memory s)" "reg_ir s3 = word_at (memory s) (reg_pc s + 2)" "\<not> GetST_RM s3"
    "machine_ok env mem_ok word_at A s3"
    using p2 A(3) by (simp_all add: f2)
  define s4 where "s4 = StepInstruction env s3"
  have plain3: "plain_insn env (word_at (memory s3) (reg_pc s3))" using slots(3) by (simp add: f3)
  note p3 = step_plain [OF f3(7) port _ no_int f3(6) plain3, folded s4_def]
  have f4: "reg_pc s4 = target" "delay_before_branching s4 = 0" "reg_ir s4 = word_at (memory s) (reg_pc s + 3)"
    using p3 A(4) by (simp_all add: f3)
  have "run 1 = s1" "run 2 = s2" "run 3 = s3" "run 4 = s4"
    by (simp_all add: run_def s1_def s2_def s3_def s4_def eval_nat_numeral)
  then show ?thesis using f1 f2 f3 f4 by simp
qed

end

end
