(* ===== verification/C3X_Operands.thy ===== *)
theory C3X_Operands
  imports C3X_Step Full_Adders
begin

text \<open>
  The general addressing of the TMS320C3X: a source operand is a register, a word of memory addressed
  directly or indirectly, or an immediate value. Each instruction of \<open>isa/2op.isa\<close> and
  \<open>isa/load_store.isa\<close> is written four times, once for each kind of operand; the copies differ in how they
  read the operand only, which is what \<open>with_operand\<close> factors out.
\<close>

section \<open>Operands\<close>

datatype c3x_operand = Op_reg nat | Op_dir u32 | Op_indir nat nat u32 | Op_imm u32

text \<open>An indirect operand updates its auxiliary register before the word is loaded.\<close>

fun indirect_address :: "nat \<Rightarrow> nat \<Rightarrow> u32 \<Rightarrow> (u32, 'm) action" where
  "indirect_address md ar disp s =
     (case ComputeIndirEA md ar disp s of
        None \<Rightarrow> (Inl BogusOpcode, s)
      | Some (ea, None) \<Rightarrow> (Inr ea, s)
      | Some (ea, Some output_ar) \<Rightarrow> (Inr ea, SetAR23_0 ar output_ar s))"

fun load_operand :: "'m mem_port \<Rightarrow> c3x_operand \<Rightarrow> (u32, 'm) action" where
  "load_operand port (Op_reg src) s = (Inr (GetReg src s), s)"
| "load_operand port (Op_dir direct) s = IntLoad port (ComputeDirEA direct s) s"
| "load_operand port (Op_indir md ar disp) s = act_bind (indirect_address md ar disp s) (IntLoad port)"
| "load_operand port (Op_imm imm) s = (Inr imm, s)"

fun has_operand :: "c3x_operand \<Rightarrow> bool" where
  "has_operand (Op_reg src) = HasReg src"
| "has_operand _ = True"

text \<open>The checks of the registers, the operand, and what the instruction does with its value.\<close>

definition with_operand :: "'m mem_port \<Rightarrow> c3x_operand \<Rightarrow> nat \<Rightarrow> (u32 \<Rightarrow> 'm c3x_cpu \<Rightarrow> 'm c3x_cpu) \<Rightarrow> (unit, 'm) action" where
  "with_operand port opnd dst f s =
     (if \<not> has_operand opnd \<or> \<not> HasReg dst then (Inl BogusOpcode, s)
      else act_bind (load_operand port opnd s) (\<lambda>v s. (Inr (), f v s)))"

text \<open>
  The operand in an instruction word: bits 22-21 say which kind, \<open>imm\<close> is the immediate value as the
  instruction declares its field.
\<close>

definition decode_operand :: "u32 \<Rightarrow> u32 \<Rightarrow> c3x_operand option" where
  "decode_operand imm w =
     (let g = wfield 21 2 w
      in if g = 0 then (if wfield 5 11 w = 0 then Some (Op_reg (field 0 5 w)) else None)
         else if g = 1 then Some (Op_dir (wfield 0 16 w))
         else if g = 2 then Some (Op_indir (field 11 5 w) (field 8 3 w) (wfield 0 8 w))
         else Some (Op_imm imm))"

section \<open>Writing a result\<close>

text \<open>Only the extended precision registers come with flags.\<close>

definition write_result :: "nat \<Rightarrow> u32 \<Rightarrow> u32 \<Rightarrow> u32 \<Rightarrow> u32 \<Rightarrow> u32 \<Rightarrow> u32 \<Rightarrow> 'm c3x_cpu \<Rightarrow> 'm c3x_cpu" where
  "write_result dst v reset_mask or_mask neg cy ov s =
     (let s = SetReg dst v s
      in if IsExtReg dst then GenFlags v reset_mask or_mask neg cy ov s else s)"

definition RESET_UFNZV :: u32 where "RESET_UFNZV = M_ST_UF OR M_ST_N OR M_ST_Z OR M_ST_V"

definition RESET_UFNZVC :: u32 where "RESET_UFNZVC = M_ST_UF OR M_ST_N OR M_ST_Z OR M_ST_V OR M_ST_C"

definition GEN_LVNZVC :: u32 where "GEN_LVNZVC = M_ST_LV OR M_ST_N OR M_ST_Z OR M_ST_V OR M_ST_C"

definition GEN_LVNZV :: u32 where "GEN_LVNZV = M_ST_LV OR M_ST_N OR M_ST_Z OR M_ST_V"

definition GEN_NZC :: u32 where "GEN_NZC = M_ST_N OR M_ST_Z OR M_ST_C"

definition GEN_NZ :: u32 where "GEN_NZ = M_ST_N OR M_ST_Z"

definition is_neg32 :: "u32 \<Rightarrow> u32" where
  "is_neg32 v = of_bool (sint v < 0)"

section \<open>The bits of the status register\<close>

lemma bit_power: "bit (2 ^ n :: u32) i \<longleftrightarrow> n = i \<and> i < 32"
  by (auto simp: bit_simps)

lemma bit_flag: "bit (push_bit n (of_bool b) :: u32) i \<longleftrightarrow> b \<and> n = i \<and> i < 32"
  by (cases b) (simp_all add: bit_power)

lemma test_masks:
  "(x :: u32) AND 1 = 0 \<longleftrightarrow> \<not> bit x 0" "x AND 2 = 0 \<longleftrightarrow> \<not> bit x 1" "x AND 4 = 0 \<longleftrightarrow> \<not> bit x 2" "x AND 8 = 0 \<longleftrightarrow> \<not> bit x 3"
  "x AND 16 = 0 \<longleftrightarrow> \<not> bit x 4" "x AND 32 = 0 \<longleftrightarrow> \<not> bit x 5" "x AND 64 = 0 \<longleftrightarrow> \<not> bit x 6"
  using and_exp_eq_0_iff_not_bit [of x 0] and_exp_eq_0_iff_not_bit [of x 1]
    and_exp_eq_0_iff_not_bit [of x 2] and_exp_eq_0_iff_not_bit [of x 3]
    and_exp_eq_0_iff_not_bit [of x 4] and_exp_eq_0_iff_not_bit [of x 5] and_exp_eq_0_iff_not_bit [of x 6] by simp_all

lemma ST_writable: "i \<in> {0, 1, 2, 3, 4, 5, 6, 7, 8, 10, 11, 12, 13} \<Longrightarrow> bit ST_WRITE_MASK i"
proof -
  have "\<forall>i \<in> {0, 1, 2, 3, 4, 5, 6, 7, 8, 10, 11, 12, 13}. bit ST_WRITE_MASK i" by code_simp
  then show "i \<in> {0, 1, 2, 3, 4, 5, 6, 7, 8, 10, 11, 12, 13} \<Longrightarrow> ?thesis" by blast
qed

lemma SetST_bit:
  assumes "regs_ok (regs s)" and "bit ST_WRITE_MASK i"
  shows "bit (GetST (SetST v s)) i \<longleftrightarrow> bit v i"
  using assms by (simp add: c3x_registers GetReg_SetReg write_mask_ST bit_and_iff)

text \<open>The conditions in terms of the flags.\<close>

lemma conditions:
  "CheckCondition 0x01 s = GetST_C s" "CheckCondition 0x02 s = (GetST_C s \<or> bit (GetST s) ST_Z)"
  "CheckCondition 0x03 s = (\<not> GetST_C s \<and> \<not> bit (GetST s) ST_Z)" "CheckCondition 0x04 s = (\<not> GetST_C s)"
  "CheckCondition 0x05 s = bit (GetST s) ST_Z" "CheckCondition 0x06 s = (\<not> bit (GetST s) ST_Z)"
  "CheckCondition 0x07 s = GetST_N s" "CheckCondition 0x08 s = (GetST_N s \<or> bit (GetST s) ST_Z)"
  "CheckCondition 0x09 s = (\<not> GetST_N s \<and> \<not> bit (GetST s) ST_Z)" "CheckCondition 0x0a s = (\<not> GetST_N s)"
  "CheckCondition 0x0c s = (\<not> GetST_V s)" "CheckCondition 0x0d s = GetST_V s"
  by (simp_all add: CheckCondition_def Let_def M_ST_C_def M_ST_Z_def M_ST_N_def M_ST_V_def test_masks
      GetST_C_def GetST_N_def GetST_V_def bit_drop_bit_eq bit_simps st_bits)

lemma flag_tests:
  "(x AND M_ST_LV \<noteq> 0) = bit x ST_LV" "(x AND M_ST_N \<noteq> 0) = bit x ST_N" "(x AND M_ST_Z \<noteq> 0) = bit x ST_Z"
  "(x AND M_ST_C \<noteq> 0) = bit x ST_C" "(x AND M_ST_V \<noteq> 0) = bit x ST_V" "(x AND M_ST_UF \<noteq> 0) = bit x ST_UF"
  "(x AND M_ST_LUF \<noteq> 0) = bit x ST_LUF"
  by (simp_all add: st_masks st_bits test_masks)

lemma sint_inject32: "sint (v :: u32) = sint w \<longleftrightarrow> v = w"
  by (rule word_eq_iff_signed [symmetric])

lemma zero_flag: "(if sint (v :: u32) = 0 then 1 else 0) = (of_bool (v = 0) :: u32)"
  using sint_inject32 [of v 0] by simp

lemma bit_or_flag:
  "bit (if b then x OR push_bit k (of_bool t) else (x :: u32)) i \<longleftrightarrow> bit x i \<or> b \<and> t \<and> k = i \<and> i < 32"
  by (cases b) (auto simp: bit_or_iff bit_flag)

text \<open>The flags generated for an integer result.\<close>

lemma GenFlags_bit:
  assumes "regs_ok (regs s)" and "bit ST_WRITE_MASK i"
  shows "bit (GetST (GenFlags v rm om (of_bool n) (of_bool c) (of_bool ov) s)) i \<longleftrightarrow>
    bit (GetST s) i \<and> \<not> bit rm i \<or>
    bit om i \<and> (i = ST_C \<and> c \<or> i = ST_V \<and> ov \<or> i = ST_Z \<and> v = 0 \<or> i = ST_N \<and> n \<or> i = ST_LV \<and> ov)"
proof -
  have "bit (GetST (GenFlags v rm om (of_bool n) (of_bool c) (of_bool ov) s)) i =
      bit (let st = GetST s AND NOT rm;
          st = (if bit om ST_LV then st OR push_bit ST_LV (of_bool ov) else st);
          st = (if bit om ST_N then st OR push_bit ST_N (of_bool n) else st);
          st = (if bit om ST_Z then st OR push_bit ST_Z (of_bool (v = 0)) else st);
          st = (if bit om ST_C then st OR push_bit ST_C (of_bool c) else st)
      in if bit om ST_V then st OR push_bit ST_V (of_bool ov) else st) i"
    unfolding GenFlags_def Let_def SetST_bit [OF assms] flag_tests zero_flag ..
  also have "\<dots> = (bit (GetST s) i \<and> \<not> bit rm i \<or>
      bit om i \<and> (i = ST_C \<and> c \<or> i = ST_V \<and> ov \<or> i = ST_Z \<and> v = 0 \<or> i = ST_N \<and> n \<or> i = ST_LV \<and> ov))"
    using bit_imp_le_length [OF assms(2)] unfolding Let_def bit_or_flag bit_and_iff bit_not_iff
    by (auto simp: st_bits)
  finally show ?thesis .
qed

end
