(* ===== verification/C3X_Integer.thy ===== *)
theory C3X_Integer
  imports C3X_Operands
begin

text \<open>
  The integer and logical instructions with two operands of the TMS320C3X (\<open>isa/2op.isa\<close>): each definition
  is what the four copies of an instruction have in common, the value of its operand given.
\<close>

section \<open>Sums and differences\<close>

text \<open>
  The result in the mode the status register selects: saturated, or wrapped around with the sign of the
  exact sum.
\<close>

definition add_ovm :: "bool \<Rightarrow> u32 \<Rightarrow> u32 \<Rightarrow> u8 \<Rightarrow> u32 adder_out" where
  "add_ovm ovm x y carry_in =
     (if ovm then SignedSatAdd32 x y carry_in
      else let r = SignedAdd32 x y carry_in in r\<lparr>sign := sign r XOR overflow r\<rparr>)"

definition sub_ovm :: "bool \<Rightarrow> u32 \<Rightarrow> u32 \<Rightarrow> u8 \<Rightarrow> u32 adder_out" where
  "sub_ovm ovm x y borrow_in =
     (if ovm then SignedSatSub32 x y borrow_in
      else let r = SignedSub32 x y borrow_in in r\<lparr>sign := sign r XOR overflow r\<rparr>)"

definition write_sum :: "nat \<Rightarrow> u32 adder_out \<Rightarrow> 'm c3x_cpu \<Rightarrow> 'm c3x_cpu" where
  "write_sum dst r =
     write_result dst (result r) RESET_UFNZVC GEN_LVNZVC (ucast (sign r)) (ucast (carry_out r)) (ucast (overflow r))"

definition c3x_carry :: "'m c3x_cpu \<Rightarrow> u8" where
  "c3x_carry s = of_bool (GetST_C s)"

definition ADDI_execute :: "'m mem_port \<Rightarrow> c3x_operand \<Rightarrow> nat \<Rightarrow> (unit, 'm) action" where
  "ADDI_execute port opnd dst = with_operand port opnd dst (\<lambda>src s.
     write_sum dst (add_ovm (GetST_OVM s) (GetReg dst s) src 0) s)"

definition ADDC_execute :: "'m mem_port \<Rightarrow> c3x_operand \<Rightarrow> nat \<Rightarrow> (unit, 'm) action" where
  "ADDC_execute port opnd dst = with_operand port opnd dst (\<lambda>src s.
     write_sum dst (add_ovm (GetST_OVM s) (GetReg dst s) src (c3x_carry s)) s)"

definition SUBI_execute :: "'m mem_port \<Rightarrow> c3x_operand \<Rightarrow> nat \<Rightarrow> (unit, 'm) action" where
  "SUBI_execute port opnd dst = with_operand port opnd dst (\<lambda>src s.
     write_sum dst (sub_ovm (GetST_OVM s) (GetReg dst s) src 0) s)"

definition SUBB_execute :: "'m mem_port \<Rightarrow> c3x_operand \<Rightarrow> nat \<Rightarrow> (unit, 'm) action" where
  "SUBB_execute port opnd dst = with_operand port opnd dst (\<lambda>src s.
     write_sum dst (sub_ovm (GetST_OVM s) (GetReg dst s) src (c3x_carry s)) s)"

definition SUBRI_execute :: "'m mem_port \<Rightarrow> c3x_operand \<Rightarrow> nat \<Rightarrow> (unit, 'm) action" where
  "SUBRI_execute port opnd dst = with_operand port opnd dst (\<lambda>src s.
     write_sum dst (sub_ovm (GetST_OVM s) src (GetReg dst s) 0) s)"

definition SUBRB_execute :: "'m mem_port \<Rightarrow> c3x_operand \<Rightarrow> nat \<Rightarrow> (unit, 'm) action" where
  "SUBRB_execute port opnd dst = with_operand port opnd dst (\<lambda>src s.
     write_sum dst (sub_ovm (GetST_OVM s) src (GetReg dst s) (c3x_carry s)) s)"

definition NEGI_execute :: "'m mem_port \<Rightarrow> c3x_operand \<Rightarrow> nat \<Rightarrow> (unit, 'm) action" where
  "NEGI_execute port opnd dst = with_operand port opnd dst (\<lambda>src s.
     write_sum dst (sub_ovm (GetST_OVM s) 0 src 0) s)"

definition NEGB_execute :: "'m mem_port \<Rightarrow> c3x_operand \<Rightarrow> nat \<Rightarrow> (unit, 'm) action" where
  "NEGB_execute port opnd dst = with_operand port opnd dst (\<lambda>src s.
     write_sum dst (sub_ovm (GetST_OVM s) 0 src (c3x_carry s)) s)"

text \<open>A comparison writes the flags whatever the register compared.\<close>

definition CMPI_execute :: "'m mem_port \<Rightarrow> c3x_operand \<Rightarrow> nat \<Rightarrow> (unit, 'm) action" where
  "CMPI_execute port opnd dst = with_operand port opnd dst (\<lambda>src s.
     let r = SignedSub32 (GetReg dst s) src 0
     in GenFlags (result r) RESET_UFNZVC GEN_LVNZVC (ucast (sign r XOR overflow r)) (ucast (carry_out r))
          (ucast (overflow r)) s)"

definition ABSI_execute :: "'m mem_port \<Rightarrow> c3x_operand \<Rightarrow> nat \<Rightarrow> (unit, 'm) action" where
  "ABSI_execute port opnd dst = with_operand port opnd dst (\<lambda>src s.
     let (r, ov) = (if src = 0x80000000 then (if GetST_OVM s then 0x7fffffff else 0x80000000, 1)
                    else (if 0 \<le> sint src then src else - src, 0))
     in write_result dst r RESET_UFNZV (M_ST_Z OR M_ST_V) 0 0 ov s)"

text \<open>One step of an unsigned division.\<close>

definition SUBC_execute :: "'m mem_port \<Rightarrow> c3x_operand \<Rightarrow> nat \<Rightarrow> (unit, 'm) action" where
  "SUBC_execute port opnd dst = with_operand port opnd dst (\<lambda>src s.
     let d = GetReg dst s
     in SetReg dst (if src \<le> d then push_bit 1 (d - src) OR 1 else push_bit 1 d) s)"

text \<open>A 24-bit factor; an immediate one is not cut.\<close>

definition mpyi_factor :: "c3x_operand \<Rightarrow> u32 \<Rightarrow> u64" where
  "mpyi_factor opnd v = (case opnd of Op_imm imm \<Rightarrow> scast v | _ \<Rightarrow> SignExtend64 (ucast (v AND 0xffffff)) 24)"

definition MPYI_execute :: "'m mem_port \<Rightarrow> c3x_operand \<Rightarrow> nat \<Rightarrow> (unit, 'm) action" where
  "MPYI_execute port opnd dst = with_operand port opnd dst (\<lambda>src s.
     let r64 = mpyi_factor opnd src * SignExtend64 (ucast (GetReg dst s AND 0xffffff)) 24;
         lo32 = ucast r64 :: u32; hi32 = ucast (signed_drop_bit 32 r64) :: u32;
         ov = (signed_drop_bit 31 lo32 \<noteq> hi32); neg = (sint r64 < 0);
         r = (if GetST_OVM s \<and> ov then (if sint r64 < 0 then 0x80000000 else 0x7fffffff) else lo32)
     in write_result dst r RESET_UFNZV GEN_LVNZV (of_bool neg) 0 (of_bool ov) s)"

section \<open>Logic\<close>

definition write_logic :: "nat \<Rightarrow> u32 \<Rightarrow> 'm c3x_cpu \<Rightarrow> 'm c3x_cpu" where
  "write_logic dst r = write_result dst r RESET_UFNZV GEN_NZ (is_neg32 r) 0 0"

definition AND_execute :: "'m mem_port \<Rightarrow> c3x_operand \<Rightarrow> nat \<Rightarrow> (unit, 'm) action" where
  "AND_execute port opnd dst = with_operand port opnd dst (\<lambda>src s. write_logic dst (src AND GetReg dst s) s)"

definition ANDN_execute :: "'m mem_port \<Rightarrow> c3x_operand \<Rightarrow> nat \<Rightarrow> (unit, 'm) action" where
  "ANDN_execute port opnd dst = with_operand port opnd dst (\<lambda>src s. write_logic dst (NOT src AND GetReg dst s) s)"

definition OR_execute :: "'m mem_port \<Rightarrow> c3x_operand \<Rightarrow> nat \<Rightarrow> (unit, 'm) action" where
  "OR_execute port opnd dst = with_operand port opnd dst (\<lambda>src s. write_logic dst (src OR GetReg dst s) s)"

definition XOR_execute :: "'m mem_port \<Rightarrow> c3x_operand \<Rightarrow> nat \<Rightarrow> (unit, 'm) action" where
  "XOR_execute port opnd dst = with_operand port opnd dst (\<lambda>src s. write_logic dst (src XOR GetReg dst s) s)"

definition NOT_execute :: "'m mem_port \<Rightarrow> c3x_operand \<Rightarrow> nat \<Rightarrow> (unit, 'm) action" where
  "NOT_execute port opnd dst = with_operand port opnd dst (\<lambda>src s. write_logic dst (NOT src) s)"

definition TSTB_execute :: "'m mem_port \<Rightarrow> c3x_operand \<Rightarrow> nat \<Rightarrow> (unit, 'm) action" where
  "TSTB_execute port opnd dst = with_operand port opnd dst (\<lambda>src s.
     let r = src AND GetReg dst s in GenFlags r RESET_UFNZV GEN_NZ (is_neg32 r) 0 0 s)"

section \<open>Shifts and rotations\<close>

text \<open>The count is the low seven bits of the operand as a signed number; negative counts shift right.\<close>

definition shift_count :: "u32 \<Rightarrow> int" where
  "shift_count v = sint (SignExtend32 v 7)"

text \<open>Result, carry and overflow. The mask covers the bits lost and the new sign.\<close>

definition ash_result :: "u32 \<Rightarrow> int \<Rightarrow> u32 \<times> u8 \<times> bool" where
  "ash_result d count =
     (if count = 0 then (d, 0, False)
      else if count \<ge> 0 then
        (if count \<ge> 32 then (0, ucast (d AND 1), d \<noteq> 0)
         else let (r, cy) = ShiftLeft_out d (word_of_int count);
                  m = signed_drop_bit (nat count) 0x80000000
              in (r, cy, if d AND m \<noteq> 0 then d AND m \<noteq> m else d AND m \<noteq> 0))
      else let count = - count
           in if count \<ge> 32 then (if d AND 0x80000000 \<noteq> 0 then 0xffffffff else 0, ucast (drop_bit 31 d), False)
              else let (r, cy) = ShiftArithmeticRight_out d (word_of_int count) in (r, cy, False))"

definition ASH_execute :: "'m mem_port \<Rightarrow> c3x_operand \<Rightarrow> nat \<Rightarrow> (unit, 'm) action" where
  "ASH_execute port opnd dst = with_operand port opnd dst (\<lambda>src s.
     let (r, cy, ov) = ash_result (GetReg dst s) (shift_count src)
     in write_result dst r RESET_UFNZVC GEN_LVNZVC (is_neg32 r) (ucast cy) (of_bool ov) s)"

definition lsh_result :: "u32 \<Rightarrow> int \<Rightarrow> u32 \<times> u8" where
  "lsh_result d count =
     (if count = 0 then (d, 0)
      else if count \<ge> 0 then (if count \<ge> 32 then (0, ucast (d AND 1)) else ShiftLeft_out d (word_of_int count))
      else let count = - count
           in if count \<ge> 32 then (0, if count = 32 then ucast (drop_bit 31 d) else 0)
              else ShiftRight_out d (word_of_int count))"

definition LSH_execute :: "'m mem_port \<Rightarrow> c3x_operand \<Rightarrow> nat \<Rightarrow> (unit, 'm) action" where
  "LSH_execute port opnd dst = with_operand port opnd dst (\<lambda>src s.
     let (r, cy) = lsh_result (GetReg dst s) (shift_count src)
     in write_result dst r RESET_UFNZVC GEN_NZC (is_neg32 r) (ucast cy) 0 s)"

definition write_rotate :: "nat \<Rightarrow> u32 \<times> u8 \<Rightarrow> 'm c3x_cpu \<Rightarrow> 'm c3x_cpu" where
  "write_rotate dst x = (case x of (r, cy) \<Rightarrow> write_result dst r RESET_UFNZVC GEN_NZC (is_neg32 r) (ucast cy) 0)"

definition ROL_execute :: "nat \<Rightarrow> (unit, 'm) action" where
  "ROL_execute dst s = (if \<not> HasReg dst then (Inl BogusOpcode, s)
     else (Inr (), write_rotate dst (RotateLeft_out (GetReg dst s) 1) s))"

definition ROLC_execute :: "nat \<Rightarrow> (unit, 'm) action" where
  "ROLC_execute dst s = (if \<not> HasReg dst then (Inl BogusOpcode, s)
     else (Inr (), write_rotate dst (RotateLeft_carry (GetReg dst s) 1 (c3x_carry s)) s))"

definition ROR_execute :: "nat \<Rightarrow> (unit, 'm) action" where
  "ROR_execute dst s = (if \<not> HasReg dst then (Inl BogusOpcode, s)
     else (Inr (), write_rotate dst (RotateRight_out (GetReg dst s) 1) s))"

definition RORC_execute :: "nat \<Rightarrow> (unit, 'm) action" where
  "RORC_execute dst s = (if \<not> HasReg dst then (Inl BogusOpcode, s)
     else (Inr (), write_rotate dst (RotateRight_carry (GetReg dst s) 1 (c3x_carry s)) s))"

section \<open>Decoding\<close>

datatype c3x_int_op =
    ABSI | ADDC | ADDI | AND2 | ANDN | ASH | CMPI | LSH | MPYI | NEGB | NEGI | NOT2 | OR2
  | SUBB | SUBC | SUBI | SUBRB | SUBRI | TSTB | XOR2

datatype c3x_int_insn = Int_2op c3x_int_op c3x_operand nat | ROL nat | ROLC nat | ROR nat | RORC nat

text \<open>Immediate values: 16 bits with or without sign, and seven bits for the logical shift.\<close>

definition decode_integer :: "u32 \<Rightarrow> c3x_int_insn option" where
  "decode_integer w =
     (if wfield 29 3 w \<noteq> 0 then None
      else let opc = field 23 6 w; dst = field 16 5 w;
               signed = (\<lambda>i. map_option (\<lambda>q. Int_2op i q dst) (decode_operand (sext16 w) w));
               unsigned = (\<lambda>i. map_option (\<lambda>q. Int_2op i q dst) (decode_operand (wfield 0 16 w) w));
               rotate = (\<lambda>i k. if wfield 21 2 w = 3 \<and> wfield 0 16 w = k then Some (i dst) else None)
           in if opc = 0b000001 then signed ABSI else if opc = 0b000010 then signed ADDC
              else if opc = 0b000100 then signed ADDI else if opc = 0b000101 then unsigned AND2
              else if opc = 0b000110 then unsigned ANDN else if opc = 0b000111 then unsigned ASH
              else if opc = 0b001001 then signed CMPI
              else if opc = 0b010011 then map_option (\<lambda>q. Int_2op LSH q dst) (decode_operand (wfield 0 7 w) w)
              else if opc = 0b010101 then signed MPYI else if opc = 0b010110 then signed NEGB
              else if opc = 0b011000 then signed NEGI else if opc = 0b011011 then unsigned NOT2
              else if opc = 0b100000 then unsigned OR2 else if opc = 0b100011 then rotate ROL 1
              else if opc = 0b100100 then rotate ROLC 1 else if opc = 0b100101 then rotate ROR 0xffff
              else if opc = 0b100110 then rotate RORC 0xffff else if opc = 0b101101 then signed SUBB
              else if opc = 0b101110 then unsigned SUBC else if opc = 0b110000 then signed SUBI
              else if opc = 0b110001 then signed SUBRB else if opc = 0b110011 then signed SUBRI
              else if opc = 0b110100 then unsigned TSTB else if opc = 0b110101 then unsigned XOR2
              else None)"

fun execute_2op :: "'m mem_port \<Rightarrow> c3x_int_op \<Rightarrow> c3x_operand \<Rightarrow> nat \<Rightarrow> (unit, 'm) action" where
  "execute_2op port ABSI = ABSI_execute port" | "execute_2op port ADDC = ADDC_execute port"
| "execute_2op port ADDI = ADDI_execute port" | "execute_2op port AND2 = AND_execute port"
| "execute_2op port ANDN = ANDN_execute port" | "execute_2op port ASH = ASH_execute port"
| "execute_2op port CMPI = CMPI_execute port" | "execute_2op port LSH = LSH_execute port"
| "execute_2op port MPYI = MPYI_execute port" | "execute_2op port NEGB = NEGB_execute port"
| "execute_2op port NEGI = NEGI_execute port" | "execute_2op port NOT2 = NOT_execute port"
| "execute_2op port OR2 = OR_execute port" | "execute_2op port SUBB = SUBB_execute port"
| "execute_2op port SUBC = SUBC_execute port" | "execute_2op port SUBI = SUBI_execute port"
| "execute_2op port SUBRB = SUBRB_execute port" | "execute_2op port SUBRI = SUBRI_execute port"
| "execute_2op port TSTB = TSTB_execute port" | "execute_2op port XOR2 = XOR_execute port"

fun execute_integer :: "'m mem_port \<Rightarrow> c3x_int_insn \<Rightarrow> (unit, 'm) action" where
  "execute_integer port (Int_2op i opnd dst) = execute_2op port i opnd dst"
| "execute_integer port (ROL dst) = ROL_execute dst"
| "execute_integer port (ROLC dst) = ROLC_execute dst"
| "execute_integer port (ROR dst) = ROR_execute dst"
| "execute_integer port (RORC dst) = RORC_execute dst"

end
