(* ===== verification/C3X_Compute.thy ===== *)
theory C3X_Compute
  imports C3X_Integer
begin

text \<open>
  What the integer instructions of the TMS320C3X compute: exact sums and differences with their flags,
  comparisons, 64-bit additions, shifts, and the division by conditional subtractions.
\<close>

section \<open>Writing registers and flags\<close>

lemma write_mask_plain: "n < 32 \<Longrightarrow> n \<notin> {21, 22, 23, 24} \<Longrightarrow> write_mask n = - 1"
proof -
  have "\<forall>n \<in> set [0..<32]. n \<notin> {21, 22, 23, 24} \<longrightarrow> write_mask n = - 1" by code_simp
  then show "n < 32 \<Longrightarrow> n \<notin> {21, 22, 23, 24} \<Longrightarrow> ?thesis" by simp
qed

lemma GetReg_GenFlags:
  assumes "regs_ok (regs s)" and "k < 32" and "k \<noteq> REG_ST"
  shows "GetReg k (GenFlags v rm om n c ov s) = GetReg k s"
  using assms by (simp add: GenFlags_def Let_def SetST_def GetReg_SetReg REG_ST_def)

lemma regs_ok_GenFlags [simp]: "regs_ok (regs s) \<Longrightarrow> regs_ok (regs (GenFlags v rm om n c ov s))"
  by (simp add: GenFlags_def Let_def SetST_def)

lemma GenFlags_fields [simp]: "GenFlags v rm om n c ov s\<lparr>regs := r\<rparr> = s\<lparr>regs := r\<rparr>"
  by (simp add: GenFlags_def Let_def SetST_def SetReg_def)

lemma GetST_SetReg: "regs_ok (regs s) \<Longrightarrow> n < 32 \<Longrightarrow> n \<noteq> REG_ST \<Longrightarrow> GetST (SetReg n v s) = GetST s"
  by (simp add: GetST_def GetReg_SetReg REG_ST_def)

text \<open>The masks of the sums generate every flag of the conditions from the result.\<close>

lemma sum_masks:
  "bit RESET_UFNZVC i = (i \<in> {0, 1, 2, 3, 4})" "bit GEN_LVNZVC i = (i \<in> {0, 1, 2, 3, 5})"
  "bit RESET_UFNZV i = (i \<in> {1, 2, 3, 4})" "bit GEN_NZC i = (i \<in> {0, 2, 3})"
proof -
  have low: "\<forall>i \<in> set [0..<32]. (bit RESET_UFNZVC i = (i \<in> {0, 1, 2, 3, 4})) \<and> (bit GEN_LVNZVC i = (i \<in> {0, 1, 2, 3, 5})) \<and>
    (bit RESET_UFNZV i = (i \<in> {1, 2, 3, 4})) \<and> (bit GEN_NZC i = (i \<in> {0, 2, 3}))" by code_simp
  have "\<not> bit (w :: u32) i" if "\<not> i < 32" for w using bit_imp_le_length [of w i] that by auto
  then show "bit RESET_UFNZVC i = (i \<in> {0, 1, 2, 3, 4})" "bit GEN_LVNZVC i = (i \<in> {0, 1, 2, 3, 5})"
    "bit RESET_UFNZV i = (i \<in> {1, 2, 3, 4})" "bit GEN_NZC i = (i \<in> {0, 2, 3})"
    using low by (cases "i < 32"; force)+
qed

definition sum_flags :: "u32 \<Rightarrow> bool \<Rightarrow> bool \<Rightarrow> bool \<Rightarrow> 'm c3x_cpu \<Rightarrow> 'm c3x_cpu \<Rightarrow> bool" where
  "sum_flags v n c ov s s' \<longleftrightarrow> (GetST_N s' \<longleftrightarrow> n) \<and> (bit (GetST s') ST_Z \<longleftrightarrow> v = 0) \<and> (GetST_C s' \<longleftrightarrow> c) \<and>
     (GetST_V s' \<longleftrightarrow> ov) \<and> (GetST_LV s' \<longleftrightarrow> GetST_LV s \<or> ov) \<and> \<not> GetST_UF s' \<and>
     (GetST_OVM s' \<longleftrightarrow> GetST_OVM s) \<and> (GetST_RM s' \<longleftrightarrow> GetST_RM s) \<and> (GetST_CC s' \<longleftrightarrow> GetST_CC s) \<and>
     (GetST_GIE s' \<longleftrightarrow> GetST_GIE s)"

lemma sum_flags_gen:
  assumes "regs_ok (regs s)"
  shows "sum_flags v n c ov s (GenFlags v RESET_UFNZVC GEN_LVNZVC (of_bool n) (of_bool c) (of_bool ov) s)"
  unfolding sum_flags_def GetST_N_def GetST_C_def GetST_V_def GetST_LV_def GetST_UF_def GetST_OVM_def GetST_RM_def
    GetST_CC_def GetST_GIE_def st_bits
  by (simp add: GenFlags_bit [OF assms] ST_writable sum_masks st_bits)

section \<open>Example states\<close>

text \<open>A processor with given values in the first registers, and a port that refuses every access.\<close>

definition no_port :: "unit mem_port" where
  "no_port = \<lparr>PrRead = \<lambda>_ _ m. (None, m), PrWrite = \<lambda>_ _ m. (False, m)\<rparr>"

definition with_regs :: "u32 list \<Rightarrow> unit c3x_cpu" where
  "with_regs vs = fold (\<lambda>(n, v). SetReg n v) (zip [0..<length vs] vs) (init_CPU [] ())"

lemma with_regs_ok: "regs_ok (regs (with_regs vs))"
proof -
  have "regs_ok (regs (fold (\<lambda>(n, v). SetReg n v) xs s))" if "regs_ok (regs s)" for xs :: "(nat \<times> u32) list" and s :: "unit c3x_cpu"
    using that by (induction xs arbitrary: s) auto
  then show ?thesis using init_regs_ok by (simp add: with_regs_def init_CPU_def)
qed

section \<open>Sums and differences\<close>

text \<open>What a result register holds for an exact result: clamped in the saturating mode, wrapped otherwise.\<close>

definition ovm_value :: "bool \<Rightarrow> int \<Rightarrow> int" where
  "ovm_value ovm z = (if ovm then clamp_signed TYPE(32) z else wrap_signed TYPE(32) z)"

definition exact_out :: "bool \<Rightarrow> int \<Rightarrow> bool \<Rightarrow> u32 adder_out \<Rightarrow> bool" where
  "exact_out ovm z cy r \<longleftrightarrow> sint (result r) = ovm_value ovm z \<and> carry_out r = of_bool cy \<and>
     overflow r = of_bool (\<not> in_signed TYPE(32) z) \<and> sign r = of_bool (z < 0)"

lemma saturated_out:
  fixes r :: "u32 adder_out"
  assumes "r = adder_of v cy (\<not> in_signed TYPE(32) z)" and "sint v = wrap_signed TYPE(32) z"
    and "- 2 * int (half TYPE(32)) \<le> z" and "z < 2 * int (half TYPE(32))"
  shows "exact_out True z cy (if overflow r \<noteq> 0
      then r\<lparr>result := if sign r \<noteq> 0 then 0x7fffffff else 0x80000000, sign := of_bool (sign r = 0)\<rparr> else r)"
    and "exact_out False z cy (r\<lparr>sign := sign r XOR overflow r\<rparr>)"
proof -
  have "exact_out True z cy (if overflow r \<noteq> 0
      then r\<lparr>result := if sign r \<noteq> 0 then 0x7fffffff else 0x80000000, sign := of_bool (sign r = 0)\<rparr> else r) \<and>
    exact_out False z cy (r\<lparr>sign := sign r XOR overflow r\<rparr>)"
  proof (cases "in_signed TYPE(32) z")
    case True
    then show ?thesis using assms(1,2)
      by (simp add: exact_out_def ovm_value_def adder_of_def clamp_in_signed wrap_signed_def)
  next
    case False
    note w = wrap_overflow [OF False assms(3,4)]
    show ?thesis
      using assms(1,2) w False by (cases "z < 0") (simp_all add: exact_out_def ovm_value_def adder_of_def)
  qed
  then show "exact_out True z cy (if overflow r \<noteq> 0
      then r\<lparr>result := if sign r \<noteq> 0 then 0x7fffffff else 0x80000000, sign := of_bool (sign r = 0)\<rparr> else r)"
    and "exact_out False z cy (r\<lparr>sign := sign r XOR overflow r\<rparr>)" by blast+
qed

lemma ovm_exact:
  assumes "unat c \<le> 1"
  shows add_ovm_exact: "exact_out ovm (sint x + sint y + int (unat c)) (2 ^ 32 \<le> unat x + unat y + unat c) (add_ovm ovm x y c)"
    and sub_ovm_exact: "exact_out ovm (sint x - sint y - int (unat c)) (unat x < unat y + unat c) (sub_ovm ovm x y c)"
  using saturated_out [OF SignedAdd_eq [OF assms, of x y] sint_add_wrap [OF assms] sum_bounds(1,2) [OF assms]]
    saturated_out [OF SignedSub_eq [OF assms, of x y] sint_sub_wrap [OF assms] sum_bounds(3,4) [OF assms]]
  by (cases ovm; simp add: add_ovm_def sub_ovm_def SignedSatAdd32_def SignedSatSub32_def SignedAdd32_def SignedSub32_def Let_def)+

text \<open>The destination and the flags after a sum is written to an extended precision register.\<close>

lemma write_sum_exact:
  assumes ok: "regs_ok (regs s)" and dst: "IsExtReg dst" and r: "exact_out ovm z cy r"
  defines "s' \<equiv> write_sum dst r s"
  shows "sint (GetReg dst s') = ovm_value ovm z"
    and "sum_flags (GetReg dst s') (z < 0) cy (\<not> in_signed TYPE(32) z) s s'"
    and "k < 32 \<Longrightarrow> k \<noteq> dst \<Longrightarrow> k \<noteq> REG_ST \<Longrightarrow> GetReg k s' = GetReg k s"
    and "regs_ok (regs s')" and "s'\<lparr>regs := x\<rparr> = s\<lparr>regs := x\<rparr>"
proof -
  define t where "t = SetReg dst (result r) s"
  have d: "dst < 32" "dst \<noteq> REG_ST" "write_mask dst = - 1"
    using dst write_mask_plain [of dst] by (auto simp: IsExtReg_def REG_ST_def)
  have t: "regs_ok (regs t)" "GetST t = GetST s" "GetReg dst t = result r"
    using ok d by (simp_all add: t_def GetST_SetReg GetReg_SetReg)
  have s': "s' = GenFlags (result r) RESET_UFNZVC GEN_LVNZVC (of_bool (z < 0)) (of_bool cy) (of_bool (\<not> in_signed TYPE(32) z)) t"
    using r dst by (simp add: s'_def write_sum_def write_result_def exact_out_def t_def Let_def)
  have v: "GetReg dst s' = result r" using t d by (simp add: s' GetReg_GenFlags)
  then show "sint (GetReg dst s') = ovm_value ovm z" using r by (simp add: exact_out_def)
  show "sum_flags (GetReg dst s') (z < 0) cy (\<not> in_signed TYPE(32) z) s s'"
    using sum_flags_gen [OF t(1)] t(2) unfolding v unfolding s' sum_flags_def GetST_LV_def GetST_OVM_def GetST_RM_def
      GetST_CC_def GetST_GIE_def by simp
  show "k < 32 \<Longrightarrow> k \<noteq> dst \<Longrightarrow> k \<noteq> REG_ST \<Longrightarrow> GetReg k s' = GetReg k s"
    using ok t d by (simp add: s' GetReg_GenFlags) (simp add: t_def GetReg_SetReg)
  show "regs_ok (regs s')" "s'\<lparr>regs := x\<rparr> = s\<lparr>regs := x\<rparr>"
    using t by (simp_all add: s' t_def SetReg_def)
qed

text \<open>The exact result of an instruction and its carry or borrow, from the destination, the operand and the carry.\<close>

fun int_sum :: "c3x_int_op \<Rightarrow> u32 \<Rightarrow> u32 \<Rightarrow> bool \<Rightarrow> (int \<times> bool) option" where
  "int_sum ADDI d v c = Some (sint d + sint v, 2 ^ 32 \<le> unat d + unat v)"
| "int_sum ADDC d v c = Some (sint d + sint v + of_bool c, 2 ^ 32 \<le> unat d + unat v + of_bool c)"
| "int_sum SUBI d v c = Some (sint d - sint v, unat d < unat v)"
| "int_sum SUBB d v c = Some (sint d - sint v - of_bool c, unat d < unat v + of_bool c)"
| "int_sum SUBRI d v c = Some (sint v - sint d, unat v < unat d)"
| "int_sum SUBRB d v c = Some (sint v - sint d - of_bool c, unat v < unat d + of_bool c)"
| "int_sum NEGI d v c = Some (- sint v, 0 < unat v)"
| "int_sum NEGB d v c = Some (- sint v - of_bool c, 0 < unat v + of_bool c)"
| "int_sum _ d v c = None"

lemma with_operand_run:
  "has_operand opnd \<Longrightarrow> HasReg dst \<Longrightarrow> load_operand port opnd s = (Inr v, t) \<Longrightarrow>
   with_operand port opnd dst f s = (Inr (), f v t)"
  by (simp add: with_operand_def)

lemma c3x_carry_value: "unat (c3x_carry s) = of_bool (GetST_C s)" "unat (c3x_carry s) \<le> 1"
  by (simp_all add: c3x_carry_def)

lemma sum_executes:
  assumes "int_sum i (GetReg dst t) v (GetST_C t) = Some (z, cy)" and "has_operand opnd" and "HasReg dst"
    and "load_operand port opnd s = (Inr v, t)"
  obtains r where "execute_2op port i opnd dst s = (Inr (), write_sum dst r t)" and "exact_out (GetST_OVM t) z cy r"
proof -
  note run = with_operand_run [OF assms(2-4)]
  note c = c3x_carry_value [of t] and add = add_ovm_exact and sub = sub_ovm_exact
  show thesis
  proof (cases i)
    case ADDI
    then show ?thesis using that assms(1) add [of 0 _ "GetReg dst t" v] by (auto simp: ADDI_execute_def run)
  next
    case ADDC
    then show ?thesis using that assms(1) add [OF c(2), of _ "GetReg dst t" v] by (auto simp: ADDC_execute_def run c(1))
  next
    case SUBI
    then show ?thesis using that assms(1) sub [of 0 _ "GetReg dst t" v] by (auto simp: SUBI_execute_def run)
  next
    case SUBB
    then show ?thesis using that assms(1) sub [OF c(2), of _ "GetReg dst t" v] by (auto simp: SUBB_execute_def run c(1))
  next
    case SUBRI
    then show ?thesis using that assms(1) sub [of 0 _ v "GetReg dst t"] by (auto simp: SUBRI_execute_def run)
  next
    case SUBRB
    then show ?thesis using that assms(1) sub [OF c(2), of _ v "GetReg dst t"] by (auto simp: SUBRB_execute_def run c(1))
  next
    case NEGI
    then show ?thesis using that assms(1) sub [of 0 _ 0 v] by (auto simp: NEGI_execute_def run)
  next
    case NEGB
    then show ?thesis using that assms(1) sub [OF c(2), of _ 0 v] by (auto simp: NEGB_execute_def run c(1))
  qed (use assms(1) in simp_all)
qed

text \<open>
  C9: the additions, subtractions and negations write the exact result to an extended precision register,
  clamped to 32 bits in the saturating mode and wrapped around otherwise; the flags are those of the exact
  result, the latched overflow is never cleared, and no other register or memory changes.
\<close>

theorem integer_sums:
  assumes "int_sum i (GetReg dst t) v (GetST_C t) = Some (z, cy)" and "has_operand opnd" and "IsExtReg dst"
    and "load_operand port opnd s = (Inr v, t)" and "regs_ok (regs t)"
  shows "\<exists>s'. execute_2op port i opnd dst s = (Inr (), s') \<and> sint (GetReg dst s') = ovm_value (GetST_OVM t) z \<and>
    sum_flags (GetReg dst s') (z < 0) cy (\<not> in_signed TYPE(32) z) t s' \<and>
    (\<forall>k < 32. k \<noteq> dst \<longrightarrow> k \<noteq> REG_ST \<longrightarrow> GetReg k s' = GetReg k t) \<and> s' = t\<lparr>regs := regs s'\<rparr>"
proof -
  have "HasReg dst" using assms(3) by (simp add: IsExtReg_def HasReg_def)
  then obtain r where r: "execute_2op port i opnd dst s = (Inr (), write_sum dst r t)" "exact_out (GetST_OVM t) z cy r"
    using sum_executes [OF assms(1,2) _ assms(4)] by blast
  note w = write_sum_exact [OF assms(5,3) r(2)]
  have "write_sum dst r t = t\<lparr>regs := regs (write_sum dst r t)\<rparr>"
    using w(5) [of "regs (write_sum dst r t)"] by simp
  then show ?thesis using r(1) w(1-3) by blast
qed

theorem integer_sums_witness:
  "\<exists>s'. execute_2op no_port ADDI (Op_imm 1) 0 (with_regs [0x7fffffff]) = (Inr (), s') \<and>
    sint (GetReg 0 s') = - 0x80000000 \<and> GetST_V s'"
proof -
  have d: "GetReg 0 (with_regs [0x7fffffff]) = 0x7fffffff" "GetST_OVM (with_regs [0x7fffffff]) = False" by code_simp+
  show ?thesis
    using integer_sums [of ADDI 0 "with_regs [0x7fffffff]" 1 "0x80000000" False "Op_imm 1" no_port "with_regs [0x7fffffff]"]
      with_regs_ok [of "[0x7fffffff]"] d
    by (auto simp: IsExtReg_def ovm_value_def wrap_signed_def in_signed_def sum_flags_def)
qed

lemma ucast_of_bool: "(ucast (of_bool b :: u8) :: u32) = of_bool b"
  by simp

section \<open>Comparisons\<close>

text \<open>The relation a condition stands for after a comparison of \<open>d\<close> with \<open>v\<close>.\<close>

definition compare_holds :: "nat \<Rightarrow> u32 \<Rightarrow> u32 \<Rightarrow> bool" where
  "compare_holds cond d v =
     (if cond = 1 then d < v else if cond = 2 then d \<le> v else if cond = 3 then v < d else if cond = 4 then v \<le> d
      else if cond = 5 then d = v else if cond = 6 then d \<noteq> v
      else if cond = 7 then sint d < sint v else if cond = 8 then sint d \<le> sint v
      else if cond = 9 then sint v < sint d else sint v \<le> sint d)"

lemma sub_word_result:
  assumes "unat c \<le> 1"
  shows "result (SignedSub32 x y c) = x - y - ucast c" "result (SignedAdd32 x y c) = x + y + ucast c"
    "carry_out (SignedAdd32 x y c) = of_bool (2 ^ 32 \<le> unat x + unat y + unat c)"
  using assms by (simp_all add: SignedSub32_def SignedSub_eq SignedAdd32_def SignedAdd_eq adder_of_def)

lemma CMPI_flags:
  assumes "regs_ok (regs t)"
  shows "sum_flags (d - v) (sint d < sint v) (d < v) (\<not> in_signed TYPE(32) (sint d - sint v)) t
    (let r = SignedSub32 d v 0 in GenFlags (result r) RESET_UFNZVC GEN_LVNZVC (ucast (sign r XOR overflow r))
      (ucast (carry_out r)) (ucast (overflow r)) t)"
proof -
  have upd: "sign (r\<lparr>sign := x\<rparr>) = x" "overflow (r\<lparr>sign := x\<rparr>) = overflow r" "carry_out (r\<lparr>sign := x\<rparr>) = carry_out r"
    for r :: "u32 adder_out" and x by simp_all
  have "exact_out False (sint d - sint v) (d < v) (sub_ovm False d v 0)"
    using sub_ovm_exact [of 0 False d v] by (simp add: word_less_nat_alt)
  then have h: "carry_out (SignedSub32 d v 0) = of_bool (d < v)"
    "overflow (SignedSub32 d v 0) = of_bool (\<not> in_signed TYPE(32) (sint d - sint v))"
    "sign (SignedSub32 d v 0) XOR overflow (SignedSub32 d v 0) = of_bool (sint d < sint v)"
    unfolding sub_ovm_def exact_out_def Let_def if_False upd diff_less_0_iff_less by blast+
  have r: "result (SignedSub32 d v 0) = d - v" using sub_word_result [of 0 d v] by simp
  show ?thesis unfolding Let_def unfolding h(3) unfolding h(1,2) r ucast_of_bool by (rule sum_flags_gen [OF assms])
qed

text \<open>
  C10: after a comparison every condition from 1 to 10 is the relation it is named for: the unsigned and signed
  orders, equality and their negations, also where the difference overflows.
\<close>

theorem compare_conditions:
  assumes "load_operand port opnd s = (Inr v, t)" and "has_operand opnd" and "HasReg dst" and "regs_ok (regs t)"
  shows "\<exists>s'. CMPI_execute port opnd dst s = (Inr (), s') \<and>
    (\<forall>cond \<in> {1..10}. CheckCondition cond s' \<longleftrightarrow> compare_holds cond (GetReg dst t) v) \<and>
    (\<forall>k < 32. k \<noteq> REG_ST \<longrightarrow> GetReg k s' = GetReg k t) \<and> s' = t\<lparr>regs := regs s'\<rparr>"
proof -
  define d where "d = GetReg dst t"
  define s' where "s' = (let r = SignedSub32 d v 0 in GenFlags (result r) RESET_UFNZVC GEN_LVNZVC
    (ucast (sign r XOR overflow r)) (ucast (carry_out r)) (ucast (overflow r)) t)"
  have run: "CMPI_execute port opnd dst s = (Inr (), s')"
    unfolding CMPI_execute_def with_operand_run [OF assms(2,3,1)] s'_def d_def ..
  have f: "sum_flags (d - v) (sint d < sint v) (d < v) (\<not> in_signed TYPE(32) (sint d - sint v)) t s'"
    unfolding s'_def by (rule CMPI_flags [OF assms(4)])
  have flags: "GetST_N s' \<longleftrightarrow> sint d < sint v" "bit (GetST s') ST_Z \<longleftrightarrow> d = v" "GetST_C s' \<longleftrightarrow> d < v"
    using f by (simp_all add: sum_flags_def)
  have le: "d \<le> v \<longleftrightarrow> d < v \<or> d = v" "v \<le> d \<longleftrightarrow> \<not> d < v" "v < d \<longleftrightarrow> \<not> d < v \<and> d \<noteq> v"
    "sint d \<le> sint v \<longleftrightarrow> sint d < sint v \<or> d = v" "sint v \<le> sint d \<longleftrightarrow> \<not> sint d < sint v"
    "sint v < sint d \<longleftrightarrow> \<not> sint d < sint v \<and> d \<noteq> v"
    using sint_inject32 [of d v] by auto
  have "CheckCondition cond s' \<longleftrightarrow> compare_holds cond d v" if "cond \<in> {1..10}" for cond
  proof -
    have "cond \<in> {1, 2, 3, 4, 5, 6, 7, 8, 9, 10}" using that by (auto, presburger)
    then show ?thesis
      by (elim insertE emptyE) (simp_all only: conditions compare_holds_def flags le simp_thms eq_numeral_simps
        one_eq_numeral_iff numeral_eq_one_iff numeral_eq_iff num.distinct num.inject if_True if_False)
  qed
  moreover have "GetReg k s' = GetReg k t" if "k < 32" "k \<noteq> REG_ST" for k
    unfolding s'_def Let_def by (rule GetReg_GenFlags [OF assms(4) that])
  moreover have "s' = t\<lparr>regs := regs s'\<rparr>"
    by (simp add: s'_def Let_def GenFlags_def SetST_def SetReg_def)
  ultimately show ?thesis using run unfolding d_def by blast
qed

theorem compare_conditions_witness:
  "\<exists>s'. CMPI_execute no_port (Op_imm 1) 0 (with_regs [0x80000000]) = (Inr (), s') \<and>
    CheckCondition 7 s' \<and> \<not> CheckCondition 1 s'"
proof -
  have d: "GetReg 0 (with_regs [0x80000000]) = 0x80000000" by code_simp
  have c: "compare_holds 7 0x80000000 1" "\<not> compare_holds 1 0x80000000 1" by (simp_all add: compare_holds_def)
  obtain s' where "CMPI_execute no_port (Op_imm 1) 0 (with_regs [0x80000000]) = (Inr (), s')"
    and "\<forall>cond \<in> {1..10}. CheckCondition cond s' \<longleftrightarrow> compare_holds cond 0x80000000 1"
    using compare_conditions [of no_port "Op_imm 1" "with_regs [0x80000000]" 1 "with_regs [0x80000000]" 0]
      with_regs_ok [of "[0x80000000]"] unfolding d by (auto simp: HasReg_def)
  then show ?thesis using c by (intro exI [of _ s']) simp
qed

section \<open>Sums of two words\<close>

text \<open>Without saturation the register holds the sum of the words.\<close>

lemma wrapped_sum:
  fixes r x y :: u32
  assumes "sint r = ovm_value False (sint x + sint y + of_bool c)"
  shows "unat r = (if unat x + unat y + of_bool c < 2 ^ 32 then unat x + unat y + of_bool c
                   else unat x + unat y + of_bool c - 2 ^ 32)"
proof -
  have c: "unat (of_bool c :: u8) = of_bool c" "unat (of_bool c :: u8) \<le> 1" by simp_all
  have "sint r = sint (x + y + ucast (of_bool c :: u8))"
    using assms sint_add_wrap [OF c(2), of x y] by (simp add: ovm_value_def c(1))
  then have "r = x + y + ucast (of_bool c :: u8)" by (simp only: sint_inject32)
  then show ?thesis using add_carry_cases [OF c(2), of x y] by (simp add: c(1))
qed

text \<open>
  an addition of two low words followed by an addition with carry of two high words adds 64-bit numbers,
  and the carry flag is the carry of the 64-bit sum.
\<close>

theorem double_word_sum:
  assumes "regs_ok (regs s)" and "\<not> GetST_OVM s" and "IsExtReg lo" and "IsExtReg hi" and "hi \<noteq> lo"
    and "HasReg lo_src" and "HasReg hi_src" and "hi_src \<noteq> lo" and "hi_src \<noteq> REG_ST"
  shows "\<exists>s'. act_bind (ADDI_execute port (Op_reg lo_src) lo s) (\<lambda>_. ADDC_execute port (Op_reg hi_src) hi) = (Inr (), s') \<and>
    2 ^ 32 * unat (GetReg hi s') + unat (GetReg lo s') + (if GetST_C s' then 2 ^ 64 else 0) =
    (2 ^ 32 * unat (GetReg hi s) + unat (GetReg lo s)) + (2 ^ 32 * unat (GetReg hi_src s) + unat (GetReg lo_src s))"
proof -
  have R: "HasReg lo" "HasReg hi" "lo < 32" "hi < 32" "hi_src < 32" "hi \<noteq> REG_ST" "lo \<noteq> REG_ST"
    using assms(3,4,7) by (auto simp: IsExtReg_def HasReg_def REG_ST_def)
  obtain r where r: "ADDI_execute port (Op_reg lo_src) lo s = (Inr (), write_sum lo r s)"
    "exact_out False (sint (GetReg lo s) + sint (GetReg lo_src s)) (2 ^ 32 \<le> unat (GetReg lo s) + unat (GetReg lo_src s)) r"
    using sum_executes [of ADDI lo s "GetReg lo_src s" _ _ "Op_reg lo_src" port s] assms(2,6) R(1) by auto
  define t where "t = write_sum lo r s"
  note w = write_sum_exact [OF assms(1,3) r(2), folded t_def]
  have t: "\<not> GetST_OVM t" "GetST_C t \<longleftrightarrow> 2 ^ 32 \<le> unat (GetReg lo s) + unat (GetReg lo_src s)"
    "GetReg hi t = GetReg hi s" "GetReg hi_src t = GetReg hi_src s"
    using w(2) w(3) assms R by (simp_all add: sum_flags_def)
  obtain q where q: "ADDC_execute port (Op_reg hi_src) hi t = (Inr (), write_sum hi q t)"
    "exact_out False (sint (GetReg hi t) + sint (GetReg hi_src t) + of_bool (GetST_C t))
       (2 ^ 32 \<le> unat (GetReg hi t) + unat (GetReg hi_src t) + of_bool (GetST_C t)) q"
    using sum_executes [of ADDC hi t "GetReg hi_src t" _ _ "Op_reg hi_src" port t] t(1) assms(7) R(2) by auto
  define s' where "s' = write_sum hi q t"
  note x = write_sum_exact [OF w(4) assms(4) q(2), folded s'_def]
  have s': "GetReg lo s' = GetReg lo t" "GetST_C s' \<longleftrightarrow> 2 ^ 32 \<le> unat (GetReg hi s) + unat (GetReg hi_src s) + of_bool (GetST_C t)"
    using x(2) x(3) [of lo] R assms(5) t(3,4) by (simp_all add: sum_flags_def)
  have "unat (GetReg lo s') = (if GetST_C t then unat (GetReg lo s) + unat (GetReg lo_src s) - 2 ^ 32
      else unat (GetReg lo s) + unat (GetReg lo_src s))"
    using wrapped_sum [of "GetReg lo t" "GetReg lo s" "GetReg lo_src s" False] w(1) t(2) by (simp add: s'(1))
  moreover have "unat (GetReg hi s') = (if GetST_C s' then unat (GetReg hi s) + unat (GetReg hi_src s) + of_bool (GetST_C t) - 2 ^ 32
      else unat (GetReg hi s) + unat (GetReg hi_src s) + of_bool (GetST_C t))"
    using wrapped_sum [OF x(1)] s'(2) t(3,4) by simp
  ultimately have "2 ^ 32 * unat (GetReg hi s') + unat (GetReg lo s') + (if GetST_C s' then 2 ^ 64 else 0) =
    (2 ^ 32 * unat (GetReg hi s) + unat (GetReg lo s)) + (2 ^ 32 * unat (GetReg hi_src s) + unat (GetReg lo_src s))"
    using t(2) s'(2) by (auto split: if_splits)
  then show ?thesis using r(1) q(1) by (auto simp: t_def s'_def)
qed

theorem double_word_sum_witness:
  "\<exists>s'. act_bind (ADDI_execute no_port (Op_reg 2) 0 (with_regs [0xffffffff, 1, 1, 2])) (\<lambda>_. ADDC_execute no_port (Op_reg 3) 1) =
      (Inr (), s') \<and> 2 ^ 32 * unat (GetReg 1 s') + unat (GetReg 0 s') + (if GetST_C s' then 2 ^ 64 else 0) = 2 ^ 32 * 4"
proof -
  have d: "GetReg 0 (with_regs [0xffffffff, 1, 1, 2]) = 0xffffffff" "GetReg 1 (with_regs [0xffffffff, 1, 1, 2]) = 1"
    "GetReg 2 (with_regs [0xffffffff, 1, 1, 2]) = 1" "GetReg 3 (with_regs [0xffffffff, 1, 1, 2]) = 2"
    "GetST_OVM (with_regs [0xffffffff, 1, 1, 2]) = False" by code_simp+
  show ?thesis
    using double_word_sum [of "with_regs [0xffffffff, 1, 1, 2]" 0 1 2 3 no_port] with_regs_ok [of "[0xffffffff, 1, 1, 2]"]
    unfolding d by (simp add: IsExtReg_def HasReg_def REG_ST_def)
qed

end
