(* ===== verification/C3X_Shift.thy ===== *)
theory C3X_Shift
  imports C3X_Compute
begin

text \<open>
  The arithmetic and logical shifts of the TMS320C3X: multiplication and division by powers of two.
\<close>

lemma shift_amount:
  assumes "0 \<le> count" and "count < 32"
  shows "unat (word_of_int count AND (31 :: u32)) = nat count"
proof -
  have "unat (word_of_int count AND (31 :: u32)) = unat (word_of_int count :: u32) mod 32"
    using unat_and_mask [of "word_of_int count" 5] by (simp add: mask_eq_exp_minus_1)
  also have "unat (word_of_int count :: u32) = nat count"
    using assms by (simp add: unsigned_of_int take_bit_int_eq_self)
  finally show ?thesis using assms by simp
qed

text \<open>The bits above \<open>n\<close> are zero exactly for the numbers below \<open>2 ^ n\<close>.\<close>

lemma upper_bits_zero: "w AND NOT (mask n) = 0 \<longleftrightarrow> unat (w :: u32) < 2 ^ n"
proof -
  have "w AND NOT (mask n) = 0 \<longleftrightarrow> drop_bit n w = 0"
  proof
    assume "w AND NOT (mask n) = 0"
    moreover have "drop_bit n (w AND NOT (mask n)) = drop_bit n w"
      by (rule bit_word_eqI) (auto simp: bit_simps dest: bit_imp_le_length)
    ultimately show "drop_bit n w = 0" by simp
  next
    assume "drop_bit n w = 0"
    moreover have "w AND NOT (mask n) = push_bit n (drop_bit n w)"
      by (rule bit_word_eqI) (auto simp: bit_simps)
    ultimately show "w AND NOT (mask n) = 0" by simp
  qed
  also have "\<dots> \<longleftrightarrow> unat w div 2 ^ n = 0" by (simp add: word_unat_eq_iff unat_drop_bit)
  also have "\<dots> \<longleftrightarrow> unat w < 2 ^ n" by (simp add: div_eq_0_iff)
  finally show ?thesis .
qed

lemma sign_mask:
  assumes "k < 32"
  shows "signed_drop_bit k (0x80000000 :: u32) = NOT (mask (31 - k))"
proof -
  define z :: u32 where "z = 0x80000000"
  have "bit z j \<longleftrightarrow> j = 31" for j using bit_power [of 31 j] by (auto simp: z_def)
  then have "bit (signed_drop_bit k z) i \<longleftrightarrow> bit (NOT (mask (31 - k)) :: u32) i" if "i < 32" for i
    using assms that by (simp add: bit_signed_drop_bit_iff bit_not_iff bit_mask_iff) arith
  then show ?thesis unfolding z_def by (intro bit_word_eqI) simp
qed

lemma signed_range_bits:
  assumes "D < 2 ^ 32" and "P \<le> 2 ^ 31" and "s = int D - (if 2 ^ 31 \<le> D then 2 ^ 32 else 0)"
  shows "\<not> D < P \<and> \<not> 2 ^ 32 - 1 - D < P \<longleftrightarrow> \<not> (- int P \<le> s \<and> s < int P)"
  using assms by (cases "2 ^ 31 \<le> D") (simp_all, linarith+)

text \<open>The lost bits and the new sign agree exactly when the product fits.\<close>

lemma lost_bits:
  assumes "k < 32"
  defines "m \<equiv> signed_drop_bit k (0x80000000 :: u32)"
  shows "(if d AND m \<noteq> 0 then d AND m \<noteq> m else d AND m \<noteq> 0) \<longleftrightarrow> \<not> in_signed TYPE(32) (sint d * 2 ^ k)"
proof -
  define n where "n = 31 - k"
  have m: "m = NOT (mask n)" unfolding m_def n_def by (rule sign_mask [OF assms(1)])
  have "d AND m = m \<longleftrightarrow> NOT d AND m = 0"
    unfolding bit_eq_iff by (auto simp: bit_and_iff bit_not_iff dest: bit_imp_le_length)
  then have ones: "d AND m = m \<longleftrightarrow> unat (NOT d) < 2 ^ n" by (simp only: m upper_bits_zero)
  have not_d: "unat (NOT d) = 2 ^ 32 - 1 - unat d"
  proof -
    have "NOT d = (- 1) - d" by (simp add: not_eq_complement)
    then show ?thesis using unat_sub [of d "- 1"] by (simp add: unsigned_minus_1_eq_mask mask_eq_exp_minus_1)
  qed
  have zeros: "d AND m = 0 \<longleftrightarrow> unat d < 2 ^ n" by (simp only: m upper_bits_zero)
  have fits: "in_signed TYPE(32) (sint d * 2 ^ k) \<longleftrightarrow> - (2 ^ n) \<le> sint d \<and> sint d < 2 ^ n"
  proof -
    have p: "(2 :: int) ^ 31 = 2 ^ n * 2 ^ k" using assms(1) by (simp add: n_def flip: power_add)
    have "- (2 ^ 31) \<le> sint d * 2 ^ k \<longleftrightarrow> - (2 ^ n) * 2 ^ k \<le> sint d * (2 ^ k :: int)" unfolding p by simp
    then have "- (2 ^ 31) \<le> sint d * 2 ^ k \<longleftrightarrow> - (2 ^ n) \<le> sint d" by (simp only: mult_le_cancel_right) simp
    moreover have "sint d * 2 ^ k < 2 ^ 31 \<longleftrightarrow> sint d < 2 ^ n" unfolding p by simp
    ultimately show ?thesis by (simp add: in_signed_def)
  qed
  have "(2 :: nat) ^ n \<le> 2 ^ 31" unfolding n_def by (intro power_increasing) simp_all
  then have "\<not> unat d < 2 ^ n \<and> \<not> 2 ^ 32 - 1 - unat d < 2 ^ n \<longleftrightarrow> \<not> (- int (2 ^ n) \<le> sint d \<and> sint d < int (2 ^ n))"
    using sint_by_half [of d] unat_less_twice [of d] by (intro signed_range_bits) (simp_all del: of_nat_unat)
  then show ?thesis unfolding ones not_d zeros fits by (simp only: of_nat_power of_nat_numeral if_True if_False) argo
qed

text \<open>The value of every shift and when it overflows.\<close>

lemma push_bit_sint: "push_bit k (d :: u32) = word_of_int (sint d * 2 ^ k)"
  by (simp add: push_bit_eq_mult)

lemma signed_drop_bit_sint: "signed_drop_bit k (d :: u32) = word_of_int (sint d div 2 ^ k)"
proof -
  have "sint (signed_drop_bit k d) = sint d div 2 ^ k" by (simp add: sint_signed_drop_bit_eq drop_bit_eq_div)
  then show ?thesis by (metis of_int_sint scast_id)
qed

lemma ash_result_value:
  assumes "- 64 \<le> count" and "count < 64"
  shows "fst (ash_result d count) = word_of_int (if 0 \<le> count then sint d * 2 ^ nat count else sint d div 2 ^ nat (- count))"
    and "snd (snd (ash_result d count)) \<longleftrightarrow> 0 \<le> count \<and> \<not> in_signed TYPE(32) (sint d * 2 ^ nat count)"
proof -
  have range: "- (2 ^ 31) \<le> sint d" "sint d < 2 ^ 31" using in_signed_sint [of d] by (simp_all add: in_signed_def)
  have "fst (ash_result d count) = word_of_int (if 0 \<le> count then sint d * 2 ^ nat count else sint d div 2 ^ nat (- count)) \<and>
    (snd (snd (ash_result d count)) \<longleftrightarrow> 0 \<le> count \<and> \<not> in_signed TYPE(32) (sint d * 2 ^ nat count))"
  proof -
    consider "count = 0" | "0 < count" "count < 32" | "32 \<le> count" | "count < 0" "- 32 < count" | "count \<le> - 32"
      by linarith
    then show ?thesis
    proof cases
      case 1
      then show ?thesis using in_signed_sint [of d] by (simp add: ash_result_def)
    next
      case 2
      then have "nat count < 32" by simp
      then show ?thesis using 2 shift_amount [of count] lost_bits [of "nat count" d]
        by (simp add: ash_result_def ShiftLeft_out_def Let_def push_bit_sint)
    next
      case 3
      then obtain j where j: "nat count = 32 + j" using nat_le_iff_add [of 32 "nat count"] by auto
      have "push_bit (nat count) d = 0" by (rule bit_word_eqI) (simp add: bit_push_bit_iff j)
      moreover have "in_signed TYPE(32) (sint d * 2 ^ nat count) \<longleftrightarrow> d = 0"
      proof
        assume "in_signed TYPE(32) (sint d * 2 ^ nat count)"
        moreover have "sint d * 2 ^ nat count = 2 ^ 32 * (sint d * 2 ^ j)" by (simp add: j power_add)
        ultimately have "- 1 \<le> 2 * (sint d * 2 ^ j)" "2 * (sint d * 2 ^ j) < 1" by (simp_all only: in_signed_def half_values) simp_all
        then have "sint d * 2 ^ j = 0" by presburger
        then have "sint d = 0" by simp
        then show "d = 0" using sint_inject32 [of d 0] by simp
      qed (simp add: in_signed_def)
      ultimately show ?thesis using 3 by (simp add: ash_result_def push_bit_sint)
    next
      case 4
      then show ?thesis using shift_amount [of "- count"]
        by (simp add: ash_result_def ShiftArithmeticRight_out_def Let_def signed_drop_bit_sint)
    next
      case 5
      then have "(2 :: int) ^ 32 \<le> 2 ^ nat (- count)" by (intro power_increasing) simp_all
      then have "sint d div 2 ^ nat (- count) = (if sint d < 0 then - 1 else 0)"
        using range int_div_pos_eq [of "sint d" "2 ^ nat (- count)" "- 1" "sint d + 2 ^ nat (- count)"]
        by (simp add: div_pos_pos_trivial)
      moreover have "d AND 0x80000000 \<noteq> 0 \<longleftrightarrow> sint d < 0"
        using and_exp_eq_0_iff_not_bit [of d 31] bit_last_iff [of d] by simp
      ultimately show ?thesis using 5 by (simp add: ash_result_def Let_def)
    qed
  qed
  then show "fst (ash_result d count) = word_of_int (if 0 \<le> count then sint d * 2 ^ nat count else sint d div 2 ^ nat (- count))"
    and "snd (snd (ash_result d count)) \<longleftrightarrow> 0 \<le> count \<and> \<not> in_signed TYPE(32) (sint d * 2 ^ nat count)" by blast+
qed

lemma shift_count_range: "- 64 \<le> shift_count v" "shift_count v < 64"
  using signed_take_bit_int_greater_eq_minus_exp [of 6 "uint v"] signed_take_bit_int_less_exp [of 6 "uint v"]
  by (simp_all add: shift_count_def SignExtend32_def sint_sign_extend)

lemma one_bit: "(ucast (x AND 1 :: u32) :: u8) = of_bool (bit x 0)" "(ucast (drop_bit 31 x :: u32) :: u8) = of_bool (bit x 31)"
proof -
  show "(ucast (x AND 1 :: u32) :: u8) = of_bool (bit x 0)" 
    by (rule bit_word_eqI) (auto simp: bit_simps simp del: One_nat_def)
  have "drop_bit 31 x = of_bool (bit x 31)"
  proof (rule bit_word_eqI)
    fix n assume "n < LENGTH(32)"
    show "bit (drop_bit 31 x) n = bit (of_bool (bit x 31) :: u32) n"
      using bit_imp_le_length [of x "31 + n"] by (cases n) (auto simp: bit_drop_bit_eq bit_simps)
  qed
  then show "(ucast (drop_bit 31 x :: u32) :: u8) = of_bool (bit x 31)" by simp
qed

lemma ash_result_carry: obtains c where "fst (snd (ash_result d count)) = of_bool c"
proof -
  have "\<exists>c. fst (snd (ash_result d count)) = of_bool c"
    unfolding ash_result_def ShiftLeft_out_def ShiftArithmeticRight_out_def Let_def one_bit
    by (auto intro: exI [of _ False])
  then show thesis using that by blast
qed

text \<open>
  C17: an arithmetic shift multiplies by a power of two modulo the word size, or divides rounding down for a
  negative count; the overflow flag is set exactly when the product does not fit a signed word, and the
  negative flag is the sign of the result.
\<close>

theorem arithmetic_shift_scales:
  assumes "load_operand port opnd s = (Inr v, t)" and "has_operand opnd" and "IsExtReg dst" and "regs_ok (regs t)"
  defines "count \<equiv> shift_count v" and "d \<equiv> sint (GetReg dst t)"
  shows "\<exists>s'. ASH_execute port opnd dst s = (Inr (), s') \<and>
    GetReg dst s' = word_of_int (if 0 \<le> count then d * 2 ^ nat count else d div 2 ^ nat (- count)) \<and>
    (GetST_V s' \<longleftrightarrow> 0 \<le> count \<and> \<not> in_signed TYPE(32) (d * 2 ^ nat count)) \<and>
    (GetST_N s' \<longleftrightarrow> sint (GetReg dst s') < 0) \<and> s' = t\<lparr>regs := regs s'\<rparr>"
proof -
  obtain r cy ov where a: "ash_result (GetReg dst t) count = (r, cy, ov)" by (cases "ash_result (GetReg dst t) count")
  note v = ash_result_value [OF shift_count_range(1) [of v] shift_count_range(2), of "GetReg dst t", folded count_def d_def, unfolded a fst_conv snd_conv]
  have R: "HasReg dst" "dst < 32" "dst \<noteq> REG_ST" "write_mask dst = - 1"
    using assms(3) write_mask_plain [of dst] by (auto simp: IsExtReg_def HasReg_def REG_ST_def)
  define t1 where "t1 = SetReg dst r t"
  have t1: "regs_ok (regs t1)" using assms(4) by (simp add: t1_def)
  obtain c where c: "cy = of_bool c" using ash_result_carry [of "GetReg dst t" count] unfolding a by auto
  define s' where "s' = write_result dst r RESET_UFNZVC GEN_LVNZVC (is_neg32 r) (ucast cy) (of_bool ov) t"
  have run: "ASH_execute port opnd dst s = (Inr (), s')"
    using with_operand_run [OF assms(2) R(1) assms(1)] a by (simp add: ASH_execute_def count_def s'_def)
  have s': "s' = GenFlags r RESET_UFNZVC GEN_LVNZVC (of_bool (sint r < 0)) (of_bool c) (of_bool ov) t1"
    using assms(3) c by (simp add: s'_def write_result_def t1_def is_neg32_def Let_def)
  have "GetReg dst s' = r"
    using GetReg_GenFlags [OF t1 R(2,3)] GetReg_SetReg [OF assms(4) R(2,2)] R(4) by (simp add: s' t1_def)
  moreover have "GetST_V s' \<longleftrightarrow> ov" "GetST_N s' \<longleftrightarrow> sint r < 0"
    using sum_flags_gen [OF t1, of r "sint r < 0" c ov] by (simp_all add: s' sum_flags_def)
  moreover have "s' = t\<lparr>regs := regs s'\<rparr>" by (simp add: s' t1_def GenFlags_def Let_def SetST_def SetReg_def)
  ultimately show ?thesis using run v by auto
qed

theorem arithmetic_shift_scales_witness:
  "\<exists>s'. ASH_execute no_port (Op_imm 0x7f) 0 (with_regs [0xfffffff9]) = (Inr (), s') \<and>
    GetReg 0 s' = word_of_int (- 4) \<and> \<not> GetST_V s'"
proof -
  have d: "GetReg 0 (with_regs [0xfffffff9]) = 0xfffffff9" "shift_count 0x7f = - 1" by code_simp+
  show ?thesis
    using arithmetic_shift_scales [of no_port "Op_imm 0x7f" "with_regs [0xfffffff9]" "0x7f" "with_regs [0xfffffff9]" 0]
      with_regs_ok [of "[0xfffffff9]"] unfolding d by (auto simp: IsExtReg_def)
qed

end
