(* ===== verification/C3X_Load.thy ===== *)
theory C3X_Load
  imports C3X_Integer
begin

text \<open>
  The load, store and interlocked instructions of the TMS320C3X (\<open>isa/load_store.isa\<close>,
  \<open>isa/interlock.isa\<close>). Two parameters of the processor say whether the floating-point instructions accept
  the registers without an exponent, and whether \<open>RND\<close> resets the zero flag as the chip does. An exponent
  such a register is given by an instruction stays in it: it is written through the write mask.
\<close>

section \<open>Parameters and registers\<close>

record c3x_params =
  EnableFloatOpsWithNonExtRegs :: bool
  EnableRndBug :: bool
  EnableParallelLoadBug :: bool
  EnableParallelStoreBug :: bool

text \<open>The values the processor is constructed with.\<close>

definition default_params :: c3x_params where
  "default_params = \<lparr>EnableFloatOpsWithNonExtRegs = False, EnableRndBug = True, EnableParallelLoadBug = True,
     EnableParallelStoreBug = True\<rparr>"

definition float_reg :: "c3x_params \<Rightarrow> nat \<Rightarrow> bool" where
  "float_reg fc n = (if \<not> EnableFloatOpsWithNonExtRegs fc then IsExtReg n else HasReg n)"

fun float_operand :: "c3x_params \<Rightarrow> c3x_operand \<Rightarrow> bool" where
  "float_operand fc (Op_reg src) = float_reg fc src"
| "float_operand fc _ = True"

text \<open>Writing through the reference to a register, and the exponent and mask given to one without exponent.\<close>

definition SetExtReg :: "nat \<Rightarrow> c3x_register \<Rightarrow> 'm c3x_cpu \<Rightarrow> 'm c3x_cpu" where
  "SetExtReg n r s = s\<lparr>regs := (regs s)[REG_R0 + n := r]\<rparr>"

definition give_exponent :: "nat \<Rightarrow> u8 \<Rightarrow> 'm c3x_cpu \<Rightarrow> 'm c3x_cpu" where
  "give_exponent n h s = (if \<not> IsExtReg n then SetExtReg n (SetHiWriteMask 0 h (GetExtReg n s)) s else s)"

text \<open>Both registers of an instruction between registers.\<close>

definition give_exponents :: "nat \<Rightarrow> nat \<Rightarrow> u8 \<Rightarrow> 'm c3x_cpu \<Rightarrow> 'm c3x_cpu" where
  "give_exponents src dst h s =
     (if \<not> IsExtReg src then give_exponent dst h (give_exponent src h s) else give_exponent dst 0 s)"

definition copy_reg :: "nat \<Rightarrow> nat \<Rightarrow> 'm c3x_cpu \<Rightarrow> 'm c3x_cpu" where
  "copy_reg src dst s = (if src = dst then s else SetExtReg dst (assign_Register (GetExtReg src s) (GetExtReg dst s)) s)"

section \<open>Loads\<close>

definition load_flags :: "nat \<Rightarrow> 'm c3x_cpu \<Rightarrow> 'm c3x_cpu" where
  "load_flags dst s = GenFlags_float (GetExtReg dst s) RESET_UFNZV RESET_UFNZV 0 0 (IsNeg (GetExtReg dst s)) s"

definition LDF_execute :: "c3x_params \<Rightarrow> 'm mem_port \<Rightarrow> c3x_operand \<Rightarrow> nat \<Rightarrow> (unit, 'm) action" where
  "LDF_execute fc port opnd dst s =
     (if \<not> float_operand fc opnd \<or> \<not> float_reg fc dst then (Inl BogusOpcode, s)
      else let flags = (\<lambda>s. (Inr (), if IsExtReg dst then load_flags dst s else s))
      in case opnd of
           Op_reg src \<Rightarrow> flags (copy_reg src dst (give_exponent src 0x08 s))
         | Op_imm imm \<Rightarrow> flags (SetExtReg dst (SetFromShortFPFormat (ucast imm) (GetExtReg dst s)) s)
         | _ \<Rightarrow> act_bind (load_operand port opnd s) (\<lambda>v s.
             flags (SetExtReg dst (SetFromSinglePrecisionFPFormat v (GetExtReg dst s)) s)))"

text \<open>A conditional load reads the word at a direct address whatever the condition is.\<close>

definition LDFcond_execute :: "c3x_params \<Rightarrow> 'm mem_port \<Rightarrow> nat \<Rightarrow> c3x_operand \<Rightarrow> nat \<Rightarrow> (unit, 'm) action" where
  "LDFcond_execute fc port cond opnd dst s =
     (if \<not> float_operand fc opnd \<or> \<not> float_reg fc dst then (Inl BogusOpcode, s)
      else let single = (\<lambda>v s. SetExtReg dst (SetFromSinglePrecisionFPFormat v (GetExtReg dst s)) s)
      in case opnd of
           Op_reg src \<Rightarrow> (Inr (), if \<not> CheckCondition cond s then s else copy_reg src dst (give_exponent src 0x08 s))
         | Op_dir direct \<Rightarrow> act_bind (IntLoad port (ComputeDirEA direct s) s) (\<lambda>v s.
             (Inr (), if \<not> CheckCondition cond s then s else single v s))
         | Op_indir md ar disp \<Rightarrow> act_bind (indirect_address md ar disp s) (\<lambda>ea s.
             if \<not> CheckCondition cond s then (Inr (), s)
             else act_bind (IntLoad port ea s) (\<lambda>v s. (Inr (), single v s)))
         | Op_imm imm \<Rightarrow> (Inr (), if \<not> CheckCondition cond s then s
             else SetExtReg dst (SetFromShortFPFormat (ucast imm) (GetExtReg dst s)) s))"

definition LDI_execute :: "'m mem_port \<Rightarrow> c3x_operand \<Rightarrow> nat \<Rightarrow> (unit, 'm) action" where
  "LDI_execute port opnd dst = with_operand port opnd dst (\<lambda>v. write_logic dst v)"

definition LDIcond_execute :: "'m mem_port \<Rightarrow> nat \<Rightarrow> c3x_operand \<Rightarrow> nat \<Rightarrow> (unit, 'm) action" where
  "LDIcond_execute port cond opnd dst s =
     (if \<not> has_operand opnd \<or> \<not> HasReg dst \<or> \<not> HasCondition cond then (Inl BogusOpcode, s)
      else case opnd of
        Op_indir md ar disp \<Rightarrow> act_bind (indirect_address md ar disp s) (\<lambda>ea s.
          if \<not> CheckCondition cond s then (Inr (), s)
          else act_bind (IntLoad port ea s) (\<lambda>v s. (Inr (), SetReg dst v s)))
      | _ \<Rightarrow> if \<not> CheckCondition cond s then (Inr (), s)
            else act_bind (load_operand port opnd s) (\<lambda>v s. (Inr (), SetReg dst v s)))"

text \<open>The exponent alone.\<close>

definition lde_digit :: "u32 \<Rightarrow> u32" where
  "lde_digit lo = (let d = drop_bit 4 (lo AND 0x0ff0) AND 0x0f in if d \<le> 9 then d + 0x30 else (d - 9) + 0x60)"

text \<open>
  The integer registers without exponent get what the hardware was observed to leave in them: a character
  computed from the old value, or a constant for certain bytes of it.
\<close>

definition lde_observed :: "u32 set \<Rightarrow> u32 \<Rightarrow> u32" where
  "lde_observed bytes lo = (if drop_bit 4 (lo AND 0x0ff0) \<in> bytes then 0x5041c200 else lde_digit lo)"

definition LDE_execute :: "c3x_params \<Rightarrow> 'm mem_port \<Rightarrow> c3x_operand \<Rightarrow> nat \<Rightarrow> (unit, 'm) action" where
  "LDE_execute fc port opnd dst s =
     (if \<not> float_operand fc opnd \<or> \<not> float_reg fc dst then (Inl BogusOpcode, s)
      else let upd = (\<lambda>f s. (Inr (), SetExtReg dst (f (GetExtReg dst s)) s));
               observed = (\<lambda>h bytes r. SetLo (if h = 0x80 then 0 else lde_observed bytes (GetLo r)) r)
      in case opnd of
           Op_reg src \<Rightarrow>
             (let s = give_exponents src dst 0x08 s; q = GetExtReg src s
              in upd (if IsExtReg dst then LoadExp q
                      else if IsExtReg src then (\<lambda>r. SetLo (if GetHi q = 0x80 then 0 else lde_digit (GetLo r)) r)
                      else (\<lambda>r. SetLo (lde_observed {0xd5, 0x1a} (GetLo r)) r)) s)
         | Op_imm imm \<Rightarrow>
             upd (if IsExtReg dst then LoadExp16 (ucast imm) else observed (GetHi16 (ucast imm)) {0xd3}) (give_exponent dst 0 s)
         | _ \<Rightarrow> act_bind (load_operand port opnd s) (\<lambda>v s.
             upd (if IsExtReg dst then LoadExp32 v
                  else observed (GetHi32 v) (case opnd of Op_dir _ \<Rightarrow> {0x0b} | _ \<Rightarrow> {0xd3})) (give_exponent dst 0 s)))"

text \<open>The mantissa alone.\<close>

definition LDM_execute :: "c3x_params \<Rightarrow> 'm mem_port \<Rightarrow> c3x_operand \<Rightarrow> nat \<Rightarrow> (unit, 'm) action" where
  "LDM_execute fc port opnd dst s =
     (if \<not> float_operand fc opnd \<or> \<not> float_reg fc dst then (Inl BogusOpcode, s)
      else let upd = (\<lambda>f s. (Inr (), SetExtReg dst (f (GetExtReg dst s)) s))
      in case opnd of
           Op_reg src \<Rightarrow> (let s = give_exponents src dst 0x08 s in upd (LoadMan (GetExtReg src s)) s)
         | Op_imm imm \<Rightarrow> upd (LoadMan16 (ucast imm)) (give_exponent dst 0 s)
         | _ \<Rightarrow> act_bind (load_operand port opnd s) (\<lambda>v s. upd (LoadMan32 v) (give_exponent dst 0 s)))"

definition LDP_execute :: "u32 \<Rightarrow> (unit, 'm) action" where
  "LDP_execute src s = (Inr (), SetDP src s)"

section \<open>The stack\<close>

definition POP_execute :: "'m mem_port \<Rightarrow> nat \<Rightarrow> (unit, 'm) action" where
  "POP_execute port dst s =
     (if \<not> HasReg dst then (Inl BogusOpcode, s)
      else let sp = GetSP s
           in act_bind (IntLoad port (sp AND ADDRESS_MASK) s) (\<lambda>v s.
                let s = SetSP (sp - 1) (SetReg dst v s)
                in (Inr (), if IsExtReg dst then GenFlags v RESET_UFNZV GEN_NZ (is_neg32 v) 0 0 s else s)))"

text \<open>The negative flag is generated from a constant.\<close>

definition POPF_execute :: "c3x_params \<Rightarrow> 'm mem_port \<Rightarrow> nat \<Rightarrow> (unit, 'm) action" where
  "POPF_execute fc port dst s =
     (if \<not> float_reg fc dst then (Inl BogusOpcode, s)
      else let sp = GetSP s
           in act_bind (IntLoad port (sp AND ADDRESS_MASK) s) (\<lambda>v s.
                let s = give_exponent dst 0 s;
                    s = SetExtReg dst (SetHi (ucast (drop_bit 24 v)) (SetLo (push_bit 8 v) (GetExtReg dst s))) s;
                    s = SetSP (sp - 1) s
                in (Inr (), if IsExtReg dst then GenFlags_float (GetExtReg dst s) RESET_UFNZV GEN_NZ 0 0 0 s else s)))"

definition PUSH_execute :: "'m mem_port \<Rightarrow> nat \<Rightarrow> (unit, 'm) action" where
  "PUSH_execute port src s =
     (if \<not> HasReg src then (Inl BogusOpcode, s)
      else let v = GetReg src s; sp = GetSP s + 1
           in act_bind (IntStore port (sp AND ADDRESS_MASK) v s) (\<lambda>_ s. (Inr (), SetSP sp s)))"

text \<open>The register is copied, so a register without exponent is pushed with one and keeps its own.\<close>

definition PUSHF_execute :: "c3x_params \<Rightarrow> 'm mem_port \<Rightarrow> nat \<Rightarrow> (unit, 'm) action" where
  "PUSHF_execute fc port src s =
     (if \<not> float_reg fc src then (Inl BogusOpcode, s)
      else let r = GetExtReg src s; r = (if \<not> IsExtReg src then SetHiWriteMask 0 0x08 r else r);
               v = push_bit 24 (ucast (GetHi r)) + drop_bit 8 (GetLo r); sp = GetSP s + 1
           in act_bind (IntStore port (sp AND ADDRESS_MASK) v s) (\<lambda>_ s. (Inr (), SetSP sp s)))"

section \<open>Stores\<close>

fun store_address :: "c3x_operand \<Rightarrow> (u32, 'm) action" where
  "store_address (Op_indir md ar disp) s = indirect_address md ar disp s"
| "store_address (Op_dir direct) s = (Inr (ComputeDirEA direct s), s)"
| "store_address _ s = (Inl UnknownOpcode, s)"

definition STF_execute :: "c3x_params \<Rightarrow> 'm mem_port \<Rightarrow> nat \<Rightarrow> c3x_operand \<Rightarrow> (unit, 'm) action" where
  "STF_execute fc port src opnd s =
     (if \<not> float_reg fc src then (Inl BogusOpcode, s)
      else act_bind (store_address opnd s) (\<lambda>ea s.
        let s = give_exponent src (case opnd of Op_dir _ \<Rightarrow> 0x09 | _ \<Rightarrow> 0x08) s
        in IntStore port ea (GetSinglePrecisionFPFormat (GetExtReg src s)) s))"

definition STI_execute :: "'m mem_port \<Rightarrow> nat \<Rightarrow> c3x_operand \<Rightarrow> (unit, 'm) action" where
  "STI_execute port src opnd s =
     (if \<not> HasReg src then (Inl BogusOpcode, s)
      else act_bind (store_address opnd s) (\<lambda>ea s. IntStore port ea (GetReg src s) s))"

section \<open>Interlocked instructions\<close>

text \<open>
  The port of the base class does not look at the interlock. The floating-point ones do not check their
  registers and write the flags for every destination.
\<close>

definition LDFI_execute :: "'m mem_port \<Rightarrow> c3x_operand \<Rightarrow> nat \<Rightarrow> (unit, 'm) action" where
  "LDFI_execute port opnd dst s = act_bind (load_operand port opnd s) (\<lambda>v s.
     (Inr (), load_flags dst (SetExtReg dst (SetFromSinglePrecisionFPFormat v (GetExtReg dst s)) s)))"

definition LDII_execute :: "'m mem_port \<Rightarrow> c3x_operand \<Rightarrow> nat \<Rightarrow> (unit, 'm) action" where
  "LDII_execute port opnd dst = with_operand port opnd dst (\<lambda>v. write_logic dst v)"

definition SIGI_execute :: "(unit, 'm) action" where
  "SIGI_execute s = (Inl UnimplementedOpcode, s)"

definition STFI_execute :: "'m mem_port \<Rightarrow> nat \<Rightarrow> c3x_operand \<Rightarrow> (unit, 'm) action" where
  "STFI_execute port src opnd s =
     act_bind (store_address opnd s) (\<lambda>ea s. IntStore port ea (GetSinglePrecisionFPFormat (GetExtReg src s)) s)"

definition STII_execute :: "'m mem_port \<Rightarrow> nat \<Rightarrow> c3x_operand \<Rightarrow> (unit, 'm) action" where
  "STII_execute port src opnd s =
     (if \<not> HasReg src then (Inl BogusOpcode, s)
      else act_bind (store_address opnd s) (\<lambda>ea s. IntStore port ea (GetReg src s) s))"

section \<open>Decoding\<close>

datatype c3x_load_store =
    LDE c3x_operand nat | LDF c3x_operand nat | LDFcond nat c3x_operand nat | LDI c3x_operand nat
  | LDIcond nat c3x_operand nat | LDM c3x_operand nat | LDP u32 | POP nat | POPF nat | PUSH nat | PUSHF nat
  | STF nat c3x_operand | STI nat c3x_operand
  | LDFI c3x_operand nat | LDII c3x_operand nat | SIGI | STFI nat c3x_operand | STII nat c3x_operand

text \<open>A memory operand alone, for the stores and the interlocked loads.\<close>

definition decode_memory :: "u32 \<Rightarrow> c3x_operand option" where
  "decode_memory w = (if wfield 21 2 w = 1 \<or> wfield 21 2 w = 2 then decode_operand 0 w else None)"

definition decode_load_store :: "u32 \<Rightarrow> c3x_load_store option" where
  "decode_load_store w =
     (let opc = field 23 6 w; rg = field 16 5 w; cond = field 23 5 w; imm = wfield 0 16 w;
          stack = (\<lambda>i. if wfield 21 2 w = 1 \<and> wfield 0 16 w = 0 then Some (i rg) else None)
      in if wfield 28 4 w = 0b0100 then map_option (\<lambda>q. LDFcond cond q rg) (decode_operand imm w)
         else if wfield 28 4 w = 0b0101 then map_option (\<lambda>q. LDIcond cond q rg) (decode_operand (sext16 w) w)
         else if wfield 29 3 w \<noteq> 0 then None
         else if opc = 0b001101 then map_option (\<lambda>q. LDE q rg) (decode_operand imm w)
         else if opc = 0b001110 then map_option (\<lambda>q. LDF q rg) (decode_operand imm w)
         else if opc = 0b010000 then
           (if wfield 21 2 w = 3 \<and> rg = 0b10000 \<and> wfield 8 8 w = 0 then Some (LDP (wfield 0 8 w))
            else map_option (\<lambda>q. LDI q rg) (decode_operand (sext16 w) w))
         else if opc = 0b010010 then
           (if wfield 21 2 w = 3 \<and> wfield 12 4 w \<noteq> 0 then None
            else map_option (\<lambda>q. LDM q rg) (decode_operand (wfield 0 12 w) w))
         else if opc = 0b011100 then stack POP else if opc = 0b011101 then stack POPF
         else if opc = 0b011110 then stack PUSH else if opc = 0b011111 then stack PUSHF
         else if opc = 0b101000 then map_option (STF rg) (decode_memory w)
         else if opc = 0b101010 then map_option (STI rg) (decode_memory w)
         else if opc = 0b001111 then map_option (\<lambda>q. LDFI q rg) (decode_memory w)
         else if opc = 0b010001 then map_option (\<lambda>q. LDII q rg) (decode_memory w)
         else if opc = 0b101100 then (if wfield 0 23 w = 0 then Some SIGI else None)
         else if opc = 0b101001 then map_option (STFI rg) (decode_memory w)
         else if opc = 0b101011 then map_option (STII rg) (decode_memory w)
         else None)"

fun execute_load_store :: "c3x_params \<Rightarrow> 'm mem_port \<Rightarrow> c3x_load_store \<Rightarrow> (unit, 'm) action" where
  "execute_load_store fc port (LDE q dst) = LDE_execute fc port q dst"
| "execute_load_store fc port (LDF q dst) = LDF_execute fc port q dst"
| "execute_load_store fc port (LDFcond c q dst) = LDFcond_execute fc port c q dst"
| "execute_load_store fc port (LDI q dst) = LDI_execute port q dst"
| "execute_load_store fc port (LDIcond c q dst) = LDIcond_execute port c q dst"
| "execute_load_store fc port (LDM q dst) = LDM_execute fc port q dst"
| "execute_load_store fc port (LDP v) = LDP_execute v"
| "execute_load_store fc port (POP dst) = POP_execute port dst"
| "execute_load_store fc port (POPF dst) = POPF_execute fc port dst"
| "execute_load_store fc port (PUSH src) = PUSH_execute port src"
| "execute_load_store fc port (PUSHF src) = PUSHF_execute fc port src"
| "execute_load_store fc port (STF src q) = STF_execute fc port src q"
| "execute_load_store fc port (STI src q) = STI_execute port src q"
| "execute_load_store fc port (LDFI q dst) = LDFI_execute port q dst"
| "execute_load_store fc port (LDII q dst) = LDII_execute port q dst"
| "execute_load_store fc port SIGI = SIGI_execute"
| "execute_load_store fc port (STFI src q) = STFI_execute port src q"
| "execute_load_store fc port (STII src q) = STII_execute port src q"

end
