(* ===== verification/C3X_Repeat.thy ===== *)
theory C3X_Repeat
  imports C3X_Step
begin

text \<open>
  Repeat mode of the TMS320C3X: the instruction after \<open>RPTS\<close> is fetched once and executed as often as the
  repeat counter says.
\<close>

text \<open>The values of a list of registers.\<close>

definition reads :: "nat list \<Rightarrow> 'm c3x_cpu \<Rightarrow> u32 list" where
  "reads xs s = map (\<lambda>x. GetReg x s) xs"

text \<open>
  A plain instruction that leaves the repeat counter alone and applies \<open>g\<close> to the values of the registers
  \<open>xs\<close>: what its executions compute.
\<close>

definition repeatable :: "'m c3x_env \<Rightarrow> u32 \<Rightarrow> nat list \<Rightarrow> (u32 list \<Rightarrow> u32 list) \<Rightarrow> bool" where
  "repeatable env w xs g \<longleftrightarrow> (\<forall>s. regs_ok (regs s) \<longrightarrow> (\<exists>r. execute_insn env w s = (Inr (), s\<lparr>regs := r\<rparr>) \<and> regs_ok r \<and>
     GetST_RM (s\<lparr>regs := r\<rparr>) = GetST_RM s \<and> GetST_CC (s\<lparr>regs := r\<rparr>) = GetST_CC s \<and>
     GetRC (s\<lparr>regs := r\<rparr>) = GetRC s \<and> reads xs (s\<lparr>regs := r\<rparr>) = g (reads xs s)))"

text \<open>The state before one more of \<open>k + 1\<close> executions of \<open>w\<close>.\<close>

definition repeating :: "nat \<Rightarrow> 'm c3x_cpu \<Rightarrow> bool" where
  "repeating k s \<longleftrightarrow> GetST_RM s \<and> GetS s \<and> delay_before_branching s = 0 \<and> GetRC s = of_nat k"

text \<open>A register that neither the repeat mode nor its setup writes.\<close>

definition counted_reg :: "nat \<Rightarrow> bool" where
  "counted_reg x \<longleftrightarrow> x < 32 \<and> x \<notin> {REG_ST, REG_RS, REG_RE, REG_RC}"

definition counted_regs :: "nat list \<Rightarrow> bool" where
  "counted_regs xs \<longleftrightarrow> (\<forall>x \<in> set xs. counted_reg x)"

lemma reads_regs: "regs s = regs t \<Longrightarrow> reads xs s = reads xs t"
  by (simp add: reads_def GetReg_def)

lemma reads_SetReg:
  "regs_ok (regs s) \<Longrightarrow> n \<in> {REG_ST, REG_RS, REG_RE, REG_RC} \<Longrightarrow> counted_regs xs \<Longrightarrow> reads xs (SetReg n v s) = reads xs s"
  unfolding reads_def counted_regs_def counted_reg_def
  by (intro map_cong refl) (subst GetReg_SetReg; use reg_numbers in fastforce)

lemma reads_update [simp]:
  "reads xs (s\<lparr>memory := m\<rparr>) = reads xs s" "reads xs (s\<lparr>reg_pc := v\<rparr>) = reads xs s" "reads xs (s\<lparr>reg_npc := v\<rparr>) = reads xs s"
  "reads xs (s\<lparr>repeat_single := b\<rparr>) = reads xs s" "reads xs (s\<lparr>first_time_through_repeat_single := b\<rparr>) = reads xs s"
  by (simp_all add: reads_def)

lemma counter_down:
  assumes "k < 2 ^ 31"
  shows "sint (word_of_nat k - 1 :: u32) < 0 \<longleftrightarrow> k = 0"
  using sint_of_diff_small [of k 1] assms by simp

context word_memory
begin

text \<open>The instruction register holds the instruction before the counter is decremented.\<close>

lemma repeat_fetch:
  assumes "machine_ok env mem_ok word_at A s" and "env_port env = port" and "GetPC23_0 s \<in> A"
    and "if first_time_through_repeat_single s then word_at (memory s) (GetPC23_0 s) = w else reg_ir s = w"
  obtains t where
    "(if first_time_through_repeat_single s
      then act_bind (fetch_IR env s) (\<lambda>_ s. (Inr (), s\<lparr>first_time_through_repeat_single := False\<rparr>)) else (Inr (), s)) = (Inr (), t)"
    "machine_ok env mem_ok word_at A t" "regs t = regs s" "reg_pc t = reg_pc s" "reg_ir t = w" "repeat_single t = repeat_single s"
    "delay_before_branching t = delay_before_branching s" "\<not> first_time_through_repeat_single t"
    "word_at (memory t) = word_at (memory s)"
proof (cases "first_time_through_repeat_single s")
  case True
  obtain ca cm c m where f: "fetch_IR env s = (Inr (), ready w (reg_npc s) ca cm c m s)"
    "mem_ok m" "word_at m = word_at (memory s)" "cache_ok (env_config env) c" "coherent_cache A (word_at m) c"
    using fetch_IR_ok [OF assms(1-3)] assms(4) True by metis
  define t where "t = (ready w (reg_npc s) ca cm c m s)\<lparr>first_time_through_repeat_single := False\<rparr>"
  have r: "regs t = regs s" by (simp add: t_def ready_def)
  have "machine_ok env mem_ok word_at A t"
    using assms(1) f(2-5) flags_of_regs(2) [OF r] by (simp add: machine_ok_def t_def ready_def)
  then show ?thesis using that [of t] f True r by (simp add: t_def ready_def)
next
  case False
  then show ?thesis using that [of s] assms by simp
qed

lemma repeat_step:
  assumes ok: "machine_ok env mem_ok word_at A s" and port: "env_port env = port" and A: "GetPC23_0 s \<in> A"
    and w: "if first_time_through_repeat_single s then word_at (memory s) (GetPC23_0 s) = w else reg_ir s = w"
    and rep: "repeating k s" and k: "k < 2 ^ 31" and insn: "repeatable env w xs g" and x: "counted_regs xs"
  defines "s' \<equiv> StepInstruction env s"
  shows "machine_ok env mem_ok word_at A s'" and "word_at (memory s') = word_at (memory s)" and "reg_ir s' = w"
    and "\<not> first_time_through_repeat_single s'" and "reads xs s' = g (reads xs s)"
    and "delay_before_branching s' = 0"
    and "if k = 0 then \<not> GetST_RM s' \<and> \<not> GetS s' \<and> reg_pc s' = reg_pc s + 1 \<and> GetRC s' = - 1
      else repeating (k - 1) s' \<and> reg_pc s' = reg_pc s"
proof -
  obtain t where t: "(if first_time_through_repeat_single s
      then act_bind (fetch_IR env s) (\<lambda>_ s. (Inr (), s\<lparr>first_time_through_repeat_single := False\<rparr>)) else (Inr (), s)) = (Inr (), t)"
    "machine_ok env mem_ok word_at A t" "regs t = regs s" "reg_pc t = reg_pc s" "reg_ir t = w" "repeat_single t = repeat_single s"
    "delay_before_branching t = delay_before_branching s" "\<not> first_time_through_repeat_single t"
    "word_at (memory t) = word_at (memory s)"
    by (rule repeat_fetch [OF ok port A w])
  have rt: "regs_ok (regs t)" using t(2) by (simp add: machine_ok_def)
  have flags: "GetST_RM t" "GetRC t = of_nat k" "GetS t" "delay_before_branching t = 0" "\<not> GetST_CC t"
    using rep t(2) flags_of_regs(1) [OF t(3)] GetReg_regs [OF t(3)] reads_regs [OF t(3)]
    by (simp_all add: repeating_def GetRC_def GetS_def t(6,7) machine_ok_def)
  define d where "d = SetRC (of_nat k - 1) t"
  have dr: "regs_ok (regs d)" "GetRC d = of_nat k - 1" "reads xs d = reads xs s" "GetST_RM d" "\<not> GetST_CC d"
    using rt x flags GetReg_regs [OF t(3)] reads_regs [OF t(3)]
    by (simp_all add: d_def c3x_registers GetReg_SetReg write_mask_full reads_SetReg GetST_RM_def GetST_CC_def)
  define u where "u = (if k = 0 then SetNPC (reg_pc s + 1) (ResetS (ResetST_RM d)) else SetNPC (reg_pc s) d)"
  have neg: "sint (GetRC d) < 0 \<longleftrightarrow> k = 0" unfolding dr(2) by (rule counter_down [OF k])
  have d0: "SetRC (- 1) t = d" if "k = 0" using that by (simp add: d_def)
  have pcd: "reg_pc d = reg_pc s" "reg_pc (ResetS (ResetST_RM d)) = reg_pc s"
    by (simp_all add: d_def SetRC_def t(4) ResetS_def ResetST_RM_def SetST_def)
  have prep: "step_prepare env s = (Inr True, u)"
  proof -
    have "step_repeat_single env s = (Inr True, u)"
      unfolding step_repeat_single_def t(1)
      by (simp add: Let_def flags(2) neg u_def GetPC_def pcd d0 flip: d_def)
    moreover have "\<not> interrupt_taken s" using rep by (simp add: interrupt_taken_def repeating_def)
    moreover have "\<not> reset s" "idle s = 0" using ok by (simp_all add: machine_ok_def)
    ultimately show ?thesis using rep by (simp add: step_prepare_def repeating_def)
  qed
  have u: "reg_ir u = w" "reg_npc u = (if k = 0 then reg_pc s + 1 else reg_pc s)" "delay_before_branching u = 0"
    "regs_ok (regs u)" "reads xs u = reads xs s" "GetRC u = of_nat k - 1" "GetST_RM u \<longleftrightarrow> k \<noteq> 0" "GetS u \<longleftrightarrow> k \<noteq> 0"
    "\<not> GetST_CC u" "memory u = memory t" "insn_cache u = insn_cache t" "\<not> first_time_through_repeat_single u"
    "reset u = reset t" "idle u = idle t"
  proof -
    define e where "e = (if k = 0 then ResetST_RM d else d)"
    have e: "regs u = regs e" by (simp add: u_def e_def SetNPC_def ResetS_def)
    have "GetST_RM e \<longleftrightarrow> k \<noteq> 0" "\<not> GetST_CC e" using dr ST_flags [OF dr(1)] by (simp_all add: e_def)
    moreover have "regs_ok (regs e)" "reads xs e = reads xs s" "GetRC e = of_nat k - 1"
      using dr x by (simp_all add: e_def ResetST_RM_def c3x_registers GetReg_SetReg reads_SetReg)
    ultimately show "GetST_RM u \<longleftrightarrow> k \<noteq> 0" "\<not> GetST_CC u" "GetRC u = of_nat k - 1" "reads xs u = reads xs s" "regs_ok (regs u)"
      using e flags_of_regs(1,2) [OF e] GetReg_regs [OF e] reads_regs [OF e] by (simp_all add: GetRC_def)
    show "reg_ir u = w" "reg_npc u = (if k = 0 then reg_pc s + 1 else reg_pc s)" "delay_before_branching u = 0"
      "GetS u \<longleftrightarrow> k \<noteq> 0" "memory u = memory t" "insn_cache u = insn_cache t" "\<not> first_time_through_repeat_single u"
      "reset u = reset t" "idle u = idle t"
      using t flags by (simp_all add: u_def d_def SetRC_def ResetS_def ResetST_RM_def SetST_def SetNPC_def GetS_def)
  qed
  obtain r where r: "execute_insn env w u = (Inr (), u\<lparr>regs := r\<rparr>)" "regs_ok r"
     "GetST_RM (u\<lparr>regs := r\<rparr>) = GetST_RM u" "GetST_CC (u\<lparr>regs := r\<rparr>) = GetST_CC u"
     "GetRC (u\<lparr>regs := r\<rparr>) = GetRC u" "reads xs (u\<lparr>regs := r\<rparr>) = g (reads xs u)"
    using insn u(4) unfolding repeatable_def by blast
  have s': "s' = step_finish (u\<lparr>regs := r\<rparr>)"
    using StepInstruction_go [OF prep] r(1) u(1) by (simp add: s'_def GetIR_def)
  have fl: "GetST_RM s' = GetST_RM u" "GetST_CC s' = GetST_CC u" "GetRC s' = GetRC u" "reads xs s' = g (reads xs u)"
    using r(3-6) flags_of_regs(1,2) [of s' "u\<lparr>regs := r\<rparr>"] reads_regs [of s' "u\<lparr>regs := r\<rparr>"] by (simp_all add: s' GetRC_def)
  show "machine_ok env mem_ok word_at A s'"
    using t(2) u r(2) fl(2) by (simp add: machine_ok_def s')
  show "word_at (memory s') = word_at (memory s)" "reg_ir s' = w" "\<not> first_time_through_repeat_single s'"
    "reads xs s' = g (reads xs s)" "delay_before_branching s' = 0"
    using u t(9) fl(4) by (simp_all add: s')
  show "if k = 0 then \<not> GetST_RM s' \<and> \<not> GetS s' \<and> reg_pc s' = reg_pc s + 1 \<and> GetRC s' = - 1
      else repeating (k - 1) s' \<and> reg_pc s' = reg_pc s"
    using u(2,3,6,7,8) fl(1,3) by (cases k) (simp_all add: repeating_def s' GetS_def)
qed

lemma repeat_run:
  assumes "machine_ok env mem_ok word_at A s" and "env_port env = port" and "GetPC23_0 s \<in> A"
    and "if first_time_through_repeat_single s then word_at (memory s) (GetPC23_0 s) = w else reg_ir s = w"
    and "repeating k s" and "k < 2 ^ 31" and "repeatable env w xs g" and "counted_regs xs"
  shows "(let s' = (StepInstruction env ^^ (k + 1)) s
    in reg_pc s' = reg_pc s + 1 \<and> reads xs s' = (g ^^ (k + 1)) (reads xs s) \<and> \<not> GetST_RM s' \<and> \<not> GetS s' \<and>
       GetRC s' = - 1 \<and> reg_ir s' = w \<and> word_at (memory s') = word_at (memory s) \<and> machine_ok env mem_ok word_at A s')"
  using assms
proof (induction k arbitrary: s)
  case 0
  note st = repeat_step [OF 0]
  then show ?case by (simp add: Let_def)
next
  case (Suc k)
  note st = repeat_step [OF Suc.prems]
  define s1 where "s1 = StepInstruction env s"
  have s1: "repeating k s1" "reg_pc s1 = reg_pc s" "\<not> first_time_through_repeat_single s1" "reg_ir s1 = w"
    "machine_ok env mem_ok word_at A s1" "reads xs s1 = g (reads xs s)" "word_at (memory s1) = word_at (memory s)"
    using st by (simp_all add: s1_def)
  have "GetPC23_0 s1 \<in> A" using Suc.prems(3) by (simp add: GetPC23_0_def s1(2))
  moreover have "if first_time_through_repeat_single s1 then word_at (memory s1) (GetPC23_0 s1) = w else reg_ir s1 = w"
    using s1 by simp
  moreover have "k < 2 ^ 31" using Suc.prems(6) by simp
  moreover have "(StepInstruction env ^^ (Suc k + 1)) s = (StepInstruction env ^^ (k + 1)) s1"
    by (simp add: s1_def funpow_swap1)
  moreover have "(g ^^ (Suc k + 1)) v = (g ^^ (k + 1)) (g v)" for v by (simp add: funpow_swap1)
  ultimately show ?case
    using Suc.IH [OF s1(5) Suc.prems(2) _ _ s1(1) _ Suc.prems(7,8)] s1 by (simp add: Let_def)
qed

text \<open>The repeated instruction runs once more than the operand of \<open>RPTS\<close>.\<close>

lemma rpts_run:
  assumes ok: "machine_ok env mem_ok word_at A s" and port: "env_port env = port"
    and A: "reg_pc s \<in> A" "reg_pc s + 1 \<in> A"
    and idle: "\<not> interrupt_taken s" "\<not> GetST_RM s" "delay_before_branching s = 0"
    and rpts: "decode_control (word_at (memory s) (reg_pc s)) = Some (RPTS_imm n)"
    and n: "unat n < 2 ^ 31" and insn: "repeatable env (word_at (memory s) (reg_pc s + 1)) xs g" and x: "counted_regs xs"
  defines "s' \<equiv> (StepInstruction env ^^ (unat n + 2)) s"
  shows "reg_pc s' = reg_pc s + 2 \<and> reads xs s' = (g ^^ (unat n + 1)) (reads xs s) \<and> \<not> GetST_RM s' \<and> \<not> GetS s' \<and>
    GetRC s' = - 1 \<and> reg_ir s' = word_at (memory s) (reg_pc s + 1)"
proof -
  have pc: "GetPC23_0 s = reg_pc s" using ok A(1) by (intro short_address) (auto simp: machine_ok_def)
  obtain ca cm c m where step: "StepInstruction env s =
      after_step (execute_insn env (word_at (memory s) (reg_pc s)) (ready (word_at (memory s) (reg_pc s)) (reg_pc s + 1) ca cm c m s))"
    "machine_ok env mem_ok word_at A (ready (word_at (memory s) (reg_pc s)) (reg_pc s + 1) ca cm c m s)"
    "mem_ok m" "word_at m = word_at (memory s)"
    using step_plain_path [OF ok port _ idle(1,2)] A(1) unfolding pc by blast
  define t where "t = ready (word_at (memory s) (reg_pc s)) (reg_pc s + 1) ca cm c m s"
  have t: "GetST_RM t = GetST_RM s" "delay_before_branching t = 0" "regs_ok (regs t)" "regs t = regs s" "\<not> GetST_CC t"
    using idle(3) flags_of_regs(1) [of t s] step(2) by (simp_all add: t_def ready_def machine_ok_def)
  define s1 where "s1 = StepInstruction env s"
  define b where "b = SetRE (GetNPC t) (SetRS (GetNPC t) t)"
  have b: "regs_ok (regs b)" "\<not> GetST_CC b" "reads xs b = reads xs t"
    using t x by (simp_all add: b_def c3x_registers GetReg_SetReg reads_SetReg GetST_CC_def)
  have s1: "s1 = step_finish (SetRC n (SetS (SetST_RM b)))"
    unfolding s1_def step(1) t_def [symmetric] using rpts t idle(2)
    by (simp add: execute_insn_def RPTS_imm_execute_def misplaced_def HasPendingBranch_def repeat_setup_def b_def)
  have f1: "reg_pc s1 = reg_pc s + 1" "delay_before_branching s1 = 0" "memory s1 = m" "insn_cache s1 = insn_cache t"
    "first_time_through_repeat_single s1" "GetS s1" "reset s1 = reset t" "idle s1 = idle t"
    using t(2) by (simp_all add: s1 b_def c3x_registers c3x_control SetST_RM_def t_def ready_def)
  define q where "q = SetST_RM b"
  have q: "regs_ok (regs q)" "GetST_RM q" "\<not> GetST_CC q" "reads xs q = reads xs s"
    using ST_flags [OF b(1)] b x reads_regs [OF t(4)]
    by (simp_all add: q_def) (simp_all add: SetST_RM_def c3x_registers GetReg_SetReg reads_SetReg)
  have r1: "regs s1 = regs (SetReg 27 n q)" by (simp add: s1 q_def SetRC_def REG_RC_def SetReg_def SetS_def)
  have g1: "GetRC s1 = n" "GetST_RM s1" "\<not> GetST_CC s1" "reads xs s1 = reads xs s" "regs_ok (regs s1)"
    using q x GetReg_regs [OF r1] reads_regs [OF r1] flags_of_regs(1,2) [OF r1]
    by (simp_all add: r1 c3x_registers GetReg_SetReg write_mask_full GetST_RM_def GetST_CC_def reads_SetReg)
  have ok1: "machine_ok env mem_ok word_at A s1"
    using step(2) f1 g1 unfolding t_def [symmetric] by (simp add: machine_ok_def t_def ready_def)
  have pc1: "GetPC23_0 s1 = reg_pc s + 1" using ok A(2) short_address [of s1] by (auto simp: machine_ok_def f1)
  have "repeating (unat n) s1" using f1 g1 by (simp add: repeating_def)
  moreover have "(StepInstruction env ^^ (unat n + 2)) s = (StepInstruction env ^^ (unat n + 1)) s1"
    by (simp add: s1_def funpow_swap1)
  ultimately show ?thesis
    using repeat_run [OF ok1 port _ _ _ n insn x] f1 g1 A(2) pc1 step(4) by (simp add: Let_def s'_def)
qed

end

end
