(* ===== verification/C3X_Calls.thy ===== *)
theory C3X_Calls
  imports C3X_Repeat
begin

text \<open>
  Calls, interrupts and the idle mode of the TMS320C3X: what returns to where, and what never wakes up.
\<close>

section \<open>Idle mode\<close>

text \<open>Interrupts are taken while \<open>GIE\<close> is clear, so an idle processor with \<open>GIE\<close> set stays as it is.\<close>

lemma idle_step:
  assumes "\<not> reset s" and "idle s \<noteq> 0" and "GetST_GIE s"
  shows "StepInstruction env s = s"
  using assms by (simp add: StepInstruction_def step_prepare_def interrupt_taken_def)

lemma SetIRQLevel_fields:
  assumes "regs_ok (regs s)"
  shows "regs_ok (regs (SetIRQLevel n l s))" "reset (SetIRQLevel n l s) = reset s" "idle (SetIRQLevel n l s) = idle s"
    "GetST_GIE (SetIRQLevel n l s) = GetST_GIE s" "reg_pc (SetIRQLevel n l s) = reg_pc s"
    "m < 32 \<Longrightarrow> m \<noteq> REG_IF \<Longrightarrow> GetReg m (SetIRQLevel n l s) = GetReg m s"
  using assms by (simp_all add: SetIRQLevel_def Let_def GetST_GIE_def c3x_registers GetReg_SetReg)

definition irq_step :: "'m c3x_env \<Rightarrow> 'm c3x_cpu \<Rightarrow> nat \<times> bool \<Rightarrow> 'm c3x_cpu" where
  "irq_step env s irq = StepInstruction env (SetIRQLevel (fst irq) (snd irq) s)"

lemma SetIRQLevel_pc [simp]:
  "reg_pc (foldl (\<lambda>s irq. SetIRQLevel (fst irq) (snd irq) s) s irqs) = reg_pc s"
  by (induction irqs arbitrary: s) (simp_all add: SetIRQLevel_def Let_def)

lemma idle_forever:
  assumes "regs_ok (regs s)" and "\<not> reset s" and "idle s \<noteq> 0" and "GetST_GIE s"
  shows "foldl (irq_step env) s irqs = foldl (\<lambda>s irq. SetIRQLevel (fst irq) (snd irq) s) s irqs \<and>
    reg_pc (foldl (irq_step env) s irqs) = reg_pc s"
  using assms
proof (induction irqs arbitrary: s)
  case (Cons irq irqs)
  have step: "irq_step env s irq = SetIRQLevel (fst irq) (snd irq) s"
    unfolding irq_step_def by (rule idle_step) (use Cons.prems SetIRQLevel_fields [OF Cons.prems(1)] in simp_all)
  show ?case using Cons.IH [of "SetIRQLevel (fst irq) (snd irq) s"] Cons.prems SetIRQLevel_fields [OF Cons.prems(1)]
    by (simp add: step)
qed simp

section \<open>The stack\<close>

lemma stack_slots: "(v + 1) AND ADDRESS_MASK \<noteq> v AND ADDRESS_MASK"
proof
  assume "(v + 1) AND ADDRESS_MASK = v AND ADDRESS_MASK"
  then have "bit ((v + 1) AND ADDRESS_MASK) 0 = bit (v AND ADDRESS_MASK) 0" by simp
  moreover have "bit ADDRESS_MASK 0" by code_simp
  ultimately have "bit (v + 1) 0 = bit v 0" by (simp add: bit_and_iff)
  then show False by (simp add: bit_0 even_plus_one_iff)
qed

lemma step_regs_eq:
  "GetReg n (s\<lparr>regs := r\<rparr>) = GetLo (r ! n)"
  by (simp add: GetReg_def)

context word_memory
begin

lemma idle_run:
  assumes ok: "machine_ok env mem_ok word_at A s" and port: "env_port env = port" and A: "reg_pc s \<in> A"
    and idle: "\<not> interrupt_taken s" "\<not> GetST_RM s" "delay_before_branching s = 0"
    and insn: "decode_control (word_at (memory s) (reg_pc s)) = Some IDLE"
  defines "s' \<equiv> StepInstruction env s"
  shows "idle s' = 1 \<and> reg_pc s' = reg_pc s + 1 \<and>
    foldl (irq_step env) s' irqs = foldl (\<lambda>s irq. SetIRQLevel (fst irq) (snd irq) s) s' irqs \<and>
    reg_pc (foldl (irq_step env) s' irqs) = reg_pc s + 1"
proof -
  have pc: "GetPC23_0 s = reg_pc s" using ok A by (intro short_address) (auto simp: machine_ok_def)
  obtain ca cm c m where step: "StepInstruction env s =
      after_step (execute_insn env (word_at (memory s) (reg_pc s)) (ready (word_at (memory s) (reg_pc s)) (reg_pc s + 1) ca cm c m s))"
    "machine_ok env mem_ok word_at A (ready (word_at (memory s) (reg_pc s)) (reg_pc s + 1) ca cm c m s)"
    "mem_ok m" "word_at m = word_at (memory s)"
    using step_plain_path [OF ok port _ idle(1,2)] A unfolding pc by blast
  define t where "t = ready (word_at (memory s) (reg_pc s)) (reg_pc s + 1) ca cm c m s"
  have t: "GetST_RM t = GetST_RM s" "delay_before_branching t = 0" "regs_ok (regs t)" "\<not> reset t" "reg_npc t = reg_pc s + 1"
    using idle(3) flags_of_regs(1) [of t s] step(2) by (simp_all add: t_def ready_def machine_ok_def)
  have s': "s' = step_finish (Idle 1 (SetST_GIE t))"
    unfolding s'_def step(1) t_def [symmetric] using insn t idle(2)
    by (simp add: execute_insn_def IDLE_execute_def misplaced_def HasPendingBranch_def)
  have r: "regs s' = regs (SetST_GIE t)" by (simp add: s' Idle_def)
  have "regs_ok (regs s')" "GetST_GIE s'" using t(3) ST_flags [OF t(3)] flags_of_regs(3) [OF r] r
    by (simp_all add: SetST_GIE_def SetST_def)
  moreover have "\<not> reset s'" "idle s' = 1" "reg_pc s' = reg_pc s + 1"
    using t by (simp_all add: s' Idle_def SetST_GIE_def SetST_def)
  ultimately show ?thesis using idle_forever [of s' env irqs] by simp
qed

text \<open>
  An interrupt whose handler is a single \<open>RETI\<close>: the program counter is stored at the stack pointer, and
  the return loads the word above it.
\<close>

lemma interrupt_run:
  assumes ok: "machine_ok env mem_ok word_at A s" and port: "env_port env = port"
    and taken: "interrupt_taken s" "BitScanForward32 (GetIF s) = Some (Some irq)" "\<not> GetST_RM s"
    and vector: "unat (irq + 1) < 2 ^ 24" "GetSP23_0 s \<noteq> irq + 1" "GetSP23_0 s \<notin> A"
    and handler: "word_at (memory s) (irq + 1) \<in> A"
      "decode_control (word_at (memory s) (word_at (memory s) (irq + 1))) = Some (RETIcond 0)"
  defines "s' \<equiv> StepInstruction env s"
  shows "word_at (memory s') (GetSP23_0 s) = reg_pc s \<and> GetSP s' = GetSP s \<and>
    reg_pc s' = word_at (memory s) ((GetSP s + 1) AND ADDRESS_MASK)"
proof -
  note okd = ok [unfolded machine_ok_def]
  define h where "h = word_at (memory s) (irq + 1)"
  have sp24: "unat (GetSP23_0 s) < 2 ^ 24" "unat ((GetSP s + 1) AND ADDRESS_MASK) < 2 ^ 24"
    by (simp_all only: GetSP23_0_def masked_address)
  have h24: "unat h < 2 ^ 24" "h \<in> A" "h \<noteq> GetSP23_0 s" using okd handler(1) vector(3) by (auto simp: h_def)
  obtain m1 where m1: "IntStore port (GetSP23_0 s) (reg_pc s) s = (Inr (), s\<lparr>memory := m1\<rparr>)" "mem_ok m1"
    "\<forall>a. unat a < 2 ^ 24 \<longrightarrow> word_at m1 a = (if a = GetSP23_0 s then reg_pc s else word_at (memory s) a)"
    using IntStore_word [of s "GetSP23_0 s" "reg_pc s"] okd sp24 by blast
  define s1 where "s1 = SetSP (GetSP s + 1) (s\<lparr>memory := m1\<rparr>)"
  have s1: "memory s1 = m1" "insn_cache s1 = insn_cache s" by (simp_all add: s1_def SetSP_def)
  obtain m2 where m2: "IntLoad port (irq + 1) s1 = (Inr h, s1\<lparr>memory := m2\<rparr>)" "mem_ok m2" "word_at m2 = word_at m1"
    using IntLoad_word [of s1 "irq + 1"] m1 vector(1,2) by (auto simp: s1 h_def)
  define s1b where "s1b = SetPC h (s1\<lparr>memory := m2\<rparr>)"
  have rg: "regs s1b = regs (SetReg 20 (GetSP s + 1) s)" by (simp add: s1b_def SetPC_def s1_def c3x_registers SetReg_def)
  have r1: "regs_ok (regs s1b)" "GetSP s1b = GetSP s + 1" "\<not> GetST_CC s1b" "\<not> GetST_RM s1b"
    using okd taken(3) GetReg_regs [OF rg] flags_of_regs(1,2) [OF rg]
    by (simp_all add: rg c3x_registers GetReg_SetReg write_mask_full GetST_CC_def GetST_RM_def)
  define s1c where "s1c = ResetST_GIE s1b"
  have r1c: "regs_ok (regs s1c)" "GetSP s1c = GetSP s + 1" "\<not> GetST_CC s1c" "\<not> GetST_RM s1c"
    using r1 ST_flags [OF r1(1)] by (simp_all add: s1c_def) (simp_all add: ResetST_GIE_def c3x_registers GetReg_SetReg)
  define s2 where "s2 = SetIRQLevel (unat irq) False s1c"
  have r2: "regs_ok (regs s2)" "GetSP s2 = GetSP s + 1" "\<not> GetST_CC s2" "\<not> GetST_RM s2"
    using r1c by (simp_all add: s2_def SetIRQLevel_def Let_def c3x_registers GetReg_SetReg GetST_CC_def GetST_RM_def)
  have f2: "memory s2 = m2" "insn_cache s2 = insn_cache s" "reset s2 = reset s" "idle s2 = idle s" "reg_pc s2 = h"
    "delay_before_branching s2 = delay_before_branching s"
    by (simp_all add: s2_def s1c_def s1b_def SetPC_def s1_def c3x_registers SetIRQLevel_def Let_def ResetST_GIE_def)
  have "coherent_cache A (word_at m1) (insn_cache s)"
    using IntStore_coherent [OF _ _ vector(3) m1(3)] okd by blast
  then have ok2: "machine_ok env mem_ok word_at A s2" using okd m2 r2 f2 by (simp add: machine_ok_def)
  have pc2: "GetPC23_0 s2 = h" using short_address [of s2] h24(1) by (simp add: f2)
  have wh: "word_at m2 h = word_at (memory s) h" using m2(3) m1(3) h24 by simp
  obtain ca cm c m where f: "fetch_IR env s2 = (Inr (), ready (word_at (memory s) h) (reg_npc s2) ca cm c m s2)"
    "mem_ok m" "word_at m = word_at m2"
    using fetch_IR_ok [OF ok2 port] h24(2) unfolding pc2 f2(1) wh by metis
  define t where "t = ready (word_at (memory s) h) (h + 1) ca cm c m s2"
  have "wake_up s = s" "\<not> reset s" using okd by (simp_all add: wake_up_def)
  then have "step_prepare env s = (Inr True, t)"
    using taken(1,2) m1(1) m2(1) f
    by (simp add: step_prepare_def step_interrupt_def Let_def port GetPC_def s1_def s2_def s1c_def s1b_def)
      (simp add: t_def ready_def SetNPC_def f2(5) flip: s1_def s1b_def s1c_def s2_def)
  then have step: "s' = after_step (execute_insn env (GetIR t) t)" unfolding s'_def by (rule StepInstruction_go)
  have rt: "regs t = regs s2" by (simp add: t_def ready_def)
  have tf: "GetIR t = word_at (memory s) h" "delay_before_branching t = 0" "memory t = m" "\<not> GetST_RM t"
    "GetSP t = GetSP s + 1" "regs_ok (regs t)"
    using r2 taken(1) f2 flags_of_regs(1) [OF rt] GetReg_regs [OF rt]
    by (simp_all add: t_def ready_def GetIR_def interrupt_taken_def GetSP_def)
  obtain m3 where m3: "IntLoad port ((GetSP s + 1) AND ADDRESS_MASK) t =
      (Inr (word_at m ((GetSP s + 1) AND ADDRESS_MASK)), t\<lparr>memory := m3\<rparr>)" "word_at m3 = word_at m"
    using IntLoad_word [of t "(GetSP s + 1) AND ADDRESS_MASK"] f(2) sp24(2) by (auto simp: tf)
  have slot: "word_at m ((GetSP s + 1) AND ADDRESS_MASK) = word_at (memory s) ((GetSP s + 1) AND ADDRESS_MASK)"
    "word_at m (GetSP23_0 s) = reg_pc s"
    using f(3) m2(3) m1(3) sp24 stack_slots [of "GetSP s"] by (simp_all add: GetSP23_0_def GetSP_def)
  have "\<not> misplaced t" "CheckCondition 0 t"
    using tf by (simp_all add: misplaced_def HasPendingBranch_def CheckCondition_def)
  moreover have "HasCondition 0" by code_simp
  ultimately have "execute_insn env (GetIR t) t =
      (Inr (), Branch (word_at m ((GetSP s + 1) AND ADDRESS_MASK)) 0 (SetST_GIE (SetSP (GetSP s) (t\<lparr>memory := m3\<rparr>))))"
    using handler(2) m3(1) by (simp add: execute_insn_def RETIcond_execute_def Let_def port tf(1,5) flip: h_def)
  then have s': "s' = step_finish (Branch (word_at m ((GetSP s + 1) AND ADDRESS_MASK)) 0 (SetST_GIE (SetSP (GetSP s) (t\<lparr>memory := m3\<rparr>))))"
    using step by simp
  have "GetSP s' = GetSP s"
    using tf(6) by (simp add: s' Branch_def SetST_GIE_def c3x_registers GetReg_SetReg write_mask_full)
  moreover have "reg_pc s' = word_at (memory s) ((GetSP s + 1) AND ADDRESS_MASK)" "memory s' = m3"
    by (simp_all add: s' Branch_def slot SetST_GIE_def SetST_def SetSP_def)
  ultimately show ?thesis using slot(2) m3(2) by simp
qed

text \<open>A call of a subroutine that returns at once.\<close>

lemma call_return_run:
  assumes ok: "machine_ok env mem_ok word_at A s" and port: "env_port env = port"
    and A: "reg_pc s \<in> A" "target \<in> A" "(GetSP s + 1) AND ADDRESS_MASK \<notin> A"
    and idle: "\<not> interrupt_taken s" "\<not> GetST_RM s" "delay_before_branching s = 0"
    and call: "decode_control (word_at (memory s) (reg_pc s)) = Some (CALL target)"
    and rets: "decode_control (word_at (memory s) target) = Some (RETScond 0)"
  defines "s' \<equiv> StepInstruction env (StepInstruction env s)"
  shows "reg_pc (StepInstruction env s) = target \<and> reg_pc s' = reg_pc s + 1 \<and> (\<forall>n < 32. GetReg n s' = GetReg n s) \<and>
    delay_before_branching s' = 0 \<and>
    (\<forall>a. unat a < 2 ^ 24 \<longrightarrow> word_at (memory s') a =
      (if a = (GetSP s + 1) AND ADDRESS_MASK then reg_pc s + 1 else word_at (memory s) a))"
proof -
  have pc: "GetPC23_0 s = reg_pc s" using ok A(1) by (intro short_address) (auto simp: machine_ok_def)
  define slot where "slot = (GetSP s + 1) AND ADDRESS_MASK"
  have slot24: "unat slot < 2 ^ 24" unfolding slot_def by (rule masked_address)
  obtain ca cm c m where step: "StepInstruction env s =
      after_step (execute_insn env (word_at (memory s) (reg_pc s)) (ready (word_at (memory s) (reg_pc s)) (reg_pc s + 1) ca cm c m s))"
    "machine_ok env mem_ok word_at A (ready (word_at (memory s) (reg_pc s)) (reg_pc s + 1) ca cm c m s)"
    "mem_ok m" "word_at m = word_at (memory s)"
    using step_plain_path [OF ok port _ idle(1,2)] A(1) unfolding pc by blast
  define t where "t = ready (word_at (memory s) (reg_pc s)) (reg_pc s + 1) ca cm c m s"
  note okt = step(2) [folded t_def, unfolded machine_ok_def]
  have rt: "regs t = regs s" by (simp add: t_def ready_def)
  have t: "GetST_RM t = GetST_RM s" "delay_before_branching t = 0" "reg_npc t = reg_pc s + 1" "memory t = m" "GetSP t = GetSP s"
    using idle(3) flags_of_regs(1) [OF rt] GetReg_regs [OF rt] by (simp_all add: t_def ready_def GetSP_def)
  obtain m1 where m1: "IntStore port slot (reg_pc s + 1) t = (Inr (), t\<lparr>memory := m1\<rparr>)" "mem_ok m1"
    "\<forall>a. unat a < 2 ^ 24 \<longrightarrow> word_at m1 a = (if a = slot then reg_pc s + 1 else word_at (memory s) a)"
    using IntStore_word [of t slot "reg_pc s + 1"] slot24 step(3,4) by (auto simp: t(4))
  define s1 where "s1 = StepInstruction env s"
  have "execute_insn env (word_at (memory s) (reg_pc s)) t =
      (Inr (), Branch target 0 (SetSP (GetSP s + 1) (t\<lparr>memory := m1\<rparr>)))"
    using call t idle(2) m1(1)
    by (simp add: execute_insn_def CALL_execute_def misplaced_def HasPendingBranch_def Let_def port GetNPC_def flip: slot_def)
  then have s1: "s1 = step_finish (Branch target 0 (SetSP (GetSP s + 1) (t\<lparr>memory := m1\<rparr>)))"
    unfolding s1_def step(1) t_def [symmetric] by simp
  have f1: "reg_pc s1 = target" "delay_before_branching s1 = 0" "memory s1 = m1" "insn_cache s1 = insn_cache t"
    "reset s1 = reset t" "idle s1 = idle t"
    by (simp_all add: s1 Branch_def SetSP_def)
  have r1: "regs s1 = regs (SetReg 20 (GetSP s + 1) s)" by (simp add: s1 Branch_def c3x_registers SetReg_def rt)
  have oks: "regs_ok (regs s)" "\<not> GetST_CC s" using ok by (simp_all add: machine_ok_def)
  have g1: "regs_ok (regs s1)" "\<not> GetST_CC s1" "\<not> GetST_RM s1" "GetSP s1 = GetSP s + 1"
    "GetIF s1 = GetIF s" "GetIE s1 = GetIE s" "GetST_GIE s1 = GetST_GIE s"
    using oks idle(2) GetReg_regs [OF r1] flags_of_regs [OF r1]
    by (simp_all add: r1 c3x_registers GetReg_SetReg write_mask_full GetST_CC_def GetST_RM_def GetST_GIE_def)
  have "coherent_cache A (word_at m1) (insn_cache s1)"
    using IntStore_coherent [of A m "insn_cache s1" slot m1 "reg_pc s + 1"] okt m1(3) A(3) step(4)
    by (simp add: f1(4) t(4) flip: slot_def)
  then have ok1: "machine_ok env mem_ok word_at A s1" using okt m1(2) g1 by (simp add: machine_ok_def f1)
  have int1: "\<not> interrupt_taken s1" using idle g1 by (simp add: interrupt_taken_def f1)
  have t24: "unat target < 2 ^ 24" "target \<noteq> slot" using okt A(2,3) by (auto simp: slot_def)
  have pc1: "GetPC23_0 s1 = target" using short_address [of s1] t24 by (simp add: f1)
  have w1: "word_at m1 target = word_at (memory s) target" using m1(3) t24 by simp
  obtain ca' cm' c' m' where step1: "StepInstruction env s1 =
      after_step (execute_insn env (word_at (memory s) target) (ready (word_at (memory s) target) (target + 1) ca' cm' c' m' s1))"
    "machine_ok env mem_ok word_at A (ready (word_at (memory s) target) (target + 1) ca' cm' c' m' s1)"
    "mem_ok m'" "word_at m' = word_at m1"
    using step_plain_path [OF ok1 port _ int1 g1(3)] A(2) unfolding pc1 f1(1,3) w1 by blast
  define u where "u = ready (word_at (memory s) target) (target + 1) ca' cm' c' m' s1"
  have ru: "regs u = regs s1" by (simp add: u_def ready_def)
  have u: "delay_before_branching u = 0" "memory u = m'" "GetSP u = GetSP s + 1" "\<not> GetST_RM u"
    using f1(2) g1 flags_of_regs(1) [OF ru] GetReg_regs [OF ru] by (simp_all add: u_def ready_def GetSP_def)
  have "word_at m' slot = reg_pc s + 1" using step1(4) m1(3) slot24 by simp
  then obtain m2 where m2: "IntLoad port slot u = (Inr (reg_pc s + 1), u\<lparr>memory := m2\<rparr>)" "word_at m2 = word_at m'"
    using IntLoad_word [of u slot] slot24 step1(3) by (auto simp: u(2))
  have "\<not> misplaced u" "CheckCondition 0 u"
    using u by (simp_all add: misplaced_def HasPendingBranch_def CheckCondition_def)
  moreover have "HasCondition 0" by code_simp
  ultimately have "execute_insn env (word_at (memory s) target) u =
      (Inr (), Branch (reg_pc s + 1) 0 (SetSP (GetSP s) (u\<lparr>memory := m2\<rparr>)))"
    using rets m2(1) by (simp add: execute_insn_def RETScond_execute_def Let_def port u(3) flip: slot_def)
  then have s': "s' = step_finish (Branch (reg_pc s + 1) 0 (SetSP (GetSP s) (u\<lparr>memory := m2\<rparr>)))"
    unfolding s'_def using step1(1) by (simp add: s1_def u_def)
  have "regs s' = regs (SetReg 20 (GetSP s) s1)" by (simp add: s' Branch_def c3x_registers SetReg_def ru)
  then have "GetReg n s' = GetReg n s" if "n < 32" for n
    using GetReg_regs [of s' "SetReg 20 (GetSP s) s1" n] GetReg_regs [OF r1, of n] g1(1) oks that
    by (simp add: GetReg_SetReg write_mask_full GetSP_def REG_SP_def)
  moreover have "reg_pc s' = reg_pc s + 1" "delay_before_branching s' = 0" "memory s' = m2"
    by (simp_all add: s' Branch_def SetSP_def)
  ultimately show ?thesis using f1(1) m1(3) m2(2) step1(4) by (simp add: s1_def slot_def)
qed

end

end
