(* ===== verification/C3X_Programs.thy ===== *)
theory C3X_Programs
  imports C3X_Calls
begin

text \<open>
  The TMS320C3X over the memory of pages: delayed branches, repeated instructions, calls, interrupts and idle
  mode of whole programs, each with a program that it applies to.
\<close>

section \<open>Programs for the examples\<close>

text \<open>A memory with given words at given addresses, and a processor about to run at \<open>pc\<close>.\<close>

lemma c3x_ram_write:
  assumes "c3x_ram_ok ps m" and "unat ea < 2 ^ 24"
  obtains m' where "c3x_ram_ok ps m'" and "\<And>a. unat a < 2 ^ 24 \<Longrightarrow> ram_word ps m' a = (if a = ea then v else ram_word ps m a)"
  using c3x_ram.write_word [OF assms, of v] by blast

lemma program_in_ram:
  assumes "\<forall>p \<in> set prog. unat (fst p) < 2 ^ 24"
  shows "\<exists>m. c3x_ram_ok 4096 m \<and> (\<forall>a. unat a < 2 ^ 24 \<longrightarrow> map_of prog a \<noteq> None \<longrightarrow> ram_word 4096 m a = the (map_of prog a))"
  using assms
proof (induction prog)
  case Nil
  show ?case using c3x_example_ok(1) [of 0] by auto
next
  case (Cons p prog)
  then obtain m where m: "c3x_ram_ok 4096 m" "\<forall>a. unat a < 2 ^ 24 \<longrightarrow> map_of prog a \<noteq> None \<longrightarrow> ram_word 4096 m a = the (map_of prog a)"
    by auto
  have "unat (fst p) < 2 ^ 24" using Cons.prems by simp
  then obtain m' where "c3x_ram_ok 4096 m'" "\<And>a. unat a < 2 ^ 24 \<Longrightarrow> ram_word 4096 m' a = (if a = fst p then snd p else ram_word 4096 m a)"
    using c3x_ram_write [OF m(1)] by metis
  then show ?case using m(2) by (intro exI [of _ m']) (auto split: if_splits)
qed

definition machine_at :: "u32 \<Rightarrow> c3x_register list \<Rightarrow> 32 ram \<Rightarrow> 32 ram c3x_cpu" where
  "machine_at pc rs m = (init_CPU (insn_cache (c3x_example 0)) m)\<lparr>reg_pc := pc, regs := rs\<rparr>"

definition increment_env :: "32 ram c3x_env" where
  "increment_env = \<lparr>env_config = TMS320VC33_Config, env_port = ram_port 4096, ti_c_io = None, debugger_trap = (\<lambda>_. False),
     other_insn = (\<lambda>w s. (Inr (), SetReg 8 (GetReg 8 s + 1) s))\<rparr>"

definition code_region :: "u32 set" where
  "code_region = {a. unat a < 0x400}"

lemma machine_at_fields [simp]:
  "memory (machine_at pc rs m) = m" "insn_cache (machine_at pc rs m) = insn_cache (c3x_example 0)"
  "reg_pc (machine_at pc rs m) = pc" "regs (machine_at pc rs m) = rs" "\<not> reset (machine_at pc rs m)"
  "idle (machine_at pc rs m) = 0" "delay_before_branching (machine_at pc rs m) = 0"
  by (simp_all add: machine_at_def init_CPU_def)

lemma GetReg_machine [simp]: "GetReg n (machine_at pc rs m) = GetLo (rs ! n)"
  by (simp add: GetReg_def)

lemma machine_at_ok:
  assumes "c3x_ram_ok 4096 m" and "regs_ok rs" and "\<not> bit (GetLo (rs ! 21)) 12"
  shows "machine_ok increment_env (c3x_ram_ok 4096) (ram_word 4096) code_region (machine_at pc rs m)"
  using assms vc33_config c3x_example_ok(2,3) [where b = 0]
  by (simp add: machine_ok_def increment_env_def code_region_def GetST_CC_def c3x_registers st_bits)

lemma increment_port [simp]: "env_port increment_env = ram_port 4096"
  by (simp add: increment_env_def)

declare bsf_loop.simps [code]

section \<open>Branches and repeats\<close>

text \<open>
  C3: a delayed branch executes the three instructions behind it, in order and without being interrupted,
  and then continues at its target.
\<close>

theorem delayed_branch_lands:
  assumes "machine_ok env (c3x_ram_ok ps) (ram_word ps) A s" and "env_port env = ram_port ps"
    and "reg_pc s \<in> A" and "reg_pc s + 1 \<in> A" and "reg_pc s + 2 \<in> A" and "reg_pc s + 3 \<in> A"
    and "\<not> interrupt_taken s" and "\<not> GetST_RM s" and "delay_before_branching s = 0"
    and "decode_control (ram_word ps (memory s) (reg_pc s)) = Some (BRD target)"
    and "plain_insn env (ram_word ps (memory s) (reg_pc s + 1))" and "plain_insn env (ram_word ps (memory s) (reg_pc s + 2))"
    and "plain_insn env (ram_word ps (memory s) (reg_pc s + 3))"
  shows "let run = (\<lambda>n. (StepInstruction env ^^ n) s) in
    reg_pc (run 1) = reg_pc s + 1 \<and> reg_pc (run 2) = reg_pc s + 2 \<and> reg_pc (run 3) = reg_pc s + 3 \<and>
    reg_pc (run 4) = target \<and>
    reg_ir (run 2) = ram_word ps (memory s) (reg_pc s + 1) \<and> reg_ir (run 3) = ram_word ps (memory s) (reg_pc s + 2) \<and>
    reg_ir (run 4) = ram_word ps (memory s) (reg_pc s + 3) \<and> delay_before_branching (run 4) = 0"
  unfolding Let_def using assms by (rule c3x_ram.delayed_branch_run)

theorem delayed_branch_lands_witness:
  "\<exists>s. reg_pc s = 0x100 \<and> reg_pc ((StepInstruction increment_env ^^ 4) s) = 0x200"
proof -
  obtain m where m: "c3x_ram_ok 4096 m" "\<forall>a. unat a < 2 ^ 24 \<longrightarrow>
      map_of [(0x100, 0x61000200), (0x101, 0x0c800000), (0x102, 0x0c800000), (0x103, 0x0c800000)] a \<noteq> None \<longrightarrow>
      ram_word 4096 m a = the (map_of [(0x100, 0x61000200), (0x101, 0x0c800000), (0x102, 0x0c800000), (0x103, 0x0c800000)] a)"
    using program_in_ram [of "[(0x100, 0x61000200), (0x101, 0x0c800000), (0x102, 0x0c800000), (0x103, 0x0c800000)]"] by auto
  have w: "ram_word 4096 m 0x100 = 0x61000200" "ram_word 4096 m 0x101 = 0x0c800000" "ram_word 4096 m 0x102 = 0x0c800000"
    "ram_word 4096 m 0x103 = 0x0c800000"
    using m(2) by simp_all
  define s where "s = machine_at 0x100 init_regs m"
  have "decode_control 0x61000200 = Some (BRD 0x200)" "decode_control 0x0c800000 = Some (NOP_reg 0)" by code_simp+
  then have "reg_pc ((StepInstruction increment_env ^^ 4) s) = 0x200"
    using delayed_branch_lands [of increment_env 4096 code_region s "0x200"] machine_at_ok [OF m(1) init_regs_ok]
      NOP_plain [of "0x0c800000" 0 increment_env]
    by (simp add: s_def w init_regs_zero code_region_def interrupt_taken_def GetST_RM_def c3x_registers Let_def)
  then show ?thesis by (intro exI [of _ s]) (simp add: s_def)
qed

text \<open>
  C14: \<open>RPTS n\<close> makes the processor execute the next instruction exactly \<open>n + 1\<close> times and go on behind it,
  out of repeat mode.
\<close>

theorem rpts_repeats:
  assumes "machine_ok env (c3x_ram_ok ps) (ram_word ps) A s" and "env_port env = ram_port ps"
    and "reg_pc s \<in> A" and "reg_pc s + 1 \<in> A"
    and "\<not> interrupt_taken s" and "\<not> GetST_RM s" and "delay_before_branching s = 0"
    and "decode_control (ram_word ps (memory s) (reg_pc s)) = Some (RPTS_imm n)" and "unat n < 2 ^ 31"
    and "repeatable env (ram_word ps (memory s) (reg_pc s + 1)) xs g" and "counted_regs xs"
  shows "let s' = (StepInstruction env ^^ (unat n + 2)) s in
    reg_pc s' = reg_pc s + 2 \<and> reads xs s' = (g ^^ (unat n + 1)) (reads xs s) \<and> \<not> GetST_RM s' \<and> \<not> GetS s' \<and>
    GetRC s' = - 1 \<and> reg_ir s' = ram_word ps (memory s) (reg_pc s + 1)"
  unfolding Let_def using assms by (rule c3x_ram.rpts_run)

lemma increment_repeatable:
  assumes "decode_control w = None"
  shows "repeatable increment_env w [8] (map (\<lambda>v. v + 1))"
  unfolding repeatable_def
proof (intro allI impI)
  fix s :: "32 ram c3x_cpu"
  assume "regs_ok (regs s)"
  then show "\<exists>r. execute_insn increment_env w s = (Inr (), s\<lparr>regs := r\<rparr>) \<and> regs_ok r \<and>
     GetST_RM (s\<lparr>regs := r\<rparr>) = GetST_RM s \<and> GetST_CC (s\<lparr>regs := r\<rparr>) = GetST_CC s \<and>
     GetRC (s\<lparr>regs := r\<rparr>) = GetRC s \<and> reads [8] (s\<lparr>regs := r\<rparr>) = map (\<lambda>v. v + 1) (reads [8] s)"
    using regs_ok_SetReg [of s 8 "GetReg 8 s + 1"] GetReg_SetReg [of s _ 8 "GetReg 8 s + 1"]
    by (intro exI [of _ "regs (SetReg 8 (GetReg 8 s + 1) s)"])
      (simp add: execute_insn_def assms increment_env_def GetST_RM_def GetST_CC_def c3x_registers write_mask_full,
       simp add: SetReg_def write_mask_full reads_def)
qed

theorem rpts_repeats_witness:
  "\<exists>s. GetReg 8 s = 0 \<and> GetReg 8 ((StepInstruction increment_env ^^ 5) s) = 4 \<and>
    reg_pc ((StepInstruction increment_env ^^ 5) s) = reg_pc s + 2"
proof -
  obtain m where m: "c3x_ram_ok 4096 m" "\<forall>a. unat a < 2 ^ 24 \<longrightarrow> map_of [(0x100, 0x13fb0003), (0x101, 0x02000000)] a \<noteq> None \<longrightarrow>
      ram_word 4096 m a = the (map_of [(0x100, 0x13fb0003), (0x101, 0x02000000)] a)"
    using program_in_ram [of "[(0x100, 0x13fb0003), (0x101, 0x02000000)]"] by auto
  have w: "ram_word 4096 m 0x100 = 0x13fb0003" "ram_word 4096 m 0x101 = 0x02000000" using m(2) by simp_all
  define s where "s = machine_at 0x100 init_regs m"
  have "decode_control 0x13fb0003 = Some (RPTS_imm 3)" "decode_control 0x02000000 = None" by code_simp+
  moreover have "(map (\<lambda>v. v + 1) ^^ 4) [v] = [v + 4]" for v :: u32 by (simp add: eval_nat_numeral)
  ultimately have "GetReg 8 ((StepInstruction increment_env ^^ 5) s) = GetReg 8 s + 4 \<and>
      reg_pc ((StepInstruction increment_env ^^ 5) s) = reg_pc s + 2"
    using rpts_repeats [of increment_env 4096 code_region s 3 "[8]" "map (\<lambda>v. v + 1)"] machine_at_ok [OF m(1) init_regs_ok]
      increment_repeatable [of "0x02000000"]
    by (simp add: s_def w init_regs_zero code_region_def interrupt_taken_def GetST_RM_def counted_regs_def counted_reg_def
        c3x_registers reads_def Let_def)
  then show ?thesis by (intro exI [of _ s]) (simp add: s_def init_regs_zero)
qed

section \<open>Calls, interrupts and idle mode\<close>

text \<open>
  C12: a call followed by a return continues behind the call with every register as it was, and only the
  stack slot above the stack pointer has changed.
\<close>

theorem call_returns:
  assumes "machine_ok env (c3x_ram_ok ps) (ram_word ps) A s" and "env_port env = ram_port ps"
    and "reg_pc s \<in> A" and "target \<in> A" and "(GetSP s + 1) AND ADDRESS_MASK \<notin> A"
    and "\<not> interrupt_taken s" and "\<not> GetST_RM s" and "delay_before_branching s = 0"
    and "decode_control (ram_word ps (memory s) (reg_pc s)) = Some (CALL target)"
    and "decode_control (ram_word ps (memory s) target) = Some (RETScond 0)"
  shows "let s' = StepInstruction env (StepInstruction env s) in
    reg_pc (StepInstruction env s) = target \<and> reg_pc s' = reg_pc s + 1 \<and> (\<forall>n < 32. GetReg n s' = GetReg n s) \<and>
    delay_before_branching s' = 0 \<and>
    (\<forall>a. unat a < 2 ^ 24 \<longrightarrow> ram_word ps (memory s') a =
      (if a = (GetSP s + 1) AND ADDRESS_MASK then reg_pc s + 1 else ram_word ps (memory s) a))"
  unfolding Let_def using assms by (rule c3x_ram.call_return_run)

lemma stack_at: "regs_ok (init_regs[20 := SetLo sp (init_regs ! 20)])"
  "(init_regs[20 := SetLo sp (init_regs ! 20)]) ! 20 = SetLo sp (init_regs ! 20)"
  "GetLo (SetLo sp (init_regs ! 20)) = sp"
proof -
  show "regs_ok (init_regs[20 := SetLo sp (init_regs ! 20)])"
    using regs_ok_SetReg [of "machine_at 0 init_regs undefined" 20 sp] init_regs_ok by (simp add: SetReg_def)
  have "length init_regs = 32" "r_lo_write_mask (init_regs ! 20) = - 1"
    using init_regs_ok write_mask_full(2) by (simp_all add: regs_ok_def)
  then show "(init_regs[20 := SetLo sp (init_regs ! 20)]) ! 20 = SetLo sp (init_regs ! 20)"
    "GetLo (SetLo sp (init_regs ! 20)) = sp" by (simp_all add: SetLo_def GetLo_def)
qed

theorem call_returns_witness:
  "\<exists>s. reg_pc s = 0x100 \<and> reg_pc (StepInstruction increment_env s) = 0x200 \<and>
    reg_pc (StepInstruction increment_env (StepInstruction increment_env s)) = 0x101"
proof -
  obtain m where m: "c3x_ram_ok 4096 m" "\<forall>a. unat a < 2 ^ 24 \<longrightarrow> map_of [(0x100, 0x62000200), (0x200, 0x78800000)] a \<noteq> None \<longrightarrow>
      ram_word 4096 m a = the (map_of [(0x100, 0x62000200), (0x200, 0x78800000)] a)"
    using program_in_ram [of "[(0x100, 0x62000200), (0x200, 0x78800000)]"] by auto
  have w: "ram_word 4096 m 0x100 = 0x62000200" "ram_word 4096 m 0x200 = 0x78800000" using m(2) by simp_all
  define s where "s = machine_at 0x100 (init_regs[20 := SetLo 0x400 (init_regs ! 20)]) m"
  have "decode_control 0x62000200 = Some (CALL 0x200)" "decode_control 0x78800000 = Some (RETScond 0)" by code_simp+
  moreover have "(0x401 :: u32) AND ADDRESS_MASK = 0x401" by code_simp
  ultimately have "reg_pc (StepInstruction increment_env s) = 0x200 \<and>
      reg_pc (StepInstruction increment_env (StepInstruction increment_env s)) = 0x101"
    using call_returns [of increment_env 4096 code_region s "0x200"] machine_at_ok [OF m(1) stack_at(1) [of "0x400"]]
    by (simp add: s_def w init_regs_zero stack_at code_region_def interrupt_taken_def GetST_RM_def c3x_registers Let_def)
  then show ?thesis by (intro exI [of _ s]) (simp add: s_def)
qed

text \<open>
  C38: after \<open>IDLE\<close> the processor never executes another instruction, whatever interrupts are signalled, in
  whatever order: it wakes up for interrupts only while \<open>GIE\<close> is clear, and \<open>IDLE\<close> sets \<open>GIE\<close>.
\<close>

theorem idle_never_wakes:
  assumes "machine_ok env (c3x_ram_ok ps) (ram_word ps) A s" and "env_port env = ram_port ps" and "reg_pc s \<in> A"
    and "\<not> interrupt_taken s" and "\<not> GetST_RM s" and "delay_before_branching s = 0"
    and "decode_control (ram_word ps (memory s) (reg_pc s)) = Some IDLE"
  shows "let s' = StepInstruction env s in idle s' = 1 \<and> reg_pc s' = reg_pc s + 1 \<and>
    foldl (irq_step env) s' irqs = foldl (\<lambda>s irq. SetIRQLevel (fst irq) (snd irq) s) s' irqs \<and>
    reg_pc (foldl (irq_step env) s' irqs) = reg_pc s + 1"
  unfolding Let_def using assms by (rule c3x_ram.idle_run)

theorem idle_never_wakes_witness:
  "\<exists>s. reg_pc s = 0x100 \<and> (\<forall>irqs. reg_pc (foldl (irq_step increment_env) (StepInstruction increment_env s) irqs) = 0x101)"
proof -
  obtain m where m: "c3x_ram_ok 4096 m" "\<forall>a. unat a < 2 ^ 24 \<longrightarrow> map_of [(0x100, 0x06000000)] a \<noteq> None \<longrightarrow>
      ram_word 4096 m a = the (map_of [(0x100, 0x06000000)] a)"
    using program_in_ram [of "[(0x100, 0x06000000)]"] by auto
  have w: "ram_word 4096 m 0x100 = 0x06000000" using m(2) by simp
  define s where "s = machine_at 0x100 init_regs m"
  have "decode_control 0x06000000 = Some IDLE" by code_simp
  then have "reg_pc (foldl (irq_step increment_env) (StepInstruction increment_env s) irqs) = 0x101" for irqs
    using idle_never_wakes [of increment_env 4096 code_region s irqs] machine_at_ok [OF m(1) init_regs_ok]
    by (simp add: s_def w init_regs_zero code_region_def interrupt_taken_def GetST_RM_def c3x_registers Let_def)
  then show ?thesis by (intro exI [of _ s]) (simp add: s_def)
qed

text \<open>
  taking an interrupt overwrites the top of the stack with the program counter, and a handler that returns
  at once goes to the address in the word above the stack pointer, not to the interrupted instruction.
\<close>

theorem interrupt_returns_elsewhere:
  assumes "machine_ok env (c3x_ram_ok ps) (ram_word ps) A s" and "env_port env = ram_port ps"
    and "interrupt_taken s" and "BitScanForward32 (GetIF s) = Some (Some irq)" and "\<not> GetST_RM s"
    and "unat (irq + 1) < 2 ^ 24" and "GetSP23_0 s \<noteq> irq + 1" and "GetSP23_0 s \<notin> A"
    and "ram_word ps (memory s) (irq + 1) \<in> A"
    and "decode_control (ram_word ps (memory s) (ram_word ps (memory s) (irq + 1))) = Some (RETIcond 0)"
  shows "let s' = StepInstruction env s in
    ram_word ps (memory s') (GetSP23_0 s) = reg_pc s \<and> GetSP s' = GetSP s \<and>
    reg_pc s' = ram_word ps (memory s) ((GetSP s + 1) AND ADDRESS_MASK)"
  unfolding Let_def using assms by (rule c3x_ram.interrupt_run)

theorem interrupt_returns_elsewhere_witness:
  "\<exists>s. reg_pc s = 0x100 \<and> reg_pc (StepInstruction increment_env s) = 0x123"
proof -
  obtain m where m: "c3x_ram_ok 4096 m" "\<forall>a. unat a < 2 ^ 24 \<longrightarrow>
      map_of [(0x001, 0x00000300), (0x300, 0x78000000), (0x501, 0x00000123)] a \<noteq> None \<longrightarrow>
      ram_word 4096 m a = the (map_of [(0x001, 0x00000300), (0x300, 0x78000000), (0x501, 0x00000123)] a)"
    using program_in_ram [of "[(0x001, 0x00000300), (0x300, 0x78000000), (0x501, 0x00000123)]"] by auto
  have w: "ram_word 4096 m 1 = 0x300" "ram_word 4096 m 0x300 = 0x78000000" "ram_word 4096 m 0x501 = 0x123"
    using m(2) by simp_all
  define s where "s = SetReg 20 0x500 (SetReg 22 1 (SetReg 23 1 (machine_at 0x100 init_regs m)))"
  have masks: "1 AND write_mask 22 = 1" "1 AND write_mask 23 = 1" by code_simp+
  have regs: "GetReg 20 s = 0x500" "GetReg 22 s = 1" "GetReg 23 s = 1" "GetReg 21 s = 0" "regs_ok (regs s)"
    by (simp_all add: s_def GetReg_SetReg init_regs_ok write_mask_full masks init_regs_zero)
  have "machine_ok increment_env (c3x_ram_ok 4096) (ram_word 4096) code_region s"
    using machine_at_ok [OF m(1) init_regs_ok] regs
    by (simp add: machine_ok_def init_regs_zero GetST_CC_def c3x_registers) (simp add: s_def)
  moreover have "BitScanForward32 1 = Some (Some 0)" "decode_control 0x78000000 = Some (RETIcond 0)"
    "(0x500 :: u32) AND ADDRESS_MASK = 0x500" "(0x501 :: u32) AND ADDRESS_MASK = 0x501" by code_simp+
  moreover have "memory s = m" "delay_before_branching s = 0" by (simp_all add: s_def)
  ultimately have "reg_pc (StepInstruction increment_env s) = 0x123"
    using interrupt_returns_elsewhere [of increment_env 4096 code_region s 0]
    by (simp add: regs w code_region_def interrupt_taken_def GetST_RM_def GetST_GIE_def c3x_registers Let_def)
  then show ?thesis by (intro exI [of _ s]) (simp add: s_def)
qed

end
