(* ===== verification/C3X_Stack.thy ===== *)
theory C3X_Stack
  imports C3X_Load C3X_Compute C3X_Programs C3X_Float
begin

text \<open>
  The stack of the TMS320C3X. It grows towards higher addresses: a push increments the stack pointer before it
  stores, a pop loads before it decrements. Saved registers come back, whatever happens to them in between.
\<close>

section \<open>Slots and sequences\<close>

definition stack_slot :: "u32 \<Rightarrow> nat \<Rightarrow> u32" where
  "stack_slot sp i = (sp + of_nat i) AND ADDRESS_MASK"

lemma stack_slot_24: "unat (stack_slot sp i) < 2 ^ 24"
  unfolding stack_slot_def by (rule masked_address)

lemma stack_slot_mod: "unat (stack_slot sp i) = (unat sp + i) mod 2 ^ 24"
proof -
  have "stack_slot sp i = take_bit 24 (sp + of_nat i)"
    unfolding stack_slot_def ADDRESS_MASK_def take_bit_eq_mask by (simp add: mask_eq_exp_minus_1)
  then have "unat (stack_slot sp i) = (unat sp + i) mod 2 ^ 32 mod 2 ^ 24"
    by (simp add: take_bit_eq_mod unat_mod_distrib unat_word_ariths unat_of_nat mod_simps)
  then show ?thesis by (simp add: mod_mod_cancel)
qed

lemma stack_slot_inj:
  assumes "i < 2 ^ 24" and "j < 2 ^ 24" and "stack_slot sp i = stack_slot sp j"
  shows "i = j"
proof -
  have "(unat sp + i) mod 2 ^ 24 = (unat sp + j) mod 2 ^ 24" using assms(3) stack_slot_mod by metis
  then have "i mod 2 ^ 24 = j mod 2 ^ 24" by (simp add: nat_mod_eq_iff)
  then show ?thesis using assms(1,2) by simp
qed

lemma stack_slot_Suc: "stack_slot (sp + 1) i = stack_slot sp (Suc i)"
  by (simp add: stack_slot_def algebra_simps)

fun push_all :: "'m mem_port \<Rightarrow> nat list \<Rightarrow> (unit, 'm) action" where
  "push_all port [] s = (Inr (), s)"
| "push_all port (r # rs) s = act_bind (PUSH_execute port r s) (\<lambda>_. push_all port rs)"

fun pop_all :: "'m mem_port \<Rightarrow> nat list \<Rightarrow> (unit, 'm) action" where
  "pop_all port [] s = (Inr (), s)"
| "pop_all port (r # rs) s = act_bind (POP_execute port r s) (\<lambda>_. pop_all port rs)"

text \<open>
  The registers a program can save: all but the stack pointer, the status register, which every pop into an
  extended precision register changes, and the interrupt registers, which do not keep every bit.
\<close>

definition saveable :: "nat \<Rightarrow> bool" where
  "saveable n \<longleftrightarrow> HasReg n \<and> n \<notin> {20, 21, 22, 23, 24}"

lemma saveable_reg: "saveable n \<Longrightarrow> HasReg n \<and> n < 32 \<and> n \<noteq> 20 \<and> n \<noteq> 21 \<and> write_mask n = - 1"
  by (simp add: saveable_def HasReg_def write_mask_plain)

lemma saveable_few: "distinct rs \<Longrightarrow> (\<forall>r \<in> set rs. saveable r) \<Longrightarrow> length rs < 2 ^ 24"
proof -
  assume "distinct rs" "\<forall>r \<in> set rs. saveable r"
  then have "length rs = card (set rs)" "set rs \<subseteq> {..<32}" using saveable_reg by (auto simp: distinct_card)
  moreover have "card (set rs) \<le> 32" if "set rs \<subseteq> {..<32}" using card_mono [OF _ that] by simp
  ultimately show ?thesis by simp
qed

section \<open>Pushes and pops\<close>

text \<open>The destination and the flags after a word is popped.\<close>

definition popped :: "nat \<Rightarrow> u32 \<Rightarrow> 'm c3x_cpu \<Rightarrow> 'm c3x_cpu" where
  "popped dst v s = (let s = SetSP (GetSP s - 1) (SetReg dst v s)
     in if IsExtReg dst then GenFlags v RESET_UFNZV GEN_NZ (is_neg32 v) 0 0 s else s)"

lemma popped_regs:
  assumes "regs_ok (regs s)" and "saveable dst"
  shows "regs_ok (regs (popped dst v s))" "GetSP (popped dst v s) = GetSP s - 1" "GetReg dst (popped dst v s) = v"
    "k < 32 \<Longrightarrow> k \<noteq> dst \<Longrightarrow> k \<noteq> 20 \<Longrightarrow> k \<noteq> 21 \<Longrightarrow> GetReg k (popped dst v s) = GetReg k s"
    "memory (popped dst v s) = memory s"
  using assms(1) saveable_reg [OF assms(2)]
  by (simp_all add: popped_def Let_def SetSP_def GetSP_def REG_SP_def REG_ST_def GetReg_GenFlags GetReg_SetReg
      write_mask_full GenFlags_def SetST_def)

context word_memory
begin

lemma PUSH_word:
  assumes "mem_ok (memory s)" and "HasReg src"
  shows "\<exists>m'. PUSH_execute port src s = (Inr (), SetSP (GetSP s + 1) (s\<lparr>memory := m'\<rparr>)) \<and> mem_ok m' \<and>
    (\<forall>a. unat a < 2 ^ 24 \<longrightarrow> word_at m' a = (if a = stack_slot (GetSP s) 1 then GetReg src s else word_at (memory s) a))"
proof -
  have "unat ((GetSP s + 1) AND ADDRESS_MASK) < 2 ^ 24" by (rule masked_address)
  from IntStore_word [OF assms(1) this, of "GetReg src s"] assms(2) show ?thesis
    by (auto simp: PUSH_execute_def Let_def stack_slot_def)
qed

lemma POP_word:
  assumes "mem_ok (memory s)" and "saveable dst"
  shows "\<exists>m'. POP_execute port dst s = (Inr (), popped dst (word_at (memory s) (stack_slot (GetSP s) 0)) (s\<lparr>memory := m'\<rparr>)) \<and>
    mem_ok m' \<and> word_at m' = word_at (memory s)"
proof -
  have "unat (GetSP s AND ADDRESS_MASK) < 2 ^ 24" by (rule masked_address)
  from IntLoad_word [OF assms(1) this] saveable_reg [OF assms(2)] show ?thesis
    by (auto simp: POP_execute_def Let_def popped_def stack_slot_def GetSP_def)
qed

lemma push_all_words:
  assumes "mem_ok (memory s)" and "regs_ok (regs s)" and "\<forall>r \<in> set rs. saveable r" and "length rs < 2 ^ 24"
  shows "\<exists>s1. push_all port rs s = (Inr (), s1) \<and> mem_ok (memory s1) \<and> regs_ok (regs s1) \<and>
    GetSP s1 = GetSP s + of_nat (length rs) \<and> (\<forall>k < 32. k \<noteq> 20 \<longrightarrow> GetReg k s1 = GetReg k s) \<and>
    (\<forall>i < length rs. word_at (memory s1) (stack_slot (GetSP s) (Suc i)) = GetReg (rs ! i) s) \<and>
    (\<forall>a. unat a < 2 ^ 24 \<longrightarrow> (\<forall>i < length rs. a \<noteq> stack_slot (GetSP s) (Suc i)) \<longrightarrow> word_at (memory s1) a = word_at (memory s) a)"
  using assms
proof (induction rs arbitrary: s)
  case (Cons r rs)
  have r: "HasReg r" using Cons.prems(3) saveable_reg by simp
  obtain m where m: "PUSH_execute port r s = (Inr (), SetSP (GetSP s + 1) (s\<lparr>memory := m\<rparr>))" "mem_ok m"
    "\<forall>a. unat a < 2 ^ 24 \<longrightarrow> word_at m a = (if a = stack_slot (GetSP s) 1 then GetReg r s else word_at (memory s) a)"
    using PUSH_word [OF Cons.prems(1) r] by blast
  define t where "t = SetSP (GetSP s + 1) (s\<lparr>memory := m\<rparr>)"
  have t: "memory t = m" "regs_ok (regs t)" "GetSP t = GetSP s + 1" "k < 32 \<Longrightarrow> k \<noteq> 20 \<Longrightarrow> GetReg k t = GetReg k s" for k
    using Cons.prems(2) by (simp_all add: t_def SetSP_def GetSP_def REG_SP_def GetReg_SetReg write_mask_full)
  obtain s1 where s1: "push_all port rs t = (Inr (), s1)" "mem_ok (memory s1)" "regs_ok (regs s1)"
    "GetSP s1 = GetSP t + of_nat (length rs)" "\<forall>k < 32. k \<noteq> 20 \<longrightarrow> GetReg k s1 = GetReg k t"
    "\<forall>i < length rs. word_at (memory s1) (stack_slot (GetSP s) (Suc (Suc i))) = GetReg (rs ! i) t"
    "\<forall>a. unat a < 2 ^ 24 \<longrightarrow> (\<forall>i < length rs. a \<noteq> stack_slot (GetSP s) (Suc (Suc i))) \<longrightarrow> word_at (memory s1) a = word_at m a"
    using Cons.IH [of t] t(1,2) m(2) Cons.prems(3,4) unfolding t(3) stack_slot_Suc t(1) by auto
  have apart: "stack_slot (GetSP s) 1 \<noteq> stack_slot (GetSP s) (Suc (Suc i))" if "i < length rs" for i
    using stack_slot_inj [of 1 "Suc (Suc i)" "GetSP s"] that Cons.prems(4) by auto
  have top: "word_at (memory s1) (stack_slot (GetSP s) 1) = GetReg r s"
    using s1(7) apart m(3) stack_slot_24 by metis
  have reg: "GetReg (rs ! i) t = GetReg (rs ! i) s" if "i < length rs" for i
    using t(4) Cons.prems(3) saveable_reg nth_mem [OF that] by simp
  have slots: "word_at (memory s1) (stack_slot (GetSP s) (Suc i)) = GetReg ((r # rs) ! i) s" if "i < Suc (length rs)" for i
    using that top s1(6) reg by (cases i) auto
  have others: "word_at (memory s1) a = word_at (memory s) a"
    if "unat a < 2 ^ 24" "\<forall>i < Suc (length rs). a \<noteq> stack_slot (GetSP s) (Suc i)" for a
    using that s1(7) m(3) by (metis One_nat_def Suc_less_eq zero_less_Suc)
  show ?case
  proof (intro exI [of _ s1] conjI)
    show "push_all port (r # rs) s = (Inr (), s1)" using m(1) s1(1) by (simp flip: t_def)
    show "GetSP s1 = GetSP s + of_nat (length (r # rs))" using s1(4) t(3) by simp
  qed (use s1 t(4) slots others in auto)
qed simp

lemma pop_all_words:
  assumes "mem_ok (memory t)" and "regs_ok (regs t)" and "\<forall>r \<in> set qs. saveable r" and "distinct qs"
    and "\<forall>i < length qs. word_at (memory t) ((GetSP t - of_nat i) AND ADDRESS_MASK) = f (qs ! i)"
  shows "\<exists>s2. pop_all port qs t = (Inr (), s2) \<and> GetSP s2 = GetSP t - of_nat (length qs) \<and>
    (\<forall>r \<in> set qs. GetReg r s2 = f r) \<and> (\<forall>k < 32. k \<notin> set qs \<longrightarrow> k \<noteq> 20 \<longrightarrow> k \<noteq> 21 \<longrightarrow> GetReg k s2 = GetReg k t) \<and>
    word_at (memory s2) = word_at (memory t)"
  using assms
proof (induction qs arbitrary: t)
  case (Cons q qs)
  have q: "saveable q" "word_at (memory t) (stack_slot (GetSP t) 0) = f q"
    using Cons.prems(3) Cons.prems(5) [rule_format, of 0] by (simp_all add: stack_slot_def)
  obtain m where m: "POP_execute port q t = (Inr (), popped q (f q) (t\<lparr>memory := m\<rparr>))" "mem_ok m" "word_at m = word_at (memory t)"
    using POP_word [OF Cons.prems(1) q(1)] unfolding q(2) by blast
  define u where "u = popped q (f q) (t\<lparr>memory := m\<rparr>)"
  have u: "regs_ok (regs u)" "GetSP u = GetSP t - 1" "GetReg q u = f q" "memory u = m"
    "k < 32 \<Longrightarrow> k \<noteq> q \<Longrightarrow> k \<noteq> 20 \<Longrightarrow> k \<noteq> 21 \<Longrightarrow> GetReg k u = GetReg k t" for k
    using popped_regs [where s = "t\<lparr>memory := m\<rparr>" and dst = q and v = "f q"] Cons.prems(2) q(1) by (simp_all add: u_def GetSP_def)
  have "word_at m ((GetSP u - of_nat i) AND ADDRESS_MASK) = f (qs ! i)" if "i < length qs" for i
    using Cons.prems(5) [rule_format, of "Suc i"] that by (simp add: u(2) m(3) algebra_simps)
  then obtain s2 where s2: "pop_all port qs u = (Inr (), s2)" "GetSP s2 = GetSP u - of_nat (length qs)"
    "\<forall>r \<in> set qs. GetReg r s2 = f r" "\<forall>k < 32. k \<notin> set qs \<longrightarrow> k \<noteq> 20 \<longrightarrow> k \<noteq> 21 \<longrightarrow> GetReg k s2 = GetReg k u"
    "word_at (memory s2) = word_at m"
    using Cons.IH [of u] u m(2) Cons.prems(3,4) by auto
  have "GetReg q s2 = f q" using s2(4) u(3) Cons.prems(4) saveable_reg [OF q(1)] by simp
  then show ?case using m(1) s2 u m(3) by (intro exI [of _ s2]) (auto simp flip: u_def)
qed simp

end

section \<open>Saved registers\<close>

text \<open>
  C13: registers pushed in order and popped in reverse order come back, and so does the stack pointer, whatever
  the program between them does, as long as it keeps the stack pointer and the words of the stack; neither
  sequence fails, and the pops change no word.
\<close>

theorem context_saved:
  assumes "c3x_ram_ok ps (memory s)" and "regs_ok (regs s)" and "distinct rs" and "\<forall>r \<in> set rs. saveable r"
  shows "\<exists>s1. push_all (ram_port ps) rs s = (Inr (), s1) \<and>
    (\<forall>t. c3x_ram_ok ps (memory t) \<and> regs_ok (regs t) \<and> GetSP t = GetSP s1 \<and>
       (\<forall>i < length rs. ram_word ps (memory t) (stack_slot (GetSP s) (Suc i)) = ram_word ps (memory s1) (stack_slot (GetSP s) (Suc i)))
     \<longrightarrow> (\<exists>s2. pop_all (ram_port ps) (rev rs) t = (Inr (), s2) \<and> (\<forall>r \<in> set rs. GetReg r s2 = GetReg r s) \<and>
       GetSP s2 = GetSP s \<and> ram_word ps (memory s2) = ram_word ps (memory t)))"
proof -
  obtain s1 where s1: "push_all (ram_port ps) rs s = (Inr (), s1)" "GetSP s1 = GetSP s + of_nat (length rs)"
    "\<forall>i < length rs. ram_word ps (memory s1) (stack_slot (GetSP s) (Suc i)) = GetReg (rs ! i) s"
    using c3x_ram.push_all_words [OF assms(1,2,4) saveable_few [OF assms(3,4)]] by blast
  have "\<exists>s2. pop_all (ram_port ps) (rev rs) t = (Inr (), s2) \<and> (\<forall>r \<in> set rs. GetReg r s2 = GetReg r s) \<and>
      GetSP s2 = GetSP s \<and> ram_word ps (memory s2) = ram_word ps (memory t)"
    if t: "c3x_ram_ok ps (memory t)" "regs_ok (regs t)" "GetSP t = GetSP s1"
      "\<forall>i < length rs. ram_word ps (memory t) (stack_slot (GetSP s) (Suc i)) = ram_word ps (memory s1) (stack_slot (GetSP s) (Suc i))" for t
  proof -
    have "ram_word ps (memory t) ((GetSP t - of_nat i) AND ADDRESS_MASK) = GetReg (rev rs ! i) s" if "i < length (rev rs)" for i
    proof -
      have "(GetSP t - of_nat i) AND ADDRESS_MASK = stack_slot (GetSP s) (Suc (length rs - Suc i))"
        using that by (simp add: t(3) s1(2) stack_slot_def Suc_diff_Suc of_nat_diff algebra_simps)
      then show ?thesis using that t(4) s1(3) by (simp add: rev_nth)
    qed
    then show ?thesis
      using c3x_ram.pop_all_words [OF t(1,2), of "rev rs" "\<lambda>r. GetReg r s"] assms(3,4) by (auto simp: t(3) s1(2))
  qed
  then show ?thesis using s1(1) by blast
qed

theorem context_saved_witness:
  "\<exists>m s1 s2. push_all (ram_port 4096) [0, 8, 19] (machine_at 0 init_regs m) = (Inr (), s1) \<and>
    pop_all (ram_port 4096) [19, 8, 0] s1 = (Inr (), s2) \<and> (\<forall>r \<in> {0, 8, 19}. GetReg r s2 = GetLo (init_regs ! r))"
proof -
  define s where "s = machine_at 0 init_regs (memory (c3x_example 0))"
  have s: "c3x_ram_ok 4096 (memory s)" "regs_ok (regs s)" using c3x_example_ok(1) init_regs_ok by (simp_all add: s_def)
  have r: "\<forall>r \<in> set [0, 8, 19]. saveable r" by (simp add: saveable_def HasReg_def)
  obtain s1 where s1: "push_all (ram_port 4096) [0, 8, 19] s = (Inr (), s1)" "c3x_ram_ok 4096 (memory s1)" "regs_ok (regs s1)"
    using c3x_ram.push_all_words [OF s r] by auto
  then obtain s2 where "pop_all (ram_port 4096) (rev [0, 8, 19]) s1 = (Inr (), s2)" "\<forall>r \<in> set [0, 8, 19]. GetReg r s2 = GetReg r s"
    using context_saved [OF s _ r] by auto
  then show ?thesis using s1(1) by (auto simp: s_def)
qed

section \<open>Floating-point registers\<close>

lemma popf_flags:
  assumes "regs_ok (regs s)"
  shows "\<not> GetST_N (GenFlags_float r RESET_UFNZV GEN_NZ 0 0 0 s)"
    and "bit (GetST (GenFlags_float r RESET_UFNZV GEN_NZ 0 0 0 s)) ST_Z \<longleftrightarrow> GetLo r = 0 \<and> GetHi r = 0x80"
proof -
  have m: "bit GEN_NZ i = (i = ST_N \<or> i = ST_Z)" if "i < 7" for i
  proof -
    have "\<forall>i \<in> set [0..<7]. bit GEN_NZ i = (i = ST_N \<or> i = ST_Z)" by code_simp
    then show ?thesis using that by simp
  qed
  show "\<not> GetST_N (GenFlags_float r RESET_UFNZV GEN_NZ 0 0 0 s)"
    "bit (GetST (GenFlags_float r RESET_UFNZV GEN_NZ 0 0 0 s)) ST_Z \<longleftrightarrow> GetLo r = 0 \<and> GetHi r = 0x80"
    unfolding GenFlags_float_def Let_def flag_tests GetST_N_def
    by (simp_all add: m SetST_bit [OF assms] ST_writable st_bits sum_masks bit_or_iff bit_and_iff bit_not_iff bit_push_bit_iff)
qed

lemma pushed_float:
  fixes h :: u8 and l :: u32
  defines "v \<equiv> push_bit 24 (ucast h) + drop_bit 8 l"
  shows "ucast (drop_bit 24 v) = h" and "push_bit 8 v = l AND NOT 0xff"
proof -
  have "push_bit 24 (ucast h) AND drop_bit 8 l = 0"
    by (rule bit_word_eqI) (auto simp: bit_simps dest: bit_imp_le_length)
  then have v: "v = push_bit 24 (ucast h) OR drop_bit 8 l" unfolding v_def by (rule disjunctive_add_eq_or)
  show "ucast (drop_bit 24 v) = h"
    unfolding v by (rule bit_word_eqI) (auto simp: bit_simps dest: bit_imp_le_length)
  have m: "(0xff :: u32) = mask 8" by (simp add: mask_eq_exp_minus_1)
  show "push_bit 8 v = l AND NOT 0xff"
    unfolding v m by (rule bit_word_eqI) (auto simp: bit_simps not_less)
qed

lemma regs_ok_SetExtReg:
  "regs_ok (regs s) \<Longrightarrow> r_lo_write_mask r = r_lo_write_mask (regs s ! n) \<Longrightarrow> regs_ok (regs (SetExtReg n r s))"
  unfolding SetExtReg_def regs_ok_def REG_R0_def
  by (simp, intro allI impI, rename_tac k, case_tac "k = n") simp_all

lemma GenFlags_float_reg: "n \<noteq> 21 \<Longrightarrow> regs (GenFlags_float r rm om ov uf ng s) ! n = regs s ! n"
  by (simp add: GenFlags_float_def Let_def SetST_def SetReg_def REG_ST_def)

context word_memory
begin

lemma PUSHF_POPF_run:
  assumes "mem_ok (memory s)" and ok: "regs_ok (regs s)" and src: "IsExtReg src" and dst: "IsExtReg dst" and ext: "extended (regs s ! dst)"
  defines "r \<equiv> GetExtReg src s"
  shows "\<exists>s1 s2. PUSHF_execute fc port src s = (Inr (), s1) \<and> POPF_execute fc port dst s1 = (Inr (), s2) \<and>
    GetHi (GetExtReg dst s2) = GetHi r \<and> GetLo (GetExtReg dst s2) = GetLo r AND NOT 0xff \<and> GetSP s2 = GetSP s \<and>
    \<not> GetST_N s2 \<and> (bit (GetST s2) ST_Z \<longleftrightarrow> GetHi r = 0x80 \<and> GetLo r AND NOT 0xff = 0)"
proof -
  define v where "v = push_bit 24 (ucast (GetHi r)) + drop_bit 8 (GetLo r)"
  have a: "unat ((GetSP s + 1) AND ADDRESS_MASK) < 2 ^ 24" by (rule masked_address)
  obtain m where m: "IntStore port ((GetSP s + 1) AND ADDRESS_MASK) v s = (Inr (), s\<lparr>memory := m\<rparr>)" "mem_ok m"
    "word_at m ((GetSP s + 1) AND ADDRESS_MASK) = v"
    using IntStore_word [OF assms(1) a, of v] a by auto
  define s1 where "s1 = SetSP (GetSP s + 1) (s\<lparr>memory := m\<rparr>)"
  have push: "PUSHF_execute fc port src s = (Inr (), s1)"
    using src m(1) by (simp add: PUSHF_execute_def float_reg_def HasReg_def IsExtReg_def Let_def s1_def flip: r_def) (simp flip: v_def)
  have s1: "regs_ok (regs s1)" "GetSP s1 = GetSP s + 1" "memory s1 = m" "regs s1 ! dst = regs s ! dst"
    using ok dst by (simp_all add: s1_def SetSP_def GetSP_def REG_SP_def GetReg_SetReg write_mask_full)
      (simp add: SetReg_def IsExtReg_def)
  obtain m' where m': "IntLoad port ((GetSP s + 1) AND ADDRESS_MASK) s1 = (Inr v, s1\<lparr>memory := m'\<rparr>)"
    using IntLoad_word [of s1 "(GetSP s + 1) AND ADDRESS_MASK"] m(2,3) a s1(3) by auto
  define q where "q = SetHi (ucast (drop_bit 24 v)) (SetLo (push_bit 8 v) (regs s ! dst))"
  define t where "t = SetSP (GetSP s) (SetExtReg dst q (s1\<lparr>memory := m'\<rparr>))"
  have q: "GetHi q = GetHi r" "GetLo q = GetLo r AND NOT 0xff" "r_lo_write_mask q = r_lo_write_mask (regs s ! dst)"
    using ext pushed_float [of "GetHi r" "GetLo r"]
    by (simp_all add: q_def v_def)
  have u: "regs_ok (regs (SetExtReg dst q (s1\<lparr>memory := m'\<rparr>)))" by (rule regs_ok_SetExtReg) (simp_all add: s1 q(3))
  have t: "regs_ok (regs t)" "GetSP t = GetSP s" "regs t ! dst = q"
    using u dst s1(1) by (simp_all add: t_def SetSP_def GetSP_def REG_SP_def GetReg_SetReg write_mask_full)
      (simp add: SetReg_def IsExtReg_def SetExtReg_def REG_R0_def regs_ok_def)
  define s2 where "s2 = GenFlags_float q RESET_UFNZV GEN_NZ 0 0 0 t"
  have pop: "POPF_execute fc port dst s1 = (Inr (), s2)"
  proof -
    have "SetExtReg dst (SetHi (ucast (drop_bit 24 v)) (SetLo (push_bit 8 v) (GetExtReg dst (s1\<lparr>memory := m'\<rparr>)))) (s1\<lparr>memory := m'\<rparr>) =
        SetExtReg dst q (s1\<lparr>memory := m'\<rparr>)"
      by (simp add: GetExtReg_def REG_R0_def s1(4) q_def)
    then have "POPF_execute fc port dst s1 = (Inr (), GenFlags_float (GetExtReg dst t) RESET_UFNZV GEN_NZ 0 0 0 t)"
      using dst m' by (simp add: POPF_execute_def float_reg_def HasReg_def IsExtReg_def Let_def give_exponent_def s1(2) t_def)
    then show ?thesis by (simp add: s2_def GetExtReg_def REG_R0_def t(3))
  qed
  have s2: "GetExtReg dst s2 = q" "GetSP s2 = GetSP s"
    using dst t(2,3) by (simp_all add: s2_def GetExtReg_def REG_R0_def GenFlags_float_reg IsExtReg_def GetSP_def REG_SP_def GetReg_def)
  have "\<not> GetST_N s2" "bit (GetST s2) ST_Z \<longleftrightarrow> GetHi r = 0x80 \<and> GetLo r AND NOT 0xff = 0"
    unfolding s2_def popf_flags(2) [OF t(1)] q(1,2) by (rule popf_flags(1) [OF t(1)], rule conj_commute)
  then show ?thesis using push pop s2 q(1,2) by (intro exI [of _ s1] exI [of _ s2]) simp
qed

end

text \<open>
  C39: an extended precision register pushed with \<open>PUSHF\<close> and popped with \<open>POPF\<close> keeps its exponent and its
  mantissa but for the eight lowest bits, which become zero. The zero flag is that of the popped value, while
  the negative flag is clear even when the value is negative.
\<close>

theorem float_stack:
  assumes "c3x_ram_ok ps (memory s)" and "regs_ok (regs s)" and "IsExtReg src" and "IsExtReg dst" and "extended (regs s ! dst)"
  shows "\<exists>s1 s2. PUSHF_execute fc (ram_port ps) src s = (Inr (), s1) \<and> POPF_execute fc (ram_port ps) dst s1 = (Inr (), s2) \<and>
    GetHi (GetExtReg dst s2) = GetHi (GetExtReg src s) \<and> GetLo (GetExtReg dst s2) = GetLo (GetExtReg src s) AND NOT 0xff \<and>
    GetSP s2 = GetSP s \<and> \<not> GetST_N s2 \<and>
    (bit (GetST s2) ST_Z \<longleftrightarrow> GetHi (GetExtReg src s) = 0x80 \<and> GetLo (GetExtReg src s) AND NOT 0xff = 0)"
  using assms by (rule c3x_ram.PUSHF_POPF_run)

lemma float_regs: "extended (init_regs ! 1)" "extended (init_regs ! 0)"
  by code_simp+

theorem float_stack_witness:
  "\<exists>s s1 s2. IsNeg (GetExtReg 0 s) = 1 \<and> PUSHF_execute default_params (ram_port 4096) 0 s = (Inr (), s1) \<and>
    POPF_execute default_params (ram_port 4096) 1 s1 = (Inr (), s2) \<and> GetLo (GetExtReg 1 s2) = 0x81234500 \<and> \<not> GetST_N s2"
proof -
  define s where "s = SetReg 0 0x81234567 (machine_at 0 init_regs (memory (c3x_example 0)))"
  have "c3x_ram_ok 4096 (memory s)" "regs_ok (regs s)" using c3x_example_ok(1) init_regs_ok by (simp_all add: s_def)
  moreover have "extended (regs s ! 1)"
    using float_regs by (simp add: s_def SetReg_def)
  moreover have "GetLo (GetExtReg 0 s) = 0x81234567"
    using float_regs init_regs_ok by (simp add: s_def SetReg_def GetExtReg_def REG_R0_def regs_ok_def)
  ultimately show ?thesis
    using float_stack [of 4096 s 0 1 default_params] by (force simp: IsExtReg_def IsNeg_def GetLo_def)
qed

end
