(* ===== verification/C3X_FloatOps.thy ===== *)
theory C3X_FloatOps
  imports C3X_Load
begin

text \<open>
  The floating-point instructions with two operands of the TMS320C3X (\<open>isa/2op.isa\<close>). Where they accept a
  destination without exponent, each copy of an instruction gives it one of its own, some before the operand is
  loaded and some after, which \<open>float_exponents\<close> records.
\<close>

section \<open>Operands\<close>

text \<open>When a destination without exponent gets one: with the loaded operand, its own exponent can be taken.\<close>

datatype given = Before u8 | After u8 | Of_word

record float_exponents =
  of_reg :: u8
  of_dir :: given
  of_indir :: given
  of_imm :: u8

definition give_before :: "nat \<Rightarrow> given \<Rightarrow> 'm c3x_cpu \<Rightarrow> 'm c3x_cpu" where
  "give_before dst g s = (case g of Before h \<Rightarrow> give_exponent dst h s | _ \<Rightarrow> s)"

definition give_after :: "nat \<Rightarrow> given \<Rightarrow> u32 \<Rightarrow> 'm c3x_cpu \<Rightarrow> 'm c3x_cpu" where
  "give_after dst g v s =
     (case g of
        Before _ \<Rightarrow> s
      | After h \<Rightarrow> give_exponent dst h s
      | Of_word \<Rightarrow> give_exponent dst (GetHi (SetFromSinglePrecisionFPFormat v init_Register)) s)"

text \<open>
  The operation on registers, on a word in single precision and on an immediate value in short format, the
  destination last, and what is done with its result.
\<close>

definition with_float ::
  "c3x_params \<Rightarrow> 'm mem_port \<Rightarrow> float_exponents \<Rightarrow> (c3x_register \<Rightarrow> c3x_register \<Rightarrow> 'r) \<Rightarrow> (u32 \<Rightarrow> c3x_register \<Rightarrow> 'r) \<Rightarrow>
   (u16 \<Rightarrow> c3x_register \<Rightarrow> 'r) \<Rightarrow> (nat \<Rightarrow> 'r \<Rightarrow> 'm c3x_cpu \<Rightarrow> 'm c3x_cpu) \<Rightarrow> c3x_operand \<Rightarrow> nat \<Rightarrow> (unit, 'm) action" where
  "with_float fc port fe on_reg on_word on_imm finish opnd dst s =
     (if \<not> float_operand fc opnd \<or> \<not> float_reg fc dst then (Inl BogusOpcode, s)
      else let word = (\<lambda>g ea s. act_bind (IntLoad port ea (give_before dst g s)) (\<lambda>v s.
                 let s = give_after dst g v s in (Inr (), finish dst (on_word v (GetExtReg dst s)) s)))
      in case opnd of
           Op_reg src \<Rightarrow>
             (let s = give_exponents src dst (of_reg fe) s
              in (Inr (), finish dst (on_reg (GetExtReg src s) (GetExtReg dst s)) s))
         | Op_dir direct \<Rightarrow> word (of_dir fe) (ComputeDirEA direct s) s
         | Op_indir md ar disp \<Rightarrow> act_bind (indirect_address md ar disp s) (word (of_indir fe))
         | Op_imm imm \<Rightarrow>
             (let s = give_exponent dst (of_imm fe) s
              in (Inr (), finish dst (on_imm (ucast imm) (GetExtReg dst s)) s)))"

definition GEN_FLOAT :: u32 where
  "GEN_FLOAT = M_ST_LUF OR M_ST_LV OR M_ST_UF OR M_ST_N OR M_ST_Z OR M_ST_V"

definition write_float :: "u32 \<Rightarrow> u32 \<Rightarrow> nat \<Rightarrow> c3x_result \<Rightarrow> 'm c3x_cpu \<Rightarrow> 'm c3x_cpu" where
  "write_float reset_mask or_mask dst res s =
     (case res of (r, ov, un, neg) \<Rightarrow>
        let s = SetExtReg dst r s
        in if IsExtReg dst then GenFlags_float (GetExtReg dst s) reset_mask or_mask ov un neg s else s)"

section \<open>Operations with one operand\<close>

definition one_operand :: float_exponents where
  "one_operand = \<lparr>of_reg = 0x10, of_dir = Before 0, of_indir = Before 0x08, of_imm = 0x10\<rparr>"

definition ABSF_execute :: "c3x_params \<Rightarrow> 'm mem_port \<Rightarrow> c3x_operand \<Rightarrow> nat \<Rightarrow> (unit, 'm) action" where
  "ABSF_execute fc port = with_float fc port one_operand Absf_reg Absf32 Absf16
     (\<lambda>dst (r, ov). write_float RESET_UFNZV (M_ST_LV OR M_ST_Z OR M_ST_V) dst (r, ov, 0, 0))"

definition NEGF_execute :: "c3x_params \<Rightarrow> 'm mem_port \<Rightarrow> c3x_operand \<Rightarrow> nat \<Rightarrow> (unit, 'm) action" where
  "NEGF_execute fc port = with_float fc port one_operand Negf Negf32 Negf16 (write_float RESET_UFNZV GEN_FLOAT)"

definition NORM_execute :: "c3x_params \<Rightarrow> 'm mem_port \<Rightarrow> c3x_operand \<Rightarrow> nat \<Rightarrow> (unit, 'm) action" where
  "NORM_execute fc port = with_float fc port one_operand Normf_reg Normf32 Normf16
     (\<lambda>dst (r, un, neg). write_float RESET_UFNZV (M_ST_LUF OR M_ST_UF OR M_ST_N OR M_ST_Z) dst (r, 0, un, neg))"

text \<open>The zero flag is never generated: it is left alone, or reset as the chip does.\<close>

definition RND_execute :: "c3x_params \<Rightarrow> 'm mem_port \<Rightarrow> c3x_operand \<Rightarrow> nat \<Rightarrow> (unit, 'm) action" where
  "RND_execute fc port = with_float fc port one_operand Rndf_reg Rndf32 Rndf16
     (write_float (if EnableRndBug fc then M_ST_Z OR M_ST_UF OR M_ST_N OR M_ST_V else M_ST_UF OR M_ST_N OR M_ST_V)
        (M_ST_LUF OR M_ST_LV OR M_ST_UF OR M_ST_N OR M_ST_V))"

section \<open>Sums, differences and products\<close>

definition ADDF_execute :: "c3x_params \<Rightarrow> 'm mem_port \<Rightarrow> c3x_operand \<Rightarrow> nat \<Rightarrow> (unit, 'm) action" where
  "ADDF_execute fc port = with_float fc port \<lparr>of_reg = 0x08, of_dir = Of_word, of_indir = After 0x08, of_imm = 0x10\<rparr>
     Addf_reg Addf32 Addf16 (write_float RESET_UFNZV GEN_FLOAT)"

definition MPYF_execute :: "c3x_params \<Rightarrow> 'm mem_port \<Rightarrow> c3x_operand \<Rightarrow> nat \<Rightarrow> (unit, 'm) action" where
  "MPYF_execute fc port = with_float fc port \<lparr>of_reg = 0x08, of_dir = Of_word, of_indir = After 0x08, of_imm = 0x10\<rparr>
     Mpyf_reg Mpyf32 Mpyf16 (write_float RESET_UFNZV GEN_FLOAT)"

definition SUBF_execute :: "c3x_params \<Rightarrow> 'm mem_port \<Rightarrow> c3x_operand \<Rightarrow> nat \<Rightarrow> (unit, 'm) action" where
  "SUBF_execute fc port = with_float fc port \<lparr>of_reg = 0x08, of_dir = Of_word, of_indir = After 0x08, of_imm = 0x10\<rparr>
     Subf_reg Subf32 Subf16 (write_float RESET_UFNZV GEN_FLOAT)"

definition SUBRF_execute :: "c3x_params \<Rightarrow> 'm mem_port \<Rightarrow> c3x_operand \<Rightarrow> nat \<Rightarrow> (unit, 'm) action" where
  "SUBRF_execute fc port = with_float fc port \<lparr>of_reg = 0x08, of_dir = Of_word, of_indir = After 0x08, of_imm = 0x10\<rparr>
     (\<lambda>src dst. Subf_regs src dst dst) (\<lambda>v dst. Subf32_imm_reg v dst dst) (\<lambda>v dst. Subf16_imm_reg v dst dst)
     (write_float RESET_UFNZV GEN_FLOAT)"

text \<open>A comparison subtracts into a register of its own and writes the flags whatever the register compared.\<close>

definition CMPF_execute :: "c3x_params \<Rightarrow> 'm mem_port \<Rightarrow> c3x_operand \<Rightarrow> nat \<Rightarrow> (unit, 'm) action" where
  "CMPF_execute fc port = with_float fc port \<lparr>of_reg = 0x10, of_dir = Of_word, of_indir = Before 0x10, of_imm = 0x10\<rparr>
     (\<lambda>src dst. Subf_regs dst src init_Register) (\<lambda>v dst. Subf32_reg_imm dst v init_Register)
     (\<lambda>v dst. Subf16_reg_imm dst v init_Register)
     (\<lambda>_ (r, ov, un, neg) s. GenFlags_float r RESET_UFNZV GEN_FLOAT ov un neg s)"

section \<open>Conversions\<close>

text \<open>A floating-point source and an integer destination.\<close>

definition FIX_execute :: "c3x_params \<Rightarrow> 'm mem_port \<Rightarrow> c3x_operand \<Rightarrow> nat \<Rightarrow> (unit, 'm) action" where
  "FIX_execute fc port opnd dst s =
     (if \<not> float_operand fc opnd \<or> \<not> HasReg dst then (Inl BogusOpcode, s)
      else let finish = (\<lambda>r s. case c3x_Fix r of (v, ov, neg) \<Rightarrow> (Inr (), write_result dst v RESET_UFNZV GEN_LVNZV neg 0 ov s))
      in case opnd of
           Op_reg src \<Rightarrow> (let s = give_exponent src 0x10 s in finish (GetExtReg src s) s)
         | Op_imm imm \<Rightarrow> finish (SetFromShortFPFormat (ucast imm) init_Register) s
         | _ \<Rightarrow> act_bind (load_operand port opnd s) (\<lambda>v. finish (SetFromSinglePrecisionFPFormat v init_Register)))"

text \<open>An integer source and a floating-point destination.\<close>

definition FLOAT_execute :: "c3x_params \<Rightarrow> 'm mem_port \<Rightarrow> c3x_operand \<Rightarrow> nat \<Rightarrow> (unit, 'm) action" where
  "FLOAT_execute fc port opnd dst s =
     (if \<not> has_operand opnd \<or> \<not> float_reg fc dst then (Inl BogusOpcode, s)
      else act_bind (load_operand port opnd s) (\<lambda>v s.
        let s = give_exponent dst 0 s
        in case c3x_Float v (GetExtReg dst s) of (r, neg) \<Rightarrow> (Inr (), write_float RESET_UFNZV GEN_NZ dst (r, 0, 0, neg) s)))"

section \<open>Decoding\<close>

datatype c3x_float_op = ABSF | ADDF | CMPF | FIX | FLOAT | MPYF | NEGF | NORM | RND | SUBF | SUBRF

datatype c3x_float_insn = Float_2op c3x_float_op c3x_operand nat

definition decode_float :: "u32 \<Rightarrow> c3x_float_insn option" where
  "decode_float w =
     (if wfield 29 3 w \<noteq> 0 then None
      else let opc = field 23 6 w; dst = field 16 5 w;
               short = (\<lambda>i. map_option (\<lambda>q. Float_2op i q dst) (decode_operand (wfield 0 16 w) w));
               signed = (\<lambda>i. map_option (\<lambda>q. Float_2op i q dst) (decode_operand (sext16 w) w))
           in if opc = 0b000000 then short ABSF else if opc = 0b000011 then short ADDF
              else if opc = 0b001000 then short CMPF else if opc = 0b001010 then short FIX
              else if opc = 0b001011 then signed FLOAT else if opc = 0b010100 then short MPYF
              else if opc = 0b010111 then short NEGF else if opc = 0b011010 then signed NORM
              else if opc = 0b100010 then signed RND else if opc = 0b101111 then short SUBF
              else if opc = 0b110010 then short SUBRF else None)"

fun execute_float :: "c3x_params \<Rightarrow> 'm mem_port \<Rightarrow> c3x_float_insn \<Rightarrow> (unit, 'm) action" where
  "execute_float fc port (Float_2op ABSF opnd dst) = ABSF_execute fc port opnd dst"
| "execute_float fc port (Float_2op ADDF opnd dst) = ADDF_execute fc port opnd dst"
| "execute_float fc port (Float_2op CMPF opnd dst) = CMPF_execute fc port opnd dst"
| "execute_float fc port (Float_2op FIX opnd dst) = FIX_execute fc port opnd dst"
| "execute_float fc port (Float_2op FLOAT opnd dst) = FLOAT_execute fc port opnd dst"
| "execute_float fc port (Float_2op MPYF opnd dst) = MPYF_execute fc port opnd dst"
| "execute_float fc port (Float_2op NEGF opnd dst) = NEGF_execute fc port opnd dst"
| "execute_float fc port (Float_2op NORM opnd dst) = NORM_execute fc port opnd dst"
| "execute_float fc port (Float_2op RND opnd dst) = RND_execute fc port opnd dst"
| "execute_float fc port (Float_2op SUBF opnd dst) = SUBF_execute fc port opnd dst"
| "execute_float fc port (Float_2op SUBRF opnd dst) = SUBRF_execute fc port opnd dst"

end
