(* ===== verification/C3X_ThreeOp.thy ===== *)
theory C3X_ThreeOp
  imports C3X_FloatOps
begin

text \<open>
  The instructions with three operands of the TMS320C3X (\<open>isa/3op.isa\<close>): two sources, each a register or a
  word at an indirect address, and a destination of its own.
\<close>

section \<open>Sources\<close>

datatype c3x_source = Src_reg nat | Src_indir nat nat

fun has_source :: "c3x_source \<Rightarrow> bool" where
  "has_source (Src_reg n) = HasReg n"
| "has_source (Src_indir _ _) = True"

text \<open>Two addresses are computed from the same registers; of two updates of one register the first counts.\<close>

definition update_ars :: "nat \<Rightarrow> u32 option \<Rightarrow> nat \<Rightarrow> u32 option \<Rightarrow> 'm c3x_cpu \<Rightarrow> 'm c3x_cpu" where
  "update_ars ar1 output1 ar2 output2 s =
     (let s = (case output1 of Some v \<Rightarrow> SetAR23_0 ar1 v s | None \<Rightarrow> s)
      in case output2 of
           Some v \<Rightarrow> if output1 = None \<or> ar1 \<noteq> ar2 then SetAR23_0 ar2 v s else s
         | None \<Rightarrow> s)"

text \<open>The arithmetic shift has its negation misplaced: the second register is updated only when it is the first one too.\<close>

definition update_ars_ash :: "nat \<Rightarrow> u32 option \<Rightarrow> nat \<Rightarrow> u32 option \<Rightarrow> 'm c3x_cpu \<Rightarrow> 'm c3x_cpu" where
  "update_ars_ash ar1 output1 ar2 output2 s =
     (let s = (case output1 of Some v \<Rightarrow> SetAR23_0 ar1 v s | None \<Rightarrow> s)
      in case output2 of
           Some v \<Rightarrow> if \<not> (output1 \<noteq> None \<or> ar1 \<noteq> ar2) then SetAR23_0 ar2 v s else s
         | None \<Rightarrow> s)"

text \<open>
  When the auxiliary registers of two indirect sources are updated, which matters when a load fails: each
  instruction has its own order.
\<close>

datatype ars_updated = Before_loads | After_loads | After_result

definition update_when :: "bool \<Rightarrow> ('m c3x_cpu \<Rightarrow> 'm c3x_cpu) \<Rightarrow> 'm c3x_cpu \<Rightarrow> 'm c3x_cpu" where
  "update_when now upd s = (if now then upd s else s)"

fun load_sources ::
  "ars_updated \<Rightarrow> (nat \<Rightarrow> u32 option \<Rightarrow> nat \<Rightarrow> u32 option \<Rightarrow> 'm c3x_cpu \<Rightarrow> 'm c3x_cpu) \<Rightarrow> 'm mem_port \<Rightarrow> c3x_source \<Rightarrow> c3x_source \<Rightarrow> (u32 \<times> u32, 'm) action" where
  "load_sources au upd port (Src_reg src1) (Src_reg src2) s = (Inr (GetReg src1 s, GetReg src2 s), s)"
| "load_sources au upd port (Src_indir md1 ar1) (Src_reg src2) s =
     act_bind (load_operand port (Op_indir md1 ar1 1) s) (\<lambda>v1 s. (Inr (v1, GetReg src2 s), s))"
| "load_sources au upd port (Src_reg src1) (Src_indir md2 ar2) s =
     act_bind (load_operand port (Op_indir md2 ar2 1) s) (\<lambda>v2 s. (Inr (GetReg src1 s, v2), s))"
| "load_sources au upd port (Src_indir md1 ar1) (Src_indir md2 ar2) s =
     (case (ComputeIndirEA md1 ar1 1 s, ComputeIndirEA md2 ar2 1 s) of
        (Some (ea1, output1), Some (ea2, output2)) \<Rightarrow>
          (let upd_ars = upd ar1 output1 ar2 output2
           in act_bind (IntLoad port ea1 (update_when (au = Before_loads) upd_ars s)) (\<lambda>v1 s.
                act_bind (IntLoad port ea2 s) (\<lambda>v2 s. (Inr (v1, v2), update_when (au \<noteq> Before_loads) upd_ars s))))
      | _ \<Rightarrow> (Inl BogusOpcode, s))"

section \<open>Integer and logical instructions\<close>

text \<open>\<open>ADDI3\<close> and \<open>CMPI3\<close> update the auxiliary registers first, the others last.\<close>

definition with_sources ::
  "ars_updated \<Rightarrow> 'm mem_port \<Rightarrow> c3x_source \<Rightarrow> c3x_source \<Rightarrow> bool \<Rightarrow> (u32 \<Rightarrow> u32 \<Rightarrow> 'm c3x_cpu \<Rightarrow> 'm c3x_cpu) \<Rightarrow> (unit, 'm) action" where
  "with_sources au port a b has_dst f s =
     (if \<not> has_source a \<or> \<not> has_source b \<or> \<not> has_dst then (Inl BogusOpcode, s)
      else act_bind (load_sources au update_ars port a b s) (\<lambda>(v1, v2) s. (Inr (), f v1 v2 s)))"

definition ADDC3_execute :: "'m mem_port \<Rightarrow> c3x_source \<Rightarrow> c3x_source \<Rightarrow> nat \<Rightarrow> (unit, 'm) action" where
  "ADDC3_execute port a b dst = with_sources After_loads port a b (HasReg dst) (\<lambda>v1 v2 s.
     write_sum dst (add_ovm (GetST_OVM s) v1 v2 (c3x_carry s)) s)"

definition ADDI3_execute :: "'m mem_port \<Rightarrow> c3x_source \<Rightarrow> c3x_source \<Rightarrow> nat \<Rightarrow> (unit, 'm) action" where
  "ADDI3_execute port a b dst = with_sources Before_loads port a b (HasReg dst) (\<lambda>v1 v2 s.
     write_sum dst (add_ovm (GetST_OVM s) v1 v2 0) s)"

definition SUBB3_execute :: "'m mem_port \<Rightarrow> c3x_source \<Rightarrow> c3x_source \<Rightarrow> nat \<Rightarrow> (unit, 'm) action" where
  "SUBB3_execute port a b dst = with_sources After_loads port a b (HasReg dst) (\<lambda>v1 v2 s.
     write_sum dst (sub_ovm (GetST_OVM s) v1 v2 (c3x_carry s)) s)"

definition SUBI3_execute :: "'m mem_port \<Rightarrow> c3x_source \<Rightarrow> c3x_source \<Rightarrow> nat \<Rightarrow> (unit, 'm) action" where
  "SUBI3_execute port a b dst = with_sources After_loads port a b (HasReg dst) (\<lambda>v1 v2 s.
     write_sum dst (sub_ovm (GetST_OVM s) v1 v2 0) s)"

definition CMPI3_execute :: "'m mem_port \<Rightarrow> c3x_source \<Rightarrow> c3x_source \<Rightarrow> (unit, 'm) action" where
  "CMPI3_execute port a b = with_sources Before_loads port a b True (\<lambda>v1 v2 s.
     let r = SignedSub32 v1 v2 0
     in GenFlags (result r) RESET_UFNZVC GEN_LVNZVC (ucast (sign r XOR overflow r)) (ucast (carry_out r))
          (ucast (overflow r)) s)"

definition MPYI3_execute :: "'m mem_port \<Rightarrow> c3x_source \<Rightarrow> c3x_source \<Rightarrow> nat \<Rightarrow> (unit, 'm) action" where
  "MPYI3_execute port a b dst = with_sources After_loads port a b (HasReg dst) (\<lambda>v1 v2 s.
     let r64 = SignExtend64 (ucast (v1 AND 0xffffff)) 24 * SignExtend64 (ucast (v2 AND 0xffffff)) 24;
         lo32 = ucast r64 :: u32; hi32 = ucast (signed_drop_bit 32 r64) :: u32;
         ov = (signed_drop_bit 31 lo32 \<noteq> hi32); neg = (sint r64 < 0);
         r = (if GetST_OVM s \<and> ov then (if sint r64 < 0 then 0x80000000 else 0x7fffffff) else lo32)
     in write_result dst r RESET_UFNZV GEN_LVNZV (of_bool neg) 0 (of_bool ov) s)"

definition AND3_execute :: "'m mem_port \<Rightarrow> c3x_source \<Rightarrow> c3x_source \<Rightarrow> nat \<Rightarrow> (unit, 'm) action" where
  "AND3_execute port a b dst = with_sources After_loads port a b (HasReg dst) (\<lambda>v1 v2. write_logic dst (v1 AND v2))"

definition ANDN3_execute :: "'m mem_port \<Rightarrow> c3x_source \<Rightarrow> c3x_source \<Rightarrow> nat \<Rightarrow> (unit, 'm) action" where
  "ANDN3_execute port a b dst = with_sources After_loads port a b (HasReg dst) (\<lambda>v1 v2. write_logic dst (v1 AND NOT v2))"

definition OR3_execute :: "'m mem_port \<Rightarrow> c3x_source \<Rightarrow> c3x_source \<Rightarrow> nat \<Rightarrow> (unit, 'm) action" where
  "OR3_execute port a b dst = with_sources After_loads port a b (HasReg dst) (\<lambda>v1 v2. write_logic dst (v1 OR v2))"

definition XOR3_execute :: "'m mem_port \<Rightarrow> c3x_source \<Rightarrow> c3x_source \<Rightarrow> nat \<Rightarrow> (unit, 'm) action" where
  "XOR3_execute port a b dst = with_sources After_loads port a b (HasReg dst) (\<lambda>v1 v2. write_logic dst (v1 XOR v2))"

definition TSTB3_execute :: "'m mem_port \<Rightarrow> c3x_source \<Rightarrow> c3x_source \<Rightarrow> (unit, 'm) action" where
  "TSTB3_execute port a b = with_sources After_loads port a b True (\<lambda>v1 v2 s.
     let r = v1 AND v2 in GenFlags r RESET_UFNZV GEN_NZ (is_neg32 r) 0 0 s)"

text \<open>The second source is the count.\<close>

definition ASH3_execute :: "'m mem_port \<Rightarrow> c3x_source \<Rightarrow> c3x_source \<Rightarrow> nat \<Rightarrow> (unit, 'm) action" where
  "ASH3_execute port a b dst s =
     (if \<not> has_source a \<or> \<not> has_source b \<or> \<not> HasReg dst then (Inl BogusOpcode, s)
      else act_bind (load_sources After_loads update_ars_ash port a b s) (\<lambda>(v1, v2) s. (Inr (),
        let (r, cy, ov) = ash_result v1 (shift_count v2)
        in write_result dst r RESET_UFNZVC GEN_LVNZVC (is_neg32 r) (ucast cy) (of_bool ov) s)))"

definition LSH3_execute :: "'m mem_port \<Rightarrow> c3x_source \<Rightarrow> c3x_source \<Rightarrow> nat \<Rightarrow> (unit, 'm) action" where
  "LSH3_execute port a b dst = with_sources After_loads port a b (HasReg dst) (\<lambda>v1 v2 s.
     let (r, cy) = lsh_result v1 (shift_count v2)
     in write_result dst r RESET_UFNZVC GEN_NZC (is_neg32 r) (ucast cy) 0 s)"

section \<open>Floating-point instructions\<close>

text \<open>The operation for each kind of sources, the destination last.\<close>

record float_op3 =
  on_regs :: "c3x_register \<Rightarrow> c3x_register \<Rightarrow> c3x_register \<Rightarrow> c3x_result"
  on_word_reg :: "u32 \<Rightarrow> c3x_register \<Rightarrow> c3x_register \<Rightarrow> c3x_result"
  on_reg_word :: "c3x_register \<Rightarrow> u32 \<Rightarrow> c3x_register \<Rightarrow> c3x_result"
  on_words :: "u32 \<Rightarrow> u32 \<Rightarrow> c3x_register \<Rightarrow> c3x_result"

definition addf3 :: float_op3 where
  "addf3 = \<lparr>on_regs = Addf_regs, on_word_reg = Addf_imm_reg, on_reg_word = Addf_reg_imm, on_words = Addf_imms\<rparr>"

definition mpyf3 :: float_op3 where
  "mpyf3 = \<lparr>on_regs = Mpyf_regs, on_word_reg = Mpyf_imm_reg, on_reg_word = Mpyf_reg_imm, on_words = Mpyf_imms\<rparr>"

definition subf3 :: float_op3 where
  "subf3 = \<lparr>on_regs = Subf_regs, on_word_reg = Subf32_imm_reg, on_reg_word = Subf32_reg_imm, on_words = Subf_imms\<rparr>"

text \<open>
  How the copies of an instruction differ: the exponent given to a second source without one, whether such a
  register next to a word of memory keeps the exponent given to it or a copy of it gets it, and when the auxiliary
  registers of two indirect sources are updated.
\<close>

record float_style =
  exponent2 :: u8
  kept :: bool
  ars :: ars_updated

definition float_source_ok :: "c3x_params \<Rightarrow> c3x_source \<Rightarrow> bool" where
  "float_source_ok fc a = (case a of Src_reg n \<Rightarrow> float_reg fc n | Src_indir _ _ \<Rightarrow> True)"

text \<open>The result is handed on with the update of the auxiliary registers that is still to be done.\<close>

fun float_sources ::
  "float_op3 \<Rightarrow> float_style \<Rightarrow> 'm mem_port \<Rightarrow> c3x_source \<Rightarrow> c3x_source \<Rightarrow> ('m c3x_cpu \<Rightarrow> c3x_register) \<Rightarrow>
   (c3x_result \<times> ('m c3x_cpu \<Rightarrow> 'm c3x_cpu), 'm) action" where
  "float_sources f st port (Src_reg src1) (Src_reg src2) out s =
     (let s = give_exponent src2 (exponent2 st) (give_exponent src1 0 s)
      in (Inr (on_regs f (GetExtReg src1 s) (GetExtReg src2 s) (out s), id), s))"
| "float_sources f st port (Src_indir md1 ar1) (Src_reg src2) out s =
     act_bind (load_operand port (Op_indir md1 ar1 1) s) (\<lambda>v1 s.
       let t = give_exponent src2 (exponent2 st) s; q = GetExtReg src2 t; s = (if kept st then t else s)
       in (Inr (on_word_reg f v1 q (out s), id), s))"
| "float_sources f st port (Src_reg src1) (Src_indir md2 ar2) out s =
     act_bind (load_operand port (Op_indir md2 ar2 1) s) (\<lambda>v2 s.
       let t = give_exponent src1 0 s; q = GetExtReg src1 t; s = (if kept st then t else s)
       in (Inr (on_reg_word f q v2 (out s), id), s))"
| "float_sources f st port (Src_indir md1 ar1) (Src_indir md2 ar2) out s =
     (case (ComputeIndirEA md1 ar1 1 s, ComputeIndirEA md2 ar2 1 s) of
        (Some (ea1, output1), Some (ea2, output2)) \<Rightarrow>
          (let upd = (\<lambda>now. update_when (ars st = now) (update_ars ar1 output1 ar2 output2))
           in act_bind (IntLoad port ea1 (upd Before_loads s)) (\<lambda>v1 s. act_bind (IntLoad port ea2 s) (\<lambda>v2 s.
                let s = upd After_loads s in (Inr (on_words f v1 v2 (out s), upd After_result), s))))
      | _ \<Rightarrow> (Inl BogusOpcode, s))"

definition write_float3 :: "float_op3 \<Rightarrow> float_style \<Rightarrow> c3x_params \<Rightarrow> 'm mem_port \<Rightarrow> c3x_source \<Rightarrow> c3x_source \<Rightarrow> nat \<Rightarrow> (unit, 'm) action" where
  "write_float3 f st fc port a b dst s =
     (if \<not> float_source_ok fc a \<or> \<not> float_source_ok fc b \<or> \<not> float_reg fc dst then (Inl BogusOpcode, s)
      else act_bind (float_sources f st port a b (GetExtReg dst) s) (\<lambda>((r, ov, un, neg), upd) s.
        let s = upd (SetExtReg dst r s)
        in (Inr (), if IsExtReg dst then GenFlags_float (GetExtReg dst s) RESET_UFNZV GEN_FLOAT ov un neg s else s)))"

definition ADDF3_execute :: "c3x_params \<Rightarrow> 'm mem_port \<Rightarrow> c3x_source \<Rightarrow> c3x_source \<Rightarrow> nat \<Rightarrow> (unit, 'm) action" where
  "ADDF3_execute = write_float3 addf3 \<lparr>exponent2 = 0x10, kept = True, ars = Before_loads\<rparr>"

definition MPYF3_execute :: "c3x_params \<Rightarrow> 'm mem_port \<Rightarrow> c3x_source \<Rightarrow> c3x_source \<Rightarrow> nat \<Rightarrow> (unit, 'm) action" where
  "MPYF3_execute = write_float3 mpyf3 \<lparr>exponent2 = 0x10, kept = False, ars = After_result\<rparr>"

definition SUBF3_execute :: "c3x_params \<Rightarrow> 'm mem_port \<Rightarrow> c3x_source \<Rightarrow> c3x_source \<Rightarrow> nat \<Rightarrow> (unit, 'm) action" where
  "SUBF3_execute = write_float3 subf3 \<lparr>exponent2 = 0x10, kept = True, ars = After_result\<rparr>"

definition CMPF3_execute :: "c3x_params \<Rightarrow> 'm mem_port \<Rightarrow> c3x_source \<Rightarrow> c3x_source \<Rightarrow> (unit, 'm) action" where
  "CMPF3_execute fc port a b s =
     (if \<not> float_source_ok fc a \<or> \<not> float_source_ok fc b then (Inl BogusOpcode, s)
      else act_bind (float_sources subf3 \<lparr>exponent2 = 0x08, kept = True, ars = After_loads\<rparr> port a b (\<lambda>_. init_Register) s)
        (\<lambda>((r, ov, un, neg), upd) s. (Inr (), GenFlags_float r RESET_UFNZV GEN_FLOAT ov un neg (upd s))))"

section \<open>Decoding\<close>

datatype c3x_op3 =
    ADDC3 | ADDF3 | ADDI3 | AND3 | ANDN3 | ASH3 | CMPF3 | CMPI3 | LSH3 | MPYF3 | MPYI3 | OR3 | SUBB3 | SUBF3 | SUBI3
  | TSTB3 | XOR3

datatype c3x_insn3 = Insn_3op c3x_op3 c3x_source c3x_source nat

definition decode_sources :: "u32 \<Rightarrow> (c3x_source \<times> c3x_source) option" where
  "decode_sources w =
     (let r1 = (if wfield 13 3 w = 0 then Some (Src_reg (field 8 5 w)) else None);
          r2 = (if wfield 5 3 w = 0 then Some (Src_reg (field 0 5 w)) else None);
          i1 = Some (Src_indir (field 11 5 w) (field 8 3 w)); i2 = Some (Src_indir (field 3 5 w) (field 0 3 w));
          (a, b) = (if wfield 21 2 w = 0 then (r1, r2) else if wfield 21 2 w = 1 then (i1, r2)
                    else if wfield 21 2 w = 2 then (r1, i2) else (i1, i2))
      in case (a, b) of (Some x, Some y) \<Rightarrow> Some (x, y) | _ \<Rightarrow> None)"

definition decode_three :: "u32 \<Rightarrow> c3x_insn3 option" where
  "decode_three w =
     (if wfield 29 3 w \<noteq> 1 then None
      else let opc = field 23 6 w; dst = field 16 5 w;
               insn = (\<lambda>i. map_option (\<lambda>(a, b). Insn_3op i a b dst) (decode_sources w));
               flags_only = (\<lambda>i. if dst = 0 then insn i else None)
           in if opc = 0 then insn ADDC3 else if opc = 1 then insn ADDF3 else if opc = 2 then insn ADDI3
              else if opc = 3 then insn AND3 else if opc = 4 then insn ANDN3 else if opc = 5 then insn ASH3
              else if opc = 6 then flags_only CMPF3 else if opc = 7 then flags_only CMPI3 else if opc = 8 then insn LSH3
              else if opc = 9 then insn MPYF3 else if opc = 10 then insn MPYI3 else if opc = 11 then insn OR3
              else if opc = 12 then insn SUBB3 else if opc = 13 then insn SUBF3 else if opc = 14 then insn SUBI3
              else if opc = 15 then flags_only TSTB3 else if opc = 16 then insn XOR3 else None)"

fun execute_3op :: "c3x_params \<Rightarrow> 'm mem_port \<Rightarrow> c3x_op3 \<Rightarrow> c3x_source \<Rightarrow> c3x_source \<Rightarrow> nat \<Rightarrow> (unit, 'm) action" where
  "execute_3op fc port ADDC3 a b dst = ADDC3_execute port a b dst"
| "execute_3op fc port ADDF3 a b dst = ADDF3_execute fc port a b dst"
| "execute_3op fc port ADDI3 a b dst = ADDI3_execute port a b dst"
| "execute_3op fc port AND3 a b dst = AND3_execute port a b dst"
| "execute_3op fc port ANDN3 a b dst = ANDN3_execute port a b dst"
| "execute_3op fc port ASH3 a b dst = ASH3_execute port a b dst"
| "execute_3op fc port CMPF3 a b dst = CMPF3_execute fc port a b"
| "execute_3op fc port CMPI3 a b dst = CMPI3_execute port a b"
| "execute_3op fc port LSH3 a b dst = LSH3_execute port a b dst"
| "execute_3op fc port MPYF3 a b dst = MPYF3_execute fc port a b dst"
| "execute_3op fc port MPYI3 a b dst = MPYI3_execute port a b dst"
| "execute_3op fc port OR3 a b dst = OR3_execute port a b dst"
| "execute_3op fc port SUBB3 a b dst = SUBB3_execute port a b dst"
| "execute_3op fc port SUBF3 a b dst = SUBF3_execute fc port a b dst"
| "execute_3op fc port SUBI3 a b dst = SUBI3_execute port a b dst"
| "execute_3op fc port TSTB3 a b dst = TSTB3_execute port a b"
| "execute_3op fc port XOR3 a b dst = XOR3_execute port a b dst"

end
