(* ===== verification/C3X_Parallel.thy ===== *)
theory C3X_Parallel
  imports C3X_ThreeOp
begin

text \<open>
  The parallel instructions of the TMS320C3X (\<open>isa/parallel.isa\<close>): an operation next to a store, two stores, two
  loads, a product next to a sum or a difference. The fields of three bits name the registers R0 to R7, which all
  have flags and an exponent and which no address computation changes.
\<close>

section \<open>An operation and a store\<close>

record par_fields =
  f_dst1 :: nat
  f_src1 :: nat
  f_src3 :: nat
  f_d2_mod :: nat
  f_d2_ar :: nat

text \<open>
  Both addresses are computed from the same registers; the update for the store counts if both update one
  auxiliary register. The word of the second source is loaded before the store.
\<close>

definition load_and_address :: "'m mem_port \<Rightarrow> nat \<Rightarrow> nat \<Rightarrow> par_fields \<Rightarrow> (u32 \<times> u32, 'm) action" where
  "load_and_address port s2_mod s2_ar p s =
     (case (ComputeIndirEA s2_mod s2_ar 1 s, ComputeIndirEA (f_d2_mod p) (f_d2_ar p) 1 s) of
        (Some (s2_ea, s2_output), Some (d2_ea, d2_output)) \<Rightarrow>
          act_bind (IntLoad port s2_ea (update_ars (f_d2_ar p) d2_output s2_ar s2_output s)) (\<lambda>v s. (Inr (v, d2_ea), s))
      | _ \<Rightarrow> (Inl BogusOpcode, s))"

text \<open>The source read and the operation done, the store of the third source, the result written.\<close>

definition with_store ::
  "'m mem_port \<Rightarrow> (nat \<Rightarrow> bool) \<Rightarrow> (nat \<Rightarrow> 'm c3x_cpu \<Rightarrow> 'r \<times> 'm c3x_cpu) \<Rightarrow> (u32 \<Rightarrow> 'm c3x_cpu \<Rightarrow> 'r) \<Rightarrow> (nat \<Rightarrow> 'm c3x_cpu \<Rightarrow> u32) \<Rightarrow>
   ('r \<Rightarrow> 'm c3x_cpu \<Rightarrow> 'm c3x_cpu) \<Rightarrow> c3x_source \<Rightarrow> par_fields \<Rightarrow> (unit, 'm) action" where
  "with_store port src_ok on_reg on_word stored finish a p s =
     (let store = (\<lambda>r ea s. act_bind (IntStore port ea (stored (f_src3 p) s) s) (\<lambda>_ s. (Inr (), finish r s)))
      in case a of
           Src_reg src2 \<Rightarrow>
             if \<not> src_ok src2 then (Inl BogusOpcode, s)
             else act_bind (indirect_address (f_d2_mod p) (f_d2_ar p) 1 s) (\<lambda>ea s. let (r, s) = on_reg src2 s in store r ea s)
         | Src_indir s2_mod s2_ar \<Rightarrow>
             act_bind (load_and_address port s2_mod s2_ar p s) (\<lambda>(v, ea) s. store (on_word v s) ea s))"

section \<open>Integer operations\<close>

definition with_STI :: "'m mem_port \<Rightarrow> (u32 \<Rightarrow> 'm c3x_cpu \<Rightarrow> 'm c3x_cpu) \<Rightarrow> c3x_source \<Rightarrow> par_fields \<Rightarrow> (unit, 'm) action" where
  "with_STI port = with_store port HasReg (\<lambda>n s. (GetReg n s, s)) (\<lambda>v s. v) GetReg"

definition ADDI3_STI_execute :: "'m mem_port \<Rightarrow> c3x_source \<Rightarrow> par_fields \<Rightarrow> (unit, 'm) action" where
  "ADDI3_STI_execute port a p = with_STI port (\<lambda>v s.
     write_sum (f_dst1 p) (add_ovm (GetST_OVM s) (GetReg (f_src1 p) s) v 0) s) a p"

definition SUBI3_STI_execute :: "'m mem_port \<Rightarrow> c3x_source \<Rightarrow> par_fields \<Rightarrow> (unit, 'm) action" where
  "SUBI3_STI_execute port a p = with_STI port (\<lambda>v s.
     write_sum (f_dst1 p) (sub_ovm (GetST_OVM s) v (GetReg (f_src1 p) s) 0) s) a p"

definition NEGI_STI_execute :: "'m mem_port \<Rightarrow> c3x_source \<Rightarrow> par_fields \<Rightarrow> (unit, 'm) action" where
  "NEGI_STI_execute port a p = with_STI port (\<lambda>v s. write_sum (f_dst1 p) (sub_ovm (GetST_OVM s) 0 v 0) s) a p"

text \<open>The overflow is handed on in the place of the carry.\<close>

definition ABSI_STI_execute :: "'m mem_port \<Rightarrow> c3x_source \<Rightarrow> par_fields \<Rightarrow> (unit, 'm) action" where
  "ABSI_STI_execute port a p = with_STI port (\<lambda>v s.
     let (r, ov) = (if v = 0x80000000 then (if GetST_OVM s then 0x7fffffff else 0x80000000, 1)
                    else (if 0 \<le> sint v then v else - v, 0))
     in write_result (f_dst1 p) r RESET_UFNZV (M_ST_Z OR M_ST_V) 0 ov 0 s) a p"

definition product24 :: "bool \<Rightarrow> u32 \<Rightarrow> u32 \<Rightarrow> u32 \<times> bool \<times> bool" where
  "product24 ovm a b =
     (let r64 = SignExtend64 (ucast (a AND 0xffffff)) 24 * SignExtend64 (ucast (b AND 0xffffff)) 24;
          lo32 = ucast r64 :: u32; hi32 = ucast (signed_drop_bit 32 r64) :: u32;
          ov = (signed_drop_bit 31 lo32 \<noteq> hi32)
      in (if ovm \<and> ov then (if sint r64 < 0 then 0x80000000 else 0x7fffffff) else lo32, ov, sint r64 < 0))"

definition MPYI3_STI_execute :: "'m mem_port \<Rightarrow> c3x_source \<Rightarrow> par_fields \<Rightarrow> (unit, 'm) action" where
  "MPYI3_STI_execute port a p = with_STI port (\<lambda>v s.
     let (r, ov, neg) = product24 (GetST_OVM s) (GetReg (f_src1 p) s) v
     in write_result (f_dst1 p) r RESET_UFNZV GEN_LVNZV (of_bool neg) 0 (of_bool ov) s) a p"

definition AND3_STI_execute :: "'m mem_port \<Rightarrow> c3x_source \<Rightarrow> par_fields \<Rightarrow> (unit, 'm) action" where
  "AND3_STI_execute port a p = with_STI port (\<lambda>v s. write_logic (f_dst1 p) (GetReg (f_src1 p) s AND v) s) a p"

definition OR3_STI_execute :: "'m mem_port \<Rightarrow> c3x_source \<Rightarrow> par_fields \<Rightarrow> (unit, 'm) action" where
  "OR3_STI_execute port a p = with_STI port (\<lambda>v s. write_logic (f_dst1 p) (GetReg (f_src1 p) s OR v) s) a p"

definition XOR3_STI_execute :: "'m mem_port \<Rightarrow> c3x_source \<Rightarrow> par_fields \<Rightarrow> (unit, 'm) action" where
  "XOR3_STI_execute port a p = with_STI port (\<lambda>v s. write_logic (f_dst1 p) (GetReg (f_src1 p) s XOR v) s) a p"

definition NOT_STI_execute :: "'m mem_port \<Rightarrow> c3x_source \<Rightarrow> par_fields \<Rightarrow> (unit, 'm) action" where
  "NOT_STI_execute port a p = with_STI port (\<lambda>v. write_logic (f_dst1 p) (NOT v)) a p"

definition LDI_STI_execute :: "'m mem_port \<Rightarrow> c3x_source \<Rightarrow> par_fields \<Rightarrow> (unit, 'm) action" where
  "LDI_STI_execute port a p = with_STI port (SetReg (f_dst1 p)) a p"

text \<open>The count is in the register of the first source.\<close>

definition ASH3_STI_execute :: "'m mem_port \<Rightarrow> c3x_source \<Rightarrow> par_fields \<Rightarrow> (unit, 'm) action" where
  "ASH3_STI_execute port a p = with_STI port (\<lambda>v s.
     let (r, cy, ov) = ash_result v (shift_count (GetReg (f_src1 p) s))
     in write_result (f_dst1 p) r RESET_UFNZVC GEN_LVNZVC (is_neg32 r) (ucast cy) (of_bool ov) s) a p"

definition LSH3_STI_execute :: "'m mem_port \<Rightarrow> c3x_source \<Rightarrow> par_fields \<Rightarrow> (unit, 'm) action" where
  "LSH3_STI_execute port a p = with_STI port (\<lambda>v s.
     let (r, cy) = lsh_result v (shift_count (GetReg (f_src1 p) s))
     in write_result (f_dst1 p) r RESET_UFNZVC GEN_NZC (is_neg32 r) (ucast cy) 0 s) a p"

section \<open>Floating-point operations\<close>

text \<open>A copy of a register, with an exponent if the register has none.\<close>

definition exponent_copy :: "nat \<Rightarrow> 'm c3x_cpu \<Rightarrow> c3x_register" where
  "exponent_copy n s = (if \<not> IsExtReg n then SetHiWriteMask 0 0x09 (GetExtReg n s) else GetExtReg n s)"

definition single_word :: "nat \<Rightarrow> 'm c3x_cpu \<Rightarrow> u32" where
  "single_word n s = GetSinglePrecisionFPFormat (GetExtReg n s)"

text \<open>The result is computed in a register of its own and assigned after the store.\<close>

definition write_parallel :: "u32 \<Rightarrow> nat \<Rightarrow> c3x_result \<Rightarrow> 'm c3x_cpu \<Rightarrow> 'm c3x_cpu" where
  "write_parallel or_mask dst res s =
     (case res of (r, ov, un, neg) \<Rightarrow>
        GenFlags_float r RESET_UFNZV or_mask ov un neg (SetExtReg dst (assign_Register r (GetExtReg dst s)) s))"

text \<open>A second source without exponent keeps the one it is given.\<close>

definition with_STF ::
  "c3x_params \<Rightarrow> 'm mem_port \<Rightarrow> (c3x_register \<Rightarrow> 'm c3x_cpu \<Rightarrow> 'r) \<Rightarrow> (u32 \<Rightarrow> 'm c3x_cpu \<Rightarrow> 'r) \<Rightarrow>
   ('r \<Rightarrow> 'm c3x_cpu \<Rightarrow> 'm c3x_cpu) \<Rightarrow> c3x_source \<Rightarrow> par_fields \<Rightarrow> (unit, 'm) action" where
  "with_STF fc port on_reg on_word = with_store port (float_reg fc)
     (\<lambda>n s. let s = give_exponent n 0x09 s in (on_reg (GetExtReg n s) s, s)) on_word single_word"

definition ABSF_STF_execute :: "c3x_params \<Rightarrow> 'm mem_port \<Rightarrow> c3x_source \<Rightarrow> par_fields \<Rightarrow> (unit, 'm) action" where
  "ABSF_STF_execute fc port a p = with_STF fc port (\<lambda>q s. Absf_reg q init_Register) (\<lambda>v s. Absf32 v init_Register)
     (\<lambda>(r, ov). write_parallel (M_ST_LV OR M_ST_Z OR M_ST_V) (f_dst1 p) (r, ov, 0, 0)) a p"

definition NEGF_STF_execute :: "c3x_params \<Rightarrow> 'm mem_port \<Rightarrow> c3x_source \<Rightarrow> par_fields \<Rightarrow> (unit, 'm) action" where
  "NEGF_STF_execute fc port a p = with_STF fc port (\<lambda>q s. Negf q init_Register) (\<lambda>v s. Negf32 v init_Register)
     (write_parallel GEN_FLOAT (f_dst1 p)) a p"

definition ADDF3_STF_execute :: "c3x_params \<Rightarrow> 'm mem_port \<Rightarrow> c3x_source \<Rightarrow> par_fields \<Rightarrow> (unit, 'm) action" where
  "ADDF3_STF_execute fc port a p = with_STF fc port
     (\<lambda>q s. Addf_regs (GetExtReg (f_src1 p) s) q init_Register) (\<lambda>v s. Addf_reg_imm (GetExtReg (f_src1 p) s) v init_Register)
     (write_parallel GEN_FLOAT (f_dst1 p)) a p"

definition SUBF3_STF_execute :: "c3x_params \<Rightarrow> 'm mem_port \<Rightarrow> c3x_source \<Rightarrow> par_fields \<Rightarrow> (unit, 'm) action" where
  "SUBF3_STF_execute fc port a p = with_STF fc port
     (\<lambda>q s. Subf_regs q (GetExtReg (f_src1 p) s) init_Register) (\<lambda>v s. Subf32_imm_reg v (GetExtReg (f_src1 p) s) init_Register)
     (write_parallel GEN_FLOAT (f_dst1 p)) a p"

text \<open>The product and the conversions leave a second source without exponent as it is.\<close>

definition MPYF3_STF_execute :: "c3x_params \<Rightarrow> 'm mem_port \<Rightarrow> c3x_source \<Rightarrow> par_fields \<Rightarrow> (unit, 'm) action" where
  "MPYF3_STF_execute fc port a p = with_store port (float_reg fc)
     (\<lambda>n s. (Mpyf_regs (GetExtReg (f_src1 p) s) (exponent_copy n s) init_Register, s))
     (\<lambda>v s. Mpyf_reg_imm (GetExtReg (f_src1 p) s) v init_Register) single_word (write_parallel GEN_FLOAT (f_dst1 p)) a p"

definition FLOAT_STF_execute :: "'m mem_port \<Rightarrow> c3x_source \<Rightarrow> par_fields \<Rightarrow> (unit, 'm) action" where
  "FLOAT_STF_execute port a p = with_store port HasReg
     (\<lambda>n s. (c3x_Float (GetReg n s) init_Register, s)) (\<lambda>v s. c3x_Float v init_Register) single_word
     (\<lambda>(r, neg). write_parallel GEN_NZ (f_dst1 p) (r, 0, 0, neg)) a p"

definition FIX_STI_execute :: "c3x_params \<Rightarrow> 'm mem_port \<Rightarrow> c3x_source \<Rightarrow> par_fields \<Rightarrow> (unit, 'm) action" where
  "FIX_STI_execute fc port a p = with_store port (float_reg fc)
     (\<lambda>n s. (c3x_Fix (exponent_copy n s), s)) (\<lambda>v s. c3x_Fix (SetFromSinglePrecisionFPFormat v init_Register)) GetReg
     (\<lambda>(v, ov, neg). write_result (f_dst1 p) v RESET_UFNZV GEN_LVNZV neg 0 ov) a p"

text \<open>A load writes its register before the word stored is; the word has been read from the registers before.\<close>

definition LDF_STF_execute :: "c3x_params \<Rightarrow> 'm mem_port \<Rightarrow> c3x_source \<Rightarrow> par_fields \<Rightarrow> (unit, 'm) action" where
  "LDF_STF_execute fc port a p s =
     (let load = (\<lambda>f ea s. IntStore port ea (single_word (f_src3 p) s) (SetExtReg (f_dst1 p) (f (GetExtReg (f_dst1 p) s)) s))
      in case a of
           Src_reg src2 \<Rightarrow>
             if \<not> float_reg fc src2 then (Inl BogusOpcode, s)
             else act_bind (indirect_address (f_d2_mod p) (f_d2_ar p) 1 s) (\<lambda>ea s. load (assign_Register (exponent_copy src2 s)) ea s)
         | Src_indir s2_mod s2_ar \<Rightarrow>
             act_bind (load_and_address port s2_mod s2_ar p s) (\<lambda>(v, ea). load (SetFromSinglePrecisionFPFormat v) ea))"

section \<open>Two stores and two loads\<close>

text \<open>Two addresses from the same registers, the update for the first one counts.\<close>

definition two_addresses :: "nat \<Rightarrow> nat \<Rightarrow> nat \<Rightarrow> nat \<Rightarrow> (u32 \<times> u32, 'm) action" where
  "two_addresses md1 ar1 md2 ar2 s =
     (case (ComputeIndirEA md1 ar1 1 s, ComputeIndirEA md2 ar2 1 s) of
        (Some (ea1, output1), Some (ea2, output2)) \<Rightarrow> (Inr (ea1, ea2), update_ars ar1 output1 ar2 output2 s)
      | _ \<Rightarrow> (Inl BogusOpcode, s))"

text \<open>
  The second destination is a word of memory or a register; with the bug of the hardware enabled the register is
  not written.
\<close>

definition STF_STF_execute :: "c3x_params \<Rightarrow> 'm mem_port \<Rightarrow> nat \<Rightarrow> nat \<Rightarrow> nat \<Rightarrow> nat \<Rightarrow> c3x_source \<Rightarrow> (unit, 'm) action" where
  "STF_STF_execute fc port src2 src1 d1_mod d1_ar d2 s =
     (case d2 of
        Src_indir d2_mod d2_ar \<Rightarrow> act_bind (two_addresses d1_mod d1_ar d2_mod d2_ar s) (\<lambda>(ea1, ea2) s.
          let v1 = single_word src1 s; v2 = single_word src2 s
          in act_bind (IntStore port ea1 v1 s) (\<lambda>_. IntStore port ea2 v2))
      | Src_reg dst2 \<Rightarrow>
          if \<not> float_reg fc dst2 then (Inl BogusOpcode, s)
          else act_bind (indirect_address d1_mod d1_ar 1 s) (\<lambda>ea s. act_bind (IntStore port ea (single_word src1 s) s) (\<lambda>_ s.
            (Inr (), if EnableParallelStoreBug fc then s else copy_reg src2 dst2 (give_exponent dst2 0 s)))))"

text \<open>Of two stores at one address the second counts, and the first is left out.\<close>

definition STI_STI_execute :: "c3x_params \<Rightarrow> 'm mem_port \<Rightarrow> nat \<Rightarrow> nat \<Rightarrow> nat \<Rightarrow> nat \<Rightarrow> c3x_source \<Rightarrow> (unit, 'm) action" where
  "STI_STI_execute fc port src2 src1 d1_mod d1_ar d2 s =
     (case d2 of
        Src_indir d2_mod d2_ar \<Rightarrow> act_bind (two_addresses d1_mod d1_ar d2_mod d2_ar s) (\<lambda>(ea1, ea2) s.
          let v1 = GetReg src1 s; v2 = GetReg src2 s
          in act_bind (IntStore port ea2 v2 s) (\<lambda>_ s. if ea1 \<noteq> ea2 then IntStore port ea1 v1 s else (Inr (), s)))
      | Src_reg dst2 \<Rightarrow>
          if \<not> HasReg dst2 then (Inl BogusOpcode, s)
          else act_bind (indirect_address d1_mod d1_ar 1 s) (\<lambda>ea s.
            let v2 = GetReg src2 s
            in act_bind (IntStore port ea (GetReg src1 s) s) (\<lambda>_ s.
              (Inr (), if EnableParallelStoreBug fc then s else SetReg dst2 v2 s))))"

text \<open>The bug of the hardware: a zero keeps the mantissa bits it is loaded with.\<close>

definition parallel_load :: "c3x_params \<Rightarrow> u32 \<Rightarrow> c3x_register \<Rightarrow> c3x_register" where
  "parallel_load fc v r =
     (if EnableParallelLoadBug fc \<and> v AND 0xff000000 = 0x80000000 then SetLo (push_bit 8 (v AND 0x00ffffff)) (SetHi 0x80 r)
      else SetFromSinglePrecisionFPFormat v r)"

text \<open>Of two loads into one register the second counts.\<close>

definition LDF_LDF_execute :: "c3x_params \<Rightarrow> 'm mem_port \<Rightarrow> nat \<Rightarrow> nat \<Rightarrow> nat \<Rightarrow> nat \<Rightarrow> c3x_source \<Rightarrow> (unit, 'm) action" where
  "LDF_LDF_execute fc port dst2 dst1 s1_mod s1_ar a s =
     (let first = (\<lambda>v1 s. (Inr (), if dst1 \<noteq> dst2 then SetExtReg dst1 (parallel_load fc v1 (GetExtReg dst1 s)) s else s))
      in case a of
           Src_indir s2_mod s2_ar \<Rightarrow> act_bind (two_addresses s1_mod s1_ar s2_mod s2_ar s) (\<lambda>(ea1, ea2) s.
             act_bind (IntLoad port ea1 s) (\<lambda>v1 s. act_bind (IntLoad port ea2 s) (\<lambda>v2 s.
               first v1 (SetExtReg dst2 (SetFromSinglePrecisionFPFormat v2 (GetExtReg dst2 s)) s))))
         | Src_reg src2 \<Rightarrow>
             if \<not> float_reg fc src2 then (Inl BogusOpcode, s)
             else act_bind (indirect_address s1_mod s1_ar 1 s) (\<lambda>ea s. act_bind (IntLoad port ea s) (\<lambda>v1 s.
               first v1 (copy_reg src2 dst2 (give_exponent src2 0x09 s)))))"

definition LDI_LDI_execute :: "'m mem_port \<Rightarrow> nat \<Rightarrow> nat \<Rightarrow> nat \<Rightarrow> nat \<Rightarrow> c3x_source \<Rightarrow> (unit, 'm) action" where
  "LDI_LDI_execute port dst2 dst1 s1_mod s1_ar a s =
     (let write = (\<lambda>v1 v2 s. (Inr (), let s = SetReg dst2 v2 s in if dst1 \<noteq> dst2 then SetReg dst1 v1 s else s))
      in case a of
           Src_indir s2_mod s2_ar \<Rightarrow> act_bind (two_addresses s1_mod s1_ar s2_mod s2_ar s) (\<lambda>(ea1, ea2) s.
             act_bind (IntLoad port ea1 s) (\<lambda>v1 s. act_bind (IntLoad port ea2 s) (\<lambda>v2. write v1 v2)))
         | Src_reg src2 \<Rightarrow>
             if \<not> HasReg src2 then (Inl BogusOpcode, s)
             else act_bind (indirect_address s1_mod s1_ar 1 s) (\<lambda>ea s. act_bind (IntLoad port ea s) (\<lambda>v1 s.
               write v1 (GetReg src2 s) s)))"

section \<open>A product next to a sum or a difference\<close>

text \<open>
  Which of the four sources are multiplied and which are added, selected by the field \<open>p\<close>. In one selection the
  operands of the sum are exchanged, but for the floating-point sum.
\<close>

definition par_operands :: "bool \<Rightarrow> nat \<Rightarrow> 'a \<Rightarrow> 'a \<Rightarrow> 'a \<Rightarrow> 'a \<Rightarrow> ('a \<times> 'a) \<times> ('a \<times> 'a)" where
  "par_operands exchanged p s1 s2 s3 s4 =
     (if p = 0 then ((s3, s4), (s1, s2))
      else if p = 1 then ((s3, s1), if exchanged then (s4, s2) else (s2, s4))
      else if p = 2 then ((s1, s2), (s3, s4)) else ((s3, s1), (s2, s4)))"

record mpy_fields =
  m_p :: nat
  m_d1 :: nat
  m_d2 :: nat
  m_src1 :: nat
  m_src2 :: nat

definition mpy_dst1 :: "mpy_fields \<Rightarrow> nat" where "mpy_dst1 p = (if m_d1 p = 0 then 0 else 1)"

definition mpy_dst2 :: "mpy_fields \<Rightarrow> nat" where "mpy_dst2 p = (if m_d2 p = 0 then 2 else 3)"

text \<open>A floating-point source is a register or a word; a word comes with the update of its auxiliary register.\<close>

definition float_source4 :: "'m mem_port \<Rightarrow> c3x_source \<Rightarrow> ((c3x_register + u32) \<times> u32 option, 'm) action" where
  "float_source4 port a s =
     (case a of
        Src_reg n \<Rightarrow> (Inr (Inl (assign_Register (GetExtReg n s) init_Register), None), s)
      | Src_indir md ar \<Rightarrow>
          (case ComputeIndirEA md ar 1 s of
             None \<Rightarrow> (Inl BogusOpcode, s)
           | Some (ea, output_ar) \<Rightarrow> act_bind (IntLoad port ea s) (\<lambda>v s. (Inr (Inr v, output_ar), s))))"

definition on_sources :: "float_op3 \<Rightarrow> (c3x_register + u32) \<times> (c3x_register + u32) \<Rightarrow> c3x_register \<Rightarrow> c3x_result" where
  "on_sources f ab =
     (case ab of
        (Inl a, Inl b) \<Rightarrow> on_regs f a b
      | (Inr a, Inl b) \<Rightarrow> on_word_reg f a b
      | (Inl a, Inr b) \<Rightarrow> on_reg_word f a b
      | (Inr a, Inr b) \<Rightarrow> on_words f a b)"

text \<open>
  The update for the fourth source is left out when the third one is a word at an address in the same auxiliary
  register, whether that one updates it or not.
\<close>

definition update_ars_mpyf :: "c3x_source \<Rightarrow> u32 option \<Rightarrow> c3x_source \<Rightarrow> u32 option \<Rightarrow> 'm c3x_cpu \<Rightarrow> 'm c3x_cpu" where
  "update_ars_mpyf a3 output3 a4 output4 s =
     (let s = (case (a3, output3) of (Src_indir _ ar3, Some v) \<Rightarrow> SetAR23_0 ar3 v s | _ \<Rightarrow> s)
      in case (a4, output4) of
           (Src_indir _ ar4, Some v) \<Rightarrow>
             (case a3 of Src_reg _ \<Rightarrow> SetAR23_0 ar4 v s | Src_indir _ ar3 \<Rightarrow> if ar4 \<noteq> ar3 then SetAR23_0 ar4 v s else s)
         | _ \<Rightarrow> s)"

definition mpyf_with :: "float_op3 \<Rightarrow> bool \<Rightarrow> 'm mem_port \<Rightarrow> mpy_fields \<Rightarrow> c3x_source \<Rightarrow> c3x_source \<Rightarrow> (unit, 'm) action" where
  "mpyf_with f exchanged port p a3 a4 s =
     (let r1 = GetExtReg (m_src1 p) s; r2 = GetExtReg (m_src2 p) s; dst1 = mpy_dst1 p; dst2 = mpy_dst2 p
      in act_bind (float_source4 port a3 s) (\<lambda>(v3, output3) s. act_bind (float_source4 port a4 s) (\<lambda>(v4, output4) s.
        let (factors, terms) = par_operands exchanged (m_p p) (Inl r1) (Inl r2) v3 v4;
            (product, ov1, un1, neg1) = on_sources mpyf3 factors (GetExtReg dst1 s);
            (total, ov2, un2, neg2) = on_sources f terms (GetExtReg dst2 s);
            s = update_ars_mpyf a3 output3 a4 output4 (SetExtReg dst2 total (SetExtReg dst1 product s))
        in (Inr (), GenFlags_float (GetExtReg dst1 s) RESET_UFNZV (M_ST_LUF OR M_ST_LV OR M_ST_UF OR M_ST_V)
              (ov1 OR ov2) (un1 OR un2) (neg1 OR neg2) s))))"

definition MPYF3_ADDF3_execute :: "'m mem_port \<Rightarrow> mpy_fields \<Rightarrow> c3x_source \<Rightarrow> c3x_source \<Rightarrow> (unit, 'm) action" where
  "MPYF3_ADDF3_execute = mpyf_with addf3 False"

definition MPYF3_SUBF3_execute :: "'m mem_port \<Rightarrow> mpy_fields \<Rightarrow> c3x_source \<Rightarrow> c3x_source \<Rightarrow> (unit, 'm) action" where
  "MPYF3_SUBF3_execute = mpyf_with subf3 True"

text \<open>Integer sources: the addresses of both are computed before the auxiliary registers are updated and the words loaded.\<close>

fun source_address :: "c3x_source \<Rightarrow> 'm c3x_cpu \<Rightarrow> (u32 \<times> u32 option) option" where
  "source_address (Src_reg n) s = (if HasReg n then Some (0, None) else None)"
| "source_address (Src_indir md ar) s = ComputeIndirEA md ar 1 s"

fun source_value :: "'m mem_port \<Rightarrow> c3x_source \<Rightarrow> u32 \<Rightarrow> (u32, 'm) action" where
  "source_value port (Src_reg n) ea s = (Inr (GetReg n s), s)"
| "source_value port (Src_indir _ _) ea s = IntLoad port ea s"

fun source_ar :: "c3x_source \<Rightarrow> nat" where
  "source_ar (Src_reg n) = n mod 8"
| "source_ar (Src_indir _ ar) = ar"

definition mpyi_with :: "(u32 \<Rightarrow> u32 \<Rightarrow> bool \<Rightarrow> u32 adder_out) \<Rightarrow> 'm mem_port \<Rightarrow> mpy_fields \<Rightarrow> c3x_source \<Rightarrow> c3x_source \<Rightarrow> (unit, 'm) action" where
  "mpyi_with f port p a3 a4 s =
     (case (source_address a3 s, source_address a4 s) of
        (Some (ea3, output3), Some (ea4, output4)) \<Rightarrow>
          (let s = update_ars (source_ar a3) output3 (source_ar a4) output4 s
           in act_bind (source_value port a3 ea3 s) (\<lambda>v3 s. act_bind (source_value port a4 ea4 s) (\<lambda>v4 s.
                let ((a, b), (d, c)) = par_operands True (m_p p) (GetReg (m_src1 p) s) (GetReg (m_src2 p) s) v3 v4;
                    (product, ov, _) = product24 (GetST_OVM s) a b; r = f d c (GetST_OVM s);
                    s = SetReg (mpy_dst2 p) (result r) (SetReg (mpy_dst1 p) product s)
                in (Inr (), GenFlags 0 RESET_UFNZV (M_ST_LV OR M_ST_V) 0 0 (of_bool ov OR ucast (overflow r)) s))))
      | _ \<Rightarrow> (Inl BogusOpcode, s))"

definition MPYI3_ADDI3_execute :: "'m mem_port \<Rightarrow> mpy_fields \<Rightarrow> c3x_source \<Rightarrow> c3x_source \<Rightarrow> (unit, 'm) action" where
  "MPYI3_ADDI3_execute = mpyi_with (\<lambda>d c ovm. if ovm then SignedSatAdd32 d c 0 else SignedAdd32 d c 0)"

definition MPYI3_SUBI3_execute :: "'m mem_port \<Rightarrow> mpy_fields \<Rightarrow> c3x_source \<Rightarrow> c3x_source \<Rightarrow> (unit, 'm) action" where
  "MPYI3_SUBI3_execute = mpyi_with (\<lambda>d c ovm. if ovm then SignedSatSub32 d c 0 else SignedSub32 d c 0)"

section \<open>Decoding\<close>

datatype c3x_par_op =
    ABSF_STF | ABSI_STI | ADDF3_STF | ADDI3_STI | AND3_STI | ASH3_STI | FIX_STI | FLOAT_STF | LDF_STF | LDI_STI
  | LSH3_STI | MPYF3_STF | MPYI3_STI | NEGF_STF | NEGI_STI | NOT_STI | OR3_STI | SUBF3_STF | SUBI3_STI | XOR3_STI

datatype c3x_mpy_op = MPYF3_ADDF3 | MPYF3_SUBF3 | MPYI3_ADDI3 | MPYI3_SUBI3

datatype c3x_parallel =
    Op_store c3x_par_op par_fields c3x_source
  | STF_STF nat nat nat nat c3x_source
  | STI_STI nat nat nat nat c3x_source
  | LDF_LDF nat nat nat nat c3x_source
  | LDI_LDI nat nat nat nat c3x_source
  | Mpy c3x_mpy_op mpy_fields c3x_source c3x_source

text \<open>The last operand of the operations with a store and of two loads or stores: the mode above 27 is a register.\<close>

definition decode_last :: "u32 \<Rightarrow> c3x_source" where
  "decode_last w = (if wfield 5 3 w = 0b111 then Src_reg (field 0 5 w) else Src_indir (field 3 5 w) (field 0 3 w))"

text \<open>A source of the products: two more bits of the mode, or of the number of the register.\<close>

definition decode_factor :: "bool \<Rightarrow> nat \<Rightarrow> u32 \<Rightarrow> c3x_source" where
  "decode_factor ext lo w =
     (let md1 = field (lo + 5) 3 w; md2 = field (lo + 3) 2 w; ar = field lo 3 w
      in if md1 = 7 then Src_reg (if ext then ar else 8 * md2 + ar) else Src_indir (4 * md1 + md2) ar)"

definition decode_op_store :: "nat \<Rightarrow> (c3x_par_op \<times> bool) option" where
  "decode_op_store opc =
     (if 4 \<le> opc \<and> opc < 24
      then Some ([(ABSF_STF, False), (ABSI_STI, False), (ADDF3_STF, True), (ADDI3_STI, True), (AND3_STI, True), (ASH3_STI, True),
        (FIX_STI, False), (FLOAT_STF, False), (LDF_STF, False), (LDI_STI, False), (LSH3_STI, True), (MPYF3_STF, True),
        (MPYI3_STI, True), (NEGF_STF, False), (NEGI_STI, False), (NOT_STI, False), (OR3_STI, True), (SUBF3_STF, True),
        (SUBI3_STI, True), (XOR3_STI, True)] ! (opc - 4))
      else None)"

definition decode_parallel :: "u32 \<Rightarrow> c3x_parallel option" where
  "decode_parallel w =
     (if wfield 30 2 w = 0b11 then
        (let opc = field 25 5 w; hi = field 22 3 w; mid = field 19 3 w; lo = field 16 3 w; md = field 11 5 w; ar = field 8 3 w;
             b = decode_last w
         in if opc = 0 then (if mid = 0 then Some (STF_STF hi lo md ar b) else None)
            else if opc = 1 then (if mid = 0 then Some (STI_STI hi lo md ar b) else None)
            else if opc = 2 then (if lo = 0 then Some (LDF_LDF hi mid md ar b) else None)
            else if opc = 3 then (if lo = 0 then Some (LDI_LDI hi mid md ar b) else None)
            else (case decode_op_store opc of
                    None \<Rightarrow> None
                  | Some (i, three) \<Rightarrow>
                      if three \<or> mid = 0
                      then Some (Op_store i \<lparr>f_dst1 = hi, f_src1 = mid, f_src3 = lo, f_d2_mod = md, f_d2_ar = ar\<rparr> b)
                      else None))
      else if wfield 30 2 w = 0b10 \<and> field 26 4 w < 4 then
        (let i = [MPYF3_ADDF3, MPYF3_SUBF3, MPYI3_ADDI3, MPYI3_SUBI3] ! field 26 4 w; ext = (i \<in> {MPYF3_ADDF3, MPYF3_SUBF3})
         in Some (Mpy i \<lparr>m_p = field 24 2 w, m_d1 = field 23 1 w, m_d2 = field 22 1 w, m_src1 = field 19 3 w, m_src2 = field 16 3 w\<rparr>
              (decode_factor ext 8 w) (decode_factor ext 0 w)))
      else None)"

fun execute_op_store :: "c3x_params \<Rightarrow> 'm mem_port \<Rightarrow> c3x_par_op \<Rightarrow> c3x_source \<Rightarrow> par_fields \<Rightarrow> (unit, 'm) action" where
  "execute_op_store fc port ABSF_STF a p = ABSF_STF_execute fc port a p"
| "execute_op_store fc port ABSI_STI a p = ABSI_STI_execute port a p"
| "execute_op_store fc port ADDF3_STF a p = ADDF3_STF_execute fc port a p"
| "execute_op_store fc port ADDI3_STI a p = ADDI3_STI_execute port a p"
| "execute_op_store fc port AND3_STI a p = AND3_STI_execute port a p"
| "execute_op_store fc port ASH3_STI a p = ASH3_STI_execute port a p"
| "execute_op_store fc port FIX_STI a p = FIX_STI_execute fc port a p"
| "execute_op_store fc port FLOAT_STF a p = FLOAT_STF_execute port a p"
| "execute_op_store fc port LDF_STF a p = LDF_STF_execute fc port a p"
| "execute_op_store fc port LDI_STI a p = LDI_STI_execute port a p"
| "execute_op_store fc port LSH3_STI a p = LSH3_STI_execute port a p"
| "execute_op_store fc port MPYF3_STF a p = MPYF3_STF_execute fc port a p"
| "execute_op_store fc port MPYI3_STI a p = MPYI3_STI_execute port a p"
| "execute_op_store fc port NEGF_STF a p = NEGF_STF_execute fc port a p"
| "execute_op_store fc port NEGI_STI a p = NEGI_STI_execute port a p"
| "execute_op_store fc port NOT_STI a p = NOT_STI_execute port a p"
| "execute_op_store fc port OR3_STI a p = OR3_STI_execute port a p"
| "execute_op_store fc port SUBF3_STF a p = SUBF3_STF_execute fc port a p"
| "execute_op_store fc port SUBI3_STI a p = SUBI3_STI_execute port a p"
| "execute_op_store fc port XOR3_STI a p = XOR3_STI_execute port a p"

fun execute_parallel :: "c3x_params \<Rightarrow> 'm mem_port \<Rightarrow> c3x_parallel \<Rightarrow> (unit, 'm) action" where
  "execute_parallel fc port (Op_store i p a) = execute_op_store fc port i a p"
| "execute_parallel fc port (STF_STF src2 src1 md ar d2) = STF_STF_execute fc port src2 src1 md ar d2"
| "execute_parallel fc port (STI_STI src2 src1 md ar d2) = STI_STI_execute fc port src2 src1 md ar d2"
| "execute_parallel fc port (LDF_LDF dst2 dst1 md ar a) = LDF_LDF_execute fc port dst2 dst1 md ar a"
| "execute_parallel fc port (LDI_LDI dst2 dst1 md ar a) = LDI_LDI_execute port dst2 dst1 md ar a"
| "execute_parallel fc port (Mpy MPYF3_ADDF3 p a3 a4) = MPYF3_ADDF3_execute port p a3 a4"
| "execute_parallel fc port (Mpy MPYF3_SUBF3 p a3 a4) = MPYF3_SUBF3_execute port p a3 a4"
| "execute_parallel fc port (Mpy MPYI3_ADDI3 p a3 a4) = MPYI3_ADDI3_execute port p a3 a4"
| "execute_parallel fc port (Mpy MPYI3_SUBI3 p a3 a4) = MPYI3_SUBI3_execute port p a3 a4"

end
