(* ===== verification/C3X_Compare.thy ===== *)
theory C3X_Compare
  imports C3X_FloatOps C3X_Compute C3X_Sum
begin

text \<open>
  Floating-point comparisons of the TMS320C3X. A comparison is a subtraction that rounds; the order of the
  operands is exact all the same.
\<close>

section \<open>The sign of a difference\<close>

lemma difference_swapped: "sum_mantissa False hb lb ha la = - sum_mantissa False ha la hb lb"
  "exact_sum False hb lb ha la = - exact_sum False ha la hb lb"
proof -
  have "sum_exponent hb ha = sum_exponent ha hb"
    by (auto simp: sum_exponent_def) (metis signed_word_eqI)
  then show "sum_mantissa False hb lb ha la = - sum_mantissa False ha la hb lb" by (simp add: sum_mantissa_def Let_def)
  show "exact_sum False hb lb ha la = - exact_sum False ha la hb lb" by (simp add: exact_sum_def)
qed

lemma difference_sign:
  "exact_sum False ha la hb lb < 0 \<longleftrightarrow> sum_mantissa False ha la hb lb < 0"
  "exact_sum False ha la hb lb = 0 \<longleftrightarrow> sum_mantissa False ha la hb lb = 0"
proof -
  have neg: "exact_sum False ha la hb lb < 0 \<longleftrightarrow> sum_mantissa False ha la hb lb < 0" for ha la hb lb
    by (rule exact_sum_scaled [of False ha la hb lb]) (simp add: mult_less_0_iff)
  show "exact_sum False ha la hb lb < 0 \<longleftrightarrow> sum_mantissa False ha la hb lb < 0" by (rule neg)
  show "exact_sum False ha la hb lb = 0 \<longleftrightarrow> sum_mantissa False ha la hb lb = 0"
    using neg [of ha la hb lb] neg [of hb lb ha la] unfolding difference_swapped [of hb lb ha la] by linarith
qed

text \<open>What the flags are generated from.\<close>

lemma Subf_order:
  assumes "Subf ha la hb lb init_Register = (r, ov, un, neg)"
  shows "neg = of_bool (c3x_value ha la < c3x_value hb lb)"
    and "un = 0 \<and> GetLo r = 0 \<and> GetHi r = 0x80 \<longleftrightarrow> c3x_value ha la = c3x_value hb lb"
    and "(ov = 0 \<or> ov = 1) \<and> (un = 0 \<or> un = 1)"
proof -
  let ?s = "sum_mantissa False ha la hb lb"
  have x: "c3x_value ha la < c3x_value hb lb \<longleftrightarrow> ?s < 0" "c3x_value ha la = c3x_value hb lb \<longleftrightarrow> ?s = 0"
    using difference_sign [of ha la hb lb] by (simp_all add: exact_sum_def)
  show "neg = of_bool (c3x_value ha la < c3x_value hb lb)"
    unfolding x using assms by (auto simp: Subf_def AddfSubf_eq Let_def split: prod.splits)
  have e: "extended init_Register" by (simp add: init_Register_def extended_def)
  note cases = AddfSubf_cases [OF e assms [unfolded Subf_def]]
  show "un = 0 \<and> GetLo r = 0 \<and> GetHi r = 0x80 \<longleftrightarrow> c3x_value ha la = c3x_value hb lb"
    unfolding x by (rule cases) (auto simp: normal_def)
  show "(ov = 0 \<or> ov = 1) \<and> (un = 0 \<or> un = 1)"
    by (rule cases) auto
qed

section \<open>Flags of a floating-point result\<close>

lemma GenFlags_float_bit:
  assumes "regs_ok (regs s)" and "bit ST_WRITE_MASK i"
  shows "bit (GetST (GenFlags_float r rm om (of_bool ov) (of_bool un) (of_bool n) s)) i \<longleftrightarrow>
    bit (GetST s) i \<and> \<not> bit rm i \<or>
    bit om i \<and> (i = ST_LUF \<and> un \<or> i = ST_LV \<and> ov \<or> i = ST_UF \<and> un \<or> i = ST_N \<and> n \<or>
      i = ST_Z \<and> \<not> un \<and> GetLo r = 0 \<and> GetHi r = 0x80 \<or> i = ST_V \<and> ov)"
proof -
  have z: "(if P then 1 else 0) = (of_bool P :: u32)" "of_bool P = (0 :: u32) \<longleftrightarrow> \<not> P" for P by simp_all
  show ?thesis
    using bit_imp_le_length [OF assms(2)]
    unfolding GenFlags_float_def Let_def SetST_bit [OF assms] flag_tests z bit_or_flag bit_and_iff bit_not_iff
    by (auto simp: st_bits)
qed

lemma float_flags:
  assumes "regs_ok (regs s)"
  shows "GetST_N (GenFlags_float r RESET_UFNZV GEN_FLOAT (of_bool ov) (of_bool un) (of_bool n) s) \<longleftrightarrow> n"
    and "bit (GetST (GenFlags_float r RESET_UFNZV GEN_FLOAT (of_bool ov) (of_bool un) (of_bool n) s)) ST_Z \<longleftrightarrow>
      \<not> un \<and> GetLo r = 0 \<and> GetHi r = 0x80"
proof -
  have m: "bit GEN_FLOAT ST_N" "bit GEN_FLOAT ST_Z" "bit RESET_UFNZV ST_N" "bit RESET_UFNZV ST_Z"
    "bit ST_WRITE_MASK ST_N" "bit ST_WRITE_MASK ST_Z" by code_simp+
  show "GetST_N (GenFlags_float r RESET_UFNZV GEN_FLOAT (of_bool ov) (of_bool un) (of_bool n) s) \<longleftrightarrow> n"
    "bit (GetST (GenFlags_float r RESET_UFNZV GEN_FLOAT (of_bool ov) (of_bool un) (of_bool n) s)) ST_Z \<longleftrightarrow>
      \<not> un \<and> GetLo r = 0 \<and> GetHi r = 0x80"
    unfolding GetST_N_def using m by (simp_all add: GenFlags_float_bit [OF assms]) (simp_all add: st_bits)
qed

section \<open>Comparisons\<close>

text \<open>The exponent and the mantissa of an operand. Its registers are extended precision ones.\<close>

definition ext_operand :: "c3x_operand \<Rightarrow> bool" where
  "ext_operand opnd \<longleftrightarrow> (\<forall>src. opnd = Op_reg src \<longrightarrow> IsExtReg src)"

definition float_source :: "'m mem_port \<Rightarrow> c3x_operand \<Rightarrow> (u8 \<times> u32, 'm) action" where
  "float_source port opnd s =
     (case opnd of
        Op_reg src \<Rightarrow> (Inr (GetHi (GetExtReg src s), GetLo (GetExtReg src s)), s)
      | Op_imm imm \<Rightarrow> (Inr (GetHi16 (ucast imm), GetLo16 (ucast imm)), s)
      | _ \<Rightarrow> act_bind (load_operand port opnd s) (\<lambda>v s. (Inr (GetHi32 v, GetLo32 v), s)))"

lemma ext_gives_nothing [simp]:
  "IsExtReg dst \<Longrightarrow> give_exponent dst h s = s" "IsExtReg dst \<Longrightarrow> give_before dst g s = s"
  "IsExtReg dst \<Longrightarrow> give_after dst g v s = s" "IsExtReg dst \<Longrightarrow> IsExtReg src \<Longrightarrow> give_exponents src dst h s = s"
  by (simp_all add: give_exponent_def give_before_def give_after_def give_exponents_def split: given.split)

lemma ext_allowed: "IsExtReg dst \<Longrightarrow> float_reg fc dst" "ext_operand opnd \<Longrightarrow> float_operand fc opnd"
  by (cases opnd; simp add: float_reg_def IsExtReg_def HasReg_def ext_operand_def)+

text \<open>An instruction of which every copy applies the same operation to the exponents and mantissas.\<close>

lemma with_float_run:
  assumes "float_source port opnd s = (Inr (h, l), t)" and "ext_operand opnd" and "IsExtReg dst"
    and "\<And>q r. on_reg q r = op (GetHi q) (GetLo q) r" and "\<And>v r. on_word v r = op (GetHi32 v) (GetLo32 v) r"
    and "\<And>v r. on_imm v r = op (GetHi16 v) (GetLo16 v) r"
  shows "with_float fc port fe on_reg on_word on_imm finish opnd dst s = (Inr (), finish dst (op h l (GetExtReg dst t)) t)"
proof (cases opnd)
  case (Op_reg src)
  then show ?thesis using assms by (auto simp: with_float_def float_source_def ext_operand_def ext_allowed)
next
  case (Op_dir direct)
  then show ?thesis using assms
    by (auto simp: with_float_def float_source_def ext_allowed act_bind_def split: prod.splits sum.splits)
next
  case (Op_indir md ar disp)
  then show ?thesis using assms
    by (auto simp: with_float_def float_source_def ext_allowed act_bind_def split: prod.splits sum.splits)
next
  case (Op_imm imm)
  then show ?thesis using assms by (auto simp: with_float_def float_source_def ext_allowed)
qed

definition float_relation :: "nat \<Rightarrow> real \<Rightarrow> real \<Rightarrow> bool" where
  "float_relation cond x y =
     (if cond = 5 then x = y else if cond = 6 then x \<noteq> y else if cond = 7 then x < y else if cond = 8 then x \<le> y
      else if cond = 9 then y < x else y \<le> x)"

text \<open>
  C8: after a floating-point comparison the conditions from 5 to 10 are the relations of the exact values they
  are named for, although the difference is rounded, saturates and underflows; no register but the status
  register changes.
\<close>

theorem float_compare_conditions:
  assumes "float_source port opnd s = (Inr (h, l), t)" and "ext_operand opnd" and "IsExtReg dst" and "regs_ok (regs t)"
  shows "\<exists>s'. CMPF_execute fc port opnd dst s = (Inr (), s') \<and>
    (\<forall>cond \<in> {5..10}. CheckCondition cond s' \<longleftrightarrow>
       float_relation cond (c3x_value (GetHi (GetExtReg dst t)) (GetLo (GetExtReg dst t))) (c3x_value h l)) \<and>
    (\<forall>k < 32. k \<noteq> REG_ST \<longrightarrow> GetReg k s' = GetReg k t \<and> GetHi (regs s' ! k) = GetHi (regs t ! k)) \<and> s' = t\<lparr>regs := regs s'\<rparr>"
proof -
  define d where "d = GetExtReg dst t"
  define x y where "x = c3x_value (GetHi d) (GetLo d)" and "y = c3x_value h l"
  obtain r ov un neg where r: "Subf (GetHi d) (GetLo d) h l init_Register = (r, ov, un, neg)" by (metis prod_cases4)
  note o = Subf_order [OF r, folded x_def y_def]
  have b: "ov = of_bool (ov = 1)" "un = of_bool (un = 1)" using o(3) by auto
  define s' where "s' = GenFlags_float r RESET_UFNZV GEN_FLOAT ov un neg t"
  have run: "CMPF_execute fc port opnd dst s = (Inr (), s')"
    unfolding CMPF_execute_def s'_def
    by (subst with_float_run [OF assms(1-3), where op = "\<lambda>h l r. Subf (GetHi r) (GetLo r) h l init_Register"])
      (simp_all add: Subf_regs_def Subf32_reg_imm_def Subf16_reg_imm_def r flip: d_def)
  have flags: "GetST_N s' \<longleftrightarrow> x < y" "bit (GetST s') ST_Z \<longleftrightarrow> x = y"
    using float_flags [OF assms(4), of r "ov = 1" "un = 1" "x < y"] o(2) o(3) unfolding s'_def o(1) by (auto simp flip: b)
  have "CheckCondition cond s' \<longleftrightarrow> float_relation cond x y" if "cond \<in> {5..10}" for cond
  proof -
    have "cond = 5 \<or> cond = 6 \<or> cond = 7 \<or> cond = 8 \<or> cond = 9 \<or> cond = 10" using that unfolding atLeastAtMost_iff by presburger
    then show ?thesis by (elim disjE) (auto simp: conditions [simplified] float_relation_def flags)
  qed
  moreover have "GetReg k s' = GetReg k t \<and> GetHi (regs s' ! k) = GetHi (regs t ! k)" if "k < 32" "k \<noteq> REG_ST" for k
    using that by (simp add: s'_def GetReg_def GenFlags_float_def Let_def SetST_def SetReg_def)
  moreover have "s' = t\<lparr>regs := regs s'\<rparr>"
    by (simp add: s'_def Let_def GenFlags_float_def SetST_def SetReg_def)
  ultimately show ?thesis using run unfolding x_def y_def d_def by blast
qed

theorem float_compare_conditions_witness:
  "\<exists>s'. CMPF_execute default_params no_port (Op_imm 0x0001) 0 (with_regs [0x00100001]) = (Inr (), s') \<and>
    CheckCondition 9 s' \<and> \<not> CheckCondition 5 s'"
proof -
  define s where "s = with_regs [0x00100001]"
  have src: "float_source no_port (Op_imm 0x0001) s = (Inr (0, 0x00100000), s)"
    by (simp add: float_source_def GetHi16_def GetLo16_def)
  have v: "GetHi (GetExtReg 0 s) = 0" "GetLo (GetExtReg 0 s) = 0x00100001" unfolding s_def by code_simp+
  have m: "ext_mantissa 0 0x00100001 = 0x80100001" "ext_mantissa 0 0x00100000 = 0x80100000" by code_simp+
  have "float_relation 9 (c3x_value 0 0x00100001) (c3x_value 0 0x00100000)" "\<not> float_relation 5 (c3x_value 0 0x00100001) (c3x_value 0 0x00100000)"
    by (simp_all add: float_relation_def c3x_value_def m)
  then show ?thesis
    using float_compare_conditions [OF src, of 0 default_params] with_regs_ok [of "[0x00100001]"] unfolding v s_def [symmetric]
    by (auto simp: ext_operand_def IsExtReg_def)
qed

end
