(* ===== verification/C3X_Three.thy ===== *)
theory C3X_Three
  imports C3X_ThreeOp C3X_Compare C3X_Programs
begin

text \<open>
  The instructions with three operands against those with two, and their indirect operands.
\<close>

section \<open>Three operands of which two agree\<close>

fun two_op :: "c3x_op3 \<Rightarrow> c3x_int_op + c3x_float_op" where
  "two_op ADDC3 = Inl ADDC" | "two_op ADDF3 = Inr ADDF" | "two_op ADDI3 = Inl ADDI" | "two_op AND3 = Inl AND2"
| "two_op ANDN3 = Inl ANDN" | "two_op ASH3 = Inl ASH" | "two_op CMPF3 = Inr CMPF" | "two_op CMPI3 = Inl CMPI"
| "two_op LSH3 = Inl LSH" | "two_op MPYF3 = Inr MPYF" | "two_op MPYI3 = Inl MPYI" | "two_op OR3 = Inl OR2"
| "two_op SUBB3 = Inl SUBB" | "two_op SUBF3 = Inr SUBF" | "two_op SUBI3 = Inl SUBI" | "two_op TSTB3 = Inl TSTB"
| "two_op XOR3 = Inl XOR2"

fun as_operand :: "c3x_source \<Rightarrow> c3x_operand" where
  "as_operand (Src_reg n) = Op_reg n"
| "as_operand (Src_indir md ar) = Op_indir md ar 1"

lemma has_as_operand [simp]: "has_operand (as_operand b) = has_source b"
  by (cases b) simp_all

lemma as_not_imm [simp]: "mpyi_factor (as_operand b) v = SignExtend64 (ucast (v AND 0xffffff)) 24"
  by (cases b) (simp_all add: mpyi_factor_def)

lemma load_sources_reg:
  "load_sources au upd port (Src_reg dst) b s = act_bind (load_operand port (as_operand b) s) (\<lambda>v s. (Inr (GetReg dst s, v), s))"
  by (cases b) (simp_all only: load_sources.simps as_operand.simps load_operand.simps act_bind_simps)

lemma act_bind_assoc: "act_bind (act_bind r f) g = act_bind r (\<lambda>v s. act_bind (f v s) g)"
  by (simp add: act_bind_def split: prod.splits sum.splits)

lemma with_sources_reg:
  assumes "has_dst = HasReg dst \<or> has_dst = True"
  shows "with_sources au port (Src_reg dst) b has_dst f s = with_operand port (as_operand b) dst (\<lambda>v s. f (GetReg dst s) v s) s"
  using assms by (auto simp: with_sources_def with_operand_def load_sources_reg act_bind_assoc)

lemma integer_three_two:
  assumes "two_op i = Inl j"
  shows "execute_3op fc port i (Src_reg dst) b dst s = execute_2op port j (as_operand b) dst s"
proof -
  have ash: "execute_3op fc port ASH3 (Src_reg dst) b dst s = execute_2op port ASH (as_operand b) dst s"
    by (simp add: ASH3_execute_def ASH_execute_def with_operand_def load_sources_reg act_bind_assoc)
  show ?thesis
    using assms ash
    by (cases i; simp add: ADDC3_execute_def ADDC_execute_def ADDI3_execute_def ADDI_execute_def AND3_execute_def AND_execute_def
        ANDN3_execute_def ANDN_execute_def CMPI3_execute_def CMPI_execute_def LSH3_execute_def LSH_execute_def
        MPYI3_execute_def MPYI_execute_def OR3_execute_def OR_execute_def SUBB3_execute_def SUBB_execute_def
        SUBI3_execute_def SUBI_execute_def TSTB3_execute_def TSTB_execute_def XOR3_execute_def XOR_execute_def
        with_sources_reg and.commute or.commute xor.commute mult.commute)
qed

lemma float_three_two:
  assumes "IsExtReg dst" and "ext_operand (as_operand b)" and "two_op i = Inr j"
  shows "execute_3op fc port i (Src_reg dst) b dst s = execute_float fc port (Float_2op j (as_operand b) dst) s"
proof -
  note ok = ext_allowed(1) [OF assms(1)] ext_allowed(2) [OF assms(2)]
  note ops = Addf_regs_def Addf_reg_def Addf32_def Addf_reg_imm_def Mpyf_regs_def Mpyf_reg_def Mpyf32_def Mpyf_reg_imm_def
    Subf_regs_def Subf_reg_def Subf32_def Subf32_reg_imm_def
  have run: "(case p of (r, ov, un, neg) \<Rightarrow> \<lambda>upd s. (x, f r ov un neg upd s)) u t = (x, case p of (r, ov, un, neg) \<Rightarrow> f r ov un neg u t)"
    for p and x :: "c3x_exception + unit" and f :: "c3x_register \<Rightarrow> u32 \<Rightarrow> u32 \<Rightarrow> u32 \<Rightarrow> ('a c3x_cpu \<Rightarrow> 'a c3x_cpu) \<Rightarrow> 'a c3x_cpu \<Rightarrow> 'a c3x_cpu"
      and u and t
    by (simp split: prod.split)
  have arg: "(case p of (r, ov, un, neg) \<Rightarrow> f r ov un neg) t = (case p of (r, ov, un, neg) \<Rightarrow> f r ov un neg t)"
    for p and f :: "c3x_register \<Rightarrow> u32 \<Rightarrow> u32 \<Rightarrow> u32 \<Rightarrow> 'a c3x_cpu \<Rightarrow> 'a c3x_cpu" and t
    by (simp split: prod.split)
  have j: "j \<in> {ADDF, CMPF, MPYF, SUBF}" using assms(3) by (cases i) auto
  show ?thesis
  proof (cases b)
    case (Src_reg src)
    then have "IsExtReg src" using assms(2) by (simp add: ext_operand_def)
    then show ?thesis using assms j ok Src_reg
      by (cases i; simp add: ADDF3_execute_def ADDF_execute_def CMPF3_execute_def CMPF_execute_def MPYF3_execute_def MPYF_execute_def
          SUBF3_execute_def SUBF_execute_def write_float3_def with_float_def float_source_ok_def ext_allowed write_float_def
          addf3_def subf3_def mpyf3_def ops Let_def split: prod.splits)
  next
    case (Src_indir md ar)
    then show ?thesis using assms j ok
      by (cases i; simp add: ADDF3_execute_def ADDF_execute_def CMPF3_execute_def CMPF_execute_def MPYF3_execute_def MPYF_execute_def
          SUBF3_execute_def SUBF_execute_def write_float3_def with_float_def float_source_ok_def ext_allowed write_float_def
          addf3_def subf3_def mpyf3_def ops act_bind_assoc Let_def run arg)
  qed
qed

text \<open>
  C11: an instruction with three operands whose first source is its destination is the instruction with two
  operands of the same name: same result, flags, memory accesses and errors, for every second source. The
  floating-point ones agree on the extended precision registers.
\<close>

theorem three_operands_are_two:
  "case two_op i of
     Inl j \<Rightarrow> execute_3op fc port i (Src_reg dst) b dst s = execute_2op port j (as_operand b) dst s
   | Inr j \<Rightarrow> IsExtReg dst \<and> ext_operand (as_operand b) \<longrightarrow>
       execute_3op fc port i (Src_reg dst) b dst s = execute_float fc port (Float_2op j (as_operand b) dst) s"
  by (cases "two_op i") (simp_all add: integer_three_two float_three_two)

theorem three_operands_are_two_witness:
  "execute_3op default_params no_port SUBF3 (Src_reg 0) (Src_indir 4 1) 0 (with_regs [0x00100001]) =
     execute_float default_params no_port (Float_2op SUBF (Op_indir 4 1 1) 0) (with_regs [0x00100001])"
  using three_operands_are_two [where i = SUBF3 and dst = 0 and b = "Src_indir 4 1" and fc = default_params and port = no_port
      and s = "with_regs [0x00100001]"] by (simp add: IsExtReg_def ext_operand_def)

section \<open>Two indirect operands\<close>

lemma write_result_frame:
  assumes "regs_ok (regs s)" and "dst < 32" and "k < 32" and "k \<noteq> dst" and "k \<noteq> REG_ST"
  shows "GetReg k (write_result dst v rm om neg cy ov s) = GetReg k s"
  using assms by (simp add: write_result_def Let_def GetReg_GenFlags GetReg_SetReg)

lemma pointer_updates:
  assumes "regs_ok (regs s)" and "ar1 < 8" and "ar2 < 8" and "ar1 \<noteq> ar2"
  shows "regs_ok (regs (update_ars ar1 out1 ar2 (Some v) s))" "regs_ok (regs (update_ars_ash ar1 out1 ar2 (Some v) s))"
    "GetAR23_0 ar2 (update_ars ar1 out1 ar2 (Some v) s) = v AND ADDRESS_MASK"
    "GetAR ar2 (update_ars_ash ar1 out1 ar2 (Some v) s) = GetAR ar2 s"
proof -
  have w: "write_mask (8 + ar) = - 1" if "ar < 8" for ar using that by (intro write_mask_plain) auto
  have m: "((x AND NOT m) OR v) AND m = v AND m" for x m :: u32 by (rule bit_word_eqI) (auto simp: bit_simps)
  show "regs_ok (regs (update_ars ar1 out1 ar2 (Some v) s))" "regs_ok (regs (update_ars_ash ar1 out1 ar2 (Some v) s))"
    using assms by (auto simp: update_ars_def update_ars_ash_def SetAR23_0_def Let_def split: option.splits)
  show "GetAR23_0 ar2 (update_ars ar1 out1 ar2 (Some v) s) = v AND ADDRESS_MASK"
    using assms w m by (auto simp: update_ars_def SetAR23_0_def GetAR23_0_def REG_AR0_def GetReg_SetReg Let_def split: option.splits)
  show "GetAR ar2 (update_ars_ash ar1 out1 ar2 (Some v) s) = GetAR ar2 s"
    using assms by (auto simp: update_ars_ash_def SetAR23_0_def GetAR_def REG_AR0_def GetReg_SetReg Let_def split: option.splits)
qed

context word_memory
begin

lemma load_two_words:
  assumes "mem_ok (memory s)" and "ComputeIndirEA md1 ar1 1 s = Some (ea1, out1)" and "ComputeIndirEA md2 ar2 1 s = Some (ea2, out2)"
  shows "\<exists>m. load_sources After_loads upd port (Src_indir md1 ar1) (Src_indir md2 ar2) s =
      (Inr (word_at (memory s) ea1, word_at (memory s) ea2), upd ar1 out1 ar2 out2 (s\<lparr>memory := m\<rparr>)) \<and>
    mem_ok m \<and> word_at m = word_at (memory s)"
proof -
  have a: "unat ea1 < 2 ^ 24" "unat ea2 < 2 ^ 24"
    using indirect_addresses_bound [of md1 ar1 1 s] indirect_addresses_bound [of md2 ar2 1 s] assms(2,3) by simp_all
  obtain m1 where m1: "IntLoad port ea1 s = (Inr (word_at (memory s) ea1), s\<lparr>memory := m1\<rparr>)" "mem_ok m1" "word_at m1 = word_at (memory s)"
    using IntLoad_word [OF assms(1) a(1)] by blast
  obtain m2 where "IntLoad port ea2 (s\<lparr>memory := m1\<rparr>) = (Inr (word_at m1 ea2), s\<lparr>memory := m2\<rparr>)" "mem_ok m2" "word_at m2 = word_at m1"
    using IntLoad_word [of "s\<lparr>memory := m1\<rparr>" ea2] m1(2) a(2) by auto
  then show ?thesis using m1 assms(2,3) by (auto simp: update_when_def)
qed

end

text \<open>
  with two indirect sources whose addressing modes update different auxiliary registers, the shifts
  \<open>LSH3\<close> and \<open>ASH3\<close> differ: the logical shift updates the register of its second source, the arithmetic shift
  leaves it as it is.
\<close>

theorem second_pointer_update:
  assumes "c3x_ram_ok ps (memory s)" and "regs_ok (regs s)" and "ar1 < 8" and "ar2 < 8" and "ar1 \<noteq> ar2" and "IsExtReg dst"
    and "ComputeIndirEA md1 ar1 1 s = Some (ea1, out1)" and "ComputeIndirEA md2 ar2 1 s = Some (ea2, Some v)"
  shows "\<exists>t u. LSH3_execute (ram_port ps) (Src_indir md1 ar1) (Src_indir md2 ar2) dst s = (Inr (), t) \<and> GetAR23_0 ar2 t = v \<and>
    ASH3_execute (ram_port ps) (Src_indir md1 ar1) (Src_indir md2 ar2) dst s = (Inr (), u) \<and> GetAR ar2 u = GetAR ar2 s"
proof -
  have d: "HasReg dst" "dst < 32" "8 + ar2 \<noteq> dst" "8 + ar2 < 32" "8 + ar2 \<noteq> REG_ST"
    using assms(4,6) by (auto simp: IsExtReg_def HasReg_def REG_ST_def)
  have "unat v < 2 ^ 24" using indirect_addresses_bound [of md2 ar2 1 s] assms(8) by simp
  then have v: "v AND ADDRESS_MASK = v"
    by (simp only: ADDRESS_MASK_mask word_unat_eq_iff unat_and_mask mod_less)
  let ?w1 = "ram_word ps (memory s) ea1" and ?w2 = "ram_word ps (memory s) ea2"
  obtain m where m: "load_sources After_loads update_ars (ram_port ps) (Src_indir md1 ar1) (Src_indir md2 ar2) s =
      (Inr (?w1, ?w2), update_ars ar1 out1 ar2 (Some v) (s\<lparr>memory := m\<rparr>))"
    using c3x_ram.load_two_words [OF assms(1,7,8)] by blast
  obtain m' where m': "load_sources After_loads update_ars_ash (ram_port ps) (Src_indir md1 ar1) (Src_indir md2 ar2) s =
      (Inr (?w1, ?w2), update_ars_ash ar1 out1 ar2 (Some v) (s\<lparr>memory := m'\<rparr>))"
    using c3x_ram.load_two_words [OF assms(1,7,8)] by blast
  note p = pointer_updates [of "s\<lparr>memory := m\<rparr>" ar1 ar2 out1 v] pointer_updates [of "s\<lparr>memory := m'\<rparr>" ar1 ar2 out1 v]
  have lsh: "\<exists>t. LSH3_execute (ram_port ps) (Src_indir md1 ar1) (Src_indir md2 ar2) dst s = (Inr (), t) \<and> GetAR23_0 ar2 t = v"
    using p(1,3) assms(2-5) d v
    by (auto simp: LSH3_execute_def with_sources_def m GetAR23_0_def REG_AR0_def write_result_frame simp del: load_sources.simps split: prod.split)
  have ash: "\<exists>u. ASH3_execute (ram_port ps) (Src_indir md1 ar1) (Src_indir md2 ar2) dst s = (Inr (), u) \<and> GetAR ar2 u = GetAR ar2 s"
    using p(6,8) assms(2-5) d
    by (auto simp: ASH3_execute_def m' GetAR_def REG_AR0_def write_result_frame simp del: load_sources.simps split: prod.split)
  show ?thesis using lsh ash by blast
qed

theorem second_pointer_update_witness:
  "\<exists>s t u :: 32 ram c3x_cpu. LSH3_execute (ram_port 4096) (Src_indir 4 0) (Src_indir 4 1) 2 s = (Inr (), t) \<and> GetAR23_0 1 t = 0x101 \<and>
    ASH3_execute (ram_port 4096) (Src_indir 4 0) (Src_indir 4 1) 2 s = (Inr (), u) \<and> GetAR 1 u = 0x100"
proof -
  define s where "s = SetReg 9 0x100 (machine_at 0 init_regs (memory (c3x_example 0)))"
  have s: "c3x_ram_ok 4096 (memory s)" "regs_ok (regs s)" using c3x_example_ok(1) init_regs_ok by (simp_all add: s_def)
  have ar: "GetReg 9 s = 0x100" "GetReg 8 s = 0"
    using GetReg_SetReg [of "machine_at 0 init_regs (memory (c3x_example 0))"] init_regs_ok init_regs_zero(4)
    by (simp_all add: s_def write_mask_plain)
  have ea: "ComputeIndirEA 4 0 1 s = Some (0, Some 1)" "ComputeIndirEA 4 1 1 s = Some (0x100, Some 0x101)"
    by (simp_all add: ComputeIndirEA_def Let_def GetAR23_0_def REG_AR0_def ar ADDRESS_MASK_def)
  show ?thesis
    using second_pointer_update [OF s _ _ _ _ ea, of 2] by (auto simp: IsExtReg_def GetAR_def REG_AR0_def ar)
qed

end
