(* ===== verification/C3X_Dual.thy ===== *)
theory C3X_Dual
  imports C3X_Parallel C3X_Three
begin

text \<open>
  What the parallel instructions compute: a store next to an operation is the store followed by the operation, a
  load next to a store of the same word exchanges register and memory, and a product next to a sum is exact.
\<close>

section \<open>The store and then the operation\<close>

lemma IntStore_regs: "IntStore port ea v s = (r, t) \<Longrightarrow> GetReg n t = GetReg n s"
  by (auto simp: IntStore_def split: prod.splits bool.splits)

text \<open>The integer operation that is next to the store, on registers.\<close>

fun operation_of :: "'m mem_port \<Rightarrow> c3x_par_op \<Rightarrow> nat \<Rightarrow> nat \<Rightarrow> nat \<Rightarrow> (unit, 'm) action option" where
  "operation_of port ADDI3_STI src1 src2 dst = Some (ADDI3_execute port (Src_reg src1) (Src_reg src2) dst)"
| "operation_of port SUBI3_STI src1 src2 dst = Some (SUBI3_execute port (Src_reg src2) (Src_reg src1) dst)"
| "operation_of port MPYI3_STI src1 src2 dst = Some (MPYI3_execute port (Src_reg src1) (Src_reg src2) dst)"
| "operation_of port AND3_STI src1 src2 dst = Some (AND3_execute port (Src_reg src1) (Src_reg src2) dst)"
| "operation_of port OR3_STI src1 src2 dst = Some (OR3_execute port (Src_reg src1) (Src_reg src2) dst)"
| "operation_of port XOR3_STI src1 src2 dst = Some (XOR3_execute port (Src_reg src1) (Src_reg src2) dst)"
| "operation_of port ASH3_STI src1 src2 dst = Some (ASH3_execute port (Src_reg src2) (Src_reg src1) dst)"
| "operation_of port LSH3_STI src1 src2 dst = Some (LSH3_execute port (Src_reg src2) (Src_reg src1) dst)"
| "operation_of port NEGI_STI src1 src2 dst = Some (NEGI_execute port (Op_reg src2) dst)"
| "operation_of port NOT_STI src1 src2 dst = Some (NOT_execute port (Op_reg src2) dst)"
| "operation_of port _ src1 src2 dst = None"

lemma with_STI_reg:
  assumes "HasReg (f_src3 p)" and "HasReg src2"
  shows "with_STI port f (Src_reg src2) p s =
    act_bind (STI_execute port (f_src3 p) (Op_indir (f_d2_mod p) (f_d2_ar p) 1) s) (\<lambda>_ s. (Inr (), f (GetReg src2 s) s))"
proof -
  obtain x t where a: "indirect_address (f_d2_mod p) (f_d2_ar p) 1 s = (x, t)" by fastforce
  show ?thesis
  proof (cases x)
    case (Inr ea)
    obtain r u where u: "IntStore port ea (GetReg (f_src3 p) t) t = (r, u)" by fastforce
    then show ?thesis using assms a Inr IntStore_regs [OF u]
      by (cases r) (auto simp: with_STI_def with_store_def STI_execute_def simp del: indirect_address.simps)
  qed (use assms a in \<open>auto simp: with_STI_def with_store_def STI_execute_def simp del: indirect_address.simps\<close>)
qed

text \<open>
  C19: an integer operation on registers next to a store does exactly what the store followed by the operation
  does: the same memory accesses, auxiliary registers, result, flags and errors.
\<close>

theorem parallel_store_then_operation:
  assumes "f_dst1 p < 8" and "f_src1 p < 8" and "f_src3 p < 8" and "HasReg src2"
    and "operation_of port i (f_src1 p) src2 (f_dst1 p) = Some act"
  shows "execute_parallel fc port (Op_store i p (Src_reg src2)) s =
    act_bind (STI_execute port (f_src3 p) (Op_indir (f_d2_mod p) (f_d2_ar p) 1) s) (\<lambda>_. act)"
proof -
  have h: "HasReg (f_dst1 p)" "HasReg (f_src1 p)" "HasReg (f_src3 p)" using assms(1-3) by (simp_all add: HasReg_def)
  note w = with_STI_reg [OF h(3) assms(4)]
  show ?thesis
    using assms(4,5) h
    by (cases i; simp)
      (auto simp: w fun_eq_iff ADDI3_STI_execute_def SUBI3_STI_execute_def MPYI3_STI_execute_def AND3_STI_execute_def OR3_STI_execute_def
        XOR3_STI_execute_def ASH3_STI_execute_def LSH3_STI_execute_def NEGI_STI_execute_def NOT_STI_execute_def
        ADDI3_execute_def SUBI3_execute_def MPYI3_execute_def AND3_execute_def OR3_execute_def XOR3_execute_def ASH3_execute_def
        LSH3_execute_def NEGI_execute_def NOT_execute_def with_sources_def with_operand_def product24_def Let_def)
qed

theorem parallel_store_then_operation_witness:
  "execute_parallel default_params no_port (Op_store SUBI3_STI \<lparr>f_dst1 = 0, f_src1 = 1, f_src3 = 0, f_d2_mod = 4, f_d2_ar = 2\<rparr> (Src_reg 8))
      (with_regs [5]) =
    act_bind (STI_execute no_port 0 (Op_indir 4 2 1) (with_regs [5])) (\<lambda>_. SUBI3_execute no_port (Src_reg 8) (Src_reg 1) 0)"
  using parallel_store_then_operation [of "\<lparr>f_dst1 = 0, f_src1 = 1, f_src3 = 0, f_d2_mod = 4, f_d2_ar = 2\<rparr>" 8 no_port SUBI3_STI]
  by (simp add: HasReg_def)

section \<open>Exchanges\<close>

lemma ComputeIndirEA_cong:
  assumes "\<And>k. 8 \<le> k \<Longrightarrow> k < 32 \<Longrightarrow> GetReg k s = GetReg k t" and "ar < 8"
  shows "ComputeIndirEA md ar disp s = ComputeIndirEA md ar disp t"
  using assms by (simp add: ComputeIndirEA_def GetAR23_0_def GetBK_def GetIR0_23_0_def GetIR1_23_0_def REG_AR0_def REG_BK_def
      REG_IR0_def REG_IR1_def)

context word_memory
begin

lemma exchange_word:
  assumes "mem_ok (memory s)" and "ComputeIndirEA md ar 1 s = Some (ea, None)"
  shows "\<exists>m. LDI_STI_execute port (Src_indir md ar) \<lparr>f_dst1 = r, f_src1 = 0, f_src3 = r, f_d2_mod = md, f_d2_ar = ar\<rparr> s =
      (Inr (), SetReg r (word_at (memory s) ea) (s\<lparr>memory := m\<rparr>)) \<and> mem_ok m \<and>
    (\<forall>a. unat a < 2 ^ 24 \<longrightarrow> word_at m a = (if a = ea then GetReg r s else word_at (memory s) a))"
proof -
  have ea: "unat ea < 2 ^ 24" using indirect_addresses_bound [of md ar 1 s] assms(2) by simp
  obtain m1 where m1: "IntLoad port ea s = (Inr (word_at (memory s) ea), s\<lparr>memory := m1\<rparr>)" "mem_ok m1" "word_at m1 = word_at (memory s)"
    using IntLoad_word [OF assms(1) ea] by blast
  obtain m2 where "IntStore port ea (GetReg r s) (s\<lparr>memory := m1\<rparr>) = (Inr (), s\<lparr>memory := m2\<rparr>)" "mem_ok m2"
    "\<forall>a. unat a < 2 ^ 24 \<longrightarrow> word_at m2 a = (if a = ea then GetReg r s else word_at m1 a)"
    using IntStore_word [of "s\<lparr>memory := m1\<rparr>" ea "GetReg r s"] m1(2) ea by auto
  then show ?thesis using m1 assms(2)
    by (auto simp: LDI_STI_execute_def with_STI_def with_store_def load_and_address_def update_ars_def)
qed

end

text \<open>
  C20: a load and a store of one register at one address exchange the register and the word, and no other
  register and no other word changes; a second exchange restores both.
\<close>

theorem exchange_twice:
  assumes "c3x_ram_ok ps (memory s)" and "regs_ok (regs s)" and "ComputeIndirEA md ar 1 s = Some (ea, None)" and "r < 8" and "ar < 8"
  defines "swap \<equiv> LDI_STI_execute (ram_port ps) (Src_indir md ar) \<lparr>f_dst1 = r, f_src1 = 0, f_src3 = r, f_d2_mod = md, f_d2_ar = ar\<rparr>"
  shows "\<exists>s1 s2. swap s = (Inr (), s1) \<and> swap s1 = (Inr (), s2) \<and>
    GetReg r s1 = ram_word ps (memory s) ea \<and> GetReg r s2 = GetReg r s \<and>
    (\<forall>k < 32. k \<noteq> r \<longrightarrow> GetReg k s1 = GetReg k s \<and> GetReg k s2 = GetReg k s) \<and>
    (\<forall>a. unat a < 2 ^ 24 \<longrightarrow> ram_word ps (memory s1) a = (if a = ea then GetReg r s else ram_word ps (memory s) a) \<and>
       ram_word ps (memory s2) a = ram_word ps (memory s) a)"
proof -
  have ea: "unat ea < 2 ^ 24" using indirect_addresses_bound [of md ar 1 s] assms(3) by simp
  obtain m where m: "swap s = (Inr (), SetReg r (ram_word ps (memory s) ea) (s\<lparr>memory := m\<rparr>))" "c3x_ram_ok ps m"
    "\<forall>a. unat a < 2 ^ 24 \<longrightarrow> ram_word ps m a = (if a = ea then GetReg r s else ram_word ps (memory s) a)"
    using c3x_ram.exchange_word [OF assms(1,3), of r] unfolding swap_def by blast
  define s1 where "s1 = SetReg r (ram_word ps (memory s) ea) (s\<lparr>memory := m\<rparr>)"
  have reg: "GetReg k s1 = (if k = r then ram_word ps (memory s) ea else GetReg k s)" if "k < 32" for k
    using that assms(2,4) by (simp add: s1_def GetReg_SetReg write_mask_plain)
  have s1: "c3x_ram_ok ps (memory s1)" "memory s1 = m" "regs_ok (regs s1)" using m(2) assms(2) by (simp_all add: s1_def)
  have "ComputeIndirEA md ar 1 s1 = Some (ea, None)"
    using ComputeIndirEA_cong [of s1 s ar md 1] reg assms(3,4,5) by simp
  from c3x_ram.exchange_word [OF s1(1) this, of r]
  obtain m' where m': "swap s1 = (Inr (), SetReg r (ram_word ps m ea) (s1\<lparr>memory := m'\<rparr>))"
    "\<forall>a. unat a < 2 ^ 24 \<longrightarrow> ram_word ps m' a = (if a = ea then GetReg r s1 else ram_word ps m a)"
    unfolding swap_def s1(2) by blast
  have "GetReg k (SetReg r (ram_word ps m ea) (s1\<lparr>memory := m'\<rparr>)) = GetReg k s" if "k < 32" for k
    using that assms(4) s1(3) m(3) ea reg by (simp add: GetReg_SetReg write_mask_plain)
  then show ?thesis using m m' reg s1(2) assms(4) ea by (auto simp flip: s1_def)
qed

theorem exchange_twice_witness:
  "\<exists>s1 s2. LDI_STI_execute (ram_port 4096) (Src_indir 0x18 0) \<lparr>f_dst1 = 1, f_src1 = 0, f_src3 = 1, f_d2_mod = 0x18, f_d2_ar = 0\<rparr>
      (machine_at 0 init_regs (memory (c3x_example 0))) = (Inr (), s1) \<and>
    LDI_STI_execute (ram_port 4096) (Src_indir 0x18 0) \<lparr>f_dst1 = 1, f_src1 = 0, f_src3 = 1, f_d2_mod = 0x18, f_d2_ar = 0\<rparr> s1 = (Inr (), s2)"
proof -
  define s where "s = machine_at 0 init_regs (memory (c3x_example 0))"
  have s: "c3x_ram_ok 4096 (memory s)" "regs_ok (regs s)" using c3x_example_ok(1) init_regs_ok by (simp_all add: s_def)
  have "ComputeIndirEA 0x18 0 1 s = Some (GetAR23_0 0 s, None)" by (simp add: ComputeIndirEA_def Let_def)
  then show ?thesis using exchange_twice [OF s, where md = "0x18" and ar = 0 and r = 1] by (auto simp: s_def)
qed

section \<open>Products of 24 bits\<close>

text \<open>The factors are the low 24 bits as signed numbers.\<close>

definition factor24 :: "u32 \<Rightarrow> int" where
  "factor24 v = signed_take_bit 23 (uint v)"

lemma factor24_bounds: "- (2 ^ 23) \<le> factor24 v" "factor24 v < 2 ^ 23"
  using signed_take_bit_int_greater_eq_minus_exp [of 23 "uint v"] signed_take_bit_int_less_exp [of 23 "uint v"]
  by (simp_all add: factor24_def)

lemma sint_factor: "sint (SignExtend64 (ucast (v AND 0xffffff :: u32)) 24) = factor24 v"
proof -
  have "signed_take_bit 23 (uint (v AND 0xffffff)) = signed_take_bit 23 (uint v)"
  proof (rule bit_eqI)
    have m: "(0xffffff :: u32) = mask 24" by (simp add: mask_eq_exp_minus_1)
    fix i show "bit (signed_take_bit 23 (uint (v AND 0xffffff))) i = bit (signed_take_bit 23 (uint v)) i"
      unfolding m by (auto simp: bit_simps min_def bit_uint_iff dest: bit_imp_le_length)
  qed
  moreover have "take_bit 64 (uint (v AND 0xffffff)) = uint (v AND 0xffffff)"
    using uint_lt2p [of "v AND 0xffffff"] by (intro take_bit_int_eq_self) simp_all
  ultimately show ?thesis by (simp add: SignExtend64_def sint_sign_extend factor24_def unsigned_ucast_eq)
qed

lemma product24_exact:
  assumes "product24 ovm a b = (r, ov, neg)"
  defines "z \<equiv> factor24 a * factor24 b"
  shows "r = word_of_int (if ovm then clamp_signed TYPE(32) z else z)" and "ov \<longleftrightarrow> \<not> in_signed TYPE(32) z" and "neg \<longleftrightarrow> z < 0"
proof -
  let ?r64 = "SignExtend64 (ucast (a AND 0xffffff)) 24 * SignExtend64 (ucast (b AND 0xffffff)) 24"
  have "\<bar>factor24 a\<bar> \<le> 2 ^ 23" "\<bar>factor24 b\<bar> \<le> 2 ^ 23" using factor24_bounds [of a] factor24_bounds [of b] by simp_all
  then have "\<bar>z\<bar> \<le> 2 ^ 23 * 2 ^ 23" unfolding z_def abs_mult by (intro mult_mono) simp_all
  then have z: "- (2 ^ 46) \<le> z" "z \<le> 2 ^ 46" by simp_all
  have r64: "?r64 = word_of_int z" by (simp add: z_def wi_hom_mult [symmetric] sint_factor [symmetric])
  have sz: "sint ?r64 = z" unfolding r64 using z by (simp add: signed_of_int signed_take_bit_int_eq_self)
  have lo: "ucast ?r64 = (word_of_int z :: u32)" unfolding r64 by (rule bit_word_eqI) (simp add: bit_simps)
  define l where "l = sint (word_of_int z :: u32)"
  have l: "z mod 2 ^ 32 = l mod 2 ^ 32" "- (2 ^ 31) \<le> l" "l < 2 ^ 31"
    using sint_range_size [of "word_of_int z :: u32"]
    by (simp_all add: l_def word_size signed_of_int signed_take_bit_eq_take_bit_shift take_bit_eq_mod mod_simps)
  have ucast_sint: "ucast w = (word_of_int (sint w) :: u32)" for w :: u64
    by (rule bit_word_eqI) (simp add: bit_simps min_def)
  have hi: "ucast (signed_drop_bit 32 ?r64) = (word_of_int (z div 2 ^ 32) :: u32)"
    unfolding ucast_sint sint_signed_drop_bit_eq sz by (simp add: drop_bit_eq_div)
  have top: "signed_drop_bit 31 (word_of_int z :: u32) = word_of_int (l div 2 ^ 31)"
  proof -
    have "w = word_of_int (sint w)" for w :: u32 by (rule bit_word_eqI) (simp add: bit_simps min_def)
    then have "signed_drop_bit 31 (word_of_int z :: u32) = word_of_int (sint (signed_drop_bit 31 (word_of_int z :: u32)))" .
    then show ?thesis by (simp only: sint_signed_drop_bit_eq drop_bit_eq_div l_def)
  qed
  have inj: "word_of_int x = (word_of_int y :: u32) \<longleftrightarrow> x = y" if "- (2 ^ 31) \<le> x" "x < 2 ^ 31" "- (2 ^ 31) \<le> y" "y < 2 ^ 31" for x y :: int
  proof -
    have "sint (word_of_int x :: u32) = x" "sint (word_of_int y :: u32) = y"
      using that by (simp_all add: signed_of_int signed_take_bit_int_eq_self)
    then show ?thesis by metis
  qed
  have d: "- (2 ^ 31) \<le> z div 2 ^ 32" "z div 2 ^ 32 < 2 ^ 31" "- (2 ^ 31) \<le> l div 2 ^ 31" "l div 2 ^ 31 < 2 ^ 31"
    using z l(2,3) by simp_all
  have in_range: "in_signed TYPE(32) z \<longleftrightarrow> - (2 ^ 31) \<le> z \<and> z < 2 ^ 31" by (simp add: in_signed_def half_def)
  have ov: "word_of_int (l div 2 ^ 31) \<noteq> (word_of_int (z div 2 ^ 32) :: u32) \<longleftrightarrow> \<not> in_signed TYPE(32) z"
  proof (cases "in_signed TYPE(32) z")
    case True
    then have "z = l" using in_range by (simp add: l_def signed_of_int signed_take_bit_int_eq_self)
    moreover have "x div n = (if x < 0 then - 1 else 0)" if "- n \<le> x" "x < n" for x n :: int
      using that int_div_pos_eq [of x n "- 1" "x + n"] by (simp add: div_pos_pos_trivial)
    from this [of "2 ^ 31" l] this [of "2 ^ 32" l] have "l div 2 ^ 31 = l div 2 ^ 32" using l(2,3) by simp
    ultimately have "l div 2 ^ 31 = z div 2 ^ 32" by simp
    then show ?thesis using True by simp
  next
    case False
    have "z = 2 ^ 32 * (z div 2 ^ 32) + l mod 2 ^ 32" using l(1) by (metis mult_div_mod_eq)
    then have "l div 2 ^ 31 \<noteq> z div 2 ^ 32" 
    proof (cases "0 \<le> l")
      case True
      then show ?thesis using False in_range l(2,3) \<open>z = 2 ^ 32 * (z div 2 ^ 32) + l mod 2 ^ 32\<close>
        by (auto simp: div_pos_pos_trivial)
    next
      case False
      then have "l mod 2 ^ 32 = l + 2 ^ 32" "l div 2 ^ 31 = - 1"
        using l(2) int_mod_pos_eq [of l "2 ^ 32" "- 1" "l + 2 ^ 32"] int_div_pos_eq [of l "2 ^ 31" "- 1" "l + 2 ^ 31"] by simp_all
      then show ?thesis using \<open>\<not> in_signed TYPE(32) z\<close> in_range l(2,3) \<open>z = 2 ^ 32 * (z div 2 ^ 32) + l mod 2 ^ 32\<close> by auto
    qed
    then show ?thesis using False inj d by simp
  qed
  have p: "r = (if ovm \<and> ov then (if z < 0 then 0x80000000 else 0x7fffffff) else word_of_int z)"
    "ov \<longleftrightarrow> word_of_int (l div 2 ^ 31) \<noteq> (word_of_int (z div 2 ^ 32) :: u32)" "neg \<longleftrightarrow> z < 0"
    using assms(1) unfolding product24_def Let_def sz lo hi top by auto
  show "ov \<longleftrightarrow> \<not> in_signed TYPE(32) z" and "neg \<longleftrightarrow> z < 0" using p ov by simp_all
  then show "r = word_of_int (if ovm then clamp_signed TYPE(32) z else z)"
    using p(1) by (auto simp: clamp_in_signed) (auto simp: clamp_signed_def in_signed_def half_def)
qed

section \<open>A product and a sum at once\<close>

definition mpy_flags_mask :: u32 where "mpy_flags_mask = M_ST_LV OR M_ST_V"

lemma mpy_masks: "bit mpy_flags_mask i \<longleftrightarrow> i \<in> {1, 5}"
proof -
  have "\<forall>i \<in> set [0..<32]. bit mpy_flags_mask i = (i \<in> {1, 5})" by code_simp
  moreover have "\<not> bit mpy_flags_mask i" if "\<not> i < 32" using bit_imp_le_length [of mpy_flags_mask i] that by auto
  ultimately show ?thesis by (cases "i < 32"; force)
qed

lemma sint_word: "w = word_of_int (sint (w :: u32))"
  by (rule bit_word_eqI) (simp add: bit_simps min_def)

lemma ovm_word: "sint (w :: u32) = ovm_value ovm z \<Longrightarrow> w = word_of_int (if ovm then clamp_signed TYPE(32) z else z)"
proof -
  have "(word_of_int (wrap_signed TYPE(32) z) :: u32) = word_of_int z"
    by (auto simp: wrap_signed_def half_def word_of_int_eq_iff take_bit_eq_mod mod_simps)
  then show "sint w = ovm_value ovm z \<Longrightarrow> w = word_of_int (if ovm then clamp_signed TYPE(32) z else z)"
    using sint_word [of w] by (simp add: ovm_value_def split: if_splits)
qed

text \<open>The exact sum or difference of the terms.\<close>

fun term_sum :: "c3x_mpy_op \<Rightarrow> u32 \<Rightarrow> u32 \<Rightarrow> int option" where
  "term_sum MPYI3_ADDI3 d c = Some (sint d + sint c)"
| "term_sum MPYI3_SUBI3 d c = Some (sint d - sint c)"
| "term_sum _ d c = None"

lemma mpy_sum_exact:
  "let r = (if ovm then SignedSatAdd32 d c 0 else SignedAdd32 d c 0); z = sint d + sint c
   in result r = word_of_int (if ovm then clamp_signed TYPE(32) z else z) \<and> overflow r = of_bool (\<not> in_signed TYPE(32) z)"
  "let r = (if ovm then SignedSatSub32 d c 0 else SignedSub32 d c 0); z = sint d - sint c
   in result r = word_of_int (if ovm then clamp_signed TYPE(32) z else z) \<and> overflow r = of_bool (\<not> in_signed TYPE(32) z)"
  using add_ovm_exact [of 0 ovm d c] sub_ovm_exact [of 0 ovm d c]
  by (auto simp: exact_out_def add_ovm_def sub_ovm_def Let_def dest: ovm_word)

lemma mpyi_with_run:
  assumes "source_address a3 s = Some (ea3, out3)" and "source_address a4 s = Some (ea4, out4)"
    and "source_value port a3 ea3 (update_ars (source_ar a3) out3 (source_ar a4) out4 s) = (Inr v3, s3)"
    and "source_value port a4 ea4 s3 = (Inr v4, t)"
    and "par_operands True (m_p p) (GetReg (m_src1 p) t) (GetReg (m_src2 p) t) v3 v4 = ((a, b), (d, c))"
    and "product24 (GetST_OVM t) a b = (r1, ov1, neg)" and "f d c (GetST_OVM t) = r2" and "overflow r2 = of_bool ov2"
  shows "mpyi_with f port p a3 a4 s = (Inr (), GenFlags 0 RESET_UFNZV mpy_flags_mask (of_bool False) (of_bool False) (of_bool (ov1 \<or> ov2))
    (SetReg (mpy_dst2 p) (result r2) (SetReg (mpy_dst1 p) r1 t)))"
  using assms by (cases ov1; cases ov2) (simp_all add: mpyi_with_def mpy_flags_mask_def)

lemma mpy_dst_cases: "mpy_dst1 p < 2" "2 \<le> mpy_dst2 p" "mpy_dst2 p < 4"
  by (simp_all add: mpy_dst1_def mpy_dst2_def)

text \<open>
  C18: an integer product next to a sum or a difference writes both exact results of the values before the
  instruction, each clamped to 32 bits in the saturating mode and wrapped around otherwise; the overflow flag is
  set when one of them does not fit, it is latched, and the carry and all other registers are kept.
\<close>

theorem multiply_accumulate:
  assumes "source_address a3 s = Some (ea3, out3)" and "source_address a4 s = Some (ea4, out4)"
    and "source_value port a3 ea3 (update_ars (source_ar a3) out3 (source_ar a4) out4 s) = (Inr v3, s3)"
    and "source_value port a4 ea4 s3 = (Inr v4, t)" and "regs_ok (regs t)"
    and "par_operands True (m_p p) (GetReg (m_src1 p) t) (GetReg (m_src2 p) t) v3 v4 = ((a, b), (d, c))"
    and "term_sum i d c = Some z2"
  defines "z1 \<equiv> factor24 a * factor24 b" and "written \<equiv> \<lambda>z. word_of_int (if GetST_OVM t then clamp_signed TYPE(32) z else z)"
    and "ov \<equiv> \<not> in_signed TYPE(32) (factor24 a * factor24 b) \<or> \<not> in_signed TYPE(32) z2"
  shows "\<exists>s'. execute_parallel fc port (Mpy i p a3 a4) s = (Inr (), s') \<and>
    GetReg (mpy_dst1 p) s' = written z1 \<and> GetReg (mpy_dst2 p) s' = written z2 \<and>
    (GetST_V s' \<longleftrightarrow> ov) \<and> (GetST_LV s' \<longleftrightarrow> GetST_LV t \<or> ov) \<and> (GetST_C s' \<longleftrightarrow> GetST_C t) \<and>
    \<not> GetST_N s' \<and> \<not> bit (GetST s') ST_Z \<and> \<not> GetST_UF s' \<and>
    (\<forall>k < 32. k \<notin> {mpy_dst1 p, mpy_dst2 p, REG_ST} \<longrightarrow> GetReg k s' = GetReg k t) \<and> s' = t\<lparr>regs := regs s'\<rparr>"
proof -
  obtain f where f: "\<And>s. execute_parallel fc port (Mpy i p a3 a4) s = mpyi_with f port p a3 a4 s"
    "result (f d c (GetST_OVM t)) = written z2" "overflow (f d c (GetST_OVM t)) = of_bool (\<not> in_signed TYPE(32) z2)"
  proof (cases i)
    case MPYI3_ADDI3
    then show thesis
      using that [of "\<lambda>d c ovm. if ovm then SignedSatAdd32 d c 0 else SignedAdd32 d c 0"] assms(7) mpy_sum_exact(1) [of "GetST_OVM t" d c]
      by (simp add: MPYI3_ADDI3_execute_def Let_def written_def)
  next
    case MPYI3_SUBI3
    then show thesis
      using that [of "\<lambda>d c ovm. if ovm then SignedSatSub32 d c 0 else SignedSub32 d c 0"] assms(7) mpy_sum_exact(2) [of "GetST_OVM t" d c]
      by (simp add: MPYI3_SUBI3_execute_def Let_def written_def)
  qed (use assms(7) in simp_all)
  obtain r1 ov1 neg where m: "product24 (GetST_OVM t) a b = (r1, ov1, neg)" by (metis prod_cases3)
  note e = product24_exact [OF m]
  define u where "u = SetReg (mpy_dst2 p) (written z2) (SetReg (mpy_dst1 p) (written z1) t)"
  define s' where "s' = GenFlags 0 RESET_UFNZV mpy_flags_mask (of_bool False) (of_bool False) (of_bool ov) u"
  have run: "execute_parallel fc port (Mpy i p a3 a4) s = (Inr (), s')"
    using mpyi_with_run [where f = f, OF assms(1-4,6) m refl f(3)] e(1,2) by (simp add: f(1,2) s'_def u_def ov_def written_def z1_def)
  note d = mpy_dst_cases [of p]
  have u: "regs_ok (regs u)" "GetST u = GetST t" using assms(5) d by (simp_all add: u_def GetST_SetReg REG_ST_def)
  have reg: "GetReg k s' = (if k = mpy_dst1 p then written z1 else if k = mpy_dst2 p then written z2 else GetReg k t)"
    if "k < 32" "k \<noteq> REG_ST" for k
    using that u assms(5) d by (auto simp: s'_def GetReg_GenFlags) (auto simp: u_def GetReg_SetReg write_mask_plain)
  have flag: "bit (GetST s') i \<longleftrightarrow> bit (GetST t) i \<and> i \<notin> {1, 2, 3, 4} \<or> i \<in> {1, 5} \<and> (i = 1 \<or> i = 5) \<and> ov" if "i \<in> {0, 1, 2, 3, 4, 5}" for i
    using that u(2) unfolding s'_def
    by (subst GenFlags_bit [OF u(1)]) (auto simp: ST_writable sum_masks mpy_masks st_bits)
  have "s' = t\<lparr>regs := regs s'\<rparr>" by (simp add: s'_def u_def SetReg_def GenFlags_def SetST_def Let_def)
  then show ?thesis
    using run reg d by (auto simp: GetST_V_def GetST_LV_def GetST_C_def GetST_N_def GetST_UF_def flag st_bits REG_ST_def)
qed

theorem multiply_accumulate_witness:
  "\<exists>s'. execute_parallel default_params no_port
      (Mpy MPYI3_ADDI3 \<lparr>m_p = 0, m_d1 = 0, m_d2 = 0, m_src1 = 0, m_src2 = 1\<rparr> (Src_reg 4) (Src_reg 5))
      (with_regs [1, 2, 0, 0, 3, 0xfffffffe]) = (Inr (), s') \<and>
    GetReg 0 s' = 0xfffffffa \<and> GetReg 2 s' = 3 \<and> \<not> GetST_V s'"
proof -
  define s where "s = with_regs [1, 2, 0, 0, 3, 0xfffffffe]"
  define p where "p = \<lparr>m_p = 0, m_d1 = 0, m_d2 = 0, m_src1 = 0, m_src2 = 1\<rparr>"
  have v: "GetReg 4 s = 3" "GetReg 5 s = 0xfffffffe" "GetReg 0 s = 1" "GetReg (Suc 0) s = 2" "\<not> GetST_OVM s"
    unfolding s_def by code_simp+
  have a: "source_address (Src_reg 4) s = Some (0, None)" "source_address (Src_reg 5) s = Some (0, None)"
    by (simp_all add: HasReg_def)
  have val: "source_value no_port (Src_reg 4) 0 (update_ars (source_ar (Src_reg 4)) None (source_ar (Src_reg 5)) None s) = (Inr 3, s)"
    "source_value no_port (Src_reg 5) 0 s = (Inr 0xfffffffe, s)" by (simp_all add: update_ars_def v)
  have op: "par_operands True (m_p p) (GetReg (m_src1 p) s) (GetReg (m_src2 p) s) 3 0xfffffffe = ((3, 0xfffffffe), (1, 2))"
    using v by (simp add: par_operands_def p_def)
  have z: "factor24 3 * factor24 0xfffffffe = - 6" "term_sum MPYI3_ADDI3 1 2 = Some 3" by code_simp+
  show ?thesis
    using multiply_accumulate [OF a val _ op z(2), of default_params] with_regs_ok [of "[1, 2, 0, 0, 3, 0xfffffffe]"]
    unfolding s_def [symmetric] p_def [symmetric] z(1)
    by (auto simp: v p_def mpy_dst1_def mpy_dst2_def in_signed_def half_def)
qed

end
