(* ===== verification/C3X_Division.thy ===== *)
theory C3X_Division
  imports C3X_Compute C3X_Programs
begin

text \<open>
  The division of the TMS320C3X: the instruction \<open>SUBC\<close> repeated by \<open>RPTS\<close>, executed by the processor with
  its integer instructions.
\<close>

section \<open>The processor with its integer instructions\<close>

definition integer_env :: "'m c3x_env \<Rightarrow> 'm c3x_env" where
  "integer_env env = env\<lparr>other_insn := (\<lambda>w. case decode_integer w of
     Some i \<Rightarrow> execute_integer (env_port env) i | None \<Rightarrow> other_insn env w)\<rparr>"

section \<open>Repeated conditional subtraction\<close>

definition subc_step :: "u32 \<Rightarrow> u32 \<Rightarrow> u32" where
  "subc_step v d = (if v \<le> d then push_bit 1 (d - v) OR 1 else push_bit 1 d)"

lemma unat_subc_step:
  assumes "unat d < 2 * unat v" and "unat v \<le> 2 ^ 31"
  shows "unat (subc_step v d) = (if unat v \<le> unat d then 2 * (unat d - unat v) + 1 else 2 * unat d)"
proof -
  have double: "unat e < 2 ^ 31 \<Longrightarrow> unat (push_bit 1 e) = 2 * unat e" for e :: u32
    by (simp add: push_bit_eq_mult unat_word_ariths)
  have odd: "unat e < 2 ^ 31 \<Longrightarrow> unat (push_bit 1 e OR 1) = 2 * unat e + 1" for e :: u32
  proof -
    assume "unat e < 2 ^ 31"
    moreover have "push_bit 1 e OR 1 = push_bit 1 e + 1"
      by (rule disjunctive_add [symmetric]) (auto simp: bit_push_bit_iff bit_1_iff simp del: push_bit_Suc)
    ultimately show ?thesis using double [of e] by (simp add: unat_word_ariths)
  qed
  have "unat (d - v) = unat d - unat v" if "unat v \<le> unat d"
    using that by (simp add: unat_sub word_le_nat_alt)
  then show ?thesis using assms double [of d] odd [of "d - v"] by (simp add: subc_step_def word_le_nat_alt)
qed

lemma halved_divisor:
  assumes "0 < (m :: nat)"
  shows "n mod m = (if m \<le> n mod (2 * m) then n mod (2 * m) - m else n mod (2 * m))"
    and "n div m = 2 * (n div (2 * m)) + (if m \<le> n mod (2 * m) then 1 else 0)"
proof -
  define q r where "q = n div (2 * m)" and "r = n mod (2 * m)"
  have n: "n = m * (2 * q) + r" "r < 2 * m"
    using div_mult_mod_eq [of n "2 * m"] assms by (simp_all add: q_def r_def algebra_simps)
  have unique: "n div m = a \<and> n mod m = b" if "n = m * a + b" "b < m" for a b using that by simp
  have "n div m = 2 * q + (if m \<le> r then 1 else 0) \<and> n mod m = (if m \<le> r then r - m else r)"
  proof (cases "m \<le> r")
    case True
    then have "n = m * (2 * q + 1) + (r - m)" "r - m < m" using n by simp_all
    then show ?thesis using True unique by presburger
  next
    case False
    then show ?thesis using unique [of "2 * q" r] n(1) by simp
  qed
  then show "n mod m = (if m \<le> n mod (2 * m) then n mod (2 * m) - m else n mod (2 * m))"
    and "n div m = 2 * (n div (2 * m)) + (if m \<le> n mod (2 * m) then 1 else 0)" by (simp_all add: q_def r_def)
qed

text \<open>
  After \<open>j\<close> steps with the divisor \<open>b\<close> shifted left by \<open>k\<close>, the low \<open>j\<close> bits are the quotient by the divisor
  shifted by one more than what is left, and the remainder stands above them.
\<close>

lemma subc_steps:
  assumes v: "unat v = b * 2 ^ k" and d: "unat d < 2 * unat v" and le: "unat v \<le> 2 ^ 31" and b: "0 < b"
  shows "j \<le> k + 1 \<Longrightarrow> unat ((subc_step v ^^ j) d) =
    2 ^ j * (unat d mod (b * 2 ^ (k + 1 - j))) + unat d div (b * 2 ^ (k + 1 - j))"
proof (induction j)
  case 0
  then show ?case using d v by simp
next
  case (Suc j)
  define m where "m = b * 2 ^ (k - j)"
  define n where "n = unat d"
  define x where "x = unat ((subc_step v ^^ j) d)"
  have jk: "j \<le> k" using Suc.prems by simp
  have m2: "b * 2 ^ (k + 1 - j) = 2 * m" using jk by (simp add: m_def Suc_diff_le)
  have vm: "unat v = 2 ^ j * m" using jk by (simp add: v m_def flip: power_add)
  have m0: "0 < m" using b by (simp add: m_def)
  have x: "x = 2 ^ j * (n mod (2 * m)) + n div (2 * m)" using Suc.IH jk unfolding m2 by (simp add: x_def n_def)
  have q: "n div (2 * m) < 2 ^ j" 
    using d m0 by (simp add: vm n_def less_mult_imp_div_less algebra_simps)
  have lt: "x < 2 * unat v"
  proof -
    have "n mod (2 * m) + 1 \<le> 2 * m" using m0 by (simp add: Suc_le_eq)
    then have "2 ^ j * (n mod (2 * m)) + 2 ^ j \<le> 2 ^ j * (2 * m)"
      by (metis distrib_left mult_le_mono2 nat_mult_1_right)
    then show ?thesis using q x by (simp add: vm)
  qed
  have ge: "unat v \<le> x \<longleftrightarrow> m \<le> n mod (2 * m)"
  proof
    assume "m \<le> n mod (2 * m)"
    then show "unat v \<le> x" by (simp add: vm x trans_le_add1)
  next
    assume "unat v \<le> x"
    then have "2 ^ j * m < 2 ^ j * (n mod (2 * m)) + 2 ^ j" using q by (simp add: vm x)
    then have "2 ^ j * m < 2 ^ j * (n mod (2 * m) + 1)" by (simp add: algebra_simps)
    then have "m < n mod (2 * m) + 1" by (simp only: mult_less_cancel1)
    then show "m \<le> n mod (2 * m)" by simp
  qed
  have "unat ((subc_step v ^^ Suc j) d) = (if unat v \<le> x then 2 * (x - unat v) + 1 else 2 * x)"
    using unat_subc_step [of "(subc_step v ^^ j) d" v] lt le by (simp add: x_def)
  moreover note halved_divisor [OF m0, of n]
  ultimately show ?case
    using ge jk by (simp add: x vm n_def [symmetric] algebra_simps flip: m_def)
qed

section \<open>The program\<close>

definition subc_pair :: "u32 list \<Rightarrow> u32 list" where
  "subc_pair l = [subc_step (l ! 1) (l ! 0), l ! 1]"

lemma subc_pair_pow: "(subc_pair ^^ j) [d, v] = [(subc_step v ^^ j) d, v]"
  by (induction j) (simp_all add: subc_pair_def)

lemma SUBC_repeatable:
  assumes w: "decode_control w = None" "decode_integer w = Some (Int_2op SUBC (Op_reg src) dst)"
    and r: "HasReg src" "counted_reg src" "IsExtReg dst" "src \<noteq> dst"
  shows "repeatable (integer_env env) w [dst, src] subc_pair"
  unfolding repeatable_def
proof (intro allI impI)
  fix s :: "'a c3x_cpu"
  assume ok: "regs_ok (regs s)"
  define v where "v = subc_step (GetReg src s) (GetReg dst s)"
  have d: "dst < 32" "dst \<noteq> 21" "dst \<noteq> 27" "HasReg dst" "write_mask dst = - 1" "src < 32"
    using r write_mask_plain [of dst] by (auto simp: IsExtReg_def HasReg_def)
  have "execute_insn (integer_env env) w s = (Inr (), SetReg dst v s)"
    using w r(1) d(4) by (simp add: execute_insn_def integer_env_def SUBC_execute_def with_operand_def v_def subc_step_def Let_def)
  moreover have "GetReg n (SetReg dst v s) = (if n = dst then v else GetReg n s)" if "n < 32" for n
    using GetReg_SetReg [OF ok that d(1)] d(5) by simp
  ultimately show "\<exists>q. execute_insn (integer_env env) w s = (Inr (), s\<lparr>regs := q\<rparr>) \<and> regs_ok q \<and>
     GetST_RM (s\<lparr>regs := q\<rparr>) = GetST_RM s \<and> GetST_CC (s\<lparr>regs := q\<rparr>) = GetST_CC s \<and>
     GetRC (s\<lparr>regs := q\<rparr>) = GetRC s \<and> reads [dst, src] (s\<lparr>regs := q\<rparr>) = subc_pair (reads [dst, src] s)"
    using ok d r regs_ok_SetReg [OF ok, of dst v]
    by (intro exI [of _ "regs (SetReg dst v s)"])
      (simp add: GetST_RM_def GetST_CC_def c3x_registers reads_def subc_pair_def v_def SetReg_def)
qed

text \<open>
  C5: \<open>RPTS k\<close> and \<open>SUBC\<close> divide: with the divisor shifted left by \<open>k\<close>, the repeated instruction leaves the
  quotient in the low \<open>k + 1\<close> bits of the destination and the remainder above it, keeps the divisor and goes
  on behind the repeated instruction.
\<close>

theorem repeated_subc_divides:
  assumes "machine_ok (integer_env env) (c3x_ram_ok ps) (ram_word ps) A s" and "env_port env = ram_port ps"
    and "reg_pc s \<in> A" and "reg_pc s + 1 \<in> A"
    and "\<not> interrupt_taken s" and "\<not> GetST_RM s" and "delay_before_branching s = 0"
    and "decode_control (ram_word ps (memory s) (reg_pc s)) = Some (RPTS_imm k)"
    and "decode_control (ram_word ps (memory s) (reg_pc s + 1)) = None"
    and "decode_integer (ram_word ps (memory s) (reg_pc s + 1)) = Some (Int_2op SUBC (Op_reg src) dst)"
    and "HasReg src" and "counted_reg src" and "IsExtReg dst" and "src \<noteq> dst"
    and "unat (GetReg src s) = b * 2 ^ unat k" and "0 < b" and "unat (GetReg src s) \<le> 2 ^ 31"
    and "unat (GetReg dst s) < 2 * unat (GetReg src s)"
  shows "let s' = (StepInstruction (integer_env env) ^^ (unat k + 2)) s in
    unat (GetReg dst s') = 2 ^ (unat k + 1) * (unat (GetReg dst s) mod b) + unat (GetReg dst s) div b \<and>
    GetReg src s' = GetReg src s \<and> reg_pc s' = reg_pc s + 2"
proof -
  have "1 * 2 ^ unat k \<le> b * 2 ^ unat k" using assms(16) by (intro mult_le_mono1) simp
  then have "(2 :: nat) ^ unat k \<le> 2 ^ 31" using assms(15,17) by linarith
  then have k: "unat k < 2 ^ 31" using power_le_imp_le_exp [of "2 :: nat" "unat k" 31] by simp
  have port: "env_port (integer_env env) = ram_port ps" by (simp add: integer_env_def assms(2))
  have regs: "counted_regs [dst, src]"
    using assms(12,13) by (auto simp: counted_regs_def counted_reg_def IsExtReg_def reg_numbers)
  define s' where "s' = (StepInstruction (integer_env env) ^^ (unat k + 2)) s"
  have "reg_pc s' = reg_pc s + 2 \<and> reads [dst, src] s' = (subc_pair ^^ (unat k + 1)) (reads [dst, src] s)"
    using c3x_ram.rpts_run [OF assms(1) port assms(3-8) k SUBC_repeatable [OF assms(9-14)] regs]
    unfolding s'_def by blast
  then have "reg_pc s' = reg_pc s + 2" "GetReg src s' = GetReg src s"
    "GetReg dst s' = (subc_step (GetReg src s) ^^ (unat k + 1)) (GetReg dst s)"
    unfolding reads_def list.map subc_pair_pow by simp_all
  then show ?thesis
    using subc_steps [OF assms(15,18,17,16), of "unat k + 1"] by (simp add: Let_def s'_def)
qed

lemma division_regs: "regs_ok (init_regs[0 := SetLo 100 (init_regs ! 0), 1 := SetLo 56 (init_regs ! 1)])"
  using regs_ok_SetReg [of "machine_at 0 (init_regs[0 := SetLo 100 (init_regs ! 0)]) undefined" 1 56]
    regs_ok_SetReg [of "machine_at 0 init_regs undefined" 0 100] init_regs_ok
  by (simp add: SetReg_def)

theorem repeated_subc_divides_witness:
  "\<exists>s. GetReg 0 s = 100 \<and> unat (GetReg 0 ((StepInstruction (integer_env increment_env) ^^ 5) s)) = 2 ^ 4 * 2 + 14"
proof -
  obtain m where m: "c3x_ram_ok 4096 m" "\<forall>a. unat a < 2 ^ 24 \<longrightarrow> map_of [(0x100, 0x13fb0003), (0x101, 0x17000001)] a \<noteq> None \<longrightarrow>
      ram_word 4096 m a = the (map_of [(0x100, 0x13fb0003), (0x101, 0x17000001)] a)"
    using program_in_ram [of "[(0x100, 0x13fb0003), (0x101, 0x17000001)]"] by auto
  have w: "ram_word 4096 m 0x100 = 0x13fb0003" "ram_word 4096 m 0x101 = 0x17000001" using m(2) by simp_all
  define s where "s = machine_at 0x100 (init_regs[0 := SetLo 100 (init_regs ! 0), 1 := SetLo 56 (init_regs ! 1)]) m"
  have r: "GetReg 0 s = 100" "GetReg 1 s = 56" "GetReg 21 s = 0" "GetReg 22 s = 0" "GetReg 23 s = 0"
    unfolding s_def GetReg_machine by code_simp+
  have dec: "decode_control 0x13fb0003 = Some (RPTS_imm 3)" "decode_control 0x17000001 = None"
    "decode_integer 0x17000001 = Some (Int_2op SUBC (Op_reg 1) 0)" by code_simp+
  have "machine_ok (integer_env increment_env) (c3x_ram_ok 4096) (ram_word 4096) code_region s"
    using machine_at_ok [OF m(1) division_regs, of "0x100"] by (simp add: s_def machine_ok_def integer_env_def init_regs_zero)
  then have "unat (GetReg 0 ((StepInstruction (integer_env increment_env) ^^ 5) s)) = 2 ^ 4 * 2 + 14"
    using repeated_subc_divides [of increment_env 4096 code_region s 3 1 0 7] dec r
    by (simp add: s_def w code_region_def interrupt_taken_def GetST_RM_def counted_reg_def HasReg_def IsExtReg_def
        c3x_registers Let_def)
  then show ?thesis using r(1) by blast
qed

end
