(* ===== verification/C3X_Decode.thy ===== *)
theory C3X_Decode
  imports C3X_Parallel C3X_Division
begin

text \<open>
  The instruction sets of the TMS320C3X together. The processor decodes a word against every operation of its
  instruction set files; that no word belongs to two of them makes the order of the trials irrelevant.
\<close>

section \<open>Fields\<close>

lemma wfield_drop: "lo \<le> hi \<Longrightarrow> hi - lo \<le> n \<Longrightarrow> wfield hi (n - (hi - lo)) w = drop_bit (hi - lo) (wfield lo n w)"
  unfolding wfield_def by (rule bit_word_eqI) (auto simp: bit_simps dest: bit_imp_le_length)

lemma wfield_of:
  "wfield 26 6 w = c \<Longrightarrow> wfield 28 4 w = drop_bit 2 c" "wfield 25 7 w = c \<Longrightarrow> wfield 28 4 w = drop_bit 3 c"
  "wfield 24 8 w = c \<Longrightarrow> wfield 28 4 w = drop_bit 4 c" "wfield 21 11 w = c \<Longrightarrow> wfield 28 4 w = drop_bit 7 c"
  "wfield 16 16 w = c \<Longrightarrow> wfield 23 9 w = drop_bit 7 c"
  "wfield 23 9 w = c \<Longrightarrow> wfield 28 4 w = drop_bit 5 c" "wfield 23 9 w = c \<Longrightarrow> wfield 29 3 w = drop_bit 6 c"
  "wfield 28 4 w = c \<Longrightarrow> wfield 29 3 w = drop_bit 1 c" "wfield 29 3 w = c \<Longrightarrow> wfield 30 2 w = drop_bit 1 c"
  using wfield_drop [of 26 28 6 w] wfield_drop [of 25 28 7 w] wfield_drop [of 24 28 8 w] wfield_drop [of 21 28 11 w]
    wfield_drop [of 16 23 16 w] wfield_drop [of 23 28 9 w] wfield_drop [of 23 29 9 w] wfield_drop [of 28 29 4 w]
    wfield_drop [of 29 30 3 w] by simp_all

lemma opcode_field: "wfield 29 3 w = 0 \<Longrightarrow> field 23 6 w = unat (wfield 23 9 w)"
proof -
  assume "wfield 29 3 w = 0"
  then have z: "\<not> bit (wfield 29 3 w) i" for i by simp
  have h: "\<not> bit w (29 + i)" if "i < 3" for i using z [of i] that by (simp add: wfield_def bit_simps)
  have "drop_bit 23 w AND mask 6 = wfield 23 9 w"
    unfolding wfield_def
  proof (rule bit_word_eqI)
    fix i :: nat assume "i < LENGTH(32)"
    show "bit (drop_bit 23 w AND mask 6) i = bit (drop_bit 23 w AND mask 9) i"
      using h [of "i - 6"] by (cases "i < 6"; cases "i < 9") (auto simp: bit_simps not_less)
  qed
  then show ?thesis by (simp add: field_def)
qed

section \<open>The groups of instructions\<close>

definition group_opcodes :: "nat \<Rightarrow> nat set" where
  "group_opcodes g =
     (if g = 0 then {12, 25, 33, 39, 54}
      else if g = 1 then {1, 2, 4, 5, 6, 7, 9, 19, 21, 22, 24, 27, 32, 35, 36, 37, 38, 45, 46, 48, 49, 51, 52, 53}
      else if g = 2 then {13, 14, 15, 16, 17, 18, 28, 29, 30, 31, 40, 41, 42, 43, 44}
      else if g = 3 then {0, 3, 8, 10, 11, 20, 23, 26, 34, 47, 50} else {})"

definition in_group :: "nat \<Rightarrow> u32 \<Rightarrow> bool" where
  "in_group g w \<longleftrightarrow> (wfield 29 3 w = 0 \<and> field 23 6 w \<in> group_opcodes g) \<or>
     (g = 0 \<and> wfield 28 4 w \<in> {6, 7}) \<or> (g = 2 \<and> wfield 28 4 w \<in> {4, 5}) \<or> (g = 4 \<and> wfield 29 3 w = 1) \<or> (g = 5 \<and> wfield 30 2 w \<in> {2, 3})"

lemma groups_disjoint: "in_group g w \<Longrightarrow> in_group h w \<Longrightarrow> g < 6 \<Longrightarrow> h < 6 \<Longrightarrow> g = h"
proof -
  assume g: "in_group g w" "in_group h w" "g < 6" "h < 6"
  have "\<forall>a \<in> set [0..<6]. \<forall>b \<in> set [0..<6]. a \<noteq> b \<longrightarrow> group_opcodes a \<inter> group_opcodes b = {}"
    by (simp add: group_opcodes_def upt_rec)
  then have d: "a < 6 \<Longrightarrow> b < 6 \<Longrightarrow> x \<in> group_opcodes a \<Longrightarrow> x \<in> group_opcodes b \<Longrightarrow> a = b" for a b x
    by (metis IntI atLeast_upt empty_iff lessThan_iff)
  have z: "wfield 28 4 w \<in> {4, 5, 6, 7} \<Longrightarrow> wfield 29 3 w \<in> {2, 3}"
    using wfield_of(8) [of w] by auto
  have y: "wfield 29 3 w \<in> {0, 1, 2, 3} \<Longrightarrow> wfield 30 2 w \<noteq> 2 \<and> wfield 30 2 w \<noteq> 3"
    using wfield_of(9) [of w] by auto
  show "g = h" using g d [of g h] z y by (auto simp: in_group_def)
qed

lemma in_group_opcode:
  "wfield 23 9 w = c \<Longrightarrow> drop_bit 6 c = 0 \<Longrightarrow> unat c \<in> group_opcodes g \<Longrightarrow> in_group g w"
  using wfield_of(7) [of w c] opcode_field [of w] by (simp add: in_group_def)

lemma control_group: "decode_control w \<noteq> None \<Longrightarrow> in_group 0 w"
proof -
  assume a: "decode_control w \<noteq> None"
  have b: "wfield 28 4 w = 6 \<or> wfield 28 4 w = 7 \<or> wfield 23 9 w \<in> {12, 25, 33, 39, 54}"
    using a wfield_of(1-5) [of w]
    unfolding decode_control_def Let_def by (simp split: if_split_asm)
  moreover have "unat c \<in> group_opcodes 0 \<and> drop_bit 6 c = 0" if "c \<in> {12, 25, 33, 39, 54 :: u32}" for c
    using that by (auto simp: group_opcodes_def)
  ultimately show ?thesis using in_group_opcode [of w _ 0] by (auto simp: in_group_def)
qed

lemma integer_group: "decode_integer w \<noteq> None \<Longrightarrow> in_group 1 w"
  unfolding decode_integer_def Let_def in_group_def group_opcodes_def by (simp split: if_split_asm)

lemma load_store_group: "decode_load_store w \<noteq> None \<Longrightarrow> in_group 2 w"
  unfolding decode_load_store_def Let_def in_group_def group_opcodes_def by (simp split: if_split_asm)

lemma float_group: "decode_float w \<noteq> None \<Longrightarrow> in_group 3 w"
  unfolding decode_float_def Let_def in_group_def group_opcodes_def by (simp split: if_split_asm)

lemma three_group: "decode_three w \<noteq> None \<Longrightarrow> in_group 4 w"
  unfolding decode_three_def Let_def in_group_def by (simp split: if_split_asm)

lemma parallel_group: "decode_parallel w \<noteq> None \<Longrightarrow> in_group 5 w"
  unfolding decode_parallel_def Let_def in_group_def by (simp split: if_split_asm)

text \<open>
  C40: every word is an instruction of at most one group: of the control instructions, the integer instructions,
  the loads and stores, the floating-point instructions, the instructions with three operands, or the
  parallel instructions.
\<close>

theorem decoding_unambiguous:
  "length (filter id [decode_control w \<noteq> None, decode_integer w \<noteq> None, decode_load_store w \<noteq> None,
     decode_float w \<noteq> None, decode_three w \<noteq> None, decode_parallel w \<noteq> None]) \<le> 1"
proof -
  let ?gs = "[decode_control w \<noteq> None, decode_integer w \<noteq> None, decode_load_store w \<noteq> None, decode_float w \<noteq> None,
    decode_three w \<noteq> None, decode_parallel w \<noteq> None]"
  have g: "in_group k w" if "k < 6" "?gs ! k" for k
    using that control_group [of w] integer_group [of w] load_store_group [of w] float_group [of w] three_group [of w] parallel_group [of w]
    by (auto simp: less_Suc_eq numeral_eq_Suc)
  then have "\<forall>j < 6. \<forall>k < 6. ?gs ! j \<longrightarrow> ?gs ! k \<longrightarrow> j = k" using groups_disjoint by blast
  then have "\<forall>x \<in> {k. k < length ?gs \<and> id (?gs ! k)}. \<forall>y \<in> {k. k < length ?gs \<and> id (?gs ! k)}. x = y" by simp
  then have "card {k. k < length ?gs \<and> id (?gs ! k)} \<le> Suc 0"
    by (subst card_le_Suc0_iff_eq) simp_all
  then show ?thesis by (simp only: length_filter_conv_card One_nat_def)
qed

section \<open>The processor with these instructions\<close>

text \<open>What is left to the parameter are the words that are no instruction.\<close>

definition data_env :: "c3x_params \<Rightarrow> 'm c3x_env \<Rightarrow> 'm c3x_env" where
  "data_env fc env = env\<lparr>other_insn := (\<lambda>w.
     case decode_integer w of Some i \<Rightarrow> execute_integer (env_port env) i
     | None \<Rightarrow> (case decode_load_store w of Some i \<Rightarrow> execute_load_store fc (env_port env) i
     | None \<Rightarrow> (case decode_float w of Some i \<Rightarrow> execute_float fc (env_port env) i
     | None \<Rightarrow> (case decode_three w of Some (Insn_3op i a b dst) \<Rightarrow> execute_3op fc (env_port env) i a b dst
     | None \<Rightarrow> (case decode_parallel w of Some i \<Rightarrow> execute_parallel fc (env_port env) i
     | None \<Rightarrow> other_insn env w)))))\<rparr>"

lemma data_env_executes:
  "decode_control w = Some i \<Longrightarrow> execute_insn (data_env fc env) w = execute_control (data_env fc env) w i"
  "decode_integer w = Some j \<Longrightarrow> execute_insn (data_env fc env) w = execute_integer (env_port env) j"
  "decode_load_store w = Some k \<Longrightarrow> execute_insn (data_env fc env) w = execute_load_store fc (env_port env) k"
  "decode_float w = Some l \<Longrightarrow> execute_insn (data_env fc env) w = execute_float fc (env_port env) l"
  "decode_three w = Some (Insn_3op n a b dst) \<Longrightarrow> execute_insn (data_env fc env) w = execute_3op fc (env_port env) n a b dst"
  "decode_parallel w = Some i' \<Longrightarrow> execute_insn (data_env fc env) w = execute_parallel fc (env_port env) i'"
proof -
  have d: "\<lbrakk>in_group g w; g < 6; g \<noteq> h; h < 6\<rbrakk> \<Longrightarrow> \<not> in_group h w" for g h using groups_disjoint by blast
  have n: "\<not> in_group 0 w \<Longrightarrow> decode_control w = None" "\<not> in_group 1 w \<Longrightarrow> decode_integer w = None"
    "\<not> in_group 2 w \<Longrightarrow> decode_load_store w = None" "\<not> in_group 3 w \<Longrightarrow> decode_float w = None"
    "\<not> in_group 4 w \<Longrightarrow> decode_three w = None"
    using control_group integer_group load_store_group float_group three_group by blast+
  show "decode_control w = Some i \<Longrightarrow> execute_insn (data_env fc env) w = execute_control (data_env fc env) w i"
    by (rule ext) (simp add: execute_insn_def)
  show "decode_integer w = Some j \<Longrightarrow> execute_insn (data_env fc env) w = execute_integer (env_port env) j"
    using d [OF integer_group, of 0] n by (intro ext) (simp add: execute_insn_def data_env_def)
  show "decode_load_store w = Some k \<Longrightarrow> execute_insn (data_env fc env) w = execute_load_store fc (env_port env) k"
    using d [OF load_store_group, of 0] d [OF load_store_group, of 1] n
    by (intro ext) (simp add: execute_insn_def data_env_def)
  show "decode_float w = Some l \<Longrightarrow> execute_insn (data_env fc env) w = execute_float fc (env_port env) l"
    using d [OF float_group, of 0] d [OF float_group, of 1] d [OF float_group, of 2] n
    by (intro ext) (simp add: execute_insn_def data_env_def)
  show "decode_three w = Some (Insn_3op n a b dst) \<Longrightarrow> execute_insn (data_env fc env) w = execute_3op fc (env_port env) n a b dst"
    using d [OF three_group, of 0] d [OF three_group, of 1] d [OF three_group, of 2] d [OF three_group, of 3] n
    by (intro ext) (simp add: execute_insn_def data_env_def)
  show "decode_parallel w = Some i' \<Longrightarrow> execute_insn (data_env fc env) w = execute_parallel fc (env_port env) i'"
    using d [OF parallel_group, of 0] d [OF parallel_group, of 1] d [OF parallel_group, of 2] d [OF parallel_group, of 3]
      d [OF parallel_group, of 4] n
    by (intro ext) (simp add: execute_insn_def data_env_def)
qed

end
