(* ===== verification/Spec2Isabelle.thy ===== *)
theory Spec2Isabelle
  imports Ring_Queue Replacement Sparse_Memory System_Access Full_Adders Bit_Arithmetic XPS_Timer_TLM RAM_Memory
    C3X_Round C3X_Shift C3X_Stack C3X_Dual C3X_Decode
begin

text \<open>
  \<^bold>\<open>UNISIM: caches, memories, peripherals, arithmetic and a signal processor\<close>

  UNISIM is a library of simulation components in C++. This development models the parts of
  \<open>unisim_lib/unisim\<close> that hold the state of a simulated machine and the arithmetic its
  instruction sets are written with. Paths below are relative to that directory.

  \<^bold>\<open>Parts and theories\<close>

  \<^item> \<open>Prelude\<close>: machine types, byte buffers (\<open>memcpy\<close> as \<open>read_at\<close> and \<open>write_at\<close>), byte
    functions over address ranges (\<open>seg_read\<close>, \<open>seg_upd\<close>), masks and the compile-time logarithms.
  \<^item> \<open>Ring_Queue\<close>: \<open>util/queue\<close>. The ring refines a list; a locale states the queue contract and
    is interpreted on the ring.
  \<^item> \<open>Replacement\<close>: the LRU, pseudo-LRU, round robin and random policies of \<open>util/cache/cache.hh\<close>.
  \<^item> \<open>Sparse_Memory\<close>: \<open>component/cxx/memory/sparse\<close> pages in a map.
  \<^item> \<open>Cache_Structure\<close>, \<open>Cache_Lookup\<close>, \<open>Cache_Hierarchy\<close>, \<open>Cache_Blocks\<close>, \<open>Cache_Fill\<close>,
    \<open>Cache_View\<close>, \<open>Cache_Coherence\<close>, \<open>Cache_Eviction\<close>, \<open>Cache_Access\<close>, \<open>Cache_Correct\<close>,
    \<open>Cache_System\<close>, \<open>Cache_Maintenance\<close>: sets, lines and blocks, the recursive hierarchy of
    \<open>MemorySubSystem\<close> (look-up, fill, eviction, write back, write through, the global operations) as
    a list of caches before a bus. The abstract specification is a flat memory of bytes.
  \<^item> \<open>Memory_Sub_System\<close>, \<open>System_Access\<close>: local memories, loads and stores of any size split at
    line boundaries, and the debug accesses.
  \<^item> \<open>Hash_Table\<close>, \<open>RAM_Memory\<close>: \<open>util/hash_table\<close> and \<open>component/cxx/memory/ram\<close>. A locale states
    what the memory needs of a keyed table.
  \<^item> \<open>Full_Adders\<close>, \<open>Bit_Arithmetic\<close>: \<open>util/arithmetic/arithmetic.hh\<close>, the portable C++ branches.
  \<^item> \<open>Word_Bus\<close>: the debug access loops and register bytes the peripherals share, and the locale
    of their register writes.
  \<^item> \<open>XPS_IntC\<close>: the Xilinx interrupt controller and its wrapper.
  \<^item> \<open>XPS_Timer\<close>, \<open>XPS_Timer_TLM\<close>: the Xilinx timer; its wrapper with the schedule of events, the
    passage of simulated time and the outputs.
  \<^item> \<open>C3X_Register\<close>, \<open>C3X_Mantissa\<close>, \<open>C3X_Float\<close>, \<open>C3X_Sum\<close>, \<open>C3X_Convert\<close>, \<open>C3X_Arith\<close>,
    \<open>C3X_Round\<close>: the 40-bit registers of the TMS320C3X (\<open>processor/tms320c3x/register.tcc\<close>), their
    integer views and their floating-point operations, each with its exact value in the reals.
  \<^item> \<open>C3X_State\<close>, \<open>C3X_Address\<close>, \<open>C3X_Memory\<close>: the register file and its accessors, condition
    codes and flags, circular and indirect addresses, the memory port, the instruction cache
    (\<open>cpu.hh\<close>, \<open>cpu.tcc\<close>). The locale \<open>word_memory\<close> states what the processor needs of its memory.
  \<^item> \<open>C3X_Control\<close>, \<open>C3X_Step\<close>, \<open>C3X_Repeat\<close>, \<open>C3X_Calls\<close>, \<open>C3X_Programs\<close>: the control and power
    instructions (\<open>isa/control.isa\<close>, \<open>isa/power.isa\<close>) and \<open>CPU::StepInstruction\<close>.
  \<^item> \<open>C3X_Operands\<close>, \<open>C3X_Integer\<close>, \<open>C3X_FloatOps\<close>: the instructions with two operands
    (\<open>isa/2op.isa\<close>). The four copies of each instruction in the sources, one for each kind of
    operand, are one definition over the kind of operand; where copies differ the difference is a
    parameter. \<open>C3X_Compute\<close>, \<open>C3X_Shift\<close>, \<open>C3X_Compare\<close>, \<open>C3X_Division\<close> hold their lemmas.
  \<^item> \<open>C3X_Load\<close>, \<open>C3X_Stack\<close>: loads, stores, the stack and the interlocked instructions
    (\<open>isa/load_store.isa\<close>, \<open>isa/interlock.isa\<close>), and what the stack gives back.
  \<^item> \<open>C3X_ThreeOp\<close>, \<open>C3X_Three\<close>: the instructions with three operands (\<open>isa/3op.isa\<close>).
  \<^item> \<open>C3X_Parallel\<close>, \<open>C3X_Dual\<close>: the parallel instructions (\<open>isa/parallel.isa\<close>).
  \<^item> \<open>C3X_Decode\<close>: no word is an instruction of two groups; \<open>data_env\<close> is the processor with all of
    them.

  \<^bold>\<open>How state and operations correspond\<close>

  A class is a record with the fields of the class, an operation a function from the state to the
  result and the new state, a \<open>uint32_t\<close> a \<open>32 word\<close>. Names are those of the sources, with a prefix
  where a name is used twice. Template parameters are configuration records or arguments. An error
  return is a result of a sum, an option or a Boolean, as in the code; a loop that the model cannot
  show to end is a \<open>partial_function\<close> whose value \<open>None\<close> is not returning, and the theorems state
  that it returns (or that it does not). \<open>None\<close> of a peripheral's wrapper is the stop of the
  simulation. Behaviour of the code outside a component is a parameter: the bus of the cache
  hierarchy (\<open>mss_ops\<close>) with the hypotheses a memory behind it satisfies, and the random numbers of
  the random policy. For the processor the parameters are the memory behind \<open>PrRead\<close> and \<open>PrWrite\<close>
  (\<open>mem_port\<close>, with the memory of \<open>RAM_Memory\<close> as one instance), the handler of the software
  interrupt (\<open>c3x_env\<close>) and what is executed for a word outside the control group (\<open>other_insn\<close>),
  which \<open>data_env\<close> gives the value of the data instructions.

  \<^bold>\<open>What the lemmas show\<close>

  Queue, replacement and memories: invariants and the functional effect of every operation; the
  pseudo-LRU policy is shown to select existing ways exactly for powers of two. Caches:
  a coherence relation between all levels and one flat memory, kept by look-ups, fills, evictions,
  loads, stores and the maintenance operations, from which a load returns what was stored last.
  Arithmetic: the results as integers, with carry, overflow and saturation. Peripherals:
  reachable-state invariants over step relations, the values registers take and the levels sent on
  output lines. Processor: floating-point sums and products are the exact ones up to a stated
  rounding, conversions are exact or round down and clamp; a fetch through the instruction cache
  returns the memory; delayed branches, repeats and calls as runs of the step function.
  Instructions: results and flags of sums, shifts and comparisons as integers or reals, every
  condition code as the relation it is named for, a division by repeated subtraction, saved
  registers that come back, the agreement of the forms with two and three operands, parallel
  instructions as sequences. Where the code does not do
  what it is meant to do, the theorem states what it does.

  \<^bold>\<open>Bounds and fuel\<close>

  The recursion of the hierarchy is on its list of caches and needs no fuel. Counts of the sources
  are kept at their width; sizes are below \<open>2 ^ 32\<close> as in the code, page sizes are powers of two,
  counters have at most 32 bits. The \<open>double\<close> quotient of two \<open>sc_time\<close> values in the timer is
  exact below \<open>2 ^ 53\<close> and is modelled by integer division.

  \<^bold>\<open>Not modelled\<close>

  The logs and the inline assembly branches; the input and output files of the memory; transport
  phases, debug transport and direct memory pointers of the TLM wrappers; the cache templates that
  print or collect statistics. Of the TMS320C3X the disassembly, the register names and the reports to
  debuggers. The other processors, kernel, services, loaders, debugging information, other
  peripherals, software floating point and the simulators are listed in the manifest as not
  modelled. Planned next: the flash memories and the number encodings of DWARF.
\<close>

end
